(* ===== verification/Prelude.thy ===== *)
theory Prelude
  imports Main "HOL-Library.Word"
begin

text \<open>
  Shared vocabulary of the development: bytes and byte strings, the result type of fallible
  Rust functions with its sequencing combinator (the \<open>?\<close> operator), slice accesses that
  return \<open>None\<close> out of range, checked \<open>usize\<close> arithmetic, and the big-endian codecs
  (\<open>to_be_bytes\<close>, \<open>from_be_bytes\<close> and the shift-and-or folds of the parsers) with
  their value and round-trip lemmas. Every component theory imports it.
\<close>

unbundle bit_operations_syntax

section \<open>Bytes, collections of rules\<close>

type_synonym byte = "8 word"
type_synonym bytes = "byte list"

named_theorems result_simps \<open>inversion of results built with the sequencing combinator\<close>
named_theorems codec_simps \<open>lengths and values of encoded byte strings\<close>
named_theorems machine_defs \<open>definitions of the applet machines, unfolded together\<close>

section \<open>Results\<close>

text \<open>
  A Rust \<open>Result<T, E>\<close> is the sum \<open>'e + 'a\<close> with \<open>Inl\<close> for \<open>Err\<close>;
  \<open>bindE\<close> is what the \<open>?\<close> operator does, \<open>ok_or\<close> is \<open>Option::ok_or_else\<close>
  and \<open>ensureE\<close> is a guard with an early \<open>return Err(e)\<close>.
\<close>

definition bindE :: "'e + 'a \<Rightarrow> ('a \<Rightarrow> 'e + 'b) \<Rightarrow> 'e + 'b" where
  "bindE m f = (case m of Inl e \<Rightarrow> Inl e | Inr x \<Rightarrow> f x)"

definition ok_or :: "'a option \<Rightarrow> 'e \<Rightarrow> 'e + 'a" where
  "ok_or v e = (case v of None \<Rightarrow> Inl e | Some x \<Rightarrow> Inr x)"

definition ensureE :: "bool \<Rightarrow> 'e \<Rightarrow> 'e + unit" where
  "ensureE c e = (if c then Inr () else Inl e)"

lemma bindE_Inl [simp]: "bindE (Inl e) f = Inl e"
  by (simp add: bindE_def)

lemma bindE_Inr [simp]: "bindE (Inr x) f = f x"
  by (simp add: bindE_def)

lemma bindE_eq_Inr [result_simps]:
  "bindE m f = Inr y \<longleftrightarrow> (\<exists>x. m = Inr x \<and> f x = Inr y)"
  by (cases m) auto

lemma bindE_eq_Inl [result_simps]:
  "bindE m f = Inl e \<longleftrightarrow> m = Inl e \<or> (\<exists>x. m = Inr x \<and> f x = Inl e)"
  by (cases m) auto

lemma bindE_cong [fundef_cong]:
  "m = m' \<Longrightarrow> (\<And>x. m' = Inr x \<Longrightarrow> f x = g x) \<Longrightarrow> bindE m f = bindE m' g"
  by (cases m') auto

lemma bindE_assoc: "bindE (bindE m f) g = bindE m (\<lambda>x. bindE (f x) g)"
  by (cases m) auto

lemma ok_or_simps [simp]:
  "ok_or None e = Inl e"
  "ok_or (Some x) e = Inr x"
  by (simp_all add: ok_or_def)

lemma ok_or_eq_Inr [result_simps]: "ok_or v e = Inr x \<longleftrightarrow> v = Some x"
  by (cases v) auto

lemma ok_or_eq_Inl [result_simps]: "ok_or v e = Inl e' \<longleftrightarrow> v = None \<and> e' = e"
  by (cases v) auto

lemma ensureE_simps [simp]:
  "ensureE True e = Inr ()"
  "ensureE False e = Inl e"
  by (simp_all add: ensureE_def)

lemma ensureE_eq_Inr [result_simps]: "ensureE c e = Inr u \<longleftrightarrow> c"
  by (simp add: ensureE_def)

lemma ensureE_eq_Inl [result_simps]: "ensureE c e = Inl e' \<longleftrightarrow> \<not> c \<and> e' = e"
  by (auto simp: ensureE_def)

text \<open>A loop over a sequence with a fallible body.\<close>

fun foldE :: "('s \<Rightarrow> 'a \<Rightarrow> 'e + 's) \<Rightarrow> 's \<Rightarrow> 'a list \<Rightarrow> 'e + 's" where
  "foldE g s [] = Inr s"
| "foldE g s (x # xs) = bindE (g s x) (\<lambda>s'. foldE g s' xs)"

section \<open>Slices and checked arithmetic\<close>

text \<open>
  \<open>get_at\<close> is \<open>slice.get(i)\<close> and \<open>get_range\<close> is \<open>slice.get(a..b)\<close>. A \<open>usize\<close>
  is a natural number; the checked operations fail above \<open>usize_max\<close>, the maximum of a
  64-bit target.
\<close>

definition get_at :: "'a list \<Rightarrow> nat \<Rightarrow> 'a option" where
  "get_at xs i = (if i < length xs then Some (xs ! i) else None)"

definition get_range :: "'a list \<Rightarrow> nat \<Rightarrow> nat \<Rightarrow> 'a list option" where
  "get_range xs a b = (if a \<le> b \<and> b \<le> length xs then Some (take (b - a) (drop a xs)) else None)"

definition usize_max :: nat where
  "usize_max = 2 ^ 64 - 1"

definition checked_add :: "nat \<Rightarrow> nat \<Rightarrow> nat option" where
  "checked_add a b = (if a + b \<le> usize_max then Some (a + b) else None)"

definition checked_mul :: "nat \<Rightarrow> nat \<Rightarrow> nat option" where
  "checked_mul a b = (if a * b \<le> usize_max then Some (a * b) else None)"

lemma get_at_eq_Some [result_simps]: "get_at xs i = Some x \<longleftrightarrow> i < length xs \<and> xs ! i = x"
  by (auto simp: get_at_def)

lemma get_at_Cons_0 [simp]: "get_at (x # xs) 0 = Some x"
  by (simp add: get_at_def)

lemma get_at_append: "get_at (xs @ ys) (length xs + i) = get_at ys i"
  by (simp add: get_at_def nth_append)

lemma get_range_eq_Some [result_simps]:
  "get_range xs a b = Some ys \<longleftrightarrow> a \<le> b \<and> b \<le> length xs \<and> ys = take (b - a) (drop a xs)"
  by (auto simp: get_range_def)

lemma get_range_length: "get_range xs a b = Some ys \<Longrightarrow> length ys = b - a"
  by (auto simp: get_range_def split: if_splits)

lemma get_range_append:
  "get_range (xs @ ys @ zs) (length xs) (length xs + length ys) = Some ys"
  by (simp add: get_range_def)

lemma split_at_range:
  assumes "a \<le> b" "b \<le> length xs"
  shows "drop a xs = take (b - a) (drop a xs) @ drop b xs"
  using assms by (metis append_take_drop_id drop_drop le_add_diff_inverse2)

section \<open>Big-endian codecs\<close>

text \<open>The number a byte string denotes, most significant byte first.\<close>

definition be_nat :: "bytes \<Rightarrow> nat" where
  "be_nat bs = foldl (\<lambda>v b. v * 256 + unat b) 0 bs"

text \<open>
  \<open>to_be_bytes n w\<close> are the \<open>n\<close> low-order bytes of \<open>w\<close>, most significant first: with
  \<open>n\<close> the width of the type this is Rust's \<open>to_be_bytes\<close>. \<open>from_be\<close> is the fold
  \<open>v = (v << 8) | byte\<close> that the parsers write out, and with the width's number of bytes it
  is \<open>from_be_bytes\<close>.
\<close>

primrec to_be_bytes :: "nat \<Rightarrow> 'a::len word \<Rightarrow> bytes" where
  "to_be_bytes 0 w = []"
| "to_be_bytes (Suc n) w = ucast (drop_bit (8 * n) w) # to_be_bytes n w"

definition from_be :: "bytes \<Rightarrow> 'a::len word" where
  "from_be bs = foldl (\<lambda>v b. push_bit 8 v OR ucast b) 0 bs"

lemma length_to_be_bytes [simp, codec_simps]: "length (to_be_bytes n w) = n"
  by (induction n) auto

lemma to_be_bytes_eq_Nil [simp]: "to_be_bytes n w = [] \<longleftrightarrow> n = 0"
  by (cases n) auto

lemma to_be_bytes_numeral:
  "to_be_bytes (numeral k) w =
     ucast (drop_bit (8 * pred_numeral k) w) # to_be_bytes (pred_numeral k) w"
  by (simp add: numeral_eq_Suc)

lemma be_nat_Nil [simp]: "be_nat [] = 0"
  by (simp add: be_nat_def)

lemma be_nat_snoc: "be_nat (bs @ [b]) = be_nat bs * 256 + unat b"
  by (simp add: be_nat_def)

lemma be_nat_append: "be_nat (xs @ ys) = be_nat xs * 256 ^ length ys + be_nat ys"
proof (induction ys rule: rev_induct)
  case Nil
  then show ?case by simp
next
  case (snoc y ys)
  have "be_nat (xs @ ys @ [y]) = be_nat (xs @ ys) * 256 + unat y"
    using be_nat_snoc [of "xs @ ys" y] by simp
  with snoc show ?case by (simp add: be_nat_snoc algebra_simps)
qed

lemma be_nat_Cons: "be_nat (b # bs) = unat b * 256 ^ length bs + be_nat bs"
  using be_nat_append [of "[b]" bs] by (simp add: be_nat_def)

lemma byte_less_256: "unat (b :: byte) < 256"
  using unsigned_less [of b] by simp

lemma be_nat_bound: "be_nat bs < 256 ^ length bs"
proof (induction bs rule: rev_induct)
  case Nil
  then show ?case by simp
next
  case (snoc b bs)
  have step: "a < p \<Longrightarrow> c < 256 \<Longrightarrow> a * 256 + c < p * 256" for a c p :: nat
    by simp
  have "be_nat bs * 256 + unat b < 256 ^ length bs * 256"
    by (rule step [OF snoc byte_less_256])
  then show ?case by (simp add: be_nat_snoc mult.commute)
qed

lemma be_nat_inj:
  assumes "length xs = length ys" "be_nat xs = be_nat ys"
  shows "xs = ys"
  using assms
proof (induction xs ys rule: rev_induct2)
  case 1
  then show ?case by simp
next
  case (2 x xs)
  then show ?case by simp
next
  case (3 y ys)
  then show ?case by simp
next
  case (4 x xs y ys)
  have "unat x < 256" "unat y < 256" by (rule byte_less_256)+
  moreover have "be_nat xs * 256 + unat x = be_nat ys * 256 + unat y"
    using 4 by (simp add: be_nat_snoc)
  ultimately have "be_nat xs = be_nat ys" by linarith
  with 4 show ?case by (simp add: be_nat_snoc word_unat_eq_iff)
qed

lemma unat_ucast_byte: "unat (ucast (w :: 'a::len word) :: byte) = unat w mod 256"
  by (simp add: unsigned_ucast_eq take_bit_eq_mod)

lemma be_nat_to_be_bytes: "be_nat (to_be_bytes n w) = unat w mod 256 ^ n"
proof (induction n)
  case 0
  then show ?case by simp
next
  case (Suc n)
  have "drop_bit (8 * n) (unat w) = unat w div 256 ^ n"
    by (simp add: drop_bit_eq_div power_mult)
  then have "be_nat (to_be_bytes (Suc n) w)
      = (unat w div 256 ^ n mod 256) * 256 ^ n + unat w mod 256 ^ n"
    by (simp add: be_nat_Cons unat_ucast_byte unat_drop_bit_eq Suc)
  also have "\<dots> = unat w mod 256 ^ Suc n"
    by (simp add: mod_mult2_eq [of _ "256 ^ n" 256, symmetric] mult.commute)
  finally show ?case .
qed

lemma push_or_eq_add: "push_bit 8 v OR ucast (b :: byte) = v * 256 + (ucast b :: 'a::len word)"
proof -
  have "push_bit 8 v + (ucast b :: 'a word) = push_bit 8 v OR ucast b"
    by (rule disjunctive_add) (auto simp: bit_simps dest: bit_imp_le_length)
  then show ?thesis by (simp add: push_bit_eq_mult)
qed

lemma from_be_eq_of_nat: "from_be bs = (of_nat (be_nat bs) :: 'a::len word)"
  by (induction bs rule: rev_induct)
     (simp_all add: from_be_def push_or_eq_add be_nat_snoc be_nat_def)

lemma unat_from_be:
  assumes "8 * length bs \<le> LENGTH('a)"
  shows "unat (from_be bs :: 'a::len word) = be_nat bs"
proof -
  have "(256::nat) ^ length bs = 2 ^ (8 * length bs)" by (simp add: power_mult)
  also have "\<dots> \<le> 2 ^ LENGTH('a)" using assms by simp
  finally have "be_nat bs < 2 ^ LENGTH('a)" using be_nat_bound [of bs] by linarith
  then show ?thesis by (simp add: from_be_eq_of_nat unat_of_nat take_bit_nat_eq_self)
qed

lemma to_be_bytes_from_be:
  assumes "8 * length bs \<le> LENGTH('a)"
  shows "to_be_bytes (length bs) (from_be bs :: 'a::len word) = bs"
  by (rule be_nat_inj)
     (simp_all add: be_nat_to_be_bytes unat_from_be assms be_nat_bound)

lemma from_be_to_be_bytes:
  assumes "unat (w :: 'a::len word) < 256 ^ n"
  shows "from_be (to_be_bytes n w) = w"
  using assms by (simp add: from_be_eq_of_nat be_nat_to_be_bytes)

section \<open>UTF-8 validation\<close>

text \<open>
  What \<open>std::str::from_utf8\<close> accepts: the well-formed byte sequences of the Unicode standard
  (no overlong forms, no surrogates, nothing above U+10FFFF).
\<close>

definition is_cont :: "byte \<Rightarrow> bool" where
  "is_cont b \<longleftrightarrow> 0x80 \<le> b \<and> b \<le> 0xbf"

fun utf8_valid :: "bytes \<Rightarrow> bool" where
  "utf8_valid [] = True"
| "utf8_valid (a # rest) =
     (if a < 0x80 then utf8_valid rest
      else case rest of
        [] \<Rightarrow> False
      | b # rest2 \<Rightarrow>
          if 0xc2 \<le> a \<and> a \<le> 0xdf then is_cont b \<and> utf8_valid rest2
          else (case rest2 of
            [] \<Rightarrow> False
          | c # rest3 \<Rightarrow>
              if 0xe0 \<le> a \<and> a \<le> 0xef then
                is_cont b \<and> is_cont c \<and> (a = 0xe0 \<longrightarrow> 0xa0 \<le> b) \<and> (a = 0xed \<longrightarrow> b \<le> 0x9f)
                \<and> utf8_valid rest3
              else (case rest3 of
                [] \<Rightarrow> False
              | d # rest4 \<Rightarrow>
                  0xf0 \<le> a \<and> a \<le> 0xf4 \<and> is_cont b \<and> is_cont c \<and> is_cont d
                  \<and> (a = 0xf0 \<longrightarrow> 0x90 \<le> b) \<and> (a = 0xf4 \<longrightarrow> b \<le> 0x8f) \<and> utf8_valid rest4)))"

end
