(* ===== verification/Errors.thy ===== *)
theory Errors
  imports Prelude
begin

text \<open>
  The protocol errors of \<open>canokey-protocol/src/error.rs\<close>: semantic kinds, the phase an
  error is classified in, the credential it concerns, and the classification of an ISO 7816
  status word. The status word type of \<open>apdu.rs\<close> is here too because errors carry it.
\<close>

section \<open>Status words\<close>

type_synonym StatusWord = "16 word"

definition StatusWord_is_success :: "StatusWord \<Rightarrow> bool" where
  "StatusWord_is_success sw \<longleftrightarrow> sw = 0x9000"

section \<open>Error values\<close>

datatype ErrorKind =
    InvalidArgument
  | InvalidPin
  | InvalidResponse
  | ProtocolViolation
  | LimitExceeded
  | AuthenticationFailed
  | DeviceAuthenticationFailed
  | PinBlocked
  | SecurityStatusNotSatisfied
  | ConditionsNotSatisfied
  | NotFound
  | UnsupportedDevice
  | UnsupportedFeature
  | UnsupportedAlgorithm
  | CapabilityUnknown
  | UnsupportedProtocolVersion
  | UnexpectedStatusWord
  | OperationStateError

datatype Phase =
    Construction
  | Select
  | Command
  | Authentication
  | Parsing
  | Conversation

datatype SecretReference =
    Pin
  | Puk
  | ManagementKey
  | AdminPin
  | OathAccess
  | Pw1Sign
  | Pw1Other
  | Pw3
  | ResetCode

record Error =
  e_kind :: ErrorKind
  e_phase :: Phase
  e_status_word :: "StatusWord option"
  e_application_status :: "byte option"
  e_reference :: "SecretReference option"
  e_retries_remaining :: "byte option"

type_synonym 'a res = "Error + 'a"

definition Error_new :: "ErrorKind \<Rightarrow> Error" where
  "Error_new k =
     \<lparr>e_kind = k, e_phase = Phase.Construction, e_status_word = None,
      e_application_status = None, e_reference = None, e_retries_remaining = None\<rparr>"

definition Error_at :: "Error \<Rightarrow> Phase \<Rightarrow> Error" where
  "Error_at e ph = e\<lparr>e_phase := ph\<rparr>"

fun pin_reference :: "SecretReference option \<Rightarrow> bool" where
  "pin_reference (Some Pin) = True"
| "pin_reference (Some Puk) = True"
| "pin_reference (Some AdminPin) = True"
| "pin_reference (Some Pw1Sign) = True"
| "pin_reference (Some Pw1Other) = True"
| "pin_reference (Some Pw3) = True"
| "pin_reference (Some ResetCode) = True"
| "pin_reference _ = False"

text \<open>
  The arms of the \<open>match\<close> in \<open>Error::status\<close>, in their order: a guard that fails falls
  through to the later arms.
\<close>

definition status_kind :: "StatusWord \<Rightarrow> Phase \<Rightarrow> SecretReference option \<Rightarrow> ErrorKind" where
  "status_kind sw ph r =
     (if sw = 0x6983 \<and> pin_reference r then PinBlocked
      else if sw = 0x6982 then SecurityStatusNotSatisfied
      else if sw = 0x6985 then ConditionsNotSatisfied
      else if (sw = 0x6a82 \<or> sw = 0x6a88) \<and> ph = Phase.Select then UnsupportedDevice
      else if sw = 0x6a82 \<or> sw = 0x6a88 then NotFound
      else if sw = 0x6d00 \<or> sw = 0x6e00 then UnsupportedFeature
      else if sw AND 0xfff0 = 0x63c0 \<and> r \<noteq> None then AuthenticationFailed
      else UnexpectedStatusWord)"

definition Error_status :: "StatusWord \<Rightarrow> Phase \<Rightarrow> SecretReference option \<Rightarrow> Error" where
  "Error_status sw ph r =
     \<lparr>e_kind = status_kind sw ph r, e_phase = ph, e_status_word = Some sw,
      e_application_status = None, e_reference = r,
      e_retries_remaining =
        (if pin_reference r \<and> sw AND 0xfff0 = 0x63c0 then Some (ucast (sw AND 15)) else None)\<rparr>"

lemma Error_new_simps [simp]:
  "e_kind (Error_new k) = k"
  "e_phase (Error_new k) = Phase.Construction"
  "e_status_word (Error_new k) = None"
  by (simp_all add: Error_new_def)

lemma Error_at_simps [simp]:
  "e_kind (Error_at e ph) = e_kind e"
  "e_phase (Error_at e ph) = ph"
  "e_status_word (Error_at e ph) = e_status_word e"
  by (simp_all add: Error_at_def)

lemma Error_status_simps [simp]:
  "e_kind (Error_status sw ph r) = status_kind sw ph r"
  "e_phase (Error_status sw ph r) = ph"
  "e_status_word (Error_status sw ph r) = Some sw"
  "e_reference (Error_status sw ph r) = r"
  by (simp_all add: Error_status_def)

section \<open>Retry counters\<close>

lemma status_63Cx_split:
  fixes n :: byte
  assumes "unat n < 16"
  shows "(0x63c0 OR ucast n :: StatusWord) AND 0xfff0 = 0x63c0"
    and "(0x63c0 OR ucast n :: StatusWord) AND 15 = ucast n"
proof -
  have n: "take_bit 4 n = n"
    using assms by (simp add: take_bit_eq_mod word_unat_eq_iff unat_mod)
  have hi: "\<not> bit n k" if "4 \<le> k" for k
    using that by (metis n bit_take_bit_iff not_le)
  have b15: "bit (15 :: StatusWord) k \<longleftrightarrow> k < 4" for k
    using bit_mask_iff [of 4 k, where 'a = "16 word"] by (auto simp: mask_eq_exp_minus_1)
  have n_and: "(ucast n :: StatusWord) AND 15 = ucast n"
    by (rule bit_eqI) (simp only: bit_and_iff b15, metis hi bit_unsigned_iff not_le)
  have fff0: "(0xfff0 :: StatusWord) = NOT 15" by simp
  show "(0x63c0 OR ucast n :: StatusWord) AND 15 = ucast n"
    by (simp add: bit.conj_disj_distrib2 n_and)
  have "(ucast n :: StatusWord) AND 0xfff0 = 0"
    unfolding fff0 by (subst n_and [symmetric]) (simp add: and.assoc)
  then show "(0x63c0 OR ucast n :: StatusWord) AND 0xfff0 = 0x63c0"
    by (simp add: bit.conj_disj_distrib2)
qed

end
