(* ===== verification/Codec.thy ===== *)
theory Codec
  imports Prelude
begin

text \<open>
  The interface of a self-delimiting byte codec: an encoder and a decoder of one item from the
  front of a byte string, inverse to each other on the items the format admits (\<open>ok\<close>) in buffers
  of an admissible size (\<open>buf\<close>). What a client
  needs (an item and a sequence of items are recovered unambiguously from their concatenated
  encodings) is proved once here; the TLV fields and the CBOR items of the program are its
  instances.
\<close>

locale prefix_codec =
  fixes enc :: "'a \<Rightarrow> bytes"
    and dec :: "bytes \<Rightarrow> ('a \<times> bytes) option"
    and ok :: "'a \<Rightarrow> bool"
    and buf :: "bytes \<Rightarrow> bool"
  assumes dec_enc: "ok x \<Longrightarrow> buf (enc x @ rest) \<Longrightarrow> dec (enc x @ rest) = Some (x, rest)"
    and enc_dec: "dec bs = Some (x, rest) \<Longrightarrow> ok x \<and> bs = enc x @ rest"
    and enc_nonempty: "ok x \<Longrightarrow> enc x \<noteq> []"
    and buf_suffix: "buf (xs @ ys) \<Longrightarrow> buf ys"
begin

lemma enc_prefix_free:
  assumes "ok x" "ok y" "buf (enc x @ r)" "enc x @ r = enc y @ s"
  shows "x = y \<and> r = s"
proof -
  have "Some (x, r) = dec (enc y @ s)" using dec_enc [OF assms(1,3)] assms(4) by metis
  also have "\<dots> = Some (y, s)" using dec_enc [OF assms(2), of s] assms(3,4) by simp
  finally show ?thesis by simp
qed

lemma dec_unique:
  assumes "dec bs = Some (x, r)" "bs = enc y @ s" "ok y" "buf bs"
  shows "x = y \<and> r = s"
  using assms enc_dec enc_prefix_free by blast

lemma concat_enc_inj:
  assumes "list_all ok xs" "list_all ok ys" "buf (concat (map enc xs))"
    "concat (map enc xs) = concat (map enc ys)"
  shows "xs = ys"
  using assms
proof (induction xs arbitrary: ys)
  case Nil
  then show ?case using enc_nonempty by (cases ys) auto
next
  case (Cons x xs)
  then obtain y ys' where ys: "ys = y # ys'" using enc_nonempty by (cases ys) auto
  with Cons.prems have "enc x @ concat (map enc xs) = enc y @ concat (map enc ys')" "ok x" "ok y"
    "buf (enc x @ concat (map enc xs))"
    by auto
  then have "x = y \<and> concat (map enc xs) = concat (map enc ys')" by (intro enc_prefix_free)
  with Cons ys show ?case by (auto dest: buf_suffix)
qed

text \<open>
  Any loop that decodes item after item until the input is empty recovers a sequence of
  admissible items, and accepts nothing else.
\<close>

lemma decode_loop_complete:
  assumes loop_Nil: "\<And>acc. loop [] acc = Some acc"
    and loop_step: "\<And>bs x rest acc. dec bs = Some (x, rest) \<Longrightarrow> loop bs acc = loop rest (acc @ [x])"
    and "list_all ok xs" "buf (concat (map enc xs))"
  shows "loop (concat (map enc xs)) acc = Some (acc @ xs)"
  using assms(3,4)
proof (induction xs arbitrary: acc)
  case Nil
  then show ?case by (simp add: loop_Nil)
next
  case (Cons x xs)
  then show ?case by (auto simp: loop_step [OF dec_enc] dest: buf_suffix)
qed

lemma decode_loop_sound:
  assumes loop_Nil: "\<And>acc. loop [] acc = Some acc"
    and loop_step: "\<And>bs x rest acc. dec bs = Some (x, rest) \<Longrightarrow> loop bs acc = loop rest (acc @ [x])"
    and loop_fail: "\<And>bs acc. bs \<noteq> [] \<Longrightarrow> dec bs = None \<Longrightarrow> loop bs acc = None"
    and "loop bs acc = Some out"
  shows "\<exists>xs. out = acc @ xs \<and> list_all ok xs \<and> bs = concat (map enc xs)"
  using assms(4)
proof (induction "length bs" arbitrary: bs acc rule: less_induct)
  case less
  show ?case
  proof (cases "dec bs")
    case None
    with less.prems loop_fail have "bs = []" by fastforce
    with less.prems loop_Nil show ?thesis by auto
  next
    case (Some p)
    then obtain x rest where p: "dec bs = Some (x, rest)" by (cases p) auto
    then have x: "ok x" "bs = enc x @ rest" using enc_dec by auto
    then have "length rest < length bs" using enc_nonempty by simp
    moreover have "loop rest (acc @ [x]) = Some out" using less.prems loop_step [OF p] by simp
    ultimately obtain xs where "out = (acc @ [x]) @ xs" "list_all ok xs" "rest = concat (map enc xs)"
      using less.hyps by blast
    with x show ?thesis by (intro exI [of _ "x # xs"]) simp
  qed
qed

text \<open>
  A decoding loop with a fallible body accepts exactly the concatenations of admissible items over
  which the body folds without error.
\<close>

lemma decode_fold_iff:
  fixes loop :: "bytes \<Rightarrow> 's \<Rightarrow> 'e + 's"
  assumes loop_Nil: "\<And>s. loop [] s = Inr s"
    and loop_step: "\<And>bs x rest s. dec bs = Some (x, rest) \<Longrightarrow> loop bs s = bindE (g s x) (loop rest)"
    and loop_fail: "\<And>bs s. bs \<noteq> [] \<Longrightarrow> dec bs = None \<Longrightarrow> \<exists>e. loop bs s = Inl e"
    and "buf bs"
  shows "loop bs s = Inr s' \<longleftrightarrow>
    (\<exists>xs. list_all ok xs \<and> bs = concat (map enc xs) \<and> foldE g s xs = Inr s')"
proof
  assume "loop bs s = Inr s'"
  then show "\<exists>xs. list_all ok xs \<and> bs = concat (map enc xs) \<and> foldE g s xs = Inr s'"
  proof (induction "length bs" arbitrary: bs s rule: less_induct)
    case less
    show ?case
    proof (cases "dec bs")
      case None
      then have "bs = []" using less.prems loop_fail [of bs s] by fastforce
      then show ?thesis using less.prems loop_Nil by (intro exI [of _ "[]"]) simp
    next
      case (Some p)
      then obtain x rest where p: "dec bs = Some (x, rest)" by (cases p) auto
      then have x: "ok x" "bs = enc x @ rest" using enc_dec by auto
      then have "length rest < length bs" using enc_nonempty by simp
      moreover obtain s1 where s1: "g s x = Inr s1" "loop rest s1 = Inr s'"
        using less.prems loop_step [OF p] by (auto simp: bindE_eq_Inr)
      ultimately obtain xs where "list_all ok xs" "rest = concat (map enc xs)" "foldE g s1 xs = Inr s'"
        using less.hyps by blast
      with x s1 show ?thesis by (intro exI [of _ "x # xs"]) simp
    qed
  qed
next
  assume "\<exists>xs. list_all ok xs \<and> bs = concat (map enc xs) \<and> foldE g s xs = Inr s'"
  then obtain xs where "list_all ok xs" "bs = concat (map enc xs)" "foldE g s xs = Inr s'" by blast
  with \<open>buf bs\<close> show "loop bs s = Inr s'"
  proof (induction xs arbitrary: bs s)
    case Nil
    then show ?case by (simp add: loop_Nil)
  next
    case (Cons x xs)
    then have "dec bs = Some (x, concat (map enc xs))" using dec_enc by simp
    moreover have "buf (concat (map enc xs))" using Cons.prems by (auto dest: buf_suffix)
    ultimately show ?case using Cons by (auto simp: loop_step bindE_eq_Inr)
  qed
qed

end

end
