(* ===== verification/Tlv.thy ===== *)
theory Tlv
  imports Errors Codec
begin

text \<open>
  The bounded BER TLV codec of \<open>canokey-protocol/src/tlv.rs\<close>: checked tags of one to four
  bytes, the reader with its value and depth limits, and the writer with its total budget. The
  \<open>while let Some(field) = reader.next()?\<close> loops of the applet parsers are the combinator
  \<open>tlv_loop\<close>, which terminates because every field consumes bytes. The lemmas show that the
  strict reader accepts exactly the encodings the writer emits.
\<close>

section \<open>Tags\<close>

definition malformed :: Error where
  "malformed = Error_at (Error_new InvalidResponse) Phase.Parsing"

record Tag =
  tag_value :: "32 word"
  tag_len :: nat

text \<open>The \<open>loop\<close> over the subsequent bytes of a long tag; \<open>n\<close> bytes are read so far.\<close>

function tag_loop :: "bytes \<Rightarrow> nat \<Rightarrow> nat res" where
  "tag_loop bs n =
     (case get_at bs n of
        None \<Rightarrow> Inl malformed
      | Some b \<Rightarrow>
          if n + 1 > 4 then Inl malformed
          else if b AND 128 = 0 then Inr (n + 1)
          else tag_loop bs (n + 1))"
  by pat_completeness auto
termination
  by (relation "measure (\<lambda>(bs, n). 5 - n)") auto

declare tag_loop.simps [simp del]

definition parse_tag :: "bytes \<Rightarrow> (Tag \<times> nat) res" where
  "parse_tag bs =
     bindE (ok_or (get_at bs 0) malformed) (\<lambda>first.
       if first = 0 \<or> first = 0xff then Inl malformed
       else bindE
         (if first AND 31 = 31 then
            (if (case get_at bs 1 of None \<Rightarrow> True | Some v \<Rightarrow> v AND 127 = 0) then Inl malformed
             else tag_loop bs 1)
          else Inr 1)
         (\<lambda>n. Inr (\<lparr>tag_value = from_be (take n bs), tag_len = n\<rparr>, n)))"

definition Tag_from_bytes :: "bytes \<Rightarrow> Tag res" where
  "Tag_from_bytes bs =
     bindE (parse_tag bs) (\<lambda>(t, n). if n \<noteq> length bs then Inl malformed else Inr t)"

definition Tag_to_bytes :: "Tag \<Rightarrow> bytes" where
  "Tag_to_bytes t = drop (4 - tag_len t) (to_be_bytes 4 (tag_value t))"

section \<open>Reader\<close>

record TlvLimits =
  max_value_bytes :: nat
  max_depth :: nat

definition TlvLimits_default :: TlvLimits where
  "TlvLimits_default = \<lparr>max_value_bytes = 1024 * 1024, max_depth = 16\<rparr>"

record Tlv =
  f_tag :: Tag
  f_value :: bytes
  f_depth :: nat
  f_limits :: TlvLimits
  f_minimal_lengths :: bool

record TlvReader =
  r_bytes :: bytes
  r_depth :: nat
  r_limits :: TlvLimits
  r_minimal_lengths :: bool

definition TlvReader_new :: "bytes \<Rightarrow> TlvLimits \<Rightarrow> TlvReader" where
  "TlvReader_new bs lim =
     \<lparr>r_bytes = bs, r_depth = 1, r_limits = lim, r_minimal_lengths = True\<rparr>"

definition TlvReader_new_ber :: "bytes \<Rightarrow> TlvLimits \<Rightarrow> TlvReader" where
  "TlvReader_new_ber bs lim = (TlvReader_new bs lim)\<lparr>r_minimal_lengths := False\<rparr>"

definition Tlv_children :: "Tlv \<Rightarrow> TlvReader res" where
  "Tlv_children f =
     (if max_depth (f_limits f) \<le> f_depth f then Inl (Error_new LimitExceeded)
      else Inr \<lparr>r_bytes = f_value f, r_depth = f_depth f + 1, r_limits = f_limits f,
                r_minimal_lengths = f_minimal_lengths f\<rparr>)"

text \<open>The accumulation of a long length, with the checked arithmetic of the source.\<close>

fun len_loop :: "nat \<Rightarrow> bytes \<Rightarrow> nat res" where
  "len_loop acc [] = Inr acc"
| "len_loop acc (b # bs) =
     bindE (ok_or (Option.bind (checked_mul acc 256) (\<lambda>v. checked_add v (unat b))) malformed)
       (\<lambda>v. len_loop v bs)"

text \<open>The length field at \<open>offset\<close>: the length and the offset of the value.\<close>

definition read_length :: "bool \<Rightarrow> bytes \<Rightarrow> nat \<Rightarrow> (nat \<times> nat) res" where
  "read_length minimal bs offset =
     bindE (ok_or (get_at bs offset) malformed) (\<lambda>first.
       if first < 128 then Inr (unat first, offset + 1)
       else
         (let n = unat (first AND 127) in
          if n = 0 \<or> n > 4 then Inl malformed
          else bindE (ok_or (get_range bs (offset + 1) (offset + 1 + n)) malformed) (\<lambda>encoded.
            if minimal \<and> encoded ! 0 = 0 then Inl malformed
            else bindE (len_loop 0 encoded) (\<lambda>len.
              if minimal \<and> len < 128 then Inl malformed
              else Inr (len, offset + 1 + n)))))"

definition TlvReader_next :: "TlvReader \<Rightarrow> (Tlv option \<times> TlvReader) res" where
  "TlvReader_next r =
     (if r_bytes r = [] then Inr (None, r)
      else if r_depth r > max_depth (r_limits r) then Inl (Error_new LimitExceeded)
      else bindE (parse_tag (r_bytes r)) (\<lambda>(t, offset).
        bindE (read_length (r_minimal_lengths r) (r_bytes r) offset) (\<lambda>(len, offset).
          if len > max_value_bytes (r_limits r) then Inl (Error_new LimitExceeded)
          else bindE (ok_or (checked_add offset len) malformed) (\<lambda>stop.
            bindE (ok_or (get_range (r_bytes r) offset stop) malformed) (\<lambda>value.
              Inr (Some \<lparr>f_tag = t, f_value = value, f_depth = r_depth r,
                         f_limits = r_limits r, f_minimal_lengths = r_minimal_lengths r\<rparr>,
                   r\<lparr>r_bytes := drop stop (r_bytes r)\<rparr>))))))"

section \<open>Writer\<close>

record TlvWriter =
  w_bytes :: bytes
  w_limit :: nat

definition TlvWriter_new :: "nat \<Rightarrow> TlvWriter" where
  "TlvWriter_new limit = \<lparr>w_bytes = [], w_limit = limit\<rparr>"

definition TlvWriter_default :: TlvWriter where
  "TlvWriter_default = TlvWriter_new (1024 * 1024)"

definition length_prefix :: "nat \<Rightarrow> bytes res" where
  "length_prefix n =
     (if n < 128 then Inr [of_nat n]
      else if n \<ge> 2 ^ 32 then Inl (Error_new LimitExceeded)
      else let b = to_be_bytes 4 (of_nat n :: 32 word);
               start = (if list_ex (\<lambda>x. x \<noteq> 0) b then length (takeWhile (\<lambda>x. x = 0) b) else 3)
           in Inr ((0x80 OR of_nat (4 - start)) # drop start b))"

text \<open>
  No field is assigned before an error is returned, so a failed push leaves the writer as it
  was; the result carries the new writer only.
\<close>

definition TlvWriter_push :: "TlvWriter \<Rightarrow> Tag \<Rightarrow> bytes \<Rightarrow> TlvWriter res" where
  "TlvWriter_push w t value =
     bindE (length_prefix (length value)) (\<lambda>lp.
       let prefix = Tag_to_bytes t @ lp in
       case Option.bind (checked_add (length (w_bytes w)) (length prefix))
              (\<lambda>n. checked_add n (length value)) of
         None \<Rightarrow> Inl (Error_new LimitExceeded)
       | Some n \<Rightarrow>
           if n > w_limit w then Inl (Error_new LimitExceeded)
           else Inr (w\<lparr>w_bytes := w_bytes w @ prefix @ value\<rparr>))"

section \<open>Tag lemmas\<close>

lemma tag_loop_InrD:
  assumes "tag_loop bs n = Inr m"
  shows "n < m \<and> m \<le> 4 \<and> m \<le> length bs \<and> (\<forall>rest. tag_loop (take m bs @ rest) n = Inr m)"
  using assms
proof (induction bs n rule: tag_loop.induct)
  case (1 bs n)
  from "1.prems" obtain b where b: "n < length bs" "bs ! n = b" "n + 1 \<le> 4"
    and disj: "b AND 128 = 0 \<and> m = n + 1 \<or> b AND 128 \<noteq> 0 \<and> tag_loop bs (n + 1) = Inr m"
    by (auto simp: tag_loop.simps [of bs n] get_at_def split: if_splits)
  show ?case
  proof (cases "b AND 128 = 0")
    case True
    with b disj show ?thesis by (auto simp: tag_loop.simps get_at_def nth_append)
  next
    case False
    with disj have rec: "tag_loop bs (n + 1) = Inr m" by simp
    have ih: "n + 1 < m \<and> m \<le> 4 \<and> m \<le> length bs
        \<and> (\<forall>rest. tag_loop (take m bs @ rest) (n + 1) = Inr m)"
      by (rule "1.IH" [OF _ _ False rec]) (use b in \<open>auto simp: get_at_def\<close>)
    then have "tag_loop (take m bs @ rest) n = Inr m" for rest
      using b False by (subst tag_loop.simps) (auto simp: get_at_def nth_append)
    with ih show ?thesis by auto
  qed
qed

lemma parse_tag_InrD:
  assumes "parse_tag bs = Inr (t, n)"
  shows "0 < n" "n \<le> 4" "n \<le> length bs" "Tag_to_bytes t = take n bs"
    and "parse_tag (take n bs @ rest) = Inr (t, n)"
proof -
  from assms have first: "0 < length bs" "bs ! 0 \<noteq> 0" "bs ! 0 \<noteq> 0xff"
    and t: "t = \<lparr>tag_value = from_be (take n bs), tag_len = n\<rparr>"
    and body: "bs ! 0 AND 31 = 31 \<and> 1 < length bs \<and> bs ! 1 AND 127 \<noteq> 0 \<and> tag_loop bs 1 = Inr n
               \<or> bs ! 0 AND 31 \<noteq> 31 \<and> n = 1"
    by (auto simp: parse_tag_def result_simps get_at_def split: if_splits)
  from body have n: "0 < n \<and> n \<le> 4 \<and> n \<le> length bs"
    using first tag_loop_InrD [of bs 1 n] by (auto simp: Suc_le_eq)
  then show "0 < n" "n \<le> 4" "n \<le> length bs" by auto
  have "to_be_bytes n (from_be (take n bs) :: 32 word) = take n bs"
    using to_be_bytes_from_be [of "take n bs", where 'a = 32] n by simp
  moreover have "drop (4 - n) (to_be_bytes 4 w) = to_be_bytes n w" for w :: "32 word"
    using n by (auto simp: le_Suc_eq numeral_eq_Suc)
  ultimately show "Tag_to_bytes t = take n bs"
    by (simp add: Tag_to_bytes_def t)
  have tk: "take n (take n bs @ rest) = take n bs" using n by simp
  from body show "parse_tag (take n bs @ rest) = Inr (t, n)"
  proof
    assume a: "bs ! 0 AND 31 = 31 \<and> 1 < length bs \<and> bs ! 1 AND 127 \<noteq> 0 \<and> tag_loop bs 1 = Inr n"
    then have "1 < n" "tag_loop (take n bs @ rest) 1 = Inr n"
      using tag_loop_InrD [of bs 1 n] by auto
    with a n first show ?thesis
      by (auto simp: parse_tag_def get_at_def nth_append t tk simp del: take_append)
  next
    assume "bs ! 0 AND 31 \<noteq> 31 \<and> n = 1"
    with n first tk show ?thesis
      by (auto simp: parse_tag_def get_at_def nth_append t simp del: take_append)
  qed
qed

text \<open>The tags a program can hold: those the checked constructor returned.\<close>

definition Tag_wf :: "Tag \<Rightarrow> bool" where
  "Tag_wf t \<longleftrightarrow> Tag_from_bytes (Tag_to_bytes t) = Inr t"

lemma Tag_from_bytes_InrD:
  assumes "Tag_from_bytes bs = Inr t"
  shows "Tag_to_bytes t = bs" "Tag_wf t" "parse_tag (bs @ rest) = Inr (t, length bs)"
proof -
  from assms have p: "parse_tag bs = Inr (t, length bs)"
    by (auto simp: Tag_from_bytes_def result_simps split: if_splits)
  from parse_tag_InrD(4,5) [OF p] show b: "Tag_to_bytes t = bs"
    and "parse_tag (bs @ rest) = Inr (t, length bs)" by simp_all
  from b assms show "Tag_wf t" by (simp add: Tag_wf_def)
qed

lemma parse_tag_wf:
  assumes "parse_tag bs = Inr (t, n)"
  shows "Tag_wf t"
proof -
  have "parse_tag (take n bs) = Inr (t, n)" "length (take n bs) = n"
    using parse_tag_InrD(3) [OF assms] parse_tag_InrD(5) [OF assms, of "[]"] by simp_all
  then have "Tag_from_bytes (take n bs) = Inr t" by (simp add: Tag_from_bytes_def)
  then show ?thesis by (rule Tag_from_bytes_InrD)
qed

section \<open>Length lemmas\<close>

lemma len_loop_value:
  assumes "acc * 256 ^ length bs + be_nat bs \<le> usize_max"
  shows "len_loop acc bs = Inr (acc * 256 ^ length bs + be_nat bs)"
  using assms
proof (induction bs arbitrary: acc)
  case Nil
  then show ?case by simp
next
  case (Cons b bs)
  let ?v = "acc * 256 + unat b"
  have eq: "?v * 256 ^ length bs + be_nat bs = acc * 256 ^ length (b # bs) + be_nat (b # bs)"
    by (simp add: be_nat_Cons algebra_simps)
  have "?v \<le> ?v * 256 ^ length bs" by simp
  with eq Cons.prems have "?v \<le> usize_max" by linarith
  then have "Option.bind (checked_mul acc 256) (\<lambda>v. checked_add v (unat b)) = Some ?v"
    by (simp add: checked_mul_def checked_add_def)
  moreover have "len_loop ?v bs = Inr (?v * 256 ^ length bs + be_nat bs)"
    using Cons.prems eq by (intro Cons.IH) simp
  ultimately show ?case using eq by simp
qed

lemma len_loop_be_nat:
  assumes "length bs \<le> 4"
  shows "len_loop 0 bs = Inr (be_nat bs)"
proof -
  have "be_nat bs < 256 ^ length bs" by (rule be_nat_bound)
  also have "(256::nat) ^ length bs \<le> 256 ^ 4" using assms by (intro power_increasing) simp_all
  finally have "be_nat bs \<le> usize_max" by (simp add: usize_max_def)
  then show ?thesis using len_loop_value [of 0 bs] by simp
qed

text \<open>A long length is the minimal number of bytes, announced by its count.\<close>

lemma be_nat_leading_zeros: "be_nat bs = be_nat (dropWhile (\<lambda>x. x = 0) bs)"
  by (induction bs) (auto simp: be_nat_Cons)

lemma leading_byte_bound:
  assumes "0 < length bs" "bs ! 0 \<noteq> 0"
  shows "256 ^ (length bs - 1) \<le> be_nat bs"
proof -
  obtain b cs where bs: "bs = b # cs" using assms(1) by (cases bs) auto
  then have "1 \<le> unat b" using assms(2) by (simp add: Suc_le_eq unat_gt_0)
  then have "1 * 256 ^ length cs \<le> unat b * 256 ^ length cs" by (rule mult_le_mono1)
  then show ?thesis by (simp add: bs be_nat_Cons trans_le_add1)
qed

lemma leading_byte_length_le:
  assumes "be_nat xs = be_nat ys" "0 < length ys" "ys ! 0 \<noteq> 0"
  shows "length ys \<le> length xs"
proof (rule ccontr)
  assume "\<not> length ys \<le> length xs"
  then have "(256::nat) ^ length xs \<le> 256 ^ (length ys - 1)" by (intro power_increasing) auto
  also have "\<dots> \<le> be_nat xs" using leading_byte_bound [OF assms(2,3)] assms(1) by simp
  also have "\<dots> < 256 ^ length xs" by (rule be_nat_bound)
  finally show False by simp
qed

lemma length_prefix_long:
  assumes "128 \<le> n" "n < 2 ^ 32"
  obtains enc where "length_prefix n = Inr ((0x80 OR of_nat (length enc)) # enc)"
    "be_nat enc = n" "0 < length enc" "length enc \<le> 4" "enc ! 0 \<noteq> 0"
proof -
  let ?b = "to_be_bytes 4 (of_nat n :: 32 word)"
  let ?e = "dropWhile (\<lambda>x. x = 0) ?b"
  have bn: "be_nat ?b = n"
    using assms by (simp add: be_nat_to_be_bytes unat_of_nat)
  have e: "be_nat ?e = n" using bn by (simp add: be_nat_leading_zeros [symmetric])
  then have ne: "?e \<noteq> []"
    using assms(1) by (metis be_nat_Nil not_numeral_le_zero)
  then have ex: "list_ex (\<lambda>x. x \<noteq> 0) ?b"
    by (simp add: list_ex_iff)
  have le: "length ?e \<le> 4"
    using length_dropWhile_le [of "\<lambda>x. x = 0" ?b] by simp
  have start: "drop (length (takeWhile (\<lambda>x. x = 0) ?b)) ?b = ?e"
    by (simp add: dropWhile_eq_drop)
  have "length (takeWhile (\<lambda>x. x = 0) ?b) + length ?e = 4"
    using takeWhile_dropWhile_id [of "\<lambda>x. x = 0" ?b] length_append length_to_be_bytes by metis
  then have cnt: "4 - length (takeWhile (\<lambda>x. x = 0) ?b) = length ?e" by linarith
  have "?e ! 0 \<noteq> 0" using ne hd_dropWhile [of "\<lambda>x. x = 0" ?b] by (simp add: hd_conv_nth)
  moreover have "length_prefix n = Inr ((0x80 OR of_nat (length ?e)) # ?e)"
    using assms ex start cnt by (simp add: length_prefix_def Let_def del: to_be_bytes.simps)
  ultimately show ?thesis using that e ne le by blast
qed

lemma count_byte:
  assumes "0 < n" "n \<le> 4"
  shows "\<not> (0x80 OR of_nat n :: byte) < 128" "unat ((0x80 OR of_nat n :: byte) AND 127) = n"
proof -
  have "n \<in> {1, 2, 3, 4}" using assms by auto
  then show "\<not> (0x80 OR of_nat n :: byte) < 128" "unat ((0x80 OR of_nat n :: byte) AND 127) = n"
    by auto
qed

lemma read_length_prefix:
  assumes "length_prefix n = Inr lp"
  shows "read_length minimal (pre @ lp @ rest) (length pre) = Inr (n, length pre + length lp)"
proof (cases "n < 128")
  case True
  then have "lp = [of_nat n]" using assms by (simp add: length_prefix_def)
  then have g: "get_at (pre @ lp @ rest) (length pre) = Some (of_nat n)"
    using get_at_append [of pre "lp @ rest" 0] by simp
  have u: "unat (of_nat n :: byte) = n" using True by (simp add: unat_of_nat)
  then have "(of_nat n :: byte) < 128" using True by (simp add: word_less_nat_alt)
  then show ?thesis
    using u by (simp add: read_length_def g) (simp add: \<open>lp = [of_nat n]\<close>)
next
  case False
  have n: "128 \<le> n" "n < 2 ^ 32"
    using assms False by (auto simp: length_prefix_def split: if_splits)
  obtain enc where e: "length_prefix n = Inr ((0x80 OR of_nat (length enc)) # enc)"
    "be_nat enc = n" "0 < length enc" "length enc \<le> 4" "enc ! 0 \<noteq> 0"
    using length_prefix_long [OF n] by blast
  define c where "c = (0x80 OR of_nat (length enc) :: byte)"
  have lp: "lp = c # enc" using assms e by (simp add: c_def)
  have c: "\<not> c < 128" "unat (c AND 127) = length enc"
    unfolding c_def using count_byte [OF e(3,4)] by auto
  have g: "get_at (pre @ c # enc @ rest) (length pre) = Some c"
    using get_at_append [of pre "c # enc @ rest" 0] by simp
  have r: "get_range (pre @ c # enc @ rest) (Suc (length pre)) (Suc (length pre + length enc)) = Some enc"
    using get_range_append [of "pre @ [c]" enc rest] by simp
  show ?thesis
    using e c False by (simp add: read_length_def lp g r len_loop_be_nat)
qed

lemma length_prefix_minimal:
  assumes "0 < length enc" "length enc \<le> 4" "enc ! 0 \<noteq> 0" "128 \<le> be_nat enc"
  shows "length_prefix (be_nat enc) = Inr ((0x80 OR of_nat (length enc)) # enc)"
proof -
  have "be_nat enc < 256 ^ length enc" by (rule be_nat_bound)
  also have "(256::nat) ^ length enc \<le> 256 ^ 4" using assms(2) by (intro power_increasing) simp_all
  finally have "be_nat enc < 2 ^ 32" by simp
  then obtain enc' where e: "length_prefix (be_nat enc) = Inr ((0x80 OR of_nat (length enc')) # enc')"
    "be_nat enc' = be_nat enc" "0 < length enc'" "length enc' \<le> 4" "enc' ! 0 \<noteq> 0"
    using length_prefix_long [OF assms(4)] by blast
  have "length enc' = length enc"
    using leading_byte_length_le [of enc' enc] leading_byte_length_le [of enc enc'] e assms by simp
  then have "enc' = enc" using e by (intro be_nat_inj) auto
  with e show ?thesis by simp
qed

lemma count_byte_inverse:
  assumes "\<not> (first :: byte) < 128"
  shows "0x80 OR of_nat (unat (first AND 127)) = first"
proof -
  have and127: "first AND 127 = take_bit 7 first"
    by (simp add: take_bit_eq_mask mask_eq_exp_minus_1)
  have "128 + take_bit 7 first = 128 OR take_bit 7 first"
    by (rule disjunctive_add) (use bit_exp_iff [of 7, where 'a = byte] in \<open>auto simp: bit_take_bit_iff\<close>)
  moreover have "128 + m mod 128 = m" if "128 \<le> m" "m < 256" for m :: nat
    using that by (simp add: le_mod_geq)
  then have "unat (128 + take_bit 7 first) = unat first"
    using assms byte_less_256 [of first]
    by (simp add: word_less_nat_alt unat_word_ariths unsigned_take_bit_eq take_bit_eq_mod)
  then have "128 + take_bit 7 first = first" by (simp add: word_unat_eq_iff)
  ultimately show ?thesis by (simp add: and127)
qed

lemma read_length_InrD:
  assumes "read_length minimal bs off = Inr (n, off')"
  shows "off < off'" "off' \<le> length bs" "n < 2 ^ 32" "off' \<le> off + 5"
    and "minimal \<Longrightarrow> length_prefix n = Inr (take (off' - off) (drop off bs))"
proof -
  let ?first = "bs ! off" let ?n = "unat (?first AND 127)"
  let ?enc = "take ?n (drop (off + 1) bs)"
  from assms have off: "off < length bs"
    and disj: "?first < 128 \<and> n = unat ?first \<and> off' = off + 1
       \<or> \<not> ?first < 128 \<and> 0 < ?n \<and> ?n \<le> 4 \<and> off + 1 + ?n \<le> length bs \<and> off' = off + 1 + ?n
         \<and> n = be_nat ?enc \<and> (minimal \<longrightarrow> ?enc ! 0 \<noteq> 0 \<and> 128 \<le> n)"
    by (auto simp: read_length_def result_simps Let_def len_loop_be_nat split: if_splits)
  have "off < off' \<and> off' \<le> length bs \<and> n < 2 ^ 32 \<and> off' \<le> off + 5
      \<and> (minimal \<longrightarrow> length_prefix n = Inr (take (off' - off) (drop off bs)))"
    using disj
  proof (elim disjE)
    assume a: "?first < 128 \<and> n = unat ?first \<and> off' = off + 1"
    then have "n < 128" by (simp add: word_less_nat_alt)
    moreover have "take 1 (drop off bs) = [of_nat n]"
      using a off by (simp add: take_Suc_conv_app_nth [of 0, simplified])
    ultimately show ?thesis using a off by (simp add: length_prefix_def)
  next
    assume a: "\<not> ?first < 128 \<and> 0 < ?n \<and> ?n \<le> 4 \<and> off + 1 + ?n \<le> length bs \<and> off' = off + 1 + ?n
         \<and> n = be_nat ?enc \<and> (minimal \<longrightarrow> ?enc ! 0 \<noteq> 0 \<and> 128 \<le> n)"
    then have len: "length ?enc = ?n" by auto
    have "n < 256 ^ ?n" using be_nat_bound [of ?enc] a len by simp
    also have "(256::nat) ^ ?n \<le> 256 ^ 4" using a by (intro power_increasing) simp_all
    finally have n32: "n < 2 ^ 32" by simp
    have "length_prefix n = Inr (?first # ?enc)" if minimal
      using length_prefix_minimal [of ?enc] that a len count_byte_inverse [of ?first] by metis
    moreover have "take (off' - off) (drop off bs) = ?first # ?enc"
      using a off by (simp add: Cons_nth_drop_Suc [symmetric] del: drop_eq_Nil)
    ultimately show ?thesis using a n32 by auto
  qed
  then show "off < off'" "off' \<le> length bs" "n < 2 ^ 32" "off' \<le> off + 5"
    and "minimal \<Longrightarrow> length_prefix n = Inr (take (off' - off) (drop off bs))" by auto
qed

section \<open>The reader consumes what it returns\<close>

lemma TlvReader_next_SomeD:
  assumes "TlvReader_next r = Inr (Some f, r')"
  obtains off off' lp where
    "parse_tag (r_bytes r) = Inr (f_tag f, off)"
    "read_length (r_minimal_lengths r) (r_bytes r) off = Inr (length (f_value f), off')"
    "r_bytes r = Tag_to_bytes (f_tag f) @ lp @ f_value f @ r_bytes r'"
    "off = length (Tag_to_bytes (f_tag f))" "off' = off + length lp" "0 < off" "0 < length lp"
    "length (f_value f) \<le> max_value_bytes (r_limits r)"
    "r_depth r' = r_depth r" "r_limits r' = r_limits r" "r_minimal_lengths r' = r_minimal_lengths r"
    "r_depth r \<le> max_depth (r_limits r)"
    "f_depth f = r_depth r" "f_limits f = r_limits r" "f_minimal_lengths f = r_minimal_lengths r"
proof -
  let ?bs = "r_bytes r"
  from assms obtain t off len off' stop v0 where
    p: "parse_tag ?bs = Inr (t, off)" and l: "read_length (r_minimal_lengths r) ?bs off = Inr (len, off')"
    and lim: "len \<le> max_value_bytes (r_limits r)" "stop = off' + len" "r_depth r \<le> max_depth (r_limits r)"
    and g: "get_range ?bs off' stop = Some v0"
    and f: "f = \<lparr>f_tag = t, f_value = v0, f_depth = r_depth r, f_limits = r_limits r,
                f_minimal_lengths = r_minimal_lengths r\<rparr>"
    and r': "r' = r\<lparr>r_bytes := drop stop ?bs\<rparr>"
    by (auto simp: TlvReader_next_def result_simps checked_add_def split: if_splits)
  note pd = parse_tag_InrD [OF p] and ld = read_length_InrD [OF l]
  let ?lp = "take (off' - off) (drop off ?bs)"
  have v: "v0 = take len (drop off' ?bs)" "off' + len \<le> length ?bs" "length v0 = len"
    using g lim(2) by (auto simp: result_simps)
  have "?bs = take off ?bs @ drop off ?bs" by simp
  also have "drop off ?bs = ?lp @ drop off' ?bs"
    using ld by (intro split_at_range) auto
  also have "drop off' ?bs = v0 @ drop stop ?bs"
    using split_at_range [of off' stop ?bs] v lim(2) by simp
  finally have eq: "?bs = Tag_to_bytes (f_tag f) @ ?lp @ f_value f @ r_bytes r'"
    using pd(4) f r' by simp
  show ?thesis
    by (rule that [OF _ _ eq]) (use p l pd ld lim f r' v in simp_all)
qed

lemma TlvReader_next_shrinks:
  assumes "TlvReader_next r = Inr (Some f, r')"
  shows "length (r_bytes r') < length (r_bytes r)"
  by (rule TlvReader_next_SomeD [OF assms]) simp

text \<open>The loop \<open>while let Some(field) = reader.next()?\<close> with a fallible body.\<close>

function tlv_loop :: "('s \<Rightarrow> Tlv \<Rightarrow> 's res) \<Rightarrow> TlvReader \<Rightarrow> 's \<Rightarrow> 's res" where
  "tlv_loop body r s =
     (case TlvReader_next r of
        Inl e \<Rightarrow> Inl e
      | Inr (None, _) \<Rightarrow> Inr s
      | Inr (Some f, r') \<Rightarrow> bindE (body s f) (tlv_loop body r'))"
  by pat_completeness auto
termination
  by (relation "measure (\<lambda>(body, r, s). length (r_bytes r))")
     (auto dest: TlvReader_next_shrinks)

declare tlv_loop.simps [simp del]

section \<open>Reader and writer agree\<close>

text \<open>The encoding of one field: tag, minimal length, value.\<close>

definition tlv_field :: "Tag \<Rightarrow> bytes \<Rightarrow> bytes" where
  "tlv_field t v = Tag_to_bytes t @ (case length_prefix (length v) of Inl _ \<Rightarrow> [] | Inr lp \<Rightarrow> lp) @ v"

lemma length_prefix_ok: "n < 2 ^ 32 \<Longrightarrow> \<exists>lp. length_prefix n = Inr lp \<and> length lp \<le> 5"
proof (cases "n < 128")
  case True
  then show ?thesis by (simp add: length_prefix_def)
next
  case False
  assume "n < 2 ^ 32"
  then obtain enc where "length_prefix n = Inr ((0x80 OR of_nat (length enc)) # enc)" "length enc \<le> 4"
    using length_prefix_long [of n] False by (metis not_less)
  then show ?thesis by simp
qed

lemma TlvReader_next_field:
  assumes bytes: "r_bytes r = tlv_field t v @ rest" and wf: "Tag_wf t"
    and v: "length v < 2 ^ 32" "length v \<le> max_value_bytes (r_limits r)"
    and depth: "r_depth r \<le> max_depth (r_limits r)"
  shows "TlvReader_next r =
    Inr (Some \<lparr>f_tag = t, f_value = v, f_depth = r_depth r, f_limits = r_limits r,
               f_minimal_lengths = r_minimal_lengths r\<rparr>, r\<lparr>r_bytes := rest\<rparr>)"
proof -
  obtain lp where lp: "length_prefix (length v) = Inr lp" "length lp \<le> 5"
    using length_prefix_ok [OF v(1)] by blast
  let ?tb = "Tag_to_bytes t"
  have bs: "r_bytes r = ?tb @ lp @ v @ rest" using bytes lp by (simp add: tlv_field_def)
  have p: "parse_tag (r_bytes r) = Inr (t, length ?tb)"
    using Tag_from_bytes_InrD(3) [of ?tb t] wf by (simp add: Tag_wf_def bs)
  have l: "read_length m (r_bytes r) (length ?tb) = Inr (length v, length ?tb + length lp)" for m
    using read_length_prefix [OF lp(1)] by (simp add: bs)
  have "length ?tb \<le> 4" by (simp add: Tag_to_bytes_def)
  then have c: "checked_add (length ?tb + length lp) (length v) = Some (length ?tb + length lp + length v)"
    using v(1) lp(2) by (simp add: checked_add_def usize_max_def)
  have g: "get_range (r_bytes r) (length ?tb + length lp) (length ?tb + length lp + length v) = Some v"
    using get_range_append [of "?tb @ lp" v rest] by (simp add: bs add.assoc)
  have "r_bytes r \<noteq> []" using p by (auto simp: parse_tag_def get_at_def)
  then show ?thesis
    using depth v(2) by (simp add: TlvReader_next_def p l c g) (simp add: bs)
qed

lemma TlvReader_next_strict:
  assumes "TlvReader_next r = Inr (Some f, r')" "r_minimal_lengths r"
  shows "r_bytes r = tlv_field (f_tag f) (f_value f) @ r_bytes r'" "Tag_wf (f_tag f)"
    "length (f_value f) < 2 ^ 32"
proof -
  from TlvReader_next_SomeD [OF assms(1)] obtain off off' lp where d:
    "parse_tag (r_bytes r) = Inr (f_tag f, off)"
    "read_length (r_minimal_lengths r) (r_bytes r) off = Inr (length (f_value f), off')"
    "r_bytes r = Tag_to_bytes (f_tag f) @ lp @ f_value f @ r_bytes r'"
    "off = length (Tag_to_bytes (f_tag f))" "off' = off + length lp"
    by metis
  from d(1) show "Tag_wf (f_tag f)" by (rule parse_tag_wf)
  from d(2) show "length (f_value f) < 2 ^ 32" by (rule read_length_InrD(3))
  have "length_prefix (length (f_value f)) = Inr lp"
    using read_length_InrD(5) [OF d(2) assms(2)] by (simp add: d(5)) (simp add: d(3,4))
  then show "r_bytes r = tlv_field (f_tag f) (f_value f) @ r_bytes r'"
    using d(3) by (simp add: tlv_field_def)
qed

lemma TlvWriter_push_InrD:
  assumes "TlvWriter_push w t v = Inr w'"
  shows "w_bytes w' = w_bytes w @ tlv_field t v" "w_limit w' = w_limit w"
    "length (w_bytes w') \<le> w_limit w" "length v < 2 ^ 32"
  using assms
  by (auto simp: TlvWriter_push_def result_simps tlv_field_def Let_def checked_add_def length_prefix_def
      split: option.splits if_splits)

text \<open>Reading all fields of a buffer, in order.\<close>

definition tlv_collect :: "TlvReader \<Rightarrow> (Tag \<times> bytes) list res" where
  "tlv_collect r = tlv_loop (\<lambda>acc f. Inr (acc @ [(f_tag f, f_value f)])) r []"

definition tlv_encode :: "(Tag \<times> bytes) list \<Rightarrow> bytes" where
  "tlv_encode fs = concat (map (\<lambda>(t, v). tlv_field t v) fs)"

fun push_all :: "TlvWriter \<Rightarrow> (Tag \<times> bytes) list \<Rightarrow> TlvWriter res" where
  "push_all w [] = Inr w"
| "push_all w ((t, v) # fs) = bindE (TlvWriter_push w t v) (\<lambda>w'. push_all w' fs)"

text \<open>One field off the front of a buffer, as the strict reader takes it.\<close>

definition tlv_step :: "TlvLimits \<Rightarrow> bytes \<Rightarrow> ((Tag \<times> bytes) \<times> bytes) option" where
  "tlv_step lim bs =
     (case TlvReader_next (TlvReader_new bs lim) of
        Inr (Some f, r) \<Rightarrow> Some ((f_tag f, f_value f), r_bytes r)
      | _ \<Rightarrow> None)"

definition field_ok :: "TlvLimits \<Rightarrow> Tag \<times> bytes \<Rightarrow> bool" where
  "field_ok lim f \<longleftrightarrow>
     Tag_wf (fst f) \<and> length (snd f) < 2 ^ 32 \<and> length (snd f) \<le> max_value_bytes lim \<and> 1 \<le> max_depth lim"

lemma TlvReader_new_simps [simp]:
  "r_bytes (TlvReader_new bs lim) = bs" "r_depth (TlvReader_new bs lim) = 1"
  "r_limits (TlvReader_new bs lim) = lim" "r_minimal_lengths (TlvReader_new bs lim)"
  by (simp_all add: TlvReader_new_def)

lemma TlvReader_new_update [simp]:
  "(TlvReader_new bs lim)\<lparr>r_bytes := bs'\<rparr> = TlvReader_new bs' lim"
  by (simp add: TlvReader_new_def)

interpretation tlv_fields: prefix_codec "\<lambda>(t, v). tlv_field t v" "tlv_step lim" "field_ok lim" "\<lambda>_. True" for lim
proof
  fix x rest
  assume "field_ok lim x"
  then show "tlv_step lim ((case x of (t, v) \<Rightarrow> tlv_field t v) @ rest) = Some (x, rest)"
    by (cases x) (simp add: tlv_step_def field_ok_def
        TlvReader_next_field [where r = "TlvReader_new _ lim"])
next
  fix bs x rest
  assume "tlv_step lim bs = Some (x, rest)"
  then obtain f r where n: "TlvReader_next (TlvReader_new bs lim) = Inr (Some f, r)"
    and x: "x = (f_tag f, f_value f)" "rest = r_bytes r"
    by (auto simp: tlv_step_def split: sum.splits option.splits)
  from n have "length (f_value f) \<le> max_value_bytes lim \<and> 1 \<le> max_depth lim"
    by (rule TlvReader_next_SomeD) simp
  with TlvReader_next_strict [OF n] x
  show "field_ok lim x \<and> bs = (case x of (t, v) \<Rightarrow> tlv_field t v) @ rest"
    by (simp add: field_ok_def)
next
  fix x
  assume "field_ok lim x"
  then have "tlv_step lim ((case x of (t, v) \<Rightarrow> tlv_field t v) @ []) = Some (x, [])"
    by (cases x) (simp add: tlv_step_def field_ok_def
        TlvReader_next_field [where r = "TlvReader_new _ lim" and rest = "[]", simplified])
  moreover have "tlv_step lim [] = None" by (simp add: tlv_step_def TlvReader_next_def)
  ultimately show "(case x of (t, v) \<Rightarrow> tlv_field t v) \<noteq> []" by force
qed simp

lemma next_reader_new:
  assumes "TlvReader_next (TlvReader_new bs lim) = Inr (Some f, r)"
  shows "r = TlvReader_new (r_bytes r) lim"
proof -
  from assms have "r_depth r = 1 \<and> r_limits r = lim \<and> r_minimal_lengths r"
    by (rule TlvReader_next_SomeD) simp
  then show ?thesis by (intro TlvReader.equality) simp_all
qed

text \<open>
  What a loop over the fields of a complete buffer accepts, when its body looks at the tag and the
  value only: the encodings of field lists over which the body folds.
\<close>

lemma tlv_loop_iff:
  assumes "\<And>s f. body s f = g s (f_tag f, f_value f)"
  shows "tlv_loop body (TlvReader_new bs lim) s = Inr s' \<longleftrightarrow>
    (\<exists>fs. list_all (field_ok lim) fs \<and> bs = tlv_encode fs \<and> foldE g s fs = Inr s')"
  unfolding tlv_encode_def
proof (rule tlv_fields.decode_fold_iff)
  show "tlv_loop body (TlvReader_new [] lim) s = Inr s" for s
    by (simp add: tlv_loop.simps TlvReader_next_def)
  show "tlv_loop body (TlvReader_new bs lim) s = bindE (g s x) (\<lambda>s. tlv_loop body (TlvReader_new rest lim) s)"
    if "tlv_step lim bs = Some (x, rest)" for bs x rest s
  proof -
    from that obtain f r where n: "TlvReader_next (TlvReader_new bs lim) = Inr (Some f, r)"
      and x: "x = (f_tag f, f_value f)" "rest = r_bytes r"
      by (auto simp: tlv_step_def split: sum.splits option.splits)
    have "r = TlvReader_new rest lim" using next_reader_new [OF n] x(2) by simp
    then show ?thesis by (subst tlv_loop.simps) (simp add: n x(1) assms)
  qed
  show "\<exists>e. tlv_loop body (TlvReader_new bs lim) s = Inl e" if "bs \<noteq> []" "tlv_step lim bs = None" for bs s
    using that
    by (subst tlv_loop.simps)
       (auto simp: tlv_step_def TlvReader_next_def result_simps split: sum.splits option.splits if_splits)
qed simp

abbreviation collect_loop :: "TlvLimits \<Rightarrow> bytes \<Rightarrow> (Tag \<times> bytes) list \<Rightarrow> (Tag \<times> bytes) list res" where
  "collect_loop lim bs acc \<equiv>
     tlv_loop (\<lambda>acc f. Inr (acc @ [(f_tag f, f_value f)])) (TlvReader_new bs lim) acc"

lemma collect_loop_Nil: "collect_loop lim [] acc = Inr acc"
  by (simp add: tlv_loop.simps TlvReader_next_def)

lemma collect_loop_step:
  assumes "tlv_step lim bs = Some (x, rest)"
  shows "collect_loop lim bs acc = collect_loop lim rest (acc @ [x])"
proof -
  from assms obtain f r where n: "TlvReader_next (TlvReader_new bs lim) = Inr (Some f, r)"
    and x: "x = (f_tag f, f_value f)" "rest = r_bytes r"
    by (auto simp: tlv_step_def split: sum.splits option.splits)
  have r: "r = TlvReader_new rest lim" using next_reader_new [OF n] x(2) by simp
  have "collect_loop lim bs acc =
      tlv_loop (\<lambda>acc f. Inr (acc @ [(f_tag f, f_value f)])) r (acc @ [x])"
    by (subst tlv_loop.simps) (simp add: n x(1))
  then show ?thesis by (simp only: r)
qed

lemma collect_loop_fail:
  assumes "bs \<noteq> []" "tlv_step lim bs = None"
  shows "\<exists>e. collect_loop lim bs acc = Inl e"
  using assms
  by (subst tlv_loop.simps)
     (auto simp: tlv_step_def TlvReader_next_def result_simps split: sum.splits option.splits if_splits)

abbreviation collect_opt :: "TlvLimits \<Rightarrow> bytes \<Rightarrow> (Tag \<times> bytes) list \<Rightarrow> (Tag \<times> bytes) list option" where
  "collect_opt lim bs acc \<equiv> (case collect_loop lim bs acc of Inl _ \<Rightarrow> None | Inr fs \<Rightarrow> Some fs)"

lemma collect_encode:
  assumes "list_all (field_ok lim) fs"
  shows "collect_loop lim (tlv_encode fs) [] = Inr fs"
proof -
  have "collect_opt lim (concat (map (\<lambda>(t, v). tlv_field t v) fs)) [] = Some ([] @ fs)"
    by (rule tlv_fields.decode_loop_complete [of "collect_opt lim", OF _ _ assms TrueI])
       (simp_all only: collect_loop_Nil collect_loop_step sum.case)
  then show ?thesis by (simp add: tlv_encode_def split: sum.splits)
qed

lemma collect_decode:
  assumes "collect_loop lim bs [] = Inr fs"
  shows "list_all (field_ok lim) fs" "bs = tlv_encode fs"
proof -
  have "\<exists>xs. fs = [] @ xs \<and> list_all (field_ok lim) xs \<and> bs = concat (map (\<lambda>(t, v). tlv_field t v) xs)"
  proof (rule tlv_fields.decode_loop_sound [where loop = "collect_opt lim" and lim = lim])
    fix bs acc
    assume "bs \<noteq> []" "tlv_step lim bs = None"
    then show "collect_opt lim bs acc = None"
      using collect_loop_fail [of bs lim acc] by auto
  qed (simp_all only: collect_loop_Nil collect_loop_step assms sum.case)
  then show "list_all (field_ok lim) fs" "bs = tlv_encode fs"
    by (auto simp: tlv_encode_def)
qed

lemma push_all_InrD:
  assumes "push_all w fs = Inr w'"
  shows "w_bytes w' = w_bytes w @ tlv_encode fs \<and> (\<forall>(t, v) \<in> set fs. length v < 2 ^ 32)
    \<and> (length (w_bytes w) \<le> w_limit w \<longrightarrow> length (w_bytes w') \<le> w_limit w)"
  using assms
proof (induction w fs rule: push_all.induct)
  case (1 w)
  then show ?case by (simp add: tlv_encode_def)
next
  case (2 w t v fs)
  then obtain u where "TlvWriter_push w t v = Inr u" "push_all u fs = Inr w'"
    by (auto simp: result_simps)
  with "2.IH" [OF this] TlvWriter_push_InrD [OF this(1)] show ?case
    by (auto simp: tlv_encode_def)
qed

lemma TlvWriter_push_okI:
  assumes "length v < 2 ^ 32" "length (w_bytes w @ tlv_field t v) \<le> w_limit w" "w_limit w \<le> usize_max"
  shows "TlvWriter_push w t v = Inr (w\<lparr>w_bytes := w_bytes w @ tlv_field t v\<rparr>)"
proof -
  obtain lp where "length_prefix (length v) = Inr lp" using length_prefix_ok [OF assms(1)] by blast
  with assms(2,3) show ?thesis
    by (simp add: TlvWriter_push_def tlv_field_def checked_add_def)
qed

lemma push_all_okI:
  assumes "\<forall>(t, v) \<in> set fs. length v < 2 ^ 32" "length (w_bytes w @ tlv_encode fs) \<le> w_limit w"
    "w_limit w \<le> usize_max"
  shows "push_all w fs = Inr (w\<lparr>w_bytes := w_bytes w @ tlv_encode fs\<rparr>)"
  using assms
proof (induction w fs rule: push_all.induct)
  case (1 w)
  then show ?case by (simp add: tlv_encode_def)
next
  case (2 w t v fs)
  then have "TlvWriter_push w t v = Inr (w\<lparr>w_bytes := w_bytes w @ tlv_field t v\<rparr>)"
    by (intro TlvWriter_push_okI) (auto simp: tlv_encode_def)
  with 2 show ?case by (simp add: tlv_encode_def)
qed

lemmas tlv_eval =
  TlvWriter_new_def TlvWriter_push_def length_prefix_def Tag_to_bytes_def to_be_bytes_numeral
  Tag_from_bytes_def parse_tag_def tag_loop.simps get_at_def get_range_def from_be_def
  TlvReader_next_def TlvReader_new_def read_length_def TlvLimits_default_def
  checked_add_def checked_mul_def usize_max_def

section \<open>Properties\<close>

text \<open>Whatever fields the writer accepts, the strict reader returns the same fields in the
same order, duplicates included, as long as each value fits the reader's limit.\<close>

theorem tlv_write_then_read:
  assumes "push_all (TlvWriter_new limit) fs = Inr w"
    and "\<forall>(t, v) \<in> set fs. Tag_wf t \<and> length v \<le> max_value_bytes lim"
    and "1 \<le> max_depth lim"
  shows "tlv_collect (TlvReader_new (w_bytes w) lim) = Inr fs \<and> length (w_bytes w) \<le> limit"
proof -
  have d: "w_bytes w = tlv_encode fs \<and> (\<forall>(t, v) \<in> set fs. length v < 2 ^ 32) \<and> length (w_bytes w) \<le> limit"
    using push_all_InrD [OF assms(1)] by (auto simp: TlvWriter_new_def)
  with assms(2,3) have "list_all (field_ok lim) fs"
    by (auto simp: list_all_iff field_ok_def)
  with d show ?thesis by (auto simp: tlv_collect_def collect_encode)
qed

theorem tlv_write_then_read_witness:
  "\<exists>w. push_all (TlvWriter_new 64)
        [(\<lparr>tag_value = 0x70, tag_len = 1\<rparr>, [7]), (\<lparr>tag_value = 0x5fc105, tag_len = 3\<rparr>, [8, 9])] = Inr w
      \<and> tlv_collect (TlvReader_new (w_bytes w) TlvLimits_default) =
        Inr [(\<lparr>tag_value = 0x70, tag_len = 1\<rparr>, [7]), (\<lparr>tag_value = 0x5fc105, tag_len = 3\<rparr>, [8, 9])]"
proof -
  let ?fs = "[(\<lparr>tag_value = 0x70, tag_len = 1\<rparr>, [7]), (\<lparr>tag_value = 0x5fc105, tag_len = 3\<rparr>, [8, 9])]
    :: (Tag \<times> bytes) list"
  have p: "push_all (TlvWriter_new 64) ?fs = Inr \<lparr>w_bytes = [0x70, 1, 7, 0x5f, 0xc1, 5, 2, 8, 9], w_limit = 64\<rparr>"
    by (simp add: tlv_eval)
  have "Tag_wf \<lparr>tag_value = 0x70, tag_len = 1\<rparr>" "Tag_wf \<lparr>tag_value = 0x5fc105, tag_len = 3\<rparr>"
    by (simp_all add: Tag_wf_def tlv_eval)
  then have "\<forall>(t, v) \<in> set ?fs. Tag_wf t \<and> length v \<le> max_value_bytes TlvLimits_default"
    by (simp add: TlvLimits_default_def)
  with tlv_write_then_read [OF p, of TlvLimits_default] p show ?thesis
    by (simp add: TlvLimits_default_def)
qed

text \<open>A buffer the strict reader accepts is the writer's encoding of the fields it returns,
byte for byte, so the strict format is canonical; the writer reproduces it within any limit that
holds the buffer.\<close>

theorem tlv_read_then_write:
  assumes "tlv_collect (TlvReader_new bs lim) = Inr fs" "length bs \<le> limit" "limit \<le> usize_max"
  shows "\<exists>w. push_all (TlvWriter_new limit) fs = Inr w \<and> w_bytes w = bs"
proof -
  from collect_decode [of bs lim fs] assms(1)
  have fs: "list_all (field_ok lim) fs" "bs = tlv_encode fs" by (auto simp: tlv_collect_def)
  then have "\<forall>(t, v) \<in> set fs. length v < 2 ^ 32"
    by (auto simp: list_all_iff field_ok_def)
  then have "push_all (TlvWriter_new limit) fs
      = Inr ((TlvWriter_new limit)\<lparr>w_bytes := w_bytes (TlvWriter_new limit) @ tlv_encode fs\<rparr>)"
    using assms fs by (intro push_all_okI) (auto simp: TlvWriter_new_def)
  then show ?thesis using fs by (simp add: TlvWriter_new_def)
qed

theorem tlv_read_then_write_witness:
  "\<exists>w. push_all (TlvWriter_new 16) [(\<lparr>tag_value = 0x70, tag_len = 1\<rparr>, [7]), (\<lparr>tag_value = 0x70, tag_len = 1\<rparr>, [8])]
      = Inr w \<and> w_bytes w = [0x70, 1, 7, 0x70, 1, 8]"
proof (rule tlv_read_then_write)
  show "tlv_collect (TlvReader_new [0x70, 1, 7, 0x70, 1, 8] TlvLimits_default) =
      Inr [(\<lparr>tag_value = 0x70, tag_len = 1\<rparr>, [7]), (\<lparr>tag_value = 0x70, tag_len = 1\<rparr>, [8])]"
    by (simp add: tlv_collect_def tlv_loop.simps tlv_eval)
qed (simp_all add: usize_max_def)

end
