(* ===== verification/Apdu.thy ===== *)
theory Apdu
  imports Errors
begin

text \<open>
  Physical ISO 7816 APDUs (\<open>canokey-protocol/src/apdu.rs\<close>): encoding of one command with
  short or extended length fields, the Le correction of an encoded command, and splitting of a
  response into data and status. A decoder of the four ISO command cases, written from the
  standard's layout, is the specification the encoder is proved against: every command the
  encoder produces decodes to the header, data and Le it was built from.
\<close>

section \<open>Commands\<close>

datatype ExpectedLength = Absent | Exact "32 word"

datatype ApduEncoding = Short | Extended

record ApduHeader =
  cla :: byte
  ins :: byte
  p1 :: byte
  p2 :: byte

definition ApduHeader_new :: "byte \<Rightarrow> byte \<Rightarrow> byte \<Rightarrow> byte \<Rightarrow> ApduHeader" where
  "ApduHeader_new c i a b = \<lparr>cla = c, ins = i, p1 = a, p2 = b\<rparr>"

record CommandApdu =
  ca_bytes :: bytes
  ca_header :: ApduHeader
  ca_data_start :: nat
  ca_data_len :: nat
  ca_encoding :: ApduEncoding

fun encoding_max :: "ApduEncoding \<Rightarrow> nat" where
  "encoding_max Short = 256"
| "encoding_max Extended = 65536"

fun le_out_of_range :: "ExpectedLength \<Rightarrow> nat \<Rightarrow> bool" where
  "le_out_of_range Absent m = False"
| "le_out_of_range (Exact n) m = (n = 0 \<or> unat n > m)"

definition lc_field :: "bytes \<Rightarrow> ExpectedLength \<Rightarrow> ApduEncoding \<Rightarrow> bytes" where
  "lc_field d le enc =
     (if d \<noteq> [] then
        (if enc = Extended then 0 # to_be_bytes 2 (of_nat (length d) :: 16 word)
         else [of_nat (length d)])
      else if enc = Extended \<and> le \<noteq> Absent then [0]
      else [])"

fun le_field :: "ExpectedLength \<Rightarrow> ApduEncoding \<Rightarrow> bytes" where
  "le_field Absent enc = []"
| "le_field (Exact n) Extended = to_be_bytes 2 (ucast n :: 16 word)"
| "le_field (Exact n) Short = [ucast n]"

definition header_bytes :: "ApduHeader \<Rightarrow> bytes" where
  "header_bytes h = [cla h, ins h, p1 h, p2 h]"

definition CommandApdu_encode ::
  "ApduHeader \<Rightarrow> bytes \<Rightarrow> ExpectedLength \<Rightarrow> ApduEncoding \<Rightarrow> CommandApdu res" where
  "CommandApdu_encode h d le enc =
     (if encoding_max enc \<le> length d \<or> le_out_of_range le (encoding_max enc)
      then Inl (Error_new InvalidArgument)
      else let prefix = header_bytes h @ lc_field d le enc
           in Inr \<lparr>ca_bytes = prefix @ d @ le_field le enc, ca_header = h,
                   ca_data_start = length prefix, ca_data_len = length d, ca_encoding = enc\<rparr>)"

text \<open>The command data inside an encoded command, \<open>bytes[data_start..data_start + data_len]\<close>.\<close>

definition ca_data :: "CommandApdu \<Rightarrow> bytes" where
  "ca_data c = take (ca_data_len c) (drop (ca_data_start c) (ca_bytes c))"

definition CommandApdu_corrected :: "CommandApdu \<Rightarrow> 32 word \<Rightarrow> CommandApdu res" where
  "CommandApdu_corrected c le =
     CommandApdu_encode (ca_header c) (ca_data c) (Exact le) (ca_encoding c)"

section \<open>Responses\<close>

record ResponseApdu =
  ra_data :: bytes
  ra_status :: StatusWord

definition ResponseApdu_parse :: "bytes \<Rightarrow> ResponseApdu res" where
  "ResponseApdu_parse bs =
     (if length bs < 2 then Inl (Error_at (Error_new InvalidResponse) Phase.Parsing)
      else let n = length bs
           in Inr \<lparr>ra_data = take (n - 2) bs, ra_status = from_be [bs ! (n - 2), bs ! (n - 1)]\<rparr>)"

section \<open>A reference decoder of the ISO 7816-4 command cases\<close>

text \<open>
  The Le field denotes its maximum when it is zero. A body is empty (case 1), a lone Le (cases
  2S, 2E), or starts with Lc: one nonzero byte, or a zero byte and two bytes.
\<close>

definition decode_le :: "bytes \<Rightarrow> nat \<Rightarrow> nat option" where
  "decode_le bs m = (if bs = [] then None else if be_nat bs = 0 then Some m else Some (be_nat bs))"

definition iso_body :: "bytes \<Rightarrow> (bytes \<times> nat option) option" where
  "iso_body body =
     (case body of
        [] \<Rightarrow> Some ([], None)
      | b # rest \<Rightarrow>
          if rest = [] then Some ([], decode_le [b] 256)
          else if b \<noteq> 0 then
            (if length rest = unat b then Some (rest, None)
             else if length rest = unat b + 1
             then Some (take (unat b) rest, decode_le (drop (unat b) rest) 256)
             else None)
          else if length rest = 2 then Some ([], decode_le rest 65536)
          else if length rest < 2 then None
          else let n = be_nat (take 2 rest); tail = drop 2 rest in
             if length tail = n then Some (tail, None)
             else if length tail = n + 2 then Some (take n tail, decode_le (drop n tail) 65536)
             else None)"

definition iso_decode :: "bytes \<Rightarrow> (ApduHeader \<times> bytes \<times> nat option) option" where
  "iso_decode bs =
     (case bs of
        c # i # a # b # body \<Rightarrow>
          map_option (\<lambda>(d, le). (ApduHeader_new c i a b, d, le)) (iso_body body)
      | _ \<Rightarrow> None)"

fun le_value :: "ExpectedLength \<Rightarrow> nat option" where
  "le_value Absent = None"
| "le_value (Exact n) = Some (unat n)"

section \<open>Lemmas\<close>

lemma length_header_bytes [simp, codec_simps]: "length (header_bytes h) = 4"
  by (simp add: header_bytes_def)

lemma encode_InrD:
  assumes "CommandApdu_encode h d le enc = Inr c"
  shows "ca_bytes c = header_bytes h @ lc_field d le enc @ d @ le_field le enc"
    and "ca_header c = h" and "ca_encoding c = enc" and "ca_data c = d"
    and "length d < encoding_max enc" and "\<not> le_out_of_range le (encoding_max enc)"
  using assms by (auto simp: CommandApdu_encode_def ca_data_def Let_def split: if_splits)

lemma encode_okI:
  assumes "length d < encoding_max enc" "\<not> le_out_of_range le (encoding_max enc)"
  shows "\<exists>c. CommandApdu_encode h d le enc = Inr c"
  using assms by (simp add: CommandApdu_encode_def Let_def)

lemma encode_length_short:
  assumes "CommandApdu_encode h d le Short = Inr c"
  shows "length (ca_bytes c) \<le> (if d = [] then 4 else 5 + length d) + (if le = Absent then 0 else 1)"
  by (cases le) (auto simp: encode_InrD(1) [OF assms] lc_field_def)

lemma le_field_length [codec_simps]:
  "length (le_field le enc) = (case le of Absent \<Rightarrow> 0 | Exact _ \<Rightarrow> (if enc = Short then 1 else 2))"
  by (cases "(le, enc)" rule: le_field.cases) auto

lemma decode_le_field:
  assumes "\<not> le_out_of_range le (encoding_max enc)"
  shows "decode_le (le_field le enc) (encoding_max enc) = le_value le"
proof (cases le)
  case Absent
  then show ?thesis by (simp add: decode_le_def)
next
  case (Exact n)
  then have n: "0 < unat n" "unat n \<le> encoding_max enc"
    using assms by (auto simp: unat_gt_0)
  have "be_nat (le_field le enc) = unat n mod encoding_max enc"
  proof (cases enc)
    case Short
    then show ?thesis by (simp add: Exact be_nat_Cons unat_ucast_byte)
  next
    case Extended
    have "unat (ucast n :: 16 word) = unat n mod 65536"
      by (simp add: unsigned_ucast_eq take_bit_eq_mod)
    then show ?thesis using Extended Exact be_nat_to_be_bytes [of 2 "ucast n :: 16 word"] by simp
  qed
  moreover have "le_field le enc \<noteq> []"
    using Exact by (cases enc) simp_all
  ultimately show ?thesis
    using n Exact by (cases "unat n = encoding_max enc") (auto simp: decode_le_def)
qed

lemma iso_body_encoded:
  assumes d: "length d < encoding_max enc" and le: "\<not> le_out_of_range le (encoding_max enc)"
  shows "iso_body (lc_field d le enc @ d @ le_field le enc) = Some (d, le_value le)"
proof (cases enc)
  case Short
  note L = decode_le_field [OF le, unfolded Short, simplified]
  show ?thesis
  proof (cases "d = []")
    case True
    then show ?thesis using Short L by (cases le) (auto simp: lc_field_def iso_body_def)
  next
    case False
    have ud: "unat (of_nat (length d) :: byte) = length d"
      using d Short by (simp add: unat_of_nat)
    then have nz: "(of_nat (length d) :: byte) \<noteq> 0"
      using False by (metis length_0_conv unat_0)
    show ?thesis using False Short ud nz L
      by (cases le) (auto simp: lc_field_def iso_body_def)
  qed
next
  case Extended
  note L = decode_le_field [OF le, unfolded Extended, simplified]
  have ud: "be_nat (to_be_bytes 2 (of_nat (length d) :: 16 word)) = length d"
    using d Extended by (simp add: be_nat_to_be_bytes unat_of_nat)
  have LL: "length (le_field (Exact n) Extended) = 2" for n
    by simp
  show ?thesis
    using Extended L LL ud
    by (cases "d = []"; cases le) (auto simp: lc_field_def iso_body_def Let_def simp del: to_be_bytes.simps)
qed

lemma ResponseApdu_parse_append:
  "ResponseApdu_parse (d @ [s1, s2]) = Inr \<lparr>ra_data = d, ra_status = from_be [s1, s2]\<rparr>"
  by (simp add: ResponseApdu_parse_def nth_append)

lemma ResponseApdu_parse_InrD:
  assumes "ResponseApdu_parse bs = Inr r"
  shows "length (ra_data r) + 2 = length bs"
  using assms by (auto simp: ResponseApdu_parse_def Let_def split: if_splits)

end
