(* ===== verification/Conversation.thy ===== *)
theory Conversation
  imports Apdu
begin

text \<open>
  The conversation layer of \<open>canokey-protocol/src/operation.rs\<close>: options and budgets, the
  logical command, its translation into physical frames (extended encoding, short encoding or
  short command chaining) and the reaction to each physical response (Le correction after 6Cxx,
  next chained frame, OATH and ISO continuation, final response).

  \<open>usize\<close> subtractions such as \<open>max_response_bytes - 2\<close> are subtractions of natural numbers
  here; they cannot underflow in the source because every conversation runs under options that
  \<open>OperationOptions_validate\<close> accepted (\<open>valid_options\<close> below).
\<close>

section \<open>Options\<close>

record ExchangeOptions =
  max_command_bytes :: nat
  max_response_bytes :: nat
  channel_extended :: bool

record OperationLimits =
  max_total_response_bytes :: nat
  max_exchanges :: nat
  max_input_bytes :: nat

record OperationOptions =
  exchange :: ExchangeOptions
  limits :: OperationLimits

definition ExchangeOptions_default :: ExchangeOptions where
  "ExchangeOptions_default =
     \<lparr>max_command_bytes = 261, max_response_bytes = 258, channel_extended = False\<rparr>"

definition OperationLimits_default :: OperationLimits where
  "OperationLimits_default =
     \<lparr>max_total_response_bytes = 1024 * 1024, max_exchanges = 4096, max_input_bytes = 1024 * 1024\<rparr>"

definition OperationOptions_default :: OperationOptions where
  "OperationOptions_default = \<lparr>exchange = ExchangeOptions_default, limits = OperationLimits_default\<rparr>"

definition OperationOptions_validate :: "OperationOptions \<Rightarrow> OperationOptions res" where
  "OperationOptions_validate opts =
     (if max_command_bytes (exchange opts) < 5
         \<or> max_response_bytes (exchange opts) < 3
         \<or> max_exchanges (limits opts) = 0
         \<or> max_total_response_bytes (limits opts) = 0
         \<or> max_input_bytes (limits opts) = 0
      then Inl (Error_new InvalidArgument)
      else Inr opts)"

definition valid_options :: "OperationOptions \<Rightarrow> bool" where
  "valid_options opts \<longleftrightarrow> OperationOptions_validate opts = Inr opts"

section \<open>Logical commands and responses\<close>

datatype Continuation =
    Oath byte bool
  | Iso7816 byte
  | NoContinuation

record LogicalCommand =
  lc_header :: ApduHeader
  lc_data :: bytes
  lc_le :: ExpectedLength
  lc_allow_chaining :: bool
  lc_allow_extended :: bool
  lc_correct_le :: bool
  lc_continuation :: Continuation

definition LogicalCommand_new :: "ApduHeader \<Rightarrow> bytes \<Rightarrow> ExpectedLength \<Rightarrow> LogicalCommand" where
  "LogicalCommand_new h d le =
     \<lparr>lc_header = h, lc_data = d, lc_le = le, lc_allow_chaining = False,
      lc_allow_extended = False, lc_correct_le = False, lc_continuation = Iso7816 0\<rparr>"

record ResponseData =
  rd_data :: bytes
  rd_status :: StatusWord

definition ResponseData_ensure_success :: "ResponseData \<Rightarrow> Phase \<Rightarrow> unit res" where
  "ResponseData_ensure_success r ph =
     (if StatusWord_is_success (rd_status r) then Inr ()
      else Inl (Error_status (rd_status r) ph None))"

section \<open>From a logical command to frames\<close>

record ConversationState =
  cs_pending :: "CommandApdu list"
  cs_current :: CommandApdu
  cs_corrected :: bool
  cs_correct_le :: bool
  cs_continuation :: Continuation
  cs_continuing :: bool
  cs_oath_poll :: bool
  cs_data :: bytes

fun bad_oath_instruction :: "Continuation \<Rightarrow> bool" where
  "bad_oath_instruction (Oath i _) = (i \<noteq> 0x06 \<and> i \<noteq> 0xa5)"
| "bad_oath_instruction _ = False"

fun is_iso7816 :: "Continuation \<Rightarrow> bool" where
  "is_iso7816 (Iso7816 _) = True"
| "is_iso7816 _ = False"

text \<open>The Le actually requested: too large a value is lowered only where 6Cxx correction applies.\<close>

definition channel_le :: "LogicalCommand \<Rightarrow> OperationOptions \<Rightarrow> ExpectedLength res" where
  "channel_le lc opts =
     (case lc_le lc of
        Absent \<Rightarrow> Inr Absent
      | Exact n \<Rightarrow>
          if unat n > max_response_bytes (exchange opts) - 2 then
            (if is_iso7816 (lc_continuation lc) \<and> lc_correct_le lc
             then Inr (Exact (of_nat (max_response_bytes (exchange opts) - 2)))
             else Inl (Error_new LimitExceeded))
          else Inr (Exact n))"

definition max_short :: "OperationOptions \<Rightarrow> nat" where
  "max_short opts = min (max_command_bytes (exchange opts) - 6) 255"

definition div_ceil :: "nat \<Rightarrow> nat \<Rightarrow> nat" where
  "div_ceil a b = (if a mod b = 0 then a div b else a div b + 1)"

function chunks :: "nat \<Rightarrow> 'a list \<Rightarrow> 'a list list" where
  "chunks n xs = (if n = 0 \<or> xs = [] then [] else take n xs # chunks n (drop n xs))"
  by pat_completeness auto
termination
  by (relation "measure (\<lambda>(n, xs). length xs)") auto

declare chunks.simps [simp del]

text \<open>The loop over \<open>data.chunks(max_short).enumerate()\<close>.\<close>

fun encode_chunks ::
  "ApduHeader \<Rightarrow> ExpectedLength \<Rightarrow> nat \<Rightarrow> nat \<Rightarrow> bytes list \<Rightarrow> CommandApdu list res" where
  "encode_chunks h le count i [] = Inr []"
| "encode_chunks h le count i (c # cs) =
     (let last = (i + 1 = count);
          h' = (if last then h else h\<lparr>cla := cla h OR 0x10\<rparr>)
      in bindE (CommandApdu_encode h' c (if last then le else Absent) Short) (\<lambda>f.
           bindE (encode_chunks h le count (i + 1) cs) (\<lambda>fs. Inr (f # fs))))"

definition extended_frames ::
  "LogicalCommand \<Rightarrow> ExpectedLength \<Rightarrow> OperationOptions \<Rightarrow> CommandApdu list res" where
  "extended_frames lc le opts =
     (if lc_allow_extended lc \<and> channel_extended (exchange opts) \<and> length (lc_data lc) \<le> 65535 then
        bindE (CommandApdu_encode (lc_header lc) (lc_data lc) le Extended) (\<lambda>cmd.
          Inr (if length (ca_bytes cmd) \<le> max_command_bytes (exchange opts) then [cmd] else []))
      else Inr [])"

definition short_frames ::
  "LogicalCommand \<Rightarrow> ExpectedLength \<Rightarrow> OperationOptions \<Rightarrow> CommandApdu list res" where
  "short_frames lc le opts =
     (if (case le of Exact n \<Rightarrow> unat n > 256 | Absent \<Rightarrow> False) then Inl (Error_new LimitExceeded)
      else if lc_data lc = [] \<or> length (lc_data lc) \<le> max_short opts then
        bindE (CommandApdu_encode (lc_header lc) (lc_data lc) le Short) (\<lambda>cmd. Inr [cmd])
      else if \<not> lc_allow_chaining lc \<or> max_short opts = 0 \<or> cla (lc_header lc) AND 0x10 \<noteq> 0
      then Inl (Error_new LimitExceeded)
      else let count = div_ceil (length (lc_data lc)) (max_short opts) in
        if count > max_exchanges (limits opts) then Inl (Error_new LimitExceeded)
        else encode_chunks (lc_header lc) le count 0 (chunks (max_short opts) (lc_data lc)))"

definition ConversationState_new :: "LogicalCommand \<Rightarrow> OperationOptions \<Rightarrow> ConversationState res" where
  "ConversationState_new lc opts =
     (if bad_oath_instruction (lc_continuation lc) then Inl (Error_new InvalidArgument)
      else if length (lc_data lc) > max_input_bytes (limits opts) then Inl (Error_new LimitExceeded)
      else if le_out_of_range (lc_le lc) 65536 then Inl (Error_new InvalidArgument)
      else
        bindE (channel_le lc opts) (\<lambda>le.
        bindE (extended_frames lc le opts) (\<lambda>ext.
        bindE (if ext = [] then short_frames lc le opts else Inr ext) (\<lambda>frames.
          case frames of
            [] \<Rightarrow> Inl (Error_new ProtocolViolation)
          | first # rest \<Rightarrow>
              if length (ca_bytes first) > max_command_bytes (exchange opts)
              then Inl (Error_new LimitExceeded)
              else Inr \<lparr>cs_pending = rest, cs_current = first, cs_corrected = False,
                        cs_correct_le = lc_correct_le lc, cs_continuation = lc_continuation lc,
                        cs_continuing = False, cs_oath_poll = False, cs_data = []\<rparr>))))"

section \<open>Reaction to a response\<close>

abbreviation conversation_error :: "ErrorKind \<Rightarrow> Error" where
  "conversation_error k \<equiv> Error_at (Error_new k) Phase.Conversation"

definition sw1 :: "StatusWord \<Rightarrow> 16 word" where
  "sw1 sw = drop_bit 8 sw"

definition sw2_length :: "StatusWord \<Rightarrow> nat" where
  "sw2_length sw = (if sw AND 255 = 0 then 256 else unat (sw AND 255))"

text \<open>The condition under which a 6Cxx status is answered with a corrected Le.\<close>

definition wants_correction :: "ConversationState \<Rightarrow> ResponseApdu \<Rightarrow> bool" where
  "wants_correction cs r \<longleftrightarrow>
     sw1 (ra_status r) = 0x6c \<and> cs_correct_le cs \<and> cs_pending cs = [] \<and> \<not> cs_corrected cs"

definition advance_correct ::
  "ConversationState \<Rightarrow> ResponseApdu \<Rightarrow> OperationOptions \<Rightarrow> (ConversationState \<times> ResponseData option) res"
where
  "advance_correct cs r opts =
     (let le = sw2_length (ra_status r) in
      if le > max_response_bytes (exchange opts) - 2 then Inl (conversation_error LimitExceeded)
      else bindE (CommandApdu_corrected (cs_current cs) (of_nat le)) (\<lambda>cmd.
        if length (ca_bytes cmd) > max_command_bytes (exchange opts)
        then Inl (conversation_error LimitExceeded)
        else Inr (cs\<lparr>cs_current := cmd, cs_corrected := True\<rparr>, None)))"

definition advance_pending ::
  "ConversationState \<Rightarrow> ResponseApdu \<Rightarrow> (ConversationState \<times> ResponseData option) res" where
  "advance_pending cs r =
     (if \<not> StatusWord_is_success (ra_status r)
      then Inl (Error_status (ra_status r) Phase.Conversation None)
      else if ra_data r \<noteq> [] then Inl (conversation_error ProtocolViolation)
      else case cs_pending cs of
        [] \<Rightarrow> Inl (Error_new ProtocolViolation)
      | f # fs \<Rightarrow> Inr (cs\<lparr>cs_current := f, cs_pending := fs, cs_corrected := False\<rparr>, None))"

definition advance_iso ::
  "ConversationState \<Rightarrow> ResponseApdu \<Rightarrow> OperationOptions \<Rightarrow> (ConversationState \<times> ResponseData option) res"
where
  "advance_iso cs r opts =
     (let cs1 = cs\<lparr>cs_data := cs_data cs @ ra_data r\<rparr>;
          final = (cs1\<lparr>cs_data := []\<rparr>, Some \<lparr>rd_data = cs_data cs1, rd_status = ra_status r\<rparr>)
      in case cs_continuation cs of
        Iso7816 c \<Rightarrow>
          if sw1 (ra_status r) = 0x61 then
            (if cs_continuing cs \<and> ra_data r = [] then Inl (conversation_error ProtocolViolation)
             else
               (let le = min (sw2_length (ra_status r)) (max_response_bytes (exchange opts) - 2) in
                bindE (CommandApdu_encode (ApduHeader_new c 0xc0 0 0) [] (Exact (of_nat le)) Short)
                  (\<lambda>cmd. Inr (cs1\<lparr>cs_continuing := True, cs_current := cmd, cs_corrected := False,
                                   cs_correct_le := True\<rparr>, None))))
          else Inr final
      | _ \<Rightarrow> Inr final)"

definition advance_final ::
  "ConversationState \<Rightarrow> ResponseApdu \<Rightarrow> OperationOptions \<Rightarrow> (ConversationState \<times> ResponseData option) res"
where
  "advance_final cs r opts =
     (case cs_continuation cs of
        Oath i probe_after_success \<Rightarrow>
          if cs_oath_poll cs \<and> ra_status r = 0x6985 \<and> ra_data r = [] then
            Inr (cs\<lparr>cs_data := []\<rparr>, Some \<lparr>rd_data = cs_data cs, rd_status = 0x9000\<rparr>)
          else if sw1 (ra_status r) = 0x61
              \<or> probe_after_success \<and> ra_status r = 0x9000 \<and> ra_data r \<noteq> [] then
            (if ra_data r = [] then Inl (conversation_error ProtocolViolation)
             else
               bindE (CommandApdu_encode (ApduHeader_new 0 i 0 0) []
                        (Exact (of_nat (min 255 (max_response_bytes (exchange opts) - 2)))) Short)
                 (\<lambda>cmd. Inr (cs\<lparr>cs_data := cs_data cs @ ra_data r,
                                 cs_oath_poll := (ra_status r = 0x9000), cs_current := cmd,
                                 cs_corrected := False, cs_correct_le := False\<rparr>, None)))
          else advance_iso cs r opts
      | _ \<Rightarrow> advance_iso cs r opts)"

definition ConversationState_advance ::
  "ConversationState \<Rightarrow> ResponseApdu \<Rightarrow> OperationOptions \<Rightarrow> (ConversationState \<times> ResponseData option) res"
where
  "ConversationState_advance cs r opts =
     (if wants_correction cs r then advance_correct cs r opts
      else if cs_pending cs \<noteq> [] then advance_pending cs r
      else advance_final cs r opts)"

section \<open>Chunks\<close>

lemma chunks_Nil [simp]: "chunks n [] = []"
  by (simp add: chunks.simps)

lemma concat_chunks: "0 < n \<Longrightarrow> concat (chunks n xs) = xs"
  by (induction n xs rule: chunks.induct) (subst chunks.simps, simp)

lemma chunks_bounds: "c \<in> set (chunks n xs) \<Longrightarrow> c \<noteq> [] \<and> length c \<le> n"
proof (induction n xs rule: chunks.induct)
  case (1 n xs)
  show ?case
  proof (cases "n = 0 \<or> xs = []")
    case True
    with "1.prems" show ?thesis by (simp add: chunks.simps)
  next
    case False
    with "1.prems" have "c = take n xs \<or> c \<in> set (chunks n (drop n xs))"
      by (simp add: chunks.simps [of n xs])
    with False "1.IH" show ?thesis by auto
  qed
qed

lemma div_ceil_step:
  assumes "0 < b" "0 < a"
  shows "div_ceil a b = Suc (div_ceil (a - b) b)"
proof (cases "b \<le> a")
  case True
  then have "a mod b = (a - b) mod b" "a div b = Suc ((a - b) div b)"
    using assms(1) by (simp_all add: le_mod_geq le_div_geq)
  then show ?thesis by (simp add: div_ceil_def)
next
  case False
  then show ?thesis using assms by (simp add: div_ceil_def)
qed

lemma length_chunks: "0 < n \<Longrightarrow> length (chunks n xs) = div_ceil (length xs) n"
proof (induction n xs rule: chunks.induct)
  case (1 n xs)
  show ?case
  proof (cases "xs = []")
    case True
    then show ?thesis by (simp add: div_ceil_def)
  next
    case False
    with 1 show ?thesis by (simp add: chunks.simps [of n xs] div_ceil_step)
  qed
qed

section \<open>Frames\<close>

text \<open>What a decoder of the standard reads from one encoded command.\<close>

lemma iso_decode_encode:
  assumes "CommandApdu_encode h d le enc = Inr c"
  shows "iso_decode (ca_bytes c) = Some (h, d, le_value le)"
proof -
  note e = encode_InrD [OF assms]
  have "iso_body (lc_field d le enc @ d @ le_field le enc) = Some (d, le_value le)"
    using iso_body_encoded e(5,6) by blast
  then show ?thesis
    unfolding e(1) by (simp add: iso_decode_def header_bytes_def ApduHeader_new_def)
qed

definition chained :: "ApduHeader \<Rightarrow> ApduHeader" where
  "chained h = h\<lparr>cla := cla h OR 0x10\<rparr>"

text \<open>The frames a chained command must consist of: every chunk but the last under the chaining
class and without Le, the last one under the command's own header with its Le.\<close>

definition frame_plan :: "ApduHeader \<Rightarrow> nat option \<Rightarrow> bytes list \<Rightarrow> (ApduHeader \<times> bytes \<times> nat option) list"
where
  "frame_plan h le cs = map (\<lambda>c. (chained h, c, None)) (butlast cs) @ [(h, last cs, le)]"

lemma encode_chunks_plan:
  assumes "encode_chunks h le (i + length cs) i cs = Inr fs" "cs \<noteq> []"
  shows "map (\<lambda>f. iso_decode (ca_bytes f)) fs = map Some (frame_plan h (le_value le) cs)"
  using assms
proof (induction cs arbitrary: i fs)
  case Nil
  then show ?case by simp
next
  case (Cons c cs)
  show ?case
  proof (cases "cs = []")
    case True
    with Cons.prems obtain f where "CommandApdu_encode h c le Short = Inr f" "fs = [f]"
      by (auto simp: result_simps)
    then show ?thesis using True by (simp add: frame_plan_def iso_decode_encode)
  next
    case False
    with Cons.prems obtain f gs where f: "CommandApdu_encode (chained h) c Absent Short = Inr f"
      and gs: "encode_chunks h le (Suc i + length cs) (Suc i) cs = Inr gs" and fs: "fs = f # gs"
      by (auto simp: result_simps Let_def chained_def)
    from Cons.IH [OF gs False] iso_decode_encode [OF f] fs False show ?thesis
      by (simp add: frame_plan_def)
  qed
qed

lemma encode_chunks_fit:
  assumes "encode_chunks h le count i cs = Inr fs" "\<forall>c \<in> set cs. length c \<le> n"
  shows "\<forall>f \<in> set fs. length (ca_bytes f) \<le> n + 6"
  using assms
proof (induction cs arbitrary: i fs)
  case Nil
  then show ?case by simp
next
  case (Cons c cs)
  then obtain f gs h' le' where f: "CommandApdu_encode h' c le' Short = Inr f"
    and gs: "encode_chunks h le count (i + 1) cs = Inr gs" and fs: "fs = f # gs"
    by (auto simp: result_simps Let_def)
  have "length (ca_bytes f) \<le> n + 6"
    using encode_length_short [OF f] Cons.prems(2) by (auto split: if_splits)
  with Cons.IH [OF gs] Cons.prems(2) fs show ?case by simp
qed

lemma channel_le_InrD:
  assumes "channel_le lc opts = Inr le" "valid_options opts" "\<not> le_out_of_range (lc_le lc) 65536"
  shows "\<not> le_out_of_range le 65536"
    and "le_value le = map_option (\<lambda>n. min n (max_response_bytes (exchange opts) - 2)) (le_value (lc_le lc))"
proof -
  have m: "1 \<le> max_response_bytes (exchange opts) - 2"
    using assms(2) by (auto simp: valid_options_def OperationOptions_validate_def split: if_splits)
  have "\<not> le_out_of_range le 65536 \<and>
    le_value le = map_option (\<lambda>n. min n (max_response_bytes (exchange opts) - 2)) (le_value (lc_le lc))"
  proof (cases "lc_le lc")
    case Absent
    then show ?thesis using assms(1) by (simp add: channel_le_def)
  next
    case (Exact n)
    let ?k = "max_response_bytes (exchange opts) - 2"
    show ?thesis
    proof (cases "unat n > ?k")
      case False
      then show ?thesis using assms(1,3) Exact by (auto simp: channel_le_def)
    next
      case True
      then have "?k < 65536" using assms(3) Exact by simp
      then have u: "unat (of_nat ?k :: 32 word) = ?k" by (simp add: unat_of_nat)
      then have "(of_nat ?k :: 32 word) \<noteq> 0" using m by (metis le_zero_eq one_neq_zero unat_0)
      with True u \<open>?k < 65536\<close> show ?thesis
        using assms(1) Exact by (auto simp: channel_le_def split: if_splits)
    qed
  qed
  then show "\<not> le_out_of_range le 65536"
    and "le_value le = map_option (\<lambda>n. min n (max_response_bytes (exchange opts) - 2)) (le_value (lc_le lc))"
    by auto
qed

text \<open>All frames of a conversation, the one to send first in front.\<close>

definition frames_of :: "ConversationState \<Rightarrow> CommandApdu list" where
  "frames_of cs = cs_current cs # cs_pending cs"

lemma short_frames_plan:
  assumes "short_frames lc le opts = Inr fs"
  shows "\<exists>cs. concat cs = lc_data lc \<and> cs \<noteq> []
      \<and> map (\<lambda>f. iso_decode (ca_bytes f)) fs = map Some (frame_plan (lc_header lc) (le_value le) cs)"
    and "length fs = 1 \<or> (\<forall>f \<in> set fs. length (ca_bytes f) \<le> max_command_bytes (exchange opts))"
proof -
  from assms consider
    (single) c where "CommandApdu_encode (lc_header lc) (lc_data lc) le Short = Inr c" "fs = [c]"
  | (chain) "max_short opts \<noteq> 0" "lc_data lc \<noteq> []"
      "encode_chunks (lc_header lc) le (div_ceil (length (lc_data lc)) (max_short opts)) 0
         (chunks (max_short opts) (lc_data lc)) = Inr fs"
    by (auto simp: short_frames_def result_simps Let_def split: if_splits)
  then have "(\<exists>cs. concat cs = lc_data lc \<and> cs \<noteq> []
      \<and> map (\<lambda>f. iso_decode (ca_bytes f)) fs = map Some (frame_plan (lc_header lc) (le_value le) cs))
    \<and> (length fs = 1 \<or> (\<forall>f \<in> set fs. length (ca_bytes f) \<le> max_command_bytes (exchange opts)))"
  proof cases
    case single
    then show ?thesis
      by (intro conjI exI [of _ "[lc_data lc]"]) (simp_all add: frame_plan_def iso_decode_encode)
  next
    case chain
    let ?cs = "chunks (max_short opts) (lc_data lc)"
    have cs: "concat ?cs = lc_data lc" "?cs \<noteq> []"
      using chain concat_chunks [of "max_short opts" "lc_data lc"] by auto
    have e: "encode_chunks (lc_header lc) le (0 + length ?cs) 0 ?cs = Inr fs"
      using chain by (simp add: length_chunks)
    have "\<forall>f \<in> set fs. length (ca_bytes f) \<le> max_short opts + 6"
      using encode_chunks_fit [OF e] chunks_bounds by blast
    moreover have "max_short opts + 6 \<le> max_command_bytes (exchange opts)"
      using chain(1) by (simp add: max_short_def min_def split: if_splits)
    ultimately have "\<forall>f \<in> set fs. length (ca_bytes f) \<le> max_command_bytes (exchange opts)"
      by fastforce
    with cs encode_chunks_plan [OF e cs(2)] show ?thesis by blast
  qed
  then show "\<exists>cs. concat cs = lc_data lc \<and> cs \<noteq> []
      \<and> map (\<lambda>f. iso_decode (ca_bytes f)) fs = map Some (frame_plan (lc_header lc) (le_value le) cs)"
    and "length fs = 1 \<or> (\<forall>f \<in> set fs. length (ca_bytes f) \<le> max_command_bytes (exchange opts))"
    by auto
qed

lemma ConversationState_new_InrD:
  assumes "ConversationState_new lc opts = Inr cs"
  obtains le fs where "channel_le lc opts = Inr le" "\<not> le_out_of_range (lc_le lc) 65536"
    "frames_of cs = fs" "length (ca_bytes (cs_current cs)) \<le> max_command_bytes (exchange opts)"
    "short_frames lc le opts = Inr fs
     \<or> (\<exists>c. CommandApdu_encode (lc_header lc) (lc_data lc) le Extended = Inr c \<and> fs = [c])"
    "cs_data cs = []" "cs_continuation cs = lc_continuation lc" "cs_correct_le cs = lc_correct_le lc"
    "\<not> cs_oath_poll cs" "\<not> cs_corrected cs" "\<not> cs_continuing cs"
proof -
  from assms obtain le ext fs where d: "channel_le lc opts = Inr le"
    "\<not> le_out_of_range (lc_le lc) 65536" "extended_frames lc le opts = Inr ext"
    "(if ext = [] then short_frames lc le opts else Inr ext) = Inr fs"
    "(case fs of [] \<Rightarrow> Inl (Error_new ProtocolViolation)
      | first # rest \<Rightarrow>
          if length (ca_bytes first) > max_command_bytes (exchange opts)
          then Inl (Error_new LimitExceeded)
          else Inr \<lparr>cs_pending = rest, cs_current = first, cs_corrected = False,
                    cs_correct_le = lc_correct_le lc, cs_continuation = lc_continuation lc,
                    cs_continuing = False, cs_oath_poll = False, cs_data = []\<rparr>) = Inr cs"
    by (auto simp: ConversationState_new_def result_simps split: if_splits)
  have "short_frames lc le opts = Inr fs
     \<or> (\<exists>c. CommandApdu_encode (lc_header lc) (lc_data lc) le Extended = Inr c \<and> fs = [c])"
    using d(3,4) by (auto simp: extended_frames_def result_simps split: if_splits)
  with d show ?thesis
    by (intro that [of le fs]) (auto simp: frames_of_def split: list.splits if_splits)
qed

lemma new_frames_plan:
  assumes "ConversationState_new lc opts = Inr cs" "valid_options opts"
  shows "\<exists>ds. concat ds = lc_data lc \<and> ds \<noteq> [] \<and>
    map (\<lambda>f. iso_decode (ca_bytes f)) (frames_of cs) =
    map Some (frame_plan (lc_header lc)
      (map_option (\<lambda>n. min n (max_response_bytes (exchange opts) - 2)) (le_value (lc_le lc))) ds)"
  using assms(1)
proof (rule ConversationState_new_InrD)
  fix le fs
  assume d: "channel_le lc opts = Inr le" "\<not> le_out_of_range (lc_le lc) 65536" "frames_of cs = fs"
    "short_frames lc le opts = Inr fs
     \<or> (\<exists>c. CommandApdu_encode (lc_header lc) (lc_data lc) le Extended = Inr c \<and> fs = [c])"
  note le = channel_le_InrD(2) [OF d(1) assms(2) d(2), symmetric]
  show ?thesis
    using d(4)
  proof
    assume "short_frames lc le opts = Inr fs"
    then show ?thesis using short_frames_plan(1) d(3) le by auto
  next
    assume "\<exists>c. CommandApdu_encode (lc_header lc) (lc_data lc) le Extended = Inr c \<and> fs = [c]"
    then show ?thesis using d(3) le
      by (intro exI [of _ "[lc_data lc]"]) (auto simp: frame_plan_def iso_decode_encode)
  qed
qed

lemma new_frames_fit:
  assumes "ConversationState_new lc opts = Inr cs"
  shows "\<forall>f \<in> set (frames_of cs). length (ca_bytes f) \<le> max_command_bytes (exchange opts)"
  using assms
proof (rule ConversationState_new_InrD)
  fix le fs
  assume fs: "frames_of cs = fs"
    and cur: "length (ca_bytes (cs_current cs)) \<le> max_command_bytes (exchange opts)"
    and src: "short_frames lc le opts = Inr fs
     \<or> (\<exists>c. CommandApdu_encode (lc_header lc) (lc_data lc) le Extended = Inr c \<and> fs = [c])"
  then have "length fs = 1 \<or> (\<forall>f \<in> set fs. length (ca_bytes f) \<le> max_command_bytes (exchange opts))"
    using short_frames_plan(2) by fastforce
  then show ?thesis using fs cur by (auto simp: frames_of_def)
qed

section \<open>Advancing keeps the frames within the channel\<close>

lemma encode_continuation_fits:
  assumes "CommandApdu_encode h [] le Short = Inr c" "valid_options opts"
  shows "length (ca_bytes c) \<le> max_command_bytes (exchange opts)"
  using encode_length_short [OF assms(1)] assms(2)
  by (auto simp: valid_options_def OperationOptions_validate_def split: if_splits)

lemma advance_cases:
  assumes "ConversationState_advance cs r opts = Inr (cs', out)"
  obtains
    (correct) cmd where "wants_correction cs r"
      "length (ca_bytes cmd) \<le> max_command_bytes (exchange opts)"
      "cs' = cs\<lparr>cs_current := cmd, cs_corrected := True\<rparr>" "out = None"
  | (chain) f fs where "\<not> wants_correction cs r" "cs_pending cs = f # fs" "ra_data r = []"
      "ra_status r = 0x9000"
      "cs' = cs\<lparr>cs_current := f, cs_pending := fs, cs_corrected := False\<rparr>" "out = None"
  | (continue) h le cmd where "\<not> wants_correction cs r" "cs_pending cs = []"
      "CommandApdu_encode h [] le Short = Inr cmd" "cs_current cs' = cmd" "cs_pending cs' = []"
      "cs_data cs' = cs_data cs @ ra_data r" "cs_continuation cs' = cs_continuation cs" "out = None"
  | (final) rd where "\<not> wants_correction cs r" "cs_pending cs = []" "out = Some rd"
      "rd_data rd = cs_data cs @ ra_data r" "cs' = cs\<lparr>cs_data := []\<rparr>"
proof (cases "wants_correction cs r")
  case True
  then show ?thesis
    using assms
    by (auto simp: ConversationState_advance_def advance_correct_def result_simps Let_def not_less
        split: if_splits intro: correct)
next
  case False
  show ?thesis
  proof (cases "cs_pending cs")
    case (Cons f fs)
    then show ?thesis
      using assms False chain
      by (auto simp: ConversationState_advance_def advance_pending_def StatusWord_is_success_def
          split: if_splits)
  next
    case Nil
    then show ?thesis
      using assms False
      by (auto simp: ConversationState_advance_def advance_final_def advance_iso_def result_simps Let_def
          split: if_splits Continuation.splits intro: continue final)
  qed
qed

lemma advance_frames_fit:
  assumes "ConversationState_advance cs r opts = Inr (cs', out)" "valid_options opts"
    "\<forall>f \<in> set (frames_of cs). length (ca_bytes f) \<le> max_command_bytes (exchange opts)"
  shows "\<forall>f \<in> set (frames_of cs'). length (ca_bytes f) \<le> max_command_bytes (exchange opts)"
  using assms(1)
proof (cases rule: advance_cases)
  case (continue h le cmd)
  then show ?thesis using encode_continuation_fits [OF _ assms(2)] by (simp add: frames_of_def)
qed (use assms(3) in \<open>auto simp: frames_of_def\<close>)

section \<open>Every command of a conversation is an encoded command\<close>

definition encoded :: "CommandApdu \<Rightarrow> bool" where
  "encoded c \<longleftrightarrow> (\<exists>le. CommandApdu_encode (ca_header c) (ca_data c) le (ca_encoding c) = Inr c)"

lemma encode_encoded: "CommandApdu_encode h d le enc = Inr c \<Longrightarrow> encoded c"
  unfolding encoded_def using encode_InrD(2-4) [of h d le enc c] by auto

lemma encode_chunks_encoded: "encode_chunks h le count i cs = Inr fs \<Longrightarrow> list_all encoded fs"
  by (induction cs arbitrary: i fs) (auto simp: result_simps Let_def intro: encode_encoded)

lemma new_encoded:
  assumes "ConversationState_new lc opts = Inr cs"
  shows "list_all encoded (frames_of cs)"
  using assms
proof (rule ConversationState_new_InrD)
  fix le fs
  assume fs: "frames_of cs = fs" and src: "short_frames lc le opts = Inr fs
     \<or> (\<exists>c. CommandApdu_encode (lc_header lc) (lc_data lc) le Extended = Inr c \<and> fs = [c])"
  from src have "list_all encoded fs"
    by (auto simp: short_frames_def result_simps Let_def
        intro: encode_encoded encode_chunks_encoded split: if_splits)
  then show ?thesis by (simp add: fs)
qed

lemma advance_encoded:
  assumes "ConversationState_advance cs r opts = Inr (cs', out)" "list_all encoded (frames_of cs)"
  shows "list_all encoded (frames_of cs')"
proof (cases "wants_correction cs r")
  case True
  then have "encoded (cs_current cs')" "cs_pending cs' = cs_pending cs"
    using assms(1)
    by (auto simp: ConversationState_advance_def advance_correct_def CommandApdu_corrected_def result_simps
        Let_def intro: encode_encoded split: if_splits)
  then show ?thesis using assms(2) by (simp add: frames_of_def)
next
  case False
  with assms(1) show ?thesis
    by (cases rule: advance_cases) (use assms(2) in \<open>auto simp: frames_of_def intro: encode_encoded\<close>)
qed

lemma corrected_decodes:
  assumes "encoded c" "CommandApdu_corrected c le = Inr c'"
  shows "iso_decode (ca_bytes c') = Some (ca_header c, ca_data c, Some (unat le))"
    and "ca_header c' = ca_header c" "ca_data c' = ca_data c"
  using assms(2) iso_decode_encode encode_InrD(2,4)
  by (fastforce simp: CommandApdu_corrected_def)+

section \<open>Traces\<close>

text \<open>A conversation run to its end by a list of physical responses.\<close>

inductive conv_trace :: "OperationOptions \<Rightarrow> ConversationState \<Rightarrow> ResponseApdu list \<Rightarrow> ResponseData \<Rightarrow> bool"
  for opts where
  trace_done: "ConversationState_advance cs r opts = Inr (cs', Some rd) \<Longrightarrow> conv_trace opts cs [r] rd"
| trace_more: "ConversationState_advance cs r opts = Inr (cs', None) \<Longrightarrow> conv_trace opts cs' rs rd
    \<Longrightarrow> conv_trace opts cs (r # rs) rd"

inductive_cases conv_traceE: "conv_trace opts cs rs rd"

lemma advance_data:
  assumes "ConversationState_advance cs r opts = Inr (cs', None)"
    and "sw1 (ra_status r) = 0x6c \<longrightarrow> ra_data r = []"
  shows "cs_data cs' = cs_data cs @ ra_data r"
  using assms(1) by (cases rule: advance_cases) (use assms(2) in \<open>auto simp: wants_correction_def\<close>)

lemma advance_result:
  assumes "ConversationState_advance cs r opts = Inr (cs', Some rd)"
  shows "rd_data rd = cs_data cs @ ra_data r"
  using assms by (cases rule: advance_cases) auto

lemma sw2_length_bounds: "0 < sw2_length sw" "sw2_length sw \<le> 256"
proof -
  have "unat (sw AND 255) \<le> unat (255 :: 16 word)"
    using word_and_le1 [of sw 255] by (simp add: word_le_nat_alt)
  then show "sw2_length sw \<le> 256" by (simp add: sw2_length_def)
  show "0 < sw2_length sw" by (simp add: sw2_length_def unat_gt_0)
qed

lemmas conversation_eval =
  ConversationState_new_def LogicalCommand_new_def channel_le_def extended_frames_def short_frames_def
  max_short_def div_ceil_def chunks.simps OperationOptions_default_def ExchangeOptions_default_def
  OperationLimits_default_def CommandApdu_encode_def ApduHeader_new_def lc_field_def header_bytes_def
  Let_def

section \<open>Properties\<close>

text \<open>Encoding one physical command. The encoder rejects exactly the data and Le outside the
range of the chosen encoding, and otherwise produces bytes that a decoder of the ISO 7816-4
command cases reads back as the same header, data and Le.\<close>

theorem apdu_encode_correct:
  "case CommandApdu_encode h d le enc of
     Inl e \<Rightarrow> e = Error_new InvalidArgument
              \<and> (encoding_max enc \<le> length d \<or> le_out_of_range le (encoding_max enc))
   | Inr c \<Rightarrow> length d < encoding_max enc \<and> \<not> le_out_of_range le (encoding_max enc)
              \<and> iso_decode (ca_bytes c) = Some (h, d, le_value le)"
proof (cases "CommandApdu_encode h d le enc")
  case (Inl e)
  then show ?thesis by (auto simp: CommandApdu_encode_def Let_def split: if_splits)
next
  case (Inr c)
  with iso_decode_encode [OF Inr] encode_InrD(5,6) [OF Inr] show ?thesis by simp
qed

text \<open>C6: the frames of a logical command. The physical commands a conversation starts with all
fit the channel, and a decoder reads them as the logical command: the data of the frames in order
is the command data, only the last frame carries the command's own header and its Le (lowered to
what the channel can return), and every earlier frame has the chaining bit and no Le.\<close>

theorem conversation_frames_correct:
  assumes "OperationOptions_validate opts = Inr opts" "ConversationState_new lc opts = Inr cs"
  shows "(\<forall>f \<in> set (cs_current cs # cs_pending cs).
            length (ca_bytes f) \<le> max_command_bytes (exchange opts))
    \<and> (\<exists>ds. concat ds = lc_data lc \<and> ds \<noteq> [] \<and>
         map (\<lambda>f. iso_decode (ca_bytes f)) (cs_current cs # cs_pending cs) =
         map (\<lambda>d. Some ((lc_header lc)\<lparr>cla := cla (lc_header lc) OR 0x10\<rparr>, d, None)) (butlast ds)
         @ [Some (lc_header lc, last ds,
              map_option (\<lambda>n. min n (max_response_bytes (exchange opts) - 2)) (le_value (lc_le lc)))])"
proof -
  have v: "valid_options opts" using assms(1) by (simp add: valid_options_def)
  from new_frames_plan [OF assms(2) v] new_frames_fit [OF assms(2)] show ?thesis
    by (auto simp: frames_of_def frame_plan_def chained_def)
qed

theorem conversation_frames_correct_witness:
  "\<exists>cs. ConversationState_new
      ((LogicalCommand_new (ApduHeader_new 0 0xdb 0x3f 0xff) [1, 2, 3] Absent)\<lparr>lc_allow_chaining := True\<rparr>)
      \<lparr>exchange = \<lparr>max_command_bytes = 8, max_response_bytes = 258, channel_extended = False\<rparr>,
       limits = OperationLimits_default\<rparr> = Inr cs
    \<and> (\<forall>f \<in> set (cs_current cs # cs_pending cs). length (ca_bytes f) \<le> 8)"
proof -
  let ?o = "\<lparr>exchange = \<lparr>max_command_bytes = 8, max_response_bytes = 258, channel_extended = False\<rparr>,
       limits = OperationLimits_default\<rparr>"
  let ?lc = "(LogicalCommand_new (ApduHeader_new 0 0xdb 0x3f 0xff) [1, 2, 3] Absent)\<lparr>lc_allow_chaining := True\<rparr>"
  have v: "OperationOptions_validate ?o = Inr ?o"
    by (simp add: OperationOptions_validate_def OperationLimits_default_def)
  obtain cs where n: "ConversationState_new ?lc ?o = Inr cs"
    by (simp add: conversation_eval)
  with conversation_frames_correct [OF v n] show ?thesis by auto
qed

text \<open>C7: reassembly. When a conversation ends, the response data handed to the applet is the
data received so far followed by the data of every physical response of the rest of the
conversation in order, whatever continuation policy is in force; 6Cxx responses carry no data.\<close>

theorem conversation_reassembly:
  assumes "conv_trace opts cs rs rd"
    and "\<forall>r \<in> set rs. sw1 (ra_status r) = 0x6c \<longrightarrow> ra_data r = []"
  shows "rd_data rd = cs_data cs @ concat (map ra_data rs)"
  using assms
proof (induction rule: conv_trace.induct)
  case (trace_done cs r cs' rd)
  then show ?case using advance_result by fastforce
next
  case (trace_more cs r cs' rs rd)
  then show ?case using advance_data [OF trace_more.hyps(1)] by simp
qed

theorem conversation_reassembly_witness:
  "\<exists>cs rd. ConversationState_new (LogicalCommand_new (ApduHeader_new 0 0xca 0 0) [] (Exact 256))
        OperationOptions_default = Inr cs
     \<and> conv_trace OperationOptions_default cs
        [\<lparr>ra_data = [1, 2], ra_status = 0x6101\<rparr>, \<lparr>ra_data = [3], ra_status = 0x9000\<rparr>] rd
     \<and> rd_data rd = [1, 2, 3]"
proof -
  let ?r1 = "\<lparr>ra_data = [1, 2], ra_status = 0x6101\<rparr>" and ?r2 = "\<lparr>ra_data = [3], ra_status = 0x9000\<rparr>"
  let ?o = "OperationOptions_default"
  obtain cs where n: "ConversationState_new (LogicalCommand_new (ApduHeader_new 0 0xca 0 0) [] (Exact 256)) ?o = Inr cs"
    and cs: "cs_pending cs = []" "cs_data cs = []" "cs_continuation cs = Iso7816 0" "\<not> cs_continuing cs"
    by (simp add: conversation_eval)
  obtain cs' where a1: "ConversationState_advance cs ?r1 ?o = Inr (cs', None)"
    and cs': "cs_pending cs' = []" "cs_continuation cs' = Iso7816 0"
    using cs
    by (simp add: ConversationState_advance_def wants_correction_def sw1_def advance_final_def advance_iso_def
        sw2_length_def OperationOptions_default_def ExchangeOptions_default_def CommandApdu_encode_def)
  obtain cs'' rd where a2: "ConversationState_advance cs' ?r2 ?o = Inr (cs'', Some rd)"
    using cs' by (simp add: ConversationState_advance_def wants_correction_def sw1_def advance_final_def
        advance_iso_def)
  have t: "conv_trace ?o cs [?r1, ?r2] rd"
    using a1 a2 by (blast intro: conv_trace.intros)
  have "rd_data rd = [1, 2, 3]"
    using conversation_reassembly [OF t] cs(2) by (simp add: sw1_def)
  with n t show ?thesis by blast
qed

text \<open>C23: Le correction. When a 6Cxx status makes the conversation resend, the command sent next
is the pending one with the card's Le, with the same header and data; no data is taken from the
6Cxx response, and an immediately repeated 6Cxx is not corrected a second time.\<close>

theorem conversation_le_correction:
  assumes "ConversationState_advance cs r opts = Inr (cs', out)" "wants_correction cs r"
    "list_all encoded (cs_current cs # cs_pending cs)"
  shows "out = None \<and> cs_data cs' = cs_data cs \<and> cs_pending cs' = []
    \<and> iso_decode (ca_bytes (cs_current cs')) =
        Some (ca_header (cs_current cs), ca_data (cs_current cs), Some (sw2_length (ra_status r)))
    \<and> (\<forall>r'. \<not> wants_correction cs' r')"
proof -
  let ?le = "of_nat (sw2_length (ra_status r)) :: 32 word"
  from assms(1,2) have c: "CommandApdu_corrected (cs_current cs) ?le = Inr (cs_current cs')"
    and cs': "cs' = cs\<lparr>cs_current := cs_current cs', cs_corrected := True\<rparr>" "out = None"
    by (auto simp: ConversationState_advance_def advance_correct_def result_simps Let_def split: if_splits)
  have "unat ?le = sw2_length (ra_status r)"
    using sw2_length_bounds(2) [of "ra_status r"] by (simp add: unat_of_nat)
  then have "iso_decode (ca_bytes (cs_current cs')) =
        Some (ca_header (cs_current cs), ca_data (cs_current cs), Some (sw2_length (ra_status r)))"
    using corrected_decodes(1) [OF _ c] assms(3) by simp
  moreover have "cs_data cs' = cs_data cs" "cs_pending cs' = []" "cs_corrected cs'"
    using assms(2) by (subst cs', simp add: wants_correction_def)+
  ultimately show ?thesis using cs'(2) by (simp add: wants_correction_def)
qed

theorem conversation_le_correction_witness:
  "\<exists>cs cs'. ConversationState_new
        ((LogicalCommand_new (ApduHeader_new 0 0xca 0 0) [] (Exact 256))\<lparr>lc_correct_le := True\<rparr>)
        OperationOptions_default = Inr cs
     \<and> ConversationState_advance cs \<lparr>ra_data = [], ra_status = 0x6c05\<rparr> OperationOptions_default
        = Inr (cs', None)
     \<and> iso_decode (ca_bytes (cs_current cs')) = Some (ApduHeader_new 0 0xca 0 0, [], Some 5)"
proof -
  let ?lc = "(LogicalCommand_new (ApduHeader_new 0 0xca 0 0) [] (Exact 256))\<lparr>lc_correct_le := True\<rparr>"
  let ?r = "\<lparr>ra_data = [], ra_status = 0x6c05\<rparr>" and ?o = "OperationOptions_default"
  obtain cs where n: "ConversationState_new ?lc ?o = Inr cs"
    and cs: "cs_pending cs = []" "cs_correct_le cs" "\<not> cs_corrected cs"
      "ca_header (cs_current cs) = ApduHeader_new 0 0xca 0 0" "ca_data (cs_current cs) = []"
      "ca_encoding (cs_current cs) = Short"
    by (simp add: conversation_eval ca_data_def)
  have w: "wants_correction cs ?r" using cs by (simp add: wants_correction_def sw1_def)
  obtain cs' where a: "ConversationState_advance cs ?r ?o = Inr (cs', None)"
    using w cs by (simp add: ConversationState_advance_def advance_correct_def sw2_length_def
        CommandApdu_corrected_def conversation_eval)
  have e: "list_all encoded (cs_current cs # cs_pending cs)"
    using new_encoded [OF n] by (simp add: frames_of_def)
  from conversation_le_correction [OF a w e] cs
  have "iso_decode (ca_bytes (cs_current cs')) = Some (ApduHeader_new 0 0xca 0 0, [], Some 5)"
    by (simp add: sw2_length_def)
  with n a show ?thesis by blast
qed

end
