(* ===== verification/Operation.thy ===== *)
theory Operation
  imports Conversation
begin

text \<open>
  The caller-driven operation of \<open>canokey-protocol/src/operation.rs\<close>: an applet machine
  (the trait \<open>engine::Machine\<close>, here a record of functions over the machine's own state) wrapped
  with its current conversation, budgets and lifecycle state. Methods that take \<open>&mut self\<close>
  return the new operation beside their result. The lifecycle is a transition system whose
  reachable states are \<open>op_reach\<close>; the locale \<open>machine_contract\<close> is what an applet machine
  promises the operation, and its lemmas lift a machine invariant and a postcondition of its
  result to every reachable operation.
\<close>

section \<open>Machines\<close>

datatype 't Action = Command LogicalCommand | Done 't

record ('m, 't) Machine =
  m_next :: "'m \<Rightarrow> ResponseData option \<Rightarrow> 'm \<times> 't Action res"
  m_progress :: "'m \<Rightarrow> 't option"
  m_take_progress :: "'m \<Rightarrow> 't option"

text \<open>The default methods of the trait expose no progress.\<close>

definition plain_machine :: "('m \<Rightarrow> ResponseData option \<Rightarrow> 'm \<times> 't Action res) \<Rightarrow> ('m, 't) Machine"
where
  "plain_machine nxt = \<lparr>m_next = nxt, m_progress = (\<lambda>_. None), m_take_progress = (\<lambda>_. None)\<rparr>"

section \<open>Operations\<close>

datatype Step = Exchange | Done

datatype OperationState =
    Created
  | AwaitingResponse
  | Completed
  | Failed
  | Cancelled
  | ResultTaken

record ('m, 't) Operation =
  op_machine :: "'m option"
  op_conversation :: "ConversationState option"
  op_output :: "'t option"
  op_progress :: "'t option"
  op_error :: "Error option"
  op_state :: OperationState
  op_options :: OperationOptions
  op_exchanges :: nat
  op_response_bytes :: nat

definition state_error :: Error where
  "state_error = Error_new OperationStateError"

definition Operation_from_machine :: "'m \<Rightarrow> OperationOptions \<Rightarrow> ('m, 't) Operation res" where
  "Operation_from_machine m opts =
     bindE (OperationOptions_validate opts) (\<lambda>vopts.
       Inr \<lparr>op_machine = Some m, op_conversation = None, op_output = None, op_progress = None,
            op_error = None, op_state = Created, op_options = vopts, op_exchanges = 0,
            op_response_bytes = 0\<rparr>)"

definition Operation_progress :: "('m, 't) Machine \<Rightarrow> ('m, 't) Operation \<Rightarrow> 't option" where
  "Operation_progress M op =
     (case op_progress op of
        Some t \<Rightarrow> Some t
      | None \<Rightarrow> Option.bind (op_machine op) (m_progress M))"

definition Operation_command :: "('m, 't) Operation \<Rightarrow> CommandApdu res" where
  "Operation_command op =
     (if op_state op \<noteq> AwaitingResponse then Inl state_error
      else ok_or (map_option cs_current (op_conversation op)) state_error)"

definition Operation_result :: "('m, 't) Operation \<Rightarrow> 't res" where
  "Operation_result op =
     (if op_state op \<noteq> Completed then Inl state_error else ok_or (op_output op) state_error)"

definition Operation_take_result :: "('m, 't) Operation \<Rightarrow> ('m, 't) Operation \<times> 't res" where
  "Operation_take_result op =
     (if op_state op \<noteq> Completed then (op, Inl state_error)
      else case op_output op of
        None \<Rightarrow> (op, Inl state_error)
      | Some v \<Rightarrow> (op\<lparr>op_output := None, op_state := ResultTaken\<rparr>, Inr v))"

definition Operation_cancel :: "('m, 't) Operation \<Rightarrow> ('m, 't) Operation" where
  "Operation_cancel op =
     (if op_state op = Created \<or> op_state op = AwaitingResponse
      then op\<lparr>op_machine := None, op_conversation := None, op_state := Cancelled\<rparr>
      else op)"

definition Operation_exchange :: "('m, 't) Operation \<Rightarrow> ('m, 't) Operation \<times> Step res" where
  "Operation_exchange op =
     (if op_exchanges op \<ge> max_exchanges (limits (op_options op))
      then (op, Inl (conversation_error LimitExceeded))
      else (op\<lparr>op_exchanges := op_exchanges op + 1, op_state := AwaitingResponse\<rparr>, Inr Exchange))"

definition Operation_drive ::
  "('m, 't) Machine \<Rightarrow> ('m, 't) Operation \<Rightarrow> ResponseData option \<Rightarrow> ('m, 't) Operation \<times> Step res" where
  "Operation_drive M op response =
     (case op_machine op of
        None \<Rightarrow> (op, Inl state_error)
      | Some m \<Rightarrow>
          (case m_next M m response of
             (m', Inl e) \<Rightarrow> (op\<lparr>op_machine := Some m'\<rparr>, Inl e)
           | (m', Inr (Action.Done v)) \<Rightarrow>
               (op\<lparr>op_machine := None, op_conversation := None, op_output := Some v,
                   op_state := Completed\<rparr>, Inr Step.Done)
           | (m', Inr (Command c)) \<Rightarrow>
               (case ConversationState_new c (op_options op) of
                  Inl e \<Rightarrow> (op\<lparr>op_machine := Some m'\<rparr>, Inl e)
                | Inr cs \<Rightarrow>
                    Operation_exchange (op\<lparr>op_machine := Some m', op_conversation := Some cs\<rparr>))))"

definition Operation_record ::
  "('m, 't) Machine \<Rightarrow> ('m, 't) Operation \<times> Step res \<Rightarrow> ('m, 't) Operation \<times> Step res" where
  "Operation_record M p =
     (case p of
        (op, Inl e) \<Rightarrow>
          (op\<lparr>op_progress := Option.bind (op_machine op) (m_take_progress M), op_machine := None,
              op_conversation := None, op_error := Some e, op_state := Failed\<rparr>, Inl e)
      | (op, Inr s) \<Rightarrow> (op, Inr s))"

definition Operation_start :: "('m, 't) Machine \<Rightarrow> ('m, 't) Operation \<Rightarrow> ('m, 't) Operation \<times> Step res"
where
  "Operation_start M op =
     (if op_state op \<noteq> Created then (op, Inl state_error)
      else Operation_record M (Operation_drive M op None))"

text \<open>
  \<open>advance_inner\<close>: size check, split into data and status, cumulative budget, conversation step,
  then either the next exchange or the machine. The running sum is stored before it is compared.
\<close>

definition Operation_advance_inner ::
  "('m, 't) Machine \<Rightarrow> ('m, 't) Operation \<Rightarrow> bytes \<Rightarrow> ('m, 't) Operation \<times> Step res" where
  "Operation_advance_inner M op bs =
     (if length bs > max_response_bytes (exchange (op_options op))
      then (op, Inl (conversation_error LimitExceeded))
      else case ResponseApdu_parse bs of
        Inl e \<Rightarrow> (op, Inl e)
      | Inr r \<Rightarrow>
          (case checked_add (op_response_bytes op) (length (ra_data r)) of
             None \<Rightarrow> (op, Inl (conversation_error LimitExceeded))
           | Some received \<Rightarrow>
               let op1 = op\<lparr>op_response_bytes := received\<rparr> in
               if received > max_total_response_bytes (limits (op_options op))
               then (op1, Inl (conversation_error LimitExceeded))
               else case op_conversation op1 of
                 None \<Rightarrow> (op1, Inl state_error)
               | Some cs \<Rightarrow>
                   (case ConversationState_advance cs r (op_options op) of
                      Inl e \<Rightarrow> (op1, Inl e)
                    | Inr (cs', None) \<Rightarrow> Operation_exchange (op1\<lparr>op_conversation := Some cs'\<rparr>)
                    | Inr (cs', Some rd) \<Rightarrow>
                        Operation_drive M (op1\<lparr>op_conversation := None\<rparr>) (Some rd))))"

definition Operation_advance ::
  "('m, 't) Machine \<Rightarrow> ('m, 't) Operation \<Rightarrow> bytes \<Rightarrow> ('m, 't) Operation \<times> Step res" where
  "Operation_advance M op bs =
     (if op_state op \<noteq> AwaitingResponse then (op, Inl state_error)
      else Operation_record M (Operation_advance_inner M op bs))"

section \<open>Raw conversations\<close>

text \<open>The machine \<open>SingleCommand\<close>: its state is the command it has not issued yet.\<close>

definition SingleCommand_next ::
  "LogicalCommand option \<Rightarrow> ResponseData option \<Rightarrow> LogicalCommand option \<times> ResponseData Action res" where
  "SingleCommand_next m response =
     (case response of
        Some r \<Rightarrow> (m, Inr (Action.Done r))
      | None \<Rightarrow>
          (case m of
             Some c \<Rightarrow> (None, Inr (Command c))
           | None \<Rightarrow> (None, Inl state_error)))"

abbreviation SingleCommand :: "(LogicalCommand option, ResponseData) Machine" where
  "SingleCommand \<equiv> plain_machine SingleCommand_next"

definition validate_command :: "LogicalCommand \<Rightarrow> OperationOptions \<Rightarrow> unit res" where
  "validate_command c opts =
     bindE (OperationOptions_validate opts) (\<lambda>vopts.
       bindE (ConversationState_new c vopts) (\<lambda>_. Inr ()))"

definition conversation ::
  "LogicalCommand \<Rightarrow> OperationOptions \<Rightarrow> (LogicalCommand option, ResponseData) Operation res" where
  "conversation c opts =
     bindE (validate_command c opts) (\<lambda>_. Operation_from_machine (Some c) opts)"

section \<open>Lifecycle as a transition system\<close>

inductive op_step :: "('m, 't) Machine \<Rightarrow> ('m, 't) Operation \<Rightarrow> ('m, 't) Operation \<Rightarrow> bool" for M where
  step_start: "op_step M op (fst (Operation_start M op))"
| step_advance: "op_step M op (fst (Operation_advance M op bs))"
| step_cancel: "op_step M op (Operation_cancel op)"
| step_take: "op_step M op (fst (Operation_take_result op))"

inductive op_reach ::
  "('m, 't) Machine \<Rightarrow> 'm \<Rightarrow> OperationOptions \<Rightarrow> ('m, 't) Operation \<Rightarrow> bool" for M m0 opts where
  reach_new: "Operation_from_machine m0 opts = Inr op \<Longrightarrow> op_reach M m0 opts op"
| reach_step: "op_reach M m0 opts op \<Longrightarrow> op_step M op op' \<Longrightarrow> op_reach M m0 opts op'"

inductive_cases op_stepE: "op_step M op op'"

text \<open>
  The runs of a machine at the level of logical commands against an environment: a relation that
  says which responses a command may get and how the environment's state changes. The
  configurations of a run are the machine, the response it is about to receive (none at the start)
  and the environment.
\<close>

inductive machine_run ::
  "('m, 't) Machine \<Rightarrow> ('s \<Rightarrow> LogicalCommand \<Rightarrow> ResponseData \<Rightarrow> 's \<Rightarrow> bool) \<Rightarrow> 'm \<Rightarrow> 's
   \<Rightarrow> 'm \<Rightarrow> ResponseData option \<Rightarrow> 's \<Rightarrow> bool" for M env m0 s0 where
  run_start: "machine_run M env m0 s0 m0 None s0"
| run_exchange: "machine_run M env m0 s0 m resp s \<Longrightarrow> m_next M m resp = (m', Inr (Command c))
    \<Longrightarrow> env s c r s' \<Longrightarrow> machine_run M env m0 s0 m' (Some r) s'"

text \<open>
  The invariant, for a machine invariant \<open>I\<close> and a postcondition \<open>Q\<close> of its results: which
  fields are present in which lifecycle state, the budgets, and the frames of the conversation.
\<close>

definition conversation_ok :: "OperationOptions \<Rightarrow> ConversationState \<Rightarrow> bool" where
  "conversation_ok opts cs \<longleftrightarrow>
     (\<forall>f \<in> set (frames_of cs). length (ca_bytes f) \<le> max_command_bytes (exchange opts))
     \<and> list_all encoded (frames_of cs)"

definition op_inv :: "('m \<Rightarrow> bool) \<Rightarrow> ('t \<Rightarrow> bool) \<Rightarrow> ('m, 't) Operation \<Rightarrow> bool" where
  "op_inv I Q op \<longleftrightarrow>
     valid_options (op_options op)
     \<and> op_exchanges op \<le> max_exchanges (limits (op_options op))
     \<and> (op_state op \<noteq> Failed
          \<longrightarrow> op_response_bytes op \<le> max_total_response_bytes (limits (op_options op)))
     \<and> (case op_state op of
          Created \<Rightarrow> op_conversation op = None \<and> op_exchanges op = 0
            \<and> (\<exists>m. op_machine op = Some m \<and> I m)
        | AwaitingResponse \<Rightarrow>
            (\<exists>cs. op_conversation op = Some cs \<and> conversation_ok (op_options op) cs)
            \<and> (\<exists>m. op_machine op = Some m \<and> I m)
        | _ \<Rightarrow> op_conversation op = None \<and> op_machine op = None)
     \<and> (case op_output op of None \<Rightarrow> op_state op \<noteq> Completed | Some t \<Rightarrow> op_state op = Completed \<and> Q t)
     \<and> (op_error op \<noteq> None \<longleftrightarrow> op_state op = Failed)
     \<and> (op_progress op \<noteq> None \<longrightarrow> op_state op = Failed)"

lemma machine_run_invariant:
  assumes "machine_run M env m0 s0 m resp s" "J m0 None s0"
    and "\<And>m resp s m' c r s'. J m resp s \<Longrightarrow> m_next M m resp = (m', Inr (Command c)) \<Longrightarrow> env s c r s'
      \<Longrightarrow> J m' (Some r) s'"
  shows "J m resp s"
  using assms(1) by (induction rule: machine_run.induct) (use assms(2,3) in blast)+

text \<open>
  The same runs executed against a card given as a function; the fuel bounds the exchanges. The
  result is the last configuration and the machine's reaction to it, which is not a command.
\<close>

fun machine_exec ::
  "nat \<Rightarrow> ('m, 't) Machine \<Rightarrow> ('s \<Rightarrow> LogicalCommand \<Rightarrow> ResponseData \<times> 's) \<Rightarrow> 'm \<Rightarrow> ResponseData option \<Rightarrow> 's
   \<Rightarrow> ('m \<times> ResponseData option \<times> 's \<times> 't Action res) option" where
  "machine_exec 0 M dev m resp s = None"
| "machine_exec (Suc n) M dev m resp s =
     (case m_next M m resp of
        (m', Inr (Command c)) \<Rightarrow> (case dev s c of (r, s') \<Rightarrow> machine_exec n M dev m' (Some r) s')
      | (m', a) \<Rightarrow> Some (m, resp, s, a))"

lemma machine_exec_run:
  assumes "\<And>s c. env s c (fst (dev s c)) (snd (dev s c))"
  shows "machine_run M env m0 s0 m resp s \<Longrightarrow> machine_exec n M dev m resp s = Some (m1, resp1, s1, a)
    \<Longrightarrow> machine_run M env m0 s0 m1 resp1 s1 \<and> snd (m_next M m1 resp1) = a \<and> (\<forall>c. a \<noteq> Inr (Command c))"
proof (induction n arbitrary: m resp s)
  case (Suc n)
  obtain m' x where nx: "m_next M m resp = (m', x)" by fastforce
  show ?case
  proof (cases "\<exists>c. x = Inr (Command c)")
    case True
    then obtain c where x: "x = Inr (Command c)" ..
    obtain r s' where c: "dev s c = (r, s')" by fastforce
    then have "env s c r s'" using assms [of s c] by simp
    then have "machine_run M env m0 s0 m' (Some r) s'"
      using Suc.prems(1) nx x by (blast intro: run_exchange)
    then show ?thesis using Suc.IH Suc.prems(2) nx x c by simp
  next
    case False
    then show ?thesis
      using Suc.prems nx by (auto split: sum.splits Action.splits)
  qed
qed simp

section \<open>Preservation\<close>

text \<open>What holds of an operation whose machine is about to run: the budgets and no outcome yet.\<close>

definition op_running :: "('m \<Rightarrow> bool) \<Rightarrow> ('m, 't) Operation \<Rightarrow> bool" where
  "op_running I op \<longleftrightarrow>
     valid_options (op_options op) \<and> op_exchanges op \<le> max_exchanges (limits (op_options op))
     \<and> op_response_bytes op \<le> max_total_response_bytes (limits (op_options op))
     \<and> (\<exists>m. op_machine op = Some m \<and> I m)
     \<and> op_output op = None \<and> op_error op = None \<and> op_progress op = None \<and> op_state op \<noteq> Completed
     \<and> op_state op \<noteq> Failed"

lemma op_inv_running:
  assumes "op_inv I Q op" "op_state op = Created \<or> op_state op = AwaitingResponse"
  shows "op_running I op"
  using assms by (auto simp: op_inv_def op_running_def split: OperationState.splits option.splits)

lemma record_failure_inv:
  assumes "valid_options (op_options op)" "op_exchanges op \<le> max_exchanges (limits (op_options op))"
    "op_output op = None"
  shows "op_inv I Q (fst (Operation_record M (op, Inl e)))"
  using assms by (simp add: Operation_record_def op_inv_def)

lemma exchange_inv:
  assumes "op_running I op" "op_conversation op = Some cs" "conversation_ok (op_options op) cs"
  shows "op_inv I Q (fst (Operation_record M (Operation_exchange op)))"
proof (cases "op_exchanges op \<ge> max_exchanges (limits (op_options op))")
  case True
  then show ?thesis
    using assms(1) by (simp add: Operation_exchange_def op_running_def record_failure_inv)
next
  case False
  then show ?thesis
    using assms by (simp add: Operation_exchange_def Operation_record_def op_running_def op_inv_def)
qed

lemma new_conversation_ok:
  "ConversationState_new c opts = Inr cs \<Longrightarrow> conversation_ok opts cs"
  using new_frames_fit new_encoded by (auto simp: conversation_ok_def)

lemma advance_conversation_ok:
  assumes "conversation_ok opts cs" "valid_options opts" "ConversationState_advance cs r opts = Inr (cs', out)"
  shows "conversation_ok opts cs'"
  using advance_frames_fit [OF assms(3,2)] advance_encoded [OF assms(3)] assms(1)
  by (auto simp: conversation_ok_def)

locale machine_contract =
  fixes M :: "('m, 't) Machine"
    and I :: "'m \<Rightarrow> bool"
    and Q :: "'t \<Rightarrow> bool"
  assumes next_command: "I m \<Longrightarrow> m_next M m r = (m', Inr (Command c)) \<Longrightarrow> I m'"
    and next_done: "I m \<Longrightarrow> m_next M m r = (m', Inr (Action.Done t)) \<Longrightarrow> Q t"
begin

lemma drive_inv:
  assumes "op_running I op"
  shows "op_inv I Q (fst (Operation_record M (Operation_drive M op response)))"
proof -
  from assms obtain m where m: "op_machine op = Some m" "I m" by (auto simp: op_running_def)
  obtain m' res where n: "m_next M m response = (m', res)" by fastforce
  show ?thesis
  proof (cases res)
    case (Inl e)
    then show ?thesis
      using assms m n by (simp add: Operation_drive_def op_running_def record_failure_inv)
  next
    case (Inr a)
    show ?thesis
    proof (cases a)
      case (Done t)
      then have "Q t" using next_done m n Inr by blast
      then show ?thesis
        using assms m n Inr Done
        by (simp add: Operation_drive_def Operation_record_def op_running_def op_inv_def)
    next
      case (Command c)
      then have I': "I m'" using next_command m n Inr by blast
      show ?thesis
      proof (cases "ConversationState_new c (op_options op)")
        case (Inl e)
        then show ?thesis
          using assms m n Inr Command by (simp add: Operation_drive_def op_running_def record_failure_inv)
      next
        case conv: (Inr cs)
        let ?op = "op\<lparr>op_machine := Some m', op_conversation := Some cs\<rparr>"
        have "op_running I ?op" using assms I' by (simp add: op_running_def)
        then have "op_inv I Q (fst (Operation_record M (Operation_exchange ?op)))"
          by (rule exchange_inv [where cs = cs]) (simp_all add: new_conversation_ok [OF conv])
        then show ?thesis using m n Inr Command conv by (simp add: Operation_drive_def)
      qed
    qed
  qed
qed

lemma advance_inv:
  assumes "op_inv I Q op" "op_state op = AwaitingResponse"
  shows "op_inv I Q (fst (Operation_record M (Operation_advance_inner M op bs)))"
proof -
  have run: "op_running I op" using op_inv_running assms by blast
  from assms obtain cs where cs: "op_conversation op = Some cs" "conversation_ok (op_options op) cs"
    by (auto simp: op_inv_def)
  have fail: "op_inv I Q (fst (Operation_record M (op\<lparr>op_response_bytes := n\<rparr>, Inl e)))" for n e
    using run by (intro record_failure_inv) (auto simp: op_running_def)
  have fail0: "op_inv I Q (fst (Operation_record M (op, Inl e)))" for e
    using run by (intro record_failure_inv) (auto simp: op_running_def)
  show ?thesis
  proof (cases "ResponseApdu_parse bs")
    case (Inl e)
    then show ?thesis using fail0 by (simp add: Operation_advance_inner_def)
  next
    case (Inr r)
    let ?n = "op_response_bytes op + length (ra_data r)" and ?opts = "op_options op"
    let ?op1 = "op\<lparr>op_response_bytes := ?n\<rparr>"
    show ?thesis
    proof (cases "?n \<le> usize_max \<and> ?n \<le> max_total_response_bytes (limits ?opts)
        \<and> length bs \<le> max_response_bytes (exchange ?opts)")
      case False
      then show ?thesis using Inr fail fail0
        by (auto simp: Operation_advance_inner_def checked_add_def Let_def)
    next
      case True
      then have run1: "op_running I (?op1\<lparr>op_conversation := c\<rparr>)" for c
        using run by (simp add: op_running_def)
      show ?thesis
      proof (cases "ConversationState_advance cs r ?opts")
        case (Inl e)
        then show ?thesis using True Inr cs fail
          by (simp add: Operation_advance_inner_def checked_add_def Let_def)
      next
        case adv: (Inr p)
        obtain cs' out where p: "p = (cs', out)" by fastforce
        have v: "valid_options ?opts" using run by (simp add: op_running_def)
        have a: "ConversationState_advance cs r ?opts = Inr (cs', out)" using adv p by simp
        have ok: "conversation_ok ?opts cs'" by (rule advance_conversation_ok [OF cs(2) v a])
        have "op_inv I Q (fst (Operation_record M (Operation_exchange (?op1\<lparr>op_conversation := Some cs'\<rparr>))))"
          by (rule exchange_inv [OF run1, where cs = cs']) (simp_all add: ok)
        moreover have "op_inv I Q (fst (Operation_record M
            (Operation_drive M (?op1\<lparr>op_conversation := None\<rparr>) (Some rd))))" for rd
          by (rule drive_inv [OF run1])
        ultimately show ?thesis using True Inr cs adv p
          by (cases out) (simp_all add: Operation_advance_inner_def checked_add_def Let_def)
      qed
    qed
  qed
qed

lemma step_inv:
  assumes "op_inv I Q op" "op_step M op op'"
  shows "op_inv I Q op'"
  using assms(2)
proof cases
  case step_start
  then show ?thesis
    using assms(1) drive_inv [OF op_inv_running [OF assms(1)]] by (auto simp: Operation_start_def)
next
  case (step_advance bs)
  then show ?thesis using assms(1) advance_inv by (auto simp: Operation_advance_def)
next
  case step_cancel
  then show ?thesis
    using assms(1) by (auto simp: Operation_cancel_def op_inv_def split: option.splits)
next
  case step_take
  then have "op' = op \<or> op_state op = Completed \<and> op' = op\<lparr>op_output := None, op_state := ResultTaken\<rparr>"
    by (auto simp: Operation_take_result_def split: option.splits)
  then show ?thesis using assms(1) by (auto simp: op_inv_def)
qed

lemma reach_inv:
  assumes "op_reach M m0 opts op" "I m0"
  shows "op_inv I Q op"
  using assms
proof (induction rule: op_reach.induct)
  case (reach_new op)
  then show ?case
    by (auto simp: Operation_from_machine_def result_simps op_inv_def valid_options_def
        OperationOptions_validate_def split: if_splits)
next
  case (reach_step op op')
  then show ?case using step_inv by blast
qed

text \<open>Every result a caller can read satisfies the machine's postcondition.\<close>

lemma result_post:
  assumes "op_reach M m0 opts op" "I m0" "Operation_result op = Inr t"
  shows "Q t"
  using reach_inv [OF assms(1,2)] assms(3)
  by (auto simp: Operation_result_def op_inv_def result_simps split: if_splits option.splits)

end

text \<open>Any machine satisfies the trivial contract, which still gives the lifecycle invariant.\<close>

interpretation any_machine: machine_contract M "\<lambda>_. True" "\<lambda>_. True" for M :: "('m, 't) Machine"
  by unfold_locales auto

text \<open>
  A machine that asks for a bounded number of logical commands: the budget never grows when the
  machine starts and shrinks with every command it issues in reaction to a response. The client
  lemma counts the exchanges of a run with an environment that only counts.
\<close>

locale bounded_machine = machine_contract M I Q
  for M :: "('m, 't) Machine" and I Q +
  fixes budget :: "'m \<Rightarrow> nat"
  assumes budget_start: "I m \<Longrightarrow> m_next M m None = (m', Inr (Command c)) \<Longrightarrow> budget m' \<le> budget m"
    and budget_react: "I m \<Longrightarrow> m_next M m (Some r) = (m', Inr (Command c)) \<Longrightarrow> budget m' < budget m"
begin

lemma run_contract:
  assumes "machine_run M env m0 s0 m resp s" "I m0"
  shows "I m"
  using assms(1) by (rule machine_run_invariant) (use assms(2) next_command in blast)+

lemma run_bounded:
  assumes "machine_run M (\<lambda>n c r n'. n' = Suc n) m0 0 m resp n" "I m0"
  shows "n \<le> Suc (budget m0)"
proof -
  let ?J = "\<lambda>m resp n. I m \<and> (case resp of None \<Rightarrow> n = 0 \<and> budget m = budget m0
              | Some _ \<Rightarrow> n + budget m \<le> Suc (budget m0))"
  have "?J m resp n"
    using assms(1)
  proof (rule machine_run_invariant)
    fix m resp n m' c r n'
    assume J: "?J m resp n" and nx: "m_next M m resp = (m', Inr (Command c))" and "n' = Suc n"
    have "I m'" using J nx next_command by blast
    moreover have "Suc n + budget m' \<le> Suc (budget m0)"
      using J nx budget_start [of m m' c] by (cases resp) (auto dest: budget_react)
    ultimately show "?J m' (Some r) n'" using \<open>n' = Suc n\<close> by simp
  qed (use assms(2) in simp)
  then show ?thesis by (cases resp) auto
qed

lemma exec_terminates:
  "I m \<Longrightarrow> budget m < n \<Longrightarrow> \<exists>x. machine_exec n M dev m (Some r) s = Some x"
proof (induction n arbitrary: m r s)
  case (Suc n)
  obtain m' a where nx: "m_next M m (Some r) = (m', a)" by fastforce
  show ?case
  proof (cases "\<exists>c. a = Inr (Command c)")
    case True
    then obtain c where a: "a = Inr (Command c)" ..
    then have "I m'" "budget m' < n"
      using nx Suc.prems next_command [of m "Some r" m' c] budget_react [of m r m' c] by auto
    with Suc.IH show ?thesis using nx a by (auto split: prod.splits)
  next
    case False
    then show ?thesis using nx by (auto split: sum.splits Action.splits)
  qed
qed simp

lemma exec_terminates_start:
  assumes "I m" "Suc (budget m) < n"
  shows "\<exists>x. machine_exec n M dev m None s = Some x"
proof -
  obtain k where n: "n = Suc k" using assms(2) by (cases n) auto
  obtain m' a where nx: "m_next M m None = (m', a)" by fastforce
  show ?thesis
  proof (cases "\<exists>c. a = Inr (Command c)")
    case True
    then obtain c where a: "a = Inr (Command c)" ..
    then have "I m'" "budget m' < k"
      using nx assms n next_command [of m None m' c] budget_start [of m m' c] by auto
    then show ?thesis using exec_terminates [of m' k] nx a n by (auto split: prod.splits)
  next
    case False
    then show ?thesis using nx n by (auto split: sum.splits Action.splits)
  qed
qed

lemma exec_complete:
  assumes "I m0" "Suc (budget m0) < n"
  obtains m resp s a where "machine_exec n M dev m0 None s0 = Some (m, resp, s, a)"
    "machine_run M (\<lambda>s c r s'. dev s c = (r, s')) m0 s0 m resp s"
    "snd (m_next M m resp) = a" "\<And>c. a \<noteq> Inr (Command c)"
proof -
  obtain m resp s a where x: "machine_exec n M dev m0 None s0 = Some (m, resp, s, a)"
    using exec_terminates_start [OF assms, of dev s0] by auto
  from machine_exec_run [of "\<lambda>s c r s'. dev s c = (r, s')", OF _ run_start x]
  show ?thesis using that [OF x] by auto
qed

end

interpretation single_command: bounded_machine SingleCommand "\<lambda>_. True" "\<lambda>_. True" "\<lambda>_. 0"
  by unfold_locales (auto simp: plain_machine_def SingleCommand_next_def
      split: option.splits)

section \<open>The caller's loop\<close>

text \<open>
  The loop every caller runs (README, \<open>examples/support\<close>): transmit the pending command with a
  transport \<open>tx\<close> over some world state, feed the response back, until the step is no longer
  \<open>Exchange\<close>. The loop takes fuel; \<open>exchange_loop_terminates\<close> shows how much is enough.
\<close>

fun exchange_loop ::
  "nat \<Rightarrow> ('m, 't) Machine \<Rightarrow> ('w \<Rightarrow> bytes \<Rightarrow> 'w \<times> bytes) \<Rightarrow> 'w \<Rightarrow> ('m, 't) Operation
   \<Rightarrow> ('w \<times> ('m, 't) Operation \<times> Step res) option" where
  "exchange_loop 0 M tx w op = None"
| "exchange_loop (Suc n) M tx w op =
     (case Operation_command op of
        Inl e \<Rightarrow> Some (w, op, Inl e)
      | Inr c \<Rightarrow>
          (case tx w (ca_bytes c) of
             (w', response) \<Rightarrow>
               (case Operation_advance M op response of
                  (op', Inr Exchange) \<Rightarrow> exchange_loop n M tx w' op'
                | (op', r) \<Rightarrow> Some (w', op', r))))"

definition run_operation ::
  "nat \<Rightarrow> ('m, 't) Machine \<Rightarrow> ('w \<Rightarrow> bytes \<Rightarrow> 'w \<times> bytes) \<Rightarrow> 'w \<Rightarrow> ('m, 't) Operation
   \<Rightarrow> ('w \<times> ('m, 't) Operation \<times> Step res) option" where
  "run_operation n M tx w op =
     (case Operation_start M op of
        (op', Inr Exchange) \<Rightarrow> exchange_loop n M tx w op'
      | (op', r) \<Rightarrow> Some (w, op', r))"

definition terminal_result :: "('m, 't) Operation \<Rightarrow> Step res \<Rightarrow> bool" where
  "terminal_result op r \<longleftrightarrow>
     op_state op = Completed \<and> r = Inr Step.Done \<or> op_state op = Failed \<and> (\<exists>e. r = Inl e \<and> op_error op = Some e)"

definition exchanged :: "nat \<Rightarrow> ('m, 't) Operation \<Rightarrow> Step res \<Rightarrow> OperationOptions \<Rightarrow> bool" where
  "exchanged n op r opts \<longleftrightarrow>
     op_state op = AwaitingResponse \<and> r = Inr Exchange \<and> op_exchanges op = Suc n
     \<and> op_exchanges op \<le> max_exchanges (limits opts) \<and> op_options op = opts"

lemma record_exchange_cases:
  "Operation_record M (Operation_exchange op) = (op', r) \<Longrightarrow>
     exchanged (op_exchanges op) op' r (op_options op) \<or> terminal_result op' r"
  by (auto simp: Operation_record_def Operation_exchange_def exchanged_def terminal_result_def
      split: if_splits)

lemma record_Inl_terminal: "Operation_record M (op, Inl e) = (op', r) \<Longrightarrow> terminal_result op' r"
  by (auto simp: Operation_record_def terminal_result_def)

lemma record_drive_cases:
  assumes "Operation_record M (Operation_drive M op response) = (op', r)"
  shows "exchanged (op_exchanges op) op' r (op_options op) \<or> terminal_result op' r"
proof (cases "op_machine op")
  case None
  then show ?thesis using assms by (auto simp: Operation_drive_def dest: record_Inl_terminal)
next
  case (Some m)
  obtain m' res where n: "m_next M m response = (m', res)" by fastforce
  show ?thesis
  proof (cases res)
    case (Inl e)
    then show ?thesis using assms Some n by (auto simp: Operation_drive_def dest: record_Inl_terminal)
  next
    case (Inr a)
    then show ?thesis
      using assms Some n
      by (cases a; cases "ConversationState_new (case a of Command c \<Rightarrow> c) (op_options op)")
         (auto simp: Operation_drive_def Operation_record_def terminal_result_def Operation_exchange_def
          exchanged_def split: if_splits)
  qed
qed

lemma advance_inner_cases:
  obtains (err) opx e where "Operation_advance_inner M op bs = (opx, Inl e)"
    | (more) cs n where "Operation_advance_inner M op bs =
        Operation_exchange (op\<lparr>op_response_bytes := n, op_conversation := Some cs\<rparr>)"
    | (finish) rd n where "Operation_advance_inner M op bs =
        Operation_drive M (op\<lparr>op_response_bytes := n, op_conversation := None\<rparr>) (Some rd)"
proof (cases "length bs \<le> max_response_bytes (exchange (op_options op))")
  case False
  then show ?thesis by (intro err) (simp add: Operation_advance_inner_def)
next
  case fits: True
  show ?thesis
  proof (cases "ResponseApdu_parse bs")
    case (Inl e)
    then show ?thesis using fits by (intro err) (simp add: Operation_advance_inner_def)
  next
    case (Inr r)
    let ?n = "op_response_bytes op + length (ra_data r)"
    show ?thesis
    proof (cases "?n \<le> usize_max \<and> ?n \<le> max_total_response_bytes (limits (op_options op))
        \<and> op_conversation op \<noteq> None")
      case False
      then have "\<exists>opx e. Operation_advance_inner M op bs = (opx, Inl e)"
        using fits Inr by (auto simp: Operation_advance_inner_def checked_add_def Let_def)
      then show ?thesis using err by blast
    next
      case True
      then obtain cs where cs: "op_conversation op = Some cs" by auto
      have eq: "Operation_advance_inner M op bs =
          (case ConversationState_advance cs r (op_options op) of
             Inl e \<Rightarrow> (op\<lparr>op_response_bytes := ?n\<rparr>, Inl e)
           | Inr (cs', None) \<Rightarrow>
               Operation_exchange (op\<lparr>op_response_bytes := ?n, op_conversation := Some cs'\<rparr>)
           | Inr (cs', Some rd) \<Rightarrow>
               Operation_drive M (op\<lparr>op_response_bytes := ?n, op_conversation := None\<rparr>) (Some rd))"
        using True fits Inr cs by (simp add: Operation_advance_inner_def checked_add_def Let_def)
      show ?thesis
      proof (cases "ConversationState_advance cs r (op_options op)")
        case (Inl e)
        then show ?thesis using eq by (intro err) simp
      next
        case (Inr p)
        obtain cs' out where "p = (cs', out)" by fastforce
        then show ?thesis using eq Inr by (cases out) (simp_all add: more finish)
      qed
    qed
  qed
qed

lemma record_advance_cases:
  assumes "Operation_record M (Operation_advance_inner M op bs) = (op', r)"
  shows "exchanged (op_exchanges op) op' r (op_options op) \<or> terminal_result op' r"
proof (cases rule: advance_inner_cases [of M op bs])
  case (err opx e)
  then show ?thesis using assms by (auto dest: record_Inl_terminal)
next
  case (more cs n)
  then show ?thesis using assms by (auto dest: record_exchange_cases)
next
  case (finish rd n)
  then show ?thesis using assms by (auto dest: record_drive_cases)
qed

lemma exchange_loop_total:
  assumes "op_inv I Q op" "machine_contract M I Q" "op_state op = AwaitingResponse"
    "max_exchanges (limits (op_options op)) - op_exchanges op < n"
  shows "\<exists>w' op' r. exchange_loop n M tx w op = Some (w', op', r) \<and> terminal_result op' r"
  using assms
proof (induction n arbitrary: w op)
  case 0
  then show ?case by simp
next
  case (Suc n)
  from Suc.prems(1,3) obtain c where c: "Operation_command op = Inr c"
    by (auto simp: op_inv_def Operation_command_def)
  obtain w' response where t: "tx w (ca_bytes c) = (w', response)" by fastforce
  obtain op' r where a: "Operation_advance M op response = (op', r)" by fastforce
  then have rec: "Operation_record M (Operation_advance_inner M op response) = (op', r)"
    using Suc.prems(3) by (simp add: Operation_advance_def)
  from record_advance_cases [OF rec] show ?case
  proof
    assume e: "exchanged (op_exchanges op) op' r (op_options op)"
    have "op_inv I Q op'"
      using machine_contract.advance_inv [OF Suc.prems(2,1,3), of response] rec by simp
    moreover have "max_exchanges (limits (op_options op')) - op_exchanges op' < n"
      using e Suc.prems(4) by (auto simp: exchanged_def)
    ultimately obtain w'' op'' r'' where "exchange_loop n M tx w' op' = Some (w'', op'', r'')"
      "terminal_result op'' r''"
      using Suc.IH [of op' w'] Suc.prems(2) e by (auto simp: exchanged_def)
    with e c t a show ?thesis by (simp add: exchanged_def)
  next
    assume "terminal_result op' r"
    then show ?thesis using c t a
      by (auto simp: terminal_result_def)
  qed
qed

lemma from_machine_inv:
  assumes "Operation_from_machine m0 opts = Inr op" "I m0"
  shows "op_inv I Q op" "op_state op = Created" "op_options op = opts" "op_exchanges op = 0"
  using assms
  by (auto simp: Operation_from_machine_def result_simps op_inv_def valid_options_def
      OperationOptions_validate_def split: if_splits)

lemma exchange_loop_inv:
  assumes "exchange_loop n M tx w op = Some (w', op', r)" "op_inv (\<lambda>_. True) (\<lambda>_. True) op"
  shows "op_inv (\<lambda>_. True) (\<lambda>_. True) op'"
  using assms
proof (induction n arbitrary: w op)
  case (Suc n)
  have "op_inv (\<lambda>_. True) (\<lambda>_. True) (fst (Operation_advance M op bs))" for bs
    using any_machine.step_inv [OF Suc.prems(2) step_advance] .
  then have "op_inv (\<lambda>_. True) (\<lambda>_. True) op2" if "Operation_advance M op bs = (op2, r2)" for bs op2 r2
    using that by (metis fst_conv)
  then show ?case
    using Suc by (auto split: sum.splits prod.splits Step.splits)
qed simp

lemma run_operation_inv:
  assumes "run_operation n M tx w op = Some (w', op', r)" "op_inv (\<lambda>_. True) (\<lambda>_. True) op"
  shows "op_inv (\<lambda>_. True) (\<lambda>_. True) op'"
proof -
  obtain op1 r1 where s: "Operation_start M op = (op1, r1)" by fastforce
  then have "op_inv (\<lambda>_. True) (\<lambda>_. True) op1"
    using any_machine.step_inv [OF assms(2) step_start, of M] by simp
  then show ?thesis
    using assms(1) s exchange_loop_inv [of n M tx w op1]
    by (auto simp: run_operation_def split: sum.splits Step.splits)
qed

lemma run_operation_total:
  assumes "Operation_from_machine m0 opts = Inr op"
  shows "\<exists>w' op' r. run_operation (max_exchanges (limits opts)) M tx w op = Some (w', op', r)
    \<and> (op_state op' = Completed \<and> r = Inr Step.Done
       \<or> op_state op' = Failed \<and> (\<exists>e. r = Inl e \<and> op_error op' = Some e))"
proof -
  have new: "op_inv (\<lambda>_. True) (\<lambda>_. True) op" "op_state op = Created" "op_options op = opts"
    "op_exchanges op = 0"
    using from_machine_inv [OF assms, of "\<lambda>_. True"] by simp_all
  obtain op1 r1 where s: "Operation_start M op = (op1, r1)" by fastforce
  then have rec: "Operation_record M (Operation_drive M op None) = (op1, r1)"
    using new(2) by (simp add: Operation_start_def)
  from record_drive_cases [OF rec] show ?thesis
  proof
    assume e: "exchanged (op_exchanges op) op1 r1 (op_options op)"
    have "op_inv (\<lambda>_. True) (\<lambda>_. True) op1"
      using any_machine.drive_inv [OF op_inv_running [OF new(1)], of M None] new(2) rec by simp
    moreover have "max_exchanges (limits (op_options op1)) - op_exchanges op1 < max_exchanges (limits opts)"
      using e new by (auto simp: exchanged_def)
    ultimately have "\<exists>w' op' r. exchange_loop (max_exchanges (limits opts)) M tx w op1 = Some (w', op', r)
        \<and> terminal_result op' r"
      using e any_machine.machine_contract_axioms by (intro exchange_loop_total) (auto simp: exchanged_def)
    then show ?thesis using s e
      by (auto simp: run_operation_def exchanged_def terminal_result_def)
  next
    assume "terminal_result op1 r1"
    then show ?thesis using s by (auto simp: run_operation_def terminal_result_def)
  qed
qed

section \<open>Properties\<close>

text \<open>C3: lifecycle invariant. In every state an operation can reach by any sequence of calls, a
command is pending exactly in AwaitingResponse; it fits the caller's channel and is a well-formed
command; the exchange and response budgets hold; a result is stored exactly in Completed and an
error exactly in Failed; and machine and conversation are released in every terminal state.\<close>

theorem operation_lifecycle_invariant:
  assumes "op_reach M m0 opts op"
  shows "(\<forall>c. Operation_command op = Inr c \<longrightarrow>
            op_state op = AwaitingResponse
            \<and> length (ca_bytes c) \<le> max_command_bytes (exchange (op_options op))
            \<and> iso_decode (ca_bytes c) \<noteq> None)
    \<and> (op_state op = AwaitingResponse \<longrightarrow> (\<exists>c. Operation_command op = Inr c))
    \<and> op_exchanges op \<le> max_exchanges (limits (op_options op))
    \<and> (op_state op \<noteq> Failed \<longrightarrow>
         op_response_bytes op \<le> max_total_response_bytes (limits (op_options op)))
    \<and> (op_output op \<noteq> None \<longleftrightarrow> op_state op = Completed)
    \<and> (op_error op \<noteq> None \<longleftrightarrow> op_state op = Failed)
    \<and> (op_state op \<notin> {Created, AwaitingResponse} \<longrightarrow> op_machine op = None \<and> op_conversation op = None)"
proof -
  have inv: "op_inv (\<lambda>_. True) (\<lambda>_. True) op"
    using any_machine.reach_inv [OF assms] by simp
  have dec: "iso_decode (ca_bytes c) \<noteq> None" if "encoded c" for c
    using that iso_decode_encode by (fastforce simp: encoded_def)
  show ?thesis
    using inv dec
    by (auto simp: op_inv_def Operation_command_def conversation_ok_def frames_of_def result_simps
        split: OperationState.splits option.splits)
qed

theorem operation_lifecycle_invariant_witness:
  "\<exists>op c. op_reach SingleCommand (Some (LogicalCommand_new (ApduHeader_new 0 0xca 0 0) [] (Exact 256)))
        OperationOptions_default op
     \<and> Operation_command op = Inr c \<and> length (ca_bytes c) \<le> 261"
proof -
  let ?m = "Some (LogicalCommand_new (ApduHeader_new 0 0xca 0 0) [] (Exact 256))"
  let ?o = "OperationOptions_default"
  obtain op where op: "Operation_from_machine ?m ?o = (Inr op :: (_, ResponseData) Operation res)"
    by (simp add: Operation_from_machine_def OperationOptions_validate_def conversation_eval)
  let ?op = "fst (Operation_start SingleCommand op)"
  have r: "op_reach SingleCommand ?m ?o ?op"
    using op by (blast intro: reach_new reach_step step_start)
  have "op_state ?op = AwaitingResponse" "op_options ?op = ?o"
    using op by (auto simp: Operation_from_machine_def OperationOptions_validate_def result_simps
        Operation_start_def Operation_drive_def plain_machine_def SingleCommand_next_def
        Operation_exchange_def Operation_record_def conversation_eval)
  with operation_lifecycle_invariant [OF r] r show ?thesis
    by (auto simp: OperationOptions_default_def ExchangeOptions_default_def)
qed

text \<open>C5: the caller's loop always ends. Started on a fresh operation over any transport, any
machine and any card behaviour, the loop performs at most \<open>max_exchanges\<close> transmissions and
stops in Completed with the step Done or in Failed with the stored error.\<close>

theorem caller_loop_terminates:
  assumes "Operation_from_machine m0 opts = Inr op"
  shows "\<exists>w' op' r. run_operation (max_exchanges (limits opts)) M tx w op = Some (w', op', r)
    \<and> (op_state op' = Completed \<and> r = Inr Step.Done
       \<or> op_state op' = Failed \<and> (\<exists>e. r = Inl e \<and> op_error op' = Some e))"
  by (rule run_operation_total [OF assms])

theorem caller_loop_terminates_witness:
  "\<exists>op w' op' r. Operation_from_machine (Some (LogicalCommand_new (ApduHeader_new 0 0xca 0 0) [] (Exact 256)))
        OperationOptions_default = Inr op
     \<and> run_operation 4096 SingleCommand (\<lambda>(w :: unit) b. (w, [0x42, 0x90, 0])) () op = Some (w', op', r)
     \<and> (op_state op' = Completed \<or> op_state op' = Failed)"
proof -
  let ?m = "Some (LogicalCommand_new (ApduHeader_new 0 0xca 0 0) [] (Exact 256))"
  obtain op where op: "Operation_from_machine ?m OperationOptions_default = (Inr op :: (_, ResponseData) Operation res)"
    by (simp add: Operation_from_machine_def OperationOptions_validate_def conversation_eval)
  have n: "max_exchanges (limits OperationOptions_default) = 4096"
    by (simp add: OperationOptions_default_def OperationLimits_default_def)
  from caller_loop_terminates [OF op, of SingleCommand "\<lambda>(w :: unit) b. (w, [0x42, 0x90, 0])" "()", unfolded n]
  show ?thesis using op by blast
qed

text \<open>Terminal states are absorbing. Once an operation has failed, was cancelled or gave its
result away, no call changes it: the stored error is never overwritten, no command is exposed and
every attempt to drive it, read a result or take one reports a state error.\<close>

theorem terminal_states_absorbing:
  assumes "op_state op \<in> {Failed, Cancelled, ResultTaken}"
  shows "(\<forall>op'. op_step M op op' \<longrightarrow> op' = op)
    \<and> snd (Operation_start M op) = Inl state_error \<and> snd (Operation_advance M op bs) = Inl state_error
    \<and> Operation_command op = Inl state_error \<and> Operation_result op = Inl state_error
    \<and> snd (Operation_take_result op) = Inl state_error"
proof -
  have "op' = op" if "op_step M op op'" for op'
    using that assms
    by cases (auto simp: Operation_start_def Operation_advance_def Operation_cancel_def
        Operation_take_result_def)
  then show ?thesis
    using assms by (auto simp: Operation_start_def Operation_advance_def Operation_take_result_def
        Operation_command_def Operation_result_def)
qed

theorem terminal_states_absorbing_witness:
  "\<exists>op. Operation_from_machine (Some (LogicalCommand_new (ApduHeader_new 0 0xca 0 0) [] (Exact 256)))
        OperationOptions_default = Inr op
     \<and> op_state (Operation_cancel op) = Cancelled
     \<and> snd (Operation_start SingleCommand (Operation_cancel op)) = Inl state_error"
proof -
  let ?m = "Some (LogicalCommand_new (ApduHeader_new 0 0xca 0 0) [] (Exact 256))"
  obtain op where op: "Operation_from_machine ?m OperationOptions_default = (Inr op :: (_, ResponseData) Operation res)"
    and c: "op_state op = Created"
    by (simp add: Operation_from_machine_def OperationOptions_validate_def conversation_eval)
  have "op_state (Operation_cancel op) = Cancelled" using c by (simp add: Operation_cancel_def)
  with terminal_states_absorbing [of "Operation_cancel op" SingleCommand "[]"] op show ?thesis by auto
qed

text \<open>Preflight is exact. A raw conversation that could be constructed starts without error:
its first physical command is the first frame of the validated logical command and one exchange is
counted; a command that the preflight rejects never becomes an operation.\<close>

theorem raw_conversation_preflight:
  "case conversation c opts of
     Inl e \<Rightarrow> validate_command c opts = Inl e
   | Inr op \<Rightarrow> (\<exists>cs op'. ConversationState_new c opts = Inr cs
        \<and> Operation_start SingleCommand op = (op', Inr Exchange)
        \<and> Operation_command op' = Inr (cs_current cs) \<and> op_exchanges op' = 1)"
proof (cases "conversation c opts")
  case (Inl e)
  then show ?thesis
    by (auto simp: conversation_def validate_command_def Operation_from_machine_def result_simps)
next
  case (Inr op)
  then have v: "OperationOptions_validate opts = Inr opts"
    by (auto simp: conversation_def validate_command_def OperationOptions_validate_def result_simps
        split: if_splits)
  with Inr obtain cs where cs: "ConversationState_new c opts = Inr cs"
    by (auto simp: conversation_def validate_command_def result_simps)
  have "0 < max_exchanges (limits opts)"
    using v by (auto simp: OperationOptions_validate_def split: if_splits)
  moreover have op: "op_machine op = Some (Some c)" "op_state op = Created" "op_options op = opts"
    "op_exchanges op = 0"
    using Inr v cs by (auto simp: conversation_def validate_command_def Operation_from_machine_def)
  ultimately have "Operation_start SingleCommand op =
      (op\<lparr>op_machine := Some None, op_conversation := Some cs, op_exchanges := 1,
          op_state := AwaitingResponse\<rparr>, Inr Exchange)"
    using cs by (simp add: Operation_start_def Operation_drive_def plain_machine_def SingleCommand_next_def
        Operation_exchange_def Operation_record_def)
  with Inr cs show ?thesis by (simp add: Operation_command_def)
qed

end
