(* ===== verification/Ndef.thy ===== *)
theory Ndef
  imports Operation
begin

text \<open>
  The NDEF applet (\<open>canokey-ndef/src/lib.rs\<close>): capability container parsing and the three
  machines that read the capability, read the message and replace the message in chunks. The
  card's side is specified by \<open>t4t_exchange\<close>: what an acknowledged SELECT, READ BINARY or
  UPDATE BINARY means for the selected file of a Type 4 Tag, with any answer allowed otherwise.
  The properties are stated over every run of a machine against such a card.
\<close>

section \<open>Constants and commands\<close>

definition NDEF_AID :: bytes where
  "NDEF_AID = [0xd2, 0x76, 0x00, 0x00, 0x85, 0x01, 0x01]"

definition CC_FILE_ID :: "16 word" where
  "CC_FILE_ID = 0xe103"

definition CC_LEN :: nat where
  "CC_LEN = 15"

definition CHUNK :: nat where
  "CHUNK = 240"

definition MAX_MESSAGE_LENGTH :: nat where
  "MAX_MESSAGE_LENGTH = 1022"

record NdefCapability =
  cap_file_id :: "16 word"
  cap_max_message_length :: nat
  cap_read_only :: bool

type_synonym NdefMessage = bytes

definition select_applet :: LogicalCommand where
  "select_applet = LogicalCommand_new (ApduHeader_new 0x00 0xa4 0x04 0x00) NDEF_AID Absent"

definition select_file :: "16 word \<Rightarrow> LogicalCommand" where
  "select_file fid = LogicalCommand_new (ApduHeader_new 0x00 0xa4 0x00 0x0c) (to_be_bytes 2 fid) Absent"

definition read_binary :: "16 word \<Rightarrow> nat \<Rightarrow> LogicalCommand" where
  "read_binary off len =
     LogicalCommand_new (ApduHeader_new 0x00 0xb0 (ucast (drop_bit 8 off)) (ucast off)) []
       (Exact (of_nat len))"

definition update_binary :: "16 word \<Rightarrow> bytes \<Rightarrow> LogicalCommand" where
  "update_binary off d =
     LogicalCommand_new (ApduHeader_new 0x00 0xd6 (ucast (drop_bit 8 off)) (ucast off)) d Absent"

definition ndef_invalid :: Error where
  "ndef_invalid = Error_at (Error_new InvalidResponse) Phase.Parsing"

definition parse_cc :: "bytes \<Rightarrow> NdefCapability res" where
  "parse_cc d =
     (if length d \<noteq> CC_LEN \<or> d ! 7 \<noteq> 0x04 \<or> d ! 8 \<noteq> 0x06 then Inl ndef_invalid
      else
        (let max_file_size = unat (from_be [d ! 11, d ! 12] :: 16 word) in
         if max_file_size < 2 then Inl ndef_invalid
         else Inr \<lparr>cap_file_id = from_be [d ! 9, d ! 10],
                   cap_max_message_length = min (max_file_size - 2) MAX_MESSAGE_LENGTH,
                   cap_read_only = (d ! 14 \<noteq> 0)\<rparr>))"

definition read_chunk :: "OperationOptions \<Rightarrow> nat" where
  "read_chunk opts = min CHUNK (max_response_bytes (exchange opts) - 2)"

definition write_chunk :: "OperationOptions \<Rightarrow> nat res" where
  "write_chunk opts =
     (let chunk = min CHUNK (max_command_bytes (exchange opts) - 6) in
      if chunk = 0 then Inl (Error_new LimitExceeded) else Inr chunk)"

section \<open>Reading\<close>

datatype ReadStep = SelectApplet | SelectCc | ReadCc | SelectNdef | ReadNlen | Message

text \<open>The capability machine's state is its step.\<close>

definition CapabilityMachine_command :: "ReadStep \<Rightarrow> LogicalCommand res" where
  "CapabilityMachine_command st =
     (case st of
        SelectApplet \<Rightarrow> Inr select_applet
      | SelectCc \<Rightarrow> Inr (select_file CC_FILE_ID)
      | ReadCc \<Rightarrow> Inr (read_binary 0 CC_LEN)
      | _ \<Rightarrow> Inl (Error_new ProtocolViolation))"

definition CapabilityMachine_issue :: "ReadStep \<Rightarrow> ReadStep \<times> NdefCapability Action res" where
  "CapabilityMachine_issue st = (st, bindE (CapabilityMachine_command st) (\<lambda>c. Inr (Command c)))"

definition CapabilityMachine_next ::
  "ReadStep \<Rightarrow> ResponseData option \<Rightarrow> ReadStep \<times> NdefCapability Action res" where
  "CapabilityMachine_next st response =
     (case response of
        None \<Rightarrow> CapabilityMachine_issue st
      | Some r \<Rightarrow>
          (case st of
             SelectApplet \<Rightarrow>
               (case ResponseData_ensure_success r Phase.Select of
                  Inl e \<Rightarrow> (st, Inl e) | Inr _ \<Rightarrow> CapabilityMachine_issue SelectCc)
           | SelectCc \<Rightarrow>
               (case ResponseData_ensure_success r Phase.Command of
                  Inl e \<Rightarrow> (st, Inl e) | Inr _ \<Rightarrow> CapabilityMachine_issue ReadCc)
           | ReadCc \<Rightarrow>
               (st, bindE (ResponseData_ensure_success r Phase.Command) (\<lambda>_.
                      bindE (parse_cc (rd_data r)) (\<lambda>cap. Inr (Action.Done cap))))
           | _ \<Rightarrow> (st, Inl (Error_new ProtocolViolation))))"

record ReadMachine =
  rm_step :: ReadStep
  rm_chunk :: nat
  rm_file_id :: "16 word"
  rm_max_message :: nat
  rm_offset :: nat
  rm_remaining :: nat
  rm_bytes :: bytes

definition ReadMachine_command :: "ReadMachine \<Rightarrow> LogicalCommand res" where
  "ReadMachine_command m =
     (case rm_step m of
        SelectApplet \<Rightarrow> Inr select_applet
      | SelectCc \<Rightarrow> Inr (select_file CC_FILE_ID)
      | ReadCc \<Rightarrow> Inr (read_binary 0 CC_LEN)
      | SelectNdef \<Rightarrow> Inr (select_file (rm_file_id m))
      | ReadNlen \<Rightarrow> Inr (read_binary 0 2)
      | Message \<Rightarrow> Inr (read_binary (of_nat (rm_offset m)) (min (rm_remaining m) (rm_chunk m))))"

definition ReadMachine_issue :: "ReadMachine \<Rightarrow> ReadMachine \<times> NdefMessage Action res" where
  "ReadMachine_issue m = (m, bindE (ReadMachine_command m) (\<lambda>c. Inr (Command c)))"

text \<open>
  One reaction per step, as the arms of the \<open>match\<close> in \<open>next\<close>: an error leaves the machine as
  it was, an arm that falls through issues the next command.
\<close>

definition ReadMachine_nlen :: "ReadMachine \<Rightarrow> bytes \<Rightarrow> ReadMachine \<times> NdefMessage Action res" where
  "ReadMachine_nlen m d =
     (if length d \<noteq> 2 then (m, Inl ndef_invalid)
      else
        (let nlen = unat (from_be d :: 16 word) in
         if nlen > rm_max_message m then (m, Inl ndef_invalid)
         else
           (let m' = m\<lparr>rm_remaining := nlen, rm_offset := 2, rm_step := Message\<rparr> in
            if nlen = 0 then (m', Inr (Action.Done [])) else ReadMachine_issue m')))"

definition ReadMachine_chunk :: "ReadMachine \<Rightarrow> bytes \<Rightarrow> ReadMachine \<times> NdefMessage Action res" where
  "ReadMachine_chunk m d =
     (let want = min (rm_remaining m) (rm_chunk m) in
      if length d \<noteq> want then (m, Inl ndef_invalid)
      else
        (let m' = m\<lparr>rm_bytes := rm_bytes m @ d, rm_remaining := rm_remaining m - want,
                    rm_offset := rm_offset m + want\<rparr> in
         if rm_remaining m' = 0 then (m'\<lparr>rm_bytes := []\<rparr>, Inr (Action.Done (rm_bytes m')))
         else ReadMachine_issue m'))"

definition ReadMachine_next ::
  "ReadMachine \<Rightarrow> ResponseData option \<Rightarrow> ReadMachine \<times> NdefMessage Action res" where
  "ReadMachine_next m response =
     (case response of
        None \<Rightarrow> ReadMachine_issue m
      | Some r \<Rightarrow>
          (case ResponseData_ensure_success r
                  (if rm_step m = SelectApplet then Phase.Select else Phase.Command) of
             Inl e \<Rightarrow> (m, Inl e)
           | Inr _ \<Rightarrow>
               (case rm_step m of
                  SelectApplet \<Rightarrow> ReadMachine_issue (m\<lparr>rm_step := SelectCc\<rparr>)
                | SelectCc \<Rightarrow> ReadMachine_issue (m\<lparr>rm_step := ReadCc\<rparr>)
                | ReadCc \<Rightarrow>
                    (case parse_cc (rd_data r) of
                       Inl e \<Rightarrow> (m, Inl e)
                     | Inr cap \<Rightarrow>
                         ReadMachine_issue (m\<lparr>rm_file_id := cap_file_id cap,
                            rm_max_message := cap_max_message_length cap, rm_step := SelectNdef\<rparr>))
                | SelectNdef \<Rightarrow> ReadMachine_issue (m\<lparr>rm_step := ReadNlen\<rparr>)
                | ReadNlen \<Rightarrow> ReadMachine_nlen m (rd_data r)
                | Message \<Rightarrow> ReadMachine_chunk m (rd_data r))))"

section \<open>Writing\<close>

datatype WriteStep = WSelectApplet | WSelectCc | WReadCc | WSelectNdef | WZeroLength | WMessage | WFinalLength

record WriteMachine =
  wm_step :: WriteStep
  wm_message :: bytes
  wm_chunk :: nat
  wm_file_id :: "16 word"
  wm_offset :: nat

definition WriteMachine_command :: "WriteMachine \<Rightarrow> LogicalCommand" where
  "WriteMachine_command m =
     (case wm_step m of
        WSelectApplet \<Rightarrow> select_applet
      | WSelectCc \<Rightarrow> select_file CC_FILE_ID
      | WReadCc \<Rightarrow> read_binary 0 CC_LEN
      | WSelectNdef \<Rightarrow> select_file (wm_file_id m)
      | WZeroLength \<Rightarrow> update_binary 0 [0, 0]
      | WMessage \<Rightarrow>
          (let n = min (length (wm_message m) - wm_offset m) (wm_chunk m)
           in update_binary (2 + of_nat (wm_offset m)) (take n (drop (wm_offset m) (wm_message m))))
      | WFinalLength \<Rightarrow> update_binary 0 (to_be_bytes 2 (of_nat (length (wm_message m)) :: 16 word)))"

definition WriteMachine_issue :: "WriteMachine \<Rightarrow> WriteMachine \<times> unit Action res" where
  "WriteMachine_issue m = (m, Inr (Command (WriteMachine_command m)))"

definition WriteMachine_cc :: "WriteMachine \<Rightarrow> bytes \<Rightarrow> WriteMachine \<times> unit Action res" where
  "WriteMachine_cc m d =
     (case parse_cc d of
        Inl e \<Rightarrow> (m, Inl e)
      | Inr cap \<Rightarrow>
          if cap_read_only cap
          then (m, Inl (Error_at (Error_new SecurityStatusNotSatisfied) Phase.Command))
          else if length (wm_message m) > cap_max_message_length cap
          then (m, Inl (Error_at (Error_new LimitExceeded) Phase.Command))
          else WriteMachine_issue (m\<lparr>wm_file_id := cap_file_id cap, wm_step := WSelectNdef\<rparr>))"

definition WriteMachine_next ::
  "WriteMachine \<Rightarrow> ResponseData option \<Rightarrow> WriteMachine \<times> unit Action res" where
  "WriteMachine_next m response =
     (case response of
        None \<Rightarrow> WriteMachine_issue m
      | Some r \<Rightarrow>
          (case ResponseData_ensure_success r
                  (if wm_step m = WSelectApplet then Phase.Select else Phase.Command) of
             Inl e \<Rightarrow> (m, Inl e)
           | Inr _ \<Rightarrow>
               (case wm_step m of
                  WSelectApplet \<Rightarrow> WriteMachine_issue (m\<lparr>wm_step := WSelectCc\<rparr>)
                | WSelectCc \<Rightarrow> WriteMachine_issue (m\<lparr>wm_step := WReadCc\<rparr>)
                | WReadCc \<Rightarrow> WriteMachine_cc m (rd_data r)
                | WSelectNdef \<Rightarrow> WriteMachine_issue (m\<lparr>wm_step := WZeroLength\<rparr>)
                | WZeroLength \<Rightarrow>
                    WriteMachine_issue
                      (m\<lparr>wm_step := (if wm_message m = [] then WFinalLength else WMessage)\<rparr>)
                | WMessage \<Rightarrow>
                    (let m' = m\<lparr>wm_offset := wm_offset m
                                 + min (length (wm_message m) - wm_offset m) (wm_chunk m)\<rparr> in
                     WriteMachine_issue
                       (if wm_offset m' = length (wm_message m') then m'\<lparr>wm_step := WFinalLength\<rparr>
                        else m'))
                | WFinalLength \<Rightarrow> (m, Inr (Action.Done ())))))"

section \<open>Factories\<close>

abbreviation CapabilityMachine :: "(ReadStep, NdefCapability) Machine" where
  "CapabilityMachine \<equiv> plain_machine CapabilityMachine_next"

abbreviation ReadMachine_ops :: "(ReadMachine, NdefMessage) Machine" where
  "ReadMachine_ops \<equiv> plain_machine ReadMachine_next"

abbreviation WriteMachine_ops :: "(WriteMachine, unit) Machine" where
  "WriteMachine_ops \<equiv> plain_machine WriteMachine_next"

definition read_capability :: "OperationOptions \<Rightarrow> (ReadStep, NdefCapability) Operation res" where
  "read_capability opts0 =
     bindE (OperationOptions_validate opts0) (\<lambda>opts.
       if max_total_response_bytes (limits opts) < CC_LEN \<or> max_exchanges (limits opts) < 3
       then Inl (Error_new LimitExceeded)
       else bindE (validate_command (read_binary 0 CC_LEN) opts) (\<lambda>_.
         Operation_from_machine SelectApplet opts))"

definition read_machine_init :: "nat \<Rightarrow> ReadMachine" where
  "read_machine_init chunk =
     \<lparr>rm_step = SelectApplet, rm_chunk = chunk, rm_file_id = 0, rm_max_message = MAX_MESSAGE_LENGTH,
      rm_offset = 0, rm_remaining = 0, rm_bytes = []\<rparr>"

definition read_message :: "OperationOptions \<Rightarrow> (ReadMachine, NdefMessage) Operation res" where
  "read_message opts0 =
     bindE (OperationOptions_validate opts0) (\<lambda>opts.
       if max_total_response_bytes (limits opts) < CC_LEN + 2 + MAX_MESSAGE_LENGTH
       then Inl (Error_new LimitExceeded)
       else
         (let chunk = read_chunk opts;
              exchanges = 5 + div_ceil MAX_MESSAGE_LENGTH chunk in
          if max_exchanges (limits opts) < exchanges then Inl (Error_new LimitExceeded)
          else bindE (validate_command (read_binary 0 CC_LEN) opts) (\<lambda>_.
            Operation_from_machine (read_machine_init chunk) opts)))"

definition write_machine_init :: "bytes \<Rightarrow> nat \<Rightarrow> WriteMachine" where
  "write_machine_init message chunk =
     \<lparr>wm_step = WSelectApplet, wm_message = message, wm_chunk = chunk, wm_file_id = 0, wm_offset = 0\<rparr>"

definition write_message :: "bytes \<Rightarrow> OperationOptions \<Rightarrow> (WriteMachine, unit) Operation res" where
  "write_message message opts0 =
     bindE (OperationOptions_validate opts0) (\<lambda>opts.
       if length message > MAX_MESSAGE_LENGTH then Inl (Error_new InvalidArgument)
       else bindE (write_chunk opts) (\<lambda>chunk.
         (let exchanges = 6 + div_ceil (length message) chunk in
          if max_exchanges (limits opts) < exchanges
             \<or> max_total_response_bytes (limits opts) < CC_LEN
          then Inl (Error_new LimitExceeded)
          else bindE (validate_command (read_binary 0 CC_LEN) opts) (\<lambda>_.
            bindE (validate_command (update_binary 0 [0, 0]) opts) (\<lambda>_.
            bindE (if message \<noteq> []
                   then validate_command (update_binary 2 (take (min (length message) chunk) message)) opts
                   else Inr ()) (\<lambda>_.
            Operation_from_machine (write_machine_init message chunk) opts))))))"

section \<open>The card: Type 4 Tag files\<close>

record t4t =
  t4_selected :: "16 word option"
  t4_files :: "16 word \<Rightarrow> bytes"

definition splice :: "bytes \<Rightarrow> nat \<Rightarrow> bytes \<Rightarrow> bytes" where
  "splice f off d = take off f @ d @ drop (off + length d) f"

definition binary_offset :: "LogicalCommand \<Rightarrow> nat" where
  "binary_offset c = unat (from_be [p1 (lc_header c), p2 (lc_header c)] :: 16 word)"

text \<open>
  What a card's answer to a command means. A status other than 9000 changes nothing. Selecting the
  applet leaves the files alone; selecting a file makes it current; READ BINARY returns bytes of
  the current file from the offset on, at most Le of them; UPDATE BINARY overwrites bytes inside
  the current file. Nothing is assumed about which commands succeed.
\<close>

definition t4t_exchange :: "t4t \<Rightarrow> LogicalCommand \<Rightarrow> ResponseData \<Rightarrow> t4t \<Rightarrow> bool" where
  "t4t_exchange s c r s' \<longleftrightarrow>
     (let h = lc_header c; off = binary_offset c in
      if rd_status r \<noteq> 0x9000 then s' = s
      else if ins h = 0xa4 \<and> p1 h = 0x04 then t4_files s' = t4_files s
      else if ins h = 0xa4 then s' = s\<lparr>t4_selected := Some (from_be (lc_data c))\<rparr>
      else if ins h = 0xb0 then
        s' = s \<and> (\<exists>fid n. t4_selected s = Some fid \<and> lc_le c = Exact n \<and> length (rd_data r) \<le> unat n
                  \<and> off + length (rd_data r) \<le> length (t4_files s fid)
                  \<and> rd_data r = take (length (rd_data r)) (drop off (t4_files s fid)))
      else if ins h = 0xd6 then
        (\<exists>fid. t4_selected s = Some fid \<and> off + length (lc_data c) \<le> length (t4_files s fid)
           \<and> s' = s\<lparr>t4_files := (t4_files s)(fid := splice (t4_files s fid) off (lc_data c))\<rparr>)
      else s' = s)"

lemma from_be_split: "from_be [ucast (drop_bit 8 off), ucast off] = (off :: 16 word)"
proof -
  have "unat off < 65536" using unsigned_less [of off] by simp
  then have "from_be (to_be_bytes 2 off) = off" by (intro from_be_to_be_bytes) simp
  then show ?thesis by (simp add: to_be_bytes_numeral)
qed

lemma from_be_to_be_2: "from_be (to_be_bytes 2 (w :: 16 word)) = w"
  using unsigned_less [of w] by (intro from_be_to_be_bytes) simp

lemma LogicalCommand_new_simps [simp]:
  "lc_header (LogicalCommand_new h d le) = h" "lc_data (LogicalCommand_new h d le) = d"
  "lc_le (LogicalCommand_new h d le) = le"
  by (simp_all add: LogicalCommand_new_def)

lemma ApduHeader_new_simps [simp]:
  "cla (ApduHeader_new c i a b) = c" "ins (ApduHeader_new c i a b) = i"
  "p1 (ApduHeader_new c i a b) = a" "p2 (ApduHeader_new c i a b) = b"
  by (simp_all add: ApduHeader_new_def)

lemma exchange_select_applet:
  "t4t_exchange s select_applet r s' \<Longrightarrow> t4_files s' = t4_files s"
  by (auto simp: t4t_exchange_def select_applet_def Let_def split: if_splits)

lemma exchange_select_file:
  "t4t_exchange s (select_file fid) r s' \<longleftrightarrow>
     s' = (if rd_status r = 0x9000 then s\<lparr>t4_selected := Some fid\<rparr> else s)"
  by (auto simp: t4t_exchange_def select_file_def Let_def from_be_to_be_2)

lemma exchange_read_binary:
  "t4t_exchange s (read_binary off n) r s' \<Longrightarrow>
     s' = s \<and> (rd_status r = 0x9000 \<longrightarrow>
       (\<exists>fid. t4_selected s = Some fid
          \<and> unat off + length (rd_data r) \<le> length (t4_files s fid)
          \<and> rd_data r = take (length (rd_data r)) (drop (unat off) (t4_files s fid))))"
  by (auto simp: t4t_exchange_def read_binary_def binary_offset_def from_be_split Let_def split: if_splits)

lemma exchange_update_binary:
  "t4t_exchange s (update_binary off d) r s' \<longleftrightarrow>
     (if rd_status r = 0x9000 then
        (\<exists>fid. t4_selected s = Some fid \<and> unat off + length d \<le> length (t4_files s fid)
           \<and> s' = s\<lparr>t4_files := (t4_files s)(fid := splice (t4_files s fid) (unat off) d)\<rparr>)
      else s' = s)"
  by (auto simp: t4t_exchange_def update_binary_def binary_offset_def from_be_split Let_def)

section \<open>The write machine against the card\<close>

text \<open>
  The files while a message \<open>msg\<close> is written over the initial files \<open>F\<close>: \<open>written F fid h k msg\<close>
  has the two length bytes \<open>h\<close> and the first \<open>k\<close> message bytes in place.
\<close>

definition written :: "(16 word \<Rightarrow> bytes) \<Rightarrow> 16 word \<Rightarrow> bytes \<Rightarrow> nat \<Rightarrow> bytes \<Rightarrow> 16 word \<Rightarrow> bytes" where
  "written F fid h k msg = F(fid := h @ take k msg @ drop (2 + k) (F fid))"

definition nlen_bytes :: "bytes \<Rightarrow> bytes" where
  "nlen_bytes msg = to_be_bytes 2 (of_nat (length msg) :: 16 word)"

text \<open>
  The relation between machine and files after the machine's current command was answered with
  success (\<open>ok\<close>) or before its effect (not \<open>ok\<close>).
\<close>

definition write_target :: "(16 word \<Rightarrow> bytes) \<Rightarrow> bytes \<Rightarrow> 16 word \<Rightarrow> bool" where
  "write_target F msg fid \<longleftrightarrow>
     (\<exists>cap. parse_cc (take CC_LEN (F CC_FILE_ID)) = Inr cap \<and> cap_file_id cap = fid
        \<and> \<not> cap_read_only cap \<and> length msg \<le> cap_max_message_length cap)"

definition write_state :: "(16 word \<Rightarrow> bytes) \<Rightarrow> bytes \<Rightarrow> bool \<Rightarrow> WriteMachine \<Rightarrow> t4t \<Rightarrow> bool" where
  "write_state F msg ok m s \<longleftrightarrow>
     wm_message m = msg \<and> 0 < wm_chunk m \<and> wm_offset m \<le> length msg \<and> length msg \<le> MAX_MESSAGE_LENGTH
     \<and> (let fid = wm_file_id m; n = min (length msg - wm_offset m) (wm_chunk m);
            k = (if ok then wm_offset m + n else wm_offset m) in
        case wm_step m of
          WZeroLength \<Rightarrow> t4_selected s = Some fid \<and> wm_offset m = 0 \<and> write_target F msg fid
            \<and> (if ok then 2 \<le> length (F fid) \<and> t4_files s = written F fid [0, 0] 0 msg else t4_files s = F)
        | WMessage \<Rightarrow> t4_selected s = Some fid \<and> 2 + k \<le> length (F fid) \<and> write_target F msg fid
            \<and> t4_files s = written F fid [0, 0] k msg
        | WFinalLength \<Rightarrow> t4_selected s = Some fid \<and> 2 + length msg \<le> length (F fid) \<and> write_target F msg fid
            \<and> t4_files s = written F fid (if ok then nlen_bytes msg else [0, 0]) (length msg) msg
        | st \<Rightarrow> t4_files s = F \<and> wm_offset m = 0
            \<and> (st = WReadCc \<or> st = WSelectCc \<and> ok \<longrightarrow> t4_selected s = Some CC_FILE_ID)
            \<and> (st = WSelectNdef \<longrightarrow> write_target F msg fid \<and> (ok \<longrightarrow> t4_selected s = Some fid)))"

lemma splice_start: "2 \<le> length f \<Longrightarrow> length h = 2 \<Longrightarrow> splice f 0 h = h @ drop 2 f"
  by (simp add: splice_def numeral_2_eq_2)

lemma splice_chunk:
  assumes "2 + k + n \<le> length f" "k + n \<le> length msg" "length h = 2"
  shows "splice (h @ take k msg @ drop (2 + k) f) (2 + k) (take n (drop k msg))
    = h @ take (k + n) msg @ drop (2 + (k + n)) f"
  using assms by (simp add: splice_def take_add add.assoc add.commute)

lemma splice_header:
  assumes "length h = 2" "length h' = 2"
  shows "splice (h @ rest) 0 h' = h' @ rest"
  using assms by (simp add: splice_def)


text \<open>What a response leaves of the invariant: the command took effect when it was acknowledged.\<close>

definition write_config :: "(16 word \<Rightarrow> bytes) \<Rightarrow> bytes \<Rightarrow> WriteMachine \<Rightarrow> ResponseData option \<Rightarrow> t4t \<Rightarrow> bool" where
  "write_config F msg m resp s \<longleftrightarrow>
     (case resp of None \<Rightarrow> write_state F msg False m s
      | Some r \<Rightarrow> write_state F msg (rd_status r = 0x9000) m s
          \<and> (rd_status r = 0x9000 \<and> wm_step m = WReadCc \<longrightarrow>
                rd_data r = take (length (rd_data r)) (F CC_FILE_ID)))"

lemma ensure_success_cases:
  "ResponseData_ensure_success r ph = Inr u \<longleftrightarrow> rd_status r = 0x9000"
  by (auto simp: ResponseData_ensure_success_def StatusWord_is_success_def)

lemma written_0: "2 \<le> length (F fid) \<Longrightarrow> length h = 2 \<Longrightarrow>
    written F fid h 0 msg = F(fid := splice (F fid) 0 h)"
  by (simp add: written_def splice_start)

lemma parse_cc_length: "parse_cc d = Inr cap \<Longrightarrow> length d = CC_LEN"
  by (simp add: parse_cc_def split: if_splits)

lemma parse_cc_bound: "parse_cc d = Inr cap \<Longrightarrow> cap_max_message_length cap \<le> MAX_MESSAGE_LENGTH"
  by (auto simp: parse_cc_def Let_def split: if_splits)

lemma parse_cc_prefix:
  "parse_cc d = Inr cap \<Longrightarrow> d = take (length d) f \<Longrightarrow> parse_cc (take CC_LEN f) = Inr cap"
  using parse_cc_length [of d cap] by simp

lemma write_next_state:
  assumes "write_config F msg m resp s" "WriteMachine_next m resp = (m', Inr (Command c))"
  shows "c = WriteMachine_command m' \<and> write_state F msg False m' s"
proof (cases resp)
  case None
  then show ?thesis using assms by (auto simp: write_config_def WriteMachine_next_def WriteMachine_issue_def)
next
  case (Some r)
  show ?thesis
  proof (cases "rd_status r = 0x9000")
    case False
    then show ?thesis using assms Some
      by (simp add: WriteMachine_next_def split: sum.splits add: ensure_success_cases)
  next
    case True
    then show ?thesis using assms Some
      by (cases "wm_step m")
        (auto simp: write_config_def write_state_def WriteMachine_next_def WriteMachine_issue_def
          WriteMachine_cc_def ensure_success_cases Let_def write_target_def
          split: sum.splits if_splits dest: parse_cc_prefix)
  qed
qed


lemma unat_offset_2: "k < 1024 \<Longrightarrow> unat (2 + of_nat k :: 16 word) = 2 + k"
  by (simp add: unat_word_ariths unat_of_nat)

lemma write_exchange_state:
  assumes "write_state F msg False m s" "t4t_exchange s (WriteMachine_command m) r s'"
  shows "write_state F msg (rd_status r = 0x9000) m s'"
proof (cases "wm_step m")
  case WZeroLength
  then show ?thesis using assms
    by (auto simp: write_state_def WriteMachine_command_def exchange_update_binary written_0 Let_def)
next
  case WMessage
  let ?n = "min (length msg - wm_offset m) (wm_chunk m)"
  have k: "wm_offset m < 1024" "wm_offset m + ?n \<le> length msg"
    using assms(1) by (auto simp: write_state_def MAX_MESSAGE_LENGTH_def)
  show ?thesis
  proof (cases "rd_status r = 0x9000")
    case True
    let ?fid = "wm_file_id m"
    have f: "t4_files s ?fid = [0, 0] @ take (wm_offset m) msg @ drop (2 + wm_offset m) (F ?fid)"
      using assms(1) WMessage by (simp add: write_state_def written_def Let_def)
    have len: "2 + wm_offset m \<le> length (F ?fid)" "wm_offset m \<le> length msg"
      using assms(1) WMessage by (simp_all add: write_state_def Let_def)
    then have flen: "length (t4_files s ?fid) = length (F ?fid)" unfolding f by simp
    have e: "2 + wm_offset m + ?n \<le> length (F ?fid)"
      "s' = s\<lparr>t4_files := (t4_files s)(?fid := splice (t4_files s ?fid) (2 + wm_offset m)
                (take ?n (drop (wm_offset m) msg)))\<rparr>"
      using assms WMessage True k flen
      by (auto simp: write_state_def WriteMachine_command_def exchange_update_binary Let_def unat_offset_2)
    have "splice (t4_files s ?fid) (2 + wm_offset m) (take ?n (drop (wm_offset m) msg))
      = [0, 0] @ take (wm_offset m + ?n) msg @ drop (2 + (wm_offset m + ?n)) (F ?fid)"
      unfolding f by (rule splice_chunk) (use e(1) k(2) in auto)
    then have "t4_files s' = written F ?fid [0, 0] (wm_offset m + ?n) msg"
      using e(2) assms(1) WMessage by (simp add: write_state_def Let_def written_def)
    then show ?thesis using assms(1) WMessage True e by (simp add: write_state_def Let_def)
  next
    case False
    then show ?thesis using assms WMessage
      by (simp add: WriteMachine_command_def exchange_update_binary Let_def)
  qed
next
  case WFinalLength
  then show ?thesis using assms
    by (auto simp: write_state_def WriteMachine_command_def exchange_update_binary Let_def written_def
        splice_header nlen_bytes_def simp del: append_Cons)
next
  case WReadCc
  then show ?thesis using assms exchange_read_binary [of s 0 CC_LEN r s']
    by (simp add: write_state_def WriteMachine_command_def)
qed (use assms in \<open>auto simp: write_state_def WriteMachine_command_def exchange_select_file
       dest: exchange_select_applet\<close>)

lemma write_exchange_cc:
  assumes "write_state F msg False m s" "t4t_exchange s (WriteMachine_command m) r s'"
    "rd_status r = 0x9000" "wm_step m = WReadCc"
  shows "rd_data r = take (length (rd_data r)) (F CC_FILE_ID)"
  using assms exchange_read_binary [of s 0 CC_LEN r s']
  by (auto simp: write_state_def WriteMachine_command_def)

lemma write_config_run:
  assumes "machine_run WriteMachine_ops t4t_exchange (write_machine_init msg chunk) s0 m resp s"
    "0 < chunk" "length msg \<le> MAX_MESSAGE_LENGTH"
  shows "write_config (t4_files s0) msg m resp s"
  using assms(1)
proof (rule machine_run_invariant)
  show "write_config (t4_files s0) msg (write_machine_init msg chunk) None s0"
    using assms(2,3) by (simp add: write_config_def write_state_def write_machine_init_def)
next
  fix m resp s m' c r s'
  assume "write_config (t4_files s0) msg m resp s"
    and "m_next WriteMachine_ops m resp = (m', Inr (Command c))" and "t4t_exchange s c r s'"
  then show "write_config (t4_files s0) msg m' (Some r) s'"
    using write_next_state [of "t4_files s0" msg m resp s m' c]
      write_exchange_state [of "t4_files s0" msg m' s r s'] write_exchange_cc [of "t4_files s0" msg m' s r s']
    by (simp add: write_config_def plain_machine_def)
qed


lemma write_config_done:
  assumes "write_config F msg m resp s" "WriteMachine_next m resp = (m', Inr (Action.Done u))"
  shows "write_target F msg (wm_file_id m) \<and> 2 + length msg \<le> length (F (wm_file_id m))
    \<and> t4_files s = written F (wm_file_id m) (nlen_bytes msg) (length msg) msg"
proof (cases resp)
  case None
  then show ?thesis using assms by (simp add: WriteMachine_next_def WriteMachine_issue_def)
next
  case (Some r)
  then have "rd_status r = 0x9000" "wm_step m = WFinalLength"
    using assms(2)
    by (auto simp: WriteMachine_next_def WriteMachine_issue_def WriteMachine_cc_def Let_def
        ensure_success_cases split: sum.splits WriteStep.splits if_splits)
  then show ?thesis using assms(1) Some by (simp add: write_config_def write_state_def Let_def)
qed

section \<open>The read machine against the card\<close>

text \<open>
  Reading leaves the files \<open>F\<close> alone. \<open>stored F fid\<close> is the message the length bytes of the file
  delimit; \<open>read_target\<close> says that the machine's file and bound are the capability container's.
\<close>

definition stored :: "(16 word \<Rightarrow> bytes) \<Rightarrow> 16 word \<Rightarrow> bytes" where
  "stored F fid = take (unat (from_be (take 2 (F fid)) :: 16 word)) (drop 2 (F fid))"

definition read_target :: "(16 word \<Rightarrow> bytes) \<Rightarrow> ReadMachine \<Rightarrow> bool" where
  "read_target F m \<longleftrightarrow>
     (\<exists>cap. parse_cc (take CC_LEN (F CC_FILE_ID)) = Inr cap \<and> cap_file_id cap = rm_file_id m
        \<and> cap_max_message_length cap = rm_max_message m)"

definition read_state :: "(16 word \<Rightarrow> bytes) \<Rightarrow> bool \<Rightarrow> ReadMachine \<Rightarrow> t4t \<Rightarrow> bool" where
  "read_state F ok m s \<longleftrightarrow>
     t4_files s = F \<and>
     (case rm_step m of
        SelectApplet \<Rightarrow> rm_bytes m = []
      | SelectCc \<Rightarrow> rm_bytes m = [] \<and> (ok \<longrightarrow> t4_selected s = Some CC_FILE_ID)
      | ReadCc \<Rightarrow> rm_bytes m = [] \<and> t4_selected s = Some CC_FILE_ID
      | SelectNdef \<Rightarrow> rm_bytes m = [] \<and> read_target F m \<and> (ok \<longrightarrow> t4_selected s = Some (rm_file_id m))
      | ReadNlen \<Rightarrow> rm_bytes m = [] \<and> read_target F m \<and> t4_selected s = Some (rm_file_id m)
      | Message \<Rightarrow> read_target F m \<and> t4_selected s = Some (rm_file_id m)
          \<and> rm_offset m = 2 + length (rm_bytes m)
          \<and> rm_remaining m + length (rm_bytes m) = unat (from_be (take 2 (F (rm_file_id m))) :: 16 word)
          \<and> rm_remaining m + length (rm_bytes m) \<le> MAX_MESSAGE_LENGTH
          \<and> rm_bytes m = take (length (rm_bytes m)) (drop 2 (F (rm_file_id m))))"

definition read_config :: "(16 word \<Rightarrow> bytes) \<Rightarrow> ReadMachine \<Rightarrow> ResponseData option \<Rightarrow> t4t \<Rightarrow> bool" where
  "read_config F m resp s \<longleftrightarrow>
     (case resp of None \<Rightarrow> read_state F False m s
      | Some r \<Rightarrow> read_state F (rd_status r = 0x9000) m s
          \<and> (rd_status r = 0x9000 \<longrightarrow>
               (case rm_step m of
                  ReadCc \<Rightarrow> rd_data r = take (length (rd_data r)) (F CC_FILE_ID)
                | ReadNlen \<Rightarrow> rd_data r = take (length (rd_data r)) (F (rm_file_id m))
                | Message \<Rightarrow> rd_data r = take (length (rd_data r)) (drop (rm_offset m) (F (rm_file_id m)))
                | _ \<Rightarrow> True)))"

lemma read_target_bound: "read_target F m \<Longrightarrow> rm_max_message m \<le> MAX_MESSAGE_LENGTH"
  by (auto simp: read_target_def dest: parse_cc_bound)

lemma read_target_upd [simp]:
  "read_target F (m\<lparr>rm_step := st\<rparr>) = read_target F m"
  "read_target F (m\<lparr>rm_bytes := b\<rparr>) = read_target F m"
  "read_target F (m\<lparr>rm_offset := n\<rparr>) = read_target F m"
  "read_target F (m\<lparr>rm_remaining := n\<rparr>) = read_target F m"
  by (simp_all add: read_target_def)

lemma read_issue [simp]:
  "ReadMachine_issue m = (m', Inr (Command c)) \<longleftrightarrow> m' = m \<and> ReadMachine_command m = Inr c"
  "ReadMachine_issue m \<noteq> (m', Inr (Action.Done x))"
  "ReadMachine_issue m \<noteq> (m', Inl e)"
  by (auto simp: ReadMachine_issue_def ReadMachine_command_def split: ReadStep.splits)

lemma read_issueD:
  "ReadMachine_issue m = (m', a) \<Longrightarrow>
     (\<forall>c. a = Inr (Command c) \<longrightarrow> ReadMachine_command m' = Inr c) \<and> m' = m \<and> (\<forall>x. a \<noteq> Inr (Action.Done x))"
  by (auto simp: ReadMachine_issue_def ReadMachine_command_def split: ReadStep.splits)

lemma read_nlen_state:
  assumes "read_state F True m s" "rm_step m = ReadNlen"
    "d = take (length d) (F (rm_file_id m))" "ReadMachine_nlen m d = (m', a)"
  shows "(\<forall>c. a = Inr (Command c) \<longrightarrow> ReadMachine_command m' = Inr c \<and> read_state F False m' s)
    \<and> (\<forall>x. a = Inr (Action.Done x) \<longrightarrow> x = stored F (rm_file_id m))"
proof (cases "length d = 2")
  case True
  then have d: "take 2 (F (rm_file_id m)) = d" using assms(3) by simp
  show ?thesis
    using assms(1,2,4) True read_target_bound [of F m] d
    by (auto simp: ReadMachine_nlen_def read_state_def Let_def stored_def split: if_splits)
next
  case False
  then show ?thesis using assms(4) by (auto simp: ReadMachine_nlen_def)
qed

lemma read_chunk_state:
  assumes "read_state F True m s" "rm_step m = Message"
    "d = take (length d) (drop (rm_offset m) (F (rm_file_id m)))" "ReadMachine_chunk m d = (m', a)"
  shows "(\<forall>c. a = Inr (Command c) \<longrightarrow> ReadMachine_command m' = Inr c \<and> read_state F False m' s)
    \<and> (\<forall>x. a = Inr (Action.Done x) \<longrightarrow> x = stored F (rm_file_id m))"
proof (cases "length d = min (rm_remaining m) (rm_chunk m)")
  case True
  let ?f = "F (rm_file_id m)" and ?b = "rm_bytes m"
  have o: "rm_offset m = 2 + length ?b" and b: "?b = take (length ?b) (drop 2 ?f)"
    using assms(1,2) by (simp_all add: read_state_def)
  have "d = take (length d) (drop (length ?b) (drop 2 ?f))"
    using assms(3) o by (simp add: add.commute)
  then have app: "take (length (?b @ d)) (drop 2 ?f) = ?b @ d"
    using b by (metis length_append take_add)
  have st: "t4_files s = F" "read_target F m" "t4_selected s = Some (rm_file_id m)"
    "rm_remaining m + length ?b = unat (from_be (take 2 ?f) :: 16 word)"
    "rm_remaining m + length ?b \<le> MAX_MESSAGE_LENGTH" "length d \<le> rm_remaining m"
    using assms(1,2) True by (simp_all add: read_state_def)
  let ?m = "m\<lparr>rm_bytes := ?b @ d, rm_remaining := rm_remaining m - length d,
              rm_offset := rm_offset m + length d\<rparr>"
  show ?thesis
  proof (cases "rm_remaining m = length d")
    case last: True
    then have "stored F (rm_file_id m) = ?b @ d"
      using st(4) app by (simp add: stored_def add.commute)
    moreover have "rm_remaining m - length d = 0" using last by simp
    ultimately show ?thesis using assms(4) True [symmetric] by (auto simp: ReadMachine_chunk_def Let_def)
  next
    case False
    then have "ReadMachine_issue ?m = (m', a)"
      using assms(4) True [symmetric] st(6) by (simp add: ReadMachine_chunk_def Let_def)
    moreover have "read_state F False ?m s"
      using st assms(2) o app by (simp add: read_state_def)
    ultimately show ?thesis by (blast dest: read_issueD)
  qed
next
  case False
  then show ?thesis using assms(4) by (auto simp: ReadMachine_chunk_def Let_def)
qed


lemma read_next_state:
  assumes "read_config F m resp s" "ReadMachine_next m resp = (m', a)"
  shows "(\<forall>c. a = Inr (Command c) \<longrightarrow> ReadMachine_command m' = Inr c \<and> read_state F False m' s)
    \<and> (\<forall>x. a = Inr (Action.Done x) \<longrightarrow> read_target F m \<and> x = stored F (rm_file_id m))"
proof (cases resp)
  case None
  then show ?thesis using assms by (auto simp: read_config_def ReadMachine_next_def dest: read_issueD)
next
  case (Some r)
  show ?thesis
  proof (cases "rd_status r = 0x9000")
    case False
    then have "\<exists>e. a = Inl e"
      using assms(2) Some by (auto simp: ReadMachine_next_def ensure_success_cases split: sum.splits)
    then show ?thesis by auto
  next
    case ok: True
    then have st: "read_state F True m s" using assms(1) Some by (simp add: read_config_def)
    have nx: "ReadMachine_next m resp = (case rm_step m of
        SelectApplet \<Rightarrow> ReadMachine_issue (m\<lparr>rm_step := SelectCc\<rparr>)
      | SelectCc \<Rightarrow> ReadMachine_issue (m\<lparr>rm_step := ReadCc\<rparr>)
      | ReadCc \<Rightarrow> (case parse_cc (rd_data r) of Inl e \<Rightarrow> (m, Inl e)
          | Inr cap \<Rightarrow> ReadMachine_issue (m\<lparr>rm_file_id := cap_file_id cap,
              rm_max_message := cap_max_message_length cap, rm_step := SelectNdef\<rparr>))
      | SelectNdef \<Rightarrow> ReadMachine_issue (m\<lparr>rm_step := ReadNlen\<rparr>)
      | ReadNlen \<Rightarrow> ReadMachine_nlen m (rd_data r)
      | Message \<Rightarrow> ReadMachine_chunk m (rd_data r))"
      using ok Some by (auto simp: ReadMachine_next_def ResponseData_ensure_success_def
          StatusWord_is_success_def)
    show ?thesis
    proof (cases "rm_step m")
      case ReadCc
      show ?thesis
      proof (cases "parse_cc (rd_data r)")
        case (Inl e)
        then show ?thesis using assms(2) nx ReadCc by auto
      next
        case (Inr cap)
        let ?m = "m\<lparr>rm_file_id := cap_file_id cap, rm_max_message := cap_max_message_length cap,
                    rm_step := SelectNdef\<rparr>"
        have "rd_data r = take (length (rd_data r)) (F CC_FILE_ID)"
          using assms(1) Some ok ReadCc by (simp add: read_config_def)
        then have "read_state F False ?m s"
          using parse_cc_prefix [OF Inr] st ReadCc by (auto simp: read_state_def read_target_def)
        moreover have "ReadMachine_issue ?m = (m', a)" using assms(2) nx ReadCc Inr by simp
        ultimately show ?thesis by (blast dest: read_issueD)
      qed
    next
      case ReadNlen
      have "rd_data r = take (length (rd_data r)) (F (rm_file_id m))" "read_target F m"
        using assms(1) st Some ok ReadNlen by (simp_all add: read_config_def read_state_def)
      moreover have "ReadMachine_nlen m (rd_data r) = (m', a)" using assms(2) nx ReadNlen by simp
      ultimately show ?thesis using read_nlen_state [OF st ReadNlen] by blast
    next
      case Message
      have "rd_data r = take (length (rd_data r)) (drop (rm_offset m) (F (rm_file_id m)))"
        using assms(1) Some ok Message by (simp add: read_config_def)
      moreover have "read_target F m" using st Message by (simp add: read_state_def)
      moreover have "ReadMachine_chunk m (rd_data r) = (m', a)" using assms(2) nx Message by simp
      ultimately show ?thesis using read_chunk_state [OF st Message] by blast
    qed (use assms(2) st nx in \<open>auto simp: read_state_def dest!: read_issueD\<close>)
  qed
qed

lemma read_exchange_state:
  assumes "read_state F False m s" "ReadMachine_command m = Inr c" "t4t_exchange s c r s'"
  shows "read_config F m (Some r) s'"
proof -
  have off: "rm_step m = Message \<Longrightarrow> unat (of_nat (rm_offset m) :: 16 word) = rm_offset m"
    using assms(1) unat_offset_2 [of "length (rm_bytes m)"]
    by (simp add: read_state_def MAX_MESSAGE_LENGTH_def)
  show ?thesis
    using assms off
    by (cases "rm_step m")
      (auto simp: read_config_def read_state_def ReadMachine_command_def exchange_select_file
        dest!: exchange_read_binary dest: exchange_select_applet)
qed

lemma read_config_run:
  assumes "machine_run ReadMachine_ops t4t_exchange (read_machine_init chunk) s0 m resp s"
  shows "read_config (t4_files s0) m resp s"
  using assms
proof (rule machine_run_invariant)
  show "read_config (t4_files s0) (read_machine_init chunk) None s0"
    by (simp add: read_config_def read_state_def read_machine_init_def)
next
  fix m resp s m' c r s'
  assume "read_config (t4_files s0) m resp s"
    and "m_next ReadMachine_ops m resp = (m', Inr (Command c))" and "t4t_exchange s c r s'"
  then show "read_config (t4_files s0) m' (Some r) s'"
    using read_next_state [of "t4_files s0" m resp s m' "Inr (Command c)"]
      read_exchange_state [of "t4_files s0" m' s c r s']
    by (simp add: plain_machine_def)
qed


section \<open>Contracts of the machines\<close>

definition read_ok :: "ReadMachine \<Rightarrow> bool" where
  "read_ok m \<longleftrightarrow> 0 < rm_chunk m \<and> rm_max_message m \<le> MAX_MESSAGE_LENGTH
     \<and> length (rm_bytes m) + rm_remaining m \<le> MAX_MESSAGE_LENGTH
     \<and> (rm_step m \<noteq> Message \<longrightarrow> rm_bytes m = [])"

definition read_budget :: "ReadMachine \<Rightarrow> nat" where
  "read_budget m =
     (let c = div_ceil MAX_MESSAGE_LENGTH (rm_chunk m) in
      case rm_step m of SelectApplet \<Rightarrow> c + 4 | SelectCc \<Rightarrow> c + 3 | ReadCc \<Rightarrow> c + 2 | SelectNdef \<Rightarrow> c + 1
      | ReadNlen \<Rightarrow> c | Message \<Rightarrow> div_ceil (rm_remaining m) (rm_chunk m) - 1)"

definition write_ok :: "WriteMachine \<Rightarrow> bool" where
  "write_ok m \<longleftrightarrow> 0 < wm_chunk m \<and> wm_offset m \<le> length (wm_message m)
     \<and> (wm_step m \<noteq> WMessage \<and> wm_step m \<noteq> WFinalLength \<longrightarrow> wm_offset m = 0)
     \<and> (wm_step m = WMessage \<longrightarrow> wm_offset m < length (wm_message m))"

definition write_budget :: "WriteMachine \<Rightarrow> nat" where
  "write_budget m =
     (let c = div_ceil (length (wm_message m) - wm_offset m) (wm_chunk m) in
      case wm_step m of WSelectApplet \<Rightarrow> c + 5 | WSelectCc \<Rightarrow> c + 4 | WReadCc \<Rightarrow> c + 3 | WSelectNdef \<Rightarrow> c + 2
      | WZeroLength \<Rightarrow> c + 1 | WMessage \<Rightarrow> c | WFinalLength \<Rightarrow> 0)"

lemma div_ceil_mono:
  assumes "0 < c" "a \<le> b"
  shows "div_ceil a c \<le> div_ceil b c"
  using assms(2)
proof (induction a arbitrary: b rule: less_induct)
  case (less a)
  show ?case
  proof (cases "a = 0")
    case False
    then have "div_ceil (a - c) c \<le> div_ceil (b - c) c" using less assms(1) by simp
    then show ?thesis using False less.prems assms(1) by (simp add: div_ceil_step)
  qed (simp add: div_ceil_def)
qed

lemma read_step_contract:
  assumes "read_ok m" "ReadMachine_next m (Some r) = (m', Inr a)"
  shows "(\<forall>c. a = Command c \<longrightarrow> read_ok m' \<and> read_budget m' < read_budget m)
    \<and> (\<forall>d. a = Action.Done d \<longrightarrow> length d \<le> MAX_MESSAGE_LENGTH)"
proof -
  have st: "rd_status r = 0x9000"
    using assms(2) by (auto simp: ReadMachine_next_def ensure_success_cases split: sum.splits)
  have c: "div_ceil n (rm_chunk m) \<le> div_ceil MAX_MESSAGE_LENGTH (rm_chunk m)"
    if "n \<le> MAX_MESSAGE_LENGTH" for n
    using that assms(1) by (simp add: read_ok_def div_ceil_mono)
  have pos: "0 < div_ceil n (rm_chunk m)" if "0 < n" for n
    using that assms(1) by (simp add: read_ok_def div_ceil_step)
  show ?thesis
  proof (cases "rm_step m")
    case ReadNlen
    let ?n = "unat (from_be (rd_data r) :: 16 word)"
    let ?m = "m\<lparr>rm_remaining := ?n, rm_offset := 2, rm_step := Message\<rparr>"
    have nx: "ReadMachine_nlen m (rd_data r) = (m', Inr a)"
      using assms(2) st ReadNlen
      by (simp add: ReadMachine_next_def ResponseData_ensure_success_def StatusWord_is_success_def)
    then have n: "?n \<le> rm_max_message m"
      and m': "(if ?n = 0 then (?m, Inr (Action.Done [])) else ReadMachine_issue ?m) = (m', Inr a)"
      by (auto simp: ReadMachine_nlen_def Let_def split: if_splits)
    have ok: "read_ok ?m" using assms(1) n ReadNlen by (auto simp: read_ok_def)
    have "read_budget ?m < read_budget m" if "?n \<noteq> 0"
      using c [of ?n] pos [of ?n] that n assms(1) ReadNlen by (simp add: read_budget_def read_ok_def)
    then show ?thesis using m' ok by (auto split: if_splits dest: read_issueD)
  next
    case Message
    let ?n = "min (rm_remaining m) (rm_chunk m)"
    let ?m = "m\<lparr>rm_bytes := rm_bytes m @ rd_data r, rm_remaining := rm_remaining m - ?n,
                rm_offset := rm_offset m + ?n\<rparr>"
    have nx: "ReadMachine_chunk m (rd_data r) = (m', Inr a)"
      using assms(2) st Message
      by (simp add: ReadMachine_next_def ResponseData_ensure_success_def StatusWord_is_success_def)
    then have len: "length (rd_data r) = ?n" by (auto simp: ReadMachine_chunk_def Let_def split: if_splits)
    have ok: "read_ok ?m" using assms(1) len Message by (auto simp: read_ok_def)
    show ?thesis
    proof (cases "rm_remaining m - ?n = 0")
      case True
      then show ?thesis
        using nx len ok by (auto simp: ReadMachine_chunk_def Let_def read_ok_def)
    next
      case False
      then have "ReadMachine_issue ?m = (m', Inr a)"
        using nx len by (simp add: ReadMachine_chunk_def Let_def)
      moreover have "read_budget ?m < read_budget m"
        using False assms(1) Message pos [of "rm_remaining m - rm_chunk m"]
          div_ceil_step [of "rm_chunk m" "rm_remaining m"]
        by (auto simp: read_budget_def read_ok_def Let_def min_def split: if_splits)
      ultimately show ?thesis using ok by (auto dest: read_issueD)
    qed
  next
    case ReadCc
    then show ?thesis
      using assms st parse_cc_bound [of "rd_data r"]
      by (auto simp: ReadMachine_next_def read_ok_def read_budget_def Let_def
          ResponseData_ensure_success_def StatusWord_is_success_def split: sum.splits dest!: read_issueD)
  qed (use assms st in \<open>auto simp: ReadMachine_next_def read_ok_def read_budget_def Let_def
          ResponseData_ensure_success_def StatusWord_is_success_def dest!: read_issueD\<close>)
qed

lemma write_step_contract:
  assumes "write_ok m" "WriteMachine_next m (Some r) = (m', Inr (Command c))"
  shows "write_ok m' \<and> write_budget m' < write_budget m"
proof -
  have st: "rd_status r = 0x9000"
    using assms(2) by (auto simp: WriteMachine_next_def ensure_success_cases split: sum.splits)
  show ?thesis
    using assms st div_ceil_step [of "wm_chunk m" "length (wm_message m) - wm_offset m"]
    by (cases "wm_step m")
      (auto simp: WriteMachine_next_def WriteMachine_issue_def WriteMachine_cc_def write_ok_def
        write_budget_def Let_def div_ceil_def ResponseData_ensure_success_def StatusWord_is_success_def
        split: sum.splits if_splits)
qed


interpretation ndef_read: bounded_machine ReadMachine_ops read_ok "\<lambda>d. length d \<le> MAX_MESSAGE_LENGTH" read_budget
proof unfold_locales
  fix m r m' c
  assume ok: "read_ok m" and nx: "m_next ReadMachine_ops m r = (m', Inr (Command c))"
  then show "read_ok m'"
    using read_step_contract [of m _ m' "Command c"]
    by (cases r) (auto simp: plain_machine_def ReadMachine_next_def dest: read_issueD)
next
  fix m r m' t
  assume "read_ok m" and "m_next ReadMachine_ops m r = (m', Inr (Action.Done t))"
  then show "length t \<le> MAX_MESSAGE_LENGTH"
    using read_step_contract [of m _ m' "Action.Done t"]
    by (cases r) (auto simp: plain_machine_def ReadMachine_next_def)
next
  fix m m' c assume "m_next ReadMachine_ops m None = (m', Inr (Command c))"
  then show "read_budget m' \<le> read_budget m"
    by (simp add: plain_machine_def ReadMachine_next_def)
next
  fix m r m' c
  assume "read_ok m" and "m_next ReadMachine_ops m (Some r) = (m', Inr (Command c))"
  then show "read_budget m' < read_budget m"
    using read_step_contract [of m r m' "Command c"] by (simp add: plain_machine_def)
qed

interpretation ndef_write: bounded_machine WriteMachine_ops write_ok "\<lambda>_. True" write_budget
proof unfold_locales
  fix m r m' c
  assume ok: "write_ok m" and nx: "m_next WriteMachine_ops m r = (m', Inr (Command c))"
  then show "write_ok m'"
    using write_step_contract [of m _ m' c]
    by (cases r) (auto simp: plain_machine_def WriteMachine_next_def WriteMachine_issue_def)
next
  fix m m' c assume "m_next WriteMachine_ops m None = (m', Inr (Command c))"
  then show "write_budget m' \<le> write_budget m"
    by (simp add: plain_machine_def WriteMachine_next_def WriteMachine_issue_def)
next
  fix m r m' c
  assume "write_ok m" and "m_next WriteMachine_ops m (Some r) = (m', Inr (Command c))"
  then show "write_budget m' < write_budget m"
    using write_step_contract [of m r m' c] by (simp add: plain_machine_def)
qed simp

lemma read_message_start:
  assumes "read_message opts = Inr op"
  obtains chunk where "op_machine op = Some (read_machine_init chunk)" "0 < chunk" "chunk \<le> CHUNK"
    "5 + div_ceil MAX_MESSAGE_LENGTH chunk \<le> max_exchanges (limits opts)"
proof -
  have v: "OperationOptions_validate opts = Inr opts" "valid_options opts"
    using assms by (auto simp: read_message_def OperationOptions_validate_def valid_options_def
        split: if_splits)
  have "0 < read_chunk opts" "read_chunk opts \<le> CHUNK"
    using v(2) by (auto simp: valid_options_def OperationOptions_validate_def read_chunk_def CHUNK_def
        split: if_splits)
  then show ?thesis
    using assms v(1) that [of "read_chunk opts"]
    by (auto simp: read_message_def Operation_from_machine_def Let_def result_simps split: if_splits)
qed


lemma write_message_start:
  assumes "write_message msg opts = Inr op"
  obtains chunk where "op_machine op = Some (write_machine_init msg chunk)" "0 < chunk"
    "length msg \<le> MAX_MESSAGE_LENGTH" "6 + div_ceil (length msg) chunk \<le> max_exchanges (limits opts)"
proof -
  have v: "OperationOptions_validate opts = Inr opts"
    using assms by (auto simp: write_message_def OperationOptions_validate_def split: if_splits)
  with assms obtain chunk where c: "write_chunk opts = Inr chunk"
    by (auto simp: write_message_def result_simps split: if_splits)
  then have "0 < chunk" by (auto simp: write_chunk_def Let_def split: if_splits)
  then show ?thesis
    using assms v c that [of chunk]
    by (auto simp: write_message_def Operation_from_machine_def Let_def result_simps split: if_splits)
qed


section \<open>A conforming tag\<close>

text \<open>An executable tag that grants every request inside the bounds of its files.\<close>

definition rd_ok :: "bytes \<Rightarrow> ResponseData" where
  "rd_ok d = \<lparr>rd_data = d, rd_status = 0x9000\<rparr>"

definition rd_fail :: ResponseData where
  "rd_fail = \<lparr>rd_data = [], rd_status = 0x6a84\<rparr>"

definition tag :: "t4t \<Rightarrow> LogicalCommand \<Rightarrow> ResponseData \<times> t4t" where
  "tag s c =
     (let h = lc_header c; off = binary_offset c in
      if ins h = 0xa4 \<and> p1 h = 0x04 then (rd_ok [], s\<lparr>t4_selected := None\<rparr>)
      else if ins h = 0xa4 then (rd_ok [], s\<lparr>t4_selected := Some (from_be (lc_data c))\<rparr>)
      else case t4_selected s of
        None \<Rightarrow> (rd_fail, s)
      | Some fid \<Rightarrow>
          if ins h = 0xb0 then
            (case lc_le c of
               Exact n \<Rightarrow> if off \<le> length (t4_files s fid) then (rd_ok (take (unat n) (drop off (t4_files s fid))), s)
                          else (rd_fail, s)
             | _ \<Rightarrow> (rd_fail, s))
          else if ins h = 0xd6 \<and> off + length (lc_data c) \<le> length (t4_files s fid) then
            (rd_ok [], s\<lparr>t4_files := (t4_files s)(fid := splice (t4_files s fid) off (lc_data c))\<rparr>)
          else (rd_fail, s))"

lemma rd_simps [simp]:
  "rd_status (rd_ok d) = 0x9000" "rd_data (rd_ok d) = d" "rd_status rd_fail = 0x6a84"
  by (simp_all add: rd_ok_def rd_fail_def)

lemma tag_conforms: "t4t_exchange s c (fst (tag s c)) (snd (tag s c))"
  by (auto simp: tag_def t4t_exchange_def Let_def min_def split: option.splits ExpectedLength.splits)

lemma tag_select_file: "tag s (select_file fid) = (rd_ok [], s\<lparr>t4_selected := Some fid\<rparr>)"
  by (simp add: tag_def select_file_def from_be_to_be_2 Let_def)

lemma tag_select_applet: "tag s select_applet = (rd_ok [], s\<lparr>t4_selected := None\<rparr>)"
  by (simp add: tag_def select_applet_def Let_def)

lemma tag_read_binary:
  assumes "t4_selected s = Some fid" "unat off + n \<le> length (t4_files s fid)" "n < 65536"
  shows "tag s (read_binary off n) = (rd_ok (take n (drop (unat off) (t4_files s fid))), s)"
  using assms by (simp add: tag_def read_binary_def binary_offset_def from_be_split unat_of_nat)

lemma tag_update_binary:
  assumes "t4_selected s = Some fid" "unat off + length d \<le> length (t4_files s fid)"
  shows "fst (tag s (update_binary off d)) = rd_ok []"
  using assms by (simp add: tag_def update_binary_def binary_offset_def from_be_split)


text \<open>The configurations of a machine that the conforming tag answers: every answer is complete.\<close>

definition write_live :: "(16 word \<Rightarrow> bytes) \<Rightarrow> bytes \<Rightarrow> WriteMachine \<Rightarrow> ResponseData option \<Rightarrow> t4t \<Rightarrow> bool" where
  "write_live F msg m resp s \<longleftrightarrow> write_config F msg m resp s \<and>
     (\<forall>r. resp = Some r \<longrightarrow> rd_status r = 0x9000
        \<and> (wm_step m = WReadCc \<longrightarrow> rd_data r = take CC_LEN (F CC_FILE_ID)))"

lemma written_length:
  "length h = 2 \<Longrightarrow> 2 + k \<le> length (F fid) \<Longrightarrow> k \<le> length msg \<Longrightarrow>
     length (written F fid h k msg fid) = length (F fid)"
  by (simp add: written_def)

lemma write_live_tag:
  assumes "write_state F msg False m s" "write_target F msg fid" "2 + length msg \<le> length (F fid)"
  shows "rd_status (fst (tag s (WriteMachine_command m))) = 0x9000
    \<and> (wm_step m = WReadCc \<longrightarrow> rd_data (fst (tag s (WriteMachine_command m))) = take CC_LEN (F CC_FILE_ID))"
proof -
  have fid: "wm_file_id m = fid" if "write_target F msg (wm_file_id m)"
    using that assms(2) by (auto simp: write_target_def)
  have cc: "CC_LEN \<le> length (F CC_FILE_ID)"
    using assms(2) by (auto simp: write_target_def dest: parse_cc_length)
  show ?thesis
  proof (cases "wm_step m")
    case WMessage
    let ?n = "min (length msg - wm_offset m) (wm_chunk m)"
    have st: "t4_selected s = Some fid" "t4_files s = written F fid [0, 0] (wm_offset m) msg"
      "wm_message m = msg" "wm_offset m \<le> length msg" "wm_offset m < 1024"
      using assms(1) WMessage fid by (auto simp: write_state_def Let_def MAX_MESSAGE_LENGTH_def)
    have "length (t4_files s fid) = length (F fid)"
      unfolding st(2) using st(4) assms(3) by (intro written_length) auto
    then show ?thesis
      using st assms(3) WMessage
        tag_update_binary [of s fid "2 + of_nat (wm_offset m)" "take ?n (drop (wm_offset m) msg)"]
      by (simp add: WriteMachine_command_def Let_def unat_offset_2)
  next
    case WReadCc
    then show ?thesis
      using assms(1) cc tag_read_binary [of s CC_FILE_ID 0 CC_LEN]
      by (simp add: write_state_def WriteMachine_command_def CC_LEN_def)
  next
    case WZeroLength
    then show ?thesis
      using assms(1,3) fid tag_update_binary [of s fid 0 "[0, 0]"]
      by (auto simp: write_state_def WriteMachine_command_def Let_def)
  next
    case WFinalLength
    then have "length (t4_files s fid) = length (F fid)" "t4_selected s = Some fid"
      using assms(1,3) fid written_length [of "[0, 0]" "length msg" F fid msg]
      by (auto simp: write_state_def Let_def)
    then show ?thesis
      using assms(3) WFinalLength tag_update_binary [of s fid 0]
      by (auto simp: WriteMachine_command_def length_to_be_bytes)
  qed (use assms(1) in \<open>auto simp: WriteMachine_command_def tag_select_file tag_select_applet\<close>)
qed

lemma write_live_run:
  assumes "machine_run WriteMachine_ops (\<lambda>s c r s'. tag s c = (r, s')) (write_machine_init msg chunk) s0 m resp s"
    "0 < chunk" "write_target (t4_files s0) msg fid" "2 + length msg \<le> length (t4_files s0 fid)"
  shows "write_live (t4_files s0) msg m resp s"
  using assms(1)
proof (rule machine_run_invariant)
  have "length msg \<le> MAX_MESSAGE_LENGTH"
    using assms(3) by (auto simp: write_target_def dest: parse_cc_bound)
  then show "write_live (t4_files s0) msg (write_machine_init msg chunk) None s0"
    using assms(2) by (simp add: write_live_def write_config_def write_state_def write_machine_init_def)
next
  fix m resp s m' c r s'
  assume a: "write_live (t4_files s0) msg m resp s"
    "m_next WriteMachine_ops m resp = (m', Inr (Command c))" "tag s c = (r, s')"
  have st: "c = WriteMachine_command m'" "write_state (t4_files s0) msg False m' s"
    using write_next_state [of "t4_files s0" msg m resp s m' c] a by (auto simp: write_live_def plain_machine_def)
  have "t4t_exchange s c r s'" using tag_conforms [of s c] a(3) by simp
  then have "write_state (t4_files s0) msg (rd_status r = 0x9000) m' s'"
    using write_exchange_state [OF st(2)] st(1) by simp
  then show "write_live (t4_files s0) msg m' (Some r) s'"
    using write_live_tag [OF st(2) assms(3,4)] a(3) st(1)
    by (auto simp: write_live_def write_config_def min_def)
qed

lemma write_live_not_error:
  assumes "write_live F msg m resp s" "write_target F msg fid"
  shows "snd (WriteMachine_next m resp) \<noteq> Inl e"
proof (cases resp)
  case None
  then show ?thesis by (simp add: WriteMachine_next_def WriteMachine_issue_def)
next
  case (Some r)
  then have "rd_status r = 0x9000" "wm_message m = msg"
    "wm_step m = WReadCc \<Longrightarrow> rd_data r = take CC_LEN (F CC_FILE_ID)"
    using assms(1) by (auto simp: write_live_def write_config_def write_state_def)
  then show ?thesis
    using Some assms(2)
    by (cases "wm_step m") (auto simp: WriteMachine_next_def WriteMachine_issue_def WriteMachine_cc_def
        write_target_def ResponseData_ensure_success_def StatusWord_is_success_def Let_def)
qed


definition read_live :: "(16 word \<Rightarrow> bytes) \<Rightarrow> ReadMachine \<Rightarrow> ResponseData option \<Rightarrow> t4t \<Rightarrow> bool" where
  "read_live F m resp s \<longleftrightarrow> read_config F m resp s \<and>
     (\<forall>r. resp = Some r \<longrightarrow> rd_status r = 0x9000
        \<and> (rm_step m = ReadCc \<longrightarrow> length (rd_data r) = CC_LEN)
        \<and> (rm_step m = ReadNlen \<longrightarrow> length (rd_data r) = 2)
        \<and> (rm_step m = Message \<longrightarrow> length (rd_data r) = min (rm_remaining m) (rm_chunk m)))"

text \<open>The tag holds a message: its length bytes stay within the file and the announced maximum.\<close>

definition holds_message :: "(16 word \<Rightarrow> bytes) \<Rightarrow> bool" where
  "holds_message F \<longleftrightarrow>
     (\<exists>cap. parse_cc (take CC_LEN (F CC_FILE_ID)) = Inr cap \<and>
        (let f = F (cap_file_id cap); nlen = unat (from_be (take 2 f) :: 16 word) in
         nlen \<le> cap_max_message_length cap \<and> 2 + nlen \<le> length f))"

lemma holds_messageD:
  assumes "holds_message F" "read_target F m"
  shows "unat (from_be (take 2 (F (rm_file_id m))) :: 16 word) \<le> rm_max_message m"
    "2 + unat (from_be (take 2 (F (rm_file_id m))) :: 16 word) \<le> length (F (rm_file_id m))"
  using assms by (auto simp: holds_message_def read_target_def Let_def)

lemma read_live_tag:
  assumes "read_state F False m s" "ReadMachine_command m = Inr c" "holds_message F"
  shows "\<exists>d. fst (tag s c) = rd_ok d \<and> (rm_step m = ReadCc \<longrightarrow> length d = CC_LEN)
    \<and> (rm_step m = ReadNlen \<longrightarrow> length d = 2)
    \<and> (rm_step m = Message \<longrightarrow> length d = min (rm_remaining m) (rm_chunk m))"
proof (cases "rm_step m")
  case ReadCc
  have "CC_LEN \<le> length (F CC_FILE_ID)"
    using assms(3) by (auto simp: holds_message_def dest: parse_cc_length)
  then show ?thesis
    using ReadCc assms(1,2) tag_read_binary [of s CC_FILE_ID 0 CC_LEN]
    by (auto simp: read_state_def ReadMachine_command_def CC_LEN_def)
next
  case ReadNlen
  then have "t4_files s = F" "t4_selected s = Some (rm_file_id m)" "2 \<le> length (F (rm_file_id m))"
    using assms(1) holds_messageD(2) [OF assms(3), of m] by (simp_all add: read_state_def)
  then show ?thesis
    using assms(2) ReadNlen tag_read_binary [of s "rm_file_id m" 0 2]
    by (auto simp: ReadMachine_command_def)
next
  case Message
  let ?n = "min (rm_remaining m) (rm_chunk m)"
  have st: "t4_files s = F" "read_target F m" "t4_selected s = Some (rm_file_id m)"
    "rm_offset m = 2 + length (rm_bytes m)" "rm_remaining m + length (rm_bytes m) \<le> MAX_MESSAGE_LENGTH"
    "rm_remaining m + length (rm_bytes m) = unat (from_be (take 2 (F (rm_file_id m))) :: 16 word)"
    using assms(1) Message by (simp_all add: read_state_def)
  have off: "unat (of_nat (rm_offset m) :: 16 word) = rm_offset m"
    using st(4,5) unat_offset_2 [of "length (rm_bytes m)"] by (simp add: MAX_MESSAGE_LENGTH_def)
  have "rm_offset m + ?n \<le> length (F (rm_file_id m))" "?n < 65536"
    using st holds_messageD(2) [OF assms(3) st(2)] by (auto simp: MAX_MESSAGE_LENGTH_def)
  then show ?thesis
    using tag_read_binary [of s "rm_file_id m" "of_nat (rm_offset m)" ?n] st(1,3) off assms(2) Message
    by (auto simp: ReadMachine_command_def)
qed (use assms in \<open>auto simp: ReadMachine_command_def tag_select_file tag_select_applet\<close>)

lemma read_live_run:
  assumes "machine_run ReadMachine_ops (\<lambda>s c r s'. tag s c = (r, s')) (read_machine_init chunk) s0 m resp s"
    "holds_message (t4_files s0)"
  shows "read_live (t4_files s0) m resp s"
  using assms(1)
proof (rule machine_run_invariant)
  show "read_live (t4_files s0) (read_machine_init chunk) None s0"
    by (simp add: read_live_def read_config_def read_state_def read_machine_init_def)
next
  fix m resp s m' c r s'
  assume a: "read_live (t4_files s0) m resp s"
    "m_next ReadMachine_ops m resp = (m', Inr (Command c))" "tag s c = (r, s')"
  have st: "ReadMachine_command m' = Inr c" "read_state (t4_files s0) False m' s"
    using read_next_state [of "t4_files s0" m resp s m' "Inr (Command c)"] a
    by (auto simp: read_live_def plain_machine_def)
  have "t4t_exchange s c r s'" using tag_conforms [of s c] a(3) by simp
  then have "read_config (t4_files s0) m' (Some r) s'"
    using read_exchange_state [OF st(2,1)] by simp
  then show "read_live (t4_files s0) m' (Some r) s'"
    using read_live_tag [OF st(2,1) assms(2)] a(3) by (auto simp: read_live_def)
qed

lemma read_live_not_error:
  assumes "read_live F m resp s" "holds_message F"
  shows "snd (ReadMachine_next m resp) \<noteq> Inl e"
proof (cases resp)
  case None
  then show ?thesis by (auto simp: ReadMachine_next_def ReadMachine_issue_def ReadMachine_command_def split: ReadStep.splits)
next
  case (Some r)
  have c: "read_config F m (Some r) s" "rd_status r = 0x9000"
    using assms(1) Some by (auto simp: read_live_def)
  have iss: "snd (ReadMachine_issue x) \<noteq> Inl e" for x
    by (auto simp: ReadMachine_issue_def ReadMachine_command_def split: ReadStep.splits)
  show ?thesis
  proof (cases "rm_step m")
    case ReadCc
    then have "rd_data r = take CC_LEN (F CC_FILE_ID)"
      using c assms(1) Some by (simp add: read_config_def read_live_def)
    then show ?thesis
      using Some ReadCc c(2) assms(2) iss
      by (auto simp: ReadMachine_next_def holds_message_def ResponseData_ensure_success_def
          StatusWord_is_success_def)
  next
    case ReadNlen
    then have "rd_data r = take 2 (F (rm_file_id m))" "length (rd_data r) = 2" "read_target F m"
      using c assms(1) Some by (simp_all add: read_config_def read_live_def read_state_def)
    then show ?thesis
      using Some ReadNlen c(2) holds_messageD(1) [OF assms(2), of m] iss
      by (auto simp: ReadMachine_next_def ReadMachine_nlen_def ResponseData_ensure_success_def
          StatusWord_is_success_def Let_def)
  next
    case Message
    then show ?thesis
      using Some c(2) iss assms(1)
      by (auto simp: ReadMachine_next_def ReadMachine_chunk_def ResponseData_ensure_success_def
          StatusWord_is_success_def Let_def read_live_def)
  qed (use Some c(2) iss in \<open>auto simp: ReadMachine_next_def ResponseData_ensure_success_def
         StatusWord_is_success_def\<close>)
qed


section \<open>Completion\<close>

lemma init_ok:
  "0 < chunk \<Longrightarrow> read_ok (read_machine_init chunk)"
  "0 < chunk \<Longrightarrow> write_ok (write_machine_init msg chunk)"
  "read_budget (read_machine_init chunk) = 4 + div_ceil MAX_MESSAGE_LENGTH chunk"
  "write_budget (write_machine_init msg chunk) = 5 + div_ceil (length msg) chunk"
  by (simp_all add: read_ok_def read_machine_init_def write_ok_def write_machine_init_def
      read_budget_def write_budget_def)

lemma write_completes:
  assumes "0 < chunk" "6 + div_ceil (length msg) chunk < n"
    "write_target F msg fid" "2 + length msg \<le> length (F fid)"
  obtains m resp s where
    "machine_exec n WriteMachine_ops tag (write_machine_init msg chunk) None \<lparr>t4_selected = sel, t4_files = F\<rparr>
       = Some (m, resp, s, Inr (Action.Done ()))"
    "t4_files s = written F fid (nlen_bytes msg) (length msg) msg"
proof -
  let ?s0 = "\<lparr>t4_selected = sel, t4_files = F\<rparr>"
  obtain m resp s a where x:
    "machine_exec n WriteMachine_ops tag (write_machine_init msg chunk) None ?s0 = Some (m, resp, s, a)"
    "machine_run WriteMachine_ops (\<lambda>s c r s'. tag s c = (r, s')) (write_machine_init msg chunk) ?s0 m resp s"
    "snd (m_next WriteMachine_ops m resp) = a" "\<And>c. a \<noteq> Inr (Command c)"
    by (rule ndef_write.exec_complete [of "write_machine_init msg chunk" n tag ?s0])
      (use assms(1,2) in \<open>auto simp: init_ok\<close>)
  have live: "write_live F msg m resp s" using write_live_run [OF x(2) assms(1)] assms(3,4) by simp
  then have "a \<noteq> Inl e" for e
    using write_live_not_error [OF live assms(3)] x(3) by (auto simp: plain_machine_def)
  with x(4) have a: "a = Inr (Action.Done ())" by (cases a) (auto, metis Action.exhaust old.unit.exhaust)
  obtain m' where "WriteMachine_next m resp = (m', Inr (Action.Done ()))"
    using x(3) a by (cases "WriteMachine_next m resp") (auto simp: plain_machine_def)
  then have "write_target F msg (wm_file_id m)"
    "t4_files s = written F (wm_file_id m) (nlen_bytes msg) (length msg) msg"
    using live write_config_done [of F msg m resp s m'] by (auto simp: write_live_def)
  moreover have "wm_file_id m = fid" using calculation(1) assms(3) by (auto simp: write_target_def)
  ultimately show ?thesis using that x(1) a by simp
qed

lemma read_completes:
  assumes "0 < chunk" "5 + div_ceil MAX_MESSAGE_LENGTH chunk < n" "holds_message (t4_files s0)"
    "parse_cc (take CC_LEN (t4_files s0 CC_FILE_ID)) = Inr cap"
  obtains m resp s where
    "machine_exec n ReadMachine_ops tag (read_machine_init chunk) None s0
       = Some (m, resp, s, Inr (Action.Done (stored (t4_files s0) (cap_file_id cap))))"
    "t4_files s = t4_files s0"
proof -
  let ?F = "t4_files s0"
  obtain m resp s a where x:
    "machine_exec n ReadMachine_ops tag (read_machine_init chunk) None s0 = Some (m, resp, s, a)"
    "machine_run ReadMachine_ops (\<lambda>s c r s'. tag s c = (r, s')) (read_machine_init chunk) s0 m resp s"
    "snd (m_next ReadMachine_ops m resp) = a" "\<And>c. a \<noteq> Inr (Command c)"
    by (rule ndef_read.exec_complete [of "read_machine_init chunk" n tag s0])
      (use assms(1,2) in \<open>auto simp: init_ok\<close>)
  have live: "read_live ?F m resp s" using read_live_run [OF x(2)] assms(3) by simp
  then have "a \<noteq> Inl e" for e
    using read_live_not_error [OF live assms(3)] x(3) by (auto simp: plain_machine_def)
  with x(4) obtain d where a: "a = Inr (Action.Done d)" by (cases a) (auto, metis Action.exhaust)
  obtain m' where "ReadMachine_next m resp = (m', Inr (Action.Done d))"
    using x(3) a by (cases "ReadMachine_next m resp") (auto simp: plain_machine_def)
  then have "read_target ?F m" "d = stored ?F (rm_file_id m)"
    using live read_next_state [of ?F m resp s m' "Inr (Action.Done d)"] by (auto simp: read_live_def)
  moreover have "rm_file_id m = cap_file_id cap" using calculation(1) assms(4) by (auto simp: read_target_def)
  moreover have "t4_files s = ?F"
    using live by (auto simp: read_live_def read_config_def read_state_def split: option.splits)
  ultimately show ?thesis using that x(1) a by simp
qed

lemma written_holds:
  assumes "write_target F msg fid" "fid \<noteq> CC_FILE_ID" "2 + length msg \<le> length (F fid)"
  shows "holds_message (written F fid (nlen_bytes msg) (length msg) msg)"
    "stored (written F fid (nlen_bytes msg) (length msg) msg) fid = msg"
proof -
  obtain cap where cap: "parse_cc (take CC_LEN (F CC_FILE_ID)) = Inr cap" "cap_file_id cap = fid"
    "length msg \<le> cap_max_message_length cap"
    using assms(1) by (auto simp: write_target_def)
  have len: "length (nlen_bytes msg) = 2" "unat (from_be (nlen_bytes msg) :: 16 word) = length msg"
    using parse_cc_bound [OF cap(1)] cap(3)
    by (simp_all add: nlen_bytes_def length_to_be_bytes from_be_to_be_2 unat_of_nat MAX_MESSAGE_LENGTH_def)
  then show "holds_message (written F fid (nlen_bytes msg) (length msg) msg)"
    using cap assms(2,3) by (auto simp: holds_message_def written_def Let_def)
  show "stored (written F fid (nlen_bytes msg) (length msg) msg) fid = msg"
    using len by (simp add: stored_def written_def)
qed

section \<open>Properties\<close>

text \<open>C2: a message written through the write operation and read back through the read operation is
  the message, whatever the options the two factories accepted (chunk sizes, transport limits): on a
  conforming tag whose capability container announces a writable file with room for it, the write
  completes within the exchange limit it was preflighted against, leaves the file with the length
  bytes and the message followed by the file's old tail, and the read that follows completes too.\<close>

theorem ndef_write_read_roundtrip:
  assumes "write_message msg wopts = Inr wop" "op_machine wop = Some w0"
    and "read_message ropts = Inr rop" "op_machine rop = Some r0"
    and "write_target F msg fid" "fid \<noteq> CC_FILE_ID" "2 + length msg \<le> length (F fid)"
  shows "\<exists>m resp s m' resp' s'.
     machine_exec (Suc (max_exchanges (limits wopts))) WriteMachine_ops tag w0 None
       \<lparr>t4_selected = sel, t4_files = F\<rparr> = Some (m, resp, s, Inr (Action.Done ()))
     \<and> t4_files s = F(fid := to_be_bytes 2 (of_nat (length msg) :: 16 word) @ msg @ drop (2 + length msg) (F fid))
     \<and> machine_exec (Suc (max_exchanges (limits ropts))) ReadMachine_ops tag r0 None s
         = Some (m', resp', s', Inr (Action.Done msg))
     \<and> t4_files s' = t4_files s"
proof -
  obtain wc where wc: "w0 = write_machine_init msg wc" "0 < wc"
    "6 + div_ceil (length msg) wc \<le> max_exchanges (limits wopts)"
    by (rule write_message_start [OF assms(1)]) (use assms(2) in auto)
  obtain rc where rc: "r0 = read_machine_init rc" "0 < rc"
    "5 + div_ceil MAX_MESSAGE_LENGTH rc \<le> max_exchanges (limits ropts)"
    by (rule read_message_start [OF assms(3)]) (use assms(4) in auto)
  obtain m resp s where w: "machine_exec (Suc (max_exchanges (limits wopts))) WriteMachine_ops tag w0 None
       \<lparr>t4_selected = sel, t4_files = F\<rparr> = Some (m, resp, s, Inr (Action.Done ()))"
    "t4_files s = written F fid (nlen_bytes msg) (length msg) msg"
    using write_completes [OF wc(2) _ assms(5,7), of "Suc (max_exchanges (limits wopts))" sel] wc(1,3)
    by auto
  obtain cap where cap: "parse_cc (take CC_LEN (F CC_FILE_ID)) = Inr cap" "cap_file_id cap = fid"
    using assms(5) by (auto simp: write_target_def)
  then have "parse_cc (take CC_LEN (t4_files s CC_FILE_ID)) = Inr cap"
    using assms(6) by (simp add: w(2) written_def)
  then obtain m' resp' s' where "machine_exec (Suc (max_exchanges (limits ropts))) ReadMachine_ops tag r0 None s
         = Some (m', resp', s', Inr (Action.Done (stored (t4_files s) fid)))" "t4_files s' = t4_files s"
    using read_completes [OF rc(2), of "Suc (max_exchanges (limits ropts))" s cap] rc(1,3)
      written_holds(1) [OF assms(5-7)] w(2) cap(2) by auto
  then show ?thesis
    using w written_holds(2) [OF assms(5-7)] by (auto simp: written_def nlen_bytes_def)
qed


lemma ndef_factories_accept:
  "\<exists>wop w0. write_message [0xd1, 0x01] OperationOptions_default = Inr wop \<and> op_machine wop = Some w0
     \<and> w0 = write_machine_init [0xd1, 0x01] 240"
  "\<exists>rop r0. read_message OperationOptions_default = Inr rop \<and> op_machine rop = Some r0
     \<and> r0 = read_machine_init 240"
  by (simp_all add: write_message_def read_message_def write_chunk_def read_chunk_def CHUNK_def CC_LEN_def
      MAX_MESSAGE_LENGTH_def div_ceil_def validate_command_def read_binary_def update_binary_def
      Operation_from_machine_def OperationOptions_validate_def conversation_eval)

definition sample_files :: "16 word \<Rightarrow> bytes" where
  "sample_files = (\<lambda>_. [])(CC_FILE_ID := [0, 15, 0x20, 0, 0xf0, 0, 0xf0, 4, 6, 0xe1, 4, 4, 0, 0, 0],
                           0xe104 := [0, 1, 0xaa, 0xbb, 0xcc])"

lemma sample_target: "write_target sample_files [0xd1, 0x01] 0xe104"
  by (simp add: write_target_def sample_files_def CC_FILE_ID_def CC_LEN_def parse_cc_def Let_def
      MAX_MESSAGE_LENGTH_def from_be_def)

theorem ndef_write_read_roundtrip_witness:
  "\<exists>w0 r0 m resp s m' resp' s'.
     machine_exec 4097 WriteMachine_ops tag w0 None \<lparr>t4_selected = None, t4_files = sample_files\<rparr>
       = Some (m, resp, s, Inr (Action.Done ()))
     \<and> t4_files s 0xe104 = [0, 2, 0xd1, 0x01, 0xcc]
     \<and> machine_exec 4097 ReadMachine_ops tag r0 None s = Some (m', resp', s', Inr (Action.Done [0xd1, 0x01]))"
proof -
  obtain wop w0 rop r0 where f: "write_message [0xd1, 0x01] OperationOptions_default = Inr wop"
    "op_machine wop = Some w0" "read_message OperationOptions_default = Inr rop" "op_machine rop = Some r0"
    using ndef_factories_accept by blast
  have n: "Suc (max_exchanges (limits OperationOptions_default)) = 4097"
    by (simp add: OperationOptions_default_def OperationLimits_default_def)
  show ?thesis
    using ndef_write_read_roundtrip [OF f sample_target, of None, unfolded n]
    by (force simp: sample_files_def CC_FILE_ID_def to_be_bytes_numeral)
qed

text \<open>C1: a write that is interrupted anywhere (the card is removed, the operation is cancelled or
  fails) never leaves a length that covers bytes of two messages: in every state the card can be in
  between two exchanges, whatever it answered, its files are untouched, or the one file the
  capability container names has a zero length, or it holds the whole new message. Every other file
  is always untouched, and a file the container declares read-only is never written.\<close>

theorem ndef_write_crash_consistent:
  assumes "write_message msg opts = Inr op" "op_machine op = Some m0"
    and "machine_run WriteMachine_ops t4t_exchange m0 s0 m resp s"
  shows "t4_files s = t4_files s0
    \<or> (\<exists>cap fid. parse_cc (take CC_LEN (t4_files s0 CC_FILE_ID)) = Inr cap \<and> cap_file_id cap = fid
         \<and> \<not> cap_read_only cap \<and> length msg \<le> cap_max_message_length cap
         \<and> (\<forall>f. f \<noteq> fid \<longrightarrow> t4_files s f = t4_files s0 f)
         \<and> length (t4_files s fid) = length (t4_files s0 fid)
         \<and> (take 2 (t4_files s fid) = [0, 0]
            \<or> t4_files s fid = to_be_bytes 2 (of_nat (length msg) :: 16 word) @ msg
                 @ drop (2 + length msg) (t4_files s0 fid)))"
proof -
  let ?F = "t4_files s0"
  obtain chunk where c: "m0 = write_machine_init msg chunk" "0 < chunk" "length msg \<le> MAX_MESSAGE_LENGTH"
    by (rule write_message_start [OF assms(1)]) (use assms(2) in auto)
  have "write_config ?F msg m resp s" using write_config_run assms(3) c by blast
  then obtain ok where st: "write_state ?F msg ok m s" by (auto simp: write_config_def split: option.splits)
  have w: "?thesis" if "t4_files s = written ?F fid h k msg" "h = [0, 0] \<or> h = nlen_bytes msg \<and> k = length msg"
    "write_target ?F msg fid" "2 + k \<le> length (?F fid)" "k \<le> length msg" for fid h k
    using that by (auto simp: write_target_def written_def nlen_bytes_def length_to_be_bytes)
  show ?thesis
  proof (cases "wm_step m")
    case WZeroLength
    then show ?thesis using st w [of "wm_file_id m" "[0, 0]" 0]
      by (auto simp: write_state_def Let_def split: if_splits)
  next
    case WMessage
    then show ?thesis
      using st by (intro w [of "wm_file_id m" "[0, 0]"
          "if ok then wm_offset m + min (length msg - wm_offset m) (wm_chunk m) else wm_offset m"])
        (auto simp: write_state_def Let_def)
  next
    case WFinalLength
    then show ?thesis
      using st by (intro w [of "wm_file_id m" "if ok then nlen_bytes msg else [0, 0]" "length msg"])
        (auto simp: write_state_def Let_def)
  qed (use st in \<open>simp_all add: write_state_def Let_def\<close>)
qed


theorem ndef_write_crash_consistent_witness:
  "\<exists>m resp s. machine_run WriteMachine_ops t4t_exchange (write_machine_init [0xd1, 0x01] 240)
       \<lparr>t4_selected = None, t4_files = sample_files\<rparr> m resp s
     \<and> t4_files s \<noteq> sample_files \<and> t4_files s CC_FILE_ID = sample_files CC_FILE_ID
     \<and> length (t4_files s 0xe104) = 5"
proof -
  let ?s0 = "\<lparr>t4_selected = None, t4_files = sample_files\<rparr>"
  obtain op where f: "write_message [0xd1, 0x01] OperationOptions_default = Inr op"
    "op_machine op = Some (write_machine_init [0xd1, 0x01] 240)"
    using ndef_factories_accept by blast
  obtain m resp s where x: "machine_exec 10 WriteMachine_ops tag (write_machine_init [0xd1, 0x01] 240) None ?s0
       = Some (m, resp, s, Inr (Action.Done ()))"
    "t4_files s = written sample_files 0xe104 (nlen_bytes [0xd1, 0x01]) (Suc (Suc 0)) [0xd1, 0x01]"
    by (rule write_completes [OF _ _ sample_target, of 240 10 None])
      (auto simp: div_ceil_def sample_files_def CC_FILE_ID_def)
  have run: "machine_run WriteMachine_ops t4t_exchange (write_machine_init [0xd1, 0x01] 240) ?s0 m resp s"
    using machine_exec_run [of t4t_exchange tag, OF tag_conforms run_start x(1)] by blast
  have ne: "t4_files s \<noteq> sample_files"
    by (auto simp: x(2) written_def sample_files_def CC_FILE_ID_def nlen_bytes_def to_be_bytes_numeral dest!: fun_cong [of _ _ "0xe104"])
  have cap: "cap_file_id cap = 0xe104" if "parse_cc (take CC_LEN (sample_files CC_FILE_ID)) = Inr cap" for cap
    using that sample_target by (auto simp: write_target_def)
  have "t4_files s CC_FILE_ID = sample_files CC_FILE_ID \<and> length (t4_files s 0xe104) = length (sample_files 0xe104)"
    using ndef_write_crash_consistent [OF f run] ne cap by (auto simp: CC_FILE_ID_def)
  then show ?thesis
    using run ne by (intro exI [of _ m] exI [of _ resp] exI [of _ s]) (simp add: sample_files_def CC_FILE_ID_def)
qed

text \<open>What a read reports is what the card holds: when the read operation completes against a card
  that answers READ BINARY with bytes of the selected file, the result is the file's message as its
  two length bytes delimit it, taken from the file the capability container names, at most as long
  as the container allows, and the files were not changed.\<close>

theorem ndef_read_returns_stored:
  assumes "read_message opts = Inr op" "op_machine op = Some m0"
    and "machine_run ReadMachine_ops t4t_exchange m0 s0 m resp s"
    and "m_next ReadMachine_ops m resp = (m', Inr (Action.Done d))"
  shows "\<exists>cap. parse_cc (take CC_LEN (t4_files s0 CC_FILE_ID)) = Inr cap
    \<and> d = take (unat (from_be (take 2 (t4_files s0 (cap_file_id cap))) :: 16 word))
            (drop 2 (t4_files s0 (cap_file_id cap)))
    \<and> length d \<le> MAX_MESSAGE_LENGTH \<and> t4_files s = t4_files s0"
proof -
  let ?F = "t4_files s0"
  obtain chunk where c: "m0 = read_machine_init chunk" "0 < chunk"
    by (rule read_message_start [OF assms(1)]) (use assms(2) in auto)
  have cfg: "read_config ?F m resp s" using read_config_run assms(3) c(1) by blast
  then have "read_target ?F m" "d = stored ?F (rm_file_id m)"
    using read_next_state [of ?F m resp s m' "Inr (Action.Done d)"] assms(4) by (auto simp: plain_machine_def)
  moreover have "t4_files s = ?F"
    using cfg by (auto simp: read_config_def read_state_def split: option.splits)
  moreover have "length d \<le> MAX_MESSAGE_LENGTH"
    using ndef_read.next_done [OF _ assms(4)] ndef_read.run_contract [OF assms(3)] c init_ok(1) by blast
  ultimately show ?thesis by (auto simp: read_target_def stored_def)
qed

theorem ndef_read_returns_stored_witness:
  "\<exists>m resp s m'. machine_run ReadMachine_ops t4t_exchange (read_machine_init 240)
       \<lparr>t4_selected = None, t4_files = sample_files\<rparr> m resp s
     \<and> m_next ReadMachine_ops m resp = (m', Inr (Action.Done [0xaa])) \<and> t4_files s = sample_files"
proof -
  let ?s0 = "\<lparr>t4_selected = None, t4_files = sample_files\<rparr>"
  obtain op where f: "read_message OperationOptions_default = Inr op" "op_machine op = Some (read_machine_init 240)"
    using ndef_factories_accept by blast
  obtain cap where cap: "parse_cc (take CC_LEN (sample_files CC_FILE_ID)) = Inr cap" "cap_file_id cap = 0xe104"
    "2 \<le> cap_max_message_length cap"
    using sample_target by (auto simp: write_target_def)
  have h: "holds_message sample_files"
    using cap by (auto simp: holds_message_def Let_def) (simp_all add: sample_files_def CC_FILE_ID_def from_be_def)
  obtain m resp s where x: "machine_exec 20 ReadMachine_ops tag (read_machine_init 240) None ?s0
       = Some (m, resp, s, Inr (Action.Done (stored sample_files 0xe104)))"
    by (rule read_completes [of 240 20 ?s0 cap]) (use h cap in \<open>auto simp: div_ceil_def MAX_MESSAGE_LENGTH_def\<close>)
  have run: "machine_run ReadMachine_ops t4t_exchange (read_machine_init 240) ?s0 m resp s"
    and nx: "snd (m_next ReadMachine_ops m resp) = Inr (Action.Done (stored sample_files 0xe104))"
    using machine_exec_run [of t4t_exchange tag, OF tag_conforms run_start x(1)] by blast+
  then obtain m' where m': "m_next ReadMachine_ops m resp = (m', Inr (Action.Done (stored sample_files 0xe104)))"
    by (metis prod.collapse)
  moreover have "stored sample_files 0xe104 = [0xaa]"
    by (simp add: stored_def sample_files_def CC_FILE_ID_def from_be_def)
  ultimately show ?thesis
    using ndef_read_returns_stored [OF f run m'] run by auto
qed

text \<open>Both factories preflight enough exchanges: however the card answers, a read or write
  operation asks for at most as many logical commands as the exchange limit it was accepted with,
  so a conforming card never makes it fail half way for lack of exchanges.\<close>

theorem ndef_exchange_bounds:
  assumes "write_message msg wopts = Inr wop" "op_machine wop = Some w0"
    and "machine_run WriteMachine_ops (\<lambda>n c r n'. n' = Suc n) w0 0 w wresp i"
    and "read_message ropts = Inr rop" "op_machine rop = Some r0"
    and "machine_run ReadMachine_ops (\<lambda>n c r n'. n' = Suc n) r0 0 r rresp j"
  shows "i \<le> max_exchanges (limits wopts) \<and> j \<le> max_exchanges (limits ropts)"
proof
  obtain wc where wc: "w0 = write_machine_init msg wc" "0 < wc"
    "6 + div_ceil (length msg) wc \<le> max_exchanges (limits wopts)"
    by (rule write_message_start [OF assms(1)]) (use assms(2) in auto)
  show "i \<le> max_exchanges (limits wopts)"
    using ndef_write.run_bounded [OF assms(3)] wc by (simp add: init_ok)
  obtain rc where rc: "r0 = read_machine_init rc" "0 < rc"
    "5 + div_ceil MAX_MESSAGE_LENGTH rc \<le> max_exchanges (limits ropts)"
    by (rule read_message_start [OF assms(4)]) (use assms(5) in auto)
  show "j \<le> max_exchanges (limits ropts)"
    using ndef_read.run_bounded [OF assms(6)] rc by (simp add: init_ok)
qed

theorem ndef_exchange_bounds_witness:
  "\<exists>w i. machine_run WriteMachine_ops (\<lambda>n c r n'. n' = Suc n) (write_machine_init [0xd1, 0x01] 240) 0
       w (Some (rd_ok [])) i \<and> 0 < i \<and> i \<le> 4096"
proof -
  let ?env = "\<lambda>(n :: nat) c r n'. n' = Suc n"
  obtain wop rop where f: "write_message [0xd1, 0x01] OperationOptions_default = Inr wop"
    "op_machine wop = Some (write_machine_init [0xd1, 0x01] 240)"
    "read_message OperationOptions_default = Inr rop" "op_machine rop = Some (read_machine_init 240)"
    using ndef_factories_accept by blast
  have w: "machine_run WriteMachine_ops ?env (write_machine_init [0xd1, 0x01] 240) 0
      (write_machine_init [0xd1, 0x01] 240) (Some (rd_ok [])) (Suc 0)"
    by (rule run_exchange [OF run_start])
      (simp_all add: plain_machine_def WriteMachine_next_def WriteMachine_issue_def)
  from ndef_exchange_bounds [OF f(1,2) w f(3,4) run_start] show ?thesis
    using w by (intro exI [of _ "write_machine_init [0xd1, 0x01] 240"] exI [of _ "Suc 0"])
      (simp add: OperationOptions_default_def OperationLimits_default_def)
qed

end
