(* ===== verification/Cbor.thy ===== *)
theory Cbor
  imports Errors Codec "HOL-Library.Product_Lexorder" "HOL-Library.List_Lexorder"
begin

text \<open>
  The strict CBOR codec of the CTAP2 client (\<open>canokey-ctap/src/cbor.rs\<close>): values and their
  accessors, the position-based recursive-descent parser with its depth limit, shortest-form and
  duplicate-key checks, and the canonical encoder. The specification is \<open>wire\<close>, the
  order-preserving serialisation, with \<open>well_formed\<close>, the values the format admits, and \<open>canon\<close>, the
  reordering of maps that the canonical encoding stands for.
\<close>

unbundle bit_operations_syntax

section \<open>Values\<close>

text \<open>A \<open>Text\<close> holds the UTF-8 bytes of its \<open>String\<close>.\<close>

datatype Value =
    Unsigned "64 word"
  | Negative "64 word"
  | Bytes bytes
  | Text bytes
  | Array "Value list"
  | Map "(Value \<times> Value) list"
  | Bool bool
  | Null

definition cbor_invalid :: Error where
  "cbor_invalid = Error_at (Error_new InvalidResponse) Phase.Parsing"

definition cbor_limit :: Error where
  "cbor_limit = Error_at (Error_new LimitExceeded) Phase.Parsing"

definition limit_construction :: Error where
  "limit_construction = Error_at (Error_new LimitExceeded) Phase.Construction"

definition MAX_DEPTH :: nat where
  "MAX_DEPTH = 64"

text \<open>An \<open>i64\<close> argument is an \<open>int\<close> in the signed 64-bit range.\<close>

definition i64_range :: "int \<Rightarrow> bool" where
  "i64_range i \<longleftrightarrow> - (2 ^ 63) \<le> i \<and> i < 2 ^ 63"

definition from_int :: "int \<Rightarrow> Value" where
  "from_int i = (if i \<ge> 0 then Unsigned (word_of_int i) else Negative (word_of_int (- (i + 1))))"

fun as_map :: "Value \<Rightarrow> (Value \<times> Value) list option" where
  "as_map (Map es) = Some es"
| "as_map _ = None"

fun as_array :: "Value \<Rightarrow> Value list option" where
  "as_array (Array xs) = Some xs"
| "as_array _ = None"

fun as_bytes :: "Value \<Rightarrow> bytes option" where
  "as_bytes (Bytes bs) = Some bs"
| "as_bytes _ = None"

fun as_text :: "Value \<Rightarrow> bytes option" where
  "as_text (Text bs) = Some bs"
| "as_text _ = None"

fun as_uint :: "Value \<Rightarrow> (64 word) option" where
  "as_uint (Unsigned n) = Some n"
| "as_uint _ = None"

fun as_int :: "Value \<Rightarrow> int option" where
  "as_int (Unsigned n) = (if uint n < 2 ^ 63 then Some (uint n) else None)"
| "as_int (Negative n) = (if uint n \<le> 2 ^ 63 - 1 then Some (- 1 - uint n) else None)"
| "as_int _ = None"

fun as_bool :: "Value \<Rightarrow> bool option" where
  "as_bool (Bool b) = Some b"
| "as_bool _ = None"

definition is_null :: "Value \<Rightarrow> bool" where
  "is_null v \<longleftrightarrow> v = Null"

definition map_get :: "Value \<Rightarrow> Value \<Rightarrow> Value option" where
  "map_get v key = Option.bind (as_map v) (\<lambda>es. map_option snd (find (\<lambda>(k, _). k = key) es))"

definition map_get_int :: "Value \<Rightarrow> int \<Rightarrow> Value option" where
  "map_get_int v key = map_get v (from_int key)"

definition map_get_text :: "Value \<Rightarrow> bytes \<Rightarrow> Value option" where
  "map_get_text v key = map_get v (Text key)"

section \<open>Encoding\<close>

definition head :: "byte \<Rightarrow> 64 word \<Rightarrow> bytes" where
  "head major argument =
     (let tag = push_bit 5 major in
      if argument < 24 then [tag OR ucast argument]
      else if argument \<le> 0xff then [tag OR 24, ucast argument]
      else if argument \<le> 0xffff then (tag OR 25) # to_be_bytes 2 (ucast argument :: 16 word)
      else if argument \<le> 0xffffffff then (tag OR 26) # to_be_bytes 4 (ucast argument :: 32 word)
      else (tag OR 27) # to_be_bytes 8 argument)"

text \<open>
  \<open>encode_into\<close> returns the bytes it appends. A map's keys are encoded first, in order; the values
  are then encoded in the sorted order of the keys. The encoder has no other effect, so the result
  of each value is computed beside its key and consulted in the sorted order.
\<close>

fun sequence_entries :: "(bytes \<times> bytes res) list \<Rightarrow> bytes res" where
  "sequence_entries [] = Inr []"
| "sequence_entries ((kb, r) # rest) =
     bindE r (\<lambda>vb. bindE (sequence_entries rest) (\<lambda>more. Inr (kb @ vb @ more)))"

function (sequential) encode_into :: "Value \<Rightarrow> nat \<Rightarrow> bytes res"
and encode_items :: "Value list \<Rightarrow> nat \<Rightarrow> bytes res"
and encode_entries :: "(Value \<times> Value) list \<Rightarrow> nat \<Rightarrow> (bytes \<times> bytes res) list res" where
  "encode_into v depth =
     (if depth > MAX_DEPTH then Inl limit_construction
      else case v of
        Unsigned n \<Rightarrow> Inr (head 0 n)
      | Negative n \<Rightarrow> Inr (head 1 n)
      | Bytes bs \<Rightarrow> Inr (head 2 (of_nat (length bs)) @ bs)
      | Text bs \<Rightarrow> Inr (head 3 (of_nat (length bs)) @ bs)
      | Array xs \<Rightarrow>
          bindE (encode_items xs (depth + 1)) (\<lambda>out. Inr (head 4 (of_nat (length xs)) @ out))
      | Map es \<Rightarrow>
          bindE (encode_entries es (depth + 1)) (\<lambda>encoded.
          bindE (sequence_entries (sort_key (\<lambda>e. (length (fst e), fst e)) encoded)) (\<lambda>out.
          Inr (head 5 (of_nat (length encoded)) @ out)))
      | Bool b \<Rightarrow> Inr [if b then 0xf5 else 0xf4]
      | Null \<Rightarrow> Inr [0xf6])"
| "encode_items [] depth = Inr []"
| "encode_items (x # xs) depth =
     bindE (encode_into x depth) (\<lambda>a. bindE (encode_items xs depth) (\<lambda>b. Inr (a @ b)))"
| "encode_entries [] depth = Inr []"
| "encode_entries ((k, v) # es) depth =
     bindE (encode_into k depth) (\<lambda>kb.
     bindE (encode_entries es depth) (\<lambda>rest. Inr ((kb, encode_into v depth) # rest)))"
  by pat_completeness auto
termination
  by (relation "measures [\<lambda>x. case x of Inl (_, d) \<Rightarrow> 65 - d | Inr (Inl (_, d)) \<Rightarrow> 65 - d | Inr (Inr (_, d)) \<Rightarrow> 65 - d,
      \<lambda>x. case x of Inl _ \<Rightarrow> 0 | Inr (Inl (xs, _)) \<Rightarrow> Suc (length xs) | Inr (Inr (es, _)) \<Rightarrow> Suc (length es)]")
    (auto simp: MAX_DEPTH_def)

declare encode_into.simps [simp del]

definition encode :: "Value \<Rightarrow> bytes res" where
  "encode v = encode_into v 1"

section \<open>Parsing\<close>

definition read_be :: "bytes \<Rightarrow> nat \<Rightarrow> nat \<Rightarrow> (64 word \<times> nat) res" where
  "read_be bs pos count =
     bindE (ok_or (checked_add pos count) cbor_invalid) (\<lambda>e.
     bindE (ok_or (get_range bs pos e) cbor_invalid) (\<lambda>slice. Inr (from_be slice, e)))"

definition simple_value :: "byte \<Rightarrow> Value res" where
  "simple_value info =
     (if info = 20 then Inr (Bool False) else if info = 21 then Inr (Bool True)
      else if info = 22 then Inr Null else Inl cbor_invalid)"

definition parse_argument :: "bytes \<Rightarrow> nat \<Rightarrow> byte \<Rightarrow> (64 word \<times> nat) res" where
  "parse_argument bs pos info =
     (if info \<le> 23 then Inr (ucast info, pos + 1)
      else if info \<le> 27 then
        (let count = 2 ^ (unat info - 24) in
         bindE (read_be bs (pos + 1) count) (\<lambda>(value, e).
           let minimum = (if count = 1 then 24 else 2 ^ (8 * (count div 2))) in
           if unat value < minimum then Inl cbor_invalid else Inr (value, e)))
      else Inl cbor_invalid)"

definition take_slice :: "bytes \<Rightarrow> nat \<Rightarrow> 64 word \<Rightarrow> (bytes \<times> nat) res" where
  "take_slice bs pos len =
     (if unat len > length bs - pos then Inl cbor_invalid
      else Inr (take (unat len) (drop pos bs), pos + unat len))"

text \<open>
  The two loops of \<open>parse_at\<close> are functions of the number of items left; the last major type is 5,
  the others having been handled before.
\<close>

function (sequential) parse_at :: "bytes \<Rightarrow> nat \<Rightarrow> nat \<Rightarrow> (Value \<times> nat) res"
and parse_items :: "bytes \<Rightarrow> nat \<Rightarrow> nat \<Rightarrow> nat \<Rightarrow> (Value list \<times> nat) res"
and parse_entries :: "bytes \<Rightarrow> nat \<Rightarrow> nat \<Rightarrow> nat \<Rightarrow> bytes list \<Rightarrow> ((Value \<times> Value) list \<times> nat) res" where
  "parse_at bs pos depth =
     (if depth > MAX_DEPTH then Inl cbor_limit
      else bindE (ok_or (get_at bs pos) cbor_invalid) (\<lambda>initial.
        let major = drop_bit 5 initial; info = initial AND 0x1f in
        if major = 7 then bindE (simple_value info) (\<lambda>v. Inr (v, pos + 1))
        else if major = 6 then Inl cbor_invalid
        else bindE (parse_argument bs pos info) (\<lambda>(argument, p).
          if major = 0 then Inr (Unsigned argument, p)
          else if major = 1 then Inr (Negative argument, p)
          else if major = 2 then bindE (take_slice bs p argument) (\<lambda>(raw, e). Inr (Bytes raw, e))
          else if major = 3 then
            bindE (take_slice bs p argument) (\<lambda>(raw, e).
              if utf8_valid raw then Inr (Text raw, e) else Inl cbor_invalid)
          else if major = 4 then
            (if unat argument > length bs - p then Inl cbor_invalid
             else bindE (parse_items bs p (depth + 1) (unat argument)) (\<lambda>(xs, e). Inr (Array xs, e)))
          else
            (if unat argument > (length bs - p) div 2 then Inl cbor_invalid
             else bindE (parse_entries bs p (depth + 1) (unat argument) []) (\<lambda>(es, e). Inr (Map es, e))))))"
| "parse_items bs cursor depth 0 = Inr ([], cursor)"
| "parse_items bs cursor depth (Suc n) =
     bindE (parse_at bs cursor depth) (\<lambda>(x, p).
     bindE (parse_items bs p depth n) (\<lambda>(xs, e). Inr (x # xs, e)))"
| "parse_entries bs cursor depth 0 seen = Inr ([], cursor)"
| "parse_entries bs cursor depth (Suc n) seen =
     bindE (parse_at bs cursor depth) (\<lambda>(key, p).
     bindE (case encode key of Inl _ \<Rightarrow> Inl cbor_limit | Inr kb \<Rightarrow> Inr kb) (\<lambda>kb.
       if kb \<in> set seen then Inl cbor_invalid
       else bindE (parse_at bs p depth) (\<lambda>(v, q).
         bindE (parse_entries bs q depth n (kb # seen)) (\<lambda>(es, e). Inr ((key, v) # es, e)))))"
  by pat_completeness auto
termination
  by (relation "measures [\<lambda>x. case x of Inl (_, _, d) \<Rightarrow> 65 - d
                           | Inr (Inl (_, _, d, _)) \<Rightarrow> 65 - d | Inr (Inr (_, _, d, _, _)) \<Rightarrow> 65 - d,
      \<lambda>x. case x of Inl _ \<Rightarrow> 0 | Inr (Inl (_, _, _, n)) \<Rightarrow> Suc n | Inr (Inr (_, _, _, n, _)) \<Rightarrow> Suc n]")
    (auto simp: MAX_DEPTH_def)

declare parse_at.simps [simp del]

definition parse_item :: "bytes \<Rightarrow> (Value \<times> nat) res" where
  "parse_item bs = parse_at bs 0 1"

definition parse :: "bytes \<Rightarrow> Value res" where
  "parse bs = bindE (parse_item bs) (\<lambda>(v, consumed). if consumed \<noteq> length bs then Inl cbor_invalid else Inr v)"

section \<open>Heads\<close>

lemma unat_major: "unat (drop_bit 5 (b :: byte)) = unat b div 32"
  by (simp only: unat_drop_bit_eq) (simp add: drop_bit_eq_div)

lemma unat_info: "unat ((b :: byte) AND 0x1f) = unat b mod 32"
proof -
  have "b AND 0x1f = take_bit 5 b" by (simp add: take_bit_eq_mask mask_eq_exp_minus_1)
  then show ?thesis by (simp only: unsigned_take_bit_eq) (simp add: take_bit_eq_mod)
qed

lemma head_byte:
  assumes "m < 8" "k < (32 :: byte)"
  shows "drop_bit 5 (push_bit 5 m OR k) = m" "(push_bit 5 m OR k) AND 0x1f = k"
proof -
  have k: "unat k < 32" and m: "unat m < 8" using assms by (simp_all add: word_less_nat_alt)
  have "push_bit 5 m OR k = push_bit 5 m + k"
  proof (rule disjunctive_add [symmetric])
    fix i
    have "\<not> bit k i" if "5 \<le> i"
    proof -
      have "unat k < 2 ^ i" using k that power_increasing [of 5 i "2::nat"] by simp
      then have "\<not> bit (unat k) i" by (simp add: bit_iff_odd)
      then show ?thesis by (auto simp: bit_unsigned_iff dest: bit_imp_le_length)
    qed
    then show "\<not> bit (push_bit 5 m) i \<or> \<not> bit k i" by (auto simp: bit_simps)
  qed
  moreover have "unat (push_bit 5 m) = 32 * unat m"
    using m by (simp add: push_bit_eq_mult unat_word_ariths)
  ultimately have u: "unat (push_bit 5 m OR k) = 32 * unat m + unat k"
    using k m by (simp add: unat_word_ariths)
  show "drop_bit 5 (push_bit 5 m OR k) = m" "(push_bit 5 m OR k) AND 0x1f = k"
    using u k by (simp_all only: word_unat_eq_iff unat_major unat_info) simp_all
qed

lemma byte_split: "push_bit 5 (drop_bit 5 b) OR (b AND 0x1f) = (b :: byte)"
proof -
  have "b AND 0x1f = take_bit 5 b" by (simp add: take_bit_eq_mask mask_eq_exp_minus_1)
  then show ?thesis by (auto intro!: bit_eqI simp: bit_simps)
qed

lemma major_info_bound: "drop_bit 5 (b :: byte) < 8" "(b :: byte) AND 0x1f < 32"
  using byte_less_256 [of b]
  by (simp_all only: word_less_nat_alt unat_major unat_info) (simp_all add: less_mult_imp_div_less)

lemma to_be_bytes_ucast:
  assumes "8 * n \<le> LENGTH('b)"
  shows "to_be_bytes n (ucast (w :: 'a::len word) :: 'b::len word) = to_be_bytes n w"
proof (rule be_nat_inj)
  have "(256 :: nat) ^ n = 2 ^ (8 * n)" by (simp add: power_mult)
  then have "(256 :: nat) ^ n dvd 2 ^ LENGTH('b)" using assms by (simp add: le_imp_power_dvd)
  then show "be_nat (to_be_bytes n (ucast w :: 'b word)) = be_nat (to_be_bytes n w)"
    by (simp add: be_nat_to_be_bytes unsigned_ucast_eq take_bit_eq_mod mod_mod_cancel)
qed simp

definition head_info :: "64 word \<Rightarrow> byte \<times> nat" where
  "head_info a =
     (if a < 24 then (ucast a, 0) else if a \<le> 0xff then (24, 1) else if a \<le> 0xffff then (25, 2)
      else if a \<le> 0xffffffff then (26, 4) else (27, 8))"

lemma head_form:
  "head m a = (push_bit 5 m OR fst (head_info a)) # to_be_bytes (snd (head_info a)) a"
  by (simp add: head_def head_info_def Let_def to_be_bytes_ucast)

lemma head_nonempty [simp]: "head m a \<noteq> []"
  by (simp add: head_form)

definition arg_minimum :: "nat \<Rightarrow> nat" where
  "arg_minimum count = (if count = 1 then 24 else 2 ^ (8 * (count div 2)))"

lemma wide_info: "24 \<le> info \<Longrightarrow> info \<le> (27 :: byte) \<Longrightarrow> info = 24 \<or> info = 25 \<or> info = 26 \<or> info = 27"
proof -
  assume "24 \<le> info" "info \<le> (27 :: byte)"
  then have "unat info = 24 \<or> unat info = 25 \<or> unat info = 26 \<or> unat info = 27"
    by (auto simp: word_le_nat_alt)
  then show ?thesis by (auto simp: word_unat_eq_iff)
qed

lemma head_info_wide:
  assumes "24 \<le> info" "info \<le> 27" "count = 2 ^ (unat info - 24)"
    "arg_minimum count \<le> unat a" "unat a < 256 ^ count"
  shows "head_info a = (info, count)"
  using wide_info [OF assms(1,2)] assms(3-5)
  by (auto simp: head_info_def arg_minimum_def word_less_nat_alt word_le_nat_alt)

lemma head_info_cases:
  obtains (narrow) "a < 24" "head_info a = (ucast a, 0)"
  | (wide) info where "24 \<le> info" "info \<le> 27" "head_info a = (info, 2 ^ (unat info - 24))"
      "arg_minimum (2 ^ (unat info - 24)) \<le> unat a" "unat a < 256 ^ (2 ^ (unat info - 24))"
proof (cases "a < 24")
  case True
  then show ?thesis using narrow by (simp add: head_info_def)
next
  case False
  have "unat a < 2 ^ 64" using unsigned_less [of a] by simp
  then show ?thesis
    using False wide [of "fst (head_info a)"]
    by (auto simp: head_info_def arg_minimum_def word_less_nat_alt word_le_nat_alt split: if_splits)
qed

lemma read_be_eq:
  assumes "length bs \<le> usize_max"
  shows "read_be bs pos count =
    (if pos + count \<le> length bs then Inr (from_be (take count (drop pos bs)), pos + count) else Inl cbor_invalid)"
  using assms by (auto simp: read_be_def checked_add_def get_range_def)

lemma unat_ucast_64: "unat (ucast (b :: byte) :: 64 word) = unat b"
  using byte_less_256 [of b] by (simp only: unsigned_ucast_eq) (simp add: take_bit_eq_mod)

lemma ucast_narrow:
  "info \<le> (23 :: byte) \<Longrightarrow> (ucast info :: 64 word) < 24"
  "info \<le> (23 :: byte) \<Longrightarrow> ucast (ucast info :: 64 word) = info"
  "a < 24 \<Longrightarrow> ucast (ucast (a :: 64 word) :: byte) = a" "a < 24 \<Longrightarrow> (ucast (a :: 64 word) :: byte) \<le> 23"
  by (simp_all only: word_unat_eq_iff word_less_nat_alt word_le_nat_alt unat_ucast_64 unat_ucast_byte) simp_all

lemma parse_argument_iff:
  assumes len: "length bs \<le> usize_max" and pos: "pos < length bs" and m: "m < 8"
  shows "drop_bit 5 (bs ! pos) = m \<and> parse_argument bs pos (bs ! pos AND 0x1f) = Inr (a, p)
    \<longleftrightarrow> drop pos bs = head m a @ drop p bs \<and> p = pos + length (head m a) \<and> p \<le> length bs"
proof
  let ?i = "bs ! pos AND 0x1f"
  have d: "drop pos bs = bs ! pos # drop (Suc pos) bs" using pos by (simp add: Cons_nth_drop_Suc)
  { assume l: "drop_bit 5 (bs ! pos) = m \<and> parse_argument bs pos ?i = Inr (a, p)"
    have b: "bs ! pos = push_bit 5 m OR ?i" using l byte_split [of "bs ! pos"] by simp
    show "drop pos bs = head m a @ drop p bs \<and> p = pos + length (head m a) \<and> p \<le> length bs"
    proof (cases "?i \<le> 23")
      case True
      then have "a = ucast ?i" "p = Suc pos" using l by (simp_all add: parse_argument_def)
      moreover have "head_info a = (?i, 0)"
        using True calculation ucast_narrow(1,2) by (simp add: head_info_def)
      ultimately show ?thesis using d b pos by (simp add: head_form)
    next
      case False
      let ?n = "2 ^ (unat ?i - 24) :: nat"
      have i: "24 \<le> ?i" "?i \<le> 27" using False l
        by (auto simp: parse_argument_def word_le_nat_alt split: if_splits)
      have n: "?n \<le> 8" using wide_info [OF i] by auto
      have r: "pos + 1 + ?n \<le> length bs" "a = from_be (take ?n (drop (pos + 1) bs))" "p = pos + 1 + ?n"
        "arg_minimum ?n \<le> unat a"
        using False i l by (auto simp: parse_argument_def read_be_eq [OF len] Let_def arg_minimum_def split: if_splits)
      have s: "length (take ?n (drop (pos + 1) bs)) = ?n" using r(1) by simp
      have u: "unat a = be_nat (take ?n (drop (pos + 1) bs))"
        unfolding r(2) by (rule unat_from_be) (use s n in simp)
      then have "head_info a = (?i, ?n)"
        using head_info_wide [OF i refl r(4)] be_nat_bound [of "take ?n (drop (pos + 1) bs)"] s by simp
      moreover have "to_be_bytes ?n a = take ?n (drop (pos + 1) bs)"
        unfolding r(2) using to_be_bytes_from_be [of "take ?n (drop (pos + 1) bs)", where 'a = 64] s n by simp
      moreover have "drop (Suc pos) bs = take ?n (drop (Suc pos) bs) @ drop (pos + 1 + ?n) bs"
        using append_take_drop_id [of ?n "drop (Suc pos) bs", symmetric] by (simp add: add.commute)
      ultimately show ?thesis using d b r by (simp add: head_form)
    qed }
  { assume r: "drop pos bs = head m a @ drop p bs \<and> p = pos + length (head m a) \<and> p \<le> length bs"
    have b: "bs ! pos = push_bit 5 m OR fst (head_info a)"
      and rest: "drop (Suc pos) bs = to_be_bytes (snd (head_info a)) a @ drop p bs"
      using r d by (simp_all add: head_form)
    have small: "fst (head_info a) < 32"
      using ucast_narrow(4) [of a] by (auto simp: head_info_def word_le_nat_alt word_less_nat_alt)
    have hb: "drop_bit 5 (bs ! pos) = m" "?i = fst (head_info a)"
      using head_byte [OF m small] b by simp_all
    show "drop_bit 5 (bs ! pos) = m \<and> parse_argument bs pos ?i = Inr (a, p)"
    proof (cases rule: head_info_cases [of a])
      case narrow
      then show ?thesis using hb r ucast_narrow(3,4) by (simp add: parse_argument_def head_form)
    next
      case (wide info)
      let ?n = "2 ^ (unat info - 24) :: nat"
      have "take ?n (drop (pos + 1) bs) = to_be_bytes ?n a" using rest wide(3) by simp
      then have "from_be (take ?n (drop (pos + 1) bs)) = a"
        using from_be_to_be_bytes wide(5) by simp
      moreover have "pos + 1 + ?n = p" using r wide(3) by (simp add: head_form)
      moreover have "\<not> info \<le> 23" using wide(1) by (simp add: word_le_nat_alt)
      ultimately show ?thesis
        using hb r wide by (simp add: parse_argument_def read_be_eq [OF len] Let_def arg_minimum_def)
    qed }
qed
section \<open>Specification\<close>

fun wire :: "Value \<Rightarrow> bytes" where
  "wire (Unsigned n) = head 0 n"
| "wire (Negative n) = head 1 n"
| "wire (Bytes bs) = head 2 (of_nat (length bs)) @ bs"
| "wire (Text bs) = head 3 (of_nat (length bs)) @ bs"
| "wire (Array xs) = head 4 (of_nat (length xs)) @ concat (map wire xs)"
| "wire (Map es) = head 5 (of_nat (length es)) @ concat (map (\<lambda>e. wire (fst e) @ wire (snd e)) es)"
| "wire (Bool b) = [if b then 0xf5 else 0xf4]"
| "wire Null = [0xf6]"

definition key_order :: "Value \<times> Value \<Rightarrow> nat \<times> bytes" where
  "key_order e = (length (wire (fst e)), wire (fst e))"

fun canon :: "Value \<Rightarrow> Value" where
  "canon (Array xs) = Array (map canon xs)"
| "canon (Map es) = Map (sort_key key_order (map (\<lambda>e. (canon (fst e), canon (snd e))) es))"
| "canon v = v"

fun fits :: "nat \<Rightarrow> Value \<Rightarrow> bool" where
  "fits d (Array xs) \<longleftrightarrow> d \<le> MAX_DEPTH \<and> (\<forall>x \<in> set xs. fits (d + 1) x)"
| "fits d (Map es) \<longleftrightarrow> d \<le> MAX_DEPTH \<and> (\<forall>e \<in> set es. fits (d + 1) (fst e) \<and> fits (d + 1) (snd e))"
| "fits d v \<longleftrightarrow> d \<le> MAX_DEPTH"

fun well_formed :: "nat \<Rightarrow> Value \<Rightarrow> bool" where
  "well_formed d (Bytes bs) \<longleftrightarrow> d \<le> MAX_DEPTH \<and> length bs < 2 ^ 64"
| "well_formed d (Text bs) \<longleftrightarrow> d \<le> MAX_DEPTH \<and> length bs < 2 ^ 64 \<and> utf8_valid bs"
| "well_formed d (Array xs) \<longleftrightarrow> d \<le> MAX_DEPTH \<and> length xs < 2 ^ 64 \<and> (\<forall>x \<in> set xs. well_formed (d + 1) x)"
| "well_formed d (Map es) \<longleftrightarrow> d \<le> MAX_DEPTH \<and> length es < 2 ^ 64
     \<and> (\<forall>e \<in> set es. well_formed (d + 1) (fst e) \<and> well_formed (d + 1) (snd e)) \<and> distinct (map (encode \<circ> fst) es)"
| "well_formed d v \<longleftrightarrow> d \<le> MAX_DEPTH"

lemma wire_nonempty [simp]: "wire v \<noteq> []"
  by (cases v) auto

lemma sort_key_map: "sort_key f (map g xs) = map g (sort_key (\<lambda>x. f (g x)) xs)"
proof -
  have "insort_key f (g x) (map g ys) = map g (insort_key (\<lambda>x. f (g x)) x ys)" for x ys
    by (induction ys) auto
  then show ?thesis by (induction xs) auto
qed

lemma sequence_entries_spec:
  "sequence_entries (map (\<lambda>e. (f e, if P e then Inr (g e) else Inl err)) es)
     = (if \<forall>e \<in> set es. P e then Inr (concat (map (\<lambda>e. f e @ g e) es)) else Inl err)"
  by (induction es) (auto simp: bindE_def)

lemma encode_spec:
  "encode_into v d = (if fits d v then Inr (wire (canon v)) else Inl limit_construction)"
  "encode_items xs d =
     (if \<forall>x \<in> set xs. fits d x then Inr (concat (map (\<lambda>x. wire (canon x)) xs)) else Inl limit_construction)"
  "encode_entries es d =
     (if \<forall>e \<in> set es. fits d (fst e)
      then Inr (map (\<lambda>e. (wire (canon (fst e)), if fits d (snd e) then Inr (wire (canon (snd e))) else Inl limit_construction)) es)
      else Inl limit_construction)"
proof (induction v d and xs d and es d rule: encode_into_encode_items_encode_entries.induct)
  case (1 v depth)
  show ?case
  proof (cases "depth > MAX_DEPTH")
    case True
    then show ?thesis by (cases v) (auto simp: encode_into.simps)
  next
    case False
    show ?thesis
    proof (cases v)
      case (Array xs)
      then show ?thesis using False "1.IH"(1) [OF False Array] by (simp add: encode_into.simps comp_def)
    next
      case (Map es)
      then show ?thesis
        using False "1.IH"(2) [OF False Map]
        by (auto simp: encode_into.simps sort_key_map sequence_entries_spec key_order_def comp_def)
    qed (use False in \<open>simp_all add: encode_into.simps\<close>)
  qed
qed (auto simp: bindE_def)

section \<open>The parser accepts exactly the wire forms\<close>

definition slice_at :: "bytes \<Rightarrow> nat \<Rightarrow> nat \<Rightarrow> bytes \<Rightarrow> bool" where
  "slice_at bs pos e w \<longleftrightarrow> pos \<le> length bs \<and> e = pos + length w \<and> take (length w) (drop pos bs) = w"

lemma slice_at_Nil: "slice_at bs pos e [] \<longleftrightarrow> pos \<le> length bs \<and> e = pos"
  by (auto simp: slice_at_def)

lemma slice_at_bound: "slice_at bs pos e w \<Longrightarrow> e \<le> length bs"
  unfolding slice_at_def by (metis add_le_cancel_left le_add_diff_inverse length_drop length_take min.cobounded1)

lemma slice_at_append:
  "slice_at bs pos e (u @ w) \<longleftrightarrow> (\<exists>q. slice_at bs pos q u \<and> slice_at bs q e w)"
proof -
  have "take (length u + length w) (drop pos bs) = u @ w \<longleftrightarrow>
      take (length u) (drop pos bs) = u \<and> take (length w) (drop (pos + length u) bs) = w"
    if "pos \<le> length bs"
  proof
    assume a: "take (length u + length w) (drop pos bs) = u @ w"
    then have "length u \<le> length (drop pos bs)"
      by (metis le_trans length_append length_take min.cobounded1 le_add1)
    then show "take (length u) (drop pos bs) = u \<and> take (length w) (drop (pos + length u) bs) = w"
      using a by (simp add: take_add append_eq_append_conv add.commute)
  qed (simp add: take_add add.commute)
  moreover have "pos + length u \<le> length bs" if "pos \<le> length bs" "take (length u) (drop pos bs) = u"
    using slice_at_bound [of bs pos "pos + length u" u] that by (simp add: slice_at_def)
  ultimately show ?thesis by (auto simp: slice_at_def)
qed

lemma slice_at_head:
  assumes "length bs \<le> usize_max" "pos < length bs" "m < 8"
  shows "drop_bit 5 (bs ! pos) = m \<and> parse_argument bs pos (bs ! pos AND 0x1f) = Inr (a, p)
    \<longleftrightarrow> slice_at bs pos p (head m a)"
proof -
  have "slice_at bs pos p (head m a) \<longleftrightarrow> drop pos bs = head m a @ drop p bs \<and> p = pos + length (head m a) \<and> p \<le> length bs"
  proof
    assume "slice_at bs pos p (head m a)"
    then show "drop pos bs = head m a @ drop p bs \<and> p = pos + length (head m a) \<and> p \<le> length bs"
      using slice_at_bound [of bs pos p "head m a"] append_take_drop_id [of "length (head m a)" "drop pos bs"]
      by (simp add: slice_at_def add.commute)
  qed (use assms(2) in \<open>simp add: slice_at_def\<close>)
  then show ?thesis using parse_argument_iff [OF assms] by simp
qed

lemma slice_at_nth: "slice_at bs pos e (x # w) \<Longrightarrow> pos < length bs \<and> bs ! pos = x"
  using slice_at_bound [of bs pos e "x # w"] by (auto simp: slice_at_def Cons_nth_drop_Suc [symmetric])

lemma slice_at_single: "slice_at bs pos e [x] \<longleftrightarrow> pos < length bs \<and> bs ! pos = x \<and> e = Suc pos"
  using slice_at_nth [of bs pos e x "[]"]
  by (auto simp: slice_at_def take_Suc_conv_app_nth)

lemma take_slice_iff:
  "p \<le> length bs \<Longrightarrow> take_slice bs p a = Inr (raw, e) \<longleftrightarrow> unat a = length raw \<and> slice_at bs p e raw"
  by (auto simp: take_slice_def slice_at_def split: if_splits)

fun value_major :: "Value \<Rightarrow> byte" where
  "value_major (Unsigned _) = 0"
| "value_major (Negative _) = 1"
| "value_major (Bytes _) = 2"
| "value_major (Text _) = 3"
| "value_major (Array _) = 4"
| "value_major (Map _) = 5"
| "value_major _ = 7"

lemma wire_start:
  assumes "length bs \<le> usize_max" "slice_at bs pos e (wire v)"
  shows "pos < length bs \<and> drop_bit 5 (bs ! pos) = value_major v"
proof -
  have "0 < length (wire v)" by simp
  then have pos: "pos < length bs"
    using slice_at_bound [OF assms(2)] assms(2) unfolding slice_at_def by linarith
  have h: "drop_bit 5 (bs ! pos) = m" if "slice_at bs pos q (head m a)" "m < 8" for m a q
    using slice_at_head [OF assms(1) pos that(2)] that(1) by blast
  show ?thesis
  proof (cases v)
    case (Bool b)
    then show ?thesis using assms(2) by (auto simp: slice_at_single drop_bit_eq_div)
  next
    case Null
    then show ?thesis using assms(2) by (auto simp: slice_at_single drop_bit_eq_div)
  qed (use assms(2) h pos in \<open>auto simp: slice_at_append\<close>)
qed

lemma well_formed_depth: "well_formed d v \<Longrightarrow> d \<le> MAX_DEPTH"
  by (cases v) auto

lemma simple_value_iff:
  assumes "drop_bit 5 (bs ! pos) = 7" "pos < length bs" "length bs \<le> usize_max" "d \<le> MAX_DEPTH"
  shows "simple_value (bs ! pos AND 0x1f) = Inr v \<and> e = pos + 1 \<longleftrightarrow> well_formed d v \<and> slice_at bs pos e (wire v)"
proof -
  have b: "push_bit 5 7 OR (bs ! pos AND 0x1f) = bs ! pos" using byte_split [of "bs ! pos"] assms(1) by simp
  have i: "bs ! pos AND 0x1f = k \<longleftrightarrow> bs ! pos = push_bit 5 7 OR k" if "k < 32" for k
    using b head_byte(2) [of 7 k] that by auto
  have "simple_value (bs ! pos AND 0x1f) = Inr v \<longleftrightarrow>
      v = Bool False \<and> bs ! pos = 0xf4 \<or> v = Bool True \<and> bs ! pos = 0xf5 \<or> v = Null \<and> bs ! pos = 0xf6"
    using i [of 20] i [of 21] i [of 22] by (auto simp: simple_value_def)
  then show ?thesis
    using wire_start [OF assms(3), of pos e v] assms
    by (cases v) (auto simp: slice_at_single)
qed

lemma well_formed_fits: "well_formed d v \<Longrightarrow> d' \<le> d \<Longrightarrow> fits d' v"
proof (induction d v arbitrary: d' rule: well_formed.induct)
  case (3 d xs)
  then show ?case by (auto intro!: "3.IH")
next
  case (4 d es)
  then show ?case by (auto intro!: "4.IH")
qed auto

lemma well_formed_encode: "well_formed d v \<Longrightarrow> 0 < d \<Longrightarrow> encode v = Inr (wire (canon v))"
  using well_formed_fits [of d v 1] by (simp add: encode_def encode_spec)

lemma items_step:
  "parse_items bs c d (Suc n) = Inr (xs, e) \<longleftrightarrow>
     (\<exists>x p xs'. xs = x # xs' \<and> parse_at bs c d = Inr (x, p) \<and> parse_items bs p d n = Inr (xs', e))"
  by (auto simp: result_simps split: prod.splits)

lemma entries_step:
  "parse_entries bs c d (Suc n) seen = Inr (es, e) \<longleftrightarrow>
     (\<exists>key p kb v q es'. es = (key, v) # es' \<and> parse_at bs c d = Inr (key, p) \<and> encode key = Inr kb
        \<and> kb \<notin> set seen \<and> parse_at bs p d = Inr (v, q) \<and> parse_entries bs q d n (kb # seen) = Inr (es', e))"
proof (cases "parse_at bs c d")
  case (Inr kp)
  obtain key p where kp: "kp = (key, p)" by fastforce
  show ?thesis
  proof (cases "encode key")
    case e: (Inr kb)
    show ?thesis using Inr kp e by (auto simp: result_simps split: prod.splits if_splits)
  qed (use Inr kp in auto)
qed simp

lemma length_concat_wire: "length xs \<le> length (concat (map wire xs))"
proof (induction xs)
  case (Cons x xs)
  have "0 < length (wire x)" by simp
  then show ?case using Cons unfolding list.map concat.simps length_append list.size by linarith
qed simp

lemma length_concat_entries: "2 * length es \<le> length (concat (map (\<lambda>x. wire (fst x) @ wire (snd x)) es))"
proof (induction es)
  case (Cons x es)
  have "1 \<le> length (wire (fst x))" "1 \<le> length (wire (snd x))" by (simp_all add: Suc_le_eq)
  then show ?case using Cons by simp
qed simp

lemma length_word:
  "unat (a :: 64 word) = n \<longleftrightarrow> n < 2 ^ 64 \<and> a = of_nat n"
  using unsigned_less [of a] by (auto simp: unat_of_nat)

lemma major_cases:
  obtains "drop_bit 5 (b :: byte) = 0" | "drop_bit 5 b = 1" | "drop_bit 5 b = 2" | "drop_bit 5 b = 3"
  | "drop_bit 5 b = 4" | "drop_bit 5 b = 5" | "drop_bit 5 b = 6" | "drop_bit 5 b = 7"
proof -
  let ?m = "drop_bit 5 b"
  have "unat ?m < 8" using major_info_bound(1) [of b] by (simp only: word_less_nat_alt) simp
  then have "unat ?m \<in> {0, 1, 2, 3, 4, 5, 6, 7}" by auto
  then have "?m \<in> {0, 1, 2, 3, 4, 5, 6, 7}"
    by (simp only: insert_iff empty_iff word_unat_eq_iff) simp
  then show ?thesis using that by blast
qed

lemma fits_remaining:
  "slice_at bs p e w \<Longrightarrow> n \<le> length w \<Longrightarrow> n \<le> length bs - p"
  "slice_at bs p e w \<Longrightarrow> 2 * n \<le> length w \<Longrightarrow> n \<le> (length bs - p) div 2"
  using slice_at_bound [of bs p e w] by (auto simp: slice_at_def)

lemma parse_items_step:
  assumes h: "\<And>x p. parse_at bs cursor depth = Inr (x, p) \<longleftrightarrow> well_formed depth x \<and> slice_at bs cursor p (wire x)"
    and t: "\<And>x p ys. parse_at bs cursor depth = Inr (x, p) \<Longrightarrow>
      parse_items bs p depth n = Inr (ys, e) \<longleftrightarrow>
        length ys = n \<and> (\<forall>x \<in> set ys. well_formed depth x) \<and> slice_at bs p e (concat (map wire ys))"
  shows "parse_items bs cursor depth (Suc n) = Inr (xs, e) \<longleftrightarrow>
    length xs = Suc n \<and> (\<forall>x \<in> set xs. well_formed depth x) \<and> slice_at bs cursor e (concat (map wire xs))"
  proof (cases xs)
    case (Cons x ys)
    have "parse_items bs cursor depth (Suc n) = Inr (xs, e) \<longleftrightarrow>
        (\<exists>p. parse_at bs cursor depth = Inr (x, p) \<and> parse_items bs p depth n = Inr (ys, e))"
      unfolding items_step Cons by auto
    also have "\<dots> \<longleftrightarrow> (\<exists>p. well_formed depth x \<and> slice_at bs cursor p (wire x)
        \<and> length ys = n \<and> (\<forall>x \<in> set ys. well_formed depth x) \<and> slice_at bs p e (concat (map wire ys)))"
      using h t by blast
    finally show ?thesis by (auto simp: Cons slice_at_append)
  qed (unfold items_step, simp)

lemma parse_entries_step:
  assumes k: "\<And>x p. parse_at bs cursor depth = Inr (x, p) \<longleftrightarrow> well_formed depth x \<and> slice_at bs cursor p (wire x)"
    and v: "\<And>x p kb y q. parse_at bs cursor depth = Inr (x, p) \<Longrightarrow> encode x = Inr kb \<Longrightarrow> kb \<notin> set seen \<Longrightarrow>
      parse_at bs p depth = Inr (y, q) \<longleftrightarrow> well_formed depth y \<and> slice_at bs p q (wire y)"
    and t: "\<And>x p kb y q ys. parse_at bs cursor depth = Inr (x, p) \<Longrightarrow> encode x = Inr kb \<Longrightarrow> kb \<notin> set seen \<Longrightarrow>
      parse_at bs p depth = Inr (y, q) \<Longrightarrow>
      parse_entries bs q depth n (kb # seen) = Inr (ys, e) \<longleftrightarrow>
        length ys = n \<and> (\<forall>x \<in> set ys. well_formed depth (fst x) \<and> well_formed depth (snd x))
        \<and> distinct (map (encode \<circ> fst) ys) \<and> (\<forall>x \<in> set ys. \<forall>s \<in> set (kb # seen). encode (fst x) \<noteq> Inr s)
        \<and> slice_at bs q e (concat (map (\<lambda>x. wire (fst x) @ wire (snd x)) ys))"
    and depth: "0 < depth"
  shows "parse_entries bs cursor depth (Suc n) seen = Inr (es, e) \<longleftrightarrow>
    length es = Suc n \<and> (\<forall>x \<in> set es. well_formed depth (fst x) \<and> well_formed depth (snd x))
    \<and> distinct (map (encode \<circ> fst) es) \<and> (\<forall>x \<in> set es. \<forall>s \<in> set seen. encode (fst x) \<noteq> Inr s)
    \<and> slice_at bs cursor e (concat (map (\<lambda>x. wire (fst x) @ wire (snd x)) es))"
proof -
  have enc: "encode x = Inr (wire (canon x))" if "well_formed depth x" for x
    using well_formed_encode [OF that] depth by simp
  show ?thesis
  proof (cases es)
    case (Cons kv ys)
    obtain x y where kv: "kv = (x, y)" by fastforce
    have "parse_entries bs cursor depth (Suc n) seen = Inr (es, e) \<longleftrightarrow>
        (\<exists>p q kb. parse_at bs cursor depth = Inr (x, p) \<and> encode x = Inr kb \<and> kb \<notin> set seen
           \<and> parse_at bs p depth = Inr (y, q) \<and> parse_entries bs q depth n (kb # seen) = Inr (ys, e))"
      unfolding entries_step Cons kv by auto
    also have "\<dots> \<longleftrightarrow> (\<exists>p q kb. well_formed depth x \<and> slice_at bs cursor p (wire x) \<and> encode x = Inr kb
        \<and> kb \<notin> set seen \<and> well_formed depth y \<and> slice_at bs p q (wire y)
        \<and> length ys = n \<and> (\<forall>x \<in> set ys. well_formed depth (fst x) \<and> well_formed depth (snd x))
        \<and> distinct (map (encode \<circ> fst) ys) \<and> (\<forall>x \<in> set ys. \<forall>s \<in> set (kb # seen). encode (fst x) \<noteq> Inr s)
        \<and> slice_at bs q e (concat (map (\<lambda>x. wire (fst x) @ wire (snd x)) ys)))"
      (is "_ \<longleftrightarrow> (\<exists>p q kb. ?R p q kb)")
    proof (intro ex_cong1)
      fix p q kb
      show "(parse_at bs cursor depth = Inr (x, p) \<and> encode x = Inr kb \<and> kb \<notin> set seen
           \<and> parse_at bs p depth = Inr (y, q) \<and> parse_entries bs q depth n (kb # seen) = Inr (ys, e)) \<longleftrightarrow> ?R p q kb"
        using k [of x p] v [of x p kb y q] t [of x p kb y q ys] by blast
    qed
    also have "\<dots> \<longleftrightarrow> (\<exists>p q. well_formed depth x \<and> slice_at bs cursor p (wire x)
        \<and> wire (canon x) \<notin> set seen \<and> well_formed depth y \<and> slice_at bs p q (wire y)
        \<and> length ys = n \<and> (\<forall>x \<in> set ys. well_formed depth (fst x) \<and> well_formed depth (snd x))
        \<and> distinct (map (encode \<circ> fst) ys)
        \<and> (\<forall>x' \<in> set ys. \<forall>s \<in> set (wire (canon x) # seen). encode (fst x') \<noteq> Inr s)
        \<and> slice_at bs q e (concat (map (\<lambda>x. wire (fst x) @ wire (snd x)) ys)))"
      using enc [of x] by (cases "well_formed depth x") simp_all
    finally have step: "parse_entries bs cursor depth (Suc n) seen = Inr (es, e) \<longleftrightarrow> \<dots>" .
    have dist: "distinct (map (encode \<circ> fst) es) \<and> (\<forall>x \<in> set es. \<forall>s \<in> set seen. encode (fst x) \<noteq> Inr s)
        \<longleftrightarrow> wire (canon x) \<notin> set seen \<and> distinct (map (encode \<circ> fst) ys)
          \<and> (\<forall>x' \<in> set ys. \<forall>s \<in> set (wire (canon x) # seen). encode (fst x') \<noteq> Inr s)"
      if "well_formed depth x"
      using enc [OF that] by (force simp: Cons kv image_iff)
    show ?thesis
    proof (cases "well_formed depth x")
      case True
      then show ?thesis
        unfolding step using dist [OF True] by (simp add: Cons kv slice_at_append comp_def) blast
    next
      case False
      then show ?thesis unfolding step by (simp add: Cons kv)
    qed
  qed (unfold entries_step, simp)
qed

lemma parse_scalar_iff:
  assumes len: "length bs \<le> usize_max" and True: "depth \<le> MAX_DEPTH" "pos < length bs"
    "drop_bit 5 (bs ! pos) \<noteq> 4" "drop_bit 5 (bs ! pos) \<noteq> 5"
  shows "parse_at bs pos depth = Inr (v, e) \<longleftrightarrow> well_formed depth v \<and> slice_at bs pos e (wire v)"
proof -
  let ?b = "bs ! pos" and ?m = "drop_bit 5 (bs ! pos)" and ?arg = "parse_argument bs pos (bs ! pos AND 0x1f)"
  have g: "get_at bs pos = Some ?b" using True by (simp add: get_at_def)
  have hd: "?m = m \<Longrightarrow> m < 8 \<Longrightarrow> ?arg = Inr (a, p) \<longleftrightarrow> slice_at bs pos p (head m a)" for m a p
    using slice_at_head [OF len] True by blast
  have major: "slice_at bs pos e (wire v) \<Longrightarrow> value_major v = ?m"
    using wire_start [OF len] by simp
  note unf = parse_at.simps [of bs pos depth] g
  show ?thesis
  proof (cases rule: major_cases [of ?b])
    case 8
    then show ?thesis
      using True simple_value_iff [OF 8 _ len, of depth v e]
      by (auto simp: unf result_simps)
  next
    case 7
    then show ?thesis using True major by (cases v) (auto simp: unf)
  next
    case 1
    then show ?thesis using True major hd [OF 1]
      by (cases v) (auto simp: unf result_simps split: prod.splits)
  next
    case 2
    then show ?thesis using True major hd [OF 2]
      by (cases v) (auto simp: unf result_simps split: prod.splits)
  next
    case 3
    have "parse_at bs pos depth = Inr (v, e) \<longleftrightarrow>
        (\<exists>a p raw. v = Bytes raw \<and> ?arg = Inr (a, p) \<and> take_slice bs p a = Inr (raw, e))"
      using True 3 by (auto simp: unf result_simps split: prod.splits if_splits)
    also have "\<dots> \<longleftrightarrow>
        (\<exists>a p raw. v = Bytes raw \<and> slice_at bs pos p (head 2 a) \<and> unat a = length raw \<and> slice_at bs p e raw)"
    proof (intro ex_cong1)
      fix a p raw
      show "(v = Bytes raw \<and> ?arg = Inr (a, p) \<and> take_slice bs p a = Inr (raw, e)) \<longleftrightarrow>
        (v = Bytes raw \<and> slice_at bs pos p (head 2 a) \<and> unat a = length raw \<and> slice_at bs p e raw)"
        using hd [OF 3, of a p] take_slice_iff [OF slice_at_bound, of bs pos p "head 2 a" a raw e] by auto
    qed
    also have "\<dots> \<longleftrightarrow> well_formed depth v \<and> slice_at bs pos e (wire v)"
      using True major 3 length_word by (cases v) (auto simp: slice_at_append)
    finally show ?thesis .
  next
    case 4
    have "parse_at bs pos depth = Inr (v, e) \<longleftrightarrow>
        (\<exists>a p raw. v = Text raw \<and> ?arg = Inr (a, p) \<and> take_slice bs p a = Inr (raw, e) \<and> utf8_valid raw)"
      using True 4 by (auto simp: unf result_simps split: prod.splits if_splits)
    also have "\<dots> \<longleftrightarrow>
        (\<exists>a p raw. v = Text raw \<and> slice_at bs pos p (head 3 a) \<and> unat a = length raw \<and> slice_at bs p e raw \<and> utf8_valid raw)"
    proof (intro ex_cong1)
      fix a p raw
      show "(v = Text raw \<and> ?arg = Inr (a, p) \<and> take_slice bs p a = Inr (raw, e) \<and> utf8_valid raw) \<longleftrightarrow>
        (v = Text raw \<and> slice_at bs pos p (head 3 a) \<and> unat a = length raw \<and> slice_at bs p e raw \<and> utf8_valid raw)"
        using hd [OF 4, of a p] take_slice_iff [OF slice_at_bound, of bs pos p "head 3 a" a raw e] by auto
    qed
    also have "\<dots> \<longleftrightarrow> well_formed depth v \<and> slice_at bs pos e (wire v)"
      using True major 4 length_word by (cases v) (auto simp: slice_at_append)
    finally show ?thesis .
  qed (use True in auto)
qed

lemma parse_array_iff:
  assumes len: "length bs \<le> usize_max" and True: "depth \<le> MAX_DEPTH" "pos < length bs"
    and 5: "drop_bit 5 (bs ! pos) = 4"
    and it: "\<And>a p xs. parse_argument bs pos (bs ! pos AND 0x1f) = Inr (a, p) \<Longrightarrow> p \<le> length bs \<Longrightarrow>
      unat a \<le> length bs - p \<Longrightarrow>
      parse_items bs p (depth + 1) (unat a) = Inr (xs, e) \<longleftrightarrow> length xs = unat a
        \<and> (\<forall>x \<in> set xs. well_formed (depth + 1) x) \<and> slice_at bs p e (concat (map wire xs))"
  shows "parse_at bs pos depth = Inr (v, e) \<longleftrightarrow> well_formed depth v \<and> slice_at bs pos e (wire v)"
proof -
  let ?b = "bs ! pos" and ?m = "drop_bit 5 (bs ! pos)" and ?arg = "parse_argument bs pos (bs ! pos AND 0x1f)"
  have g: "get_at bs pos = Some ?b" using True by (simp add: get_at_def)
  have hd: "?m = m \<Longrightarrow> m < 8 \<Longrightarrow> ?arg = Inr (a, p) \<longleftrightarrow> slice_at bs pos p (head m a)" for m a p
    using slice_at_head [OF len] True by blast
  have major: "slice_at bs pos e (wire v) \<Longrightarrow> value_major v = ?m"
    using wire_start [OF len] by simp
  note unf = parse_at.simps [of bs pos depth] g
  have bound: "p \<le> length bs" if "?arg = Inr (a, p)" for a p
    using that hd [OF 5] slice_at_bound by simp
  have "parse_at bs pos depth = Inr (v, e) \<longleftrightarrow>
      (\<exists>a p xs. v = Array xs \<and> ?arg = Inr (a, p) \<and> unat a \<le> length bs - p
         \<and> parse_items bs p (depth + 1) (unat a) = Inr (xs, e))"
    using True 5 by (cases ?arg) (auto simp: unf result_simps split: prod.splits if_splits)
  also have "\<dots> \<longleftrightarrow> (\<exists>a p xs. v = Array xs \<and> ?arg = Inr (a, p) \<and> unat a \<le> length bs - p
         \<and> length xs = unat a \<and> (\<forall>x \<in> set xs. well_formed (depth + 1) x)
         \<and> slice_at bs p e (concat (map wire xs)))"
    using it bound by blast
  also have "\<dots> \<longleftrightarrow> (\<exists>a p xs. v = Array xs \<and> slice_at bs pos p (head 4 a)
         \<and> unat a = length xs \<and> (\<forall>x \<in> set xs. well_formed (depth + 1) x)
         \<and> slice_at bs p e (concat (map wire xs)))"
  proof (intro ex_cong1)
    fix a p xs
    show "(v = Array xs \<and> ?arg = Inr (a, p) \<and> unat a \<le> length bs - p \<and> length xs = unat a
         \<and> (\<forall>x \<in> set xs. well_formed (depth + 1) x) \<and> slice_at bs p e (concat (map wire xs)))
      \<longleftrightarrow> (v = Array xs \<and> slice_at bs pos p (head 4 a) \<and> unat a = length xs
         \<and> (\<forall>x \<in> set xs. well_formed (depth + 1) x) \<and> slice_at bs p e (concat (map wire xs)))"
      using hd [OF 5, of a p] fits_remaining(1) [OF _ length_concat_wire [of xs], of bs p e] by auto
  qed
  also have "\<dots> \<longleftrightarrow> well_formed depth v \<and> slice_at bs pos e (wire v)"
    using True major 5 length_word by (cases v) (auto simp: slice_at_append)
  finally show ?thesis .
qed

lemma parse_map_iff:
  assumes len: "length bs \<le> usize_max" and True: "depth \<le> MAX_DEPTH" "pos < length bs"
    and 6: "drop_bit 5 (bs ! pos) = 5"
    and it: "\<And>a p es. parse_argument bs pos (bs ! pos AND 0x1f) = Inr (a, p) \<Longrightarrow> p \<le> length bs \<Longrightarrow>
      unat a \<le> (length bs - p) div 2 \<Longrightarrow>
      parse_entries bs p (depth + 1) (unat a) [] = Inr (es, e) \<longleftrightarrow> length es = unat a
        \<and> (\<forall>x \<in> set es. well_formed (depth + 1) (fst x) \<and> well_formed (depth + 1) (snd x))
        \<and> distinct (map (encode \<circ> fst) es)
        \<and> slice_at bs p e (concat (map (\<lambda>x. wire (fst x) @ wire (snd x)) es))"
  shows "parse_at bs pos depth = Inr (v, e) \<longleftrightarrow> well_formed depth v \<and> slice_at bs pos e (wire v)"
proof -
  let ?b = "bs ! pos" and ?m = "drop_bit 5 (bs ! pos)" and ?arg = "parse_argument bs pos (bs ! pos AND 0x1f)"
  have g: "get_at bs pos = Some ?b" using True by (simp add: get_at_def)
  have hd: "?m = m \<Longrightarrow> m < 8 \<Longrightarrow> ?arg = Inr (a, p) \<longleftrightarrow> slice_at bs pos p (head m a)" for m a p
    using slice_at_head [OF len] True by blast
  have major: "slice_at bs pos e (wire v) \<Longrightarrow> value_major v = ?m"
    using wire_start [OF len] by simp
  note unf = parse_at.simps [of bs pos depth] g
  have bound: "p \<le> length bs" if "?arg = Inr (a, p)" for a p
    using that hd [OF 6] slice_at_bound by simp
  have "parse_at bs pos depth = Inr (v, e) \<longleftrightarrow>
      (\<exists>a p es. v = Map es \<and> ?arg = Inr (a, p) \<and> unat a \<le> (length bs - p) div 2
         \<and> parse_entries bs p (depth + 1) (unat a) [] = Inr (es, e))"
    using True 6 by (cases ?arg) (auto simp: unf result_simps split: prod.splits if_splits)
  also have "\<dots> \<longleftrightarrow> (\<exists>a p es. v = Map es \<and> ?arg = Inr (a, p) \<and> unat a \<le> (length bs - p) div 2
         \<and> length es = unat a
         \<and> (\<forall>x \<in> set es. well_formed (depth + 1) (fst x) \<and> well_formed (depth + 1) (snd x))
         \<and> distinct (map (encode \<circ> fst) es)
         \<and> slice_at bs p e (concat (map (\<lambda>x. wire (fst x) @ wire (snd x)) es)))"
    using it bound by blast
  also have "\<dots> \<longleftrightarrow> (\<exists>a p es. v = Map es \<and> slice_at bs pos p (head 5 a) \<and> unat a = length es
         \<and> (\<forall>x \<in> set es. well_formed (depth + 1) (fst x) \<and> well_formed (depth + 1) (snd x))
         \<and> distinct (map (encode \<circ> fst) es)
         \<and> slice_at bs p e (concat (map (\<lambda>x. wire (fst x) @ wire (snd x)) es)))"
    (is "_ \<longleftrightarrow> (\<exists>a p es. v = Map es \<and> _ a p \<and> _ a es \<and> ?W es \<and> ?D es \<and> ?S p es)")
  proof (intro ex_cong1)
    fix a p es
    show "(v = Map es \<and> ?arg = Inr (a, p) \<and> unat a \<le> (length bs - p) div 2 \<and> length es = unat a
         \<and> ?W es \<and> ?D es \<and> ?S p es)
      \<longleftrightarrow> (v = Map es \<and> slice_at bs pos p (head 5 a) \<and> unat a = length es \<and> ?W es \<and> ?D es \<and> ?S p es)"
      using hd [OF 6, of a p] fits_remaining(2) [OF _ length_concat_entries [of es], of bs p e] by auto
  qed
  also have "\<dots> \<longleftrightarrow> well_formed depth v \<and> slice_at bs pos e (wire v)"
    using True major 6 length_word by (cases v) (auto simp: slice_at_append)
  finally show ?thesis .
qed

lemma parse_iff:
  "length bs \<le> usize_max \<Longrightarrow> 0 < d \<Longrightarrow>
     parse_at bs pos d = Inr (v, e) \<longleftrightarrow> well_formed d v \<and> slice_at bs pos e (wire v)"
  "length bs \<le> usize_max \<Longrightarrow> 0 < d \<Longrightarrow> pos \<le> length bs \<Longrightarrow>
     parse_items bs pos d n = Inr (xs, e) \<longleftrightarrow>
       length xs = n \<and> (\<forall>x \<in> set xs. well_formed d x) \<and> slice_at bs pos e (concat (map wire xs))"
  "length bs \<le> usize_max \<Longrightarrow> 0 < d \<Longrightarrow> pos \<le> length bs \<Longrightarrow>
     parse_entries bs pos d n seen = Inr (es, e) \<longleftrightarrow>
       length es = n \<and> (\<forall>x \<in> set es. well_formed d (fst x) \<and> well_formed d (snd x)) 
       \<and> distinct (map (encode \<circ> fst) es) \<and> (\<forall>x \<in> set es. \<forall>s \<in> set seen. encode (fst x) \<noteq> Inr s)
       \<and> slice_at bs pos e (concat (map (\<lambda>x. wire (fst x) @ wire (snd x)) es))"
proof (induction bs pos d and bs pos d n and bs pos d n seen arbitrary: v e and xs e and es e
    rule: parse_at_parse_items_parse_entries.induct)
  case (1 bs pos depth)
  let ?b = "bs ! pos"
  show ?case
  proof (cases "depth \<le> MAX_DEPTH \<and> pos < length bs")
    case False
    then show ?thesis
      using well_formed_depth wire_start [OF "1.prems"(1), of pos e v]
      by (auto simp: parse_at.simps [of bs pos] get_at_def)
  next
    case True
    then have g: "get_at bs pos = Some ?b" by (simp add: get_at_def)
    consider "drop_bit 5 ?b = 4" | "drop_bit 5 ?b = 5" | "drop_bit 5 ?b \<noteq> 4" "drop_bit 5 ?b \<noteq> 5" by blast
    then show ?thesis
    proof cases
      case 1
      show ?thesis
        by (rule parse_array_iff [OF "1.prems"(1) _ _ 1])
          (use "1.IH"(1) [of ?b "drop_bit 5 ?b" "?b AND 0x1f"] "1.prems" True 1 g in \<open>simp_all\<close>)
    next
      case 2
      show ?thesis
        by (rule parse_map_iff [OF "1.prems"(1) _ _ 2])
          (use "1.IH"(2) [of ?b "drop_bit 5 ?b" "?b AND 0x1f"] "1.prems" True 2 g in \<open>simp_all add: comp_def\<close>)
    next
      case 3
      then show ?thesis using parse_scalar_iff [OF "1.prems"(1)] True by blast
    qed
  qed
next
  case (2 bs cursor depth)
  then show ?case by (auto simp: slice_at_Nil)
next
  case (3 bs cursor depth n)
  show ?case
  proof (rule parse_items_step)
    show h: "parse_at bs cursor depth = Inr (x, p) \<longleftrightarrow> well_formed depth x \<and> slice_at bs cursor p (wire x)" for x p
      using "3.IH"(1) "3.prems" by simp
    show "parse_items bs p depth n = Inr (ys, e) \<longleftrightarrow>
        length ys = n \<and> (\<forall>x \<in> set ys. well_formed depth x) \<and> slice_at bs p e (concat (map wire ys))"
      if "parse_at bs cursor depth = Inr (x, p)" for x p ys
      using "3.IH"(2) [OF that refl] "3.prems" that h slice_at_bound by blast
  qed
next
  case (4 bs cursor depth seen)
  then show ?case by (auto simp: slice_at_Nil)
next
  case (5 bs cursor depth n seen)
  show ?case
  proof (rule parse_entries_step)
    show "parse_at bs cursor depth = Inr (x, p) \<longleftrightarrow> well_formed depth x \<and> slice_at bs cursor p (wire x)" for x p
      using "5.IH"(1) "5.prems" by simp
    show v: "parse_at bs p depth = Inr (y, q) \<longleftrightarrow> well_formed depth y \<and> slice_at bs p q (wire y)"
      if "parse_at bs cursor depth = Inr (x, p)" "encode x = Inr kb" "kb \<notin> set seen" for x p kb y q
      using "5.IH"(2) [OF that(1) refl _ that(3)] "5.prems" that(2) by simp
    show "parse_entries bs q depth n (kb # seen) = Inr (ys, e) \<longleftrightarrow>
        length ys = n \<and> (\<forall>x \<in> set ys. well_formed depth (fst x) \<and> well_formed depth (snd x))
        \<and> distinct (map (encode \<circ> fst) ys) \<and> (\<forall>x \<in> set ys. \<forall>s \<in> set (kb # seen). encode (fst x) \<noteq> Inr s)
        \<and> slice_at bs q e (concat (map (\<lambda>x. wire (fst x) @ wire (snd x)) ys))"
      if "parse_at bs cursor depth = Inr (x, p)" "encode x = Inr kb" "kb \<notin> set seen"
        "parse_at bs p depth = Inr (y, q)" for x p kb y q ys
    proof -
      have "q \<le> length bs" using v [OF that(1-3)] that(4) slice_at_bound by blast
      then show ?thesis
        using "5.IH"(3) [OF that(1) refl _ that(3,4) refl] "5.prems" that(2) by (simp add: comp_def)
    qed
    show "0 < depth" using "5.prems" by simp
  qed
qed

section \<open>Canonical form\<close>

lemma canon_idem [simp]: "canon (canon v) = canon v"
proof (induction v rule: canon.induct)
  case (2 es)
  let ?c = "\<lambda>e. (canon (fst e), canon (snd e))"
  let ?s = "sort_key key_order (map ?c es)"
  have "?c e = e" if "e \<in> set ?s" for e using that 2 by auto
  then have "map ?c ?s = ?s" by (rule map_idI)
  moreover have "sort_key key_order ?s = ?s" by (rule sort_key_id_if_sorted) (rule sorted_sort_key)
  ultimately show ?case by (simp only: canon.simps)
qed simp_all

lemma canon_fits: "fits d v \<Longrightarrow> fits d (canon v)"
  by (induction d v rule: fits.induct) auto

lemma distinct_sort_map: "distinct (map g (sort_key f xs)) \<longleftrightarrow> distinct (map g xs)"
proof -
  have "distinct (map g (insort_key f x ys)) \<longleftrightarrow> distinct (map g (x # ys))" for x ys
    by (induction ys) (auto simp: set_insort_key)
  then show ?thesis by (induction xs) auto
qed

lemma encode_canon: "fits 1 v \<Longrightarrow> encode (canon v) = encode v"
  using canon_fits [of 1 v] by (simp add: encode_def encode_spec)

lemma well_formed_canon: "well_formed d v \<Longrightarrow> 0 < d \<Longrightarrow> well_formed d (canon v)"
proof (induction d v rule: well_formed.induct)
  case (4 d es)
  have enc: "encode (canon (fst e)) = encode (fst e)" if "e \<in> set es" for e
    using that 4(3) encode_canon well_formed_fits [of "d + 1" "fst e" 1] by simp
  have "map (encode \<circ> fst) (map (\<lambda>e. (canon (fst e), canon (snd e))) es) = map (encode \<circ> fst) es"
    using enc by simp
  then have "distinct (map (encode \<circ> fst) (sort_key key_order (map (\<lambda>e. (canon (fst e), canon (snd e))) es)))"
    using 4(3) unfolding distinct_sort_map by (simp only: well_formed.simps)
  then show ?case using 4 by auto
qed auto

section \<open>Items as a self-delimiting codec\<close>

definition cbor_step :: "bytes \<Rightarrow> (Value \<times> bytes) option" where
  "cbor_step bs =
     (if length bs \<le> usize_max
      then (case parse_item bs of Inr (v, n) \<Rightarrow> Some (v, drop n bs) | Inl _ \<Rightarrow> None) else None)"

lemma parse_item_iff:
  "length bs \<le> usize_max \<Longrightarrow>
     parse_item bs = Inr (v, n) \<longleftrightarrow> well_formed 1 v \<and> n = length (wire v) \<and> take n bs = wire v"
  by (auto simp: parse_item_def parse_iff(1) slice_at_def)

interpretation cbor_items: prefix_codec wire cbor_step "well_formed 1" "\<lambda>bs. length bs \<le> usize_max"
proof
  fix x rest
  assume "well_formed 1 x" "length (wire x @ rest) \<le> usize_max"
  then have "parse_item (wire x @ rest) = Inr (x, length (wire x))" by (simp add: parse_item_iff)
  then show "cbor_step (wire x @ rest) = Some (x, rest)"
    using \<open>length (wire x @ rest) \<le> usize_max\<close> by (simp add: cbor_step_def)
next
  fix bs x rest
  assume s: "cbor_step bs = Some (x, rest)"
  then obtain n where "parse_item bs = Inr (x, n)" "rest = drop n bs" "length bs \<le> usize_max"
    by (auto simp: cbor_step_def split: if_splits sum.splits)
  then show "well_formed 1 x \<and> bs = wire x @ rest"
    by (auto simp: parse_item_iff) (metis append_take_drop_id)
qed simp_all

lemma wire_inj:
  assumes "well_formed 1 v" "well_formed 1 w" "length (wire v) \<le> usize_max" "wire v = wire w"
  shows "v = w"
  using cbor_items.enc_prefix_free [of v w "[]" "[]"] assms by simp

lemma parse_errors:
  "parse_at bs pos d = Inl e \<Longrightarrow> e = cbor_invalid \<or> e = cbor_limit"
  "parse_items bs pos d n = Inl e \<Longrightarrow> e = cbor_invalid \<or> e = cbor_limit"
  "parse_entries bs pos d n seen = Inl e \<Longrightarrow> e = cbor_invalid \<or> e = cbor_limit"
proof (induction bs pos d and bs pos d n and bs pos d n seen arbitrary: e and e and e
    rule: parse_at_parse_items_parse_entries.induct)
  case (1 bs pos depth)
  have arg: "e = cbor_invalid" if "parse_argument bs pos i = Inl e" for i e
    using that by (auto simp: parse_argument_def read_be_def result_simps Let_def split: if_splits)
  show ?case
  proof (cases "depth > MAX_DEPTH")
    case True
    then show ?thesis using 1(3) by (simp add: parse_at.simps)
  next
    case False
    show ?thesis
    proof (cases "get_at bs pos")
      case None
      then show ?thesis using False 1(3) by (simp add: parse_at.simps)
    next
      case (Some i)
      let ?m = "drop_bit 5 i" and ?arg = "parse_argument bs pos (i AND 0x1f)"
      show ?thesis
      proof (cases "?m = 6 \<or> ?m = 7 \<or> (\<exists>e. ?arg = Inl e)")
        case True
        then show ?thesis
          using False Some 1(3) arg [of "i AND 0x1f"]
          by (auto simp: parse_at.simps [of bs pos] simple_value_def Let_def split: if_splits)
      next
        case m: False
        then obtain a p where ap: "?arg = Inr (a, p)" by (cases ?arg) auto
        have ih4: "e = cbor_invalid \<or> e = cbor_limit"
          if "?m = 4" "unat a \<le> length bs - p" "parse_items bs p (depth + 1) (unat a) = Inl e" for e
          using 1(1) [OF False, of i ?m "i AND 0x1f" "(a, p)" a p e] Some ap that by simp
        have ih5: "e = cbor_invalid \<or> e = cbor_limit"
          if "?m = 5" "unat a \<le> (length bs - p) div 2" "parse_entries bs p (depth + 1) (unat a) [] = Inl e" for e
          using 1(2) [OF False, of i ?m "i AND 0x1f" "(a, p)" a p e] Some ap that by simp
        show ?thesis
          using False Some 1(3) m ap ih4 [of e] ih5 [of e]
          by (cases rule: major_cases [of i])
            (auto simp: parse_at.simps [of bs pos] take_slice_def Let_def result_simps split: if_splits)
      qed
    qed
  qed
next
  case (3 bs cursor depth n)
  show ?case
  proof (cases "parse_at bs cursor depth")
    case (Inl e')
    then show ?thesis using 3(1,3) by auto
  next
    case (Inr xp)
    obtain x p where "xp = (x, p)" by fastforce
    then show ?thesis using 3(2) [OF Inr] 3(3) Inr by (auto simp: result_simps)
  qed
next
  case (5 bs cursor depth n seen)
  show ?case
  proof (cases "parse_at bs cursor depth")
    case (Inl e')
    then show ?thesis using 5 by auto
  next
    case (Inr kp)
    obtain key p where kp: "kp = (key, p)" by fastforce
    show ?thesis
    proof (cases "encode key")
      case e: (Inr kb)
      show ?thesis
      proof (cases "kb \<in> set seen \<or> (\<exists>e. parse_at bs p depth = Inl e)")
        case True
        have "e' = cbor_invalid \<or> e' = cbor_limit" if "kb \<notin> set seen" "parse_at bs p depth = Inl e'" for e'
          using 5(2) [OF Inr kp [symmetric] _ that(1) that(2)] e by simp
        with True show ?thesis using 5(4) Inr kp e by (auto split: if_splits)
      next
        case False
        then obtain v q where vq: "parse_at bs p depth = Inr (v, q)" by (cases "parse_at bs p depth") auto
        then show ?thesis
          using 5(4) 5(3) [OF Inr kp [symmetric] _ _ vq refl, of kb] Inr kp e False by (auto simp: result_simps)
      qed
    qed (use 5(4) Inr kp in auto)
  qed
qed auto

lemma as_int_from_int:
  assumes "i64_range i"
  shows "as_int (from_int i) = Some i"
proof -
  have u: "uint (word_of_int k :: 64 word) = k" if "0 \<le> k" "k < 2 ^ 63" for k
    using that by (simp add: uint_word_of_int)
  show ?thesis
  proof (cases "0 \<le> i")
    case True
    then show ?thesis using assms u [of i] by (simp add: i64_range_def from_int_def)
  next
    case False
    define j where "j = - 1 - i"
    have "i = - 1 - j" "0 \<le> j" "j < 2 ^ 63" using False assms by (auto simp: j_def i64_range_def)
    then show ?thesis using u [of j] by (simp add: from_int_def)
  qed
qed

lemma as_int_eq: "as_int v = Some i \<longleftrightarrow> v = from_int i \<and> i64_range i"
proof
  assume "as_int v = Some i"
  then show "v = from_int i \<and> i64_range i"
  proof (cases v)
    case (Negative n)
    then have n: "i = - 1 - uint n" "uint n \<le> 2 ^ 63 - 1"
      using \<open>as_int v = Some i\<close> by (auto split: if_splits)
    then have "\<not> 0 \<le> i" using uint_ge_0 [of n] by linarith
    with n show ?thesis using Negative by (simp add: from_int_def i64_range_def)
  qed (auto simp: from_int_def i64_range_def split: if_splits)
qed (auto dest: as_int_from_int)

lemma parse_wire:
  assumes "length bs \<le> usize_max"
  shows "parse bs = Inr v \<longleftrightarrow> well_formed 1 v \<and> bs = wire v"
proof -
  have "parse bs = Inr v \<longleftrightarrow> parse_item bs = Inr (v, length bs)"
    by (auto simp: parse_def result_simps split: if_splits)
  then show ?thesis using assms by (auto simp: parse_item_iff)
qed

lemma find_unique:
  "distinct (map fst es) \<Longrightarrow>
     map_option snd (find (\<lambda>(k, _). k = key) es) = Some v \<longleftrightarrow> (key, v) \<in> set es"
  by (induction es) (auto simp: split: if_splits, force+)

lemma option_eqI: "(\<And>v. a = Some v \<longleftrightarrow> b = Some v) \<Longrightarrow> a = b"
  by (metis not_Some_eq)

lemma canon_from_int: "canon k = from_int i \<longleftrightarrow> k = from_int i"
  by (cases k) (auto simp: from_int_def)

lemma map_get_canon:
  assumes "well_formed d v" "0 < d" and key: "\<And>k. canon k = key \<longleftrightarrow> k = key"
  shows "map_get (canon v) key = map_option canon (map_get v key)"
proof (cases v)
  case (Map es)
  let ?c = "\<lambda>e. (canon (fst e), canon (snd e))"
  let ?s = "sort_key key_order (map ?c es)"
  have d: "distinct (map (encode \<circ> fst) es)" "distinct (map (encode \<circ> fst) ?s)"
    using assms(1) well_formed_canon [OF assms(1,2)] Map by simp_all
  have dd: "distinct (map fst es)" "distinct (map fst ?s)"
    using d distinct_map [of encode "map fst es"] distinct_map [of encode "map fst ?s"] by simp_all
  show ?thesis
  proof (rule option_eqI)
    fix w
    have "map_get (canon v) key = Some w \<longleftrightarrow> (key, w) \<in> set ?s"
      using find_unique [OF dd(2), of key w] by (simp only: Map map_get_def canon.simps as_map.simps Option.bind.simps)
    also have "\<dots> \<longleftrightarrow> (\<exists>u. (key, u) \<in> set es \<and> w = canon u)"
    proof -
      have "key = canon k \<longleftrightarrow> k = key" for k using key [of k] by metis
      then show ?thesis by (force simp: image_iff)
    qed
    also have "\<dots> \<longleftrightarrow> map_option canon (map_get v key) = Some w"
      using find_unique [OF dd(1), of key] by (auto simp: Map map_get_def)
    finally show "map_get (canon v) key = Some w \<longleftrightarrow> map_option canon (map_get v key) = Some w" .
  qed
qed (simp_all add: map_get_def)

lemma map_get_int_canon: "well_formed 1 v \<Longrightarrow> map_get_int (canon v) i = map_option canon (map_get_int v i)"
  by (simp add: map_get_int_def map_get_canon canon_from_int)

lemma map_get_text_canon:
  assumes "well_formed d v" "0 < d"
  shows "map_get_text (canon v) t = map_option canon (map_get_text v t)"
proof -
  have "canon k = Text t \<longleftrightarrow> k = Text t" for k by (cases k) simp_all
  then show ?thesis using assms by (simp add: map_get_text_def map_get_canon)
qed

lemma encode_parse:
  assumes "well_formed 1 v" "encode v = Inr bs" "length bs \<le> usize_max"
  shows "parse bs = Inr (canon v)"
  using assms parse_wire [of bs "canon v"] well_formed_canon [OF assms(1)] well_formed_encode [OF assms(1)] by simp

section \<open>Properties\<close>

text \<open>C4: the CBOR parser accepts exactly one byte string per value, and only well-formed ones: for a
  buffer of any length a slice can have, \<open>parse\<close> returns a value exactly when the buffer is that
  value's shortest-form, definite-length, order-preserving serialisation and the value respects the
  depth limit, UTF-8 validity and the uniqueness of map keys by canonical encoding. Every rejection
  is one of the two documented errors.\<close>

theorem cbor_parse_exact:
  assumes "length bs \<le> usize_max"
  shows "(parse bs = Inr v \<longleftrightarrow> well_formed 1 v \<and> bs = wire v)
    \<and> (\<forall>e. parse bs = Inl e \<longrightarrow> e = cbor_invalid \<or> e = cbor_limit)"
proof -
  have "parse bs = Inr v \<longleftrightarrow> well_formed 1 v \<and> bs = wire v" using assms by (rule parse_wire)
  moreover have "e = cbor_invalid \<or> e = cbor_limit" if "parse bs = Inl e" for e
    using that by (auto simp: parse_def parse_item_def result_simps split: if_splits dest: parse_errors(1))
  ultimately show ?thesis by blast
qed

theorem cbor_parse_exact_witness:
  "parse [0xa2, 0x61, 0x62, 0x01, 0x03, 0x82, 0x20, 0xf5]
     = Inr (Map [(Text [0x62], Unsigned 1), (Unsigned 3, Array [Negative 0, Bool True])])"
proof -
  let ?bs = "[0xa2, 0x61, 0x62, 0x01, 0x03, 0x82, 0x20, 0xf5] :: bytes"
  let ?v = "Map [(Text [0x62], Unsigned 1), (Unsigned 3, Array [Negative 0, Bool True])]"
  have "length ?bs \<le> usize_max" by (simp add: usize_max_def)
  moreover have "well_formed 1 ?v"
    by (simp add: MAX_DEPTH_def encode_def encode_into.simps head_def)
  moreover have "?bs = wire ?v" by (simp add: head_def)
  ultimately show ?thesis using cbor_parse_exact [of ?bs ?v] by blast
qed

text \<open>Encoding is total on values within the depth limit, fails otherwise with the documented error,
  and produces a canonical form: the encoding of a well-formed value parses back to the value with
  its maps in canonical key order, integer lookups find the same entries there, re-encoding gives
  the same bytes, and two values have the same encoding exactly when they are equal up to the order
  of their maps.\<close>

theorem cbor_encode_canonical:
  assumes "well_formed 1 v" "well_formed 1 w" "encode v = Inr bs" "length bs \<le> usize_max"
  shows "parse bs = Inr (canon v) \<and> encode (canon v) = Inr bs
    \<and> (\<forall>i. map_get_int (canon v) i = map_option canon (map_get_int v i))
    \<and> (encode w = encode v \<longleftrightarrow> canon w = canon v)"
proof -
  have enc: "encode v = Inr (wire (canon v))" "encode w = Inr (wire (canon w))"
    using assms(1,2) well_formed_encode by auto
  have wf: "well_formed 1 (canon v)" "well_formed 1 (canon w)" using assms(1,2) well_formed_canon by simp_all
  have "parse_item bs = Inr (canon v, length bs)"
    using assms(3,4) enc(1) wf(1) by (simp add: parse_item_iff)
  then have "parse bs = Inr (canon v)" by (simp add: parse_def)
  moreover have "encode (canon v) = Inr bs" using well_formed_encode [OF wf(1)] assms(3) enc(1) by simp
  moreover have "encode w = encode v \<longleftrightarrow> canon w = canon v"
    using wire_inj [OF wf] assms(3,4) enc by (metis Inr_inject)
  ultimately show ?thesis using map_get_int_canon [OF assms(1)] by blast
qed

theorem cbor_encode_canonical_witness:
  "encode (Map [(Text [0x62], Null), (Unsigned 3, Bool True)]) = Inr [0xa2, 0x03, 0xf5, 0x61, 0x62, 0xf6]
   \<and> parse [0xa2, 0x03, 0xf5, 0x61, 0x62, 0xf6] = Inr (Map [(Unsigned 3, Bool True), (Text [0x62], Null)])
   \<and> encode (Map [(Unsigned 3, Bool True), (Text [0x62], Null)]) = Inr [0xa2, 0x03, 0xf5, 0x61, 0x62, 0xf6]"
proof -
  let ?v = "Map [(Text [0x62], Null), (Unsigned 3, Bool True)]"
  let ?bs = "[0xa2, 0x03, 0xf5, 0x61, 0x62, 0xf6] :: bytes"
  have wf: "well_formed 1 ?v" by (simp add: MAX_DEPTH_def encode_def encode_into.simps head_def)
  have e: "encode ?v = Inr ?bs" by (simp add: encode_def encode_into.simps head_def MAX_DEPTH_def)
  have c: "canon ?v = Map [(Unsigned 3, Bool True), (Text [0x62], Null)]" by (simp add: key_order_def head_def)
  show ?thesis
    using cbor_encode_canonical [OF wf wf e] e c by (simp add: usize_max_def)
qed

text \<open>The encoder's depth limit is exact: \<open>encode\<close> succeeds on exactly the values whose nesting stays
  within the limit, whatever their content, and otherwise fails as LimitExceeded in the construction
  phase; everything the parser returned can be encoded, and re-encodes to the bytes it was parsed
  from exactly when its maps were in canonical order.\<close>

theorem cbor_encode_total:
  "(\<exists>bs. encode v = Inr bs) = fits 1 v \<and> (\<not> fits 1 v \<longrightarrow> encode v = Inl limit_construction)
   \<and> (\<forall>bs. length bs \<le> usize_max \<longrightarrow> parse bs = Inr v \<longrightarrow> fits 1 v \<and> (encode v = Inr bs \<longleftrightarrow> canon v = v))"
proof -
  have "fits 1 v \<and> (encode v = Inr bs \<longleftrightarrow> canon v = v)" if "length bs \<le> usize_max" "parse bs = Inr v" for bs
  proof -
    have v: "well_formed 1 v" "bs = wire v" using that parse_wire [of bs v] by simp_all
    then have "encode v = Inr bs \<longleftrightarrow> wire v = wire (canon v)"
      using well_formed_encode [of 1 v] by auto
    also have "\<dots> \<longleftrightarrow> canon v = v"
      using v that(1) well_formed_canon [of 1 v] wire_inj [of v "canon v"] by (metis zero_less_one)
    finally show ?thesis using well_formed_fits [OF v(1)] by simp
  qed
  moreover have "(\<exists>bs. encode v = Inr bs) = fits 1 v" "\<not> fits 1 v \<Longrightarrow> encode v = Inl limit_construction"
    by (auto simp: encode_def encode_spec)
  ultimately show ?thesis by blast
qed

theorem cbor_encode_total_witness:
  "parse [0xa1, 0x61, 0x62, 0xf6] = Inr (Map [(Text [0x62], Null)]) \<and> fits 1 (Map [(Text [0x62], Null)])"
proof -
  have p: "parse [0xa1, 0x61, 0x62, 0xf6] = Inr (Map [(Text [0x62], Null)])"
    by (simp add: parse_def parse_item_def parse_at.simps get_at_def parse_argument_def take_slice_def
        simple_value_def MAX_DEPTH_def encode_def encode_into.simps head_def drop_bit_eq_div)
  then show ?thesis
    using cbor_encode_total [of "Map [(Text [0x62], Null)]"] by (auto simp: usize_max_def)
qed

end
