(* ===== verification/Cose.thy ===== *)
theory Cose
  imports Cbor
begin

text \<open>
  COSE public keys (\<open>canokey-ctap/src/cose.rs\<close>) and \<open>authenticatorData\<close>
  (\<open>canokey-ctap/src/authdata.rs\<close>), the structures the CTAP2 client takes from CBOR items. A 32-byte
  array is a byte list whose length \<open>fixed_bytes\<close> has checked; an \<open>i64\<close> is an \<open>int\<close>.
\<close>

unbundle bit_operations_syntax

section \<open>Algorithms\<close>

definition ML_DSA_44_PUBLIC_LEN :: nat where "ML_DSA_44_PUBLIC_LEN = 1312"

definition ML_DSA_65_PUBLIC_LEN :: nat where "ML_DSA_65_PUBLIC_LEN = 1952"

definition ML_DSA_87_PUBLIC_LEN :: nat where "ML_DSA_87_PUBLIC_LEN = 2592"

datatype CoseAlgorithm = Es256 | Ed25519 | MlDsa44 | MlDsa65 | MlDsa87 | EcdhEsHkdf256 | UnknownAlg int

definition CoseAlgorithm_from_id :: "int \<Rightarrow> CoseAlgorithm" where
  "CoseAlgorithm_from_id i =
     (if i = -7 \<or> i = -9 then Es256
      else if i = -8 \<or> i = -19 then Ed25519
      else if i = -48 then MlDsa44
      else if i = -49 then MlDsa65
      else if i = -50 then MlDsa87
      else if i = -25 then EcdhEsHkdf256
      else UnknownAlg i)"

fun CoseAlgorithm_id :: "CoseAlgorithm \<Rightarrow> int" where
  "CoseAlgorithm_id Es256 = -7"
| "CoseAlgorithm_id Ed25519 = -8"
| "CoseAlgorithm_id MlDsa44 = -48"
| "CoseAlgorithm_id MlDsa65 = -49"
| "CoseAlgorithm_id MlDsa87 = -50"
| "CoseAlgorithm_id EcdhEsHkdf256 = -25"
| "CoseAlgorithm_id (UnknownAlg i) = i"

fun is_signature :: "CoseAlgorithm \<Rightarrow> bool" where
  "is_signature EcdhEsHkdf256 = False"
| "is_signature (UnknownAlg _) = False"
| "is_signature _ = True"

section \<open>Keys\<close>

datatype CoseKey =
    P256 CoseAlgorithm bytes bytes
  | Ed25519Key bytes
  | MlDsa CoseAlgorithm bytes
  | UnknownKey Value

definition fixed_bytes :: "Value option \<Rightarrow> bytes res" where
  "fixed_bytes v =
     bindE (ok_or (Option.bind v as_bytes) cbor_invalid) (\<lambda>bs.
       if length bs = 32 then Inr bs else Inl cbor_invalid)"

definition label_int :: "Value \<Rightarrow> int \<Rightarrow> int res" where
  "label_int v label = ok_or (Option.bind (map_get_int v label) as_int) cbor_invalid"

definition CoseKey_from_value :: "Value \<Rightarrow> CoseKey res" where
  "CoseKey_from_value v =
     (if as_map v = None then Inl cbor_invalid
      else bindE (label_int v 1) (\<lambda>kty.
        bindE (label_int v 3) (\<lambda>alg_id.
          let algorithm = CoseAlgorithm_from_id alg_id in
          case algorithm of
            UnknownAlg _ \<Rightarrow> Inr (UnknownKey v)
          | Ed25519 \<Rightarrow>
              if kty \<noteq> 1 \<or> map_get_int v (-4) \<noteq> None then Inl cbor_invalid
              else bindE (label_int v (-1)) (\<lambda>crv.
                   bindE (fixed_bytes (map_get_int v (-2))) (\<lambda>x.
                   if crv \<noteq> 6 then Inl cbor_invalid else Inr (Ed25519Key x)))
          | _ \<Rightarrow>
              if algorithm = Es256 \<or> algorithm = EcdhEsHkdf256 then
                (if kty \<noteq> 2 \<or> map_get_int v (-4) \<noteq> None then Inl cbor_invalid
                 else bindE (label_int v (-1)) (\<lambda>crv.
                      bindE (fixed_bytes (map_get_int v (-2))) (\<lambda>x.
                      bindE (fixed_bytes (map_get_int v (-3))) (\<lambda>y.
                      if crv \<noteq> 1 then Inl cbor_invalid else Inr (P256 algorithm x y)))))
              else
                (if kty \<noteq> 7 \<or> map_get_int v (-2) \<noteq> None then Inl cbor_invalid
                 else bindE (ok_or (Option.bind (map_get_int v (-1)) as_bytes) cbor_invalid) (\<lambda>public.
                   let expected = (case algorithm of MlDsa44 \<Rightarrow> ML_DSA_44_PUBLIC_LEN
                                   | MlDsa65 \<Rightarrow> ML_DSA_65_PUBLIC_LEN | _ \<Rightarrow> ML_DSA_87_PUBLIC_LEN) in
                   if length public \<noteq> expected then Inl cbor_invalid else Inr (MlDsa algorithm public))))))"

fun CoseKey_algorithm :: "CoseKey \<Rightarrow> CoseAlgorithm option" where
  "CoseKey_algorithm (P256 a _ _) = Some a"
| "CoseKey_algorithm (MlDsa a _) = Some a"
| "CoseKey_algorithm (Ed25519Key _) = Some Ed25519"
| "CoseKey_algorithm (UnknownKey _) = None"

fun CoseKey_to_value :: "CoseKey \<Rightarrow> Value" where
  "CoseKey_to_value (P256 a x y) =
     Map [(from_int 1, from_int 2), (from_int 3, from_int (CoseAlgorithm_id a)), (from_int (-1), from_int 1),
          (from_int (-2), Bytes x), (from_int (-3), Bytes y)]"
| "CoseKey_to_value (Ed25519Key x) =
     Map [(from_int 1, from_int 1), (from_int 3, from_int (CoseAlgorithm_id Ed25519)),
          (from_int (-1), from_int 6), (from_int (-2), Bytes x)]"
| "CoseKey_to_value (MlDsa a p) =
     Map [(from_int 1, from_int 7), (from_int 3, from_int (CoseAlgorithm_id a)), (from_int (-1), Bytes p)]"
| "CoseKey_to_value (UnknownKey m) = m"

section \<open>Authenticator data\<close>

definition MIN_LEN :: nat where "MIN_LEN = 37"

definition MAX_LEN :: nat where "MAX_LEN = 65536"

definition MAX_CREDENTIAL_ID_LEN :: nat where "MAX_CREDENTIAL_ID_LEN = 1023"

record AttestedCredentialData =
  ac_aaguid :: bytes
  ac_credential_id :: bytes
  ac_credential_public_key :: CoseKey

record AuthenticatorData =
  ad_raw :: bytes
  ad_rp_id_hash :: bytes
  ad_flags :: byte
  ad_sign_count :: "32 word"
  ad_attested_credential_data :: "AttestedCredentialData option"
  ad_extensions :: "Value option"

definition FLAG_UP :: byte where "FLAG_UP = 0x01"

definition FLAG_UV :: byte where "FLAG_UV = 0x04"

definition FLAG_BE :: byte where "FLAG_BE = 0x08"

definition FLAG_BS :: byte where "FLAG_BS = 0x10"

definition FLAG_AT :: byte where "FLAG_AT = 0x40"

definition FLAG_ED :: byte where "FLAG_ED = 0x80"

text \<open>The two optional sections of \<open>parse\<close>; each takes and returns the position.\<close>

definition parse_attested :: "bytes \<Rightarrow> nat \<Rightarrow> (AttestedCredentialData \<times> nat) res" where
  "parse_attested bs pos =
     bindE (ok_or (get_range bs pos (pos + 18)) cbor_invalid) (\<lambda>header.
       let id_len = unat (from_be [header ! 16, header ! 17] :: 16 word) in
       if \<not> (1 \<le> id_len \<and> id_len \<le> MAX_CREDENTIAL_ID_LEN) then Inl cbor_invalid
       else
         (let p = pos + 18 in
          bindE (ok_or (get_range bs p (p + id_len)) cbor_invalid) (\<lambda>credential_id.
          let q = p + id_len in
          bindE (parse_item (drop q bs)) (\<lambda>(key_value, consumed).
          bindE (CoseKey_from_value key_value) (\<lambda>key.
          Inr (\<lparr>ac_aaguid = take 16 header, ac_credential_id = credential_id,
                 ac_credential_public_key = key\<rparr>, q + consumed))))))"

definition parse_extensions :: "bytes \<Rightarrow> nat \<Rightarrow> (Value \<times> nat) res" where
  "parse_extensions bs pos =
     bindE (parse_item (drop pos bs)) (\<lambda>(v, consumed).
     bindE (ok_or (as_map v) cbor_invalid) (\<lambda>entries.
       if \<exists>e \<in> set entries. as_text (fst e) = None then Inl cbor_invalid
       else Inr (v, pos + consumed)))"

definition AuthenticatorData_parse :: "bytes \<Rightarrow> AuthenticatorData res" where
  "AuthenticatorData_parse bs =
     (if length bs < MIN_LEN \<or> length bs > MAX_LEN then Inl cbor_invalid
      else
        (let flags = bs ! 32 in
         if flags AND FLAG_BS \<noteq> 0 \<and> flags AND FLAG_BE = 0 then Inl cbor_invalid
         else bindE (if flags AND FLAG_AT \<noteq> 0
                     then bindE (parse_attested bs 37) (\<lambda>(a, p). Inr (Some a, p)) else Inr (None, 37)) (\<lambda>(att, p).
           bindE (if flags AND FLAG_ED \<noteq> 0
                  then bindE (parse_extensions bs p) (\<lambda>(v, q). Inr (Some v, q)) else Inr (None, p)) (\<lambda>(ext, q).
           if q \<noteq> length bs then Inl cbor_invalid
           else Inr \<lparr>ad_raw = bs, ad_rp_id_hash = take 32 bs, ad_flags = flags,
                     ad_sign_count = from_be (take 4 (drop 33 bs)), ad_attested_credential_data = att,
                     ad_extensions = ext\<rparr>))))"

definition user_present :: "AuthenticatorData \<Rightarrow> bool" where
  "user_present a \<longleftrightarrow> ad_flags a AND FLAG_UP \<noteq> 0"

definition user_verified :: "AuthenticatorData \<Rightarrow> bool" where
  "user_verified a \<longleftrightarrow> ad_flags a AND FLAG_UV \<noteq> 0"

definition backup_eligible :: "AuthenticatorData \<Rightarrow> bool" where
  "backup_eligible a \<longleftrightarrow> ad_flags a AND FLAG_BE \<noteq> 0"

definition backed_up :: "AuthenticatorData \<Rightarrow> bool" where
  "backed_up a \<longleftrightarrow> ad_flags a AND FLAG_BS \<noteq> 0"

section \<open>Round trip of keys\<close>

text \<open>The keys \<open>from_value\<close> can return.\<close>

fun key_ok :: "CoseKey \<Rightarrow> bool" where
  "key_ok (P256 a x y) \<longleftrightarrow> (a = Es256 \<or> a = EcdhEsHkdf256) \<and> length x = 32 \<and> length y = 32"
| "key_ok (Ed25519Key x) \<longleftrightarrow> length x = 32"
| "key_ok (MlDsa a p) \<longleftrightarrow>
     (a = MlDsa44 \<and> length p = ML_DSA_44_PUBLIC_LEN \<or> a = MlDsa65 \<and> length p = ML_DSA_65_PUBLIC_LEN
      \<or> a = MlDsa87 \<and> length p = ML_DSA_87_PUBLIC_LEN)"
| "key_ok (UnknownKey v) \<longleftrightarrow>
     (\<exists>es kty i. v = Map es \<and> label_int v 1 = Inr kty \<and> label_int v 3 = Inr i
        \<and> CoseAlgorithm_from_id i = UnknownAlg i)"

lemma fixed_bytes_Inr: "fixed_bytes v = Inr x \<longleftrightarrow> v = Some (Bytes x) \<and> length x = 32"
proof -
  have "as_bytes u = Some x \<longleftrightarrow> u = Bytes x" for u by (cases u) auto
  then show ?thesis by (auto simp: fixed_bytes_def result_simps Option.bind_eq_Some_conv)
qed

lemma label_int_Inr: "label_int v l = Inr i \<longleftrightarrow> map_get_int v l = Some (from_int i) \<and> i64_range i"
  by (auto simp: label_int_def result_simps Option.bind_eq_Some_conv as_int_eq)

lemma from_id_cases:
  "CoseAlgorithm_from_id i = UnknownAlg j \<Longrightarrow> j = i"
  "CoseAlgorithm_from_id i \<noteq> Ed25519 \<or> i = -8 \<or> i = -19"
  by (auto simp: CoseAlgorithm_from_id_def split: if_splits)

lemma from_id_id: "CoseAlgorithm_from_id (CoseAlgorithm_id (CoseAlgorithm_from_id i)) = CoseAlgorithm_from_id i"
  by (simp add: CoseAlgorithm_from_id_def)

lemma as_map_Some: "as_map v = Some es \<longleftrightarrow> v = Map es"
  by (cases v) auto

lemma from_value_key_ok:
  assumes "CoseKey_from_value v = Inr k"
  shows "key_ok k"
proof -
  obtain kty i where l: "label_int v 1 = Inr kty" "label_int v 3 = Inr i" and m: "as_map v \<noteq> None"
    using assms by (auto simp: CoseKey_from_value_def result_simps split: if_splits)
  obtain es where "v = Map es" using m by (cases v) auto
  then show ?thesis
    using assms l
    by (cases "CoseAlgorithm_from_id i")
      (auto simp: CoseKey_from_value_def result_simps fixed_bytes_Inr Let_def split: if_splits
        dest: from_id_cases(1))
qed

lemma from_int_inj: "i64_range i \<Longrightarrow> i64_range j \<Longrightarrow> from_int i = from_int j \<longleftrightarrow> i = j"
  using as_int_from_int by (metis option.inject)

lemma i64_small [simp]: "i64_range (numeral n) \<longleftrightarrow> (numeral n :: int) < 2 ^ 63"
  "i64_range (- numeral n) \<longleftrightarrow> - (2 ^ 63) \<le> (- numeral n :: int)" "i64_range 0" "i64_range 1" "i64_range (- 1)"
  by (simp_all add: i64_range_def)

lemma to_value_from_value:
  assumes "key_ok k"
  shows "CoseKey_from_value (CoseKey_to_value k) = Inr k"
proof (cases k)
  case (UnknownKey v)
  then show ?thesis using assms by (auto simp: CoseKey_from_value_def)
qed (use assms in \<open>auto simp: CoseKey_from_value_def label_int_def map_get_int_def map_get_def fixed_bytes_def
      from_int_inj as_int_from_int CoseAlgorithm_from_id_def\<close>)

section \<open>The layout of authenticator data\<close>

fun attested_section :: "AttestedCredentialData option \<Rightarrow> bytes \<Rightarrow> bool" where
  "attested_section None w \<longleftrightarrow> w = []"
| "attested_section (Some c) w \<longleftrightarrow>
     (\<exists>key_value. w = ac_aaguid c @ to_be_bytes 2 (of_nat (length (ac_credential_id c)) :: 16 word)
                      @ ac_credential_id c @ wire key_value
        \<and> length (ac_aaguid c) = 16 \<and> 1 \<le> length (ac_credential_id c)
        \<and> length (ac_credential_id c) \<le> MAX_CREDENTIAL_ID_LEN
        \<and> well_formed 1 key_value \<and> CoseKey_from_value key_value = Inr (ac_credential_public_key c))"

fun extension_section :: "Value option \<Rightarrow> bytes \<Rightarrow> bool" where
  "extension_section None w \<longleftrightarrow> w = []"
| "extension_section (Some v) w \<longleftrightarrow>
     w = wire v \<and> well_formed 1 v \<and> (\<exists>es. v = Map es \<and> (\<forall>e \<in> set es. as_text (fst e) \<noteq> None))"

lemma get_range_slice:
  "pos \<le> length bs \<Longrightarrow> get_range bs pos (pos + n) = Some x \<longleftrightarrow> length x = n \<and> slice_at bs pos (pos + n) x"
  by (auto simp: get_range_def slice_at_def)

lemma parse_item_slice:
  assumes "length bs \<le> usize_max" "q \<le> length bs"
  shows "parse_item (drop q bs) = Inr (v, n) \<longleftrightarrow> well_formed 1 v \<and> slice_at bs q (q + n) (wire v)"
  using assms by (auto simp: parse_item_iff slice_at_def)

lemma slice_at_length: "slice_at bs pos e w \<Longrightarrow> e = pos + length w"
  by (simp add: slice_at_def)

lemma parse_extensions_iff:
  assumes "length bs \<le> usize_max" "pos \<le> length bs"
  shows "parse_extensions bs pos = Inr (v, e) \<longleftrightarrow> extension_section (Some v) (wire v) \<and> slice_at bs pos e (wire v)"
proof -
  have "parse_extensions bs pos = Inr (v, e) \<longleftrightarrow>
      (\<exists>n es. parse_item (drop pos bs) = Inr (v, n) \<and> v = Map es \<and> (\<forall>e \<in> set es. as_text (fst e) \<noteq> None) \<and> e = pos + n)"
    by (auto simp: parse_extensions_def result_simps as_map_Some split: if_splits)
  then show ?thesis
    by (auto simp: parse_item_slice [OF assms] dest: slice_at_length) (auto simp: slice_at_def)
qed

text \<open>The header of the attested credential data is the identifier's length after the AAGUID.\<close>

lemma header_split:
  assumes "length h = 18"
  shows "h = take 16 h @ to_be_bytes 2 (from_be [h ! 16, h ! 17] :: 16 word)"
proof -
  have "drop 16 h = [h ! 16, h ! 17]"
    using assms by (intro nth_equalityI) (auto simp: less_Suc_eq numeral_eq_Suc)
  moreover have "to_be_bytes 2 (from_be [h ! 16, h ! 17] :: 16 word) = [h ! 16, h ! 17]"
    using to_be_bytes_from_be [of "[h ! 16, h ! 17]", where 'a = 16] by (simp add: numeral_2_eq_2)
  ultimately show ?thesis by (metis append_take_drop_id)
qed

lemma parse_attested_iff:
  assumes "length bs \<le> usize_max" "pos \<le> length bs"
  shows "parse_attested bs pos = Inr (c, e) \<longleftrightarrow> (\<exists>w. attested_section (Some c) w \<and> slice_at bs pos e w)"
proof
  assume "parse_attested bs pos = Inr (c, e)"
  then obtain h cid kv n key where h: "get_range bs pos (pos + 18) = Some h"
    and len: "1 \<le> unat (from_be [h ! 16, h ! 17] :: 16 word)"
      "unat (from_be [h ! 16, h ! 17] :: 16 word) \<le> MAX_CREDENTIAL_ID_LEN"
    and cid: "get_range bs (pos + 18) (pos + 18 + unat (from_be [h ! 16, h ! 17] :: 16 word)) = Some cid"
    and kv: "parse_item (drop (pos + 18 + unat (from_be [h ! 16, h ! 17] :: 16 word)) bs) = Inr (kv, n)"
    and key: "CoseKey_from_value kv = Inr key"
    and c: "c = \<lparr>ac_aaguid = take 16 h, ac_credential_id = cid, ac_credential_public_key = key\<rparr>"
      "e = pos + 18 + unat (from_be [h ! 16, h ! 17] :: 16 word) + n"
    by (auto simp: parse_attested_def bindE_eq_Inr ok_or_eq_Inr Let_def split: if_splits)
  let ?n = "unat (from_be [h ! 16, h ! 17] :: 16 word)"
  have hs: "length h = 18" "slice_at bs pos (pos + 18) h" using h get_range_slice [OF assms(2)] by auto
  then have b1: "pos + 18 \<le> length bs" using slice_at_bound by blast
  have cs: "length cid = ?n" "slice_at bs (pos + 18) (pos + 18 + ?n) cid"
    using cid get_range_slice [OF b1] by auto
  then have b2: "pos + 18 + ?n \<le> length bs" using slice_at_bound by blast
  have ks: "well_formed 1 kv" "slice_at bs (pos + 18 + ?n) e (wire kv)"
    using kv parse_item_slice [OF assms(1) b2] c(2) by auto
  have sl: "slice_at bs pos e (h @ cid @ wire kv)"
    using hs(2) cs(2) ks(2) unfolding slice_at_append by blast
  have eq: "(of_nat (length cid) :: 16 word) = from_be [h ! 16, h ! 17]" using cs(1) by simp
  have c': "ac_aaguid c = take 16 h" "ac_credential_id c = cid" "ac_credential_public_key c = key"
    by (simp_all add: c(1))
  have "h = ac_aaguid c @ to_be_bytes 2 (of_nat (length (ac_credential_id c)) :: 16 word)"
    unfolding c' eq by (rule header_split [OF hs(1)])
  then have "h @ cid @ wire kv = ac_aaguid c @ to_be_bytes 2 (of_nat (length (ac_credential_id c)) :: 16 word)
      @ ac_credential_id c @ wire kv"
    by (metis append.assoc c'(2))
  moreover have "length (ac_aaguid c) = 16" using c'(1) hs(1) by simp
  ultimately have "attested_section (Some c) (h @ cid @ wire kv)"
    unfolding attested_section.simps
    by (intro exI [of _ kv] conjI) (use len cs(1) ks(1) key c'(2,3) in simp_all)
  then show "\<exists>w. attested_section (Some c) w \<and> slice_at bs pos e w" using sl by blast
next
  assume "\<exists>w. attested_section (Some c) w \<and> slice_at bs pos e w"
  then obtain kv where kv: "slice_at bs pos e (ac_aaguid c @ to_be_bytes 2 (of_nat (length (ac_credential_id c)) :: 16 word)
        @ ac_credential_id c @ wire kv)"
    and w: "length (ac_aaguid c) = 16" "1 \<le> length (ac_credential_id c)"
      "length (ac_credential_id c) \<le> MAX_CREDENTIAL_ID_LEN" "well_formed 1 kv"
      "CoseKey_from_value kv = Inr (ac_credential_public_key c)"
    by auto
  let ?id = "ac_credential_id c"
  define h where "h = ac_aaguid c @ to_be_bytes 2 (of_nat (length ?id) :: 16 word)"
  have "slice_at bs pos e (h @ ?id @ wire kv)" using kv by (simp add: h_def)
  then obtain p q where hs: "slice_at bs pos p h" and cs: "slice_at bs p q ?id" and ks: "slice_at bs q e (wire kv)"
    unfolding slice_at_append by blast
  have lh: "length h = 18" using w(1) by (simp add: h_def)
  have pq: "p = pos + 18" "q = p + length ?id" "p \<le> length bs" "q \<le> length bs" "e = q + length (wire kv)"
    using hs cs ks lh slice_at_length slice_at_bound by (metis, blast+)
  have "[h ! 16, h ! 17] = to_be_bytes 2 (of_nat (length ?id) :: 16 word)"
    using w(1) by (simp add: h_def nth_append to_be_bytes_numeral)
  then have n: "unat (from_be [h ! 16, h ! 17] :: 16 word) = length ?id"
    using w(3) from_be_to_be_bytes [of "of_nat (length ?id) :: 16 word" 2]
    by (simp add: unat_of_nat MAX_CREDENTIAL_ID_LEN_def)
  have "get_range bs pos (pos + 18) = Some h" "get_range bs p (p + length ?id) = Some ?id"
    using get_range_slice [OF assms(2)] get_range_slice [OF pq(3)] hs cs lh pq by auto
  moreover have "parse_item (drop q bs) = Inr (kv, length (wire kv))"
    using parse_item_slice [OF assms(1) pq(4)] ks w(4) pq(5) by simp
  moreover have "take 16 h = ac_aaguid c" using w(1) by (simp add: h_def)
  ultimately show "parse_attested bs pos = Inr (c, e)"
    using n w pq by (simp add: parse_attested_def Let_def)
qed

lemma optional_attested:
  assumes "length bs \<le> usize_max" "pos \<le> length bs"
  shows "(if flag then bindE (parse_attested bs pos) (\<lambda>(a, p). Inr (Some a, p)) else Inr (None, pos)) = Inr (att, p)
    \<longleftrightarrow> (flag \<longleftrightarrow> att \<noteq> None) \<and> (\<exists>w. attested_section att w \<and> slice_at bs pos p w)"
proof (cases att)
  case None
  then show ?thesis using assms(2) by (auto simp: result_simps slice_at_Nil)
next
  case (Some c)
  then show ?thesis
    using parse_attested_iff [OF assms, of c p] by (auto simp: bindE_eq_Inr simp del: attested_section.simps)
qed

lemma optional_extensions:
  assumes "length bs \<le> usize_max" "pos \<le> length bs"
  shows "(if flag then bindE (parse_extensions bs pos) (\<lambda>(a, p). Inr (Some a, p)) else Inr (None, pos)) = Inr (ext, p)
    \<longleftrightarrow> (flag \<longleftrightarrow> ext \<noteq> None) \<and> (\<exists>w. extension_section ext w \<and> slice_at bs pos p w)"
proof (cases ext)
  case None
  then show ?thesis using assms(2) by (auto simp: result_simps slice_at_Nil)
next
  case (Some v)
  then show ?thesis using parse_extensions_iff [OF assms, of v p] by (auto simp: bindE_eq_Inr)
qed

text \<open>The complete layout of a record \<open>a\<close>.\<close>

definition authdata_layout :: "AuthenticatorData \<Rightarrow> bytes \<Rightarrow> bool" where
  "authdata_layout a bs \<longleftrightarrow>
     (\<exists>att ext. bs = ad_rp_id_hash a @ [ad_flags a] @ to_be_bytes 4 (ad_sign_count a) @ att @ ext
        \<and> length (ad_rp_id_hash a) = 32
        \<and> attested_section (ad_attested_credential_data a) att
        \<and> extension_section (ad_extensions a) ext)
     \<and> (ad_flags a AND FLAG_AT \<noteq> 0 \<longleftrightarrow> ad_attested_credential_data a \<noteq> None)
     \<and> (ad_flags a AND FLAG_ED \<noteq> 0 \<longleftrightarrow> ad_extensions a \<noteq> None)
     \<and> (backed_up a \<longrightarrow> backup_eligible a)"

lemma fixed_part:
  assumes "37 \<le> length bs"
  shows "take 37 bs = take 32 bs @ [bs ! 32] @ to_be_bytes 4 (from_be (take 4 (drop 33 bs)) :: 32 word)"
proof -
  have "to_be_bytes 4 (from_be (take 4 (drop 33 bs)) :: 32 word) = take 4 (drop 33 bs)"
    using to_be_bytes_from_be [of "take 4 (drop 33 bs)", where 'a = 32] assms by simp
  moreover have "take 37 bs = take 32 bs @ take 5 (drop 32 bs)" using take_add [of 32 5 bs] by simp
  moreover have "take 5 (drop 32 bs) = bs ! 32 # take 4 (drop 33 bs)"
    using assms Cons_nth_drop_Suc [of 32 bs, symmetric] by (simp add: numeral_eq_Suc)
  ultimately show ?thesis by simp
qed

lemma fixed_part_unique:
  assumes "bs = rp @ [f] @ to_be_bytes 4 (n :: 32 word) @ rest" "length rp = 32"
  shows "take 32 bs = rp" "bs ! 32 = f" "from_be (take 4 (drop 33 bs)) = n" "drop 37 bs = rest"
proof -
  show "take 32 bs = rp" "bs ! 32 = f" using assms by (simp_all add: nth_append)
  have "drop 33 bs = to_be_bytes 4 n @ rest" using assms by simp
  moreover have "unat n < 256 ^ 4" using unsigned_less [of n] by simp
  ultimately show "from_be (take 4 (drop 33 bs)) = n" by (simp add: from_be_to_be_bytes)
  show "drop 37 bs = rest" using assms by simp
qed

lemma slice_at_rest: "slice_at bs pos (length bs) w \<longleftrightarrow> pos \<le> length bs \<and> drop pos bs = w"
  by (auto simp: slice_at_def)

lemma sections_iff:
  assumes b: "37 \<le> length bs" "length bs \<le> usize_max"
  shows "(\<exists>p. (if f AND FLAG_AT \<noteq> 0 then bindE (parse_attested bs 37) (\<lambda>(a, p). Inr (Some a, p)) else Inr (None, 37))
              = Inr (att, p)
          \<and> (if f AND FLAG_ED \<noteq> 0 then bindE (parse_extensions bs p) (\<lambda>(v, q). Inr (Some v, q)) else Inr (None, p))
              = Inr (ext, length bs))
    \<longleftrightarrow> (f AND FLAG_AT \<noteq> 0 \<longleftrightarrow> att \<noteq> None) \<and> (f AND FLAG_ED \<noteq> 0 \<longleftrightarrow> ext \<noteq> None)
      \<and> (\<exists>u w. attested_section att u \<and> extension_section ext w \<and> drop 37 bs = u @ w)" (is "(\<exists>p. ?A p \<and> ?B p) \<longleftrightarrow> _")
proof -
  have A: "?A p \<longleftrightarrow> (f AND FLAG_AT \<noteq> 0 \<longleftrightarrow> att \<noteq> None) \<and> (\<exists>u. attested_section att u \<and> slice_at bs 37 p u)" for p
    by (rule optional_attested [OF b(2,1)])
  have B: "?B p \<longleftrightarrow> (f AND FLAG_ED \<noteq> 0 \<longleftrightarrow> ext \<noteq> None)
      \<and> (\<exists>w. extension_section ext w \<and> slice_at bs p (length bs) w)" if "p \<le> length bs" for p
    by (rule optional_extensions [OF b(2) that])
  have s: "(\<exists>p. slice_at bs 37 p u \<and> slice_at bs p (length bs) w) \<longleftrightarrow> drop 37 bs = u @ w" for u w
    using slice_at_append [of bs 37 "length bs" u w] slice_at_rest [of bs 37 "u @ w"] b(1) by simp
  have "?A p \<and> ?B p \<longleftrightarrow> ?A p \<and> (f AND FLAG_ED \<noteq> 0 \<longleftrightarrow> ext \<noteq> None)
      \<and> (\<exists>w. extension_section ext w \<and> slice_at bs p (length bs) w)" for p
    using A [of p] B [of p] slice_at_bound by blast
  then have "(\<exists>p. ?A p \<and> ?B p) \<longleftrightarrow> (\<exists>p. ((f AND FLAG_AT \<noteq> 0 \<longleftrightarrow> att \<noteq> None)
        \<and> (\<exists>u. attested_section att u \<and> slice_at bs 37 p u)) \<and> (f AND FLAG_ED \<noteq> 0 \<longleftrightarrow> ext \<noteq> None)
        \<and> (\<exists>w. extension_section ext w \<and> slice_at bs p (length bs) w))"
    by (simp only: A)
  then show ?thesis unfolding s [symmetric] by blast
qed

lemma two_sections:
  "bindE A (\<lambda>(x, p). bindE (B p) (\<lambda>(y, q). if q \<noteq> n then Inl err else Inr (r x y))) = Inr a \<longleftrightarrow>
     (\<exists>x y. (\<exists>p. A = Inr (x, p) \<and> B p = Inr (y, n)) \<and> a = r x y)"
  by (auto simp: bindE_eq_Inr split: if_splits)

lemma layout_iff:
  assumes "37 \<le> length bs"
  shows "ad_raw a = bs \<and> authdata_layout a bs \<longleftrightarrow>
    (bs ! 32 AND FLAG_BS \<noteq> 0 \<longrightarrow> bs ! 32 AND FLAG_BE \<noteq> 0)
    \<and> (\<exists>att ext. ((bs ! 32 AND FLAG_AT \<noteq> 0 \<longleftrightarrow> att \<noteq> None) \<and> (bs ! 32 AND FLAG_ED \<noteq> 0 \<longleftrightarrow> ext \<noteq> None)
          \<and> (\<exists>u w. attested_section att u \<and> extension_section ext w \<and> drop 37 bs = u @ w))
        \<and> a = \<lparr>ad_raw = bs, ad_rp_id_hash = take 32 bs, ad_flags = bs ! 32,
            ad_sign_count = from_be (take 4 (drop 33 bs)), ad_attested_credential_data = att,
            ad_extensions = ext\<rparr>)" (is "?L \<longleftrightarrow> ?R")
proof
  assume L: ?L
  then obtain u w where bs: "bs = ad_rp_id_hash a @ [ad_flags a] @ to_be_bytes 4 (ad_sign_count a) @ (u @ w)"
    "length (ad_rp_id_hash a) = 32" "attested_section (ad_attested_credential_data a) u"
    "extension_section (ad_extensions a) w"
    by (auto simp: authdata_layout_def)
  note u = fixed_part_unique [OF bs(1,2)]
  have "a = \<lparr>ad_raw = bs, ad_rp_id_hash = take 32 bs, ad_flags = bs ! 32,
      ad_sign_count = from_be (take 4 (drop 33 bs)), ad_attested_credential_data = ad_attested_credential_data a,
      ad_extensions = ad_extensions a\<rparr>"
    using L u by (intro AuthenticatorData.equality) simp_all
  moreover have "bs ! 32 AND FLAG_BS \<noteq> 0 \<longrightarrow> bs ! 32 AND FLAG_BE \<noteq> 0"
    using L u(2) by (simp add: authdata_layout_def backed_up_def backup_eligible_def)
  moreover have "(bs ! 32 AND FLAG_AT \<noteq> 0 \<longleftrightarrow> ad_attested_credential_data a \<noteq> None)
      \<and> (bs ! 32 AND FLAG_ED \<noteq> 0 \<longleftrightarrow> ad_extensions a \<noteq> None)"
    using L u(2) by (simp add: authdata_layout_def)
  ultimately show ?R using bs(3,4) u(4) by blast
next
  assume ?R
  then obtain att ext u w where r: "bs ! 32 AND FLAG_BS \<noteq> 0 \<longrightarrow> bs ! 32 AND FLAG_BE \<noteq> 0"
    "bs ! 32 AND FLAG_AT \<noteq> 0 \<longleftrightarrow> att \<noteq> None" "bs ! 32 AND FLAG_ED \<noteq> 0 \<longleftrightarrow> ext \<noteq> None"
    "attested_section att u" "extension_section ext w" "drop 37 bs = u @ w"
    "a = \<lparr>ad_raw = bs, ad_rp_id_hash = take 32 bs, ad_flags = bs ! 32,
        ad_sign_count = from_be (take 4 (drop 33 bs)), ad_attested_credential_data = att, ad_extensions = ext\<rparr>"
    by blast
  have "bs = take 37 bs @ drop 37 bs" by simp
  also have "\<dots> = take 32 bs @ [bs ! 32] @ to_be_bytes 4 (from_be (take 4 (drop 33 bs)) :: 32 word) @ u @ w"
    unfolding fixed_part [OF assms] r(6) by simp
  finally have "\<exists>att ext. bs = ad_rp_id_hash a @ [ad_flags a] @ to_be_bytes 4 (ad_sign_count a) @ att @ ext
      \<and> length (ad_rp_id_hash a) = 32 \<and> attested_section (ad_attested_credential_data a) att
      \<and> extension_section (ad_extensions a) ext"
    using r(4,5) assms unfolding r(7) AuthenticatorData.simps by (intro exI [of _ u] exI [of _ w]) simp
  then show ?L
    unfolding authdata_layout_def backed_up_def backup_eligible_def using r(1-3) by (simp add: r(7))
qed

lemma authdata_sections:
  assumes n: "\<not> (length bs < MIN_LEN \<or> length bs > MAX_LEN)"
  shows "AuthenticatorData_parse bs = Inr a \<longleftrightarrow> (bs ! 32 AND FLAG_BS \<noteq> 0 \<longrightarrow> bs ! 32 AND FLAG_BE \<noteq> 0)
      \<and> (\<exists>att ext. (\<exists>p. (if bs ! 32 AND FLAG_AT \<noteq> 0 then bindE (parse_attested bs 37) (\<lambda>(a, p). Inr (Some a, p))
                             else Inr (None, 37)) = Inr (att, p)
             \<and> (if bs ! 32 AND FLAG_ED \<noteq> 0 then bindE (parse_extensions bs p) (\<lambda>(v, q). Inr (Some v, q))
                else Inr (None, p)) = Inr (ext, length bs))
          \<and> a = \<lparr>ad_raw = bs, ad_rp_id_hash = take 32 bs, ad_flags = bs ! 32,
              ad_sign_count = from_be (take 4 (drop 33 bs)), ad_attested_credential_data = att,
              ad_extensions = ext\<rparr>)"
proof (cases "bs ! 32 AND FLAG_BS \<noteq> 0 \<and> bs ! 32 AND FLAG_BE = 0")
  case True
  then show ?thesis using n by (simp add: AuthenticatorData_parse_def)
next
  case False
  then have eq: "AuthenticatorData_parse bs = bindE (if bs ! 32 AND FLAG_AT \<noteq> 0
        then bindE (parse_attested bs 37) (\<lambda>(a, p). Inr (Some a, p)) else Inr (None, 37)) (\<lambda>(att, p).
      bindE (if bs ! 32 AND FLAG_ED \<noteq> 0
        then bindE (parse_extensions bs p) (\<lambda>(v, q). Inr (Some v, q)) else Inr (None, p)) (\<lambda>(ext, q).
      if q \<noteq> length bs then Inl cbor_invalid
      else Inr \<lparr>ad_raw = bs, ad_rp_id_hash = take 32 bs, ad_flags = bs ! 32,
                ad_sign_count = from_be (take 4 (drop 33 bs)), ad_attested_credential_data = att,
                ad_extensions = ext\<rparr>))"
    using n by (simp only: AuthenticatorData_parse_def Let_def if_False simp_thms)
  show ?thesis unfolding eq two_sections using False by blast
qed

section \<open>Properties\<close>

text \<open>C22: \<open>AuthenticatorData::parse\<close> accepts exactly the documented layout: a buffer of an admissible
  length is accepted with a given record exactly when it is the hash, the flags, the big-endian
  counter, then the attested credential data if and only if AT is set, then the extension map with
  text keys if and only if ED is set, with nothing after it, BS only with BE, a credential
  identifier within its bounds and a key that is one COSE item. The raw bytes kept are the input.\<close>

theorem authdata_parse_exact:
  "AuthenticatorData_parse bs = Inr a \<longleftrightarrow>
     MIN_LEN \<le> length bs \<and> length bs \<le> MAX_LEN \<and> ad_raw a = bs \<and> authdata_layout a bs"
proof (cases "MIN_LEN \<le> length bs \<and> length bs \<le> MAX_LEN")
  case len: True
  then have n: "\<not> (length bs < MIN_LEN \<or> length bs > MAX_LEN)" by auto
  from len have b: "37 \<le> length bs" "length bs \<le> usize_max" by (auto simp: MIN_LEN_def MAX_LEN_def usize_max_def)
  have "AuthenticatorData_parse bs = Inr a \<longleftrightarrow> ad_raw a = bs \<and> authdata_layout a bs"
    unfolding authdata_sections [OF n] sections_iff [OF b] layout_iff [OF b(1)] ..
  then show ?thesis using len by simp
next
  case False
  then show ?thesis by (auto simp: AuthenticatorData_parse_def)
qed

text \<open>COSE keys survive the round trip through a CBOR map: whatever \<open>from_value\<close> returned encodes
  with \<open>to_value\<close> to a map that parses to the same key, and a resolved key has exactly the widths of
  its algorithm; the algorithm is the one label 3 names and the private-key label of the key type was
  absent.\<close>

theorem cose_key_roundtrip:
  assumes "CoseKey_from_value v = Inr k"
  shows "CoseKey_from_value (CoseKey_to_value k) = Inr k \<and> key_ok k
    \<and> (\<forall>a. CoseKey_algorithm k = Some a \<longrightarrow>
         (\<exists>i. label_int v 3 = Inr i \<and> CoseAlgorithm_from_id i = a \<and> a \<noteq> UnknownAlg i)
         \<and> map_get_int v (if is_signature a \<and> a \<noteq> Es256 \<and> a \<noteq> Ed25519 then -2 else -4) = None)"
proof -
  obtain kty i where l: "label_int v 1 = Inr kty" "label_int v 3 = Inr i"
    using assms by (auto simp: CoseKey_from_value_def result_simps split: if_splits)
  have "(\<exists>i. label_int v 3 = Inr i \<and> CoseAlgorithm_from_id i = a \<and> a \<noteq> UnknownAlg i)
      \<and> map_get_int v (if is_signature a \<and> a \<noteq> Es256 \<and> a \<noteq> Ed25519 then -2 else -4) = None"
    if "CoseKey_algorithm k = Some a" for a
    using assms l that
    by (cases "CoseAlgorithm_from_id i")
      (auto simp: CoseKey_from_value_def result_simps Let_def split: if_splits)
  then show ?thesis using to_value_from_value from_value_key_ok [OF assms] by blast
qed

theorem cose_key_roundtrip_witness:
  "CoseKey_from_value (Map [(from_int 1, from_int 1), (from_int 3, from_int (-19)), (from_int (-1), from_int 6),
      (from_int (-2), Bytes (replicate 32 7))]) = Inr (Ed25519Key (replicate 32 7))
   \<and> CoseKey_from_value (CoseKey_to_value (Ed25519Key (replicate 32 7))) = Inr (Ed25519Key (replicate 32 7))"
proof -
  have "CoseKey_from_value (Map [(from_int 1, from_int 1), (from_int 3, from_int (-19)), (from_int (-1), from_int 6),
      (from_int (-2), Bytes (replicate 32 7))]) = Inr (Ed25519Key (replicate 32 7))"
    by (simp add: CoseKey_from_value_def label_int_def map_get_int_def map_get_def fixed_bytes_def
        from_int_inj as_int_from_int CoseAlgorithm_from_id_def)
  with cose_key_roundtrip [OF this] show ?thesis by blast
qed

end
