(* ===== verification/Compat.thy ===== *)
theory Compat
  imports Errors "HOL-Library.Product_Lexorder"
begin

text \<open>
  Device profiles and the firmware compatibility matrix (\<open>canokey-compat/src/lib.rs\<close>): firmware
  text parsing, capability decisions with their evidence, the observed PIV algorithm configuration
  and the mapping between algorithms and PIV wire identifiers. A \<open>str\<close> is its UTF-8 bytes; a
  version component is a natural number that \<open>parse_u16\<close> has bounded; a tuple of components is
  compared lexicographically.
\<close>

unbundle bit_operations_syntax

section \<open>Firmware versions\<close>

record FirmwareVersion =
  fw_major :: nat
  fw_minor :: nat
  fw_patch :: nat
  fw_suffix :: "bytes option"

text \<open>
  What the parser uses of \<open>str\<close>: trimming of the characters with the White\_Space property (given
  as their UTF-8 encodings), splitting, and decimal parsing of a \<open>u16\<close>.
\<close>

definition whitespace :: "bytes list" where
  "whitespace =
     map (\<lambda>b. [b]) [0x09, 0x0a, 0x0b, 0x0c, 0x0d, 0x20] @ [[0xc2, 0x85], [0xc2, 0xa0], [0xe1, 0x9a, 0x80]]
     @ map (\<lambda>b. [0xe2, 0x80, b])
         [0x80, 0x81, 0x82, 0x83, 0x84, 0x85, 0x86, 0x87, 0x88, 0x89, 0x8a, 0xa8, 0xa9, 0xaf]
     @ [[0xe2, 0x81, 0x9f], [0xe3, 0x80, 0x80]]"

definition leading_ws :: "bytes \<Rightarrow> nat" where
  "leading_ws s = (case find (\<lambda>w. take (length w) s = w) whitespace of None \<Rightarrow> 0 | Some w \<Rightarrow> length w)"

function trim_start :: "bytes \<Rightarrow> bytes" where
  "trim_start s = (let n = leading_ws s in if n = 0 \<or> s = [] then s else trim_start (drop n s))"
  by pat_completeness auto
termination by (relation "measure length") auto

definition trailing_ws :: "bytes \<Rightarrow> nat" where
  "trailing_ws s =
     (case find (\<lambda>w. length w \<le> length s \<and> drop (length s - length w) s = w) whitespace of
        None \<Rightarrow> 0 | Some w \<Rightarrow> length w)"

function trim_end :: "bytes \<Rightarrow> bytes" where
  "trim_end s = (let n = trailing_ws s in if n = 0 \<or> s = [] then s else trim_end (take (length s - n) s))"
  by pat_completeness auto
termination by (relation "measure length") auto

declare trim_start.simps [simp del] trim_end.simps [simp del]

definition str_trim :: "bytes \<Rightarrow> bytes" where
  "str_trim s = trim_end (trim_start s)"

fun split_dot :: "bytes \<Rightarrow> bytes list" where
  "split_dot [] = [[]]"
| "split_dot (b # bs) =
     (if b = 0x2e then [] # split_dot bs
      else case split_dot bs of [] \<Rightarrow> [[b]] | w # ws \<Rightarrow> (b # w) # ws)"

definition is_digit :: "byte \<Rightarrow> bool" where
  "is_digit b \<longleftrightarrow> 0x30 \<le> b \<and> b \<le> 0x39"

definition is_alnum :: "byte \<Rightarrow> bool" where
  "is_alnum b \<longleftrightarrow> is_digit b \<or> 0x41 \<le> b \<and> b \<le> 0x5a \<or> 0x61 \<le> b \<and> b \<le> 0x7a"

definition dec_value :: "bytes \<Rightarrow> nat" where
  "dec_value bs = foldl (\<lambda>n b. n * 10 + (unat b - 0x30)) 0 bs"

definition parse_u16 :: "bytes \<Rightarrow> nat option" where
  "parse_u16 bs =
     (if bs = [] \<or> \<not> list_all is_digit bs \<or> dec_value bs > 65535 then None else Some (dec_value bs))"

definition suffix_ok :: "bytes \<Rightarrow> bool" where
  "suffix_ok s \<longleftrightarrow>
     s = [] \<or> length s \<noteq> 1 \<and> is_alnum (s ! 1)
       \<and> list_all (\<lambda>b. is_alnum b \<or> b = 0x2e \<or> b = 0x2b \<or> b = 0x2d) (drop 1 s)"

definition FirmwareVersion_parse :: "bytes \<Rightarrow> FirmwareVersion option" where
  "FirmwareVersion_parse text0 =
     (let t = str_trim text0;
          text = (case t of b # rest \<Rightarrow> if b = 0x76 then rest else t | [] \<Rightarrow> t);
          numbers = takeWhile (\<lambda>b. b \<noteq> 0x2d \<and> b \<noteq> 0x2b) text;
          suffix = dropWhile (\<lambda>b. b \<noteq> 0x2d \<and> b \<noteq> 0x2b) text in
      if \<not> suffix_ok suffix then None
      else
        (let parts = split_dot numbers in
         if \<not> (2 \<le> length parts \<and> length parts \<le> 3)
            \<or> \<not> list_all (\<lambda>n. n \<noteq> [] \<and> list_all is_digit n) parts
         then None
         else Option.bind (parse_u16 (parts ! 0)) (\<lambda>major.
              Option.bind (parse_u16 (parts ! 1)) (\<lambda>minor.
              Option.bind (parse_u16 (if length parts = 3 then parts ! 2 else [0x30])) (\<lambda>patch.
              Some \<lparr>fw_major = major, fw_minor = minor, fw_patch = patch,
                    fw_suffix = (if suffix = [] then None else Some suffix)\<rparr>)))))"

type_synonym version = "nat \<times> nat \<times> nat"

definition compatibility_base :: "FirmwareVersion \<Rightarrow> version" where
  "compatibility_base v =
     (if (fw_major v, fw_minor v) = (3, 1) \<or> (fw_major v, fw_minor v) = (4, 0) then (3, 1, 0)
      else (fw_major v, fw_minor v, fw_patch v))"

section \<open>Capabilities\<close>

datatype Support = Supported | Unsupported | Unknown

datatype Evidence = Observed | FirmwareMatrix | LatestKnownFallback

record CapabilityStatus =
  cs_support :: Support
  cs_evidence :: Evidence

definition CapabilityStatus_require :: "CapabilityStatus \<Rightarrow> unit res" where
  "CapabilityStatus_require st =
     (case cs_support st of
        Supported \<Rightarrow> Inr ()
      | Unsupported \<Rightarrow> Inl (Error_new UnsupportedFeature)
      | Unknown \<Rightarrow> Inl (Error_new CapabilityUnknown))"

datatype Capability =
    OpenPgp | OpenPgpWrappedData | OpenPgpAlgorithmInformation | OpenPgpWrappedAlgorithmInformation
  | OpenPgpUif | OpenPgpRetryReset | OpenPgpShortDigest | OpenPgpBareAgreement
  | OpenPgpPublicKeyLengthFix | Oath | OathLegacy | OathModern | OathFullResponse
  | OathRenameCollisionCheck | OathReliablePagination | OathSetDefaultSlots | OathChallengeResponse
  | Admin | AdminNdefWebUsb | AdminKeyboard | AdminKeyboardReturn | AdminLegacyPivExtensions
  | AdminLegacyOpenPgpTouch | AdminCtapPassReset | AdminPassConfig | AdminNfc | AdminPublicNfcStatus
  | AdminPublicConfiguration | AdminExtendedConfiguration | AdminSm2 | AdminLegacySm2 | Piv
  | PivSelectResetsAuthentication | Metadata | CapEccP256 | CapEccP384 | AlgorithmExtensions
  | RetiredSlots | ObjectWrites | ObjectWriteChaining | MetadataDirectory | ContainerNames
  | KeyMoveDelete | RetryReset | AlgorithmConfigWrite | PivProtectedAlgorithmConfigRead
  | Sm2Agreement | Attestation | PivReset | CertificateDeletion

datatype AdminConfigurationLayout = TouchPolicies | Basic | KeyboardReturn | Reserved | Features

datatype ManagementKeyAlgorithm = Tdes | Aes192

fun ManagementKeyAlgorithm_wire_id :: "ManagementKeyAlgorithm \<Rightarrow> byte" where
  "ManagementKeyAlgorithm_wire_id Tdes = 0x03"
| "ManagementKeyAlgorithm_wire_id Aes192 = 0x0a"

fun block_len :: "ManagementKeyAlgorithm \<Rightarrow> nat" where
  "block_len Tdes = 8"
| "block_len Aes192 = 16"

datatype Algorithm =
    Rsa1024 | Rsa2048 | Rsa3072 | Rsa4096 | EccP256 | EccP384 | EccP521 | Secp256k1 | Sm2
  | Ed25519 | X25519 | MlDsa65 | MlKem768

section \<open>Algorithm configuration\<close>

text \<open>The \<open>BTreeMap\<close> of identifiers is an association list; its keys are distinct.\<close>

record AlgorithmConfig =
  ac_enabled :: bool
  ac_ids :: "(Algorithm \<times> byte) list"
  ac_raw :: bytes

definition config_algorithms :: "nat \<Rightarrow> Algorithm list" where
  "config_algorithms n =
     [Ed25519, Rsa3072, Rsa4096, X25519, Secp256k1] @ (if n \<ge> 8 then [EccP521] else []) @ [Sm2]
     @ (if n \<ge> 9 then [MlDsa65] else []) @ (if n \<ge> 10 then [MlKem768] else [])"

definition reserved_ids :: "byte list" where
  "reserved_ids = [0x06, 0x07, 0x11, 0x14]"

fun collect_ids :: "(Algorithm \<times> byte) list \<Rightarrow> (Algorithm \<times> byte) list \<Rightarrow> (Algorithm \<times> byte) list res" where
  "collect_ids [] ids = Inr ids"
| "collect_ids ((alg, i) # rest) ids =
     (if i = 0 \<or> i \<in> set reserved_ids \<or> i \<in> snd ` set ids then Inl (Error_new InvalidResponse)
      else collect_ids rest (ids @ [(alg, i)]))"

definition AlgorithmConfig_parse :: "bytes \<Rightarrow> AlgorithmConfig res" where
  "AlgorithmConfig_parse d =
     (if length d < 7 \<or> d ! 0 > 1 then Inl (Error_new InvalidResponse)
      else bindE (collect_ids (zip (config_algorithms (length d)) (drop 1 d)) []) (\<lambda>ids.
        Inr \<lparr>ac_enabled = (d ! 0 = 1), ac_ids = ids, ac_raw = d\<rparr>))"

definition AlgorithmConfig_wire_id :: "AlgorithmConfig \<Rightarrow> Algorithm \<Rightarrow> byte option" where
  "AlgorithmConfig_wire_id c a = (if ac_enabled c then map_of (ac_ids c) a else None)"

section \<open>Profiles\<close>

datatype CompatibilityWarning =
    UnrecognizedFirmware
  | FallbackWarning
  | DeclaredBaseVersion
  | OptionalCommandUnsupported string
  | OptionalCommandNeedsAuthentication string

record DeviceInfo =
  di_firmware_text :: bytes
  di_firmware :: "FirmwareVersion option"
  di_model :: "bytes option"
  di_serial :: "bytes option"
  di_piv_version :: "bytes option"

record DeviceObservations =
  do_firmware_text :: bytes
  do_model :: "bytes option"
  do_serial :: "bytes option"
  do_piv_version :: "bytes option"
  do_algorithm_config :: "AlgorithmConfig option"
  do_warnings :: "CompatibilityWarning list"

definition DeviceObservations_new :: "bytes \<Rightarrow> DeviceObservations" where
  "DeviceObservations_new t =
     \<lparr>do_firmware_text = t, do_model = None, do_serial = None, do_piv_version = None,
      do_algorithm_config = None, do_warnings = []\<rparr>"

record DeviceProfile =
  dp_info :: DeviceInfo
  dp_config :: "AlgorithmConfig option"
  dp_legacy_piv_extensions :: "bool option"
  dp_warnings :: "CompatibilityWarning list"

definition from_observations :: "DeviceObservations \<Rightarrow> DeviceProfile res" where
  "from_observations ob =
     (if do_firmware_text ob = [] \<or> length (do_firmware_text ob) > 256
         \<or> (case do_serial ob of None \<Rightarrow> False | Some s \<Rightarrow> length s \<noteq> 4)
      then Inl (Error_new InvalidResponse)
      else
        (let firmware = (if utf8_valid (do_firmware_text ob) then FirmwareVersion_parse (do_firmware_text ob)
                         else None);
             extra = (case firmware of
                        None \<Rightarrow> [UnrecognizedFirmware]
                      | Some f \<Rightarrow>
                          if compatibility_base f > (3, 1, 0) then [FallbackWarning]
                          else if fw_suffix f \<noteq> None then [DeclaredBaseVersion] else []) in
         Inr \<lparr>dp_info = \<lparr>di_firmware_text = do_firmware_text ob, di_firmware = firmware, di_model = do_model ob,
                         di_serial = do_serial ob, di_piv_version = do_piv_version ob\<rparr>,
              dp_config = do_algorithm_config ob, dp_legacy_piv_extensions = None,
              dp_warnings = do_warnings ob @ extra\<rparr>))"

definition base_of :: "DeviceProfile \<Rightarrow> version option" where
  "base_of p = map_option compatibility_base (di_firmware (dp_info p))"

definition recognized :: "version \<Rightarrow> bool" where
  "recognized v \<longleftrightarrow> v = (1, 3, 0) \<or> ((1, 5, 2) \<le> v \<and> v \<le> (3, 0, 3)) \<or> v = (3, 1, 0)"

definition firmware_range :: "DeviceProfile \<Rightarrow> version \<Rightarrow> version \<Rightarrow> CapabilityStatus" where
  "firmware_range p first final =
     (case base_of p of
        Some v \<Rightarrow>
          if recognized v
          then \<lparr>cs_support = (if first \<le> v \<and> v \<le> final then Supported else Unsupported),
                cs_evidence = FirmwareMatrix\<rparr>
          else \<lparr>cs_support = Unknown, cs_evidence = LatestKnownFallback\<rparr>
      | None \<Rightarrow> \<lparr>cs_support = Unknown, cs_evidence = LatestKnownFallback\<rparr>)"

text \<open>The ranges of the first \<open>match\<close> of \<open>capability\<close>; the features it does not list have none.\<close>

fun capability_range :: "Capability \<Rightarrow> (version \<times> version) option" where
  "capability_range PivReset = Some ((1, 3, 0), (3, 1, 0))"
| "capability_range PivSelectResetsAuthentication = Some ((2, 0, 0), (3, 1, 0))"
| "capability_range ObjectWrites = Some ((1, 3, 0), (3, 1, 0))"
| "capability_range ObjectWriteChaining = Some ((1, 3, 0), (3, 1, 0))"
| "capability_range Oath = Some ((1, 3, 0), (3, 1, 0))"
| "capability_range OathLegacy = Some ((1, 3, 0), (1, 3, 0))"
| "capability_range OathModern = Some ((1, 5, 2), (3, 1, 0))"
| "capability_range OathFullResponse = Some ((2, 0, 0), (3, 1, 0))"
| "capability_range OathRenameCollisionCheck = Some ((2, 0, 0), (3, 1, 0))"
| "capability_range OathReliablePagination = Some ((3, 0, 1), (3, 1, 0))"
| "capability_range OathSetDefaultSlots = Some ((3, 0, 0), (3, 1, 0))"
| "capability_range OathChallengeResponse = Some ((3, 1, 0), (3, 1, 0))"
| "capability_range OpenPgp = Some ((1, 3, 0), (3, 1, 0))"
| "capability_range OpenPgpWrappedData = Some ((2, 0, 0), (3, 1, 0))"
| "capability_range OpenPgpAlgorithmInformation = Some ((1, 6, 1), (3, 1, 0))"
| "capability_range OpenPgpPublicKeyLengthFix = Some ((1, 6, 1), (3, 1, 0))"
| "capability_range OpenPgpUif = Some ((1, 5, 2), (3, 1, 0))"
| "capability_range OpenPgpBareAgreement = Some ((1, 5, 2), (3, 1, 0))"
| "capability_range OpenPgpRetryReset = Some ((3, 1, 0), (3, 1, 0))"
| "capability_range OpenPgpWrappedAlgorithmInformation = Some ((3, 1, 0), (3, 1, 0))"
| "capability_range OpenPgpShortDigest = Some ((3, 1, 0), (3, 1, 0))"
| "capability_range Admin = Some ((1, 3, 0), (3, 1, 0))"
| "capability_range AdminNdefWebUsb = Some ((1, 5, 2), (3, 1, 0))"
| "capability_range AdminKeyboard = Some ((1, 3, 0), (2, 0, 1))"
| "capability_range AdminKeyboardReturn = Some ((1, 6, 2), (2, 0, 1))"
| "capability_range AdminLegacyPivExtensions = Some ((2, 0, 0), (2, 0, 1))"
| "capability_range AdminLegacyOpenPgpTouch = Some ((1, 3, 0), (1, 3, 0))"
| "capability_range AdminCtapPassReset = Some ((3, 0, 0), (3, 1, 0))"
| "capability_range AdminNfc = Some ((3, 0, 0), (3, 1, 0))"
| "capability_range AdminSm2 = Some ((3, 0, 0), (3, 1, 0))"
| "capability_range AdminPassConfig = Some ((3, 0, 0), (3, 1, 0))"
| "capability_range AdminPublicNfcStatus = Some ((3, 0, 1), (3, 1, 0))"
| "capability_range AdminLegacySm2 = Some ((3, 0, 0), (3, 0, 3))"
| "capability_range PivProtectedAlgorithmConfigRead = Some ((3, 0, 0), (3, 0, 3))"
| "capability_range AdminPublicConfiguration = Some ((3, 1, 0), (3, 1, 0))"
| "capability_range AdminExtendedConfiguration = Some ((3, 1, 0), (3, 1, 0))"
| "capability_range CertificateDeletion = Some ((3, 1, 0), (3, 1, 0))"
| "capability_range MetadataDirectory = Some ((3, 1, 0), (3, 1, 0))"
| "capability_range ContainerNames = Some ((3, 1, 0), (3, 1, 0))"
| "capability_range KeyMoveDelete = Some ((3, 1, 0), (3, 1, 0))"
| "capability_range RetryReset = Some ((3, 1, 0), (3, 1, 0))"
| "capability_range AlgorithmConfigWrite = Some ((3, 1, 0), (3, 1, 0))"
| "capability_range Sm2Agreement = Some ((3, 1, 0), (3, 1, 0))"
| "capability_range Attestation = Some ((3, 1, 0), (3, 1, 0))"
| "capability_range _ = None"

text \<open>What \<open>capability\<close> reads from the observations before it turns to the firmware.\<close>

definition extension_observation :: "DeviceProfile \<Rightarrow> CapabilityStatus option" where
  "extension_observation p =
     (case dp_legacy_piv_extensions p of
        Some enabled \<Rightarrow>
          Some \<lparr>cs_support = (if enabled then Supported else Unsupported), cs_evidence = Observed\<rparr>
      | None \<Rightarrow>
          if OptionalCommandUnsupported ''algorithm_config'' \<in> set (dp_warnings p)
          then Some \<lparr>cs_support = Unsupported, cs_evidence = Observed\<rparr>
          else if OptionalCommandNeedsAuthentication ''algorithm_config'' \<in> set (dp_warnings p)
          then Some \<lparr>cs_support = Unknown, cs_evidence = Observed\<rparr>
          else map_option
            (\<lambda>c. \<lparr>cs_support = (if ac_enabled c then Supported else Unsupported), cs_evidence = Observed\<rparr>)
            (dp_config p))"

definition threshold_capability :: "DeviceProfile \<Rightarrow> Capability \<Rightarrow> CapabilityStatus" where
  "threshold_capability p feature =
     (let threshold = (if feature = CapEccP256 \<or> feature = CapEccP384 then (1, 3, 0) else (2, 0, 0));
          fallback = \<lparr>cs_support = (if feature = CapEccP256 \<and> di_piv_version (dp_info p) \<noteq> None
                                    then Supported else Unknown), cs_evidence = LatestKnownFallback\<rparr> in
      case base_of p of
        Some v \<Rightarrow>
          if (1, 3, 0) \<le> v \<and> v \<le> (3, 1, 0)
          then \<lparr>cs_support = (if v \<ge> threshold then Supported else Unsupported), cs_evidence = FirmwareMatrix\<rparr>
          else fallback
      | None \<Rightarrow> fallback)"

definition capability :: "DeviceProfile \<Rightarrow> Capability \<Rightarrow> CapabilityStatus" where
  "capability p feature =
     (case capability_range feature of
        Some (first, final) \<Rightarrow> firmware_range p first final
      | None \<Rightarrow>
          if feature = Piv
          then \<lparr>cs_support = (if di_piv_version (dp_info p) \<noteq> None then Supported else Unknown),
                cs_evidence = Observed\<rparr>
          else if feature = AlgorithmExtensions then
            (case extension_observation p of Some st \<Rightarrow> st | None \<Rightarrow> threshold_capability p feature)
          else threshold_capability p feature)"

definition with_legacy_piv_extensions :: "DeviceProfile \<Rightarrow> bool \<Rightarrow> DeviceProfile res" where
  "with_legacy_piv_extensions p enabled =
     bindE (CapabilityStatus_require (capability p AdminLegacyPivExtensions)) (\<lambda>_.
       if dp_config p \<noteq> None then Inl (Error_new InvalidArgument)
       else Inr (p\<lparr>dp_legacy_piv_extensions := Some enabled\<rparr>))"

definition management_key_support :: "DeviceProfile \<Rightarrow> ManagementKeyAlgorithm \<Rightarrow> CapabilityStatus" where
  "management_key_support p a =
     (case a of Tdes \<Rightarrow> firmware_range p (1, 3, 0) (3, 0, 3) | Aes192 \<Rightarrow> firmware_range p (3, 1, 0) (3, 1, 0))"

definition legacy_explicit_le :: "DeviceProfile \<Rightarrow> bool" where
  "legacy_explicit_le p \<longleftrightarrow> cs_support (firmware_range p (1, 3, 0) (3, 0, 3)) = Supported"

definition openpgp_algorithm_support :: "DeviceProfile \<Rightarrow> Algorithm \<Rightarrow> bool \<Rightarrow> CapabilityStatus" where
  "openpgp_algorithm_support p a generate =
     (if a \<in> {Rsa2048, EccP256, EccP384, Secp256k1, Ed25519, X25519} then firmware_range p (1, 3, 0) (3, 1, 0)
      else if a = Rsa4096 \<and> \<not> generate then firmware_range p (1, 3, 0) (3, 1, 0)
      else if a = Rsa3072 \<or> a = Rsa4096 then firmware_range p (2, 0, 0) (3, 1, 0)
      else if a = EccP521 then firmware_range p (3, 1, 0) (3, 1, 0)
      else \<lparr>cs_support = Unsupported, cs_evidence = FirmwareMatrix\<rparr>)"

definition admin_configuration_layout :: "DeviceProfile \<Rightarrow> AdminConfigurationLayout res" where
  "admin_configuration_layout p =
     bindE (CapabilityStatus_require (capability p Admin)) (\<lambda>_.
     bindE (ok_or (base_of p) (Error_new CapabilityUnknown)) (\<lambda>v.
       Inr (if v = (1, 3, 0) then TouchPolicies
            else if v < (1, 6, 2) then Basic
            else if v < (3, 0, 0) then KeyboardReturn
            else if v < (3, 1, 0) then Reserved
            else Features)))"

definition base_such :: "DeviceProfile \<Rightarrow> (version \<Rightarrow> bool) \<Rightarrow> bool" where
  "base_such p P = (case base_of p of None \<Rightarrow> False | Some v \<Rightarrow> P v)"

definition extension_wire_id :: "DeviceProfile \<Rightarrow> Algorithm \<Rightarrow> byte option" where
  "extension_wire_id p a =
     Option.bind (dp_config p) (\<lambda>c.
     Option.bind (AlgorithmConfig_wire_id c a) (\<lambda>i.
       if base_such p (\<lambda>v. v \<ge> (3, 1, 0)) \<and> (i = 0x0a \<or> i = 0xff) then None else Some i))"

definition algorithm_wire_id :: "DeviceProfile \<Rightarrow> Algorithm \<Rightarrow> byte option" where
  "algorithm_wire_id p a =
     (if a = Rsa1024 then Some 0x06
      else if a = Rsa2048 then Some 0x07
      else if a = EccP256 then Some 0x11
      else if a = EccP384 then Some 0x14
      else if dp_config p \<noteq> None then extension_wire_id p a
      else
        (let legacy = base_such p (\<lambda>v. v \<ge> (2, 0, 0) \<and> v < (3, 0, 0)) in
         case a of
           Ed25519 \<Rightarrow> Some (if legacy then 0x22 else 0xe0)
         | Rsa3072 \<Rightarrow> Some (if legacy then 0x50 else 0x05)
         | Rsa4096 \<Rightarrow> Some (if legacy then 0x51 else 0x16)
         | X25519 \<Rightarrow> Some (if legacy then 0x52 else 0xe1)
         | Secp256k1 \<Rightarrow> if legacy then Some 0x53 else None
         | Sm2 \<Rightarrow> if legacy then Some 0x54 else None
         | _ \<Rightarrow> None))"

definition all_algorithms :: "Algorithm list" where
  "all_algorithms =
     [Rsa1024, Rsa2048, Rsa3072, Rsa4096, EccP256, EccP384, EccP521, Secp256k1, Sm2, Ed25519, X25519,
      MlDsa65, MlKem768]"

definition algorithm_from_wire_id :: "DeviceProfile \<Rightarrow> byte \<Rightarrow> Algorithm option" where
  "algorithm_from_wire_id p i = find (\<lambda>a. algorithm_wire_id p a = Some i) all_algorithms"

definition piv_slot_support :: "DeviceProfile \<Rightarrow> byte \<Rightarrow> CapabilityStatus" where
  "piv_slot_support p r =
     (if r \<in> {0x9a, 0x9c, 0x9d, 0x9e} then firmware_range p (1, 3, 0) (3, 1, 0)
      else if r = 0x82 \<or> r = 0x83 then firmware_range p (2, 0, 0) (3, 1, 0)
      else if 0x84 \<le> r \<and> r \<le> 0x95 then firmware_range p (3, 1, 0) (3, 1, 0)
      else \<lparr>cs_support = Unsupported, cs_evidence = FirmwareMatrix\<rparr>)"

definition algorithm_config_read_support :: "DeviceProfile \<Rightarrow> CapabilityStatus" where
  "algorithm_config_read_support p =
     (if OptionalCommandUnsupported ''algorithm_config'' \<in> set (dp_warnings p)
      then \<lparr>cs_support = Unsupported, cs_evidence = Observed\<rparr>
      else firmware_range p (3, 0, 0) (3, 1, 0))"

definition extended_first :: "Algorithm \<Rightarrow> version" where
  "extended_first a =
     (if a = Ed25519 \<or> a = X25519 then (3, 0, 1)
      else if a = EccP521 \<or> a = MlDsa65 \<or> a = MlKem768 then (3, 1, 0) else (2, 0, 0))"

definition extended_support :: "DeviceProfile \<Rightarrow> Algorithm \<Rightarrow> Support" where
  "extended_support p a =
     (case dp_config p of
        None \<Rightarrow>
          if cs_support (capability p AdminLegacyPivExtensions) = Supported
          then (case dp_legacy_piv_extensions p of
                  Some True \<Rightarrow> Supported | Some False \<Rightarrow> Unsupported | None \<Rightarrow> Unknown)
          else Unknown
      | Some c \<Rightarrow>
          if extension_wire_id p a \<noteq> None then Supported
          else if \<not> ac_enabled c \<or> AlgorithmConfig_wire_id c a \<noteq> None then Unsupported
          else Unknown)"

definition key_algorithm_support :: "DeviceProfile \<Rightarrow> Algorithm \<Rightarrow> CapabilityStatus" where
  "key_algorithm_support p a =
     (let baseline = firmware_range p (1, 3, 0) (3, 1, 0) in
      if cs_support baseline \<noteq> Supported then baseline
      else if a = Rsa2048 \<or> a = EccP256 \<or> a = EccP384 then baseline
      else if a = Rsa1024 then \<lparr>cs_support = Unsupported, cs_evidence = FirmwareMatrix\<rparr>
      else
        (let range = firmware_range p (extended_first a) (3, 1, 0) in
         if cs_support range \<noteq> Supported then range
         else \<lparr>cs_support = extended_support p a, cs_evidence = Observed\<rparr>))"

definition streaming_signing_support :: "DeviceProfile \<Rightarrow> Algorithm \<Rightarrow> CapabilityStatus" where
  "streaming_signing_support p a =
     (if a \<notin> {MlDsa65, Ed25519, Sm2} then \<lparr>cs_support = Unsupported, cs_evidence = FirmwareMatrix\<rparr>
      else
        (let version = firmware_range p (3, 1, 0) (3, 1, 0) in
         if cs_support version \<noteq> Supported then version else key_algorithm_support p a))"

definition legacy_empty_key_metadata :: "DeviceProfile \<Rightarrow> bool" where
  "legacy_empty_key_metadata p = base_such p (\<lambda>v. (2, 0, 0) \<le> v \<and> v < (3, 0, 0))"

definition sm2_uses_p1363_signatures :: "DeviceProfile \<Rightarrow> bool" where
  "sm2_uses_p1363_signatures p = base_such p (\<lambda>v. v = (3, 1, 0))"

definition legacy_unwrapped_objects :: "DeviceProfile \<Rightarrow> bool" where
  "legacy_unwrapped_objects p = base_such p (\<lambda>v. (1, 3, 0) \<le> v \<and> v < (1, 6, 1))"

section \<open>The algorithm configuration\<close>

lemma collect_ids_Inr:
  "collect_ids xs acc = Inr ids \<Longrightarrow>
     ids = acc @ xs \<and> (\<forall>x \<in> set xs. snd x \<noteq> 0 \<and> snd x \<notin> set reserved_ids)
     \<and> (distinct (map snd acc) \<longrightarrow> distinct (map snd ids))"
proof (induction xs acc rule: collect_ids.induct)
  case (2 alg i rest acc)
  then have i: "i \<noteq> 0" "i \<notin> set reserved_ids" "i \<notin> snd ` set acc" and r: "collect_ids rest (acc @ [(alg, i)]) = Inr ids"
    by (auto split: if_splits)
  have "\<not> (i = 0 \<or> i \<in> set reserved_ids \<or> i \<in> snd ` set acc)" using i by blast
  from "2.IH" [OF this r] show ?case using i by fastforce
qed simp

lemma distinct_config_algorithms: "distinct (config_algorithms n)"
  by (auto simp: config_algorithms_def)

lemma AlgorithmConfig_parse_Inr:
  assumes "AlgorithmConfig_parse d = Inr c"
  shows "ac_raw c = d" "7 \<le> length d" "ac_enabled c \<longleftrightarrow> d ! 0 = 1"
    "ac_ids c = zip (config_algorithms (length d)) (drop 1 d)"
    "distinct (map snd (ac_ids c))" "distinct (map fst (ac_ids c))"
    "\<forall>x \<in> set (ac_ids c). snd x \<noteq> 0 \<and> snd x \<notin> set reserved_ids"
  using assms collect_ids_Inr [of _ "[]"]
  by (fastforce simp: AlgorithmConfig_parse_def result_simps distinct_config_algorithms distinct_zipI1
      map_fst_zip_take split: if_splits)+

text \<open>A profile whose configuration, if any, came from the parser (its fields are private).\<close>

definition config_parsed :: "DeviceProfile \<Rightarrow> bool" where
  "config_parsed p \<longleftrightarrow> (\<forall>c. dp_config p = Some c \<longrightarrow> (\<exists>d. AlgorithmConfig_parse d = Inr c))"

lemma config_wire_id:
  assumes "AlgorithmConfig_parse d = Inr c" "AlgorithmConfig_wire_id c a = Some i"
  shows "(a, i) \<in> set (ac_ids c)" "i \<noteq> 0" "i \<notin> set reserved_ids"
  using assms AlgorithmConfig_parse_Inr(7) [OF assms(1)]
  by (auto simp: AlgorithmConfig_wire_id_def split: if_splits dest!: map_of_SomeD)

lemma snd_unique:
  "distinct (map snd xs) \<Longrightarrow> (a, i) \<in> set xs \<Longrightarrow> (b, i) \<in> set xs \<Longrightarrow> a = b"
  by (induction xs) force+

lemma extension_wire_id_Some:
  assumes "config_parsed p" "extension_wire_id p a = Some i" "dp_config p = Some c"
  shows "(a, i) \<in> set (ac_ids c)" "i \<noteq> 0" "i \<notin> set reserved_ids"
    "base_such p (\<lambda>v. v \<ge> (3, 1, 0)) \<Longrightarrow> i \<noteq> 0x0a \<and> i \<noteq> 0xff"
proof -
  obtain d where d: "AlgorithmConfig_parse d = Inr c" using assms(1,3) by (auto simp: config_parsed_def)
  have w: "AlgorithmConfig_wire_id c a = Some i"
    using assms(2,3) by (auto simp: extension_wire_id_def Option.bind_eq_Some_conv split: if_splits)
  show "(a, i) \<in> set (ac_ids c)" "i \<noteq> 0" "i \<notin> set reserved_ids" using config_wire_id [OF d w] by simp_all
  show "i \<noteq> 0x0a \<and> i \<noteq> 0xff" if "base_such p (\<lambda>v. v \<ge> (3, 1, 0))"
    using assms(2,3) that by (auto simp: extension_wire_id_def Option.bind_eq_Some_conv split: if_splits)
qed

definition standard_id :: "Algorithm \<Rightarrow> byte option" where
  "standard_id a =
     (if a = Rsa1024 then Some 0x06 else if a = Rsa2048 then Some 0x07
      else if a = EccP256 then Some 0x11 else if a = EccP384 then Some 0x14 else None)"

lemma wire_id_standard: "standard_id a = Some i \<Longrightarrow> algorithm_wire_id p a = Some i \<and> i \<in> set reserved_ids"
  by (auto simp: standard_id_def algorithm_wire_id_def reserved_ids_def split: if_splits)

lemma wire_id_extended:
  assumes "config_parsed p" "standard_id a = None" "algorithm_wire_id p a = Some i"
  shows "i \<notin> set reserved_ids \<and> i \<noteq> 0"
proof (cases "dp_config p")
  case None
  then show ?thesis
    using assms(2,3)
    by (cases a) (auto simp: algorithm_wire_id_def standard_id_def reserved_ids_def Let_def split: if_splits)
next
  case (Some c)
  then have "extension_wire_id p a = Some i"
    using assms(2,3) by (auto simp: algorithm_wire_id_def standard_id_def split: if_splits)
  then show ?thesis using extension_wire_id_Some(2,3) [OF assms(1) _ Some] by blast
qed

text \<open>Without an observed configuration the identifiers are those of two fixed tables.\<close>

definition fixed_ids :: "bool \<Rightarrow> (Algorithm \<times> byte) list" where
  "fixed_ids legacy =
     (if legacy then [(Ed25519, 0x22), (Rsa3072, 0x50), (Rsa4096, 0x51), (X25519, 0x52), (Secp256k1, 0x53), (Sm2, 0x54)]
      else [(Ed25519, 0xe0), (Rsa3072, 0x05), (Rsa4096, 0x16), (X25519, 0xe1)])"

lemma wire_id_fixed_table:
  assumes "dp_config p = None" "standard_id a = None" "algorithm_wire_id p a = Some i"
  shows "(a, i) \<in> set (fixed_ids (base_such p (\<lambda>v. v \<ge> (2, 0, 0) \<and> v < (3, 0, 0))))"
  using assms
  by (cases a) (simp_all add: algorithm_wire_id_def standard_id_def fixed_ids_def Let_def split: if_splits)

lemma wire_id_fixed:
  assumes "dp_config p = None" "standard_id a = None" "standard_id b = None"
    "algorithm_wire_id p a = Some i" "algorithm_wire_id p b = Some i"
  shows "a = b"
proof (rule snd_unique)
  show "distinct (map snd (fixed_ids (base_such p (\<lambda>v. v \<ge> (2, 0, 0) \<and> v < (3, 0, 0)))))"
    by (simp add: fixed_ids_def)
qed (use wire_id_fixed_table assms in blast)+

lemma wire_id_inj_extended:
  assumes "config_parsed p" "standard_id a = None" "standard_id b = None"
    "algorithm_wire_id p a = Some i" "algorithm_wire_id p b = Some i"
  shows "a = b"
proof (cases "dp_config p")
  case None
  then show ?thesis
    using assms(2-5) by (rule wire_id_fixed)
next
  case (Some c)
  then have "extension_wire_id p a = Some i" "extension_wire_id p b = Some i"
    using assms(2-5) by (auto simp: algorithm_wire_id_def standard_id_def split: if_splits)
  then have m: "(a, i) \<in> set (ac_ids c)" "(b, i) \<in> set (ac_ids c)"
    using extension_wire_id_Some(1) [OF assms(1) _ Some] by blast+
  obtain d where "AlgorithmConfig_parse d = Inr c" using assms(1) Some by (auto simp: config_parsed_def)
  from snd_unique [OF AlgorithmConfig_parse_Inr(5) [OF this] m] show ?thesis .
qed

lemma wire_id_inj:
  assumes "config_parsed p" "algorithm_wire_id p a = Some i" "algorithm_wire_id p b = Some i"
  shows "a = b"
proof (cases "i \<in> set reserved_ids")
  case True
  then have "standard_id a = Some i" "standard_id b = Some i"
    using assms wire_id_extended wire_id_standard by (metis option.exhaust option.inject)+
  then show ?thesis by (auto simp: standard_id_def split: if_splits)
next
  case False
  then have "standard_id a = None" "standard_id b = None"
    using assms wire_id_standard by (metis option.exhaust option.inject)+
  then show ?thesis using wire_id_inj_extended assms by blast
qed

lemma all_algorithms_complete: "a \<in> set all_algorithms"
  by (cases a) (simp_all add: all_algorithms_def)

section \<open>Decisions of the matrix\<close>

lemma firmware_range_Supported:
  "cs_support (firmware_range p a b) = Supported \<longleftrightarrow> (\<exists>v. base_of p = Some v \<and> recognized v \<and> a \<le> v \<and> v \<le> b)"
  by (auto simp: firmware_range_def split: option.splits)

lemma firmware_range_unrecognized:
  "\<not> (\<exists>v. base_of p = Some v \<and> recognized v) \<Longrightarrow>
     firmware_range p a b = \<lparr>cs_support = Unknown, cs_evidence = LatestKnownFallback\<rparr>"
  by (auto simp: firmware_range_def split: option.splits)

lemma base_such_Some: "base_of p = Some v \<Longrightarrow> base_such p P = P v"
  by (simp add: base_such_def)

lemma extended_id_exists:
  assumes "standard_id a = None" "cs_support (firmware_range p (extended_first a) (3, 1, 0)) = Supported"
    "extended_support p a = Supported"
  shows "\<exists>i. algorithm_wire_id p a = Some i"
proof (cases "dp_config p")
  case None
  then have "cs_support (firmware_range p (2, 0, 0) (2, 0, 1)) = Supported"
    using assms(3) by (auto simp: extended_support_def capability_def split: if_splits)
  then obtain v where v: "base_of p = Some v" "(2, 0, 0) \<le> v" "v \<le> (2, 0, 1)"
    by (auto simp: firmware_range_Supported)
  then have "base_such p (\<lambda>v. v \<ge> (2, 0, 0) \<and> v < (3, 0, 0))"
    by (auto simp: base_such_Some less_eq_prod_def less_prod_def)
  moreover have "extended_first a \<le> v" using assms(2) v(1) by (auto simp: firmware_range_Supported)
  ultimately show ?thesis
    using None assms(1) v
    by (cases a) (auto simp: algorithm_wire_id_def extended_first_def standard_id_def Let_def less_eq_prod_def)
next
  case (Some c)
  then have "extension_wire_id p a \<noteq> None" using assms(3) by (auto simp: extended_support_def split: if_splits)
  then show ?thesis
    using Some assms(1) by (auto simp: algorithm_wire_id_def standard_id_def split: if_splits)
qed

lemma key_support_id:
  assumes "cs_support (key_algorithm_support p a) = Supported"
  shows "a \<noteq> Rsa1024" "\<exists>i. algorithm_wire_id p a = Some i" "\<exists>v. base_of p = Some v \<and> recognized v"
proof -
  show "\<exists>v. base_of p = Some v \<and> recognized v" "a \<noteq> Rsa1024"
    using assms by (auto simp: key_algorithm_support_def Let_def firmware_range_Supported split: if_splits)
  show "\<exists>i. algorithm_wire_id p a = Some i"
  proof (cases "standard_id a")
    case None
    then show ?thesis
      using assms extended_id_exists [OF None, of p]
      by (auto simp: key_algorithm_support_def Let_def standard_id_def split: if_splits)
  next
    case (Some i)
    then show ?thesis using wire_id_standard by blast
  qed
qed

section \<open>Properties\<close>

text \<open>C8: PIV algorithm identifiers are unambiguous: for every profile whose configuration came from the
  parser, an identifier names at most one algorithm, so that \<open>algorithm_from_wire_id\<close> is the exact
  inverse of \<open>algorithm_wire_id\<close>, whatever identifiers the card was configured with.\<close>

theorem wire_id_inverse:
  assumes "config_parsed p"
  shows "algorithm_from_wire_id p i = Some a \<longleftrightarrow> algorithm_wire_id p a = Some i"
proof
  assume "algorithm_from_wire_id p i = Some a"
  then show "algorithm_wire_id p a = Some i"
    unfolding algorithm_from_wire_id_def by (auto simp: find_Some_iff)
next
  assume a: "algorithm_wire_id p a = Some i"
  then obtain b where b: "algorithm_from_wire_id p i = Some b"
    using all_algorithms_complete [of a] unfolding algorithm_from_wire_id_def
    by (cases "find (\<lambda>a. algorithm_wire_id p a = Some i) all_algorithms") (auto simp: find_None_iff)
  then have "algorithm_wire_id p b = Some i"
    unfolding algorithm_from_wire_id_def by (auto simp: find_Some_iff)
  then have "b = a" using wire_id_inj [OF assms] a by blast
  then show "algorithm_from_wire_id p i = Some a" using b by simp
qed

definition sample_profile :: DeviceProfile where
  "sample_profile =
     \<lparr>dp_info = \<lparr>di_firmware_text = [], di_firmware = Some \<lparr>fw_major = 3, fw_minor = 1, fw_patch = 2, fw_suffix = None\<rparr>,
                 di_model = None, di_serial = None, di_piv_version = None\<rparr>,
      dp_config = Some \<lparr>ac_enabled = True,
        ac_ids = [(Ed25519, 0x22), (Rsa3072, 0x05), (Rsa4096, 0x16), (X25519, 0xff), (Secp256k1, 0x53), (Sm2, 0x54)],
        ac_raw = [1, 0x22, 0x05, 0x16, 0xff, 0x53, 0x54]\<rparr>,
      dp_legacy_piv_extensions = None, dp_warnings = []\<rparr>"

lemma sample_parsed: "config_parsed sample_profile"
proof -
  have "AlgorithmConfig_parse [1, 0x22, 0x05, 0x16, 0xff, 0x53, 0x54] = Inr (the (dp_config sample_profile))"
    by (simp add: AlgorithmConfig_parse_def config_algorithms_def reserved_ids_def sample_profile_def)
  then show ?thesis by (auto simp: config_parsed_def sample_profile_def)
qed

theorem wire_id_inverse_witness:
  "algorithm_from_wire_id sample_profile 0x22 = Some Ed25519 \<and> algorithm_from_wire_id sample_profile 0xff = None"
proof -
  have "algorithm_wire_id sample_profile Ed25519 = Some 0x22"
    by (simp add: algorithm_wire_id_def extension_wire_id_def AlgorithmConfig_wire_id_def sample_profile_def
        base_such_def)
  moreover have "algorithm_wire_id sample_profile a \<noteq> Some 0xff" for a
    by (cases a) (simp_all add: algorithm_wire_id_def extension_wire_id_def AlgorithmConfig_wire_id_def
        sample_profile_def base_such_def base_of_def compatibility_base_def)
  ultimately show ?thesis
    using wire_id_inverse [OF sample_parsed] by (metis option.exhaust)
qed

text \<open>Nothing is authorised without evidence: whenever a key operation is reported as supported for
  an algorithm, the firmware is one the matrix recognises, the algorithm resolves to a wire
  identifier that is not zero, and on 3.1 and newer the identifiers reserved for AES management and
  randomized signing are never used for an extension. RSA-1024 is never authorised.\<close>

theorem key_support_authorised:
  assumes "config_parsed p" "cs_support (key_algorithm_support p a) = Supported"
  shows "\<exists>i v. algorithm_wire_id p a = Some i \<and> i \<noteq> 0 \<and> base_of p = Some v \<and> recognized v
    \<and> a \<noteq> Rsa1024 \<and> (v \<ge> (3, 1, 0) \<and> dp_config p \<noteq> None \<longrightarrow> i \<noteq> 0x0a \<and> i \<noteq> 0xff)"
proof -
  obtain i v where i: "algorithm_wire_id p a = Some i" and v: "base_of p = Some v" "recognized v"
    using key_support_id [OF assms(2)] by blast
  have nz: "i \<noteq> 0"
  proof (cases "standard_id a")
    case None
    then show ?thesis using wire_id_extended [OF assms(1) None i] by simp
  next
    case (Some j)
    then show ?thesis using wire_id_standard [OF Some, of p] i by (auto simp: reserved_ids_def)
  qed
  have "i \<noteq> 0x0a \<and> i \<noteq> 0xff" if "v \<ge> (3, 1, 0)" "dp_config p \<noteq> None"
  proof (cases "standard_id a")
    case None
    then have "extension_wire_id p a = Some i"
      using i that(2) by (auto simp: algorithm_wire_id_def standard_id_def split: if_splits)
    moreover have "base_such p (\<lambda>v. v \<ge> (3, 1, 0))" using that(1) by (simp only: base_such_Some [OF v(1)])
    moreover have "dp_config p = Some (the (dp_config p))" using that(2) by simp
    ultimately show ?thesis using extension_wire_id_Some(4) [OF assms(1)] by blast
  next
    case (Some j)
    then show ?thesis using wire_id_standard [OF Some, of p] i by (auto simp: reserved_ids_def)
  qed
  then show ?thesis using i nz v key_support_id(1) [OF assms(2)] by blast
qed

theorem key_support_authorised_witness:
  "cs_support (key_algorithm_support sample_profile Ed25519) = Supported
   \<and> (\<exists>i. algorithm_wire_id sample_profile Ed25519 = Some i \<and> i \<noteq> 0 \<and> i \<noteq> 0xff)"
proof -
  have s: "cs_support (key_algorithm_support sample_profile Ed25519) = Supported"
    by (simp add: key_algorithm_support_def firmware_range_def base_of_def compatibility_base_def recognized_def
        sample_profile_def extended_first_def extended_support_def extension_wire_id_def
        AlgorithmConfig_wire_id_def base_such_def less_eq_prod_def)
  have "base_of sample_profile = Some (3, 1, 0)" "dp_config sample_profile \<noteq> None"
    by (simp_all add: base_of_def sample_profile_def compatibility_base_def)
  then show ?thesis using key_support_authorised [OF sample_parsed s] s by auto
qed

text \<open>Firmware outside the matrix gets no guessed behaviour: when the version could not be parsed or
  lies in no recognised range, every range-gated feature is Unknown with fallback evidence (and
  requiring it fails as CapabilityUnknown, never as UnsupportedFeature), no key algorithm and no
  management-key algorithm is authorised, and no Admin layout or legacy framing is selected.\<close>

theorem unrecognized_firmware_unknown:
  assumes "\<not> (\<exists>v. base_of p = Some v \<and> recognized v)"
  shows "(\<forall>f. capability_range f \<noteq> None \<longrightarrow>
        capability p f = \<lparr>cs_support = Unknown, cs_evidence = LatestKnownFallback\<rparr>
        \<and> CapabilityStatus_require (capability p f) = Inl (Error_new CapabilityUnknown))
    \<and> (\<forall>a. cs_support (key_algorithm_support p a) = Unknown)
    \<and> (\<forall>m. cs_support (management_key_support p m) = Unknown)
    \<and> admin_configuration_layout p = Inl (Error_new CapabilityUnknown)
    \<and> with_legacy_piv_extensions p b = Inl (Error_new CapabilityUnknown) \<and> \<not> legacy_explicit_le p"
proof -
  note r = firmware_range_unrecognized [OF assms]
  have "capability p f = \<lparr>cs_support = Unknown, cs_evidence = LatestKnownFallback\<rparr>"
    if "capability_range f \<noteq> None" for f
    using that by (auto simp: capability_def r)
  then show ?thesis
    by (auto simp: CapabilityStatus_require_def key_algorithm_support_def management_key_support_def r
        admin_configuration_layout_def with_legacy_piv_extensions_def legacy_explicit_le_def
        split: ManagementKeyAlgorithm.splits)
qed

theorem unrecognized_firmware_unknown_witness:
  "\<exists>p. base_of p = Some (1, 4, 0) \<and> capability p Oath = \<lparr>cs_support = Unknown, cs_evidence = LatestKnownFallback\<rparr>
     \<and> cs_support (management_key_support p Tdes) = Unknown"
proof -
  let ?p = "sample_profile\<lparr>dp_info := (dp_info sample_profile)\<lparr>di_firmware :=
      Some \<lparr>fw_major = 1, fw_minor = 4, fw_patch = 0, fw_suffix = None\<rparr>\<rparr>\<rparr>"
  have b: "base_of ?p = Some (1, 4, 0)" by (simp add: base_of_def compatibility_base_def)
  then have "\<not> (\<exists>v. base_of ?p = Some v \<and> recognized v)" by (simp add: recognized_def less_eq_prod_def)
  from unrecognized_firmware_unknown [OF this] b show ?thesis by (intro exI [of _ ?p]) auto
qed

text \<open>On recognised firmware the selectors agree with each other: exactly one management-key
  algorithm is supported, the Admin configuration layout is determined and is the one whose bytes
  the separately gated switches need, and the legacy framing ends where AES management begins.\<close>

theorem recognized_firmware_consistent:
  assumes "base_of p = Some v" "recognized v"
  shows "(cs_support (management_key_support p Tdes) = Supported) \<noteq> (cs_support (management_key_support p Aes192) = Supported)
    \<and> legacy_explicit_le p = (cs_support (management_key_support p Tdes) = Supported)
    \<and> (\<exists>l. admin_configuration_layout p = Inr l
         \<and> (l = TouchPolicies \<longleftrightarrow> cs_support (capability p AdminLegacyOpenPgpTouch) = Supported)
         \<and> (l = Features \<longleftrightarrow> cs_support (capability p AdminExtendedConfiguration) = Supported)
         \<and> (l = Reserved \<longleftrightarrow> cs_support (capability p AdminLegacySm2) = Supported)
         \<and> (cs_support (capability p AdminKeyboardReturn) = Supported \<longrightarrow> l = KeyboardReturn)
         \<and> (l \<noteq> TouchPolicies \<longleftrightarrow> cs_support (capability p AdminNdefWebUsb) = Supported))"
proof -
  obtain a b c where v: "v = (a, b, c)" by (cases v) auto
  have adm: "(1, 3, 0) \<le> v" "v \<le> (3, 1, 0)"
    using assms(2) by (auto simp: recognized_def v less_eq_prod_def)
  show ?thesis
    using assms(2) adm
    by (auto simp: firmware_range_def assms(1) management_key_support_def legacy_explicit_le_def
        admin_configuration_layout_def capability_def CapabilityStatus_require_def recognized_def v
        less_eq_prod_def less_prod_def)
qed

theorem recognized_firmware_consistent_witness:
  "cs_support (management_key_support sample_profile Aes192) = Supported
   \<and> admin_configuration_layout sample_profile = Inr Features"
proof -
  have b: "base_of sample_profile = Some (3, 1, 0)" "recognized (3, 1, 0)"
    by (simp_all add: base_of_def sample_profile_def compatibility_base_def recognized_def)
  have "cs_support (management_key_support sample_profile Aes192) = Supported"
    "cs_support (capability sample_profile AdminExtendedConfiguration) = Supported"
    using b by (simp_all add: management_key_support_def capability_def firmware_range_def)
  then show ?thesis using recognized_firmware_consistent [OF b] by auto
qed

text \<open>The matrix has a gap the profile does not announce: for firmware 1.4.0 the range-gated features
  are decided by the conservative fallback, yet the profile carries no fallback warning, and the
  features decided by a plain threshold are answered from the matrix all the same.\<close>

theorem firmware_gap_without_warning:
  "\<exists>p. from_observations (DeviceObservations_new [0x31, 0x2e, 0x34, 0x2e, 0x30]) = Inr p
     \<and> base_of p = Some (1, 4, 0) \<and> dp_warnings p = []
     \<and> capability p Oath = \<lparr>cs_support = Unknown, cs_evidence = LatestKnownFallback\<rparr>
     \<and> capability p Metadata = \<lparr>cs_support = Unsupported, cs_evidence = FirmwareMatrix\<rparr>"
  by (simp add: from_observations_def DeviceObservations_new_def FirmwareVersion_parse_def str_trim_def
      trim_start.simps trim_end.simps leading_ws_def trailing_ws_def whitespace_def suffix_ok_def is_digit_def
      parse_u16_def dec_value_def base_of_def compatibility_base_def capability_def firmware_range_def
      recognized_def threshold_capability_def less_eq_prod_def less_prod_def)

section \<open>Printing versions\<close>

fun digits :: "nat \<Rightarrow> bytes" where
  "digits n = (if n < 10 then [of_nat (n + 0x30)] else digits (n div 10) @ [of_nat (n mod 10 + 0x30)])"

declare digits.simps [simp del]

definition version_text :: "FirmwareVersion \<Rightarrow> bytes" where
  "version_text v =
     digits (fw_major v) @ [0x2e] @ digits (fw_minor v) @ [0x2e] @ digits (fw_patch v)
     @ (case fw_suffix v of None \<Rightarrow> [] | Some s \<Rightarrow> s)"

lemma digit_byte: "k < 10 \<Longrightarrow> unat (of_nat (k + 0x30) :: byte) = k + 0x30"
  by (simp add: unat_word_ariths unat_of_nat)

lemma is_digit_of: "k < 10 \<Longrightarrow> is_digit (of_nat (k + 0x30))"
  using digit_byte [of k] by (simp add: is_digit_def word_le_nat_alt)

lemma digits_ok: "digits n \<noteq> [] \<and> list_all is_digit (digits n) \<and> dec_value (digits n) = n"
proof (induction n rule: digits.induct)
  case (1 n)
  show ?case
  proof (cases "n < 10")
    case True
    then show ?thesis using is_digit_of [of n] digit_byte [of n] by (simp add: digits.simps dec_value_def)
  next
    case False
    have d: "unat (of_nat (n mod 10 + 0x30) :: byte) - 0x30 = n mod 10" "is_digit (of_nat (n mod 10 + 0x30))"
      using digit_byte [of "n mod 10"] is_digit_of [of "n mod 10"] by simp_all
    have "dec_value (digits (n div 10) @ [of_nat (n mod 10 + 0x30)])
      = dec_value (digits (n div 10)) * 10 + (unat (of_nat (n mod 10 + 0x30) :: byte) - 0x30)"
      by (simp only: dec_value_def foldl_append foldl.simps)
    then have "dec_value (digits (n div 10) @ [of_nat (n mod 10 + 0x30)]) = n"
      using 1 False d(1) by simp
    then show ?thesis
      using 1 False d by (simp only: digits.simps [of n]) simp
  qed
qed

lemma parse_u16_digits: "n \<le> 65535 \<Longrightarrow> parse_u16 (digits n) = Some n"
  using digits_ok [of n] by (simp add: parse_u16_def)

lemma split_dot_digits:
  "list_all is_digit d \<Longrightarrow> split_dot (d @ 0x2e # rest) = d # split_dot rest"
  "list_all is_digit d \<Longrightarrow> split_dot d = [d]"
  by (induction d) (auto simp: is_digit_def)

lemma digit_not_sign: "list_all is_digit d \<Longrightarrow> b \<in> set d \<Longrightarrow> b \<noteq> 0x2d \<and> b \<noteq> 0x2b"
  by (auto simp: list_all_iff is_digit_def)

definition visible :: "byte \<Rightarrow> bool" where
  "visible b \<longleftrightarrow> 0x21 \<le> b \<and> b \<le> 0x7e"

lemma not_leading_ws: "s \<noteq> [] \<Longrightarrow> visible (hd s) \<Longrightarrow> trim_start s = s"
proof -
  assume s: "s \<noteq> []" "visible (hd s)"
  then obtain b r where b: "s = b # r" by (cases s) auto
  have "take (length w) s \<noteq> w" if "w \<in> set whitespace" for w
    using that s(2) by (auto simp: whitespace_def b visible_def)
  then have "find (\<lambda>w. take (length w) s = w) whitespace = None" by (auto simp: find_None_iff)
  then show ?thesis by (simp add: trim_start.simps [of s] leading_ws_def)
qed

lemma not_trailing_ws: "s \<noteq> [] \<Longrightarrow> visible (last s) \<Longrightarrow> trim_end s = s"
proof -
  assume s: "s \<noteq> []" "visible (last s)"
  have "\<not> (length w \<le> length s \<and> drop (length s - length w) s = w)" if "w \<in> set whitespace" for w
  proof
    assume a: "length w \<le> length s \<and> drop (length s - length w) s = w"
    have "w \<noteq> []" "\<not> visible (last w)" using that by (auto simp: whitespace_def visible_def)
    then have "last w = last s" using a by (metis last_drop diff_less length_greater_0_conv s(1))
    then show False using \<open>\<not> visible (last w)\<close> s(2) by simp
  qed
  then have "find (\<lambda>w. length w \<le> length s \<and> drop (length s - length w) s = w) whitespace = None"
    by (auto simp: find_None_iff)
  then show ?thesis by (simp add: trim_end.simps [of s] trailing_ws_def)
qed

lemma digit_visible: "is_digit b \<Longrightarrow> visible b \<and> b \<noteq> 0x76"
  by (auto simp: is_digit_def visible_def word_le_nat_alt)

lemma alnum_visible: "is_alnum b \<or> b = 0x2e \<or> b = 0x2b \<or> b = 0x2d \<Longrightarrow> visible b"
  by (auto simp: is_alnum_def is_digit_def visible_def word_le_nat_alt)

text \<open>The suffixes the parser keeps: a sign, then characters of a build suffix.\<close>

definition suffix_form :: "bytes option \<Rightarrow> bool" where
  "suffix_form s \<longleftrightarrow> (case s of None \<Rightarrow> True | Some x \<Rightarrow> x \<noteq> [] \<and> (hd x = 0x2d \<or> hd x = 0x2b) \<and> suffix_ok x)"

lemma suffix_visible: "suffix_form (Some x) \<Longrightarrow> x \<noteq> [] \<and> visible (last x)"
proof -
  assume "suffix_form (Some x)"
  then have x: "x \<noteq> []" "length x \<noteq> 1" "list_all (\<lambda>b. is_alnum b \<or> b = 0x2e \<or> b = 0x2b \<or> b = 0x2d) (drop 1 x)"
    by (auto simp: suffix_form_def suffix_ok_def)
  then have "drop 1 x \<noteq> []" by (cases x) auto
  then have "last x \<in> set (drop 1 x)" by (metis last_drop last_in_set drop_eq_Nil not_le)
  then show ?thesis using x alnum_visible by (auto simp: list_all_iff)
qed

lemma version_parts:
  assumes "suffix_form (fw_suffix v)"
  defines "n \<equiv> digits (fw_major v) @ [0x2e] @ digits (fw_minor v) @ [0x2e] @ digits (fw_patch v)"
    and "s \<equiv> (case fw_suffix v of None \<Rightarrow> [] | Some x \<Rightarrow> x)"
  shows "str_trim (n @ s) = n @ s" "takeWhile (\<lambda>b. b \<noteq> 0x2d \<and> b \<noteq> 0x2b) (n @ s) = n"
    "dropWhile (\<lambda>b. b \<noteq> 0x2d \<and> b \<noteq> 0x2b) (n @ s) = s" "n \<noteq> []" "is_digit (hd n)" "suffix_ok s"
    "split_dot n = [digits (fw_major v), digits (fw_minor v), digits (fw_patch v)]"
proof -
  note d = digits_ok [of "fw_major v"] digits_ok [of "fw_minor v"] digits_ok [of "fw_patch v"]
  show n: "n \<noteq> []" "is_digit (hd n)"
    using d by (auto simp: n_def) (metis hd_append list_all_iff hd_in_set)
  have nosign: "b \<noteq> 0x2d \<and> b \<noteq> 0x2b" if "b \<in> set n" for b
    using that d digit_not_sign by (auto simp: n_def)
  have s: "s = [] \<or> (hd s = 0x2d \<or> hd s = 0x2b) \<and> visible (last s)" "suffix_ok s"
    using assms(1) suffix_visible by (auto simp: s_def suffix_form_def suffix_ok_def split: option.splits)
  show "suffix_ok s" by (rule s(2))
  have ln: "visible (last n)" using d digit_visible by (auto simp: n_def list_all_iff)
  have "visible (last (n @ s))" using s(1) ln by (cases "s = []") auto
  then show "str_trim (n @ s) = n @ s"
    using n digit_visible by (simp add: str_trim_def not_leading_ws not_trailing_ws)
  show "takeWhile (\<lambda>b. b \<noteq> 0x2d \<and> b \<noteq> 0x2b) (n @ s) = n"
    using s(1) nosign by (cases s) (auto simp: takeWhile_append2)
  show "dropWhile (\<lambda>b. b \<noteq> 0x2d \<and> b \<noteq> 0x2b) (n @ s) = s"
    using s(1) nosign by (cases s) (auto simp: dropWhile_append2)
  show "split_dot n = [digits (fw_major v), digits (fw_minor v), digits (fw_patch v)]"
    using d by (simp add: n_def split_dot_digits)
qed

lemma parse_parts:
  assumes "str_trim (n @ s) = n @ s" "takeWhile (\<lambda>b. b \<noteq> 0x2d \<and> b \<noteq> 0x2b) (n @ s) = n"
    "dropWhile (\<lambda>b. b \<noteq> 0x2d \<and> b \<noteq> 0x2b) (n @ s) = s" "n \<noteq> []" "is_digit (hd n)" "suffix_ok s"
    "split_dot n = [digits a, digits b, digits c]" "a \<le> 65535" "b \<le> 65535" "c \<le> 65535"
  shows "FirmwareVersion_parse (n @ s) =
    Some \<lparr>fw_major = a, fw_minor = b, fw_patch = c, fw_suffix = (if s = [] then None else Some s)\<rparr>"
proof -
  obtain x r where "n = x # r" "x \<noteq> 0x76" using assms(4,5) digit_visible by (cases n) auto
  then have "(case n @ s of [] \<Rightarrow> n @ s | y # rest \<Rightarrow> if y = 0x76 then rest else n @ s) = n @ s" by simp
  moreover have "list_all (\<lambda>n. n \<noteq> [] \<and> list_all is_digit n) [digits a, digits b, digits c]"
    using digits_ok by simp
  ultimately show ?thesis
    unfolding FirmwareVersion_parse_def Let_def assms(1)
    by (simp only: assms(2,3,6,7)) (simp add: parse_u16_digits assms(8-10))
qed

text \<open>The firmware version parser reads back every version in its full textual form: a version with 16-bit components and an admissible build suffix is recovered exactly,
  patch and suffix included.\<close>

theorem firmware_text_roundtrip:
  assumes "fw_major v \<le> 65535" "fw_minor v \<le> 65535" "fw_patch v \<le> 65535" "suffix_form (fw_suffix v)"
  shows "FirmwareVersion_parse (version_text v) = Some v"
proof -
  have "FirmwareVersion_parse (version_text v) = Some \<lparr>fw_major = fw_major v, fw_minor = fw_minor v,
      fw_patch = fw_patch v, fw_suffix = (if (case fw_suffix v of None \<Rightarrow> [] | Some x \<Rightarrow> x) = [] then None
        else Some (case fw_suffix v of None \<Rightarrow> [] | Some x \<Rightarrow> x))\<rparr>"
    using parse_parts [OF version_parts [OF assms(4)] assms(1-3)] by (simp add: version_text_def)
  moreover have "(if (case fw_suffix v of None \<Rightarrow> [] | Some x \<Rightarrow> x) = [] then None
      else Some (case fw_suffix v of None \<Rightarrow> [] | Some x \<Rightarrow> x)) = fw_suffix v"
    using assms(4) by (auto simp: suffix_form_def split: option.splits)
  ultimately show ?thesis by simp
qed

theorem firmware_text_roundtrip_witness:
  "FirmwareVersion_parse [0x33, 0x2e, 0x31, 0x2e, 0x31, 0x32, 0x2d, 0x64]
     = Some \<lparr>fw_major = 3, fw_minor = 1, fw_patch = 12, fw_suffix = Some [0x2d, 0x64]\<rparr>"
proof -
  let ?v = "\<lparr>fw_major = 3, fw_minor = 1, fw_patch = 12, fw_suffix = Some [0x2d, 0x64]\<rparr>"
  have "version_text ?v = [0x33, 0x2e, 0x31, 0x2e, 0x31, 0x32, 0x2d, 0x64]"
    by (simp add: version_text_def digits.simps)
  then show ?thesis
    using firmware_text_roundtrip [of ?v] by (simp add: suffix_form_def suffix_ok_def is_alnum_def)
qed
end
