(* ===== verification/Applet.thy ===== *)
theory Applet
  imports Operation Compat
begin

text \<open>
  What the applet crates share: requiring a capability of the device profile, runs of a machine
  recorded as the exchanged commands and responses, and the exact condition under which the
  preflight \<open>validate_command\<close> accepts an unchained short command. The locale
  \<open>preflighted_machine\<close> is the contract between a factory that preflights and the operation that
  later sends the commands: whatever the card answers, no command is rejected half way.
\<close>

section \<open>Capabilities as guards\<close>

definition supports :: "DeviceProfile \<Rightarrow> Capability \<Rightarrow> bool" where
  "supports p feature \<longleftrightarrow> cs_support (capability p feature) = Supported"

definition require :: "DeviceProfile \<Rightarrow> Capability \<Rightarrow> unit res" where
  "require p feature = CapabilityStatus_require (capability p feature)"

definition whenE :: "bool \<Rightarrow> unit res \<Rightarrow> unit res" where
  "whenE b m = (if b then m else Inr ())"

lemma require_eq_Inr [result_simps]: "require p feature = Inr u \<longleftrightarrow> supports p feature"
  by (simp add: require_def supports_def CapabilityStatus_require_def split: Support.splits)

lemma whenE_eq_Inr [result_simps]: "whenE b m = Inr u \<longleftrightarrow> (b \<longrightarrow> m = Inr ())"
  by (simp add: whenE_def)

lemma whenE_simps [simp]: "whenE True m = m" "whenE False m = Inr ()"
  by (simp_all add: whenE_def)

text \<open>A capability gated by firmware ranges is decided only on recognised firmware.\<close>

lemma supports_range:
  assumes "supports p feature" "capability_range feature = Some (first, final)"
  shows "\<exists>v. base_of p = Some v \<and> recognized v \<and> first \<le> v \<and> v \<le> final"
  using assms
  by (auto simp: supports_def capability_def firmware_range_def split: option.splits if_splits)

section \<open>Conversions shared by the applets\<close>

definition of_bool_byte :: "bool \<Rightarrow> byte" where
  "of_bool_byte b = (if b then 1 else 0)"

text \<open>\<open>collect::<Result<_, _>>\<close>: all results, or the first error.\<close>

fun collectE :: "('a \<Rightarrow> 'e + 'b) \<Rightarrow> 'a list \<Rightarrow> 'e + 'b list" where
  "collectE f [] = Inr []"
| "collectE f (x # xs) = bindE (f x) (\<lambda>y. bindE (collectE f xs) (\<lambda>ys. Inr (y # ys)))"

lemma collectE_eq_Inr: "collectE f xs = Inr ys \<longleftrightarrow> list_all2 (\<lambda>x y. f x = Inr y) xs ys"
  by (induction xs arbitrary: ys) (auto simp: bindE_eq_Inr list_all2_Cons1)

lemma collect_require:
  assumes "collectE (require p) fs = Inr us" "f \<in> set fs"
  shows "supports p f"
  using assms by (induction fs arbitrary: us) (auto simp: bindE_eq_Inr require_eq_Inr)

section \<open>Recorded runs\<close>

type_synonym trace = "(LogicalCommand \<times> ResponseData) list"

definition trace_env :: "trace \<Rightarrow> LogicalCommand \<Rightarrow> ResponseData \<Rightarrow> trace \<Rightarrow> bool" where
  "trace_env tr c r tr' \<longleftrightarrow> tr' = tr @ [(c, r)]"

abbreviation trace_run :: "('m, 't) Machine \<Rightarrow> 'm \<Rightarrow> 'm \<Rightarrow> ResponseData option \<Rightarrow> trace \<Rightarrow> bool" where
  "trace_run M m0 m resp tr \<equiv> machine_run M trace_env m0 [] m resp tr"

text \<open>A run against a list of prepared responses, for evaluation.\<close>

fun replay :: "('m, 't) Machine \<Rightarrow> 'm \<Rightarrow> ResponseData option \<Rightarrow> ResponseData list \<Rightarrow> trace
    \<Rightarrow> ('m \<times> ResponseData option \<times> trace)" where
  "replay M m resp [] tr = (m, resp, tr)"
| "replay M m resp (r # rs) tr =
     (case m_next M m resp of
        (m', Inr (Command c)) \<Rightarrow> replay M m' (Some r) rs (tr @ [(c, r)])
      | _ \<Rightarrow> (m, resp, tr))"

lemma replay_run:
  assumes "trace_run M m0 m resp tr" "replay M m resp rs tr = (m', resp', tr')"
  shows "trace_run M m0 m' resp' tr'"
  using assms
proof (induction rs arbitrary: m resp tr)
  case (Cons r rs)
  show ?case
  proof (cases "\<exists>m1 c. m_next M m resp = (m1, Inr (Command c))")
    case True
    then obtain m1 c where nx: "m_next M m resp = (m1, Inr (Command c))" by blast
    have "trace_run M m0 m1 (Some r) (tr @ [(c, r)])"
      using Cons.prems(1) nx by (rule run_exchange) (simp add: trace_env_def)
    then show ?thesis using Cons.IH Cons.prems(2) nx by simp
  next
    case False
    then show ?thesis using Cons.prems by (auto split: prod.splits sum.splits Action.splits)
  qed
qed simp

lemmas replay_from_start = replay_run [OF run_start]

section \<open>Preflight of unchained short commands\<close>

definition le_fits :: "OperationOptions \<Rightarrow> ExpectedLength \<Rightarrow> bool" where
  "le_fits opts le =
     (case le of
        Absent \<Rightarrow> True
      | Exact n \<Rightarrow> n \<noteq> 0 \<and> unat n \<le> 256 \<and> unat n \<le> max_response_bytes (exchange opts) - 2)"

definition short_command :: "LogicalCommand \<Rightarrow> bool" where
  "short_command c \<longleftrightarrow> \<not> lc_allow_extended c \<and> \<not> lc_allow_chaining c \<and> \<not> lc_correct_le c"

lemma short_command_new [simp]: "short_command (LogicalCommand_new h d le)"
  by (simp add: short_command_def LogicalCommand_new_def)

lemma validate_short_iff:
  assumes "short_command c"
  shows "validate_command c opts = Inr () \<longleftrightarrow>
    valid_options opts \<and> \<not> bad_oath_instruction (lc_continuation c)
    \<and> length (lc_data c) \<le> max_input_bytes (limits opts) \<and> le_fits opts (lc_le c)
    \<and> (lc_data c = [] \<or> length (lc_data c) \<le> max_short opts)"
proof -
  have frame: "length (ca_bytes f) \<le> max_command_bytes (exchange opts)"
    if "CommandApdu_encode h d le ApduEncoding.Short = Inr f" "d = [] \<or> length d \<le> max_short opts"
      "valid_options opts" for h d le f
    using that
    by (cases le; cases d)
       (auto simp: CommandApdu_encode_def header_bytes_def lc_field_def max_short_def valid_options_def
         OperationOptions_validate_def Let_def split: if_splits)
  have enc: "(\<exists>f. CommandApdu_encode h d le ApduEncoding.Short = Inr f) \<longleftrightarrow>
      length d < 256 \<and> \<not> le_out_of_range le 256" for h d le
    by (simp add: CommandApdu_encode_def Let_def)
  have chan: "channel_le c opts = (if le_out_of_range (lc_le c) (max_response_bytes (exchange opts) - 2)
        \<and> lc_le c \<noteq> Exact 0 then Inl (Error_new LimitExceeded) else Inr (lc_le c))"
    using assms by (auto simp: channel_le_def short_command_def split: ExpectedLength.splits)
  have fits: "le_fits opts le \<longleftrightarrow> \<not> le_out_of_range le 256
      \<and> \<not> le_out_of_range le (max_response_bytes (exchange opts) - 2)" for le
    by (cases le) (auto simp: le_fits_def)
  have ms: "max_short opts < 256" by (simp add: max_short_def)
  have range: "\<not> le_out_of_range le 65536" if "\<not> le_out_of_range le 256" for le
    using that by (cases le) auto
  have big: "(case le of Absent \<Rightarrow> False | Exact n \<Rightarrow> 256 < unat n) \<Longrightarrow> le_out_of_range le 256" for le
    by (cases le) auto
  have "validate_command c opts = Inr () \<longleftrightarrow> valid_options opts \<and> (\<exists>cs. ConversationState_new c opts = Inr cs)"
    by (auto simp: validate_command_def valid_options_def OperationOptions_validate_def bindE_eq_Inr)
  also have "\<dots> \<longleftrightarrow> valid_options opts \<and> \<not> bad_oath_instruction (lc_continuation c)
    \<and> length (lc_data c) \<le> max_input_bytes (limits opts) \<and> le_fits opts (lc_le c)
    \<and> (lc_data c = [] \<or> length (lc_data c) \<le> max_short opts)" (is "?l \<longleftrightarrow> ?r")
  proof
    assume l: ?l
    then obtain cs fs where new: "\<not> bad_oath_instruction (lc_continuation c)"
      "length (lc_data c) \<le> max_input_bytes (limits opts)" "\<not> le_out_of_range (lc_le c) 65536"
      "channel_le c opts = Inr (lc_le c)" "short_frames c (lc_le c) opts = Inr fs"
      using assms chan
      by (auto simp: ConversationState_new_def extended_frames_def short_command_def bindE_eq_Inr
          split: if_splits)
    then have sf: "lc_data c = [] \<or> length (lc_data c) \<le> max_short opts"
      "\<exists>f. CommandApdu_encode (lc_header c) (lc_data c) (lc_le c) ApduEncoding.Short = Inr f"
      using assms by (auto simp: short_frames_def short_command_def bindE_eq_Inr split: if_splits)
    then have "\<not> le_out_of_range (lc_le c) 256" using enc by simp
    moreover have "\<not> le_out_of_range (lc_le c) (max_response_bytes (exchange opts) - 2)"
      using new(4) chan \<open>\<not> le_out_of_range (lc_le c) 256\<close> by (cases "lc_le c") (auto split: if_splits)
    ultimately show ?r using l new sf fits by blast
  next
    assume r: ?r
    then have "length (lc_data c) < 256" using ms by auto
    then obtain f where f: "CommandApdu_encode (lc_header c) (lc_data c) (lc_le c) ApduEncoding.Short = Inr f"
      using r fits enc by metis
    have "short_frames c (lc_le c) opts = Inr [f]"
      using r f fits big by (auto simp: short_frames_def)
    moreover have "extended_frames c (lc_le c) opts = Inr []"
      using assms by (simp add: extended_frames_def short_command_def)
    ultimately show ?l
      using r fits range chan frame [OF f] by (simp add: ConversationState_new_def)
  qed
  finally show ?thesis .
qed

lemma short_command_update [simp]:
  "short_command (c\<lparr>lc_le := le\<rparr>) = short_command c"
  "short_command (c\<lparr>lc_data := d\<rparr>) = short_command c"
  "short_command (c\<lparr>lc_continuation := k\<rparr>) = short_command c"
  by (simp_all add: short_command_def)

lemma validate_command_new:
  assumes "validate_command c opts = Inr ()"
  shows "valid_options opts \<and> (\<exists>cs. ConversationState_new c opts = Inr cs)"
  using assms by (auto simp: validate_command_def valid_options_def OperationOptions_validate_def bindE_eq_Inr
      split: if_splits)

section \<open>Preflighted machines\<close>

locale preflighted_machine =
  fixes M :: "('m, 't) Machine"
    and I :: "'m \<Rightarrow> bool"
    and opts :: OperationOptions
  assumes keeps: "I m \<Longrightarrow> m_next M m r = (m', Inr (Command c)) \<Longrightarrow> I m'"
    and preflighted: "I m \<Longrightarrow> m_next M m r = (m', Inr (Command c)) \<Longrightarrow> validate_command c opts = Inr ()"
begin

text \<open>
  Driving the machine fails only where the machine itself reports an error or the exchange budget
  is used up, never because a command does not fit the channel.
\<close>

lemma drive_error:
  assumes "op_machine op = Some m" "I m" "op_options op = opts"
    "Operation_drive M op resp = (op', Inl e)"
  shows "(\<exists>m'. m_next M m resp = (m', Inl e)) \<or> op_exchanges op \<ge> max_exchanges (limits opts)"
proof -
  obtain m' res where nx: "m_next M m resp = (m', res)" by fastforce
  show ?thesis
  proof (cases "\<exists>c. res = Inr (Command c)")
    case True
    then obtain c where c: "res = Inr (Command c)" ..
    then obtain cs where "ConversationState_new c opts = Inr cs"
      using preflighted assms(2) nx validate_command_new by blast
    then show ?thesis
      using assms nx c by (auto simp: Operation_drive_def Operation_exchange_def split: if_splits)
  next
    case False
    then show ?thesis
      using assms nx by (auto simp: Operation_drive_def split: sum.splits Action.splits)
  qed
qed

lemma run_preflighted:
  assumes "machine_run M env m0 s0 m resp s" "I m0" "m_next M m resp = (m', Inr (Command c))"
  shows "validate_command c opts = Inr ()"
proof -
  have "I m" using assms(1) by (rule machine_run_invariant) (use assms(2) keeps in blast)+
  then show ?thesis using assms(3) preflighted by blast
qed

end

section \<open>Sample profiles\<close>

text \<open>A profile of plain firmware without observations, and the default options, for concrete runs.\<close>

definition profile_of :: "nat \<Rightarrow> nat \<Rightarrow> nat \<Rightarrow> DeviceProfile" where
  "profile_of a b c =
     \<lparr>dp_info = \<lparr>di_firmware_text = [], di_firmware = Some \<lparr>fw_major = a, fw_minor = b, fw_patch = c, fw_suffix = None\<rparr>,
                 di_model = None, di_serial = None, di_piv_version = None\<rparr>,
      dp_config = None, dp_legacy_piv_extensions = None, dp_warnings = []\<rparr>"

lemma base_of_profile [simp]:
  "base_of (profile_of a b c) = Some (if (a, b) = (3, 1) \<or> (a, b) = (4, 0) then (3, 1, 0) else (a, b, c))"
  by (simp add: base_of_def profile_of_def compatibility_base_def)

lemma di_serial_profile [simp]: "di_serial (dp_info (profile_of a b c)) = None"
  by (simp add: profile_of_def)

lemma supports_profile:
  assumes "capability_range feature = Some (first, final)" "recognized (a, b, c)" "(a, b) \<noteq> (4, 0)"
    "(a, b) = (3, 1) \<longrightarrow> c = 0"
  shows "supports (profile_of a b c) feature \<longleftrightarrow> first \<le> (a, b, c) \<and> (a, b, c) \<le> final"
  using assms by (auto simp: supports_def capability_def firmware_range_def)

definition profile_31 :: DeviceProfile where
  "profile_31 = profile_of 3 1 0"

lemma profile_31 [simp]:
  "base_of profile_31 = Some (3, 1, 0)" "di_serial (dp_info profile_31) = None"
  "di_piv_version (dp_info profile_31) = None"
  by (simp_all add: profile_31_def profile_of_def base_of_def compatibility_base_def)

lemma range_31:
  "cs_support (firmware_range profile_31 first final) = Supported \<longleftrightarrow> first \<le> (3, 1, 0) \<and> (3, 1, 0) \<le> final"
  by (simp add: firmware_range_def recognized_def)

lemma supports_31:
  assumes "capability_range feature = Some (first, final)"
  shows "supports profile_31 feature \<longleftrightarrow> first \<le> (3, 1, 0) \<and> (3, 1, 0) \<le> final"
  using assms by (simp add: supports_def capability_def range_31)

lemma legacy_explicit_le_31 [simp]: "\<not> legacy_explicit_le profile_31"
  by (simp add: legacy_explicit_le_def range_31 less_eq_prod_def)

lemma valid_default [simp]:
  "OperationOptions_validate OperationOptions_default = Inr OperationOptions_default"
  "valid_options OperationOptions_default"
  by (simp_all add: valid_options_def OperationOptions_validate_def OperationOptions_default_def
      ExchangeOptions_default_def OperationLimits_default_def)

lemma default_options [simp]:
  "max_response_bytes (exchange OperationOptions_default) = 258"
  "max_command_bytes (exchange OperationOptions_default) = 261"
  "max_exchanges (limits OperationOptions_default) = 4096"
  by (simp_all add: OperationOptions_default_def ExchangeOptions_default_def OperationLimits_default_def)

lemma validate_default:
  assumes "short_command c" "length (lc_data c) \<le> 255" "\<not> bad_oath_instruction (lc_continuation c)"
    "le_fits OperationOptions_default (lc_le c)"
  shows "validate_command c OperationOptions_default = Inr ()"
  using assms by (simp add: validate_short_iff max_short_def)
    (simp add: OperationOptions_default_def OperationLimits_default_def)

end
