(* ===== verification/Oath_Applet.thy ===== *)
theory Oath_Applet
  imports Applet Codec
begin

text \<open>
  The OATH applet (\<open>canokey-oath/src\<close>): requests and outcomes (\<open>types.rs\<close>), the construction of
  every command in both firmware dialects, the parsers of the one-byte tag/length fields, and the
  machine that selects the applet, performs the mutual access validation when the card asks for it
  and sends the requested command (\<open>execute.rs\<close>).

  HMAC-SHA1 and PBKDF2 come from third-party crates. They are parameters of the definitions that use
  them: \<open>hm key message\<close> is the 20-byte tag of \<open>Hmac<Sha1>\<close>, \<open>kdf password salt\<close> the 16 bytes of
  \<open>pbkdf2_hmac::<Sha1>\<close> with 1000 iterations. \<open>verify_slice\<close> compares the whole tag. A fixed array
  such as \<open>[u8; 8]\<close> is a byte string; \<open>request_typed\<close> and \<open>access_typed\<close> state the lengths its type
  guarantees.
\<close>

section \<open>Types\<close>

type_synonym Name = bytes
type_synonym AccessKey = bytes

definition Name_from_bytes :: "bytes \<Rightarrow> Name res" where
  "Name_from_bytes bs =
     (if \<not> (1 \<le> length bs \<and> length bs \<le> 64) then Inl (Error_new InvalidArgument) else Inr bs)"

datatype OathAlgorithm = Sha1 | Sha256 | Sha512

fun OathAlgorithm_wire :: "OathAlgorithm \<Rightarrow> byte" where
  "OathAlgorithm_wire Sha1 = 1"
| "OathAlgorithm_wire Sha256 = 2"
| "OathAlgorithm_wire Sha512 = 3"

fun OathAlgorithm_len :: "OathAlgorithm \<Rightarrow> nat" where
  "OathAlgorithm_len Sha1 = 20"
| "OathAlgorithm_len Sha256 = 32"
| "OathAlgorithm_len Sha512 = 64"

datatype Kind = Hotp | Totp

fun Kind_wire :: "Kind \<Rightarrow> byte" where
  "Kind_wire Hotp = 0x10"
| "Kind_wire Totp = 0x20"

record Credential =
  cr_name :: Name
  cr_kind :: Kind
  cr_algorithm :: OathAlgorithm
  cr_digits :: byte
  cr_secret :: bytes
  cr_require_touch :: bool
  cr_increasing :: bool
  cr_initial_counter :: "32 word"

definition AccessKey_from_bytes :: "bytes \<Rightarrow> AccessKey res" where
  "AccessKey_from_bytes bs = (if length bs \<noteq> 16 then Inl (Error_new InvalidArgument) else Inr bs)"

definition AccessKey_from_password :: "(bytes \<Rightarrow> bytes \<Rightarrow> bytes) \<Rightarrow> bytes \<Rightarrow> bytes \<Rightarrow> AccessKey" where
  "AccessKey_from_password kdf password handle = kdf password handle"

record Access =
  ax_key :: AccessKey
  ax_challenge :: bytes

record Selection =
  sel_version :: bytes
  sel_handle :: bytes
  sel_challenge :: "bytes option"
  sel_algorithm :: "byte option"
  sel_raw :: bytes

datatype Format = Truncated | Full

datatype DefaultSlot = Short | Long

fun DefaultSlot_wire :: "DefaultSlot \<Rightarrow> byte" where
  "DefaultSlot_wire Short = 1"
| "DefaultSlot_wire Long = 2"

datatype HmacSlot = HmacShort | HmacLong

fun HmacSlot_wire :: "HmacSlot \<Rightarrow> byte" where
  "HmacSlot_wire HmacShort = 0x30"
| "HmacSlot_wire HmacLong = 0x38"

datatype Request =
    Select
  | Validate
  | ListNames
  | Put Credential
  | Delete Name
  | Rename Name Name
  | Calculate Name Kind OathAlgorithm "bytes option" Format
  | CalculateAll bytes Format
  | SetCode AccessKey bytes
  | ClearCode
  | SetDefault DefaultSlot bool Name
  | GetSerial
  | ChallengeResponseHmac HmacSlot bytes

record Entry =
  en_name :: Name
  en_algorithm_type :: byte
  en_digits :: "byte option"

datatype Code = TruncatedCode bytes | FullCode bytes | HotpMarker | TouchRequired

record Calculation =
  ca_name :: "Name option"
  ca_digits :: byte
  ca_code :: Code

datatype Outcome =
    SelectionOutcome Selection
  | LegacySelection "bytes option"
  | Entries "Entry list"
  | Calculations "Calculation list"
  | Serial bytes
  | ChallengeResponse bytes
  | Unit

text \<open>
  \<open>Calculation::decimal\<close>: the loop fills the digits from the last to the first, dividing the number
  on the way; \<open>decimal_digits\<close> are its digits for a number and a width.
\<close>

primrec decimal_digits :: "nat \<Rightarrow> 32 word \<Rightarrow> bytes" where
  "decimal_digits 0 number = []"
| "decimal_digits (Suc n) number = decimal_digits n (number div 10) @ [0x30 + ucast (number mod 10)]"

definition Calculation_decimal :: "Calculation \<Rightarrow> bytes option" where
  "Calculation_decimal c =
     (case ca_code c of
        TruncatedCode bs \<Rightarrow>
          if length bs \<noteq> 4 then None
          else
            (let number = from_be bs :: 32 word in
             if \<not> (4 \<le> ca_digits c \<and> ca_digits c \<le> 8) then None
             else Some (decimal_digits (unat (ca_digits c)) number))
      | _ \<Rightarrow> None)"

definition oath_invalid :: Error where
  "oath_invalid = Error_at (Error_new InvalidResponse) Phase.Parsing"

section \<open>Commands\<close>

definition oath_argument :: Error where
  "oath_argument = Error_new InvalidArgument"

definition oath_field :: "byte \<Rightarrow> bytes \<Rightarrow> bytes" where
  "oath_field tg bs = [tg, of_nat (length bs)] @ bs"

definition oath_command :: "byte \<Rightarrow> byte \<Rightarrow> byte \<Rightarrow> bytes \<Rightarrow> ExpectedLength \<Rightarrow> LogicalCommand" where
  "oath_command i a b d le =
     (LogicalCommand_new (ApduHeader_new 0 i a b) [] le)\<lparr>lc_data := d, lc_continuation := NoContinuation\<rparr>"

definition oath_select :: LogicalCommand where
  "oath_select = oath_command 0xa4 4 0 [0xa0, 0, 0, 5, 0x27, 0x21, 1] Absent"

definition oath_validate :: "(bytes \<Rightarrow> bytes \<Rightarrow> bytes) \<Rightarrow> Access \<Rightarrow> bytes \<Rightarrow> ExpectedLength \<Rightarrow> LogicalCommand" where
  "oath_validate hm access challenge le =
     oath_command 0xa3 0 0
       (oath_field 0x75 (hm (ax_key access) challenge) @ oath_field 0x74 (ax_challenge access)) le"

definition credential_data :: "bool \<Rightarrow> Credential \<Rightarrow> bytes" where
  "credential_data legacy c =
     (let properties = of_bool_byte (cr_increasing c) OR push_bit 1 (of_bool_byte (cr_require_touch c)) in
      oath_field 0x71 (cr_name c)
      @ [0x73, of_nat (length (cr_secret c) + 2), Kind_wire (cr_kind c) OR OathAlgorithm_wire (cr_algorithm c),
         cr_digits c]
      @ cr_secret c
      @ (if properties \<noteq> 0 then (if legacy then oath_field 0x78 [properties] else [0x78, properties]) else [])
      @ (if cr_kind c = Hotp then oath_field 0x7a (to_be_bytes 4 (cr_initial_counter c)) else []))"

definition credential_rejected :: "Credential \<Rightarrow> bool" where
  "credential_rejected c \<longleftrightarrow>
     \<not> (4 \<le> cr_digits c \<and> cr_digits c \<le> 8)
     \<or> \<not> (1 \<le> length (cr_secret c) \<and> length (cr_secret c) \<le> 64)
     \<or> cr_kind c = Totp \<and> cr_initial_counter c \<noteq> 0
     \<or> cr_kind c = Hotp \<and> cr_increasing c"

definition paged_command :: "bool \<Rightarrow> LogicalCommand \<Rightarrow> LogicalCommand" where
  "paged_command legacy c = c\<lparr>lc_continuation := Continuation.Oath (if legacy then 6 else 0xa5) True\<rparr>"

fun oath_target :: "(bytes \<Rightarrow> bytes \<Rightarrow> bytes) \<Rightarrow> Request \<Rightarrow> bool \<Rightarrow> bool \<Rightarrow> LogicalCommand option res" where
  "oath_target hm Select legacy slots = Inr None"
| "oath_target hm Validate legacy slots = Inr None"
| "oath_target hm ListNames legacy slots =
     Inr (Some (paged_command legacy (oath_command (if legacy then 3 else 0xa1) 0 0 [] (Exact 255))))"
| "oath_target hm (Put c) legacy slots =
     (if credential_rejected c then Inl oath_argument
      else Inr (Some (oath_command 1 0 0 (credential_data legacy c) Absent)))"
| "oath_target hm (Delete name) legacy slots =
     Inr (Some (oath_command 2 0 0 (oath_field 0x71 name) Absent))"
| "oath_target hm (Rename old new) legacy slots =
     Inr (Some (oath_command 5 0 0 (oath_field 0x71 old @ oath_field 0x71 new) Absent))"
| "oath_target hm (Calculate name kind alg challenge fmt) legacy slots =
     (if (kind = Totp) \<noteq> (challenge \<noteq> None) then Inl oath_argument
      else Inr (Some (oath_command (if legacy then 4 else 0xa2) 0 (of_bool_byte (\<not> legacy \<and> fmt = Truncated))
        (oath_field 0x71 name @ (case challenge of Some ch \<Rightarrow> oath_field 0x74 ch | None \<Rightarrow> [])) Absent)))"
| "oath_target hm (CalculateAll challenge fmt) legacy slots =
     Inr (Some (paged_command legacy
       (oath_command (if legacy then 5 else 0xa4) 0 (of_bool_byte (\<not> legacy \<and> fmt = Truncated))
         (oath_field 0x74 challenge) (Exact 255))))"
| "oath_target hm (SetCode key challenge) legacy slots =
     Inr (Some (oath_command 3 0 0
       ([0x73, 17, 1] @ key @ oath_field 0x74 challenge @ oath_field 0x75 (hm key challenge)) Absent))"
| "oath_target hm ClearCode legacy slots =
     Inr (Some (oath_command 3 0 0 (oath_field 0x73 []) Absent))"
| "oath_target hm (SetDefault slot append_enter name) legacy slots =
     Inr (Some (oath_command 0x55 (if slots then DefaultSlot_wire slot else 0)
       (if slots then of_bool_byte append_enter else 0) (oath_field 0x71 name) Absent))"
| "oath_target hm GetSerial legacy slots = Inr (Some (oath_command 1 0x10 0 [] Absent))"
| "oath_target hm (ChallengeResponseHmac slot challenge) legacy slots =
     (if length challenge > 64 then Inl oath_argument
      else Inr (Some (oath_command 1 (HmacSlot_wire slot) 0 challenge Absent)))"

section \<open>Response parsing\<close>

text \<open>The loop of \<open>fields\<close>, front field first.\<close>

function oath_fields :: "bytes \<Rightarrow> (byte \<times> bytes) list res" where
  "oath_fields bs =
     (if bs = [] then Inr []
      else if length bs < 2 \<or> length bs - 2 < unat (bs ! 1) then Inl oath_invalid
      else
        (let stop = 2 + unat (bs ! 1) in
         bindE (oath_fields (drop stop bs)) (\<lambda>rest. Inr ((bs ! 0, take (unat (bs ! 1)) (drop 2 bs)) # rest))))"
  by pat_completeness auto
termination
  by (relation "measure length") auto

declare oath_fields.simps [simp del]

definition fixed_array :: "nat \<Rightarrow> bytes \<Rightarrow> bytes res" where
  "fixed_array n bs = (if length bs = n then Inr bs else Inl oath_invalid)"

text \<open>The state of the loop of \<open>selection\<close>: version, handle, challenge, algorithm.\<close>

type_synonym selection_state = "bytes option \<times> bytes option \<times> bytes option \<times> byte option"

fun selection_field :: "selection_state \<Rightarrow> byte \<times> bytes \<Rightarrow> selection_state res" where
  "selection_field (version, handle, challenge, algorithm) (tg, bs) =
     (if tg = 0x79 \<and> version = None then bindE (fixed_array 3 bs) (\<lambda>v. Inr (Some v, handle, challenge, algorithm))
      else if tg = 0x71 \<and> handle = None then bindE (fixed_array 8 bs) (\<lambda>h. Inr (version, Some h, challenge, algorithm))
      else if tg = 0x74 \<and> challenge = None then bindE (fixed_array 8 bs) (\<lambda>c. Inr (version, handle, Some c, algorithm))
      else if tg = 0x7b \<and> algorithm = None \<and> length bs = 1 then Inr (version, handle, challenge, Some (bs ! 0))
      else if tg = 0x79 \<or> tg = 0x71 \<or> tg = 0x74 \<or> tg = 0x7b then Inl oath_invalid
      else Inr (version, handle, challenge, algorithm))"

definition selection :: "bytes \<Rightarrow> Selection res" where
  "selection d =
     bindE (oath_fields d) (\<lambda>fs.
     bindE (foldE selection_field (None, None, None, None) fs) (\<lambda>(version, handle, challenge, algorithm).
       if (challenge \<noteq> None) \<noteq> (algorithm \<noteq> None) then Inl oath_invalid
       else bindE (ok_or version oath_invalid) (\<lambda>v.
            bindE (ok_or handle oath_invalid) (\<lambda>h.
            Inr \<lparr>sel_version = v, sel_handle = h, sel_challenge = challenge, sel_algorithm = algorithm,
                 sel_raw = d\<rparr>))))"

definition calculation ::
  "byte \<Rightarrow> bytes \<Rightarrow> Format \<Rightarrow> OathAlgorithm option \<Rightarrow> bool \<Rightarrow> Calculation res" where
  "calculation tg raw fmt algorithm markers =
     bindE (ok_or (get_at raw 0) oath_invalid) (\<lambda>digits.
       if \<not> (4 \<le> digits \<and> digits \<le> 8) then Inl oath_invalid
       else
         (let bs = drop 1 raw in
          bindE (if tg = 0x76 \<and> fmt = Truncated \<and> length bs = 4 \<and> (bs ! 0) AND 0x80 = 0
                 then Inr (TruncatedCode bs)
                 else if tg = 0x75 \<and> fmt = Full
                      \<and> (case algorithm of None \<Rightarrow> length bs \<in> set [20, 32, 64]
                                         | Some a \<Rightarrow> OathAlgorithm_len a = length bs)
                 then Inr (FullCode bs)
                 else if tg = 0x77 \<and> markers \<and> bs = [] then Inr HotpMarker
                 else if tg = 0x7c \<and> markers \<and> bs = [] then Inr TouchRequired
                 else Inl oath_invalid) (\<lambda>code.
            Inr \<lparr>ca_name = None, ca_digits = digits, ca_code = code\<rparr>)))"

definition response_name :: "bytes \<Rightarrow> Name res" where
  "response_name bs = (case Name_from_bytes bs of Inl _ \<Rightarrow> Inl oath_invalid | Inr n \<Rightarrow> Inr n)"

text \<open>\<open>chunks_exact(2)\<close> of an even number of fields, with the loop body of each request.\<close>

fun legacy_entries :: "(byte \<times> bytes) list \<Rightarrow> Entry list res" where
  "legacy_entries ((t0, b0) # (t1, b1) # rest) =
     (if t0 \<noteq> 0x71 \<or> t1 \<noteq> 0x75 \<or> length b1 \<noteq> 2 then Inl oath_invalid
      else bindE (response_name b0) (\<lambda>n.
           bindE (legacy_entries rest) (\<lambda>es.
           Inr (\<lparr>en_name = n, en_algorithm_type = b1 ! 0, en_digits = Some (b1 ! 1)\<rparr> # es))))"
| "legacy_entries _ = Inr []"

definition modern_entry :: "byte \<times> bytes \<Rightarrow> Entry res" where
  "modern_entry f =
     (if fst f \<noteq> 0x72 \<or> length (snd f) < 2 then Inl oath_invalid
      else bindE (response_name (drop 1 (snd f))) (\<lambda>n.
        Inr \<lparr>en_name = n, en_algorithm_type = snd f ! 0, en_digits = None\<rparr>))"

fun all_calculations :: "Format \<Rightarrow> (byte \<times> bytes) list \<Rightarrow> Calculation list res" where
  "all_calculations fmt ((t0, b0) # (t1, b1) # rest) =
     (if t0 \<noteq> 0x71 then Inl oath_invalid
      else bindE (calculation t1 b1 fmt None True) (\<lambda>c.
           bindE (response_name b0) (\<lambda>n.
           bindE (all_calculations fmt rest) (\<lambda>cs. Inr (c\<lparr>ca_name := Some n\<rparr> # cs)))))"
| "all_calculations fmt _ = Inr []"

definition oath_result :: "Request \<Rightarrow> bytes \<Rightarrow> bool \<Rightarrow> Outcome res" where
  "oath_result request d legacy =
     (case request of
        ListNames \<Rightarrow>
          if legacy then
            bindE (oath_fields d) (\<lambda>fs.
              if length fs mod 2 \<noteq> 0 then Inl oath_invalid
              else bindE (legacy_entries fs) (\<lambda>es. Inr (Entries es)))
          else bindE (oath_fields d) (\<lambda>fs. bindE (collectE modern_entry fs) (\<lambda>es. Inr (Entries es)))
      | Calculate name kind algorithm challenge fmt \<Rightarrow>
          bindE (oath_fields d) (\<lambda>fs.
            if length fs \<noteq> 1 then Inl oath_invalid
            else bindE (calculation (fst (fs ! 0)) (snd (fs ! 0)) fmt (Some algorithm) False) (\<lambda>c.
              Inr (Calculations [c])))
      | CalculateAll challenge fmt \<Rightarrow>
          bindE (oath_fields d) (\<lambda>fs.
            if length fs mod 2 \<noteq> 0 then Inl oath_invalid
            else bindE (all_calculations fmt fs) (\<lambda>cs. Inr (Calculations cs)))
      | GetSerial \<Rightarrow> bindE (fixed_array 4 d) (\<lambda>s. Inr (Serial s))
      | ChallengeResponseHmac slot challenge \<Rightarrow>
          if length d \<noteq> 20 then Inl oath_invalid else Inr (ChallengeResponse d)
      | _ \<Rightarrow> if d = [] then Inr Unit else Inl oath_invalid)"

section \<open>The machine\<close>

record Oath =
  oa_request :: Request
  oa_access :: "Access option"
  oa_target :: "LogicalCommand option"
  oa_phase :: nat
  oa_legacy :: bool
  oa_explicit_le :: bool
  oa_serial :: "bytes option"

definition Oath_target :: "Oath \<Rightarrow> Oath \<times> Outcome Action res" where
  "Oath_target m =
     (case oa_target m of
        Some c \<Rightarrow> (m\<lparr>oa_phase := 3, oa_target := None\<rparr>, Inr (Command c))
      | None \<Rightarrow> (m\<lparr>oa_phase := 3\<rparr>, Inr (Action.Done Unit)))"

fun names_missing :: "Request \<Rightarrow> bool" where
  "names_missing (Delete _) = True"
| "names_missing (Rename _ _) = True"
| "names_missing (Calculate _ _ _ _ _) = True"
| "names_missing (SetDefault _ _ _) = True"
| "names_missing _ = False"

fun is_hmac_request :: "Request \<Rightarrow> bool" where
  "is_hmac_request (ChallengeResponseHmac _ _) = True"
| "is_hmac_request _ = False"

definition challenge_response :: "Request \<Rightarrow> bool" where
  "challenge_response r \<longleftrightarrow> r = GetSerial \<or> is_hmac_request r"

definition oath_status_error :: "Oath \<Rightarrow> StatusWord \<Rightarrow> Error" where
  "oath_status_error m sw =
     (let ph = (if oa_phase m = 1 then Phase.Select else if oa_phase m = 2 then Phase.Authentication
                else Phase.Command);
          e = Error_status sw ph (if oa_phase m = 2 then Some OathAccess else None);
          e = (if oa_phase m = 2 \<and> sw = 0x6a80 then e\<lparr>e_kind := AuthenticationFailed\<rparr> else e);
          e = (if oa_phase m = 3 \<and> sw = 0x6984 \<and> names_missing (oa_request m) then e\<lparr>e_kind := NotFound\<rparr> else e)
      in if oa_phase m = 3 \<and> sw = 0x6a82 \<and> is_hmac_request (oa_request m) then e\<lparr>e_kind := NotFound\<rparr> else e)"

definition explicit_le :: "Oath \<Rightarrow> ExpectedLength" where
  "explicit_le m = (if oa_explicit_le m then Exact 256 else Absent)"

text \<open>The arm for the response of SELECT.\<close>

definition Oath_selected :: "(bytes \<Rightarrow> bytes \<Rightarrow> bytes) \<Rightarrow> Oath \<Rightarrow> bytes \<Rightarrow> Oath \<times> Outcome Action res" where
  "Oath_selected hm m d =
     (if oa_legacy m then
        (if d \<noteq> [] then (m, Inl oath_invalid)
         else if oa_request m = Select then (m, Inr (Action.Done (LegacySelection (oa_serial m))))
         else Oath_target m)
      else case selection d of
        Inl e \<Rightarrow> (m, Inl e)
      | Inr sel \<Rightarrow>
          if oa_request m = Select then (m, Inr (Action.Done (SelectionOutcome sel)))
          else if challenge_response (oa_request m) then Oath_target m
          else
            (case (oa_access m, sel_challenge sel) of
               (None, None) \<Rightarrow> Oath_target m
             | (None, Some _) \<Rightarrow> (m, Inl (Error_at (Error_new SecurityStatusNotSatisfied) Phase.Authentication))
             | (Some _, None) \<Rightarrow> (m, Inl (Error_at (Error_new ConditionsNotSatisfied) Phase.Authentication))
             | (Some access, Some challenge) \<Rightarrow>
                 if sel_algorithm sel \<noteq> Some 1 then (m, Inl (Error_new UnsupportedAlgorithm))
                 else (m\<lparr>oa_phase := 2\<rparr>, Inr (Command (oath_validate hm access challenge (explicit_le m))))))"

text \<open>The arm for the response of VALIDATE: the card proves that it has the key.\<close>

definition Oath_validated :: "(bytes \<Rightarrow> bytes \<Rightarrow> bytes) \<Rightarrow> Oath \<Rightarrow> bytes \<Rightarrow> Oath \<times> Outcome Action res" where
  "Oath_validated hm m d =
     (case oath_fields d of
        Inl e \<Rightarrow> (m, Inl e)
      | Inr fs \<Rightarrow>
          if length fs \<noteq> 1 \<or> fst (fs ! 0) \<noteq> 0x75 \<or> length (snd (fs ! 0)) \<noteq> 20 then (m, Inl oath_invalid)
          else
            (case oa_access m of
               None \<Rightarrow> (m, Inl oath_invalid)
             | Some access \<Rightarrow>
                 (let m' = m\<lparr>oa_access := None\<rparr> in
                  if hm (ax_key access) (ax_challenge access) \<noteq> snd (fs ! 0)
                  then (m', Inl (Error_at (Error_new DeviceAuthenticationFailed) Phase.Authentication))
                  else Oath_target m')))"

definition Oath_next ::
  "(bytes \<Rightarrow> bytes \<Rightarrow> bytes) \<Rightarrow> Oath \<Rightarrow> ResponseData option \<Rightarrow> Oath \<times> Outcome Action res" where
  "Oath_next hm m response =
     (if oa_phase m = 0
      then (m\<lparr>oa_phase := 1\<rparr>,
            Inr (Command (if oa_explicit_le m then oath_select\<lparr>lc_le := Exact 256\<rparr> else oath_select)))
      else case response of
        None \<Rightarrow> (m, Inl oath_invalid)
      | Some r \<Rightarrow>
          if \<not> StatusWord_is_success (rd_status r) then (m, Inl (oath_status_error m (rd_status r)))
          else if oa_phase m = 1 then Oath_selected hm m (rd_data r)
          else if oa_phase m = 2 then Oath_validated hm m (rd_data r)
          else if oa_phase m = 3
          then (m, bindE (oath_result (oa_request m) (rd_data r) (oa_legacy m)) (\<lambda>out. Inr (Action.Done out)))
          else (m, Inl oath_invalid))"

abbreviation Oath_ops :: "(bytes \<Rightarrow> bytes \<Rightarrow> bytes) \<Rightarrow> (Oath, Outcome) Machine" where
  "Oath_ops hm \<equiv> plain_machine (Oath_next hm)"

section \<open>The factory\<close>

fun needs_modern :: "Request \<Rightarrow> bool" where
  "needs_modern Validate = True"
| "needs_modern (SetCode _ _) = True"
| "needs_modern ClearCode = True"
| "needs_modern (Rename _ _) = True"
| "needs_modern (Put c) = (cr_algorithm c = Sha512)"
| "needs_modern (Calculate _ _ alg _ _) = (alg = Sha512)"
| "needs_modern _ = False"

fun needs_full_response :: "Request \<Rightarrow> bool" where
  "needs_full_response (Calculate _ _ _ _ fmt) = (fmt = Full)"
| "needs_full_response (CalculateAll _ fmt) = (fmt = Full)"
| "needs_full_response _ = False"

fun exceeds_single_slot :: "Request \<Rightarrow> bool" where
  "exceeds_single_slot (SetDefault slot append_enter _) = (slot \<noteq> Short \<or> append_enter)"
| "exceeds_single_slot _ = False"

fun page_minimum :: "Request \<Rightarrow> bool \<Rightarrow> nat option" where
  "page_minimum ListNames legacy = Some (if legacy then 70 else 67)"
| "page_minimum (CalculateAll _ _) legacy = Some 133"
| "page_minimum _ legacy = None"

text \<open>The checks of \<open>operation\<close> before any command is built, in their order.\<close>

definition oath_guards :: "DeviceProfile \<Rightarrow> Request \<Rightarrow> Access option \<Rightarrow> unit res" where
  "oath_guards p request access =
     bindE (require p Capability.Oath) (\<lambda>_.
     bindE (ensureE (\<not> (request = Select \<and> access \<noteq> None \<or> request = Validate \<and> access = None
                        \<or> challenge_response request \<and> access \<noteq> None)) oath_argument) (\<lambda>_.
     bindE (whenE (challenge_response request) (require p OathChallengeResponse)) (\<lambda>_.
     bindE (ensureE (supports p OathSetDefaultSlots \<or> \<not> exceeds_single_slot request) oath_argument) (\<lambda>_.
     bindE (whenE (access \<noteq> None \<or> needs_modern request) (require p OathModern)) (\<lambda>_.
     whenE (needs_full_response request) (require p OathFullResponse))))))"

definition le_256 :: "bool \<Rightarrow> LogicalCommand \<Rightarrow> LogicalCommand" where
  "le_256 b c = (if b then c\<lparr>lc_le := Exact 256\<rparr> else c)"

text \<open>The Le of the target: explicit for old firmware, one page within the channel for a paged request.\<close>

definition oath_paging ::
  "Request \<Rightarrow> bool \<Rightarrow> OperationOptions \<Rightarrow> LogicalCommand option \<Rightarrow> LogicalCommand option res" where
  "oath_paging request legacy opts tgt =
     (case page_minimum request legacy of
        None \<Rightarrow> Inr tgt
      | Some minimum \<Rightarrow>
          if max_response_bytes (exchange opts) < minimum + 2 then Inl (Error_new LimitExceeded)
          else Inr (map_option
            (\<lambda>c. c\<lparr>lc_le := Exact (of_nat (min 255 (max_response_bytes (exchange opts) - 2)))\<rparr>) tgt))"

definition oath_operation ::
  "(bytes \<Rightarrow> bytes \<Rightarrow> bytes) \<Rightarrow> DeviceProfile \<Rightarrow> Request \<Rightarrow> Access option \<Rightarrow> OperationOptions
   \<Rightarrow> (Oath, Outcome) Operation res" where
  "oath_operation hm p request access opts =
     bindE (oath_guards p request access) (\<lambda>_.
     let legacy = supports p OathLegacy; slots = supports p OathSetDefaultSlots;
         explicit = legacy_explicit_le p in
     bindE (oath_target hm request legacy slots) (\<lambda>tgt0.
     bindE (oath_paging request legacy opts (map_option (le_256 explicit) tgt0)) (\<lambda>tgt.
     bindE (validate_command (le_256 explicit oath_select) opts) (\<lambda>_.
     bindE (case tgt of Some c \<Rightarrow> validate_command c opts | None \<Rightarrow> Inr ()) (\<lambda>_.
     bindE (whenE (access \<noteq> None)
              (validate_command (oath_command 0xa3 0 0 (replicate 32 0) Absent) opts)) (\<lambda>_.
       Operation_from_machine
         \<lparr>oa_request = request, oa_access = access, oa_target = tgt, oa_phase = 0, oa_legacy = legacy,
          oa_explicit_le = explicit,
          oa_serial = Option.bind (di_serial (dp_info p)) (\<lambda>s. if length s = 4 then Some s else None)\<rparr>
         opts))))))"

section \<open>Well-typed inputs\<close>

text \<open>The lengths that the Rust types of the inputs guarantee.\<close>

definition access_typed :: "Access option \<Rightarrow> bool" where
  "access_typed access = (case access of None \<Rightarrow> True | Some a \<Rightarrow> length (ax_challenge a) = 8)"

section \<open>The field codec\<close>

definition oath_wire :: "byte \<times> bytes \<Rightarrow> bytes" where
  "oath_wire f = oath_field (fst f) (snd f)"

definition oath_step :: "bytes \<Rightarrow> ((byte \<times> bytes) \<times> bytes) option" where
  "oath_step bs =
     (if length bs < 2 \<or> length bs - 2 < unat (bs ! 1) then None
      else Some ((bs ! 0, take (unat (bs ! 1)) (drop 2 bs)), drop (2 + unat (bs ! 1)) bs))"

abbreviation oath_field_ok :: "byte \<times> bytes \<Rightarrow> bool" where
  "oath_field_ok f \<equiv> length (snd f) \<le> 255"

lemma unat_of_nat_byte: "n \<le> 255 \<Longrightarrow> unat (of_nat n :: byte) = n"
  by (simp add: unat_of_nat take_bit_nat_eq_self)

lemma oath_step_sound:
  assumes "oath_step bs = Some (f, rest)"
  shows "oath_field_ok f \<and> bs = oath_wire f @ rest"
proof -
  from assms have len: "2 \<le> length bs" "unat (bs ! 1) \<le> length bs - 2"
    and f: "f = (bs ! 0, take (unat (bs ! 1)) (drop 2 bs))" and rest: "rest = drop (2 + unat (bs ! 1)) bs"
    by (auto simp: oath_step_def split: if_splits)
  obtain a b ds where bs: "bs = a # b # ds"
    using len(1) by (cases bs; cases "tl bs") auto
  have "unat b \<le> 255" using byte_less_256 [of b] by simp
  then show ?thesis using len bs f rest by (simp add: oath_wire_def oath_field_def)
qed

interpretation oath_codec: prefix_codec oath_wire oath_step oath_field_ok "\<lambda>_. True"
proof unfold_locales
  show "oath_step (oath_wire f @ rest) = Some (f, rest)" if "oath_field_ok f" for f rest
    using that by (simp add: oath_wire_def oath_field_def oath_step_def unat_of_nat_byte)
qed (auto simp: oath_wire_def oath_field_def dest: oath_step_sound [unfolded oath_wire_def oath_field_def])

lemma oath_fields_iff:
  "oath_fields bs = Inr fs \<longleftrightarrow> list_all oath_field_ok fs \<and> bs = concat (map oath_wire fs)"
proof -
  let ?loop = "\<lambda>bs s. bindE (oath_fields bs) (\<lambda>fs. Inr (s @ fs))"
  have fold: "foldE (\<lambda>s x. Inr (s @ [x])) s xs = Inr (s @ xs)" for s xs :: "(byte \<times> bytes) list"
    by (induction xs arbitrary: s) auto
  have "?loop bs [] = Inr fs \<longleftrightarrow> (\<exists>xs. list_all oath_field_ok xs \<and> bs = concat (map oath_wire xs)
      \<and> foldE (\<lambda>s x. Inr (s @ [x])) [] xs = (Inr fs :: _ res))"
  proof (rule oath_codec.decode_fold_iff)
    show "?loop [] s = Inr s" for s by (simp add: oath_fields.simps)
    show "?loop bs s = bindE (Inr (s @ [x])) (?loop rest)" if "oath_step bs = Some (x, rest)" for bs x rest s
    proof -
      have ne: "bs \<noteq> []" and step: "\<not> (length bs < 2 \<or> length bs - 2 < unat (bs ! 1))"
        using that by (auto simp: oath_step_def split: if_splits)
      then have "oath_fields bs = bindE (oath_fields rest) (\<lambda>fs. Inr (x # fs))"
        using that by (subst oath_fields.simps) (auto simp: oath_step_def)
      then show ?thesis by (simp add: bindE_assoc)
    qed
    show "\<exists>e. ?loop bs s = Inl e" if "bs \<noteq> []" "oath_step bs = None" for bs s
      using that by (subst oath_fields.simps) (auto simp: oath_step_def split: if_splits)
  qed simp
  then show ?thesis by (simp add: fold bindE_def split: sum.splits)
qed

section \<open>The access gate\<close>

text \<open>
  What an authorised exchange looks like, read off the recorded exchanges alone: the applet was
  selected and either does not ask for validation (and none was requested), or both sides proved
  that they hold the key: the host by a tag over the card's challenge, the card by a tag over the
  host's.
\<close>

definition card_selected :: "bool \<Rightarrow> ResponseData \<Rightarrow> Selection option \<Rightarrow> bool" where
  "card_selected legacy r sel \<longleftrightarrow> StatusWord_is_success (rd_status r)
     \<and> (if legacy then rd_data r = [] \<and> sel = None else (\<exists>s. sel = Some s \<and> selection (rd_data r) = Inr s))"

definition card_proved :: "(bytes \<Rightarrow> bytes \<Rightarrow> bytes) \<Rightarrow> Access \<Rightarrow> Selection \<Rightarrow> LogicalCommand \<Rightarrow> ResponseData \<Rightarrow> bool"
where
  "card_proved hm a s c r \<longleftrightarrow>
     sel_algorithm s = Some 1
     \<and> (\<exists>ch le. sel_challenge s = Some ch \<and> c = oath_validate hm a ch le)
     \<and> StatusWord_is_success (rd_status r)
     \<and> rd_data r = oath_field 0x75 (hm (ax_key a) (ax_challenge a))"

definition access_granted ::
  "(bytes \<Rightarrow> bytes \<Rightarrow> bytes) \<Rightarrow> bool \<Rightarrow> Request \<Rightarrow> Access option \<Rightarrow> trace \<Rightarrow> bool" where
  "access_granted hm legacy request access tr \<longleftrightarrow>
     (\<exists>c1 r1 sel. card_selected legacy r1 sel
       \<and> (tr = [(c1, r1)] \<and> (case sel of None \<Rightarrow> True
              | Some s \<Rightarrow> challenge_response request \<or> access = None \<and> sel_challenge s = None)
          \<or> (\<exists>c2 r2 a s. tr = [(c1, r1), (c2, r2)] \<and> access = Some a \<and> sel = Some s
               \<and> card_proved hm a s c2 r2)))"

text \<open>The configurations of a run from the initial machine \<open>m0\<close>.\<close>

definition oath_inv :: "(bytes \<Rightarrow> bytes \<Rightarrow> bytes) \<Rightarrow> Oath \<Rightarrow> Oath \<Rightarrow> ResponseData option \<Rightarrow> trace \<Rightarrow> bool" where
  "oath_inv hm m0 m resp tr \<longleftrightarrow>
     (m = m0 \<and> resp = None \<and> tr = [])
     \<or> (\<exists>c r. m = m0\<lparr>oa_phase := 1\<rparr> \<and> resp = Some r \<and> tr = [(c, r)])
     \<or> (\<exists>c1 r1 r2 s a ch. m = m0\<lparr>oa_phase := 2\<rparr> \<and> resp = Some r2 \<and> oa_access m0 = Some a
          \<and> \<not> oa_legacy m0 \<and> card_selected False r1 (Some s) \<and> sel_algorithm s = Some 1
          \<and> sel_challenge s = Some ch
          \<and> tr = [(c1, r1), (oath_validate hm a ch (explicit_le m0), r2)])
     \<or> (\<exists>c r tr'. oa_phase m = 3 \<and> oa_request m = oa_request m0 \<and> oa_legacy m = oa_legacy m0
          \<and> oa_target m0 = Some c \<and> resp = Some r \<and> tr = tr' @ [(c, r)]
          \<and> access_granted hm (oa_legacy m0) (oa_request m0) (oa_access m0) tr')"

lemma Oath_target_command:
  "Oath_target m = (m', Inr (Command c)) \<longleftrightarrow>
    oa_target m = Some c \<and> m' = m\<lparr>oa_phase := 3, oa_target := None\<rparr>"
  by (auto simp: Oath_target_def split: option.splits)

lemma Oath_target_done:
  "Oath_target m = (m', Inr (Action.Done out)) \<longleftrightarrow> oa_target m = None \<and> out = Unit \<and> m' = m\<lparr>oa_phase := 3\<rparr>"
  by (auto simp: Oath_target_def split: option.splits)

lemma card_answer_iff:
  assumes "length v = 20"
  shows "oath_fields d = Inr [(0x75, v)] \<longleftrightarrow> d = oath_field 0x75 v"
  using assms by (simp add: oath_fields_iff oath_wire_def)

lemma Oath_selected_cases:
  assumes "StatusWord_is_success (rd_status r)" "Oath_selected hm m (rd_data r) = (m', Inr a)"
    "oa_request m \<noteq> Select"
  shows "(access_granted hm (oa_legacy m) (oa_request m) (oa_access m) [(c1, r)] \<and> Oath_target m = (m', Inr a))
    \<or> (\<exists>s acc ch. oa_access m = Some acc \<and> \<not> oa_legacy m \<and> card_selected False r (Some s)
         \<and> sel_algorithm s = Some 1 \<and> sel_challenge s = Some ch \<and> m' = m\<lparr>oa_phase := 2\<rparr>
         \<and> a = Command (oath_validate hm acc ch (explicit_le m)))"
proof (cases "oa_legacy m")
  case True
  then have "card_selected True r None" "Oath_target m = (m', Inr a)"
    using assms by (auto simp: Oath_selected_def card_selected_def split: if_splits)
  with True show ?thesis by (auto simp: access_granted_def)
next
  case False
  then obtain s where s: "selection (rd_data r) = Inr s"
    using assms by (auto simp: Oath_selected_def split: sum.splits)
  then have cs: "card_selected False r (Some s)" using assms by (simp add: card_selected_def)
  show ?thesis
  proof (cases "challenge_response (oa_request m) \<or> oa_access m = None \<and> sel_challenge s = None")
    case True
    then have "Oath_target m = (m', Inr a)"
      using False s assms by (auto simp: Oath_selected_def split: if_splits)
    moreover have "access_granted hm (oa_legacy m) (oa_request m) (oa_access m) [(c1, r)]"
      using False True cs unfolding access_granted_def by (intro exI [of _ c1] exI [of _ r] exI [of _ "Some s"]) auto
    ultimately show ?thesis by blast
  next
    case other: False
    with False s assms cs show ?thesis
      by (auto simp: Oath_selected_def split: if_splits option.splits)
  qed
qed

lemma Oath_validated_cases:
  assumes "StatusWord_is_success (rd_status r2)" "Oath_validated hm m (rd_data r2) = (m', Inr a)"
    "oa_access m = Some acc" "card_selected False r1 (Some s)" "sel_algorithm s = Some 1"
    "sel_challenge s = Some ch" "\<not> oa_legacy m"
  shows "access_granted hm (oa_legacy m) (oa_request m) (oa_access m)
      [(c1, r1), (oath_validate hm acc ch le, r2)]
    \<and> Oath_target (m\<lparr>oa_access := None\<rparr>) = (m', Inr a)"
proof -
  obtain fs where fs: "oath_fields (rd_data r2) = Inr fs" using assms(2)
    by (auto simp: Oath_validated_def split: sum.splits)
  then obtain v where v: "fs = [(0x75, v)]" "length v = 20"
    using assms(2) by (cases fs) (auto simp: Oath_validated_def length_Suc_conv split: if_splits)
  then have eq: "hm (ax_key acc) (ax_challenge acc) = v" "Oath_target (m\<lparr>oa_access := None\<rparr>) = (m', Inr a)"
    using assms(2,3) fs by (auto simp: Oath_validated_def Let_def split: if_splits)
  have "rd_data r2 = oath_field 0x75 v" using fs v card_answer_iff by simp
  then have "card_proved hm acc s (oath_validate hm acc ch le) r2"
    using assms eq by (auto simp: card_proved_def)
  moreover have "card_selected (oa_legacy m) r1 (Some s)" using assms by simp
  ultimately show ?thesis using assms(3) eq by (auto simp: access_granted_def)
qed

lemma oath_inv_next:
  assumes inv: "oath_inv hm m0 m resp tr" and phase: "oa_phase m0 = 0"
    and target: "oa_request m0 = Select \<longrightarrow> oa_target m0 = None"
    and nx: "Oath_next hm m resp = (m', Inr a)"
  shows "case a of
      Command c \<Rightarrow> oath_inv hm m0 m' (Some r) (tr @ [(c, r)])
        \<and> (tr = [] \<and> c = le_256 (oa_explicit_le m0) oath_select
           \<or> oa_target m0 = Some c \<and> access_granted hm (oa_legacy m0) (oa_request m0) (oa_access m0) tr
           \<or> (\<exists>r1 c1 s acc ch. tr = [(c1, r1)] \<and> oa_access m0 = Some acc \<and> card_selected False r1 (Some s)
                \<and> sel_challenge s = Some ch \<and> c = oath_validate hm acc ch (explicit_le m0)))
    | Action.Done out \<Rightarrow>
        oa_request m0 = Select \<and> length tr = 1
        \<or> oa_target m0 = None \<and> out = Unit \<and> access_granted hm (oa_legacy m0) (oa_request m0) (oa_access m0) tr
        \<or> (\<exists>tr' c r. tr = tr' @ [(c, r)] \<and> oa_target m0 = Some c
             \<and> access_granted hm (oa_legacy m0) (oa_request m0) (oa_access m0) tr'
             \<and> StatusWord_is_success (rd_status r)
             \<and> oath_result (oa_request m0) (rd_data r) (oa_legacy m0) = Inr out)"
proof -
  from inv consider
    (start) "m = m0" "resp = None" "tr = []"
  | (selected) c r where "m = m0\<lparr>oa_phase := 1\<rparr>" "resp = Some r" "tr = [(c, r)]"
  | (validated) c1 r1 r2 s acc ch where "m = m0\<lparr>oa_phase := 2\<rparr>" "resp = Some r2" "oa_access m0 = Some acc"
      "\<not> oa_legacy m0" "card_selected False r1 (Some s)" "sel_algorithm s = Some 1"
      "sel_challenge s = Some ch" "tr = [(c1, r1), (oath_validate hm acc ch (explicit_le m0), r2)]"
  | (sent) c r tr' where "oa_phase m = 3" "oa_request m = oa_request m0" "oa_legacy m = oa_legacy m0"
      "oa_target m0 = Some c" "resp = Some r" "tr = tr' @ [(c, r)]"
      "access_granted hm (oa_legacy m0) (oa_request m0) (oa_access m0) tr'"
    unfolding oath_inv_def by blast
  then show ?thesis
  proof cases
    case start
    then show ?thesis
      using nx phase by (auto simp: Oath_next_def oath_inv_def le_256_def)
  next
    case (selected c1 r1)
    then have ok: "StatusWord_is_success (rd_status r1)"
      and sel: "Oath_selected hm m (rd_data r1) = (m', Inr a)"
      using nx by (auto simp: Oath_next_def split: if_splits)
    have same: "oa_request m = oa_request m0" "oa_legacy m = oa_legacy m0" "oa_access m = oa_access m0"
      "oa_target m = oa_target m0" "explicit_le m = explicit_le m0"
      using selected by (simp_all add: explicit_le_def)
    show ?thesis
    proof (cases "oa_request m0 = Select")
      case True
      then show ?thesis
        using sel target same selected
        by (auto simp: Oath_selected_def Oath_target_def split: if_splits sum.splits)
    next
      case False
      from Oath_selected_cases [OF ok sel, of c1] False same consider
        (tgt) "access_granted hm (oa_legacy m0) (oa_request m0) (oa_access m0) tr" "Oath_target m = (m', Inr a)"
      | (val) s acc ch where "oa_access m0 = Some acc" "\<not> oa_legacy m0" "card_selected False r1 (Some s)"
         "sel_algorithm s = Some 1" "sel_challenge s = Some ch" "m' = m\<lparr>oa_phase := 2\<rparr>"
         "a = Command (oath_validate hm acc ch (explicit_le m0))"
        using selected by auto
      then show ?thesis
      proof cases
        case tgt
        then show ?thesis
          using same by (cases a) (auto simp: Oath_target_command Oath_target_done oath_inv_def)
      next
        case val
        then have "oath_inv hm m0 m' (Some r) (tr @ [(oath_validate hm acc ch (explicit_le m0), r)])"
          using selected by (auto simp: oath_inv_def)
        with val selected show ?thesis by auto
      qed
    qed
  next
    case (validated c1 r1 r2 s acc ch)
    then have ok: "StatusWord_is_success (rd_status r2)"
      and val: "Oath_validated hm m (rd_data r2) = (m', Inr a)"
      using nx by (auto simp: Oath_next_def split: if_splits)
    have same: "oa_request m = oa_request m0" "oa_legacy m = oa_legacy m0" "oa_access m = oa_access m0"
      "oa_target m = oa_target m0"
      using validated by simp_all
    have "access_granted hm (oa_legacy m0) (oa_request m0) (oa_access m0) tr"
      "Oath_target (m\<lparr>oa_access := None\<rparr>) = (m', Inr a)"
      using Oath_validated_cases [OF ok val, of acc r1 s ch c1 "explicit_le m0"] same validated by auto
    then show ?thesis
      using same by (cases a) (auto simp: Oath_target_command Oath_target_done oath_inv_def)
  next
    case (sent c r1 tr')
    then show ?thesis
      using nx by (cases a) (auto simp: Oath_next_def bindE_eq_Inr split: if_splits)
  qed
qed

lemma oath_operation_machine:
  assumes "oath_operation hm p request access opts = Inr op" "op_machine op = Some m0"
  shows "oa_phase m0 = 0 \<and> oa_request m0 = request \<and> oa_access m0 = access
    \<and> oa_legacy m0 = supports p OathLegacy \<and> oa_explicit_le m0 = legacy_explicit_le p"
    "case oa_target m0 of None \<Rightarrow> oath_target hm request (supports p OathLegacy) (supports p OathSetDefaultSlots) = Inr None
     | Some c \<Rightarrow> \<exists>tgt. oath_target hm request (supports p OathLegacy) (supports p OathSetDefaultSlots) = Inr (Some tgt)
         \<and> lc_header c = lc_header tgt \<and> lc_data c = lc_data tgt"
    "validate_command (le_256 (oa_explicit_le m0) oath_select) opts = Inr ()"
    "\<forall>c. oa_target m0 = Some c \<longrightarrow> validate_command c opts = Inr ()"
    "access \<noteq> None \<longrightarrow> validate_command (oath_command 0xa3 0 0 (replicate 32 0) Absent) opts = Inr ()"
    "request = Select \<longrightarrow> oa_target m0 = None"
proof -
  from assms obtain tgt0 tgt where
    t0: "oath_target hm request (supports p OathLegacy) (supports p OathSetDefaultSlots) = Inr tgt0"
    and tgt: "oath_paging request (supports p OathLegacy) opts (map_option (le_256 (legacy_explicit_le p)) tgt0) = Inr tgt"
    and v: "validate_command (le_256 (legacy_explicit_le p) oath_select) opts = Inr ()"
      "(case tgt of Some c \<Rightarrow> validate_command c opts | None \<Rightarrow> Inr ()) = Inr ()"
      "access \<noteq> None \<longrightarrow> validate_command (oath_command 0xa3 0 0 (replicate 32 0) Absent) opts = Inr ()"
    and op: "Operation_from_machine
         \<lparr>oa_request = request, oa_access = access, oa_target = tgt, oa_phase = 0, oa_legacy = supports p OathLegacy,
          oa_explicit_le = legacy_explicit_le p,
          oa_serial = Option.bind (di_serial (dp_info p)) (\<lambda>s. if length s = 4 then Some s else None)\<rparr> opts = Inr op"
    by (auto simp: oath_operation_def Let_def bindE_eq_Inr whenE_eq_Inr)
  then have m0: "m0 = \<lparr>oa_request = request, oa_access = access, oa_target = tgt, oa_phase = 0,
      oa_legacy = supports p OathLegacy, oa_explicit_le = legacy_explicit_le p,
      oa_serial = Option.bind (di_serial (dp_info p)) (\<lambda>s. if length s = 4 then Some s else None)\<rparr>"
    using assms(2) by (auto simp: Operation_from_machine_def bindE_eq_Inr)
  have "case tgt of None \<Rightarrow> tgt0 = None
     | Some c \<Rightarrow> \<exists>t. tgt0 = Some t \<and> lc_header c = lc_header t \<and> lc_data c = lc_data t"
    using tgt by (cases tgt0) (auto simp: oath_paging_def le_256_def split: option.splits if_splits)
  then show "case oa_target m0 of None \<Rightarrow> oath_target hm request (supports p OathLegacy) (supports p OathSetDefaultSlots) = Inr None
     | Some c \<Rightarrow> \<exists>tgt. oath_target hm request (supports p OathLegacy) (supports p OathSetDefaultSlots) = Inr (Some tgt)
         \<and> lc_header c = lc_header tgt \<and> lc_data c = lc_data tgt"
    using m0 t0 by (auto split: option.splits)
  show "request = Select \<longrightarrow> oa_target m0 = None"
    using m0 t0 tgt by (auto simp: oath_paging_def)
  show "\<forall>c. oa_target m0 = Some c \<longrightarrow> validate_command c opts = Inr ()"
    using v m0 by (auto split: option.splits)
  show "oa_phase m0 = 0 \<and> oa_request m0 = request \<and> oa_access m0 = access
    \<and> oa_legacy m0 = supports p OathLegacy \<and> oa_explicit_le m0 = legacy_explicit_le p"
    "validate_command (le_256 (oa_explicit_le m0) oath_select) opts = Inr ()"
    "access \<noteq> None \<longrightarrow> validate_command (oath_command 0xa3 0 0 (replicate 32 0) Absent) opts = Inr ()"
    using v m0 by simp_all
qed

section \<open>The machine meets its contracts\<close>

lemma length_oath_field [simp]: "length (oath_field t v) = 2 + length v"
  by (simp add: oath_field_def)

lemma short_oath_command [simp]: "short_command (oath_command i a b d le)"
  by (simp add: oath_command_def)

lemma oath_command_simps [simp]:
  "lc_data (oath_command i a b d le) = d" "lc_le (oath_command i a b d le) = le"
  "lc_continuation (oath_command i a b d le) = NoContinuation"
  by (simp_all add: oath_command_def LogicalCommand_new_def)

text \<open>Everything the factory preflighted for the state the machine is in.\<close>

definition oath_ready :: "(bytes \<Rightarrow> bytes \<Rightarrow> bytes) \<Rightarrow> OperationOptions \<Rightarrow> Oath \<Rightarrow> bool" where
  "oath_ready hm opts m \<longleftrightarrow>
     (\<forall>k x. length (hm k x) = 20) \<and> access_typed (oa_access m)
     \<and> validate_command (le_256 (oa_explicit_le m) oath_select) opts = Inr ()
     \<and> (\<forall>c. oa_target m = Some c \<longrightarrow> validate_command c opts = Inr ())
     \<and> (oa_access m \<noteq> None \<longrightarrow> validate_command (oath_command 0xa3 0 0 (replicate 32 0) Absent) opts = Inr ())"

lemma Oath_next_command:
  assumes "Oath_next hm m resp = (m', Inr (Command c))"
  shows "(oa_phase m = 0 \<and> m' = m\<lparr>oa_phase := 1\<rparr> \<and> c = le_256 (oa_explicit_le m) oath_select)
    \<or> (oa_phase m = 1 \<and> m' = m\<lparr>oa_phase := 2\<rparr>
        \<and> (\<exists>acc ch. oa_access m = Some acc \<and> c = oath_validate hm acc ch (explicit_le m)))
    \<or> (oa_phase m \<in> {1, 2} \<and> oa_target m = Some c
        \<and> (m' = m\<lparr>oa_phase := 3, oa_target := None\<rparr>
           \<or> m' = m\<lparr>oa_access := None, oa_phase := 3, oa_target := None\<rparr>))"
  using assms
  by (auto simp: Oath_next_def Oath_selected_def Oath_validated_def Oath_target_def le_256_def Let_def bindE_eq_Inr
      split: if_splits option.splits sum.splits)

lemma oath_validate_fits:
  assumes "oath_ready hm opts m" "oa_access m = Some acc"
  shows "validate_command (oath_validate hm acc ch (explicit_le m)) opts = Inr ()"
proof -
  have 1: "validate_command (le_256 (oa_explicit_le m) oath_select) opts = Inr ()"
    and 2: "validate_command (oath_command 0xa3 0 0 (replicate 32 0) Absent) opts = Inr ()"
    and len: "length (oath_field 0x75 (hm (ax_key acc) ch) @ oath_field 0x74 (ax_challenge acc)) = 32"
    using assms by (auto simp: oath_ready_def access_typed_def oath_field_def)
  have "short_command (le_256 b oath_select)" for b
    by (simp add: le_256_def oath_select_def)
  with 1 have "oa_explicit_le m \<longrightarrow> le_fits opts (Exact 256)"
    by (auto simp: validate_short_iff le_256_def)
  then have "le_fits opts (explicit_le m)"
    by (simp add: explicit_le_def le_fits_def)
  with 2 len show ?thesis
    by (simp only: oath_validate_def validate_short_iff short_oath_command oath_command_simps length_replicate)
       auto
qed

interpretation oath: preflighted_machine "Oath_ops hm" "oath_ready hm opts" opts for hm opts
proof unfold_locales
  fix m r m' c
  assume ready: "oath_ready hm opts m" and "m_next (Oath_ops hm) m r = (m', Inr (Command c))"
  then have nx: "Oath_next hm m r = (m', Inr (Command c))" by (simp add: plain_machine_def)
  then show "oath_ready hm opts m'"
    using ready by (auto dest!: Oath_next_command simp: oath_ready_def access_typed_def)
  show "validate_command c opts = Inr ()"
    using Oath_next_command [OF nx] ready oath_validate_fits [OF ready] by (auto simp: oath_ready_def)
qed

section \<open>Response formats\<close>

definition name_ok :: "bytes \<Rightarrow> bool" where
  "name_ok n \<longleftrightarrow> 1 \<le> length n \<and> length n \<le> 64"

definition modern_ok :: "Entry \<Rightarrow> bool" where
  "modern_ok e \<longleftrightarrow> name_ok (en_name e) \<and> en_digits e = None"

definition modern_wire :: "Entry \<Rightarrow> bytes" where
  "modern_wire e = oath_field 0x72 (en_algorithm_type e # en_name e)"

definition legacy_ok :: "Entry \<Rightarrow> bool" where
  "legacy_ok e \<longleftrightarrow> name_ok (en_name e) \<and> en_digits e \<noteq> None"

definition legacy_wire :: "Entry \<Rightarrow> bytes" where
  "legacy_wire e = oath_field 0x71 (en_name e) @ oath_field 0x75 [en_algorithm_type e, the (en_digits e)]"

fun code_ok :: "Format \<Rightarrow> Code \<Rightarrow> bool" where
  "code_ok fmt (TruncatedCode bs) \<longleftrightarrow> fmt = Truncated \<and> length bs = 4 \<and> (bs ! 0) AND 0x80 = 0"
| "code_ok fmt (FullCode bs) \<longleftrightarrow> fmt = Full \<and> length bs \<in> {20, 32, 64}"
| "code_ok fmt HotpMarker \<longleftrightarrow> True"
| "code_ok fmt TouchRequired \<longleftrightarrow> True"

fun code_field :: "byte \<Rightarrow> Code \<Rightarrow> byte \<times> bytes" where
  "code_field dg (TruncatedCode bs) = (0x76, dg # bs)"
| "code_field dg (FullCode bs) = (0x75, dg # bs)"
| "code_field dg HotpMarker = (0x77, [dg])"
| "code_field dg TouchRequired = (0x7c, [dg])"

definition calc_ok :: "Format \<Rightarrow> Calculation \<Rightarrow> bool" where
  "calc_ok fmt c \<longleftrightarrow> (\<exists>n. ca_name c = Some n \<and> name_ok n) \<and> 4 \<le> ca_digits c \<and> ca_digits c \<le> 8
     \<and> code_ok fmt (ca_code c)"

definition calc_wire :: "Calculation \<Rightarrow> bytes" where
  "calc_wire c = oath_field 0x71 (the (ca_name c)) @ oath_wire (code_field (ca_digits c) (ca_code c))"

lemma response_name_iff: "response_name bs = Inr n \<longleftrightarrow> n = bs \<and> name_ok n"
  by (auto simp: response_name_def Name_from_bytes_def name_ok_def)

lemma modern_entry_iff:
  "modern_entry f = Inr e \<longleftrightarrow> modern_ok e \<and> f = (0x72, en_algorithm_type e # en_name e)"
  by (cases f; cases "snd f"; cases e)
     (auto simp: modern_entry_def bindE_eq_Inr response_name_iff modern_ok_def name_ok_def)

lemma list_all2_determined: "list_all2 (\<lambda>x y. P y \<and> x = F y) xs ys \<longleftrightarrow> list_all P ys \<and> xs = map F ys"
  by (induction ys arbitrary: xs) (auto simp: list_all2_Cons2)

lemma legacy_entries_iff:
  "even (length fs) \<and> legacy_entries fs = Inr es \<longleftrightarrow>
    list_all legacy_ok es
    \<and> fs = concat (map (\<lambda>e. [(0x71, en_name e), (0x75, [en_algorithm_type e, the (en_digits e)])]) es)"
proof (induction fs arbitrary: es rule: legacy_entries.induct)
  case (1 t0 b0 t1 b1 rest)
  have b1: "length b1 = 2 \<longleftrightarrow> b1 = [b1 ! 0, b1 ! 1]"
    by (cases b1; cases "tl b1") auto
  show ?case
  proof (cases es)
    case Nil
    then show ?thesis by (auto simp: bindE_eq_Inr)
  next
    case (Cons e es')
    have "even (length ((t0, b0) # (t1, b1) # rest)) \<and> legacy_entries ((t0, b0) # (t1, b1) # rest) = Inr es
      \<longleftrightarrow> t0 = 0x71 \<and> t1 = 0x75 \<and> length b1 = 2 \<and> name_ok b0
        \<and> e = \<lparr>en_name = b0, en_algorithm_type = b1 ! 0, en_digits = Some (b1 ! 1)\<rparr>
        \<and> even (length rest) \<and> legacy_entries rest = Inr es'"
      using Cons by (auto simp: bindE_eq_Inr response_name_iff)
    also have "\<dots> \<longleftrightarrow> t0 = 0x71 \<and> t1 = 0x75 \<and> length b1 = 2 \<and> name_ok b0
        \<and> e = \<lparr>en_name = b0, en_algorithm_type = b1 ! 0, en_digits = Some (b1 ! 1)\<rparr>
        \<and> list_all legacy_ok es' \<and> rest = concat (map (\<lambda>e. [(0x71, en_name e), (0x75, [en_algorithm_type e, the (en_digits e)])]) es')"
      using "1.IH" [of b0 es'] by (auto simp: response_name_iff name_ok_def)
    also have "\<dots> \<longleftrightarrow> list_all legacy_ok es \<and> (t0, b0) # (t1, b1) # rest
        = concat (map (\<lambda>e. [(0x71, en_name e), (0x75, [en_algorithm_type e, the (en_digits e)])]) es)"
      using Cons b1 by (cases e) (auto simp: legacy_ok_def)
    finally show ?thesis .
  qed
next
  case "2_1"
  then show ?case by (cases es) auto
next
  case "2_2"
  then show ?case by (cases es) auto
qed

lemma calculation_iff:
  "calculation tg raw fmt None True = Inr c \<longleftrightarrow>
    ca_name c = None \<and> 4 \<le> ca_digits c \<and> ca_digits c \<le> 8 \<and> code_ok fmt (ca_code c)
    \<and> (tg, raw) = code_field (ca_digits c) (ca_code c)"
  by (cases raw; cases c; cases "ca_code c")
     (auto simp: calculation_def bindE_eq_Inr Let_def get_at_def split: if_splits)

lemma all_calculations_iff:
  "even (length fs) \<and> all_calculations fmt fs = Inr cs \<longleftrightarrow>
    list_all (calc_ok fmt) cs
    \<and> fs = concat (map (\<lambda>c. [(0x71, the (ca_name c)), code_field (ca_digits c) (ca_code c)]) cs)"
proof (induction fmt fs arbitrary: cs rule: all_calculations.induct)
  case (1 fmt t0 b0 t1 b1 rest)
  let ?F = "\<lambda>c. [(0x71, the (ca_name c)), code_field (ca_digits c) (ca_code c)]"
  show ?case
  proof (cases cs)
    case Nil
    then show ?thesis by (auto simp: bindE_eq_Inr)
  next
    case (Cons c cs')
    have "even (length ((t0, b0) # (t1, b1) # rest)) \<and> all_calculations fmt ((t0, b0) # (t1, b1) # rest) = Inr cs
      \<longleftrightarrow> t0 = 0x71 \<and> name_ok b0 \<and> (\<exists>c0. calculation t1 b1 fmt None True = Inr c0 \<and> c = c0\<lparr>ca_name := Some b0\<rparr>)
        \<and> even (length rest) \<and> all_calculations fmt rest = Inr cs'"
      using Cons by (auto simp: bindE_eq_Inr response_name_iff)
    also have "\<dots> \<longleftrightarrow> t0 = 0x71 \<and> name_ok b0 \<and> (\<exists>c0. calculation t1 b1 fmt None True = Inr c0 \<and> c = c0\<lparr>ca_name := Some b0\<rparr>)
        \<and> list_all (calc_ok fmt) cs' \<and> rest = concat (map ?F cs')"
      using "1.IH" [of _ b0 cs'] by (auto simp: response_name_iff)
    also have "\<dots> \<longleftrightarrow> calc_ok fmt c \<and> (t0, b0) = (0x71, the (ca_name c))
        \<and> (t1, b1) = code_field (ca_digits c) (ca_code c) \<and> list_all (calc_ok fmt) cs' \<and> rest = concat (map ?F cs')"
    proof -
      have "(\<exists>c0. calculation t1 b1 fmt None True = Inr c0 \<and> c = c0\<lparr>ca_name := Some b0\<rparr>)
        \<longleftrightarrow> calculation t1 b1 fmt None True = Inr (c\<lparr>ca_name := None\<rparr>) \<and> ca_name c = Some b0"
      proof
        assume r: "calculation t1 b1 fmt None True = Inr (c\<lparr>ca_name := None\<rparr>) \<and> ca_name c = Some b0"
        then have "c = (c\<lparr>ca_name := None\<rparr>)\<lparr>ca_name := Some b0\<rparr>" by (cases c) simp
        with r show "\<exists>c0. calculation t1 b1 fmt None True = Inr c0 \<and> c = c0\<lparr>ca_name := Some b0\<rparr>" by blast
      qed (auto simp: calculation_iff)
      then show ?thesis by (auto simp: calculation_iff calc_ok_def)
    qed
    also have "\<dots> \<longleftrightarrow> list_all (calc_ok fmt) cs \<and> (t0, b0) # (t1, b1) # rest = concat (map ?F cs)"
      using Cons by auto
    finally show ?thesis .
  qed
next
  case "2_1"
  then show ?case by (cases cs) auto
next
  case "2_2"
  then show ?case by (cases cs) auto
qed

lemma concat_map_wire: "concat (map oath_wire (concat (map F xs))) = concat (map (\<lambda>x. concat (map oath_wire (F x))) xs)"
  by (induction xs) auto

lemma calc_fields_ok:
  assumes "list_all (calc_ok fmt) cs"
  shows "list_all oath_field_ok (concat (map (\<lambda>c. [(0x71, the (ca_name c)), code_field (ca_digits c) (ca_code c)]) cs))"
proof -
  have "length (snd (code_field dg c)) \<le> 255" if "code_ok fmt c" for c dg
    using that by (cases c) auto
  then show ?thesis using assms by (auto simp: list_all_iff calc_ok_def name_ok_def)
qed

lemma truncated_result:
  assumes "oath_result request d legacy = Inr (Calculations cs)" "c \<in> set cs" "ca_code c = TruncatedCode bs"
  shows "length bs = 4 \<and> 4 \<le> ca_digits c \<and> ca_digits c \<le> 8"
proof -
  have one: "length bs = 4 \<and> 4 \<le> ca_digits c \<and> ca_digits c \<le> 8"
    if "calculation tg raw fmt alg markers = Inr c" "ca_code c = TruncatedCode bs" for tg raw fmt alg markers
    using that by (auto simp: calculation_def bindE_eq_Inr Let_def split: if_splits)
  have all: "list_all (calc_ok fmt) cs" if "even (length fs)" "all_calculations fmt fs = Inr cs" for fmt fs
    using that all_calculations_iff by blast
  show ?thesis
  proof (cases request)
    case (Calculate n k a ch fmt)
    with assms one show ?thesis by (auto simp: oath_result_def bindE_eq_Inr split: if_splits)
  next
    case (CalculateAll ch fmt)
    with assms(1) obtain fs where "even (length fs)" "all_calculations fmt fs = Inr cs"
      by (auto simp: oath_result_def bindE_eq_Inr even_iff_mod_2_eq_zero split: if_splits)
    from all [OF this] assms(2,3) show ?thesis by (auto simp: list_all_iff calc_ok_def)
  qed (use assms in \<open>auto simp: oath_result_def bindE_eq_Inr split: if_splits\<close>)
qed

section \<open>Decimal codes\<close>

lemma decimal_digits_numeral:
  "decimal_digits (numeral k) w = decimal_digits (pred_numeral k) (w div 10) @ [0x30 + ucast (w mod 10)]"
  by (simp add: numeral_eq_Suc)

lemma decimal_digits_correct:
  "length (decimal_digits n w) = n \<and> list_all is_digit (decimal_digits n w)
   \<and> dec_value (decimal_digits n w) = unat w mod 10 ^ n"
proof (induction n arbitrary: w)
  case 0
  then show ?case by (simp add: dec_value_def)
next
  case (Suc n)
  have m: "unat (w mod 10) = unat w mod 10" "unat (w div 10) = unat w div 10"
    by (simp_all add: unat_mod unat_div)
  then have u: "unat (ucast (w mod 10) :: byte) = unat w mod 10"
    by (simp add: unat_ucast_byte)
  have b: "unat (0x30 + ucast (w mod 10) :: byte) = 0x30 + unat w mod 10"
    using u by (simp add: unat_word_ariths)
  have d: "is_digit (0x30 + ucast (w mod 10))"
    using b by (simp add: is_digit_def word_le_nat_alt)
  have "dec_value (xs @ [x]) = dec_value xs * 10 + (unat x - 0x30)" for xs x
    by (simp add: dec_value_def)
  then have "dec_value (decimal_digits (Suc n) w) = (unat w div 10 mod 10 ^ n) * 10 + unat w mod 10"
    using Suc b m by simp
  also have "\<dots> = unat w mod 10 ^ Suc n"
    by (simp add: mod_mult2_eq)
  finally show ?case using Suc d by simp
qed

section \<open>Properties\<close>


definition hm_sample :: "bytes \<Rightarrow> bytes \<Rightarrow> bytes" where
  "hm_sample k x = take 20 (k @ x @ replicate 20 0)"

definition oath_sample_access :: Access where
  "oath_sample_access = \<lparr>ax_key = replicate 16 7, ax_challenge = [1, 2, 3, 4, 5, 6, 7, 8]\<rparr>"

definition sample_select :: ResponseData where
  "sample_select =
     \<lparr>rd_data = concat (map oath_wire [(0x79, [6, 0, 0]), (0x71, replicate 8 9), (0x74, replicate 8 5), (0x7b, [1])]),
      rd_status = 0x9000\<rparr>"

definition sample_validate :: ResponseData where
  "sample_validate = \<lparr>rd_data = oath_field 0x75 (hm_sample (replicate 16 7) [1, 2, 3, 4, 5, 6, 7, 8]), rd_status = 0x9000\<rparr>"

lemma sample_selection:
  "selection (rd_data sample_select) =
     Inr \<lparr>sel_version = [6, 0, 0], sel_handle = replicate 8 9, sel_challenge = Some (replicate 8 5),
          sel_algorithm = Some 1, sel_raw = rd_data sample_select\<rparr>"
proof -
  have "oath_fields (rd_data sample_select) =
      Inr [(0x79, [6, 0, 0]), (0x71, replicate 8 9), (0x74, replicate 8 5), (0x7b, [1])]"
    by (subst oath_fields_iff) (simp add: sample_select_def)
  then show ?thesis by (simp add: selection_def fixed_array_def)
qed

lemma hm_sample_length: "length (hm_sample k x) = 20"
  by (simp add: hm_sample_def)

lemma sample_validation:
  "oath_fields (rd_data sample_validate) = Inr [(0x75, hm_sample (replicate 16 7) [1, 2, 3, 4, 5, 6, 7, 8])]"
  by (simp add: sample_validate_def card_answer_iff hm_sample_length)

lemma sample_status [simp]: "rd_status sample_select = 0x9000" "rd_status sample_validate = 0x9000"
  by (simp_all add: sample_select_def sample_validate_def)

lemma oath_sample_operation:
  assumes "request = Delete [0x61] \<or> request = Validate"
  shows "\<exists>op. oath_operation hm_sample profile_31 request (Some oath_sample_access) OperationOptions_default = Inr op
    \<and> op_machine op = Some \<lparr>oa_request = request, oa_access = Some oath_sample_access,
        oa_target = (if request = Validate then None else Some (oath_command 2 0 0 (oath_field 0x71 [0x61]) Absent)),
        oa_phase = 0, oa_legacy = False, oa_explicit_le = False, oa_serial = None\<rparr>"
proof -
  have v: "validate_command (oath_command i a b d Absent) OperationOptions_default = Inr ()"
    if "length d \<le> 255" for i a b d
    using that by (simp add: validate_default le_fits_def)
  have sup: "supports profile_31 Capability.Oath" "supports profile_31 OathModern"
    "supports profile_31 OathSetDefaultSlots" "\<not> supports profile_31 OathLegacy"
    by (simp_all add: supports_31 less_eq_prod_def)
  have g: "oath_guards profile_31 request (Some oath_sample_access) = Inr ()"
    using assms sup by (auto simp: oath_guards_def challenge_response_def result_simps)
  show ?thesis
    using assms sup g
    by (auto simp: oath_operation_def Let_def oath_paging_def le_256_def oath_select_def v
        Operation_from_machine_def)
qed


text \<open>C25: the OATH preflight is sufficient. However the card answers, an operation sends at most three
logical commands, and each of them was accepted by the preflight for the caller's channel (the VALIDATE
command through its placeholder), so nothing fails for lack of space half way through a session.\<close>

theorem oath_preflight_sufficient:
  assumes "\<forall>k x. length (hm k x) = 20" "access_typed access"
    and "oath_operation hm p request access opts = Inr op" "op_machine op = Some m0"
    and "machine_run (Oath_ops hm) (\<lambda>n c r n'. n' = Suc n) m0 0 m resp n"
    and "m_next (Oath_ops hm) m resp = (m', Inr (Command c))"
  shows "validate_command c opts = Inr () \<and> n \<le> 2"
proof
  have ready: "oath_ready hm opts m0"
    using oath_operation_machine [OF assms(3,4)] assms(1,2) by (auto simp: oath_ready_def)
  from oath.run_preflighted [OF assms(5) this assms(6)] show "validate_command c opts = Inr ()" .
  have "n \<le> oa_phase m"
    using assms(5)
  proof (rule machine_run_invariant)
    fix m resp n m' c r n'
    assume "n \<le> oa_phase m" "m_next (Oath_ops hm) m resp = (m', Inr (Command c))" "n' = Suc n"
    then show "n' \<le> oa_phase m'"
      using Oath_next_command [of hm m resp m' c] by (auto simp: plain_machine_def)
  qed simp
  then show "n \<le> 2"
    using Oath_next_command [of hm m resp m' c] assms(6) by (auto simp: plain_machine_def)
qed

theorem oath_preflight_sufficient_witness:
  "\<exists>op m0 m' c.
     oath_operation hm_sample profile_31 Validate (Some oath_sample_access) OperationOptions_default = Inr op
     \<and> op_machine op = Some m0 \<and> m_next (Oath_ops hm_sample) m0 None = (m', Inr (Command c))
     \<and> validate_command c OperationOptions_default = Inr ()"
proof -
  let ?m0 = "\<lparr>oa_request = Validate, oa_access = Some oath_sample_access, oa_target = None,
        oa_phase = 0, oa_legacy = False, oa_explicit_le = False, oa_serial = None\<rparr>"
  obtain op where op: "oath_operation hm_sample profile_31 Validate (Some oath_sample_access)
      OperationOptions_default = Inr op" "op_machine op = Some ?m0"
    using oath_sample_operation [of Validate] by auto
  have "\<forall>k x. length (hm_sample k x) = 20" "access_typed (Some oath_sample_access)"
    by (simp_all add: hm_sample_length access_typed_def oath_sample_access_def)
  moreover have "machine_run (Oath_ops hm_sample) (\<lambda>n c r n'. n' = Suc n) ?m0 0 ?m0 None 0" by (rule run_start)
  moreover obtain m' c where "m_next (Oath_ops hm_sample) ?m0 None = (m', Inr (Command c))"
    by (simp add: plain_machine_def Oath_next_def)
  ultimately show ?thesis using oath_preflight_sufficient [of hm_sample] op by blast
qed

text \<open>The OATH response parsers accept exactly the documented formats, entry by entry and in order:
a list response is the concatenation of name records (with the digit count only in the legacy dialect)
and a CALCULATE ALL response the concatenation of name and code records whose code has the requested
format; everything else is rejected as an invalid response.\<close>

theorem oath_responses_exact:
  "(oath_result ListNames d False = Inr (Entries es) \<longleftrightarrow> list_all modern_ok es \<and> d = concat (map modern_wire es))
   \<and> (oath_result ListNames d True = Inr (Entries es) \<longleftrightarrow> list_all legacy_ok es \<and> d = concat (map legacy_wire es))
   \<and> (oath_result (CalculateAll ch fmt) d legacy = Inr (Calculations cs)
        \<longleftrightarrow> list_all (calc_ok fmt) cs \<and> d = concat (map calc_wire cs))"
proof (intro conjI)
  have "oath_result ListNames d False = Inr (Entries es) \<longleftrightarrow>
      (\<exists>fs. list_all oath_field_ok fs \<and> d = concat (map oath_wire fs) \<and> list_all modern_ok es
         \<and> fs = map (\<lambda>e. (0x72, en_algorithm_type e # en_name e)) es)"
    by (simp add: oath_result_def bindE_eq_Inr oath_fields_iff collectE_eq_Inr modern_entry_iff
        list_all2_determined conj_assoc)
  also have "\<dots> \<longleftrightarrow> list_all modern_ok es \<and> d = concat (map modern_wire es)"
    by (auto simp: list_all_iff modern_ok_def name_ok_def oath_wire_def modern_wire_def [abs_def] comp_def)
  finally show "oath_result ListNames d False = Inr (Entries es) \<longleftrightarrow> \<dots>" .
next
  let ?F = "\<lambda>e. [(0x71, en_name e), (0x75, [en_algorithm_type e, the (en_digits e)])]"
  have "oath_result ListNames d True = Inr (Entries es) \<longleftrightarrow>
      (\<exists>fs. list_all oath_field_ok fs \<and> d = concat (map oath_wire fs)
         \<and> even (length fs) \<and> legacy_entries fs = Inr es)"
    by (auto simp: oath_result_def bindE_eq_Inr oath_fields_iff even_iff_mod_2_eq_zero split: if_splits)
  also have "\<dots> \<longleftrightarrow> list_all oath_field_ok (concat (map ?F es)) \<and> d = concat (map oath_wire (concat (map ?F es)))
      \<and> list_all legacy_ok es"
    by (simp only: legacy_entries_iff) auto
  also have "\<dots> \<longleftrightarrow> list_all legacy_ok es \<and> d = concat (map legacy_wire es)"
    by (auto simp: list_all_iff legacy_ok_def name_ok_def concat_map_wire legacy_wire_def [abs_def] oath_wire_def)
  finally show "oath_result ListNames d True = Inr (Entries es) \<longleftrightarrow> \<dots>" .
next
  show "oath_result (CalculateAll ch fmt) d legacy = Inr (Calculations cs)
        \<longleftrightarrow> list_all (calc_ok fmt) cs \<and> d = concat (map calc_wire cs)"
  proof -
    let ?F = "\<lambda>c. [(0x71, the (ca_name c)), code_field (ca_digits c) (ca_code c)]"
    have "oath_result (CalculateAll ch fmt) d legacy = Inr (Calculations cs) \<longleftrightarrow>
        (\<exists>fs. list_all oath_field_ok fs \<and> d = concat (map oath_wire fs)
           \<and> even (length fs) \<and> all_calculations fmt fs = Inr cs)"
      by (auto simp: oath_result_def bindE_eq_Inr oath_fields_iff even_iff_mod_2_eq_zero split: if_splits)
    also have "\<dots> \<longleftrightarrow> list_all oath_field_ok (concat (map ?F cs)) \<and> d = concat (map oath_wire (concat (map ?F cs)))
        \<and> list_all (calc_ok fmt) cs"
      by (simp only: all_calculations_iff) auto
    also have "\<dots> \<longleftrightarrow> list_all (calc_ok fmt) cs \<and> d = concat (map calc_wire cs)"
      using calc_fields_ok by (auto simp: concat_map_wire calc_wire_def [abs_def] oath_wire_def)
    finally show ?thesis .
  qed
qed

text \<open>Decimal rendering. Every truncated code in a parsed calculation response is rendered as
exactly the announced number of ASCII digits, and they denote the 31-bit code modulo the power of ten,
leading zeros kept.\<close>

theorem oath_decimal_correct:
  assumes "oath_result request d legacy = Inr (Calculations cs)" "c \<in> set cs" "ca_code c = TruncatedCode bs"
  shows "\<exists>ds. Calculation_decimal c = Some ds \<and> length ds = unat (ca_digits c) \<and> list_all is_digit ds
    \<and> dec_value ds = be_nat bs mod 10 ^ unat (ca_digits c)"
proof -
  have "length bs = 4 \<and> 4 \<le> ca_digits c \<and> ca_digits c \<le> 8"
    using assms by (rule truncated_result)
  then show ?thesis
    using decimal_digits_correct [of "unat (ca_digits c)" "from_be bs"] assms(3)
    by (simp add: Calculation_decimal_def unat_from_be)
qed

theorem oath_decimal_correct_witness:
  "\<exists>c. oath_result (Calculate [0x61] Totp Sha1 (Some (replicate 8 0)) Truncated)
       (oath_wire (0x76, [6, 0, 0, 0, 42])) False = Inr (Calculations [c])
     \<and> Calculation_decimal c = Some [0x30, 0x30, 0x30, 0x30, 0x34, 0x32]
     \<and> dec_value [0x30, 0x30, 0x30, 0x30, 0x34, 0x32] = 42"
proof -
  let ?c = "\<lparr>ca_name = None, ca_digits = 6, ca_code = TruncatedCode [0, 0, 0, 42]\<rparr>"
  have "oath_fields (oath_wire (0x76, [6, 0, 0, 0, 42])) = Inr [(0x76, [6, 0, 0, 0, 42])]"
    by (subst oath_fields_iff) simp
  then have r: "oath_result (Calculate [0x61] Totp Sha1 (Some (replicate 8 0)) Truncated)
       (oath_wire (0x76, [6, 0, 0, 0, 42])) False = Inr (Calculations [?c])"
    by (simp add: oath_result_def calculation_def)
  have d: "Calculation_decimal ?c = Some [0x30, 0x30, 0x30, 0x30, 0x34, 0x32]"
  proof -
    have "from_be [0, 0, 0, 42] = (42 :: 32 word)" by (simp add: from_be_def)
    moreover have "decimal_digits 6 42 = [0x30, 0x30, 0x30, 0x30, 0x34, 0x32]" by (simp add: decimal_digits_numeral)
    ultimately show ?thesis by (simp add: Calculation_decimal_def)
  qed
  have "\<exists>ds. Calculation_decimal ?c = Some ds \<and> dec_value ds = be_nat [0, 0, 0, 42] mod 10 ^ unat (6 :: byte)"
    using oath_decimal_correct [OF r, of ?c "[0, 0, 0, 42]"] by auto
  moreover have "be_nat [0, 0, 0, 42] mod 10 ^ unat (6 :: byte) = 42" by (simp add: be_nat_def)
  ultimately have "dec_value [0x30, 0x30, 0x30, 0x30, 0x34, 0x32] = 42" unfolding d by simp
  with r d show ?thesis by blast
qed


end
