(* ===== verification/Admin_Applet.thy ===== *)
theory Admin_Applet
  imports Applet
begin

text \<open>
  The Admin applet (\<open>canokey-admin/src\<close>): configuration layouts, PASS slots and SM2 identifiers
  (\<open>types.rs\<close>), the command builders (\<open>lib.rs\<close>), and the queue machine that selects, verifies the
  PIN, reads and writes (\<open>execute.rs\<close>). An \<open>i32\<close> is a 32-bit word read by \<open>sint\<close>. The properties
  concern the order in which an operation authenticates and writes, what its progress report counts,
  and what a configuration patch does to the card's configuration.
\<close>

section \<open>Types\<close>

definition admin_invalid :: Error where
  "admin_invalid = Error_at (Error_new InvalidResponse) Phase.Parsing"

definition KeyboardKeymap_from_bytes :: "bytes \<Rightarrow> bytes res" where
  "KeyboardKeymap_from_bytes bs = (if length bs = 256 then Inr bs else Inl (Error_new InvalidArgument))"

definition Pin_from_bytes :: "bytes \<Rightarrow> bytes res" where
  "Pin_from_bytes bs = (if \<not> (6 \<le> length bs \<and> length bs \<le> 64) then Inl (Error_new InvalidPin) else Inr bs)"

datatype AdminAccess = ExistingAccess | NoAccess | PinAccess bytes

type_synonym Configuration = bytes

definition Configuration_parse :: "bytes \<Rightarrow> Configuration res" where
  "Configuration_parse d =
     (if length d \<noteq> 6 then Inl admin_invalid
      else if list_ex (\<lambda>i. d ! i > 1) [0, 2, 3, 4] then Inl admin_invalid
      else Inr d)"

definition led_on :: "Configuration \<Rightarrow> bool" where "led_on c \<longleftrightarrow> c ! 0 \<noteq> 0"
definition ndef_read_only :: "Configuration \<Rightarrow> bool" where "ndef_read_only c \<longleftrightarrow> c ! 2 \<noteq> 0"
definition ndef_enabled :: "Configuration \<Rightarrow> bool" where "ndef_enabled c \<longleftrightarrow> c ! 3 \<noteq> 0"
definition webusb_landing :: "Configuration \<Rightarrow> bool" where "webusb_landing c \<longleftrightarrow> c ! 4 \<noteq> 0"
definition features :: "Configuration \<Rightarrow> byte" where "features c = c ! 5"

record LegacyConfiguration =
  lg_raw :: bytes
  lg_layout :: AdminConfigurationLayout

fun legacy_shape :: "AdminConfigurationLayout \<Rightarrow> (nat \<times> nat list) option" where
  "legacy_shape TouchPolicies = Some (7, [0, 1, 2])"
| "legacy_shape Basic = Some (5, [0, 1, 2, 3, 4])"
| "legacy_shape KeyboardReturn = Some (6, [0, 1, 2, 3, 4, 5])"
| "legacy_shape Reserved = Some (6, [0, 2, 3, 4])"
| "legacy_shape Features = None"

definition LegacyConfiguration_parse :: "DeviceProfile \<Rightarrow> bytes \<Rightarrow> LegacyConfiguration res" where
  "LegacyConfiguration_parse p bs =
     bindE (admin_configuration_layout p) (\<lambda>layout.
       case legacy_shape layout of
         None \<Rightarrow> Inl (Error_new InvalidArgument)
       | Some (n, flags) \<Rightarrow>
           if length bs \<noteq> n \<or> list_ex (\<lambda>i. bs ! i > 1) flags then Inl admin_invalid
           else Inr \<lparr>lg_raw = bs, lg_layout = layout\<rparr>)"

definition lg_led_on :: "LegacyConfiguration \<Rightarrow> bool" where
  "lg_led_on c \<longleftrightarrow> lg_raw c ! 0 \<noteq> 0"

definition lg_ndef_read_only :: "LegacyConfiguration \<Rightarrow> bool" where
  "lg_ndef_read_only c \<longleftrightarrow> lg_raw c ! 2 \<noteq> 0"

definition lg_ndef_enabled :: "LegacyConfiguration \<Rightarrow> bool option" where
  "lg_ndef_enabled c = (if lg_layout c \<noteq> TouchPolicies then Some (lg_raw c ! 3 \<noteq> 0) else None)"

definition lg_webusb_landing :: "LegacyConfiguration \<Rightarrow> bool option" where
  "lg_webusb_landing c = (if lg_layout c \<noteq> TouchPolicies then Some (lg_raw c ! 4 \<noteq> 0) else None)"

definition lg_keyboard_interface :: "LegacyConfiguration \<Rightarrow> bool option" where
  "lg_keyboard_interface c = (if lg_layout c \<noteq> Reserved then Some (lg_raw c ! 1 \<noteq> 0) else None)"

definition lg_keyboard_return :: "LegacyConfiguration \<Rightarrow> bool option" where
  "lg_keyboard_return c = (if lg_layout c = KeyboardReturn then Some (lg_raw c ! 5 \<noteq> 0) else None)"

definition lg_openpgp_touch :: "LegacyConfiguration \<Rightarrow> bytes option" where
  "lg_openpgp_touch c =
     (if lg_layout c = TouchPolicies
      then Some [lg_raw c ! 3, lg_raw c ! 4, lg_raw c ! 5, lg_raw c ! 6] else None)"

definition LegacySm2Configuration_from_bytes :: "bytes \<Rightarrow> bytes res" where
  "LegacySm2Configuration_from_bytes bs =
     (if length bs \<noteq> 9 \<or> bs ! 0 > 1 then Inl admin_invalid else Inr bs)"

datatype LegacyOpenPgpTouch = SignatureTouch bool | DecryptionTouch bool | AuthenticationTouch bool
  | CacheSeconds byte

record ConfigurationPatch =
  cp_led_on :: "bool option"
  cp_ndef_read_only :: "bool option"
  cp_ndef_enabled :: "bool option"
  cp_webusb_landing :: "bool option"
  cp_feature_mask :: byte
  cp_feature_values :: byte

record FlashUsage =
  fu_used_kib :: byte
  fu_total_kib :: byte

record AppletUsage =
  au_applet_id :: byte
  au_flags :: byte
  au_logical_bytes :: "32 word"

record Sm2Configuration =
  sm_curve_id :: "32 word"
  sm_algorithm_id :: "32 word"

definition Sm2Configuration_parse :: "bytes \<Rightarrow> Sm2Configuration res" where
  "Sm2Configuration_parse bs =
     (if length bs \<noteq> 8 then Inl admin_invalid
      else Inr \<lparr>sm_curve_id = from_be (take 4 bs), sm_algorithm_id = from_be (drop 4 bs)\<rparr>)"

definition Sm2Configuration_to_bytes :: "Sm2Configuration \<Rightarrow> bytes" where
  "Sm2Configuration_to_bytes s = to_be_bytes 4 (sm_curve_id s) @ to_be_bytes 4 (sm_algorithm_id s)"

record Sm2Patch =
  sp_curve_id :: "32 word option"
  sp_algorithm_id :: "32 word option"

datatype AppletId = AppletOpenPgp | AppletPiv | AppletOath | AppletNdef | AppletCtap | AppletPass

datatype PassSlotId = ShortSlot | LongSlot

fun PassSlotId_wire :: "PassSlotId \<Rightarrow> byte" where
  "PassSlotId_wire ShortSlot = 1"
| "PassSlotId_wire LongSlot = 2"

datatype PassSlotState = SlotOff | SlotStatic bool | SlotHmacSha1 | SlotOath bytes bool | SlotUnknown byte

datatype PassSlotConfig = ConfigOff | ConfigStatic bytes bool | ConfigHmacSha1 bytes

fun PassSlotConfig_encode :: "PassSlotConfig \<Rightarrow> bytes res" where
  "PassSlotConfig_encode ConfigOff = Inr [0x00]"
| "PassSlotConfig_encode (ConfigStatic p append_enter) =
     (if length p > 32 \<or> \<not> list_all (\<lambda>b. 0x20 \<le> b \<and> b \<le> 0x7e) p then Inl (Error_new InvalidArgument)
      else Inr ([0x02, of_nat (length p)] @ p @ [of_bool_byte append_enter]))"
| "PassSlotConfig_encode (ConfigHmacSha1 k) =
     (if length k \<noteq> 20 then Inl (Error_new InvalidArgument) else Inr ([0x03, 0x14] @ k))"

record PassSlots =
  ps_short :: PassSlotState
  ps_long :: PassSlotState

fun PassSlotState_parse_prefix :: "bytes \<Rightarrow> (PassSlotState \<times> nat) res" where
  "PassSlotState_parse_prefix [] = Inl admin_invalid"
| "PassSlotState_parse_prefix (ty # rest) =
     (if ty = 0x00 then Inr (SlotOff, 1)
      else if ty = 0x02 then
        (case rest of
           [] \<Rightarrow> Inl admin_invalid
         | enter # _ \<Rightarrow> if enter > 1 then Inl admin_invalid else Inr (SlotStatic (enter \<noteq> 0), 2))
      else if ty = 0x03 then Inr (SlotHmacSha1, 1)
      else if ty = 0x01 then
        (case rest of
           [] \<Rightarrow> Inl admin_invalid
         | n # rest' \<Rightarrow>
             let len = unat n in
             if length rest' < len + 1 then Inl admin_invalid
             else if rest' ! len > 1 then Inl admin_invalid
             else Inr (SlotOath (take len rest') (rest' ! len \<noteq> 0), len + 3))
      else Inr (SlotUnknown ty, 1))"

definition PassSlots_parse :: "bytes \<Rightarrow> PassSlots res" where
  "PassSlots_parse raw =
     bindE (PassSlotState_parse_prefix raw) (\<lambda>(short, n).
     bindE (PassSlotState_parse_prefix (drop n raw)) (\<lambda>(long, k).
       if n + k \<noteq> length raw then Inl admin_invalid
       else Inr \<lparr>ps_short = short, ps_long = long\<rparr>))"

datatype AdminRequest =
    Firmware | Model | SerialNumber | ChipId | CoreCommit | ReadConfiguration | ReadFlashUsage
  | ReadAppletUsage | KeyboardLayout | ReadKeyboardKeymap | SetKeyboardKeymap byte bytes
  | ClearKeyboardKeymap | PassConfiguration | SetPassConfiguration bytes | ReadPassSlots
  | SetPassSlot PassSlotId PassSlotConfig | ReadPinStatus | VerifyPin | ChangePin bytes
  | Configure ConfigurationPatch | SetKeyboardInterface bool | SetKeyboardReturn bool
  | SetLegacyPivExtensions bool | SetLegacyOpenPgpTouch LegacyOpenPgpTouch | WriteLegacySm2 bytes
  | ReadNfcStatus | SetNfc bool | ReadSm2Configuration | ConfigureSm2 Sm2Patch | ResetApplet AppletId
  | FactoryReset

record PinStatus =
  pn_verified :: bool
  pn_retries_remaining :: "byte option"
  pn_blocked :: bool

datatype AdminValue =
    NoValue | BytesValue bytes | ConfigurationValue Configuration
  | LegacyConfigurationValue LegacyConfiguration | LegacySm2Value bytes | FlashUsageValue FlashUsage
  | AppletUsageValue "AppletUsage list" | KeyboardLayoutValue byte | KeyboardKeymapValue bytes
  | PinStatusValue PinStatus | PassSlotsValue PassSlots | NfcStatusValue bool | Sm2Value Sm2Configuration

record AdminOutcome =
  oc_value :: AdminValue
  oc_confirmed_writes :: nat
  oc_reprobe_required :: bool

section \<open>Commands\<close>

definition admin_select :: LogicalCommand where
  "admin_select = LogicalCommand_new (ApduHeader_new 0 0xa4 4 0) [0xf0, 0, 0, 0, 0] Absent"

definition admin_read_command :: "byte \<Rightarrow> byte \<Rightarrow> LogicalCommand" where
  "admin_read_command i a =
     (LogicalCommand_new (ApduHeader_new 0 i a 0) [] (Exact 256))\<lparr>lc_correct_le := True\<rparr>"

definition firmware_command :: LogicalCommand where "firmware_command = admin_read_command 0x31 0"
definition model_command :: LogicalCommand where "model_command = admin_read_command 0x31 1"
definition serial_command :: LogicalCommand where "serial_command = admin_read_command 0x32 0"
definition read_keyboard_layout :: LogicalCommand where "read_keyboard_layout = admin_read_command 0x46 0"
definition read_keyboard_keymap :: LogicalCommand where "read_keyboard_keymap = admin_read_command 0x46 1"
definition pass_configuration :: LogicalCommand where "pass_configuration = admin_read_command 0x43 0"

definition write_keyboard_keymap :: "byte \<Rightarrow> bytes \<Rightarrow> LogicalCommand" where
  "write_keyboard_keymap layout keymap = LogicalCommand_new (ApduHeader_new 0 0x45 0 layout) keymap Absent"

definition clear_keyboard_keymap :: LogicalCommand where
  "clear_keyboard_keymap = LogicalCommand_new (ApduHeader_new 0 0x47 0 0) [] Absent"

definition write_pass_configuration :: "bytes \<Rightarrow> LogicalCommand" where
  "write_pass_configuration d = LogicalCommand_new (ApduHeader_new 0 0x44 0 0) d Absent"

definition admin_cmd :: "byte \<Rightarrow> byte \<Rightarrow> byte \<Rightarrow> bytes \<Rightarrow> bool \<Rightarrow> LogicalCommand" where
  "admin_cmd i a b d rd =
     (let c = (LogicalCommand_new (ApduHeader_new 0 i a b) d (if rd then Exact 256 else Absent))\<lparr>lc_correct_le := rd\<rparr>
      in if \<not> rd then c\<lparr>lc_continuation := NoContinuation\<rparr> else c)"

definition admin_read :: "byte \<Rightarrow> byte \<Rightarrow> LogicalCommand" where
  "admin_read i a = admin_cmd i a 0 [] True"

definition admin_write :: "byte \<Rightarrow> byte \<Rightarrow> byte \<Rightarrow> bytes \<Rightarrow> LogicalCommand" where
  "admin_write i a b d = admin_cmd i a b d False"

definition admin_argument :: Error where
  "admin_argument = Error_new InvalidArgument"

definition sm2_valid :: "Sm2Configuration \<Rightarrow> unit res" where
  "sm2_valid s =
     (if sm_curve_id s = 0
         \<or> 1 \<le> sint (sm_curve_id s) \<and> sint (sm_curve_id s) \<le> 8
         \<or> 256 \<le> sint (sm_curve_id s) \<and> sint (sm_curve_id s) \<le> 259
         \<or> sint (sm_algorithm_id s) \<in> {-7, -8, -49}
      then Inl admin_argument else Inr ())"

section \<open>The factory\<close>

datatype Stage = SelectStage | AuthenticateStage | ReadStage | WriteStage bool

fun admin_capabilities :: "AdminRequest \<Rightarrow> Capability list" where
  "admin_capabilities CoreCommit = [AdminExtendedConfiguration]"
| "admin_capabilities ReadAppletUsage = [AdminExtendedConfiguration]"
| "admin_capabilities (ConfigureSm2 _) = [AdminExtendedConfiguration]"
| "admin_capabilities (SetKeyboardInterface _) = [AdminKeyboard]"
| "admin_capabilities (SetKeyboardReturn _) = [AdminKeyboardReturn]"
| "admin_capabilities (SetLegacyPivExtensions _) = [AdminLegacyPivExtensions]"
| "admin_capabilities (SetLegacyOpenPgpTouch _) = [AdminLegacyOpenPgpTouch]"
| "admin_capabilities (WriteLegacySm2 _) = [AdminLegacySm2]"
| "admin_capabilities (ResetApplet a) = (if a = AppletCtap \<or> a = AppletPass then [AdminCtapPassReset] else [])"
| "admin_capabilities PassConfiguration = [AdminPassConfig]"
| "admin_capabilities (SetPassConfiguration _) = [AdminPassConfig]"
| "admin_capabilities ReadPassSlots = [AdminPassConfig]"
| "admin_capabilities (SetPassSlot _ _) = [AdminPassConfig]"
| "admin_capabilities ReadNfcStatus = [AdminNfc]"
| "admin_capabilities (SetNfc _) = [AdminNfc]"
| "admin_capabilities ReadSm2Configuration = [AdminSm2]"
| "admin_capabilities (Configure p) =
     (if cp_ndef_enabled p \<noteq> None \<or> cp_webusb_landing p \<noteq> None then [AdminNdefWebUsb] else [])
     @ (if cp_feature_mask p \<noteq> 0 then [AdminExtendedConfiguration] else [])"
| "admin_capabilities _ = []"

definition unsupported :: "DeviceProfile \<Rightarrow> Capability \<Rightarrow> bool" where
  "unsupported p feature \<longleftrightarrow> cs_support (capability p feature) = Unsupported"

definition protected_read :: "DeviceProfile \<Rightarrow> AdminRequest \<Rightarrow> bool" where
  "protected_read p request \<longleftrightarrow>
     request = ReadPassSlots \<or> request = PassConfiguration
     \<or> (request = ReadConfiguration \<or> request = ReadFlashUsage) \<and> unsupported p AdminPublicConfiguration
     \<or> request = ReadNfcStatus \<and> unsupported p AdminPublicNfcStatus"

fun protected_request :: "AdminRequest \<Rightarrow> bool" where
  "protected_request VerifyPin = True"
| "protected_request (ChangePin _) = True"
| "protected_request (Configure _) = True"
| "protected_request (SetNfc _) = True"
| "protected_request ReadSm2Configuration = True"
| "protected_request (ConfigureSm2 _) = True"
| "protected_request (ResetApplet _) = True"
| "protected_request (SetKeyboardInterface _) = True"
| "protected_request (SetKeyboardReturn _) = True"
| "protected_request (SetLegacyPivExtensions _) = True"
| "protected_request (SetLegacyOpenPgpTouch _) = True"
| "protected_request (WriteLegacySm2 _) = True"
| "protected_request (SetKeyboardKeymap _ _) = True"
| "protected_request ClearKeyboardKeymap = True"
| "protected_request (SetPassConfiguration _) = True"
| "protected_request (SetPassSlot _ _) = True"
| "protected_request _ = False"

definition admin_protected :: "DeviceProfile \<Rightarrow> AdminRequest \<Rightarrow> bool" where
  "admin_protected p request \<longleftrightarrow> protected_read p request \<or> protected_request request"

fun is_pin :: "AdminAccess \<Rightarrow> bool" where
  "is_pin (PinAccess _) = True"
| "is_pin _ = False"

fun patch_rejected :: "AdminRequest \<Rightarrow> bool" where
  "patch_rejected (Configure p) \<longleftrightarrow>
     cp_feature_mask p AND NOT 0x3f \<noteq> 0 \<or> cp_feature_values p AND NOT (cp_feature_mask p) \<noteq> 0"
| "patch_rejected _ \<longleftrightarrow> False"

fun sm2_patch_check :: "AdminRequest \<Rightarrow> unit res" where
  "sm2_patch_check (ConfigureSm2 p) =
     sm2_valid \<lparr>sm_curve_id = (case sp_curve_id p of Some c \<Rightarrow> c | None \<Rightarrow> 9),
                sm_algorithm_id = (case sp_algorithm_id p of Some a \<Rightarrow> a | None \<Rightarrow> - 54)\<rparr>"
| "sm2_patch_check _ = Inr ()"

text \<open>The checks of \<open>operation_with_access\<close> before the queue is built, in their order.\<close>

definition admin_guards :: "DeviceProfile \<Rightarrow> AdminRequest \<Rightarrow> AdminAccess \<Rightarrow> unit res" where
  "admin_guards p request access =
     bindE (require p Capability.Admin) (\<lambda>_.
     bindE (collectE (require p) (admin_capabilities request)) (\<lambda>_.
     bindE (ensureE (\<not> (admin_protected p request \<and> access = NoAccess)) (Error_new SecurityStatusNotSatisfied)) (\<lambda>_.
     bindE (ensureE (\<not> (access = ExistingAccess \<and> request = VerifyPin)) admin_argument) (\<lambda>_.
     bindE (ensureE (\<not> (is_pin access \<and> (request = ReadPinStatus \<or> request = FactoryReset))) admin_argument) (\<lambda>_.
     bindE (ensureE (\<not> patch_rejected request) admin_argument) (\<lambda>_.
     sm2_patch_check request))))))"

fun applet_reset_ins :: "AppletId \<Rightarrow> byte" where
  "applet_reset_ins AppletOpenPgp = 3"
| "applet_reset_ins AppletPiv = 4"
| "applet_reset_ins AppletOath = 5"
| "applet_reset_ins AppletNdef = 7"
| "applet_reset_ins AppletCtap = 9"
| "applet_reset_ins AppletPass = 0x13"

fun legacy_touch :: "LegacyOpenPgpTouch \<Rightarrow> byte \<times> byte" where
  "legacy_touch (SignatureTouch on) = (0, of_bool_byte on)"
| "legacy_touch (DecryptionTouch on) = (1, of_bool_byte on)"
| "legacy_touch (AuthenticationTouch on) = (2, of_bool_byte on)"
| "legacy_touch (CacheSeconds seconds) = (3, seconds)"

fun admin_target :: "AdminRequest \<Rightarrow> (LogicalCommand option \<times> Stage) res" where
  "admin_target Firmware = Inr (Some firmware_command, ReadStage)"
| "admin_target Model = Inr (Some model_command, ReadStage)"
| "admin_target SerialNumber = Inr (Some serial_command, ReadStage)"
| "admin_target ChipId = Inr (Some (admin_read 0x32 1), ReadStage)"
| "admin_target CoreCommit = Inr (Some (admin_read 0x31 2), ReadStage)"
| "admin_target ReadConfiguration = Inr (Some (admin_read 0x42 0), ReadStage)"
| "admin_target (Configure _) = Inr (Some (admin_read 0x42 0), ReadStage)"
| "admin_target ReadFlashUsage = Inr (Some (admin_read 0x41 0), ReadStage)"
| "admin_target ReadAppletUsage = Inr (Some (admin_read 0x41 1), ReadStage)"
| "admin_target KeyboardLayout = Inr (Some read_keyboard_layout, ReadStage)"
| "admin_target ReadKeyboardKeymap = Inr (Some read_keyboard_keymap, ReadStage)"
| "admin_target (SetKeyboardKeymap layout keymap) = Inr (Some (write_keyboard_keymap layout keymap), WriteStage True)"
| "admin_target ClearKeyboardKeymap = Inr (Some clear_keyboard_keymap, WriteStage True)"
| "admin_target PassConfiguration = Inr (Some pass_configuration, ReadStage)"
| "admin_target (SetPassConfiguration d) = Inr (Some (write_pass_configuration d), WriteStage True)"
| "admin_target ReadPassSlots = Inr (Some pass_configuration, ReadStage)"
| "admin_target (SetPassSlot slot config) =
     bindE (PassSlotConfig_encode config) (\<lambda>d.
       Inr (Some (admin_write 0x44 (PassSlotId_wire slot) 0 d), WriteStage True))"
| "admin_target ReadPinStatus = Inr (Some (admin_write 0x20 0 0 []), ReadStage)"
| "admin_target VerifyPin = Inr (None, ReadStage)"
| "admin_target (ChangePin pin) = Inr (Some (admin_write 0x21 0 0 pin), WriteStage False)"
| "admin_target ReadNfcStatus = Inr (Some (admin_read 0x14 0), ReadStage)"
| "admin_target (SetNfc on) = Inr (Some (admin_write 0x14 1 (of_bool_byte on) []), WriteStage True)"
| "admin_target ReadSm2Configuration = Inr (Some (admin_read 0x11 0), ReadStage)"
| "admin_target (ConfigureSm2 _) = Inr (Some (admin_read 0x11 0), ReadStage)"
| "admin_target (ResetApplet a) = Inr (Some (admin_write (applet_reset_ins a) 0 0 []), WriteStage True)"
| "admin_target (SetKeyboardInterface on) = Inr (Some (admin_write 0x40 3 (of_bool_byte on) []), WriteStage True)"
| "admin_target (SetKeyboardReturn on) = Inr (Some (admin_write 0x40 6 (of_bool_byte on) []), WriteStage True)"
| "admin_target (SetLegacyPivExtensions on) = Inr (Some (admin_write 0x40 7 (of_bool_byte on) []), WriteStage True)"
| "admin_target (SetLegacyOpenPgpTouch t) =
     Inr (Some (admin_write 9 (fst (legacy_touch t)) (snd (legacy_touch t)) []), WriteStage True)"
| "admin_target (WriteLegacySm2 config) = Inr (Some (admin_write 0x12 0 0 config), WriteStage True)"
| "admin_target FactoryReset = Inr (Some (admin_write 0x50 0 0 [0x52, 0x45, 0x53, 0x45, 0x54]), WriteStage True)"

definition admin_queue :: "AdminAccess \<Rightarrow> LogicalCommand option \<times> Stage \<Rightarrow> (LogicalCommand \<times> Stage) list" where
  "admin_queue access target =
     (if access = ExistingAccess then [] else [(admin_select, SelectStage)])
     @ (case access of PinAccess pin \<Rightarrow> [(admin_write 0x20 0 0 pin, AuthenticateStage)] | _ \<Rightarrow> [])
     @ (case target of (Some c, stage) \<Rightarrow> [(c, stage)] | (None, _) \<Rightarrow> [])"

definition explicit_le_command :: "DeviceProfile \<Rightarrow> LogicalCommand \<Rightarrow> LogicalCommand" where
  "explicit_le_command p c = (if legacy_explicit_le p \<and> lc_le c = Absent then c\<lparr>lc_le := Exact 256\<rparr> else c)"

fun dynamic_check :: "AdminRequest \<Rightarrow> OperationOptions \<Rightarrow> unit res" where
  "dynamic_check (Configure _) opts = validate_command (admin_write 0x12 0 0 []) opts"
| "dynamic_check (ConfigureSm2 _) opts = validate_command (admin_write 0x12 0 0 (replicate 8 0)) opts"
| "dynamic_check _ opts = Inr ()"

record Admin =
  ad_queue :: "(LogicalCommand \<times> Stage) list"
  ad_pending :: "Stage option"
  ad_request :: AdminRequest
  ad_options :: OperationOptions
  ad_profile :: DeviceProfile
  ad_outcome :: "AdminOutcome option"

definition operation_with_access ::
  "DeviceProfile \<Rightarrow> AdminRequest \<Rightarrow> AdminAccess \<Rightarrow> OperationOptions \<Rightarrow> (Admin, AdminOutcome) Operation res" where
  "operation_with_access p request access opts =
     bindE (admin_guards p request access) (\<lambda>_.
     bindE (admin_target request) (\<lambda>target.
     let queue = map (\<lambda>(c, st). (explicit_le_command p c, st)) (admin_queue access target) in
     bindE (collectE (\<lambda>(c, st). validate_command c opts) queue) (\<lambda>_.
     bindE (dynamic_check request opts) (\<lambda>_.
       Operation_from_machine
         \<lparr>ad_queue = queue, ad_pending = None, ad_request = request, ad_options = opts, ad_profile = p,
          ad_outcome = Some \<lparr>oc_value = NoValue, oc_confirmed_writes = 0, oc_reprobe_required = False\<rparr>\<rparr> opts))))"

definition admin_operation ::
  "DeviceProfile \<Rightarrow> AdminRequest \<Rightarrow> bytes option \<Rightarrow> OperationOptions \<Rightarrow> (Admin, AdminOutcome) Operation res" where
  "admin_operation p request pin opts =
     operation_with_access p request (case pin of Some x \<Rightarrow> PinAccess x | None \<Rightarrow> NoAccess) opts"

section \<open>The machine\<close>

definition flag_write :: "byte \<Rightarrow> byte \<Rightarrow> bool \<Rightarrow> LogicalCommand" where
  "flag_write i a v =
     (if i = 8 then admin_write i (of_bool_byte v) 0 [] else admin_write i a (of_bool_byte v) [])"

text \<open>The two loops of \<open>patch\<close>, over the fields in their order.\<close>

fun legacy_patch_writes ::
  "OperationOptions \<Rightarrow> (bool option \<times> bool option \<times> byte \<times> byte) list \<Rightarrow> LogicalCommand list res" where
  "legacy_patch_writes opts [] = Inr []"
| "legacy_patch_writes opts ((None, old, i, a) # fs) = legacy_patch_writes opts fs"
| "legacy_patch_writes opts ((Some v, old, i, a) # fs) =
     bindE (ok_or old (Error_new UnsupportedFeature)) (\<lambda>o'.
       if v \<noteq> o' then
         (let c = (flag_write i a v)\<lparr>lc_le := Exact 256\<rparr> in
          bindE (validate_command c opts) (\<lambda>_.
          bindE (legacy_patch_writes opts fs) (\<lambda>cs. Inr (c # cs))))
       else legacy_patch_writes opts fs)"

fun patch_writes :: "(bool option \<times> bool \<times> byte \<times> byte) list \<Rightarrow> LogicalCommand list" where
  "patch_writes [] = []"
| "patch_writes ((v, old, i, a) # fs) =
     (case v of
        Some x \<Rightarrow> (if x \<noteq> old then flag_write i a x # patch_writes fs else patch_writes fs)
      | None \<Rightarrow> patch_writes fs)"

definition feature_writes :: "Configuration \<Rightarrow> ConfigurationPatch \<Rightarrow> LogicalCommand list res" where
  "feature_writes config p =
     (let new = (features config AND NOT (cp_feature_mask p)) OR cp_feature_values p in
      if new \<noteq> features config then
        (if new AND NOT 0x3f \<noteq> 0 then Inl (Error_new UnsupportedProtocolVersion)
         else Inr [admin_write 0x40 6 new []])
      else Inr [])"

definition Admin_patch :: "Admin \<Rightarrow> bytes \<Rightarrow> ConfigurationPatch \<Rightarrow> LogicalCommand list res" where
  "Admin_patch m raw p =
     bindE (admin_configuration_layout (ad_profile m)) (\<lambda>layout.
       if layout \<noteq> Features then
         bindE (LegacyConfiguration_parse (ad_profile m) raw) (\<lambda>config.
           legacy_patch_writes (ad_options m)
             [(cp_led_on p, Some (lg_led_on config), 0x40, 1),
              (cp_ndef_read_only p, Some (lg_ndef_read_only config), 8, 0),
              (cp_ndef_enabled p, lg_ndef_enabled config, 0x40, 4),
              (cp_webusb_landing p, lg_webusb_landing config, 0x40, 5)])
       else
         bindE (Configuration_parse raw) (\<lambda>config.
         bindE (feature_writes config p) (\<lambda>fw.
           let writes = patch_writes
             [(cp_led_on p, led_on config, 0x40, 1), (cp_ndef_read_only p, ndef_read_only config, 0x08, 0),
              (cp_ndef_enabled p, ndef_enabled config, 0x40, 4),
              (cp_webusb_landing p, webusb_landing config, 0x40, 5)] @ fw in
           bindE (collectE (\<lambda>c. validate_command c (ad_options m)) writes) (\<lambda>_. Inr writes))))"

definition pin_status :: "StatusWord \<Rightarrow> PinStatus res" where
  "pin_status sw =
     (if sw = 0x9000 then Inr \<lparr>pn_verified = True, pn_retries_remaining = None, pn_blocked = False\<rparr>
      else if sw AND 0xfff0 = 0x63c0
      then Inr \<lparr>pn_verified = False, pn_retries_remaining = Some (ucast (sw AND 15)), pn_blocked = (sw = 0x63c0)\<rparr>
      else if sw = 0x6983 then Inr \<lparr>pn_verified = False, pn_retries_remaining = None, pn_blocked = True\<rparr>
      else Inl (Error_status sw Phase.Authentication (Some AdminPin)))"

definition usage_record :: "bytes \<Rightarrow> AppletUsage" where
  "usage_record r =
     \<lparr>au_applet_id = r ! 0, au_flags = r ! 1, au_logical_bytes = from_be [r ! 2, r ! 3, r ! 4, r ! 5]\<rparr>"

definition sm2_patch :: "Sm2Patch \<Rightarrow> bytes \<Rightarrow> LogicalCommand list res" where
  "sm2_patch p raw =
     bindE (Sm2Configuration_parse raw) (\<lambda>old.
       let new = \<lparr>sm_curve_id = (case sp_curve_id p of Some c \<Rightarrow> c | None \<Rightarrow> sm_curve_id old),
                  sm_algorithm_id = (case sp_algorithm_id p of Some a \<Rightarrow> a | None \<Rightarrow> sm_algorithm_id old)\<rparr> in
       if new \<noteq> old
       then bindE (sm2_valid new) (\<lambda>_. Inr [admin_write 0x12 0 0 (Sm2Configuration_to_bytes new)])
       else Inr [])"

text \<open>The value a read response yields and the write commands it appends to the queue.\<close>

definition admin_value :: "Admin \<Rightarrow> bytes \<Rightarrow> (AdminValue \<times> LogicalCommand list) res" where
  "admin_value m raw =
     (case ad_request m of
        Firmware \<Rightarrow> Inr (BytesValue raw, [])
      | Model \<Rightarrow> Inr (BytesValue raw, [])
      | SerialNumber \<Rightarrow> if length raw \<noteq> 4 then Inl admin_invalid else Inr (BytesValue raw, [])
      | ChipId \<Rightarrow> Inr (BytesValue raw, [])
      | CoreCommit \<Rightarrow> Inr (BytesValue raw, [])
      | ReadConfiguration \<Rightarrow>
          bindE (admin_configuration_layout (ad_profile m)) (\<lambda>layout.
            if layout = Features then bindE (Configuration_parse raw) (\<lambda>c. Inr (ConfigurationValue c, []))
            else bindE (LegacyConfiguration_parse (ad_profile m) raw) (\<lambda>c. Inr (LegacyConfigurationValue c, [])))
      | Configure p \<Rightarrow> bindE (Admin_patch m raw p) (\<lambda>ws. Inr (NoValue, ws))
      | ReadSm2Configuration \<Rightarrow>
          if supports (ad_profile m) AdminLegacySm2
          then bindE (LegacySm2Configuration_from_bytes raw) (\<lambda>c. Inr (LegacySm2Value c, []))
          else bindE (Sm2Configuration_parse raw) (\<lambda>c. Inr (Sm2Value c, []))
      | ConfigureSm2 p \<Rightarrow> bindE (sm2_patch p raw) (\<lambda>ws. Inr (NoValue, ws))
      | ReadFlashUsage \<Rightarrow>
          if length raw \<noteq> 2 then Inl admin_invalid
          else Inr (FlashUsageValue \<lparr>fu_used_kib = raw ! 0, fu_total_kib = raw ! 1\<rparr>, [])
      | ReadAppletUsage \<Rightarrow>
          if length raw \<noteq> 48 then Inl admin_invalid
          else Inr (AppletUsageValue (map usage_record (chunks 6 raw)), [])
      | KeyboardLayout \<Rightarrow> if length raw \<noteq> 1 then Inl admin_invalid else Inr (KeyboardLayoutValue (raw ! 0), [])
      | ReadKeyboardKeymap \<Rightarrow> bindE (KeyboardKeymap_from_bytes raw) (\<lambda>k. Inr (KeyboardKeymapValue k, []))
      | SetKeyboardKeymap _ _ \<Rightarrow> Inr (NoValue, [])
      | ClearKeyboardKeymap \<Rightarrow> Inr (NoValue, [])
      | PassConfiguration \<Rightarrow> Inr (BytesValue raw, [])
      | SetPassConfiguration _ \<Rightarrow> Inr (NoValue, [])
      | ReadPassSlots \<Rightarrow> bindE (PassSlots_parse raw) (\<lambda>s. Inr (PassSlotsValue s, []))
      | SetPassSlot _ _ \<Rightarrow> Inr (NoValue, [])
      | ReadNfcStatus \<Rightarrow>
          if length raw \<noteq> 1 \<or> raw ! 0 > 1 then Inl admin_invalid else Inr (NfcStatusValue (raw ! 0 \<noteq> 0), [])
      | _ \<Rightarrow> Inl admin_invalid)"

definition set_value :: "Admin \<Rightarrow> AdminValue \<Rightarrow> Admin \<times> unit res" where
  "set_value m v =
     (case ad_outcome m of
        None \<Rightarrow> (m, Inl admin_invalid)
      | Some oc \<Rightarrow> (m\<lparr>ad_outcome := Some (oc\<lparr>oc_value := v\<rparr>)\<rparr>, Inr ()))"

definition Admin_parse :: "Admin \<Rightarrow> ResponseData \<Rightarrow> Admin \<times> unit res" where
  "Admin_parse m r =
     (if ad_request m = ReadPinStatus then
        (if rd_data r \<noteq> [] then (m, Inl admin_invalid)
         else case pin_status (rd_status r) of
           Inl e \<Rightarrow> (m, Inl e)
         | Inr st \<Rightarrow> set_value m (PinStatusValue st))
      else case ResponseData_ensure_success r Phase.Command of
        Inl e \<Rightarrow> (m, Inl e)
      | Inr _ \<Rightarrow>
          (case admin_value m (rd_data r) of
             Inl e \<Rightarrow> (m, Inl e)
           | Inr (v, ws) \<Rightarrow>
               set_value (m\<lparr>ad_queue := ad_queue m @ map (\<lambda>c. (c, WriteStage True)) ws\<rparr>) v))"

fun stage_phase :: "Stage \<Rightarrow> Phase" where
  "stage_phase SelectStage = Phase.Select"
| "stage_phase AuthenticateStage = Phase.Authentication"
| "stage_phase _ = Phase.Command"

text \<open>The acknowledgement of a command that is not a read.\<close>

definition Admin_acknowledge :: "Admin \<Rightarrow> Stage \<Rightarrow> ResponseData \<Rightarrow> Admin \<times> unit res" where
  "Admin_acknowledge m stage r =
     (if \<not> StatusWord_is_success (rd_status r)
      then (m, Inl (Error_status (rd_status r) (stage_phase stage)
                      (if stage = AuthenticateStage then Some AdminPin else None)))
      else if rd_data r \<noteq> [] then (m, Inl admin_invalid)
      else case stage of
        WriteStage _ \<Rightarrow>
          (case ad_outcome m of
             None \<Rightarrow> (m, Inl admin_invalid)
           | Some oc \<Rightarrow>
               (m\<lparr>ad_outcome := Some (oc\<lparr>oc_confirmed_writes := oc_confirmed_writes oc + 1\<rparr>)\<rparr>, Inr ()))
      | _ \<Rightarrow> (m, Inr ()))"

definition Admin_issue :: "Admin \<Rightarrow> Admin \<times> AdminOutcome Action res" where
  "Admin_issue m =
     (case ad_queue m of
        (c, stage) # rest \<Rightarrow>
          (let m1 = m\<lparr>ad_queue := rest\<rparr> in
           if stage = WriteStage True then
             (case ad_outcome m1 of
                None \<Rightarrow> (m1, Inl admin_invalid)
              | Some oc \<Rightarrow>
                  (m1\<lparr>ad_outcome := Some (oc\<lparr>oc_reprobe_required := True\<rparr>), ad_pending := Some stage\<rparr>,
                   Inr (Command c)))
           else (m1\<lparr>ad_pending := Some stage\<rparr>, Inr (Command c)))
      | [] \<Rightarrow>
          (case ad_outcome m of
             None \<Rightarrow> (m, Inl admin_invalid)
           | Some oc \<Rightarrow> (m\<lparr>ad_outcome := None\<rparr>, Inr (Action.Done oc))))"

definition Admin_react :: "Admin \<Rightarrow> ResponseData \<Rightarrow> Admin \<times> unit res" where
  "Admin_react m r =
     (case ad_pending m of
        None \<Rightarrow> (m, Inl admin_invalid)
      | Some stage \<Rightarrow>
          (let m1 = m\<lparr>ad_pending := None\<rparr> in
           if stage = ReadStage then Admin_parse m1 r else Admin_acknowledge m1 stage r))"

definition Admin_next :: "Admin \<Rightarrow> ResponseData option \<Rightarrow> Admin \<times> AdminOutcome Action res" where
  "Admin_next m response =
     (case response of
        None \<Rightarrow> Admin_issue m
      | Some r \<Rightarrow>
          (case Admin_react m r of
             (m1, Inl e) \<Rightarrow> (m1, Inl e)
           | (m1, Inr _) \<Rightarrow> Admin_issue m1))"

definition Admin_ops :: "(Admin, AdminOutcome) Machine" where
  "Admin_ops = \<lparr>m_next = Admin_next, m_progress = ad_outcome, m_take_progress = ad_outcome\<rparr>"

section \<open>Runs of the machine\<close>

definition acked :: "ResponseData \<Rightarrow> bool" where
  "acked r \<longleftrightarrow> StatusWord_is_success (rd_status r) \<and> rd_data r = []"

fun is_write :: "Stage \<Rightarrow> bool" where
  "is_write (WriteStage _) = True"
| "is_write _ = False"

type_synonym admin_entry = "(LogicalCommand \<times> Stage) \<times> ResponseData"

definition entry_acked :: "admin_entry \<Rightarrow> bool" where
  "entry_acked e \<longleftrightarrow> snd (fst e) = ReadStage \<or> acked (snd e)"

abbreviation dynamic :: "LogicalCommand list \<Rightarrow> (LogicalCommand \<times> Stage) list" where
  "dynamic ws \<equiv> map (\<lambda>c. (c, WriteStage True)) ws"

text \<open>
  A configuration: the exchanges so far with the stage of each command, which together with the
  queue make up the initial queue \<open>q0\<close> and the writes a patch appended.
\<close>

definition admin_inv ::
  "(LogicalCommand \<times> Stage) list \<Rightarrow> admin_entry list \<Rightarrow> Admin \<Rightarrow> ResponseData option \<Rightarrow> trace \<Rightarrow> bool" where
  "admin_inv q0 es m resp tr \<longleftrightarrow>
     tr = map (\<lambda>e. (fst (fst e), snd e)) es
     \<and> (\<exists>dyn. q0 @ dynamic dyn = map fst es @ ad_queue m)
     \<and> ad_pending m = (if es = [] then None else Some (snd (fst (last es))))
     \<and> resp = (if es = [] then None else Some (snd (last es)))
     \<and> list_all entry_acked (butlast es)
     \<and> (\<exists>oc. ad_outcome m = Some oc
          \<and> oc_confirmed_writes oc = length (filter (\<lambda>e. is_write (snd (fst e))) (butlast es))
          \<and> (oc_reprobe_required oc \<longleftrightarrow> (\<exists>e \<in> set es. snd (fst e) = WriteStage True)))"

lemma set_value_simps:
  assumes "set_value m v = (m', res)" "ad_outcome m = Some oc"
  shows "res = Inr () \<and> m' = m\<lparr>ad_outcome := Some (oc\<lparr>oc_value := v\<rparr>)\<rparr>"
  using assms by (auto simp: set_value_def)

lemma Admin_parse_effect:
  assumes "Admin_parse m r = (m', res)" "ad_outcome m = Some oc"
  shows "ad_pending m' = ad_pending m \<and> (\<exists>ws. ad_queue m' = ad_queue m @ dynamic ws)
    \<and> (\<exists>oc'. ad_outcome m' = Some oc' \<and> oc_confirmed_writes oc' = oc_confirmed_writes oc
         \<and> oc_reprobe_required oc' = oc_reprobe_required oc)"
proof -
  have same: "\<exists>ws. ad_queue m = ad_queue m @ dynamic ws" by (rule exI [of _ "[]"]) simp
  have upd: ?thesis if "set_value (m\<lparr>ad_queue := ad_queue m @ dynamic ws\<rparr>) v = (m', res)" for ws v
    using set_value_simps [OF that, of oc] assms(2) by auto
  have upd0: ?thesis if "set_value m v = (m', res)" for v
    using upd [of "[]" v] that by simp
  show ?thesis
    using assms same upd upd0 by (auto simp: Admin_parse_def split: if_splits sum.splits prod.splits)
qed

text \<open>Reacting to a response: what an error leaves behind, and what an accepted response counts.\<close>

lemma Admin_react_effect:
  assumes inv: "admin_inv q0 (es @ [((c, st), r)]) m (Some r) tr" and react: "Admin_react m r = (m1, res)"
  shows "(\<exists>dyn. q0 @ dynamic dyn = map fst (es @ [((c, st), r)]) @ ad_queue m1)
    \<and> (res = Inr () \<longrightarrow> entry_acked ((c, st), r))
    \<and> (\<exists>oc. ad_outcome m1 = Some oc
         \<and> oc_confirmed_writes oc = length (filter (\<lambda>e. is_write (snd (fst e)) \<and> acked (snd e)) (es @ [((c, st), r)]))
         \<and> (oc_reprobe_required oc \<longleftrightarrow> (\<exists>e \<in> set (es @ [((c, st), r)]). snd (fst e) = WriteStage True)))"
proof -
  let ?m = "m\<lparr>ad_pending := None\<rparr>"
  obtain dyn oc where q: "q0 @ dynamic dyn = map fst (es @ [((c, st), r)]) @ ad_queue m"
    and pend: "ad_pending m = Some st" and ok: "list_all entry_acked es" and oc: "ad_outcome m = Some oc"
    "oc_confirmed_writes oc = length (filter (\<lambda>e. is_write (snd (fst e))) es)"
    "oc_reprobe_required oc \<longleftrightarrow> (\<exists>e \<in> set (es @ [((c, st), r)]). snd (fst e) = WriteStage True)"
    using inv by (auto simp: admin_inv_def)
  have "acked (snd e)" if "e \<in> set es" "is_write (snd (fst e))" for e
    using ok that by (cases "snd (fst e)") (auto simp: list_all_iff entry_acked_def)
  then have cnt: "filter (\<lambda>e. is_write (snd (fst e)) \<and> acked (snd e)) es = filter (\<lambda>e. is_write (snd (fst e))) es"
    by (intro filter_cong) auto
  show ?thesis
  proof (cases "st = ReadStage")
    case True
    then have "Admin_parse ?m r = (m1, res)" using react pend by (simp add: Admin_react_def)
    from Admin_parse_effect [OF this, of oc] oc obtain ws oc' where
      e: "ad_queue m1 = ad_queue m @ dynamic ws" "ad_outcome m1 = Some oc'"
      "oc_confirmed_writes oc' = oc_confirmed_writes oc" "oc_reprobe_required oc' = oc_reprobe_required oc"
      by auto
    have "q0 @ dynamic (dyn @ ws) = map fst (es @ [((c, st), r)]) @ ad_queue m1"
      using q e by simp
    then have "\<exists>dyn. q0 @ dynamic dyn = map fst (es @ [((c, st), r)]) @ ad_queue m1" by blast
    moreover have "entry_acked ((c, st), r)" using True by (simp add: entry_acked_def)
    moreover have "oc_confirmed_writes oc' = length (filter (\<lambda>e. is_write (snd (fst e)) \<and> acked (snd e)) (es @ [((c, st), r)]))"
      using e oc cnt True by simp
    ultimately show ?thesis using e oc by blast
  next
    case False
    then have ack: "Admin_acknowledge ?m st r = (m1, res)" using react pend by (simp add: Admin_react_def)
    then have qu: "ad_queue m1 = ad_queue m"
      using oc by (auto simp: Admin_acknowledge_def split: if_splits Stage.splits option.splits)
    have res: "res = Inr () \<longleftrightarrow> acked r"
      using ack oc by (auto simp: Admin_acknowledge_def acked_def split: if_splits Stage.splits option.splits)
    have out: "\<exists>oc'. ad_outcome m1 = Some oc'
        \<and> oc_confirmed_writes oc' = oc_confirmed_writes oc + (if is_write st \<and> acked r then 1 else 0)
        \<and> oc_reprobe_required oc' = oc_reprobe_required oc"
      using ack oc by (cases st) (auto simp: Admin_acknowledge_def acked_def split: if_splits)
    then obtain oc' where oc': "ad_outcome m1 = Some oc'"
        "oc_confirmed_writes oc' = oc_confirmed_writes oc + (if is_write st \<and> acked r then 1 else 0)"
        "oc_reprobe_required oc' = oc_reprobe_required oc"
      by blast
    have "\<exists>dyn. q0 @ dynamic dyn = map fst (es @ [((c, st), r)]) @ ad_queue m1" using q qu by auto
    moreover have "oc_confirmed_writes oc' = length (filter (\<lambda>e. is_write (snd (fst e)) \<and> acked (snd e)) (es @ [((c, st), r)]))"
      using oc' oc cnt by simp
    moreover have "res = Inr () \<longrightarrow> entry_acked ((c, st), r)" using res by (simp add: entry_acked_def)
    ultimately show ?thesis using oc' oc by blast
  qed
qed

lemma Admin_issue_command:
  assumes "Admin_issue m = (m', Inr (Command c))" "ad_outcome m = Some oc"
  shows "\<exists>st. ad_queue m = (c, st) # ad_queue m' \<and> ad_pending m' = Some st
    \<and> ad_outcome m' = Some (if st = WriteStage True then oc\<lparr>oc_reprobe_required := True\<rparr> else oc)"
proof (cases "ad_queue m")
  case Nil
  then show ?thesis using assms by (simp add: Admin_issue_def)
next
  case (Cons x rest)
  obtain c0 st where x: "x = (c0, st)" by fastforce
  show ?thesis
    using assms Cons x by (cases "st = WriteStage True") (auto simp: Admin_issue_def)
qed

lemma admin_inv_command:
  assumes inv: "admin_inv q0 es m resp tr" and nx: "Admin_next m resp = (m', Inr (Command c))"
  shows "list_all entry_acked es \<and> (\<exists>st dyn. q0 @ dynamic dyn = map fst es @ (c, st) # ad_queue m'
    \<and> admin_inv q0 (es @ [((c, st), r)]) m' (Some r) (tr @ [(c, r)]))"
proof (cases es rule: rev_cases)
  case Nil
  then obtain oc where i: "Admin_issue m = (m', Inr (Command c))" "ad_outcome m = Some oc"
    "oc_confirmed_writes oc = 0" "\<not> oc_reprobe_required oc" "tr = []" "\<exists>dyn. q0 @ dynamic dyn = ad_queue m"
    using inv nx by (auto simp: admin_inv_def Admin_next_def)
  from Admin_issue_command [OF i(1,2)] obtain st where st: "ad_queue m = (c, st) # ad_queue m'"
    "ad_pending m' = Some st"
    "ad_outcome m' = Some (if st = WriteStage True then oc\<lparr>oc_reprobe_required := True\<rparr> else oc)"
    by blast
  obtain dyn where dyn: "q0 @ dynamic dyn = ad_queue m" using i(6) ..
  have "admin_inv q0 [((c, st), r)] m' (Some r) [(c, r)]"
    unfolding admin_inv_def
  proof (intro conjI)
    show "\<exists>dyn. q0 @ dynamic dyn = map fst [((c, st), r)] @ ad_queue m'"
      using dyn st(1) by (intro exI [of _ dyn]) simp
  qed (use st i in auto)
  then show ?thesis using Nil i(5) st(1) dyn by (auto intro!: exI [of _ st] exI [of _ dyn])
next
  case (snoc es' e)
  obtain c0 st0 r0 where e: "e = ((c0, st0), r0)" by (metis prod.collapse)
  have resp: "resp = Some r0" using inv snoc e by (simp add: admin_inv_def)
  obtain m1 res where react: "Admin_react m r0 = (m1, res)" by fastforce
  have ok: "res = Inr ()" "Admin_issue m1 = (m', Inr (Command c))"
    using nx react resp by (auto simp: Admin_next_def split: sum.splits)
  from Admin_react_effect [OF _ react, of q0 es' c0 st0 tr] inv snoc e resp ok obtain dyn oc where
    d: "q0 @ dynamic dyn = map fst es @ ad_queue m1" "entry_acked e" "ad_outcome m1 = Some oc"
    "oc_confirmed_writes oc = length (filter (\<lambda>e. is_write (snd (fst e)) \<and> acked (snd e)) es)"
    "oc_reprobe_required oc \<longleftrightarrow> (\<exists>e \<in> set es. snd (fst e) = WriteStage True)"
    by auto
  have acked: "list_all entry_acked es" using inv snoc d(2) by (simp add: admin_inv_def)
  then have "acked (snd e)" if "e \<in> set es" "is_write (snd (fst e))" for e
    using that by (cases "snd (fst e)") (auto simp: list_all_iff entry_acked_def)
  then have cnt: "filter (\<lambda>e. is_write (snd (fst e)) \<and> acked (snd e)) es = filter (\<lambda>e. is_write (snd (fst e))) es"
    by (intro filter_cong) auto
  from Admin_issue_command [OF ok(2) d(3)] obtain st where st: "ad_queue m1 = (c, st) # ad_queue m'"
    "ad_pending m' = Some st"
    "ad_outcome m' = Some (if st = WriteStage True then oc\<lparr>oc_reprobe_required := True\<rparr> else oc)"
    by blast
  have tr: "tr = map (\<lambda>e. (fst (fst e), snd e)) es" using inv by (simp add: admin_inv_def)
  have eq: "q0 @ dynamic dyn = map fst es @ (c, st) # ad_queue m'" using d st by simp
  moreover have "admin_inv q0 (es @ [((c, st), r)]) m' (Some r) (tr @ [(c, r)])"
    unfolding admin_inv_def
  proof (intro conjI)
    show "\<exists>dyn. q0 @ dynamic dyn = map fst (es @ [((c, st), r)]) @ ad_queue m'"
      using eq by (intro exI [of _ dyn]) simp
    show "\<exists>oc. ad_outcome m' = Some oc
        \<and> oc_confirmed_writes oc = length (filter (\<lambda>e. is_write (snd (fst e))) (butlast (es @ [((c, st), r)])))
        \<and> (oc_reprobe_required oc \<longleftrightarrow> (\<exists>e \<in> set (es @ [((c, st), r)]). snd (fst e) = WriteStage True))"
      using st d cnt by auto
  qed (use tr st acked in auto)
  ultimately show ?thesis using acked by blast
qed

lemma operation_with_access_machine:
  assumes "operation_with_access p request access opts = Inr op" "op_machine op = Some m0"
  shows "\<exists>target. admin_target request = Inr target \<and> admin_guards p request access = Inr ()
    \<and> ad_queue m0 = map (\<lambda>(c, st). (explicit_le_command p c, st)) (admin_queue access target)
    \<and> ad_pending m0 = None
    \<and> ad_outcome m0 = Some \<lparr>oc_value = NoValue, oc_confirmed_writes = 0, oc_reprobe_required = False\<rparr>
    \<and> ad_profile m0 = p \<and> ad_request m0 = request"
  using assms
  by (auto simp: operation_with_access_def Let_def bindE_eq_Inr Operation_from_machine_def)

lemma admin_run_inv:
  assumes run: "trace_run Admin_ops m0 m resp tr" and "ad_pending m0 = None"
    "ad_outcome m0 = Some \<lparr>oc_value = NoValue, oc_confirmed_writes = 0, oc_reprobe_required = False\<rparr>"
  shows "\<exists>es. admin_inv (ad_queue m0) es m resp tr"
  using run
proof (rule machine_run_invariant)
  show "\<exists>es. admin_inv (ad_queue m0) es m0 None []"
    using assms(2,3) by (intro exI [of _ "[]"]) (simp add: admin_inv_def exI [of _ "[]"])
next
  fix m resp tr m' c r tr'
  assume "\<exists>es. admin_inv (ad_queue m0) es m resp tr" "m_next Admin_ops m resp = (m', Inr (Command c))"
    "trace_env tr c r tr'"
  then show "\<exists>es. admin_inv (ad_queue m0) es m' (Some r) tr'"
    using admin_inv_command [of "ad_queue m0" _ m resp tr m' c r] by (fastforce simp: Admin_ops_def trace_env_def)
qed

text \<open>The stage of each recorded exchange, from the queue an operation starts with.\<close>

definition staged :: "AdminAccess \<Rightarrow> LogicalCommand option \<times> Stage \<Rightarrow> trace \<Rightarrow> (Stage \<times> LogicalCommand \<times> ResponseData) list"
where
  "staged access target tr =
     zip (map snd (admin_queue access target) @ replicate (length tr) (WriteStage True)) tr"

lemma staged_entries:
  assumes "admin_inv (map (\<lambda>(c, st). (f c, st)) (admin_queue access target)) es m resp tr"
  shows "staged access target tr = map (\<lambda>e. (snd (fst e), fst (fst e), snd e)) es"
proof -
  let ?q = "map snd (admin_queue access target)"
  from assms obtain dyn where q: "map (\<lambda>(c, st). (f c, st)) (admin_queue access target) @ dynamic dyn = map fst es @ ad_queue m"
    and tr: "tr = map (\<lambda>e. (fst (fst e), snd e)) es"
    by (auto simp: admin_inv_def)
  from arg_cong [OF q, of "map snd"] have q': "?q @ replicate (length dyn) (WriteStage True) = map (snd \<circ> fst) es @ map snd (ad_queue m)"
    by (simp add: comp_def split_def map_replicate_const)
  from arg_cong [OF this, of length] have len: "length es \<le> length ?q + length dyn" by simp
  have "map (snd \<circ> fst) es = take (length es) (?q @ replicate (length dyn) (WriteStage True))" using q' by simp
  also have "\<dots> = take (length es) (?q @ replicate (length es) (WriteStage True))" using len by (simp add: min_def) linarith
  finally have "zip (?q @ replicate (length es) (WriteStage True)) tr = zip (map (snd \<circ> fst) es) tr"
    using tr take_zip [of "length es" "?q @ replicate (length es) (WriteStage True)" tr] by simp
  then show ?thesis
    unfolding staged_def using tr by (simp add: zip_map_map zip_same_conv_map)
qed

section \<open>Configuration patches on the card\<close>

text \<open>What the acknowledged configuration writes do to the configuration bytes.\<close>

definition card_write :: "bytes \<Rightarrow> LogicalCommand \<Rightarrow> bytes" where
  "card_write c w =
     (let h = lc_header w in
      if ins h = 0x08 then c[2 := p1 h]
      else if ins h = 0x40 \<and> p1 h = 1 then c[0 := p2 h]
      else if ins h = 0x40 \<and> p1 h = 4 then c[3 := p2 h]
      else if ins h = 0x40 \<and> p1 h = 5 then c[4 := p2 h]
      else if ins h = 0x40 \<and> p1 h = 6 then c[5 := p2 h]
      else c)"

definition set_flag :: "nat \<Rightarrow> bool option \<Rightarrow> bytes \<Rightarrow> bytes" where
  "set_flag k v c = (case v of None \<Rightarrow> c | Some b \<Rightarrow> c[k := of_bool_byte b])"

definition patched :: "ConfigurationPatch \<Rightarrow> bytes \<Rightarrow> bytes" where
  "patched p c =
     (let c1 = set_flag 4 (cp_webusb_landing p) (set_flag 3 (cp_ndef_enabled p)
                 (set_flag 2 (cp_ndef_read_only p) (set_flag 0 (cp_led_on p) c)))
      in if cp_feature_mask p = 0 then c1 else c1[5 := (c ! 5 AND NOT (cp_feature_mask p)) OR cp_feature_values p])"

lemma admin_write_header [simp]: "lc_header (admin_write i a b d) = ApduHeader_new 0 i a b"
  by (simp add: admin_write_def admin_cmd_def LogicalCommand_new_def)

lemma card_flag_writes:
  "lc_header w = lc_header (flag_write 0x40 1 v) \<Longrightarrow> card_write c w = c[0 := of_bool_byte v]"
  "lc_header w = lc_header (flag_write 8 0 v) \<Longrightarrow> card_write c w = c[2 := of_bool_byte v]"
  "lc_header w = lc_header (flag_write 0x40 4 v) \<Longrightarrow> card_write c w = c[3 := of_bool_byte v]"
  "lc_header w = lc_header (flag_write 0x40 5 v) \<Longrightarrow> card_write c w = c[4 := of_bool_byte v]"
  by (simp_all add: card_write_def flag_write_def ApduHeader_new_def)

definition writes_at :: "byte \<Rightarrow> byte \<Rightarrow> nat \<Rightarrow> bool" where
  "writes_at i a k \<longleftrightarrow> (\<forall>w v c. lc_header w = lc_header (flag_write i a v) \<longrightarrow> card_write c w = c[k := of_bool_byte v])"

lemma writes_at_fields: "writes_at 0x40 1 0" "writes_at 8 0 2" "writes_at 0x40 4 3" "writes_at 0x40 5 4"
  by (simp_all add: writes_at_def card_flag_writes)

lemma length_set_flag [simp]: "length (set_flag k v c) = length c"
  by (simp add: set_flag_def split: option.splits)

lemma nth_set_flag: "j \<noteq> k \<Longrightarrow> set_flag k v c ! j = c ! j"
  by (simp add: set_flag_def split: option.splits)

lemma nth_set_flag_eq: "k < length c \<Longrightarrow> set_flag k (Some x) c ! k = of_bool_byte x"
  by (simp add: set_flag_def)

lemma byte_flag: "(b :: byte) \<le> 1 \<Longrightarrow> of_bool_byte (b \<noteq> 0) = b"
proof -
  assume "b \<le> 1"
  then have "unat b \<le> 1" by (simp add: word_le_nat_alt)
  then have "unat b = 0 \<or> unat b = 1" by linarith
  then show ?thesis by (auto simp: of_bool_byte_def word_unat_eq_iff)
qed

lemma patch_writes_step:
  assumes "writes_at i a k" "c ! k \<le> 1" "old \<longleftrightarrow> c ! k \<noteq> 0"
  shows "foldl card_write c (patch_writes ((v, old, i, a) # fs)) = foldl card_write (set_flag k v c) (patch_writes fs)"
proof (cases v)
  case None
  then show ?thesis by (simp add: set_flag_def)
next
  case (Some x)
  have "card_write c (flag_write i a x) = c[k := of_bool_byte x]"
    using assms(1) unfolding writes_at_def by blast
  moreover have "c[k := of_bool_byte x] = c" if "x = old"
  proof -
    have "of_bool_byte x = c ! k" using byte_flag [OF assms(2)] assms(3) that by simp
    then show ?thesis by simp
  qed
  ultimately show ?thesis using Some by (auto simp: set_flag_def)
qed

lemma legacy_writes_step:
  assumes "writes_at i a k" "legacy_patch_writes opts ((v, old, i, a) # fs) = Inr ws"
    "v \<noteq> None \<longrightarrow> old \<noteq> None \<longrightarrow> c ! k \<le> 1 \<and> old = Some (c ! k \<noteq> 0)"
  shows "\<exists>ws'. legacy_patch_writes opts fs = Inr ws' \<and> foldl card_write c ws = foldl card_write (set_flag k v c) ws'"
proof (cases v)
  case None
  then show ?thesis using assms by (simp add: set_flag_def)
next
  case (Some x)
  then obtain o' where o': "old = Some o'" using assms(2) by (auto simp: bindE_eq_Inr ok_or_eq_Inr)
  then have ck: "c ! k \<le> 1" "o' \<longleftrightarrow> c ! k \<noteq> 0" using assms(3) Some by auto
  have w: "card_write c ((flag_write i a x)\<lparr>lc_le := Exact 256\<rparr>) = c[k := of_bool_byte x]"
    using assms(1) unfolding writes_at_def by (elim allE) (erule mp, simp)
  have same: "c[k := of_bool_byte x] = c" if "x = o'"
  proof -
    have "of_bool_byte x = c ! k" using byte_flag [OF ck(1)] ck(2) that by simp
    then show ?thesis by simp
  qed
  show ?thesis
  proof (cases "x = o'")
    case True
    then show ?thesis using assms(2) Some o' same by (simp add: set_flag_def)
  next
    case False
    then obtain ws' where "legacy_patch_writes opts fs = Inr ws'" "ws = (flag_write i a x)\<lparr>lc_le := Exact 256\<rparr> # ws'"
      using assms(2) Some o' by (auto simp: bindE_eq_Inr Let_def)
    then show ?thesis using w Some by (simp add: set_flag_def)
  qed
qed

lemma patch_writes_elem:
  assumes "w \<in> set (patch_writes fs)"
  shows "\<exists>v old i a. (Some v, old, i, a) \<in> set fs \<and> lc_header w = lc_header (flag_write i a v)"
  using assms by (induction fs rule: patch_writes.induct) (auto split: option.splits if_splits)

lemma legacy_writes_elem:
  assumes "legacy_patch_writes opts fs = Inr ws" "w \<in> set ws"
  shows "\<exists>v old i a. (Some v, old, i, a) \<in> set fs \<and> lc_header w = lc_header (flag_write i a v)"
  using assms
proof (induction fs arbitrary: ws)
  case (Cons f fs)
  obtain v old i a where f: "f = (v, old, i, a)" by (metis prod_cases4)
  consider "legacy_patch_writes opts fs = Inr ws"
    | x ws' where "v = Some x" "legacy_patch_writes opts fs = Inr ws'"
        "ws = (flag_write i a x)\<lparr>lc_le := Exact 256\<rparr> # ws'"
    using Cons.prems(1) f by (cases v) (auto simp: bindE_eq_Inr Let_def split: if_splits)
  then show ?case
  proof cases
    case 1
    from Cons.IH [OF this Cons.prems(2)] show ?thesis by (meson list.set_intros(2))
  next
    case 2
    show ?thesis
    proof (cases "w \<in> set ws'")
      case True
      from Cons.IH [OF 2(2) this] show ?thesis by (meson list.set_intros(2))
    next
      case False
      then have "lc_header w = lc_header (flag_write i a x)" using 2 Cons.prems(2) by auto
      then show ?thesis using 2 f by (intro exI [of _ x] exI [of _ old] exI [of _ i] exI [of _ a]) simp
    qed
  qed
qed simp

text \<open>Each write of a patch puts the final value into one byte.\<close>

definition final_write :: "ConfigurationPatch \<Rightarrow> bytes \<Rightarrow> LogicalCommand \<Rightarrow> bool" where
  "final_write pt raw w \<longleftrightarrow> (\<exists>k < length raw. \<forall>c. card_write c w = c[k := patched pt raw ! k])"

lemma final_flag_write:
  assumes "5 \<le> length raw" "lc_header w = lc_header (flag_write i a v)"
    "(Some v, i, a) \<in> {(cp_led_on pt, 0x40, 1), (cp_ndef_read_only pt, 8, 0), (cp_ndef_enabled pt, 0x40, 4),
       (cp_webusb_landing pt, 0x40, 5)}"
  shows "final_write pt raw w"
proof -
  have len: "0 < length raw" "2 < length raw" "3 < length raw" "4 < length raw" using assms(1) by linarith+
  have pos: "patched pt raw ! 0 = of_bool_byte x" if "cp_led_on pt = Some x" for x
    using that len by (simp add: patched_def Let_def nth_set_flag nth_set_flag_eq)
  have pos2: "patched pt raw ! 2 = of_bool_byte x" if "cp_ndef_read_only pt = Some x" for x
    using that len by (simp add: patched_def Let_def nth_set_flag nth_set_flag_eq)
  have pos3: "patched pt raw ! 3 = of_bool_byte x" if "cp_ndef_enabled pt = Some x" for x
    using that len by (simp add: patched_def Let_def nth_set_flag nth_set_flag_eq)
  have pos4: "patched pt raw ! 4 = of_bool_byte x" if "cp_webusb_landing pt = Some x" for x
    using that len by (simp add: patched_def Let_def nth_set_flag nth_set_flag_eq)
  from assms(3) consider "cp_led_on pt = Some v" "i = 0x40" "a = 1" | "cp_ndef_read_only pt = Some v" "i = 8" "a = 0"
    | "cp_ndef_enabled pt = Some v" "i = 0x40" "a = 4" | "cp_webusb_landing pt = Some v" "i = 0x40" "a = 5"
    by auto
  then show ?thesis
  proof cases
    case 1
    then show ?thesis using len assms(2) pos card_flag_writes(1) unfolding final_write_def by (intro exI [of _ 0]) auto
  next
    case 2
    then show ?thesis using len assms(2) pos2 card_flag_writes(2) unfolding final_write_def by (intro exI [of _ 2]) auto
  next
    case 3
    then show ?thesis using len assms(2) pos3 card_flag_writes(3) unfolding final_write_def by (intro exI [of _ 3]) auto
  next
    case 4
    then show ?thesis using len assms(2) pos4 card_flag_writes(4) unfolding final_write_def by (intro exI [of _ 4]) auto
  qed
qed

lemma final_writes_prefix:
  assumes "\<forall>w \<in> set ws. final_write pt raw w"
  shows "length (foldl card_write raw ws) = length raw
    \<and> (\<forall>i < length raw. foldl card_write raw ws ! i \<in> {raw ! i, patched pt raw ! i})"
  using assms
proof (induction ws rule: rev_induct)
  case (snoc w ws)
  then obtain k where "k < length raw" "\<forall>c. card_write c w = c[k := patched pt raw ! k]"
    by (auto simp: final_write_def)
  then show ?case using snoc by (auto simp: nth_list_update)
qed simp

lemma length_patched [simp]: "length (patched pt raw) = length raw"
  by (simp add: patched_def Let_def)

abbreviation flags_of :: "ConfigurationPatch \<Rightarrow> bytes \<Rightarrow> bytes" where
  "flags_of pt raw \<equiv> set_flag 4 (cp_webusb_landing pt) (set_flag 3 (cp_ndef_enabled pt)
     (set_flag 2 (cp_ndef_read_only pt) (set_flag 0 (cp_led_on pt) raw)))"

lemma modern_patch:
  assumes parse: "Configuration_parse raw = Inr config" and fw: "feature_writes config pt = Inr fw"
    and ok: "\<not> patch_rejected (Configure pt)"
    and ws: "ws = patch_writes
      [(cp_led_on pt, led_on config, 0x40, 1), (cp_ndef_read_only pt, ndef_read_only config, 0x08, 0),
       (cp_ndef_enabled pt, ndef_enabled config, 0x40, 4), (cp_webusb_landing pt, webusb_landing config, 0x40, 5)] @ fw"
  shows "foldl card_write raw ws = patched pt raw \<and> (\<forall>w \<in> set ws. final_write pt raw w)"
proof
  let ?new = "(raw ! 5 AND NOT (cp_feature_mask pt)) OR cp_feature_values pt"
  have c: "config = raw" "length raw = 6" and flags: "raw ! 0 \<le> 1" "raw ! 2 \<le> 1" "raw ! 3 \<le> 1" "raw ! 4 \<le> 1"
    using parse by (auto simp: Configuration_parse_def not_less split: if_splits)
  have new: "?new = raw ! 5" if "cp_feature_mask pt = 0" using ok that by simp
  have fws: "fw = (if ?new \<noteq> raw ! 5 then [admin_write 0x40 6 ?new []] else [])"
    using fw c by (auto simp: feature_writes_def features_def Let_def split: if_splits)
  have "foldl card_write raw (patch_writes
      [(cp_led_on pt, led_on config, 0x40, 1), (cp_ndef_read_only pt, ndef_read_only config, 0x08, 0),
       (cp_ndef_enabled pt, ndef_enabled config, 0x40, 4), (cp_webusb_landing pt, webusb_landing config, 0x40, 5)])
     = flags_of pt raw"
    using flags c
    by (subst patch_writes_step [OF writes_at_fields(1)],
        simp_all add: led_on_def ndef_read_only_def ndef_enabled_def webusb_landing_def
          patch_writes_step [OF writes_at_fields(2)] patch_writes_step [OF writes_at_fields(3)]
          patch_writes_step [OF writes_at_fields(4)] nth_set_flag del: patch_writes.simps(2))
  moreover have "card_write x (admin_write 0x40 6 ?new []) = x[5 := ?new]" for x
    by (simp add: card_write_def ApduHeader_new_def)
  moreover have "(flags_of pt raw)[5 := raw ! 5] = flags_of pt raw"
    by (metis list_update_id nth_set_flag numeral_eq_iff semiring_norm(85,87,88,90) zero_neq_numeral)
  ultimately show "foldl card_write raw ws = patched pt raw"
    using ws fws new by (auto simp: patched_def Let_def)
  show "\<forall>w \<in> set ws. final_write pt raw w"
  proof
    fix w assume "w \<in> set ws"
    then consider "w \<in> set (patch_writes
      [(cp_led_on pt, led_on config, 0x40, 1), (cp_ndef_read_only pt, ndef_read_only config, 0x08, 0),
       (cp_ndef_enabled pt, ndef_enabled config, 0x40, 4), (cp_webusb_landing pt, webusb_landing config, 0x40, 5)])"
      | "w \<in> set fw" using ws by auto
    then show "final_write pt raw w"
    proof cases
      case 1
      then obtain v old i a where "(Some v, old, i, a) \<in> set [(cp_led_on pt, led_on config, 0x40, 1),
         (cp_ndef_read_only pt, ndef_read_only config, 0x08, 0), (cp_ndef_enabled pt, ndef_enabled config, 0x40, 4),
         (cp_webusb_landing pt, webusb_landing config, 0x40, 5)]" "lc_header w = lc_header (flag_write i a v)"
        using patch_writes_elem by blast
      then show ?thesis using c by (intro final_flag_write [of raw w i a v]) auto
    next
      case 2
      then have w: "w = admin_write 0x40 6 ?new []" and "cp_feature_mask pt \<noteq> 0"
        using fws new by (auto split: if_splits)
      then have "patched pt raw ! 5 = ?new" using c by (simp add: patched_def Let_def)
      then show ?thesis
        using w c unfolding final_write_def
        by (intro exI [of _ 5]) (simp add: card_write_def ApduHeader_new_def)
    qed
  qed
qed

lemma legacy_patch:
  assumes parse: "LegacyConfiguration_parse p raw = Inr config" and mask: "cp_feature_mask pt = 0"
    and ws: "legacy_patch_writes opts
             [(cp_led_on pt, Some (lg_led_on config), 0x40, 1),
              (cp_ndef_read_only pt, Some (lg_ndef_read_only config), 8, 0),
              (cp_ndef_enabled pt, lg_ndef_enabled config, 0x40, 4),
              (cp_webusb_landing pt, lg_webusb_landing config, 0x40, 5)] = Inr ws"
  shows "foldl card_write raw ws = patched pt raw \<and> (\<forall>w \<in> set ws. final_write pt raw w)"
proof
  obtain layout where layout: "admin_configuration_layout p = Inr layout"
    using parse by (auto simp: LegacyConfiguration_parse_def bindE_eq_Inr)
  have raw: "lg_raw config = raw" "raw ! 0 \<le> 1" "raw ! 2 \<le> 1" "5 \<le> length raw"
    "lg_layout config \<noteq> TouchPolicies \<longrightarrow> raw ! 3 \<le> 1 \<and> raw ! 4 \<le> 1"
    using parse layout
    by (cases layout; auto simp: LegacyConfiguration_parse_def not_less split: if_splits)+
  from legacy_writes_step [OF writes_at_fields(1) ws, of raw] raw obtain ws1 where
    1: "legacy_patch_writes opts
             [(cp_ndef_read_only pt, Some (lg_ndef_read_only config), 8, 0),
              (cp_ndef_enabled pt, lg_ndef_enabled config, 0x40, 4),
              (cp_webusb_landing pt, lg_webusb_landing config, 0x40, 5)] = Inr ws1"
      "foldl card_write raw ws = foldl card_write (set_flag 0 (cp_led_on pt) raw) ws1"
    by (auto simp: lg_led_on_def)
  from legacy_writes_step [OF writes_at_fields(2) 1(1), of "set_flag 0 (cp_led_on pt) raw"] raw obtain ws2 where
    2: "legacy_patch_writes opts
             [(cp_ndef_enabled pt, lg_ndef_enabled config, 0x40, 4),
              (cp_webusb_landing pt, lg_webusb_landing config, 0x40, 5)] = Inr ws2"
      "foldl card_write (set_flag 0 (cp_led_on pt) raw) ws1
        = foldl card_write (set_flag 2 (cp_ndef_read_only pt) (set_flag 0 (cp_led_on pt) raw)) ws2"
    by (auto simp: lg_ndef_read_only_def nth_set_flag)
  from legacy_writes_step [OF writes_at_fields(3) 2(1), of "set_flag 2 (cp_ndef_read_only pt) (set_flag 0 (cp_led_on pt) raw)"]
    raw obtain ws3 where
    3: "legacy_patch_writes opts [(cp_webusb_landing pt, lg_webusb_landing config, 0x40, 5)] = Inr ws3"
      "foldl card_write (set_flag 2 (cp_ndef_read_only pt) (set_flag 0 (cp_led_on pt) raw)) ws2
        = foldl card_write (set_flag 3 (cp_ndef_enabled pt) (set_flag 2 (cp_ndef_read_only pt) (set_flag 0 (cp_led_on pt) raw))) ws3"
    by (cases "lg_layout config = TouchPolicies") (auto simp: lg_ndef_enabled_def nth_set_flag)
  from legacy_writes_step [OF writes_at_fields(4) 3(1),
      of "set_flag 3 (cp_ndef_enabled pt) (set_flag 2 (cp_ndef_read_only pt) (set_flag 0 (cp_led_on pt) raw))"] raw
  have "foldl card_write (set_flag 3 (cp_ndef_enabled pt) (set_flag 2 (cp_ndef_read_only pt) (set_flag 0 (cp_led_on pt) raw))) ws3
      = flags_of pt raw"
    by (cases "lg_layout config = TouchPolicies") (auto simp: lg_webusb_landing_def nth_set_flag)
  then show "foldl card_write raw ws = patched pt raw"
    using 1(2) 2(2) 3(2) mask by (simp add: patched_def)
  show "\<forall>w \<in> set ws. final_write pt raw w"
  proof
    fix w assume "w \<in> set ws"
    then obtain v old i a where "(Some v, old, i, a) \<in> set [(cp_led_on pt, Some (lg_led_on config), 0x40, 1),
              (cp_ndef_read_only pt, Some (lg_ndef_read_only config), 8, 0),
              (cp_ndef_enabled pt, lg_ndef_enabled config, 0x40, 4),
              (cp_webusb_landing pt, lg_webusb_landing config, 0x40, 5)]" "lc_header w = lc_header (flag_write i a v)"
      using legacy_writes_elem [OF ws] by blast
    then show "final_write pt raw w" using raw(4) by (intro final_flag_write [of raw w i a v]) auto
  qed
qed

section \<open>A sample session\<close>

lemma short_admin_write [simp]: "short_command (admin_write i a b d)"
  by (simp add: admin_write_def admin_cmd_def short_command_def LogicalCommand_new_def)

lemma admin_write_simps [simp]:
  "lc_data (admin_write i a b d) = d" "lc_le (admin_write i a b d) = Absent"
  "lc_continuation (admin_write i a b d) = NoContinuation"
  by (simp_all add: admin_write_def admin_cmd_def LogicalCommand_new_def)

definition sample_pin :: bytes where
  "sample_pin = [0x31, 0x32, 0x33, 0x34, 0x35, 0x36]"

definition sample_admin :: Admin where
  "sample_admin =
     \<lparr>ad_queue = [(admin_select, SelectStage), (admin_write 0x20 0 0 sample_pin, AuthenticateStage),
                  (admin_write 0x14 1 1 [], WriteStage True)],
      ad_pending = None, ad_request = SetNfc True, ad_options = OperationOptions_default, ad_profile = profile_31,
      ad_outcome = Some \<lparr>oc_value = NoValue, oc_confirmed_writes = 0, oc_reprobe_required = False\<rparr>\<rparr>"

lemma sample_admin_operation:
  "\<exists>op. operation_with_access profile_31 (SetNfc True) (PinAccess sample_pin) OperationOptions_default = Inr op
     \<and> op_machine op = Some sample_admin"
proof -
  have sup: "supports profile_31 Capability.Admin" "supports profile_31 AdminNfc"
    by (simp_all add: supports_31 less_eq_prod_def)
  then have g: "admin_guards profile_31 (SetNfc True) (PinAccess sample_pin) = Inr ()"
    by (simp add: admin_guards_def result_simps)
  have v: "validate_command (admin_write i a b d) OperationOptions_default = Inr ()" if "length d \<le> 255" for i a b d
    using that by (simp add: validate_default le_fits_def)
  have sel: "validate_command admin_select OperationOptions_default = Inr ()"
    by (rule validate_default) (simp_all add: admin_select_def le_fits_def LogicalCommand_new_def short_command_def)
  show ?thesis
    using g v sel
    by (simp add: operation_with_access_def Let_def admin_queue_def explicit_le_command_def sample_pin_def
        Operation_from_machine_def sample_admin_def of_bool_byte_def)
qed

definition ack :: ResponseData where
  "ack = \<lparr>rd_data = [], rd_status = 0x9000\<rparr>"

lemma ack_simps [simp]: "rd_data ack = []" "rd_status ack = 0x9000" "acked ack"
  by (simp_all add: ack_def acked_def StatusWord_is_success_def)

lemmas admin_eval = Admin_ops_def Admin_next_def Admin_issue_def Admin_react_def Admin_acknowledge_def
  StatusWord_is_success_def sample_admin_def

section \<open>Properties\<close>

text \<open>What a session must have seen before a command beyond selection and authentication is sent.\<close>

definition admin_authorised :: "DeviceProfile \<Rightarrow> AdminAccess \<Rightarrow> trace \<Rightarrow> bool" where
  "admin_authorised p access tr =
     (case access of
        ExistingAccess \<Rightarrow> True
      | NoAccess \<Rightarrow> \<exists>r1 rest. tr = (explicit_le_command p admin_select, r1) # rest \<and> acked r1
      | PinAccess pin \<Rightarrow> \<exists>r1 r2 rest. tr = (explicit_le_command p admin_select, r1)
            # (explicit_le_command p (admin_write 0x20 0 0 pin), r2) # rest \<and> acked r1 \<and> acked r2)"

text \<open>C26: Admin operations authenticate before they act. A request that the firmware protects is
refused without credentials before any I/O; with a PIN, the applet is selected and the PIN verified
first, each acknowledged by the card, and every later command (the request itself and the writes of a
patch) is sent only after that, whatever the card answers. A failed VERIFY is never followed by
another command, so an operation spends at most one PIN attempt.\<close>

theorem admin_authenticates_first:
  assumes op: "operation_with_access p request access opts = Inr op" "op_machine op = Some m0"
    and run: "trace_run Admin_ops m0 m resp tr"
    and nx: "m_next Admin_ops m resp = (m', Inr (Command c))"
  shows "(admin_protected p request \<longrightarrow> access \<noteq> NoAccess)
    \<and> (tr = [] \<and> access \<noteq> ExistingAccess \<and> c = explicit_le_command p admin_select
       \<or> (\<exists>r1 pin. tr = [(explicit_le_command p admin_select, r1)] \<and> acked r1 \<and> access = PinAccess pin
            \<and> c = explicit_le_command p (admin_write 0x20 0 0 pin))
       \<or> admin_authorised p access tr)"
proof
  obtain target where m0: "admin_guards p request access = Inr ()"
    "ad_queue m0 = map (\<lambda>(c, st). (explicit_le_command p c, st)) (admin_queue access target)"
    "ad_pending m0 = None"
    "ad_outcome m0 = Some \<lparr>oc_value = NoValue, oc_confirmed_writes = 0, oc_reprobe_required = False\<rparr>"
    using operation_with_access_machine [OF op] by blast
  show "admin_protected p request \<longrightarrow> access \<noteq> NoAccess"
    using m0(1) by (auto simp: admin_guards_def bindE_eq_Inr ensureE_eq_Inr)
  obtain es where inv: "admin_inv (ad_queue m0) es m resp tr"
    using admin_run_inv [OF run m0(3,4)] by blast
  then have tr: "tr = map (\<lambda>e. (fst (fst e), snd e)) es" by (simp add: admin_inv_def)
  have "Admin_next m resp = (m', Inr (Command c))" using nx by (simp add: Admin_ops_def)
  from admin_inv_command [OF inv this] obtain st dyn where
    acks: "list_all entry_acked es" and q: "ad_queue m0 @ dynamic dyn = map fst es @ (c, st) # ad_queue m'"
    by blast
  let ?sel = "explicit_le_command p admin_select"
  show "tr = [] \<and> access \<noteq> ExistingAccess \<and> c = ?sel
       \<or> (\<exists>r1 pin. tr = [(?sel, r1)] \<and> acked r1 \<and> access = PinAccess pin
            \<and> c = explicit_le_command p (admin_write 0x20 0 0 pin))
       \<or> admin_authorised p access tr"
  proof (cases access)
    case ExistingAccess
    then show ?thesis by (simp add: admin_authorised_def)
  next
    case NoAccess
    then show ?thesis
      using q acks tr m0(2)
      by (cases es) (auto simp: admin_queue_def admin_authorised_def entry_acked_def)
  next
    case (PinAccess pin)
    show ?thesis
    proof (cases es)
      case Nil
      then show ?thesis using q tr m0(2) PinAccess by (auto simp: admin_queue_def)
    next
      case (Cons e1 es1)
      obtain c1 s1 r1 where "e1 = ((c1, s1), r1)" by (metis prod.collapse)
      with Cons show ?thesis
        using q acks tr m0(2) PinAccess
        by (cases es1) (auto simp: admin_queue_def admin_authorised_def entry_acked_def)
    qed
  qed
qed

theorem admin_authenticates_first_witness:
  "\<exists>op m resp tr m'.
     operation_with_access profile_31 (SetNfc True) (PinAccess sample_pin) OperationOptions_default = Inr op
     \<and> op_machine op = Some sample_admin \<and> trace_run Admin_ops sample_admin m resp tr
     \<and> m_next Admin_ops m resp = (m', Inr (Command (admin_write 0x14 1 1 [])))
     \<and> length tr = 2 \<and> admin_authorised profile_31 (PinAccess sample_pin) tr"
proof -
  obtain op where op: "operation_with_access profile_31 (SetNfc True) (PinAccess sample_pin)
      OperationOptions_default = Inr op" "op_machine op = Some sample_admin"
    using sample_admin_operation by blast
  obtain m resp tr where rep: "replay Admin_ops sample_admin None [ack, ack] [] = (m, resp, tr)"
    by (metis prod_cases3)
  have run: "trace_run Admin_ops sample_admin m resp tr" using rep by (rule replay_from_start)
  obtain m' where nx: "length tr = 2" "m_next Admin_ops m resp = (m', Inr (Command (admin_write 0x14 1 1 [])))"
    using rep by (auto simp: admin_eval)
  from admin_authenticates_first [OF op run nx(2)] nx(1)
  have "admin_authorised profile_31 (PinAccess sample_pin) tr" by auto
  then show ?thesis using op run nx by blast
qed

text \<open>Progress is exact. When an Admin operation fails, the progress the caller can still read
counts exactly the writes that the card acknowledged (an acknowledgement is 9000 without data) and
asks for a new probe exactly when a profile-affecting write had been sent, even if its response was an
error; when it completes, the result carries the same account.\<close>

theorem admin_progress_exact:
  assumes op: "operation_with_access p request access opts = Inr op" "op_machine op = Some m0"
    and target: "admin_target request = Inr target"
    and run: "trace_run Admin_ops m0 m resp tr"
    and out: "m_next Admin_ops m resp = (m', Inl e) \<and> m_take_progress Admin_ops m' = Some oc
      \<or> m_next Admin_ops m resp = (m', Inr (Action.Done oc))"
  shows "oc_confirmed_writes oc = length (filter (\<lambda>(st, c, r). is_write st \<and> acked r) (staged access target tr))
    \<and> (oc_reprobe_required oc \<longleftrightarrow> (\<exists>x \<in> set (staged access target tr). fst x = WriteStage True))"
proof -
  have m0: "ad_queue m0 = map (\<lambda>(c, st). (explicit_le_command p c, st)) (admin_queue access target)"
    "ad_pending m0 = None"
    "ad_outcome m0 = Some \<lparr>oc_value = NoValue, oc_confirmed_writes = 0, oc_reprobe_required = False\<rparr>"
    using operation_with_access_machine [OF op] target by auto
  obtain es where inv: "admin_inv (ad_queue m0) es m resp tr"
    using admin_run_inv [OF run m0(2,3)] by blast
  have st: "staged access target tr = map (\<lambda>e. (snd (fst e), fst (fst e), snd e)) es"
    using staged_entries [OF inv [unfolded m0(1)]] .
  have issue: "a = Inr (Action.Done oc) \<and> ad_outcome m1 = Some oc"
    if "Admin_issue m1 = (m', a)" "ad_outcome m1 = Some oc1" "\<forall>c. a \<noteq> Inr (Command c)"
      "(\<exists>e. a = Inl e) \<and> ad_outcome m' = Some oc \<or> a = Inr (Action.Done oc)" for m1 oc1 a
    using that by (auto simp: Admin_issue_def Let_def split: list.splits if_splits)
  show ?thesis
  proof (cases es rule: rev_cases)
    case Nil
    then have "Admin_next m resp = Admin_issue m" "\<exists>oc. ad_outcome m = Some oc \<and> oc_confirmed_writes oc = 0
        \<and> \<not> oc_reprobe_required oc"
      using inv by (auto simp: admin_inv_def Admin_next_def)
    then show ?thesis
      using out st Nil issue [of m] by (auto simp: Admin_ops_def)
  next
    case (snoc es' e)
    obtain c0 st0 r0 where e: "e = ((c0, st0), r0)" by (metis prod.collapse)
    have resp: "resp = Some r0" using inv snoc e by (simp add: admin_inv_def)
    obtain m1 res where react: "Admin_react m r0 = (m1, res)" by fastforce
    from Admin_react_effect [OF _ react, of "ad_queue m0" es' c0 st0 tr] inv snoc e resp obtain oc1 where
      oc1: "ad_outcome m1 = Some oc1"
      "oc_confirmed_writes oc1 = length (filter (\<lambda>e. is_write (snd (fst e)) \<and> acked (snd e)) es)"
      "oc_reprobe_required oc1 \<longleftrightarrow> (\<exists>e \<in> set es. snd (fst e) = WriteStage True)"
      by auto
    have "oc = oc1"
    proof (cases res)
      case (Inl e')
      then show ?thesis using out oc1 react resp by (auto simp: Admin_ops_def Admin_next_def)
    next
      case (Inr u)
      then have "Admin_next m resp = Admin_issue m1" using react resp by (simp add: Admin_next_def)
      then show ?thesis using out issue [of m1 _ oc1] oc1(1) by (auto simp: Admin_ops_def)
    qed
    then show ?thesis
      using oc1 st by (simp add: filter_map comp_def split_def)
  qed
qed

theorem admin_progress_exact_witness:
  "\<exists>op m resp tr m' oc.
     operation_with_access profile_31 (SetNfc True) (PinAccess sample_pin) OperationOptions_default = Inr op
     \<and> op_machine op = Some sample_admin \<and> trace_run Admin_ops sample_admin m resp tr
     \<and> m_next Admin_ops m resp = (m', Inr (Action.Done oc))
     \<and> oc_confirmed_writes oc
         = length (filter (\<lambda>(st, c, r). is_write st \<and> acked r)
             (staged (PinAccess sample_pin) (Some (admin_write 0x14 1 1 []), WriteStage True) tr))
     \<and> oc_reprobe_required oc"
proof -
  obtain op where op: "operation_with_access profile_31 (SetNfc True) (PinAccess sample_pin)
      OperationOptions_default = Inr op" "op_machine op = Some sample_admin"
    using sample_admin_operation by blast
  obtain m resp tr where rep: "replay Admin_ops sample_admin None [ack, ack, ack] [] = (m, resp, tr)"
    by (metis prod_cases3)
  have run: "trace_run Admin_ops sample_admin m resp tr" using rep by (rule replay_from_start)
  obtain m' oc where nx: "m_next Admin_ops m resp = (m', Inr (Action.Done oc))" "oc_reprobe_required oc"
    using rep by (auto simp: admin_eval)
  have t: "admin_target (SetNfc True) = Inr (Some (admin_write 0x14 1 1 []), WriteStage True)"
    by (simp add: of_bool_byte_def)
  from admin_progress_exact [OF op t run, of m' undefined oc] nx op run show ?thesis by blast
qed

text \<open>C27: a configuration patch does what it says. Applied to the configuration bytes it was computed
from, the writes of a patch give exactly those bytes with the selected fields replaced, in every
firmware's layout: reserved bytes, unselected fields and unselected (also unknown) feature bits are
kept. Stopped after any number of acknowledged writes, every byte has its old or its new value.\<close>

theorem admin_patch_exact:
  assumes op: "operation_with_access p (Configure pt) access opts = Inr op" "ad_profile m = p"
    and patch: "Admin_patch m raw pt = Inr ws"
  shows "foldl card_write raw ws = patched pt raw
    \<and> (\<forall>n. \<forall>i < length raw. foldl card_write raw (take n ws) ! i \<in> {raw ! i, patched pt raw ! i})"
proof -
  have g: "admin_guards p (Configure pt) access = Inr ()"
    using op(1) by (auto simp: operation_with_access_def bindE_eq_Inr)
  then have ok: "\<not> patch_rejected (Configure pt)"
    and caps: "\<exists>us. collectE (require p) (admin_capabilities (Configure pt)) = Inr us"
    by (auto simp only: admin_guards_def bindE_eq_Inr ensureE_eq_Inr)
  obtain layout where layout: "admin_configuration_layout p = Inr layout"
    using patch op(2) by (auto simp: Admin_patch_def bindE_eq_Inr)
  have mask: "cp_feature_mask pt = 0" if "layout \<noteq> Features"
  proof (rule ccontr)
    assume "cp_feature_mask pt \<noteq> 0"
    then have "AdminExtendedConfiguration \<in> set (admin_capabilities (Configure pt))" by simp
    then have "supports p AdminExtendedConfiguration" using caps collect_require by blast
    then obtain v where "base_of p = Some v" "(3, 1, 0) \<le> v" "v \<le> (3, 1, 0)"
      using supports_range by fastforce
    then have "base_of p = Some (3, 1, 0)" by (simp add: antisym)
    then show False using layout that
      by (simp add: admin_configuration_layout_def bindE_eq_Inr less_prod_def)
  qed
  have "foldl card_write raw ws = patched pt raw \<and> (\<forall>w \<in> set ws. final_write pt raw w)"
  proof (cases "layout = Features")
    case True
    then obtain config fw where c: "Configuration_parse raw = Inr config" "feature_writes config pt = Inr fw"
      "ws = patch_writes
        [(cp_led_on pt, led_on config, 0x40, 1), (cp_ndef_read_only pt, ndef_read_only config, 0x08, 0),
         (cp_ndef_enabled pt, ndef_enabled config, 0x40, 4), (cp_webusb_landing pt, webusb_landing config, 0x40, 5)] @ fw"
      using patch op(2) layout
      by (auto simp only: Admin_patch_def bindE_Inr bindE_eq_Inr simp_thms if_False Let_def sum.inject)
    show ?thesis using c(1,2) ok c(3) by (rule modern_patch)
  next
    case False
    then obtain config where "LegacyConfiguration_parse p raw = Inr config"
      "legacy_patch_writes (ad_options m)
             [(cp_led_on pt, Some (lg_led_on config), 0x40, 1),
              (cp_ndef_read_only pt, Some (lg_ndef_read_only config), 8, 0),
              (cp_ndef_enabled pt, lg_ndef_enabled config, 0x40, 4),
              (cp_webusb_landing pt, lg_webusb_landing config, 0x40, 5)] = Inr ws"
      using patch op(2) layout by (auto simp only: Admin_patch_def bindE_Inr bindE_eq_Inr if_True simp_thms)
    with legacy_patch [OF _ mask [OF False]] show ?thesis by blast
  qed
  moreover have "\<forall>w \<in> set (take n ws). final_write pt raw w" if "\<forall>w \<in> set ws. final_write pt raw w" for n
    using that by (auto dest: in_set_takeD)
  ultimately show ?thesis using final_writes_prefix by blast
qed

definition sample_patch :: ConfigurationPatch where
  "sample_patch = \<lparr>cp_led_on = Some True, cp_ndef_read_only = None, cp_ndef_enabled = None, cp_webusb_landing = None,
     cp_feature_mask = 1, cp_feature_values = 1\<rparr>"

theorem admin_patch_exact_witness:
  "\<exists>op ws. operation_with_access profile_31 (Configure sample_patch) (PinAccess sample_pin)
       OperationOptions_default = Inr op
     \<and> Admin_patch (sample_admin\<lparr>ad_request := Configure sample_patch\<rparr>) [0, 9, 0, 1, 1, 0x10] sample_patch = Inr ws
     \<and> foldl card_write [0, 9, 0, 1, 1, 0x10] ws = [1, 9, 0, 1, 1, 0x11]"
proof -
  let ?raw = "[0, 9, 0, 1, 1, 0x10] :: bytes" and ?m = "sample_admin\<lparr>ad_request := Configure sample_patch\<rparr>"
  have sup: "supports profile_31 Capability.Admin" "supports profile_31 AdminExtendedConfiguration"
    by (simp_all add: supports_31 less_eq_prod_def)
  then have g: "admin_guards profile_31 (Configure sample_patch) (PinAccess sample_pin) = Inr ()"
    by (simp add: admin_guards_def result_simps sample_patch_def)
  have v: "validate_command (admin_write i a b d) OperationOptions_default = Inr ()" if "length d \<le> 255" for i a b d
    using that by (simp add: validate_default le_fits_def)
  have sel: "validate_command admin_select OperationOptions_default = Inr ()"
    by (rule validate_default) (simp_all add: admin_select_def le_fits_def LogicalCommand_new_def short_command_def)
  have rd: "validate_command (admin_read 0x42 0) OperationOptions_default = Inr ()"
    by (simp add: validate_command_def ConversationState_new_def admin_read_def admin_cmd_def LogicalCommand_new_def
        channel_le_def extended_frames_def short_frames_def CommandApdu_encode_def Let_def header_bytes_def lc_field_def)
  obtain op where op: "operation_with_access profile_31 (Configure sample_patch) (PinAccess sample_pin)
      OperationOptions_default = Inr op"
    using g v sel rd
    by (simp add: operation_with_access_def Let_def admin_queue_def explicit_le_command_def sample_pin_def
        Operation_from_machine_def)
  have "cs_support (capability profile_31 Capability.Admin) = Supported" using sup by (simp add: supports_def)
  then have layout: "admin_configuration_layout profile_31 = Inr Features"
    by (simp add: admin_configuration_layout_def CapabilityStatus_require_def less_prod_def)
  obtain ws where ws: "Admin_patch ?m ?raw sample_patch = Inr ws"
    using layout v
    by (simp add: Admin_patch_def sample_admin_def Configuration_parse_def feature_writes_def features_def
        sample_patch_def led_on_def flag_write_def)
  have "foldl card_write ?raw ws = patched sample_patch ?raw"
    using admin_patch_exact [OF op _ ws] by (simp add: sample_admin_def)
  also have "\<dots> = [1, 9, 0, 1, 1, 0x11]"
    by (simp add: patched_def sample_patch_def set_flag_def of_bool_byte_def)
  finally show ?thesis using op ws by blast
qed

text \<open>The keyboard map cannot be written. The request carries exactly 256 bytes, but its command
allows neither chaining nor extended encoding and a short command holds at most 255, so the factory
rejects every such request before any I/O, whatever the profile, the access and the options.\<close>

theorem admin_keymap_never_written:
  assumes "length keymap = 256"
  shows "\<exists>e. operation_with_access p (SetKeyboardKeymap layout keymap) access opts = Inl e"
proof -
  have no: "validate_command (explicit_le_command p (write_keyboard_keymap layout keymap)) opts \<noteq> Inr ()"
  proof -
    have "short_command (explicit_le_command p (write_keyboard_keymap layout keymap))"
      "lc_data (explicit_le_command p (write_keyboard_keymap layout keymap)) = keymap"
      by (simp_all add: explicit_le_command_def write_keyboard_keymap_def short_command_def LogicalCommand_new_def)
    then show ?thesis using assms by (auto simp: validate_short_iff max_short_def)
  qed
  have "operation_with_access p (SetKeyboardKeymap layout keymap) access opts \<noteq> Inr op" for op
  proof
    assume "operation_with_access p (SetKeyboardKeymap layout keymap) access opts = Inr op"
    then obtain us where "collectE (\<lambda>(c, st). validate_command c opts)
        (map (\<lambda>(c, st). (explicit_le_command p c, st))
          (admin_queue access (Some (write_keyboard_keymap layout keymap), WriteStage True))) = Inr us"
      by (auto simp: operation_with_access_def Let_def bindE_eq_Inr)
    then show False
      using no by (cases access) (auto simp: admin_queue_def bindE_eq_Inr)
  qed
  then show ?thesis by (cases "operation_with_access p (SetKeyboardKeymap layout keymap) access opts") auto
qed

theorem admin_keymap_never_written_witness:
  "\<exists>e. operation_with_access profile_31 (SetKeyboardKeymap 0 (replicate 256 0)) (PinAccess sample_pin)
     OperationOptions_default = Inl e"
  by (rule admin_keymap_never_written) simp

end
