(* ===== verification/Piv_Core.thy ===== *)
theory Piv_Core
  imports Applet Tlv
begin

text \<open>
  The core of the PIV applet, \<open>canokey-piv/src\<close>: credentials, slots, object identifiers and raw
  commands (\<open>lib.rs\<close>), the machine \<open>Sequence\<close> behind the simple factories, management-key
  authentication (\<open>management.rs\<close>), the machine \<open>Selected\<close> that selects and authenticates
  before a dependent machine runs (\<open>access.rs\<close>), credential changes (\<open>credentials.rs\<close>) and the
  probes and random numbers of an already selected applet (\<open>discovery.rs\<close>). The block ciphers
  (3DES and AES-192) come from packages and are a parameter \<open>bc\<close>: algorithm, direction
  (\<open>True\<close> decrypts), key and block to the result, \<open>None\<close> where the key is refused.
\<close>

section \<open>Credentials, slots and objects\<close>

type_synonym Pin = bytes
type_synonym Puk = bytes

definition piv_secret :: "bytes \<Rightarrow> bytes res" where
  "piv_secret bs =
     (if \<not> (6 \<le> length bs \<and> length bs \<le> 8) \<or> 0xff \<in> set bs then Inl (Error_new InvalidPin) else Inr bs)"

definition legacy_secret :: "bytes \<Rightarrow> bytes res" where
  "legacy_secret bs =
     (if \<not> (1 \<le> length bs \<and> length bs \<le> 8) then Inl (Error_new InvalidPin) else Inr bs)"

datatype Slot = Authentication | Signature | KeyManagement | CardAuthentication | Retired byte

definition RetiredSlot_new :: "byte \<Rightarrow> byte res" where
  "RetiredSlot_new index =
     (if 1 \<le> index \<and> index \<le> 20 then Inr index else Inl (Error_new InvalidArgument))"

fun Slot_reference :: "Slot \<Rightarrow> byte" where
  "Slot_reference Authentication = 0x9a"
| "Slot_reference Signature = 0x9c"
| "Slot_reference KeyManagement = 0x9d"
| "Slot_reference CardAuthentication = 0x9e"
| "Slot_reference (Retired n) = 0x81 + n"

type_synonym ObjectId = Tag

definition ObjectId_from_bytes :: "bytes \<Rightarrow> ObjectId res" where
  "ObjectId_from_bytes bs = Tag_from_bytes bs"

fun certificate_number :: "Slot \<Rightarrow> byte" where
  "certificate_number Authentication = 5"
| "certificate_number Signature = 10"
| "certificate_number KeyManagement = 11"
| "certificate_number CardAuthentication = 1"
| "certificate_number (Retired n) = 12 + n"

text \<open>The source unwraps this result; \<open>certificate_object\<close> below shows that it never panics.\<close>

definition ObjectId_certificate :: "Slot \<Rightarrow> ObjectId res" where
  "ObjectId_certificate slot = Tag_from_bytes [0x5f, 0xc1, certificate_number slot]"

definition ObjectId_as_bytes :: "ObjectId \<Rightarrow> bytes" where
  "ObjectId_as_bytes i = Tag_to_bytes i"

record PivPinStatus =
  ps_verified :: "bool option"
  ps_retries_remaining :: "byte option"
  ps_retries_total :: "byte option"
  ps_blocked :: bool

datatype ProfileEffect = Unchanged | ReprobeRequired

record MutationResult =
  mr_profile_effect :: ProfileEffect

definition unchanged :: MutationResult where
  "unchanged = \<lparr>mr_profile_effect = Unchanged\<rparr>"

definition auth_error :: "StatusWord \<Rightarrow> SecretReference \<Rightarrow> Error" where
  "auth_error sw r = Error_status sw Phase.Authentication (Some r)"

definition require_auth :: "ResponseData \<Rightarrow> SecretReference \<Rightarrow> unit res" where
  "require_auth r ref =
     (if StatusWord_is_success (rd_status r) then Inr () else Inl (auth_error (rd_status r) ref))"

section \<open>Commands\<close>

definition piv_cmd :: "byte \<Rightarrow> byte \<Rightarrow> byte \<Rightarrow> bytes \<Rightarrow> ExpectedLength \<Rightarrow> LogicalCommand" where
  "piv_cmd instr a b d le = LogicalCommand_new (ApduHeader_new 0 instr a b) d le"

definition command_select :: LogicalCommand where
  "command_select = piv_cmd 0xa4 4 0 [0xa0, 0, 0, 3, 8] Absent"

definition piv_read :: "byte \<Rightarrow> byte \<Rightarrow> byte \<Rightarrow> bytes \<Rightarrow> LogicalCommand" where
  "piv_read instr a b d = (piv_cmd instr a b d (Exact 256))\<lparr>lc_correct_le := True\<rparr>"

definition command_version :: LogicalCommand where
  "command_version = piv_read 0xfd 0 0 []"

definition command_algorithm_config :: LogicalCommand where
  "command_algorithm_config = piv_read 0xee 1 0 []"

definition command_pin_status :: LogicalCommand where
  "command_pin_status = piv_read 0x20 0 0x80 []"

text \<open>\<open>Vec::resize\<close> with a fill byte truncates or pads.\<close>

definition resize :: "nat \<Rightarrow> byte \<Rightarrow> bytes \<Rightarrow> bytes" where
  "resize n fill bs = take n bs @ replicate (n - length bs) fill"

definition padded :: "bytes \<Rightarrow> bytes" where
  "padded secret = resize 8 0xff secret"

definition command_verify_pin :: "Pin \<Rightarrow> LogicalCommand" where
  "command_verify_pin pin = piv_cmd 0x20 0 0x80 (padded pin) Absent"

definition command_logout :: LogicalCommand where
  "command_logout = piv_cmd 0x20 0xff 0x80 [] (Exact 256)"

definition command_change :: "byte \<Rightarrow> byte \<Rightarrow> bytes \<Rightarrow> bytes \<Rightarrow> LogicalCommand" where
  "command_change instr ref old new = piv_cmd instr 0 ref (resize 16 0xff (resize 8 0xff old @ new)) Absent"

definition command_get_data :: "ObjectId \<Rightarrow> LogicalCommand" where
  "command_get_data i =
     (let t = ObjectId_as_bytes i in piv_read 0xcb 0x3f 0xff ([0x5c, of_nat (length t)] @ t))"

section \<open>Sequences of commands\<close>

record PivRequest =
  rq_command :: LogicalCommand
  rq_phase :: Phase
  rq_reference :: "SecretReference option"

record 't Sequence =
  sq_pending :: "PivRequest list"
  sq_current :: "(Phase \<times> SecretReference option) option"
  sq_parse :: "(ResponseData \<Rightarrow> 't res) option"

definition Sequence_pop :: "'t Sequence \<Rightarrow> 't Sequence \<times> 't Action res" where
  "Sequence_pop s =
     (case sq_pending s of
        [] \<Rightarrow> (s, Inl (Error_new ProtocolViolation))
      | req # rest \<Rightarrow>
          (s\<lparr>sq_pending := rest, sq_current := Some (rq_phase req, rq_reference req)\<rparr>,
           Inr (Action.Command (rq_command req))))"

definition Sequence_next :: "'t Sequence \<Rightarrow> ResponseData option \<Rightarrow> 't Sequence \<times> 't Action res" where
  "Sequence_next s response =
     (case response of
        None \<Rightarrow> Sequence_pop s
      | Some r \<Rightarrow>
          if sq_pending s = [] then
            (s\<lparr>sq_parse := None\<rparr>,
             bindE (ok_or (sq_parse s) (Error_new OperationStateError)) (\<lambda>parse.
               bindE (parse r) (\<lambda>t. Inr (Action.Done t))))
          else
            (case sq_current s of
               None \<Rightarrow> (s, Inl (Error_new ProtocolViolation))
             | Some (phase, ref) \<Rightarrow>
                 if \<not> StatusWord_is_success (rd_status r) then (s, Inl (Error_status (rd_status r) phase ref))
                 else Sequence_pop s))"

definition Sequence_ops :: "('t Sequence, 't) Machine" where
  "Sequence_ops = plain_machine Sequence_next"

definition piv_explicit_le :: "bool \<Rightarrow> LogicalCommand \<Rightarrow> LogicalCommand" where
  "piv_explicit_le explicit c = (if explicit \<and> lc_le c = Absent then c\<lparr>lc_le := Exact 256\<rparr> else c)"

definition piv_make ::
  "DeviceProfile \<Rightarrow> PivRequest list \<Rightarrow> OperationOptions \<Rightarrow> (ResponseData \<Rightarrow> 't res)
   \<Rightarrow> ('t Sequence, 't) Operation res" where
  "piv_make profile commands opts parse =
     bindE (OperationOptions_validate opts) (\<lambda>_.
     bindE (collectE (\<lambda>req.
         let c = piv_explicit_le (legacy_explicit_le profile) (rq_command req)
         in bindE (validate_command c opts) (\<lambda>_. Inr (req\<lparr>rq_command := c\<rparr>))) commands) (\<lambda>cs.
       Operation_from_machine \<lparr>sq_pending = cs, sq_current = None, sq_parse = Some parse\<rparr> opts))"

definition piv_request :: "LogicalCommand \<Rightarrow> Phase \<Rightarrow> SecretReference option \<Rightarrow> PivRequest" where
  "piv_request c ph ref = \<lparr>rq_command = c, rq_phase = ph, rq_reference = ref\<rparr>"

definition piv_selected :: "LogicalCommand \<Rightarrow> PivRequest list" where
  "piv_selected c = [piv_request command_select Phase.Select None, piv_request c Phase.Command None]"

definition piv_single ::
  "LogicalCommand \<Rightarrow> Phase \<Rightarrow> OperationOptions \<Rightarrow> (ResponseData \<Rightarrow> 't res) \<Rightarrow> ('t Sequence, 't) Operation res"
where
  "piv_single c ph opts parse =
     bindE (OperationOptions_validate opts) (\<lambda>opts.
     bindE (validate_command c opts) (\<lambda>_.
       Operation_from_machine
         \<lparr>sq_pending = [piv_request c ph None], sq_current = None, sq_parse = Some parse\<rparr> opts))"

section \<open>Simple factories\<close>

definition parse_data :: "Phase \<Rightarrow> ResponseData \<Rightarrow> bytes res" where
  "parse_data ph r = bindE (ResponseData_ensure_success r ph) (\<lambda>_. Inr (rd_data r))"

definition select_application :: "OperationOptions \<Rightarrow> (bytes Sequence, bytes) Operation res" where
  "select_application opts =
     piv_single (command_select\<lparr>lc_le := Exact 256\<rparr>) Phase.Select opts (parse_data Phase.Select)"

definition piv_select :: "DeviceProfile \<Rightarrow> OperationOptions \<Rightarrow> (bytes Sequence, bytes) Operation res" where
  "piv_select profile opts =
     bindE (require profile Piv) (\<lambda>_.
       piv_make profile [piv_request command_select Phase.Select None] opts (parse_data Phase.Select))"

definition verify_pin :: "DeviceProfile \<Rightarrow> Pin \<Rightarrow> OperationOptions \<Rightarrow> (unit Sequence, unit) Operation res" where
  "verify_pin profile pin opts =
     bindE (require profile Piv) (\<lambda>_.
       piv_make profile (piv_selected (command_verify_pin pin)) opts (\<lambda>r. require_auth r SecretReference.Pin))"

definition parse_pin_status :: "ResponseData \<Rightarrow> PivPinStatus res" where
  "parse_pin_status r =
     (if rd_data r \<noteq> [] then Inl (Error_new InvalidResponse)
      else if rd_status r = 0x9000 then
        Inr \<lparr>ps_verified = Some True, ps_retries_remaining = None, ps_retries_total = None, ps_blocked = False\<rparr>
      else if rd_status r = 0x6983 then
        Inr \<lparr>ps_verified = Some False, ps_retries_remaining = Some 0, ps_retries_total = None, ps_blocked = True\<rparr>
      else if rd_status r AND 0xfff0 = 0x63c0 then
        Inr \<lparr>ps_verified = Some False, ps_retries_remaining = Some (ucast (rd_status r AND 15)),
             ps_retries_total = None, ps_blocked = False\<rparr>
      else Inl (auth_error (rd_status r) SecretReference.Pin))"

definition get_pin_status ::
  "DeviceProfile \<Rightarrow> OperationOptions \<Rightarrow> (PivPinStatus Sequence, PivPinStatus) Operation res" where
  "get_pin_status profile opts =
     bindE (require profile Piv) (\<lambda>_. piv_make profile (piv_selected command_pin_status) opts parse_pin_status)"

definition get_pin_status_selected :: "OperationOptions \<Rightarrow> (PivPinStatus Sequence, PivPinStatus) Operation res"
where
  "get_pin_status_selected opts = piv_single command_pin_status Phase.Command opts parse_pin_status"

definition piv_logout :: "DeviceProfile \<Rightarrow> OperationOptions \<Rightarrow> (unit Sequence, unit) Operation res" where
  "piv_logout profile opts =
     bindE (require profile Piv) (\<lambda>_.
       piv_make profile (piv_selected command_logout) opts (\<lambda>r. ResponseData_ensure_success r Phase.Authentication))"

definition change_secret ::
  "DeviceProfile \<Rightarrow> byte \<Rightarrow> byte \<Rightarrow> bytes \<Rightarrow> bytes \<Rightarrow> SecretReference \<Rightarrow> OperationOptions
   \<Rightarrow> (MutationResult Sequence, MutationResult) Operation res" where
  "change_secret profile instr b old new ref opts =
     bindE (require profile Piv) (\<lambda>_.
       piv_make profile (piv_selected (command_change instr b old new)) opts
         (\<lambda>r. bindE (require_auth r ref) (\<lambda>_. Inr unchanged)))"

definition change_pin ::
  "DeviceProfile \<Rightarrow> Pin \<Rightarrow> Pin \<Rightarrow> OperationOptions \<Rightarrow> (MutationResult Sequence, MutationResult) Operation res"
where
  "change_pin profile old new opts = change_secret profile 0x24 0x80 old new SecretReference.Pin opts"

definition change_puk ::
  "DeviceProfile \<Rightarrow> Puk \<Rightarrow> Puk \<Rightarrow> OperationOptions \<Rightarrow> (MutationResult Sequence, MutationResult) Operation res"
where
  "change_puk profile old new opts = change_secret profile 0x24 0x81 old new SecretReference.Puk opts"

definition unblock_pin ::
  "DeviceProfile \<Rightarrow> Puk \<Rightarrow> Pin \<Rightarrow> OperationOptions \<Rightarrow> (MutationResult Sequence, MutationResult) Operation res"
where
  "unblock_pin profile puk new_pin opts = change_secret profile 0x2c 0x80 puk new_pin SecretReference.Puk opts"

section \<open>Credential actions\<close>

datatype CredentialAction =
    VerifyPin Pin
  | Logout
  | ChangePin Pin Pin
  | ChangePuk Puk Puk
  | UnblockPin Puk Pin

fun credential_command :: "CredentialAction \<Rightarrow> LogicalCommand \<times> SecretReference option" where
  "credential_command (VerifyPin pin) = (command_verify_pin pin, Some SecretReference.Pin)"
| "credential_command Logout = (command_logout, None)"
| "credential_command (ChangePin old new) = (command_change 0x24 0x80 old new, Some SecretReference.Pin)"
| "credential_command (ChangePuk old new) = (command_change 0x24 0x81 old new, Some SecretReference.Puk)"
| "credential_command (UnblockPin puk new_pin) = (command_change 0x2c 0x80 puk new_pin, Some SecretReference.Puk)"

definition credential_parse :: "SecretReference option \<Rightarrow> ResponseData \<Rightarrow> MutationResult res" where
  "credential_parse ref r =
     (if rd_data r \<noteq> [] then Inl (Error_at (Error_new InvalidResponse) Phase.Parsing)
      else bindE (case ref of Some rf \<Rightarrow> require_auth r rf
                  | None \<Rightarrow> ResponseData_ensure_success r Phase.Authentication)
             (\<lambda>_. Inr unchanged))"

definition credential ::
  "DeviceProfile \<Rightarrow> CredentialAction \<Rightarrow> bool \<Rightarrow> OperationOptions
   \<Rightarrow> (MutationResult Sequence, MutationResult) Operation res" where
  "credential profile action select opts =
     (let (c, ref) = credential_command action in
      bindE (require profile Piv) (\<lambda>_.
        piv_make profile
          ((if select then [piv_request command_select Phase.Select None] else [])
           @ [piv_request c Phase.Authentication ref]) opts (credential_parse ref)))"

section \<open>Management-key authentication\<close>

type_synonym cipher = "ManagementKeyAlgorithm \<Rightarrow> bool \<Rightarrow> bytes \<Rightarrow> bytes \<Rightarrow> bytes option"

record ManagementKey =
  mk_algorithm :: ManagementKeyAlgorithm
  mk_bytes :: bytes

definition ManagementKey_from_bytes :: "ManagementKeyAlgorithm \<Rightarrow> bytes \<Rightarrow> ManagementKey res" where
  "ManagementKey_from_bytes algorithm bs =
     (if length bs \<noteq> 24 then Inl (Error_new InvalidArgument)
      else Inr \<lparr>mk_algorithm = algorithm, mk_bytes = bs\<rparr>)"

definition replacement_command :: "ManagementKey \<Rightarrow> bool \<Rightarrow> LogicalCommand" where
  "replacement_command key touch =
     (LogicalCommand_new (ApduHeader_new 0 0xff 0xff (if touch then 0xfe else 0xff)) [] Absent)
       \<lparr>lc_data := [ManagementKeyAlgorithm_wire_id (mk_algorithm key), 0x9b, 24] @ mk_bytes key\<rparr>"

definition management_invalid :: Error where
  "management_invalid = Error_at (Error_new InvalidResponse) Phase.Authentication"

definition ManagementKey_crypt :: "cipher \<Rightarrow> ManagementKey \<Rightarrow> bytes \<Rightarrow> bool \<Rightarrow> bytes res" where
  "ManagementKey_crypt bc key input decrypt =
     (if length input \<noteq> block_len (mk_algorithm key) then Inl management_invalid
      else ok_or (bc (mk_algorithm key) decrypt (mk_bytes key) input) (Error_new InvalidArgument))"

datatype Mode = External | Mutual bytes

record ManagementAuthentication =
  ma_key :: ManagementKey
  ma_mode :: Mode

definition ManagementAuthentication_external :: "ManagementKey \<Rightarrow> ManagementAuthentication" where
  "ManagementAuthentication_external key = \<lparr>ma_key = key, ma_mode = External\<rparr>"

definition ManagementAuthentication_mutual :: "ManagementKey \<Rightarrow> bytes \<Rightarrow> ManagementAuthentication res" where
  "ManagementAuthentication_mutual key challenge =
     (if length challenge \<noteq> block_len (mk_algorithm key) then Inl (Error_new InvalidArgument)
      else Inr \<lparr>ma_key = key, ma_mode = Mutual challenge\<rparr>)"

fun push_fields :: "TlvWriter \<Rightarrow> (byte \<times> bytes) list \<Rightarrow> TlvWriter res" where
  "push_fields w [] = Inr w"
| "push_fields w ((t, v) # fs) =
     bindE (Tag_from_bytes [t]) (\<lambda>tg. bindE (TlvWriter_push w tg v) (\<lambda>w'. push_fields w' fs))"

definition auth_command :: "ManagementKeyAlgorithm \<Rightarrow> (byte \<times> bytes) list \<Rightarrow> LogicalCommand res" where
  "auth_command algorithm fs =
     bindE (push_fields (TlvWriter_new 36) fs) (\<lambda>inner.
     bindE (push_fields (TlvWriter_new 38) [(0x7c, w_bytes inner)]) (\<lambda>outer.
       Inr ((LogicalCommand_new (ApduHeader_new 0 0x87 (ManagementKeyAlgorithm_wire_id algorithm) 0x9b) [] Absent)
              \<lparr>lc_data := w_bytes outer\<rparr>)))"

definition ManagementAuthentication_initial :: "ManagementAuthentication \<Rightarrow> LogicalCommand res" where
  "ManagementAuthentication_initial auth =
     auth_command (mk_algorithm (ma_key auth)) [(case ma_mode auth of External \<Rightarrow> 0x81 | Mutual _ \<Rightarrow> 0x80, [])]"

text \<open>The fields of the second command: the response to a challenge, or the witness and a challenge.\<close>

fun second_fields :: "Mode \<Rightarrow> bytes \<Rightarrow> (byte \<times> bytes) list" where
  "second_fields External v = [(0x82, v)]"
| "second_fields (Mutual challenge) v = [(0x80, v), (0x81, challenge)]"

definition ManagementAuthentication_validate ::
  "ManagementAuthentication \<Rightarrow> DeviceProfile \<Rightarrow> OperationOptions \<Rightarrow> unit res" where
  "ManagementAuthentication_validate auth profile opts =
     bindE (CapabilityStatus_require (management_key_support profile (mk_algorithm (ma_key auth)))) (\<lambda>_.
     bindE (ManagementAuthentication_initial auth) (\<lambda>c.
     bindE (validate_command c opts) (\<lambda>_.
     bindE (auth_command (mk_algorithm (ma_key auth))
              (second_fields (ma_mode auth) (replicate (block_len (mk_algorithm (ma_key auth))) 0))) (\<lambda>c2.
       validate_command c2 opts))))"

definition auth_status :: "ResponseData \<Rightarrow> unit res" where
  "auth_status r =
     (if StatusWord_is_success (rd_status r) then Inr ()
      else let e = auth_error (rd_status r) SecretReference.ManagementKey
           in Inl (if rd_status r = 0x6982 then e\<lparr>e_kind := AuthenticationFailed\<rparr> else e))"

definition auth_limits :: TlvLimits where
  "auth_limits = \<lparr>max_value_bytes = 18, max_depth = 2\<rparr>"

definition auth_field :: "bytes \<Rightarrow> 32 word \<Rightarrow> nat \<Rightarrow> bytes res" where
  "auth_field d t len =
     bindE (TlvReader_next (TlvReader_new d auth_limits)) (\<lambda>(wrapped, outer).
     bindE (ok_or wrapped management_invalid) (\<lambda>wrapped.
     bindE (if tag_value (f_tag wrapped) \<noteq> 0x7c then Inl management_invalid
            else bindE (TlvReader_next outer) (\<lambda>(extra, _). ensureE (extra = None) management_invalid)) (\<lambda>_.
     bindE (Tlv_children wrapped) (\<lambda>inner.
     bindE (TlvReader_next inner) (\<lambda>(field, inner).
     bindE (ok_or field management_invalid) (\<lambda>field.
     bindE (if tag_value (f_tag field) \<noteq> t \<or> length (f_value field) \<noteq> len then Inl management_invalid
            else bindE (TlvReader_next inner) (\<lambda>(extra, _). ensureE (extra = None) management_invalid)) (\<lambda>_.
       Inr (f_value field))))))))"

record ManagementMachine =
  mm_auth :: ManagementAuthentication
  mm_stage :: nat

definition ManagementMachine_new :: "ManagementAuthentication \<Rightarrow> ManagementMachine" where
  "ManagementMachine_new auth = \<lparr>mm_auth = auth, mm_stage = 0\<rparr>"

definition is_mutual :: "Mode \<Rightarrow> bool" where
  "is_mutual m = (case m of External \<Rightarrow> False | Mutual _ \<Rightarrow> True)"

definition management_answer :: "cipher \<Rightarrow> ManagementAuthentication \<Rightarrow> ResponseData \<Rightarrow> bytes res" where
  "management_answer bc auth r =
     bindE (auth_status r) (\<lambda>_.
     bindE (auth_field (rd_data r) (if is_mutual (ma_mode auth) then 0x80 else 0x81)
              (block_len (mk_algorithm (ma_key auth)))) (\<lambda>v.
       ManagementKey_crypt bc (ma_key auth) v (is_mutual (ma_mode auth))))"

definition management_finish :: "cipher \<Rightarrow> ManagementAuthentication \<Rightarrow> ResponseData \<Rightarrow> unit res" where
  "management_finish bc auth r =
     bindE (auth_status r) (\<lambda>_.
       case ma_mode auth of
         External \<Rightarrow> if rd_data r \<noteq> [] then Inl management_invalid else Inr ()
       | Mutual challenge \<Rightarrow>
           bindE (auth_field (rd_data r) 0x82 (block_len (mk_algorithm (ma_key auth)))) (\<lambda>actual.
           bindE (ManagementKey_crypt bc (ma_key auth) challenge False) (\<lambda>expected.
             if expected \<noteq> actual then
               Inl ((Error_at (Error_new DeviceAuthenticationFailed) Phase.Authentication)
                      \<lparr>e_reference := Some SecretReference.ManagementKey\<rparr>)
             else Inr ())))"

definition ManagementMachine_next ::
  "cipher \<Rightarrow> ManagementMachine \<Rightarrow> ResponseData option \<Rightarrow> ManagementMachine \<times> unit Action res" where
  "ManagementMachine_next bc m response =
     (if mm_stage m = 0 then
        (m\<lparr>mm_stage := 1\<rparr>, bindE (ManagementAuthentication_initial (mm_auth m)) (\<lambda>c. Inr (Action.Command c)))
      else if mm_stage m = 1 then
        (case bindE (ok_or response management_invalid) (management_answer bc (mm_auth m)) of
           Inl e \<Rightarrow> (m, Inl e)
         | Inr v \<Rightarrow>
             (m\<lparr>mm_stage := 2\<rparr>,
              bindE (auth_command (mk_algorithm (ma_key (mm_auth m))) (second_fields (ma_mode (mm_auth m)) v))
                (\<lambda>c. Inr (Action.Command c))))
      else if mm_stage m = 2 then
        (case bindE (ok_or response management_invalid) (management_finish bc (mm_auth m)) of
           Inl e \<Rightarrow> (m, Inl e)
         | Inr _ \<Rightarrow> (m\<lparr>mm_stage := 3\<rparr>, Inr (Action.Done ())))
      else (m, Inl (Error_new OperationStateError)))"

definition ManagementMachine_ops :: "cipher \<Rightarrow> (ManagementMachine, unit) Machine" where
  "ManagementMachine_ops bc = plain_machine (ManagementMachine_next bc)"

section \<open>Selection and authentication around a machine\<close>

datatype Access =
    Existing
  | NoAccess
  | PinAccess Pin
  | Management ManagementAuthentication
  | PinAndManagement Pin ManagementAuthentication

datatype AccessStage = BeginStage | SelectStage | ManagementStage | PinStage | TargetStage

record 'm Selected =
  se_stage :: AccessStage
  se_explicit_le :: bool
  se_management :: "ManagementMachine option"
  se_pin :: "Pin option"
  se_target :: 'm

definition Selected_target ::
  "('m, 't) Machine \<Rightarrow> 'm Selected \<Rightarrow> ResponseData option \<Rightarrow> 'm Selected \<times> 't Action res" where
  "Selected_target M s response =
     (let (m, a) = m_next M (se_target s) response in (s\<lparr>se_target := m\<rparr>, a))"

definition target_or_pin :: "('m, 't) Machine \<Rightarrow> 'm Selected \<Rightarrow> 'm Selected \<times> 't Action res" where
  "target_or_pin M s =
     (case se_pin s of
        Some pin \<Rightarrow> (s\<lparr>se_pin := None, se_stage := PinStage\<rparr>, Inr (Action.Command (command_verify_pin pin)))
      | None \<Rightarrow> Selected_target M (s\<lparr>se_stage := TargetStage\<rparr>) None)"

definition Selected_management ::
  "cipher \<Rightarrow> ('m, 't) Machine \<Rightarrow> 'm Selected \<Rightarrow> ResponseData option \<Rightarrow> 'm Selected \<times> 't Action res" where
  "Selected_management bc M s response =
     (case se_management s of
        None \<Rightarrow> (s, Inl (Error_new ProtocolViolation))
      | Some machine \<Rightarrow>
          (case ManagementMachine_next bc machine response of
             (mm, Inl e) \<Rightarrow> (s\<lparr>se_management := Some mm\<rparr>, Inl e)
           | (mm, Inr (Action.Command c)) \<Rightarrow> (s\<lparr>se_management := Some mm\<rparr>, Inr (Action.Command c))
           | (mm, Inr (Action.Done _)) \<Rightarrow> target_or_pin M (s\<lparr>se_management := None\<rparr>)))"

definition Selected_step ::
  "cipher \<Rightarrow> ('m, 't) Machine \<Rightarrow> 'm Selected \<Rightarrow> ResponseData option \<Rightarrow> 'm Selected \<times> 't Action res" where
  "Selected_step bc M s response =
     (case se_stage s of
        BeginStage \<Rightarrow> (s\<lparr>se_stage := SelectStage\<rparr>, Inr (Action.Command command_select))
      | SelectStage \<Rightarrow>
          (case bindE (ok_or response (Error_new ProtocolViolation))
                  (\<lambda>r. ResponseData_ensure_success r Phase.Select) of
             Inl e \<Rightarrow> (s, Inl e)
           | Inr _ \<Rightarrow>
               if se_management s \<noteq> None then
                 Selected_management bc M (s\<lparr>se_stage := ManagementStage\<rparr>) None
               else target_or_pin M s)
      | ManagementStage \<Rightarrow> Selected_management bc M s response
      | PinStage \<Rightarrow>
          (case bindE (ok_or response (Error_new ProtocolViolation)) (\<lambda>r.
                  bindE (require_auth r SecretReference.Pin) (\<lambda>_.
                    if rd_data r \<noteq> [] then Inl management_invalid else Inr ())) of
             Inl e \<Rightarrow> (s, Inl e)
           | Inr _ \<Rightarrow> Selected_target M (s\<lparr>se_stage := TargetStage\<rparr>) None)
      | TargetStage \<Rightarrow> Selected_target M s response)"

fun explicit_le_action :: "bool \<Rightarrow> 't Action \<Rightarrow> 't Action" where
  "explicit_le_action explicit (Action.Command c) = Action.Command (piv_explicit_le explicit c)"
| "explicit_le_action explicit (Action.Done t) = Action.Done t"

definition Selected_next ::
  "cipher \<Rightarrow> ('m, 't) Machine \<Rightarrow> 'm Selected \<Rightarrow> ResponseData option \<Rightarrow> 'm Selected \<times> 't Action res" where
  "Selected_next bc M s response =
     (let (s', a) = Selected_step bc M s response
      in (s', bindE a (\<lambda>a. Inr (explicit_le_action (se_explicit_le s') a))))"

definition Selected_ops :: "cipher \<Rightarrow> ('m, 't) Machine \<Rightarrow> ('m Selected, 't) Machine" where
  "Selected_ops bc M =
     \<lparr>m_next = Selected_next bc M,
      m_progress = (\<lambda>s. if se_stage s = TargetStage then m_progress M (se_target s) else None),
      m_take_progress = (\<lambda>s. if se_stage s = TargetStage then m_take_progress M (se_target s) else None)\<rparr>"

fun access_parts :: "Access \<Rightarrow> ManagementAuthentication option \<times> Pin option" where
  "access_parts NoAccess = (None, None)"
| "access_parts Existing = (None, None)"
| "access_parts (PinAccess pin) = (None, Some pin)"
| "access_parts (Management auth) = (Some auth, None)"
| "access_parts (PinAndManagement pin auth) = (Some auth, Some pin)"

definition Selected_new :: "DeviceProfile \<Rightarrow> Access \<Rightarrow> 'm \<Rightarrow> 'm Selected" where
  "Selected_new profile access target =
     \<lparr>se_stage = (if access = Existing then TargetStage else BeginStage),
      se_explicit_le = legacy_explicit_le profile,
      se_management = map_option ManagementMachine_new (fst (access_parts access)),
      se_pin = snd (access_parts access),
      se_target = target\<rparr>"

definition with_access ::
  "DeviceProfile \<Rightarrow> Access \<Rightarrow> 'm \<Rightarrow> OperationOptions \<Rightarrow> ('m Selected, 't) Operation res" where
  "with_access profile access target opts =
     bindE (require profile Piv) (\<lambda>_.
     bindE (OperationOptions_validate opts) (\<lambda>_.
     bindE (whenE (access \<noteq> Existing) (validate_command command_select opts)) (\<lambda>_.
     bindE (case fst (access_parts access) of
              None \<Rightarrow> Inr () | Some auth \<Rightarrow> ManagementAuthentication_validate auth profile opts) (\<lambda>_.
     bindE (case snd (access_parts access) of
              None \<Rightarrow> Inr () | Some pin \<Rightarrow> validate_command (command_verify_pin pin) opts) (\<lambda>_.
       Operation_from_machine (Selected_new profile access target) opts)))))"

definition piv_prepare :: "LogicalCommand \<Rightarrow> OperationOptions \<Rightarrow> (ResponseData \<Rightarrow> 't res) \<Rightarrow> 't Sequence res"
where
  "piv_prepare c opts parse =
     bindE (validate_command c opts) (\<lambda>_.
       Inr \<lparr>sq_pending = [piv_request c Phase.Command None], sq_current = None, sq_parse = Some parse\<rparr>)"

definition authenticate_management_key ::
  "DeviceProfile \<Rightarrow> ManagementAuthentication \<Rightarrow> bool \<Rightarrow> OperationOptions
   \<Rightarrow> (ManagementMachine Selected, unit) Operation res" where
  "authenticate_management_key profile auth select opts =
     bindE (require profile Piv) (\<lambda>_.
     bindE (ManagementAuthentication_validate auth profile opts) (\<lambda>_.
       with_access profile (if select then NoAccess else Existing) (ManagementMachine_new auth) opts))"

section \<open>Probes and random numbers in a selected applet\<close>

definition piv_version :: "ResponseData \<Rightarrow> bytes res" where
  "piv_version r =
     bindE (ResponseData_ensure_success r Phase.Command) (\<lambda>_.
       if length (rd_data r) = 3 then Inr (rd_data r)
       else Inl (Error_at (Error_new InvalidResponse) Phase.Parsing))"

definition read_version_selected :: "OperationOptions \<Rightarrow> (bytes Sequence, bytes) Operation res" where
  "read_version_selected opts =
     piv_single command_version Phase.Command opts (\<lambda>r. bindE (piv_version r) (\<lambda>_. Inr (rd_data r)))"

definition read_configuration_selected ::
  "OperationOptions \<Rightarrow> (AlgorithmConfig Sequence, AlgorithmConfig) Operation res" where
  "read_configuration_selected opts =
     piv_single command_algorithm_config Phase.Command opts (\<lambda>r.
       bindE (ResponseData_ensure_success r Phase.Command) (\<lambda>_.
         case AlgorithmConfig_parse (rd_data r) of Inl e \<Rightarrow> Inl (Error_at e Phase.Parsing) | Inr c \<Rightarrow> Inr c))"

record RandomMachine =
  rm_remaining :: nat
  rm_chunk :: nat
  rm_pending :: nat
  rm_version_read :: bool
  rm_started :: bool
  rm_bytes :: bytes

definition random_command :: "nat \<Rightarrow> LogicalCommand" where
  "random_command n = LogicalCommand_new (ApduHeader_new 0 0x84 0 0) [] (Exact (of_nat n))"

definition RandomMachine_issue :: "RandomMachine \<Rightarrow> RandomMachine \<times> bytes Action res" where
  "RandomMachine_issue m =
     (if rm_remaining m = 0 then (m\<lparr>rm_bytes := []\<rparr>, Inr (Action.Done (rm_bytes m)))
      else let n = min (rm_remaining m) (rm_chunk m)
           in (m\<lparr>rm_pending := n\<rparr>, Inr (Action.Command (random_command n))))"

definition RandomMachine_next :: "RandomMachine \<Rightarrow> ResponseData option \<Rightarrow> RandomMachine \<times> bytes Action res"
where
  "RandomMachine_next m response =
     (if \<not> rm_started m then (m\<lparr>rm_started := True\<rparr>, Inr (Action.Command command_version))
      else case response of
        None \<Rightarrow> (m, Inl (Error_new OperationStateError))
      | Some r \<Rightarrow>
          if \<not> rm_version_read m then
            (case piv_version r of
               Inl e \<Rightarrow> (m, Inl e)
             | Inr v \<Rightarrow>
                 if v ! 0 < 6 then (m, Inl (Error_at (Error_new UnsupportedFeature) Phase.Command))
                 else RandomMachine_issue (m\<lparr>rm_version_read := True\<rparr>))
          else
            (case ResponseData_ensure_success r Phase.Command of
               Inl e \<Rightarrow> (m, Inl e)
             | Inr _ \<Rightarrow>
                 if length (rd_data r) \<noteq> rm_pending m then
                   (m, Inl (Error_at (Error_new InvalidResponse) Phase.Parsing))
                 else RandomMachine_issue
                   (m\<lparr>rm_bytes := rm_bytes m @ rd_data r, rm_remaining := rm_remaining m - rm_pending m\<rparr>)))"

definition RandomMachine_ops :: "(RandomMachine, bytes) Machine" where
  "RandomMachine_ops = plain_machine RandomMachine_next"

definition random_selected :: "nat \<Rightarrow> OperationOptions \<Rightarrow> (RandomMachine, bytes) Operation res" where
  "random_selected len opts =
     bindE (OperationOptions_validate opts) (\<lambda>opts.
       if (case checked_add len 3 of None \<Rightarrow> True | Some n \<Rightarrow> n > max_total_response_bytes (limits opts))
       then Inl (Error_new LimitExceeded)
       else let chunk = min 256 (max_response_bytes (exchange opts) - 2) in
         if (case checked_add (div_ceil len chunk) 1 of None \<Rightarrow> True | Some n \<Rightarrow> n > max_exchanges (limits opts))
         then Inl (Error_new LimitExceeded)
         else Operation_from_machine
           \<lparr>rm_remaining = len, rm_chunk = chunk, rm_pending = 0, rm_version_read = False,
            rm_started = False, rm_bytes = []\<rparr> opts)"

section \<open>What authentication means\<close>

text \<open>
  The transcript of a completed management authentication: the initial request, the card's
  challenge or witness answered with the key, and a final response that is accepted. In the mutual
  mode the final response carries the encryption of the host's challenge.
\<close>

definition management_done :: "cipher \<Rightarrow> ManagementAuthentication option \<Rightarrow> trace \<Rightarrow> bool" where
  "management_done bc mg tr =
     (case mg of
        None \<Rightarrow> tr = []
      | Some auth \<Rightarrow>
          \<exists>c1 r1 v c2 r2. tr = [(c1, r1), (c2, r2)] \<and> ManagementAuthentication_initial auth = Inr c1
            \<and> management_answer bc auth r1 = Inr v
            \<and> auth_command (mk_algorithm (ma_key auth)) (second_fields (ma_mode auth) v) = Inr c2
            \<and> management_finish bc auth r2 = Inr ())"

definition pin_verified :: "Pin option \<Rightarrow> trace \<Rightarrow> bool" where
  "pin_verified pin tr =
     (case pin of
        None \<Rightarrow> tr = []
      | Some p \<Rightarrow> \<exists>r. tr = [(command_verify_pin p, r)] \<and> rd_status r = 0x9000 \<and> rd_data r = [])"

definition authenticated :: "cipher \<Rightarrow> Access \<Rightarrow> trace \<Rightarrow> bool" where
  "authenticated bc access tr \<longleftrightarrow>
     (if access = Existing then tr = []
      else \<exists>r0 mt pt. tr = (command_select, r0) # mt @ pt \<and> rd_status r0 = 0x9000
        \<and> management_done bc (fst (access_parts access)) mt \<and> pin_verified (snd (access_parts access)) pt)"

text \<open>The next authentication command, given the exchanges so far.\<close>

definition authenticating :: "cipher \<Rightarrow> Access \<Rightarrow> trace \<Rightarrow> LogicalCommand \<Rightarrow> bool" where
  "authenticating bc access tr c \<longleftrightarrow>
     access \<noteq> Existing \<and>
     (tr = [] \<and> c = command_select
      \<or> (\<exists>r0 mt. tr = (command_select, r0) # mt \<and> rd_status r0 = 0x9000 \<and>
          ((\<exists>auth. fst (access_parts access) = Some auth \<and> mt = [] \<and> ManagementAuthentication_initial auth = Inr c)
           \<or> (\<exists>auth c1 r1 v. fst (access_parts access) = Some auth \<and> mt = [(c1, r1)]
                \<and> ManagementAuthentication_initial auth = Inr c1 \<and> management_answer bc auth r1 = Inr v
                \<and> auth_command (mk_algorithm (ma_key auth)) (second_fields (ma_mode auth) v) = Inr c)
           \<or> (\<exists>pin. snd (access_parts access) = Some pin \<and> management_done bc (fst (access_parts access)) mt
                \<and> c = command_verify_pin pin))))"

definition explicit_trace :: "bool \<Rightarrow> trace \<Rightarrow> trace" where
  "explicit_trace e = map (map_prod (piv_explicit_le e) id)"

lemma explicit_trace_simps [simp]:
  "explicit_trace e [] = []" "explicit_trace e ((c, r) # tr) = (piv_explicit_le e c, r) # explicit_trace e tr"
  "explicit_trace e (xs @ ys) = explicit_trace e xs @ explicit_trace e ys"
  by (simp_all add: explicit_trace_def)

lemma success_9000 [simp]: "StatusWord_is_success sw \<longleftrightarrow> sw = 0x9000"
  by (simp add: StatusWord_is_success_def)

lemma ensure_success_iff: "ResponseData_ensure_success r ph = Inr u \<longleftrightarrow> rd_status r = 0x9000"
  by (simp add: ResponseData_ensure_success_def)

lemma require_auth_iff: "require_auth r ref = Inr u \<longleftrightarrow> rd_status r = 0x9000"
  by (simp add: require_auth_def)

text \<open>The invariant of the wrapper: what the exchanges so far amount to in each stage.\<close>

definition selecting :: "cipher \<Rightarrow> ManagementAuthentication option \<Rightarrow> 'm Selected \<Rightarrow> ResponseData option \<Rightarrow> trace \<Rightarrow> bool"
where
  "selecting bc mg s resp tr =
     (case se_stage s of
        BeginStage \<Rightarrow> tr = [] \<and> resp = None \<and> se_management s = map_option ManagementMachine_new mg
      | SelectStage \<Rightarrow> (\<exists>r0. resp = Some r0 \<and> tr = [(command_select, r0)])
          \<and> se_management s = map_option ManagementMachine_new mg
      | ManagementStage \<Rightarrow>
          (\<exists>r0 auth c1 r1. mg = Some auth \<and> rd_status r0 = 0x9000 \<and> ManagementAuthentication_initial auth = Inr c1 \<and>
            ((resp = Some r1 \<and> tr = [(command_select, r0), (c1, r1)]
                \<and> se_management s = Some \<lparr>mm_auth = auth, mm_stage = 1\<rparr>)
             \<or> (\<exists>v c2 r2. resp = Some r2 \<and> tr = [(command_select, r0), (c1, r1), (c2, r2)]
                  \<and> management_answer bc auth r1 = Inr v
                  \<and> auth_command (mk_algorithm (ma_key auth)) (second_fields (ma_mode auth) v) = Inr c2
                  \<and> se_management s = Some \<lparr>mm_auth = auth, mm_stage = 2\<rparr>)))
      | _ \<Rightarrow> False)"

definition access_inv ::
  "cipher \<Rightarrow> ('m, 't) Machine \<Rightarrow> Access \<Rightarrow> 'm \<Rightarrow> 'm Selected \<Rightarrow> ResponseData option \<Rightarrow> trace \<Rightarrow> bool"
where
  "access_inv bc M access m0 s resp raw \<longleftrightarrow>
     (if se_stage s = TargetStage then
        \<exists>at ttr. raw = at @ ttr \<and> authenticated bc access at \<and> trace_run M m0 (se_target s) resp ttr
      else se_target s = m0 \<and> access \<noteq> Existing \<and>
        (if se_stage s = PinStage then
           \<exists>r0 mt pin r. snd (access_parts access) = Some pin \<and> resp = Some r \<and> rd_status r0 = 0x9000
             \<and> management_done bc (fst (access_parts access)) mt
             \<and> raw = (command_select, r0) # mt @ [(command_verify_pin pin, r)]
         else se_pin s = snd (access_parts access) \<and> selecting bc (fst (access_parts access)) s resp raw))"

text \<open>What one step of the wrapper does, in terms of the target machine.\<close>

definition access_action ::
  "cipher \<Rightarrow> ('m, 't) Machine \<Rightarrow> Access \<Rightarrow> 'm \<Rightarrow> ResponseData option \<Rightarrow> trace \<Rightarrow> 't Action \<Rightarrow> bool" where
  "access_action bc M access m0 resp raw a \<longleftrightarrow>
     (\<exists>c. a = Action.Command c \<and> authenticating bc access raw c)
     \<or> (\<exists>at ttr m m' resp'. raw = at @ ttr \<and> authenticated bc access at
          \<and> trace_run M m0 m resp' ttr \<and> (resp' = None \<or> resp' = resp) \<and> m_next M m resp' = (m', Inr a))"

definition access_post ::
  "cipher \<Rightarrow> ('m, 't) Machine \<Rightarrow> Access \<Rightarrow> 'm \<Rightarrow> ResponseData option \<Rightarrow> trace \<Rightarrow> bool \<Rightarrow> 'm Selected \<Rightarrow> 't Action \<Rightarrow> bool"
where
  "access_post bc M access m0 resp raw e s' a \<longleftrightarrow>
     access_action bc M access m0 resp raw a \<and> se_explicit_le s' = e
     \<and> (\<forall>c r. a = Action.Command c \<longrightarrow> access_inv bc M access m0 s' (Some r) (raw @ [(c, r)]))"

lemma target_post:
  assumes "Selected_target M s resp' = (s', Inr a)" "se_stage s = TargetStage" "resp' = None \<or> resp' = resp"
    "raw = at @ ttr" "authenticated bc access at" "trace_run M m0 (se_target s) resp' ttr" "se_explicit_le s = e"
  shows "access_post bc M access m0 resp raw e s' a"
proof -
  obtain m' where nx: "m_next M (se_target s) resp' = (m', Inr a)" and s': "s' = s\<lparr>se_target := m'\<rparr>"
    using assms(1) by (auto simp: Selected_target_def split: prod.splits)
  have "access_action bc M access m0 resp raw a"
    unfolding access_action_def using assms(3-6) nx by blast
  moreover have "trace_run M m0 m' (Some r) (ttr @ [(c, r)])" if "a = Action.Command c" for c r
    by (rule run_exchange [OF assms(6)]) (use nx that in \<open>auto simp: trace_env_def\<close>)
  then have "\<forall>c r. a = Action.Command c \<longrightarrow> access_inv bc M access m0 s' (Some r) (raw @ [(c, r)])"
    using assms(2,4,5) s' by (auto simp: access_inv_def)
  ultimately show ?thesis using s' assms(7) by (simp add: access_post_def)
qed

lemma first_target_post:
  assumes "Selected_target M (s\<lparr>se_stage := TargetStage\<rparr>) None = (s', Inr a)" "se_target s = m0"
    "authenticated bc access raw" "se_explicit_le s = e"
  shows "access_post bc M access m0 resp raw e s' a"
  by (rule target_post [OF assms(1), where at = raw and ttr = "[]"]) (use assms run_start in auto)

lemma management_first:
  "ManagementMachine_next bc (ManagementMachine_new auth) resp = (mm, Inr a) \<longleftrightarrow>
    mm = \<lparr>mm_auth = auth, mm_stage = 1\<rparr> \<and> (\<exists>c. a = Action.Command c \<and> ManagementAuthentication_initial auth = Inr c)"
  by (auto simp: ManagementMachine_next_def ManagementMachine_new_def bindE_eq_Inr)

lemma management_second:
  "ManagementMachine_next bc \<lparr>mm_auth = auth, mm_stage = 1\<rparr> (Some r) = (mm, Inr a) \<longleftrightarrow>
    mm = \<lparr>mm_auth = auth, mm_stage = 2\<rparr> \<and> (\<exists>v c. a = Action.Command c \<and> management_answer bc auth r = Inr v
      \<and> auth_command (mk_algorithm (ma_key auth)) (second_fields (ma_mode auth) v) = Inr c)"
  by (auto simp: ManagementMachine_next_def bindE_eq_Inr split: sum.splits)

lemma management_third:
  "ManagementMachine_next bc \<lparr>mm_auth = auth, mm_stage = 2\<rparr> (Some r) = (mm, Inr a) \<longleftrightarrow>
    mm = \<lparr>mm_auth = auth, mm_stage = 3\<rparr> \<and> a = Action.Done () \<and> management_finish bc auth r = Inr ()"
  by (auto simp: ManagementMachine_next_def split: sum.splits)

lemma target_or_pin_post:
  assumes step: "target_or_pin M s = (s', Inr a)"
    and s: "se_target s = m0" "se_pin s = snd (access_parts access)" "se_explicit_le s = e" "access \<noteq> Existing"
    and raw: "raw = (command_select, r0) # mt" "rd_status r0 = 0x9000"
      "management_done bc (fst (access_parts access)) mt"
  shows "access_post bc M access m0 resp raw e s' a"
proof (cases "se_pin s")
  case None
  have "authenticated bc access raw"
    using s raw None by (auto simp: authenticated_def pin_verified_def)
  then show ?thesis
    using step None s by (intro first_target_post) (auto simp: target_or_pin_def)
next
  case (Some pin)
  then have a: "a = Action.Command (command_verify_pin pin)" "s' = s\<lparr>se_pin := None, se_stage := PinStage\<rparr>"
    using step by (auto simp: target_or_pin_def)
  have pin: "snd (access_parts access) = Some pin" using s Some by simp
  then have "authenticating bc access raw (command_verify_pin pin)"
    using s(4) raw unfolding authenticating_def by blast
  moreover have "access_inv bc M access m0 s' (Some r) (raw @ [(command_verify_pin pin, r)])" for r
    using s(1,4) raw pin a by (auto simp: access_inv_def)
  ultimately show ?thesis using a s by (simp add: access_post_def access_action_def)
qed

lemma begin_post:
  assumes "access_inv bc M access m0 s resp raw" "se_stage s = BeginStage" "se_explicit_le s = e"
    "Selected_step bc M s resp = (s', Inr a)"
  shows "access_post bc M access m0 resp raw e s' a"
  using assms
  by (auto simp: access_inv_def selecting_def Selected_step_def access_post_def access_action_def authenticating_def)

lemma select_post:
  assumes inv: "access_inv bc M access m0 s resp raw" and st: "se_stage s = SelectStage" and e: "se_explicit_le s = e"
    and step: "Selected_step bc M s resp = (s', Inr a)"
  shows "access_post bc M access m0 resp raw e s' a"
proof -
  from inv st obtain r0 where i: "se_target s = m0" "access \<noteq> Existing" "se_pin s = snd (access_parts access)"
    "resp = Some r0" "raw = [(command_select, r0)]"
    "se_management s = map_option ManagementMachine_new (fst (access_parts access))"
    by (auto simp: access_inv_def selecting_def)
  have ok: "rd_status r0 = 0x9000"
    using step st i by (auto simp: Selected_step_def ResponseData_ensure_success_def split: if_splits)
  show ?thesis
  proof (cases "fst (access_parts access)")
    case None
    then have "target_or_pin M s = (s', Inr a)"
      using step st i ok by (simp add: Selected_step_def ResponseData_ensure_success_def)
    then show ?thesis using i e ok None
      by (intro target_or_pin_post [where mt = "[]" and ?r0.0 = r0]) (auto simp: management_done_def)
  next
    case (Some auth)
    then have m: "Selected_management bc M (s\<lparr>se_stage := ManagementStage\<rparr>) None = (s', Inr a)"
      using step st i ok by (simp add: Selected_step_def ResponseData_ensure_success_def)
    then obtain c where c: "ManagementAuthentication_initial auth = Inr c" "a = Action.Command c"
      "s' = s\<lparr>se_stage := ManagementStage, se_management := Some \<lparr>mm_auth = auth, mm_stage = 1\<rparr>\<rparr>"
      using Some i(6)
      by (auto simp: Selected_management_def management_first split: prod.splits sum.splits Action.splits)
    have "authenticating bc access raw c" using c Some i ok by (auto simp: authenticating_def)
    moreover have "access_inv bc M access m0 s' (Some r) (raw @ [(c, r)])" for r
      using c Some i ok by (auto simp: access_inv_def selecting_def)
    ultimately show ?thesis using c e by (simp add: access_post_def access_action_def)
  qed
qed

lemma management_post:
  assumes inv: "access_inv bc M access m0 s resp raw" and st: "se_stage s = ManagementStage" and e: "se_explicit_le s = e"
    and step: "Selected_step bc M s resp = (s', Inr a)"
  shows "access_post bc M access m0 resp raw e s' a"
proof -
  have sm: "Selected_management bc M s resp = (s', Inr a)" using step st by (simp add: Selected_step_def)
  from inv st obtain r0 auth c1 r1 where i: "se_target s = m0" "access \<noteq> Existing" "se_pin s = snd (access_parts access)"
    "fst (access_parts access) = Some auth" "rd_status r0 = 0x9000" "ManagementAuthentication_initial auth = Inr c1"
    and "(resp = Some r1 \<and> raw = [(command_select, r0), (c1, r1)] \<and> se_management s = Some \<lparr>mm_auth = auth, mm_stage = 1\<rparr>)
      \<or> (\<exists>v c2 r2. resp = Some r2 \<and> raw = [(command_select, r0), (c1, r1), (c2, r2)]
          \<and> management_answer bc auth r1 = Inr v
          \<and> auth_command (mk_algorithm (ma_key auth)) (second_fields (ma_mode auth) v) = Inr c2
          \<and> se_management s = Some \<lparr>mm_auth = auth, mm_stage = 2\<rparr>)"
    unfolding access_inv_def selecting_def by auto
  from this(7) show ?thesis
  proof (elim disjE exE conjE)
    assume r: "resp = Some r1" "raw = [(command_select, r0), (c1, r1)]" "se_management s = Some \<lparr>mm_auth = auth, mm_stage = 1\<rparr>"
    then obtain v c where c: "management_answer bc auth r1 = Inr v" "a = Action.Command c"
      "auth_command (mk_algorithm (ma_key auth)) (second_fields (ma_mode auth) v) = Inr c"
      "s' = s\<lparr>se_management := Some \<lparr>mm_auth = auth, mm_stage = 2\<rparr>\<rparr>"
      using sm by (auto simp: Selected_management_def management_second [unfolded One_nat_def] split: prod.splits sum.splits Action.splits)
    have "authenticating bc access raw c" using c i r unfolding authenticating_def by auto
    moreover have "access_inv bc M access m0 s' (Some r) (raw @ [(c, r)])" for r
      using c i r st unfolding access_inv_def selecting_def by auto
    ultimately show ?thesis using c e by (simp add: access_post_def access_action_def)
  next
    fix v c2 r2
    assume r: "resp = Some r2" "raw = [(command_select, r0), (c1, r1), (c2, r2)]" "management_answer bc auth r1 = Inr v"
      "auth_command (mk_algorithm (ma_key auth)) (second_fields (ma_mode auth) v) = Inr c2"
      "se_management s = Some \<lparr>mm_auth = auth, mm_stage = 2\<rparr>"
    then have "target_or_pin M (s\<lparr>se_management := None\<rparr>) = (s', Inr a)" "management_finish bc auth r2 = Inr ()"
      using sm by (auto simp: Selected_management_def management_third split: prod.splits sum.splits Action.splits)
    then show ?thesis using i r e
      by (intro target_or_pin_post [where mt = "[(c1, r1), (c2, r2)]" and ?r0.0 = r0 and s = "s\<lparr>se_management := None\<rparr>"])
         (auto simp: management_done_def)
  qed
qed

lemma pin_post:
  assumes inv: "access_inv bc M access m0 s resp raw" and st: "se_stage s = PinStage" and e: "se_explicit_le s = e"
    and step: "Selected_step bc M s resp = (s', Inr a)"
  shows "access_post bc M access m0 resp raw e s' a"
proof -
  from inv st obtain r0 mt pin r where i: "se_target s = m0" "access \<noteq> Existing" "snd (access_parts access) = Some pin"
    "resp = Some r" "rd_status r0 = 0x9000" "management_done bc (fst (access_parts access)) mt"
    "raw = (command_select, r0) # mt @ [(command_verify_pin pin, r)]"
    by (auto simp: access_inv_def)
  have ok: "rd_status r = 0x9000" "rd_data r = []" "Selected_target M (s\<lparr>se_stage := TargetStage\<rparr>) None = (s', Inr a)"
    using step st i by (auto simp: Selected_step_def require_auth_def split: if_splits)
  have "authenticated bc access raw"
    using i ok by (auto simp: authenticated_def pin_verified_def)
  then show ?thesis using ok(3) i(1) e by (intro first_target_post)
qed

lemma access_step:
  assumes inv: "access_inv bc M access m0 s resp raw" and e: "se_explicit_le s = e"
    and step: "Selected_step bc M s resp = (s', Inr a)"
  shows "access_post bc M access m0 resp raw e s' a"
proof (cases "se_stage s")
  case TargetStage
  then obtain at ttr where "raw = at @ ttr" "authenticated bc access at" "trace_run M m0 (se_target s) resp ttr"
    using inv by (auto simp: access_inv_def)
  then show ?thesis using TargetStage step e
    by (intro target_post [where at = at and ttr = ttr]) (auto simp: Selected_step_def)
next
  case BeginStage
  from inv this e step show ?thesis by (rule begin_post)
next
  case SelectStage
  from inv this e step show ?thesis by (rule select_post)
next
  case ManagementStage
  from inv this e step show ?thesis by (rule management_post)
next
  case PinStage
  from inv this e step show ?thesis by (rule pin_post)
qed

lemma access_run:
  assumes "trace_run (Selected_ops bc M) (Selected_new profile access m0) s resp tr"
  shows "se_explicit_le s = legacy_explicit_le profile
    \<and> (\<exists>raw. tr = explicit_trace (legacy_explicit_le profile) raw \<and> access_inv bc M access m0 s resp raw)"
  using assms
proof (rule machine_run_invariant)
  show "se_explicit_le (Selected_new profile access m0) = legacy_explicit_le profile
    \<and> (\<exists>raw. [] = explicit_trace (legacy_explicit_le profile) raw
        \<and> access_inv bc M access m0 (Selected_new profile access m0) None raw)"
  proof (intro conjI exI [of _ "[]"])
    show "access_inv bc M access m0 (Selected_new profile access m0) None []"
      by (auto simp: access_inv_def Selected_new_def selecting_def authenticated_def intro: run_start)
  qed (simp_all add: Selected_new_def)
next
  fix s resp tr s' c r tr'
  assume inv: "se_explicit_le s = legacy_explicit_le profile
      \<and> (\<exists>raw. tr = explicit_trace (legacy_explicit_le profile) raw \<and> access_inv bc M access m0 s resp raw)"
    and nx: "m_next (Selected_ops bc M) s resp = (s', Inr (Action.Command c))" and tr': "trace_env tr c r tr'"
  then obtain raw where raw: "tr = explicit_trace (legacy_explicit_le profile) raw" "access_inv bc M access m0 s resp raw"
    by blast
  obtain a where a: "Selected_step bc M s resp = (s', Inr a)"
    "Action.Command c = explicit_le_action (se_explicit_le s') a"
    using nx by (auto simp: Selected_ops_def Selected_next_def bindE_eq_Inr split: prod.splits)
  then obtain c0 where c0: "a = Action.Command c0" by (cases a) auto
  have "access_post bc M access m0 resp raw (legacy_explicit_le profile) s' a"
    by (rule access_step [OF raw(2)]) (use inv a in auto)
  then show "se_explicit_le s' = legacy_explicit_le profile
      \<and> (\<exists>raw. tr' = explicit_trace (legacy_explicit_le profile) raw \<and> access_inv bc M access m0 s' (Some r) raw)"
    using a c0 raw tr' by (auto simp: access_post_def trace_env_def intro!: exI [of _ "raw @ [(c0, r)]"])
qed

section \<open>Preflight of read commands\<close>

text \<open>Read commands carry a correctable Le, so they fit every valid channel that takes their data.\<close>

lemma validate_read:
  assumes "valid_options opts" "length d \<le> max_input_bytes (limits opts)" "d = [] \<or> length d \<le> max_short opts"
  shows "validate_command (piv_read i a b d) opts = Inr ()"
proof -
  let ?c = "piv_read i a b d" and ?k = "min 256 (max_response_bytes (exchange opts) - 2)"
  have c: "lc_data ?c = d" "lc_le ?c = Exact 256" "\<not> lc_allow_extended ?c" "lc_continuation ?c = Iso7816 0" "lc_correct_le ?c"
    by (simp_all add: piv_read_def piv_cmd_def LogicalCommand_new_def)
  have m: "1 \<le> max_response_bytes (exchange opts) - 2" "5 \<le> max_command_bytes (exchange opts)"
    using assms(1) by (auto simp: valid_options_def OperationOptions_validate_def split: if_splits)
  have u: "unat (of_nat ?k :: 32 word) = ?k" by (simp add: unat_of_nat)
  have le: "channel_le ?c opts = Inr (Exact (of_nat ?k))"
  proof (cases "256 \<le> max_response_bytes (exchange opts) - 2")
    case True
    then have "?k = 256" by simp
    then show ?thesis using True by (simp add: channel_le_def c del: of_nat_diff)
  next
    case False
    then have "?k = max_response_bytes (exchange opts) - 2" by simp
    then show ?thesis using False unfolding channel_le_def by (simp only: c) (simp add: not_le)
  qed
  have nz: "(of_nat ?k :: 32 word) \<noteq> 0"
  proof
    assume "(of_nat ?k :: 32 word) = 0"
    then have "unat (of_nat ?k :: 32 word) = 0" by simp
    then show False using u m by simp
  qed
  have rng: "\<not> le_out_of_range (Exact (of_nat ?k)) 256" using u nz by simp
  have d: "length d < 256" using assms(3) by (auto simp: max_short_def)
  obtain f where f: "CommandApdu_encode (lc_header ?c) d (Exact (of_nat ?k)) ApduEncoding.Short = Inr f"
    using d rng by (auto simp: CommandApdu_encode_def Let_def)
  have fits: "length (ca_bytes f) \<le> max_command_bytes (exchange opts)"
    using f assms(3) m by (cases d) (auto simp: CommandApdu_encode_def header_bytes_def lc_field_def max_short_def Let_def split: if_splits)
  have "short_frames ?c (Exact (of_nat ?k)) opts = Inr [f]"
    using assms(3) c f u by (simp add: short_frames_def)
  then have "ConversationState_new ?c opts = Inr \<lparr>cs_pending = [], cs_current = f, cs_corrected = False,
      cs_correct_le = lc_correct_le ?c, cs_continuation = lc_continuation ?c,
      cs_continuing = False, cs_oath_poll = False, cs_data = []\<rparr>"
    using c assms(2) le fits by (simp add: ConversationState_new_def extended_frames_def)
  then show ?thesis using assms(1) by (simp add: validate_command_def valid_options_def)
qed

section \<open>Random numbers\<close>

lemma div_ceil_less:
  assumes "0 < b" "b * n < a"
  shows "n < div_ceil a b"
proof -
  have "n \<le> a div b" using assms by (metis less_imp_le_nat div_le_mono div_mult_self1_is_m)
  moreover have "n < a div b" if "a mod b = 0"
    using that assms by (metis mult_less_cancel1 mod_0_imp_dvd dvd_mult_div_cancel)
  ultimately show ?thesis by (auto simp: div_ceil_def)
qed

definition version_6 :: "ResponseData \<Rightarrow> bool" where
  "version_6 r \<longleftrightarrow> rd_status r = 0x9000 \<and> length (rd_data r) = 3 \<and> 6 \<le> rd_data r ! 0"

definition trace_data :: "trace \<Rightarrow> bytes" where
  "trace_data tr = concat (map (rd_data \<circ> snd) tr)"

definition random_inv :: "nat \<Rightarrow> nat \<Rightarrow> RandomMachine \<Rightarrow> ResponseData option \<Rightarrow> trace \<Rightarrow> bool" where
  "random_inv len chunk m resp tr \<longleftrightarrow>
     rm_chunk m = chunk \<and>
     (if \<not> rm_started m then tr = [] \<and> \<not> rm_version_read m \<and> rm_remaining m = len \<and> rm_bytes m = []
      else if \<not> rm_version_read m then
        (\<exists>r. resp = Some r \<and> tr = [(command_version, r)]) \<and> rm_remaining m = len \<and> rm_bytes m = []
      else \<exists>r0 mid r. resp = Some r \<and> tr = (command_version, r0) # mid @ [(random_command (rm_pending m), r)]
        \<and> version_6 r0 \<and> rm_bytes m = trace_data mid \<and> length (rm_bytes m) = chunk * length mid
        \<and> length (rm_bytes m) + rm_remaining m = len \<and> 0 < rm_remaining m \<and> rm_pending m = min (rm_remaining m) chunk)"

definition random_post :: "nat \<Rightarrow> nat \<Rightarrow> RandomMachine \<Rightarrow> trace \<Rightarrow> bytes Action \<Rightarrow> bool" where
  "random_post len chunk m' tr a =
     (case a of
        Action.Command c \<Rightarrow> length tr < div_ceil len chunk + 1
          \<and> (if tr = [] then c = command_version
             else version_6 (snd (hd tr)) \<and> (\<exists>n. 0 < n \<and> n \<le> chunk \<and> c = random_command n))
          \<and> (\<forall>r. random_inv len chunk m' (Some r) (tr @ [(c, r)]))
      | Action.Done bs \<Rightarrow> length bs = len \<and> bs = trace_data (tl tr) \<and> version_6 (snd (hd tr)))"

lemma random_issue:
  assumes "RandomMachine_issue m = (m', Inr a)" "rm_started m" "rm_version_read m" "rm_chunk m = chunk" "0 < chunk"
    "tr = (command_version, r0) # mid" "version_6 r0" "rm_bytes m = trace_data mid"
    "length (rm_bytes m) + rm_remaining m = len" "0 < rm_remaining m \<longrightarrow> length (rm_bytes m) = chunk * length mid"
  shows "random_post len chunk m' tr a"
proof (cases "rm_remaining m = 0")
  case True
  then show ?thesis using assms by (auto simp: RandomMachine_issue_def random_post_def)
next
  case False
  let ?n = "min (rm_remaining m) chunk"
  have a: "a = Action.Command (random_command ?n)" "m' = m\<lparr>rm_pending := ?n\<rparr>"
    using assms(1,4) False by (auto simp: RandomMachine_issue_def Let_def)
  have "length tr < div_ceil len chunk + 1"
    using assms(5,6,9,10) False div_ceil_less [of chunk "length mid" len] by simp
  moreover have "random_inv len chunk m' (Some r) (tr @ [(random_command ?n, r)])" for r
    using assms False a by (simp add: random_inv_def)
  moreover have "0 < ?n" "?n \<le> chunk" using assms(5) False by auto
  ultimately have "\<exists>n. 0 < n \<and> n \<le> chunk \<and> random_command ?n = random_command n"
    "length tr < div_ceil len chunk + 1" "\<forall>r. random_inv len chunk m' (Some r) (tr @ [(random_command ?n, r)])"
    by blast+
  then show ?thesis using assms(6,7) a by (simp add: random_post_def)
qed

lemma random_step:
  assumes inv: "random_inv len chunk m resp tr" and chunk: "0 < chunk" and step: "RandomMachine_next m resp = (m', Inr a)"
  shows "random_post len chunk m' tr a"
proof (cases "rm_started m")
  case False
  then show ?thesis using inv step
    by (auto simp: RandomMachine_next_def random_inv_def random_post_def)
next
  case started: True
  show ?thesis
  proof (cases "rm_version_read m")
    case False
    then obtain r where r: "resp = Some r" "tr = [(command_version, r)]" "rm_remaining m = len" "rm_bytes m = []"
      "rm_chunk m = chunk"
      using inv started by (auto simp: random_inv_def)
    then have "version_6 r" "RandomMachine_issue (m\<lparr>rm_version_read := True\<rparr>) = (m', Inr a)"
      using step started False
      by (auto simp: RandomMachine_next_def piv_version_def ResponseData_ensure_success_def version_6_def not_less
          split: if_splits)
    then show ?thesis using r started chunk
      by (intro random_issue [where mid = "[]" and ?r0.0 = r and m = "m\<lparr>rm_version_read := True\<rparr>"])
         (auto simp: trace_data_def)
  next
    case True
    then obtain r0 mid r where i: "resp = Some r" "tr = (command_version, r0) # mid @ [(random_command (rm_pending m), r)]"
      "version_6 r0" "rm_bytes m = trace_data mid" "length (rm_bytes m) = chunk * length mid"
      "length (rm_bytes m) + rm_remaining m = len" "0 < rm_remaining m" "rm_pending m = min (rm_remaining m) chunk"
      "rm_chunk m = chunk"
      using inv started by (auto simp: random_inv_def)
    let ?m = "m\<lparr>rm_bytes := rm_bytes m @ rd_data r, rm_remaining := rm_remaining m - rm_pending m\<rparr>"
    have len: "length (rd_data r) = rm_pending m" and nx: "RandomMachine_issue ?m = (m', Inr a)"
      using step started True i(1)
      by (auto simp: RandomMachine_next_def ResponseData_ensure_success_def split: if_splits)
    show ?thesis
      by (rule random_issue [OF nx, where mid = "mid @ [(random_command (rm_pending m), r)]" and ?r0.0 = r0])
         (use started True i chunk len in \<open>auto simp: trace_data_def\<close>)
  qed
qed

section \<open>Properties\<close>


definition piv_profile :: DeviceProfile where
  "piv_profile = profile_31\<lparr>dp_info := (dp_info profile_31)\<lparr>di_piv_version := Some [5, 7, 0]\<rparr>\<rparr>"

lemma piv_profile_simps [simp]:
  "base_of piv_profile = Some (3, 1, 0)" "supports piv_profile Piv" "\<not> legacy_explicit_le piv_profile"
proof -
  show b: "base_of piv_profile = Some (3, 1, 0)"
    by (simp add: piv_profile_def base_of_def profile_31_def profile_of_def compatibility_base_def)
  show "supports piv_profile Piv" by (simp add: supports_def capability_def piv_profile_def)
  show "\<not> legacy_explicit_le piv_profile"
    by (simp add: legacy_explicit_le_def firmware_range_def b recognized_def less_eq_prod_def)
qed

lemma short_piv_cmd [simp]:
  "short_command (piv_cmd i a b d le)" "lc_data (piv_cmd i a b d le) = d" "lc_le (piv_cmd i a b d le) = le"
  "lc_continuation (piv_cmd i a b d le) = Iso7816 0"
  by (simp_all add: piv_cmd_def) (simp_all add: LogicalCommand_new_def)

definition sample_piv_pin :: Pin where
  "sample_piv_pin = [0x31, 0x32, 0x33, 0x34, 0x35, 0x36]"

definition sample_object :: "bytes Sequence" where
  "sample_object = \<lparr>sq_pending = [piv_request command_version Phase.Command None], sq_current = None, sq_parse = Some (\<lambda>r. Inr (rd_data r))\<rparr>"

definition rd_success :: ResponseData where
  "rd_success = \<lparr>rd_data = [], rd_status = 0x9000\<rparr>"


text \<open>A request for random bytes is bounded and exact. Whatever the card answers, every command
was accepted for the channel, the exchange budget is never the reason to stop, and no random number
command is sent before the card reported version 6 or later; a completed operation returns exactly
as many bytes as requested, in the order the card sent them.\<close>

theorem piv_random_exact:
  assumes "random_selected len opts = Inr op" "op_machine op = Some m0"
    and "trace_run RandomMachine_ops m0 m resp tr" "m_next RandomMachine_ops m resp = (m', Inr a)"
  shows "case a of
      Action.Command c \<Rightarrow> validate_command c opts = Inr () \<and> length tr < max_exchanges (limits opts)
        \<and> (c = command_version \<and> tr = [] \<or> lc_data c = [] \<and> version_6 (snd (hd tr)))
    | Action.Done bs \<Rightarrow> length bs = len \<and> bs = trace_data (tl tr) \<and> version_6 (snd (hd tr))"
proof -
  let ?chunk = "min 256 (max_response_bytes (exchange opts) - 2)"
  have opts: "valid_options opts" and ex: "div_ceil len ?chunk + 1 \<le> max_exchanges (limits opts)"
    and m0: "m0 = \<lparr>rm_remaining = len, rm_chunk = ?chunk, rm_pending = 0, rm_version_read = False,
            rm_started = False, rm_bytes = []\<rparr>"
    using assms(1,2)
    by (auto simp: random_selected_def Operation_from_machine_def bindE_eq_Inr valid_options_def checked_add_def
        OperationOptions_validate_def Let_def split: if_splits)
  have chunk: "0 < ?chunk" using opts by (auto simp: valid_options_def OperationOptions_validate_def split: if_splits)
  have inv: "random_inv len ?chunk m resp tr"
    using assms(3)
  proof (rule machine_run_invariant)
    show "random_inv len ?chunk m0 None []" by (simp add: random_inv_def m0)
  next
    fix m resp tr m' c r tr'
    assume "random_inv len ?chunk m resp tr" "m_next RandomMachine_ops m resp = (m', Inr (Action.Command c))"
      "trace_env tr c r tr'"
    then show "random_inv len ?chunk m' (Some r) tr'"
      using random_step [of len ?chunk m resp tr m'] chunk
      by (auto simp: RandomMachine_ops_def plain_machine_def random_post_def trace_env_def)
  qed
  have post: "random_post len ?chunk m' tr a"
    by (rule random_step [OF inv chunk]) (use assms(4) in \<open>simp add: RandomMachine_ops_def plain_machine_def\<close>)
  have rnd: "validate_command (random_command n) opts = Inr ()" if "0 < n" "n \<le> ?chunk" for n
  proof -
    have u: "unat (of_nat n :: 32 word) = n" using that by (simp add: unat_of_nat)
    moreover have "(of_nat n :: 32 word) \<noteq> 0" using u that by (metis unat_0 less_numeral_extra(3))
    moreover have "random_command n = piv_cmd 0x84 0 0 [] (Exact (of_nat n))" by (simp add: random_command_def piv_cmd_def)
    ultimately show ?thesis using that opts by (simp add: validate_short_iff le_fits_def)
  qed
  have ver: "validate_command command_version opts = Inr ()"
    unfolding command_version_def by (rule validate_read [OF opts]) auto
  show ?thesis
  proof (cases a)
    case (Command c)
    then show ?thesis using post ex rnd ver
      by (auto simp: random_post_def random_command_def LogicalCommand_new_def split: if_splits)
  next
    case (Done bs)
    then show ?thesis using post by (auto simp: random_post_def)
  qed
qed

theorem piv_random_exact_witness:
  "\<exists>op m0 m resp tr m'. random_selected 2 OperationOptions_default = Inr op \<and> op_machine op = Some m0
     \<and> trace_run RandomMachine_ops m0 m resp tr
     \<and> m_next RandomMachine_ops m resp = (m', Inr (Action.Done [8, 9])) \<and> length [8, 9 :: byte] = 2
     \<and> [8, 9] = trace_data (tl tr)"
proof -
  let ?m0 = "\<lparr>rm_remaining = 2, rm_chunk = 256, rm_pending = 0, rm_version_read = False,
            rm_started = False, rm_bytes = []\<rparr> :: RandomMachine"
  let ?v = "\<lparr>rd_data = [6, 0, 0], rd_status = 0x9000\<rparr> :: ResponseData"
    and ?r = "\<lparr>rd_data = [8, 9], rd_status = 0x9000\<rparr> :: ResponseData"
  obtain op where op: "random_selected 2 OperationOptions_default = Inr op" "op_machine op = Some ?m0"
  proof -
    have "max_total_response_bytes (limits OperationOptions_default) = 1024 * 1024"
      by (simp add: OperationOptions_default_def OperationLimits_default_def)
    then show ?thesis
      using that
      by (auto simp: random_selected_def Operation_from_machine_def checked_add_def usize_max_def div_ceil_def Let_def)
  qed
  obtain m resp tr where rep: "replay RandomMachine_ops ?m0 None [?v, ?r] [] = (m, resp, tr)"
    by (metis prod_cases3)
  have run: "trace_run RandomMachine_ops ?m0 m resp tr" using rep by (rule replay_from_start)
  have "\<exists>m'. m_next RandomMachine_ops m resp = (m', Inr (Action.Done [8, 9]))"
    using rep
    by (auto simp: RandomMachine_ops_def plain_machine_def RandomMachine_next_def piv_version_def
        ResponseData_ensure_success_def RandomMachine_issue_def Let_def)
  then obtain m' where nx: "m_next RandomMachine_ops m resp = (m', Inr (Action.Done [8, 9]))" by blast
  have "[8, 9] = trace_data (tl tr)" using piv_random_exact [OF op run nx] by simp
  moreover have "length [8, 9 :: byte] = 2" by simp
  ultimately show ?thesis using op run nx by blast
qed

definition legacy_piv_profile :: DeviceProfile where
  "legacy_piv_profile =
     (profile_of 3 0 1)\<lparr>dp_info := (dp_info (profile_of 3 0 1))\<lparr>di_piv_version := Some [5, 4, 0]\<rparr>\<rparr>"

definition narrow_channel :: OperationOptions where
  "narrow_channel = OperationOptions_default\<lparr>exchange := ExchangeOptions_default\<lparr>max_response_bytes := 100\<rparr>\<rparr>"

text \<open>The preflight of \<open>with_access\<close> checks the commands without the explicit Le that legacy firmware
gets when they are sent. On such firmware and a channel that takes fewer than 258 response bytes the
construction of an operation succeeds although its first command cannot be encoded, and the
operation fails when it is started.\<close>

theorem piv_legacy_preflight_gap:
  "\<exists>op :: (bytes Sequence Selected, bytes) Operation.
     with_access legacy_piv_profile NoAccess sample_object narrow_channel = Inr op
     \<and> (\<exists>op'. Operation_start (Selected_ops bc Sequence_ops) op = (op', Inl (Error_new LimitExceeded)))"
proof -
  have b: "base_of legacy_piv_profile = Some (3, 0, 1)"
    by (simp add: legacy_piv_profile_def base_of_def profile_of_def compatibility_base_def)
  have sup: "supports legacy_piv_profile Piv"
    by (simp add: supports_def capability_def legacy_piv_profile_def)
  have le: "legacy_explicit_le legacy_piv_profile"
    by (simp add: legacy_explicit_le_def firmware_range_def b recognized_def less_eq_prod_def)
  have opts: "OperationOptions_validate narrow_channel = Inr narrow_channel" "valid_options narrow_channel"
    by (simp_all add: valid_options_def OperationOptions_validate_def narrow_channel_def OperationOptions_default_def
        ExchangeOptions_default_def OperationLimits_default_def)
  have v: "validate_command command_select narrow_channel = Inr ()"
    by (simp add: validate_short_iff command_select_def opts le_fits_def max_short_def)
       (simp add: narrow_channel_def OperationOptions_default_def OperationLimits_default_def ExchangeOptions_default_def)
  obtain op :: "(bytes Sequence Selected, bytes) Operation" where
    op: "with_access legacy_piv_profile NoAccess sample_object narrow_channel = Inr op"
      "op_machine op = Some (Selected_new legacy_piv_profile NoAccess sample_object)"
      "op_state op = Created" "op_options op = narrow_channel" "op_exchanges op = 0"
    using sup v opts by (auto simp: with_access_def require_eq_Inr bindE_eq_Inr Operation_from_machine_def)
  have "ConversationState_new (command_select\<lparr>lc_le := Exact 256\<rparr>) narrow_channel = Inl (Error_new LimitExceeded)"
    by (simp add: ConversationState_new_def command_select_def piv_cmd_def LogicalCommand_new_def channel_le_def
        narrow_channel_def OperationOptions_default_def OperationLimits_default_def ExchangeOptions_default_def)
  moreover have "m_next (Selected_ops bc Sequence_ops) (Selected_new legacy_piv_profile NoAccess sample_object) None
      = (Selected_new legacy_piv_profile NoAccess sample_object\<lparr>se_stage := SelectStage\<rparr>,
         Inr (Action.Command (command_select\<lparr>lc_le := Exact 256\<rparr>)))"
    using le by (simp add: Selected_ops_def Selected_next_def Selected_step_def Selected_new_def piv_explicit_le_def
        command_select_def)
  moreover have "0 < max_exchanges (limits narrow_channel)"
    by (simp add: narrow_channel_def OperationOptions_default_def OperationLimits_default_def)
  ultimately show ?thesis
    using op by (auto simp: Operation_start_def Operation_drive_def Operation_exchange_def Operation_record_def)
qed

end
