(* ===== verification/Key.thy ===== *)
theory Key
  imports Applet Tlv
begin

text \<open>
  Public key objects, \<open>canokey-key/src/lib.rs\<close>: the TLV fields the PIV and OpenPGP applets return
  for a public key, parsed with encoding and size checks, and their export as
  SubjectPublicKeyInfo. The ASN.1 encoders of the \<open>der\<close>, \<open>pkcs1\<close> and \<open>spki\<close> packages are
  the operations of the record \<open>Asn1\<close>, a parameter of \<open>to_spki_der\<close>.
\<close>

section \<open>Keys and their sizes\<close>

datatype PublicKey =
    Rsa (key_algorithm: Algorithm) (key_modulus: bytes) (key_exponent: bytes)
  | Ec (key_algorithm: Algorithm) (key_point: bytes)
  | Raw (key_algorithm: Algorithm) (key_bytes: bytes)

fun rsa_len :: "Algorithm \<Rightarrow> nat option" where
  "rsa_len Rsa1024 = Some 128"
| "rsa_len Rsa2048 = Some 256"
| "rsa_len Rsa3072 = Some 384"
| "rsa_len Rsa4096 = Some 512"
| "rsa_len _ = None"

fun curve_len :: "Algorithm \<Rightarrow> nat option" where
  "curve_len EccP256 = Some 32"
| "curve_len Secp256k1 = Some 32"
| "curve_len Sm2 = Some 32"
| "curve_len EccP384 = Some 48"
| "curve_len EccP521 = Some 66"
| "curve_len _ = None"

fun raw_len :: "Algorithm \<Rightarrow> nat option" where
  "raw_len Ed25519 = Some 32"
| "raw_len X25519 = Some 32"
| "raw_len MlDsa65 = Some 1952"
| "raw_len MlKem768 = Some 1184"
| "raw_len _ = None"

definition invalid_key :: Error where
  "invalid_key = Error_at (Error_new InvalidResponse) Phase.Parsing"

definition unsigned_bytes :: "bytes \<Rightarrow> bytes res" where
  "unsigned_bytes bs =
     (let rest = dropWhile (\<lambda>b. b = 0) bs in if rest = [] then Inl invalid_key else Inr rest)"

section \<open>Parsing\<close>

record KeyFields =
  kf_modulus :: "bytes option"
  kf_exponent :: "bytes option"
  kf_point :: "bytes option"

definition no_fields :: KeyFields where
  "no_fields = \<lparr>kf_modulus = None, kf_exponent = None, kf_point = None\<rparr>"

definition key_field :: "KeyFields \<Rightarrow> Tag \<times> bytes \<Rightarrow> KeyFields res" where
  "key_field s f =
     (if tag_value (fst f) = 0x81 \<and> kf_modulus s = None then Inr (s\<lparr>kf_modulus := Some (snd f)\<rparr>)
      else if tag_value (fst f) = 0x82 \<and> kf_exponent s = None then Inr (s\<lparr>kf_exponent := Some (snd f)\<rparr>)
      else if tag_value (fst f) = 0x86 \<and> kf_point s = None then Inr (s\<lparr>kf_point := Some (snd f)\<rparr>)
      else Inl invalid_key)"

definition rsa_key :: "Algorithm \<Rightarrow> nat \<Rightarrow> KeyFields \<Rightarrow> PublicKey res" where
  "rsa_key algorithm len s =
     (if kf_point s \<noteq> None then Inl invalid_key
      else bindE (bindE (ok_or (kf_modulus s) invalid_key) unsigned_bytes) (\<lambda>modulus.
           bindE (bindE (ok_or (kf_exponent s) invalid_key) unsigned_bytes) (\<lambda>exponent.
             if length modulus \<noteq> len \<or> length exponent > len then Inl invalid_key
             else Inr (Rsa algorithm modulus exponent))))"

definition point_key :: "Algorithm \<Rightarrow> KeyFields \<Rightarrow> PublicKey res" where
  "point_key algorithm s =
     (if kf_modulus s \<noteq> None \<or> kf_exponent s \<noteq> None then Inl invalid_key
      else bindE (ok_or (kf_point s) invalid_key) (\<lambda>point.
        case curve_len algorithm of
          Some len \<Rightarrow>
            if length point \<noteq> 1 + len * 2 \<or> point ! 0 \<noteq> 4 then Inl invalid_key
            else Inr (Ec algorithm point)
        | None \<Rightarrow>
            if Some (length point) = raw_len algorithm then Inr (Raw algorithm point)
            else Inl invalid_key))"

definition key_limits :: "nat \<Rightarrow> TlvLimits" where
  "key_limits max_bytes = TlvLimits_default\<lparr>max_value_bytes := max_bytes\<rparr>"

definition from_tlv :: "Algorithm \<Rightarrow> bytes \<Rightarrow> nat \<Rightarrow> PublicKey res" where
  "from_tlv algorithm bs max_bytes =
     (if length bs > max_bytes then Inl (Error_new LimitExceeded)
      else bindE (tlv_loop (\<lambda>s f. key_field s (f_tag f, f_value f)) (TlvReader_new bs (key_limits max_bytes)) no_fields) (\<lambda>s.
        case rsa_len algorithm of
          Some len \<Rightarrow> rsa_key algorithm len s
        | None \<Rightarrow> point_key algorithm s))"

section \<open>Export\<close>

text \<open>The operations of the ASN.1 packages that \<open>to_spki_der\<close> calls; \<open>None\<close> is their error.\<close>

record ('oid, 'any, 'uint, 'bits) Asn1 =
  oid_new :: "string \<Rightarrow> 'oid option"
  any_null :: 'any
  any_encode_from :: "'oid \<Rightarrow> 'any option"
  uint_new :: "bytes \<Rightarrow> 'uint option"
  rsa_to_der :: "'uint \<Rightarrow> 'uint \<Rightarrow> bytes option"
  bits_from_bytes :: "bytes \<Rightarrow> 'bits option"
  spki_to_der :: "'oid \<Rightarrow> 'any option \<Rightarrow> 'bits \<Rightarrow> bytes option"

definition bad_key :: Error where
  "bad_key = Error_new InvalidArgument"

definition oid_of :: "('o, 'a, 'u, 'b) Asn1 \<Rightarrow> string \<Rightarrow> 'o res" where
  "oid_of D s = ok_or (oid_new D s) bad_key"

fun curve_oid :: "Algorithm \<Rightarrow> string option" where
  "curve_oid EccP256 = Some ''1.2.840.10045.3.1.7''"
| "curve_oid EccP384 = Some ''1.3.132.0.34''"
| "curve_oid EccP521 = Some ''1.3.132.0.35''"
| "curve_oid Secp256k1 = Some ''1.3.132.0.10''"
| "curve_oid Sm2 = Some ''1.2.156.10197.1.301''"
| "curve_oid _ = None"

fun raw_oid :: "Algorithm \<Rightarrow> string option" where
  "raw_oid Ed25519 = Some ''1.3.101.112''"
| "raw_oid X25519 = Some ''1.3.101.110''"
| "raw_oid MlDsa65 = Some ''2.16.840.1.101.3.4.3.18''"
| "raw_oid MlKem768 = Some ''2.16.840.1.101.3.4.4.2''"
| "raw_oid _ = None"

fun spki_parts :: "('o, 'a, 'u, 'b) Asn1 \<Rightarrow> PublicKey \<Rightarrow> ('o \<times> 'a option \<times> bytes) res" where
  "spki_parts D (Rsa algorithm modulus exponent) =
     (if rsa_len algorithm \<noteq> Some (length modulus) \<or> exponent = [] \<or> length exponent > length modulus
         \<or> get_at modulus 0 = Some 0 \<or> get_at exponent 0 = Some 0 then Inl bad_key
      else bindE (ok_or (uint_new D modulus) bad_key) (\<lambda>n.
           bindE (ok_or (uint_new D exponent) bad_key) (\<lambda>e.
           bindE (oid_of D ''1.2.840.113549.1.1.1'') (\<lambda>oid.
           bindE (ok_or (rsa_to_der D n e) bad_key) (\<lambda>der.
             Inr (oid, Some (any_null D), der))))))"
| "spki_parts D (Ec algorithm point) =
     (if (case curve_len algorithm of None \<Rightarrow> True | Some n \<Rightarrow> length point \<noteq> 1 + 2 * n)
         \<or> get_at point 0 \<noteq> Some 4 then Inl bad_key
      else bindE (ok_or (curve_oid algorithm) bad_key) (\<lambda>curve.
           bindE (oid_of D ''1.2.840.10045.2.1'') (\<lambda>oid.
           bindE (oid_of D curve) (\<lambda>c.
           bindE (ok_or (any_encode_from D c) bad_key) (\<lambda>parameters.
             Inr (oid, Some parameters, point))))))"
| "spki_parts D (Raw algorithm bs) =
     (if raw_len algorithm \<noteq> Some (length bs) then Inl bad_key
      else bindE (ok_or (raw_oid algorithm) bad_key) (\<lambda>i.
           bindE (oid_of D i) (\<lambda>oid. Inr (oid, None, bs))))"

definition to_spki_der :: "('o, 'a, 'u, 'b) Asn1 \<Rightarrow> PublicKey \<Rightarrow> bytes res" where
  "to_spki_der D k =
     bindE (spki_parts D k) (\<lambda>(oid, parameters, bs).
     bindE (ok_or (bits_from_bytes D bs) bad_key) (\<lambda>bits.
       ok_or (spki_to_der D oid parameters bits) bad_key))"

section \<open>What is accepted\<close>

text \<open>The sizes and leading bytes of a well-formed key object.\<close>

fun key_ok :: "PublicKey \<Rightarrow> bool" where
  "key_ok (Rsa a n e) \<longleftrightarrow>
     rsa_len a = Some (length n) \<and> e \<noteq> [] \<and> length e \<le> length n \<and> hd n \<noteq> 0 \<and> hd e \<noteq> 0"
| "key_ok (Ec a p) \<longleftrightarrow> (\<exists>len. curve_len a = Some len \<and> length p = 1 + 2 * len) \<and> hd p = 4"
| "key_ok (Raw a p) \<longleftrightarrow> raw_len a = Some (length p)"

text \<open>
  The field lists that carry a key: the two RSA components in either order, each possibly padded
  with leading zero bytes, or the point or raw encoding alone.
\<close>

fun carries :: "(Tag \<times> bytes) list \<Rightarrow> PublicKey \<Rightarrow> bool" where
  "carries fs (Rsa a n e) \<longleftrightarrow>
     (\<exists>i j t u. tag_value t = 0x81 \<and> tag_value u = 0x82
        \<and> (fs = [(t, replicate i 0 @ n), (u, replicate j 0 @ e)]
           \<or> fs = [(u, replicate j 0 @ e), (t, replicate i 0 @ n)]))"
| "carries fs (Ec a p) \<longleftrightarrow> (\<exists>t. tag_value t = 0x86 \<and> fs = [(t, p)])"
| "carries fs (Raw a p) \<longleftrightarrow> (\<exists>t. tag_value t = 0x86 \<and> fs = [(t, p)])"

lemma unsigned_bytes_iff:
  "unsigned_bytes bs = Inr x \<longleftrightarrow> x \<noteq> [] \<and> hd x \<noteq> 0 \<and> (\<exists>i. bs = replicate i 0 @ x)"
proof
  assume "unsigned_bytes bs = Inr x"
  then have x: "x = dropWhile (\<lambda>b. b = 0) bs" "x \<noteq> []"
    by (auto simp: unsigned_bytes_def Let_def split: if_splits)
  have "takeWhile (\<lambda>b. b = 0) bs = replicate (length (takeWhile (\<lambda>b. b = 0) bs)) 0"
    by (rule replicate_length_same [symmetric]) (auto dest: set_takeWhileD)
  then have "bs = replicate (length (takeWhile (\<lambda>b. b = 0) bs)) 0 @ x"
    using x(1) takeWhile_dropWhile_id by metis
  then show "x \<noteq> [] \<and> hd x \<noteq> 0 \<and> (\<exists>i. bs = replicate i 0 @ x)"
    using x hd_dropWhile by blast
next
  assume "x \<noteq> [] \<and> hd x \<noteq> 0 \<and> (\<exists>i. bs = replicate i 0 @ x)"
  then obtain i where x: "x \<noteq> []" "hd x \<noteq> 0" "bs = replicate i 0 @ x" by blast
  then have "dropWhile (\<lambda>b. b = 0) bs = dropWhile (\<lambda>b. b = 0) x" by (simp add: dropWhile_append)
  also have "\<dots> = x" using x by (cases x) auto
  finally show "unsigned_bytes bs = Inr x" using x(1) by (simp add: unsigned_bytes_def)
qed

text \<open>Every field the loop accepts fills an empty slot, so the filled slots count the fields.\<close>

definition filled :: "KeyFields \<Rightarrow> nat" where
  "filled s = (if kf_modulus s = None then 0 else 1) + (if kf_exponent s = None then 0 else 1)
     + (if kf_point s = None then 0 else 1)"

lemma key_field_filled: "key_field s f = Inr s' \<Longrightarrow> filled s' = Suc (filled s)"
  by (auto simp: key_field_def filled_def split: if_splits)

lemma key_fields_filled: "foldE key_field s fs = Inr s' \<Longrightarrow> filled s' = filled s + length fs"
  by (induction fs arbitrary: s) (auto simp: bindE_eq_Inr dest!: key_field_filled)

lemma filled_none [simp]: "filled no_fields = 0"
  by (simp add: filled_def no_fields_def)

lemma rsa_fields:
  "foldE key_field no_fields fs = Inr \<lparr>kf_modulus = Some n, kf_exponent = Some e, kf_point = None\<rparr> \<longleftrightarrow>
    (\<exists>t u. tag_value t = 0x81 \<and> tag_value u = 0x82 \<and> (fs = [(t, n), (u, e)] \<or> fs = [(u, e), (t, n)]))"
    (is "?l \<longleftrightarrow> ?r")
proof
  assume l: ?l
  then have "length fs = 2" using key_fields_filled [OF l] by (simp add: filled_def [of "\<lparr>kf_modulus = _, kf_exponent = _, kf_point = _\<rparr>"])
  then obtain t x u y where "fs = [(t, x), (u, y)]" by (auto simp: length_Suc_conv numeral_2_eq_2)
  with l show ?r
    by (force simp: bindE_eq_Inr key_field_def no_fields_def split: if_splits)
qed (auto simp: key_field_def no_fields_def)

lemma point_fields:
  "foldE key_field no_fields fs = Inr \<lparr>kf_modulus = None, kf_exponent = None, kf_point = Some p\<rparr> \<longleftrightarrow>
    (\<exists>t. tag_value t = 0x86 \<and> fs = [(t, p)])"
    (is "?l \<longleftrightarrow> ?r")
proof
  assume l: ?l
  then have "length fs = 1" using key_fields_filled [OF l] by (simp add: filled_def [of "\<lparr>kf_modulus = _, kf_exponent = _, kf_point = _\<rparr>"])
  then obtain t x where "fs = [(t, x)]" by (auto simp: length_Suc_conv)
  with l show ?r
    by (force simp: bindE_eq_Inr key_field_def no_fields_def split: if_splits)
qed (auto simp: key_field_def no_fields_def)

lemma rsa_key_iff:
  "rsa_key a len s = Inr k \<longleftrightarrow>
    (\<exists>n e i j. k = Rsa a n e \<and> length n = len \<and> length e \<le> len \<and> n \<noteq> [] \<and> e \<noteq> [] \<and> hd n \<noteq> 0 \<and> hd e \<noteq> 0
      \<and> s = \<lparr>kf_modulus = Some (replicate i 0 @ n), kf_exponent = Some (replicate j 0 @ e), kf_point = None\<rparr>)"
proof -
  have "rsa_key a len s = Inr k \<longleftrightarrow> (\<exists>m n u e. s = \<lparr>kf_modulus = Some m, kf_exponent = Some u, kf_point = None\<rparr>
      \<and> unsigned_bytes m = Inr n \<and> unsigned_bytes u = Inr e \<and> length n = len \<and> length e \<le> len \<and> k = Rsa a n e)"
    by (cases s; cases "kf_modulus s"; cases "kf_exponent s")
       (auto simp: rsa_key_def bindE_eq_Inr not_less split: if_splits)
  then show ?thesis unfolding unsigned_bytes_iff by blast
qed

lemma point_key_iff:
  "point_key a s = Inr k \<longleftrightarrow>
    (\<exists>p. s = \<lparr>kf_modulus = None, kf_exponent = None, kf_point = Some p\<rparr>
      \<and> (case curve_len a of Some len \<Rightarrow> length p = 1 + len * 2 \<and> hd p = 4 \<and> k = Ec a p
         | None \<Rightarrow> raw_len a = Some (length p) \<and> k = Raw a p))"
proof -
  obtain m e q where s: "s = \<lparr>kf_modulus = m, kf_exponent = e, kf_point = q\<rparr>" by (cases s)
  show ?thesis
  proof (cases q)
    case None
    then show ?thesis by (simp add: s point_key_def)
  next
    case (Some p)
    then show ?thesis
      by (cases p) (auto simp: s point_key_def split: option.split)
  qed
qed

text \<open>The size tables separate the three kinds of key.\<close>

lemma size_tables:
  "rsa_len a = Some n \<Longrightarrow> curve_len a = None \<and> raw_len a = None \<and> 0 < n"
  "curve_len a = Some n \<Longrightarrow> rsa_len a = None \<and> raw_len a = None"
  by (cases a; simp)+

lemma from_tlv_fold:
  "from_tlv a bs mx = Inr k \<longleftrightarrow>
    length bs \<le> mx \<and> (\<exists>fs s. list_all (field_ok (key_limits mx)) fs \<and> bs = tlv_encode fs
      \<and> foldE key_field no_fields fs = Inr s
      \<and> (case rsa_len a of Some len \<Rightarrow> rsa_key a len s = Inr k | None \<Rightarrow> point_key a s = Inr k))"
proof -
  have "from_tlv a bs mx = Inr k \<longleftrightarrow> length bs \<le> mx
      \<and> (\<exists>s. tlv_loop (\<lambda>s f. key_field s (f_tag f, f_value f)) (TlvReader_new bs (key_limits mx)) no_fields = Inr s
      \<and> (case rsa_len a of Some len \<Rightarrow> rsa_key a len s = Inr k | None \<Rightarrow> point_key a s = Inr k))"
    by (simp add: from_tlv_def bindE_eq_Inr not_less split: option.split)
  then show ?thesis unfolding tlv_loop_iff [OF refl] by blast
qed

lemma carries_fold:
  "(\<exists>s. foldE key_field no_fields fs = Inr s
      \<and> (case rsa_len a of Some len \<Rightarrow> rsa_key a len s = Inr k | None \<Rightarrow> point_key a s = Inr k))
    \<longleftrightarrow> key_algorithm k = a \<and> key_ok k \<and> carries fs k"
proof (cases "rsa_len a")
  case (Some len)
  have "(\<exists>s. foldE key_field no_fields fs = Inr s \<and> rsa_key a len s = Inr k) \<longleftrightarrow>
    (\<exists>n e i j. k = Rsa a n e \<and> length n = len \<and> length e \<le> len \<and> n \<noteq> [] \<and> e \<noteq> [] \<and> hd n \<noteq> 0 \<and> hd e \<noteq> 0
      \<and> (\<exists>t u. tag_value t = 0x81 \<and> tag_value u = 0x82 \<and> (fs = [(t, replicate i 0 @ n), (u, replicate j 0 @ e)]
           \<or> fs = [(u, replicate j 0 @ e), (t, replicate i 0 @ n)])))"
    unfolding rsa_key_iff rsa_fields [symmetric] by blast
  also have "\<dots> \<longleftrightarrow> key_algorithm k = a \<and> key_ok k \<and> carries fs k"
  proof (cases k)
    case (Rsa b n e)
    have "n \<noteq> []" if "length n = len" using that size_tables(1) [OF Some] by auto
    with Rsa Some show ?thesis by auto
  qed (use Some size_tables [of a] in auto)
  finally show ?thesis using Some by simp
next
  case None
  have "(\<exists>s. foldE key_field no_fields fs = Inr s \<and> point_key a s = Inr k) \<longleftrightarrow>
    (\<exists>p. (\<exists>t. tag_value t = 0x86 \<and> fs = [(t, p)])
      \<and> (case curve_len a of Some len \<Rightarrow> length p = 1 + len * 2 \<and> hd p = 4 \<and> k = Ec a p
         | None \<Rightarrow> raw_len a = Some (length p) \<and> k = Raw a p))"
    unfolding point_key_iff point_fields [symmetric] by blast
  also have "\<dots> \<longleftrightarrow> key_algorithm k = a \<and> key_ok k \<and> carries fs k"
    using None size_tables(2) [of a] by (cases k; cases "curve_len a") auto
  finally show ?thesis using None by simp
qed

text \<open>The ASN.1 packages encode every value they are documented to encode.\<close>

definition asn1_total :: "('o, 'a, 'u, 'b) Asn1 \<Rightarrow> bool" where
  "asn1_total D \<longleftrightarrow>
     (\<forall>s. oid_new D s \<noteq> None) \<and> (\<forall>x. any_encode_from D x \<noteq> None) \<and> (\<forall>b. uint_new D b \<noteq> None)
     \<and> (\<forall>n e. rsa_to_der D n e \<noteq> None) \<and> (\<forall>b. bits_from_bytes D b \<noteq> None)
     \<and> (\<forall>x y z. spki_to_der D x y z \<noteq> None)"

lemma curve_oid_len: "curve_len a = Some n \<Longrightarrow> \<exists>s. curve_oid a = Some s"
  by (cases a) auto

lemma raw_oid_len: "raw_len a = Some n \<Longrightarrow> \<exists>s. raw_oid a = Some s"
  by (cases a) auto

lemma first_byte: "get_at bs 0 = (if bs = [] then None else Some (hd bs))"
  by (cases bs) (auto simp: get_at_def)

lemma spki_parts_ok:
  assumes "asn1_total D"
  shows "(\<exists>x. spki_parts D k = Inr x) \<longleftrightarrow> key_ok k"
proof -
  from assms have D: "\<exists>o'. oid_of D s = Inr o'" "\<exists>y. any_encode_from D x = Some y" "\<exists>u. uint_new D b = Some u"
    "\<exists>d. rsa_to_der D n e = Some d" for s x b n e
    by (auto simp: asn1_total_def oid_of_def ok_or_eq_Inr)
  show ?thesis
  proof (cases k)
    case (Rsa a n e)
    have "\<exists>n' e' i d. uint_new D n = Some n' \<and> uint_new D e = Some e'
        \<and> oid_of D ''1.2.840.113549.1.1.1'' = Inr i \<and> rsa_to_der D n' e' = Some d"
      using D(1) [of "''1.2.840.113549.1.1.1''"] D(3) [of n] D(3) [of e] D(4) by blast
    then show ?thesis using Rsa size_tables(1) [of a] by (auto simp: first_byte)
  next
    case (Ec a p)
    show ?thesis
    proof (cases "curve_len a")
      case None
      then show ?thesis using Ec by simp
    next
      case (Some len)
      then obtain c where c: "curve_oid a = Some c" using curve_oid_len by blast
      obtain i j y where "oid_of D ''1.2.840.10045.2.1'' = Inr i" "oid_of D c = Inr j" "any_encode_from D j = Some y"
        using D(1) [of "''1.2.840.10045.2.1''"] D(1) [of c] D(2) by blast
      then show ?thesis using Ec Some c by (cases p) (auto simp: first_byte)
    qed
  next
    case (Raw a p)
    show ?thesis
    proof (cases "raw_len a")
      case (Some n)
      then obtain c where c: "raw_oid a = Some c" using raw_oid_len by blast
      obtain i where "oid_of D c = Inr i" using D(1) by blast
      then show ?thesis using Raw Some c by simp
    qed (simp add: Raw)
  qed
qed

lemma to_spki_der_ok:
  assumes "asn1_total D"
  shows "(\<exists>der. to_spki_der D k = Inr der) \<longleftrightarrow> key_ok k"
proof -
  have "(\<exists>der. to_spki_der D k = Inr der) \<longleftrightarrow> (\<exists>x. spki_parts D k = Inr x)"
    using assms by (fastforce simp: to_spki_der_def asn1_total_def bindE_eq_Inr ok_or_eq_Inr)
  then show ?thesis using spki_parts_ok [OF assms] by simp
qed

section \<open>Properties\<close>


definition sample_asn1 :: "(string, bytes, bytes, bytes) Asn1" where
  "sample_asn1 =
     \<lparr>oid_new = Some, any_null = [5, 0], any_encode_from = (\<lambda>s. Some (map of_char s)), uint_new = Some,
      rsa_to_der = (\<lambda>n e. Some (n @ e)), bits_from_bytes = Some, spki_to_der = (\<lambda>oid p b. Some b)\<rparr>"


end
