(* ===== verification/Piv_Objects.thy ===== *)
theory Piv_Objects
  imports Piv_Core Key
begin

text \<open>
  PIV data objects: reading and unwrapping (\<open>lib.rs\<close>), certificate containers
  (\<open>certificate.rs\<close>, where the gzip decoder of a package is the parameter \<open>gz\<close>: the chunks its
  reads return, then either an error or the input left behind), key and credential metadata
  (\<open>metadata.rs\<close>), the compact directory (\<open>directory.rs\<close>) and authenticated writes
  (\<open>write.rs\<close>).
\<close>

section \<open>Reading objects\<close>

definition invalid_parsing :: Error where
  "invalid_parsing = Error_at (Error_new InvalidResponse) Phase.Parsing"

definition value_limits :: "nat \<Rightarrow> TlvLimits" where
  "value_limits n = TlvLimits_default\<lparr>max_value_bytes := n\<rparr>"

definition legacy_unwrapped :: "ObjectId \<Rightarrow> bytes \<Rightarrow> bool" where
  "legacy_unwrapped i d \<longleftrightarrow>
     (tag_value i = 0x5fc102 \<and> get_at d 0 = Some 0x30) \<or> (tag_value i = 0x5fc107 \<and> get_at d 0 = Some 0xf0)"

definition parse_object ::
  "bool \<Rightarrow> nat \<Rightarrow> ObjectId \<Rightarrow> bool \<Rightarrow> (bytes \<Rightarrow> 't res) \<Rightarrow> ResponseData \<Rightarrow> 't res" where
  "parse_object legacy limit i preserve_container parse r =
     bindE (ResponseData_ensure_success r Phase.Command) (\<lambda>_.
       if legacy \<and> legacy_unwrapped i (rd_data r) then parse (rd_data r)
       else bindE (TlvReader_next (TlvReader_new (rd_data r) (value_limits limit))) (\<lambda>(tlv, reader).
         bindE (ok_or tlv invalid_parsing) (\<lambda>tlv.
         bindE (if tag_value (f_tag tlv) \<noteq> (if tag_value i = 0x7e then 0x7e else 0x53) then Inl invalid_parsing
                else bindE (TlvReader_next reader) (\<lambda>(extra, _). ensureE (extra = None) invalid_parsing)) (\<lambda>_.
           parse (if preserve_container then rd_data r else f_value tlv)))))"

definition prepare_read_object_format ::
  "DeviceProfile \<Rightarrow> ObjectId \<Rightarrow> OperationOptions \<Rightarrow> bool \<Rightarrow> (bytes \<Rightarrow> 't res) \<Rightarrow> 't Sequence res" where
  "prepare_read_object_format profile i opts preserve_container parse =
     bindE (require profile Piv) (\<lambda>_.
       piv_prepare (command_get_data i) opts
         (parse_object (legacy_unwrapped_objects profile) (max_total_response_bytes (limits opts)) i
            preserve_container parse))"

definition prepare_read_object_with ::
  "DeviceProfile \<Rightarrow> ObjectId \<Rightarrow> OperationOptions \<Rightarrow> (bytes \<Rightarrow> 't res) \<Rightarrow> 't Sequence res" where
  "prepare_read_object_with profile i opts parse = prepare_read_object_format profile i opts False parse"

definition read_object_with ::
  "DeviceProfile \<Rightarrow> ObjectId \<Rightarrow> Access \<Rightarrow> OperationOptions \<Rightarrow> (bytes \<Rightarrow> 't res)
   \<Rightarrow> ('t Sequence Selected, 't) Operation res" where
  "read_object_with profile i access opts parse =
     bindE (prepare_read_object_with profile i opts parse) (\<lambda>target. with_access profile access target opts)"

definition read_object ::
  "DeviceProfile \<Rightarrow> ObjectId \<Rightarrow> Access \<Rightarrow> OperationOptions \<Rightarrow> (bytes Sequence Selected, bytes) Operation res" where
  "read_object profile i access opts = read_object_with profile i access opts Inr"

definition read_object_container ::
  "DeviceProfile \<Rightarrow> ObjectId \<Rightarrow> Access \<Rightarrow> OperationOptions \<Rightarrow> (bytes Sequence Selected, bytes) Operation res" where
  "read_object_container profile i access opts =
     bindE (prepare_read_object_format profile i opts True Inr) (\<lambda>s. with_access profile access s opts)"

section \<open>Certificates\<close>

record Certificate =
  ce_der :: bytes
  ce_compressed :: bool

record CertificateFields =
  cf_certificate :: "bytes option"
  cf_info :: "byte option"
  cf_lrc :: bool

definition certificate_field :: "CertificateFields \<Rightarrow> Tag \<times> bytes \<Rightarrow> CertificateFields res" where
  "certificate_field s f =
     (if tag_value (fst f) = 0x70 \<and> cf_certificate s = None then Inr (s\<lparr>cf_certificate := Some (snd f)\<rparr>)
      else if tag_value (fst f) = 0x71 \<and> cf_info s = None \<and> length (snd f) = 1
      then Inr (s\<lparr>cf_info := Some (snd f ! 0)\<rparr>)
      else if tag_value (fst f) = 0xfe \<and> \<not> cf_lrc s \<and> snd f = [] then Inr (s\<lparr>cf_lrc := True\<rparr>)
      else Inl invalid_parsing)"

definition limit_parsing :: Error where
  "limit_parsing = Error_at (Error_new LimitExceeded) Phase.Parsing"

type_synonym gunzip = "bytes \<Rightarrow> bytes list \<times> bytes option"

fun gunzip_loop :: "nat \<Rightarrow> bytes \<Rightarrow> bytes list \<Rightarrow> bytes res" where
  "gunzip_loop max_bytes out [] = Inr out"
| "gunzip_loop max_bytes out (chunk # rest) =
     (if length chunk > max_bytes - length out then Inl limit_parsing
      else gunzip_loop max_bytes (out @ chunk) rest)"

definition gunzip_bounded :: "gunzip \<Rightarrow> nat \<Rightarrow> bytes \<Rightarrow> bytes res" where
  "gunzip_bounded gz max_bytes bs =
     (case gz bs of
        (reads, fin) \<Rightarrow>
          bindE (gunzip_loop max_bytes [] reads) (\<lambda>out.
          bindE (ok_or fin invalid_parsing) (\<lambda>rest.
            if rest \<noteq> [] \<or> out = [] then Inl invalid_parsing else Inr out)))"

definition Certificate_from_object :: "gunzip \<Rightarrow> bytes \<Rightarrow> nat \<Rightarrow> Certificate res" where
  "Certificate_from_object gz d max_bytes =
     (if length d > max_bytes then Inl limit_parsing
      else bindE (tlv_loop (\<lambda>s f. certificate_field s (f_tag f, f_value f)) (TlvReader_new d (value_limits max_bytes))
                    \<lparr>cf_certificate = None, cf_info = None, cf_lrc = False\<rparr>) (\<lambda>s.
        bindE (case cf_certificate s of
                 Some v \<Rightarrow> if v = [] then Inl invalid_parsing else Inr v
               | None \<Rightarrow> Inl invalid_parsing) (\<lambda>bs.
        let info = (case cf_info s of None \<Rightarrow> 0 | Some i \<Rightarrow> i) in
        if info = 0 then Inr \<lparr>ce_der = bs, ce_compressed = False\<rparr>
        else if info = 1 then
          bindE (gunzip_bounded gz max_bytes bs) (\<lambda>der. Inr \<lparr>ce_der = der, ce_compressed = True\<rparr>)
        else Inl (Error_at (Error_new UnsupportedProtocolVersion) Phase.Parsing))))"

definition read_certificate ::
  "gunzip \<Rightarrow> DeviceProfile \<Rightarrow> Slot \<Rightarrow> Access \<Rightarrow> OperationOptions
   \<Rightarrow> (Certificate Sequence Selected, Certificate) Operation res" where
  "read_certificate gz profile slot access opts =
     bindE (ObjectId_certificate slot) (\<lambda>i.
       read_object_with profile i access opts (\<lambda>d.
         Certificate_from_object gz d (max_total_response_bytes (limits opts))))"

section \<open>Metadata\<close>

datatype 'a KnownOrUnknown = Known 'a | UnknownByte byte

datatype PinPolicy = PinDefault | PinNever | PinOnce | PinAlways

datatype TouchPolicy = TouchDefault | TouchNever | TouchAlways | TouchCached

datatype KeyOrigin = NotPresent | Generated | Imported

datatype MetadataReference = KeyReference Slot | PinReference | PukReference | ManagementReference

fun MetadataReference_reference :: "MetadataReference \<Rightarrow> byte" where
  "MetadataReference_reference (KeyReference slot) = Slot_reference slot"
| "MetadataReference_reference PinReference = 0x80"
| "MetadataReference_reference PukReference = 0x81"
| "MetadataReference_reference ManagementReference = 0x9b"

definition command_metadata :: "MetadataReference \<Rightarrow> LogicalCommand" where
  "command_metadata ref = piv_read 0xf7 0 (MetadataReference_reference ref) []"

record MetadataFields =
  mf_raw :: bytes
  mf_algorithm_id :: "byte option"
  mf_pin_policy :: "PinPolicy KnownOrUnknown option"
  mf_touch_policy :: "TouchPolicy KnownOrUnknown option"
  mf_origin :: "KeyOrigin KnownOrUnknown option"
  mf_is_default :: "bool KnownOrUnknown option"
  mf_retries :: "(byte \<times> byte) option"
  mf_public_key_tlv :: "bytes option"
  mf_public_key :: "PublicKey option"
  mf_unknown_fields :: "(Tag \<times> bytes) list"

datatype Metadata =
    KeyMetadata Slot MetadataFields
  | PinMetadata MetadataFields
  | PukMetadata MetadataFields
  | ManagementMetadata MetadataFields

fun Metadata_fields :: "Metadata \<Rightarrow> MetadataFields" where
  "Metadata_fields (KeyMetadata _ fs) = fs"
| "Metadata_fields (PinMetadata fs) = fs"
| "Metadata_fields (PukMetadata fs) = fs"
| "Metadata_fields (ManagementMetadata fs) = fs"

fun PinPolicy_wire :: "PinPolicy \<Rightarrow> byte" where
  "PinPolicy_wire PinDefault = 0"
| "PinPolicy_wire PinNever = 1"
| "PinPolicy_wire PinOnce = 2"
| "PinPolicy_wire PinAlways = 3"

fun TouchPolicy_wire :: "TouchPolicy \<Rightarrow> byte" where
  "TouchPolicy_wire TouchDefault = 0"
| "TouchPolicy_wire TouchNever = 1"
| "TouchPolicy_wire TouchAlways = 2"
| "TouchPolicy_wire TouchCached = 3"

definition pin_policy :: "byte \<Rightarrow> PinPolicy KnownOrUnknown" where
  "pin_policy v =
     (if v = 0 then Known PinDefault else if v = 1 then Known PinNever else if v = 2 then Known PinOnce
      else if v = 3 then Known PinAlways else UnknownByte v)"

definition touch_policy :: "byte \<Rightarrow> TouchPolicy KnownOrUnknown" where
  "touch_policy v =
     (if v = 0 then Known TouchDefault else if v = 1 then Known TouchNever else if v = 2 then Known TouchAlways
      else if v = 3 then Known TouchCached else UnknownByte v)"

definition key_origin :: "byte \<Rightarrow> KeyOrigin KnownOrUnknown" where
  "key_origin v =
     (if v = 0 then Known NotPresent else if v = 1 then Known Generated else if v = 2 then Known Imported
      else UnknownByte v)"

definition default_flag :: "byte \<Rightarrow> bool KnownOrUnknown" where
  "default_flag v = (if v = 0 then Known False else if v = 1 then Known True else UnknownByte v)"

definition no_metadata :: MetadataFields where
  "no_metadata =
     \<lparr>mf_raw = [], mf_algorithm_id = None, mf_pin_policy = None, mf_touch_policy = None, mf_origin = None,
      mf_is_default = None, mf_retries = None, mf_public_key_tlv = None, mf_public_key = None,
      mf_unknown_fields = []\<rparr>"

text \<open>The array \<open>seen\<close> is the list of the known tags read so far.\<close>

definition metadata_field ::
  "32 word list \<times> MetadataFields \<Rightarrow> Tag \<times> bytes \<Rightarrow> (32 word list \<times> MetadataFields) res" where
  "metadata_field s f =
     (let (seen, fs) = s; t = tag_value (fst f); v = snd f;
          expected = (if t = 2 \<or> t = 6 then 2 else if t = 4 then length v else 1) in
      if 1 \<le> t \<and> t \<le> 6 \<and> (t \<in> set seen \<or> length v \<noteq> expected) then Inl invalid_parsing
      else
        let seen' = (if 1 \<le> t \<and> t \<le> 6 then t # seen else seen) in
        Inr (seen',
             if t = 1 then fs\<lparr>mf_algorithm_id := Some (v ! 0)\<rparr>
             else if t = 2 then fs\<lparr>mf_pin_policy := Some (pin_policy (v ! 0)), mf_touch_policy := Some (touch_policy (v ! 1))\<rparr>
             else if t = 3 then fs\<lparr>mf_origin := Some (key_origin (v ! 0))\<rparr>
             else if t = 4 then fs\<lparr>mf_public_key_tlv := Some v\<rparr>
             else if t = 5 then fs\<lparr>mf_is_default := Some (default_flag (v ! 0))\<rparr>
             else if t = 6 then fs\<lparr>mf_retries := Some (v ! 0, v ! 1)\<rparr>
             else fs\<lparr>mf_unknown_fields := mf_unknown_fields fs @ [f]\<rparr>))"

fun is_key_reference :: "MetadataReference \<Rightarrow> bool" where
  "is_key_reference (KeyReference _) = True"
| "is_key_reference _ = False"

fun wrap_metadata :: "MetadataReference \<Rightarrow> MetadataFields \<Rightarrow> Metadata" where
  "wrap_metadata (KeyReference slot) fs = KeyMetadata slot fs"
| "wrap_metadata PinReference fs = PinMetadata fs"
| "wrap_metadata PukReference fs = PukMetadata fs"
| "wrap_metadata ManagementReference fs = ManagementMetadata fs"

definition metadata_key :: "DeviceProfile \<Rightarrow> MetadataReference \<Rightarrow> MetadataFields \<Rightarrow> nat \<Rightarrow> PublicKey option res" where
  "metadata_key profile ref fs limit =
     (if is_key_reference ref then
        (case (mf_algorithm_id fs, mf_public_key_tlv fs) of
           (Some i, Some bs) \<Rightarrow>
             (case algorithm_from_wire_id profile i of
                Some a \<Rightarrow> bindE (from_tlv a bs limit) (\<lambda>k. Inr (Some k))
              | None \<Rightarrow> Inr None)
         | _ \<Rightarrow> Inr None)
      else Inr None)"

definition metadata_decode :: "DeviceProfile \<Rightarrow> MetadataReference \<Rightarrow> bytes \<Rightarrow> nat \<Rightarrow> Metadata res" where
  "metadata_decode profile ref d limit =
     bindE (tlv_loop (\<lambda>s f. metadata_field s (f_tag f, f_value f)) (TlvReader_new d (value_limits limit))
              ([], no_metadata)) (\<lambda>(_, fs).
       if d = [] then Inl invalid_parsing
       else bindE (metadata_key profile ref fs limit) (\<lambda>k.
         Inr (wrap_metadata ref (fs\<lparr>mf_public_key := k, mf_raw := d\<rparr>))))"

definition prepare_get_metadata ::
  "DeviceProfile \<Rightarrow> MetadataReference \<Rightarrow> OperationOptions \<Rightarrow> Metadata Sequence res" where
  "prepare_get_metadata profile ref opts =
     bindE (require profile Piv) (\<lambda>_.
     bindE (require profile Capability.Metadata) (\<lambda>_.
     bindE (case ref of
              KeyReference slot \<Rightarrow> CapabilityStatus_require (piv_slot_support profile (Slot_reference slot))
            | _ \<Rightarrow> Inr ()) (\<lambda>_.
       piv_prepare (command_metadata ref) opts (\<lambda>r.
         if legacy_empty_key_metadata profile \<and> is_key_reference ref \<and> rd_status r = 0x6900
         then Inl ((Error_status (rd_status r) Phase.Command None)\<lparr>e_kind := NotFound\<rparr>)
         else bindE (ResponseData_ensure_success r Phase.Command) (\<lambda>_.
           metadata_decode profile ref (rd_data r) (max_total_response_bytes (limits opts)))))))"

definition get_metadata ::
  "DeviceProfile \<Rightarrow> MetadataReference \<Rightarrow> Access \<Rightarrow> OperationOptions
   \<Rightarrow> (Metadata Sequence Selected, Metadata) Operation res" where
  "get_metadata profile ref access opts =
     bindE (prepare_get_metadata profile ref opts) (\<lambda>target. with_access profile access target opts)"

definition prepare_read_algorithm_config ::
  "DeviceProfile \<Rightarrow> OperationOptions \<Rightarrow> AlgorithmConfig Sequence res" where
  "prepare_read_algorithm_config profile opts =
     bindE (CapabilityStatus_require (algorithm_config_read_support profile)) (\<lambda>_.
       piv_prepare command_algorithm_config opts (\<lambda>r.
         bindE (ResponseData_ensure_success r Phase.Command) (\<lambda>_. AlgorithmConfig_parse (rd_data r))))"

definition read_algorithm_config ::
  "DeviceProfile \<Rightarrow> Access \<Rightarrow> OperationOptions
   \<Rightarrow> (AlgorithmConfig Sequence Selected, AlgorithmConfig) Operation res" where
  "read_algorithm_config profile access opts =
     bindE (prepare_read_algorithm_config profile opts) (\<lambda>target.
       if supports profile PivProtectedAlgorithmConfigRead
          \<and> (case access of NoAccess \<Rightarrow> True | PinAccess _ \<Rightarrow> True | _ \<Rightarrow> False)
       then Inl (Error_new SecurityStatusNotSatisfied)
       else with_access profile access target opts)"

section \<open>Directory\<close>

datatype DirectoryIssue = UnknownSlot | DuplicateSlot | EmptyFlags | UnknownFlags | KeyFieldsWithoutKey

record DirectoryEntry =
  de_reference :: byte
  de_flags :: byte
  de_key_fields :: bytes
  de_algorithm :: "Algorithm option"
  de_issues :: "DirectoryIssue list"

definition de_has_key :: "DirectoryEntry \<Rightarrow> bool" where
  "de_has_key e \<longleftrightarrow> de_flags e AND 1 \<noteq> 0"

definition de_has_certificate :: "DirectoryEntry \<Rightarrow> bool" where
  "de_has_certificate e \<longleftrightarrow> de_flags e AND 2 \<noteq> 0"

record MetadataDirectory =
  md_raw :: bytes
  md_version :: byte
  md_entries :: "DirectoryEntry list option"

definition ordinary_slot :: "byte \<Rightarrow> bool" where
  "ordinary_slot r \<longleftrightarrow> r \<in> {0x9a, 0x9c, 0x9d, 0x9e} \<or> (0x82 \<le> r \<and> r \<le> 0x95)"

definition directory_entry :: "DeviceProfile \<Rightarrow> byte list \<Rightarrow> bytes \<Rightarrow> DirectoryEntry" where
  "directory_entry profile seen item =
     (let ref = item ! 0; flags = item ! 1 in
      \<lparr>de_reference = ref, de_flags = flags, de_key_fields = [item ! 2, item ! 3, item ! 4, item ! 5],
       de_algorithm = (if flags AND 1 \<noteq> 0 then algorithm_from_wire_id profile (item ! 2) else None),
       de_issues =
         (if \<not> ordinary_slot ref then [UnknownSlot] else [])
         @ (if ref \<in> set seen then [DuplicateSlot] else [])
         @ (if flags = 0 then [EmptyFlags] else [])
         @ (if flags AND NOT 3 \<noteq> 0 then [UnknownFlags] else [])
         @ (if flags AND 1 = 0 \<and> (\<exists>b\<in>set (drop 2 item). b \<noteq> 0) then [KeyFieldsWithoutKey] else [])\<rparr>)"

text \<open>\<open>chunks_exact(6)\<close>: a short rest is left out.\<close>

fun directory_entries :: "DeviceProfile \<Rightarrow> byte list \<Rightarrow> bytes \<Rightarrow> DirectoryEntry list" where
  "directory_entries profile seen (a # b # c # d # e # f # rest) =
     directory_entry profile seen [a, b, c, d, e, f] # directory_entries profile (a # seen) rest"
| "directory_entries profile seen _ = []"

definition MetadataDirectory_parse :: "DeviceProfile \<Rightarrow> bytes \<Rightarrow> nat \<Rightarrow> MetadataDirectory res" where
  "MetadataDirectory_parse profile d limit =
     (if length d > limit then Inl (Error_new LimitExceeded)
      else if length d < 5 \<or> take 2 d \<noteq> [1, 1] \<or> d ! 3 \<noteq> 2 \<or> length d \<noteq> 5 + unat (d ! 4) then Inl invalid_parsing
      else if d ! 2 = 1 then
        (if unat (d ! 4) mod 6 \<noteq> 0 \<or> d ! 4 > 144 then Inl invalid_parsing
         else Inr \<lparr>md_raw = d, md_version = d ! 2, md_entries = Some (directory_entries profile [] (drop 5 d))\<rparr>)
      else Inr \<lparr>md_raw = d, md_version = d ! 2, md_entries = None\<rparr>)"

definition prepare_directory :: "DeviceProfile \<Rightarrow> OperationOptions \<Rightarrow> MetadataDirectory Sequence res" where
  "prepare_directory profile opts =
     bindE (require profile Capability.MetadataDirectory) (\<lambda>_.
       piv_prepare (piv_read 0xf7 1 0 []) opts (\<lambda>r.
         bindE (ResponseData_ensure_success r Phase.Command) (\<lambda>_.
           MetadataDirectory_parse profile (rd_data r) (max_total_response_bytes (limits opts)))))"

definition read_metadata_directory ::
  "DeviceProfile \<Rightarrow> Access \<Rightarrow> OperationOptions
   \<Rightarrow> (MetadataDirectory Sequence Selected, MetadataDirectory) Operation res" where
  "read_metadata_directory profile access opts =
     bindE (prepare_directory profile opts) (\<lambda>target. with_access profile access target opts)"

section \<open>Writes\<close>

datatype ManagementTouchPolicy = ManagementTouchNever | ManagementTouchAlways

definition piv_mutation :: "ResponseData \<Rightarrow> MutationResult res" where
  "piv_mutation r =
     bindE (ResponseData_ensure_success r Phase.Command) (\<lambda>_.
       if rd_data r \<noteq> [] then Inl invalid_parsing else Inr unchanged)"

definition require_management :: "Access \<Rightarrow> unit res" where
  "require_management access =
     (case access of NoAccess \<Rightarrow> Inl (Error_new InvalidArgument) | PinAccess _ \<Rightarrow> Inl (Error_new InvalidArgument)
      | _ \<Rightarrow> Inr ())"

definition put_command :: "DeviceProfile \<Rightarrow> ObjectId \<Rightarrow> bytes \<Rightarrow> OperationOptions \<Rightarrow> LogicalCommand res" where
  "put_command profile i d opts =
     bindE (require profile Piv) (\<lambda>_.
     bindE (require profile ObjectWrites) (\<lambda>_.
     bindE (OperationOptions_validate opts) (\<lambda>_.
     bindE (push_fields (TlvWriter_new (max_input_bytes (limits opts))) [(0x5c, ObjectId_as_bytes i), (0x53, d)]) (\<lambda>w.
       let c = (LogicalCommand_new (ApduHeader_new 0 0xdb 0x3f 0xff) [] Absent)
                 \<lparr>lc_data := w_bytes w, lc_allow_chaining := supports profile ObjectWriteChaining\<rparr> in
       if lc_allow_chaining c \<and> max_command_bytes (exchange opts) - 6 < length (ObjectId_as_bytes i) + 2
       then Inl (Error_new LimitExceeded) else Inr c))))"

definition prepare_write_object ::
  "DeviceProfile \<Rightarrow> ObjectId \<Rightarrow> bytes \<Rightarrow> OperationOptions \<Rightarrow> MutationResult Sequence res" where
  "prepare_write_object profile i d opts =
     bindE (put_command profile i d opts) (\<lambda>c. piv_prepare c opts piv_mutation)"

definition write_object ::
  "DeviceProfile \<Rightarrow> ObjectId \<Rightarrow> bytes \<Rightarrow> Access \<Rightarrow> OperationOptions
   \<Rightarrow> (MutationResult Sequence Selected, MutationResult) Operation res" where
  "write_object profile i d access opts =
     bindE (require_management access) (\<lambda>_.
     bindE (prepare_write_object profile i d opts) (\<lambda>target. with_access profile access target opts))"

definition prepare_write_certificate ::
  "DeviceProfile \<Rightarrow> Slot \<Rightarrow> bytes \<Rightarrow> OperationOptions \<Rightarrow> MutationResult Sequence res" where
  "prepare_write_certificate profile slot der opts =
     (if der = [] then Inl (Error_new InvalidArgument)
      else bindE (case slot of Retired _ \<Rightarrow> require profile RetiredSlots | _ \<Rightarrow> Inr ()) (\<lambda>_.
        bindE (push_fields (TlvWriter_new (max_input_bytes (limits opts))) [(0x70, der), (0x71, [0]), (0xfe, [])]) (\<lambda>w.
        bindE (ObjectId_certificate slot) (\<lambda>i.
          prepare_write_object profile i (w_bytes w) opts))))"

definition write_certificate ::
  "DeviceProfile \<Rightarrow> Slot \<Rightarrow> bytes \<Rightarrow> Access \<Rightarrow> OperationOptions
   \<Rightarrow> (MutationResult Sequence Selected, MutationResult) Operation res" where
  "write_certificate profile slot der access opts =
     bindE (require_management access) (\<lambda>_.
     bindE (prepare_write_certificate profile slot der opts) (\<lambda>target. with_access profile access target opts))"

definition prepare_delete_certificate ::
  "DeviceProfile \<Rightarrow> Slot \<Rightarrow> OperationOptions \<Rightarrow> MutationResult Sequence res" where
  "prepare_delete_certificate profile slot opts =
     bindE (require profile CertificateDeletion) (\<lambda>_.
     bindE (ObjectId_certificate slot) (\<lambda>i. prepare_write_object profile i [] opts))"

definition delete_certificate ::
  "DeviceProfile \<Rightarrow> Slot \<Rightarrow> Access \<Rightarrow> OperationOptions
   \<Rightarrow> (MutationResult Sequence Selected, MutationResult) Operation res" where
  "delete_certificate profile slot access opts =
     bindE (require_management access) (\<lambda>_.
     bindE (prepare_delete_certificate profile slot opts) (\<lambda>target. with_access profile access target opts))"

definition write_object_container ::
  "DeviceProfile \<Rightarrow> ObjectId \<Rightarrow> bytes \<Rightarrow> Access \<Rightarrow> OperationOptions
   \<Rightarrow> (MutationResult Sequence Selected, MutationResult) Operation res" where
  "write_object_container profile i container access opts =
     bindE (require_management access) (\<lambda>_.
       if length container > max_input_bytes (limits opts) then Inl (Error_new LimitExceeded)
       else bindE (TlvReader_next (TlvReader_new container (value_limits (max_input_bytes (limits opts))))) (\<lambda>(v, reader).
         bindE (ok_or v (Error_new InvalidArgument)) (\<lambda>v.
         bindE (if tag_value (f_tag v) \<noteq> 0x53 then Inl (Error_new InvalidArgument)
                else bindE (TlvReader_next reader) (\<lambda>(extra, _). ensureE (extra = None) (Error_new InvalidArgument))) (\<lambda>_.
         bindE (prepare_write_object profile i (f_value v) opts) (\<lambda>target.
           with_access profile access target opts)))))"

section \<open>Object identifiers\<close>

fun slot_ok :: "Slot \<Rightarrow> bool" where
  "slot_ok (Retired n) \<longleftrightarrow> 1 \<le> n \<and> n \<le> 20"
| "slot_ok _ \<longleftrightarrow> True"

lemma low_byte:
  fixes b :: byte
  assumes "b < 128"
  shows "b AND 128 = 0"
proof -
  have "drop_bit 7 b = 0"
    using assms by (simp add: word_unat_eq_iff drop_bit_eq_div unat_div word_less_nat_alt)
  then have "\<not> bit b 7" by (simp add: bit_iff_odd_drop_bit)
  then have "b AND 2 ^ 7 = 0" by (simp only: and_exp_eq_0_iff_not_bit not_False_eq_True)
  then show ?thesis by simp
qed

lemma certificate_number_range:
  assumes "slot_ok slot"
  shows "certificate_number slot < 33 \<and> certificate_number slot \<noteq> 2 \<and> certificate_number slot \<noteq> 7"
proof (cases slot)
  case (Retired n)
  with assms have n: "1 \<le> unat n" "unat n \<le> 20" by (auto simp: word_le_nat_alt)
  then have "unat (12 + n) = 12 + unat n" by (simp add: unat_word_ariths)
  then show ?thesis using Retired n by (auto simp: word_less_nat_alt word_unat_eq_iff)
qed simp_all

lemma certificate_object:
  assumes "slot_ok slot"
  obtains i where "ObjectId_certificate slot = Inr i" "ObjectId_as_bytes i = [0x5f, 0xc1, certificate_number slot]"
    "Tag_wf i" "tag_len i = 3"
proof -
  let ?b = "certificate_number slot" and ?bs = "[0x5f, 0xc1, certificate_number slot]"
  have b: "?b AND 128 = 0"
    using certificate_number_range [OF assms] by (intro low_byte) (auto intro: less_trans)
  have "tag_loop ?bs 1 = Inr 3"
    by (simp add: tag_loop.simps [of _ 1] tag_loop.simps [of _ "Suc 0"] tag_loop.simps [of _ 2]
        tag_loop.simps [of _ "Suc (Suc 0)"] get_at_def b)
  then have "Tag_from_bytes ?bs = Inr \<lparr>tag_value = from_be ?bs, tag_len = 3\<rparr>"
    by (simp add: Tag_from_bytes_def parse_tag_def get_at_def)
  with Tag_from_bytes_InrD [OF this] that show ?thesis
    by (simp add: ObjectId_certificate_def ObjectId_as_bytes_def)
qed

text \<open>A certificate object is none of the two that legacy firmware returns without container.\<close>

lemma certificate_not_legacy:
  assumes "slot_ok slot" "ObjectId_certificate slot = Inr i"
  shows "\<not> legacy_unwrapped i d" "tag_value i \<noteq> 0x7e"
proof -
  obtain j where j: "ObjectId_certificate slot = Inr j"
    "ObjectId_as_bytes j = [0x5f, 0xc1, certificate_number slot]" "tag_len j = 3"
    using certificate_object [OF assms(1)] by metis
  then have b: "drop 1 (to_be_bytes 4 (tag_value i)) = [0x5f, 0xc1, certificate_number slot]"
    using assms(2) by (simp add: ObjectId_as_bytes_def Tag_to_bytes_def)
  have "tag_value i \<noteq> 0x5fc102" "tag_value i \<noteq> 0x5fc107" "tag_value i \<noteq> 0x7e"
    using b certificate_number_range [OF assms(1)] by (auto simp: to_be_bytes_numeral)
  then show "\<not> legacy_unwrapped i d" "tag_value i \<noteq> 0x7e" by (simp_all add: legacy_unwrapped_def)
qed

section \<open>Writing and reading back\<close>

text \<open>One-byte tags used by the writers.\<close>

definition short_tag :: "byte \<Rightarrow> Tag" where
  "short_tag b = \<lparr>tag_value = ucast b, tag_len = 1\<rparr>"

definition one_byte_tag :: "byte \<Rightarrow> bool" where
  "one_byte_tag b \<longleftrightarrow> b \<noteq> 0 \<and> b AND 31 \<noteq> 31"

lemma short_tags:
  assumes "one_byte_tag b"
  shows "Tag_from_bytes [b] = Inr (short_tag b)" "Tag_wf (short_tag b)" "tag_value (short_tag b) = ucast b"
proof -
  show "Tag_from_bytes [b] = Inr (short_tag b)"
    using assms by (auto simp: one_byte_tag_def Tag_from_bytes_def parse_tag_def get_at_def from_be_def short_tag_def)
  then show "Tag_wf (short_tag b)" by (rule Tag_from_bytes_InrD)
qed (simp add: short_tag_def)

lemma push_fields_encode:
  assumes "push_fields w fs = Inr w'" "list_all (one_byte_tag \<circ> fst) fs"
  shows "w_bytes w' = w_bytes w @ tlv_encode (map (map_prod short_tag id) fs)
    \<and> (\<forall>(t, v)\<in>set fs. length v < 2 ^ 32)"
proof -
  have "push_all w (map (map_prod short_tag id) fs) = Inr w'"
    using assms by (induction w fs rule: push_fields.induct) (auto simp: bindE_eq_Inr short_tags)
  from push_all_InrD [OF this] show ?thesis by (auto simp: case_prod_beta)
qed

text \<open>
  A card's object store: PUT DATA stores the container under its identifier and GET DATA returns
  it; the identifier is the value of a \<open>5C\<close> field.
\<close>

type_synonym object_store = "bytes \<Rightarrow> bytes option"

definition card_limits :: TlvLimits where
  "card_limits = \<lparr>max_value_bytes = 2 ^ 32, max_depth = 4\<rparr>"

definition put_data :: "object_store \<Rightarrow> bytes \<Rightarrow> object_store option" where
  "put_data store d =
     (case tlv_collect (TlvReader_new d card_limits) of
        Inr [(t, name), (u, v)] \<Rightarrow>
          if t = short_tag 0x5c \<and> u = short_tag 0x53 then Some (store(name \<mapsto> tlv_field u v)) else None
      | _ \<Rightarrow> None)"

definition get_data :: "object_store \<Rightarrow> bytes \<Rightarrow> bytes option" where
  "get_data store d =
     (case tlv_collect (TlvReader_new d card_limits) of
        Inr [(t, name)] \<Rightarrow> if t = short_tag 0x5c then store name else None
      | _ \<Rightarrow> None)"

definition object_card :: "object_store \<Rightarrow> LogicalCommand \<Rightarrow> ResponseData \<times> object_store" where
  "object_card store c =
     (if ins (lc_header c) = 0xdb then
        (case put_data store (lc_data c) of
           Some store' \<Rightarrow> (\<lparr>rd_data = [], rd_status = 0x9000\<rparr>, store')
         | None \<Rightarrow> (\<lparr>rd_data = [], rd_status = 0x6a80\<rparr>, store))
      else if ins (lc_header c) = 0xcb then
        (case get_data store (lc_data c) of
           Some d \<Rightarrow> (\<lparr>rd_data = d, rd_status = 0x9000\<rparr>, store)
         | None \<Rightarrow> (\<lparr>rd_data = [], rd_status = 0x6a82\<rparr>, store))
      else (\<lparr>rd_data = [], rd_status = 0x6d00\<rparr>, store))"

lemma put_data_encode:
  assumes "length name < 2 ^ 32" "length v < 2 ^ 32"
  shows "put_data store (tlv_encode [(short_tag 0x5c, name), (short_tag 0x53, v)])
    = Some (store(name \<mapsto> tlv_field (short_tag 0x53) v))"
proof -
  have "tlv_collect (TlvReader_new (tlv_encode [(short_tag 0x5c, name), (short_tag 0x53, v)]) card_limits)
      = Inr [(short_tag 0x5c, name), (short_tag 0x53, v)]"
    unfolding tlv_collect_def
    by (rule collect_encode) (use assms in \<open>simp add: field_ok_def card_limits_def short_tags one_byte_tag_def\<close>)
  then show ?thesis by (simp add: put_data_def)
qed

lemma get_data_command:
  assumes "length (ObjectId_as_bytes i) < 128"
  shows "get_data store (lc_data (command_get_data i)) = store (ObjectId_as_bytes i)"
proof -
  let ?n = "ObjectId_as_bytes i"
  have "Tag_to_bytes (short_tag 0x5c) = [0x5c]"
    by (simp add: short_tag_def Tag_to_bytes_def to_be_bytes_numeral)
  then have "lc_data (command_get_data i) = tlv_encode [(short_tag 0x5c, ?n)]"
    using assms
    by (simp add: command_get_data_def piv_read_def piv_cmd_def LogicalCommand_new_def Let_def tlv_encode_def tlv_field_def
        length_prefix_def)
  moreover have "tlv_collect (TlvReader_new (tlv_encode [(short_tag 0x5c, ?n)]) card_limits) = Inr [(short_tag 0x5c, ?n)]"
    unfolding tlv_collect_def
    by (rule collect_encode) (use assms in \<open>simp add: field_ok_def card_limits_def short_tags one_byte_tag_def\<close>)
  ultimately show ?thesis by (simp add: get_data_def)
qed

lemma object_card_get:
  assumes "length (ObjectId_as_bytes i) < 128" "store (ObjectId_as_bytes i) = Some d"
  shows "object_card store (command_get_data i) = (\<lparr>rd_data = d, rd_status = 0x9000\<rparr>, store)"
proof -
  have "ins (lc_header (command_get_data i)) = 0xcb"
    by (simp add: command_get_data_def piv_read_def piv_cmd_def LogicalCommand_new_def ApduHeader_new_def Let_def)
  then show ?thesis using assms by (simp add: object_card_def get_data_command)
qed

text \<open>One exchange of a prepared sequence.\<close>

lemma prepared_exec:
  assumes "piv_prepare c opts parse = Inr s" "dev st c = (r, st')" "parse r = Inr t"
  shows "\<exists>s' resp. machine_exec 2 Sequence_ops dev s None st = Some (s', resp, st', Inr (Action.Done t))"
proof -
  have s: "s = \<lparr>sq_pending = [piv_request c Phase.Command None], sq_current = None, sq_parse = Some parse\<rparr>"
    using assms(1) by (auto simp: piv_prepare_def bindE_eq_Inr)
  show ?thesis
    using assms(2,3)
    by (simp add: s numeral_2_eq_2 Sequence_ops_def plain_machine_def Sequence_next_def Sequence_pop_def piv_request_def)
qed

lemma parse_object_container:
  assumes "\<not> legacy_unwrapped i (tlv_field (short_tag 0x53) v)" "tag_value i \<noteq> 0x7e"
    "length v < 2 ^ 32" "length v \<le> limit"
  shows "parse_object legacy limit i False parse \<lparr>rd_data = tlv_field (short_tag 0x53) v, rd_status = 0x9000\<rparr> = parse v"
proof -
  let ?d = "tlv_field (short_tag 0x53) v"
  have "TlvReader_next (TlvReader_new ?d (value_limits limit)) =
      Inr (Some \<lparr>f_tag = short_tag 0x53, f_value = v, f_depth = 1, f_limits = value_limits limit,
                 f_minimal_lengths = True\<rparr>, TlvReader_new [] (value_limits limit))"
    using TlvReader_next_field [of "TlvReader_new ?d (value_limits limit)" "short_tag 0x53" v "[]"] assms(3,4)
    by (simp add: short_tags one_byte_tag_def value_limits_def TlvLimits_default_def)
  moreover have "TlvReader_next (TlvReader_new [] (value_limits limit)) = Inr (None, TlvReader_new [] (value_limits limit))"
    by (simp add: TlvReader_next_def)
  ultimately show ?thesis
    using assms(1,2) by (simp add: parse_object_def ResponseData_ensure_success_def short_tags one_byte_tag_def)
qed

lemma certificate_container:
  assumes "der \<noteq> []" "length der < 2 ^ 32" "length (tlv_encode [(short_tag 0x70, der), (short_tag 0x71, [0]), (short_tag 0xfe, [])]) \<le> limit"
  shows "Certificate_from_object gz (tlv_encode [(short_tag 0x70, der), (short_tag 0x71, [0]), (short_tag 0xfe, [])]) limit
    = Inr \<lparr>ce_der = der, ce_compressed = False\<rparr>"
proof -
  let ?fs = "[(short_tag 0x70, der), (short_tag 0x71, [0]), (short_tag 0xfe, [])]"
  have "length der \<le> limit" using assms(3) by (simp add: tlv_encode_def tlv_field_def)
  moreover have "1 \<le> limit" using assms(3) by (simp add: tlv_encode_def tlv_field_def)
  ultimately have "list_all (field_ok (value_limits limit)) ?fs"
    using assms(2) by (simp add: field_ok_def short_tags one_byte_tag_def value_limits_def TlvLimits_default_def)
  moreover have "foldE certificate_field \<lparr>cf_certificate = None, cf_info = None, cf_lrc = False\<rparr> ?fs
      = Inr \<lparr>cf_certificate = Some der, cf_info = Some 0, cf_lrc = True\<rparr>"
    by (simp add: certificate_field_def short_tags one_byte_tag_def)
  ultimately have "tlv_loop (\<lambda>s f. certificate_field s (f_tag f, f_value f))
      (TlvReader_new (tlv_encode ?fs) (value_limits limit)) \<lparr>cf_certificate = None, cf_info = None, cf_lrc = False\<rparr>
      = Inr \<lparr>cf_certificate = Some der, cf_info = Some 0, cf_lrc = True\<rparr>"
    unfolding tlv_loop_iff [OF refl] by blast
  then show ?thesis using assms by (simp add: Certificate_from_object_def)
qed

section \<open>Properties\<close>

text \<open>C32: a certificate that was written is read back unchanged. When the write machine for a slot
and a payload could be constructed, running it against a card that stores objects completes and
changes only the slot's certificate object; the read machine of any channel whose response budget
holds the container then returns exactly that payload, marked as not compressed.\<close>

theorem piv_certificate_roundtrip:
  assumes "slot_ok slot" "prepare_write_certificate profile slot der opts = Inr w"
    and "ObjectId_certificate slot = Inr i"
    and "prepare_read_object_with rprofile i ropts
           (\<lambda>d. Certificate_from_object gz d (max_total_response_bytes (limits ropts))) = Inr r"
    and "max_input_bytes (limits opts) \<le> max_total_response_bytes (limits ropts)"
  shows "\<exists>c w' wresp r' rresp.
    machine_exec 2 Sequence_ops object_card w None store
      = Some (w', wresp, store([0x5f, 0xc1, certificate_number slot] \<mapsto> c), Inr (Action.Done unchanged))
    \<and> machine_exec 2 Sequence_ops object_card r None (store([0x5f, 0xc1, certificate_number slot] \<mapsto> c))
      = Some (r', rresp, store([0x5f, 0xc1, certificate_number slot] \<mapsto> c),
              Inr (Action.Done \<lparr>ce_der = der, ce_compressed = False\<rparr>))"
proof -
  let ?name = "[0x5f, 0xc1, certificate_number slot]"
  let ?v = "tlv_encode [(short_tag 0x70, der), (short_tag 0x71, [0]), (short_tag 0xfe, [])]"
  let ?c = "tlv_field (short_tag 0x53) ?v"
  have name: "ObjectId_as_bytes i = ?name" using certificate_object [OF assms(1)] assms(3) by fastforce
  obtain pw where pw: "push_fields (TlvWriter_new (max_input_bytes (limits opts))) [(0x70, der), (0x71, [0]), (0xfe, [])] = Inr pw"
    and der: "der \<noteq> []" and pwo: "prepare_write_object profile i (w_bytes pw) opts = Inr w"
    using assms(2,3) by (auto simp: prepare_write_certificate_def bindE_eq_Inr split: if_splits)
  have v: "w_bytes pw = ?v" "length der < 2 ^ 32"
    using push_fields_encode [OF pw] by (simp_all add: TlvWriter_new_def one_byte_tag_def)
  obtain w2 lc where w2: "push_fields (TlvWriter_new (max_input_bytes (limits opts))) [(0x5c, ?name), (0x53, ?v)] = Inr w2"
    and lc: "piv_prepare lc opts piv_mutation = Inr w" "lc_data lc = w_bytes w2" "ins (lc_header lc) = 0xdb"
    using pwo name v
    by (auto simp: prepare_write_object_def put_command_def bindE_eq_Inr Let_def LogicalCommand_new_def ApduHeader_new_def
        split: if_splits)
  have d: "w_bytes w2 = tlv_encode [(short_tag 0x5c, ?name), (short_tag 0x53, ?v)]" "length ?v < 2 ^ 32"
    using push_fields_encode [OF w2] by (simp_all add: TlvWriter_new_def one_byte_tag_def)
  have "length ?v \<le> max_input_bytes (limits opts)"
  proof -
    have "length (w_bytes w2) \<le> max_input_bytes (limits opts)"
      using lc(1,2) by (auto simp: piv_prepare_def bindE_eq_Inr dest!: validate_command_new simp: ConversationState_new_def split: if_splits)
    then show ?thesis by (simp add: d tlv_encode_def tlv_field_def)
  qed
  then have fits: "length ?v \<le> max_total_response_bytes (limits ropts)" using assms(5) by simp
  have put: "object_card store lc = (\<lparr>rd_data = [], rd_status = 0x9000\<rparr>, store(?name \<mapsto> ?c))"
    using lc d put_data_encode [of ?name ?v store] by (simp add: object_card_def)
  have wr: "\<exists>w' wresp. machine_exec 2 Sequence_ops object_card w None store
      = Some (w', wresp, store(?name \<mapsto> ?c), Inr (Action.Done unchanged))"
    by (rule prepared_exec [where parse = piv_mutation and dev = object_card, OF lc(1) put]) (simp add: piv_mutation_def ResponseData_ensure_success_def)
  have get: "object_card (store(?name \<mapsto> ?c)) (command_get_data i) = (\<lparr>rd_data = ?c, rd_status = 0x9000\<rparr>, store(?name \<mapsto> ?c))"
    by (rule object_card_get) (simp_all add: name)
  let ?parse = "parse_object (legacy_unwrapped_objects rprofile) (max_total_response_bytes (limits ropts)) i False
            (\<lambda>d. Certificate_from_object gz d (max_total_response_bytes (limits ropts)))"
  have prep: "piv_prepare (command_get_data i) ropts ?parse = Inr r"
    using assms(4) by (auto simp: prepare_read_object_with_def prepare_read_object_format_def bindE_eq_Inr)
  have "?parse \<lparr>rd_data = ?c, rd_status = 0x9000\<rparr> = Inr \<lparr>ce_der = der, ce_compressed = False\<rparr>"
    by (simp only: parse_object_container [OF certificate_not_legacy [OF assms(1,3)] d(2) fits]
        certificate_container [OF der v(2) fits])
  from prepared_exec [where dev = object_card, OF prep get this] wr show ?thesis by blast
qed

lemma object_writes_31: "supports piv_profile ObjectWrites" "supports piv_profile ObjectWriteChaining"
  by (simp_all add: supports_def capability_def firmware_range_def recognized_def less_eq_prod_def)

theorem piv_certificate_roundtrip_witness:
  "\<exists>w r i c w' wresp r' rresp.
    prepare_write_certificate piv_profile Signature [0x30, 0] OperationOptions_default = Inr w
    \<and> ObjectId_certificate Signature = Inr i
    \<and> prepare_read_object_with piv_profile i OperationOptions_default
        (\<lambda>d. Certificate_from_object (\<lambda>_. ([], None)) d (max_total_response_bytes (limits OperationOptions_default))) = Inr r
    \<and> machine_exec 2 Sequence_ops object_card w None Map.empty
      = Some (w', wresp, [[0x5f, 0xc1, certificate_number Signature] \<mapsto> c], Inr (Action.Done unchanged))
    \<and> machine_exec 2 Sequence_ops object_card r None [[0x5f, 0xc1, certificate_number Signature] \<mapsto> c]
      = Some (r', rresp, [[0x5f, 0xc1, certificate_number Signature] \<mapsto> c],
              Inr (Action.Done \<lparr>ce_der = [0x30, 0], ce_compressed = False\<rparr>))"
proof -
  let ?opts = OperationOptions_default
  let ?i = "\<lparr>tag_value = 0x5fc10a, tag_len = 3\<rparr> :: Tag"
  have i: "ObjectId_certificate Signature = Inr ?i"
    by (simp add: ObjectId_certificate_def tlv_eval)
  have lim: "max_input_bytes (limits ?opts) = 1024 * 1024" "max_total_response_bytes (limits ?opts) = 1024 * 1024"
    by (simp_all add: OperationOptions_default_def OperationLimits_default_def)
  have ms: "max_short ?opts = 255" by (simp add: max_short_def)
  have n: "ObjectId_as_bytes ?i = [0x5f, 0xc1, 0x0a]"
    by (simp add: ObjectId_as_bytes_def Tag_to_bytes_def to_be_bytes_numeral)
  have t: "Tag_from_bytes [b] = Inr (short_tag b)" if "b \<in> {0x5c, 0x53, 0x70, 0x71, 0xfe}" for b
    using that by (intro short_tags(1)) (auto simp: one_byte_tag_def)
  have tb: "Tag_to_bytes (short_tag b) = [b]" if "b \<in> {0x5c, 0x53, 0x70, 0x71, 0xfe}" for b
    using that by (auto simp: short_tag_def Tag_to_bytes_def to_be_bytes_numeral)
  let ?lc = "(LogicalCommand_new (ApduHeader_new 0 0xdb 0x3f 0xff) [] Absent)
      \<lparr>lc_data := [0x5c, 3, 0x5f, 0xc1, 0x0a, 0x53, 9, 0x70, 2, 0x30, 0, 0x71, 1, 0, 0xfe, 0], lc_allow_chaining := True\<rparr>"
  have rq: "require piv_profile Piv = Inr ()" "require piv_profile ObjectWrites = Inr ()"
    by (simp_all add: require_eq_Inr object_writes_31)
  have put: "put_command piv_profile ?i [0x70, 2, 0x30, 0, 0x71, 1, 0, 0xfe, 0] ?opts = Inr ?lc"
    using object_writes_31
    by (simp add: put_command_def rq Let_def n t tb TlvWriter_push_def TlvWriter_new_def
        length_prefix_def checked_add_def usize_max_def lim)
  have v: "validate_command ?lc ?opts = Inr ()"
    by (simp add: validate_command_def ConversationState_new_def LogicalCommand_new_def channel_le_def extended_frames_def
        short_frames_def ms lim CommandApdu_encode_def header_bytes_def lc_field_def Let_def)
  obtain w where w: "prepare_write_certificate piv_profile Signature [0x30, 0] ?opts = Inr w"
    using put v i
    by (simp add: prepare_write_certificate_def prepare_write_object_def piv_prepare_def t tb TlvWriter_push_def TlvWriter_new_def
        length_prefix_def checked_add_def usize_max_def lim)
  have "validate_command (command_get_data ?i) ?opts = Inr ()"
    unfolding command_get_data_def Let_def
    by (rule validate_read) (simp_all add: n lim ms)
  then obtain r where r: "prepare_read_object_with piv_profile ?i ?opts
        (\<lambda>d. Certificate_from_object (\<lambda>_. ([], None)) d (max_total_response_bytes (limits ?opts))) = Inr r"
    by (auto simp: prepare_read_object_with_def prepare_read_object_format_def piv_prepare_def bindE_eq_Inr require_eq_Inr)
  show ?thesis
    using piv_certificate_roundtrip [OF _ w i r, of Map.empty] w i r lim by auto
qed

end
