(* ===== verification/Piv_Protection.thy ===== *)
theory Piv_Protection
  imports Piv_Objects
begin

text \<open>
  Host-managed protection of the PIV management key: the stored policy and the protected key
  (\<open>protection.rs\<close>), the rotation of the key with its protected copy (\<open>RotateManagement\<close> in
  \<open>write.rs\<close>), and the operation \<open>pin_managed\<close> that recovers and proves the protected key and, only
  where the caller authorised it, blocks the PUK.
\<close>

section \<open>Protection of the management key\<close>

definition ber_limits :: TlvLimits where
  "ber_limits = \<lparr>max_value_bytes = 128, max_depth = 4\<rparr>"

definition at_parsing :: "'a res \<Rightarrow> 'a res" where
  "at_parsing m = (case m of Inl e \<Rightarrow> Inl (Error_at e Phase.Parsing) | Inr x \<Rightarrow> Inr x)"

definition ber_single :: "bytes \<Rightarrow> 32 word \<Rightarrow> bytes res" where
  "ber_single d expected =
     bindE (at_parsing (TlvReader_next (TlvReader_new_ber d ber_limits))) (\<lambda>(field, reader).
     bindE (ok_or field invalid_parsing) (\<lambda>field.
     bindE (if tag_value (f_tag field) \<noteq> expected then Inl invalid_parsing
            else bindE (at_parsing (TlvReader_next reader)) (\<lambda>(extra, _). ensureE (extra = None) invalid_parsing)) (\<lambda>_.
       Inr (f_value field))))"

record AdminFields =
  af_flags :: "byte option"
  af_salt :: bool
  af_date :: bool

definition admin_field :: "AdminFields \<Rightarrow> Tlv \<Rightarrow> AdminFields res" where
  "admin_field s f =
     (let t = tag_value (f_tag f); v = f_value f in
      if t = 0x81 \<and> af_flags s = None \<and> length v = 1 then Inr (s\<lparr>af_flags := Some (v ! 0)\<rparr>)
      else if t = 0x82 \<and> \<not> af_salt s \<and> (length v = 0 \<or> length v = 16) then Inr (s\<lparr>af_salt := True\<rparr>)
      else if t = 0x83 \<and> \<not> af_date s \<and> length v \<le> 8 then Inr (s\<lparr>af_date := True\<rparr>)
      else Inl invalid_parsing)"

text \<open>The flags byte of a \<open>ManagementProtection\<close>.\<close>

definition from_admin_object :: "bytes \<Rightarrow> byte res" where
  "from_admin_object d =
     (if length d > 128 then Inl limit_parsing
      else bindE (ber_single d 0x53) (\<lambda>outer.
        if outer = [] then Inr 0
        else bindE (ber_single outer 0x80) (\<lambda>admin.
          if admin = [] then Inr 0
          else bindE (at_parsing (tlv_loop admin_field (TlvReader_new_ber admin ber_limits)
                        \<lparr>af_flags = None, af_salt = False, af_date = False\<rparr>)) (\<lambda>s.
            ok_or (af_flags s) invalid_parsing))))"

definition claims_blocked_puk :: "byte \<Rightarrow> bool" where
  "claims_blocked_puk flags \<longleftrightarrow> flags AND 1 \<noteq> 0"

definition protects_management_key :: "byte \<Rightarrow> bool" where
  "protects_management_key flags \<longleftrightarrow> flags AND 2 \<noteq> 0"

definition protected_management_key_from_object :: "bytes \<Rightarrow> bytes res" where
  "protected_management_key_from_object d =
     (if length d > 64 then Inl limit_parsing
      else bindE (ber_single d 0x53) (\<lambda>a. bindE (ber_single a 0x88) (\<lambda>b. bindE (ber_single b 0x89) (\<lambda>key.
        if length key \<noteq> 24 then Inl invalid_parsing else Inr key))))"

section \<open>Management-key replacement\<close>

definition prepare_set_management_key ::
  "DeviceProfile \<Rightarrow> ManagementKey \<Rightarrow> ManagementTouchPolicy \<Rightarrow> OperationOptions \<Rightarrow> MutationResult Sequence res" where
  "prepare_set_management_key profile key touch opts =
     bindE (require profile Piv) (\<lambda>_.
     bindE (CapabilityStatus_require (management_key_support profile (mk_algorithm key))) (\<lambda>_.
       if touch = ManagementTouchAlways \<and> mk_algorithm key \<noteq> Aes192 then Inl (Error_new UnsupportedFeature)
       else piv_prepare (replacement_command key (touch = ManagementTouchAlways)) opts piv_mutation))"

record RotateManagement =
  ro_stage :: nat
  ro_protected :: bool
  ro_replacement :: "MutationResult Sequence"
  ro_authentication :: ManagementMachine
  ro_printed_write :: "MutationResult Sequence"

type_synonym rotate_result = "RotateManagement \<times> MutationResult Action res"

definition rotate_printed :: "RotateManagement \<Rightarrow> ResponseData option \<Rightarrow> rotate_result" where
  "rotate_printed m response =
     (let (s, a) = Sequence_next (ro_printed_write m) response in (m\<lparr>ro_printed_write := s\<rparr>, a))"

definition rotate_authenticate :: "cipher \<Rightarrow> RotateManagement \<Rightarrow> ResponseData option \<Rightarrow> rotate_result" where
  "rotate_authenticate bc m response =
     (case ManagementMachine_next bc (ro_authentication m) response of
        (mm, Inl e) \<Rightarrow> (m\<lparr>ro_authentication := mm\<rparr>, Inl e)
      | (mm, Inr (Action.Command c)) \<Rightarrow> (m\<lparr>ro_authentication := mm\<rparr>, Inr (Action.Command c))
      | (mm, Inr (Action.Done _)) \<Rightarrow> rotate_printed (m\<lparr>ro_authentication := mm, ro_stage := 5\<rparr>) None)"

definition rotate_replace :: "cipher \<Rightarrow> RotateManagement \<Rightarrow> ResponseData option \<Rightarrow> rotate_result" where
  "rotate_replace bc m response =
     (case Sequence_next (ro_replacement m) response of
        (s, Inl e) \<Rightarrow> (m\<lparr>ro_replacement := s\<rparr>, Inl e)
      | (s, Inr (Action.Command c)) \<Rightarrow> (m\<lparr>ro_replacement := s\<rparr>, Inr (Action.Command c))
      | (s, Inr (Action.Done r)) \<Rightarrow>
          if \<not> ro_protected m then (m\<lparr>ro_replacement := s\<rparr>, Inr (Action.Done r))
          else rotate_authenticate bc (m\<lparr>ro_replacement := s, ro_stage := 4\<rparr>) None)"

text \<open>An absent ADMIN DATA object leaves the flag \<open>protected\<close> as it is.\<close>

definition rotate_admin :: "bool \<Rightarrow> ResponseData \<Rightarrow> bool res" where
  "rotate_admin protected r =
     (if rd_status r = 0x6a82 \<or> rd_status r = 0x6a88 then Inr protected
      else bindE (ResponseData_ensure_success r Phase.Command) (\<lambda>_.
        bindE (from_admin_object (rd_data r)) (\<lambda>flags. Inr (protects_management_key flags))))"

definition RotateManagement_next :: "cipher \<Rightarrow> RotateManagement \<Rightarrow> ResponseData option \<Rightarrow> rotate_result" where
  "RotateManagement_next bc m response =
     (if ro_stage m = 0 then
        (m\<lparr>ro_stage := 1\<rparr>,
         bindE (ObjectId_from_bytes [0x5f, 0xff, 0]) (\<lambda>i. Inr (Action.Command (command_get_data i))))
      else if ro_stage m = 1 then
        (case bindE (ok_or response (Error_new ProtocolViolation)) (rotate_admin (ro_protected m)) of
           Inl e \<Rightarrow> (m, Inl e)
         | Inr p \<Rightarrow>
             if p then
               (m\<lparr>ro_protected := p, ro_stage := 2\<rparr>,
                bindE (ObjectId_from_bytes [0x5f, 0xc1, 9]) (\<lambda>i. Inr (Action.Command (command_get_data i))))
             else rotate_replace bc (m\<lparr>ro_protected := p, ro_stage := 3\<rparr>) None)
      else if ro_stage m = 2 then
        (case bindE (ok_or response (Error_new ProtocolViolation)) (\<lambda>r.
                bindE (ResponseData_ensure_success r Phase.Command) (\<lambda>_.
                  protected_management_key_from_object (rd_data r))) of
           Inl e \<Rightarrow> (m, Inl e)
         | Inr _ \<Rightarrow> rotate_replace bc (m\<lparr>ro_stage := 3\<rparr>) None)
      else if ro_stage m = 3 then rotate_replace bc m response
      else if ro_stage m = 4 then rotate_authenticate bc m response
      else if ro_stage m = 5 then rotate_printed m response
      else (m, Inl (Error_new OperationStateError)))"

definition RotateManagement_ops :: "cipher \<Rightarrow> (RotateManagement, MutationResult) Machine" where
  "RotateManagement_ops bc = plain_machine (RotateManagement_next bc)"

text \<open>
  \<open>set_management_key\<close> wraps one of two machines; the result is the operation of the one that
  the flag \<open>update_protected\<close> chooses.
\<close>

definition prepare_rotate ::
  "DeviceProfile \<Rightarrow> ManagementKey \<Rightarrow> ManagementTouchPolicy \<Rightarrow> OperationOptions \<Rightarrow> RotateManagement res" where
  "prepare_rotate profile key touch opts =
     bindE (prepare_set_management_key profile key touch opts) (\<lambda>replacement.
     bindE (ObjectId_from_bytes [0x5f, 0xc1, 9]) (\<lambda>printed.
     bindE (prepare_write_object profile printed ([0x88, 26, 0x89, 24] @ mk_bytes key) opts) (\<lambda>printed_write.
     bindE (ManagementAuthentication_validate (ManagementAuthentication_external key) profile opts) (\<lambda>_.
       Inr \<lparr>ro_stage = 0, ro_protected = False, ro_replacement = replacement,
            ro_authentication = ManagementMachine_new (ManagementAuthentication_external key),
            ro_printed_write = printed_write\<rparr>))))"

definition set_management_key ::
  "DeviceProfile \<Rightarrow> ManagementKey \<Rightarrow> ManagementTouchPolicy \<Rightarrow> bool \<Rightarrow> Access \<Rightarrow> OperationOptions
   \<Rightarrow> ((MutationResult Sequence Selected, MutationResult) Operation
       + (RotateManagement Selected, MutationResult) Operation) res" where
  "set_management_key profile key touch update_protected access opts =
     bindE (require_management access) (\<lambda>_.
       if \<not> update_protected then
         bindE (prepare_set_management_key profile key touch opts) (\<lambda>replacement.
         bindE (with_access profile access replacement opts) (\<lambda>op. Inr (Inl op)))
       else
         bindE (prepare_rotate profile key touch opts) (\<lambda>m.
         bindE (with_access profile access m opts) (\<lambda>op. Inr (Inr op))))"

section \<open>PIN-managed protection\<close>

datatype PinManagedStage =
    PmBegin | PmAdmin | PmPuk | PmPrinted | PmManagementMetadata | PmAuthentication | PmChange | PmConfirm

record PinManaged =
  pm_stage :: PinManagedStage
  pm_profile :: DeviceProfile
  pm_options :: OperationOptions
  pm_replacement :: "bytes option"
  pm_key :: "bytes option"
  pm_authentication :: "ManagementMachine option"
  pm_attempts :: nat
  pm_known :: bool

type_synonym pin_managed_result = "PinManaged \<times> bytes Action res"

definition PinManaged_metadata :: "PinManaged \<Rightarrow> ResponseData \<Rightarrow> MetadataReference \<Rightarrow> Metadata res" where
  "PinManaged_metadata m r ref =
     bindE (ResponseData_ensure_success r Phase.Command) (\<lambda>_.
       metadata_decode (pm_profile m) ref (rd_data r) (max_total_response_bytes (limits (pm_options m))))"

definition PinManaged_result :: "PinManaged \<Rightarrow> pin_managed_result" where
  "PinManaged_result m =
     (m\<lparr>pm_key := None\<rparr>, bindE (ok_or (pm_key m) invalid_parsing) (\<lambda>k. Inr (Action.Done k)))"

text \<open>The formatted guess \<open>{:08}\<close> of the attempt number.\<close>

definition decimal_8 :: "nat \<Rightarrow> bytes" where
  "decimal_8 n = replicate (8 - length (digits n)) 0x30 @ digits n"

definition next_digit :: "byte \<Rightarrow> byte" where
  "next_digit b = (if b = 0x39 then 0x30 else b + 1)"

definition puk_guess :: "bool \<Rightarrow> nat \<Rightarrow> bytes \<Rightarrow> bytes" where
  "puk_guess known attempts replacement =
     (if known then replacement[0 := next_digit (replacement ! 0)] else decimal_8 attempts)"

definition PinManaged_change :: "PinManaged \<Rightarrow> pin_managed_result" where
  "PinManaged_change m =
     (if pm_attempts m \<ge> 32 then (m, Inl (Error_at (Error_new ConditionsNotSatisfied) Phase.Command))
      else case pm_replacement m of
        None \<Rightarrow> (m, Inl invalid_parsing)
      | Some replacement \<Rightarrow>
          (m\<lparr>pm_attempts := pm_attempts m + 1, pm_stage := PmChange\<rparr>,
           Inr (Action.Command (command_change 0x24 0x81 (puk_guess (pm_known m) (pm_attempts m) replacement) replacement))))"

definition PinManaged_authenticate :: "cipher \<Rightarrow> PinManaged \<Rightarrow> ResponseData option \<Rightarrow> pin_managed_result" where
  "PinManaged_authenticate bc m response =
     (case pm_authentication m of
        None \<Rightarrow> (m, Inl invalid_parsing)
      | Some machine \<Rightarrow>
          (case ManagementMachine_next bc machine response of
             (mm, Inl e) \<Rightarrow> (m\<lparr>pm_authentication := Some mm\<rparr>, Inl e)
           | (mm, Inr (Action.Command c)) \<Rightarrow> (m\<lparr>pm_authentication := Some mm\<rparr>, Inr (Action.Command c))
           | (mm, Inr (Action.Done _)) \<Rightarrow>
               (let m' = m\<lparr>pm_authentication := None\<rparr> in
                if pm_replacement m' \<noteq> None then PinManaged_change m' else PinManaged_result m')))"

definition pin_managed_admin :: "ResponseData \<Rightarrow> unit res" where
  "pin_managed_admin r =
     bindE (ResponseData_ensure_success r Phase.Command) (\<lambda>_.
     bindE (from_admin_object (rd_data r)) (\<lambda>flags.
       if \<not> claims_blocked_puk flags \<or> \<not> protects_management_key flags
       then Inl (Error_at (Error_new NotFound) Phase.Parsing) else Inr ()))"

definition pin_managed_retries :: "PinManaged \<Rightarrow> ResponseData \<Rightarrow> byte res" where
  "pin_managed_retries m r =
     bindE (PinManaged_metadata m r PukReference) (\<lambda>md.
     bindE (ok_or (mf_retries (Metadata_fields md)) invalid_parsing) (\<lambda>(_, remaining). Inr remaining))"

definition pin_managed_algorithm :: "PinManaged \<Rightarrow> ResponseData \<Rightarrow> ManagementKeyAlgorithm res" where
  "pin_managed_algorithm m r =
     (if rd_status r \<in> {0x6d00, 0x6a81, 0x6a88, 0x6a82} then Inr Tdes
      else bindE (PinManaged_metadata m r ManagementReference) (\<lambda>md.
        case mf_algorithm_id (Metadata_fields md) of
          Some i \<Rightarrow> if i = 3 then Inr Tdes else if i = 10 then Inr Aes192 else Inl (Error_new UnsupportedAlgorithm)
        | None \<Rightarrow> Inl (Error_new UnsupportedAlgorithm)))"

definition pin_managed_authentication :: "PinManaged \<Rightarrow> ResponseData \<Rightarrow> ManagementAuthentication res" where
  "pin_managed_authentication m r =
     bindE (pin_managed_algorithm m r) (\<lambda>algorithm.
     bindE (bindE (ok_or (pm_key m) invalid_parsing) (ManagementKey_from_bytes algorithm)) (\<lambda>key.
     bindE (ManagementAuthentication_validate (ManagementAuthentication_external key) (pm_profile m) (pm_options m)) (\<lambda>_.
       Inr (ManagementAuthentication_external key))))"

definition PinManaged_react :: "cipher \<Rightarrow> PinManaged \<Rightarrow> ResponseData \<Rightarrow> pin_managed_result" where
  "PinManaged_react bc m r =
     (case pm_stage m of
        PmAdmin \<Rightarrow>
          (case pin_managed_admin r of
             Inl e \<Rightarrow> (m, Inl e)
           | Inr _ \<Rightarrow> (m\<lparr>pm_stage := PmPuk\<rparr>, Inr (Action.Command (command_metadata PukReference))))
      | PmConfirm \<Rightarrow>
          (case pin_managed_retries m r of
             Inl e \<Rightarrow> (m, Inl e)
           | Inr remaining \<Rightarrow>
               if remaining \<noteq> 0 then (m, Inl (Error_at (Error_new ConditionsNotSatisfied) Phase.Command))
               else PinManaged_result m)
      | PmPuk \<Rightarrow>
          (case pin_managed_retries m r of
             Inl e \<Rightarrow> (m, Inl e)
           | Inr remaining \<Rightarrow>
               if remaining \<noteq> 0 \<and> pm_replacement m = None
               then (m, Inl (Error_at (Error_new ConditionsNotSatisfied) Phase.Command))
               else
                 (m\<lparr>pm_replacement := (if remaining = 0 then None else pm_replacement m), pm_stage := PmPrinted\<rparr>,
                  bindE (ObjectId_from_bytes [0x5f, 0xc1, 9]) (\<lambda>i. Inr (Action.Command (command_get_data i)))))
      | PmPrinted \<Rightarrow>
          (case bindE (ResponseData_ensure_success r Phase.Command) (\<lambda>_.
                  protected_management_key_from_object (rd_data r)) of
             Inl e \<Rightarrow> (m, Inl e)
           | Inr key \<Rightarrow>
               (m\<lparr>pm_key := Some key, pm_stage := PmManagementMetadata\<rparr>,
                Inr (Action.Command (command_metadata ManagementReference))))
      | PmManagementMetadata \<Rightarrow>
          (case pin_managed_authentication m r of
             Inl e \<Rightarrow> (m, Inl e)
           | Inr auth \<Rightarrow>
               PinManaged_authenticate bc
                 (m\<lparr>pm_authentication := Some (ManagementMachine_new auth), pm_stage := PmAuthentication\<rparr>) None)
      | PmChange \<Rightarrow>
          if rd_data r \<noteq> [] then (m, Inl invalid_parsing)
          else if rd_status r = 0x9000 then PinManaged_change (m\<lparr>pm_known := True\<rparr>)
          else if rd_status r = 0x6983 \<or> rd_status r = 0x63c0
          then (m\<lparr>pm_stage := PmConfirm\<rparr>, Inr (Action.Command (command_metadata PukReference)))
          else if rd_status r AND 0xfff0 = 0x63c0 then PinManaged_change m
          else
            (case require_auth r SecretReference.Puk of
               Inl e \<Rightarrow> (m, Inl e)
             | Inr _ \<Rightarrow> PinManaged_change m)
      | _ \<Rightarrow> (m, Inl (Error_new OperationStateError)))"

definition PinManaged_next :: "cipher \<Rightarrow> PinManaged \<Rightarrow> ResponseData option \<Rightarrow> pin_managed_result" where
  "PinManaged_next bc m response =
     (if pm_stage m = PmBegin then
        (m\<lparr>pm_stage := PmAdmin\<rparr>,
         bindE (ObjectId_from_bytes [0x5f, 0xff, 0]) (\<lambda>i. Inr (Action.Command (command_get_data i))))
      else if pm_stage m = PmAuthentication then PinManaged_authenticate bc m response
      else case response of
        None \<Rightarrow> (m, Inl invalid_parsing)
      | Some r \<Rightarrow> PinManaged_react bc m r)"

definition PinManaged_ops :: "cipher \<Rightarrow> (PinManaged, bytes) Machine" where
  "PinManaged_ops bc = plain_machine (PinManaged_next bc)"

definition PinManaged_new :: "DeviceProfile \<Rightarrow> OperationOptions \<Rightarrow> bytes option \<Rightarrow> PinManaged" where
  "PinManaged_new profile opts replacement =
     \<lparr>pm_stage = PmBegin, pm_profile = profile, pm_options = opts, pm_replacement = replacement, pm_key = None,
      pm_authentication = None, pm_attempts = 0, pm_known = False\<rparr>"

definition pin_managed ::
  "DeviceProfile \<Rightarrow> bytes option \<Rightarrow> Access \<Rightarrow> OperationOptions \<Rightarrow> (PinManaged Selected, bytes) Operation res" where
  "pin_managed profile block_puk access opts =
     bindE (require profile Piv) (\<lambda>_.
     bindE (require profile Capability.Metadata) (\<lambda>_.
     bindE (case block_puk of
              Some bs \<Rightarrow> if length bs = 8 then Inr (Some (map (\<lambda>b. 0x30 + b mod 10) bs)) else Inl (Error_new InvalidArgument)
            | None \<Rightarrow> Inr None) (\<lambda>replacement.
       with_access profile access (PinManaged_new profile opts replacement) opts)))"

section \<open>Shared facts about the two machines\<close>

definition read_admin :: LogicalCommand where
  "read_admin = command_get_data \<lparr>tag_value = 0x5fff00, tag_len = 3\<rparr>"

definition read_printed :: LogicalCommand where
  "read_printed = command_get_data \<lparr>tag_value = 0x5fc109, tag_len = 3\<rparr>"

lemma host_objects:
  "ObjectId_from_bytes [0x5f, 0xff, 0] = Inr \<lparr>tag_value = 0x5fff00, tag_len = 3\<rparr>"
  "ObjectId_from_bytes [0x5f, 0xc1, 9] = Inr \<lparr>tag_value = 0x5fc109, tag_len = 3\<rparr>"
  by (simp_all add: ObjectId_from_bytes_def tlv_eval)

text \<open>An acknowledged mutation: success without data.\<close>

definition acknowledged :: "ResponseData \<Rightarrow> bool" where
  "acknowledged r \<longleftrightarrow> rd_status r = 0x9000 \<and> rd_data r = []"

lemma piv_mutation_iff: "piv_mutation r = Inr t \<longleftrightarrow> acknowledged r \<and> t = unchanged"
  by (auto simp: piv_mutation_def acknowledged_def ResponseData_ensure_success_def)

text \<open>The response to a read that returned the protected key.\<close>

definition printed_key :: "ResponseData \<Rightarrow> bytes \<Rightarrow> bool" where
  "printed_key r k \<longleftrightarrow> rd_status r = 0x9000 \<and> protected_management_key_from_object (rd_data r) = Inr k"

definition fresh_sequence :: "LogicalCommand \<Rightarrow> (ResponseData \<Rightarrow> 't res) \<Rightarrow> 't Sequence" where
  "fresh_sequence c parse =
     \<lparr>sq_pending = [piv_request c Phase.Command None], sq_current = None, sq_parse = Some parse\<rparr>"

definition sent_sequence :: "(ResponseData \<Rightarrow> 't res) \<Rightarrow> 't Sequence" where
  "sent_sequence parse = \<lparr>sq_pending = [], sq_current = Some (Phase.Command, None), sq_parse = Some parse\<rparr>"

lemma fresh_sequence_next:
  "Sequence_next (fresh_sequence c parse) None = (sent_sequence parse, Inr (Action.Command c))"
  by (simp add: Sequence_next_def Sequence_pop_def fresh_sequence_def sent_sequence_def piv_request_def)

lemma sent_sequence_next:
  "Sequence_next (sent_sequence parse) (Some r) = (s, Inr a) \<longleftrightarrow>
    s = (sent_sequence parse)\<lparr>sq_parse := None\<rparr> \<and> (\<exists>t. parse r = Inr t \<and> a = Action.Done t)"
  by (auto simp: Sequence_next_def sent_sequence_def bindE_eq_Inr)

text \<open>The exchanges of an External authentication that is under way, and its next command.\<close>

definition management_next :: "cipher \<Rightarrow> ManagementAuthentication \<Rightarrow> trace \<Rightarrow> LogicalCommand \<Rightarrow> bool" where
  "management_next bc auth mt c \<longleftrightarrow>
     mt = [] \<and> ManagementAuthentication_initial auth = Inr c
     \<or> (\<exists>c1 r1 v. mt = [(c1, r1)] \<and> ManagementAuthentication_initial auth = Inr c1
          \<and> management_answer bc auth r1 = Inr v
          \<and> auth_command (mk_algorithm (ma_key auth)) (second_fields (ma_mode auth) v) = Inr c)"

definition management_state ::
  "cipher \<Rightarrow> ManagementAuthentication \<Rightarrow> ManagementMachine \<Rightarrow> ResponseData option \<Rightarrow> trace \<Rightarrow> bool" where
  "management_state bc auth mm resp mt \<longleftrightarrow>
     mm = ManagementMachine_new auth \<and> resp = None \<and> mt = []
     \<or> (\<exists>c mt' r. mt = mt' @ [(c, r)] \<and> resp = Some r \<and> management_next bc auth mt' c
          \<and> mm = \<lparr>mm_auth = auth, mm_stage = length mt\<rparr>)"

lemma management_state_step:
  assumes "management_state bc auth mm resp mt" "ManagementMachine_next bc mm resp = (mm', Inr a)"
  shows "(case a of
      Action.Command c \<Rightarrow> management_next bc auth mt c \<and> (\<forall>r. management_state bc auth mm' (Some r) (mt @ [(c, r)]))
    | Action.Done _ \<Rightarrow> management_done bc (Some auth) mt)"
proof -
  from assms(1) consider
      (start) "mm = ManagementMachine_new auth" "resp = None" "mt = []"
    | (first) c r where "mt = [(c, r)]" "resp = Some r" "ManagementAuthentication_initial auth = Inr c"
        "mm = \<lparr>mm_auth = auth, mm_stage = 1\<rparr>"
    | (second) c1 r1 v c2 r2 where "mt = [(c1, r1), (c2, r2)]" "resp = Some r2"
        "ManagementAuthentication_initial auth = Inr c1" "management_answer bc auth r1 = Inr v"
        "auth_command (mk_algorithm (ma_key auth)) (second_fields (ma_mode auth) v) = Inr c2"
        "mm = \<lparr>mm_auth = auth, mm_stage = 2\<rparr>"
    unfolding management_state_def management_next_def by fastforce
  then show ?thesis
  proof cases
    case start
    then obtain c where "a = Action.Command c" "ManagementAuthentication_initial auth = Inr c"
      "mm' = \<lparr>mm_auth = auth, mm_stage = 1\<rparr>"
      using assms(2) management_first by blast
    then show ?thesis using start by (simp add: management_next_def management_state_def)
  next
    case first
    then obtain v c2 where "a = Action.Command c2" "management_answer bc auth r = Inr v"
      "auth_command (mk_algorithm (ma_key auth)) (second_fields (ma_mode auth) v) = Inr c2"
      "mm' = \<lparr>mm_auth = auth, mm_stage = 2\<rparr>"
      using assms(2) management_second by blast
    then show ?thesis using first by (auto simp: management_next_def management_state_def)
  next
    case second
    then have "a = Action.Done ()" "management_finish bc auth r2 = Inr ()"
      using assms(2) management_third by blast+
    then show ?thesis using second by (auto simp: management_done_def)
  qed
qed

section \<open>Rotation\<close>

text \<open>The checks before anything is written, with the policy they found.\<close>

definition rotation_checked :: "bool \<Rightarrow> trace \<Rightarrow> bool" where
  "rotation_checked protected pre \<longleftrightarrow>
     (if protected then
        \<exists>r0 r1 k. pre = [(read_admin, r0), (read_printed, r1)] \<and> rotate_admin False r0 = Inr True \<and> printed_key r1 k
      else \<exists>r0. pre = [(read_admin, r0)] \<and> rotate_admin False r0 = Inr False)"

text \<open>The actions a rotation may take after given exchanges: \<open>rc\<close> replaces the key, \<open>pw\<close> writes the copy.\<close>

inductive rotation_action ::
  "cipher \<Rightarrow> LogicalCommand \<Rightarrow> LogicalCommand \<Rightarrow> ManagementAuthentication \<Rightarrow> trace \<Rightarrow> MutationResult Action \<Rightarrow> bool"
  for bc rc pw auth where
  read_policy: "rotation_action bc rc pw auth [] (Action.Command read_admin)"
| read_copy: "rotate_admin False r0 = Inr True
    \<Longrightarrow> rotation_action bc rc pw auth [(read_admin, r0)] (Action.Command read_printed)"
| replace: "rotation_checked p pre \<Longrightarrow> rotation_action bc rc pw auth pre (Action.Command rc)"
| finish_plain: "rotation_checked False pre \<Longrightarrow> acknowledged r
    \<Longrightarrow> rotation_action bc rc pw auth (pre @ [(rc, r)]) (Action.Done unchanged)"
| prove_new: "rotation_checked True pre \<Longrightarrow> acknowledged r \<Longrightarrow> management_next bc auth mt c
    \<Longrightarrow> rotation_action bc rc pw auth (pre @ (rc, r) # mt) (Action.Command c)"
| write_copy: "rotation_checked True pre \<Longrightarrow> acknowledged r \<Longrightarrow> management_done bc (Some auth) mt
    \<Longrightarrow> rotation_action bc rc pw auth (pre @ (rc, r) # mt) (Action.Command pw)"
| finish_protected: "rotation_checked True pre \<Longrightarrow> acknowledged r \<Longrightarrow> management_done bc (Some auth) mt
    \<Longrightarrow> acknowledged r' \<Longrightarrow> rotation_action bc rc pw auth (pre @ (rc, r) # mt @ [(pw, r')]) (Action.Done unchanged)"

definition rotation_start :: "LogicalCommand \<Rightarrow> LogicalCommand \<Rightarrow> ManagementAuthentication \<Rightarrow> RotateManagement" where
  "rotation_start rc pw auth =
     \<lparr>ro_stage = 0, ro_protected = False, ro_replacement = fresh_sequence rc piv_mutation,
      ro_authentication = ManagementMachine_new auth, ro_printed_write = fresh_sequence pw piv_mutation\<rparr>"

inductive rotation_inv ::
  "cipher \<Rightarrow> LogicalCommand \<Rightarrow> LogicalCommand \<Rightarrow> ManagementAuthentication \<Rightarrow> RotateManagement
   \<Rightarrow> ResponseData option \<Rightarrow> trace \<Rightarrow> bool" for bc rc pw auth where
  started: "rotation_inv bc rc pw auth (rotation_start rc pw auth) None []"
| reading_policy: "rotation_inv bc rc pw auth ((rotation_start rc pw auth)\<lparr>ro_stage := 1\<rparr>) (Some r0) [(read_admin, r0)]"
| reading_copy: "rotate_admin False r0 = Inr True \<Longrightarrow> rotation_inv bc rc pw auth
    ((rotation_start rc pw auth)\<lparr>ro_stage := 2, ro_protected := True\<rparr>) (Some r1) [(read_admin, r0), (read_printed, r1)]"
| replacing: "rotation_checked p pre \<Longrightarrow> rotation_inv bc rc pw auth
    ((rotation_start rc pw auth)\<lparr>ro_stage := 3, ro_protected := p, ro_replacement := sent_sequence piv_mutation\<rparr>)
    (Some r) (pre @ [(rc, r)])"
| proving: "rotation_checked True pre \<Longrightarrow> acknowledged r \<Longrightarrow> ro_stage m = 4
    \<Longrightarrow> management_state bc auth (ro_authentication m) resp mt \<Longrightarrow> ro_printed_write m = fresh_sequence pw piv_mutation
    \<Longrightarrow> rotation_inv bc rc pw auth m resp (pre @ (rc, r) # mt)"
| writing_copy: "rotation_checked True pre \<Longrightarrow> acknowledged r \<Longrightarrow> management_done bc (Some auth) mt \<Longrightarrow> ro_stage m = 5
    \<Longrightarrow> ro_printed_write m = sent_sequence piv_mutation
    \<Longrightarrow> rotation_inv bc rc pw auth m (Some r') (pre @ (rc, r) # mt @ [(pw, r')])"

definition rotation_post ::
  "cipher \<Rightarrow> LogicalCommand \<Rightarrow> LogicalCommand \<Rightarrow> ManagementAuthentication \<Rightarrow> trace \<Rightarrow> rotate_result \<Rightarrow> bool" where
  "rotation_post bc rc pw auth tr res =
     (case res of
        (m', Inl _) \<Rightarrow> True
      | (m', Inr a) \<Rightarrow> rotation_action bc rc pw auth tr a
          \<and> (\<forall>c r. a = Action.Command c \<longrightarrow> rotation_inv bc rc pw auth m' (Some r) (tr @ [(c, r)])))"

lemma rotation_postI:
  assumes "rotation_action bc rc pw auth tr a"
    and "\<And>c r. a = Action.Command c \<Longrightarrow> rotation_inv bc rc pw auth m' (Some r) (tr @ [(c, r)])"
  shows "rotation_post bc rc pw auth tr (m', Inr a)"
  using assms by (simp add: rotation_post_def)

lemma rotation_post_error [simp]: "rotation_post bc rc pw auth tr (m', Inl e)"
  by (simp add: rotation_post_def)

lemma rotate_authenticate_post:
  assumes st: "management_state bc auth (ro_authentication m) resp mt" and m: "ro_stage m = 4"
    "ro_printed_write m = fresh_sequence pw piv_mutation"
    and pre: "rotation_checked True pre" "acknowledged r"
  shows "rotation_post bc rc pw auth (pre @ (rc, r) # mt) (rotate_authenticate bc m resp)"
proof -
  obtain mm' res where nx: "ManagementMachine_next bc (ro_authentication m) resp = (mm', res)" by fastforce
  show ?thesis
  proof (cases res)
    case (Inl e)
    then show ?thesis using nx by (simp add: rotate_authenticate_def)
  next
    case (Inr a)
    note step = management_state_step [OF st nx [unfolded Inr]]
    show ?thesis
    proof (cases a)
      case (Command c)
      then have c: "management_next bc auth mt c" "\<And>r. management_state bc auth mm' (Some r) (mt @ [(c, r)])"
        using step by simp_all
      have "rotation_inv bc rc pw auth (m\<lparr>ro_authentication := mm'\<rparr>) (Some r1) (pre @ (rc, r) # mt @ [(c, r1)])" for r1
        by (rule proving) (use m pre c in simp_all)
      then show ?thesis using nx Inr Command prove_new [OF pre c(1)]
        by (simp add: rotate_authenticate_def rotation_post_def)
    next
      case (Done u)
      then have d: "management_done bc (Some auth) mt" using step by simp
      have "rotation_inv bc rc pw auth
          (m\<lparr>ro_authentication := mm', ro_stage := 5, ro_printed_write := sent_sequence piv_mutation\<rparr>) (Some r1)
          (pre @ (rc, r) # mt @ [(pw, r1)])" for r1
        by (rule writing_copy) (use pre d in simp_all)
      then show ?thesis using nx Inr Done m write_copy [OF pre d]
        by (simp add: rotate_authenticate_def rotation_post_def rotate_printed_def fresh_sequence_next)
    qed
  qed
qed

lemma rotate_replace_start:
  assumes "rotation_checked p tr"
  shows "rotation_post bc rc pw auth tr
    (rotate_replace bc ((rotation_start rc pw auth)\<lparr>ro_stage := 3, ro_protected := p\<rparr>) None)"
  using replace [OF assms, of bc rc pw auth] replacing [OF assms, of bc rc pw auth]
  by (simp add: rotate_replace_def rotation_post_def rotation_start_def fresh_sequence_next)

lemma rotate_replace_done:
  assumes "rotation_checked p pre"
    "m = (rotation_start rc pw auth)\<lparr>ro_stage := 3, ro_protected := p, ro_replacement := sent_sequence piv_mutation\<rparr>"
  shows "rotation_post bc rc pw auth (pre @ [(rc, r)]) (rotate_replace bc m (Some r))"
proof -
  obtain s' res where nx: "Sequence_next (sent_sequence piv_mutation) (Some r) = (s', res)" by fastforce
  show ?thesis
  proof (cases res)
    case (Inl e)
    then show ?thesis using nx assms(2) by (simp add: rotate_replace_def)
  next
    case (Inr a)
    then have a: "a = Action.Done unchanged" "acknowledged r"
      using nx sent_sequence_next [of piv_mutation r s' a] by (auto simp: piv_mutation_iff)
    show ?thesis
    proof (cases p)
      case False
      then show ?thesis using nx Inr a assms finish_plain [of pre r bc rc pw auth]
        by (simp add: rotate_replace_def rotation_post_def)
    next
      case True
      have "rotation_post bc rc pw auth (pre @ [(rc, r)])
          (rotate_authenticate bc (m\<lparr>ro_replacement := s', ro_stage := 4\<rparr>) None)"
        by (rule rotate_authenticate_post [where mt = "[]"])
           (use assms a True in \<open>simp_all add: management_state_def rotation_start_def\<close>)
      then show ?thesis using nx Inr a True assms(2) by (simp add: rotate_replace_def)
    qed
  qed
qed

lemma rotation_step:
  assumes "rotation_inv bc rc pw auth m resp tr"
  shows "rotation_post bc rc pw auth tr (RotateManagement_next bc m resp)"
  using assms
proof cases
  case started
  then show ?thesis
    using read_policy [of bc rc pw auth] reading_policy [of bc rc pw auth]
    by (simp add: RotateManagement_next_def rotation_start_def host_objects read_admin_def rotation_post_def)
next
  case (reading_policy r0)
  show ?thesis
  proof (cases "rotate_admin False r0")
    case (Inl e)
    then show ?thesis using reading_policy by (simp add: RotateManagement_next_def rotation_start_def)
  next
    case (Inr p)
    show ?thesis
    proof (cases p)
      case True
      then show ?thesis
        using reading_policy Inr read_copy [of r0 bc rc pw auth] reading_copy [of r0 bc rc pw auth]
        by (simp add: RotateManagement_next_def rotation_start_def host_objects read_printed_def rotation_post_def)
    next
      case False
      then have "rotation_checked p tr" using Inr reading_policy by (simp add: rotation_checked_def)
      from rotate_replace_start [OF this, of bc rc pw auth] False
      show ?thesis using reading_policy Inr
        by (simp add: RotateManagement_next_def rotation_start_def)
    qed
  qed
next
  case (reading_copy r0 r1)
  show ?thesis
  proof (cases "\<exists>k. printed_key r1 k")
    case True
    then have "rotation_checked True tr" using reading_copy by (auto simp: rotation_checked_def)
    from rotate_replace_start [OF this, of bc rc pw auth] True
    show ?thesis using reading_copy
      by (auto simp: RotateManagement_next_def rotation_start_def printed_key_def ResponseData_ensure_success_def)
  next
    case False
    then show ?thesis using reading_copy
      by (auto simp: RotateManagement_next_def rotation_start_def printed_key_def ResponseData_ensure_success_def
          split: sum.splits)
  qed
next
  case (replacing p pre r)
  with rotate_replace_done [OF this(4), of m rc pw auth bc r] show ?thesis
    by (simp add: RotateManagement_next_def)
next
  case (proving pre r mt)
  with rotate_authenticate_post [OF this(5,4,6,2,3), of rc] show ?thesis
    by (simp add: RotateManagement_next_def)
next
  case (writing_copy pre r mt r')
  obtain s' res where nx: "Sequence_next (sent_sequence piv_mutation) (Some r') = (s', res)" by fastforce
  show ?thesis
  proof (cases res)
    case (Inl e)
    then show ?thesis using nx writing_copy by (simp add: RotateManagement_next_def rotate_printed_def)
  next
    case (Inr a)
    then have a: "a = Action.Done unchanged" "acknowledged r'"
      using nx sent_sequence_next [of piv_mutation r' s' a] by (auto simp: piv_mutation_iff)
    with finish_protected [OF writing_copy(3,4,5) a(2), of rc pw] show ?thesis
      using nx Inr writing_copy by (simp add: RotateManagement_next_def rotate_printed_def rotation_post_def)
  qed
qed

section \<open>Recovering the key and blocking the PUK\<close>

abbreviation read_puk :: LogicalCommand where
  "read_puk \<equiv> command_metadata PukReference"

abbreviation read_management :: LogicalCommand where
  "read_management \<equiv> command_metadata ManagementReference"

abbreviation change_puk_command :: "bytes \<Rightarrow> bytes \<Rightarrow> LogicalCommand" where
  "change_puk_command guess new \<equiv> command_change 0x24 0x81 guess new"

definition puk_remaining :: "DeviceProfile \<Rightarrow> OperationOptions \<Rightarrow> ResponseData \<Rightarrow> byte res" where
  "puk_remaining profile opts r = pin_managed_retries (PinManaged_new profile opts None) r"

lemma pin_managed_retries_state:
  "pin_managed_retries m r = puk_remaining (pm_profile m) (pm_options m) r"
  by (simp add: puk_remaining_def pin_managed_retries_def PinManaged_metadata_def PinManaged_new_def)

text \<open>
  The four reads that precede any authentication: the policy claims a blocked PUK and a protected
  key, the live PUK counter is \<open>rem\<close> (zero unless the caller supplied a replacement), and the
  protected object holds \<open>k\<close>.
\<close>

definition protection_read ::
  "DeviceProfile \<Rightarrow> OperationOptions \<Rightarrow> bytes option \<Rightarrow> bytes \<Rightarrow> byte \<Rightarrow> trace \<Rightarrow> bool" where
  "protection_read profile opts repl k rem pre \<longleftrightarrow>
     (\<exists>r0 r1 r2 r3. pre = [(read_admin, r0), (read_puk, r1), (read_printed, r2), (read_management, r3)]
       \<and> pin_managed_admin r0 = Inr () \<and> puk_remaining profile opts r1 = Inr rem \<and> (rem \<noteq> 0 \<longrightarrow> repl \<noteq> None)
       \<and> printed_key r2 k)"

text \<open>The recovered key, proved to the card.\<close>

definition key_proved ::
  "cipher \<Rightarrow> DeviceProfile \<Rightarrow> OperationOptions \<Rightarrow> bytes option \<Rightarrow> bytes \<Rightarrow> byte \<Rightarrow> trace \<Rightarrow> bool" where
  "key_proved bc profile opts repl k rem tr \<longleftrightarrow>
     (\<exists>pre mt auth. tr = pre @ mt \<and> protection_read profile opts repl k rem pre \<and> mk_bytes (ma_key auth) = k
       \<and> management_done bc (Some auth) mt)"

definition puk_changes :: "bytes \<Rightarrow> trace \<Rightarrow> bool" where
  "puk_changes new cs \<longleftrightarrow> (\<forall>(c, r)\<in>set cs. \<exists>guess. c = change_puk_command guess new)"

inductive protection_action ::
  "cipher \<Rightarrow> DeviceProfile \<Rightarrow> OperationOptions \<Rightarrow> bytes option \<Rightarrow> trace \<Rightarrow> bytes Action \<Rightarrow> bool"
  for bc profile opts repl where
  ask_policy: "protection_action bc profile opts repl [] (Action.Command read_admin)"
| ask_puk: "pin_managed_admin r0 = Inr ()
    \<Longrightarrow> protection_action bc profile opts repl [(read_admin, r0)] (Action.Command read_puk)"
| ask_printed: "pin_managed_admin r0 = Inr () \<Longrightarrow> puk_remaining profile opts r1 = Inr rem \<Longrightarrow> rem \<noteq> 0 \<longrightarrow> repl \<noteq> None
    \<Longrightarrow> protection_action bc profile opts repl [(read_admin, r0), (read_puk, r1)] (Action.Command read_printed)"
| ask_management: "pin_managed_admin r0 = Inr () \<Longrightarrow> puk_remaining profile opts r1 = Inr rem \<Longrightarrow> rem \<noteq> 0 \<longrightarrow> repl \<noteq> None
    \<Longrightarrow> printed_key r2 k
    \<Longrightarrow> protection_action bc profile opts repl [(read_admin, r0), (read_puk, r1), (read_printed, r2)]
          (Action.Command read_management)"
| prove_key: "protection_read profile opts repl k rem pre \<Longrightarrow> mk_bytes (ma_key auth) = k \<Longrightarrow> management_next bc auth mt c
    \<Longrightarrow> protection_action bc profile opts repl (pre @ mt) (Action.Command c)"
| try_change: "key_proved bc profile opts repl k rem tr \<Longrightarrow> rem \<noteq> 0 \<Longrightarrow> repl = Some new \<Longrightarrow> puk_changes new cs
    \<Longrightarrow> length cs < 32
    \<Longrightarrow> protection_action bc profile opts repl (tr @ cs) (Action.Command (change_puk_command guess new))"
| confirm: "key_proved bc profile opts repl k rem tr \<Longrightarrow> rem \<noteq> 0 \<Longrightarrow> repl = Some new \<Longrightarrow> puk_changes new cs
    \<Longrightarrow> length cs \<le> 32 \<Longrightarrow> cs \<noteq> [] \<Longrightarrow> rd_status (snd (List.last cs)) = 0x6983 \<or> rd_status (snd (List.last cs)) = 0x63c0
    \<Longrightarrow> protection_action bc profile opts repl (tr @ cs) (Action.Command read_puk)"
| finish_blocked: "key_proved bc profile opts repl k 0 tr \<Longrightarrow> protection_action bc profile opts repl tr (Action.Done k)"
| finish_confirmed: "key_proved bc profile opts repl k rem tr \<Longrightarrow> rem \<noteq> 0 \<Longrightarrow> repl = Some new \<Longrightarrow> puk_changes new cs
    \<Longrightarrow> length cs \<le> 32 \<Longrightarrow> puk_remaining profile opts r = Inr 0
    \<Longrightarrow> protection_action bc profile opts repl (tr @ cs @ [(read_puk, r)]) (Action.Done k)"

definition pm_base :: "DeviceProfile \<Rightarrow> OperationOptions \<Rightarrow> PinManaged \<Rightarrow> bool" where
  "pm_base profile opts m \<longleftrightarrow> pm_profile m = profile \<and> pm_options m = opts"

definition pm_live :: "DeviceProfile \<Rightarrow> OperationOptions \<Rightarrow> bytes option \<Rightarrow> byte \<Rightarrow> PinManaged \<Rightarrow> bool" where
  "pm_live profile opts repl rem m \<longleftrightarrow>
     pm_base profile opts m \<and> pm_attempts m = 0 \<and> pm_replacement m = (if rem = 0 then None else repl)"

inductive protection_inv ::
  "cipher \<Rightarrow> DeviceProfile \<Rightarrow> OperationOptions \<Rightarrow> bytes option \<Rightarrow> PinManaged \<Rightarrow> ResponseData option \<Rightarrow> trace \<Rightarrow> bool"
  for bc profile opts repl where
  pm_started: "protection_inv bc profile opts repl (PinManaged_new profile opts repl) None []"
| pm_policy: "pm_base profile opts m \<Longrightarrow> pm_attempts m = 0 \<Longrightarrow> pm_replacement m = repl \<Longrightarrow> pm_stage m = PmAdmin
    \<Longrightarrow> protection_inv bc profile opts repl m (Some r0) [(read_admin, r0)]"
| pm_puk: "pm_base profile opts m \<Longrightarrow> pm_attempts m = 0 \<Longrightarrow> pm_replacement m = repl \<Longrightarrow> pm_stage m = PmPuk
    \<Longrightarrow> pin_managed_admin r0 = Inr ()
    \<Longrightarrow> protection_inv bc profile opts repl m (Some r1) [(read_admin, r0), (read_puk, r1)]"
| pm_printed: "pm_live profile opts repl rem m \<Longrightarrow> pm_stage m = PmPrinted
    \<Longrightarrow> pin_managed_admin r0 = Inr () \<Longrightarrow> puk_remaining profile opts r1 = Inr rem \<Longrightarrow> rem \<noteq> 0 \<longrightarrow> repl \<noteq> None
    \<Longrightarrow> protection_inv bc profile opts repl m (Some r2) [(read_admin, r0), (read_puk, r1), (read_printed, r2)]"
| pm_management: "pm_live profile opts repl rem m \<Longrightarrow> pm_stage m = PmManagementMetadata \<Longrightarrow> pm_key m = Some k
    \<Longrightarrow> protection_read profile opts repl k rem pre \<Longrightarrow> snd (List.last pre) = r
    \<Longrightarrow> protection_inv bc profile opts repl m (Some r) pre"
| pm_proving: "pm_live profile opts repl rem m \<Longrightarrow> pm_stage m = PmAuthentication \<Longrightarrow> pm_key m = Some k
    \<Longrightarrow> protection_read profile opts repl k rem pre \<Longrightarrow> mk_bytes (ma_key auth) = k
    \<Longrightarrow> pm_authentication m = Some mm \<Longrightarrow> management_state bc auth mm resp mt
    \<Longrightarrow> protection_inv bc profile opts repl m resp (pre @ mt)"
| pm_changing: "pm_base profile opts m \<Longrightarrow> pm_stage m = PmChange \<Longrightarrow> pm_key m = Some k \<Longrightarrow> pm_replacement m = Some new
    \<Longrightarrow> key_proved bc profile opts repl k rem tr \<Longrightarrow> rem \<noteq> 0 \<Longrightarrow> repl = Some new \<Longrightarrow> puk_changes new cs
    \<Longrightarrow> pm_attempts m = length cs \<Longrightarrow> length cs \<le> 32 \<Longrightarrow> cs \<noteq> [] \<Longrightarrow> snd (List.last cs) = r
    \<Longrightarrow> protection_inv bc profile opts repl m (Some r) (tr @ cs)"
| pm_confirming: "pm_base profile opts m \<Longrightarrow> pm_stage m = PmConfirm \<Longrightarrow> pm_key m = Some k
    \<Longrightarrow> key_proved bc profile opts repl k rem tr \<Longrightarrow> rem \<noteq> 0 \<Longrightarrow> repl = Some new \<Longrightarrow> puk_changes new cs \<Longrightarrow> length cs \<le> 32
    \<Longrightarrow> protection_inv bc profile opts repl m (Some r) (tr @ cs @ [(read_puk, r)])"

definition protection_post ::
  "cipher \<Rightarrow> DeviceProfile \<Rightarrow> OperationOptions \<Rightarrow> bytes option \<Rightarrow> trace \<Rightarrow> pin_managed_result \<Rightarrow> bool" where
  "protection_post bc profile opts repl tr res =
     (case res of
        (m', Inl _) \<Rightarrow> True
      | (m', Inr a) \<Rightarrow> protection_action bc profile opts repl tr a
          \<and> (\<forall>c r. a = Action.Command c \<longrightarrow> protection_inv bc profile opts repl m' (Some r) (tr @ [(c, r)])))"

lemma protection_post_error [simp]: "protection_post bc profile opts repl tr (m', Inl e)"
  by (simp add: protection_post_def)

lemma protection_postI:
  assumes "protection_action bc profile opts repl tr a"
    and "\<And>c r. a = Action.Command c \<Longrightarrow> protection_inv bc profile opts repl m' (Some r) (tr @ [(c, r)])"
  shows "protection_post bc profile opts repl tr (m', Inr a)"
  using assms by (simp add: protection_post_def)

lemma change_post:
  assumes m: "pm_base profile opts m" "pm_key m = Some k" "pm_replacement m = Some new" "pm_attempts m = length cs"
    and h: "key_proved bc profile opts repl k rem tr" "rem \<noteq> 0" "repl = Some new" "puk_changes new cs"
  shows "protection_post bc profile opts repl (tr @ cs) (PinManaged_change m)"
proof (cases "length cs < 32")
  case True
  let ?g = "puk_guess (pm_known m) (pm_attempts m) new"
  let ?m = "m\<lparr>pm_attempts := pm_attempts m + 1, pm_stage := PmChange\<rparr>"
  have "protection_inv bc profile opts repl ?m (Some r) ((tr @ cs) @ [(change_puk_command ?g new, r)])" for r
    using pm_changing [of profile opts ?m k new bc repl rem tr "cs @ [(change_puk_command ?g new, r)]" r] m h True
    by (auto simp: pm_base_def puk_changes_def)
  then have "protection_post bc profile opts repl (tr @ cs) (?m, Inr (Action.Command (change_puk_command ?g new)))"
    using try_change [OF h True] by (intro protection_postI) auto
  then show ?thesis using True m by (simp add: PinManaged_change_def)
next
  case False
  then show ?thesis using m by (simp add: PinManaged_change_def)
qed

lemma authenticate_post:
  assumes m: "pm_live profile opts repl rem m" "pm_stage m = PmAuthentication" "pm_key m = Some k"
      "pm_authentication m = Some mm"
    and pre: "protection_read profile opts repl k rem pre" "mk_bytes (ma_key auth) = k"
    and st: "management_state bc auth mm resp mt"
  shows "protection_post bc profile opts repl (pre @ mt) (PinManaged_authenticate bc m resp)"
proof -
  obtain mm' res where nx: "ManagementMachine_next bc mm resp = (mm', res)" by fastforce
  show ?thesis
  proof (cases res)
    case (Inl e)
    then show ?thesis using nx m by (simp add: PinManaged_authenticate_def)
  next
    case (Inr a)
    note step = management_state_step [OF st nx [unfolded Inr]]
    show ?thesis
    proof (cases a)
      case (Command c)
      then have c: "management_next bc auth mt c" "\<And>r. management_state bc auth mm' (Some r) (mt @ [(c, r)])"
        using step by simp_all
      have "protection_inv bc profile opts repl (m\<lparr>pm_authentication := Some mm'\<rparr>) (Some r) (pre @ (mt @ [(c, r)]))" for r
        by (rule pm_proving [OF _ _ _ pre]) (use m c in \<open>simp_all add: pm_live_def pm_base_def\<close>)
      then show ?thesis using nx Inr Command m prove_key [OF pre c(1)]
        by (simp add: PinManaged_authenticate_def protection_post_def)
    next
      case (Done u)
      then have kp: "key_proved bc profile opts repl k rem (pre @ mt)"
        using step pre by (auto simp: key_proved_def)
      let ?m = "m\<lparr>pm_authentication := None\<rparr>"
      show ?thesis
      proof (cases "rem = 0")
        case True
        then show ?thesis using nx Inr Done m finish_blocked [of bc profile opts repl k "pre @ mt"] kp
          by (simp add: PinManaged_authenticate_def PinManaged_result_def protection_post_def pm_live_def)
      next
        case False
        then obtain new where new: "repl = Some new" using pre(1) by (auto simp: protection_read_def)
        have "protection_post bc profile opts repl ((pre @ mt) @ []) (PinManaged_change ?m)"
          by (rule change_post [OF _ _ _ _ kp False new]) (use m False new in \<open>simp_all add: pm_live_def pm_base_def puk_changes_def\<close>)
        then show ?thesis using nx Inr Done m False new
          by (simp add: PinManaged_authenticate_def pm_live_def)
      qed
    qed
  qed
qed

lemma protection_read_step:
  assumes "protection_inv bc profile opts repl m (Some r) tr" "pm_stage m \<in> {PmAdmin, PmPuk, PmPrinted}"
  shows "protection_post bc profile opts repl tr (PinManaged_react bc m r)"
  using assms(1)
proof cases
  case (pm_policy)
  show ?thesis
  proof (cases "pin_managed_admin r")
    case (Inr u)
    have "protection_post bc profile opts repl tr (m\<lparr>pm_stage := PmPuk\<rparr>, Inr (Action.Command read_puk))"
      using pm_policy Inr ask_puk [of r bc profile opts repl] pm_puk [of profile opts "m\<lparr>pm_stage := PmPuk\<rparr>" repl r bc]
      by (intro protection_postI) (auto simp: pm_base_def)
    then show ?thesis using pm_policy Inr by (simp add: PinManaged_react_def)
  qed (use pm_policy in \<open>simp add: PinManaged_react_def\<close>)
next
  case (pm_puk r0)
  show ?thesis
  proof (cases "puk_remaining profile opts r")
    case (Inl e)
    then show ?thesis using pm_puk by (simp add: PinManaged_react_def pin_managed_retries_state pm_base_def)
  next
    case (Inr rem)
    show ?thesis
    proof (cases "rem \<noteq> 0 \<and> repl = None")
      case True
      then show ?thesis using pm_puk Inr by (simp add: PinManaged_react_def pin_managed_retries_state pm_base_def)
    next
      case False
      let ?m = "m\<lparr>pm_replacement := (if rem = 0 then None else repl), pm_stage := PmPrinted\<rparr>"
      have "protection_inv bc profile opts repl ?m (Some r2) (tr @ [(read_printed, r2)])" for r2
        using pm_printed [of profile opts repl rem ?m r0 r bc r2] pm_puk Inr False
        by (auto simp: pm_live_def pm_base_def)
      then have "protection_post bc profile opts repl tr (?m, Inr (Action.Command read_printed))"
        using ask_printed [of r0 profile opts r rem repl bc] pm_puk Inr False by (intro protection_postI) auto
      then show ?thesis using pm_puk Inr False
        by (auto simp: PinManaged_react_def pin_managed_retries_state pm_base_def host_objects read_printed_def)
    qed
  qed
next
  case (pm_printed rem r0 r1)
  show ?thesis
  proof (cases "bindE (ResponseData_ensure_success r Phase.Command) (\<lambda>_. protected_management_key_from_object (rd_data r))")
    case (Inl e)
    then show ?thesis using pm_printed by (simp add: PinManaged_react_def)
  next
    case (Inr k)
    then have k: "printed_key r k" by (auto simp: printed_key_def bindE_eq_Inr ensure_success_iff)
    let ?m = "m\<lparr>pm_key := Some k, pm_stage := PmManagementMetadata\<rparr>"
    have "protection_inv bc profile opts repl ?m (Some r3) (tr @ [(read_management, r3)])" for r3
      by (rule pm_management [of profile opts repl rem ?m k])
         (use pm_printed k in \<open>auto simp: pm_live_def pm_base_def protection_read_def\<close>)
    then have "protection_post bc profile opts repl tr (?m, Inr (Action.Command read_management))"
      using ask_management [of r0 profile opts r1 rem repl r k bc] pm_printed k by (intro protection_postI) auto
    then show ?thesis using pm_printed Inr by (simp add: PinManaged_react_def)
  qed
qed (use assms(2) in auto)

lemma change_step:
  assumes "pm_base profile opts m" "pm_stage m = PmChange" "pm_key m = Some k" "pm_replacement m = Some new"
    "key_proved bc profile opts repl k rem tr" "rem \<noteq> 0" "repl = Some new" "puk_changes new cs"
    "pm_attempts m = length cs" "length cs \<le> 32" "cs \<noteq> []" "snd (List.last cs) = r"
  shows "protection_post bc profile opts repl (tr @ cs) (PinManaged_react bc m r)"
proof -
  have ch: "protection_post bc profile opts repl (tr @ cs) (PinManaged_change m')"
    if "m' = m \<or> m' = m\<lparr>pm_known := True\<rparr>" for m'
    by (rule change_post [OF _ _ _ _ assms(5-8)]) (use that assms in \<open>auto simp: pm_base_def\<close>)
  have co: "protection_post bc profile opts repl (tr @ cs) (m\<lparr>pm_stage := PmConfirm\<rparr>, Inr (Action.Command read_puk))"
    if "rd_status r = 0x6983 \<or> rd_status r = 0x63c0"
  proof (rule protection_postI)
    show "protection_action bc profile opts repl (tr @ cs) (Action.Command read_puk)"
      by (rule confirm [OF assms(5-8,10,11)]) (use that assms(12) in auto)
    show "protection_inv bc profile opts repl (m\<lparr>pm_stage := PmConfirm\<rparr>) (Some r') ((tr @ cs) @ [(c, r')])"
      if "Action.Command read_puk = Action.Command c" for c r'
      using pm_confirming [OF _ _ _ assms(5-8,10), of "m\<lparr>pm_stage := PmConfirm\<rparr>"] that assms(1,3)
      by (auto simp: pm_base_def)
  qed
  show ?thesis
    using assms(2) ch co by (auto simp: PinManaged_react_def require_auth_def split: if_splits)
qed

lemma protection_step:
  assumes "protection_inv bc profile opts repl m resp tr"
  shows "protection_post bc profile opts repl tr (PinManaged_next bc m resp)"
  using assms
proof cases
  case pm_started
  have "protection_post bc profile opts repl [] ((PinManaged_new profile opts repl)\<lparr>pm_stage := PmAdmin\<rparr>, Inr (Action.Command read_admin))"
    using ask_policy pm_policy [of profile opts "(PinManaged_new profile opts repl)\<lparr>pm_stage := PmAdmin\<rparr>" repl bc]
    by (intro protection_postI) (auto simp: pm_base_def PinManaged_new_def)
  then show ?thesis using pm_started
    by (simp add: PinManaged_next_def host_objects read_admin_def) (simp add: PinManaged_new_def)
next
  case (pm_policy r0)
  then show ?thesis using protection_read_step [of bc profile opts repl m r0 tr] assms by (simp add: PinManaged_next_def)
next
  case (pm_puk r0 r1)
  then show ?thesis using protection_read_step [of bc profile opts repl m r1 tr] assms by (simp add: PinManaged_next_def)
next
  case (pm_printed rem r0 r1 r2)
  then show ?thesis using protection_read_step [of bc profile opts repl m r2 tr] assms by (simp add: PinManaged_next_def)
next
  case (pm_management rem k r)
  show ?thesis
  proof (cases "pin_managed_authentication m r")
    case (Inl e)
    then show ?thesis using pm_management by (simp add: PinManaged_next_def PinManaged_react_def)
  next
    case (Inr auth)
    then have k: "mk_bytes (ma_key auth) = k"
      using pm_management
      by (auto simp: pin_managed_authentication_def bindE_eq_Inr ManagementKey_from_bytes_def
          ManagementAuthentication_external_def split: if_splits)
    let ?m = "m\<lparr>pm_authentication := Some (ManagementMachine_new auth), pm_stage := PmAuthentication\<rparr>"
    have "protection_post bc profile opts repl (tr @ []) (PinManaged_authenticate bc ?m None)"
      by (rule authenticate_post [OF _ _ _ _ _ k])
         (use pm_management in \<open>simp_all add: pm_live_def pm_base_def management_state_def\<close>)
    then show ?thesis using pm_management Inr by (simp add: PinManaged_next_def PinManaged_react_def)
  qed
next
  case (pm_proving rem k pre auth mm mt)
  then show ?thesis
    using authenticate_post [OF pm_proving(2,3,4,7,5,6,8)] by (simp add: PinManaged_next_def)
next
  case (pm_changing k new rem t cs r)
  then show ?thesis
    using change_step [OF pm_changing(3-14)] by (simp add: PinManaged_next_def)
next
  case (pm_confirming k rem t new cs r)
  show ?thesis
  proof (cases "puk_remaining profile opts r")
    case (Inl e)
    then show ?thesis using pm_confirming
      by (simp add: PinManaged_next_def PinManaged_react_def pin_managed_retries_state pm_base_def)
  next
    case (Inr left)
    then show ?thesis
      using pm_confirming finish_confirmed [OF pm_confirming(6-10), of r]
      by (cases "left = 0")
         (simp_all add: PinManaged_next_def PinManaged_react_def pin_managed_retries_state pm_base_def
          PinManaged_result_def protection_post_def)
  qed
qed

section \<open>The protected copy\<close>

lemma ber_single_field:
  assumes "Tag_wf t" "length v \<le> 128"
  shows "ber_single (tlv_field t v) (tag_value t) = Inr v"
proof -
  let ?r = "TlvReader_new_ber (tlv_field t v) ber_limits"
  have "TlvReader_next ?r = Inr (Some \<lparr>f_tag = t, f_value = v, f_depth = r_depth ?r, f_limits = r_limits ?r,
      f_minimal_lengths = r_minimal_lengths ?r\<rparr>, ?r\<lparr>r_bytes := []\<rparr>)"
    by (rule TlvReader_next_field)
       (use assms in \<open>simp_all add: TlvReader_new_ber_def ber_limits_def\<close>)
  moreover have "TlvReader_next (?r\<lparr>r_bytes := []\<rparr>) = Inr (None, ?r\<lparr>r_bytes := []\<rparr>)"
    by (simp add: TlvReader_next_def)
  ultimately show ?thesis by (simp add: ber_single_def at_parsing_def)
qed

definition printed_value :: "bytes \<Rightarrow> bytes" where
  "printed_value k = [0x88, 26, 0x89, 24] @ k"

lemma printed_value_key:
  assumes "length k = 24"
  shows "protected_management_key_from_object (tlv_field (short_tag 0x53) (printed_value k)) = Inr k"
proof -
  have wf: "Tag_wf (short_tag 0x88)" "Tag_wf (short_tag 0x89)" "Tag_wf (short_tag 0x53)"
    by (simp_all add: Tag_wf_def short_tag_def tlv_eval)
  have bs: "Tag_to_bytes (short_tag b) = [b]" if "b \<in> {0x53, 0x88, 0x89}" for b
    using that by (auto simp: short_tag_def Tag_to_bytes_def to_be_bytes_numeral)
  have f: "printed_value k = tlv_field (short_tag 0x88) (tlv_field (short_tag 0x89) k)"
    using assms by (simp add: printed_value_def tlv_field_def bs length_prefix_def)
  have len: "length (tlv_field (short_tag 0x89) k) = 26" "length (printed_value k) = 28"
      "length (tlv_field (short_tag 0x53) (printed_value k)) = 30"
    using assms by (simp_all add: printed_value_def tlv_field_def bs length_prefix_def)
  have "ber_single (tlv_field (short_tag 0x53) (printed_value k)) 0x53 = Inr (printed_value k)"
    "ber_single (printed_value k) 0x88 = Inr (tlv_field (short_tag 0x89) k)"
    "ber_single (tlv_field (short_tag 0x89) k) 0x89 = Inr k"
    using ber_single_field [OF wf(3), of "printed_value k"] ber_single_field [OF wf(1), of "tlv_field (short_tag 0x89) k"]
      ber_single_field [OF wf(2), of k] assms len f
    by (simp_all add: short_tag_def)
  then show ?thesis using assms len by (simp add: protected_management_key_from_object_def)
qed

lemma prepare_rotate_start:
  assumes "prepare_rotate profile key touch opts = Inr m0"
  shows "\<exists>pw. put_command profile \<lparr>tag_value = 0x5fc109, tag_len = 3\<rparr> (printed_value (mk_bytes key)) opts = Inr pw
    \<and> m0 = rotation_start (replacement_command key (touch = ManagementTouchAlways)) pw (ManagementAuthentication_external key)"
  using assms
  by (auto simp: prepare_rotate_def prepare_set_management_key_def prepare_write_object_def piv_prepare_def bindE_eq_Inr
      host_objects printed_value_def rotation_start_def fresh_sequence_def split: if_splits)

lemma change_command_authorised:
  assumes "protection_action bc profile opts repl tr (Action.Command c)" "ins (lc_header c) = 0x24"
  shows "\<exists>k rem tr0 cs new. repl = Some new \<and> rem \<noteq> 0 \<and> tr = tr0 @ cs \<and> key_proved bc profile opts repl k rem tr0
    \<and> puk_changes new cs \<and> length cs < 32"
proof -
  have reads: "ins (lc_header read_admin) \<noteq> 0x24" "ins (lc_header read_printed) \<noteq> 0x24"
    "ins (lc_header (command_metadata ref)) \<noteq> 0x24" for ref
    by (simp_all add: read_admin_def read_printed_def command_get_data_def command_metadata_def piv_read_def piv_cmd_def
        LogicalCommand_new_def ApduHeader_new_def Let_def)
  have auth: "ins (lc_header c) \<noteq> 0x24" if "management_next bc auth mt c" for auth mt
    using that
    by (auto simp: management_next_def ManagementAuthentication_initial_def auth_command_def bindE_eq_Inr
        LogicalCommand_new_def ApduHeader_new_def)
  from assms(1) show ?thesis
  proof cases
    case prove_key
    then show ?thesis using auth assms(2) by blast
  next
    case try_change
    then show ?thesis by blast
  qed (use assms(2) reads in simp_all)
qed

section \<open>Properties\<close>

text \<open>C31: the rotation of a protected management key writes in a recoverable order. Whatever the card
answers, the key is replaced only after the stored policy was read and, where it claims a protected
copy, that copy was found intact; the copy is written only after the card acknowledged the
replacement and the new key was proved by an authentication; success is reported only when every
write the policy requires was acknowledged. The value written as the copy reads back as the new key.\<close>

theorem piv_rotation_order:
  assumes "prepare_rotate profile key touch opts = Inr m0" "length (mk_bytes key) = 24"
    and "trace_run (RotateManagement_ops bc) m0 m resp tr" "m_next (RotateManagement_ops bc) m resp = (m', Inr a)"
  shows "\<exists>pw. put_command profile \<lparr>tag_value = 0x5fc109, tag_len = 3\<rparr> (printed_value (mk_bytes key)) opts = Inr pw
    \<and> protected_management_key_from_object (tlv_field (short_tag 0x53) (printed_value (mk_bytes key))) = Inr (mk_bytes key)
    \<and> rotation_action bc (replacement_command key (touch = ManagementTouchAlways)) pw
        (ManagementAuthentication_external key) tr a"
proof -
  let ?rc = "replacement_command key (touch = ManagementTouchAlways)" and ?au = "ManagementAuthentication_external key"
  obtain pw where pw: "put_command profile \<lparr>tag_value = 0x5fc109, tag_len = 3\<rparr> (printed_value (mk_bytes key)) opts = Inr pw"
    "m0 = rotation_start ?rc pw ?au"
    using prepare_rotate_start [OF assms(1)] by blast
  have step: "rotation_post bc ?rc pw ?au tr (m_next (RotateManagement_ops bc) m resp)"
    if "rotation_inv bc ?rc pw ?au m resp tr" for m resp tr
    using rotation_step [OF that] by (simp add: RotateManagement_ops_def plain_machine_def)
  have "rotation_inv bc ?rc pw ?au m resp tr"
    using assms(3)
  proof (rule machine_run_invariant)
    show "rotation_inv bc ?rc pw ?au m0 None []" using rotation_inv.started pw(2) by simp
  next
    fix m resp tr m' c r tr'
    assume "rotation_inv bc ?rc pw ?au m resp tr" "m_next (RotateManagement_ops bc) m resp = (m', Inr (Action.Command c))"
      "trace_env tr c r tr'"
    then show "rotation_inv bc ?rc pw ?au m' (Some r) tr'"
      using step [of m resp tr] by (simp add: rotation_post_def trace_env_def)
  qed
  from step [OF this] assms(4) pw(1) printed_value_key [OF assms(2)] show ?thesis by (auto simp: rotation_post_def)
qed

definition sample_key :: ManagementKey where
  "sample_key = \<lparr>mk_algorithm = Aes192, mk_bytes = replicate 24 7\<rparr>"

definition rd_missing :: ResponseData where
  "rd_missing = \<lparr>rd_data = [], rd_status = 0x6a82\<rparr>"

lemma default_limits: "max_input_bytes (limits OperationOptions_default) = 1024 * 1024"
  by (simp add: OperationOptions_default_def OperationLimits_default_def)

lemma piv_auth_31:
  assumes "length (mk_bytes k) = 24" "mk_algorithm k = Aes192"
  shows "ManagementAuthentication_validate (ManagementAuthentication_external k) piv_profile OperationOptions_default = Inr ()"
proof -
  have sup: "CapabilityStatus_require (management_key_support piv_profile Aes192) = Inr ()"
    by (simp add: CapabilityStatus_require_def management_key_support_def firmware_range_def recognized_def less_eq_prod_def)
  have v: "validate_command ((LogicalCommand_new h [] Absent)\<lparr>lc_data := d\<rparr>) OperationOptions_default = Inr ()"
    if "length d \<le> 255" for h d
    using that by (intro validate_default) (simp_all add: le_fits_def LogicalCommand_new_def short_command_def)
  have t: "Tag_from_bytes [0x81] = Inr (short_tag 0x81)" "Tag_from_bytes [0x82] = Inr (short_tag 0x82)"
    "Tag_from_bytes [0x7c] = Inr (short_tag 0x7c)"
    by (simp_all add: short_tag_def tlv_eval)
  have tb: "length (Tag_to_bytes (short_tag b)) = 1" for b
    by (simp add: short_tag_def Tag_to_bytes_def to_be_bytes_numeral)
  show ?thesis
    using assms sup
    by (simp add: ManagementAuthentication_validate_def ManagementAuthentication_external_def
        ManagementAuthentication_initial_def auth_command_def t TlvWriter_push_def TlvWriter_new_def length_prefix_def
        checked_add_def usize_max_def tb v)
qed

theorem piv_rotation_order_witness:
  "\<exists>m0 m m' resp tr. prepare_rotate piv_profile sample_key ManagementTouchNever OperationOptions_default = Inr m0
    \<and> trace_run (RotateManagement_ops (\<lambda>_ _ _ x. Some x)) m0 m resp tr \<and> tr = [(read_admin, rd_missing)]
    \<and> m_next (RotateManagement_ops (\<lambda>_ _ _ x. Some x)) m resp
        = (m', Inr (Action.Command (replacement_command sample_key False)))
    \<and> (\<exists>pw. put_command piv_profile \<lparr>tag_value = 0x5fc109, tag_len = 3\<rparr> (printed_value (mk_bytes sample_key))
             OperationOptions_default = Inr pw
         \<and> protected_management_key_from_object (tlv_field (short_tag 0x53) (printed_value (mk_bytes sample_key))) = Inr (mk_bytes sample_key)
         \<and> rotation_action (\<lambda>_ _ _ x. Some x) (replacement_command sample_key (ManagementTouchNever = ManagementTouchAlways)) pw
             (ManagementAuthentication_external sample_key) tr (Action.Command (replacement_command sample_key False)))"
proof -
  let ?bc = "(\<lambda>_ _ _ x. Some x) :: cipher" and ?opts = OperationOptions_default
  let ?i = "\<lparr>tag_value = 0x5fc109, tag_len = 3\<rparr> :: Tag"
  have key: "length (mk_bytes sample_key) = 24" "mk_algorithm sample_key = Aes192" by (simp_all add: sample_key_def)
  have rq: "require piv_profile Piv = Inr ()" "require piv_profile ObjectWrites = Inr ()"
    "CapabilityStatus_require (management_key_support piv_profile Aes192) = Inr ()"
    by (simp_all add: require_eq_Inr object_writes_31 CapabilityStatus_require_def management_key_support_def firmware_range_def
        recognized_def less_eq_prod_def)
  have rc: "validate_command (replacement_command sample_key False) ?opts = Inr ()"
    using key by (intro validate_default) (simp_all add: replacement_command_def LogicalCommand_new_def short_command_def le_fits_def)
  have n: "ObjectId_as_bytes ?i = [0x5f, 0xc1, 9]"
    by (simp add: ObjectId_as_bytes_def Tag_to_bytes_def to_be_bytes_numeral)
  have tb: "Tag_to_bytes (short_tag b) = [b]" if "b \<in> {0x5c, 0x53}" for b
    using that by (auto simp: short_tag_def Tag_to_bytes_def to_be_bytes_numeral)
  have pl: "length ([0x88, 26, 0x89, 24] @ mk_bytes sample_key) = 28" using key by simp
  obtain pw where pw: "put_command piv_profile ?i ([0x88, 26, 0x89, 24] @ mk_bytes sample_key) ?opts = Inr pw"
    "length (lc_data pw) \<le> 255" "\<not> lc_allow_extended pw" "lc_le pw = Absent" "lc_continuation pw = Iso7816 0"
    using pl by (auto simp: put_command_def rq Let_def n short_tags one_byte_tag_def tb TlvWriter_push_def TlvWriter_new_def length_prefix_def
        checked_add_def usize_max_def default_limits LogicalCommand_new_def)
  have "validate_command pw ?opts = Inr ()"
    using pw(2-5)
    by (auto simp: validate_command_def ConversationState_new_def channel_le_def extended_frames_def short_frames_def
        max_short_def default_limits CommandApdu_encode_def header_bytes_def lc_field_def Let_def)
  then obtain m0 where m0: "prepare_rotate piv_profile sample_key ManagementTouchNever ?opts = Inr m0"
    using pw(1) rc key rq piv_auth_31 [OF key]
    by (auto simp: prepare_rotate_def prepare_set_management_key_def prepare_write_object_def piv_prepare_def host_objects)
  obtain w where w: "m0 = rotation_start (replacement_command sample_key False) w (ManagementAuthentication_external sample_key)"
    using prepare_rotate_start [OF m0] by auto
  obtain m resp tr where rep: "replay (RotateManagement_ops ?bc) m0 None [rd_missing] [] = (m, resp, tr)"
    by (metis prod_cases3)
  have run: "trace_run (RotateManagement_ops ?bc) m0 m resp tr" using rep by (rule replay_from_start)
  have "tr = [(read_admin, rd_missing)] \<and> (\<exists>m'. m_next (RotateManagement_ops ?bc) m resp
      = (m', Inr (Action.Command (replacement_command sample_key False))))"
    using rep w
    by (auto simp: RotateManagement_ops_def plain_machine_def RotateManagement_next_def rotation_start_def host_objects
        rotate_admin_def rd_missing_def rotate_replace_def fresh_sequence_next read_admin_def)
  then obtain m' where nx: "tr = [(read_admin, rd_missing)]"
    "m_next (RotateManagement_ops ?bc) m resp = (m', Inr (Action.Command (replacement_command sample_key False)))" by blast
  show ?thesis using piv_rotation_order [OF m0 key(1) run nx(2)] m0 run nx by blast
qed

text \<open>C30: \<open>pin_managed\<close> never touches the PUK unless the caller authorised it. A command that changes
the PUK is sent only when the caller supplied replacement bytes, the policy claims protection and a
blocked PUK, the live counter is not yet zero, and the recovered management key was proved by an
authentication; fewer than 32 such commands precede it. A returned key is the protected one, proved
to the card, and the PUK counter was zero before or is confirmed zero after the changes.\<close>

theorem piv_pin_managed_safe:
  assumes "pin_managed profile block access opts = Inr op" "op_machine op = Some s0"
    and "trace_run (PinManaged_ops bc) (se_target s0) m resp tr" "m_next (PinManaged_ops bc) m resp = (m', Inr a)"
  shows "\<exists>repl. (repl \<noteq> None \<longleftrightarrow> block \<noteq> None) \<and> protection_action bc profile opts repl tr a
    \<and> (\<forall>c. a = Action.Command c \<and> ins (lc_header c) = 0x24 \<longrightarrow>
         (\<exists>k rem tr0 cs new. block \<noteq> None \<and> rem \<noteq> 0 \<and> tr = tr0 @ cs \<and> key_proved bc profile opts repl k rem tr0
            \<and> puk_changes new cs \<and> length cs < 32))"
proof -
  obtain repl where repl: "repl \<noteq> None \<longleftrightarrow> block \<noteq> None" and w: "with_access profile access (PinManaged_new profile opts repl) opts = Inr op"
    using assms(1) by (cases block) (auto simp: pin_managed_def bindE_eq_Inr split: if_splits)
  have t: "se_target s0 = PinManaged_new profile opts repl"
    using w assms(2) by (auto simp: with_access_def Operation_from_machine_def Selected_new_def bindE_eq_Inr)
  have step: "protection_post bc profile opts repl tr (m_next (PinManaged_ops bc) m resp)"
    if "protection_inv bc profile opts repl m resp tr" for m resp tr
    using protection_step [OF that] by (simp add: PinManaged_ops_def plain_machine_def)
  have "protection_inv bc profile opts repl m resp tr"
    using assms(3)
  proof (rule machine_run_invariant)
    show "protection_inv bc profile opts repl (se_target s0) None []" using pm_started t by simp
  next
    fix m resp tr m' c r tr'
    assume "protection_inv bc profile opts repl m resp tr" "m_next (PinManaged_ops bc) m resp = (m', Inr (Action.Command c))"
      "trace_env tr c r tr'"
    then show "protection_inv bc profile opts repl m' (Some r) tr'"
      using step [of m resp tr] by (simp add: protection_post_def trace_env_def)
  qed
  from step [OF this] assms(4) have act: "protection_action bc profile opts repl tr a" by (simp add: protection_post_def)
  then show ?thesis using change_command_authorised repl by (metis option.discI)
qed

definition rd_policy :: ResponseData where
  "rd_policy = \<lparr>rd_data = [0x53, 5, 0x80, 3, 0x81, 1, 3], rd_status = 0x9000\<rparr>"

lemma sample_policy: "pin_managed_admin rd_policy = Inr ()"
proof -
  have "ber_single (rd_data rd_policy) 0x53 = Inr [0x80, 3, 0x81, 1, 3]"
    "ber_single [0x80, 3, 0x81, 1, 3] 0x80 = Inr [0x81, 1, 3]"
    by (simp_all add: rd_policy_def ber_single_def at_parsing_def TlvReader_new_ber_def ber_limits_def tlv_eval)
  moreover have "tlv_loop admin_field (TlvReader_new_ber [0x81, 1, 3] ber_limits)
      \<lparr>af_flags = None, af_salt = False, af_date = False\<rparr> = Inr \<lparr>af_flags = Some 3, af_salt = False, af_date = False\<rparr>"
    by (simp add: tlv_loop.simps admin_field_def TlvReader_new_ber_def ber_limits_def tlv_eval)
  ultimately show ?thesis
    by (simp add: pin_managed_admin_def ResponseData_ensure_success_def from_admin_object_def at_parsing_def
        claims_blocked_puk_def protects_management_key_def) (simp add: rd_policy_def)
qed

theorem piv_pin_managed_safe_witness:
  "\<exists>op s0 m resp tr m' repl.
     pin_managed piv_profile (Some (replicate 8 0)) NoAccess OperationOptions_default = Inr op \<and> op_machine op = Some s0
     \<and> trace_run (PinManaged_ops (\<lambda>_ _ _ x. Some x)) (se_target s0) m resp tr \<and> tr = [(read_admin, rd_policy)]
     \<and> m_next (PinManaged_ops (\<lambda>_ _ _ x. Some x)) m resp = (m', Inr (Action.Command read_puk))
     \<and> protection_action (\<lambda>_ _ _ x. Some x) piv_profile OperationOptions_default repl tr (Action.Command read_puk)"
proof -
  let ?bc = "(\<lambda>_ _ _ x. Some x) :: cipher" and ?opts = OperationOptions_default
  have v: "validate_command command_select ?opts = Inr ()"
    by (rule validate_default) (simp_all add: command_select_def le_fits_def)
  have rq: "require piv_profile Piv = Inr ()" by (simp add: require_eq_Inr)
  have "supports piv_profile Capability.Metadata"
    by (simp add: supports_def capability_def threshold_capability_def less_eq_prod_def)
  then have mq: "require piv_profile Capability.Metadata = Inr ()" by (simp add: require_eq_Inr)
  obtain op s0 where op: "pin_managed piv_profile (Some (replicate 8 0)) NoAccess ?opts = Inr op" "op_machine op = Some s0"
    and t: "se_target s0 = PinManaged_new piv_profile ?opts (Some (map (\<lambda>b. 0x30 + b mod 10) (replicate 8 0)))"
    using v rq mq
    by (auto simp: pin_managed_def with_access_def Operation_from_machine_def Selected_new_def)
  obtain m resp tr where rep: "replay (PinManaged_ops ?bc) (se_target s0) None [rd_policy] [] = (m, resp, tr)"
    by (metis prod_cases3)
  have run: "trace_run (PinManaged_ops ?bc) (se_target s0) m resp tr" using rep by (rule replay_from_start)
  have "tr = [(read_admin, rd_policy)] \<and> (\<exists>m'. m_next (PinManaged_ops ?bc) m resp = (m', Inr (Action.Command read_puk)))"
    using rep t
    by (auto simp: PinManaged_ops_def plain_machine_def PinManaged_next_def PinManaged_new_def host_objects PinManaged_react_def
        sample_policy read_admin_def)
  then obtain m' where nx: "tr = [(read_admin, rd_policy)]"
    "m_next (PinManaged_ops ?bc) m resp = (m', Inr (Action.Command read_puk))" by blast
  show ?thesis using piv_pin_managed_safe [OF op run nx(2)] op run nx by blast
qed

end
