(* ===== verification/Piv_Config.thy ===== *)
theory Piv_Config
  imports Piv_Objects
begin

text \<open>
  The explicit configuration operations of the PIV applet, \<open>canokey-piv/src/configuration.rs\<close>:
  container names and their UTF-16 encoding, moving and deleting keys, the reset of PIN and PUK
  retries, the algorithm configuration, attestation and the reset of the applet. A Rust \<open>str\<close>
  or \<open>String\<close> is the list of its code points (Unicode scalar values).
\<close>

section \<open>UTF-16\<close>

type_synonym codepoints = "nat list"

definition is_scalar :: "nat \<Rightarrow> bool" where
  "is_scalar c \<longleftrightarrow> c < 0xd800 \<or> (0xe000 \<le> c \<and> c < 0x110000)"

text \<open>\<open>str::encode_utf16\<close>: one unit, or a surrogate pair above the basic plane.\<close>

definition encode_char :: "nat \<Rightarrow> 16 word list" where
  "encode_char c =
     (if c < 0x10000 then [of_nat c]
      else [of_nat (0xd800 + (c - 0x10000) div 0x400), of_nat (0xdc00 + (c - 0x10000) mod 0x400)])"

definition encode_utf16 :: "codepoints \<Rightarrow> 16 word list" where
  "encode_utf16 text = concat (map encode_char text)"

text \<open>\<open>char::decode_utf16\<close>: a code point per unit or pair, \<open>None\<close> for an unpaired surrogate.\<close>

fun decode_utf16 :: "16 word list \<Rightarrow> nat option list" where
  "decode_utf16 [] = []"
| "decode_utf16 (u # rest) =
     (if u < 0xd800 \<or> 0xe000 \<le> u then Some (unat u) # decode_utf16 rest
      else if 0xdc00 \<le> u then None # decode_utf16 rest
      else case rest of
        [] \<Rightarrow> [None]
      | v # rest2 \<Rightarrow>
          if 0xdc00 \<le> v \<and> v < 0xe000
          then Some (0x10000 + (unat u - 0xd800) * 0x400 + (unat v - 0xdc00)) # decode_utf16 rest2
          else None # decode_utf16 rest)"

text \<open>\<open>u16::to_le_bytes\<close>, and \<open>from_le_bytes\<close> over \<open>chunks_exact(2)\<close>.\<close>

definition unit_bytes :: "16 word \<Rightarrow> bytes" where
  "unit_bytes u = [ucast u, ucast (drop_bit 8 u)]"

fun le_units :: "bytes \<Rightarrow> 16 word list" where
  "le_units (a # b # rest) = (ucast a OR push_bit 8 (ucast b)) # le_units rest"
| "le_units _ = []"

section \<open>Container names\<close>

datatype ContainerNameReference = NameKey Slot | NameAttestation

fun ContainerNameReference_reference :: "ContainerNameReference \<Rightarrow> byte" where
  "ContainerNameReference_reference (NameKey slot) = Slot_reference slot"
| "ContainerNameReference_reference NameAttestation = 0xf9"

type_synonym ContainerName = bytes

definition ContainerName_from_utf16le :: "bytes \<Rightarrow> ContainerName res" where
  "ContainerName_from_utf16le d =
     (if length d > 78 \<or> length d mod 2 \<noteq> 0 then Inl (Error_new InvalidArgument)
      else if list_ex (\<lambda>ch. ch = None \<or> ch = Some 0) (decode_utf16 (le_units d))
      then Inl (Error_new InvalidArgument)
      else Inr d)"

definition ContainerName_from_text :: "codepoints \<Rightarrow> ContainerName res" where
  "ContainerName_from_text text =
     (if length (encode_utf16 text) > 39 then Inl (Error_new InvalidArgument)
      else ContainerName_from_utf16le (concat (map unit_bytes (encode_utf16 text))))"

text \<open>\<open>String::from_utf16_lossy\<close> replaces what does not decode by U+FFFD.\<close>

definition ContainerName_text :: "ContainerName \<Rightarrow> codepoints" where
  "ContainerName_text name =
     map (\<lambda>ch. case ch of Some c \<Rightarrow> c | None \<Rightarrow> 0xfffd) (decode_utf16 (le_units name))"

section \<open>Operations\<close>

definition config_checked :: "DeviceProfile \<Rightarrow> Capability \<Rightarrow> Slot option \<Rightarrow> unit res" where
  "config_checked profile feature slot =
     bindE (require profile Piv) (\<lambda>_.
     bindE (require profile feature) (\<lambda>_.
       case slot of
         None \<Rightarrow> Inr ()
       | Some s \<Rightarrow> CapabilityStatus_require (piv_slot_support profile (Slot_reference s))))"

fun name_slot :: "ContainerNameReference \<Rightarrow> Slot option" where
  "name_slot (NameKey slot) = Some slot"
| "name_slot NameAttestation = None"

definition ContainerNameReference_check :: "ContainerNameReference \<Rightarrow> DeviceProfile \<Rightarrow> unit res" where
  "ContainerNameReference_check ref profile = config_checked profile ContainerNames (name_slot ref)"

definition config_command :: "byte \<Rightarrow> byte \<Rightarrow> byte \<Rightarrow> bytes \<Rightarrow> bool \<Rightarrow> LogicalCommand" where
  "config_command instr a b d read =
     (LogicalCommand_new (ApduHeader_new 0 instr a b) [] (if read then Exact 256 else Absent))
       \<lparr>lc_data := d, lc_correct_le := read\<rparr>"

definition parse_name :: "ResponseData \<Rightarrow> ContainerName res" where
  "parse_name r =
     bindE (ResponseData_ensure_success r Phase.Command) (\<lambda>_.
       case ContainerName_from_utf16le (rd_data r) of Inl _ \<Rightarrow> Inl invalid_parsing | Inr n \<Rightarrow> Inr n)"

definition prepare_read_name ::
  "DeviceProfile \<Rightarrow> ContainerNameReference \<Rightarrow> OperationOptions \<Rightarrow> ContainerName Sequence res" where
  "prepare_read_name profile ref opts =
     bindE (ContainerNameReference_check ref profile) (\<lambda>_.
       piv_prepare (config_command 0xf5 0 (ContainerNameReference_reference ref) [] True) opts parse_name)"

definition read_container_name ::
  "DeviceProfile \<Rightarrow> ContainerNameReference \<Rightarrow> Access \<Rightarrow> OperationOptions
   \<Rightarrow> (ContainerName Sequence Selected, ContainerName) Operation res" where
  "read_container_name profile ref access opts =
     bindE (prepare_read_name profile ref opts) (\<lambda>target. with_access profile access target opts)"

definition set_name_command :: "ContainerNameReference \<Rightarrow> ContainerName \<Rightarrow> LogicalCommand" where
  "set_name_command ref name =
     (let c = config_command 0xf5 1 (ContainerNameReference_reference ref) name False
      in if lc_data c = [] then c\<lparr>lc_le := Exact 256\<rparr> else c)"

definition prepare_set_name ::
  "DeviceProfile \<Rightarrow> ContainerNameReference \<Rightarrow> ContainerName \<Rightarrow> OperationOptions \<Rightarrow> MutationResult Sequence res"
where
  "prepare_set_name profile ref name opts =
     bindE (ContainerNameReference_check ref profile) (\<lambda>_.
       piv_prepare (set_name_command ref name) opts piv_mutation)"

definition set_container_name ::
  "DeviceProfile \<Rightarrow> ContainerNameReference \<Rightarrow> ContainerName \<Rightarrow> Access \<Rightarrow> OperationOptions
   \<Rightarrow> (MutationResult Sequence Selected, MutationResult) Operation res" where
  "set_container_name profile ref name access opts =
     bindE (require_management access) (\<lambda>_.
     bindE (prepare_set_name profile ref name opts) (\<lambda>target. with_access profile access target opts))"

definition move_delete_command :: "Slot \<Rightarrow> Slot option \<Rightarrow> LogicalCommand" where
  "move_delete_command source target =
     config_command 0xf6 (case target of None \<Rightarrow> 0xff | Some t \<Rightarrow> Slot_reference t) (Slot_reference source) [] False"

definition prepare_move_delete ::
  "DeviceProfile \<Rightarrow> Slot \<Rightarrow> Slot option \<Rightarrow> OperationOptions \<Rightarrow> MutationResult Sequence res" where
  "prepare_move_delete profile source target opts =
     bindE (config_checked profile KeyMoveDelete (Some source)) (\<lambda>_.
     bindE (case target of
              None \<Rightarrow> Inr ()
            | Some t \<Rightarrow>
                bindE (CapabilityStatus_require (piv_slot_support profile (Slot_reference t))) (\<lambda>_.
                  if t = source then Inl (Error_new InvalidArgument) else Inr ())) (\<lambda>_.
       piv_prepare (move_delete_command source target) opts piv_mutation))"

definition move_key ::
  "DeviceProfile \<Rightarrow> Slot \<Rightarrow> Slot \<Rightarrow> Access \<Rightarrow> OperationOptions
   \<Rightarrow> (MutationResult Sequence Selected, MutationResult) Operation res" where
  "move_key profile source target access opts =
     bindE (require_management access) (\<lambda>_.
     bindE (prepare_move_delete profile source (Some target) opts) (\<lambda>s. with_access profile access s opts))"

definition delete_key ::
  "DeviceProfile \<Rightarrow> Slot \<Rightarrow> Access \<Rightarrow> OperationOptions
   \<Rightarrow> (MutationResult Sequence Selected, MutationResult) Operation res" where
  "delete_key profile slot access opts =
     bindE (require_management access) (\<lambda>_.
     bindE (prepare_move_delete profile slot None opts) (\<lambda>s. with_access profile access s opts))"

definition retry_limit_ok :: "byte \<Rightarrow> bool" where
  "retry_limit_ok n \<longleftrightarrow> 1 \<le> n \<and> n \<le> 15"

definition prepare_retry_reset ::
  "DeviceProfile \<Rightarrow> byte \<Rightarrow> byte \<Rightarrow> OperationOptions \<Rightarrow> MutationResult Sequence res" where
  "prepare_retry_reset profile pin puk opts =
     bindE (config_checked profile RetryReset None) (\<lambda>_.
       if \<not> retry_limit_ok pin \<or> \<not> retry_limit_ok puk then Inl (Error_new InvalidArgument)
       else piv_prepare (config_command 0xfa pin puk [] False) opts piv_mutation)"

definition reset_pin_puk_retries ::
  "DeviceProfile \<Rightarrow> byte \<Rightarrow> byte \<Rightarrow> Access \<Rightarrow> OperationOptions
   \<Rightarrow> (MutationResult Sequence Selected, MutationResult) Operation res" where
  "reset_pin_puk_retries profile pin_retries puk_retries access opts =
     (if (case access of PinAndManagement _ _ \<Rightarrow> True | Existing \<Rightarrow> True | _ \<Rightarrow> False) then
        bindE (prepare_retry_reset profile pin_retries puk_retries opts) (\<lambda>target.
          with_access profile access target opts)
      else Inl (Error_new InvalidArgument))"

text \<open>A mutation after which the device profile has to be probed again.\<close>

definition piv_reprobe :: "ResponseData \<Rightarrow> MutationResult res" where
  "piv_reprobe r = bindE (piv_mutation r) (\<lambda>_. Inr \<lparr>mr_profile_effect = ReprobeRequired\<rparr>)"

definition writable_config :: "AlgorithmConfig \<Rightarrow> bool" where
  "writable_config config \<longleftrightarrow>
     length (ac_raw config) = 10
     \<and> \<not> (ac_enabled config
          \<and> list_ex (\<lambda>b. b \<in> {0, 0x0a, 0x07, 0x11, 0x14, 0xff}) (drop 1 (ac_raw config)))"

definition prepare_config ::
  "DeviceProfile \<Rightarrow> AlgorithmConfig \<Rightarrow> OperationOptions \<Rightarrow> MutationResult Sequence res" where
  "prepare_config profile config opts =
     bindE (config_checked profile AlgorithmConfigWrite None) (\<lambda>_.
       if \<not> writable_config config then Inl (Error_new InvalidArgument)
       else piv_prepare (config_command 0xee 2 0 (ac_raw config) False) opts piv_reprobe)"

definition set_algorithm_config ::
  "DeviceProfile \<Rightarrow> AlgorithmConfig \<Rightarrow> Access \<Rightarrow> OperationOptions
   \<Rightarrow> (MutationResult Sequence Selected, MutationResult) Operation res" where
  "set_algorithm_config profile config access opts =
     bindE (require_management access) (\<lambda>_.
     bindE (prepare_config profile config opts) (\<lambda>target. with_access profile access target opts))"

definition parse_attestation :: "ResponseData \<Rightarrow> bytes res" where
  "parse_attestation r =
     bindE (ResponseData_ensure_success r Phase.Command) (\<lambda>_.
       if rd_data r = [] then Inl invalid_parsing else Inr (rd_data r))"

definition prepare_attest :: "DeviceProfile \<Rightarrow> Slot \<Rightarrow> OperationOptions \<Rightarrow> bytes Sequence res" where
  "prepare_attest profile slot opts =
     bindE (config_checked profile Attestation (Some slot)) (\<lambda>_.
       piv_prepare ((config_command 0xf9 (Slot_reference slot) 0 [] True)\<lparr>lc_correct_le := False\<rparr>) opts
         parse_attestation)"

definition attest ::
  "DeviceProfile \<Rightarrow> Slot \<Rightarrow> bool \<Rightarrow> OperationOptions \<Rightarrow> (bytes Sequence Selected, bytes) Operation res" where
  "attest profile slot select opts =
     bindE (prepare_attest profile slot opts) (\<lambda>target.
       with_access profile (if select then NoAccess else Existing) target opts)"

definition reset_piv ::
  "DeviceProfile \<Rightarrow> OperationOptions \<Rightarrow> (MutationResult Sequence Selected, MutationResult) Operation res" where
  "reset_piv profile opts =
     bindE (config_checked profile PivReset None) (\<lambda>_.
     bindE (piv_prepare (config_command 0xfb 0 0 [] False) opts piv_reprobe) (\<lambda>target.
       with_access profile NoAccess target opts))"

section \<open>UTF-16 lemmas\<close>

lemma unit_of_nat: "n < 65536 \<Longrightarrow> unat (of_nat n :: 16 word) = n"
  by (simp add: unat_of_nat take_bit_nat_eq_self)

lemma decode_pair:
  assumes "0xd800 \<le> u" "u < 0xdc00" "0xdc00 \<le> v" "v < 0xe000"
    "unat u = 0xd800 + hi" "unat v = 0xdc00 + lo"
  shows "decode_utf16 (u # v # rest) = Some (0x10000 + hi * 0x400 + lo) # decode_utf16 rest"
proof -
  have "(0xdc00 :: 16 word) \<le> 0xe000" by simp
  then have "u < 0xe000" using assms(2) by (rule order.strict_trans2 [rotated])
  then have "\<not> (u < 0xd800 \<or> 0xe000 \<le> u)" "\<not> 0xdc00 \<le> u"
    using assms(1,2) by (simp_all only: not_less not_le de_Morgan_disj simp_thms)
  then show ?thesis using assms(3-6) by (simp only: decode_utf16.simps list.case if_False if_True simp_thms) simp
qed

lemma decode_encode_char:
  assumes "is_scalar c"
  shows "decode_utf16 (encode_char c @ rest) = Some c # decode_utf16 rest"
proof (cases "c < 0x10000")
  case True
  then show ?thesis using assms
    by (auto simp: encode_char_def is_scalar_def word_less_nat_alt word_le_nat_alt unit_of_nat)
next
  case False
  define d where "d = c - 0x10000"
  define hi where "hi = d div 0x400"
  define lo where "lo = d mod 0x400"
  have c: "c = 0x10000 + hi * 0x400 + lo" using False by (simp add: d_def hi_def lo_def)
  have "d < 0x100000" using assms False by (auto simp: is_scalar_def d_def)
  then have b: "hi < 0x400" "lo < 0x400" by (simp_all add: div_less_iff_less_mult hi_def lo_def)
  have u: "unat (of_nat (0xd800 + hi) :: 16 word) = 0xd800 + hi"
    and v: "unat (of_nat (0xdc00 + lo) :: 16 word) = 0xdc00 + lo"
    by (rule unit_of_nat; use b in linarith)+
  have enc: "encode_char c = [of_nat (0xd800 + hi), of_nat (0xdc00 + lo)]"
    using False by (simp add: encode_char_def d_def hi_def lo_def del: of_nat_add)
  have "decode_utf16 (of_nat (0xd800 + hi) # of_nat (0xdc00 + lo) # rest)
      = Some (0x10000 + hi * 0x400 + lo) # decode_utf16 rest"
    by (rule decode_pair) (use b u v in \<open>simp_all add: word_less_nat_alt word_le_nat_alt del: of_nat_add\<close>)
  then show ?thesis by (simp only: enc append_Cons append_Nil c [symmetric])
qed

lemma decode_encode_utf16:
  assumes "list_all is_scalar cps"
  shows "decode_utf16 (encode_utf16 cps) = map Some cps"
  using assms by (induction cps) (simp_all add: encode_utf16_def decode_encode_char)

lemma encode_pair:
  assumes "0xd800 \<le> unat u" "unat u < 0xdc00" "0xdc00 \<le> unat v" "unat v < 0xe000"
    and k: "k = (unat u - 0xd800) * 0x400 + (unat v - 0xdc00)"
  shows "encode_char (0x10000 + k) = [u, v]" "is_scalar (0x10000 + k)"
proof -
  have lo: "unat v - 0xdc00 < 0x400" using assms by linarith
  then have kd: "k div 0x400 = unat u - 0xd800" "k mod 0x400 = unat v - 0xdc00"
    by (simp_all add: k)
  have "0xd800 + k div 0x400 = unat u" "0xdc00 + k mod 0x400 = unat v"
    using assms(1,3) by (simp_all only: kd le_add_diff_inverse)
  then show "encode_char (0x10000 + k) = [u, v]"
    by (simp add: encode_char_def del: of_nat_add)
  show "is_scalar (0x10000 + k)"
    unfolding is_scalar_def using assms by linarith
qed

lemma decode_cases:
  assumes "None \<notin> set (decode_utf16 (u # rest))"
  shows "(u < 0xd800 \<or> 0xe000 \<le> u) \<or> (\<exists>v rest2. rest = v # rest2 \<and> 0xd800 \<le> u \<and> u < 0xdc00 \<and> 0xdc00 \<le> v \<and> v < 0xe000)"
proof (cases "u < 0xd800 \<or> 0xe000 \<le> u")
  case False
  then show ?thesis
    using assms by (cases rest; simp add: not_less not_le split: if_splits)
qed blast

lemma encode_decoded:
  assumes "None \<notin> set (decode_utf16 us)"
  shows "encode_utf16 (map the (decode_utf16 us)) = us \<and> list_all is_scalar (map the (decode_utf16 us))"
  using assms
proof (induction us rule: length_induct)
  case (1 us)
  show ?case
  proof (cases us)
    case (Cons u rest)
    show ?thesis
    proof (cases "u < 0xd800 \<or> 0xe000 \<le> u")
      case True
      have "unat u < 65536" using unsigned_less [of u] by simp
      then have "encode_char (unat u) = [u]" "is_scalar (unat u)"
        using True by (auto simp: encode_char_def is_scalar_def word_less_nat_alt word_le_nat_alt)
      moreover have "decode_utf16 us = Some (unat u) # decode_utf16 rest" using Cons True by simp
      ultimately show ?thesis using 1 Cons by (auto simp: encode_utf16_def)
    next
      case False
      then obtain v rest2 where r: "rest = v # rest2" "0xd800 \<le> u" "u < 0xdc00" "0xdc00 \<le> v" "v < 0xe000"
        using decode_cases 1(2) Cons by blast
      have n: "0xd800 \<le> unat u" "unat u < 0xdc00" "0xdc00 \<le> unat v" "unat v < 0xe000"
        using r(2-) by (simp_all add: word_less_nat_alt word_le_nat_alt)
      define k where "k = (unat u - 0xd800) * 0x400 + (unat v - 0xdc00)"
      have "decode_utf16 us = Some (0x10000 + (unat u - 0xd800) * 0x400 + (unat v - 0xdc00)) # decode_utf16 rest2"
        unfolding Cons r(1) using r n by (intro decode_pair) simp_all
      then have "decode_utf16 us = Some (0x10000 + k) # decode_utf16 rest2" by (simp add: k_def)
      moreover have "encode_char (0x10000 + k) = [u, v]" "is_scalar (0x10000 + k)"
        by (rule encode_pair [OF n k_def])+
      ultimately show ?thesis using 1 Cons r(1) by (auto simp: encode_utf16_def)
    qed
  qed (simp add: encode_utf16_def)
qed

lemma le_units_bytes: "le_units (concat (map unit_bytes us)) = us"
proof (induction us)
  case (Cons u us)
  have "(ucast (ucast u :: byte) OR push_bit 8 (ucast (ucast (drop_bit 8 u) :: byte)) :: 16 word) = u"
    by (rule bit_eqI) (auto simp: bit_simps)
  then show ?case using Cons by (simp add: unit_bytes_def)
qed simp

lemma unit_bytes_le: "even (length d) \<Longrightarrow> concat (map unit_bytes (le_units d)) = d"
proof (induction d rule: le_units.induct)
  case (1 a b rest)
  have "ucast (ucast a OR push_bit 8 (ucast b) :: 16 word) = a"
    "ucast (drop_bit 8 (ucast a OR push_bit 8 (ucast b) :: 16 word)) = b"
    by (rule bit_eqI; auto simp: bit_simps dest: bit_imp_le_length)+
  then show ?case using 1 by (simp add: unit_bytes_def)
qed simp_all

lemma length_unit_bytes: "length (concat (map unit_bytes us)) = 2 * length us"
  by (induction us) (simp_all add: unit_bytes_def)

section \<open>Properties\<close>

lemma from_utf16le_iff:
  "ContainerName_from_utf16le d = Inr n \<longleftrightarrow>
    n = d \<and> length d \<le> 78 \<and> even (length d) \<and> None \<notin> set (decode_utf16 (le_units d)) \<and> Some 0 \<notin> set (decode_utf16 (le_units d))"
  by (auto simp: ContainerName_from_utf16le_def list_ex_iff even_iff_mod_2_eq_zero)

lemma name_to_text:
  assumes "ContainerName_from_utf16le d = Inr name"
  shows "list_all is_scalar (ContainerName_text name) \<and> ContainerName_from_text (ContainerName_text name) = Inr d"
proof -
  have n: "name = d" "length d \<le> 78" "even (length d)" "None \<notin> set (decode_utf16 (le_units d))"
    "Some 0 \<notin> set (decode_utf16 (le_units d))" using assms by (auto simp: from_utf16le_iff)
  have name_text: "ContainerName_text d = map the (decode_utf16 (le_units d))"
    using n(4) by (auto simp: ContainerName_text_def split: option.splits)
  have enc: "encode_utf16 (ContainerName_text d) = le_units d" "list_all is_scalar (ContainerName_text d)"
    using encode_decoded [OF n(4)] name_text by simp_all
  have "length (le_units d) \<le> 39"
    using n(2) length_unit_bytes [of "le_units d"] unit_bytes_le [OF n(3)] by simp
  then show ?thesis
    using n enc by (simp add: ContainerName_from_text_def unit_bytes_le from_utf16le_iff)
qed

text \<open>Container names and text are two forms of one thing. A text is accepted exactly when it has at
most 39 UTF-16 units and no NUL, and the name gives the same text back; a name read from a card
gives a text that encodes to the same bytes.\<close>

theorem container_name_roundtrip:
  assumes "list_all is_scalar cps"
  shows "((\<exists>name. ContainerName_from_text cps = Inr name) \<longleftrightarrow> length (encode_utf16 cps) \<le> 39 \<and> 0 \<notin> set cps)
    \<and> (\<forall>name. ContainerName_from_text cps = Inr name \<longrightarrow> ContainerName_text name = cps)
    \<and> (\<forall>d name. ContainerName_from_utf16le d = Inr name \<longrightarrow>
         list_all is_scalar (ContainerName_text name) \<and> ContainerName_from_text (ContainerName_text name) = Inr d)"
proof -
  have dec: "decode_utf16 (le_units (concat (map unit_bytes (encode_utf16 cps)))) = map Some cps"
    by (simp add: le_units_bytes decode_encode_utf16 assms)
  have "(\<exists>name. ContainerName_from_text cps = Inr name) \<longleftrightarrow> length (encode_utf16 cps) \<le> 39 \<and> 0 \<notin> set cps"
    by (auto simp: ContainerName_from_text_def from_utf16le_iff dec length_unit_bytes)
  moreover have "ContainerName_text name = cps" if "ContainerName_from_text cps = Inr name" for name
    using that
    by (auto simp: ContainerName_from_text_def from_utf16le_iff ContainerName_text_def dec comp_def split: if_splits)
  ultimately show ?thesis using name_to_text by blast
qed

theorem container_name_roundtrip_witness:
  "list_all is_scalar [0x4b, 0x1f600]
    \<and> ContainerName_from_text [0x4b, 0x1f600] = Inr [0x4b, 0, 0x3d, 0xd8, 0, 0xde]
    \<and> ContainerName_text [0x4b, 0, 0x3d, 0xd8, 0, 0xde] = [0x4b, 0x1f600]"
proof -
  have s: "list_all is_scalar [0x4b, 0x1f600]" by (simp add: is_scalar_def)
  have u: "concat (map unit_bytes (encode_utf16 [0x4b, 0x1f600])) = [0x4b, 0, 0x3d, 0xd8, 0, 0xde]"
    by (simp add: encode_utf16_def encode_char_def unit_bytes_def)
  have "\<exists>name. ContainerName_from_text [0x4b, 0x1f600] = Inr name"
    using container_name_roundtrip [OF s] by (simp add: encode_utf16_def encode_char_def)
  then have "ContainerName_from_text [0x4b, 0x1f600] = Inr [0x4b, 0, 0x3d, 0xd8, 0, 0xde]"
    by (auto simp: ContainerName_from_text_def u from_utf16le_iff split: if_splits)
  then show ?thesis using s container_name_roundtrip [OF s] by blast
qed

end
