(* ===== verification/Piv_Keys.thy ===== *)
theory Piv_Keys
  imports Piv_Objects
begin

text \<open>
  Keys of the PIV applet: generation, import and the occupancy check (\<open>keys.rs\<close>) and the
  private operations sign, decrypt, derive and decapsulate (\<open>private.rs\<close>). The elliptic-curve
  packages are parameters: \<open>scalar_ok\<close> and \<open>point_ok\<close> say whether their parsers accept a secret
  scalar or an uncompressed point of an algorithm's curve, and the record \<open>EcDer\<close> holds the
  operations of the \<open>der\<close> package on unsigned integers and signature sequences.
\<close>

section \<open>Key material\<close>

record KeyParameters =
  kp_slot :: Slot
  kp_algorithm :: Algorithm
  kp_pin_policy :: PinPolicy
  kp_touch_policy :: TouchPolicy

definition KeyParameters_new :: "Slot \<Rightarrow> Algorithm \<Rightarrow> KeyParameters" where
  "KeyParameters_new slot algorithm =
     \<lparr>kp_slot = slot, kp_algorithm = algorithm, kp_pin_policy = PinDefault, kp_touch_policy = TouchDefault\<rparr>"

record PrivateKeyMaterial =
  pk_algorithm :: Algorithm
  pk_fields :: bytes

fun crt_fields :: "nat \<Rightarrow> nat \<Rightarrow> TlvWriter \<Rightarrow> bytes list \<Rightarrow> TlvWriter res" where
  "crt_fields width index w [] = Inr w"
| "crt_fields width index w (v # vs) =
     (if v = [] \<or> length v > width \<or> list_all (\<lambda>b. b = 0) v then Inl (Error_new InvalidArgument)
      else bindE (Tag_from_bytes [of_nat index + 1]) (\<lambda>t.
           bindE (TlvWriter_push w t (replicate (width - length v) 0 @ v)) (\<lambda>w'.
             crt_fields width (index + 1) w' vs)))"

text \<open>The source's argument is an array of five components.\<close>

definition rsa_crt :: "Algorithm \<Rightarrow> bytes list \<Rightarrow> PrivateKeyMaterial res" where
  "rsa_crt algorithm components =
     bindE (ok_or (rsa_len algorithm) (Error_new UnsupportedAlgorithm)) (\<lambda>len.
     bindE (crt_fields (len div 2) 0 (TlvWriter_new 1400) components) (\<lambda>w.
       Inr \<lparr>pk_algorithm = algorithm, pk_fields = w_bytes w\<rparr>))"

definition material_field :: "Algorithm \<Rightarrow> byte \<Rightarrow> bytes \<Rightarrow> nat \<Rightarrow> PrivateKeyMaterial res" where
  "material_field algorithm t bs len =
     (if length bs \<noteq> len then Inl (Error_new InvalidArgument)
      else bindE (push_fields (TlvWriter_new (len + 2)) [(t, bs)]) (\<lambda>w.
        Inr \<lparr>pk_algorithm = algorithm, pk_fields = w_bytes w\<rparr>))"

definition scalar_curves :: "Algorithm list" where
  "scalar_curves = [EccP256, EccP384, EccP521, Secp256k1, Sm2]"

definition ec_scalar :: "(Algorithm \<Rightarrow> bytes \<Rightarrow> bool) \<Rightarrow> Algorithm \<Rightarrow> bytes \<Rightarrow> PrivateKeyMaterial res" where
  "ec_scalar scalar_ok algorithm bs =
     (if curve_len algorithm \<noteq> Some (length bs) then Inl (Error_new InvalidArgument)
      else if algorithm \<notin> set scalar_curves then Inl (Error_new UnsupportedAlgorithm)
      else if \<not> scalar_ok algorithm bs then Inl (Error_new InvalidArgument)
      else material_field algorithm 0x06 bs (length bs))"

definition ed25519_seed :: "bytes \<Rightarrow> PrivateKeyMaterial res" where
  "ed25519_seed bs = material_field Ed25519 0x07 bs 32"

definition x25519_key :: "bytes \<Rightarrow> PrivateKeyMaterial res" where
  "x25519_key bs = material_field X25519 0x08 bs 32"

definition mldsa65_seed :: "bytes \<Rightarrow> PrivateKeyMaterial res" where
  "mldsa65_seed bs = material_field MlDsa65 0x09 bs 32"

definition mlkem768_seed :: "bytes \<Rightarrow> PrivateKeyMaterial res" where
  "mlkem768_seed bs = material_field MlKem768 0x0a bs 64"

section \<open>Generation and import\<close>

definition key_id :: "DeviceProfile \<Rightarrow> Slot \<Rightarrow> Algorithm \<Rightarrow> byte res" where
  "key_id profile slot algorithm =
     bindE (require profile Piv) (\<lambda>_.
     bindE (CapabilityStatus_require (piv_slot_support profile (Slot_reference slot))) (\<lambda>_.
     bindE (CapabilityStatus_require (key_algorithm_support profile algorithm)) (\<lambda>_.
       ok_or (algorithm_wire_id profile algorithm) (Error_new CapabilityUnknown))))"

definition key_policies :: "DeviceProfile \<Rightarrow> KeyParameters \<Rightarrow> TlvWriter \<Rightarrow> TlvWriter res" where
  "key_policies profile p w =
     bindE (whenE (kp_pin_policy p \<noteq> PinDefault \<or> kp_touch_policy p \<noteq> TouchDefault)
              (require profile Capability.Metadata)) (\<lambda>_.
     bindE (if kp_pin_policy p \<noteq> PinDefault then push_fields w [(0xaa, [PinPolicy_wire (kp_pin_policy p)])]
            else Inr w) (\<lambda>w'.
       if kp_touch_policy p \<noteq> TouchDefault then push_fields w' [(0xab, [TouchPolicy_wire (kp_touch_policy p)])]
       else Inr w'))"

definition key_command :: "byte \<Rightarrow> byte \<Rightarrow> byte \<Rightarrow> bytes \<Rightarrow> LogicalCommand" where
  "key_command instr a b d =
     (LogicalCommand_new (ApduHeader_new 0 instr a b) [] Absent)
       \<lparr>lc_data := d, lc_allow_chaining := True, lc_allow_extended := True\<rparr>"

definition generated_key :: "Algorithm \<Rightarrow> ResponseData \<Rightarrow> nat \<Rightarrow> PublicKey res" where
  "generated_key algorithm r limit =
     bindE (ResponseData_ensure_success r Phase.Command) (\<lambda>_.
     bindE (TlvReader_next (TlvReader_new (rd_data r) (value_limits limit))) (\<lambda>(field, reader).
     bindE (ok_or field invalid_parsing) (\<lambda>field.
     bindE (if tag_value (f_tag field) \<noteq> 0x7f49 then Inl invalid_parsing
            else bindE (TlvReader_next reader) (\<lambda>(extra, _). ensureE (extra = None) invalid_parsing)) (\<lambda>_.
       from_tlv algorithm (f_value field) limit))))"

definition prepare_generate_key ::
  "DeviceProfile \<Rightarrow> KeyParameters \<Rightarrow> OperationOptions \<Rightarrow> PublicKey Sequence res" where
  "prepare_generate_key profile p opts =
     bindE (key_id profile (kp_slot p) (kp_algorithm p)) (\<lambda>i.
     bindE (push_fields (TlvWriter_new (max_input_bytes (limits opts))) [(0x80, [i])]) (\<lambda>w.
     bindE (key_policies profile p w) (\<lambda>w.
     bindE (push_fields (TlvWriter_new (max_input_bytes (limits opts))) [(0xac, w_bytes w)]) (\<lambda>d.
       piv_prepare ((key_command 0x47 0 (Slot_reference (kp_slot p)) (w_bytes d))\<lparr>lc_allow_chaining := False\<rparr>) opts
         (\<lambda>r. generated_key (kp_algorithm p) r (max_total_response_bytes (limits opts)))))))"

definition generate_key ::
  "DeviceProfile \<Rightarrow> KeyParameters \<Rightarrow> Access \<Rightarrow> OperationOptions
   \<Rightarrow> (PublicKey Sequence Selected, PublicKey) Operation res" where
  "generate_key profile p access opts =
     bindE (require_management access) (\<lambda>_.
     bindE (prepare_generate_key profile p opts) (\<lambda>target. with_access profile access target opts))"

definition prepare_import_key ::
  "DeviceProfile \<Rightarrow> KeyParameters \<Rightarrow> PrivateKeyMaterial \<Rightarrow> OperationOptions \<Rightarrow> MutationResult Sequence res" where
  "prepare_import_key profile p material opts =
     (if pk_algorithm material \<noteq> kp_algorithm p then Inl (Error_new InvalidArgument)
      else bindE (key_id profile (kp_slot p) (kp_algorithm p)) (\<lambda>i.
        bindE (key_policies profile p (TlvWriter_new (max_input_bytes (limits opts)))) (\<lambda>w.
          if (case checked_add (length (pk_fields material)) (length (w_bytes w)) of
                None \<Rightarrow> True | Some n \<Rightarrow> n > max_input_bytes (limits opts))
          then Inl (Error_new LimitExceeded)
          else piv_prepare (key_command 0xfe i (Slot_reference (kp_slot p)) (pk_fields material @ w_bytes w)) opts
                 piv_mutation)))"

definition import_key ::
  "DeviceProfile \<Rightarrow> KeyParameters \<Rightarrow> PrivateKeyMaterial \<Rightarrow> Access \<Rightarrow> OperationOptions
   \<Rightarrow> (MutationResult Sequence Selected, MutationResult) Operation res" where
  "import_key profile p material access opts =
     bindE (require_management access) (\<lambda>_.
     bindE (prepare_import_key profile p material opts) (\<lambda>target. with_access profile access target opts))"

definition parse_empty_slot :: "ResponseData \<Rightarrow> unit res" where
  "parse_empty_slot r =
     (if StatusWord_is_success (rd_status r) then Inl (Error_at (Error_new ConditionsNotSatisfied) Phase.Command)
      else if (rd_status r = 0x6a82 \<or> rd_status r = 0x6a88) \<and> rd_data r = [] then Inr ()
      else if rd_status r = 0x6a82 \<or> rd_status r = 0x6a88 then Inl invalid_parsing
      else ResponseData_ensure_success r Phase.Command)"

definition require_empty_key_slot ::
  "DeviceProfile \<Rightarrow> Slot \<Rightarrow> Access \<Rightarrow> OperationOptions \<Rightarrow> (unit Sequence Selected, unit) Operation res" where
  "require_empty_key_slot profile slot access opts =
     bindE (CapabilityStatus_require (piv_slot_support profile (Slot_reference slot))) (\<lambda>_.
     bindE (piv_prepare (command_metadata (KeyReference slot)) opts parse_empty_slot) (\<lambda>s.
       with_access profile access s opts))"

section \<open>Signatures\<close>

datatype SignInput = RsaEncodedBlock bytes | Digest bytes | Message bytes

datatype SignatureEncoding = RawEncoding | DerEncoding | P1363Encoding

record PivSignature =
  sg_algorithm :: Algorithm
  sg_encoding :: SignatureEncoding
  sg_bytes :: bytes

record 'u EcDer =
  uint_of :: "bytes \<Rightarrow> 'u option"
  uint_bytes :: "'u \<Rightarrow> bytes"
  signature_to_der :: "'u \<times> 'u \<Rightarrow> bytes option"
  signature_from_der :: "bytes \<Rightarrow> ('u \<times> 'u) option"

definition uint_fits :: "'u EcDer \<Rightarrow> nat \<Rightarrow> 'u \<Rightarrow> bool" where
  "uint_fits D width n \<longleftrightarrow> \<not> (length (uint_bytes D n) > width \<or> list_all (\<lambda>b. b = 0) (uint_bytes D n))"

definition ec_signature :: "'u EcDer \<Rightarrow> bytes \<Rightarrow> nat \<Rightarrow> ('u \<times> 'u) res" where
  "ec_signature D d width =
     bindE (ok_or (signature_from_der D d) invalid_parsing) (\<lambda>(r, s).
       if \<not> uint_fits D width r \<or> \<not> uint_fits D width s then Inl invalid_parsing else Inr (r, s))"

text \<open>A slice copied to the end of a zeroed buffer of the given width.\<close>

definition left_pad :: "nat \<Rightarrow> bytes \<Rightarrow> bytes" where
  "left_pad width v = replicate (width - length v) 0 @ v"

definition from_p1363 :: "'u EcDer \<Rightarrow> Algorithm \<Rightarrow> bytes \<Rightarrow> PivSignature res" where
  "from_p1363 D algorithm bs =
     bindE (ok_or (curve_len algorithm) (Error_new UnsupportedAlgorithm)) (\<lambda>width.
       if length bs \<noteq> 2 * width \<or> list_all (\<lambda>b. b = 0) (take width bs) \<or> list_all (\<lambda>b. b = 0) (drop width bs)
       then Inl (Error_new InvalidArgument)
       else bindE (ok_or (uint_of D (take width bs)) (Error_new InvalidArgument)) (\<lambda>r.
            bindE (ok_or (uint_of D (drop width bs)) (Error_new InvalidArgument)) (\<lambda>s.
            bindE (ok_or (signature_to_der D (r, s)) (Error_new InvalidArgument)) (\<lambda>encoded.
              Inr \<lparr>sg_algorithm = algorithm, sg_encoding = DerEncoding, sg_bytes = encoded\<rparr>))))"

definition to_p1363 :: "'u EcDer \<Rightarrow> PivSignature \<Rightarrow> bytes res" where
  "to_p1363 D sig =
     bindE (ok_or (curve_len (sg_algorithm sig)) (Error_new UnsupportedAlgorithm)) (\<lambda>width.
       if sg_encoding sig = P1363Encoding then Inr (sg_bytes sig)
       else bindE (ec_signature D (sg_bytes sig) width) (\<lambda>(r, s).
         Inr (left_pad width (uint_bytes D r) @ left_pad width (uint_bytes D s))))"

definition to_der :: "'u EcDer \<Rightarrow> PivSignature \<Rightarrow> bytes res" where
  "to_der D sig =
     bindE (ok_or (curve_len (sg_algorithm sig)) (Error_new UnsupportedAlgorithm)) (\<lambda>_.
       if sg_encoding sig = P1363Encoding then
         bindE (from_p1363 D (sg_algorithm sig) (sg_bytes sig)) (\<lambda>s. Inr (sg_bytes s))
       else Inr (sg_bytes sig))"

text \<open>The loop that shifts a 66-byte buffer right by seven bits.\<close>

fun shift_right_7 :: "byte \<Rightarrow> bytes \<Rightarrow> bytes" where
  "shift_right_7 carry [] = []"
| "shift_right_7 carry (b # bs) = (drop_bit 7 b OR carry) # shift_right_7 (push_bit 1 b) bs"

definition digest_block :: "Algorithm \<Rightarrow> bytes \<Rightarrow> bytes res" where
  "digest_block algorithm d =
     bindE (ok_or (curve_len algorithm) (Error_new UnsupportedAlgorithm)) (\<lambda>width.
       if d = [] \<or> (algorithm = Sm2 \<and> length d \<noteq> 32) then Inl (Error_new InvalidArgument)
       else let out = left_pad width (take (min (length d) width) d) in
         Inr (if algorithm = EccP521 \<and> length d \<ge> width then shift_right_7 0 out else out))"

section \<open>Private operations\<close>

definition private_command ::
  "DeviceProfile \<Rightarrow> Slot \<Rightarrow> Algorithm \<Rightarrow> byte \<Rightarrow> bytes \<Rightarrow> OperationOptions \<Rightarrow> LogicalCommand res" where
  "private_command profile slot algorithm t input opts =
     bindE (key_id profile slot algorithm) (\<lambda>i.
     bindE (push_fields (TlvWriter_new (max_input_bytes (limits opts))) [(0x82, []), (t, input)]) (\<lambda>inner.
     bindE (push_fields (TlvWriter_new (max_input_bytes (limits opts))) [(0x7c, w_bytes inner)]) (\<lambda>outer.
       Inr (key_command 0x87 i (Slot_reference slot) (w_bytes outer)))))"

definition private_reply :: "ResponseData \<Rightarrow> nat \<Rightarrow> bytes res" where
  "private_reply r limit =
     bindE (ResponseData_ensure_success r Phase.Command) (\<lambda>_.
     bindE (TlvReader_next (TlvReader_new_ber (rd_data r) (value_limits limit))) (\<lambda>(outer, reader).
     bindE (ok_or outer invalid_parsing) (\<lambda>outer.
     bindE (if tag_value (f_tag outer) \<noteq> 0x7c then Inl invalid_parsing
            else bindE (TlvReader_next reader) (\<lambda>(extra, _). ensureE (extra = None) invalid_parsing)) (\<lambda>_.
     bindE (Tlv_children outer) (\<lambda>inner.
     bindE (TlvReader_next inner) (\<lambda>(v, inner).
     bindE (ok_or v invalid_parsing) (\<lambda>v.
     bindE (if tag_value (f_tag v) \<noteq> 0x82 then Inl invalid_parsing
            else bindE (TlvReader_next inner) (\<lambda>(extra, _). ensureE (extra = None) invalid_parsing)) (\<lambda>_.
       Inr (f_value v)))))))))"

definition parse_signature ::
  "'u EcDer \<Rightarrow> Algorithm \<Rightarrow> SignatureEncoding \<Rightarrow> ResponseData \<Rightarrow> nat \<Rightarrow> PivSignature res" where
  "parse_signature D algorithm encoding r limit =
     bindE (private_reply r limit) (\<lambda>bs.
     bindE (if encoding = P1363Encoding then
              (case from_p1363 D algorithm bs of Inl _ \<Rightarrow> Inl invalid_parsing | Inr _ \<Rightarrow> Inr ())
            else case curve_len algorithm of
              Some width \<Rightarrow> bindE (ec_signature D bs width) (\<lambda>_. Inr ())
            | None \<Rightarrow>
                let width = (if algorithm = MlDsa65 then 3309
                             else case rsa_len algorithm of Some n \<Rightarrow> n | None \<Rightarrow> 64)
                in if length bs \<noteq> width then Inl invalid_parsing else Inr ()) (\<lambda>_.
       Inr \<lparr>sg_algorithm = algorithm, sg_encoding = encoding, sg_bytes = bs\<rparr>))"

definition MAX_ED25519_MESSAGE :: nat where
  "MAX_ED25519_MESSAGE = 512"

fun sign_raw :: "SignInput \<Rightarrow> bytes" where
  "sign_raw (RsaEncodedBlock b) = b"
| "sign_raw (Digest b) = b"
| "sign_raw (Message b) = b"

fun sign_bytes :: "Algorithm \<Rightarrow> SignInput \<Rightarrow> bytes res" where
  "sign_bytes algorithm (RsaEncodedBlock b) =
     (if rsa_len algorithm = Some (length b) then Inr b else Inl (Error_new InvalidArgument))"
| "sign_bytes algorithm (Digest b) =
     (if curve_len algorithm \<noteq> None then digest_block algorithm b else Inl (Error_new InvalidArgument))"
| "sign_bytes algorithm (Message b) =
     (if algorithm = Ed25519 \<and> b \<noteq> [] then
        (if length b > MAX_ED25519_MESSAGE then Inl (Error_new LimitExceeded) else Inr b)
      else Inl (Error_new InvalidArgument))"

definition sign_encoding :: "DeviceProfile \<Rightarrow> Algorithm \<Rightarrow> SignatureEncoding" where
  "sign_encoding profile algorithm =
     (if algorithm = Sm2 \<and> sm2_uses_p1363_signatures profile then P1363Encoding
      else if curve_len algorithm \<noteq> None then DerEncoding else RawEncoding)"

definition prepare_sign ::
  "'u EcDer \<Rightarrow> DeviceProfile \<Rightarrow> Slot \<Rightarrow> Algorithm \<Rightarrow> SignInput \<Rightarrow> OperationOptions \<Rightarrow> PivSignature Sequence res" where
  "prepare_sign D profile slot algorithm input opts =
     (if length (sign_raw input) > max_input_bytes (limits opts) then Inl (Error_new LimitExceeded)
      else bindE (sign_bytes algorithm input) (\<lambda>bs.
        bindE (private_command profile slot algorithm 0x81 bs opts) (\<lambda>c.
          piv_prepare c opts (\<lambda>r.
            parse_signature D algorithm (sign_encoding profile algorithm) r (max_total_response_bytes (limits opts))))))"

definition sign ::
  "'u EcDer \<Rightarrow> DeviceProfile \<Rightarrow> Slot \<Rightarrow> Algorithm \<Rightarrow> SignInput \<Rightarrow> Access \<Rightarrow> OperationOptions
   \<Rightarrow> (PivSignature Sequence Selected, PivSignature) Operation res" where
  "sign D profile slot algorithm input access opts =
     bindE (prepare_sign D profile slot algorithm input opts) (\<lambda>target. with_access profile access target opts)"

text \<open>A raw result of exactly the given length.\<close>

definition sized_reply :: "nat \<Rightarrow> ResponseData \<Rightarrow> nat \<Rightarrow> bytes res" where
  "sized_reply width r limit =
     bindE (private_reply r limit) (\<lambda>bs. if length bs \<noteq> width then Inl invalid_parsing else Inr bs)"

definition prepare_decrypt ::
  "DeviceProfile \<Rightarrow> Slot \<Rightarrow> Algorithm \<Rightarrow> bytes \<Rightarrow> OperationOptions \<Rightarrow> bytes Sequence res" where
  "prepare_decrypt profile slot algorithm ciphertext opts =
     bindE (ok_or (rsa_len algorithm) (Error_new UnsupportedAlgorithm)) (\<lambda>width.
       if length ciphertext \<noteq> width then Inl (Error_new InvalidArgument)
       else bindE (private_command profile slot algorithm 0x81 ciphertext opts) (\<lambda>c.
         piv_prepare c opts (\<lambda>r. sized_reply width r (max_total_response_bytes (limits opts)))))"

definition decrypt ::
  "DeviceProfile \<Rightarrow> Slot \<Rightarrow> Algorithm \<Rightarrow> bytes \<Rightarrow> Access \<Rightarrow> OperationOptions
   \<Rightarrow> (bytes Sequence Selected, bytes) Operation res" where
  "decrypt profile slot algorithm ciphertext access opts =
     bindE (prepare_decrypt profile slot algorithm ciphertext opts) (\<lambda>target. with_access profile access target opts)"

text \<open>The size of an uncompressed peer point per curve, and the width of the shared secret.\<close>

fun derive_width :: "(Algorithm \<Rightarrow> bytes \<Rightarrow> bool) \<Rightarrow> Algorithm \<Rightarrow> bytes \<Rightarrow> nat res" where
  "derive_width point_ok EccP256 peer =
     (if length peer \<noteq> 65 \<or> get_at peer 0 \<noteq> Some 4 \<or> \<not> point_ok EccP256 peer then Inl (Error_new InvalidArgument) else Inr 32)"
| "derive_width point_ok EccP384 peer =
     (if length peer \<noteq> 97 \<or> get_at peer 0 \<noteq> Some 4 \<or> \<not> point_ok EccP384 peer then Inl (Error_new InvalidArgument) else Inr 48)"
| "derive_width point_ok EccP521 peer =
     (if length peer \<noteq> 133 \<or> get_at peer 0 \<noteq> Some 4 \<or> \<not> point_ok EccP521 peer then Inl (Error_new InvalidArgument) else Inr 66)"
| "derive_width point_ok Secp256k1 peer =
     (if length peer \<noteq> 65 \<or> get_at peer 0 \<noteq> Some 4 \<or> \<not> point_ok Secp256k1 peer then Inl (Error_new InvalidArgument) else Inr 32)"
| "derive_width point_ok X25519 peer = (if length peer = 32 then Inr 32 else Inl (Error_new InvalidArgument))"
| "derive_width point_ok _ peer = Inl (Error_new UnsupportedAlgorithm)"

definition derive_reply :: "Algorithm \<Rightarrow> nat \<Rightarrow> ResponseData \<Rightarrow> nat \<Rightarrow> bytes res" where
  "derive_reply algorithm width r limit =
     bindE (sized_reply width r limit) (\<lambda>bs.
       if algorithm = X25519 \<and> bs = replicate 32 0 then Inl invalid_parsing else Inr bs)"

definition prepare_derive ::
  "(Algorithm \<Rightarrow> bytes \<Rightarrow> bool) \<Rightarrow> DeviceProfile \<Rightarrow> Slot \<Rightarrow> Algorithm \<Rightarrow> bytes \<Rightarrow> OperationOptions \<Rightarrow> bytes Sequence res"
where
  "prepare_derive point_ok profile slot algorithm peer opts =
     (if length peer > max_input_bytes (limits opts) then Inl (Error_new LimitExceeded)
      else bindE (derive_width point_ok algorithm peer) (\<lambda>width.
        bindE (private_command profile slot algorithm 0x85 peer opts) (\<lambda>c.
          piv_prepare c opts (\<lambda>r. derive_reply algorithm width r (max_total_response_bytes (limits opts))))))"

definition derive ::
  "(Algorithm \<Rightarrow> bytes \<Rightarrow> bool) \<Rightarrow> DeviceProfile \<Rightarrow> Slot \<Rightarrow> Algorithm \<Rightarrow> bytes \<Rightarrow> Access \<Rightarrow> OperationOptions
   \<Rightarrow> (bytes Sequence Selected, bytes) Operation res" where
  "derive point_ok profile slot algorithm peer access opts =
     bindE (prepare_derive point_ok profile slot algorithm peer opts) (\<lambda>target. with_access profile access target opts)"

definition prepare_decapsulate ::
  "DeviceProfile \<Rightarrow> Slot \<Rightarrow> bytes \<Rightarrow> OperationOptions \<Rightarrow> bytes Sequence res" where
  "prepare_decapsulate profile slot ciphertext opts =
     (if length ciphertext \<noteq> 1088 then Inl (Error_new InvalidArgument)
      else bindE (private_command profile slot MlKem768 0x81 ciphertext opts) (\<lambda>c.
        piv_prepare c opts (\<lambda>r. sized_reply 32 r (max_total_response_bytes (limits opts)))))"

definition decapsulate ::
  "DeviceProfile \<Rightarrow> Slot \<Rightarrow> bytes \<Rightarrow> Access \<Rightarrow> OperationOptions \<Rightarrow> (bytes Sequence Selected, bytes) Operation res" where
  "decapsulate profile slot ciphertext access opts =
     bindE (prepare_decapsulate profile slot ciphertext opts) (\<lambda>target. with_access profile access target opts)"

section \<open>Digests\<close>

lemma shift_right_7_value:
  assumes "p < 128" "carry = of_nat (2 * p)"
  shows "be_nat (shift_right_7 carry bs) = (p * 256 ^ length bs + be_nat bs) div 128
    \<and> length (shift_right_7 carry bs) = length bs"
  using assms
proof (induction bs arbitrary: p carry)
  case Nil
  then show ?case by simp
next
  case (Cons b bs)
  define q where "q = unat b mod 128"
  define h where "h = unat b div 128"
  have b: "unat b = h * 128 + q" "q < 128" "h < 2"
    using byte_less_256 [of b] by (auto simp: q_def h_def)
  have "push_bit 1 b = of_nat (2 * q)"
  proof -
    have "(2 * unat b) mod 256 = 2 * q" using b by auto
    then show ?thesis
      by (simp add: word_unat_eq_iff push_bit_eq_mult unat_word_ariths unat_of_nat take_bit_eq_mod mult.commute q_def)
  qed
  note ih = Cons.IH [OF b(2) this]
  have hd: "unat (drop_bit 7 b OR carry) = 2 * p + h"
  proof -
    have d: "drop_bit 7 b = of_nat h"
      using b(3) by (simp add: word_unat_eq_iff drop_bit_eq_div unat_div unat_of_nat h_def take_bit_eq_mod)
    have "of_nat h + carry = of_nat h OR carry"
    proof (rule disjunctive_add)
      fix n
      show "\<not> bit (of_nat h :: byte) n \<or> \<not> bit carry n"
        using b(3) Cons.prems(2) by (cases n) (auto simp: bit_simps less_2_cases_iff bit_0)
    qed
    moreover have "unat (of_nat h + carry :: byte) = 2 * p + h"
      using Cons.prems b(3) by (simp add: unat_of_nat take_bit_eq_mod of_nat_add [symmetric] del: of_nat_add of_nat_mult)
    ultimately show ?thesis by (simp add: d)
  qed
  have "(p * 256 ^ length (b # bs) + be_nat (b # bs)) div 128
      = ((2 * p + h) * 256 ^ length bs * 128 + (q * 256 ^ length bs + be_nat bs)) div 128"
    by (simp add: be_nat_Cons b algebra_simps)
  also have "\<dots> = (2 * p + h) * 256 ^ length bs + (q * 256 ^ length bs + be_nat bs) div 128"
    by (simp only: mult.commute [of _ 128] div_mult_self4)
  finally show ?case using ih hd by (simp add: be_nat_Cons)
qed

lemma be_nat_zeros [simp]: "be_nat (replicate n 0) = 0"
  by (induction n) (simp_all add: be_nat_Cons)

lemma be_nat_left_pad [simp]: "be_nat (left_pad width v) = be_nat v"
  by (simp add: left_pad_def be_nat_append)

lemma length_left_pad: "length v \<le> width \<Longrightarrow> length (left_pad width v) = width"
  by (simp add: left_pad_def)

lemma be_nat_take: "be_nat (take n d) = be_nat d div 256 ^ (length d - n)"
proof -
  have "be_nat d = be_nat (take n d) * 256 ^ (length d - n) + be_nat (drop n d)"
    using be_nat_append [of "take n d" "drop n d"] by simp
  moreover have "be_nat (drop n d) < 256 ^ (length d - n)" using be_nat_bound [of "drop n d"] by simp
  ultimately show ?thesis by simp
qed

text \<open>The bits of a curve's order.\<close>

definition order_bits :: "Algorithm \<Rightarrow> nat" where
  "order_bits algorithm =
     (if algorithm = EccP521 then 521 else case curve_len algorithm of None \<Rightarrow> 0 | Some n \<Rightarrow> 8 * n)"

lemma power_256: "(256 :: nat) ^ n = 2 ^ (8 * n)"
  by (simp add: power_mult)

lemma digest_block_value:
  assumes "digest_block algorithm d = Inr out" "curve_len algorithm = Some width"
  shows "length out = width \<and> be_nat out = be_nat d div 2 ^ (8 * length d - order_bits algorithm)"
proof (cases "algorithm = EccP521")
  case False
  then have out: "out = left_pad width (take (min (length d) width) d)"
    using assms by (auto simp: digest_block_def Let_def split: if_splits)
  have "be_nat out = be_nat d div 256 ^ (length d - min (length d) width)" by (simp add: out be_nat_take)
  also have "length d - min (length d) width = length d - width" by simp
  also have "(256 :: nat) ^ (length d - width) = 2 ^ (8 * length d - order_bits algorithm)"
    using False assms(2) by (simp add: power_256 order_bits_def diff_mult_distrib2)
  finally show ?thesis by (simp add: out length_left_pad)
next
  case P521: True
  then have w: "width = 66" using assms(2) by simp
  show ?thesis
  proof (cases "length d \<ge> 66")
    case True
    then have out: "out = shift_right_7 0 (left_pad 66 (take 66 d))"
      using assms P521 w by (auto simp: digest_block_def Let_def split: if_splits)
    have "be_nat out = be_nat (take 66 d) div 128 \<and> length out = 66"
      using shift_right_7_value [of 0 0 "left_pad 66 (take 66 d)"] out True by (simp add: length_left_pad)
    moreover have "be_nat (take 66 d) div 128 = be_nat d div 2 ^ (8 * (length d - 66) + 7)"
      by (simp add: be_nat_take div_mult2_eq [symmetric] power_256 power_add)
    moreover have "8 * (length d - 66) + 7 = 8 * length d - order_bits algorithm"
      using True P521 by (simp add: order_bits_def)
    ultimately show ?thesis using w by simp
  next
    case False
    then have "out = left_pad 66 d"
      using assms P521 w by (auto simp: digest_block_def Let_def split: if_splits)
    then show ?thesis using False P521 w by (simp add: order_bits_def length_left_pad)
  qed
qed

section \<open>Encodings of signatures\<close>

text \<open>
  What the \<open>der\<close> package documents: an unsigned integer drops its leading zeros and a signature
  sequence decodes to what was encoded.
\<close>

definition ec_der_ok :: "'u EcDer \<Rightarrow> bool" where
  "ec_der_ok D \<longleftrightarrow>
     (\<forall>bs. bs \<noteq> [] \<longrightarrow> length bs \<le> 66 \<longrightarrow>
        (\<exists>u. uint_of D bs = Some u \<and> uint_bytes D u = (if list_all (\<lambda>b. b = 0) bs then [0] else dropWhile (\<lambda>b. b = 0) bs)))
     \<and> (\<forall>r s. length (uint_bytes D r) \<le> 66 \<longrightarrow> length (uint_bytes D s) \<le> 66 \<longrightarrow>
        (\<exists>d. signature_to_der D (r, s) = Some d \<and> signature_from_der D d = Some (r, s)))"

lemma left_pad_dropWhile:
  assumes "length bs = width"
  shows "left_pad width (dropWhile (\<lambda>b. b = 0) bs) = bs"
proof -
  have "takeWhile (\<lambda>b. b = 0) bs = replicate (length (takeWhile (\<lambda>b. b = 0) bs)) 0"
    by (induction bs) auto
  moreover have "length (takeWhile (\<lambda>b. b = 0) bs) = width - length (dropWhile (\<lambda>b. b = 0) bs)"
    using assms by (metis add_diff_cancel_right' length_append takeWhile_dropWhile_id)
  ultimately show ?thesis unfolding left_pad_def by (metis takeWhile_dropWhile_id)
qed

lemma p1363_half:
  assumes "ec_der_ok D" "length bs = width" "0 < width" "width \<le> 66" "\<not> list_all (\<lambda>b. b = 0) bs"
  shows "\<exists>u. uint_of D bs = Some u \<and> uint_fits D width u \<and> left_pad width (uint_bytes D u) = bs
    \<and> length (uint_bytes D u) \<le> 66"
proof -
  obtain u where u: "uint_of D bs = Some u" "uint_bytes D u = dropWhile (\<lambda>b. b = 0) bs"
    using assms unfolding ec_der_ok_def by (metis length_greater_0_conv)
  have "\<not> list_all (\<lambda>b. b = 0) (dropWhile (\<lambda>b. b = 0) bs)"
    using assms(5) by (auto simp: list_all_iff dropWhile_eq_Nil_conv dest!: set_dropWhileD)
       (metis (mono_tags, lifting) hd_dropWhile hd_in_set dropWhile_eq_Nil_conv)
  then have "uint_fits D width u"
    using u assms(2) length_dropWhile_le [of "\<lambda>b. b = 0" bs] by (simp add: uint_fits_def)
  then show ?thesis
    using u assms(2,4) left_pad_dropWhile [OF assms(2)] length_dropWhile_le [of "\<lambda>b. b = 0" bs] by auto
qed

lemma p1363_roundtrip:
  assumes D: "ec_der_ok D" and w: "curve_len algorithm = Some width"
    and bs: "length bs = 2 * width" "\<not> list_all (\<lambda>b. b = 0) (take width bs)" "\<not> list_all (\<lambda>b. b = 0) (drop width bs)"
  shows "\<exists>sig. from_p1363 D algorithm bs = Inr sig \<and> sg_algorithm sig = algorithm \<and> sg_encoding sig = DerEncoding
    \<and> to_p1363 D sig = Inr bs"
proof -
  have width: "0 < width" "width \<le> 66" using w by (cases algorithm; auto)+
  obtain r where r: "uint_of D (take width bs) = Some r" "uint_fits D width r"
      "left_pad width (uint_bytes D r) = take width bs" "length (uint_bytes D r) \<le> 66"
    using p1363_half [OF D _ width bs(2)] bs(1) by auto
  obtain s where s: "uint_of D (drop width bs) = Some s" "uint_fits D width s"
      "left_pad width (uint_bytes D s) = drop width bs" "length (uint_bytes D s) \<le> 66"
    using p1363_half [OF D _ width bs(3)] bs(1) by auto
  obtain d where d: "signature_to_der D (r, s) = Some d" "signature_from_der D d = Some (r, s)"
    using D r(4) s(4) unfolding ec_der_ok_def by blast
  show ?thesis using w bs r s d by (simp add: from_p1363_def to_p1363_def ec_signature_def)
qed

section \<open>Properties\<close>

text \<open>The block signed for a digest holds the leftmost bits of the digest, as many as the order of the
curve has: as a number the block is the digest shifted right by its excess bits (not at all for a
digest that is short), and it always has the width of the curve.\<close>

theorem piv_digest_leftmost_bits:
  assumes "digest_block algorithm d = Inr out"
  shows "\<exists>width. curve_len algorithm = Some width \<and> length out = width
    \<and> be_nat out = be_nat d div 2 ^ (8 * length d - order_bits algorithm)"
proof -
  obtain width where "curve_len algorithm = Some width"
    using assms by (auto simp: digest_block_def bindE_eq_Inr ok_or_eq_Inr)
  then show ?thesis using digest_block_value [OF assms] by blast
qed

theorem piv_digest_leftmost_bits_witness:
  "\<exists>out. digest_block EccP521 (0xff # replicate 66 0x80) = Inr out \<and> length out = 66
    \<and> be_nat out = be_nat (0xff # replicate 66 0x80) div 2 ^ 15"
proof -
  obtain out where out: "digest_block EccP521 (0xff # replicate 66 0x80) = Inr out"
    by (simp add: digest_block_def)
  show ?thesis using piv_digest_leftmost_bits [OF out] out by (simp add: order_bits_def)
qed

lemma ec_signature_InrD:
  assumes "ec_signature D d width = Inr (r, s)"
  shows "signature_from_der D d = Some (r, s) \<and> uint_fits D width r \<and> uint_fits D width s"
  using assms by (auto simp: ec_signature_def bindE_eq_Inr ok_or_eq_Inr split: if_splits)

text \<open>An elliptic-curve signature accepted from the card can be converted both ways. It has a
fixed-width form of twice the width of the curve and a DER form, and the DER form denotes the same
two numbers; this holds for both encodings cards use, given that the DER package encodes and decodes
as documented.\<close>

theorem piv_signature_convertible:
  assumes "ec_der_ok D" "parse_signature D algorithm encoding resp limit = Inr sig" "curve_len algorithm = Some width"
  shows "\<exists>fixed der. to_p1363 D sig = Inr fixed \<and> length fixed = 2 * width \<and> to_der D sig = Inr der
    \<and> to_p1363 D \<lparr>sg_algorithm = algorithm, sg_encoding = DerEncoding, sg_bytes = der\<rparr> = Inr fixed"
proof (cases "encoding = P1363Encoding")
  case True
  then obtain bs sig' where sig: "sig = \<lparr>sg_algorithm = algorithm, sg_encoding = P1363Encoding, sg_bytes = bs\<rparr>"
    and p: "from_p1363 D algorithm bs = Inr sig'"
  proof -
    from assms(2) True obtain bs u where b: "private_reply resp limit = Inr bs"
      "(case from_p1363 D algorithm bs of Inl _ \<Rightarrow> Inl invalid_parsing | Inr _ \<Rightarrow> Inr ()) = Inr u"
      "sig = \<lparr>sg_algorithm = algorithm, sg_encoding = P1363Encoding, sg_bytes = bs\<rparr>"
      by (auto simp: parse_signature_def bindE_eq_Inr)
    then obtain sig' where "from_p1363 D algorithm bs = Inr sig'" by (cases "from_p1363 D algorithm bs") auto
    then show ?thesis using that b(3) by blast
  qed
  then have bs: "length bs = 2 * width" "\<not> list_all (\<lambda>b. b = 0) (take width bs)" "\<not> list_all (\<lambda>b. b = 0) (drop width bs)"
    using assms(3) by (auto simp: from_p1363_def split: if_splits)
  obtain s2 where s2: "from_p1363 D algorithm bs = Inr s2" "sg_algorithm s2 = algorithm" "sg_encoding s2 = DerEncoding"
      "to_p1363 D s2 = Inr bs"
    using p1363_roundtrip [OF assms(1,3) bs] by blast
  then have "s2 = \<lparr>sg_algorithm = algorithm, sg_encoding = DerEncoding, sg_bytes = sg_bytes s2\<rparr>" by simp
  then show ?thesis using s2 sig assms(3) bs(1) by (auto simp: to_p1363_def to_der_def)
next
  case False
  then obtain bs r s where sig: "sig = \<lparr>sg_algorithm = algorithm, sg_encoding = encoding, sg_bytes = bs\<rparr>"
    and ec: "ec_signature D bs width = Inr (r, s)"
    using assms(2,3) by (auto simp: parse_signature_def bindE_eq_Inr)
  have "length (left_pad width (uint_bytes D n)) = width" if "uint_fits D width n" for n
    using that by (intro length_left_pad) (simp add: uint_fits_def)
  then show ?thesis
    using False sig ec ec_signature_InrD [OF ec] assms(3) by (simp add: to_p1363_def to_der_def)
qed

text \<open>A stand-in for the \<open>der\<close> package: integers are byte strings without leading zeros, and a sequence is
written with a length byte per part.\<close>

definition sample_uint :: "bytes \<Rightarrow> bytes" where
  "sample_uint bs = (let v = dropWhile (\<lambda>b. b = 0) bs in if v = [] then [0] else v)"

definition sample_from_der :: "bytes \<Rightarrow> (bytes \<times> bytes) option" where
  "sample_from_der d =
     (case d of [] \<Rightarrow> None | n # rest \<Rightarrow> Some (take (unat n) rest, drop (unat n) rest))"

definition sample_ec_der :: "bytes EcDer" where
  "sample_ec_der =
     \<lparr>uint_of = (\<lambda>bs. Some (sample_uint bs)), uint_bytes = (\<lambda>u. u),
      signature_to_der = (\<lambda>(r, s). Some (of_nat (length r) # r @ s)), signature_from_der = sample_from_der\<rparr>"

lemma sample_ec_der_ok: "ec_der_ok sample_ec_der"
proof -
  have "dropWhile (\<lambda>b. b = 0) bs = [] \<longleftrightarrow> list_all (\<lambda>b. b = 0) bs" for bs :: bytes
    by (simp add: dropWhile_eq_Nil_conv list_all_iff)
  then show ?thesis
    by (auto simp: ec_der_ok_def sample_ec_der_def sample_uint_def sample_from_der_def Let_def unat_of_nat)
qed

definition sample_sm2_reply :: ResponseData where
  "sample_sm2_reply = \<lparr>rd_data = [0x7c, 66, 0x82, 64] @ replicate 64 7, rd_status = 0x9000\<rparr>"

lemma sample_sm2_signature:
  assumes "72 \<le> limit"
  obtains sig where "parse_signature sample_ec_der Sm2 P1363Encoding sample_sm2_reply limit = Inr sig"
    "sig = \<lparr>sg_algorithm = Sm2, sg_encoding = P1363Encoding, sg_bytes = replicate 64 7\<rparr>"
proof -
  have reply: "private_reply sample_sm2_reply limit = Inr (replicate 64 7)"
    using assms
    by (simp add: private_reply_def sample_sm2_reply_def ResponseData_ensure_success_def value_limits_def
        TlvReader_new_ber_def TlvReader_next_def parse_tag_def read_length_def get_at_def get_range_def checked_add_def
        usize_max_def Tlv_children_def TlvLimits_default_def from_be_def)
  have "from_p1363 sample_ec_der Sm2 (replicate 64 7)
      = Inr \<lparr>sg_algorithm = Sm2, sg_encoding = DerEncoding, sg_bytes = 32 # replicate 64 7\<rparr>"
    by (simp add: from_p1363_def sample_ec_der_def sample_uint_def replicate_add [symmetric] list_all_iff)
  then show ?thesis using reply that by (simp add: parse_signature_def)
qed

theorem piv_signature_convertible_witness:
  "\<exists>sig der. ec_der_ok sample_ec_der \<and> parse_signature sample_ec_der Sm2 P1363Encoding sample_sm2_reply 1000 = Inr sig
    \<and> to_p1363 sample_ec_der sig = Inr (replicate 64 7) \<and> to_der sample_ec_der sig = Inr der
    \<and> to_p1363 sample_ec_der \<lparr>sg_algorithm = Sm2, sg_encoding = DerEncoding, sg_bytes = der\<rparr> = Inr (replicate 64 7)"
proof -
  obtain sig where sig: "parse_signature sample_ec_der Sm2 P1363Encoding sample_sm2_reply 1000 = Inr sig"
      "sig = \<lparr>sg_algorithm = Sm2, sg_encoding = P1363Encoding, sg_bytes = replicate 64 7\<rparr>"
    by (rule sample_sm2_signature [of 1000]) simp
  have "to_p1363 sample_ec_der sig = Inr (replicate 64 7)" by (simp add: sig(2) to_p1363_def)
  then show ?thesis
    using piv_signature_convertible [OF sample_ec_der_ok sig(1), of 32] sig sample_ec_der_ok by auto
qed

end
