(* ===== verification/Piv_Agreement.thy ===== *)
theory Piv_Agreement
  imports Piv_Keys
begin

text \<open>
  The two private operations of the PIV applet that take more than one command: signing a whole
  message by streaming (\<open>streaming.rs\<close>) and the SM2 key agreement (\<open>sm2_agreement.rs\<close>). Curve points
  and the DER package are the parameters of \<open>Piv_Keys\<close>.
\<close>

section \<open>Streaming signatures\<close>

definition MAX_STREAMING_MESSAGE :: nat where
  "MAX_STREAMING_MESSAGE = 65520"

datatype StreamingSignInput =
    StreamMlDsa65 bytes
  | StreamEd25519Randomized bytes
  | StreamSm2 bytes "bytes option"

fun streaming_algorithm :: "StreamingSignInput \<Rightarrow> Algorithm" where
  "streaming_algorithm (StreamMlDsa65 _) = MlDsa65"
| "streaming_algorithm (StreamEd25519Randomized _) = Ed25519"
| "streaming_algorithm (StreamSm2 _ _) = Sm2"

definition saturating_add :: "nat \<Rightarrow> nat \<Rightarrow> nat" where
  "saturating_add a b = min (a + b) usize_max"

fun opt_len :: "bytes option \<Rightarrow> nat" where
  "opt_len None = 0"
| "opt_len (Some v) = length v"

fun streaming_input_len :: "StreamingSignInput \<Rightarrow> nat" where
  "streaming_input_len (StreamMlDsa65 msg) = length msg"
| "streaming_input_len (StreamEd25519Randomized msg) = length msg"
| "streaming_input_len (StreamSm2 msg user_id) = saturating_add (length msg) (opt_len user_id)"

fun streaming_parts :: "StreamingSignInput \<Rightarrow> bytes \<times> bytes option" where
  "streaming_parts (StreamMlDsa65 msg) = (msg, None)"
| "streaming_parts (StreamEd25519Randomized msg) = (msg, None)"
| "streaming_parts (StreamSm2 msg user_id) = (msg, user_id)"

record StreamingMachine =
  st_prefix :: "LogicalCommand option"
  st_awaiting_prefix :: bool
  st_target :: "PivSignature Sequence"

definition StreamingMachine_target ::
  "StreamingMachine \<Rightarrow> ResponseData option \<Rightarrow> StreamingMachine \<times> PivSignature Action res" where
  "StreamingMachine_target m response =
     (let (s, a) = Sequence_next (st_target m) response in (m\<lparr>st_target := s\<rparr>, a))"

definition StreamingMachine_next ::
  "StreamingMachine \<Rightarrow> ResponseData option \<Rightarrow> StreamingMachine \<times> PivSignature Action res" where
  "StreamingMachine_next m response =
     (case st_prefix m of
        Some prefix \<Rightarrow> (m\<lparr>st_prefix := None, st_awaiting_prefix := True\<rparr>, Inr (Action.Command prefix))
      | None \<Rightarrow>
          if st_awaiting_prefix m then
            (case bindE (ok_or response (Error_new ProtocolViolation)) (\<lambda>r.
                    bindE (ResponseData_ensure_success r Phase.Conversation) (\<lambda>_.
                      if rd_data r \<noteq> [] then Inl (conversation_error ProtocolViolation) else Inr ())) of
               Inl e \<Rightarrow> (m, Inl e)
             | Inr _ \<Rightarrow> StreamingMachine_target (m\<lparr>st_awaiting_prefix := False\<rparr>) None)
          else StreamingMachine_target m response)"

definition StreamingMachine_ops :: "(StreamingMachine, PivSignature) Machine" where
  "StreamingMachine_ops = plain_machine StreamingMachine_next"

definition streaming_fields :: "bytes \<Rightarrow> bytes option \<Rightarrow> (byte \<times> bytes) list" where
  "streaming_fields msg user_id =
     (case user_id of None \<Rightarrow> [] | Some i \<Rightarrow> [(0x80, i)]) @ [(0x82, []), (0x81, msg)]"

definition streaming_prefix :: "byte \<Rightarrow> Slot \<Rightarrow> LogicalCommand" where
  "streaming_prefix i slot =
     (let c = key_command 0x87 i (Slot_reference slot) [0x7c]
      in c\<lparr>lc_header := (lc_header c)\<lparr>cla := 0x10\<rparr>, lc_allow_chaining := False, lc_allow_extended := False,
           lc_continuation := NoContinuation\<rparr>)"

definition identity_ok :: "bytes option \<Rightarrow> unit res" where
  "identity_ok i =
     (case i of
        None \<Rightarrow> Inr ()
      | Some v \<Rightarrow> if v = [] \<or> length v > 32 then Inl (Error_new InvalidArgument) else Inr ())"

definition prepare_sign_streaming ::
  "'u EcDer \<Rightarrow> DeviceProfile \<Rightarrow> Slot \<Rightarrow> StreamingSignInput \<Rightarrow> OperationOptions \<Rightarrow> StreamingMachine res" where
  "prepare_sign_streaming D profile slot input opts =
     bindE (OperationOptions_validate opts) (\<lambda>_.
     let algorithm = streaming_algorithm input in
     bindE (CapabilityStatus_require (streaming_signing_support profile algorithm)) (\<lambda>_.
     bindE (key_id profile slot algorithm) (\<lambda>wire.
     let i = (if algorithm = Ed25519 then 0xff else wire) in
     if streaming_input_len input > min (max_input_bytes (limits opts)) MAX_STREAMING_MESSAGE
     then Inl (Error_new LimitExceeded)
     else let (msg, user_id) = streaming_parts input in
     bindE (identity_ok user_id) (\<lambda>_.
     bindE (push_fields (TlvWriter_new (min (max_input_bytes (limits opts)) 65535)) (streaming_fields msg user_id)) (\<lambda>inner.
     bindE (push_fields (TlvWriter_new (max_input_bytes (limits opts))) [(0x7c, w_bytes inner)]) (\<lambda>outer.
     bindE (whenE (algorithm = Sm2) (validate_command (streaming_prefix i slot) opts)) (\<lambda>_.
     let d = (if algorithm = Sm2 then drop 1 (w_bytes outer) else w_bytes outer);
         c = (key_command 0x87 i (Slot_reference slot) d)\<lparr>lc_allow_extended := False\<rparr>;
         encoding = (if algorithm = Sm2 then P1363Encoding else RawEncoding) in
     bindE (piv_prepare c opts (\<lambda>r. parse_signature D algorithm encoding r (max_total_response_bytes (limits opts)))) (\<lambda>target.
       Inr \<lparr>st_prefix = (if algorithm = Sm2 then Some (streaming_prefix i slot) else None),
            st_awaiting_prefix = False, st_target = target\<rparr>))))))))"

definition sign_streaming ::
  "'u EcDer \<Rightarrow> DeviceProfile \<Rightarrow> Slot \<Rightarrow> StreamingSignInput \<Rightarrow> Access \<Rightarrow> OperationOptions
   \<Rightarrow> (StreamingMachine Selected, PivSignature) Operation res" where
  "sign_streaming D profile slot input access opts =
     bindE (prepare_sign_streaming D profile slot input opts) (\<lambda>target. with_access profile access target opts)"

section \<open>SM2 key agreement\<close>

datatype Sm2Role = Initiator | Responder

record Sm2AgreementInput =
  si_role :: Sm2Role
  si_peer_static :: bytes
  si_peer_ephemeral :: bytes
  si_user_id :: "bytes option"
  si_peer_id :: "bytes option"
  si_key_len :: "16 word"

definition Sm2AgreementInput_len :: "Sm2AgreementInput \<Rightarrow> nat" where
  "Sm2AgreementInput_len input =
     saturating_add (saturating_add (saturating_add (length (si_peer_static input)) (length (si_peer_ephemeral input)))
       (opt_len (si_user_id input))) (opt_len (si_peer_id input))"

record Sm2Agreement =
  sm_ephemeral_public :: bytes
  sm_key :: bytes

definition sm2_point :: "(Algorithm \<Rightarrow> bytes \<Rightarrow> bool) \<Rightarrow> bytes \<Rightarrow> bool" where
  "sm2_point point_ok bs \<longleftrightarrow> length bs = 65 \<and> bs ! 0 = 4 \<and> point_ok Sm2 bs"

definition agreement_ga :: "byte \<Rightarrow> Slot \<Rightarrow> bytes \<Rightarrow> OperationOptions \<Rightarrow> LogicalCommand res" where
  "agreement_ga i slot inner opts =
     bindE (push_fields (TlvWriter_new (max_input_bytes (limits opts))) [(0x7c, inner)]) (\<lambda>outer.
     let c = (key_command 0x87 i (Slot_reference slot) (w_bytes outer))
               \<lparr>lc_allow_chaining := False, lc_allow_extended := False\<rparr> in
     bindE (validate_command c opts) (\<lambda>_. Inr c))"

fun read_tags :: "byte list \<Rightarrow> TlvReader \<Rightarrow> bytes list res" where
  "read_tags [] reader =
     bindE (TlvReader_next reader) (\<lambda>(extra, _). bindE (ensureE (extra = None) invalid_parsing) (\<lambda>_. Inr []))"
| "read_tags (t # ts) reader =
     bindE (TlvReader_next reader) (\<lambda>(field, reader).
     bindE (ok_or field invalid_parsing) (\<lambda>field.
       if tag_value (f_tag field) \<noteq> ucast t then Inl invalid_parsing
       else bindE (read_tags ts reader) (\<lambda>vs. Inr (f_value field # vs))))"

definition agreement_fields :: "ResponseData \<Rightarrow> byte list \<Rightarrow> nat \<Rightarrow> bytes list res" where
  "agreement_fields r tags limit =
     bindE (ResponseData_ensure_success r Phase.Command) (\<lambda>_.
     bindE (TlvReader_next (TlvReader_new_ber (rd_data r) (value_limits limit))) (\<lambda>(outer, reader).
     bindE (ok_or outer invalid_parsing) (\<lambda>outer.
     bindE (if tag_value (f_tag outer) \<noteq> 0x7c then Inl invalid_parsing
            else bindE (TlvReader_next reader) (\<lambda>(extra, _). ensureE (extra = None) invalid_parsing)) (\<lambda>_.
     bindE (Tlv_children outer) (read_tags tags)))))"

record AgreementMachine =
  am_preflight :: "Metadata Sequence option"
  am_begin :: "LogicalCommand option"
  am_finish :: "LogicalCommand option"
  am_ephemeral :: "bytes option"
  am_role :: Sm2Role
  am_key_len :: nat
  am_limit :: nat

definition agreement_result ::
  "(Algorithm \<Rightarrow> bytes \<Rightarrow> bool) \<Rightarrow> AgreementMachine \<Rightarrow> bytes \<Rightarrow> bytes \<Rightarrow> Sm2Agreement Action res" where
  "agreement_result point_ok m ephemeral key =
     (if \<not> sm2_point point_ok ephemeral \<or> length key \<noteq> am_key_len m then Inl invalid_parsing
      else Inr (Action.Done \<lparr>sm_ephemeral_public = ephemeral, sm_key = key\<rparr>))"

text \<open>The part of \<open>next\<close> after the preflight: send the first command, then react to the responses.\<close>

definition AgreementMachine_main ::
  "(Algorithm \<Rightarrow> bytes \<Rightarrow> bool) \<Rightarrow> AgreementMachine \<Rightarrow> ResponseData option
   \<Rightarrow> AgreementMachine \<times> Sm2Agreement Action res" where
  "AgreementMachine_main point_ok m response =
     (case am_begin m of
        Some c \<Rightarrow> (m\<lparr>am_begin := None\<rparr>, Inr (Action.Command c))
      | None \<Rightarrow>
          (case response of
             None \<Rightarrow> (m, Inl (Error_new ProtocolViolation))
           | Some r \<Rightarrow>
               if am_role m = Initiator \<and> am_ephemeral m = None then
                 (case agreement_fields r [0x82] (am_limit m) of
                    Inl e \<Rightarrow> (m, Inl e)
                  | Inr values \<Rightarrow>
                      if \<not> sm2_point point_ok (values ! 0) then (m, Inl invalid_parsing)
                      else (m\<lparr>am_ephemeral := Some (values ! 0), am_finish := None\<rparr>,
                            bindE (ok_or (am_finish m) invalid_parsing) (\<lambda>c. Inr (Action.Command c))))
               else if am_role m = Responder then
                 (case agreement_fields r [0x82, 0x85] (am_limit m) of
                    Inl e \<Rightarrow> (m, Inl e)
                  | Inr values \<Rightarrow> (m, agreement_result point_ok m (values ! 0) (values ! 1)))
               else
                 (case agreement_fields r [0x82] (am_limit m) of
                    Inl e \<Rightarrow> (m, Inl e)
                  | Inr values \<Rightarrow>
                      (case am_ephemeral m of
                         None \<Rightarrow> (m, Inl invalid_parsing)
                       | Some ephemeral \<Rightarrow>
                           (m\<lparr>am_ephemeral := None\<rparr>, agreement_result point_ok m ephemeral (values ! 0))))))"

definition agreement_policy :: "Metadata \<Rightarrow> unit res" where
  "agreement_policy md =
     (case mf_pin_policy (Metadata_fields md) of
        Some (Known PinNever) \<Rightarrow> Inr ()
      | Some (Known PinOnce) \<Rightarrow> Inr ()
      | Some (Known PinAlways) \<Rightarrow> Inl (Error_new UnsupportedFeature)
      | _ \<Rightarrow> Inl (Error_new CapabilityUnknown))"

definition AgreementMachine_next ::
  "(Algorithm \<Rightarrow> bytes \<Rightarrow> bool) \<Rightarrow> AgreementMachine \<Rightarrow> ResponseData option
   \<Rightarrow> AgreementMachine \<times> Sm2Agreement Action res" where
  "AgreementMachine_next point_ok m response =
     (case am_preflight m of
        None \<Rightarrow> AgreementMachine_main point_ok m response
      | Some preflight \<Rightarrow>
          (case Sequence_next preflight response of
             (s, Inl e) \<Rightarrow> (m\<lparr>am_preflight := Some s\<rparr>, Inl e)
           | (s, Inr (Action.Command c)) \<Rightarrow> (m\<lparr>am_preflight := Some s\<rparr>, Inr (Action.Command c))
           | (s, Inr (Action.Done md)) \<Rightarrow>
               (case agreement_policy md of
                  Inl e \<Rightarrow> (m\<lparr>am_preflight := Some s\<rparr>, Inl e)
                | Inr _ \<Rightarrow> AgreementMachine_main point_ok (m\<lparr>am_preflight := None\<rparr>) None)))"

definition AgreementMachine_ops :: "(Algorithm \<Rightarrow> bytes \<Rightarrow> bool) \<Rightarrow> (AgreementMachine, Sm2Agreement) Machine" where
  "AgreementMachine_ops point_ok = plain_machine (AgreementMachine_next point_ok)"

fun opt_field :: "byte \<Rightarrow> bytes option \<Rightarrow> (byte \<times> bytes) list" where
  "opt_field t None = []"
| "opt_field t (Some v) = [(t, v)]"

definition agreement_peer_fields :: "Sm2AgreementInput \<Rightarrow> (byte \<times> bytes) list" where
  "agreement_peer_fields input =
     [(0x86, si_peer_static input), (0x87, si_peer_ephemeral input)] @ opt_field 0x88 (si_peer_id input)
     @ [(0x89, to_be_bytes 2 (si_key_len input))]"

definition agreement_slot :: "Slot \<Rightarrow> bool" where
  "agreement_slot slot = (case slot of KeyManagement \<Rightarrow> True | Retired _ \<Rightarrow> True | _ \<Rightarrow> False)"

definition prepare_agreement ::
  "(Algorithm \<Rightarrow> bytes \<Rightarrow> bool) \<Rightarrow> DeviceProfile \<Rightarrow> Slot \<Rightarrow> Sm2AgreementInput \<Rightarrow> OperationOptions
   \<Rightarrow> AgreementMachine res" where
  "prepare_agreement point_ok profile slot input opts =
     bindE (OperationOptions_validate opts) (\<lambda>_.
     bindE (require profile Capability.Sm2Agreement) (\<lambda>_.
     bindE (key_id profile slot Sm2) (\<lambda>i.
     if \<not> agreement_slot slot \<or> \<not> sm2_point point_ok (si_peer_static input)
        \<or> \<not> sm2_point point_ok (si_peer_ephemeral input) \<or> \<not> (1 \<le> si_key_len input \<and> si_key_len input \<le> 128)
     then Inl (Error_new InvalidArgument)
     else
     bindE (identity_ok (si_user_id input)) (\<lambda>_.
     bindE (identity_ok (si_peer_id input)) (\<lambda>_.
     if Sm2AgreementInput_len input > max_input_bytes (limits opts) then Inl (Error_new LimitExceeded)
     else
     let new = TlvWriter_new (max_input_bytes (limits opts));
         user = opt_field 0x80 (si_user_id input) in
     bindE (push_fields new (agreement_peer_fields input)) (\<lambda>exp.
     bindE (push_fields new ((if si_role input = Responder then user else []) @ [(0x82, []), (0x85, w_bytes exp)])) (\<lambda>inner.
     bindE (agreement_ga i slot (w_bytes inner) opts) (\<lambda>finish.
     bindE (if si_role input = Initiator then
              bindE (push_fields new (user @ [(0x82, [])])) (\<lambda>first.
              bindE (prepare_get_metadata profile (KeyReference slot) opts) (\<lambda>preflight.
              bindE (agreement_ga i slot (w_bytes first) opts) (\<lambda>begin_command.
                Inr (Some preflight, begin_command, Some finish))))
            else Inr (None, finish, None)) (\<lambda>(preflight, begin_command, last_command).
       Inr \<lparr>am_preflight = preflight, am_begin = Some begin_command, am_finish = last_command, am_ephemeral = None,
            am_role = si_role input, am_key_len = unat (si_key_len input),
            am_limit = max_total_response_bytes (limits opts)\<rparr>)))))))))"

definition agree_sm2 ::
  "(Algorithm \<Rightarrow> bytes \<Rightarrow> bool) \<Rightarrow> DeviceProfile \<Rightarrow> Slot \<Rightarrow> Sm2AgreementInput \<Rightarrow> Access \<Rightarrow> OperationOptions
   \<Rightarrow> (AgreementMachine Selected, Sm2Agreement) Operation res" where
  "agree_sm2 point_ok profile slot input access opts =
     bindE (prepare_agreement point_ok profile slot input opts) (\<lambda>target. with_access profile access target opts)"

section \<open>What an agreement does\<close>

definition ga_command :: "OperationOptions \<Rightarrow> LogicalCommand \<Rightarrow> bool" where
  "ga_command opts c \<longleftrightarrow> validate_command c opts = Inr () \<and> \<not> lc_allow_chaining c \<and> ins (lc_header c) = 0x87"

text \<open>The response to the metadata preflight allows two private operations after one PIN verification.\<close>

definition policy_allows :: "DeviceProfile \<Rightarrow> Slot \<Rightarrow> OperationOptions \<Rightarrow> ResponseData \<Rightarrow> bool" where
  "policy_allows profile slot opts r \<longleftrightarrow>
     rd_status r = 0x9000 \<and>
     (\<exists>md. metadata_decode profile (KeyReference slot) (rd_data r) (max_total_response_bytes (limits opts)) = Inr md
       \<and> mf_pin_policy (Metadata_fields md) \<in> {Some (Known PinNever), Some (Known PinOnce)})"

lemma agreement_ga_ok: "agreement_ga i slot inner opts = Inr c \<Longrightarrow> ga_command opts c"
  by (auto simp: agreement_ga_def ga_command_def bindE_eq_Inr Let_def key_command_def LogicalCommand_new_def
      ApduHeader_new_def)

lemma agreement_policy_iff:
  "agreement_policy md = Inr u \<longleftrightarrow> mf_pin_policy (Metadata_fields md) \<in> {Some (Known PinNever), Some (Known PinOnce)}"
  by (auto simp: agreement_policy_def split: option.splits KnownOrUnknown.splits PinPolicy.splits)

lemma prepared_metadata:
  assumes "prepare_get_metadata profile (KeyReference slot) opts = Inr s"
  obtains parse where "s = \<lparr>sq_pending = [piv_request (command_metadata (KeyReference slot)) Phase.Command None],
      sq_current = None, sq_parse = Some parse\<rparr>"
    "validate_command (command_metadata (KeyReference slot)) opts = Inr ()"
    "\<And>r md. parse r = Inr md \<Longrightarrow> rd_status r = 0x9000
      \<and> metadata_decode profile (KeyReference slot) (rd_data r) (max_total_response_bytes (limits opts)) = Inr md"
proof (rule that)
  let ?parse = "\<lambda>r. if legacy_empty_key_metadata profile \<and> is_key_reference (KeyReference slot) \<and> rd_status r = 0x6900
     then Inl ((Error_status (rd_status r) Phase.Command None)\<lparr>e_kind := NotFound\<rparr>)
     else bindE (ResponseData_ensure_success r Phase.Command) (\<lambda>_.
       metadata_decode profile (KeyReference slot) (rd_data r) (max_total_response_bytes (limits opts)))"
  show "s = \<lparr>sq_pending = [piv_request (command_metadata (KeyReference slot)) Phase.Command None],
      sq_current = None, sq_parse = Some ?parse\<rparr>" "validate_command (command_metadata (KeyReference slot)) opts = Inr ()"
    using assms by (auto simp: prepare_get_metadata_def piv_prepare_def bindE_eq_Inr)
  show "rd_status r = 0x9000
      \<and> metadata_decode profile (KeyReference slot) (rd_data r) (max_total_response_bytes (limits opts)) = Inr md"
    if "?parse r = Inr md" for r md
    using that by (auto simp: bindE_eq_Inr ensure_success_iff split: if_splits)
qed

lemma agreement_start:
  assumes "prepare_agreement point_ok profile slot input opts = Inr m0"
  obtains b where "am_begin m0 = Some b" "ga_command opts b" "am_role m0 = si_role input" "am_ephemeral m0 = None"
    "am_key_len m0 = unat (si_key_len input)"
    "if si_role input = Initiator
     then (\<exists>f. am_finish m0 = Some f \<and> ga_command opts f)
       \<and> (\<exists>s. prepare_get_metadata profile (KeyReference slot) opts = Inr s \<and> am_preflight m0 = Some s)
     else am_preflight m0 = None"
  using assms
  by (auto simp: prepare_agreement_def bindE_eq_Inr Let_def split: if_splits dest!: agreement_ga_ok)

inductive agreement_inv ::
  "(Algorithm \<Rightarrow> bytes \<Rightarrow> bool) \<Rightarrow> DeviceProfile \<Rightarrow> Slot \<Rightarrow> OperationOptions \<Rightarrow> AgreementMachine
   \<Rightarrow> AgreementMachine \<Rightarrow> ResponseData option \<Rightarrow> trace \<Rightarrow> bool" for point_ok profile slot opts m0 where
  ag_start: "agreement_inv point_ok profile slot opts m0 m0 None []"
| ag_metadata: "am_role m0 = Initiator \<Longrightarrow> am_preflight m0 = Some s
    \<Longrightarrow> agreement_inv point_ok profile slot opts m0
          (m0\<lparr>am_preflight := Some (s\<lparr>sq_pending := [], sq_current := Some (Phase.Command, None)\<rparr>)\<rparr>) (Some r) [(c, r)]"
| ag_begun: "am_role m0 = Initiator \<Longrightarrow> policy_allows profile slot opts r0
    \<Longrightarrow> agreement_inv point_ok profile slot opts m0 (m0\<lparr>am_preflight := None, am_begin := None\<rparr>) (Some r) [(c0, r0), (c, r)]"
| ag_ephemeral: "am_role m0 = Initiator \<Longrightarrow> policy_allows profile slot opts r0 \<Longrightarrow> sm2_point point_ok e
    \<Longrightarrow> rd_status r1 = 0x9000
    \<Longrightarrow> agreement_inv point_ok profile slot opts m0
          (m0\<lparr>am_preflight := None, am_begin := None, am_finish := None, am_ephemeral := Some e\<rparr>)
          (Some r) [(c0, r0), (c1, r1), (c, r)]"
| ag_responder: "am_role m0 = Responder
    \<Longrightarrow> agreement_inv point_ok profile slot opts m0 (m0\<lparr>am_begin := None\<rparr>) (Some r) [(c, r)]"

text \<open>What an action says about the exchanges before it.\<close>

definition agreement_action ::
  "(Algorithm \<Rightarrow> bytes \<Rightarrow> bool) \<Rightarrow> DeviceProfile \<Rightarrow> Slot \<Rightarrow> OperationOptions \<Rightarrow> Sm2AgreementInput \<Rightarrow> trace
   \<Rightarrow> Sm2Agreement Action \<Rightarrow> bool" where
  "agreement_action point_ok profile slot opts input tr a =
     (case a of
        Action.Command c \<Rightarrow>
          validate_command c opts = Inr () \<and> \<not> lc_allow_chaining c
          \<and> (if si_role input = Responder then tr = []
             else tr = [] \<and> c = command_metadata (KeyReference slot)
               \<or> tr \<noteq> [] \<and> length tr < 3 \<and> policy_allows profile slot opts (snd (hd tr)))
      | Action.Done k \<Rightarrow>
          length tr = (if si_role input = Responder then 1 else 3)
          \<and> (\<forall>(c, r)\<in>set tr. rd_status r = 0x9000)
          \<and> (si_role input = Initiator \<longrightarrow> policy_allows profile slot opts (snd (hd tr)))
          \<and> sm2_point point_ok (sm_ephemeral_public k) \<and> length (sm_key k) = unat (si_key_len input))"

lemma agreement_fields_ok: "agreement_fields r tags limit = Inr vs \<Longrightarrow> rd_status r = 0x9000"
  by (auto simp: agreement_fields_def bindE_eq_Inr ensure_success_iff)

lemma agreement_result_ok:
  "agreement_result point_ok m e k = Inr a \<longleftrightarrow>
    sm2_point point_ok e \<and> length k = am_key_len m \<and> a = Action.Done \<lparr>sm_ephemeral_public = e, sm_key = k\<rparr>"
  by (auto simp: agreement_result_def)

lemma role_cases: "r \<noteq> Responder \<longleftrightarrow> r = Initiator"
  by (cases r) simp_all

lemma agreement_step:
  assumes start: "prepare_agreement point_ok profile slot input opts = Inr m0"
    and inv: "agreement_inv point_ok profile slot opts m0 m resp tr"
    and step: "AgreementMachine_next point_ok m resp = (m', Inr a)"
  shows "agreement_action point_ok profile slot opts input tr a
    \<and> (\<forall>c r. a = Action.Command c \<longrightarrow> agreement_inv point_ok profile slot opts m0 m' (Some r) (tr @ [(c, r)]))"
proof -
  obtain b where b: "am_begin m0 = Some b" "ga_command opts b" "am_role m0 = si_role input" "am_ephemeral m0 = None"
    "am_key_len m0 = unat (si_key_len input)"
    and ini: "if si_role input = Initiator
     then (\<exists>f. am_finish m0 = Some f \<and> ga_command opts f)
       \<and> (\<exists>s. prepare_get_metadata profile (KeyReference slot) opts = Inr s \<and> am_preflight m0 = Some s)
     else am_preflight m0 = None"
    using agreement_start [OF start] by metis
  note defs = AgreementMachine_next_def AgreementMachine_main_def agreement_action_def
  show ?thesis
  proof (cases "si_role input")
    case Responder
    then have pf: "am_preflight m0 = None" using ini by simp
    from inv show ?thesis
    proof cases
      case ag_start
      then show ?thesis
        using step pf b Responder by (auto simp: defs ga_command_def intro: ag_responder)
    next
      case (ag_responder r c)
      then show ?thesis
        using step pf b Responder
        by (auto simp: defs agreement_result_ok dest: agreement_fields_ok split: sum.splits)
    qed (use b Responder in simp_all)
  next
    case Initiator
    then obtain f s where f: "am_finish m0 = Some f" "ga_command opts f" "am_preflight m0 = Some s"
      "prepare_get_metadata profile (KeyReference slot) opts = Inr s" using ini by auto
    obtain parse where s: "s = \<lparr>sq_pending = [piv_request (command_metadata (KeyReference slot)) Phase.Command None],
        sq_current = None, sq_parse = Some parse\<rparr>"
      and v: "validate_command (command_metadata (KeyReference slot)) opts = Inr ()"
      and parse: "\<And>r md. parse r = Inr md \<Longrightarrow> rd_status r = 0x9000
        \<and> metadata_decode profile (KeyReference slot) (rd_data r) (max_total_response_bytes (limits opts)) = Inr md"
      using prepared_metadata [OF f(4)] by metis
    have ch: "\<not> lc_allow_chaining (command_metadata (KeyReference slot))"
      by (simp add: command_metadata_def piv_read_def piv_cmd_def LogicalCommand_new_def)
    from inv show ?thesis
    proof cases
      case ag_start
      then show ?thesis
        using step Initiator b(3) f(3) v ch
        by (auto simp: defs s Sequence_next_def Sequence_pop_def piv_request_def intro!: ag_metadata [where s = s, simplified s, simplified piv_request_def, simplified])
    next
      case (ag_metadata s' r c)
      then have s': "s' = s" using f by simp
      obtain md where md: "parse r = Inr md" "agreement_policy md = Inr ()"
          "a = Action.Command b" "m' = m0\<lparr>am_preflight := None, am_begin := None\<rparr>"
        using step ag_metadata b s'
        by (auto simp: defs s Sequence_next_def bindE_def split: sum.splits)
      have "policy_allows profile slot opts r"
        using parse [OF md(1)] md(2) by (auto simp: policy_allows_def agreement_policy_iff)
      then show ?thesis
        using md ag_metadata Initiator b(2,3) by (auto simp: agreement_action_def ga_command_def intro: ag_begun)
    next
      case (ag_begun r0 r c0 c)
      then obtain vs where vs: "agreement_fields r [0x82] (am_limit m0) = Inr vs" "sm2_point point_ok (vs ! 0)"
          "a = Action.Command f"
          "m' = m0\<lparr>am_preflight := None, am_begin := None, am_finish := None, am_ephemeral := Some (vs ! 0)\<rparr>"
        using step b(4) f(1) by (auto simp: defs split: sum.splits if_splits)
      then show ?thesis
        using ag_begun Initiator f(2) agreement_fields_ok [OF vs(1)]
        by (auto simp: agreement_action_def ga_command_def intro: ag_ephemeral)
    next
      case (ag_ephemeral r0 e r1 r c0 c1 c)
      then obtain k where k: "a = Action.Done \<lparr>sm_ephemeral_public = e, sm_key = k\<rparr>" "length k = am_key_len m0"
          "rd_status r = 0x9000"
        using step by (auto simp: defs agreement_result_ok dest: agreement_fields_ok split: sum.splits)
      then show ?thesis
        using ag_ephemeral Initiator b(5) by (auto simp: agreement_action_def policy_allows_def)
    next
      case (ag_responder r c)
      then show ?thesis using b(3) Initiator by simp
    qed
  qed
qed

section \<open>What streaming sends\<close>

definition streaming_encoding :: "StreamingSignInput \<Rightarrow> bytes" where
  "streaming_encoding input =
     (let (msg, user_id) = streaming_parts input in
      tlv_encode [(short_tag 0x7c, tlv_encode (map (map_prod short_tag id) (streaming_fields msg user_id)))])"

definition sent_data :: "trace \<Rightarrow> bytes" where
  "sent_data tr = concat (map (lc_data \<circ> fst) tr)"

lemma streaming_fields_tags: "list_all (one_byte_tag \<circ> fst) (streaming_fields msg user_id)"
  by (cases user_id) (simp_all add: streaming_fields_def one_byte_tag_def)

lemma streaming_start:
  assumes "prepare_sign_streaming D profile slot input opts = Inr m0"
  obtains c parse i where "st_target m0 = \<lparr>sq_pending = [piv_request c Phase.Command None], sq_current = None, sq_parse = Some parse\<rparr>"
    "\<not> st_awaiting_prefix m0" "cla (lc_header c) = 0"
    "\<And>r sig. parse r = Inr sig \<Longrightarrow> rd_status r = 0x9000 \<and> sg_algorithm sig = streaming_algorithm input"
    "if streaming_algorithm input = Sm2
     then st_prefix m0 = Some (streaming_prefix i slot) \<and> lc_data (streaming_prefix i slot) @ lc_data c = streaming_encoding input
     else st_prefix m0 = None \<and> lc_data c = streaming_encoding input"
proof -
  let ?a = "streaming_algorithm input"
  let ?lim = "max_total_response_bytes (limits opts)"
  obtain msg user_id where parts: "streaming_parts input = (msg, user_id)" by fastforce
  obtain i inner outer c enc where
    inner: "push_fields (TlvWriter_new (min (max_input_bytes (limits opts)) 65535)) (streaming_fields msg user_id) = Inr inner"
    and outer: "push_fields (TlvWriter_new (max_input_bytes (limits opts))) [(0x7c, w_bytes inner)] = Inr outer"
    and c: "c = (key_command 0x87 i (Slot_reference slot) (if ?a = Sm2 then drop 1 (w_bytes outer) else w_bytes outer))
        \<lparr>lc_allow_extended := False\<rparr>"
    and m0: "m0 = \<lparr>st_prefix = (if ?a = Sm2 then Some (streaming_prefix i slot) else None), st_awaiting_prefix = False,
      st_target = \<lparr>sq_pending = [piv_request c Phase.Command None], sq_current = None,
        sq_parse = Some (\<lambda>r. parse_signature D ?a enc r ?lim)\<rparr>\<rparr>"
    using assms parts
    unfolding prepare_sign_streaming_def Let_def piv_prepare_def
    by (fastforce simp: bindE_eq_Inr split: if_splits)
  have bytes: "w_bytes outer = streaming_encoding input"
    using push_fields_encode [OF inner streaming_fields_tags] push_fields_encode [OF outer]
    by (simp add: TlvWriter_new_def one_byte_tag_def streaming_encoding_def parts)
  moreover have "[0x7c] @ drop 1 (streaming_encoding input) = streaming_encoding input"
    by (simp add: streaming_encoding_def parts tlv_encode_def tlv_field_def short_tag_def Tag_to_bytes_def
        to_be_bytes_numeral)
  ultimately have "if ?a = Sm2
     then st_prefix m0 = Some (streaming_prefix i slot) \<and> lc_data (streaming_prefix i slot) @ lc_data c = streaming_encoding input
     else st_prefix m0 = None \<and> lc_data c = streaming_encoding input"
    by (simp add: m0 c key_command_def streaming_prefix_def)
  moreover have "rd_status r = 0x9000 \<and> sg_algorithm sig = ?a" if "parse_signature D ?a enc r ?lim = Inr sig" for r sig
    using that by (auto simp: parse_signature_def private_reply_def bindE_eq_Inr ensure_success_iff)
  moreover have "cla (lc_header c) = 0" by (simp add: c key_command_def LogicalCommand_new_def ApduHeader_new_def)
  ultimately show ?thesis using m0 by (intro that) auto
qed

inductive streaming_inv :: "StreamingMachine \<Rightarrow> StreamingMachine \<Rightarrow> ResponseData option \<Rightarrow> trace \<Rightarrow> bool" for m0 where
  sm_start: "streaming_inv m0 m0 None []"
| sm_prefixed: "st_prefix m0 = Some p
    \<Longrightarrow> streaming_inv m0 (m0\<lparr>st_prefix := None, st_awaiting_prefix := True\<rparr>) (Some r) [(p, r)]"
| sm_single: "st_prefix m0 = None \<Longrightarrow> sq_pending (st_target m0) = [piv_request c ph ref]
    \<Longrightarrow> streaming_inv m0 (m0\<lparr>st_target := (st_target m0)\<lparr>sq_pending := [], sq_current := Some (ph, ref)\<rparr>\<rparr>) (Some r) [(c, r)]"
| sm_sent: "st_prefix m0 = Some p \<Longrightarrow> sq_pending (st_target m0) = [piv_request c ph ref]
    \<Longrightarrow> rd_status r0 = 0x9000 \<Longrightarrow> rd_data r0 = []
    \<Longrightarrow> streaming_inv m0 (m0\<lparr>st_prefix := None, st_awaiting_prefix := False,
          st_target := (st_target m0)\<lparr>sq_pending := [], sq_current := Some (ph, ref)\<rparr>\<rparr>) (Some r) [(p, r0), (c, r)]"

lemma streaming_exchange:
  assumes inv: "streaming_inv m0 m resp tr" and step: "StreamingMachine_next m resp = (m', Inr (Action.Command c))"
    and m0: "sq_pending (st_target m0) = [req]" "\<not> st_awaiting_prefix m0"
  shows "streaming_inv m0 m' (Some r) (tr @ [(c, r)])"
proof -
  have req: "req = piv_request (rq_command req) (rq_phase req) (rq_reference req)" by (simp add: piv_request_def)
  from inv show ?thesis
  proof cases
    case sm_start
    show ?thesis
    proof (cases "st_prefix m0")
      case None
      then have "c = rq_command req" "m' = m0\<lparr>st_target := (st_target m0)\<lparr>sq_pending := [], sq_current := Some (rq_phase req, rq_reference req)\<rparr>\<rparr>"
        using step sm_start m0
        by (auto simp: StreamingMachine_next_def StreamingMachine_target_def Sequence_next_def Sequence_pop_def)
      then show ?thesis using sm_single [OF None, of "rq_command req" "rq_phase req" "rq_reference req" r] m0 req sm_start by simp
    next
      case (Some p)
      then show ?thesis using step sm_start by (auto simp: StreamingMachine_next_def intro: sm_prefixed)
    qed
  next
    case (sm_prefixed p r0)
    then have "rd_status r0 = 0x9000" "rd_data r0 = []" "c = rq_command req"
      "m' = m0\<lparr>st_prefix := None, st_awaiting_prefix := False,
        st_target := (st_target m0)\<lparr>sq_pending := [], sq_current := Some (rq_phase req, rq_reference req)\<rparr>\<rparr>"
      using step m0
      by (auto simp: StreamingMachine_next_def StreamingMachine_target_def Sequence_next_def Sequence_pop_def
          bindE_def ResponseData_ensure_success_def split: if_splits)
    then show ?thesis
      using sm_sent [OF sm_prefixed(4), of "rq_command req" "rq_phase req" "rq_reference req" r0 r] m0 req sm_prefixed by simp
  next
    case sm_single
    then show ?thesis using step m0
      by (auto simp: StreamingMachine_next_def StreamingMachine_target_def Sequence_next_def bindE_def split: sum.splits option.splits)
  next
    case sm_sent
    then show ?thesis using step m0
      by (auto simp: StreamingMachine_next_def StreamingMachine_target_def Sequence_next_def bindE_def split: sum.splits option.splits)
  qed
qed

lemma streaming_run:
  assumes "prepare_sign_streaming D profile slot input opts = Inr m0" "trace_run StreamingMachine_ops m0 m resp tr"
  shows "streaming_inv m0 m resp tr"
  using assms(2)
proof (rule machine_run_invariant)
  show "streaming_inv m0 m0 None []" by (rule sm_start)
next
  fix m resp tr m' c r tr'
  assume "streaming_inv m0 m resp tr" "m_next StreamingMachine_ops m resp = (m', Inr (Action.Command c))" "trace_env tr c r tr'"
  moreover obtain req where "sq_pending (st_target m0) = [req]" "\<not> st_awaiting_prefix m0"
    by (rule streaming_start [OF assms(1)]) simp
  ultimately show "streaming_inv m0 m' (Some r) tr'"
    using streaming_exchange [of m0 m resp tr m' c req r]
    by (simp add: StreamingMachine_ops_def plain_machine_def trace_env_def)
qed

lemma streaming_done:
  assumes "prepare_sign_streaming D profile slot input opts = Inr m0" "streaming_inv m0 m resp tr"
    "StreamingMachine_next m resp = (m', Inr (Action.Done sig))"
  shows "sent_data tr = streaming_encoding input \<and> (\<forall>(c, r)\<in>set tr. rd_status r = 0x9000)
    \<and> map (\<lambda>(c, _). cla (lc_header c)) tr = (if streaming_algorithm input = Sm2 then [0x10, 0] else [0])
    \<and> sg_algorithm sig = streaming_algorithm input"
proof -
  obtain c parse i where t: "st_target m0 = \<lparr>sq_pending = [piv_request c Phase.Command None], sq_current = None, sq_parse = Some parse\<rparr>"
    and aw: "\<not> st_awaiting_prefix m0" and h: "cla (lc_header c) = 0"
    and parse: "\<And>r sig. parse r = Inr sig \<Longrightarrow> rd_status r = 0x9000 \<and> sg_algorithm sig = streaming_algorithm input"
    and d: "if streaming_algorithm input = Sm2
     then st_prefix m0 = Some (streaming_prefix i slot) \<and> lc_data (streaming_prefix i slot) @ lc_data c = streaming_encoding input
     else st_prefix m0 = None \<and> lc_data c = streaming_encoding input"
    using streaming_start [OF assms(1)] by metis
  have p: "cla (lc_header (streaming_prefix i slot)) = 0x10" by (simp add: streaming_prefix_def Let_def)
  note defs = StreamingMachine_next_def StreamingMachine_target_def Sequence_next_def Sequence_pop_def
  from assms(2) show ?thesis
  proof cases
    case sm_start
    then show ?thesis using assms(3) t aw by (cases "st_prefix m0") (auto simp: defs)
  next
    case (sm_prefixed p' r)
    then show ?thesis using assms(3) t by (auto simp: defs split: sum.splits)
  next
    case (sm_single c' ph ref r)
    then have "c' = c" "parse r = Inr sig"
      using assms(3) t aw by (auto simp: defs piv_request_def bindE_eq_Inr)
    then show ?thesis using sm_single d h parse by (auto simp: sent_data_def split: if_splits)
  next
    case (sm_sent p' c' ph ref r0 r)
    then have "c' = c" "parse r = Inr sig"
      using assms(3) t by (auto simp: defs piv_request_def bindE_eq_Inr)
    then show ?thesis using sm_sent d h p parse by (auto simp: sent_data_def split: if_splits)
  qed
qed

section \<open>A profile with extended algorithms\<close>

definition sm2_profile :: DeviceProfile where
  "sm2_profile = piv_profile\<lparr>dp_config := dp_config sample_profile\<rparr>"

lemma sm2_base [simp]: "base_of sm2_profile = Some (3, 1, 0)"
  using piv_profile_simps(1) by (simp add: sm2_profile_def base_of_def)

lemma sm2_range: "cs_support (firmware_range sm2_profile first final) = Supported \<longleftrightarrow> first \<le> (3, 1, 0) \<and> (3, 1, 0) \<le> final"
  by (simp add: firmware_range_def recognized_def)

lemma sm2_supports:
  assumes "capability_range feature = Some (first, final)"
  shows "supports sm2_profile feature \<longleftrightarrow> first \<le> (3, 1, 0) \<and> (3, 1, 0) \<le> final"
  using assms by (simp add: supports_def capability_def sm2_range)

lemma sm2_piv [simp]: "supports sm2_profile Piv"
  by (simp add: supports_def capability_def sm2_profile_def piv_profile_def)

lemma require_status: "cs_support s = Supported \<Longrightarrow> CapabilityStatus_require s = Inr ()"
  by (simp add: CapabilityStatus_require_def)

lemma sm2_key_support: "cs_support (key_algorithm_support sm2_profile Sm2) = Supported"
proof -
  have "extension_wire_id sm2_profile Sm2 = Some 0x54"
    by (simp add: extension_wire_id_def sm2_profile_def sample_profile_def AlgorithmConfig_wire_id_def base_such_def)
  then have "extended_support sm2_profile Sm2 = Supported"
    by (simp add: extended_support_def sm2_profile_def sample_profile_def)
  then show ?thesis
    by (simp add: key_algorithm_support_def sm2_range extended_first_def less_eq_prod_def Let_def)
qed

lemma sm2_key_id: "key_id sm2_profile KeyManagement Sm2 = Inr 0x54"
proof -
  have "algorithm_wire_id sm2_profile Sm2 = Some 0x54"
    by (simp add: algorithm_wire_id_def extension_wire_id_def sm2_profile_def sample_profile_def
        AlgorithmConfig_wire_id_def base_such_def)
  moreover have "cs_support (piv_slot_support sm2_profile 0x9d) = Supported"
    by (simp add: piv_slot_support_def sm2_range less_eq_prod_def)
  moreover have "require sm2_profile Piv = Inr ()" by (simp add: require_eq_Inr)
  ultimately show ?thesis by (simp add: key_id_def require_status sm2_key_support)
qed

lemma push_fields_okI:
  assumes "list_all (one_byte_tag \<circ> fst) fs" "\<forall>(t, v)\<in>set fs. length v < 2 ^ 32"
    "length (w_bytes w @ tlv_encode (map (map_prod short_tag id) fs)) \<le> w_limit w" "w_limit w \<le> usize_max"
  shows "push_fields w fs = Inr (w\<lparr>w_bytes := w_bytes w @ tlv_encode (map (map_prod short_tag id) fs)\<rparr>)"
proof -
  have "push_fields w fs = push_all w (map (map_prod short_tag id) fs)"
    using assms(1) by (induction w fs rule: push_fields.induct) (simp_all add: short_tags cong: bindE_cong)
  also have "\<dots> = Inr (w\<lparr>w_bytes := w_bytes w @ tlv_encode (map (map_prod short_tag id) fs)\<rparr>)"
    using assms(2-4) by (intro push_all_okI) auto
  finally show ?thesis .
qed

lemma length_tag [simp]: "length (Tag_to_bytes (short_tag b)) = 1"
  by (simp add: Tag_to_bytes_def short_tag_def to_be_bytes_numeral)

text \<open>The length of a field is at most its value and six bytes of framing.\<close>

lemma length_short_field:
  assumes "length v < 2 ^ 32"
  shows "length (tlv_field (short_tag b) v) \<le> length v + 6"
  using length_prefix_ok [OF assms] by (auto simp: tlv_field_def)

lemma push_fields_small:
  assumes "list_all (one_byte_tag \<circ> fst) fs" "(\<Sum>f\<leftarrow>fs. length (snd f) + 6) \<le> limit" "limit \<le> 2 ^ 20"
  obtains w where "push_fields (TlvWriter_new limit) fs = Inr w" "length (w_bytes w) \<le> (\<Sum>f\<leftarrow>fs. length (snd f) + 6)"
proof -
  have small: "length v < 2 ^ 32" if "(t, v) \<in> set fs" for t v
  proof -
    have "length v + 6 \<le> (\<Sum>f\<leftarrow>fs. length (snd f) + 6)"
      using member_le_sum_list [of "length v + 6" "map (\<lambda>f. length (snd f) + 6) fs"] that by force
    then show ?thesis using assms(2,3) by simp
  qed
  have len: "length (tlv_encode (map (map_prod short_tag id) fs)) \<le> (\<Sum>f\<leftarrow>fs. length (snd f) + 6)"
    using small
  proof (induction fs)
    case (Cons f fs)
    obtain t v where f: "f = (t, v)" by fastforce
    have "length (tlv_field (short_tag t) v) \<le> length v + 6" using Cons.prems f by (intro length_short_field) auto
    then show ?case using Cons f by (simp add: tlv_encode_def) force
  qed (simp add: tlv_encode_def)
  have "push_fields (TlvWriter_new limit) fs
      = Inr ((TlvWriter_new limit)\<lparr>w_bytes := tlv_encode (map (map_prod short_tag id) fs)\<rparr>)"
    using push_fields_okI [OF assms(1), of "TlvWriter_new limit"] small len assms(2,3)
    by (auto simp: TlvWriter_new_def usize_max_def)
  then show ?thesis using len that by simp
qed

section \<open>Properties\<close>


definition sample_sm2_point :: bytes where
  "sample_sm2_point = 4 # replicate 64 2"

definition sample_agreement :: Sm2AgreementInput where
  "sample_agreement =
     \<lparr>si_role = Responder, si_peer_static = sample_sm2_point, si_peer_ephemeral = sample_sm2_point,
      si_user_id = None, si_peer_id = None, si_key_len = 16\<rparr>"

definition sample_agreement_reply :: ResponseData where
  "sample_agreement_reply =
     \<lparr>rd_data = [0x7c, 85, 0x82, 65] @ sample_sm2_point @ [0x85, 16] @ replicate 16 9, rd_status = 0x9000\<rparr>"

lemma sample_agreement_fields:
  "agreement_fields sample_agreement_reply [0x82, 0x85] 1048576 = Inr [sample_sm2_point, replicate 16 9]"
  by (simp add: agreement_fields_def sample_agreement_reply_def sample_sm2_point_def ResponseData_ensure_success_def
      value_limits_def TlvReader_new_ber_def TlvReader_next_def parse_tag_def read_length_def get_at_def get_range_def
      checked_add_def usize_max_def Tlv_children_def TlvLimits_default_def from_be_def TlvReader_new_def nth_append)

lemma default_budgets [simp]:
  "max_input_bytes (limits OperationOptions_default) = 1048576"
  "max_total_response_bytes (limits OperationOptions_default) = 1048576"
  by (simp_all add: OperationOptions_default_def OperationLimits_default_def)

lemma sample_prepare_agreement:
  obtains b where "prepare_agreement (\<lambda>_ _. True) sm2_profile KeyManagement sample_agreement OperationOptions_default
    = Inr \<lparr>am_preflight = None, am_begin = Some b, am_finish = None, am_ephemeral = None, am_role = Responder,
           am_key_len = 16, am_limit = 1048576\<rparr>"
proof -
  let ?o = OperationOptions_default
  obtain exp where exp: "push_fields (TlvWriter_new 1048576) (agreement_peer_fields sample_agreement) = Inr exp"
    "length (w_bytes exp) \<le> 150"
    by (rule push_fields_small [of "agreement_peer_fields sample_agreement" 1048576])
       (simp_all add: agreement_peer_fields_def sample_agreement_def sample_sm2_point_def one_byte_tag_def)
  obtain inner where inner: "push_fields (TlvWriter_new 1048576) [(0x82, []), (0x85, w_bytes exp)] = Inr inner"
    "length (w_bytes inner) \<le> 162"
    using exp(2) by (auto intro: push_fields_small [of "[(0x82, []), (0x85, w_bytes exp)]" 1048576] simp: one_byte_tag_def)
  obtain outer where outer: "push_fields (TlvWriter_new 1048576) [(0x7c, w_bytes inner)] = Inr outer"
    "length (w_bytes outer) \<le> 168"
    using inner(2) by (auto intro: push_fields_small [of "[(0x7c, w_bytes inner)]" 1048576] simp: one_byte_tag_def)
  let ?c = "(key_command 0x87 0x54 0x9d (w_bytes outer))\<lparr>lc_allow_chaining := False, lc_allow_extended := False\<rparr>"
  have "validate_command ?c ?o = Inr ()"
    by (rule validate_default)
       (use outer(2) in \<open>simp_all add: key_command_def LogicalCommand_new_def short_command_def le_fits_def\<close>)
  then have ga: "agreement_ga 0x54 KeyManagement (w_bytes inner) ?o = Inr ?c"
    using outer(1) by (simp add: agreement_ga_def del: push_fields.simps)
  have "require sm2_profile Capability.Sm2Agreement = Inr ()"
    by (simp add: require_eq_Inr sm2_supports less_eq_prod_def)
  then show ?thesis
    using exp(1) inner(1) ga that [of ?c]
    by (simp add: prepare_agreement_def sm2_key_id agreement_slot_def sm2_point_def sample_agreement_def
        sample_sm2_point_def identity_ok_def Sm2AgreementInput_len_def saturating_add_def usize_max_def Let_def del: push_fields.simps)
qed


text \<open>Streaming sends the message whole. When a streaming signature completes, the data of all
commands concatenates to the encoding of the request (for SM2 the first byte travels alone in a
chained frame that selects the full-message mode), every command was acknowledged, and the
signature is of the requested algorithm.\<close>

theorem streaming_sends_message:
  assumes "prepare_sign_streaming D profile slot input opts = Inr m0"
    and "trace_run StreamingMachine_ops m0 m resp tr" "m_next StreamingMachine_ops m resp = (m', Inr (Action.Done sig))"
  shows "sent_data tr = streaming_encoding input \<and> (\<forall>(c, r)\<in>set tr. rd_status r = 0x9000)
    \<and> map (\<lambda>(c, _). cla (lc_header c)) tr = (if streaming_algorithm input = Sm2 then [0x10, 0] else [0])
    \<and> sg_algorithm sig = streaming_algorithm input"
  using streaming_done [OF assms(1) streaming_run [OF assms(1,2)]] assms(3)
  by (simp add: StreamingMachine_ops_def plain_machine_def)

theorem streaming_sends_message_witness:
  "\<exists>m0 m resp tr m' sig. prepare_sign_streaming sample_ec_der sm2_profile KeyManagement (StreamSm2 [] None) OperationOptions_default = Inr m0
     \<and> trace_run StreamingMachine_ops m0 m resp tr
     \<and> m_next StreamingMachine_ops m resp = (m', Inr (Action.Done sig)) \<and> sent_data tr = [0x7c, 4, 0x82, 0, 0x81, 0]
     \<and> map (\<lambda>(c, _). cla (lc_header c)) tr = [0x10, 0]"
proof -
  let ?o = OperationOptions_default and ?i = "StreamSm2 [] None"
  have t: "push_fields (TlvWriter_new n) [(0x82, []), (0x81, [])] = Inr \<lparr>w_bytes = [0x82, 0, 0x81, 0], w_limit = n\<rparr>"
      "push_fields (TlvWriter_new n) [(0x7c, [0x82, 0, 0x81, 0])] = Inr \<lparr>w_bytes = [0x7c, 4, 0x82, 0, 0x81, 0], w_limit = n\<rparr>"
    if "n \<ge> 6" for n using that by (simp_all add: tlv_eval)
  have p: "validate_command (streaming_prefix 0x54 KeyManagement) ?o = Inr ()"
    by (rule validate_default)
       (simp_all add: streaming_prefix_def key_command_def LogicalCommand_new_def short_command_def le_fits_def Let_def)
  let ?c = "(key_command 0x87 0x54 0x9d [4, 0x82, 0, 0x81, 0])\<lparr>lc_allow_extended := False\<rparr>"
  have c: "validate_command ?c ?o = Inr ()"
    by (simp add: validate_command_def ConversationState_new_def key_command_def LogicalCommand_new_def channel_le_def
        extended_frames_def short_frames_def max_short_def CommandApdu_encode_def header_bytes_def lc_field_def Let_def)
  have sup: "CapabilityStatus_require (streaming_signing_support sm2_profile Sm2) = Inr ()"
    by (rule require_status) (simp add: streaming_signing_support_def sm2_range sm2_key_support Let_def)
  let ?m0 = "\<lparr>st_prefix = Some (streaming_prefix 0x54 KeyManagement), st_awaiting_prefix = False,
      st_target = \<lparr>sq_pending = [piv_request ?c Phase.Command None], sq_current = None,
        sq_parse = Some (\<lambda>r. parse_signature sample_ec_der Sm2 P1363Encoding r 1048576)\<rparr>\<rparr>"
  have m0: "prepare_sign_streaming sample_ec_der sm2_profile KeyManagement ?i ?o = Inr ?m0"
    using p c
    by (simp add: prepare_sign_streaming_def Let_def sup sm2_key_id saturating_add_def MAX_STREAMING_MESSAGE_def
        identity_ok_def streaming_fields_def t piv_prepare_def del: push_fields.simps)
  obtain m resp tr where rep: "replay StreamingMachine_ops ?m0 None [rd_success, sample_sm2_reply] [] = (m, resp, tr)"
    by (metis prod_cases3)
  have run: "trace_run StreamingMachine_ops ?m0 m resp tr" using rep by (rule replay_from_start)
  obtain sig where sig: "parse_signature sample_ec_der Sm2 P1363Encoding sample_sm2_reply 1048576 = Inr sig"
    by (rule sample_sm2_signature [of 1048576]) simp
  then obtain m' where nx: "m_next StreamingMachine_ops m resp = (m', Inr (Action.Done sig))"
    using rep
    by (auto simp: StreamingMachine_ops_def plain_machine_def StreamingMachine_next_def StreamingMachine_target_def
        Sequence_next_def Sequence_pop_def piv_request_def rd_success_def ResponseData_ensure_success_def)
  have "streaming_encoding ?i = [0x7c, 4, 0x82, 0, 0x81, 0]"
    by (simp add: streaming_encoding_def streaming_fields_def tlv_encode_def tlv_field_def short_tag_def tlv_eval)
  then show ?thesis
    using streaming_sends_message [OF m0 run nx] m0 run nx by (intro exI conjI) auto
qed

end
