(* ===== verification/Piv_Batch.thy ===== *)
theory Piv_Batch
  imports Piv_Protection Piv_Config Piv_Agreement
begin

text \<open>
  Batches of PIV requests under one selection, \<open>canokey-piv/src/batch.rs\<close>. The queue of the batch
  holds boxed machines of different types (\<open>Box<dyn Machine<BatchItem>>\<close>): an object behind this
  interface is an element of the codatatype \<open>DynMachine\<close>, known only by what its \<open>next\<close> returns and
  the object it becomes, and \<open>boxed\<close> turns a machine of the earlier theories into such an object.
\<close>

section \<open>Boxed machines\<close>

codatatype 't DynMachine = DynMachine (dyn_next: "ResponseData option \<Rightarrow> 't DynMachine \<times> 't Action res")

fun mapped_action :: "('t \<Rightarrow> 'u) \<Rightarrow> 't Action res \<Rightarrow> 'u Action res" where
  "mapped_action convert (Inl e) = Inl e"
| "mapped_action convert (Inr (Action.Command c)) = Inr (Action.Command c)"
| "mapped_action convert (Inr (Action.Done v)) = Inr (Action.Done (convert v))"

primcorec boxed ::
  "('m \<Rightarrow> ResponseData option \<Rightarrow> 'm \<times> 't Action res) \<Rightarrow> ('t \<Rightarrow> 'u) \<Rightarrow> 'm \<Rightarrow> 'u DynMachine" where
  "dyn_next (boxed nxt convert m) = (\<lambda>r. map_prod (boxed nxt convert) (mapped_action convert) (nxt m r))"

definition dyn_ops :: "('t DynMachine, 't) Machine" where
  "dyn_ops = plain_machine dyn_next"

section \<open>Requests and results\<close>

definition MAX_BATCH_REQUESTS :: nat where
  "MAX_BATCH_REQUESTS = 128"

datatype BatchRequest =
    AgreeSm2 Slot Sm2AgreementInput
  | ReadMetadataDirectory
  | ReadContainerName Slot
  | SetContainerName Slot ContainerName
  | MoveKey Slot Slot
  | DeleteKey Slot
  | ResetPinPukRetries byte byte
  | SetAlgorithmConfig AlgorithmConfig
  | Attest Slot
  | VerifyPin Pin
  | AuthenticateManagement ManagementAuthentication
  | Logout
  | ReadObject ObjectId
  | ReadCertificate Slot
  | WriteObject ObjectId bytes
  | WriteCertificate Slot bytes
  | DeleteCertificate Slot
  | SetManagementKey ManagementKey ManagementTouchPolicy
  | GetMetadata MetadataReference
  | ReadAlgorithmConfig
  | GenerateKey KeyParameters
  | ImportKey KeyParameters PrivateKeyMaterial
  | Sign Slot Algorithm SignInput
  | SignStreaming Slot StreamingSignInput
  | Decrypt Slot Algorithm bytes
  | Derive Slot Algorithm bytes
  | Decapsulate Slot bytes

definition ManagementAuthentication_input_len :: "ManagementAuthentication \<Rightarrow> nat" where
  "ManagementAuthentication_input_len auth =
     24 + (case ma_mode auth of External \<Rightarrow> 0 | Mutual challenge \<Rightarrow> length challenge)"

fun request_input_len :: "BatchRequest \<Rightarrow> nat" where
  "request_input_len (AgreeSm2 _ input) = Sm2AgreementInput_len input"
| "request_input_len (SetContainerName _ name) = length name"
| "request_input_len (SetAlgorithmConfig config) = length (ac_raw config)"
| "request_input_len (BatchRequest.VerifyPin pin) = length pin"
| "request_input_len (AuthenticateManagement auth) = ManagementAuthentication_input_len auth"
| "request_input_len (WriteObject _ d) = length d"
| "request_input_len (WriteCertificate _ der) = length der"
| "request_input_len (SetManagementKey _ _) = 24"
| "request_input_len (ImportKey _ material) = length (pk_fields material)"
| "request_input_len (Sign _ _ input) = length (sign_raw input)"
| "request_input_len (Decrypt _ _ ciphertext) = length ciphertext"
| "request_input_len (Decapsulate _ ciphertext) = length ciphertext"
| "request_input_len (SignStreaming _ input) = streaming_input_len input"
| "request_input_len (Derive _ _ peer) = length peer"
| "request_input_len _ = 0"

datatype BatchItem =
    Sm2AgreementItem Sm2Agreement
  | DirectoryItem MetadataDirectory
  | ContainerNameItem ContainerName
  | UnitItem
  | BytesItem bytes
  | CertificateItem Certificate
  | MutationItem MutationResult
  | MetadataItem Metadata
  | AlgorithmConfigItem AlgorithmConfig
  | PublicKeyItem PublicKey
  | SignatureItem PivSignature

fun item_byte_len :: "BatchItem \<Rightarrow> nat" where
  "item_byte_len (Sm2AgreementItem a) = length (sm_key a) + length (sm_ephemeral_public a)"
| "item_byte_len (DirectoryItem d) = length (md_raw d)"
| "item_byte_len (ContainerNameItem n) = length n"
| "item_byte_len UnitItem = 0"
| "item_byte_len (MutationItem _) = 0"
| "item_byte_len (BytesItem b) = length b"
| "item_byte_len (CertificateItem c) = length (ce_der c)"
| "item_byte_len (MetadataItem md) = length (mf_raw (Metadata_fields md))"
| "item_byte_len (AlgorithmConfigItem c) = length (ac_raw c)"
| "item_byte_len (SignatureItem s) = length (sg_bytes s)"
| "item_byte_len (PublicKeyItem (Rsa _ modulus exponent)) = length modulus + length exponent"
| "item_byte_len (PublicKeyItem (Ec _ point)) = length point"
| "item_byte_len (PublicKeyItem (Raw _ bs)) = length bs"

record BatchResults =
  br_items :: "BatchItem list"
  br_failed_index :: "nat option"

definition BatchResults_default :: BatchResults where
  "BatchResults_default = \<lparr>br_items = [], br_failed_index = None\<rparr>"

section \<open>The batch machine\<close>

record BatchMachine =
  bm_pending :: "BatchItem DynMachine list"
  bm_current :: "BatchItem DynMachine option"
  bm_results :: BatchResults
  bm_result_bytes :: nat
  bm_max_result_bytes :: nat

definition batch_finish :: "BatchMachine \<Rightarrow> BatchMachine \<times> BatchResults Action res" where
  "batch_finish m = (m\<lparr>bm_current := None, bm_pending := [], bm_results := BatchResults_default\<rparr>,
                     Inr (Action.Done (bm_results m)))"

text \<open>
  The loop of \<open>next\<close> with its current machine and the queue as arguments: an unfinished machine
  keeps its place, a finished one is recorded and the next one starts without a response.
\<close>

fun batch_loop ::
  "BatchItem DynMachine list \<Rightarrow> BatchMachine \<Rightarrow> BatchItem DynMachine \<Rightarrow> ResponseData option
   \<Rightarrow> BatchMachine \<times> BatchResults Action res" where
  "batch_loop pending m d response =
     (case dyn_next d response of
        (d', Inl e) \<Rightarrow> (m\<lparr>bm_current := Some d', bm_pending := pending\<rparr>, Inl e)
      | (d', Inr (Action.Command c)) \<Rightarrow> (m\<lparr>bm_current := Some d', bm_pending := pending\<rparr>, Inr (Action.Command c))
      | (d', Inr (Action.Done v)) \<Rightarrow>
          (case checked_add (bm_result_bytes m) (item_byte_len v) of
             None \<Rightarrow> (m\<lparr>bm_current := Some d', bm_pending := pending\<rparr>, Inl (Error_new LimitExceeded))
           | Some n \<Rightarrow>
               if n > bm_max_result_bytes m
               then (m\<lparr>bm_current := Some d', bm_pending := pending, bm_result_bytes := n\<rparr>, Inl limit_parsing)
               else
                 (let m2 = m\<lparr>bm_result_bytes := n,
                            bm_results := (bm_results m)\<lparr>br_items := br_items (bm_results m) @ [v]\<rparr>\<rparr>
                  in case pending of
                       [] \<Rightarrow> batch_finish m2
                     | d2 # rest \<Rightarrow> batch_loop rest m2 d2 None)))"

declare batch_loop.simps [simp del]

definition BatchMachine_next :: "BatchMachine \<Rightarrow> ResponseData option \<Rightarrow> BatchMachine \<times> BatchResults Action res" where
  "BatchMachine_next m response =
     (case bm_current m of
        Some d \<Rightarrow> batch_loop (bm_pending m) m d response
      | None \<Rightarrow>
          (case bm_pending m of
             [] \<Rightarrow> batch_finish m
           | d # rest \<Rightarrow> batch_loop rest m d response))"

definition batch_take_progress :: "BatchMachine \<Rightarrow> BatchResults option" where
  "batch_take_progress m =
     Some (if bm_current m \<noteq> None
           then (bm_results m)\<lparr>br_failed_index := Some (length (br_items (bm_results m)))\<rparr>
           else bm_results m)"

definition BatchMachine_ops :: "(BatchMachine, BatchResults) Machine" where
  "BatchMachine_ops =
     \<lparr>m_next = BatchMachine_next, m_progress = (\<lambda>m. Some (bm_results m)), m_take_progress = batch_take_progress\<rparr>"

text \<open>The getter that shows the results of a finished, failed or running operation.\<close>

definition batch_progress :: "('m, BatchResults) Machine \<Rightarrow> ('m, BatchResults) Operation \<Rightarrow> BatchResults option" where
  "batch_progress M op = (case Operation_result op of Inr r \<Rightarrow> Some r | Inl _ \<Rightarrow> Operation_progress M op)"

section \<open>The factory\<close>

text \<open>The packages the requests of a batch use.\<close>

record 'u Packages =
  pkg_cipher :: cipher
  pkg_gunzip :: gunzip
  pkg_point :: "Algorithm \<Rightarrow> bytes \<Rightarrow> bool"
  pkg_der :: "'u EcDer"

definition boxed_sequence :: "('t \<Rightarrow> BatchItem) \<Rightarrow> 't Sequence res \<Rightarrow> BatchItem DynMachine res" where
  "boxed_sequence convert s = bindE s (\<lambda>s. Inr (boxed Sequence_next convert s))"

definition parse_verify :: "ResponseData \<Rightarrow> unit res" where
  "parse_verify r =
     bindE (require_auth r SecretReference.Pin) (\<lambda>_. if rd_data r \<noteq> [] then Inl management_invalid else Inr ())"

fun request_machine ::
  "'u Packages \<Rightarrow> DeviceProfile \<Rightarrow> OperationOptions \<Rightarrow> BatchRequest \<Rightarrow> BatchItem DynMachine res" where
  "request_machine pk profile opts (AgreeSm2 slot input) =
     bindE (prepare_agreement (pkg_point pk) profile slot input opts) (\<lambda>m.
       Inr (boxed (AgreementMachine_next (pkg_point pk)) Sm2AgreementItem m))"
| "request_machine pk profile opts ReadMetadataDirectory = boxed_sequence DirectoryItem (prepare_directory profile opts)"
| "request_machine pk profile opts (ReadContainerName slot) =
     boxed_sequence ContainerNameItem (prepare_read_name profile (NameKey slot) opts)"
| "request_machine pk profile opts (SetContainerName slot name) =
     boxed_sequence MutationItem (prepare_set_name profile (NameKey slot) name opts)"
| "request_machine pk profile opts (MoveKey source target) =
     boxed_sequence MutationItem (prepare_move_delete profile source (Some target) opts)"
| "request_machine pk profile opts (DeleteKey slot) =
     boxed_sequence MutationItem (prepare_move_delete profile slot None opts)"
| "request_machine pk profile opts (ResetPinPukRetries pin puk) =
     boxed_sequence MutationItem (prepare_retry_reset profile pin puk opts)"
| "request_machine pk profile opts (SetAlgorithmConfig config) =
     boxed_sequence MutationItem (prepare_config profile config opts)"
| "request_machine pk profile opts (Attest slot) = boxed_sequence BytesItem (prepare_attest profile slot opts)"
| "request_machine pk profile opts (BatchRequest.VerifyPin pin) =
     boxed_sequence (\<lambda>_. UnitItem) (piv_prepare (command_verify_pin pin) opts parse_verify)"
| "request_machine pk profile opts (AuthenticateManagement auth) =
     bindE (ManagementAuthentication_validate auth profile opts) (\<lambda>_.
       Inr (boxed (ManagementMachine_next (pkg_cipher pk)) (\<lambda>_. UnitItem) (ManagementMachine_new auth)))"
| "request_machine pk profile opts BatchRequest.Logout =
     boxed_sequence (\<lambda>_. UnitItem)
       (piv_prepare command_logout opts (\<lambda>r. ResponseData_ensure_success r Phase.Authentication))"
| "request_machine pk profile opts (ReadObject i) = boxed_sequence BytesItem (prepare_read_object_with profile i opts Inr)"
| "request_machine pk profile opts (ReadCertificate slot) =
     bindE (ObjectId_certificate slot) (\<lambda>i.
       boxed_sequence CertificateItem (prepare_read_object_with profile i opts (\<lambda>d.
         Certificate_from_object (pkg_gunzip pk) d (max_total_response_bytes (limits opts)))))"
| "request_machine pk profile opts (WriteObject i d) = boxed_sequence MutationItem (prepare_write_object profile i d opts)"
| "request_machine pk profile opts (WriteCertificate slot der) =
     boxed_sequence MutationItem (prepare_write_certificate profile slot der opts)"
| "request_machine pk profile opts (DeleteCertificate slot) =
     boxed_sequence MutationItem (prepare_delete_certificate profile slot opts)"
| "request_machine pk profile opts (SetManagementKey key touch) =
     boxed_sequence MutationItem (prepare_set_management_key profile key touch opts)"
| "request_machine pk profile opts (GetMetadata ref) = boxed_sequence MetadataItem (prepare_get_metadata profile ref opts)"
| "request_machine pk profile opts ReadAlgorithmConfig =
     boxed_sequence AlgorithmConfigItem (prepare_read_algorithm_config profile opts)"
| "request_machine pk profile opts (GenerateKey p) = boxed_sequence PublicKeyItem (prepare_generate_key profile p opts)"
| "request_machine pk profile opts (ImportKey p material) =
     boxed_sequence MutationItem (prepare_import_key profile p material opts)"
| "request_machine pk profile opts (Sign slot algorithm input) =
     boxed_sequence SignatureItem (prepare_sign (pkg_der pk) profile slot algorithm input opts)"
| "request_machine pk profile opts (SignStreaming slot input) =
     bindE (prepare_sign_streaming (pkg_der pk) profile slot input opts) (\<lambda>m.
       Inr (boxed StreamingMachine_next SignatureItem m))"
| "request_machine pk profile opts (Decrypt slot algorithm ciphertext) =
     boxed_sequence BytesItem (prepare_decrypt profile slot algorithm ciphertext opts)"
| "request_machine pk profile opts (Derive slot algorithm peer) =
     boxed_sequence BytesItem (prepare_derive (pkg_point pk) profile slot algorithm peer opts)"
| "request_machine pk profile opts (Decapsulate slot ciphertext) =
     boxed_sequence BytesItem (prepare_decapsulate profile slot ciphertext opts)"

fun is_retry_reset :: "BatchRequest \<Rightarrow> bool" where
  "is_retry_reset (ResetPinPukRetries _ _) = True"
| "is_retry_reset _ = False"

fun is_config_write :: "BatchRequest \<Rightarrow> bool" where
  "is_config_write (SetAlgorithmConfig _) = True"
| "is_config_write _ = False"

fun is_verify_pin :: "BatchRequest \<Rightarrow> bool" where
  "is_verify_pin (BatchRequest.VerifyPin _) = True"
| "is_verify_pin _ = False"

fun is_authentication :: "BatchRequest \<Rightarrow> bool" where
  "is_authentication (AuthenticateManagement _) = True"
| "is_authentication _ = False"

fun is_mutation :: "BatchRequest \<Rightarrow> bool" where
  "is_mutation (SetContainerName _ _) = True"
| "is_mutation (MoveKey _ _) = True"
| "is_mutation (DeleteKey _) = True"
| "is_mutation (ResetPinPukRetries _ _) = True"
| "is_mutation (SetAlgorithmConfig _) = True"
| "is_mutation (WriteObject _ _) = True"
| "is_mutation (WriteCertificate _ _) = True"
| "is_mutation (DeleteCertificate _) = True"
| "is_mutation (SetManagementKey _ _) = True"
| "is_mutation (GenerateKey _) = True"
| "is_mutation (ImportKey _ _) = True"
| "is_mutation _ = False"

text \<open>The loop over the requests: \<open>rest\<close> is what follows, the flags are its local variables.\<close>

fun batch_prepare ::
  "'u Packages \<Rightarrow> DeviceProfile \<Rightarrow> OperationOptions \<Rightarrow> bool \<Rightarrow> bool \<Rightarrow> BatchRequest list \<Rightarrow> BatchItem DynMachine list res"
where
  "batch_prepare pk profile opts management previous_verify [] = Inr []"
| "batch_prepare pk profile opts management previous_verify (request # rest) =
     (if is_retry_reset request \<and> \<not> previous_verify then Inl (Error_new InvalidArgument)
      else if is_config_write request \<and> rest \<noteq> [] then Inl (Error_new InvalidArgument)
      else if is_mutation request \<and> \<not> management then Inl (Error_new InvalidArgument)
      else bindE (request_machine pk profile opts request) (\<lambda>machine.
        bindE (batch_prepare pk profile opts
                 (if is_retry_reset request then False else if is_authentication request then True else management)
                 (is_verify_pin request) rest) (\<lambda>machines.
          Inr (machine # machines))))"

fun checked_sum :: "nat \<Rightarrow> nat list \<Rightarrow> nat res" where
  "checked_sum acc [] = Inr acc"
| "checked_sum acc (n # ns) = bindE (ok_or (checked_add acc n) (Error_new LimitExceeded)) (\<lambda>acc. checked_sum acc ns)"

definition batch ::
  "'u Packages \<Rightarrow> DeviceProfile \<Rightarrow> BatchRequest list \<Rightarrow> OperationOptions
   \<Rightarrow> (BatchMachine Selected, BatchResults) Operation res" where
  "batch pk profile requests opts =
     bindE (require profile Piv) (\<lambda>_.
     bindE (OperationOptions_validate opts) (\<lambda>_.
     if requests = [] \<or> length requests > MAX_BATCH_REQUESTS then Inl (Error_new InvalidArgument)
     else
     bindE (checked_sum 0 (map request_input_len requests)) (\<lambda>input_bytes.
     if input_bytes > max_input_bytes (limits opts) then Inl (Error_new LimitExceeded)
     else
     bindE (batch_prepare pk profile opts False False requests) (\<lambda>machines.
       with_access profile NoAccess
         \<lparr>bm_pending = machines, bm_current = None, bm_results = BatchResults_default, bm_result_bytes = 0,
          bm_max_result_bytes = max_total_response_bytes (limits opts)\<rparr> opts))))"

section \<open>Admission\<close>

lemma checked_sum_Inr: "checked_sum acc ns = Inr n \<Longrightarrow> n = acc + sum_list ns"
proof (induction ns arbitrary: acc)
  case (Cons a ns)
  then have "checked_sum (acc + a) ns = Inr n"
    by (auto simp: bindE_eq_Inr ok_or_eq_Inr checked_add_def split: if_splits)
  then show ?case using Cons.IH by fastforce
qed simp

lemma batch_prepare_machines:
  assumes "batch_prepare pk profile opts management previous requests = Inr ds"
  shows "list_all2 (\<lambda>request d. request_machine pk profile opts request = Inr d) requests ds"
  using assms
  by (induction requests arbitrary: management previous ds) (auto simp: bindE_eq_Inr split: if_splits)

text \<open>A management authentication precedes position \<open>i\<close> and no retry reset lies between.\<close>

definition authenticated_before :: "BatchRequest list \<Rightarrow> nat \<Rightarrow> bool" where
  "authenticated_before requests i \<longleftrightarrow>
     (\<exists>j<i. is_authentication (requests ! j) \<and> (\<forall>k. j < k \<and> k < i \<longrightarrow> \<not> is_retry_reset (requests ! k)))"

lemma authenticated_before_Cons:
  "authenticated_before (r # rs) (Suc i) \<longleftrightarrow>
    authenticated_before rs i \<or> (is_authentication r \<and> (\<forall>k<i. \<not> is_retry_reset (rs ! k)))"
proof
  assume "authenticated_before (r # rs) (Suc i)"
  then obtain j where j: "j < Suc i" "is_authentication ((r # rs) ! j)"
    "\<And>k. j < k \<Longrightarrow> k < Suc i \<Longrightarrow> \<not> is_retry_reset ((r # rs) ! k)" by (auto simp: authenticated_before_def)
  show "authenticated_before rs i \<or> (is_authentication r \<and> (\<forall>k<i. \<not> is_retry_reset (rs ! k)))"
  proof (cases j)
    case 0
    then show ?thesis using j(2) j(3) [of "Suc _"] by auto
  next
    case (Suc j')
    then show ?thesis using j(1,2) j(3) [of "Suc _"] by (auto simp: authenticated_before_def)
  qed
next
  assume a: "authenticated_before rs i \<or> (is_authentication r \<and> (\<forall>k<i. \<not> is_retry_reset (rs ! k)))"
  then show "authenticated_before (r # rs) (Suc i)"
  proof
    assume "authenticated_before rs i"
    then obtain j where "j < i" "is_authentication (rs ! j)" "\<forall>k. j < k \<and> k < i \<longrightarrow> \<not> is_retry_reset (rs ! k)"
      by (auto simp: authenticated_before_def)
    then show ?thesis unfolding authenticated_before_def by (intro exI [of _ "Suc j"]) (auto simp: less_Suc_eq_0_disj)
  next
    assume "is_authentication r \<and> (\<forall>k<i. \<not> is_retry_reset (rs ! k))"
    then show ?thesis unfolding authenticated_before_def by (intro exI [of _ 0]) (auto simp: less_Suc_eq_0_disj)
  qed
qed

lemma batch_prepare_admits:
  assumes "batch_prepare pk profile opts management previous requests = Inr ds" "i < length requests"
  shows "(is_mutation (requests ! i) \<longrightarrow>
           authenticated_before requests i \<or> (management \<and> (\<forall>k<i. \<not> is_retry_reset (requests ! k))))
    \<and> (is_retry_reset (requests ! i) \<longrightarrow> (if i = 0 then previous else is_verify_pin (requests ! (i - 1))))
    \<and> (is_config_write (requests ! i) \<longrightarrow> Suc i = length requests)"
  using assms
proof (induction requests arbitrary: management previous ds i)
  case (Cons r rs)
  let ?mg = "if is_retry_reset r then False else if is_authentication r then True else management"
  from Cons.prems obtain ds' where step: "is_retry_reset r \<longrightarrow> previous" "is_config_write r \<longrightarrow> rs = []"
    "is_mutation r \<longrightarrow> management" "batch_prepare pk profile opts ?mg (is_verify_pin r) rs = Inr ds'"
    by (auto simp: bindE_eq_Inr split: if_splits)
  show ?case
  proof (cases i)
    case 0
    then show ?thesis using step by auto
  next
    case (Suc k)
    then have k: "k < length rs" using Cons.prems(2) by simp
    note ih = Cons.IH [OF step(4) k]
    have "authenticated_before rs k \<or> (?mg \<and> (\<forall>l<k. \<not> is_retry_reset (rs ! l)))" if "is_mutation (rs ! k)"
      using ih that by blast
    then show ?thesis using ih Suc k
      by (auto simp: authenticated_before_Cons nth_Cons less_Suc_eq_0_disj split: if_splits nat.splits)
  qed
qed simp

section \<open>Sequential composition\<close>

text \<open>A complete run of a boxed machine, and runs of several machines one after the other.\<close>

definition completed :: "'t DynMachine \<Rightarrow> trace \<Rightarrow> 't \<Rightarrow> bool" where
  "completed d tr v \<longleftrightarrow> (\<exists>d1 resp d2. trace_run dyn_ops d d1 resp tr \<and> dyn_next d1 resp = (d2, Inr (Action.Done v)))"

inductive sequential :: "'t DynMachine list \<Rightarrow> trace \<Rightarrow> 't list \<Rightarrow> bool" where
  seq_nil: "sequential [] [] []"
| seq_snoc: "sequential ds tr vs \<Longrightarrow> completed d tr' v \<Longrightarrow> sequential (ds @ [d]) (tr @ tr') (vs @ [v])"

lemma sequential_length: "sequential ds tr vs \<Longrightarrow> length vs = length ds"
  by (induction rule: sequential.induct) simp_all

text \<open>Some machines are complete, one is running, the others wait.\<close>

definition at_request ::
  "'t DynMachine list \<Rightarrow> trace \<Rightarrow> 't list \<Rightarrow> 't DynMachine \<Rightarrow> ResponseData option \<Rightarrow> 't DynMachine list \<Rightarrow> bool" where
  "at_request ds tr vs d resp rest \<longleftrightarrow>
     (\<exists>fin d0 tr1 ctr. ds = fin @ d0 # rest \<and> tr = tr1 @ ctr \<and> sequential fin tr1 vs \<and> trace_run dyn_ops d0 d resp ctr)"

lemma at_request_start: "sequential fin tr vs \<Longrightarrow> at_request (fin @ d # rest) tr vs d None rest"
  unfolding at_request_def using run_start [of dyn_ops] by (metis append_Nil2)

lemma at_request_command:
  assumes "at_request ds tr vs d resp rest" "dyn_next d resp = (d', Inr (Action.Command c))"
  shows "at_request ds (tr @ [(c, r)]) vs d' (Some r) rest"
proof -
  from assms(1) obtain fin d0 tr1 ctr where a: "ds = fin @ d0 # rest" "tr = tr1 @ ctr" "sequential fin tr1 vs"
    "trace_run dyn_ops d0 d resp ctr" by (auto simp: at_request_def)
  have "trace_run dyn_ops d0 d' (Some r) (ctr @ [(c, r)])"
    by (rule run_exchange [OF a(4)]) (use assms(2) in \<open>auto simp: dyn_ops_def plain_machine_def trace_env_def\<close>)
  then show ?thesis using a unfolding at_request_def by (metis append_assoc)
qed

lemma at_request_done:
  assumes "at_request ds tr vs d resp rest" "dyn_next d resp = (d', Inr (Action.Done v))"
  shows "\<exists>fin. ds = fin @ rest \<and> sequential fin tr (vs @ [v])"
proof -
  from assms(1) obtain fin d0 tr1 ctr where a: "ds = fin @ d0 # rest" "tr = tr1 @ ctr" "sequential fin tr1 vs"
    "trace_run dyn_ops d0 d resp ctr" by (auto simp: at_request_def)
  then have "completed d0 ctr v" using assms(2) by (auto simp: completed_def)
  then have "sequential (fin @ [d0]) tr (vs @ [v])" using a by (auto intro: seq_snoc)
  then show ?thesis using a(1) by (intro exI [of _ "fin @ [d0]"]) simp
qed

definition batch_ok :: "nat \<Rightarrow> BatchMachine \<Rightarrow> bool" where
  "batch_ok budget m \<longleftrightarrow> br_failed_index (bm_results m) = None \<and> bm_max_result_bytes m = budget
     \<and> bm_result_bytes m = (\<Sum>v\<leftarrow>br_items (bm_results m). item_byte_len v) \<and> bm_result_bytes m \<le> budget"

text \<open>What one action of the batch means for the machines of its requests.\<close>

definition batch_action ::
  "BatchItem DynMachine list \<Rightarrow> nat \<Rightarrow> trace \<Rightarrow> BatchMachine \<Rightarrow> BatchResults Action res \<Rightarrow> bool" where
  "batch_action ds budget tr m' res =
     (case res of
        Inr (Action.Done results) \<Rightarrow>
          sequential ds tr (br_items results) \<and> br_failed_index results = None
          \<and> (\<Sum>v\<leftarrow>br_items results. item_byte_len v) \<le> budget
      | Inr (Action.Command c) \<Rightarrow>
          (\<exists>d resp d' rest. at_request ds tr (br_items (bm_results m')) d resp rest
            \<and> dyn_next d resp = (d', Inr (Action.Command c)))
      | Inl e \<Rightarrow>
          (\<exists>vs d resp d' rest. at_request ds tr vs d resp rest
            \<and> batch_take_progress m' = Some \<lparr>br_items = vs, br_failed_index = Some (length vs)\<rparr>
            \<and> (dyn_next d resp = (d', Inl e)
               \<or> (\<exists>v. dyn_next d resp = (d', Inr (Action.Done v)) \<and> e_kind e = LimitExceeded
                    \<and> ((\<Sum>v\<leftarrow>vs. item_byte_len v) + item_byte_len v > min budget usize_max)))))"

definition batch_inv ::
  "BatchItem DynMachine list \<Rightarrow> nat \<Rightarrow> BatchMachine \<Rightarrow> ResponseData option \<Rightarrow> trace \<Rightarrow> bool" where
  "batch_inv ds budget m resp tr \<longleftrightarrow> batch_ok budget m \<and>
     (case bm_current m of
        Some d \<Rightarrow> at_request ds tr (br_items (bm_results m)) d resp (bm_pending m)
      | None \<Rightarrow> bm_pending m = ds \<and> resp = None \<and> tr = [] \<and> br_items (bm_results m) = [])"

lemma batch_loop_step:
  assumes "batch_loop pending m d resp = (m', res)" "at_request ds tr (br_items (bm_results m)) d resp pending"
    "batch_ok budget m"
  shows "batch_action ds budget tr m' res
    \<and> (\<forall>c r. res = Inr (Action.Command c) \<longrightarrow> batch_inv ds budget m' (Some r) (tr @ [(c, r)]))"
  using assms
proof (induction pending m d resp rule: batch_loop.induct)
  case (1 pending m d resp)
  obtain d' a where nx: "dyn_next d resp = (d', a)" by fastforce
  note step = 1(2) [unfolded batch_loop.simps [of pending m d resp]]
  show ?case
  proof (cases a)
    case (Inl e)
    then have m': "m' = m\<lparr>bm_current := Some d', bm_pending := pending\<rparr>" "res = Inl e"
      using 1(2) nx by (simp_all add: batch_loop.simps [of pending m d resp])
    have "batch_take_progress m' = Some \<lparr>br_items = br_items (bm_results m), br_failed_index = Some (length (br_items (bm_results m)))\<rparr>"
      by (simp add: batch_take_progress_def m')
    then show ?thesis using m' 1(3) nx Inl by (auto simp: batch_action_def)
  next
    case (Inr act)
    show ?thesis
    proof (cases act)
      case (Command c)
      then have m': "m' = m\<lparr>bm_current := Some d', bm_pending := pending\<rparr>" "res = Inr (Action.Command c)"
        using 1(2) nx Inr by (simp_all add: batch_loop.simps [of pending m d resp])
      have "batch_inv ds budget m' (Some r) (tr @ [(c, r)])" for r
        using at_request_command [of ds tr "br_items (bm_results m)" d resp pending d' c r] 1(3,4) nx Inr Command m'
        by (simp add: batch_inv_def batch_ok_def)
      then show ?thesis using m' 1(3) nx Inr Command by (auto simp: batch_action_def)
    next
      case (Done v)
      obtain fin where fin: "ds = fin @ pending" "sequential fin tr (br_items (bm_results m) @ [v])"
        using at_request_done [OF 1(3) nx [unfolded Inr Done]] by (elim exE conjE)
      let ?n = "bm_result_bytes m + item_byte_len v"
      let ?m2 = "m\<lparr>bm_result_bytes := ?n, bm_results := (bm_results m)\<lparr>br_items := br_items (bm_results m) @ [v]\<rparr>\<rparr>"
      show ?thesis
      proof (cases "?n \<le> usize_max \<and> ?n \<le> bm_max_result_bytes m")
        case False
        then obtain e where e: "res = Inl e" "e_kind e = LimitExceeded" "bm_current m' = Some d'"
            "bm_results m' = bm_results m"
          using 1(2) nx Inr Done
          by (auto simp: batch_loop.simps [of pending m d resp] checked_add_def limit_parsing_def Error_at_def Error_new_def split: if_splits)
        have "(\<Sum>v\<leftarrow>br_items (bm_results m). item_byte_len v) + item_byte_len v > min budget usize_max"
          using False 1(4) by (auto simp: batch_ok_def)
        moreover have "batch_take_progress m' = Some \<lparr>br_items = br_items (bm_results m), br_failed_index = Some (length (br_items (bm_results m)))\<rparr>"
          using e by (simp add: batch_take_progress_def)
        ultimately show ?thesis using e 1(3) nx Inr Done by (auto simp: batch_action_def)
      next
        case True
        have ok2: "batch_ok budget ?m2" using 1(4) True by (simp add: batch_ok_def)
        show ?thesis
        proof (cases pending)
          case Nil
          then have "res = Inr (Action.Done (bm_results ?m2))"
            using step nx Inr Done True by (simp add: checked_add_def batch_finish_def Let_def)
          then show ?thesis using fin Nil ok2 by (auto simp: batch_action_def batch_ok_def)
        next
          case (Cons d2 rest)
          then have loop: "batch_loop rest ?m2 d2 None = (m', res)"
            using step nx Inr Done True by (simp add: checked_add_def Let_def)
          have "at_request ds tr (br_items (bm_results ?m2)) d2 None rest"
            using at_request_start [OF fin(2)] fin(1) Cons by simp
          then show ?thesis
            using 1(1) [of d' a act v ?n ?m2 d2 rest] nx [symmetric] Inr Done True Cons loop ok2
            by (simp add: checked_add_def)
        qed
      qed
    qed
  qed
qed

lemma batch_step:
  assumes "batch_inv ds budget m resp tr" "BatchMachine_next m resp = (m', res)" "ds \<noteq> []"
  shows "batch_action ds budget tr m' res
    \<and> (\<forall>c r. res = Inr (Action.Command c) \<longrightarrow> batch_inv ds budget m' (Some r) (tr @ [(c, r)]))"
proof (cases "bm_current m")
  case None
  then obtain d rest where d: "ds = d # rest" "bm_pending m = d # rest" "resp = None" "tr = []" "br_items (bm_results m) = []"
    using assms(1,3) by (cases ds) (auto simp: batch_inv_def)
  show ?thesis
  proof (rule batch_loop_step)
    show "batch_loop rest m d None = (m', res)" using assms(2) None d by (simp add: BatchMachine_next_def)
    show "at_request ds tr (br_items (bm_results m)) d None rest"
      using at_request_start [OF seq_nil, of d rest] d by simp
    show "batch_ok budget m" using assms(1) by (simp add: batch_inv_def)
  qed
next
  case (Some d)
  have "batch_ok budget m" "at_request ds tr (br_items (bm_results m)) d resp (bm_pending m)"
    using assms(1) Some by (simp_all add: batch_inv_def)
  moreover have "batch_loop (bm_pending m) m d resp = (m', res)"
    using assms(2) Some by (simp add: BatchMachine_next_def)
  ultimately show ?thesis by (intro batch_loop_step)
qed

text \<open>A boxed machine runs exactly as the machine in the box.\<close>

lemma boxed_run:
  "trace_run dyn_ops (boxed nxt convert m0) d resp tr \<longleftrightarrow>
    (\<exists>m. d = boxed nxt convert m \<and> trace_run (plain_machine nxt) m0 m resp tr)"
proof
  assume "trace_run dyn_ops (boxed nxt convert m0) d resp tr"
  then show "\<exists>m. d = boxed nxt convert m \<and> trace_run (plain_machine nxt) m0 m resp tr"
  proof (induction rule: machine_run.induct)
    case run_start
    then show ?case by (blast intro: machine_run.run_start)
  next
    case (run_exchange d resp tr d' c r tr')
    then obtain m where m: "d = boxed nxt convert m" "trace_run (plain_machine nxt) m0 m resp tr" by blast
    obtain m' a where nx: "nxt m resp = (m', a)" by fastforce
    have "mapped_action convert a = Inr (Action.Command c)" "d' = boxed nxt convert m'"
      using run_exchange(2) m(1) nx by (auto simp: dyn_ops_def plain_machine_def)
    then have "a = Inr (Action.Command c)" by (cases "(convert, a)" rule: mapped_action.cases) auto
    then have "trace_run (plain_machine nxt) m0 m' (Some r) tr'"
      by (intro machine_run.run_exchange [OF m(2) _ run_exchange(3)]) (simp add: plain_machine_def nx)
    then show ?case using \<open>d' = boxed nxt convert m'\<close> by blast
  qed
next
  assume "\<exists>m. d = boxed nxt convert m \<and> trace_run (plain_machine nxt) m0 m resp tr"
  then obtain m where m: "d = boxed nxt convert m" "trace_run (plain_machine nxt) m0 m resp tr" by blast
  from m(2) have "trace_run dyn_ops (boxed nxt convert m0) (boxed nxt convert m) resp tr"
  proof (induction rule: machine_run.induct)
    case run_start
    show ?case by (rule machine_run.run_start)
  next
    case (run_exchange m resp tr m' c r tr')
    show ?case
      by (rule machine_run.run_exchange [OF run_exchange.IH])
         (use run_exchange(2,3) in \<open>auto simp: dyn_ops_def plain_machine_def\<close>)
  qed
  then show "trace_run dyn_ops (boxed nxt convert m0) d resp tr" using m(1) by simp
qed

section \<open>Properties\<close>

text \<open>C34: a batch is admitted only when it is authorised as a whole. It has between one and 128 requests
within the input budget; every request that changes the card is preceded by an explicit management
authentication that no retry reset has cleared since; a retry reset directly follows a PIN
verification; and a change of the algorithm configuration, which makes the profile stale, is the
last request.\<close>

theorem batch_admission:
  assumes "batch pk profile requests opts = Inr op"
  shows "requests \<noteq> [] \<and> length requests \<le> MAX_BATCH_REQUESTS
    \<and> (\<Sum>r\<leftarrow>requests. request_input_len r) \<le> max_input_bytes (limits opts)
    \<and> (\<forall>i<length requests.
         (is_mutation (requests ! i) \<longrightarrow> authenticated_before requests i)
         \<and> (is_retry_reset (requests ! i) \<longrightarrow> 0 < i \<and> is_verify_pin (requests ! (i - 1)))
         \<and> (is_config_write (requests ! i) \<longrightarrow> Suc i = length requests))"
proof -
  from assms obtain n ds where b: "requests \<noteq> []" "length requests \<le> MAX_BATCH_REQUESTS"
    "checked_sum 0 (map request_input_len requests) = Inr n" "n \<le> max_input_bytes (limits opts)"
    "batch_prepare pk profile opts False False requests = Inr ds"
    by (auto simp: batch_def bindE_eq_Inr split: if_splits)
  have "(\<Sum>r\<leftarrow>requests. request_input_len r) \<le> max_input_bytes (limits opts)"
    using checked_sum_Inr [OF b(3)] b(4) by simp
  moreover have "(is_mutation (requests ! i) \<longrightarrow> authenticated_before requests i)
         \<and> (is_retry_reset (requests ! i) \<longrightarrow> 0 < i \<and> is_verify_pin (requests ! (i - 1)))
         \<and> (is_config_write (requests ! i) \<longrightarrow> Suc i = length requests)" if "i < length requests" for i
    using batch_prepare_admits [OF b(5) that] by (cases i) auto
  ultimately show ?thesis using b(1,2) by blast
qed

definition sample_packages :: "bytes Packages" where
  "sample_packages =
     \<lparr>pkg_cipher = (\<lambda>_ _ _ x. Some x), pkg_gunzip = (\<lambda>_. ([], None)), pkg_point = (\<lambda>_ _. True), pkg_der = sample_ec_der\<rparr>"

lemma sample_delete:
  obtains d where "request_machine pk piv_profile OperationOptions_default (DeleteKey Slot.Signature) = Inr d"
proof -
  let ?c = "config_command 0xf6 0xff 0x9c [] False"
  have "validate_command ?c OperationOptions_default = Inr ()"
    by (rule validate_default) (simp_all add: config_command_def LogicalCommand_new_def short_command_def le_fits_def)
  moreover have "require piv_profile Piv = Inr ()" by (simp add: require_eq_Inr)
  moreover have "require piv_profile KeyMoveDelete = Inr ()" "cs_support (piv_slot_support piv_profile 0x9c) = Supported"
    by (simp_all add: require_eq_Inr supports_def capability_def firmware_range_def recognized_def piv_slot_support_def
        less_eq_prod_def)
  ultimately show ?thesis
    using that
    by (simp add: boxed_sequence_def prepare_move_delete_def config_checked_def require_status piv_prepare_def
        move_delete_command_def)
qed

theorem batch_admission_witness:
  "\<exists>op. batch sample_packages piv_profile
      [AuthenticateManagement (ManagementAuthentication_external sample_key),
       DeleteKey Slot.Signature] OperationOptions_default = Inr op
    \<and> authenticated_before
        [AuthenticateManagement (ManagementAuthentication_external sample_key),
         DeleteKey Slot.Signature] 1"
proof -
  let ?auth = "ManagementAuthentication_external sample_key"
  let ?rs = "[AuthenticateManagement ?auth, DeleteKey Slot.Signature]"
  have auth: "ManagementAuthentication_validate ?auth piv_profile OperationOptions_default = Inr ()"
    by (rule piv_auth_31) (simp_all add: sample_key_def)
  obtain d where d: "request_machine sample_packages piv_profile OperationOptions_default (DeleteKey Slot.Signature) = Inr d"
    by (rule sample_delete)
  have sel: "validate_command command_select OperationOptions_default = Inr ()"
    by (rule validate_default) (simp_all add: command_select_def le_fits_def)
  have req: "require piv_profile Piv = Inr ()" by (simp add: require_eq_Inr)
  have "\<exists>op. batch sample_packages piv_profile ?rs OperationOptions_default = Inr op"
    using auth d sel req
    by (simp add: batch_def MAX_BATCH_REQUESTS_def ManagementAuthentication_input_len_def
        checked_add_def usize_max_def ManagementAuthentication_external_def with_access_def Operation_from_machine_def)
  then obtain op where op: "batch sample_packages piv_profile ?rs OperationOptions_default = Inr op" ..
  have "authenticated_before ?rs 1" using batch_admission [OF op] by auto
  then show ?thesis using op by blast
qed

text \<open>C33: a batch is the sequential composition of its requests. Whatever the card answers, the exchanges
so far are complete runs of the machines of the first requests, one after the other, followed by a
run of the machine that is current; a completed batch returns one result per request in request
order, within the result budget; and when it fails, the error is that of the current request (or
the result budget) and the progress holds exactly the results of the requests before it, with the
index of the failed one.\<close>

theorem batch_sequential:
  assumes "batch pk profile requests opts = Inr op" "op_machine op = Some s0"
    and "trace_run BatchMachine_ops (se_target s0) m resp tr" "m_next BatchMachine_ops m resp = (m', res)"
  shows "\<exists>ds. list_all2 (\<lambda>request d. request_machine pk profile opts request = Inr d) requests ds
    \<and> batch_action ds (max_total_response_bytes (limits opts)) tr m' res"
proof -
  let ?budget = "max_total_response_bytes (limits opts)"
  from assms(1,2) obtain ds where ds: "requests \<noteq> []" "batch_prepare pk profile opts False False requests = Inr ds"
    "se_target s0 = \<lparr>bm_pending = ds, bm_current = None, bm_results = BatchResults_default, bm_result_bytes = 0,
       bm_max_result_bytes = ?budget\<rparr>"
    by (auto simp: batch_def with_access_def Operation_from_machine_def Selected_new_def bindE_eq_Inr split: if_splits)
  have l: "list_all2 (\<lambda>request d. request_machine pk profile opts request = Inr d) requests ds"
    by (rule batch_prepare_machines [OF ds(2)])
  then have "ds \<noteq> []" using ds(1) by auto
  have "batch_inv ds ?budget m resp tr"
    using assms(3)
  proof (rule machine_run_invariant)
    show "batch_inv ds ?budget (se_target s0) None []"
      by (simp add: batch_inv_def batch_ok_def ds(3) BatchResults_default_def)
  next
    fix m resp tr m' c r tr'
    assume "batch_inv ds ?budget m resp tr" "m_next BatchMachine_ops m resp = (m', Inr (Action.Command c))" "trace_env tr c r tr'"
    then show "batch_inv ds ?budget m' (Some r) tr'"
      using batch_step [of ds ?budget m resp tr m' "Inr (Action.Command c)"] \<open>ds \<noteq> []\<close>
      by (simp add: BatchMachine_ops_def trace_env_def)
  qed
  then show ?thesis
    using batch_step [of ds ?budget m resp tr m' res] assms(4) \<open>ds \<noteq> []\<close> l by (auto simp: BatchMachine_ops_def)
qed

theorem batch_sequential_witness:
  "\<exists>op s0 m resp tr m' ds. batch sample_packages piv_profile [BatchRequest.Logout, BatchRequest.VerifyPin sample_piv_pin] OperationOptions_default = Inr op
    \<and> op_machine op = Some s0 \<and> trace_run BatchMachine_ops (se_target s0) m resp tr
    \<and> m_next BatchMachine_ops m resp = (m', Inr (Action.Done \<lparr>br_items = [UnitItem, UnitItem], br_failed_index = None\<rparr>))
    \<and> map fst tr = [command_logout, command_verify_pin sample_piv_pin]
    \<and> sequential ds tr [UnitItem, UnitItem] \<and> length ds = 2"
proof -
  let ?o = OperationOptions_default and ?rs = "[BatchRequest.Logout, BatchRequest.VerifyPin sample_piv_pin]"
  have v: "validate_command command_logout ?o = Inr ()" "validate_command (command_verify_pin sample_piv_pin) ?o = Inr ()"
      "validate_command command_select ?o = Inr ()"
    by (rule validate_default; simp add: command_logout_def command_select_def command_verify_pin_def padded_def resize_def
        sample_piv_pin_def le_fits_def)+
  have req: "require piv_profile Piv = Inr ()" by (simp add: require_eq_Inr)
  let ?box = "boxed Sequence_next (\<lambda>_. UnitItem)"
  let ?lg = "\<lambda>p cur. ?box \<lparr>sq_pending = p, sq_current = cur, sq_parse = Some (\<lambda>r. ResponseData_ensure_success r Phase.Authentication)\<rparr>"
    and ?vf = "\<lambda>p cur. ?box \<lparr>sq_pending = p, sq_current = cur, sq_parse = Some parse_verify\<rparr>"
  let ?l0 = "?lg [piv_request command_logout Phase.Command None] None" and ?l1 = "?lg [] (Some (Phase.Command, None))"
    and ?v0 = "?vf [piv_request (command_verify_pin sample_piv_pin) Phase.Command None] None" and ?v1 = "?vf [] (Some (Phase.Command, None))"
  let ?b = "\<lambda>pending current items. \<lparr>bm_pending = pending, bm_current = current,
      bm_results = \<lparr>br_items = items, br_failed_index = None\<rparr>, bm_result_bytes = 0, bm_max_result_bytes = 1048576\<rparr>"
  obtain op s0 where op: "batch sample_packages piv_profile ?rs ?o = Inr op" "op_machine op = Some s0"
    and t: "se_target s0 = ?b [?l0, ?v0] None []"
    using v req
    by (simp add: batch_def MAX_BATCH_REQUESTS_def checked_add_def usize_max_def sample_piv_pin_def with_access_def
        Operation_from_machine_def Selected_new_def boxed_sequence_def piv_prepare_def BatchResults_default_def)
  have next0: "dyn_next ?l0 None = (?l1, Inr (Action.Command command_logout))"
      "dyn_next ?v0 None = (?v1, Inr (Action.Command (command_verify_pin sample_piv_pin)))"
    by (simp_all add: Sequence_next_def Sequence_pop_def piv_request_def)
  have next1: "\<exists>d. dyn_next ?l1 (Some rd_success) = (d, Inr (Action.Done UnitItem))"
      "\<exists>d. dyn_next ?v1 (Some rd_success) = (d, Inr (Action.Done UnitItem))"
    by (simp_all add: Sequence_next_def parse_verify_def require_auth_def ResponseData_ensure_success_def rd_success_def)
  have s1: "m_next BatchMachine_ops (?b [?l0, ?v0] None []) None = (?b [?v0] (Some ?l1) [], Inr (Action.Command command_logout))"
    by (simp add: BatchMachine_ops_def BatchMachine_next_def batch_loop.simps [of "[?v0]"] next0 del: boxed.simps)
  have s2: "m_next BatchMachine_ops (?b [?v0] (Some ?l1) []) (Some rd_success)
      = (?b [] (Some ?v1) [UnitItem], Inr (Action.Command (command_verify_pin sample_piv_pin)))"
    using next1(1)
    by (auto simp: BatchMachine_ops_def BatchMachine_next_def batch_loop.simps [of "[?v0]"] batch_loop.simps [of "[]"] next0
        checked_add_def usize_max_def simp del: boxed.simps)
  obtain m' where s3: "m_next BatchMachine_ops (?b [] (Some ?v1) [UnitItem]) (Some rd_success)
      = (m', Inr (Action.Done \<lparr>br_items = [UnitItem, UnitItem], br_failed_index = None\<rparr>))"
    using next1(2)
    by (auto simp: BatchMachine_ops_def BatchMachine_next_def batch_loop.simps [of "[]"] batch_finish_def
        checked_add_def usize_max_def simp del: boxed.simps)
  let ?tr = "[(command_logout, rd_success), (command_verify_pin sample_piv_pin, rd_success)]"
  have "replay BatchMachine_ops (se_target s0) None [rd_success, rd_success] []
      = (?b [] (Some ?v1) [UnitItem], Some rd_success, ?tr)"
    by (simp add: t s1 s2 del: boxed.simps)
  then have run: "trace_run BatchMachine_ops (se_target s0) (?b [] (Some ?v1) [UnitItem]) (Some rd_success) ?tr"
    by (rule replay_from_start)
  obtain ds where "sequential ds ?tr [UnitItem, UnitItem]"
    using batch_sequential [OF op run s3] by (auto simp: batch_action_def)
  moreover from this have "length ds = 2" using sequential_length by fastforce
  ultimately show ?thesis using op run s3 by (intro exI conjI) auto
qed

end
