(* ===== verification/Device_Probe.thy ===== *)
theory Device_Probe
  imports Admin_Applet Piv_Core
begin

text \<open>
  The read-only device probe of the facade crate (\<open>canokey/src/probe.rs\<close>): the machine that selects
  the Admin applet, reads firmware, model and serial number, optionally selects PIV and reads its
  version and algorithm configuration, and collects what it saw into a device profile. The machine is
  shown to be the straight-line program \<open>probe_program\<close> run step by step, and to complete on every
  card that gives well-formed answers.
\<close>

section \<open>The probe machine\<close>

datatype ProbeMode = Minimal | Piv

record ProbeOptions =
  po_mode :: ProbeMode
  po_observed_serial :: "bytes option"
  po_operation :: OperationOptions

definition ProbeOptions_default :: ProbeOptions where
  "ProbeOptions_default = \<lparr>po_mode = Piv, po_observed_serial = None, po_operation = OperationOptions_default\<rparr>"

record Probe =
  pb_stage :: nat
  pb_mode :: ProbeMode
  pb_observed_serial :: "bytes option"
  pb_observations :: DeviceObservations

definition Probe_new :: "ProbeOptions \<Rightarrow> Probe" where
  "Probe_new po =
     \<lparr>pb_stage = 0, pb_mode = po_mode po, pb_observed_serial = po_observed_serial po,
      pb_observations = DeviceObservations_new []\<rparr>"

definition probe_device :: "ProbeOptions \<Rightarrow> (Probe, DeviceProfile) Operation res" where
  "probe_device po = Operation_from_machine (Probe_new po) (po_operation po)"

definition optional_warning :: "string \<Rightarrow> StatusWord \<Rightarrow> CompatibilityWarning option" where
  "optional_warning name sw =
     (if sw \<in> {0x6d00, 0x6e00, 0x6a81, 0x6a86} then Some (OptionalCommandUnsupported name)
      else if sw = 0x6982 then Some (OptionalCommandNeedsAuthentication name)
      else None)"

definition Probe_optional :: "DeviceObservations \<Rightarrow> ResponseData \<Rightarrow> string \<Rightarrow> (DeviceObservations \<times> bool) res" where
  "Probe_optional ob r name =
     (if StatusWord_is_success (rd_status r) then Inr (ob, True)
      else case optional_warning name (rd_status r) of
             Some w \<Rightarrow> Inr (ob\<lparr>do_warnings := do_warnings ob @ [w]\<rparr>, False)
           | None \<Rightarrow> Inl (Error_status (rd_status r) Phase.Command None))"

definition invalid_response :: Error where
  "invalid_response = Error_new InvalidResponse"

text \<open>What a response does to the observations, by the stage that asked for it.\<close>

definition probe_firmware :: "DeviceObservations \<Rightarrow> ResponseData \<Rightarrow> DeviceObservations res" where
  "probe_firmware ob r =
     bindE (ResponseData_ensure_success r Phase.Command) (\<lambda>_.
       if rd_data r = [] \<or> length (rd_data r) > 256 then Inl invalid_response
       else Inr (ob\<lparr>do_firmware_text := rd_data r\<rparr>))"

definition probe_model :: "DeviceObservations \<Rightarrow> ResponseData \<Rightarrow> DeviceObservations res" where
  "probe_model ob r =
     bindE (Probe_optional ob r ''model'') (\<lambda>(ob, ok).
       if \<not> ok then Inr ob
       else if utf8_valid (rd_data r) then Inr (ob\<lparr>do_model := Some (rd_data r)\<rparr>)
       else Inl invalid_response)"

definition probe_serial :: "DeviceObservations \<Rightarrow> ResponseData \<Rightarrow> DeviceObservations res" where
  "probe_serial ob r =
     bindE (Probe_optional ob r ''serial'') (\<lambda>(ob, ok).
       if \<not> ok then Inr ob
       else if length (rd_data r) \<noteq> 4 then Inl invalid_response
       else Inr (ob\<lparr>do_serial := Some (rd_data r)\<rparr>))"

definition probe_piv_version :: "DeviceObservations \<Rightarrow> ResponseData \<Rightarrow> DeviceObservations res" where
  "probe_piv_version ob r =
     bindE (ResponseData_ensure_success r Phase.Command) (\<lambda>_.
       if length (rd_data r) \<noteq> 3 then Inl invalid_response
       else Inr (ob\<lparr>do_piv_version := Some (rd_data r)\<rparr>))"

definition probe_algorithm_config :: "DeviceObservations \<Rightarrow> ResponseData \<Rightarrow> DeviceObservations res" where
  "probe_algorithm_config ob r =
     bindE (Probe_optional ob r ''algorithm_config'') (\<lambda>(ob, ok).
       if \<not> ok then Inr ob
       else bindE (AlgorithmConfig_parse (rd_data r)) (\<lambda>cfg. Inr (ob\<lparr>do_algorithm_config := Some cfg\<rparr>)))"

definition Probe_react :: "nat \<Rightarrow> DeviceObservations \<Rightarrow> ResponseData \<Rightarrow> DeviceObservations res" where
  "Probe_react stage ob r =
     (if stage = 1 \<or> stage = 5 then bindE (ResponseData_ensure_success r Phase.Select) (\<lambda>_. Inr ob)
      else if stage = 2 then probe_firmware ob r
      else if stage = 3 then probe_model ob r
      else if stage = 4 then probe_serial ob r
      else if stage = 6 then probe_piv_version ob r
      else if stage = 7 then probe_algorithm_config ob r
      else Inl (Error_new ProtocolViolation))"

definition Probe_finish :: "Probe \<Rightarrow> DeviceProfile Action res" where
  "Probe_finish m = bindE (from_observations (pb_observations m)) (\<lambda>p. Inr (Action.Done p))"

definition probe_explicit_le :: "LogicalCommand \<Rightarrow> LogicalCommand" where
  "probe_explicit_le c = (if lc_le c = Absent then c\<lparr>lc_le := Exact 256\<rparr> else c)"

definition Probe_send :: "Probe \<Rightarrow> LogicalCommand \<Rightarrow> Probe \<times> DeviceProfile Action res" where
  "Probe_send m c = (m\<lparr>pb_stage := pb_stage m + 1\<rparr>, Inr (Action.Command (probe_explicit_le c)))"

definition Probe_issue :: "Probe \<Rightarrow> Probe \<times> DeviceProfile Action res" where
  "Probe_issue m =
     (if pb_stage m = 0 then Probe_send m admin_select
      else if pb_stage m = 1 then Probe_send m firmware_command
      else if pb_stage m = 2 then Probe_send m model_command
      else if pb_stage m = 3 then Probe_send m serial_command
      else if pb_stage m = 4 then
        (if pb_mode m = Minimal then (m, Probe_finish m) else Probe_send m command_select)
      else if pb_stage m = 5 then Probe_send m command_version
      else if pb_stage m = 6 then
        (case from_observations (pb_observations m) of
           Inl e \<Rightarrow> (m, Inl e)
         | Inr p \<Rightarrow>
             if cs_support (algorithm_config_read_support p) \<noteq> Supported then (m, Probe_finish m)
             else Probe_send m command_algorithm_config)
      else if pb_stage m = 7 then (m, Probe_finish m)
      else (m, Inl (Error_new ProtocolViolation)))"

text \<open>
  At stage 3 a serial number that the caller already observed replaces the read: the source sets the
  stage to 4 and calls itself without a response, which is the match on the stage.
\<close>

definition Probe_continue :: "Probe \<Rightarrow> Probe \<times> DeviceProfile Action res" where
  "Probe_continue m =
     (case (pb_stage m = 3, pb_observed_serial m) of
        (True, Some sn) \<Rightarrow>
          Probe_issue (m\<lparr>pb_observed_serial := None, pb_stage := pb_stage m + 1,
                         pb_observations := (pb_observations m)\<lparr>do_serial := Some sn\<rparr>\<rparr>)
      | _ \<Rightarrow> Probe_issue m)"

definition Probe_next :: "Probe \<Rightarrow> ResponseData option \<Rightarrow> Probe \<times> DeviceProfile Action res" where
  "Probe_next m resp =
     (case resp of
        None \<Rightarrow> Probe_continue m
      | Some r \<Rightarrow>
          case Probe_react (pb_stage m) (pb_observations m) r of
            Inl e \<Rightarrow> (m, Inl e)
          | Inr ob \<Rightarrow> Probe_continue (m\<lparr>pb_observations := ob\<rparr>))"

definition Probe_ops :: "(Probe, DeviceProfile) Machine" where
  "Probe_ops = plain_machine Probe_next"

section \<open>The probe as a straight-line program\<close>

text \<open>
  The same discovery written as a program that talks to a card directly: each step sends one command,
  reads its answer and goes on, or stops with the error. The programs are given back to front.
\<close>

type_synonym 's card = "'s \<Rightarrow> LogicalCommand \<Rightarrow> ResponseData \<times> 's"

definition ask :: "'s card \<Rightarrow> 's \<Rightarrow> LogicalCommand \<Rightarrow> (ResponseData \<Rightarrow> 'a res)
    \<Rightarrow> ('s \<Rightarrow> 'a \<Rightarrow> 's \<times> 'b res) \<Rightarrow> 's \<times> 'b res" where
  "ask dev s c read k =
     (case dev s c of (r, s') \<Rightarrow> case read r of Inl e \<Rightarrow> (s', Inl e) | Inr x \<Rightarrow> k s' x)"

definition program_finish :: "'s \<Rightarrow> DeviceObservations \<Rightarrow> 's \<times> DeviceProfile res" where
  "program_finish s ob = (s, from_observations ob)"

definition program_config :: "'s card \<Rightarrow> 's \<Rightarrow> DeviceObservations \<Rightarrow> 's \<times> DeviceProfile res" where
  "program_config dev s ob =
     (case from_observations ob of
        Inl e \<Rightarrow> (s, Inl e)
      | Inr p \<Rightarrow>
          if cs_support (algorithm_config_read_support p) = Supported
          then ask dev s command_algorithm_config (probe_algorithm_config ob) program_finish
          else (s, Inr p))"

definition program_piv :: "'s card \<Rightarrow> ProbeMode \<Rightarrow> 's \<Rightarrow> DeviceObservations \<Rightarrow> 's \<times> DeviceProfile res" where
  "program_piv dev mode s ob =
     (if mode = Minimal then program_finish s ob
      else ask dev s (command_select\<lparr>lc_le := Exact 256\<rparr>) (\<lambda>r. ResponseData_ensure_success r Phase.Select) (\<lambda>s _.
           ask dev s command_version (probe_piv_version ob) (program_config dev)))"

definition program_serial ::
  "'s card \<Rightarrow> ProbeMode \<Rightarrow> bytes option \<Rightarrow> 's \<Rightarrow> DeviceObservations \<Rightarrow> 's \<times> DeviceProfile res" where
  "program_serial dev mode sn s ob =
     (case sn of
        Some n \<Rightarrow> program_piv dev mode s (ob\<lparr>do_serial := Some n\<rparr>)
      | None \<Rightarrow> ask dev s serial_command (probe_serial ob) (program_piv dev mode))"

definition probe_program :: "'s card \<Rightarrow> ProbeOptions \<Rightarrow> 's \<Rightarrow> 's \<times> DeviceProfile res" where
  "probe_program dev po s =
     ask dev s (admin_select\<lparr>lc_le := Exact 256\<rparr>) (\<lambda>r. ResponseData_ensure_success r Phase.Select) (\<lambda>s _.
     ask dev s firmware_command (probe_firmware (DeviceObservations_new [])) (\<lambda>s ob.
     ask dev s model_command (probe_model ob) (program_serial dev (po_mode po) (po_observed_serial po))))"

section \<open>The machine runs the program\<close>

lemma explicit_le_probe [simp]:
  "probe_explicit_le admin_select = admin_select\<lparr>lc_le := Exact 256\<rparr>"
  "probe_explicit_le firmware_command = firmware_command" "probe_explicit_le model_command = model_command"
  "probe_explicit_le serial_command = serial_command"
  "probe_explicit_le command_select = command_select\<lparr>lc_le := Exact 256\<rparr>"
  "probe_explicit_le command_version = command_version"
  "probe_explicit_le command_algorithm_config = command_algorithm_config"
  by (simp_all add: probe_explicit_le_def admin_select_def firmware_command_def model_command_def serial_command_def
      admin_read_command_def command_select_def command_version_def command_algorithm_config_def piv_read_def
      piv_cmd_def LogicalCommand_new_def)

text \<open>The result of executing a machine, without its last configuration.\<close>

definition exec_result :: "nat \<Rightarrow> 's card \<Rightarrow> Probe \<Rightarrow> ResponseData option \<Rightarrow> 's \<Rightarrow> ('s \<times> DeviceProfile res) option" where
  "exec_result n dev m resp s =
     (case machine_exec n Probe_ops dev m resp s of
        Some (_, _, s', Inr (Action.Done p)) \<Rightarrow> Some (s', Inr p)
      | Some (_, _, s', Inl e) \<Rightarrow> Some (s', Inl e)
      | _ \<Rightarrow> None)"

abbreviation at_stage :: "nat \<Rightarrow> ProbeMode \<Rightarrow> bytes option \<Rightarrow> DeviceObservations \<Rightarrow> Probe" where
  "at_stage k mode sn ob \<equiv> \<lparr>pb_stage = k, pb_mode = mode, pb_observed_serial = sn, pb_observations = ob\<rparr>"

text \<open>One exchange of the machine is one \<open>ask\<close> of the program.\<close>

lemma exec_ask:
  assumes "Probe_next m resp = (at_stage k mode sn ob, Inr (Action.Command c))"
    and "\<And>s' r x. read r = Inr x \<Longrightarrow> Probe_react k ob r = Inr (f x)
          \<and> exec_result n dev (at_stage k mode sn ob) (Some r) s' = Some (cont s' x)"
    and "\<And>r e. read r = Inl e \<Longrightarrow> Probe_react k ob r = Inl e"
    and "0 < n"
  shows "exec_result (Suc n) dev m resp s = Some (ask dev s c read cont)"
proof -
  obtain r s' where d: "dev s c = (r, s')" by fastforce
  have step: "exec_result (Suc n) dev m resp s = exec_result n dev (at_stage k mode sn ob) (Some r) s'"
    using assms(1) d by (simp add: exec_result_def Probe_ops_def plain_machine_def)
  obtain n' where n: "n = Suc n'" using assms(4) by (cases n) auto
  show ?thesis
  proof (cases "read r")
    case (Inl e)
    then have "exec_result n dev (at_stage k mode sn ob) (Some r) s' = Some (s', Inl e)"
      using assms(3) n by (simp add: exec_result_def Probe_ops_def plain_machine_def Probe_next_def)
    then show ?thesis using step d Inl by (simp add: ask_def)
  next
    case (Inr x)
    then show ?thesis using assms(2) [OF Inr] step d by (simp add: ask_def)
  qed
qed

text \<open>Stage 7 and the end in minimal mode: the machine stops with the profile.\<close>

lemma exec_finish:
  assumes "Probe_next m resp = (m', bindE (from_observations ob) (\<lambda>p. Inr (Action.Done p)))"
  shows "exec_result (Suc n) dev m resp s = Some (program_finish s ob)"
  using assms
  by (cases "from_observations ob") (simp_all add: exec_result_def Probe_ops_def plain_machine_def program_finish_def)

lemma exec_stage7:
  assumes "probe_algorithm_config ob r = Inr ob'"
  shows "exec_result (Suc n) dev (at_stage 7 mode sn ob) (Some r) s = Some (program_finish s ob')"
  by (rule exec_finish)
     (use assms in \<open>simp add: Probe_next_def Probe_react_def Probe_continue_def Probe_issue_def Probe_finish_def\<close>)

lemma exec_stage6:
  assumes "probe_piv_version ob r = Inr ob'"
  shows "exec_result (Suc (Suc n)) dev (at_stage 6 mode sn ob) (Some r) s = Some (program_config dev s ob')"
proof (cases "from_observations ob'")
  case (Inl e)
  then show ?thesis using assms
    by (simp add: exec_result_def Probe_ops_def plain_machine_def Probe_next_def Probe_react_def Probe_continue_def
        Probe_issue_def program_config_def)
next
  case (Inr p)
  show ?thesis
  proof (cases "cs_support (algorithm_config_read_support p) = Supported")
    case True
    have "exec_result (Suc (Suc n)) dev (at_stage 6 mode sn ob) (Some r) s
        = Some (ask dev s command_algorithm_config (probe_algorithm_config ob') program_finish)"
    proof (rule exec_ask [where f = "\<lambda>x. x"])
      show "Probe_next (at_stage 6 mode sn ob) (Some r)
          = (at_stage 7 mode sn ob', Inr (Action.Command command_algorithm_config))"
        using assms Inr True
        by (simp add: Probe_next_def Probe_react_def Probe_continue_def Probe_issue_def Probe_send_def)
    qed (simp_all add: exec_stage7, simp_all add: Probe_react_def)
    then show ?thesis using Inr True by (simp add: program_config_def)
  next
    case False
    have "exec_result (Suc (Suc n)) dev (at_stage 6 mode sn ob) (Some r) s = Some (program_finish s ob')"
      by (rule exec_finish)
        (use assms Inr False in \<open>simp add: Probe_next_def Probe_react_def Probe_continue_def Probe_issue_def Probe_finish_def\<close>)
    then show ?thesis using Inr False by (simp add: program_config_def program_finish_def)
  qed
qed

lemma exec_stage5:
  assumes "ResponseData_ensure_success r Phase.Select = Inr u"
  shows "exec_result (Suc (Suc (Suc n))) dev (at_stage 5 mode sn ob) (Some r) s
    = Some (ask dev s command_version (probe_piv_version ob) (program_config dev))"
proof (rule exec_ask [where f = "\<lambda>x. x"])
  show "Probe_next (at_stage 5 mode sn ob) (Some r) = (at_stage 6 mode sn ob, Inr (Action.Command command_version))"
    using assms by (simp add: Probe_next_def Probe_react_def Probe_continue_def Probe_issue_def Probe_send_def)
qed (simp_all add: exec_stage6, simp_all add: Probe_react_def)

text \<open>After the serial number: the machine at stage 4 of the match, from a response or by the skip.\<close>

lemma exec_piv:
  assumes "Probe_next m resp = Probe_issue (at_stage 4 mode sn ob)"
  shows "exec_result (Suc (Suc (Suc (Suc n)))) dev m resp s = Some (program_piv dev mode s ob)"
proof (cases "mode = Minimal")
  case True
  have "exec_result (Suc (Suc (Suc (Suc n)))) dev m resp s = Some (program_finish s ob)"
    by (rule exec_finish) (use assms True in \<open>simp add: Probe_issue_def Probe_finish_def\<close>)
  then show ?thesis using True by (simp add: program_piv_def)
next
  case False
  have "exec_result (Suc (Suc (Suc (Suc n)))) dev m resp s
      = Some (ask dev s (command_select\<lparr>lc_le := Exact 256\<rparr>) (\<lambda>r. ResponseData_ensure_success r Phase.Select)
          (\<lambda>s _. ask dev s command_version (probe_piv_version ob) (program_config dev)))"
  proof (rule exec_ask [where f = "\<lambda>_. ob"])
    show "Probe_next m resp = (at_stage 5 mode sn ob, Inr (Action.Command (command_select\<lparr>lc_le := Exact 256\<rparr>)))"
      using assms False by (simp add: Probe_issue_def Probe_send_def)
  qed (simp_all add: exec_stage5, simp_all add: Probe_react_def)
  then show ?thesis using False by (simp add: program_piv_def)
qed

lemma exec_stage4:
  assumes "probe_serial ob r = Inr ob'"
  shows "exec_result (Suc (Suc (Suc (Suc n)))) dev (at_stage 4 mode sn ob) (Some r) s = Some (program_piv dev mode s ob')"
  by (rule exec_piv [where sn = sn])
     (use assms in \<open>simp add: Probe_next_def Probe_react_def Probe_continue_def\<close>)

lemma exec_stage3:
  assumes "probe_model ob r = Inr ob'"
  shows "exec_result (Suc (Suc (Suc (Suc (Suc n))))) dev (at_stage 3 mode sn ob) (Some r) s
    = Some (program_serial dev mode sn s ob')"
proof (cases sn)
  case None
  have "exec_result (Suc (Suc (Suc (Suc (Suc n))))) dev (at_stage 3 mode sn ob) (Some r) s
      = Some (ask dev s serial_command (probe_serial ob') (program_piv dev mode))"
  proof (rule exec_ask [where f = "\<lambda>x. x"])
    show "Probe_next (at_stage 3 mode sn ob) (Some r) = (at_stage 4 mode sn ob', Inr (Action.Command serial_command))"
      using assms None by (simp add: Probe_next_def Probe_react_def Probe_continue_def Probe_issue_def Probe_send_def)
  qed (simp_all add: exec_stage4, simp_all add: Probe_react_def)
  then show ?thesis using None by (simp add: program_serial_def)
next
  case (Some k)
  have "exec_result (Suc (Suc (Suc (Suc (Suc n))))) dev (at_stage 3 mode sn ob) (Some r) s
      = Some (program_piv dev mode s (ob'\<lparr>do_serial := Some k\<rparr>))"
    by (rule exec_piv [where sn = None])
       (use assms Some in \<open>simp add: Probe_next_def Probe_react_def Probe_continue_def\<close>)
  then show ?thesis using Some by (simp add: program_serial_def)
qed

lemma exec_stage2:
  assumes "probe_firmware ob r = Inr ob'"
  shows "exec_result (Suc (Suc (Suc (Suc (Suc (Suc n)))))) dev (at_stage 2 mode sn ob) (Some r) s
    = Some (ask dev s model_command (probe_model ob') (program_serial dev mode sn))"
proof (rule exec_ask [where f = "\<lambda>x. x"])
  show "Probe_next (at_stage 2 mode sn ob) (Some r) = (at_stage 3 mode sn ob', Inr (Action.Command model_command))"
    using assms by (simp add: Probe_next_def Probe_react_def Probe_continue_def Probe_issue_def Probe_send_def)
qed (simp_all add: exec_stage3, simp_all add: Probe_react_def)

lemma exec_stage1:
  assumes "ResponseData_ensure_success r Phase.Select = Inr u"
  shows "exec_result (Suc (Suc (Suc (Suc (Suc (Suc (Suc n))))))) dev (at_stage 1 mode sn ob) (Some r) s
    = Some (ask dev s firmware_command (probe_firmware ob) (\<lambda>s ob.
            ask dev s model_command (probe_model ob) (program_serial dev mode sn)))"
proof (rule exec_ask [where f = "\<lambda>x. x"])
  show "Probe_next (at_stage 1 mode sn ob) (Some r) = (at_stage 2 mode sn ob, Inr (Action.Command firmware_command))"
    using assms by (simp add: Probe_next_def Probe_react_def Probe_continue_def Probe_issue_def Probe_send_def)
qed (simp_all add: exec_stage2, simp_all add: Probe_react_def)

lemma exec_probe:
  "exec_result (Suc (Suc (Suc (Suc (Suc (Suc (Suc (Suc n)))))))) dev (Probe_new po) None s = Some (probe_program dev po s)"
  unfolding probe_program_def
proof (rule exec_ask [where f = "\<lambda>_. DeviceObservations_new []"])
  show "Probe_next (Probe_new po) None = (at_stage 1 (po_mode po) (po_observed_serial po) (DeviceObservations_new []),
      Inr (Action.Command (admin_select\<lparr>lc_le := Exact 256\<rparr>)))"
    by (simp add: Probe_next_def Probe_new_def Probe_continue_def Probe_issue_def Probe_send_def)
qed (simp_all add: exec_stage1 [unfolded One_nat_def], simp_all add: Probe_react_def)

section \<open>Cards that answer\<close>

text \<open>
  A card that gives a well-formed answer to each discovery command: it may refuse the optional reads
  in the recognised ways, and answers the others. The card records the commands it received.
\<close>

definition answers_optional :: "string \<Rightarrow> (bytes \<Rightarrow> bool) \<Rightarrow> ResponseData \<Rightarrow> bool" where
  "answers_optional name ok r \<longleftrightarrow>
     (if rd_status r = 0x9000 then ok (rd_data r) else optional_warning name (rd_status r) \<noteq> None)"

definition answers_discovery :: "(LogicalCommand \<Rightarrow> ResponseData) \<Rightarrow> bool" where
  "answers_discovery dv \<longleftrightarrow>
     rd_status (dv (admin_select\<lparr>lc_le := Exact 256\<rparr>)) = 0x9000
     \<and> rd_status (dv firmware_command) = 0x9000
     \<and> 1 \<le> length (rd_data (dv firmware_command)) \<and> length (rd_data (dv firmware_command)) \<le> 256
     \<and> answers_optional ''model'' utf8_valid (dv model_command)
     \<and> answers_optional ''serial'' (\<lambda>d. length d = 4) (dv serial_command)
     \<and> rd_status (dv (command_select\<lparr>lc_le := Exact 256\<rparr>)) = 0x9000
     \<and> rd_status (dv command_version) = 0x9000 \<and> length (rd_data (dv command_version)) = 3
     \<and> answers_optional ''algorithm_config'' (\<lambda>d. \<exists>cfg. AlgorithmConfig_parse d = Inr cfg) (dv command_algorithm_config)"

definition recording :: "(LogicalCommand \<Rightarrow> ResponseData) \<Rightarrow> LogicalCommand list card" where
  "recording dv sent c = (dv c, sent @ [c])"

definition granted :: "ResponseData \<Rightarrow> bytes option" where
  "granted r = (if rd_status r = 0x9000 then Some (rd_data r) else None)"

text \<open>The commands of a probe, and the profile fields it fills in.\<close>

definition probe_commands :: "ProbeOptions \<Rightarrow> bool \<Rightarrow> LogicalCommand list" where
  "probe_commands po config =
     [admin_select\<lparr>lc_le := Exact 256\<rparr>, firmware_command, model_command]
     @ (if po_observed_serial po = None then [serial_command] else [])
     @ (if po_mode po = Minimal then []
        else [command_select\<lparr>lc_le := Exact 256\<rparr>, command_version] @ (if config then [command_algorithm_config] else []))"

definition config_is_read :: "DeviceProfile \<Rightarrow> bool" where
  "config_is_read p \<longleftrightarrow> cs_support (firmware_range p (3, 0, 0) (3, 1, 0)) = Supported"

definition probe_reports :: "ProbeOptions \<Rightarrow> (LogicalCommand \<Rightarrow> ResponseData) \<Rightarrow> DeviceProfile \<Rightarrow> bool" where
  "probe_reports po dv p \<longleftrightarrow>
     di_firmware_text (dp_info p) = rd_data (dv firmware_command)
     \<and> di_model (dp_info p) = granted (dv model_command)
     \<and> di_serial (dp_info p) = (case po_observed_serial po of Some sn \<Rightarrow> Some sn | None \<Rightarrow> granted (dv serial_command))
     \<and> di_piv_version (dp_info p) = (if po_mode po = Minimal then None else Some (rd_data (dv command_version)))
     \<and> dp_config p = (if po_mode po = Minimal \<or> \<not> config_is_read p then None
                      else case granted (dv command_algorithm_config) of
                             None \<Rightarrow> None
                           | Some d \<Rightarrow> (case AlgorithmConfig_parse d of Inr cfg \<Rightarrow> Some cfg | Inl _ \<Rightarrow> None))"

text \<open>The parts of the observations on which the later stages depend.\<close>

lemma from_observations_ok:
  assumes "do_firmware_text ob \<noteq> []" "length (do_firmware_text ob) \<le> 256"
    "\<And>sn. do_serial ob = Some sn \<Longrightarrow> length sn = 4"
  shows "\<exists>p. from_observations ob = Inr p \<and> di_firmware_text (dp_info p) = do_firmware_text ob
    \<and> di_model (dp_info p) = do_model ob \<and> di_serial (dp_info p) = do_serial ob
    \<and> di_piv_version (dp_info p) = do_piv_version ob \<and> dp_config p = do_algorithm_config ob
    \<and> di_firmware (dp_info p) = (if utf8_valid (do_firmware_text ob) then FirmwareVersion_parse (do_firmware_text ob) else None)
    \<and> (OptionalCommandUnsupported x \<in> set (dp_warnings p) \<longleftrightarrow> OptionalCommandUnsupported x \<in> set (do_warnings ob))"
  using assms by (auto simp: from_observations_def Let_def split: option.splits)

lemma probe_optional_answer:
  assumes "answers_optional name ok r"
  obtains w b where "Probe_optional ob r name = Inr (ob\<lparr>do_warnings := do_warnings ob @ w\<rparr>, b)"
    "b \<longleftrightarrow> rd_status r = 0x9000" "b \<Longrightarrow> ok (rd_data r)" "\<And>x. OptionalCommandUnsupported x \<in> set w \<Longrightarrow> x = name"
proof (cases "rd_status r = 0x9000")
  case True
  then show ?thesis using that [of "[]" True] assms by (simp add: Probe_optional_def answers_optional_def)
next
  case False
  then obtain v where v: "optional_warning name (rd_status r) = Some v"
    using assms by (auto simp: answers_optional_def)
  then have "OptionalCommandUnsupported x = v \<Longrightarrow> x = name" for x
    by (auto simp: optional_warning_def split: if_splits)
  then show ?thesis using that [of "[v]" False] v False by (auto simp: Probe_optional_def)
qed

lemma probe_reads:
  "answers_optional ''model'' utf8_valid r \<Longrightarrow> \<exists>w. probe_model ob r
     = Inr (ob\<lparr>do_warnings := do_warnings ob @ w, do_model := (case granted r of None \<Rightarrow> do_model ob | Some d \<Rightarrow> Some d)\<rparr>)
     \<and> OptionalCommandUnsupported ''algorithm_config'' \<notin> set w"
  "answers_optional ''serial'' (\<lambda>d. length d = 4) r \<Longrightarrow> \<exists>w. probe_serial ob r
     = Inr (ob\<lparr>do_warnings := do_warnings ob @ w, do_serial := (case granted r of None \<Rightarrow> do_serial ob | Some d \<Rightarrow> Some d)\<rparr>)
     \<and> OptionalCommandUnsupported ''algorithm_config'' \<notin> set w"
  "answers_optional ''algorithm_config'' (\<lambda>d. \<exists>cfg. AlgorithmConfig_parse d = Inr cfg) r
     \<Longrightarrow> \<exists>w. probe_algorithm_config ob r
     = Inr (ob\<lparr>do_warnings := do_warnings ob @ w,
         do_algorithm_config := (case granted r of
             None \<Rightarrow> do_algorithm_config ob
           | Some d \<Rightarrow> (case AlgorithmConfig_parse d of Inr cfg \<Rightarrow> Some cfg | Inl _ \<Rightarrow> None))\<rparr>)"
proof -
  assume "answers_optional ''model'' utf8_valid r"
  then obtain w b where "Probe_optional ob r ''model'' = Inr (ob\<lparr>do_warnings := do_warnings ob @ w\<rparr>, b)"
    "b \<longleftrightarrow> rd_status r = 0x9000" "b \<Longrightarrow> utf8_valid (rd_data r)"
    "\<And>x. OptionalCommandUnsupported x \<in> set w \<Longrightarrow> x = ''model''"
    by (rule probe_optional_answer [where ob = ob]) blast
  then show "\<exists>w. probe_model ob r
     = Inr (ob\<lparr>do_warnings := do_warnings ob @ w, do_model := (case granted r of None \<Rightarrow> do_model ob | Some d \<Rightarrow> Some d)\<rparr>)
     \<and> OptionalCommandUnsupported ''algorithm_config'' \<notin> set w"
    by (intro exI [of _ w]) (auto simp: probe_model_def granted_def)
next
  assume "answers_optional ''serial'' (\<lambda>d. length d = 4) r"
  then obtain w b where "Probe_optional ob r ''serial'' = Inr (ob\<lparr>do_warnings := do_warnings ob @ w\<rparr>, b)"
    "b \<longleftrightarrow> rd_status r = 0x9000" "b \<Longrightarrow> length (rd_data r) = 4"
    "\<And>x. OptionalCommandUnsupported x \<in> set w \<Longrightarrow> x = ''serial''"
    by (rule probe_optional_answer [where ob = ob]) blast
  then show "\<exists>w. probe_serial ob r
     = Inr (ob\<lparr>do_warnings := do_warnings ob @ w, do_serial := (case granted r of None \<Rightarrow> do_serial ob | Some d \<Rightarrow> Some d)\<rparr>)
     \<and> OptionalCommandUnsupported ''algorithm_config'' \<notin> set w"
    by (intro exI [of _ w]) (auto simp: probe_serial_def granted_def)
next
  assume "answers_optional ''algorithm_config'' (\<lambda>d. \<exists>cfg. AlgorithmConfig_parse d = Inr cfg) r"
  then obtain w b where "Probe_optional ob r ''algorithm_config'' = Inr (ob\<lparr>do_warnings := do_warnings ob @ w\<rparr>, b)"
    "b \<longleftrightarrow> rd_status r = 0x9000" "b \<Longrightarrow> \<exists>cfg. AlgorithmConfig_parse (rd_data r) = Inr cfg"
    by (rule probe_optional_answer [where ob = ob]) blast
  then show "\<exists>w. probe_algorithm_config ob r
     = Inr (ob\<lparr>do_warnings := do_warnings ob @ w,
         do_algorithm_config := (case granted r of
             None \<Rightarrow> do_algorithm_config ob
           | Some d \<Rightarrow> (case AlgorithmConfig_parse d of Inr cfg \<Rightarrow> Some cfg | Inl _ \<Rightarrow> None))\<rparr>)"
    by (intro exI [of _ w]) (auto simp: probe_algorithm_config_def granted_def)
qed

text \<open>What the observations hold once the serial number is known.\<close>

definition observed_basics :: "ProbeOptions \<Rightarrow> (LogicalCommand \<Rightarrow> ResponseData) \<Rightarrow> DeviceObservations \<Rightarrow> bool" where
  "observed_basics po dv ob \<longleftrightarrow>
     do_firmware_text ob = rd_data (dv firmware_command) \<and> do_model ob = granted (dv model_command)
     \<and> do_serial ob = (case po_observed_serial po of Some sn \<Rightarrow> Some sn | None \<Rightarrow> granted (dv serial_command))
     \<and> do_piv_version ob = None \<and> do_algorithm_config ob = None
     \<and> OptionalCommandUnsupported ''algorithm_config'' \<notin> set (do_warnings ob)"

lemma config_is_read_cong:
  "di_firmware (dp_info p) = di_firmware (dp_info q) \<Longrightarrow> config_is_read p = config_is_read q"
  by (simp add: config_is_read_def firmware_range_def base_of_def)

text \<open>The end of the program on a card that answers, from the point where the serial number is known.\<close>

lemma program_piv_completes:
  assumes card: "answers_discovery dv" and ob: "observed_basics po dv ob"
    and sn: "\<forall>n. po_observed_serial po = Some n \<longrightarrow> length n = 4"
  shows "\<exists>p. program_piv (recording dv) (po_mode po) sent ob
      = (sent @ (if po_mode po = Minimal then []
          else [command_select\<lparr>lc_le := Exact 256\<rparr>, command_version]
            @ (if config_is_read p then [command_algorithm_config] else [])), Inr p)
    \<and> probe_reports po dv p"
proof -
  have len: "\<And>n. do_serial ob = Some n \<Longrightarrow> length n = 4"
    using card ob sn
    by (auto simp: observed_basics_def answers_discovery_def answers_optional_def granted_def split: option.splits if_splits)
  have fw: "do_firmware_text ob \<noteq> []" "length (do_firmware_text ob) \<le> 256"
    using card ob by (auto simp: observed_basics_def answers_discovery_def)
  show ?thesis
  proof (cases "po_mode po = Minimal")
    case True
    then show ?thesis
      using from_observations_ok [of ob, OF fw len] ob
      by (auto simp: program_piv_def program_finish_def probe_reports_def observed_basics_def)
  next
    case False
    let ?v = "rd_data (dv command_version)" and ?ob = "ob\<lparr>do_piv_version := Some (rd_data (dv command_version))\<rparr>"
      and ?s = "sent @ [command_select\<lparr>lc_le := Exact 256\<rparr>, command_version]"
    have piv: "program_piv (recording dv) (po_mode po) sent ob = program_config (recording dv) ?s ?ob"
      using card False
      by (simp add: program_piv_def ask_def recording_def answers_discovery_def ResponseData_ensure_success_def
          probe_piv_version_def)
    obtain p where p: "from_observations ?ob = Inr p" "di_firmware_text (dp_info p) = do_firmware_text ob"
      "di_model (dp_info p) = do_model ob" "di_serial (dp_info p) = do_serial ob" "di_piv_version (dp_info p) = Some ?v"
      "dp_config p = do_algorithm_config ob"
      "di_firmware (dp_info p) = (if utf8_valid (do_firmware_text ob) then FirmwareVersion_parse (do_firmware_text ob) else None)"
      "OptionalCommandUnsupported ''algorithm_config'' \<notin> set (dp_warnings p)"
      using from_observations_ok [of ?ob "''algorithm_config''"] fw len ob by (auto simp: observed_basics_def)
    have read: "cs_support (algorithm_config_read_support p) = Supported \<longleftrightarrow> config_is_read p"
      using p(8) by (simp add: algorithm_config_read_support_def config_is_read_def)
    show ?thesis
    proof (cases "config_is_read p")
      case False
      have "probe_reports po dv p" using False p ob \<open>po_mode po \<noteq> Minimal\<close>
        by (simp add: probe_reports_def observed_basics_def)
      then show ?thesis using False p(1) read piv \<open>po_mode po \<noteq> Minimal\<close> by (auto simp: program_config_def)
    next
      case True
      let ?r = "dv command_algorithm_config"
      obtain ob' where w: "probe_algorithm_config ?ob ?r = Inr ob'"
        and ob': "do_firmware_text ob' = do_firmware_text ob" "do_model ob' = do_model ob" "do_serial ob' = do_serial ob"
          "do_piv_version ob' = Some ?v"
          "do_algorithm_config ob' = (case granted ?r of None \<Rightarrow> do_algorithm_config ob
           | Some d \<Rightarrow> (case AlgorithmConfig_parse d of Inr cfg \<Rightarrow> Some cfg | Inl _ \<Rightarrow> None))"
      proof -
        obtain w where "probe_algorithm_config ?ob ?r = Inr (?ob\<lparr>do_warnings := do_warnings ?ob @ w,
          do_algorithm_config := (case granted ?r of None \<Rightarrow> do_algorithm_config ?ob
           | Some d \<Rightarrow> (case AlgorithmConfig_parse d of Inr cfg \<Rightarrow> Some cfg | Inl _ \<Rightarrow> None))\<rparr>)"
          using probe_reads(3) [of ?r ?ob] card unfolding answers_discovery_def by blast
        then show ?thesis by (rule that) (simp_all split: option.split)
      qed
      obtain q where q: "from_observations ob' = Inr q" "di_firmware_text (dp_info q) = do_firmware_text ob"
        "di_model (dp_info q) = do_model ob" "di_serial (dp_info q) = do_serial ob" "di_piv_version (dp_info q) = Some ?v"
        "dp_config q = do_algorithm_config ob'" "di_firmware (dp_info q) = di_firmware (dp_info p)"
        using from_observations_ok [of ob' "''model''", unfolded ob'(1-4), OF fw len] unfolding p(7) by blast
      have cq: "config_is_read q" using config_is_read_cong [OF q(7)] True by simp
      have "probe_reports po dv q"
        using cq q ob ob'(5) \<open>po_mode po \<noteq> Minimal\<close>
        by (cases "granted ?r") (simp_all add: probe_reports_def observed_basics_def)
      moreover have "program_config (recording dv) ?s ?ob = (?s @ [command_algorithm_config], Inr q)"
        using p(1) read True w q(1) by (simp add: program_config_def ask_def recording_def program_finish_def)
      ultimately show ?thesis using piv cq \<open>po_mode po \<noteq> Minimal\<close> by auto
    qed
  qed
qed

section \<open>Properties\<close>

text \<open>The probe machine is the straight-line discovery program. Against every card, whatever its
answers, the machine ends after at most seven exchanges, leaves the card in the state in which the
program leaves it (so it sends the same commands), and returns the program's profile or error.\<close>

theorem probe_is_program:
  "case machine_exec (8 + n) Probe_ops dev (Probe_new po) None s of
     None \<Rightarrow> False
   | Some (m, resp, s', a) \<Rightarrow> (s', a) = apsnd (map_sum id Action.Done) (probe_program dev po s)"
  using exec_probe [of n dev po s]
  by (cases "probe_program dev po s")
     (auto simp: exec_result_def numeral_eq_Suc split: option.splits sum.splits Action.splits)

text \<open>C37: discovery succeeds. On every card that answers the discovery commands in well-formed ways,
including refusals of the optional reads, the probe completes with a profile that reports exactly
what the card said; it sends only the discovery commands, in order, and reads the PIV algorithm
configuration exactly when the observed firmware is known to support that.\<close>

theorem probe_completes:
  assumes "answers_discovery dv" and "\<forall>n. po_observed_serial po = Some n \<longrightarrow> length n = 4"
  shows "\<exists>m resp p. machine_exec 8 Probe_ops (recording dv) (Probe_new po) None []
      = Some (m, resp, probe_commands po (config_is_read p), Inr (Action.Done p))
    \<and> probe_reports po dv p \<and> length (probe_commands po (config_is_read p)) \<le> 7"
proof -
  have "\<exists>p. probe_program (recording dv) po [] = (probe_commands po (config_is_read p), Inr p) \<and> probe_reports po dv p"
    (is "\<exists>p. ?ok p")
  proof -
    let ?ob = "(DeviceObservations_new [])\<lparr>do_firmware_text := rd_data (dv firmware_command)\<rparr>"
    obtain w where w: "probe_model ?ob (dv model_command)
      = Inr (?ob\<lparr>do_warnings := w, do_model := granted (dv model_command)\<rparr>)" (is "_ = Inr ?ob1")
      "OptionalCommandUnsupported ''algorithm_config'' \<notin> set w"
      using probe_reads(1) [of "dv model_command" ?ob] assms(1)
      by (auto simp: answers_discovery_def DeviceObservations_new_def split: option.splits)
    have start: "probe_program (recording dv) po [] = program_serial (recording dv) (po_mode po) (po_observed_serial po)
        [admin_select\<lparr>lc_le := Exact 256\<rparr>, firmware_command, model_command] ?ob1"
      using assms(1) w(1)
      by (auto simp: probe_program_def ask_def recording_def answers_discovery_def ResponseData_ensure_success_def
          probe_firmware_def)
    show ?thesis
    proof (cases "po_observed_serial po")
      case (Some n)
      have "observed_basics po dv (?ob1\<lparr>do_serial := Some n\<rparr>)"
        using Some w(2) by (simp add: observed_basics_def DeviceObservations_new_def)
      from program_piv_completes [OF assms(1) this assms(2),
          of "[admin_select\<lparr>lc_le := Exact 256\<rparr>, firmware_command, model_command]"]
      show ?thesis by (elim ex_forward) (simp add: start program_serial_def Some probe_commands_def)
    next
      case None
      obtain w' where w': "probe_serial ?ob1 (dv serial_command)
        = Inr (?ob1\<lparr>do_warnings := w @ w', do_serial := granted (dv serial_command)\<rparr>)" (is "_ = Inr ?ob2")
        "OptionalCommandUnsupported ''algorithm_config'' \<notin> set w'"
        using probe_reads(2) [of "dv serial_command" ?ob1] assms(1)
        by (auto simp: answers_discovery_def DeviceObservations_new_def split: option.splits)
      have "observed_basics po dv ?ob2"
        using None w(2) w'(2) by (simp add: observed_basics_def DeviceObservations_new_def)
      from program_piv_completes [OF assms(1) this assms(2),
          of "[admin_select\<lparr>lc_le := Exact 256\<rparr>, firmware_command, model_command, serial_command]"]
      show ?thesis
        by (elim ex_forward)
           (use w'(1) in \<open>simp add: start program_serial_def None probe_commands_def ask_def recording_def\<close>)
    qed
  qed
  then obtain p where p: "?ok p" ..
  show ?thesis
    using exec_probe [of 0 "recording dv" po "[]"] p
    by (intro exI [of _ "fst (the (machine_exec 8 Probe_ops (recording dv) (Probe_new po) None []))"]
          exI [of _ "fst (snd (the (machine_exec 8 Probe_ops (recording dv) (Probe_new po) None [])))"] exI [of _ p])
       (auto simp: exec_result_def numeral_eq_Suc probe_commands_def split: option.splits sum.splits Action.splits)
qed

text \<open>A card with firmware 3.1.0 that keeps its serial number to itself and has no configuration.\<close>

definition sample_card :: "LogicalCommand \<Rightarrow> ResponseData" where
  "sample_card c =
     (if c = firmware_command then \<lparr>rd_data = [0x33, 0x2e, 0x31, 0x2e, 0x30], rd_status = 0x9000\<rparr>
      else if c = command_version then \<lparr>rd_data = [6, 0, 0], rd_status = 0x9000\<rparr>
      else if c = serial_command then \<lparr>rd_data = [], rd_status = 0x6982\<rparr>
      else if c = command_algorithm_config then \<lparr>rd_data = [], rd_status = 0x6d00\<rparr>
      else \<lparr>rd_data = [], rd_status = 0x9000\<rparr>)"

theorem probe_completes_witness:
  "\<exists>m resp p. machine_exec 8 Probe_ops (recording sample_card) (Probe_new ProbeOptions_default) None []
      = Some (m, resp, probe_commands ProbeOptions_default (config_is_read p), Inr (Action.Done p))
    \<and> di_firmware_text (dp_info p) = [0x33, 0x2e, 0x31, 0x2e, 0x30] \<and> di_serial (dp_info p) = None"
proof -
  have c: "rd_data (sample_card firmware_command) = [0x33, 0x2e, 0x31, 0x2e, 0x30]"
    "granted (sample_card serial_command) = None"
    by (simp_all add: sample_card_def granted_def firmware_command_def serial_command_def admin_read_command_def
        LogicalCommand_new_def ApduHeader_new_def command_version_def piv_read_def piv_cmd_def)
  have "answers_discovery sample_card"
    by (simp add: answers_discovery_def answers_optional_def optional_warning_def sample_card_def admin_select_def
        firmware_command_def model_command_def serial_command_def command_version_def command_select_def
        command_algorithm_config_def admin_read_command_def piv_read_def piv_cmd_def LogicalCommand_new_def ApduHeader_new_def)
  moreover have "\<forall>n. po_observed_serial ProbeOptions_default = Some n \<longrightarrow> length n = 4"
    by (simp add: ProbeOptions_default_def)
  ultimately show ?thesis
    using probe_completes [of sample_card ProbeOptions_default] c
    by (auto simp: probe_reports_def ProbeOptions_default_def)
qed

end
