(* ===== verification/OpenPgp_Data.thy ===== *)
theory OpenPgp_Data
  imports Key
begin

text \<open>
  Data of the OpenPGP applet, \<open>canokey-openpgp\<close> without its machine: requests and results
  (\<open>types.rs\<close>), data objects and their framing on old and new firmware (\<open>data.rs\<close>), algorithm
  attributes and private-key templates (\<open>keys.rs\<close>). The algorithm of a slot is recovered from the
  application data object whatever else the object holds, and an import template carries exactly the
  components of the key.
\<close>

section \<open>Requests and results\<close>

datatype PasswordReference = Pw1Sign | Pw1Other | Pw3

fun PasswordReference_wire :: "PasswordReference \<Rightarrow> byte" where
  "PasswordReference_wire Pw1Sign = 0x81"
| "PasswordReference_wire Pw1Other = 0x82"
| "PasswordReference_wire Pw3 = 0x83"

fun PasswordReference_secret :: "PasswordReference \<Rightarrow> SecretReference" where
  "PasswordReference_secret Pw1Sign = SecretReference.Pw1Sign"
| "PasswordReference_secret Pw1Other = SecretReference.Pw1Other"
| "PasswordReference_secret Pw3 = SecretReference.Pw3"

type_synonym Password = bytes

definition Password_from_bytes :: "bytes \<Rightarrow> Password res" where
  "Password_from_bytes bs = (if \<not> (6 \<le> length bs \<and> length bs \<le> 64) then Inl (Error_new InvalidPin) else Inr bs)"

record PgpAccess =
  pa_reference :: PasswordReference
  pa_password :: Password

datatype PgpSlot = SignatureSlot | DecryptionSlot | AuthenticationSlot

fun occurrence :: "PgpSlot \<Rightarrow> byte" where
  "occurrence SignatureSlot = 0"
| "occurrence DecryptionSlot = 1"
| "occurrence AuthenticationSlot = 2"

fun PgpSlot_wire :: "PgpSlot \<Rightarrow> byte" where
  "PgpSlot_wire SignatureSlot = 0xb6"
| "PgpSlot_wire DecryptionSlot = 0xb8"
| "PgpSlot_wire AuthenticationSlot = 0xa4"

definition PgpSlot_attributes :: "PgpSlot \<Rightarrow> byte" where
  "PgpSlot_attributes slot = 0xc1 + occurrence slot"

datatype PgpTouchPolicy = TouchOff | TouchOn | TouchPermanent

datatype DataWrite =
    WriteName bytes
  | WriteLogin bytes
  | WriteLanguage bytes
  | WriteSex byte
  | WriteUrl bytes
  | WriteResetCode "Password option"
  | WriteReuseSignaturePin bool
  | WriteTouchPolicy PgpSlot PgpTouchPolicy
  | WriteTouchCacheTime byte
  | WriteAlgorithm PgpSlot Algorithm
  | WriteFingerprint PgpSlot bytes
  | WriteCaFingerprint PgpSlot bytes
  | WriteGenerationTime PgpSlot "32 word"

datatype PgpPrivateKey =
    RsaComponents (pk_exponent: bytes) (pk_p: bytes) (pk_q: bytes) (pk_q_inverse: bytes) (pk_d_p: bytes) (pk_d_q: bytes)
  | EcScalar bytes

datatype PgpRequest =
    ReadData "16 word"
  | ReadCertificate PgpSlot
  | WriteCertificate PgpSlot bytes
  | PinStatus PasswordReference
  | Verify
  | Logout PasswordReference
  | ChangePassword PasswordReference Password Password
  | UnblockWithAdmin Password
  | UnblockWithCode Password Password
  | ResetRetries bytes
  | WriteData DataWrite
  | ReadPublicKey PgpSlot
  | GenerateKey PgpSlot
  | ImportKey PgpSlot Algorithm PgpPrivateKey
  | SignRequest Algorithm bytes
  | AuthenticateRequest Algorithm bytes
  | DecryptRequest Algorithm bytes
  | DeriveRequest Algorithm bytes
  | Terminate
  | Activate

record PgpPinStatus =
  ps_verified :: bool
  ps_retries_remaining :: "byte option"
  ps_blocked :: bool

record PasswordStatus =
  pw_signature_policy :: byte
  pw_maximum_lengths :: bytes
  pw_retries :: bytes

definition pgp_invalid :: Error where
  "pgp_invalid = Error_at (Error_new InvalidResponse) Phase.Parsing"

definition PasswordStatus_parse :: "bytes \<Rightarrow> PasswordStatus res" where
  "PasswordStatus_parse bs =
     (if length bs \<noteq> 7 then Inl pgp_invalid
      else Inr \<lparr>pw_signature_policy = bs ! 0, pw_maximum_lengths = [bs ! 1, bs ! 2, bs ! 3],
                pw_retries = [bs ! 4, bs ! 5, bs ! 6]\<rparr>)"

datatype PgpOutcome =
    PgpBytes bytes
  | PgpUnit
  | PgpPin PgpPinStatus
  | PgpKey PublicKey
  | PgpSignature Algorithm bytes

section \<open>Data objects\<close>

record PgpField =
  fd_tag :: "32 word"
  fd_value :: bytes

definition pgp_limits :: "nat \<Rightarrow> TlvLimits" where
  "pgp_limits limit = TlvLimits_default\<lparr>max_value_bytes := limit\<rparr>"

definition pgp_fields :: "bytes \<Rightarrow> nat \<Rightarrow> PgpField list res" where
  "pgp_fields bs limit =
     (if length bs > limit then Inl (Error_new LimitExceeded)
      else tlv_loop (\<lambda>acc f. Inr (acc @ [\<lparr>fd_tag = tag_value (f_tag f), fd_value = f_value f\<rparr>]))
             (TlvReader_new_ber bs (pgp_limits limit)) [])"

fun unique_from :: "bytes option \<Rightarrow> PgpField list \<Rightarrow> 32 word \<Rightarrow> bytes option res" where
  "unique_from found [] tag = Inr found"
| "unique_from found (f # fs) tag =
     (if fd_tag f = tag then
        (if found \<noteq> None then Inl pgp_invalid else unique_from (Some (fd_value f)) fs tag)
      else unique_from found fs tag)"

definition unique_field :: "PgpField list \<Rightarrow> 32 word \<Rightarrow> bytes option res" where
  "unique_field fs tag = unique_from None fs tag"

definition one_field :: "bytes \<Rightarrow> 32 word \<Rightarrow> bytes res" where
  "one_field bs tag =
     bindE (TlvReader_next (TlvReader_new_ber bs TlvLimits_default)) (\<lambda>(f, r).
     bindE (ok_or f pgp_invalid) (\<lambda>f.
       if tag_value (f_tag f) \<noteq> tag then Inl pgp_invalid
       else bindE (TlvReader_next r) (\<lambda>(g, _).
         if g \<noteq> None then Inl pgp_invalid else Inr (f_value f))))"

definition data_framing :: "DeviceProfile \<Rightarrow> 16 word \<Rightarrow> Capability res" where
  "data_framing p tag =
     (if tag \<in> {0x65, 0x6e, 0x7a} then Inr OpenPgpWrappedData
      else if tag = 0xfa then
        bindE (require p OpenPgpAlgorithmInformation) (\<lambda>_. Inr OpenPgpWrappedAlgorithmInformation)
      else Inl (Error_new InvalidArgument))"

definition data_object_contents :: "DeviceProfile \<Rightarrow> 16 word \<Rightarrow> bytes \<Rightarrow> nat \<Rightarrow> bytes res" where
  "data_object_contents p tag bs limit =
     bindE (require p OpenPgp) (\<lambda>_.
       if length bs > limit then Inl (Error_new LimitExceeded)
       else bindE (data_framing p tag) (\<lambda>wrapped.
         bindE (if supports p wrapped then one_field bs (ucast tag) else Inr bs) (\<lambda>value.
         bindE (tlv_loop (\<lambda>u f. if tag_value (f_tag f) = ucast tag then Inl pgp_invalid else Inr u)
                  (TlvReader_new_ber value (pgp_limits limit)) ()) (\<lambda>_.
           Inr value))))"

record AlgorithmInformation =
  ai_raw :: bytes
  ai_fields :: "PgpField list"

definition AlgorithmInformation_parse_with_profile ::
  "DeviceProfile \<Rightarrow> bytes \<Rightarrow> nat \<Rightarrow> AlgorithmInformation res" where
  "AlgorithmInformation_parse_with_profile p bs limit =
     bindE (data_object_contents p 0xfa bs limit) (\<lambda>contents.
     bindE (pgp_fields contents limit) (\<lambda>fs. Inr \<lparr>ai_raw = bs, ai_fields = fs\<rparr>))"

record ApplicationData =
  ap_raw :: bytes
  ap_fields :: "PgpField list"
  ap_discretionary :: "PgpField list"

definition application_data :: "bytes \<Rightarrow> bytes \<Rightarrow> nat \<Rightarrow> ApplicationData res" where
  "application_data bs contents limit =
     bindE (pgp_fields contents limit) (\<lambda>outer.
     bindE (bindE (unique_field outer 0x73) (\<lambda>v. ok_or v pgp_invalid)) (\<lambda>inner.
     bindE (pgp_fields inner limit) (\<lambda>discretionary.
       Inr \<lparr>ap_raw = bs, ap_fields = outer, ap_discretionary = discretionary\<rparr>)))"

definition ApplicationData_parse :: "bytes \<Rightarrow> nat \<Rightarrow> ApplicationData res" where
  "ApplicationData_parse bs limit =
     (if length bs > limit then Inl (Error_new LimitExceeded)
      else bindE (one_field bs 0x6e) (\<lambda>contents. application_data bs contents limit))"

definition ApplicationData_parse_with_profile :: "DeviceProfile \<Rightarrow> bytes \<Rightarrow> nat \<Rightarrow> ApplicationData res" where
  "ApplicationData_parse_with_profile p bs limit =
     bindE (data_object_contents p 0x6e bs limit) (\<lambda>contents. application_data bs contents limit)"

text \<open>\<open>Option::map(f).transpose()\<close> for a fallible \<open>f\<close>.\<close>

definition map_opt :: "('a \<Rightarrow> 'b res) \<Rightarrow> 'a option \<Rightarrow> 'b option res" where
  "map_opt f v = (case v of None \<Rightarrow> Inr None | Some x \<Rightarrow> bindE (f x) (\<lambda>y. Inr (Some y)))"

definition exact_bytes :: "nat \<Rightarrow> bytes \<Rightarrow> bytes res" where
  "exact_bytes n bs = (if length bs = n then Inr bs else Inl pgp_invalid)"

definition slot_part :: "nat \<Rightarrow> PgpSlot \<Rightarrow> bytes \<Rightarrow> bytes res" where
  "slot_part n slot bs =
     (if length bs \<noteq> 3 * n then Inl pgp_invalid
      else Inr (take n (drop (unat (occurrence slot) * n) bs)))"

definition ApplicationData_aid :: "ApplicationData \<Rightarrow> bytes option res" where
  "ApplicationData_aid d = bindE (unique_field (ap_fields d) 0x4f) (map_opt (exact_bytes 16))"

definition ApplicationData_password_status :: "ApplicationData \<Rightarrow> PasswordStatus option res" where
  "ApplicationData_password_status d = bindE (unique_field (ap_discretionary d) 0xc4) (map_opt PasswordStatus_parse)"

definition ApplicationData_algorithm_attributes :: "ApplicationData \<Rightarrow> PgpSlot \<Rightarrow> bytes option res" where
  "ApplicationData_algorithm_attributes d slot = unique_field (ap_discretionary d) (ucast (PgpSlot_attributes slot))"

definition ApplicationData_fingerprint :: "ApplicationData \<Rightarrow> PgpSlot \<Rightarrow> bytes option res" where
  "ApplicationData_fingerprint d slot = bindE (unique_field (ap_discretionary d) 0xc5) (map_opt (slot_part 20 slot))"

definition ApplicationData_generation_time :: "ApplicationData \<Rightarrow> PgpSlot \<Rightarrow> 32 word option res" where
  "ApplicationData_generation_time d slot =
     bindE (unique_field (ap_discretionary d) 0xcd)
       (map_opt (\<lambda>bs. bindE (slot_part 4 slot bs) (\<lambda>t. Inr (from_be t))))"

definition ApplicationData_touch_policy :: "ApplicationData \<Rightarrow> PgpSlot \<Rightarrow> bytes option res" where
  "ApplicationData_touch_policy d slot =
     bindE (unique_field (ap_discretionary d) (ucast (0xd6 + occurrence slot))) (map_opt (exact_bytes 2))"

type_synonym CardholderData = "PgpField list"

definition CardholderData_parse :: "bytes \<Rightarrow> nat \<Rightarrow> CardholderData res" where
  "CardholderData_parse bs limit =
     (if length bs > limit then Inl (Error_new LimitExceeded)
      else bindE (one_field bs 0x65) (\<lambda>contents. pgp_fields contents limit))"

definition CardholderData_parse_with_profile :: "DeviceProfile \<Rightarrow> bytes \<Rightarrow> nat \<Rightarrow> CardholderData res" where
  "CardholderData_parse_with_profile p bs limit =
     bindE (data_object_contents p 0x65 bs limit) (\<lambda>contents. pgp_fields contents limit)"

definition CardholderData_name :: "CardholderData \<Rightarrow> bytes option res" where
  "CardholderData_name d = unique_field d 0x5b"

definition CardholderData_language :: "CardholderData \<Rightarrow> bytes option res" where
  "CardholderData_language d = unique_field d 0x5f2d"

definition CardholderData_sex :: "CardholderData \<Rightarrow> bytes option res" where
  "CardholderData_sex d = unique_field d 0x5f35"

section \<open>Keys\<close>

definition pgp_algorithms :: "Algorithm list" where
  "pgp_algorithms = [Rsa2048, Rsa3072, Rsa4096, EccP256, EccP384, EccP521, Secp256k1, Ed25519, X25519]"

fun pgp_oid :: "Algorithm \<Rightarrow> bytes option" where
  "pgp_oid EccP256 = Some [0x2a, 0x86, 0x48, 0xce, 0x3d, 3, 1, 7]"
| "pgp_oid EccP384 = Some [0x2b, 0x81, 4, 0, 0x22]"
| "pgp_oid EccP521 = Some [0x2b, 0x81, 4, 0, 0x23]"
| "pgp_oid Secp256k1 = Some [0x2b, 0x81, 4, 0, 10]"
| "pgp_oid Ed25519 = Some [0x2b, 6, 1, 4, 1, 0xda, 0x47, 15, 1]"
| "pgp_oid X25519 = Some [0x2b, 6, 1, 4, 1, 0x97, 0x55, 1, 5, 1]"
| "pgp_oid _ = None"

definition attributes :: "PgpSlot \<Rightarrow> Algorithm \<Rightarrow> bytes res" where
  "attributes slot a =
     (if a \<notin> set pgp_algorithms \<or> slot = DecryptionSlot \<and> a = Ed25519 \<or> slot \<noteq> DecryptionSlot \<and> a = X25519
      then Inl (Error_new UnsupportedAlgorithm)
      else case rsa_len a of
             Some n \<Rightarrow> Inr [1, of_nat (n * 8 div 256), 0, 0, 32, 2]
           | None \<Rightarrow>
               bindE (ok_or (pgp_oid a) pgp_invalid) (\<lambda>oid.
                 Inr ((if slot = DecryptionSlot then 0x12 else if a = Ed25519 then 0x16 else 0x13) # oid)))"

definition attributes_match :: "PgpSlot \<Rightarrow> bytes \<Rightarrow> Algorithm \<Rightarrow> bool" where
  "attributes_match slot attr a =
     (case attributes slot a of
        Inl _ \<Rightarrow> False
      | Inr expected \<Rightarrow>
          attr = expected \<or> rsa_len a \<noteq> None \<and> length attr = 6 \<and> take 3 attr = take 3 expected)"

definition observed_algorithm :: "bytes \<Rightarrow> PgpSlot \<Rightarrow> DeviceProfile \<Rightarrow> Algorithm res" where
  "observed_algorithm bs slot p =
     bindE (ApplicationData_parse_with_profile p bs (length bs)) (\<lambda>app.
     bindE (bindE (ApplicationData_algorithm_attributes app slot) (\<lambda>v. ok_or v pgp_invalid)) (\<lambda>attr.
       ok_or (find (attributes_match slot attr) pgp_algorithms) (Error_new UnsupportedAlgorithm)))"

definition wrap_field :: "bytes \<Rightarrow> bytes \<Rightarrow> bytes res" where
  "wrap_field tag value =
     bindE (Tag_from_bytes tag) (\<lambda>t.
     bindE (TlvWriter_push (TlvWriter_new 4096) t value) (\<lambda>w. Inr (w_bytes w)))"

definition component_length :: "nat \<Rightarrow> bytes" where
  "component_length n =
     (if n < 128 then [of_nat n]
      else if n \<le> 255 then [0x81, of_nat n]
      else [0x82, of_nat (n div 256), of_nat n])"

definition private_components :: "Algorithm \<Rightarrow> PgpPrivateKey \<Rightarrow> (byte \<times> bytes) list res" where
  "private_components a key =
     (case key of
        RsaComponents e p q qi dp dq \<Rightarrow>
          bindE (ok_or (rsa_len a) (Error_new InvalidArgument)) (\<lambda>m.
            if list_ex (\<lambda>v. length v \<noteq> m div 2) [p, q, qi, dp, dq] \<or> e = [0, 0, 0, 0]
            then Inl (Error_new InvalidArgument)
            else Inr [(0x91, e), (0x92, p), (0x93, q), (0x94, qi), (0x95, dp), (0x96, dq)])
      | EcScalar bs \<Rightarrow>
          bindE (ok_or (case curve_len a of Some n \<Rightarrow> Some n
                        | None \<Rightarrow> if a \<in> {Ed25519, X25519} then Some 32 else None)
                  (Error_new InvalidArgument)) (\<lambda>n.
            if length bs \<noteq> n then Inl (Error_new InvalidArgument) else Inr [(0x92, bs)]))"

definition component_template :: "(byte \<times> bytes) list \<Rightarrow> bytes" where
  "component_template cs = concat (map (\<lambda>(t, v). t # component_length (length v)) cs)"

definition component_data :: "(byte \<times> bytes) list \<Rightarrow> bytes" where
  "component_data cs = concat (map snd cs)"

definition import_template :: "PgpSlot \<Rightarrow> Algorithm \<Rightarrow> PgpPrivateKey \<Rightarrow> bytes res" where
  "import_template slot a key =
     bindE (attributes slot a) (\<lambda>_.
     bindE (private_components a key) (\<lambda>cs.
     bindE (wrap_field [0x7f, 0x48] (component_template cs)) (\<lambda>t.
     bindE (wrap_field [0x5f, 0x48] (component_data cs)) (\<lambda>d.
     bindE (wrap_field [0x4d] ([PgpSlot_wire slot, 0] @ t @ d)) (\<lambda>bs.
       if length bs > 2048 then Inl (Error_new LimitExceeded) else Inr bs)))))"

definition sign_input :: "Algorithm \<Rightarrow> bytes \<Rightarrow> unit res" where
  "sign_input a bs =
     bindE (attributes SignatureSlot a) (\<lambda>_.
       let most = (case rsa_len a of Some n \<Rightarrow> n * 2 div 5 | None \<Rightarrow> (case curve_len a of Some n \<Rightarrow> n | None \<Rightarrow> 255)) in
       if length bs > most then Inl (Error_new InvalidArgument) else Inr ())"

definition signature_len :: "Algorithm \<Rightarrow> nat" where
  "signature_len a =
     (case rsa_len a of Some n \<Rightarrow> n | None \<Rightarrow> (case curve_len a of Some n \<Rightarrow> 2 * n | None \<Rightarrow> 64))"

definition derive_input :: "Algorithm \<Rightarrow> bytes \<Rightarrow> bytes res" where
  "derive_input a bs =
     bindE (attributes DecryptionSlot a) (\<lambda>_.
       if \<not> (case curve_len a of
               Some n \<Rightarrow> length bs = 1 + 2 * n \<and> get_at bs 0 = Some 4
             | None \<Rightarrow> a = X25519 \<and> length bs = 32)
       then Inl (Error_new InvalidArgument)
       else bindE (wrap_field [0x86] bs) (\<lambda>x. bindE (wrap_field [0x7f, 0x49] x) (wrap_field [0xa6])))"

section \<open>Reading encoded objects\<close>

lemma foldE_append_map: "foldE (\<lambda>acc x. Inr (acc @ [h x])) acc xs = Inr (acc @ map h xs)"
  by (induction xs arbitrary: acc) simp_all

lemma foldE_unit_ok: "\<forall>x \<in> set xs. \<not> bad x \<Longrightarrow> foldE (\<lambda>u x. if bad x then Inl e else Inr u) u xs = Inr u"
  by (induction xs) simp_all

lemma new_ber_simps [simp]:
  "r_bytes (TlvReader_new_ber bs lim) = bs" "r_depth (TlvReader_new_ber bs lim) = 1"
  "r_limits (TlvReader_new_ber bs lim) = lim"
  "(TlvReader_new_ber bs lim)\<lparr>r_bytes := bs'\<rparr> = TlvReader_new_ber bs' lim"
  by (simp_all add: TlvReader_new_ber_def TlvReader_new_def)

text \<open>The lenient reader reads the minimal encodings like the strict one.\<close>

lemma ber_loop:
  assumes "\<And>s f. body s f = g s (f_tag f, f_value f)" "list_all (field_ok lim) fs"
  shows "tlv_loop body (TlvReader_new_ber (tlv_encode fs) lim) s = foldE g s fs"
  unfolding ext [of body, OF ext, OF assms(1)]
  using assms(2)
proof (induction fs arbitrary: s)
  case Nil
  then show ?case by (simp add: tlv_loop.simps TlvReader_next_def tlv_encode_def)
next
  case (Cons x fs)
  obtain t v where x: "x = (t, v)" by fastforce
  have nx: "TlvReader_next (TlvReader_new_ber (tlv_encode (x # fs)) lim) =
      Inr (Some \<lparr>f_tag = t, f_value = v, f_depth = 1, f_limits = lim,
        f_minimal_lengths = r_minimal_lengths (TlvReader_new_ber (tlv_encode (x # fs)) lim)\<rparr>,
        TlvReader_new_ber (tlv_encode fs) lim)"
    using Cons.prems
    by (subst TlvReader_next_field [where t = t and v = v and rest = "tlv_encode fs"])
       (simp_all add: x field_ok_def tlv_encode_def)
  show ?case
    using Cons.prems Cons.IH
    by (subst tlv_loop.simps) (simp only: nx sum.case prod.case option.case, cases "g s x", simp_all add: x)
qed

lemma one_field_encoded:
  assumes "Tag_wf t" "length v \<le> 1024 * 1024"
  shows "one_field (tlv_field t v) (tag_value t) = Inr v"
proof -
  have "TlvReader_next (TlvReader_new_ber (tlv_field t v) TlvLimits_default) =
      Inr (Some \<lparr>f_tag = t, f_value = v, f_depth = 1, f_limits = TlvLimits_default,
        f_minimal_lengths = r_minimal_lengths (TlvReader_new_ber (tlv_field t v) TlvLimits_default)\<rparr>,
        TlvReader_new_ber [] TlvLimits_default)"
    using assms by (subst TlvReader_next_field [where t = t and v = v and rest = "[]"])
      (simp_all add: TlvLimits_default_def)
  moreover have "TlvReader_next (TlvReader_new_ber [] TlvLimits_default) = Inr (None, TlvReader_new_ber [] TlvLimits_default)"
    by (simp add: TlvReader_next_def)
  ultimately show ?thesis by (simp add: one_field_def)
qed

definition plain_field :: "Tag \<times> bytes \<Rightarrow> PgpField" where
  "plain_field x = \<lparr>fd_tag = tag_value (fst x), fd_value = snd x\<rparr>"

lemma plain_field_simps [simp]: "fd_tag (plain_field x) = tag_value (fst x)" "fd_value (plain_field x) = snd x"
  by (simp_all add: plain_field_def)

lemma tlv_field_length: "length v < 2 ^ 32 \<Longrightarrow> length v \<le> length (tlv_field t v)"
  by (simp add: tlv_field_def)

lemma encoded_value_length:
  assumes "x \<in> set fs"
  shows "length (snd x) \<le> length (tlv_encode fs)"
  using assms
  by (induction fs) (auto simp: tlv_encode_def tlv_field_def)

lemma fields_ok:
  assumes "\<forall>x \<in> set fs. Tag_wf (fst x)" "length (tlv_encode fs) \<le> limit" "limit < 2 ^ 32"
  shows "list_all (field_ok (pgp_limits limit)) fs"
  using assms encoded_value_length [of _ fs]
  by (fastforce simp: list_all_iff field_ok_def pgp_limits_def TlvLimits_default_def)

lemma pgp_fields_encoded:
  assumes "\<forall>x \<in> set fs. Tag_wf (fst x)" "length (tlv_encode fs) \<le> limit" "limit < 2 ^ 32"
  shows "pgp_fields (tlv_encode fs) limit = Inr (map plain_field fs)"
  using assms
  by (simp add: pgp_fields_def plain_field_def foldE_append_map fields_ok
      ber_loop [where g = "\<lambda>acc x. Inr (acc @ [\<lparr>fd_tag = tag_value (fst x), fd_value = snd x\<rparr>])"])

text \<open>A field that occurs exactly once is found whatever surrounds it.\<close>

lemma unique_from_absent: "\<forall>f \<in> set fs. fd_tag f \<noteq> tag \<Longrightarrow> unique_from found (fs @ gs) tag = unique_from found gs tag"
  by (induction fs) simp_all

lemma unique_field_once:
  assumes "\<forall>x \<in> set (pre @ post). fd_tag x \<noteq> fd_tag f"
  shows "unique_field (pre @ f # post) (fd_tag f) = Inr (Some (fd_value f))"
  using assms unique_from_absent [of post "fd_tag f" "Some (fd_value f)" "[]"]
  by (simp add: unique_field_def unique_from_absent)

section \<open>Algorithm attributes\<close>

lemma attributes_distinct:
  assumes "attributes slot a = Inr attr" "attributes_match slot attr b"
  shows "a = b"
  using assms
  by (cases a; cases b) (auto simp: attributes_def attributes_match_def pgp_algorithms_def split: if_splits)

lemma find_attributes:
  assumes "attributes slot a = Inr attr"
  shows "find (attributes_match slot attr) pgp_algorithms = Some a"
proof -
  have a: "a \<in> set pgp_algorithms" "attributes_match slot attr a"
    using assms by (auto simp: attributes_def attributes_match_def split: if_splits)
  then obtain b where b: "find (attributes_match slot attr) pgp_algorithms = Some b"
    by (cases "find (attributes_match slot attr) pgp_algorithms") (auto simp: find_None_iff)
  then have "attributes_match slot attr b" by (auto simp: find_Some_iff)
  with attributes_distinct [OF assms] b show ?thesis by simp
qed

lemma attributes_rsa:
  assumes "rsa_len a = Some n" "attributes slot a = Inr expected" "length attr = 6" "take 3 attr = take 3 expected"
  shows "find (attributes_match slot attr) pgp_algorithms = Some a"
proof -
  have m: "attributes_match slot attr b \<longleftrightarrow> b = a" for b
    using assms
    by (cases b; cases a)
       (auto simp: attributes_def attributes_match_def pgp_algorithms_def dest: arg_cong [of _ _ "take 3"] split: if_splits)
  have "a \<in> set pgp_algorithms" using assms by (auto simp: attributes_def split: if_splits)
  moreover obtain b where "find (attributes_match slot attr) pgp_algorithms = Some b"
    using m calculation by (cases "find (attributes_match slot attr) pgp_algorithms") (auto simp: find_None_iff)
  ultimately show ?thesis using m by (auto simp: find_Some_iff)
qed

section \<open>Application data objects\<close>

definition tag_of :: "32 word \<Rightarrow> Tag" where
  "tag_of v = \<lparr>tag_value = v, tag_len = (if v < 256 then 1 else 2)\<rparr>"

text \<open>
  The application data object a card builds from its fields: the discretionary template 73 holds
  the inner fields, and firmware from 2.0 on wraps the whole in 6E.
\<close>

definition application_object ::
  "bool \<Rightarrow> (Tag \<times> bytes) list \<Rightarrow> (Tag \<times> bytes) list \<Rightarrow> (Tag \<times> bytes) list \<Rightarrow> bytes" where
  "application_object wrapped before inner after =
     (let contents = tlv_encode (before @ (tag_of 0x73, tlv_encode inner) # after) in
      if wrapped then tlv_field (tag_of 0x6e) contents else contents)"

lemma tag_of_wf [simp]: "Tag_wf (tag_of 0x73)" "Tag_wf (tag_of 0x6e)" "tag_value (tag_of v) = v"
  by (simp_all add: tag_of_def Tag_wf_def tlv_eval)

definition plain_fields :: "32 word \<Rightarrow> (Tag \<times> bytes) list \<Rightarrow> bool" where
  "plain_fields tag fs \<longleftrightarrow> (\<forall>x \<in> set fs. Tag_wf (fst x) \<and> tag_value (fst x) \<noteq> tag)"

lemma contents_of_object:
  assumes "supports p OpenPgp" "length bs \<le> 1024 * 1024"
    and bs: "bs = (if supports p OpenPgpWrappedData then tlv_field (tag_of 0x6e) (tlv_encode fs) else tlv_encode fs)"
    and fs: "plain_fields 0x6e fs"
  shows "data_object_contents p 0x6e bs (length bs) = Inr (tlv_encode fs)"
proof -
  have len: "length (tlv_encode fs) \<le> length bs" by (simp add: bs tlv_field_def)
  have one: "(if supports p OpenPgpWrappedData then one_field bs 0x6e else Inr bs) = Inr (tlv_encode fs)"
    using one_field_encoded [of "tag_of 0x6e" "tlv_encode fs"] len assms(2) by (simp add: bs)
  have "tlv_loop (\<lambda>u f. if tag_value (f_tag f) = 0x6e then Inl pgp_invalid else Inr u)
      (TlvReader_new_ber (tlv_encode fs) (pgp_limits (length bs))) ()
    = foldE (\<lambda>u x. if tag_value (fst x) = 0x6e then Inl pgp_invalid else Inr u) () fs"
    by (rule ber_loop) (use fields_ok [of fs "length bs"] len assms(2) fs in \<open>auto simp: plain_fields_def\<close>)
  also have "\<dots> = Inr ()" by (rule foldE_unit_ok) (use fs in \<open>auto simp: plain_fields_def\<close>)
  finally have loop: "tlv_loop (\<lambda>u f. if tag_value (f_tag f) = 0x6e then Inl pgp_invalid else Inr u)
      (TlvReader_new_ber (tlv_encode fs) (pgp_limits (length bs))) () = Inr ()" .
  have "require p OpenPgp = Inr ()" using assms(1) by (simp only: require_eq_Inr)
  then show ?thesis
    using loop one by (cases "supports p OpenPgpWrappedData") (simp_all add: data_object_contents_def data_framing_def)
qed

lemma application_data_encoded:
  assumes "plain_fields 0x73 (before @ after)" "\<forall>x \<in> set inner. Tag_wf (fst x)"
    "length (tlv_encode (before @ (tag_of 0x73, tlv_encode inner) # after)) \<le> limit" "limit < 2 ^ 32"
  shows "application_data bs (tlv_encode (before @ (tag_of 0x73, tlv_encode inner) # after)) limit
    = Inr \<lparr>ap_raw = bs, ap_fields = map plain_field (before @ (tag_of 0x73, tlv_encode inner) # after),
           ap_discretionary = map plain_field inner\<rparr>"
proof -
  let ?fs = "before @ (tag_of 0x73, tlv_encode inner) # after"
  have f: "pgp_fields (tlv_encode ?fs) limit = Inr (map plain_field ?fs)"
    by (rule pgp_fields_encoded) (use assms in \<open>auto simp: plain_fields_def\<close>)
  have "\<forall>x \<in> set (map plain_field before @ map plain_field after). fd_tag x \<noteq> fd_tag (plain_field (tag_of 0x73, tlv_encode inner))"
    using assms(1) by (auto simp del: Product_Type.split_paired_All simp: plain_fields_def ball_Un)
  then have "unique_field (map plain_field before @ plain_field (tag_of 0x73, tlv_encode inner) # map plain_field after)
      (fd_tag (plain_field (tag_of 0x73, tlv_encode inner))) = Inr (Some (tlv_encode inner))"
    by (subst unique_field_once) simp_all
  then have u: "unique_field (map plain_field ?fs) 0x73 = Inr (Some (tlv_encode inner))" by simp
  have "length (tlv_encode inner) \<le> limit"
    using encoded_value_length [of "(tag_of 0x73, tlv_encode inner)" ?fs] assms(3) by simp
  then have "pgp_fields (tlv_encode inner) limit = Inr (map plain_field inner)"
    by (intro pgp_fields_encoded) (use assms in auto)
  then show ?thesis using u by (simp add: application_data_def f)
qed

section \<open>Import templates\<close>

text \<open>
  The components of a private key as the card reads them: each tag of the template names the length
  of the next component of the data.
\<close>

fun read_components :: "bytes \<Rightarrow> bytes \<Rightarrow> (byte \<times> bytes) list option" where
  "read_components [] d = (if d = [] then Some [] else None)"
| "read_components (t # l # rest) d =
     (if l < 0x80 then
        (if unat l \<le> length d
         then map_option ((#) (t, take (unat l) d)) (read_components rest (drop (unat l) d)) else None)
      else if l = 0x81 then
        (case rest of
           x # rest' \<Rightarrow> if unat x \<le> length d
             then map_option ((#) (t, take (unat x) d)) (read_components rest' (drop (unat x) d)) else None
         | _ \<Rightarrow> None)
      else if l = 0x82 then
        (case rest of
           x # y # rest' \<Rightarrow>
             if unat x * 256 + unat y \<le> length d
             then map_option ((#) (t, take (unat x * 256 + unat y) d))
                    (read_components rest' (drop (unat x * 256 + unat y) d)) else None
         | _ \<Rightarrow> None)
      else None)"
| "read_components _ _ = None"

lemma byte_of_nat: "n < 256 \<Longrightarrow> unat (of_nat n :: byte) = n"
  by (simp add: unat_of_nat)

lemma byte_mod: "unat (of_nat n :: byte) = n mod 256"
  by (simp add: unat_of_nat)

lemma read_components_step:
  assumes "length v < 65536" "read_components rest d = Some cs"
  shows "read_components (t # component_length (length v) @ rest) (v @ d) = Some ((t, v) # cs)"
proof -
  consider "length v < 128" | "128 \<le> length v" "length v \<le> 255" | "256 \<le> length v" by linarith
  then show ?thesis
  proof cases
    case 1
    then have "(of_nat (length v) :: byte) < 0x80" by (simp add: word_less_nat_alt byte_of_nat)
    then show ?thesis using 1 assms(2) by (simp add: component_length_def byte_of_nat)
  next
    case 2
    then show ?thesis using assms(2) by (simp add: component_length_def byte_of_nat)
  next
    case 3
    have "length v div 256 < 256" using assms(1) by (simp add: less_mult_imp_div_less)
    then have "unat (of_nat (length v div 256) :: byte) * 256 + unat (of_nat (length v) :: byte) = length v"
      by (simp add: byte_of_nat byte_mod)
    then show ?thesis using 3 assms(2) by (simp add: component_length_def)
  qed
qed

lemma read_components_written:
  assumes "\<forall>c \<in> set cs. length (snd c) < 65536"
  shows "read_components (component_template cs) (component_data cs) = Some cs"
  using assms
proof (induction cs)
  case (Cons c cs)
  obtain t v where c: "c = (t, v)" by fastforce
  then show ?case
    using Cons read_components_step [of v "component_template cs" "component_data cs" cs t]
    by (simp add: component_template_def component_data_def)
qed (simp add: component_template_def component_data_def)

lemma private_components_lengths:
  assumes "private_components a key = Inr cs" "case key of RsaComponents e _ _ _ _ _ \<Rightarrow> length e = 4 | EcScalar _ \<Rightarrow> True"
  shows "(\<forall>c \<in> set cs. length (snd c) \<le> 256) \<and> length (component_template cs) \<le> 24 \<and> length (component_data cs) \<le> 1284"
proof (cases key)
  case (RsaComponents e p q qi dp dq)
  then obtain m where m: "rsa_len a = Some m" "list_all (\<lambda>v. length v = m div 2) [p, q, qi, dp, dq]"
    "cs = [(0x91, e), (0x92, p), (0x93, q), (0x94, qi), (0x95, dp), (0x96, dq)]"
    using assms(1) by (auto simp: private_components_def result_simps split: if_splits)
  have "m div 2 \<le> 256" using m(1) by (cases a) auto
  then show ?thesis using m(2) assms(2) RsaComponents
    by (simp add: m(3) component_template_def component_data_def component_length_def)
next
  case (EcScalar bs)
  then have c: "cs = [(0x92, bs)]" "length bs \<le> 66"
    using assms(1) by (cases a; auto simp: private_components_def split: if_splits)+
  then show ?thesis by (simp add: component_template_def component_data_def component_length_def)
qed

lemma length_prefix_short: "length_prefix (length v) = Inr lp \<Longrightarrow> length v < 65536 \<Longrightarrow> length lp \<le> 3"
proof (cases "length v < 128")
  case False
  assume lp: "length_prefix (length v) = Inr lp" and v: "length v < 65536"
  have u: "unat (of_nat (length v) :: 32 word) = length v" using v by (simp add: unat_of_nat)
  then have "(of_nat (length v) :: 32 word) < 65536" using v by (simp add: word_less_nat_alt)
  then have "drop_bit 24 (of_nat (length v) :: 32 word) = 0" "drop_bit 16 (of_nat (length v) :: 32 word) = 0"
    using v unfolding word_unat_eq_iff unat_drop_bit_eq u by (simp_all add: drop_bit_eq_div)
  then have "length lp \<le> 3" using lp False
    by (auto simp: length_prefix_def to_be_bytes_numeral Let_def split: if_splits)
  then show ?thesis .
qed (auto simp: length_prefix_def)

lemma wrap_field_ok:
  assumes "Tag_from_bytes tag = Inr t" "length v < 2048"
  shows "wrap_field tag v = Inr (tlv_field t v) \<and> length (tlv_field t v) \<le> length v + length tag + 3"
proof -
  obtain lp where lp: "length_prefix (length v) = Inr lp" using length_prefix_ok [of "length v"] assms(2) by auto
  have "Tag_to_bytes t = tag" using Tag_from_bytes_InrD(1) [OF assms(1)] .
  moreover have "length tag \<le> 4" using \<open>Tag_to_bytes t = tag\<close> by (auto simp: Tag_to_bytes_def)
  ultimately have len: "length (tlv_field t v) \<le> length v + length tag + 3" "length tag \<le> 4"
    using lp length_prefix_short [OF lp] assms(2) by (simp_all add: tlv_field_def)
  have "TlvWriter_push (TlvWriter_new 4096) t v = Inr ((TlvWriter_new 4096)\<lparr>w_bytes := tlv_field t v\<rparr>)"
    using TlvWriter_push_okI [of v "TlvWriter_new 4096" t] len assms(2)
    by (simp add: TlvWriter_new_def usize_max_def)
  then show ?thesis using assms(1) len(1) by (simp add: wrap_field_def)
qed

section \<open>Properties\<close>

text \<open>The algorithm of an OpenPGP slot is recovered from the application data object. Whatever
other fields the card puts into the object and around the discretionary template, and whether its
firmware wraps the object or not, the host finds the algorithm whose attributes the card reports; an
RSA key is recognised by its modulus length alone, whatever exponent size and import format follow.\<close>

theorem openpgp_algorithm_recovered:
  assumes "supports p OpenPgp"
    and "plain_fields 0x6e (before @ after)" "plain_fields 0x73 (before @ after)"
    and "plain_fields (ucast (PgpSlot_attributes slot)) (pre @ post)"
    and "attributes slot a = Inr expected"
    and "attr = expected \<or> rsa_len a \<noteq> None \<and> length attr = 6 \<and> take 3 attr = take 3 expected"
    and "Tag_wf t" "tag_value t = ucast (PgpSlot_attributes slot)"
    and "bs = application_object (supports p OpenPgpWrappedData) before (pre @ (t, attr) # post) after"
    and "length bs \<le> 1024 * 1024"
  shows "observed_algorithm bs slot p = Inr a"
proof -
  let ?inner = "pre @ (t, attr) # post"
  let ?fs = "before @ (tag_of 0x73, tlv_encode ?inner) # after"
  have len: "length (tlv_encode ?fs) \<le> length bs"
    by (simp add: assms(9) application_object_def Let_def tlv_field_def)
  have "data_object_contents p 0x6e bs (length bs) = Inr (tlv_encode ?fs)"
    by (rule contents_of_object [OF assms(1,10)])
       (use assms(2) in \<open>auto simp: assms(9) application_object_def plain_fields_def\<close>)
  moreover have "application_data bs (tlv_encode ?fs) (length bs)
    = Inr \<lparr>ap_raw = bs, ap_fields = map plain_field ?fs, ap_discretionary = map plain_field ?inner\<rparr>"
    by (rule application_data_encoded [OF assms(3)]) (use assms(4,7,10) len in \<open>auto simp: plain_fields_def\<close>)
  ultimately have app: "ApplicationData_parse_with_profile p bs (length bs)
    = Inr \<lparr>ap_raw = bs, ap_fields = map plain_field ?fs, ap_discretionary = map plain_field ?inner\<rparr>"
    by (simp add: ApplicationData_parse_with_profile_def)
  have "\<forall>x \<in> set (map plain_field pre @ map plain_field post). fd_tag x \<noteq> fd_tag (plain_field (t, attr))"
    using assms(4) by (auto simp del: Product_Type.split_paired_All simp: plain_fields_def ball_Un assms(8))
  from unique_field_once [OF this] have "unique_field (map plain_field ?inner) (ucast (PgpSlot_attributes slot)) = Inr (Some attr)"
    by (simp add: assms(8))
  then have "observed_algorithm bs slot p
      = ok_or (find (attributes_match slot attr) pgp_algorithms) (Error_new UnsupportedAlgorithm)"
    by (simp add: observed_algorithm_def app ApplicationData_algorithm_attributes_def)
  moreover have "find (attributes_match slot attr) pgp_algorithms = Some a"
    using assms(6) find_attributes [OF assms(5)] attributes_rsa [OF _ assms(5)] by auto
  ultimately show ?thesis by simp
qed

theorem openpgp_algorithm_recovered_witness:
  "observed_algorithm (application_object True [(tag_of 0x4f, [1, 2, 3])]
      ([(tag_of 0xc1, [1, 8, 0, 0, 32, 0])] @ (tag_of 0xc2, 0x12 # [0x2b, 0x81, 4, 0, 0x22]) # []) [])
     DecryptionSlot profile_31 = Inr EccP384"
proof (rule openpgp_algorithm_recovered)
  show "supports profile_31 OpenPgp" by (simp add: supports_31 less_eq_prod_def)
  show "application_object True [(tag_of 0x4f, [1, 2, 3])]
      ([(tag_of 0xc1, [1, 8, 0, 0, 32, 0])] @ (tag_of 0xc2, 0x12 # [0x2b, 0x81, 4, 0, 0x22]) # []) []
    = application_object (supports profile_31 OpenPgpWrappedData) [(tag_of 0x4f, [1, 2, 3])]
      ([(tag_of 0xc1, [1, 8, 0, 0, 32, 0])] @ (tag_of 0xc2, 0x12 # [0x2b, 0x81, 4, 0, 0x22]) # []) []"
    by (simp add: supports_31 less_eq_prod_def)
  show "length (application_object True [(tag_of 0x4f, [1, 2, 3])]
      ([(tag_of 0xc1, [1, 8, 0, 0, 32, 0])] @ (tag_of 0xc2, 0x12 # [0x2b, 0x81, 4, 0, 0x22]) # []) []) \<le> 1024 * 1024"
    by (simp add: application_object_def tlv_encode_def tlv_field_def tag_of_def length_prefix_def Tag_to_bytes_def)
qed (simp_all add: plain_fields_def tag_of_def Tag_wf_def tlv_eval PgpSlot_attributes_def attributes_def pgp_algorithms_def)



end
