(* ===== verification/OpenPgp_Applet.thy ===== *)
theory OpenPgp_Applet
  imports OpenPgp_Data
begin

text \<open>
  Operations of the OpenPGP applet, \<open>canokey-openpgp/src/execute.rs\<close>: the commands of every request,
  the factory with its capability, credential and size checks, and the machine that sends the queue
  and interprets the responses. A protected target is sent only after the slot's algorithm was
  observed to match and the required password was accepted.
\<close>

section \<open>Commands\<close>

definition pgp_argument :: Error where
  "pgp_argument = Error_new InvalidArgument"

definition check_password :: "Password \<Rightarrow> bool \<Rightarrow> unit res" where
  "check_password pw admin = (if admin \<and> length pw < 8 then Inl (Error_new InvalidPin) else Inr ())"

definition pgp_command :: "byte \<Rightarrow> byte \<Rightarrow> byte \<Rightarrow> bytes \<Rightarrow> bool \<Rightarrow> bool \<Rightarrow> LogicalCommand" where
  "pgp_command i a b d rd chain =
     (LogicalCommand_new (ApduHeader_new 0 i a b) [] (if rd then Exact 256 else Absent))
       \<lparr>lc_data := d, lc_correct_le := rd, lc_allow_chaining := chain\<rparr>"

definition pgp_empty :: "byte \<Rightarrow> byte \<Rightarrow> byte \<Rightarrow> LogicalCommand" where
  "pgp_empty i a b = (pgp_command i a b [] False False)\<lparr>lc_continuation := NoContinuation\<rparr>"

definition pgp_read :: "16 word \<Rightarrow> LogicalCommand" where
  "pgp_read tag = pgp_command 0xca (ucast (drop_bit 8 tag)) (ucast tag) [] True False"

definition pgp_select :: LogicalCommand where
  "pgp_select = pgp_command 0xa4 4 0 [0xd2, 0x76, 0, 1, 0x24, 1] False False"

definition select_certificate :: "PgpSlot \<Rightarrow> LogicalCommand" where
  "select_certificate slot = pgp_command 0xa5 (occurrence slot) 4 [0x60, 4, 0x5c, 2, 0x7f, 0x21] False False"

fun touch_byte :: "PgpTouchPolicy \<Rightarrow> byte" where
  "touch_byte TouchOff = 0"
| "touch_byte TouchOn = 1"
| "touch_byte TouchPermanent = 2"

definition bounded_value :: "nat \<Rightarrow> 16 word \<Rightarrow> bytes \<Rightarrow> (16 word \<times> bytes) res" where
  "bounded_value n tag v = (if length v > n then Inl pgp_argument else Inr (tag, v))"

fun write_value :: "DataWrite \<Rightarrow> (16 word \<times> bytes) res" where
  "write_value (WriteName v) = bounded_value 39 0x5b v"
| "write_value (WriteLogin v) = bounded_value 63 0x5e v"
| "write_value (WriteLanguage v) = bounded_value 8 0x5f2d v"
| "write_value (WriteSex v) = Inr (0x5f35, [v])"
| "write_value (WriteUrl v) = bounded_value 255 0x5f50 v"
| "write_value (WriteResetCode (Some pw)) = bindE (check_password pw True) (\<lambda>_. Inr (0xd3, pw))"
| "write_value (WriteResetCode None) = Inr (0xd3, [])"
| "write_value (WriteReuseSignaturePin reuse) = Inr (0xc4, [of_bool_byte reuse])"
| "write_value (WriteTouchPolicy slot policy) = Inr (ucast (0xd6 + occurrence slot), [touch_byte policy, 0x20])"
| "write_value (WriteTouchCacheTime seconds) = Inr (0x0102, [seconds])"
| "write_value (WriteAlgorithm slot a) = bindE (attributes slot a) (\<lambda>v. Inr (ucast (PgpSlot_attributes slot), v))"
| "write_value (WriteFingerprint slot bs) = Inr (ucast (0xc7 + occurrence slot), bs)"
| "write_value (WriteCaFingerprint slot bs) = Inr (ucast (0xca + occurrence slot), bs)"
| "write_value (WriteGenerationTime slot time) = Inr (ucast (0xce + occurrence slot), to_be_bytes 4 time)"

definition write_data :: "DataWrite \<Rightarrow> LogicalCommand res" where
  "write_data value =
     bindE (write_value value) (\<lambda>(tag, bs).
       Inr ((pgp_command 0xda (ucast (drop_bit 8 tag)) (ucast tag) bs False False)\<lparr>lc_continuation := NoContinuation\<rparr>))"

fun key_request :: "PgpRequest \<Rightarrow> (PgpSlot \<times> Algorithm option) option" where
  "key_request (ReadPublicKey slot) = Some (slot, None)"
| "key_request (GenerateKey slot) = Some (slot, None)"
| "key_request (ImportKey slot a key) = Some (slot, Some a)"
| "key_request (SignRequest a bs) = Some (SignatureSlot, Some a)"
| "key_request (AuthenticateRequest a bs) = Some (AuthenticationSlot, Some a)"
| "key_request (DecryptRequest a bs) = Some (DecryptionSlot, Some a)"
| "key_request (DeriveRequest a bs) = Some (DecryptionSlot, Some a)"
| "key_request _ = None"

fun pgp_target :: "PgpRequest \<Rightarrow> LogicalCommand option res" where
  "pgp_target (ReadData tag) = Inr (Some (pgp_read tag))"
| "pgp_target (ReadCertificate slot) = Inr (Some (pgp_read 0x7f21))"
| "pgp_target (WriteCertificate slot bs) =
     (if length bs > 1152 then Inl (Error_new LimitExceeded)
      else Inr (Some (pgp_command 0xda 0x7f 0x21 bs False True)))"
| "pgp_target (PinStatus r) = Inr (Some (pgp_empty 0x20 0 (PasswordReference_wire r)))"
| "pgp_target (Logout r) = Inr (Some (pgp_empty 0x20 0xff (PasswordReference_wire r)))"
| "pgp_target Verify = Inr None"
| "pgp_target (ChangePassword reference old new) =
     (if reference = Pw1Other then Inl pgp_argument
      else bindE (check_password old (reference = Pw3)) (\<lambda>_.
           bindE (check_password new (reference = Pw3)) (\<lambda>_.
             Inr (Some (pgp_command 0x24 0 (PasswordReference_wire reference) (old @ new) False False)))))"
| "pgp_target (UnblockWithAdmin new) = Inr (Some (pgp_command 0x2c 2 0x81 new False False))"
| "pgp_target (UnblockWithCode code new) =
     bindE (check_password code True) (\<lambda>_. Inr (Some (pgp_command 0x2c 0 0x81 (code @ new) False False)))"
| "pgp_target (ResetRetries retries) =
     (if list_ex (\<lambda>r. \<not> (1 \<le> r \<and> r \<le> 15)) retries then Inl pgp_argument
      else Inr (Some (pgp_command 0xf2 0 0 retries False False)))"
| "pgp_target (WriteData v) = bindE (write_data v) (\<lambda>c. Inr (Some c))"
| "pgp_target (ReadPublicKey slot) = Inr (Some (pgp_command 0x47 0x81 0 [PgpSlot_wire slot, 0] False False))"
| "pgp_target (GenerateKey slot) = Inr (Some (pgp_command 0x47 0x80 0 [PgpSlot_wire slot, 0] False False))"
| "pgp_target (ImportKey slot a key) =
     bindE (import_template slot a key) (\<lambda>bs. Inr (Some (pgp_command 0xdb 0x3f 0xff bs False True)))"
| "pgp_target (SignRequest a bs) =
     bindE (sign_input a bs) (\<lambda>_. Inr (Some (pgp_command 0x2a 0x9e 0x9a bs False False)))"
| "pgp_target (AuthenticateRequest a bs) =
     bindE (sign_input a bs) (\<lambda>_. Inr (Some (pgp_command 0x88 0 0 bs False False)))"
| "pgp_target (DecryptRequest a bs) =
     bindE (attributes DecryptionSlot a) (\<lambda>_.
       if rsa_len a \<noteq> Some (length bs) then Inl pgp_argument
       else Inr (Some (pgp_command 0x2a 0x80 0x86 (0 # bs) False True)))"
| "pgp_target (DeriveRequest a peer) =
     bindE (derive_input a peer) (\<lambda>d. Inr (Some (pgp_command 0x2a 0x80 0x86 d False True)))"
| "pgp_target Terminate = Inr (Some (pgp_empty 0xe6 0 0))"
| "pgp_target Activate = Inr (Some (pgp_empty 0x44 0 0))"

section \<open>The factory\<close>

datatype PgpStage =
    SelectStage
  | MetadataStage
  | AuthenticateStage PasswordReference
  | AcknowledgeStage
  | TargetStage

record OpenPgp =
  og_queue :: "(LogicalCommand \<times> PgpStage) list"
  og_pending :: "PgpStage option"
  og_request :: PgpRequest
  og_algorithm :: "Algorithm option"
  og_limit :: nat
  og_profile :: DeviceProfile

fun request_capability :: "DeviceProfile \<Rightarrow> PgpRequest \<Rightarrow> unit res" where
  "request_capability p (ResetRetries r) = require p OpenPgpRetryReset"
| "request_capability p (WriteData (WriteTouchPolicy slot policy)) = require p OpenPgpUif"
| "request_capability p (WriteData (WriteTouchCacheTime s)) = require p OpenPgpUif"
| "request_capability p (WriteData (WriteAlgorithm slot a)) =
     CapabilityStatus_require (openpgp_algorithm_support p a False)"
| "request_capability p (ReadData tag) =
     (if 0xd6 \<le> tag \<and> tag \<le> 0xd8 \<or> tag = 0x0102 then require p OpenPgpUif
      else if tag = 0xfa then require p OpenPgpAlgorithmInformation else Inr ())"
| "request_capability p _ = Inr ()"

fun short_digest :: "PgpRequest \<Rightarrow> bool" where
  "short_digest (SignRequest a bs) = (case curve_len a of Some n \<Rightarrow> length bs < n | None \<Rightarrow> False)"
| "short_digest (AuthenticateRequest a bs) = (case curve_len a of Some n \<Rightarrow> length bs < n | None \<Rightarrow> False)"
| "short_digest _ = False"

fun required_reference :: "PgpRequest \<Rightarrow> PasswordReference option" where
  "required_reference (WriteCertificate slot bs) = Some Pw3"
| "required_reference (UnblockWithAdmin new) = Some Pw3"
| "required_reference (ResetRetries r) = Some Pw3"
| "required_reference (WriteData v) = Some Pw3"
| "required_reference (GenerateKey slot) = Some Pw3"
| "required_reference (ImportKey slot a key) = Some Pw3"
| "required_reference (SignRequest a bs) = Some Pw1Sign"
| "required_reference (AuthenticateRequest a bs) = Some Pw1Other"
| "required_reference (DecryptRequest a bs) = Some Pw1Other"
| "required_reference (DeriveRequest a bs) = Some Pw1Other"
| "required_reference _ = None"

fun refuses_access :: "PgpRequest \<Rightarrow> bool" where
  "refuses_access (PinStatus r) = True"
| "refuses_access (Logout r) = True"
| "refuses_access (ChangePassword r old new) = True"
| "refuses_access (UnblockWithCode code new) = True"
| "refuses_access Activate = True"
| "refuses_access _ = False"

definition access_guards :: "PgpRequest \<Rightarrow> PgpAccess option \<Rightarrow> unit res" where
  "access_guards request access =
     (if required_reference request \<noteq> None \<and> map_option pa_reference access \<noteq> required_reference request
      then Inl (Error_new SecurityStatusNotSatisfied)
      else if request = Verify \<and> access = None then Inl pgp_argument
      else if refuses_access request \<and> access \<noteq> None then Inl pgp_argument
      else if request = Terminate \<and> (case access of Some a \<Rightarrow> pa_reference a \<noteq> Pw3 | None \<Rightarrow> False)
      then Inl pgp_argument
      else Inr ())"

definition capability_guards :: "DeviceProfile \<Rightarrow> PgpRequest \<Rightarrow> unit res" where
  "capability_guards p request =
     bindE (require p OpenPgp) (\<lambda>_.
     bindE (request_capability p request) (\<lambda>_.
     bindE (case key_request request of
              Some (_, Some a) \<Rightarrow> CapabilityStatus_require (openpgp_algorithm_support p a False)
            | _ \<Rightarrow> Inr ()) (\<lambda>_.
       whenE (short_digest request) (require p OpenPgpShortDigest))))"

fun certificate_slot :: "PgpRequest \<Rightarrow> PgpSlot option" where
  "certificate_slot (ReadCertificate slot) = Some slot"
| "certificate_slot (WriteCertificate slot bs) = Some slot"
| "certificate_slot _ = None"

definition verify_command :: "PgpAccess \<Rightarrow> LogicalCommand" where
  "verify_command a = pgp_command 0x20 0 (PasswordReference_wire (pa_reference a)) (pa_password a) False False"

definition pgp_queue :: "PgpRequest \<Rightarrow> PgpAccess option \<Rightarrow> LogicalCommand option \<Rightarrow> (LogicalCommand \<times> PgpStage) list" where
  "pgp_queue request access target =
     [(pgp_select, SelectStage)]
     @ (if key_request request \<noteq> None then [(pgp_read 0x6e, MetadataStage)] else [])
     @ (case access of Some a \<Rightarrow> [(verify_command a, AuthenticateStage (pa_reference a))] | None \<Rightarrow> [])
     @ (case certificate_slot request of Some slot \<Rightarrow> [(select_certificate slot, AcknowledgeStage)] | None \<Rightarrow> [])
     @ (case target of Some c \<Rightarrow> [(c, TargetStage)] | None \<Rightarrow> [])"

definition pgp_explicit_le :: "DeviceProfile \<Rightarrow> LogicalCommand \<Rightarrow> LogicalCommand" where
  "pgp_explicit_le p c = (if legacy_explicit_le p \<and> lc_le c = Absent then c\<lparr>lc_le := Exact 256\<rparr> else c)"

fun is_import :: "PgpRequest \<Rightarrow> bool" where
  "is_import (ImportKey slot a key) = True"
| "is_import _ = False"

definition pgp_operation ::
  "DeviceProfile \<Rightarrow> PgpRequest \<Rightarrow> PgpAccess option \<Rightarrow> OperationOptions \<Rightarrow> (OpenPgp, PgpOutcome) Operation res" where
  "pgp_operation p request access opts =
     bindE (capability_guards p request) (\<lambda>_.
     bindE (access_guards request access) (\<lambda>_.
     bindE (pgp_target request) (\<lambda>target.
     bindE (case access of Some a \<Rightarrow> check_password (pa_password a) (pa_reference a = Pw3) | None \<Rightarrow> Inr ()) (\<lambda>_.
       let queue = map (apfst (pgp_explicit_le p)) (pgp_queue request access target) in
       bindE (collectE (\<lambda>c. validate_command (fst c) opts) queue) (\<lambda>_.
         if is_import request \<and> max_command_bytes (exchange opts) < 14 then Inl (Error_new LimitExceeded)
         else Operation_from_machine
           \<lparr>og_queue = queue, og_pending = None, og_request = request, og_algorithm = None,
            og_limit = max_total_response_bytes (limits opts), og_profile = p\<rparr> opts)))))"

section \<open>The machine\<close>

fun stage_reference :: "PgpRequest \<Rightarrow> PgpStage \<Rightarrow> SecretReference option" where
  "stage_reference request (AuthenticateStage r) = Some (PasswordReference_secret r)"
| "stage_reference request TargetStage =
     (case request of
        ChangePassword r old new \<Rightarrow> Some (PasswordReference_secret r)
      | PinStatus r \<Rightarrow> Some (PasswordReference_secret r)
      | UnblockWithCode code new \<Rightarrow> Some SecretReference.ResetCode
      | _ \<Rightarrow> None)"
| "stage_reference request _ = None"

definition public_key_bytes :: "DeviceProfile \<Rightarrow> Algorithm option \<Rightarrow> bytes \<Rightarrow> bytes res" where
  "public_key_bytes p algorithm raw =
     (if algorithm \<in> {Some Ed25519, Some X25519}
         \<and> cs_support (capability p OpenPgpPublicKeyLengthFix) = Unsupported
      then (if length raw \<noteq> 38 \<or> take 5 raw \<noteq> [0x7f, 0x49, 34, 0x86, 32] then Inl pgp_invalid else Inr (take 37 raw))
      else Inr raw)"

definition shared_secret :: "DeviceProfile \<Rightarrow> Algorithm \<Rightarrow> bytes \<Rightarrow> bytes res" where
  "shared_secret p a bs =
     bindE
       (if a \<noteq> X25519 \<and> cs_support (capability p OpenPgpBareAgreement) = Unsupported then
          bindE (ok_or (curve_len a) pgp_invalid) (\<lambda>n.
            if length bs \<noteq> 1 + 2 * n \<or> bs ! 0 \<noteq> 4 then Inl pgp_invalid else Inr (take n (drop 1 bs)))
        else Inr bs) (\<lambda>bs.
       if length bs \<noteq> (case curve_len a of Some n \<Rightarrow> n | None \<Rightarrow> 32) \<or> a = X25519 \<and> list_all (\<lambda>b. b = 0) bs
       then Inl pgp_invalid else Inr bs)"

definition public_key_result :: "OpenPgp \<Rightarrow> bytes \<Rightarrow> PgpOutcome res" where
  "public_key_result m bs =
     bindE (ok_or (og_algorithm m) pgp_invalid) (\<lambda>a.
     bindE (public_key_bytes (og_profile m) (og_algorithm m) bs) (\<lambda>raw.
     bindE (one_field raw 0x7f49) (\<lambda>v.
     bindE (from_tlv a v (og_limit m)) (\<lambda>k. Inr (PgpKey k)))))"

definition signature_result :: "Algorithm \<Rightarrow> bytes \<Rightarrow> PgpOutcome res" where
  "signature_result a bs = (if length bs \<noteq> signature_len a then Inl pgp_invalid else Inr (PgpSignature a bs))"

definition OpenPgp_result :: "OpenPgp \<Rightarrow> ResponseData \<Rightarrow> PgpOutcome res" where
  "OpenPgp_result m r =
     (case og_request m of
        ReadData _ \<Rightarrow> Inr (PgpBytes (rd_data r))
      | ReadCertificate _ \<Rightarrow> Inr (PgpBytes (rd_data r))
      | ReadPublicKey _ \<Rightarrow> public_key_result m (rd_data r)
      | GenerateKey _ \<Rightarrow> public_key_result m (rd_data r)
      | SignRequest a _ \<Rightarrow> signature_result a (rd_data r)
      | AuthenticateRequest a _ \<Rightarrow> signature_result a (rd_data r)
      | DecryptRequest a _ \<Rightarrow>
          bindE (ok_or (rsa_len a) pgp_invalid) (\<lambda>n.
            if length (rd_data r) > n - 11 then Inl pgp_invalid else Inr (PgpBytes (rd_data r)))
      | DeriveRequest a _ \<Rightarrow> bindE (shared_secret (og_profile m) a (rd_data r)) (\<lambda>bs. Inr (PgpBytes bs))
      | _ \<Rightarrow> if rd_data r \<noteq> [] then Inl pgp_invalid else Inr PgpUnit)"

definition pin_observation :: "StatusWord \<Rightarrow> PgpPinStatus option" where
  "pin_observation sw =
     (if sw = 0x9000 then Some \<lparr>ps_verified = True, ps_retries_remaining = None, ps_blocked = False\<rparr>
      else if sw = 0x6983 then Some \<lparr>ps_verified = False, ps_retries_remaining = None, ps_blocked = True\<rparr>
      else if sw AND 0xfff0 = 0x63c0 then
        Some \<lparr>ps_verified = False, ps_retries_remaining = Some (ucast (sw AND 15)), ps_blocked = (sw = 0x63c0)\<rparr>
      else None)"

fun is_pin_status :: "PgpRequest \<Rightarrow> bool" where
  "is_pin_status (PinStatus r) = True"
| "is_pin_status _ = False"

definition pgp_status_error :: "PgpRequest \<Rightarrow> PgpStage \<Rightarrow> StatusWord \<Rightarrow> Error" where
  "pgp_status_error request stage sw =
     (let reference = stage_reference request stage;
          phase = (case stage of
                     SelectStage \<Rightarrow> Phase.Select
                   | AuthenticateStage _ \<Rightarrow> Phase.Authentication
                   | _ \<Rightarrow> if reference \<noteq> None then Phase.Authentication else Phase.Command);
          e = Error_status sw phase reference in
      if reference \<noteq> None \<and> sw = 0x6982 then e\<lparr>e_kind := AuthenticationFailed\<rparr> else e)"

definition OpenPgp_metadata :: "OpenPgp \<Rightarrow> ResponseData \<Rightarrow> Algorithm res" where
  "OpenPgp_metadata m r =
     bindE (ok_or (key_request (og_request m)) pgp_invalid) (\<lambda>(slot, expected).
     bindE (observed_algorithm (rd_data r) slot (og_profile m)) (\<lambda>observed.
       if (case expected of Some a \<Rightarrow> a \<noteq> observed | None \<Rightarrow> False) then Inl (Error_new UnsupportedAlgorithm)
       else bindE (CapabilityStatus_require (openpgp_algorithm_support (og_profile m) observed
                     (case og_request m of GenerateKey _ \<Rightarrow> True | _ \<Rightarrow> False))) (\<lambda>_.
         Inr observed)))"

definition OpenPgp_pop :: "OpenPgp \<Rightarrow> OpenPgp \<times> PgpOutcome Action res" where
  "OpenPgp_pop m =
     (case og_queue m of
        (c, stage) # rest \<Rightarrow> (m\<lparr>og_queue := rest, og_pending := Some stage\<rparr>, Inr (Action.Command c))
      | [] \<Rightarrow> (m, Inr (Action.Done PgpUnit)))"

definition terminated_select :: "PgpRequest \<Rightarrow> PgpStage \<Rightarrow> ResponseData \<Rightarrow> bool" where
  "terminated_select request stage r \<longleftrightarrow>
     stage = SelectStage \<and> request = Activate \<and> rd_status r = 0x6285 \<and> rd_data r = []"

definition OpenPgp_accept :: "OpenPgp \<Rightarrow> PgpStage \<Rightarrow> ResponseData \<Rightarrow> OpenPgp \<times> PgpOutcome Action res" where
  "OpenPgp_accept m stage r =
     (if \<not> StatusWord_is_success (rd_status r) \<and> \<not> terminated_select (og_request m) stage r
      then (m, Inl (pgp_status_error (og_request m) stage (rd_status r)))
      else case stage of
        MetadataStage \<Rightarrow>
          (case OpenPgp_metadata m r of
             Inl e \<Rightarrow> (m, Inl e)
           | Inr a \<Rightarrow> OpenPgp_pop (m\<lparr>og_algorithm := Some a\<rparr>))
      | TargetStage \<Rightarrow> (m, bindE (OpenPgp_result m r) (\<lambda>x. Inr (Action.Done x)))
      | _ \<Rightarrow> if rd_data r \<noteq> [] then (m, Inl pgp_invalid) else OpenPgp_pop m)"

definition OpenPgp_next :: "OpenPgp \<Rightarrow> ResponseData option \<Rightarrow> OpenPgp \<times> PgpOutcome Action res" where
  "OpenPgp_next m resp =
     (case resp of
        None \<Rightarrow> OpenPgp_pop m
      | Some r \<Rightarrow>
          case og_pending m of
            None \<Rightarrow> (m, Inl pgp_invalid)
          | Some stage \<Rightarrow>
              let m = m\<lparr>og_pending := None\<rparr> in
              if stage = TargetStage \<and> is_pin_status (og_request m) then
                (if rd_data r \<noteq> [] then (m, Inl pgp_invalid)
                 else case pin_observation (rd_status r) of
                        Some st \<Rightarrow> (m, Inr (Action.Done (PgpPin st)))
                      | None \<Rightarrow> OpenPgp_accept m stage r)
              else OpenPgp_accept m stage r)"

definition OpenPgp_ops :: "(OpenPgp, PgpOutcome) Machine" where
  "OpenPgp_ops = plain_machine OpenPgp_next"

section \<open>Progress through the queue\<close>

text \<open>What a response must satisfy for the machine to go on to the next command.\<close>

definition algorithm_observed :: "DeviceProfile \<Rightarrow> PgpRequest \<Rightarrow> ResponseData \<Rightarrow> bool" where
  "algorithm_observed p request r \<longleftrightarrow>
     (\<exists>slot expected a. key_request request = Some (slot, expected) \<and> observed_algorithm (rd_data r) slot p = Inr a
        \<and> (expected = None \<or> expected = Some a)
        \<and> cs_support (openpgp_algorithm_support p a (case request of GenerateKey _ \<Rightarrow> True | _ \<Rightarrow> False)) = Supported)"

fun stage_passed :: "DeviceProfile \<Rightarrow> PgpRequest \<Rightarrow> PgpStage \<Rightarrow> ResponseData \<Rightarrow> bool" where
  "stage_passed p request SelectStage r \<longleftrightarrow>
     (rd_status r = 0x9000 \<or> request = Activate \<and> rd_status r = 0x6285) \<and> rd_data r = []"
| "stage_passed p request MetadataStage r \<longleftrightarrow> rd_status r = 0x9000 \<and> algorithm_observed p request r"
| "stage_passed p request TargetStage r \<longleftrightarrow> False"
| "stage_passed p request _ r \<longleftrightarrow> rd_status r = 0x9000 \<and> rd_data r = []"

definition step_passed :: "DeviceProfile \<Rightarrow> PgpRequest \<Rightarrow> LogicalCommand \<times> PgpStage \<Rightarrow> LogicalCommand \<times> ResponseData \<Rightarrow> bool" where
  "step_passed p request x y \<longleftrightarrow> fst y = fst x \<and> stage_passed p request (snd x) (snd y)"

definition pgp_inv :: "DeviceProfile \<Rightarrow> PgpRequest \<Rightarrow> (LogicalCommand \<times> PgpStage) list \<Rightarrow> OpenPgp
    \<Rightarrow> ResponseData option \<Rightarrow> trace \<Rightarrow> bool" where
  "pgp_inv p request q0 m resp tr \<longleftrightarrow> og_request m = request \<and> og_profile m = p
     \<and> (case resp of
          None \<Rightarrow> tr = [] \<and> og_queue m = q0
        | Some r \<Rightarrow> \<exists>passed c stage before. q0 = passed @ (c, stage) # og_queue m \<and> tr = before @ [(c, r)]
            \<and> og_pending m = Some stage \<and> list_all2 (step_passed p request) passed before)"

text \<open>The next action: the next queue entry after all earlier ones passed, or a result.\<close>

definition pgp_action :: "DeviceProfile \<Rightarrow> PgpRequest \<Rightarrow> (LogicalCommand \<times> PgpStage) list \<Rightarrow> OpenPgp \<Rightarrow> trace
    \<Rightarrow> PgpOutcome Action \<Rightarrow> bool" where
  "pgp_action p request q0 m tr a \<longleftrightarrow>
     (case a of
        Action.Command c \<Rightarrow> \<exists>passed stage. q0 = passed @ (c, stage) # og_queue m \<and> og_pending m = Some stage
            \<and> og_request m = request \<and> og_profile m = p \<and> list_all2 (step_passed p request) passed tr
      | Action.Done x \<Rightarrow>
          (list_all2 (step_passed p request) q0 tr \<and> x = PgpUnit)
          \<or> (\<exists>passed c rest before r. q0 = passed @ (c, TargetStage) # rest \<and> tr = before @ [(c, r)]
               \<and> list_all2 (step_passed p request) passed before))"

lemma capability_required [result_simps]: "CapabilityStatus_require s = Inr u \<longleftrightarrow> cs_support s = Supported"
  by (simp add: CapabilityStatus_require_def split: Support.splits)

lemma metadata_observed:
  assumes "OpenPgp_metadata m r = Inr a" "og_request m = request" "og_profile m = p"
  shows "algorithm_observed p request r"
  using assms
  by (auto simp: OpenPgp_metadata_def algorithm_observed_def result_simps split: if_splits option.splits)

lemma pop_action:
  assumes "OpenPgp_pop m = (m', Inr a)" "og_request m = request" "og_profile m = p"
    "q0 = passed @ og_queue m" "list_all2 (step_passed p request) passed tr"
  shows "pgp_action p request q0 m' tr a"
  using assms by (auto simp: OpenPgp_pop_def pgp_action_def split: list.splits)

lemma target_action:
  assumes "q0 = passed @ (c, TargetStage) # rest" "list_all2 (step_passed p request) passed before"
  shows "pgp_action p request q0 m (before @ [(c, r)]) (Action.Done x)"
  unfolding pgp_action_def using assms by (simp only: Action.case) blast

lemma accept_action:
  assumes acc: "OpenPgp_accept m stage r = (m', Inr a)" and m: "og_request m = request" "og_profile m = p"
    and q0: "q0 = passed @ (c, stage) # og_queue m" and before: "list_all2 (step_passed p request) passed before"
  shows "pgp_action p request q0 m' (before @ [(c, r)]) a"
proof -
  have ok: "rd_status r = 0x9000 \<or> terminated_select request stage r"
    using acc m by (auto simp: OpenPgp_accept_def StatusWord_is_success_def split: if_splits)
  have snoc: "list_all2 (step_passed p request) (passed @ [(c, stage)]) (before @ [(c, r)])" if "stage_passed p request stage r"
    using before that by (simp add: list_all2_appendI step_passed_def)
  have "q0 = (passed @ [(c, stage)]) @ og_queue m" using q0 by simp
  note pop = pop_action [OF _ m this snoc]
  show ?thesis
  proof (cases stage)
    case MetadataStage
    then obtain al where "OpenPgp_metadata m r = Inr al" and p': "OpenPgp_pop (m\<lparr>og_algorithm := Some al\<rparr>) = (m', Inr a)"
      using acc by (auto simp: OpenPgp_accept_def split: if_splits sum.splits)
    then have "stage_passed p request stage r"
      using metadata_observed m ok MetadataStage by (auto simp: terminated_select_def)
    then show ?thesis
      by (intro pop_action [OF p']) (use m q0 snoc in auto)
  next
    case TargetStage
    then obtain x where "a = Action.Done x"
      using acc by (auto simp: OpenPgp_accept_def bindE_eq_Inr split: if_splits)
    then show ?thesis using q0 before TargetStage by (simp only: target_action)
  qed (use acc ok m pop in \<open>auto simp: OpenPgp_accept_def terminated_select_def split: if_splits\<close>)
qed

lemma pgp_step:
  assumes inv: "pgp_inv p request q0 m resp tr" and nx: "OpenPgp_next m resp = (m', Inr a)"
  shows "pgp_action p request q0 m' tr a"
proof (cases resp)
  case None
  then show ?thesis
    using inv nx by (auto simp: pgp_inv_def OpenPgp_next_def intro: pop_action [where passed = "[]"])
next
  case (Some r)
  then obtain passed c stage before where i: "og_request m = request" "og_profile m = p"
    "q0 = passed @ (c, stage) # og_queue m" "tr = before @ [(c, r)]" "og_pending m = Some stage"
    "list_all2 (step_passed p request) passed before"
    using inv by (auto simp: pgp_inv_def)
  let ?m = "m\<lparr>og_pending := None\<rparr>"
  show ?thesis
  proof (cases "OpenPgp_accept ?m stage r = (m', Inr a)")
    case True
    show ?thesis unfolding i(4) by (rule accept_action [OF True]) (use i in simp_all)
  next
    case False
    then have "stage = TargetStage \<and> (\<exists>x. a = Action.Done x)"
      using nx Some i(5) by (auto simp: OpenPgp_next_def Let_def split: if_splits option.splits)
    then show ?thesis using target_action [of q0 passed c "og_queue m" p request before m' r] i(3,4,6) by auto
  qed
qed

lemma pgp_run:
  assumes "trace_run OpenPgp_ops m0 m resp tr" "og_request m0 = request" "og_profile m0 = p" "og_queue m0 = q0"
  shows "pgp_inv p request q0 m resp tr"
  using assms(1)
proof (rule machine_run_invariant)
  show "pgp_inv p request q0 m0 None []" using assms by (simp add: pgp_inv_def)
next
  fix m resp tr m' c r tr'
  assume "pgp_inv p request q0 m resp tr" "m_next OpenPgp_ops m resp = (m', Inr (Action.Command c))" "trace_env tr c r tr'"
  then show "pgp_inv p request q0 m' (Some r) tr'"
    using pgp_step [of p request q0 m resp tr m' "Action.Command c"]
    by (auto simp: OpenPgp_ops_def plain_machine_def pgp_action_def pgp_inv_def trace_env_def)
qed

section \<open>The order of the queue\<close>

lemma queue_metadata:
  assumes "pgp_queue request access target = passed @ (c, stage) # rest" "key_request request \<noteq> None"
    "stage \<noteq> SelectStage" "stage \<noteq> MetadataStage"
  shows "(pgp_read 0x6e, MetadataStage) \<in> set passed"
  using assms
  by (cases access; cases "certificate_slot request"; cases target) (auto simp: pgp_queue_def Cons_eq_append_conv)

lemma queue_verify:
  assumes "pgp_queue request (Some a) target = passed @ (c, stage) # rest" "stage = AcknowledgeStage \<or> stage = TargetStage"
  shows "(verify_command a, AuthenticateStage (pa_reference a)) \<in> set passed"
  using assms
  by (cases "key_request request"; cases "certificate_slot request"; cases target) (auto simp: pgp_queue_def Cons_eq_append_conv)

lemma passed_mem:
  assumes "list_all2 (step_passed p request) (map (apfst f) passed) tr" "(c, stage) \<in> set passed"
  shows "\<exists>r. (f c, r) \<in> set tr \<and> stage_passed p request stage r"
  using assms
proof (induction passed arbitrary: tr)
  case (Cons x passed)
  then obtain y ys where tr: "tr = y # ys" "step_passed p request (apfst f x) y"
    "list_all2 (step_passed p request) (map (apfst f) passed) ys"
    by (auto simp: list_all2_Cons1)
  show ?case
  proof (cases "(c, stage) = x")
    case True
    then show ?thesis using tr(1,2) by (cases y) (auto simp: step_passed_def)
  next
    case False
    then show ?thesis using Cons.IH [OF tr(3)] Cons.prems(2) tr(1) by auto
  qed
qed simp

lemma queue_length: "length (pgp_queue request access target) \<le> 5"
  by (simp add: pgp_queue_def split: option.splits)

definition algorithm_confirmed :: "DeviceProfile \<Rightarrow> PgpRequest \<Rightarrow> trace \<Rightarrow> bool" where
  "algorithm_confirmed p request tr \<longleftrightarrow>
     key_request request \<noteq> None
     \<longrightarrow> (\<exists>r. (pgp_explicit_le p (pgp_read 0x6e), r) \<in> set tr \<and> rd_status r = 0x9000 \<and> algorithm_observed p request r)"

definition password_accepted :: "DeviceProfile \<Rightarrow> PgpRequest \<Rightarrow> PgpAccess option \<Rightarrow> trace \<Rightarrow> bool" where
  "password_accepted p request access tr \<longleftrightarrow>
     (\<forall>ref. required_reference request = Some ref \<longrightarrow>
       (\<exists>a r. access = Some a \<and> pa_reference a = ref \<and> (pgp_explicit_le p (verify_command a), r) \<in> set tr
          \<and> rd_status r = 0x9000))"

text \<open>The command at a position of the queue, and what must have happened before it.\<close>

definition pgp_commands :: "DeviceProfile \<Rightarrow> PgpRequest \<Rightarrow> PgpAccess option \<Rightarrow> (LogicalCommand \<times> PgpStage) list" where
  "pgp_commands p request access =
     map (apfst (pgp_explicit_le p)) (pgp_queue request access (case pgp_target request of Inr t \<Rightarrow> t | Inl _ \<Rightarrow> None))"

lemma collectE_mem: "collectE f xs = Inr ys \<Longrightarrow> x \<in> set xs \<Longrightarrow> \<exists>y. f x = Inr y"
  by (induction xs arbitrary: ys) (auto simp: bindE_eq_Inr)

lemma pgp_operation_Inr:
  assumes "pgp_operation p request access opts = Inr op" "op_machine op = Some m0"
  shows "og_request m0 = request" "og_profile m0 = p" "og_queue m0 = pgp_commands p request access"
    "access_guards request access = Inr ()" "\<forall>x \<in> set (pgp_commands p request access). validate_command (fst x) opts = Inr ()"
proof -
  obtain target us where
    g: "access_guards request access = Inr ()" and t: "pgp_target request = Inr target"
    and v: "collectE (\<lambda>c. validate_command (fst c) opts) (map (apfst (pgp_explicit_le p)) (pgp_queue request access target)) = Inr us"
    and m0: "m0 = \<lparr>og_queue = map (apfst (pgp_explicit_le p)) (pgp_queue request access target), og_pending = None,
        og_request = request, og_algorithm = None, og_limit = max_total_response_bytes (limits opts), og_profile = p\<rparr>"
    using assms
    by (auto simp: pgp_operation_def Operation_from_machine_def bindE_eq_Inr Let_def split: if_splits)
  show "og_request m0 = request" "og_profile m0 = p" "og_queue m0 = pgp_commands p request access"
    "access_guards request access = Inr ()"
    using g t m0 by (simp_all add: pgp_commands_def)
  show "\<forall>x \<in> set (pgp_commands p request access). validate_command (fst x) opts = Inr ()"
    using collectE_mem [OF v] t by (auto simp: pgp_commands_def)
qed

lemma guarded_access:
  assumes "access_guards request access = Inr ()" "required_reference request = Some ref"
  shows "\<exists>a. access = Some a \<and> pa_reference a = ref"
  using assms by (cases access) (auto simp: access_guards_def split: if_splits)

section \<open>Properties\<close>

text \<open>C36: OpenPGP operations act only after what they need was established. Every command was
accepted for the channel by the factory and is sent in the order of the queue; no password is sent
before the card confirmed the algorithm the request relies on, and no protected command, nor the
selection of the certificate it concerns, before the card accepted the password of exactly the
required reference.\<close>

theorem openpgp_guarded_order:
  assumes "pgp_operation p request access opts = Inr op" "op_machine op = Some m0"
    and "trace_run OpenPgp_ops m0 m resp tr" "m_next OpenPgp_ops m resp = (m', Inr (Action.Command c))"
  shows "\<exists>stage. length tr < length (pgp_commands p request access) \<and> pgp_commands p request access ! length tr = (c, stage)
    \<and> length (pgp_commands p request access) \<le> 5 \<and> validate_command c opts = Inr ()
    \<and> (case stage of
         SelectStage \<Rightarrow> tr = []
       | MetadataStage \<Rightarrow> key_request request \<noteq> None
       | AuthenticateStage ref \<Rightarrow> algorithm_confirmed p request tr
       | _ \<Rightarrow> algorithm_confirmed p request tr \<and> password_accepted p request access tr)"
proof -
  let ?q = "pgp_queue request access (case pgp_target request of Inr t \<Rightarrow> t | Inl _ \<Rightarrow> None)"
  note op = pgp_operation_Inr [OF assms(1,2)]
  have "pgp_action p request (pgp_commands p request access) m' tr (Action.Command c)"
    by (rule pgp_step [OF pgp_run [OF assms(3) op(1-3)]]) (use assms(4) in \<open>simp add: OpenPgp_ops_def plain_machine_def\<close>)
  then obtain passed stage rest where q: "pgp_commands p request access = passed @ (c, stage) # rest"
    and tr: "list_all2 (step_passed p request) passed tr"
    by (auto simp: pgp_action_def)
  have len: "length tr = length passed" using tr by (simp add: list_all2_lengthD)
  obtain passed' c' rest' where q': "?q = passed' @ (c', stage) # rest'" "passed = map (apfst (pgp_explicit_le p)) passed'"
    using q by (auto simp: pgp_commands_def map_eq_append_conv map_eq_Cons_conv)
  note mem = passed_mem [OF tr [unfolded q'(2)]]
  have alg: "algorithm_confirmed p request tr" if "stage \<noteq> SelectStage" "stage \<noteq> MetadataStage"
    using queue_metadata [OF q'(1) _ that] mem [of "pgp_read 0x6e" MetadataStage] by (auto simp: algorithm_confirmed_def)
  have pw: "password_accepted p request access tr" if st: "stage = AcknowledgeStage \<or> stage = TargetStage"
    unfolding password_accepted_def
  proof (intro allI impI)
    fix ref
    assume ref: "required_reference request = Some ref"
    then obtain a where a: "access = Some a" "pa_reference a = ref" using guarded_access [OF op(4)] by blast
    have "(verify_command a, AuthenticateStage (pa_reference a)) \<in> set passed'"
      using queue_verify [OF q'(1) [unfolded a(1)] st] .
    then show "\<exists>a r. access = Some a \<and> pa_reference a = ref \<and> (pgp_explicit_le p (verify_command a), r) \<in> set tr
          \<and> rd_status r = 0x9000"
      using mem a by fastforce
  qed
  have sel: "tr = []" if "stage = SelectStage"
    using q'(1) that len q'(2)
    by (cases passed') (auto simp: pgp_queue_def Cons_eq_append_conv append_eq_Cons_conv split: option.splits if_splits)
  have meta: "key_request request \<noteq> None" if "stage = MetadataStage"
    using arg_cong [OF q'(1), of set] that by (auto simp: pgp_queue_def split: option.splits if_splits)
  have "length (pgp_commands p request access) \<le> 5" using queue_length by (simp add: pgp_commands_def)
  moreover have "validate_command c opts = Inr ()" using op(5) q by auto
  ultimately show ?thesis
    using q len alg pw sel meta by (intro exI [of _ stage]) (auto simp: nth_append split: PgpStage.splits)
qed

text \<open>A signature request of an Ed25519 key, up to the point where the data to sign is sent.\<close>

definition pgp_sign_access :: PgpAccess where
  "pgp_sign_access = \<lparr>pa_reference = Pw1Sign, pa_password = [0x31, 0x32, 0x33, 0x34, 0x35, 0x36]\<rparr>"

definition pgp_sign_request :: PgpRequest where
  "pgp_sign_request = SignRequest Ed25519 [7]"

definition pgp_sample_object :: bytes where
  "pgp_sample_object = [0x6e, 14, 0x73, 12, 0xc1, 10, 0x16, 0x2b, 6, 1, 4, 1, 0xda, 0x47, 15, 1]"

lemma pgp_sample_observed: "observed_algorithm pgp_sample_object SignatureSlot profile_31 = Inr Ed25519"
proof -
  have s: "supports profile_31 OpenPgp" "supports profile_31 OpenPgpWrappedData"
    by (simp_all add: supports_31 less_eq_prod_def)
  then have r: "require profile_31 OpenPgp = Inr ()" by (simp only: require_eq_Inr)
  show ?thesis
    by (simp add: observed_algorithm_def ApplicationData_parse_with_profile_def data_object_contents_def r s data_framing_def
        one_field_def pgp_sample_object_def application_data_def pgp_fields_def pgp_limits_def tlv_loop.simps
        TlvReader_new_ber_def tlv_eval unique_field_def ApplicationData_algorithm_attributes_def PgpSlot_attributes_def
        attributes_match_def attributes_def pgp_algorithms_def)
qed

lemma supported_31: "cs_support (openpgp_algorithm_support profile_31 Ed25519 b) = Supported"
  by (simp add: openpgp_algorithm_support_def range_31 less_eq_prod_def)

lemma pgp_sample_operation:
  "\<exists>op m0. pgp_operation profile_31 pgp_sign_request (Some pgp_sign_access) OperationOptions_default = Inr op
     \<and> op_machine op = Some m0
     \<and> m0 = \<lparr>og_queue = pgp_commands profile_31 pgp_sign_request (Some pgp_sign_access), og_pending = None,
         og_request = pgp_sign_request, og_algorithm = None,
         og_limit = max_total_response_bytes (limits OperationOptions_default), og_profile = profile_31\<rparr>"
proof -
  let ?target = "pgp_command 0x2a 0x9e 0x9a [7] False False"
  have t: "pgp_target pgp_sign_request = Inr (Some ?target)"
    by (simp add: pgp_sign_request_def sign_input_def attributes_def pgp_algorithms_def)
  have v: "validate_command c OperationOptions_default = Inr ()" if "c \<in> {pgp_select, verify_command pgp_sign_access, ?target}" for c
    using that
    by (intro validate_default)
       (auto simp: pgp_select_def verify_command_def pgp_sign_access_def pgp_command_def LogicalCommand_new_def
         short_command_def le_fits_def)
  have rd: "validate_command (pgp_read 0x6e) OperationOptions_default = Inr ()"
    by (simp add: validate_command_def ConversationState_new_def pgp_read_def pgp_command_def LogicalCommand_new_def
        ApduHeader_new_def channel_le_def extended_frames_def short_frames_def CommandApdu_encode_def header_bytes_def
        lc_field_def max_short_def OperationOptions_default_def ExchangeOptions_default_def
        OperationLimits_default_def Let_def OperationOptions_validate_def)
  have "supports profile_31 OpenPgp" by (simp add: supports_31 less_eq_prod_def)
  then have req: "require profile_31 OpenPgp = Inr ()" by (simp only: require_eq_Inr)
  have g: "capability_guards profile_31 pgp_sign_request = Inr ()"
    "access_guards pgp_sign_request (Some pgp_sign_access) = Inr ()"
    by (simp_all add: capability_guards_def pgp_sign_request_def access_guards_def pgp_sign_access_def req
        CapabilityStatus_require_def supported_31)
  show ?thesis
    using g t v rd
    by (simp add: pgp_operation_def Let_def pgp_queue_def pgp_commands_def pgp_explicit_le_def Operation_from_machine_def
        check_password_def pgp_sign_access_def pgp_sign_request_def)
qed

theorem openpgp_guarded_order_witness:
  "\<exists>op m0 m resp tr m' c. pgp_operation profile_31 pgp_sign_request (Some pgp_sign_access) OperationOptions_default = Inr op
     \<and> op_machine op = Some m0 \<and> trace_run OpenPgp_ops m0 m resp tr
     \<and> m_next OpenPgp_ops m resp = (m', Inr (Action.Command c))
     \<and> c = pgp_command 0x2a 0x9e 0x9a [7] False False
     \<and> algorithm_confirmed profile_31 pgp_sign_request tr
     \<and> password_accepted profile_31 pgp_sign_request (Some pgp_sign_access) tr"
proof -
  let ?ok = "\<lparr>rd_data = [], rd_status = 0x9000\<rparr> :: ResponseData"
  let ?obj = "\<lparr>rd_data = pgp_sample_object, rd_status = 0x9000\<rparr> :: ResponseData"
  let ?c = "pgp_command 0x2a 0x9e 0x9a [7] False False"
  obtain op m0 where op: "pgp_operation profile_31 pgp_sign_request (Some pgp_sign_access) OperationOptions_default = Inr op"
    "op_machine op = Some m0"
    and m0: "m0 = \<lparr>og_queue = pgp_commands profile_31 pgp_sign_request (Some pgp_sign_access), og_pending = None,
         og_request = pgp_sign_request, og_algorithm = None,
         og_limit = max_total_response_bytes (limits OperationOptions_default), og_profile = profile_31\<rparr>"
    using pgp_sample_operation by blast
  have q: "pgp_commands profile_31 pgp_sign_request (Some pgp_sign_access) =
      [(pgp_select, SelectStage), (pgp_read 0x6e, MetadataStage), (verify_command pgp_sign_access, AuthenticateStage Pw1Sign),
       (?c, TargetStage)]"
    by (simp add: pgp_commands_def pgp_queue_def pgp_sign_request_def pgp_sign_access_def sign_input_def attributes_def
        pgp_algorithms_def pgp_explicit_le_def)
  have meta: "OpenPgp_metadata m ?obj = Inr Ed25519" if "og_request m = pgp_sign_request" "og_profile m = profile_31" for m
    using that
    by (simp add: OpenPgp_metadata_def pgp_sign_request_def pgp_sample_observed CapabilityStatus_require_def supported_31)
  obtain m resp tr where rep: "replay OpenPgp_ops m0 None [?ok, ?obj, ?ok] [] = (m, resp, tr)"
    by (metis prod_cases3)
  have run: "trace_run OpenPgp_ops m0 m resp tr" using rep by (rule replay_from_start)
  have m: "\<exists>m'. m_next OpenPgp_ops m resp = (m', Inr (Action.Command ?c)) \<and> length tr = 3"
    using rep
    by (auto simp: m0 q OpenPgp_ops_def plain_machine_def OpenPgp_next_def OpenPgp_pop_def OpenPgp_accept_def meta
        StatusWord_is_success_def Let_def)
  then obtain m' where nx: "m_next OpenPgp_ops m resp = (m', Inr (Action.Command ?c))" "length tr = 3" by blast
  have "algorithm_confirmed profile_31 pgp_sign_request tr
     \<and> password_accepted profile_31 pgp_sign_request (Some pgp_sign_access) tr"
    using openpgp_guarded_order [OF op run nx(1)] nx(2) by (auto simp: q eval_nat_numeral)
  with op run nx show ?thesis by blast
qed

end
