(* ===== verification/Ctap_Core.thy ===== *)
theory Ctap_Core
  imports Cose Applet
begin

text \<open>
  The CTAP client below its commands: status codes and their classification
  (\<open>canokey-ctap/src/status.rs\<close>) and the transport envelope (\<open>lib.rs\<close>), a SELECT followed by one
  wrapped message whose response starts with a status byte. Every CTAP operation of one message is an
  instance of \<open>select_then\<close>; the locale \<open>one_message\<close> states what the operations of such a factory
  promise, and the theories of the commands interpret it.
\<close>

unbundle bit_operations_syntax

section \<open>Status codes\<close>

type_synonym CtapStatus = byte

datatype CtapErrorCode =
    Ctap1ErrSuccess | Ctap1ErrInvalidCommand | Ctap1ErrInvalidParameter
  | Ctap1ErrInvalidLength | Ctap1ErrInvalidSeq | Ctap1ErrTimeout
  | Ctap1ErrChannelBusy | Ctap1ErrLockRequired | Ctap1ErrInvalidChannel
  | Ctap2ErrCborUnexpectedType | Ctap2ErrInvalidCbor | Ctap2ErrMissingParameter
  | Ctap2ErrLimitExceeded | Ctap2ErrFpDatabaseFull | Ctap2ErrLargeBlobStorageFull
  | Ctap2ErrCredentialExcluded | Ctap2ErrProcessing | Ctap2ErrInvalidCredential
  | Ctap2ErrUserActionPending | Ctap2ErrOperationPending | Ctap2ErrNoOperations
  | Ctap2ErrUnsupportedAlgorithm | Ctap2ErrOperationDenied | Ctap2ErrKeyStoreFull
  | Ctap2ErrUnsupportedOption | Ctap2ErrInvalidOption | Ctap2ErrKeepaliveCancel
  | Ctap2ErrNoCredentials | Ctap2ErrUserActionTimeout | Ctap2ErrNotAllowed
  | Ctap2ErrPinInvalid | Ctap2ErrPinBlocked | Ctap2ErrPinAuthInvalid
  | Ctap2ErrPinAuthBlocked | Ctap2ErrPinNotSet | Ctap2ErrPuatRequired
  | Ctap2ErrPinPolicyViolation | Ctap2ErrReserved | Ctap2ErrRequestTooLarge
  | Ctap2ErrActionTimeout | Ctap2ErrUpRequired | Ctap2ErrUvBlocked
  | Ctap2ErrIntegrityFailure | Ctap2ErrInvalidSubcommand | Ctap2ErrUvInvalid
  | Ctap2ErrUnauthorizedPermission | Ctap1ErrOther
  | Extension byte | Vendor byte

definition EXTENSION_FIRST :: byte where "EXTENSION_FIRST = 0xe0"
definition EXTENSION_LAST :: byte where "EXTENSION_LAST = 0xef"
definition VENDOR_FIRST :: byte where "VENDOR_FIRST = 0xf0"
definition VENDOR_LAST :: byte where "VENDOR_LAST = 0xff"

text \<open>The arms of \<open>from_byte\<close> for single bytes; the two ranges follow.\<close>

definition ctap_codes :: "(byte \<times> CtapErrorCode) list" where
  "ctap_codes =
     [(0x00, Ctap1ErrSuccess), (0x01, Ctap1ErrInvalidCommand), (0x02, Ctap1ErrInvalidParameter),
      (0x03, Ctap1ErrInvalidLength), (0x04, Ctap1ErrInvalidSeq), (0x05, Ctap1ErrTimeout),
      (0x06, Ctap1ErrChannelBusy), (0x0a, Ctap1ErrLockRequired), (0x0b, Ctap1ErrInvalidChannel),
      (0x11, Ctap2ErrCborUnexpectedType), (0x12, Ctap2ErrInvalidCbor), (0x14, Ctap2ErrMissingParameter),
      (0x15, Ctap2ErrLimitExceeded), (0x17, Ctap2ErrFpDatabaseFull), (0x18, Ctap2ErrLargeBlobStorageFull),
      (0x19, Ctap2ErrCredentialExcluded), (0x21, Ctap2ErrProcessing), (0x22, Ctap2ErrInvalidCredential),
      (0x23, Ctap2ErrUserActionPending), (0x24, Ctap2ErrOperationPending), (0x25, Ctap2ErrNoOperations),
      (0x26, Ctap2ErrUnsupportedAlgorithm), (0x27, Ctap2ErrOperationDenied), (0x28, Ctap2ErrKeyStoreFull),
      (0x2b, Ctap2ErrUnsupportedOption), (0x2c, Ctap2ErrInvalidOption), (0x2d, Ctap2ErrKeepaliveCancel),
      (0x2e, Ctap2ErrNoCredentials), (0x2f, Ctap2ErrUserActionTimeout), (0x30, Ctap2ErrNotAllowed),
      (0x31, Ctap2ErrPinInvalid), (0x32, Ctap2ErrPinBlocked), (0x33, Ctap2ErrPinAuthInvalid),
      (0x34, Ctap2ErrPinAuthBlocked), (0x35, Ctap2ErrPinNotSet), (0x36, Ctap2ErrPuatRequired),
      (0x37, Ctap2ErrPinPolicyViolation), (0x38, Ctap2ErrReserved), (0x39, Ctap2ErrRequestTooLarge),
      (0x3a, Ctap2ErrActionTimeout), (0x3b, Ctap2ErrUpRequired), (0x3c, Ctap2ErrUvBlocked),
      (0x3d, Ctap2ErrIntegrityFailure), (0x3e, Ctap2ErrInvalidSubcommand), (0x3f, Ctap2ErrUvInvalid),
      (0x40, Ctap2ErrUnauthorizedPermission), (0x7f, Ctap1ErrOther)]"

definition CtapErrorCode_from_byte :: "byte \<Rightarrow> CtapErrorCode option" where
  "CtapErrorCode_from_byte b =
     (case map_of ctap_codes b of
        Some c \<Rightarrow> Some c
      | None \<Rightarrow>
          if EXTENSION_FIRST \<le> b \<and> b \<le> EXTENSION_LAST then Some (Extension (b AND 0x0f))
          else if VENDOR_FIRST \<le> b \<and> b \<le> VENDOR_LAST then Some (Vendor (b AND 0x0f))
          else None)"

fun CtapErrorCode_byte :: "CtapErrorCode \<Rightarrow> byte" where
  "CtapErrorCode_byte Ctap1ErrSuccess = 0x00"
| "CtapErrorCode_byte Ctap1ErrInvalidCommand = 0x01"
| "CtapErrorCode_byte Ctap1ErrInvalidParameter = 0x02"
| "CtapErrorCode_byte Ctap1ErrInvalidLength = 0x03"
| "CtapErrorCode_byte Ctap1ErrInvalidSeq = 0x04"
| "CtapErrorCode_byte Ctap1ErrTimeout = 0x05"
| "CtapErrorCode_byte Ctap1ErrChannelBusy = 0x06"
| "CtapErrorCode_byte Ctap1ErrLockRequired = 0x0a"
| "CtapErrorCode_byte Ctap1ErrInvalidChannel = 0x0b"
| "CtapErrorCode_byte Ctap2ErrCborUnexpectedType = 0x11"
| "CtapErrorCode_byte Ctap2ErrInvalidCbor = 0x12"
| "CtapErrorCode_byte Ctap2ErrMissingParameter = 0x14"
| "CtapErrorCode_byte Ctap2ErrLimitExceeded = 0x15"
| "CtapErrorCode_byte Ctap2ErrFpDatabaseFull = 0x17"
| "CtapErrorCode_byte Ctap2ErrLargeBlobStorageFull = 0x18"
| "CtapErrorCode_byte Ctap2ErrCredentialExcluded = 0x19"
| "CtapErrorCode_byte Ctap2ErrProcessing = 0x21"
| "CtapErrorCode_byte Ctap2ErrInvalidCredential = 0x22"
| "CtapErrorCode_byte Ctap2ErrUserActionPending = 0x23"
| "CtapErrorCode_byte Ctap2ErrOperationPending = 0x24"
| "CtapErrorCode_byte Ctap2ErrNoOperations = 0x25"
| "CtapErrorCode_byte Ctap2ErrUnsupportedAlgorithm = 0x26"
| "CtapErrorCode_byte Ctap2ErrOperationDenied = 0x27"
| "CtapErrorCode_byte Ctap2ErrKeyStoreFull = 0x28"
| "CtapErrorCode_byte Ctap2ErrUnsupportedOption = 0x2b"
| "CtapErrorCode_byte Ctap2ErrInvalidOption = 0x2c"
| "CtapErrorCode_byte Ctap2ErrKeepaliveCancel = 0x2d"
| "CtapErrorCode_byte Ctap2ErrNoCredentials = 0x2e"
| "CtapErrorCode_byte Ctap2ErrUserActionTimeout = 0x2f"
| "CtapErrorCode_byte Ctap2ErrNotAllowed = 0x30"
| "CtapErrorCode_byte Ctap2ErrPinInvalid = 0x31"
| "CtapErrorCode_byte Ctap2ErrPinBlocked = 0x32"
| "CtapErrorCode_byte Ctap2ErrPinAuthInvalid = 0x33"
| "CtapErrorCode_byte Ctap2ErrPinAuthBlocked = 0x34"
| "CtapErrorCode_byte Ctap2ErrPinNotSet = 0x35"
| "CtapErrorCode_byte Ctap2ErrPuatRequired = 0x36"
| "CtapErrorCode_byte Ctap2ErrPinPolicyViolation = 0x37"
| "CtapErrorCode_byte Ctap2ErrReserved = 0x38"
| "CtapErrorCode_byte Ctap2ErrRequestTooLarge = 0x39"
| "CtapErrorCode_byte Ctap2ErrActionTimeout = 0x3a"
| "CtapErrorCode_byte Ctap2ErrUpRequired = 0x3b"
| "CtapErrorCode_byte Ctap2ErrUvBlocked = 0x3c"
| "CtapErrorCode_byte Ctap2ErrIntegrityFailure = 0x3d"
| "CtapErrorCode_byte Ctap2ErrInvalidSubcommand = 0x3e"
| "CtapErrorCode_byte Ctap2ErrUvInvalid = 0x3f"
| "CtapErrorCode_byte Ctap2ErrUnauthorizedPermission = 0x40"
| "CtapErrorCode_byte Ctap1ErrOther = 0x7f"
| "CtapErrorCode_byte (Extension low) = EXTENSION_FIRST OR (low AND 0x0f)"
| "CtapErrorCode_byte (Vendor low) = VENDOR_FIRST OR (low AND 0x0f)"

definition CtapStatus_is_success :: "CtapStatus \<Rightarrow> bool" where
  "CtapStatus_is_success s \<longleftrightarrow> s = 0"

definition CtapStatus_code :: "CtapStatus \<Rightarrow> CtapErrorCode option" where
  "CtapStatus_code s = CtapErrorCode_from_byte s"

definition ctap_error_kind :: "byte \<Rightarrow> ErrorKind" where
  "ctap_error_kind b =
     (if b \<in> {0x31, 0x37} then InvalidPin
      else if b \<in> {0x32, 0x34} then PinBlocked
      else if b = 0x33 then AuthenticationFailed
      else if b \<in> {0x35, 0x36} then SecurityStatusNotSatisfied
      else if b \<in> {0x2e, 0x22} then NotFound
      else if b \<in> {0x19, 0x27, 0x2d, 0x2f, 0x30, 0x3b} then ConditionsNotSatisfied
      else if b = 0x26 then UnsupportedAlgorithm
      else if b \<in> {0x2b, 0x2c} then UnsupportedFeature
      else if b \<in> {0x15, 0x18, 0x28, 0x39} then LimitExceeded
      else if b \<in> {0x11, 0x12, 0x14} then ProtocolViolation
      else UnexpectedStatusWord)"

definition CtapStatus_into_error :: "CtapStatus \<Rightarrow> Phase \<Rightarrow> Error option" where
  "CtapStatus_into_error s ph =
     (if CtapStatus_is_success s then None
      else Some ((Error_at (Error_new (ctap_error_kind s)) ph)\<lparr>e_application_status := Some s\<rparr>))"

section \<open>The envelope\<close>

definition FIDO2_AID :: bytes where
  "FIDO2_AID = [0xa0, 0, 0, 6, 0x47, 0x2f, 0, 1]"

record CtapResponse =
  cr_status :: CtapStatus
  cr_payload :: bytes

definition ctap_select :: LogicalCommand where
  "ctap_select = LogicalCommand_new (ApduHeader_new 0 0xa4 4 0) FIDO2_AID Absent"

definition ctap_msg :: "bytes \<Rightarrow> LogicalCommand" where
  "ctap_msg message =
     (LogicalCommand_new (ApduHeader_new 0x80 0x10 0 0) message Absent)
       \<lparr>lc_allow_chaining := True, lc_allow_extended := True, lc_continuation := Iso7816 0x80\<rparr>"

record CtapRequest =
  ct_command :: LogicalCommand
  ct_phase :: Phase

record 't CtapSequence =
  cq_pending :: "CtapRequest list"
  cq_current :: "Phase option"
  cq_parse :: "(ResponseData \<Rightarrow> 't res) option"

definition CtapSequence_pop :: "'t CtapSequence \<Rightarrow> 't CtapSequence \<times> 't Action res" where
  "CtapSequence_pop s =
     (case cq_pending s of
        [] \<Rightarrow> (s, Inl (Error_new ProtocolViolation))
      | r # rest \<Rightarrow> (s\<lparr>cq_pending := rest, cq_current := Some (ct_phase r)\<rparr>, Inr (Action.Command (ct_command r))))"

definition CtapSequence_next :: "'t CtapSequence \<Rightarrow> ResponseData option \<Rightarrow> 't CtapSequence \<times> 't Action res" where
  "CtapSequence_next s response =
     (case response of
        None \<Rightarrow> CtapSequence_pop s
      | Some r \<Rightarrow>
          if cq_pending s = [] then
            (s\<lparr>cq_parse := None\<rparr>,
             bindE (ok_or (cq_parse s) (Error_new OperationStateError)) (\<lambda>pf.
               bindE (pf r) (\<lambda>t. Inr (Action.Done t))))
          else
            (case cq_current s of
               None \<Rightarrow> (s, Inl (Error_new ProtocolViolation))
             | Some phase \<Rightarrow>
                 if \<not> StatusWord_is_success (rd_status r) then (s, Inl (Error_status (rd_status r) phase None))
                 else CtapSequence_pop s))"

definition CtapSequence_ops :: "('t CtapSequence, 't) Machine" where
  "CtapSequence_ops = plain_machine CtapSequence_next"

definition ctap_single ::
  "LogicalCommand \<Rightarrow> Phase \<Rightarrow> OperationOptions \<Rightarrow> (ResponseData \<Rightarrow> 't res) \<Rightarrow> ('t CtapSequence, 't) Operation res"
where
  "ctap_single c ph opts pf =
     bindE (OperationOptions_validate opts) (\<lambda>opts.
     bindE (validate_command c opts) (\<lambda>_.
       Operation_from_machine
         \<lparr>cq_pending = [\<lparr>ct_command = c, ct_phase = ph\<rparr>], cq_current = None, cq_parse = Some pf\<rparr> opts))"

definition checked_message :: "bytes \<Rightarrow> OperationOptions \<Rightarrow> unit res" where
  "checked_message message opts =
     (if message = [] then Inl (Error_new InvalidArgument)
      else if length message > max_input_bytes (limits opts) then Inl (Error_new LimitExceeded)
      else Inr ())"

definition parse_response :: "ResponseData \<Rightarrow> CtapResponse res" where
  "parse_response r =
     bindE (ResponseData_ensure_success r Phase.Command) (\<lambda>_.
       case rd_data r of
         [] \<Rightarrow> Inl (Error_at (Error_new InvalidResponse) Phase.Parsing)
       | status # payload \<Rightarrow> Inr \<lparr>cr_status = status, cr_payload = payload\<rparr>)"

text \<open>\<open>invalid()\<close> is the error \<open>cbor_invalid\<close> of the CBOR parser.\<close>

definition required :: "Value option \<Rightarrow> Value res" where
  "required v = ok_or v cbor_invalid"

definition typed :: "CtapResponse \<Rightarrow> (bytes \<Rightarrow> 't res) \<Rightarrow> 't res" where
  "typed response pf =
     (case CtapStatus_into_error (cr_status response) Phase.Command of
        Some e \<Rightarrow> Inl e
      | None \<Rightarrow> pf (cr_payload response))"

definition empty_payload :: "bytes \<Rightarrow> unit res" where
  "empty_payload bs = (if bs = [] then Inr () else Inl cbor_invalid)"

definition ctap_select_application :: "OperationOptions \<Rightarrow> (unit CtapSequence, unit) Operation res" where
  "ctap_select_application opts =
     ctap_single ctap_select Phase.Select opts (\<lambda>r. ResponseData_ensure_success r Phase.Select)"

definition transceive_selected :: "bytes \<Rightarrow> OperationOptions \<Rightarrow> (CtapResponse CtapSequence, CtapResponse) Operation res" where
  "transceive_selected message opts =
     bindE (checked_message message opts) (\<lambda>_. ctap_single (ctap_msg message) Phase.Command opts parse_response)"

definition select_then ::
  "bytes \<Rightarrow> OperationOptions \<Rightarrow> (CtapResponse \<Rightarrow> 't res) \<Rightarrow> ('t CtapSequence, 't) Operation res" where
  "select_then message opts pf =
     bindE (OperationOptions_validate opts) (\<lambda>opts.
     bindE (checked_message message opts) (\<lambda>_.
       let requests = [\<lparr>ct_command = ctap_select, ct_phase = Phase.Select\<rparr>,
                       \<lparr>ct_command = ctap_msg message, ct_phase = Phase.Command\<rparr>] in
       bindE (collectE (\<lambda>r. validate_command (ct_command r) opts) requests) (\<lambda>_.
         Operation_from_machine
           \<lparr>cq_pending = requests, cq_current = None,
            cq_parse = Some (\<lambda>r. bindE (parse_response r) pf)\<rparr> opts)))"

definition transceive :: "bytes \<Rightarrow> OperationOptions \<Rightarrow> (CtapResponse CtapSequence, CtapResponse) Operation res" where
  "transceive message opts = select_then message opts Inr"

section \<open>Status codes are read and written alike\<close>

lemma unat_low: "unat ((b :: byte) AND 0x0f) = unat b mod 16"
proof -
  have "b AND 0x0f = take_bit 4 b" by (simp add: take_bit_eq_mask mask_eq_exp_minus_1)
  then show ?thesis by (simp only: unsigned_take_bit_eq) (simp add: take_bit_eq_mod)
qed

lemma unat_high:
  assumes "h AND 0x0f = (0 :: byte)"
  shows "unat (h OR (low AND 0x0f)) = (unat h + unat low mod 16) mod 256"
proof -
  have "h AND (low AND 0x0f) = low AND (h AND 0x0f)" by (rule and.left_commute)
  then have "h AND (low AND 0x0f) = 0" using assms by simp
  then have "h OR (low AND 0x0f) = h + (low AND 0x0f)" by (rule disjunctive_add_eq_or [symmetric])
  then show ?thesis by (simp only: unat_word_ariths unat_low) simp
qed

lemma same_block: "16 * q \<le> n \<Longrightarrow> n < 16 * q + 16 \<Longrightarrow> 16 * q + n mod 16 = (n :: nat)"
  by (auto simp: le_iff_add)

lemma high_mod:
  "224 \<le> n \<Longrightarrow> n \<le> 239 \<Longrightarrow> 224 + n mod 16 = (n :: nat)" "240 \<le> n \<Longrightarrow> n < 256 \<Longrightarrow> 240 + n mod 16 = n"
  "n < 16 \<Longrightarrow> (224 + n) mod 16 = n" "n < 16 \<Longrightarrow> (240 + n) mod 16 = n"
  using same_block [of 14 n] same_block [of 15 n] mod_mult_self2 [of n 16 14] mod_mult_self2 [of n 16 15]
  by (simp_all add: add.commute)

fun ascending :: "nat list \<Rightarrow> bool" where
  "ascending (x # y # zs) \<longleftrightarrow> x < y \<and> ascending (y # zs)"
| "ascending _ \<longleftrightarrow> True"

lemma ascending_distinct: "ascending xs \<Longrightarrow> distinct xs \<and> (\<forall>x \<in> set xs. hd xs \<le> x)"
  by (induction xs rule: ascending.induct) fastforce+

lemma ctap_codes_facts:
  "list_all (\<lambda>(k, c). k < 0x80 \<and> CtapErrorCode_byte c = k) ctap_codes" "distinct (map fst ctap_codes)"
proof -
  show "list_all (\<lambda>(k, c). k < 0x80 \<and> CtapErrorCode_byte c = k) ctap_codes" by (simp add: ctap_codes_def)
  have "ascending (map unat (map fst ctap_codes))" by (simp add: ctap_codes_def)
  then show "distinct (map fst ctap_codes)" using ascending_distinct distinct_map by blast
qed

lemma not_in_codes: "0x80 \<le> b \<Longrightarrow> map_of ctap_codes b = None"
  using ctap_codes_facts(1) by (fastforce simp: map_of_eq_None_iff list_all_iff)

lemmas code_ranges = EXTENSION_FIRST_def EXTENSION_LAST_def VENDOR_FIRST_def VENDOR_LAST_def word_le_nat_alt

lemma code_byte_inverse:
  assumes "CtapErrorCode_from_byte b = Some c"
  shows "CtapErrorCode_byte c = b"
proof (cases "map_of ctap_codes b")
  case (Some d)
  then have "(b, d) \<in> set ctap_codes" "c = d"
    using assms map_of_SomeD by (fastforce simp: CtapErrorCode_from_byte_def)+
  then show ?thesis using ctap_codes_facts(1) by (auto simp: list_all_iff)
next
  case None
  then consider "0xe0 \<le> unat b" "unat b \<le> 0xef" "c = Extension (b AND 0x0f)" | "0xf0 \<le> unat b" "c = Vendor (b AND 0x0f)"
    using assms by (auto simp: CtapErrorCode_from_byte_def code_ranges split: if_splits)
  then show ?thesis
  proof cases
    case 1
    then show ?thesis using unat_high [where h = "0xe0" and low = b] by (simp add: EXTENSION_FIRST_def word_unat_eq_iff high_mod)
  next
    case 2
    then show ?thesis using unat_high [where h = "0xf0" and low = b] byte_less_256 [of b] by (simp add: VENDOR_FIRST_def word_unat_eq_iff high_mod)
  qed
qed

lemma byte_code_inverse:
  assumes "\<And>low. c = Extension low \<or> c = Vendor low \<Longrightarrow> low < 16"
  shows "CtapErrorCode_from_byte (CtapErrorCode_byte c) = Some c"
proof -
  consider low where "c = Extension low" "unat low < 16" | low where "c = Vendor low" "unat low < 16"
    | "\<forall>low. c \<noteq> Extension low \<and> c \<noteq> Vendor low"
    using assms by (force simp: word_less_nat_alt)
  then show ?thesis
  proof cases
    case (1 low)
    have u: "unat (0xe0 OR (low AND 0x0f)) = 0xe0 + unat low" using unat_high [where h = "0xe0" and low = low] 1 by simp
    then have "map_of ctap_codes (0xe0 OR (low AND 0x0f)) = None" "(0xe0 OR (low AND 0x0f)) AND 0x0f = low"
      using 1(2) by (auto simp: word_le_nat_alt word_unat_eq_iff unat_low high_mod intro!: not_in_codes)
    then show ?thesis using 1 u by (simp add: CtapErrorCode_from_byte_def code_ranges)
  next
    case (2 low)
    have u: "unat (0xf0 OR (low AND 0x0f)) = 0xf0 + unat low" using unat_high [where h = "0xf0" and low = low] 2 by simp
    then have "map_of ctap_codes (0xf0 OR (low AND 0x0f)) = None" "(0xf0 OR (low AND 0x0f)) AND 0x0f = low"
      using 2(2) by (auto simp: word_le_nat_alt word_unat_eq_iff unat_low high_mod intro!: not_in_codes)
    then show ?thesis using 2 u by (simp add: CtapErrorCode_from_byte_def code_ranges)
  next
    case 3
    then have "(CtapErrorCode_byte c, c) \<in> set ctap_codes" by (cases c) (simp_all add: ctap_codes_def)
    then show ?thesis using ctap_codes_facts(2) by (simp add: CtapErrorCode_from_byte_def)
  qed
qed

section \<open>One message in one selection\<close>

text \<open>What has happened in a run of a \<open>select_then\<close> operation, and what it does next.\<close>

inductive ctap_at :: "bytes \<Rightarrow> (ResponseData \<Rightarrow> 't res) \<Rightarrow> 't CtapSequence \<Rightarrow> ResponseData option \<Rightarrow> trace \<Rightarrow> bool"
  for message pf where
  at_start: "ctap_at message pf \<lparr>cq_pending = [\<lparr>ct_command = ctap_select, ct_phase = Phase.Select\<rparr>,
      \<lparr>ct_command = ctap_msg message, ct_phase = Phase.Command\<rparr>], cq_current = None, cq_parse = Some pf\<rparr> None []"
| at_select: "ctap_at message pf \<lparr>cq_pending = [\<lparr>ct_command = ctap_msg message, ct_phase = Phase.Command\<rparr>],
      cq_current = Some Phase.Select, cq_parse = Some pf\<rparr> (Some r) [(ctap_select, r)]"
| at_message: "rd_status r1 = 0x9000 \<Longrightarrow> ctap_at message pf \<lparr>cq_pending = [], cq_current = Some Phase.Command,
      cq_parse = Some pf\<rparr> (Some r) [(ctap_select, r1), (ctap_msg message, r)]"

definition ctap_action :: "bytes \<Rightarrow> (ResponseData \<Rightarrow> 't res) \<Rightarrow> trace \<Rightarrow> 't Action \<Rightarrow> bool" where
  "ctap_action message pf tr a \<longleftrightarrow>
     (case a of
        Action.Command c \<Rightarrow> tr = [] \<and> c = ctap_select
          \<or> (\<exists>r. tr = [(ctap_select, r)] \<and> rd_status r = 0x9000 \<and> c = ctap_msg message)
      | Action.Done t \<Rightarrow> \<exists>r1 r. tr = [(ctap_select, r1), (ctap_msg message, r)] \<and> rd_status r1 = 0x9000 \<and> pf r = Inr t)"

lemma ctap_step:
  assumes "ctap_at message pf m resp tr" "CtapSequence_next m resp = (m', Inr a)"
  shows "ctap_action message pf tr a \<and> (case a of Action.Command c \<Rightarrow> \<forall>r. ctap_at message pf m' (Some r) (tr @ [(c, r)])
    | Action.Done _ \<Rightarrow> True)"
  using assms(1)
proof cases
  case at_start
  then show ?thesis using assms(2)
    by (auto simp: CtapSequence_next_def CtapSequence_pop_def ctap_action_def intro: ctap_at.at_select)
next
  case (at_select r)
  then show ?thesis using assms(2)
    by (auto simp: CtapSequence_next_def CtapSequence_pop_def ctap_action_def StatusWord_is_success_def
        intro: ctap_at.at_message split: if_splits)
next
  case (at_message r1 r)
  then show ?thesis using assms(2)
    by (auto simp: CtapSequence_next_def ctap_action_def bindE_eq_Inr)
qed

lemma select_then_machine:
  assumes "select_then message opts pf = Inr op" "op_machine op = Some m0"
  shows "ctap_at message (\<lambda>r. bindE (parse_response r) pf) m0 None []"
    "validate_command ctap_select opts = Inr ()" "validate_command (ctap_msg message) opts = Inr ()" "message \<noteq> []"
  using assms
  by (auto simp: select_then_def Operation_from_machine_def bindE_eq_Inr Let_def OperationOptions_validate_def
      checked_message_def intro: ctap_at.at_start split: if_splits)

lemma select_then_run:
  assumes "select_then message opts pf = Inr op" "op_machine op = Some m0"
    and "trace_run CtapSequence_ops m0 m resp tr" "m_next CtapSequence_ops m resp = (m', Inr a)"
  shows "ctap_action message (\<lambda>r. bindE (parse_response r) pf) tr a"
proof -
  let ?pf = "\<lambda>r. bindE (parse_response r) pf"
  have "ctap_at message ?pf m resp tr"
    using assms(3)
  proof (rule machine_run_invariant)
    show "ctap_at message ?pf m0 None []" using select_then_machine [OF assms(1,2)] by simp
  next
    fix m resp tr m' c r tr'
    assume "ctap_at message ?pf m resp tr" "m_next CtapSequence_ops m resp = (m', Inr (Action.Command c))"
      "trace_env tr c r tr'"
    then show "ctap_at message ?pf m' (Some r) tr'"
      using ctap_step [of message ?pf m resp tr m' "Action.Command c"]
      by (auto simp: CtapSequence_ops_def plain_machine_def trace_env_def)
  qed
  from ctap_step [OF this, of m' a] assms(4) show ?thesis by (simp add: CtapSequence_ops_def plain_machine_def)
qed

text \<open>
  The contract of a factory that sends one message and reads the payload of a successful answer:
  \<open>message a\<close> is what it sends for the arguments \<open>a\<close>, \<open>reader a\<close> how it reads the payload.
\<close>

definition exchanged_once :: "bytes \<Rightarrow> (bytes \<Rightarrow> 't res) \<Rightarrow> OperationOptions \<Rightarrow> trace \<Rightarrow> 't Action \<Rightarrow> bool" where
  "exchanged_once message reader opts tr a \<longleftrightarrow>
     (case a of
        Action.Command c \<Rightarrow> validate_command c opts = Inr () \<and>
          (tr = [] \<and> c = ctap_select \<or> (\<exists>r. tr = [(ctap_select, r)] \<and> rd_status r = 0x9000 \<and> c = ctap_msg message))
      | Action.Done t \<Rightarrow> \<exists>r1 r payload. tr = [(ctap_select, r1), (ctap_msg message, r)] \<and> rd_status r1 = 0x9000
            \<and> rd_status r = 0x9000 \<and> rd_data r = 0 # payload \<and> reader payload = Inr t)"

lemma typed_response:
  "bindE (parse_response r) (\<lambda>x. typed x reader) = Inr t
     \<longleftrightarrow> rd_status r = 0x9000 \<and> (\<exists>payload. rd_data r = 0 # payload \<and> reader payload = Inr t)"
  by (cases "rd_data r")
     (auto simp: typed_def CtapStatus_into_error_def CtapStatus_is_success_def parse_response_def
       ResponseData_ensure_success_def StatusWord_is_success_def)

locale one_message =
  fixes make :: "'a \<Rightarrow> OperationOptions \<Rightarrow> ('t CtapSequence, 't) Operation res"
    and message :: "'a \<Rightarrow> bytes res"
    and reader :: "'a \<Rightarrow> bytes \<Rightarrow> 't res"
  assumes factory: "make a opts = bindE (message a) (\<lambda>msg. select_then msg opts (\<lambda>r. typed r (reader a)))"
begin

lemma exchange:
  assumes "make a opts = Inr op" "op_machine op = Some m0"
    and "trace_run CtapSequence_ops m0 m resp tr" "m_next CtapSequence_ops m resp = (m', Inr act)"
  shows "\<exists>msg. message a = Inr msg \<and> exchanged_once msg (reader a) opts tr act"
proof -
  obtain msg where msg: "message a = Inr msg" "select_then msg opts (\<lambda>r. typed r (reader a)) = Inr op"
    using assms(1) by (auto simp: factory bindE_eq_Inr)
  note v = select_then_machine [OF msg(2) assms(2)]
  have "ctap_action msg (\<lambda>r. bindE (parse_response r) (\<lambda>r. typed r (reader a))) tr act"
    by (rule select_then_run [OF msg(2) assms(2-4)])
  then have "exchanged_once msg (reader a) opts tr act"
    using v
    by (cases act) (auto simp: ctap_action_def exchanged_once_def typed_response)
  with msg show ?thesis by blast
qed

lemma refused:
  assumes "message a = Inl e"
  shows "make a opts = Inl e"
  using assms by (simp add: factory)

end

section \<open>Concrete runs\<close>

lemma ctap_commands_default:
  "validate_command ctap_select OperationOptions_default = Inr ()"
  "message \<noteq> [] \<Longrightarrow> length message \<le> 255 \<Longrightarrow> validate_command (ctap_msg message) OperationOptions_default = Inr ()"
proof -
  show "validate_command ctap_select OperationOptions_default = Inr ()"
    by (rule validate_default) (simp_all add: ctap_select_def LogicalCommand_new_def short_command_def FIDO2_AID_def le_fits_def)
  show "validate_command (ctap_msg message) OperationOptions_default = Inr ()" if "message \<noteq> []" "length message \<le> 255"
    using that valid_default by (auto simp: validate_command_def ctap_msg_def conversation_eval)
qed

lemma select_then_default:
  assumes "message \<noteq> []" "length message \<le> 255"
  shows "\<exists>op m0 m resp m'. select_then message OperationOptions_default pf = Inr op \<and> op_machine op = Some m0
    \<and> trace_run CtapSequence_ops m0 m resp [(ctap_select, \<lparr>rd_data = [], rd_status = 0x9000\<rparr>)]
    \<and> m_next CtapSequence_ops m resp = (m', Inr (Action.Command (ctap_msg message)))"
proof -
  let ?ok = "\<lparr>rd_data = [], rd_status = 0x9000\<rparr> :: ResponseData"
  have "length message \<le> max_input_bytes (limits OperationOptions_default)"
    using assms(2) by (simp add: OperationOptions_default_def OperationLimits_default_def)
  then have "checked_message message OperationOptions_default = Inr ()" using assms(1) by (simp add: checked_message_def)
  then obtain op m0 where op: "select_then message OperationOptions_default pf = Inr op" "op_machine op = Some m0"
    and m0: "m0 = \<lparr>cq_pending = [\<lparr>ct_command = ctap_select, ct_phase = Phase.Select\<rparr>,
      \<lparr>ct_command = ctap_msg message, ct_phase = Phase.Command\<rparr>], cq_current = None,
      cq_parse = Some (\<lambda>r. bindE (parse_response r) pf)\<rparr>"
    using ctap_commands_default(1) ctap_commands_default(2) [OF assms]
    by (simp add: select_then_def Operation_from_machine_def)
  let ?m = "m0\<lparr>cq_pending := tl (cq_pending m0), cq_current := Some Phase.Select\<rparr>"
  have "replay CtapSequence_ops m0 None [?ok] [] = (?m, Some ?ok, [(ctap_select, ?ok)])"
    by (simp add: CtapSequence_ops_def plain_machine_def CtapSequence_next_def CtapSequence_pop_def m0)
  then have "trace_run CtapSequence_ops m0 ?m (Some ?ok) [(ctap_select, ?ok)]" by (rule replay_from_start)
  moreover have "\<exists>m'. m_next CtapSequence_ops ?m (Some ?ok) = (m', Inr (Action.Command (ctap_msg message)))"
    by (simp add: CtapSequence_ops_def plain_machine_def CtapSequence_next_def CtapSequence_pop_def StatusWord_is_success_def m0)
  ultimately show ?thesis using op by blast
qed

end
