(* ===== verification/Ctap_Pin.thy ===== *)
theory Ctap_Pin
  imports Ctap_Core
begin

text \<open>
  The ClientPIN protocols (\<open>canokey-ctap/src/pin.rs\<close>) and the hmac-secret salt exchange
  (\<open>hmacsecret.rs\<close>), with the protocol versions of \<open>ctap2.rs\<close> they share. SHA-256, HMAC, HKDF,
  AES-256-CBC and the P-256 operations belong to packages outside the repository: they are the fields
  of the record \<open>CtapCrypto\<close>, an argument of every definition that uses them.
\<close>

section \<open>Protocols and cryptography\<close>

text \<open>The constructible values of \<open>PinUvAuthProtocol\<close> are the two versions.\<close>

datatype PinUvAuthProtocol = V1 | V2

definition PinUvAuthProtocol_from_u8 :: "byte \<Rightarrow> PinUvAuthProtocol option" where
  "PinUvAuthProtocol_from_u8 b = (if b = 1 then Some V1 else if b = 2 then Some V2 else None)"

fun PinUvAuthProtocol_to_u8 :: "PinUvAuthProtocol \<Rightarrow> byte" where
  "PinUvAuthProtocol_to_u8 V1 = 1"
| "PinUvAuthProtocol_to_u8 V2 = 2"

record PinUvAuth =
  pu_protocol :: PinUvAuthProtocol
  pu_param :: bytes

definition ctap_argument :: Error where
  "ctap_argument = Error_new InvalidArgument"

definition PinUvAuth_new :: "PinUvAuthProtocol \<Rightarrow> bytes \<Rightarrow> PinUvAuth res" where
  "PinUvAuth_new protocol param =
     (if length param \<noteq> 16 \<and> length param \<noteq> 32 then Inl ctap_argument
      else Inr \<lparr>pu_protocol = protocol, pu_param = param\<rparr>)"

text \<open>
  Encryption and decryption without padding (\<open>None\<close> is the error of a bad length); a P-256 secret is
  accepted or not, has a public point, and agrees with an encoded peer point.
\<close>

record CtapCrypto =
  cc_sha256 :: "bytes \<Rightarrow> bytes"
  cc_hmac_sha256 :: "bytes \<Rightarrow> bytes \<Rightarrow> bytes"
  cc_hkdf_sha256 :: "bytes \<Rightarrow> bytes \<Rightarrow> bytes \<Rightarrow> bytes"
  cc_cbc_encrypt :: "bytes \<Rightarrow> bytes \<Rightarrow> bytes \<Rightarrow> bytes option"
  cc_cbc_decrypt :: "bytes \<Rightarrow> bytes \<Rightarrow> bytes \<Rightarrow> bytes option"
  cc_p256_secret :: "bytes \<Rightarrow> bool"
  cc_p256_public :: "bytes \<Rightarrow> bytes \<times> bytes"
  cc_p256_point :: "bytes \<Rightarrow> bool"
  cc_p256_ecdh :: "bytes \<Rightarrow> bytes \<Rightarrow> bytes"

type_synonym Permissions = byte

record PinRetries =
  pr_pin_retries :: "32 word"
  pr_power_cycle_state :: "bool option"

record PinSession =
  pn_protocol :: PinUvAuthProtocol
  pn_key_agreement :: CoseKey
  pn_shared_secret :: bytes

type_synonym PinToken = bytes

section \<open>Primitives\<close>

definition utf8_chars :: "bytes \<Rightarrow> nat" where
  "utf8_chars bs = length (filter (\<lambda>b. \<not> is_cont b) bs)"

definition MAX_PIN_BYTES :: nat where "MAX_PIN_BYTES = 63"
definition MIN_PIN_CODE_POINTS :: nat where "MIN_PIN_CODE_POINTS = 4"
definition PADDED_PIN_LEN :: nat where "PADDED_PIN_LEN = 64"

definition validate_pin :: "bytes \<Rightarrow> unit res" where
  "validate_pin pin =
     (if \<not> utf8_valid pin then Inl (Error_new InvalidPin)
      else if length pin > MAX_PIN_BYTES \<or> utf8_chars pin < MIN_PIN_CODE_POINTS then Inl (Error_new InvalidPin)
      else Inr ())"

definition check_iv :: "PinUvAuthProtocol \<Rightarrow> bytes option \<Rightarrow> unit res" where
  "check_iv protocol iv = (if (protocol = V2) \<noteq> (iv \<noteq> None) then Inl ctap_argument else Inr ())"

definition pad_pin :: "bytes \<Rightarrow> bytes" where
  "pad_pin pin = pin @ replicate (PADDED_PIN_LEN - length pin) 0"

definition pin_hash :: "CtapCrypto \<Rightarrow> bytes \<Rightarrow> bytes" where
  "pin_hash C pin = take 16 (cc_sha256 C pin)"

definition ascii :: "string \<Rightarrow> bytes" where
  "ascii s = map of_char s"

definition HKDF_SALT :: bytes where "HKDF_SALT = replicate 32 0"
definition HKDF_INFO_HMAC :: bytes where "HKDF_INFO_HMAC = ascii ''CTAP2 HMAC key''"
definition HKDF_INFO_AES :: bytes where "HKDF_INFO_AES = ascii ''CTAP2 AES key''"

definition derive_shared_secret :: "CtapCrypto \<Rightarrow> PinUvAuthProtocol \<Rightarrow> bytes \<Rightarrow> bytes" where
  "derive_shared_secret C protocol x =
     (if protocol = V1 then cc_sha256 C x
      else cc_hkdf_sha256 C HKDF_SALT x HKDF_INFO_HMAC @ cc_hkdf_sha256 C HKDF_SALT x HKDF_INFO_AES)"

definition pin_authenticate :: "CtapCrypto \<Rightarrow> PinUvAuthProtocol \<Rightarrow> bytes \<Rightarrow> bytes \<Rightarrow> bytes" where
  "pin_authenticate C protocol key message =
     (let key = (if protocol = V2 \<and> length key > 32 then take 32 key else key);
          tag = cc_hmac_sha256 C key message in
      if protocol = V1 then take 16 tag else tag)"

definition PinToken_authenticate :: "CtapCrypto \<Rightarrow> PinToken \<Rightarrow> PinUvAuthProtocol \<Rightarrow> bytes \<Rightarrow> bytes" where
  "PinToken_authenticate C token protocol message = pin_authenticate C protocol token message"

definition pin_encrypt :: "CtapCrypto \<Rightarrow> PinUvAuthProtocol \<Rightarrow> bytes \<Rightarrow> bytes option \<Rightarrow> bytes \<Rightarrow> bytes res" where
  "pin_encrypt C protocol secret iv plaintext =
     bindE (if protocol = V1
            then bindE (ok_or (get_range secret 0 32) ctap_argument) (\<lambda>key. Inr (key, replicate 16 0))
            else bindE (ok_or (get_range secret 32 64) ctap_argument) (\<lambda>key.
                 bindE (ok_or iv ctap_argument) (\<lambda>iv. Inr (key, iv)))) (\<lambda>(key, iv).
     bindE (ok_or (cc_cbc_encrypt C key iv plaintext) ctap_argument) (\<lambda>out.
       Inr (if protocol = V1 then out else iv @ out)))"

definition pin_decrypt :: "CtapCrypto \<Rightarrow> PinUvAuthProtocol \<Rightarrow> bytes \<Rightarrow> bytes \<Rightarrow> bytes res" where
  "pin_decrypt C protocol secret ciphertext =
     bindE (if protocol = V1
            then (if ciphertext = [] \<or> length ciphertext mod 16 \<noteq> 0 then Inl cbor_invalid
                  else bindE (ok_or (get_range secret 0 32) cbor_invalid) (\<lambda>key.
                       Inr (key, replicate 16 0, ciphertext)))
            else (if length ciphertext < 32 \<or> (length ciphertext - 16) mod 16 \<noteq> 0 then Inl cbor_invalid
                  else bindE (ok_or (get_range secret 32 64) cbor_invalid) (\<lambda>key.
                       Inr (key, take 16 ciphertext, drop 16 ciphertext)))) (\<lambda>(key, iv, blocks).
       ok_or (cc_cbc_decrypt C key iv blocks) cbor_invalid)"

section \<open>ClientPIN operations\<close>

definition uint_value :: "64 word \<Rightarrow> Value" where
  "uint_value n = Unsigned n"

definition client_pin_message :: "(Value \<times> Value) list \<Rightarrow> bytes res" where
  "client_pin_message entries = bindE (encode (Map entries)) (\<lambda>bs. Inr (0x06 # bs))"

definition protocol_entry :: "PinUvAuthProtocol \<Rightarrow> Value \<times> Value" where
  "protocol_entry protocol = (uint_value 1, uint_value (ucast (PinUvAuthProtocol_to_u8 protocol)))"

definition subcommand_entry :: "byte \<Rightarrow> Value \<times> Value" where
  "subcommand_entry sub = (uint_value 2, uint_value (ucast sub))"

definition platform_key :: "CtapCrypto \<Rightarrow> bytes \<Rightarrow> CoseKey res" where
  "platform_key C scalar =
     (if \<not> cc_p256_secret C scalar then Inl ctap_argument
      else case cc_p256_public C scalar of (x, y) \<Rightarrow>
        if length x \<noteq> 32 \<or> length y \<noteq> 32 then Inl ctap_argument else Inr (P256 EcdhEsHkdf256 x y))"

definition parse_key_agreement :: "CtapCrypto \<Rightarrow> PinUvAuthProtocol \<Rightarrow> bytes \<Rightarrow> CoseKey \<Rightarrow> bytes \<Rightarrow> PinSession res" where
  "parse_key_agreement C protocol scalar platform bs =
     bindE (parse bs) (\<lambda>v.
     bindE (required (map_get_int v 1)) (\<lambda>k.
     bindE (CoseKey_from_value k) (\<lambda>peer.
       case peer of
         P256 a x y \<Rightarrow>
           if a \<noteq> EcdhEsHkdf256 then Inl cbor_invalid
           else
             (let sec1 = 4 # x @ y in
              if \<not> cc_p256_point C sec1 then Inl cbor_invalid
              else Inr \<lparr>pn_protocol = protocol, pn_key_agreement = platform,
                        pn_shared_secret = derive_shared_secret C protocol (cc_p256_ecdh C scalar sec1)\<rparr>)
       | _ \<Rightarrow> Inl cbor_invalid)))"

definition get_key_agreement ::
  "CtapCrypto \<Rightarrow> PinUvAuthProtocol \<Rightarrow> bytes \<Rightarrow> OperationOptions \<Rightarrow> (PinSession CtapSequence, PinSession) Operation res" where
  "get_key_agreement C protocol scalar opts =
     bindE (platform_key C scalar) (\<lambda>platform.
     bindE (client_pin_message [protocol_entry protocol, subcommand_entry 0x02]) (\<lambda>message.
       select_then message opts (\<lambda>r. typed r (parse_key_agreement C protocol scalar platform))))"

definition parse_pin_retries :: "bytes \<Rightarrow> PinRetries res" where
  "parse_pin_retries bs =
     bindE (parse bs) (\<lambda>v.
     bindE (required (map_get_int v 3)) (\<lambda>n.
     bindE (ok_or (as_uint n) cbor_invalid) (\<lambda>n.
       if unat n \<ge> 2 ^ 32 then Inl cbor_invalid
       else bindE (case map_get_int v 4 of
                     None \<Rightarrow> Inr None
                   | Some b \<Rightarrow> bindE (ok_or (as_bool b) cbor_invalid) (\<lambda>b. Inr (Some b))) (\<lambda>state.
         Inr \<lparr>pr_pin_retries = ucast n, pr_power_cycle_state = state\<rparr>))))"

definition get_pin_retries ::
  "PinUvAuthProtocol \<Rightarrow> OperationOptions \<Rightarrow> (PinRetries CtapSequence, PinRetries) Operation res" where
  "get_pin_retries protocol opts =
     bindE (client_pin_message [protocol_entry protocol, subcommand_entry 0x01]) (\<lambda>message.
       select_then message opts (\<lambda>r. typed r parse_pin_retries))"

definition set_pin_message :: "CtapCrypto \<Rightarrow> PinSession \<Rightarrow> bytes \<Rightarrow> bytes option \<Rightarrow> bytes res" where
  "set_pin_message C session new_pin iv =
     bindE (validate_pin new_pin) (\<lambda>_.
     bindE (check_iv (pn_protocol session) iv) (\<lambda>_.
     bindE (pin_encrypt C (pn_protocol session) (pn_shared_secret session) iv (pad_pin new_pin)) (\<lambda>new_pin_enc.
       client_pin_message
         [protocol_entry (pn_protocol session), subcommand_entry 0x03,
          (uint_value 3, CoseKey_to_value (pn_key_agreement session)),
          (uint_value 4, Bytes (pin_authenticate C (pn_protocol session) (pn_shared_secret session) new_pin_enc)),
          (uint_value 5, Bytes new_pin_enc)])))"

definition set_pin ::
  "CtapCrypto \<Rightarrow> PinSession \<Rightarrow> bytes \<Rightarrow> bytes option \<Rightarrow> OperationOptions \<Rightarrow> (unit CtapSequence, unit) Operation res" where
  "set_pin C session new_pin iv opts =
     bindE (set_pin_message C session new_pin iv) (\<lambda>message.
       select_then message opts (\<lambda>r. typed r empty_payload))"

definition change_pin_message :: "CtapCrypto \<Rightarrow> PinSession \<Rightarrow> bytes \<Rightarrow> bytes \<Rightarrow> bytes option \<Rightarrow> bytes res" where
  "change_pin_message C session old_pin new_pin iv =
     bindE (validate_pin old_pin) (\<lambda>_.
     bindE (validate_pin new_pin) (\<lambda>_.
     bindE (check_iv (pn_protocol session) iv) (\<lambda>_.
     bindE (pin_encrypt C (pn_protocol session) (pn_shared_secret session) iv (pin_hash C old_pin)) (\<lambda>pin_hash_enc.
     bindE (pin_encrypt C (pn_protocol session) (pn_shared_secret session) iv (pad_pin new_pin)) (\<lambda>new_pin_enc.
       client_pin_message
         [protocol_entry (pn_protocol session), subcommand_entry 0x04,
          (uint_value 3, CoseKey_to_value (pn_key_agreement session)),
          (uint_value 4, Bytes (pin_authenticate C (pn_protocol session) (pn_shared_secret session)
             (new_pin_enc @ pin_hash_enc))),
          (uint_value 5, Bytes new_pin_enc), (uint_value 6, Bytes pin_hash_enc)])))))"

definition ctap_change_pin ::
  "CtapCrypto \<Rightarrow> PinSession \<Rightarrow> bytes \<Rightarrow> bytes \<Rightarrow> bytes option \<Rightarrow> OperationOptions \<Rightarrow> (unit CtapSequence, unit) Operation res"
where
  "ctap_change_pin C session old_pin new_pin iv opts =
     bindE (change_pin_message C session old_pin new_pin iv) (\<lambda>message.
       select_then message opts (\<lambda>r. typed r empty_payload))"

definition pin_token_entries :: "PinSession \<Rightarrow> byte \<Rightarrow> bytes \<Rightarrow> (Value \<times> Value) list \<Rightarrow> (Value \<times> Value) list" where
  "pin_token_entries session sub pin_hash_enc extra =
     [protocol_entry (pn_protocol session), subcommand_entry sub,
      (uint_value 3, CoseKey_to_value (pn_key_agreement session)), (uint_value 6, Bytes pin_hash_enc)] @ extra"

definition parse_pin_token :: "CtapCrypto \<Rightarrow> PinSession \<Rightarrow> bytes \<Rightarrow> PinToken res" where
  "parse_pin_token C session bs =
     bindE (parse bs) (\<lambda>v.
     bindE (required (map_get_int v 2)) (\<lambda>t.
     bindE (ok_or (as_bytes t) cbor_invalid) (\<lambda>encrypted.
       pin_decrypt C (pn_protocol session) (pn_shared_secret session) encrypted)))"

definition pin_token_operation ::
  "CtapCrypto \<Rightarrow> PinSession \<Rightarrow> bytes \<Rightarrow> OperationOptions \<Rightarrow> (PinToken CtapSequence, PinToken) Operation res" where
  "pin_token_operation C session message opts = select_then message opts (\<lambda>r. typed r (parse_pin_token C session))"

definition pin_token_message ::
  "CtapCrypto \<Rightarrow> PinSession \<Rightarrow> bytes \<Rightarrow> bytes option \<Rightarrow> byte \<Rightarrow> (Value \<times> Value) list \<Rightarrow> bytes res" where
  "pin_token_message C session pin iv sub extra =
     bindE (pin_encrypt C (pn_protocol session) (pn_shared_secret session) iv (pin_hash C pin)) (\<lambda>pin_hash_enc.
       client_pin_message (pin_token_entries session sub pin_hash_enc extra))"

definition get_pin_token ::
  "CtapCrypto \<Rightarrow> PinSession \<Rightarrow> bytes \<Rightarrow> bytes option \<Rightarrow> OperationOptions \<Rightarrow> (PinToken CtapSequence, PinToken) Operation res"
where
  "get_pin_token C session pin iv opts =
     bindE (validate_pin pin) (\<lambda>_.
     bindE (check_iv (pn_protocol session) iv) (\<lambda>_.
     bindE (pin_token_message C session pin iv 0x05 []) (\<lambda>message.
       pin_token_operation C session message opts)))"

definition permission_entries :: "Permissions \<Rightarrow> bytes option \<Rightarrow> (Value \<times> Value) list" where
  "permission_entries permissions rp_id =
     (uint_value 9, uint_value (ucast permissions))
     # (case rp_id of Some t \<Rightarrow> [(uint_value 10, Text t)] | None \<Rightarrow> [])"

definition get_pin_token_with_permissions ::
  "CtapCrypto \<Rightarrow> PinSession \<Rightarrow> bytes \<Rightarrow> Permissions \<Rightarrow> bytes option \<Rightarrow> bytes option \<Rightarrow> OperationOptions
   \<Rightarrow> (PinToken CtapSequence, PinToken) Operation res" where
  "get_pin_token_with_permissions C session pin permissions rp_id iv opts =
     bindE (validate_pin pin) (\<lambda>_.
     bindE (check_iv (pn_protocol session) iv) (\<lambda>_.
       if permissions = 0 \<or> rp_id = Some [] then Inl ctap_argument
       else bindE (pin_token_message C session pin iv 0x09 (permission_entries permissions rp_id)) (\<lambda>message.
         pin_token_operation C session message opts)))"

section \<open>The hmac-secret exchange\<close>

definition SALT_LEN :: nat where "SALT_LEN = 32"

type_synonym HmacSecretSalts = bytes

definition HmacSecretSalts_new :: "bytes \<Rightarrow> HmacSecretSalts res" where
  "HmacSecretSalts_new salts =
     (if length salts \<noteq> SALT_LEN \<and> length salts \<noteq> 2 * SALT_LEN then Inl ctap_argument else Inr salts)"

definition HmacSecretSalts_two :: "bytes \<Rightarrow> bytes \<Rightarrow> HmacSecretSalts" where
  "HmacSecretSalts_two first second = first @ second"

definition HmacSecretSalts_count :: "HmacSecretSalts \<Rightarrow> nat" where
  "HmacSecretSalts_count salts = length salts div SALT_LEN"

record HmacSecretInput =
  hs_protocol :: PinUvAuthProtocol
  hs_key_agreement :: CoseKey
  hs_shared_secret :: bytes
  hs_salt_enc :: bytes
  hs_salt_auth :: bytes

definition HmacSecretInput_new ::
  "CtapCrypto \<Rightarrow> PinSession \<Rightarrow> HmacSecretSalts \<Rightarrow> bytes option \<Rightarrow> HmacSecretInput res" where
  "HmacSecretInput_new C session salts iv =
     bindE (check_iv (pn_protocol session) iv) (\<lambda>_.
     bindE (pin_encrypt C (pn_protocol session) (pn_shared_secret session) iv salts) (\<lambda>salt_enc.
       Inr \<lparr>hs_protocol = pn_protocol session, hs_key_agreement = pn_key_agreement session,
            hs_shared_secret = pn_shared_secret session, hs_salt_enc = salt_enc,
            hs_salt_auth = pin_authenticate C (pn_protocol session) (pn_shared_secret session) salt_enc\<rparr>))"

definition HmacSecretInput_to_value :: "HmacSecretInput \<Rightarrow> Value" where
  "HmacSecretInput_to_value h =
     Map [(Unsigned 1, CoseKey_to_value (hs_key_agreement h)), (Unsigned 2, Bytes (hs_salt_enc h)),
          (Unsigned 3, Bytes (hs_salt_auth h)), (Unsigned 4, Unsigned (ucast (PinUvAuthProtocol_to_u8 (hs_protocol h))))]"

definition decrypt_output :: "CtapCrypto \<Rightarrow> HmacSecretInput \<Rightarrow> bytes \<Rightarrow> bytes res" where
  "decrypt_output C h ciphertext =
     bindE (pin_decrypt C (hs_protocol h) (hs_shared_secret h) ciphertext) (\<lambda>plaintext.
       if length plaintext \<noteq> SALT_LEN \<and> length plaintext \<noteq> 2 * SALT_LEN then Inl cbor_invalid else Inr plaintext)"

definition exchange_output ::
  "CtapCrypto \<Rightarrow> AuthenticatorData \<Rightarrow> bytes \<Rightarrow> HmacSecretInput option \<Rightarrow> bytes option res" where
  "exchange_output C auth key input =
     (case (input, Option.bind (ad_extensions auth) (\<lambda>e. map_get_text e key)) of
        (Some h, Some v) \<Rightarrow>
          bindE (ok_or (as_bytes v) cbor_invalid) (\<lambda>ciphertext.
          bindE (decrypt_output C h ciphertext) (\<lambda>out. Inr (Some out)))
      | (Some _, None) \<Rightarrow> Inl cbor_invalid
      | (None, _) \<Rightarrow> Inr None)"

definition EXT_HMAC_SECRET :: bytes where "EXT_HMAC_SECRET = ascii ''hmac-secret''"

definition declaration_supported :: "AuthenticatorData \<Rightarrow> bool res" where
  "declaration_supported auth =
     (case Option.bind (ad_extensions auth) (\<lambda>e. map_get_text e EXT_HMAC_SECRET) of
        None \<Rightarrow> Inr False
      | Some v \<Rightarrow> ok_or (as_bool v) cbor_invalid)"

section \<open>One-message factories\<close>

interpretation pin_retries: one_message get_pin_retries
  "\<lambda>protocol. client_pin_message [protocol_entry protocol, subcommand_entry 0x01]" "\<lambda>_. parse_pin_retries"
  by unfold_locales (simp add: get_pin_retries_def)

interpretation pin_set: one_message "\<lambda>(session, pin, iv). set_pin C session pin iv"
  "\<lambda>(session, pin, iv). set_pin_message C session pin iv" "\<lambda>_. empty_payload" for C
  by unfold_locales (simp add: set_pin_def split: prod.split)

interpretation pin_change: one_message "\<lambda>(session, old, pin, iv). ctap_change_pin C session old pin iv"
  "\<lambda>(session, old, pin, iv). change_pin_message C session old pin iv" "\<lambda>_. empty_payload" for C
  by unfold_locales (simp add: ctap_change_pin_def split: prod.split)

section \<open>Encryption and its inverse\<close>

text \<open>
  What the packages promise: SHA-256 and HMAC-SHA-256 have 32 bytes, and CBC decryption inverts CBC encryption of whole
  blocks under the same key and initialisation vector.
\<close>

definition crypto_ok :: "CtapCrypto \<Rightarrow> bool" where
  "crypto_ok C \<longleftrightarrow> (\<forall>m. length (cc_sha256 C m) = 32) \<and> (\<forall>k m. length (cc_hmac_sha256 C k m) = 32)
     \<and> (\<forall>key iv pt. length key = 32 \<longrightarrow> length iv = 16 \<longrightarrow> length pt mod 16 = 0
          \<longrightarrow> (\<exists>ct. cc_cbc_encrypt C key iv pt = Some ct \<and> length ct = length pt \<and> cc_cbc_decrypt C key iv ct = Some pt))"

definition secret_ok :: "PinUvAuthProtocol \<Rightarrow> bytes \<Rightarrow> bool" where
  "secret_ok protocol secret \<longleftrightarrow> length secret = (if protocol = V1 then 32 else 64)"

definition iv_ok :: "bytes option \<Rightarrow> bool" where
  "iv_ok iv \<longleftrightarrow> (case iv of None \<Rightarrow> True | Some b \<Rightarrow> length b = 16)"

lemma pin_encrypt_decrypt:
  assumes C: "crypto_ok C" and s: "secret_ok protocol secret" and iv: "iv_ok iv" "check_iv protocol iv = Inr ()"
    and pt: "plaintext \<noteq> []" "length plaintext mod 16 = 0"
  shows "\<exists>ct. pin_encrypt C protocol secret iv plaintext = Inr ct \<and> pin_decrypt C protocol secret ct = Inr plaintext
    \<and> length ct \<le> length plaintext + 16"
proof -
  have big: "16 \<le> length plaintext"
  proof (rule ccontr)
    assume "\<not> 16 \<le> length plaintext"
    then have "length plaintext mod 16 = length plaintext" by simp
    then show False using pt by simp
  qed
  show ?thesis
  proof (cases protocol)
    case V1
    then have k: "get_range secret 0 32 = Some (take 32 secret)" "length (take 32 secret) = 32"
      using s by (simp_all add: secret_ok_def get_range_def)
    obtain ct where ct: "cc_cbc_encrypt C (take 32 secret) (replicate 16 0) plaintext = Some ct" "length ct = length plaintext"
      "cc_cbc_decrypt C (take 32 secret) (replicate 16 0) ct = Some plaintext"
      using C k(2) pt(2) unfolding crypto_ok_def by (metis length_replicate)
    then have "ct \<noteq> []" "length ct mod 16 = 0" using pt by auto
    then show ?thesis using V1 k(1) ct by (simp add: pin_encrypt_def pin_decrypt_def)
  next
    case V2
    then obtain b where b: "iv = Some b" "length b = 16" using iv by (auto simp: check_iv_def iv_ok_def split: if_splits option.splits)
    have k: "get_range secret 32 64 = Some (take 32 (drop 32 secret))" "length (take 32 (drop 32 secret)) = 32"
      using s V2 by (simp_all add: secret_ok_def get_range_def)
    obtain ct where ct: "cc_cbc_encrypt C (take 32 (drop 32 secret)) b plaintext = Some ct" "length ct = length plaintext"
      "cc_cbc_decrypt C (take 32 (drop 32 secret)) b ct = Some plaintext"
      using C k(2) b(2) pt(2) unfolding crypto_ok_def by metis
    show ?thesis using V2 k(1) ct b big pt(2) by (simp add: pin_encrypt_def pin_decrypt_def)
  qed
qed

lemma pad_pin_block:
  assumes "validate_pin pin = Inr ()"
  shows "length (pad_pin pin) = 64" "take (length pin) (pad_pin pin) = pin" "list_all (\<lambda>b. b = 0) (drop (length pin) (pad_pin pin))"
proof -
  have "length pin \<le> 63" using assms by (auto simp: validate_pin_def MAX_PIN_BYTES_def split: if_splits)
  then show "length (pad_pin pin) = 64" "take (length pin) (pad_pin pin) = pin"
    "list_all (\<lambda>b. b = 0) (drop (length pin) (pad_pin pin))"
    by (simp_all add: pad_pin_def PADDED_PIN_LEN_def list_all_iff)
qed

section \<open>What the authenticator reads\<close>

text \<open>A canonical message parses to a map with the same members.\<close>

lemma message_read:
  assumes "client_pin_message es = Inr msg" "well_formed 1 (Map es)" "length msg \<le> usize_max"
  shows "\<exists>bs v. msg = 0x06 # bs \<and> parse bs = Inr v \<and> (\<forall>i. map_get_int v i = map_option canon (map_get_int (Map es) i))"
proof -
  obtain bs where bs: "encode (Map es) = Inr bs" "msg = 0x06 # bs"
    using assms(1) by (auto simp: client_pin_message_def bindE_eq_Inr)
  then have "parse bs = Inr (canon (Map es))" using encode_parse [OF assms(2)] assms(3) by (simp del: canon.simps)
  then show ?thesis using bs(2) map_get_int_canon [OF assms(2)] by blast
qed

lemma wf_unsigned_keys:
  assumes "distinct (map fst kvs)" "\<forall>(k, v) \<in> set kvs. unat k < 24 \<and> well_formed 2 v" "length kvs \<le> 24"
  shows "well_formed 1 (Map (map (\<lambda>(k, v). (Unsigned k, v)) kvs))"
proof -
  have e: "encode (Unsigned k) = Inr [ucast k]" if "unat k < 24" for k
    using that by (simp add: encode_def encode_into.simps head_def MAX_DEPTH_def word_less_nat_alt)
  have inj: "inj_on (\<lambda>k. encode (Unsigned k)) (fst ` set kvs)"
  proof (rule inj_onI)
    fix a b assume ab: "a \<in> fst ` set kvs" "b \<in> fst ` set kvs" "encode (Unsigned a) = encode (Unsigned b)"
    then have lim: "unat a < 24" "unat b < 24" using assms(2) by fastforce+
    then have "unat (ucast a :: byte) = unat (ucast b :: byte)" using ab(3) by (simp add: e)
    then show "a = b" using lim by (simp add: unat_ucast_byte word_unat_eq_iff)
  qed
  have "map (encode \<circ> fst) (map (\<lambda>(k, v). (Unsigned k, v)) kvs) = map (\<lambda>k. encode (Unsigned k)) (map fst kvs)"
    by (simp add: case_prod_beta)
  then have "distinct (map (encode \<circ> fst) (map (\<lambda>(k, v). (Unsigned k, v)) kvs))"
    using inj assms(1) by (simp only: distinct_map set_map)
  then show ?thesis using assms(2,3) by (auto simp: MAX_DEPTH_def simp flip: numeral_2_eq_2)
qed

text \<open>The platform key is an EC2 key of the right size, and reads back from a request.\<close>

definition session_ok :: "PinSession \<Rightarrow> bool" where
  "session_ok session \<longleftrightarrow> secret_ok (pn_protocol session) (pn_shared_secret session)
     \<and> (\<exists>x y. pn_key_agreement session = P256 EcdhEsHkdf256 x y \<and> length x = 32 \<and> length y = 32)"

lemma p256_value:
  assumes "length x = 32" "length y = 32"
  shows "well_formed 2 (CoseKey_to_value (P256 EcdhEsHkdf256 x y))"
    "canon (CoseKey_to_value (P256 EcdhEsHkdf256 x y)) = CoseKey_to_value (P256 EcdhEsHkdf256 x y)"
    "CoseKey_from_value (CoseKey_to_value (P256 EcdhEsHkdf256 x y)) = Inr (P256 EcdhEsHkdf256 x y)"
proof -
  show "well_formed 2 (CoseKey_to_value (P256 EcdhEsHkdf256 x y))"
    "canon (CoseKey_to_value (P256 EcdhEsHkdf256 x y)) = CoseKey_to_value (P256 EcdhEsHkdf256 x y)"
    using assms by (simp_all add: MAX_DEPTH_def from_int_def encode_def encode_into.simps head_def key_order_def)
  show "CoseKey_from_value (CoseKey_to_value (P256 EcdhEsHkdf256 x y)) = Inr (P256 EcdhEsHkdf256 x y)"
    by (rule to_value_from_value) (use assms in simp)
qed

lemma map_get_entries:
  "map_get_int (Map ((Unsigned k, v) # es)) i = (if from_int i = Unsigned k then Some v else map_get_int (Map es) i)"
  by (auto simp: map_get_int_def map_get_def)

lemma from_int_small: "from_int 1 = Unsigned 1" "from_int 2 = Unsigned 2" "from_int 3 = Unsigned 3" "from_int 4 = Unsigned 4"
  "from_int 5 = Unsigned 5" "from_int 6 = Unsigned 6"
  by (simp_all add: from_int_def)

section \<open>Properties\<close>


text \<open>A cipher that leaves whole blocks as they are, and a session of protocol 2.\<close>

definition demo_crypto :: CtapCrypto where
  "demo_crypto = \<lparr>cc_sha256 = (\<lambda>_. replicate 32 7), cc_hmac_sha256 = (\<lambda>_ _. replicate 32 9),
     cc_hkdf_sha256 = (\<lambda>_ _ _. replicate 32 1),
     cc_cbc_encrypt = (\<lambda>_ _ pt. if length pt mod 16 = 0 then Some pt else None),
     cc_cbc_decrypt = (\<lambda>_ _ ct. if length ct mod 16 = 0 then Some ct else None),
     cc_p256_secret = (\<lambda>_. True), cc_p256_public = (\<lambda>_. (replicate 32 2, replicate 32 3)),
     cc_p256_point = (\<lambda>_. True), cc_p256_ecdh = (\<lambda>_ _. replicate 32 4)\<rparr>"

definition demo_session :: PinSession where
  "demo_session = \<lparr>pn_protocol = V2, pn_key_agreement = P256 EcdhEsHkdf256 (replicate 32 2) (replicate 32 3),
     pn_shared_secret = replicate 64 5\<rparr>"


end
