(* ===== verification/Ctap_Commands.thy ===== *)
theory Ctap_Commands
  imports Ctap_Pin "HOL-Library.Multiset"
begin

text \<open>
  The CTAP2 commands (\<open>canokey-ctap/src/ctap2.rs\<close>): the entities of WebAuthn and their CBOR forms, the
  requests makeCredential and getAssertion with their guards, the responses, and the factories. The
  model has the feature \<open>clientpin\<close> on, as the default build has. Texts are their UTF-8 bytes; the
  32-byte client data hash is a byte list.
\<close>

section \<open>Entities\<close>

definition COMMAND_MAKE_CREDENTIAL :: byte where "COMMAND_MAKE_CREDENTIAL = 0x01"
definition COMMAND_GET_ASSERTION :: byte where "COMMAND_GET_ASSERTION = 0x02"
definition COMMAND_GET_INFO :: byte where "COMMAND_GET_INFO = 0x04"
definition COMMAND_RESET :: byte where "COMMAND_RESET = 0x07"
definition COMMAND_GET_NEXT_ASSERTION :: byte where "COMMAND_GET_NEXT_ASSERTION = 0x08"
definition COMMAND_SELECTION :: byte where "COMMAND_SELECTION = 0x0b"

definition EXT_HMAC_SECRET_MC :: bytes where "EXT_HMAC_SECRET_MC = ascii ''hmac-secret-mc''"

definition MAX_USER_ID_LEN :: nat where "MAX_USER_ID_LEN = 64"

definition T_TYPE :: bytes where "T_TYPE = ascii ''type''"
definition T_ID :: bytes where "T_ID = ascii ''id''"
definition T_NAME :: bytes where "T_NAME = ascii ''name''"
definition T_DISPLAY_NAME :: bytes where "T_DISPLAY_NAME = ascii ''displayName''"
definition T_TRANSPORTS :: bytes where "T_TRANSPORTS = ascii ''transports''"
definition T_ALG :: bytes where "T_ALG = ascii ''alg''"
definition T_PUBLIC_KEY :: bytes where "T_PUBLIC_KEY = ascii ''public-key''"

record PublicKeyCredentialDescriptor =
  pd_type :: bytes
  pd_id :: bytes
  pd_transports :: "bytes list"

definition text_array :: "Value \<Rightarrow> bytes list res" where
  "text_array v = bindE (ok_or (as_array v) cbor_invalid) (collectE (\<lambda>item. ok_or (as_text item) cbor_invalid))"

definition uint_array :: "Value \<Rightarrow> (64 word) list res" where
  "uint_array v = bindE (ok_or (as_array v) cbor_invalid) (collectE (\<lambda>item. ok_or (as_uint item) cbor_invalid))"

definition PublicKeyCredentialDescriptor_to_value :: "PublicKeyCredentialDescriptor \<Rightarrow> Value" where
  "PublicKeyCredentialDescriptor_to_value d =
     Map ([(Text T_TYPE, Text (pd_type d)), (Text T_ID, Bytes (pd_id d))]
       @ (if pd_transports d \<noteq> [] then [(Text T_TRANSPORTS, Array (map Text (pd_transports d)))] else []))"

definition PublicKeyCredentialDescriptor_from_value :: "Value \<Rightarrow> PublicKeyCredentialDescriptor res" where
  "PublicKeyCredentialDescriptor_from_value v =
     bindE (required (map_get_text v T_TYPE)) (\<lambda>t.
     bindE (ok_or (as_text t) cbor_invalid) (\<lambda>ty.
     bindE (required (map_get_text v T_ID)) (\<lambda>i.
     bindE (ok_or (as_bytes i) cbor_invalid) (\<lambda>id.
     bindE (case map_get_text v T_TRANSPORTS of None \<Rightarrow> Inr [] | Some l \<Rightarrow> text_array l) (\<lambda>transports.
       Inr \<lparr>pd_type = ty, pd_id = id, pd_transports = transports\<rparr>)))))"

record RelyingParty =
  rp_id :: bytes
  rp_name :: "bytes option"

text \<open>An optional member of an entity, pushed when it is present.\<close>

definition opt_text_entry :: "bytes \<Rightarrow> bytes option \<Rightarrow> (Value \<times> Value) list" where
  "opt_text_entry key t = (case t of None \<Rightarrow> [] | Some s \<Rightarrow> [(Text key, Text s)])"

definition opt_text_member :: "Value \<Rightarrow> bytes \<Rightarrow> bytes option res" where
  "opt_text_member v key =
     (case map_get_text v key of
        None \<Rightarrow> Inr None
      | Some t \<Rightarrow> bindE (ok_or (as_text t) cbor_invalid) (\<lambda>s. Inr (Some s)))"

definition RelyingParty_to_value :: "RelyingParty \<Rightarrow> Value" where
  "RelyingParty_to_value r = Map ((Text T_ID, Text (rp_id r)) # opt_text_entry T_NAME (rp_name r))"

record UserEntity =
  ue_id :: bytes
  ue_name :: "bytes option"
  ue_display_name :: "bytes option"

definition UserEntity_to_value :: "UserEntity \<Rightarrow> Value" where
  "UserEntity_to_value u =
     Map ((Text T_ID, Bytes (ue_id u)) # opt_text_entry T_NAME (ue_name u)
       @ opt_text_entry T_DISPLAY_NAME (ue_display_name u))"

definition UserEntity_from_value :: "Value \<Rightarrow> UserEntity res" where
  "UserEntity_from_value v =
     bindE (required (map_get_text v T_ID)) (\<lambda>i.
     bindE (ok_or (as_bytes i) cbor_invalid) (\<lambda>id.
     bindE (opt_text_member v T_NAME) (\<lambda>name.
     bindE (opt_text_member v T_DISPLAY_NAME) (\<lambda>display_name.
       Inr \<lparr>ue_id = id, ue_name = name, ue_display_name = display_name\<rparr>))))"

record PublicKeyCredentialParameters =
  pk_type :: bytes
  pk_alg :: int

definition PublicKeyCredentialParameters_algorithm :: "PublicKeyCredentialParameters \<Rightarrow> CoseAlgorithm" where
  "PublicKeyCredentialParameters_algorithm p = CoseAlgorithm_from_id (pk_alg p)"

section \<open>getInfo\<close>

record AuthenticatorInfo =
  ai_versions :: "bytes list"
  ai_aaguid :: bytes
  ai_extensions :: "bytes list option"
  ai_options :: "(bytes \<times> bool) list option"
  ai_max_msg_size :: "64 word option"
  ai_pin_uv_auth_protocols :: "bytes option"
  ai_max_credential_count_in_list :: "64 word option"
  ai_max_credential_id_length :: "64 word option"
  ai_transports :: "bytes list option"
  ai_algorithms :: "PublicKeyCredentialParameters list option"
  ai_max_serialized_large_blob_array :: "64 word option"
  ai_force_pin_change :: "bool option"
  ai_min_pin_length :: "64 word option"
  ai_firmware_version :: "64 word option"
  ai_max_cred_blob_length :: "64 word option"
  ai_max_rp_ids_for_set_min_pin_length :: "64 word option"
  ai_remaining_discoverable_credentials :: "64 word option"
  ai_vendor_prototype_config_commands :: "(64 word) list option"
  ai_raw :: Value

definition ctap_opt :: "Value \<Rightarrow> int \<Rightarrow> (Value \<Rightarrow> 't res) \<Rightarrow> 't option res" where
  "ctap_opt m key pf =
     (case map_get_int m key of None \<Rightarrow> Inr None | Some v \<Rightarrow> bindE (pf v) (\<lambda>t. Inr (Some t)))"

definition opt_uint :: "Value \<Rightarrow> int \<Rightarrow> 64 word option res" where
  "opt_uint m key = ctap_opt m key (\<lambda>v. ok_or (as_uint v) cbor_invalid)"

definition opt_bool :: "Value \<Rightarrow> int \<Rightarrow> bool option res" where
  "opt_bool m key = ctap_opt m key (\<lambda>v. ok_or (as_bool v) cbor_invalid)"

definition opt_text_array :: "Value \<Rightarrow> int \<Rightarrow> bytes list option res" where
  "opt_text_array m key = ctap_opt m key text_array"

definition opt_secret_bytes :: "Value \<Rightarrow> int \<Rightarrow> bytes option res" where
  "opt_secret_bytes m key = ctap_opt m key (\<lambda>v. ok_or (as_bytes v) cbor_invalid)"

definition parse_options_map :: "Value \<Rightarrow> (bytes \<times> bool) list res" where
  "parse_options_map v =
     bindE (ok_or (as_map v) cbor_invalid)
       (collectE (\<lambda>(key, val). bindE (ok_or (as_text key) cbor_invalid) (\<lambda>k.
          bindE (ok_or (as_bool val) cbor_invalid) (\<lambda>b. Inr (k, b)))))"

definition parse_algorithms :: "Value \<Rightarrow> PublicKeyCredentialParameters list res" where
  "parse_algorithms v =
     bindE (ok_or (as_array v) cbor_invalid)
       (collectE (\<lambda>item.
          bindE (required (map_get_text item T_TYPE)) (\<lambda>t.
          bindE (ok_or (as_text t) cbor_invalid) (\<lambda>ty.
          bindE (required (map_get_text item T_ALG)) (\<lambda>a.
          bindE (ok_or (as_int a) cbor_invalid) (\<lambda>alg. Inr \<lparr>pk_type = ty, pk_alg = alg\<rparr>))))))"

definition protocol_bytes :: "Value \<Rightarrow> bytes res" where
  "protocol_bytes l =
     bindE (uint_array l) (collectE (\<lambda>n. if unat n < 256 then Inr (ucast n) else Inl cbor_invalid))"

definition parse_get_info :: "bytes \<Rightarrow> AuthenticatorInfo res" where
  "parse_get_info bs =
     bindE (parse bs) (\<lambda>v.
     if as_map v = None then Inl cbor_invalid else
     bindE (required (map_get_int v 1)) (\<lambda>l.
     bindE (text_array l) (\<lambda>versions.
     bindE (required (map_get_int v 3)) (\<lambda>a.
     bindE (ok_or (as_bytes a) cbor_invalid) (\<lambda>aaguid.
     if length aaguid \<noteq> 16 then Inl cbor_invalid else
     bindE (ctap_opt v 6 protocol_bytes) (\<lambda>protocols.
     bindE (opt_text_array v 2) (\<lambda>extensions.
     bindE (ctap_opt v 4 parse_options_map) (\<lambda>options.
     bindE (opt_uint v 5) (\<lambda>k5.
     bindE (opt_uint v 7) (\<lambda>k7.
     bindE (opt_uint v 8) (\<lambda>k8.
     bindE (opt_text_array v 9) (\<lambda>transports.
     bindE (ctap_opt v 10 parse_algorithms) (\<lambda>algorithms.
     bindE (opt_uint v 11) (\<lambda>k11.
     bindE (opt_bool v 12) (\<lambda>k12.
     bindE (opt_uint v 13) (\<lambda>k13.
     bindE (opt_uint v 14) (\<lambda>k14.
     bindE (opt_uint v 15) (\<lambda>k15.
     bindE (opt_uint v 16) (\<lambda>k16.
     bindE (opt_uint v 20) (\<lambda>k20.
     bindE (ctap_opt v 21 uint_array) (\<lambda>k21.
       Inr \<lparr>ai_versions = versions, ai_aaguid = aaguid, ai_extensions = extensions, ai_options = options,
            ai_max_msg_size = k5, ai_pin_uv_auth_protocols = protocols,
            ai_max_credential_count_in_list = k7, ai_max_credential_id_length = k8,
            ai_transports = transports, ai_algorithms = algorithms,
            ai_max_serialized_large_blob_array = k11, ai_force_pin_change = k12, ai_min_pin_length = k13,
            ai_firmware_version = k14, ai_max_cred_blob_length = k15,
            ai_max_rp_ids_for_set_min_pin_length = k16, ai_remaining_discoverable_credentials = k20,
            ai_vendor_prototype_config_commands = k21, ai_raw = v\<rparr>)))))))))))))))))))))"

section \<open>makeCredential and getAssertion\<close>

record MakeCredentialParams =
  mc_client_data_hash :: bytes
  mc_rp :: RelyingParty
  mc_user :: UserEntity
  mc_pub_key_cred_params :: "CoseAlgorithm list"
  mc_exclude_list :: "PublicKeyCredentialDescriptor list"
  mc_extensions :: "(bytes \<times> Value) list"
  mc_options :: "(bytes \<times> bool) list"
  mc_pin_uv_auth :: "PinUvAuth option"
  mc_enterprise_attestation :: "32 word option"
  mc_hmac_secret :: bool
  mc_hmac_secret_mc :: "HmacSecretInput option"

definition MakeCredentialParams_new ::
  "bytes \<Rightarrow> RelyingParty \<Rightarrow> UserEntity \<Rightarrow> CoseAlgorithm list \<Rightarrow> MakeCredentialParams" where
  "MakeCredentialParams_new hash rp user algs =
     \<lparr>mc_client_data_hash = hash, mc_rp = rp, mc_user = user, mc_pub_key_cred_params = algs,
      mc_exclude_list = [], mc_extensions = [], mc_options = [], mc_pin_uv_auth = None,
      mc_enterprise_attestation = None, mc_hmac_secret = False, mc_hmac_secret_mc = None\<rparr>"

record GetAssertionParams =
  ga_rp_id :: bytes
  ga_client_data_hash :: bytes
  ga_allow_list :: "PublicKeyCredentialDescriptor list"
  ga_extensions :: "(bytes \<times> Value) list"
  ga_options :: "(bytes \<times> bool) list"
  ga_pin_uv_auth :: "PinUvAuth option"
  ga_hmac_secret :: "HmacSecretInput option"

definition GetAssertionParams_new :: "bytes \<Rightarrow> bytes \<Rightarrow> GetAssertionParams" where
  "GetAssertionParams_new rp hash =
     \<lparr>ga_rp_id = rp, ga_client_data_hash = hash, ga_allow_list = [], ga_extensions = [], ga_options = [],
      ga_pin_uv_auth = None, ga_hmac_secret = None\<rparr>"

record MakeCredentialResponse =
  mr_fmt :: bytes
  mr_auth_data :: AuthenticatorData
  mr_att_stmt :: Value
  mr_ep_att :: "bool option"
  mr_large_blob_key :: "bytes option"
  mr_hmac_secret_supported :: bool
  mr_hmac_secret_mc :: "bytes option"

record GetAssertionResponse =
  gr_credential :: "PublicKeyCredentialDescriptor option"
  gr_auth_data :: AuthenticatorData
  gr_signature :: bytes
  gr_user :: "UserEntity option"
  gr_number_of_credentials :: "64 word option"
  gr_user_selected :: "bool option"
  gr_large_blob_key :: "bytes option"
  gr_hmac_secret :: "bytes option"

definition parse_make_credential :: "CtapCrypto \<Rightarrow> HmacSecretInput option \<Rightarrow> bytes \<Rightarrow> MakeCredentialResponse res" where
  "parse_make_credential C input bs =
     bindE (parse bs) (\<lambda>v.
     if as_map v = None then Inl cbor_invalid else
     bindE (required (map_get_int v 1)) (\<lambda>f.
     bindE (ok_or (as_text f) cbor_invalid) (\<lambda>fmt.
     bindE (required (map_get_int v 2)) (\<lambda>a.
     bindE (ok_or (as_bytes a) cbor_invalid) (\<lambda>a.
     bindE (AuthenticatorData_parse a) (\<lambda>auth_data.
     bindE (required (map_get_int v 3)) (\<lambda>att_stmt.
     bindE (ok_or (as_map att_stmt) cbor_invalid) (\<lambda>entries.
     if \<exists>e \<in> set entries. as_text (fst e) = None then Inl cbor_invalid else
     bindE (declaration_supported auth_data) (\<lambda>supported.
     bindE (exchange_output C auth_data EXT_HMAC_SECRET_MC input) (\<lambda>out.
     bindE (opt_bool v 4) (\<lambda>ep_att.
     bindE (opt_secret_bytes v 5) (\<lambda>large_blob_key.
       Inr \<lparr>mr_fmt = fmt, mr_auth_data = auth_data, mr_att_stmt = att_stmt, mr_ep_att = ep_att,
            mr_large_blob_key = large_blob_key, mr_hmac_secret_supported = supported,
            mr_hmac_secret_mc = out\<rparr>))))))))))))"

definition parse_get_assertion :: "CtapCrypto \<Rightarrow> HmacSecretInput option \<Rightarrow> bytes \<Rightarrow> GetAssertionResponse res" where
  "parse_get_assertion C input bs =
     bindE (parse bs) (\<lambda>v.
     if as_map v = None then Inl cbor_invalid else
     bindE (ctap_opt v 1 PublicKeyCredentialDescriptor_from_value) (\<lambda>credential.
     bindE (required (map_get_int v 2)) (\<lambda>a.
     bindE (ok_or (as_bytes a) cbor_invalid) (\<lambda>a.
     bindE (AuthenticatorData_parse a) (\<lambda>auth_data.
     bindE (required (map_get_int v 3)) (\<lambda>s.
     bindE (ok_or (as_bytes s) cbor_invalid) (\<lambda>signature.
     bindE (ctap_opt v 4 UserEntity_from_value) (\<lambda>user.
     bindE (exchange_output C auth_data EXT_HMAC_SECRET input) (\<lambda>out.
     bindE (opt_uint v 5) (\<lambda>number.
     bindE (opt_bool v 6) (\<lambda>selected.
     bindE (opt_secret_bytes v 7) (\<lambda>large_blob_key.
       Inr \<lparr>gr_credential = credential, gr_auth_data = auth_data, gr_signature = signature, gr_user = user,
            gr_number_of_credentials = number, gr_user_selected = selected,
            gr_large_blob_key = large_blob_key, gr_hmac_secret = out\<rparr>))))))))))))"

definition extension_map :: "(bytes \<times> Value) list \<Rightarrow> Value" where
  "extension_map es = Map (map (\<lambda>(key, v). (Text key, v)) es)"

definition option_map :: "(bytes \<times> bool) list \<Rightarrow> Value" where
  "option_map es = Map (map (\<lambda>(key, b). (Text key, Bool b)) es)"

text \<open>The members both requests push when they are not empty.\<close>

definition nonempty_entry :: "64 word \<Rightarrow> bool \<Rightarrow> Value \<Rightarrow> (Value \<times> Value) list" where
  "nonempty_entry k present v = (if present then [(Unsigned k, v)] else [])"

definition pin_uv_entries :: "64 word \<Rightarrow> PinUvAuth option \<Rightarrow> (Value \<times> Value) list" where
  "pin_uv_entries k auth =
     (case auth of
        None \<Rightarrow> []
      | Some a \<Rightarrow> [(Unsigned k, Bytes (pu_param a)),
                   (Unsigned (k + 1), Unsigned (ucast (PinUvAuthProtocol_to_u8 (pu_protocol a))))])"

definition raw_extension :: "(bytes \<times> Value) list \<Rightarrow> bytes \<Rightarrow> bool" where
  "raw_extension es name \<longleftrightarrow> (\<exists>e \<in> set es. fst e = name)"

definition algorithm_value :: "CoseAlgorithm \<Rightarrow> Value" where
  "algorithm_value a = Map [(Text T_TYPE, Text T_PUBLIC_KEY), (Text T_ALG, from_int (CoseAlgorithm_id a))]"

definition make_credential_refused :: "MakeCredentialParams \<Rightarrow> bool" where
  "make_credential_refused p \<longleftrightarrow>
     rp_id (mc_rp p) = [] \<or> ue_id (mc_user p) = [] \<or> length (ue_id (mc_user p)) > MAX_USER_ID_LEN
     \<or> mc_pub_key_cred_params p = []
     \<or> (case mc_enterprise_attestation p of None \<Rightarrow> False | Some n \<Rightarrow> \<not> (1 \<le> n \<and> n \<le> 2))
     \<or> (mc_hmac_secret p \<and> raw_extension (mc_extensions p) EXT_HMAC_SECRET)
     \<or> (mc_hmac_secret_mc p \<noteq> None \<and> (\<not> mc_hmac_secret p \<or> raw_extension (mc_extensions p) EXT_HMAC_SECRET_MC))"

definition make_credential_extensions :: "MakeCredentialParams \<Rightarrow> (bytes \<times> Value) list" where
  "make_credential_extensions p =
     mc_extensions p @ (if mc_hmac_secret p then [(EXT_HMAC_SECRET, Bool True)] else [])
     @ (case mc_hmac_secret_mc p of None \<Rightarrow> [] | Some h \<Rightarrow> [(EXT_HMAC_SECRET_MC, HmacSecretInput_to_value h)])"

definition make_credential_entries :: "MakeCredentialParams \<Rightarrow> (Value \<times> Value) list" where
  "make_credential_entries p =
     [(Unsigned 1, Bytes (mc_client_data_hash p)), (Unsigned 2, RelyingParty_to_value (mc_rp p)),
      (Unsigned 3, UserEntity_to_value (mc_user p)), (Unsigned 4, Array (map algorithm_value (mc_pub_key_cred_params p)))]
     @ nonempty_entry 5 (mc_exclude_list p \<noteq> []) (Array (map PublicKeyCredentialDescriptor_to_value (mc_exclude_list p)))
     @ nonempty_entry 6 (make_credential_extensions p \<noteq> []) (extension_map (make_credential_extensions p))
     @ nonempty_entry 7 (mc_options p \<noteq> []) (option_map (mc_options p))
     @ pin_uv_entries 8 (mc_pin_uv_auth p)
     @ (case mc_enterprise_attestation p of None \<Rightarrow> [] | Some n \<Rightarrow> [(Unsigned 10, Unsigned (ucast n))])"

definition make_credential_message :: "MakeCredentialParams \<Rightarrow> bytes res" where
  "make_credential_message p =
     (if make_credential_refused p then Inl ctap_argument
      else bindE (encode (Map (make_credential_entries p))) (\<lambda>bs. Inr (COMMAND_MAKE_CREDENTIAL # bs)))"

definition make_credential ::
  "CtapCrypto \<Rightarrow> MakeCredentialParams \<Rightarrow> OperationOptions
   \<Rightarrow> (MakeCredentialResponse CtapSequence, MakeCredentialResponse) Operation res" where
  "make_credential C p opts =
     bindE (make_credential_message p) (\<lambda>message.
       select_then message opts (\<lambda>r. typed r (parse_make_credential C (mc_hmac_secret_mc p))))"

definition get_assertion_refused :: "GetAssertionParams \<Rightarrow> bool" where
  "get_assertion_refused p \<longleftrightarrow>
     ga_rp_id p = [] \<or> (ga_hmac_secret p \<noteq> None \<and> raw_extension (ga_extensions p) EXT_HMAC_SECRET)"

definition get_assertion_extensions :: "GetAssertionParams \<Rightarrow> (bytes \<times> Value) list" where
  "get_assertion_extensions p =
     ga_extensions p @ (case ga_hmac_secret p of None \<Rightarrow> [] | Some h \<Rightarrow> [(EXT_HMAC_SECRET, HmacSecretInput_to_value h)])"

definition get_assertion_entries :: "GetAssertionParams \<Rightarrow> (Value \<times> Value) list" where
  "get_assertion_entries p =
     [(Unsigned 1, Text (ga_rp_id p)), (Unsigned 2, Bytes (ga_client_data_hash p))]
     @ nonempty_entry 3 (ga_allow_list p \<noteq> []) (Array (map PublicKeyCredentialDescriptor_to_value (ga_allow_list p)))
     @ nonempty_entry 4 (get_assertion_extensions p \<noteq> []) (extension_map (get_assertion_extensions p))
     @ nonempty_entry 5 (ga_options p \<noteq> []) (option_map (ga_options p))
     @ pin_uv_entries 6 (ga_pin_uv_auth p)"

definition get_assertion_message :: "GetAssertionParams \<Rightarrow> bytes res" where
  "get_assertion_message p =
     (if get_assertion_refused p then Inl ctap_argument
      else bindE (encode (Map (get_assertion_entries p))) (\<lambda>bs. Inr (COMMAND_GET_ASSERTION # bs)))"

definition get_assertion ::
  "CtapCrypto \<Rightarrow> GetAssertionParams \<Rightarrow> OperationOptions
   \<Rightarrow> (GetAssertionResponse CtapSequence, GetAssertionResponse) Operation res" where
  "get_assertion C p opts =
     bindE (get_assertion_message p) (\<lambda>message.
       select_then message opts (\<lambda>r. typed r (parse_get_assertion C (ga_hmac_secret p))))"

section \<open>Commands without parameters\<close>

definition get_info :: "OperationOptions \<Rightarrow> (AuthenticatorInfo CtapSequence, AuthenticatorInfo) Operation res" where
  "get_info opts = select_then [COMMAND_GET_INFO] opts (\<lambda>r. typed r parse_get_info)"

definition get_next_assertion ::
  "CtapCrypto \<Rightarrow> OperationOptions \<Rightarrow> (GetAssertionResponse CtapSequence, GetAssertionResponse) Operation res" where
  "get_next_assertion C opts =
     select_then [COMMAND_GET_NEXT_ASSERTION] opts (\<lambda>r. typed r (parse_get_assertion C None))"

definition ctap_reset :: "OperationOptions \<Rightarrow> (unit CtapSequence, unit) Operation res" where
  "ctap_reset opts = select_then [COMMAND_RESET] opts (\<lambda>r. typed r empty_payload)"

definition ctap_selection :: "OperationOptions \<Rightarrow> (unit CtapSequence, unit) Operation res" where
  "ctap_selection opts = select_then [COMMAND_SELECTION] opts (\<lambda>r. typed r empty_payload)"

section \<open>The factories send one message\<close>

interpretation mc: one_message "make_credential C" make_credential_message
  "\<lambda>p. parse_make_credential C (mc_hmac_secret_mc p)" for C
  by unfold_locales (simp add: make_credential_def)

interpretation ga: one_message "get_assertion C" get_assertion_message
  "\<lambda>p. parse_get_assertion C (ga_hmac_secret p)" for C
  by unfold_locales (simp add: get_assertion_def)

interpretation gi: one_message "\<lambda>_ :: unit. get_info" "\<lambda>_. Inr [COMMAND_GET_INFO]" "\<lambda>_. parse_get_info"
  by unfold_locales (simp add: get_info_def)

interpretation gn: one_message "\<lambda>_ :: unit. get_next_assertion C" "\<lambda>_. Inr [COMMAND_GET_NEXT_ASSERTION]"
  "\<lambda>_. parse_get_assertion C None" for C
  by unfold_locales (simp add: get_next_assertion_def)

interpretation cr: one_message "\<lambda>_ :: unit. ctap_reset" "\<lambda>_. Inr [COMMAND_RESET]" "\<lambda>_. empty_payload"
  by unfold_locales (simp add: ctap_reset_def)

interpretation cs: one_message "\<lambda>_ :: unit. ctap_selection" "\<lambda>_. Inr [COMMAND_SELECTION]" "\<lambda>_. empty_payload"
  by unfold_locales (simp add: ctap_selection_def)

section \<open>Reading a request back\<close>

lemma ctap_texts:
  "T_TYPE \<noteq> T_ID" "T_TYPE \<noteq> T_TRANSPORTS" "T_ID \<noteq> T_TRANSPORTS" "T_ID \<noteq> T_NAME" "T_ID \<noteq> T_DISPLAY_NAME"
  "T_NAME \<noteq> T_DISPLAY_NAME" "EXT_HMAC_SECRET \<noteq> EXT_HMAC_SECRET_MC"
  by (simp_all add: T_TYPE_def T_ID_def T_TRANSPORTS_def T_NAME_def T_DISPLAY_NAME_def EXT_HMAC_SECRET_def
      EXT_HMAC_SECRET_MC_def ascii_def)

lemma map_get_nil [simp]: "map_get (Map []) k = None"
  by (simp add: map_get_def)

lemma map_get_text_nil [simp]: "map_get_text (Map []) k = None"
  by (simp add: map_get_text_def)

lemma map_get_cons: "map_get (Map ((j, v) # es)) k = (if j = k then Some v else map_get (Map es) k)"
  by (simp add: map_get_def)

lemma map_get_append:
  "map_get (Map (as @ bs)) k = (case map_get (Map as) k of Some v \<Rightarrow> Some v | None \<Rightarrow> map_get (Map bs) k)"
  by (induction as) (auto simp: map_get_cons)

lemma map_get_mem: "map_get (Map es) k = Some v \<Longrightarrow> (k, v) \<in> set es"
  by (induction es) (auto simp: map_get_cons split: if_splits)

lemma wire_canon_length: "length (wire (canon v)) = length (wire v)"
proof (induction v rule: canon.induct)
  case (1 xs)
  then show ?case by (simp add: length_concat comp_def cong: map_cong)
next
  case (2 es)
  let ?c = "\<lambda>e. (canon (fst e), canon (snd e))"
  let ?l = "\<lambda>e. length (wire (fst e)) + length (wire (snd e))"
  have "sum_list (map ?l (sort_key key_order (map ?c es))) = sum_list (map ?l (map ?c es))"
    by (simp only: sum_mset_sum_list [symmetric] mset_map mset_sort)
  also have "\<dots> = sum_list (map ?l es)" using 2 by (simp add: comp_def cong: map_cong)
  finally show ?case by (simp add: length_concat comp_def)
qed simp_all

lemma map_get_nonempty: "map_get (Map (nonempty_entry j c v)) k = (if c \<and> k = Unsigned j then Some v else None)"
  by (auto simp: nonempty_entry_def map_get_cons)

lemma map_get_texts: "map_get_text (Map (map (\<lambda>(key, v). (Text key, f v)) es)) t = map_option f (map_of es t)"
  by (induction es) (auto simp: map_get_text_def map_get_cons)

lemma map_get_opt_text: "map_get (Map (opt_text_entry key t)) k = (if k = Text key then map_option Text t else None)"
  by (auto simp: opt_text_entry_def map_get_cons split: option.split)

lemma collectE_map: "(\<And>x. x \<in> set xs \<Longrightarrow> f (g x) = Inr x) \<Longrightarrow> collectE f (map g xs) = Inr xs"
  by (induction xs) simp_all

text \<open>Entities survive the trip through a canonical map.\<close>

lemma descriptor_read:
  assumes "well_formed d (PublicKeyCredentialDescriptor_to_value c)" "0 < d"
  shows "PublicKeyCredentialDescriptor_from_value (canon (PublicKeyCredentialDescriptor_to_value c)) = Inr c"
proof -
  have "map_get_text (PublicKeyCredentialDescriptor_to_value c) T_TYPE = Some (Text (pd_type c))"
    "map_get_text (PublicKeyCredentialDescriptor_to_value c) T_ID = Some (Bytes (pd_id c))"
    "map_get_text (PublicKeyCredentialDescriptor_to_value c) T_TRANSPORTS =
       (if pd_transports c = [] then None else Some (Array (map Text (pd_transports c))))"
    using ctap_texts by (simp_all add: PublicKeyCredentialDescriptor_to_value_def map_get_text_def map_get_cons)
  then show ?thesis
    by (simp add: PublicKeyCredentialDescriptor_from_value_def map_get_text_canon [OF assms] required_def
        text_array_def collectE_map comp_def)
qed

lemma user_read:
  assumes "well_formed d (UserEntity_to_value u)" "0 < d"
  shows "UserEntity_from_value (canon (UserEntity_to_value u)) = Inr u"
proof -
  have "map_get_text (UserEntity_to_value u) T_ID = Some (Bytes (ue_id u))"
    "map_get_text (UserEntity_to_value u) T_NAME = map_option Text (ue_name u)"
    "map_get_text (UserEntity_to_value u) T_DISPLAY_NAME = map_option Text (ue_display_name u)"
    using ctap_texts by (auto simp: UserEntity_to_value_def map_get_text_def map_get_cons map_get_append map_get_opt_text
        split: option.split)
  then show ?thesis
    by (simp add: UserEntity_from_value_def opt_text_member_def map_get_text_canon [OF assms] required_def split: option.split)
qed

lemma from_int_keys: "from_int 7 = Unsigned 7" "from_int 8 = Unsigned 8" "from_int 9 = Unsigned 9" "from_int 10 = Unsigned 10"
  by (simp_all add: from_int_def)

lemmas entry_lookups = map_get_int_def map_get_cons map_get_append map_get_nonempty from_int_small from_int_keys

lemma wf_member: "well_formed 1 (Map es) \<Longrightarrow> (k, v) \<in> set es \<Longrightarrow> well_formed 2 v"
  by (auto simp flip: numeral_2_eq_2)

lemma wf_elements: "well_formed d (Array (map f xs)) \<Longrightarrow> x \<in> set xs \<Longrightarrow> well_formed (d + 1) (f x)"
  by auto

lemma descriptors_read:
  assumes "well_formed d (Array (map PublicKeyCredentialDescriptor_to_value cs))" "0 < d"
  shows "collectE PublicKeyCredentialDescriptor_from_value (map (canon \<circ> PublicKeyCredentialDescriptor_to_value) cs) = Inr cs"
  using descriptor_read [OF wf_elements [OF assms(1)]] by (auto intro!: collectE_map)

lemma assertion_lookups:
  "map_get_int (Map (get_assertion_entries p)) 1 = Some (Text (ga_rp_id p))"
  "map_get_int (Map (get_assertion_entries p)) 2 = Some (Bytes (ga_client_data_hash p))"
  "map_get_int (Map (get_assertion_entries p)) 3 =
     (if ga_allow_list p = [] then None else Some (Array (map PublicKeyCredentialDescriptor_to_value (ga_allow_list p))))"
  "map_get_int (Map (get_assertion_entries p)) 4 =
     (if get_assertion_extensions p = [] then None else Some (extension_map (get_assertion_extensions p)))"
  "map_get_int (Map (get_assertion_entries p)) 5 = (if ga_options p = [] then None else Some (option_map (ga_options p)))"
  "map_get_int (Map (get_assertion_entries p)) 6 = map_option (\<lambda>a. Bytes (pu_param a)) (ga_pin_uv_auth p)"
  "map_get_int (Map (get_assertion_entries p)) 7 =
     map_option (\<lambda>a. Unsigned (ucast (PinUvAuthProtocol_to_u8 (pu_protocol a)))) (ga_pin_uv_auth p)"
  by (simp_all add: get_assertion_entries_def entry_lookups pin_uv_entries_def split: option.split)

lemma assertion_extensions:
  assumes "\<not> get_assertion_refused p"
  shows "map_of (get_assertion_extensions p) name =
    (case ga_hmac_secret p of None \<Rightarrow> map_of (ga_extensions p) name
     | Some h \<Rightarrow> if name = EXT_HMAC_SECRET then Some (HmacSecretInput_to_value h) else map_of (ga_extensions p) name)"
proof -
  have "ga_hmac_secret p = Some h \<Longrightarrow> map_of (ga_extensions p) EXT_HMAC_SECRET = None" for h
    using assms by (auto simp: get_assertion_refused_def raw_extension_def map_of_eq_None_iff)
  then show ?thesis by (auto simp: get_assertion_extensions_def map_add_def split: option.split)
qed

lemma member_read:
  assumes "well_formed 1 (Map es)" "map_get_int (Map es) i = (if c then None else Some m)" "\<And>t. c \<Longrightarrow> map_get_text m t = None"
  shows "Option.bind (map_get_int (canon (Map es)) i) (\<lambda>m. map_get_text m t) = map_option canon (map_get_text m t)"
proof (cases c)
  case False
  then have "(from_int i, m) \<in> set es"
    using assms(2) map_get_mem by (simp add: map_get_int_def)
  then have "well_formed 2 m" using wf_member [OF assms(1)] by simp
  then show ?thesis using map_get_text_canon [of 2 m] map_get_int_canon [OF assms(1)] assms(2) False by (simp del: canon.simps)
qed (use assms map_get_int_canon [OF assms(1)] in \<open>simp del: canon.simps\<close>)

section \<open>Properties\<close>

text \<open>C39: an authenticator reads the assertion request that was asked for. A request that names no relying
party, or names hmac-secret twice, is refused. Otherwise the message is command 2 and a CBOR map in
which a reader finds the relying party, the client data hash, the allowed credentials in their order
(or no list when there are none), every extension and option with its value and no other, the
hmac-secret exchange when there is one, and the authentication parameter with its protocol. The
hypotheses are those CBOR itself has: valid text, distinct names, nesting within the limit.\<close>

theorem ctap_get_assertion_received:
  assumes "well_formed 1 (Map (get_assertion_entries p))" "length (wire (Map (get_assertion_entries p))) \<le> usize_max"
  shows "case get_assertion_message p of
      Inl e \<Rightarrow> e = ctap_argument \<and> (ga_rp_id p = [] \<or> ga_hmac_secret p \<noteq> None \<and> EXT_HMAC_SECRET \<in> fst ` set (ga_extensions p))
    | Inr msg \<Rightarrow> ga_rp_id p \<noteq> [] \<and> (\<exists>bs v. msg = 0x02 # bs \<and> parse bs = Inr v
        \<and> map_get_int v 1 = Some (Text (ga_rp_id p)) \<and> map_get_int v 2 = Some (Bytes (ga_client_data_hash p))
        \<and> (case map_get_int v 3 of None \<Rightarrow> ga_allow_list p = []
           | Some l \<Rightarrow> ga_allow_list p \<noteq> []
               \<and> bindE (ok_or (as_array l) cbor_invalid) (collectE PublicKeyCredentialDescriptor_from_value) = Inr (ga_allow_list p))
        \<and> (\<forall>name. Option.bind (map_get_int v 4) (\<lambda>m. map_get_text m name) = map_option canon
             (case ga_hmac_secret p of None \<Rightarrow> map_of (ga_extensions p) name
              | Some h \<Rightarrow> if name = EXT_HMAC_SECRET then Some (HmacSecretInput_to_value h) else map_of (ga_extensions p) name))
        \<and> (\<forall>name. Option.bind (map_get_int v 5) (\<lambda>m. map_get_text m name) = map_option Bool (map_of (ga_options p) name))
        \<and> map_get_int v 6 = map_option (\<lambda>a. Bytes (pu_param a)) (ga_pin_uv_auth p)
        \<and> map_get_int v 7 = map_option (\<lambda>a. Unsigned (ucast (PinUvAuthProtocol_to_u8 (pu_protocol a)))) (ga_pin_uv_auth p))"
proof (cases "get_assertion_refused p")
  case True
  then show ?thesis by (force simp: get_assertion_message_def get_assertion_refused_def raw_extension_def)
next
  case False
  let ?es = "get_assertion_entries p" and ?v = "canon (Map (get_assertion_entries p))"
  have msg: "get_assertion_message p = Inr (0x02 # wire ?v)"
    using False well_formed_encode [OF assms(1)] by (simp add: get_assertion_message_def COMMAND_GET_ASSERTION_def del: canon.simps)
  have parsed: "parse (wire ?v) = Inr ?v"
    using encode_parse [OF assms(1) well_formed_encode [OF assms(1)]] assms(2) wire_canon_length by (simp del: canon.simps)
  note get = map_get_int_canon [OF assms(1)] assertion_lookups [of p]
  have l3: "case map_get_int ?v 3 of None \<Rightarrow> ga_allow_list p = []
    | Some l \<Rightarrow> ga_allow_list p \<noteq> []
        \<and> bindE (ok_or (as_array l) cbor_invalid) (collectE PublicKeyCredentialDescriptor_from_value) = Inr (ga_allow_list p)"
  proof (cases "ga_allow_list p = []")
    case f: False
    then have "(Unsigned 3, Array (map PublicKeyCredentialDescriptor_to_value (ga_allow_list p))) \<in> set ?es"
      by (simp add: get_assertion_entries_def nonempty_entry_def)
    then have "well_formed 2 (Array (map PublicKeyCredentialDescriptor_to_value (ga_allow_list p)))"
      by (rule wf_member [OF assms(1)])
    from descriptors_read [OF this] show ?thesis unfolding get using f by simp
  qed (unfold get, simp)
  have l4: "Option.bind (map_get_int ?v 4) (\<lambda>m. map_get_text m name) = map_option canon (map_of (get_assertion_extensions p) name)" for name
    by (subst member_read [OF assms(1) assertion_lookups(4)])
      (simp_all add: extension_map_def map_get_texts [where f = "\<lambda>v. v"] option.map_ident)
  have l5: "Option.bind (map_get_int ?v 5) (\<lambda>m. map_get_text m name) = map_option Bool (map_of (ga_options p) name)" for name
    by (subst member_read [OF assms(1) assertion_lookups(5)])
      (auto simp: option_map_def map_get_texts option.map_comp comp_def)
  have rest: "map_get_int ?v 1 = Some (Text (ga_rp_id p))" "map_get_int ?v 2 = Some (Bytes (ga_client_data_hash p))"
    "map_get_int ?v 6 = map_option (\<lambda>a. Bytes (pu_param a)) (ga_pin_uv_auth p)"
    "map_get_int ?v 7 = map_option (\<lambda>a. Unsigned (ucast (PinUvAuthProtocol_to_u8 (pu_protocol a)))) (ga_pin_uv_auth p)"
    unfolding get by (simp_all add: option.map_comp comp_def)
  have "ga_rp_id p \<noteq> []" using False by (simp add: get_assertion_refused_def)
  then show ?thesis
    unfolding msg sum.case using parsed l3 l4 [unfolded assertion_extensions [OF False]] l5 rest by blast
qed

definition demo_assertion :: GetAssertionParams where
  "demo_assertion =
     (GetAssertionParams_new [0x65, 0x78] (replicate 32 1))
       \<lparr>ga_allow_list := [\<lparr>pd_type = [0x70, 0x6b], pd_id = [1, 2, 3], pd_transports = []\<rparr>], ga_options := [([0x75, 0x70], True)],
        ga_pin_uv_auth := Some \<lparr>pu_protocol = V1, pu_param = replicate 16 4\<rparr>\<rparr>"

theorem ctap_get_assertion_received_witness:
  "well_formed 1 (Map (get_assertion_entries demo_assertion))
   \<and> length (wire (Map (get_assertion_entries demo_assertion))) \<le> usize_max
   \<and> (\<exists>bs v. get_assertion_message demo_assertion = Inr (0x02 # bs) \<and> parse bs = Inr v
        \<and> map_get_int v 1 = Some (Text [0x65, 0x78]) \<and> map_get_int v 6 = Some (Bytes (replicate 16 4)))"
proof -
  have h: "well_formed 1 (Map (get_assertion_entries demo_assertion))"
    "length (wire (Map (get_assertion_entries demo_assertion))) \<le> usize_max"
    by (simp_all add: demo_assertion_def GetAssertionParams_new_def get_assertion_entries_def nonempty_entry_def
        pin_uv_entries_def PublicKeyCredentialDescriptor_to_value_def option_map_def get_assertion_extensions_def
        T_TYPE_def T_ID_def ascii_def MAX_DEPTH_def encode_def encode_into.simps head_def usize_max_def)
  have "ga_rp_id demo_assertion = [0x65, 0x78]" "ga_hmac_secret demo_assertion = None"
    "ga_pin_uv_auth demo_assertion = Some \<lparr>pu_protocol = V1, pu_param = replicate 16 4\<rparr>"
    by (simp_all add: demo_assertion_def GetAssertionParams_new_def)
  then show ?thesis
    using h ctap_get_assertion_received [OF h]
    by (cases "get_assertion_message demo_assertion") (auto simp del: wire.simps well_formed.simps)
qed

text \<open>A requested exchange has an output, or there is no response.\<close>

lemma exchange_output_length:
  assumes "exchange_output C auth key (Some h) = Inr out"
  shows "\<exists>b. out = Some b \<and> (length b = 32 \<or> length b = 64)"
  using assms
  by (auto simp: exchange_output_def decrypt_output_def bindE_eq_Inr SALT_LEN_def split: option.splits if_splits)

lemma make_credential_output:
  assumes "parse_make_credential C input bs = Inr t"
  shows "input = None \<longrightarrow> mr_hmac_secret_mc t = None"
    "input \<noteq> None \<longrightarrow> (\<exists>b. mr_hmac_secret_mc t = Some b \<and> (length b = 32 \<or> length b = 64))"
    "\<exists>v a. parse bs = Inr v \<and> map_get_int v 1 = Some (Text (mr_fmt t)) \<and> map_get_int v 2 = Some (Bytes a)
       \<and> AuthenticatorData_parse a = Inr (mr_auth_data t) \<and> map_get_int v 3 = Some (mr_att_stmt t)"
proof -
  note s = assms [unfolded parse_make_credential_def bindE_eq_Inr]
  obtain v where v: "parse bs = Inr v" using s by auto
  show "input = None \<longrightarrow> mr_hmac_secret_mc t = None"
    using s by (auto simp: exchange_output_def bindE_eq_Inr split: if_splits)
  show "input \<noteq> None \<longrightarrow> (\<exists>b. mr_hmac_secret_mc t = Some b \<and> (length b = 32 \<or> length b = 64))"
    using s exchange_output_length by (auto simp: bindE_eq_Inr split: if_splits)
  show "\<exists>v a. parse bs = Inr v \<and> map_get_int v 1 = Some (Text (mr_fmt t)) \<and> map_get_int v 2 = Some (Bytes a)
       \<and> AuthenticatorData_parse a = Inr (mr_auth_data t) \<and> map_get_int v 3 = Some (mr_att_stmt t)"
    using s by (auto simp: bindE_eq_Inr required_def ok_or_eq_Inr split: if_splits elim!: as_text.elims as_bytes.elims)
qed


definition demo_credential :: MakeCredentialParams where
  "demo_credential =
     MakeCredentialParams_new (replicate 32 1) \<lparr>rp_id = [0x65], rp_name = None\<rparr>
       \<lparr>ue_id = [9], ue_name = None, ue_display_name = None\<rparr> [Es256]"


end
