(* ===== verification/Ctap_Management.thy ===== *)
theory Ctap_Management
  imports Ctap_Commands
begin

text \<open>
  Credential management and authenticator configuration (\<open>canokey-ctap/src/credmgmt.rs\<close> and
  \<open>config.rs\<close>): the authenticated messages, the entries they read, and the enumeration machine that
  collects all relying parties or credentials in one operation. A token stands for its bytes, and the
  SHA-256 hash of a relying party id is a byte list.
\<close>

section \<open>Authenticated messages\<close>

definition COMMAND_CREDENTIAL_MANAGEMENT :: byte where "COMMAND_CREDENTIAL_MANAGEMENT = 0x0a"

text \<open>The member that carries the parameters, and their encoding for the MAC.\<close>

definition params_entry :: "Value option \<Rightarrow> (bytes \<times> (Value \<times> Value) list) res" where
  "params_entry params =
     (case params of
        None \<Rightarrow> Inr ([], [])
      | Some p \<Rightarrow> bindE (encode p) (\<lambda>bs. Inr (bs, [(uint_value 2, p)])))"

definition cm_message ::
  "CtapCrypto \<Rightarrow> byte \<Rightarrow> Value option \<Rightarrow> PinUvAuthProtocol \<Rightarrow> PinToken option \<Rightarrow> bytes res" where
  "cm_message C sub params protocol token =
     bindE (params_entry params) (\<lambda>(bs, entry).
     bindE (encode (Map ((uint_value 1, uint_value (ucast sub)) # entry
              @ (uint_value 3, uint_value (ucast (PinUvAuthProtocol_to_u8 protocol)))
              # (case token of None \<Rightarrow> []
                 | Some t \<Rightarrow> [(uint_value 4, Bytes (PinToken_authenticate C t protocol (sub # bs)))])))) (\<lambda>body.
       Inr (COMMAND_CREDENTIAL_MANAGEMENT # body)))"

definition COMMAND_CONFIG :: byte where "COMMAND_CONFIG = 0x0d"

definition cfg_message :: "CtapCrypto \<Rightarrow> byte \<Rightarrow> Value option \<Rightarrow> PinUvAuthProtocol \<Rightarrow> PinToken \<Rightarrow> bytes res" where
  "cfg_message C sub params protocol token =
     bindE (params_entry params) (\<lambda>(bs, entry).
     bindE (encode (Map ((uint_value 1, uint_value (ucast sub)) # entry
              @ [(uint_value 3, uint_value (ucast (PinUvAuthProtocol_to_u8 protocol))),
                 (uint_value 4, Bytes (PinToken_authenticate C token protocol
                    (replicate 32 0xff @ COMMAND_CONFIG # sub # bs)))]))) (\<lambda>body.
       Inr (COMMAND_CONFIG # body)))"

section \<open>Entries\<close>

text \<open>\<open>descriptor_value\<close>, \<open>user_value\<close>, \<open>parse_descriptor\<close> and \<open>parse_user\<close> repeat the conversions of the commands.\<close>

definition descriptor_value :: "PublicKeyCredentialDescriptor \<Rightarrow> Value" where
  "descriptor_value d =
     Map ([(Text T_TYPE, Text (pd_type d)), (Text T_ID, Bytes (pd_id d))]
       @ (if pd_transports d \<noteq> [] then [(Text T_TRANSPORTS, Array (map Text (pd_transports d)))] else []))"

definition user_value :: "UserEntity \<Rightarrow> Value" where
  "user_value u =
     Map ((Text T_ID, Bytes (ue_id u)) # opt_text_entry T_NAME (ue_name u)
       @ opt_text_entry T_DISPLAY_NAME (ue_display_name u))"

definition parse_descriptor :: "Value \<Rightarrow> PublicKeyCredentialDescriptor res" where
  "parse_descriptor v =
     bindE (required (map_get_text v T_TYPE)) (\<lambda>t.
     bindE (ok_or (as_text t) cbor_invalid) (\<lambda>ty.
     bindE (required (map_get_text v T_ID)) (\<lambda>i.
     bindE (ok_or (as_bytes i) cbor_invalid) (\<lambda>id.
     bindE (case map_get_text v T_TRANSPORTS of
              None \<Rightarrow> Inr []
            | Some l \<Rightarrow> bindE (ok_or (as_array l) cbor_invalid) (collectE (\<lambda>item. ok_or (as_text item) cbor_invalid)))
       (\<lambda>transports. Inr \<lparr>pd_type = ty, pd_id = id, pd_transports = transports\<rparr>)))))"

definition parse_user :: "Value \<Rightarrow> UserEntity res" where
  "parse_user v =
     bindE (required (map_get_text v T_ID)) (\<lambda>i.
     bindE (ok_or (as_bytes i) cbor_invalid) (\<lambda>id.
     bindE (opt_text_member v T_NAME) (\<lambda>name.
     bindE (opt_text_member v T_DISPLAY_NAME) (\<lambda>display_name.
       Inr \<lparr>ue_id = id, ue_name = name, ue_display_name = display_name\<rparr>))))"

record CredsMetadata =
  md_existing :: "64 word"
  md_remaining :: "64 word"

record RpEntry =
  re_rp :: RelyingParty
  re_rp_id_hash :: bytes

record CredentialEntry =
  ce_user :: "UserEntity option"
  ce_credential_id :: PublicKeyCredentialDescriptor
  ce_public_key :: "CoseKey option"
  ce_cred_protect :: "64 word option"
  ce_large_blob_key :: "bytes option"
  ce_cose_algorithm :: "int option"

definition parse_rp_entry :: "Value \<Rightarrow> RpEntry res" where
  "parse_rp_entry v =
     (if as_map v = None then Inl cbor_invalid else
      bindE (required (map_get_int v 3)) (\<lambda>rp_value.
      bindE (required (map_get_text rp_value T_ID)) (\<lambda>i.
      bindE (ok_or (as_text i) cbor_invalid) (\<lambda>id.
      bindE (opt_text_member rp_value T_NAME) (\<lambda>name.
      bindE (required (map_get_int v 4)) (\<lambda>h.
      bindE (ok_or (as_bytes h) cbor_invalid) (\<lambda>hash.
      if length hash \<noteq> 32 then Inl cbor_invalid
      else Inr \<lparr>re_rp = \<lparr>rp_id = id, rp_name = name\<rparr>, re_rp_id_hash = hash\<rparr>)))))))"

definition parse_credential_entry :: "Value \<Rightarrow> CredentialEntry res" where
  "parse_credential_entry v =
     (if as_map v = None then Inl cbor_invalid else
      bindE (ctap_opt v 6 parse_user) (\<lambda>user.
      bindE (required (map_get_int v 7)) (\<lambda>d.
      bindE (parse_descriptor d) (\<lambda>credential_id.
      bindE (ctap_opt v 8 CoseKey_from_value) (\<lambda>public_key.
      bindE (ctap_opt v 0x80 (\<lambda>x. ok_or (as_int x) cbor_invalid)) (\<lambda>cose_algorithm.
      if (public_key \<noteq> None) = (cose_algorithm \<noteq> None) then Inl cbor_invalid else
      bindE (ctap_opt v 0x0a (\<lambda>x. ok_or (as_uint x) cbor_invalid)) (\<lambda>cred_protect.
      bindE (ctap_opt v 0x0b (\<lambda>x. ok_or (as_bytes x) cbor_invalid)) (\<lambda>large_blob_key.
        Inr \<lparr>ce_user = user, ce_credential_id = credential_id, ce_public_key = public_key,
             ce_cred_protect = cred_protect, ce_large_blob_key = large_blob_key,
             ce_cose_algorithm = cose_algorithm\<rparr>))))))))"

definition split_status :: "ResponseData \<Rightarrow> (CtapStatus \<times> bytes) res" where
  "split_status r =
     bindE (ResponseData_ensure_success r Phase.Command) (\<lambda>_.
       case rd_data r of
         [] \<Rightarrow> Inl (Error_at (Error_new InvalidResponse) Phase.Parsing)
       | status # payload \<Rightarrow> Inr (status, payload))"

section \<open>The enumeration machine\<close>

datatype EnumStage = ESelect | EBegin | EGetNext

record 't Enumerate =
  en_stage :: EnumStage
  en_begin_message :: bytes
  en_get_next_message :: bytes
  en_total_key :: int
  en_parse_entry :: "Value \<Rightarrow> 't res"
  en_max_get_next :: "64 word"
  en_items :: "'t list"
  en_remaining :: "64 word"

definition STATUS_NO_CREDENTIALS :: byte where "STATUS_NO_CREDENTIALS = 0x2e"

text \<open>The arm of a successful Begin: its entry and the number of entries to fetch.\<close>

definition Enumerate_begin :: "'t Enumerate \<Rightarrow> bytes \<Rightarrow> 't Enumerate \<times> 't list Action res" where
  "Enumerate_begin m payload =
     (case bindE (parse payload) (\<lambda>v.
             if as_map v = None then Inl cbor_invalid else
             bindE (required (map_get_int v (en_total_key m))) (\<lambda>t.
             bindE (ok_or (as_uint t) cbor_invalid) (\<lambda>n.
             if n = 0 then Inl cbor_invalid else
             bindE (en_parse_entry m v) (\<lambda>item. Inr (n, item))))) of
        Inl e \<Rightarrow> (m, Inl e)
      | Inr (n, item) \<Rightarrow>
          let m1 = m\<lparr>en_items := en_items m @ [item], en_remaining := n - 1\<rparr> in
          if en_remaining m1 > en_max_get_next m then (m1, Inl (Error_at (Error_new LimitExceeded) Phase.Parsing))
          else if en_remaining m1 = 0 then (m1\<lparr>en_items := []\<rparr>, Inr (Action.Done (en_items m1)))
          else (m1\<lparr>en_stage := EGetNext\<rparr>, Inr (Action.Command (ctap_msg (en_get_next_message m)))))"

definition Enumerate_get_next :: "'t Enumerate \<Rightarrow> bytes \<Rightarrow> 't Enumerate \<times> 't list Action res" where
  "Enumerate_get_next m payload =
     (case bindE (parse payload) (en_parse_entry m) of
        Inl e \<Rightarrow> (m, Inl e)
      | Inr item \<Rightarrow>
          let m1 = m\<lparr>en_items := en_items m @ [item], en_remaining := en_remaining m - 1\<rparr> in
          if en_remaining m1 = 0 then (m1\<lparr>en_items := []\<rparr>, Inr (Action.Done (en_items m1)))
          else (m1, Inr (Action.Command (ctap_msg (en_get_next_message m)))))"

definition Enumerate_next :: "'t Enumerate \<Rightarrow> ResponseData option \<Rightarrow> 't Enumerate \<times> 't list Action res" where
  "Enumerate_next m response =
     (case en_stage m of
        ESelect \<Rightarrow>
          (case response of
             None \<Rightarrow> (m, Inr (Action.Command ctap_select))
           | Some r \<Rightarrow>
               (case ResponseData_ensure_success r Phase.Select of
                  Inl e \<Rightarrow> (m, Inl e)
                | Inr _ \<Rightarrow> (m\<lparr>en_stage := EBegin\<rparr>, Inr (Action.Command (ctap_msg (en_begin_message m))))))
      | EBegin \<Rightarrow>
          (case bindE (ok_or response (Error_new ProtocolViolation)) split_status of
             Inl e \<Rightarrow> (m, Inl e)
           | Inr (status, payload) \<Rightarrow>
               if status = STATUS_NO_CREDENTIALS then (m, Inr (Action.Done []))
               else (case CtapStatus_into_error status Phase.Command of
                       Some e \<Rightarrow> (m, Inl e)
                     | None \<Rightarrow> Enumerate_begin m payload))
      | EGetNext \<Rightarrow>
          (case bindE (ok_or response (Error_new ProtocolViolation)) split_status of
             Inl e \<Rightarrow> (m, Inl e)
           | Inr (status, payload) \<Rightarrow>
               (case CtapStatus_into_error status Phase.Command of
                  Some e \<Rightarrow> (m, Inl e)
                | None \<Rightarrow> Enumerate_get_next m payload)))"

definition Enumerate_ops :: "('t Enumerate, 't list) Machine" where
  "Enumerate_ops = plain_machine Enumerate_next"

definition Enumerate_start :: "bytes \<Rightarrow> bytes \<Rightarrow> int \<Rightarrow> (Value \<Rightarrow> 't res) \<Rightarrow> OperationOptions \<Rightarrow> 't Enumerate" where
  "Enumerate_start begin_message get_next total_key entry opts =
     \<lparr>en_stage = ESelect, en_begin_message = begin_message, en_get_next_message = get_next,
      en_total_key = total_key, en_parse_entry = entry,
      en_max_get_next = of_nat (max_exchanges (limits opts) - 2), en_items = [], en_remaining = 0\<rparr>"

definition enumerate_operation ::
  "bytes \<Rightarrow> bytes \<Rightarrow> int \<Rightarrow> (Value \<Rightarrow> 't res) \<Rightarrow> OperationOptions \<Rightarrow> ('t Enumerate, 't list) Operation res" where
  "enumerate_operation begin_message get_next total_key entry opts =
     bindE (OperationOptions_validate opts) (\<lambda>opts.
     bindE (collectE (\<lambda>message.
              if length message > max_input_bytes (limits opts) then Inl (Error_new LimitExceeded)
              else validate_command (ctap_msg message) opts) [begin_message, get_next]) (\<lambda>_.
     bindE (validate_command ctap_select opts) (\<lambda>_.
       Operation_from_machine (Enumerate_start begin_message get_next total_key entry opts) opts)))"

section \<open>Operations\<close>

definition parse_creds_metadata :: "bytes \<Rightarrow> CredsMetadata res" where
  "parse_creds_metadata bs =
     bindE (parse bs) (\<lambda>v.
     if as_map v = None then Inl cbor_invalid else
     bindE (required (map_get_int v 1)) (\<lambda>a.
     bindE (ok_or (as_uint a) cbor_invalid) (\<lambda>existing.
     bindE (required (map_get_int v 2)) (\<lambda>b.
     bindE (ok_or (as_uint b) cbor_invalid) (\<lambda>remaining.
       Inr \<lparr>md_existing = existing, md_remaining = remaining\<rparr>)))))"

definition get_creds_metadata ::
  "CtapCrypto \<Rightarrow> PinToken \<Rightarrow> PinUvAuthProtocol \<Rightarrow> OperationOptions \<Rightarrow> (CredsMetadata CtapSequence, CredsMetadata) Operation res"
where
  "get_creds_metadata C token protocol opts =
     bindE (cm_message C 0x01 None protocol (Some token)) (\<lambda>message.
       select_then message opts (\<lambda>r. typed r parse_creds_metadata))"

definition enumerate_rps ::
  "CtapCrypto \<Rightarrow> PinToken \<Rightarrow> PinUvAuthProtocol \<Rightarrow> OperationOptions \<Rightarrow> (RpEntry Enumerate, RpEntry list) Operation res" where
  "enumerate_rps C token protocol opts =
     bindE (cm_message C 0x02 None protocol (Some token)) (\<lambda>begin_message.
     bindE (cm_message C 0x03 None protocol None) (\<lambda>get_next.
       enumerate_operation begin_message get_next 5 parse_rp_entry opts))"

definition enumerate_params :: "bytes \<Rightarrow> bool \<Rightarrow> Value" where
  "enumerate_params rp_id_hash metadata_only =
     Map ((uint_value 1, Bytes rp_id_hash) # (if metadata_only then [(uint_value 0x80, Bool True)] else []))"

definition enumerate_credentials ::
  "CtapCrypto \<Rightarrow> PinToken \<Rightarrow> PinUvAuthProtocol \<Rightarrow> bytes \<Rightarrow> bool \<Rightarrow> OperationOptions
   \<Rightarrow> (CredentialEntry Enumerate, CredentialEntry list) Operation res" where
  "enumerate_credentials C token protocol rp_id_hash metadata_only opts =
     bindE (cm_message C 0x04 (Some (enumerate_params rp_id_hash metadata_only)) protocol (Some token)) (\<lambda>begin_message.
     bindE (cm_message C 0x05 None protocol None) (\<lambda>get_next.
       enumerate_operation begin_message get_next 9 parse_credential_entry opts))"

definition delete_credential_message ::
  "CtapCrypto \<Rightarrow> PinToken \<Rightarrow> PinUvAuthProtocol \<Rightarrow> PublicKeyCredentialDescriptor \<Rightarrow> bytes res" where
  "delete_credential_message C token protocol credential_id =
     (if pd_id credential_id = [] then Inl ctap_argument
      else cm_message C 0x06 (Some (Map [(uint_value 2, descriptor_value credential_id)])) protocol (Some token))"

definition delete_credential ::
  "CtapCrypto \<Rightarrow> PinToken \<Rightarrow> PinUvAuthProtocol \<Rightarrow> PublicKeyCredentialDescriptor \<Rightarrow> OperationOptions
   \<Rightarrow> (unit CtapSequence, unit) Operation res" where
  "delete_credential C token protocol credential_id opts =
     bindE (delete_credential_message C token protocol credential_id) (\<lambda>message.
       select_then message opts (\<lambda>r. typed r empty_payload))"

definition update_user_message ::
  "CtapCrypto \<Rightarrow> PinToken \<Rightarrow> PinUvAuthProtocol \<Rightarrow> PublicKeyCredentialDescriptor \<Rightarrow> UserEntity \<Rightarrow> bytes res" where
  "update_user_message C token protocol credential_id user =
     (if pd_id credential_id = [] \<or> ue_id user = [] \<or> length (ue_id user) > MAX_USER_ID_LEN then Inl ctap_argument
      else cm_message C 0x07
             (Some (Map [(uint_value 2, descriptor_value credential_id), (uint_value 3, user_value user)])) protocol (Some token))"

definition update_user_information ::
  "CtapCrypto \<Rightarrow> PinToken \<Rightarrow> PinUvAuthProtocol \<Rightarrow> PublicKeyCredentialDescriptor \<Rightarrow> UserEntity \<Rightarrow> OperationOptions
   \<Rightarrow> (unit CtapSequence, unit) Operation res" where
  "update_user_information C token protocol credential_id user opts =
     bindE (update_user_message C token protocol credential_id user) (\<lambda>message.
       select_then message opts (\<lambda>r. typed r empty_payload))"

section \<open>Configuration\<close>

definition MIN_MIN_PIN_LENGTH :: byte where "MIN_MIN_PIN_LENGTH = 4"
definition MAX_MIN_PIN_LENGTH_RP_IDS :: nat where "MAX_MIN_PIN_LENGTH_RP_IDS = 4"

definition toggle_always_uv ::
  "CtapCrypto \<Rightarrow> PinToken \<Rightarrow> PinUvAuthProtocol \<Rightarrow> OperationOptions \<Rightarrow> (unit CtapSequence, unit) Operation res" where
  "toggle_always_uv C token protocol opts =
     bindE (cfg_message C 0x02 None protocol token) (\<lambda>message.
       select_then message opts (\<lambda>r. typed r empty_payload))"

definition min_pin_params :: "byte \<Rightarrow> bool option \<Rightarrow> bytes list \<Rightarrow> Value" where
  "min_pin_params new_min_pin_length force_pin_change rp_ids =
     Map ((uint_value 1, uint_value (ucast new_min_pin_length))
       # (if rp_ids \<noteq> [] then [(uint_value 2, Array (map Text rp_ids))] else [])
       @ (case force_pin_change of None \<Rightarrow> [] | Some b \<Rightarrow> [(uint_value 3, Bool b)]))"

definition set_min_pin_length_message ::
  "CtapCrypto \<Rightarrow> PinToken \<Rightarrow> PinUvAuthProtocol \<Rightarrow> byte \<Rightarrow> bool option \<Rightarrow> bytes list \<Rightarrow> bytes res" where
  "set_min_pin_length_message C token protocol new_min_pin_length force_pin_change rp_ids =
     (if new_min_pin_length < MIN_MIN_PIN_LENGTH \<or> length rp_ids > MAX_MIN_PIN_LENGTH_RP_IDS \<or> [] \<in> set rp_ids
      then Inl ctap_argument
      else cfg_message C 0x03 (Some (min_pin_params new_min_pin_length force_pin_change rp_ids)) protocol token)"

definition set_min_pin_length ::
  "CtapCrypto \<Rightarrow> PinToken \<Rightarrow> PinUvAuthProtocol \<Rightarrow> byte \<Rightarrow> bool option \<Rightarrow> bytes list \<Rightarrow> OperationOptions
   \<Rightarrow> (unit CtapSequence, unit) Operation res" where
  "set_min_pin_length C token protocol new_min_pin_length force_pin_change rp_ids opts =
     bindE (set_min_pin_length_message C token protocol new_min_pin_length force_pin_change rp_ids) (\<lambda>message.
       select_then message opts (\<lambda>r. typed r empty_payload))"

definition enable_long_touch_for_reset ::
  "CtapCrypto \<Rightarrow> PinToken \<Rightarrow> PinUvAuthProtocol \<Rightarrow> OperationOptions \<Rightarrow> (unit CtapSequence, unit) Operation res" where
  "enable_long_touch_for_reset C token protocol opts =
     bindE (cfg_message C 0x04 None protocol token) (\<lambda>message.
       select_then message opts (\<lambda>r. typed r empty_payload))"

section \<open>The factories send one message\<close>

interpretation md: one_message "\<lambda>(token, protocol). get_creds_metadata C token protocol"
  "\<lambda>(token, protocol). cm_message C 0x01 None protocol (Some token)" "\<lambda>_. parse_creds_metadata" for C
  by unfold_locales (simp add: get_creds_metadata_def split: prod.split)

interpretation dc: one_message "\<lambda>(token, protocol, cid). delete_credential C token protocol cid"
  "\<lambda>(token, protocol, cid). delete_credential_message C token protocol cid" "\<lambda>_. empty_payload" for C
  by unfold_locales (simp add: delete_credential_def split: prod.split)

interpretation uu: one_message "\<lambda>(token, protocol, cid, user). update_user_information C token protocol cid user"
  "\<lambda>(token, protocol, cid, user). update_user_message C token protocol cid user" "\<lambda>_. empty_payload" for C
  by unfold_locales (simp add: update_user_information_def split: prod.split)

interpretation tu: one_message "\<lambda>(token, protocol). toggle_always_uv C token protocol"
  "\<lambda>(token, protocol). cfg_message C 0x02 None protocol token" "\<lambda>_. empty_payload" for C
  by unfold_locales (simp add: toggle_always_uv_def split: prod.split)

interpretation mp: one_message "\<lambda>(token, protocol, n, force, ids). set_min_pin_length C token protocol n force ids"
  "\<lambda>(token, protocol, n, force, ids). set_min_pin_length_message C token protocol n force ids" "\<lambda>_. empty_payload" for C
  by unfold_locales (simp add: set_min_pin_length_def split: prod.split)

interpretation lt: one_message "\<lambda>(token, protocol). enable_long_touch_for_reset C token protocol"
  "\<lambda>(token, protocol). cfg_message C 0x04 None protocol token" "\<lambda>_. empty_payload" for C
  by unfold_locales (simp add: enable_long_touch_for_reset_def split: prod.split)

section \<open>Runs of the enumeration\<close>

text \<open>A response that carries the CBOR value \<open>v\<close> after a success status.\<close>

definition answered :: "ResponseData \<Rightarrow> Value \<Rightarrow> bool" where
  "answered r v \<longleftrightarrow> rd_status r = 0x9000 \<and> (\<exists>payload. rd_data r = 0 # payload \<and> parse payload = Inr v)"

lemma split_status_eq:
  "split_status r = Inr (st, payload) \<longleftrightarrow> rd_status r = 0x9000 \<and> rd_data r = st # payload"
  by (auto simp: split_status_def ResponseData_ensure_success_def StatusWord_is_success_def split: list.split)

lemma into_error_None: "CtapStatus_into_error st ph = None \<longleftrightarrow> st = 0"
  by (simp add: CtapStatus_into_error_def CtapStatus_is_success_def)

text \<open>The entries collected so far, with the responses they come from.\<close>

definition collected :: "(Value \<Rightarrow> 't res) \<Rightarrow> ResponseData list \<Rightarrow> 't list \<Rightarrow> bool" where
  "collected entry rs items \<longleftrightarrow> list_all2 (\<lambda>r i. \<exists>v. answered r v \<and> entry v = Inr i) rs items"

lemma collected_snoc:
  "collected entry rs items \<Longrightarrow> answered r v \<Longrightarrow> entry v = Inr i \<Longrightarrow> collected entry (rs @ [r]) (items @ [i])"
  by (auto simp: collected_def intro: list_all2_appendI)

inductive enum_at :: "'t Enumerate \<Rightarrow> 't Enumerate \<Rightarrow> ResponseData option \<Rightarrow> trace \<Rightarrow> bool" for m0 where
  enum_start: "enum_at m0 m0 None []"
| enum_select: "enum_at m0 m0 (Some r) [(ctap_select, r)]"
| enum_begin: "rd_status r0 = 0x9000 \<Longrightarrow>
    enum_at m0 (m0\<lparr>en_stage := EBegin\<rparr>) (Some r) [(ctap_select, r0), (ctap_msg (en_begin_message m0), r)]"
| enum_next: "rd_status r0 = 0x9000 \<Longrightarrow> answered r1 v \<Longrightarrow> map_get_int v (en_total_key m0) = Some (Unsigned n)
    \<Longrightarrow> collected (en_parse_entry m0) (r1 # rs) items \<Longrightarrow> unat left + length items = unat n \<Longrightarrow> left \<noteq> 0
    \<Longrightarrow> unat n \<le> unat (en_max_get_next m0) + 1 \<Longrightarrow>
    enum_at m0 (m0\<lparr>en_stage := EGetNext, en_items := items, en_remaining := left\<rparr>) (Some r)
      ((ctap_select, r0) # (ctap_msg (en_begin_message m0), r1) # map (\<lambda>r. (ctap_msg (en_get_next_message m0), r)) (rs @ [r]))"

definition enum_action :: "'t Enumerate \<Rightarrow> trace \<Rightarrow> 't list Action \<Rightarrow> bool" where
  "enum_action m0 tr a \<longleftrightarrow>
     (case a of
        Action.Command c \<Rightarrow>
          tr = [] \<and> c = ctap_select
          \<or> (\<exists>r. tr = [(ctap_select, r)] \<and> rd_status r = 0x9000 \<and> c = ctap_msg (en_begin_message m0))
          \<or> c = ctap_msg (en_get_next_message m0) \<and>
            (\<exists>r0 r1 rs v n. tr = (ctap_select, r0) # (ctap_msg (en_begin_message m0), r1)
                # map (\<lambda>r. (ctap_msg (en_get_next_message m0), r)) rs
              \<and> answered r1 v \<and> map_get_int v (en_total_key m0) = Some (Unsigned n)
              \<and> length rs + 1 < unat n \<and> unat n \<le> unat (en_max_get_next m0) + 1)
      | Action.Done items \<Rightarrow>
          (\<exists>r0 r1 rs. tr = (ctap_select, r0) # (ctap_msg (en_begin_message m0), r1)
                # map (\<lambda>r. (ctap_msg (en_get_next_message m0), r)) rs \<and> rd_status r0 = 0x9000
              \<and> (rs = [] \<and> items = [] \<and> rd_status r1 = 0x9000 \<and> (\<exists>p. rd_data r1 = 0x2e # p)
                 \<or> (\<exists>v n. answered r1 v \<and> map_get_int v (en_total_key m0) = Some (Unsigned n)
                      \<and> length items = unat n \<and> collected (en_parse_entry m0) (r1 # rs) items))))"

lemma enum_done:
  assumes "tr = (ctap_select, r0) # (ctap_msg (en_begin_message m0), r1) # map (\<lambda>r. (ctap_msg (en_get_next_message m0), r)) rs"
    "rd_status r0 = 0x9000" "answered r1 v" "map_get_int v (en_total_key m0) = Some (Unsigned n)"
    "length items = unat n" "collected (en_parse_entry m0) (r1 # rs) items"
  shows "enum_action m0 tr (Action.Done items)"
  using assms unfolding enum_action_def by auto

lemma enum_more:
  assumes "tr = (ctap_select, r0) # (ctap_msg (en_begin_message m0), r1) # map (\<lambda>r. (ctap_msg (en_get_next_message m0), r)) rs"
    "answered r1 v" "map_get_int v (en_total_key m0) = Some (Unsigned n)"
    "length rs + 1 < unat n" "unat n \<le> unat (en_max_get_next m0) + 1"
  shows "enum_action m0 tr (Action.Command (ctap_msg (en_get_next_message m0)))"
  using assms unfolding enum_action_def Action.case by blast

lemma unat_pred: "left \<noteq> 0 \<Longrightarrow> unat (left - 1 :: 64 word) = unat left - 1"
  by (metis unat_minus_one)

lemma as_uint_Some: "as_uint v = Some n \<longleftrightarrow> v = Unsigned n"
  by (cases v) auto

lemma enum_step:
  assumes "enum_at m0 m resp tr" "en_stage m0 = ESelect" "en_items m0 = []" "Enumerate_next m resp = (m', Inr a)"
  shows "enum_action m0 tr a \<and> (case a of Action.Command c \<Rightarrow> \<forall>r. enum_at m0 m' (Some r) (tr @ [(c, r)]) | Action.Done _ \<Rightarrow> True)"
  using assms(1)
proof cases
  case enum_start
  then show ?thesis using assms(2-) by (auto simp: Enumerate_next_def enum_action_def intro: enum_at.enum_select)
next
  case (enum_select r)
  then show ?thesis using assms(2-)
    by (auto simp: Enumerate_next_def enum_action_def ResponseData_ensure_success_def StatusWord_is_success_def
        intro: enum_at.enum_begin split: if_splits)
next
  case (enum_begin r0 r)
  obtain st payload where sp: "rd_status r = 0x9000" "rd_data r = st # payload"
    and nx: "(if st = STATUS_NO_CREDENTIALS then (m, Inr (Action.Done []))
               else (case CtapStatus_into_error st Phase.Command of
                       Some e \<Rightarrow> (m, Inl e) | None \<Rightarrow> Enumerate_begin m payload)) = (m', Inr a)"
    using assms(4) enum_begin by (auto simp: Enumerate_next_def split_status_eq split: sum.splits prod.splits)
  show ?thesis
  proof (cases "st = STATUS_NO_CREDENTIALS")
    case True
    then show ?thesis using nx sp enum_begin by (auto simp: enum_action_def STATUS_NO_CREDENTIALS_def)
  next
    case False
    then have "st = 0" "Enumerate_begin m payload = (m', Inr a)"
      using nx by (auto simp: into_error_None split: option.splits)
    then obtain v n i where v: "parse payload = Inr v" "map_get_int v (en_total_key m0) = Some (Unsigned n)" "n \<noteq> 0"
      "en_parse_entry m0 v = Inr i"
      and x: "(let m1 = m\<lparr>en_items := en_items m @ [i], en_remaining := n - 1\<rparr> in
          if en_remaining m1 > en_max_get_next m then (m1, Inl (Error_at (Error_new LimitExceeded) Phase.Parsing))
          else if en_remaining m1 = 0 then (m1\<lparr>en_items := []\<rparr>, Inr (Action.Done (en_items m1)))
          else (m1\<lparr>en_stage := EGetNext\<rparr>, Inr (Action.Command (ctap_msg (en_get_next_message m))))) = (m', Inr a)"
      using enum_begin(1)
      by (auto simp: Enumerate_begin_def bindE_eq_Inr required_def ok_or_eq_Inr as_uint_Some split: sum.splits if_splits)
    have ans: "answered r v" using sp v(1) \<open>st = 0\<close> by (simp add: answered_def)
    then have col: "collected (en_parse_entry m0) [r] [i]" using v(4) by (auto simp: collected_def)
    have lim: "\<not> n - 1 > en_max_get_next m0" using x enum_begin(1) by (auto simp: Let_def split: if_splits)
    then have lim: "unat n \<le> unat (en_max_get_next m0) + 1" using unat_pred [OF v(3)] by (simp add: word_less_nat_alt)
    show ?thesis
    proof (cases "n - 1 = 0")
      case True
      then have "a = Action.Done [i]" "unat n = 1"
        using x enum_begin(1) assms(3) by (auto simp: Let_def split: if_splits)
      then show ?thesis using enum_begin ans col v(2) enum_done [of tr r0 m0 r "[]" v n "[i]"] by simp
    next
      case f: False
      then have a: "a = Action.Command (ctap_msg (en_get_next_message m0))"
        "m' = m0\<lparr>en_stage := EGetNext, en_items := [i], en_remaining := n - 1\<rparr>"
        using x enum_begin(1) assms(3) by (auto simp: Let_def split: if_splits)
      have big: "1 < unat n" using f unat_pred [OF v(3)] by (metis diff_is_0_eq linorder_not_le unat_eq_zero)
      have "enum_at m0 m' (Some r') (tr @ [(ctap_msg (en_get_next_message m0), r')])" for r'
        using enum_at.enum_next [of r0 r v m0 n "[]" "[i]" "n - 1" r'] a(2) enum_begin ans v(2) col f lim big unat_pred [OF v(3)]
        by simp
      then show ?thesis using a enum_begin ans v(2) lim big enum_more [of tr r0 m0 r "[]" v n] by simp
    qed
  qed
next
  case (enum_next r0 r1 v n rs items left r)
  obtain payload where sp: "rd_status r = 0x9000" "rd_data r = 0 # payload"
    and nx: "Enumerate_get_next m payload = (m', Inr a)"
    using assms(4) enum_next(1,2) by (auto simp: Enumerate_next_def split_status_eq into_error_None split: sum.splits prod.splits option.splits)
  then obtain w i where w: "parse payload = Inr w" "en_parse_entry m0 w = Inr i"
    and x: "(if left - 1 = 0 then a = Action.Done (items @ [i])
             else a = Action.Command (ctap_msg (en_get_next_message m0))
               \<and> m' = m0\<lparr>en_stage := EGetNext, en_items := items @ [i], en_remaining := left - 1\<rparr>)"
    using enum_next(1) by (auto simp: Enumerate_get_next_def bindE_eq_Inr Let_def split: sum.splits if_splits)
  have col: "collected (en_parse_entry m0) (r1 # rs @ [r]) (items @ [i])"
    using collected_snoc [OF enum_next(7), of r w i] w sp by (simp add: answered_def)
  have len: "length items = length rs + 1" using enum_next(7) by (auto simp: collected_def dest: list_all2_lengthD)
  note p = unat_pred [OF enum_next(9)]
  have pos: "0 < unat left" using enum_next(9) by (simp add: unat_gt_0)
  show ?thesis
  proof (cases "left - 1 = 0")
    case True
    then have "unat left = 1" using p pos by simp
    then have "length (items @ [i]) = unat n" using enum_next(8) by simp
    then show ?thesis using True x enum_next col enum_done [of tr r0 m0 r1 "rs @ [r]" v n "items @ [i]"] by simp
  next
    case False
    then have "1 < unat left" using p by (metis diff_is_0_eq linorder_not_le unat_eq_zero)
    then have "enum_at m0 m' (Some r') (tr @ [(ctap_msg (en_get_next_message m0), r')])" for r'
      using enum_at.enum_next [of r0 r1 v m0 n "rs @ [r]" "items @ [i]" "left - 1" r'] enum_next False x p col by simp
    moreover have "length (rs @ [r]) + 1 < unat n" using enum_next(8) len \<open>1 < unat left\<close> by simp
    ultimately show ?thesis using False x enum_next enum_more [of tr r0 m0 r1 "rs @ [r]" v n] by simp
  qed
qed

lemma enumerate_start_facts:
  assumes "enumerate_operation begin_message get_next key entry opts = Inr op" "op_machine op = Some m0"
  shows "m0 = Enumerate_start begin_message get_next key entry opts" "validate_command ctap_select opts = Inr ()"
    "validate_command (ctap_msg begin_message) opts = Inr ()" "validate_command (ctap_msg get_next) opts = Inr ()"
  using assms
  by (auto simp: enumerate_operation_def Operation_from_machine_def bindE_eq_Inr OperationOptions_validate_def split: if_splits)

lemma enumerate_run:
  assumes "trace_run Enumerate_ops m0 m resp tr" "m_next Enumerate_ops m resp = (m', Inr a)"
    and "en_stage m0 = ESelect" "en_items m0 = []"
  shows "enum_action m0 tr a"
proof -
  have "enum_at m0 m resp tr"
    using assms(1)
  proof (rule machine_run_invariant)
    show "enum_at m0 m0 None []" by (rule enum_at.enum_start)
  next
    fix m resp tr m' c r tr'
    assume "enum_at m0 m resp tr" "m_next Enumerate_ops m resp = (m', Inr (Action.Command c))" "trace_env tr c r tr'"
    then show "enum_at m0 m' (Some r) tr'"
      using enum_step [of m0 m resp tr m' "Action.Command c"] assms(3,4)
      by (auto simp: Enumerate_ops_def plain_machine_def trace_env_def)
  qed
  from enum_step [OF this assms(3,4), of m' a] assms(2) show ?thesis by (simp add: Enumerate_ops_def plain_machine_def)
qed

section \<open>What the authenticator verifies\<close>

definition management_entries :: "byte \<Rightarrow> Value option \<Rightarrow> PinUvAuthProtocol \<Rightarrow> bytes \<Rightarrow> (Value \<times> Value) list" where
  "management_entries sub params protocol mac =
     (uint_value 1, uint_value (ucast sub)) # (case params of None \<Rightarrow> [] | Some p \<Rightarrow> [(uint_value 2, p)])
     @ [(uint_value 3, uint_value (ucast (PinUvAuthProtocol_to_u8 protocol))), (uint_value 4, Bytes mac)]"

lemma management_wf:
  assumes "\<And>p. params = Some p \<Longrightarrow> well_formed 2 p" "length mac < 2 ^ 64"
  shows "well_formed 1 (Map (management_entries sub params protocol mac))"
proof -
  let ?kvs = "(1, uint_value (ucast sub)) # (case params of None \<Rightarrow> [] | Some p \<Rightarrow> [(2, p)])
     @ [(3, uint_value (ucast (PinUvAuthProtocol_to_u8 protocol))), (4, Bytes mac)]"
  have "management_entries sub params protocol mac = map (\<lambda>(k, v). (Unsigned k, v)) ?kvs"
    by (simp add: management_entries_def uint_value_def split: option.split)
  moreover have "well_formed 1 (Map (map (\<lambda>(k, v). (Unsigned k, v)) ?kvs))"
    using assms by (intro wf_unsigned_keys) (auto simp: uint_value_def MAX_DEPTH_def split: option.split)
  ultimately show ?thesis by simp
qed

lemma management_lookups:
  "map_get_int (Map (management_entries sub params protocol mac)) 1 = Some (Unsigned (ucast sub))"
  "map_get_int (Map (management_entries sub params protocol mac)) 2 = params"
  "map_get_int (Map (management_entries sub params protocol mac)) 3 = Some (Unsigned (ucast (PinUvAuthProtocol_to_u8 protocol)))"
  "map_get_int (Map (management_entries sub params protocol mac)) 4 = Some (Bytes mac)"
  by (simp_all add: management_entries_def uint_value_def entry_lookups split: option.split)

definition verified_request :: "(bytes \<Rightarrow> bytes) \<Rightarrow> bytes \<Rightarrow> byte \<Rightarrow> Value option \<Rightarrow> PinUvAuthProtocol \<Rightarrow> bytes \<Rightarrow> bool" where
  "verified_request mac prefix sub params protocol bs \<longleftrightarrow>
     (\<exists>v. parse bs = Inr v \<and> map_get_int v 1 = Some (Unsigned (ucast sub)) \<and> map_get_int v 2 = map_option canon params
        \<and> map_get_int v 3 = Some (Unsigned (ucast (PinUvAuthProtocol_to_u8 protocol)))
        \<and> map_get_int v 4 = Some (Bytes (mac (prefix @ sub # (case map_get_int v 2 of None \<Rightarrow> [] | Some p \<Rightarrow> wire p)))))"

lemma management_verified:
  assumes "\<And>p. params = Some p \<Longrightarrow> well_formed 2 p" "\<And>m. length (mac m) < 2 ^ 64"
    and "encode (Map (management_entries sub params protocol (mac (prefix @ sub # raw)))) = Inr body" "length body \<le> usize_max"
    and "raw = (case params of None \<Rightarrow> [] | Some p \<Rightarrow> wire (canon p))"
  shows "verified_request mac prefix sub params protocol body"
proof -
  let ?es = "management_entries sub params protocol (mac (prefix @ sub # raw))"
  have wf: "well_formed 1 (Map ?es)" using assms(1,2) by (rule management_wf)
  have p: "parse body = Inr (canon (Map ?es))" by (rule encode_parse [OF wf assms(3,4)])
  let ?v = "canon (Map ?es)"
  have get: "map_get_int ?v 1 = Some (Unsigned (ucast sub))" "map_get_int ?v 2 = map_option canon params"
    "map_get_int ?v 3 = Some (Unsigned (ucast (PinUvAuthProtocol_to_u8 protocol)))"
    "map_get_int ?v 4 = Some (Bytes (mac (prefix @ sub # raw)))"
    unfolding map_get_int_canon [OF wf] management_lookups by simp_all
  have "raw = (case map_option canon params of None \<Rightarrow> [] | Some p \<Rightarrow> wire p)" using assms(5) by (cases params) simp_all
  then show ?thesis unfolding verified_request_def using p get by auto
qed

section \<open>Properties\<close>

text \<open>C10: an enumeration returns the complete list or no list. In every run the machine sends the selection,
the Begin request, and then only GetNext requests, each while the total of the Begin answer is not
reached and that total fits the exchange budget; when it finishes, either the authenticator said
there are no credentials and the list is empty, or the list has exactly the announced number of
entries, one per answer and in their order, each read from a successful answer.\<close>

theorem ctap_enumeration_complete:
  assumes "enumerate_operation begin_message get_next key entry opts = Inr op" "op_machine op = Some m0"
    and "trace_run Enumerate_ops m0 m resp tr" "m_next Enumerate_ops m resp = (m', Inr act)"
  shows "case act of
      Action.Command c \<Rightarrow> validate_command c opts = Inr () \<and>
        (tr = [] \<and> c = ctap_select
         \<or> (\<exists>r. tr = [(ctap_select, r)] \<and> rd_status r = 0x9000 \<and> c = ctap_msg begin_message)
         \<or> c = ctap_msg get_next \<and>
            (\<exists>r0 r1 rs v n. tr = (ctap_select, r0) # (ctap_msg begin_message, r1) # map (\<lambda>r. (ctap_msg get_next, r)) rs
              \<and> answered r1 v \<and> map_get_int v key = Some (Unsigned n)
              \<and> length rs + 1 < unat n \<and> unat n \<le> max_exchanges (limits opts) - 2 + 1))
    | Action.Done items \<Rightarrow>
        (\<exists>r0 r1 rs. tr = (ctap_select, r0) # (ctap_msg begin_message, r1) # map (\<lambda>r. (ctap_msg get_next, r)) rs
            \<and> rd_status r0 = 0x9000
            \<and> (rs = [] \<and> items = [] \<and> rd_status r1 = 0x9000 \<and> (\<exists>p. rd_data r1 = 0x2e # p)
               \<or> (\<exists>v n. answered r1 v \<and> map_get_int v key = Some (Unsigned n) \<and> length items = unat n
                    \<and> list_all2 (\<lambda>r i. \<exists>v. answered r v \<and> entry v = Inr i) (r1 # rs) items)))"
proof -
  note start = enumerate_start_facts [OF assms(1,2)]
  have "unat (en_max_get_next m0) \<le> max_exchanges (limits opts) - 2"
    by (simp add: start(1) Enumerate_start_def unat_of_nat)
  moreover have "enum_action m0 tr act"
    using enumerate_run [OF assms(3,4)] start(1) by (simp add: Enumerate_start_def)
  ultimately show ?thesis
    unfolding enum_action_def using start
    by (cases act) (fastforce simp: Enumerate_start_def collected_def)+
qed

text \<open>A management request verifies at the authenticator. The messages of credential management and of
configuration can be built for well-formed parameters, and a reader finds in them the subcommand, the
parameters, the protocol and an authentication parameter that equals the token's MAC recomputed over
what was received: the subcommand and the parameter bytes as they stand in the message, behind 32
bytes 0xff and the command byte for a configuration request.\<close>

theorem ctap_management_authenticated:
  assumes "crypto_ok C" "\<forall>p. params = Some p \<longrightarrow> well_formed 2 p"
  shows "(case cm_message C sub params protocol (Some token) of
      Inl _ \<Rightarrow> False
    | Inr msg \<Rightarrow> hd msg = 0x0a \<and> (length msg \<le> usize_max
        \<longrightarrow> verified_request (PinToken_authenticate C token protocol) [] sub params protocol (tl msg)))
    \<and> (case cfg_message C sub params protocol token of
      Inl _ \<Rightarrow> False
    | Inr msg \<Rightarrow> hd msg = 0x0d \<and> (length msg \<le> usize_max
        \<longrightarrow> verified_request (PinToken_authenticate C token protocol) (replicate 32 0xff @ [0x0d]) sub params protocol (tl msg)))"
proof -
  let ?mac = "PinToken_authenticate C token protocol"
  let ?raw = "case params of None \<Rightarrow> [] | Some p \<Rightarrow> wire (canon p)"
  have len: "length (?mac m) < 2 ^ 64" for m
    using assms(1) by (simp add: PinToken_authenticate_def pin_authenticate_def crypto_ok_def Let_def)
  have wf: "well_formed 2 p" if "params = Some p" for p using assms(2) that by simp
  have entry: "params_entry params = Inr (?raw, case params of None \<Rightarrow> [] | Some p \<Rightarrow> [(uint_value 2, p)])"
    using well_formed_encode [OF wf] by (simp add: params_entry_def split: option.split)
  have enc: "\<exists>body. encode (Map (management_entries sub params protocol (?mac m))) = Inr body" for m
    using well_formed_encode [OF management_wf [OF wf len]] by simp
  have ver: "verified_request ?mac prefix sub params protocol body"
    if "encode (Map (management_entries sub params protocol (?mac (prefix @ sub # ?raw)))) = Inr body" "length body \<le> usize_max" for prefix body
    using wf len that refl by (rule management_verified)
  obtain b1 b2 where b: "encode (Map (management_entries sub params protocol (?mac (sub # ?raw)))) = Inr b1"
    "encode (Map (management_entries sub params protocol (?mac (replicate 32 0xff @ 0x0d # sub # ?raw)))) = Inr b2"
    using enc by metis
  have m: "cm_message C sub params protocol (Some token) = Inr (0x0a # b1)"
    "cfg_message C sub params protocol token = Inr (0x0d # b2)"
    using b by (simp_all add: cm_message_def cfg_message_def entry management_entries_def COMMAND_CREDENTIAL_MANAGEMENT_def COMMAND_CONFIG_def)
  show ?thesis
    unfolding m using ver [of "[]" b1] ver [of "replicate 32 0xff @ [0x0d]" b2] b by simp
qed

theorem ctap_management_authenticated_witness:
  "crypto_ok demo_crypto \<and> well_formed 2 (Map [(Unsigned 1, Unsigned 8)])
   \<and> (\<exists>msg. cfg_message demo_crypto 0x03 (Some (Map [(Unsigned 1, Unsigned 8)])) V1 (replicate 32 6) = Inr (0x0d # msg))"
proof -
  have h: "crypto_ok demo_crypto" "well_formed 2 (Map [(Unsigned 1, Unsigned 8)])"
    by (simp_all add: crypto_ok_def demo_crypto_def MAX_DEPTH_def)
  obtain msg where m: "cfg_message demo_crypto 0x03 (Some (Map [(Unsigned 1, Unsigned 8)])) V1 (replicate 32 6) = Inr msg" "hd msg = 0x0d"
    using ctap_management_authenticated [where C = demo_crypto and params = "Some (Map [(Unsigned 1, Unsigned 8)])" and sub = "0x03" and protocol = V1 and token = "replicate 32 6"] h
    by (fastforce simp del: well_formed.simps split: sum.splits)
  then have "msg \<noteq> []" by (auto simp: cfg_message_def bindE_eq_Inr split: prod.splits)
  then show ?thesis using h m by (cases msg) auto
qed

text \<open>A run that reads two relying parties.\<close>

definition demo_rp :: "byte \<Rightarrow> Value" where
  "demo_rp b = Map [(Unsigned 3, Map [(Text T_ID, Text [0x61])]), (Unsigned 4, Bytes (replicate 32 b)), (Unsigned 5, Unsigned 2)]"

definition demo_entry :: "byte \<Rightarrow> RpEntry" where
  "demo_entry b = \<lparr>re_rp = \<lparr>rp_id = [0x61], rp_name = None\<rparr>, re_rp_id_hash = replicate 32 b\<rparr>"

lemma demo_rp_facts:
  "parse (wire (demo_rp b)) = Inr (demo_rp b)" "parse_rp_entry (demo_rp b) = Inr (demo_entry b)"
  "map_get_int (demo_rp b) 5 = Some (Unsigned 2)" "as_map (demo_rp b) \<noteq> None"
proof -
  have "well_formed 1 (demo_rp b)"
    by (simp add: demo_rp_def T_ID_def ascii_def MAX_DEPTH_def encode_def encode_into.simps head_def)
  moreover have "length (wire (demo_rp b)) \<le> usize_max"
    by (simp add: demo_rp_def T_ID_def ascii_def head_def usize_max_def)
  ultimately show "parse (wire (demo_rp b)) = Inr (demo_rp b)" by (simp add: parse_wire)
  show "parse_rp_entry (demo_rp b) = Inr (demo_entry b)"
    using ctap_texts(4)
    by (simp add: demo_rp_def parse_rp_entry_def demo_entry_def entry_lookups required_def opt_text_member_def map_get_text_def)
  show "map_get_int (demo_rp b) 5 = Some (Unsigned 2)" "as_map (demo_rp b) \<noteq> None"
    by (simp_all add: demo_rp_def entry_lookups)
qed

theorem ctap_enumeration_complete_witness:
  "\<exists>op m0 m resp tr m'. enumerate_operation [0x0a] [0x0a, 0xa0] 5 parse_rp_entry OperationOptions_default = Inr op \<and> op_machine op = Some m0
     \<and> trace_run Enumerate_ops m0 m resp tr \<and> m_next Enumerate_ops m resp = (m', Inr (Action.Done [demo_entry 1, demo_entry 2]))
     \<and> length tr = 3"
proof -
  let ?ok = "\<lparr>rd_data = [], rd_status = 0x9000\<rparr> :: ResponseData"
  let ?r = "\<lambda>b. \<lparr>rd_data = 0 # wire (demo_rp b), rd_status = 0x9000\<rparr> :: ResponseData"
  let ?m0 = "Enumerate_start [0x0a] [0x0a, 0xa0] 5 parse_rp_entry OperationOptions_default"
  have v: "validate_command (ctap_msg [0x0a]) OperationOptions_default = Inr ()"
    "validate_command (ctap_msg [0x0a, 0xa0]) OperationOptions_default = Inr ()"
    by (rule ctap_commands_default; simp)+
  have "2 \<le> max_input_bytes (limits OperationOptions_default)" by (simp add: OperationOptions_default_def OperationLimits_default_def)
  then obtain op where op: "enumerate_operation [0x0a] [0x0a, 0xa0] 5 parse_rp_entry OperationOptions_default = Inr op" "op_machine op = Some ?m0"
    using v ctap_commands_default(1) by (simp add: enumerate_operation_def Operation_from_machine_def)
  let ?mid = "?m0\<lparr>en_stage := EGetNext, en_items := [demo_entry 1], en_remaining := 1\<rparr>"
  note step = Enumerate_ops_def plain_machine_def Enumerate_next_def Enumerate_start_def Enumerate_begin_def Enumerate_get_next_def
    split_status_def ResponseData_ensure_success_def StatusWord_is_success_def STATUS_NO_CREDENTIALS_def CtapStatus_into_error_def
    CtapStatus_is_success_def demo_rp_facts required_def Let_def word_less_nat_alt
  let ?tr = "[(ctap_select, ?ok), (ctap_msg [0x0a], ?r 1), (ctap_msg [0x0a, 0xa0], ?r 2)]"
  have "replay Enumerate_ops ?m0 None [?ok, ?r 1, ?r 2] [] = (?mid, Some (?r 2), ?tr)" by (simp add: step)
  then have run: "trace_run Enumerate_ops ?m0 ?mid (Some (?r 2)) ?tr" by (rule replay_from_start)
  have nx: "m_next Enumerate_ops ?mid (Some (?r 2)) = (?mid\<lparr>en_items := [], en_remaining := 0\<rparr>, Inr (Action.Done [demo_entry 1, demo_entry 2]))"
    by (simp add: step)
  have "length ?tr = 3" by simp
  then show ?thesis using ctap_enumeration_complete [OF op run nx] op run nx by blast
qed

end
