(* ===== verification/Ctap_Blob.thy ===== *)
theory Ctap_Blob
  imports Ctap_Management
begin

text \<open>
  The large-blob array (\<open>canokey-ctap/src/largeblob.rs\<close>): fragmented reads and writes of one byte
  string. Sizes are \<open>nat\<close> where the code has \<open>usize\<close> and 64-bit words where it has \<open>u64\<close>. The
  specification is \<open>blob_card\<close>, an authenticator that keeps the array and follows the firmware rules
  the module documents: offsets in sequence, the total with the first fragment only, the MAC over each
  fragment, and the commit of a complete array whose trailer fits.
\<close>

section \<open>Messages\<close>

definition COMMAND_LARGE_BLOBS :: byte where "COMMAND_LARGE_BLOBS = 0x0c"
definition MAX_LARGE_BLOB_ARRAY_BYTES :: nat where "MAX_LARGE_BLOB_ARRAY_BYTES = 4096"
definition MIN_LARGE_BLOB_ARRAY_BYTES :: nat where "MIN_LARGE_BLOB_ARRAY_BYTES = 17"
definition DEFAULT_MAX_FRAGMENT_LENGTH :: nat where "DEFAULT_MAX_FRAGMENT_LENGTH = 1024"
definition READ_RESPONSE_OVERHEAD :: nat where "READ_RESPONSE_OVERHEAD = 16"
definition WRITE_MESSAGE_OVERHEAD :: nat where "WRITE_MESSAGE_OVERHEAD = 64"

definition get_message :: "64 word \<Rightarrow> 64 word \<Rightarrow> bytes res" where
  "get_message offset len =
     bindE (encode (Map [(uint_value 1, uint_value len), (uint_value 3, uint_value offset)])) (\<lambda>bs.
       Inr (COMMAND_LARGE_BLOBS # bs))"

definition u32_le_bytes :: "32 word \<Rightarrow> bytes" where
  "u32_le_bytes n = [ucast n, ucast (drop_bit 8 n), ucast (drop_bit 16 n), ucast (drop_bit 24 n)]"

definition blob_mac_input :: "CtapCrypto \<Rightarrow> bytes \<Rightarrow> 64 word \<Rightarrow> bytes" where
  "blob_mac_input C fragment offset =
     replicate 32 0xff @ [COMMAND_LARGE_BLOBS, 0x00] @ u32_le_bytes (ucast offset) @ cc_sha256 C fragment"

definition set_auth_entries ::
  "CtapCrypto \<Rightarrow> bytes \<Rightarrow> 64 word \<Rightarrow> (PinToken \<times> PinUvAuthProtocol) option \<Rightarrow> (Value \<times> Value) list res" where
  "set_auth_entries C fragment offset token =
     (case token of
        None \<Rightarrow> Inr []
      | Some (t, protocol) \<Rightarrow>
          if unat offset \<ge> 2 ^ 32 then Inl ctap_argument
          else Inr [(uint_value 5, Bytes (PinToken_authenticate C t protocol (blob_mac_input C fragment offset))),
                    (uint_value 6, uint_value (ucast (PinUvAuthProtocol_to_u8 protocol)))])"

definition set_message ::
  "CtapCrypto \<Rightarrow> bytes \<Rightarrow> 64 word \<Rightarrow> 64 word option \<Rightarrow> (PinToken \<times> PinUvAuthProtocol) option \<Rightarrow> bytes res" where
  "set_message C fragment offset total_len token =
     bindE (set_auth_entries C fragment offset token) (\<lambda>auth.
     bindE (encode (Map ([(uint_value 2, Bytes fragment), (uint_value 3, uint_value offset)]
              @ (case total_len of None \<Rightarrow> [] | Some n \<Rightarrow> [(uint_value 4, uint_value n)]) @ auth))) (\<lambda>bs.
       Inr (COMMAND_LARGE_BLOBS # bs)))"

definition parse_config :: "bytes \<Rightarrow> bytes res" where
  "parse_config bs =
     bindE (parse bs) (\<lambda>v.
     bindE (ok_or (map_get_int v 1) cbor_invalid) (\<lambda>c. ok_or (as_bytes c) cbor_invalid))"

section \<open>The machines\<close>

datatype BlobStage = BSelect | BExchange

record ReadArray =
  ra_stage :: BlobStage
  ra_chunk :: "64 word"
  ra_offset :: "64 word"
  ra_remaining_reads :: nat
  ra_buffer :: bytes

definition ReadArray_command :: "ReadArray \<Rightarrow> bytes Action res" where
  "ReadArray_command m =
     bindE (get_message (ra_offset m) (ra_chunk m)) (\<lambda>msg. Inr (Action.Command (ctap_msg msg)))"

definition ReadArray_accept :: "ReadArray \<Rightarrow> bytes \<Rightarrow> ReadArray \<times> bytes Action res" where
  "ReadArray_accept m bs =
     (if length bs > unat (ra_chunk m) then (m, Inl cbor_invalid)
      else if length (ra_buffer m) + length bs > MAX_LARGE_BLOB_ARRAY_BYTES
      then (m, Inl (Error_at (Error_new LimitExceeded) Phase.Parsing))
      else
        (let m1 = m\<lparr>ra_buffer := ra_buffer m @ bs\<rparr> in
         if length bs < unat (ra_chunk m) then (m1\<lparr>ra_buffer := []\<rparr>, Inr (Action.Done (ra_buffer m1)))
         else if ra_remaining_reads m = 0 then (m1, Inl (Error_at (Error_new LimitExceeded) Phase.Parsing))
         else
           (let m2 = m1\<lparr>ra_remaining_reads := ra_remaining_reads m - 1, ra_offset := ra_offset m + ra_chunk m\<rparr> in
            (m2, ReadArray_command m2))))"

definition ReadArray_next :: "ReadArray \<Rightarrow> ResponseData option \<Rightarrow> ReadArray \<times> bytes Action res" where
  "ReadArray_next m response =
     (case ra_stage m of
        BSelect \<Rightarrow>
          (case response of
             None \<Rightarrow> (m, Inr (Action.Command ctap_select))
           | Some r \<Rightarrow>
               (case ResponseData_ensure_success r Phase.Select of
                  Inl e \<Rightarrow> (m, Inl e)
                | Inr _ \<Rightarrow> (m\<lparr>ra_stage := BExchange\<rparr>, ReadArray_command (m\<lparr>ra_stage := BExchange\<rparr>))))
      | BExchange \<Rightarrow>
          (case bindE (ok_or response (Error_new ProtocolViolation)) split_status of
             Inl e \<Rightarrow> (m, Inl e)
           | Inr (status, payload) \<Rightarrow>
               (case CtapStatus_into_error status Phase.Command of
                  Some e \<Rightarrow> (m, Inl e)
                | None \<Rightarrow>
                    (case parse_config payload of
                       Inl e \<Rightarrow> (m, Inl e)
                     | Inr bs \<Rightarrow> ReadArray_accept m bs))))"

definition ReadArray_ops :: "(ReadArray, bytes) Machine" where
  "ReadArray_ops = plain_machine ReadArray_next"

record WriteArray =
  wa_stage :: BlobStage
  wa_messages :: "bytes list"

definition WriteArray_fragment :: "WriteArray \<Rightarrow> WriteArray \<times> unit Action res" where
  "WriteArray_fragment m =
     (case wa_messages m of
        msg # rest \<Rightarrow> (m\<lparr>wa_messages := rest\<rparr>, Inr (Action.Command (ctap_msg msg)))
      | [] \<Rightarrow> (m, Inr (Action.Done ())))"

definition WriteArray_next :: "WriteArray \<Rightarrow> ResponseData option \<Rightarrow> WriteArray \<times> unit Action res" where
  "WriteArray_next m response =
     (case wa_stage m of
        BSelect \<Rightarrow>
          (case response of
             None \<Rightarrow> (m, Inr (Action.Command ctap_select))
           | Some r \<Rightarrow>
               (case ResponseData_ensure_success r Phase.Select of
                  Inl e \<Rightarrow> (m, Inl e)
                | Inr _ \<Rightarrow> WriteArray_fragment (m\<lparr>wa_stage := BExchange\<rparr>)))
      | BExchange \<Rightarrow>
          (case bindE (ok_or response (Error_new ProtocolViolation)) split_status of
             Inl e \<Rightarrow> (m, Inl e)
           | Inr (status, payload) \<Rightarrow>
               (case CtapStatus_into_error status Phase.Command of
                  Some e \<Rightarrow> (m, Inl e)
                | None \<Rightarrow> if payload \<noteq> [] then (m, Inl cbor_invalid) else WriteArray_fragment m)))"

definition WriteArray_ops :: "(WriteArray, unit) Machine" where
  "WriteArray_ops = plain_machine WriteArray_next"

section \<open>Factories\<close>

definition read_chunk_size :: "OperationOptions \<Rightarrow> nat" where
  "read_chunk_size opts = min DEFAULT_MAX_FRAGMENT_LENGTH (max_response_bytes (exchange opts) - READ_RESPONSE_OVERHEAD)"

definition ReadArray_start :: "nat \<Rightarrow> OperationOptions \<Rightarrow> ReadArray" where
  "ReadArray_start chunk opts =
     \<lparr>ra_stage = BSelect, ra_chunk = of_nat chunk, ra_offset = 0,
      ra_remaining_reads = max_exchanges (limits opts) - 1, ra_buffer = []\<rparr>"

definition read_array :: "OperationOptions \<Rightarrow> (ReadArray, bytes) Operation res" where
  "read_array opts =
     bindE (OperationOptions_validate opts) (\<lambda>opts.
       let chunk = read_chunk_size opts in
       if chunk = 0 then Inl (Error_new LimitExceeded) else
       bindE (get_message 0 (of_nat chunk)) (\<lambda>message.
       if length message > max_input_bytes (limits opts) then Inl (Error_new LimitExceeded) else
       bindE (get_message (of_nat MAX_LARGE_BLOB_ARRAY_BYTES + of_nat chunk) (of_nat chunk)) (\<lambda>last.
       bindE (collectE (\<lambda>message. validate_command (ctap_msg message) opts) [message, last]) (\<lambda>_.
       bindE (validate_command ctap_select opts) (\<lambda>_.
         Operation_from_machine (ReadArray_start chunk opts) opts)))))"

definition read_chunk_message :: "64 word \<Rightarrow> nat \<Rightarrow> bytes res" where
  "read_chunk_message offset len =
     (if len = 0 \<or> len > DEFAULT_MAX_FRAGMENT_LENGTH then Inl ctap_argument else get_message offset (of_nat len))"

definition read_blob_chunk :: "64 word \<Rightarrow> nat \<Rightarrow> OperationOptions \<Rightarrow> (bytes CtapSequence, bytes) Operation res" where
  "read_blob_chunk offset len opts =
     bindE (read_chunk_message offset len) (\<lambda>message. select_then message opts (\<lambda>r. typed r parse_config))"

text \<open>The loop over the fragments; only the one at offset 0 carries the total.\<close>

fun write_messages ::
  "CtapCrypto \<Rightarrow> (PinToken \<times> PinUvAuthProtocol) option \<Rightarrow> OperationOptions \<Rightarrow> 64 word \<Rightarrow> 64 word \<Rightarrow> bytes list \<Rightarrow> bytes list res"
where
  "write_messages C token opts total_len offset [] = Inr []"
| "write_messages C token opts total_len offset (chunk # rest) =
     bindE (set_message C chunk offset (if offset = 0 then Some total_len else None) token) (\<lambda>message.
     if length message > max_input_bytes (limits opts) then Inl (Error_new LimitExceeded) else
     bindE (validate_command (ctap_msg message) opts) (\<lambda>_.
     bindE (write_messages C token opts total_len (offset + of_nat (length chunk)) rest) (\<lambda>messages.
       Inr (message # messages))))"

definition write_fragment_size :: "OperationOptions \<Rightarrow> nat" where
  "write_fragment_size opts = min DEFAULT_MAX_FRAGMENT_LENGTH (max_input_bytes (limits opts) - WRITE_MESSAGE_OVERHEAD)"

definition write_array ::
  "CtapCrypto \<Rightarrow> bytes \<Rightarrow> (PinToken \<times> PinUvAuthProtocol) option \<Rightarrow> OperationOptions \<Rightarrow> (WriteArray, unit) Operation res" where
  "write_array C data token opts =
     (if \<not> (MIN_LARGE_BLOB_ARRAY_BYTES \<le> length data \<and> length data \<le> MAX_LARGE_BLOB_ARRAY_BYTES) then Inl ctap_argument else
      bindE (OperationOptions_validate opts) (\<lambda>opts.
        let fragment = write_fragment_size opts in
        if fragment = 0 then Inl (Error_new LimitExceeded) else
        bindE (write_messages C token opts (of_nat (length data)) 0 (chunks fragment data)) (\<lambda>messages.
        if length messages > max_exchanges (limits opts) - 1 then Inl (Error_new LimitExceeded) else
        bindE (validate_command ctap_select opts) (\<lambda>_.
          Operation_from_machine \<lparr>wa_stage = BSelect, wa_messages = messages\<rparr> opts))))"

interpretation rc: one_message "\<lambda>(offset, len). read_blob_chunk offset len"
  "\<lambda>(offset, len). read_chunk_message offset len" "\<lambda>_. parse_config"
  by unfold_locales (simp add: read_blob_chunk_def split: prod.split)

section \<open>The authenticator\<close>

text \<open>A total and the fragments received so far, until the array is complete.\<close>

record BlobStore =
  bs_array :: bytes
  bs_pending :: "(nat \<times> bytes) option"

definition blob_verified ::
  "CtapCrypto \<Rightarrow> (PinToken \<times> PinUvAuthProtocol) option \<Rightarrow> Value \<Rightarrow> bytes \<Rightarrow> 64 word \<Rightarrow> bool" where
  "blob_verified C auth v fragment offset \<longleftrightarrow>
     (case auth of
        None \<Rightarrow> True
      | Some (t, protocol) \<Rightarrow>
          map_get_int v 5 = Some (Bytes (PinToken_authenticate C t protocol
            (replicate 32 0xff @ [0x0c, 0x00] @ u32_le_bytes (ucast offset) @ cc_sha256 C fragment)))
          \<and> map_get_int v 6 = Some (Unsigned (ucast (PinUvAuthProtocol_to_u8 protocol))))"

definition trailer_ok :: "CtapCrypto \<Rightarrow> bytes \<Rightarrow> bool" where
  "trailer_ok C data \<longleftrightarrow> drop (length data - 16) data = take 16 (cc_sha256 C (take (length data - 16) data))"

definition blob_append :: "CtapCrypto \<Rightarrow> BlobStore \<Rightarrow> nat \<Rightarrow> bytes \<Rightarrow> bytes \<Rightarrow> byte \<times> BlobStore" where
  "blob_append C s n buf fragment =
     (let buf' = buf @ fragment in
      if length buf' > n then (0x02, s)
      else if length buf' < n then (0x00, s\<lparr>bs_pending := Some (n, buf')\<rparr>)
      else if trailer_ok C buf' then (0x00, \<lparr>bs_array = buf', bs_pending = None\<rparr>)
      else (0x3d, s\<lparr>bs_pending := None\<rparr>))"

definition blob_set :: "CtapCrypto \<Rightarrow> (PinToken \<times> PinUvAuthProtocol) option \<Rightarrow> BlobStore \<Rightarrow> Value \<Rightarrow> byte \<times> BlobStore" where
  "blob_set C auth s v =
     (case (map_get_int v 2, map_get_int v 3) of
        (Some (Bytes fragment), Some (Unsigned offset)) \<Rightarrow>
          if \<not> blob_verified C auth v fragment offset then (0x33, s)
          else if offset = 0 then
            (case map_get_int v 4 of
               Some (Unsigned n) \<Rightarrow> if unat n < 17 then (0x02, s) else if unat n > 4096 then (0x18, s)
                                  else blob_append C s (unat n) [] fragment
             | _ \<Rightarrow> (0x02, s))
          else if map_get_int v 4 \<noteq> None then (0x02, s)
          else (case bs_pending s of
                  Some (n, buf) \<Rightarrow> if length buf = unat offset then blob_append C s n buf fragment else (0x04, s)
                | None \<Rightarrow> (0x04, s))
      | _ \<Rightarrow> (0x14, s))"

definition blob_get :: "BlobStore \<Rightarrow> 64 word \<Rightarrow> Value option \<Rightarrow> bytes" where
  "blob_get s n offset =
     (case offset of
        Some (Unsigned k) \<Rightarrow>
          if unat k > length (bs_array s) then [0x02]
          else 0x00 # wire (Map [(Unsigned 1, Bytes (take (unat n) (drop (unat k) (bs_array s))))])
      | _ \<Rightarrow> [0x14])"

definition blob_card ::
  "CtapCrypto \<Rightarrow> (PinToken \<times> PinUvAuthProtocol) option \<Rightarrow> BlobStore \<Rightarrow> LogicalCommand \<Rightarrow> ResponseData \<times> BlobStore" where
  "blob_card C auth s c =
     (if c = ctap_select then (\<lparr>rd_data = [], rd_status = 0x9000\<rparr>, s)
      else
        (case lc_data c of
           cmd # bs \<Rightarrow>
             if cmd \<noteq> 0x0c then (\<lparr>rd_data = [0x01], rd_status = 0x9000\<rparr>, s)
             else
               (case parse bs of
                  Inl _ \<Rightarrow> (\<lparr>rd_data = [0x12], rd_status = 0x9000\<rparr>, s)
                | Inr v \<Rightarrow>
                    (case map_get_int v 1 of
                       Some (Unsigned n) \<Rightarrow> (\<lparr>rd_data = blob_get s n (map_get_int v 3), rd_status = 0x9000\<rparr>, s)
                     | _ \<Rightarrow> (case blob_set C auth s v of (st, s') \<Rightarrow> (\<lparr>rd_data = [st], rd_status = 0x9000\<rparr>, s'))))
         | [] \<Rightarrow> (\<lparr>rd_data = [], rd_status = 0x6700\<rparr>, s)))"

section \<open>What the authenticator reads\<close>

lemma ctap_msg_facts [simp]: "ctap_msg m \<noteq> ctap_select" "lc_data (ctap_msg m) = m"
  by (simp_all add: ctap_msg_def ctap_select_def LogicalCommand_new_def ApduHeader_new_def)

lemma head_short: "length (head k n) \<le> 9"
  by (simp add: head_form head_info_def)

lemma get_message_read:
  "\<exists>bs v. get_message offset len = Inr (0x0c # bs) \<and> parse bs = Inr v \<and> map_get_int v 1 = Some (Unsigned len)
     \<and> map_get_int v 3 = Some (Unsigned offset)"
proof -
  let ?es = "[(uint_value 1, uint_value len), (uint_value 3, uint_value offset)]"
  have "well_formed 1 (Map (map (\<lambda>(k, v). (Unsigned k, v)) [(1, Unsigned len), (3, Unsigned offset)]))"
    by (rule wf_unsigned_keys) (simp_all add: MAX_DEPTH_def)
  then have wf: "well_formed 1 (Map ?es)" by (simp add: uint_value_def)
  obtain bs where bs: "encode (Map ?es) = Inr bs" using well_formed_encode [OF wf] by simp
  have "length (head 0 len) \<le> 9" "length (head 0 offset) \<le> 9" "length (head 0 1) \<le> 9" "length (head 0 3) \<le> 9" "length (head 5 2) \<le> 9"
    by (rule head_short)+
  then have "length (wire (Map ?es)) \<le> 45" by (simp add: uint_value_def)
  moreover have "length bs = length (wire (Map ?es))"
    using bs well_formed_encode [OF wf] wire_canon_length [of "Map ?es"] by simp
  ultimately have "parse bs = Inr (canon (Map ?es))"
    using encode_parse [OF wf bs] by (simp add: usize_max_def del: canon.simps)
  moreover have "map_get_int (Map ?es) 1 = Some (Unsigned len)" "map_get_int (Map ?es) 3 = Some (Unsigned offset)"
    by (simp_all add: entry_lookups uint_value_def)
  ultimately show ?thesis
    using bs by (auto simp: get_message_def COMMAND_LARGE_BLOBS_def map_get_int_canon [OF wf] simp del: canon.simps(2))
qed

lemma set_message_read:
  assumes "set_message C fragment offset n token = Inr msg" "crypto_ok C" "length fragment < 2 ^ 64" "length msg \<le> usize_max"
  shows "\<exists>bs v. msg = 0x0c # bs \<and> parse bs = Inr v \<and> map_get_int v 1 = None \<and> map_get_int v 2 = Some (Bytes fragment)
    \<and> map_get_int v 3 = Some (Unsigned offset) \<and> map_get_int v 4 = map_option Unsigned n \<and> blob_verified C token v fragment offset"
proof -
  obtain auth bs where auth: "set_auth_entries C fragment offset token = Inr auth" and msg: "msg = 0x0c # bs"
    and enc: "encode (Map ([(uint_value 2, Bytes fragment), (uint_value 3, uint_value offset)]
              @ (case n of None \<Rightarrow> [] | Some n \<Rightarrow> [(uint_value 4, uint_value n)]) @ auth)) = Inr bs" (is "encode (Map ?es) = _")
    using assms(1) by (auto simp: set_message_def bindE_eq_Inr COMMAND_LARGE_BLOBS_def)
  define akv where "akv = (case token of None \<Rightarrow> []
    | Some (t, protocol) \<Rightarrow> [(5 :: 64 word, Bytes (PinToken_authenticate C t protocol (blob_mac_input C fragment offset))),
        (6, Unsigned (ucast (PinUvAuthProtocol_to_u8 protocol)))])"
  have a: "auth = map (\<lambda>(k, v). (Unsigned k, v)) akv"
    using auth by (auto simp: set_auth_entries_def akv_def uint_value_def split: option.splits if_splits)
  have mac: "length (PinToken_authenticate C t protocol x) < 2 ^ 64" for t protocol x
    using assms(2) by (simp add: PinToken_authenticate_def pin_authenticate_def crypto_ok_def Let_def)
  let ?kvs = "[(2, Bytes fragment), (3, Unsigned offset)] @ (case n of None \<Rightarrow> [] | Some n \<Rightarrow> [(4, Unsigned n)]) @ akv"
  have es: "?es = map (\<lambda>(k, v). (Unsigned k, v)) ?kvs"
    using a by (simp add: uint_value_def split: option.split)
  have wf: "well_formed 1 (Map ?es)"
    unfolding es using assms(3) mac
    by (intro wf_unsigned_keys) (auto simp: akv_def MAX_DEPTH_def split: option.split)
  have p: "parse bs = Inr (canon (Map ?es))" using encode_parse [OF wf enc] assms(4) msg by simp
  have get: "map_get_int (Map ?es) 1 = None" "map_get_int (Map ?es) 2 = Some (Bytes fragment)" "map_get_int (Map ?es) 3 = Some (Unsigned offset)"
    "map_get_int (Map ?es) 4 = map_option Unsigned n"
    "\<And>t protocol. token = Some (t, protocol) \<Longrightarrow>
       map_get_int (Map ?es) 5 = Some (Bytes (PinToken_authenticate C t protocol (blob_mac_input C fragment offset)))
       \<and> map_get_int (Map ?es) 6 = Some (Unsigned (ucast (PinUvAuthProtocol_to_u8 protocol)))"
    unfolding es by (auto simp: akv_def entry_lookups split: option.split)
  let ?v = "canon (Map ?es)"
  have gv: "map_get_int ?v i = map_option canon (map_get_int (Map ?es) i)" for i by (rule map_get_int_canon [OF wf])
  have "blob_verified C token ?v fragment offset"
    unfolding blob_verified_def gv using get(5)
    by (auto simp: blob_mac_input_def COMMAND_LARGE_BLOBS_def split: option.split)
  moreover have "map_get_int ?v 1 = None" "map_get_int ?v 2 = Some (Bytes fragment)" "map_get_int ?v 3 = Some (Unsigned offset)"
    "map_get_int ?v 4 = map_option Unsigned n"
    unfolding gv get(1-4) by (simp_all add: option.map_comp comp_def)
  ultimately show ?thesis using msg p by blast
qed

section \<open>Writing\<close>

abbreviation blob_ack :: ResponseData where
  "blob_ack \<equiv> \<lparr>rd_data = [0], rd_status = 0x9000\<rparr>"

text \<open>One fragment at the card: the array is untouched until the last one.\<close>

lemma card_takes_fragment:
  assumes "set_message C c (of_nat (length buf)) (if of_nat (length buf) = (0 :: 64 word) then Some (of_nat n) else None) token = Inr msg"
    and "crypto_ok C" "length msg \<le> usize_max" "auth = None \<or> auth = token"
    and "17 \<le> n" "n \<le> 4096" "length buf + length c \<le> n" "buf = [] \<or> bs_pending s = Some (n, buf)"
    and "length buf + length c = n \<Longrightarrow> trailer_ok C (buf @ c)"
  shows "blob_card C auth s (ctap_msg msg) = (blob_ack,
    if length buf + length c = n then \<lparr>bs_array = buf @ c, bs_pending = None\<rparr> else s\<lparr>bs_pending := Some (n, buf @ c)\<rparr>)"
proof -
  have small: "unat (of_nat (length buf) :: 64 word) = length buf" "unat (of_nat n :: 64 word) = n"
    using assms(6,7) by (simp_all add: unat_of_nat)
  have zero: "of_nat (length buf) = (0 :: 64 word) \<longleftrightarrow> buf = []" using small(1) by (metis length_0_conv unat_eq_zero)
  have "length c < 2 ^ 64" using assms(6,7) by simp
  then obtain bs v where v: "msg = 0x0c # bs" "parse bs = Inr v" "map_get_int v 1 = None" "map_get_int v 2 = Some (Bytes c)"
    "map_get_int v 3 = Some (Unsigned (of_nat (length buf)))" "map_get_int v 4 = map_option Unsigned (if buf = [] then Some (of_nat n) else None)"
    "blob_verified C token v c (of_nat (length buf))"
    using set_message_read [OF assms(1,2) _ assms(3)] zero by auto
  have "blob_verified C auth v c (of_nat (length buf))" using v(7) assms(4) by (auto simp: blob_verified_def)
  then have "blob_set C auth s v = blob_append C s n buf c"
    using v zero small assms(5,6,8) by (auto simp: blob_set_def)
  also have "\<dots> = (0x00, if length buf + length c = n then \<lparr>bs_array = buf @ c, bs_pending = None\<rparr> else s\<lparr>bs_pending := Some (n, buf @ c)\<rparr>)"
    using assms(7,9) by (auto simp: blob_append_def)
  finally show ?thesis using v(1-3) by (simp add: blob_card_def)
qed

lemma write_step:
  "WriteArray_next \<lparr>wa_stage = BExchange, wa_messages = msgs\<rparr> (Some blob_ack)
     = WriteArray_fragment \<lparr>wa_stage = BExchange, wa_messages = msgs\<rparr>"
  by (simp add: WriteArray_next_def split_status_def ResponseData_ensure_success_def StatusWord_is_success_def
      CtapStatus_into_error_def CtapStatus_is_success_def)

lemma write_loop:
  assumes "write_messages C token opts (of_nat n) (of_nat (length buf)) cs = Inr msgs"
    and "crypto_ok C" "max_input_bytes (limits opts) \<le> usize_max" "auth = None \<or> auth = token"
    and "17 \<le> n" "n \<le> 4096" "length buf + length (concat cs) = n" "buf = [] \<or> bs_pending s = Some (n, buf)"
    and "trailer_ok C (buf @ concat cs)" "[] \<notin> set cs" "length msgs < k"
  shows "machine_exec k WriteArray_ops (blob_card C auth) \<lparr>wa_stage = BExchange, wa_messages = msgs\<rparr> (Some blob_ack) s
    = Some (\<lparr>wa_stage = BExchange, wa_messages = []\<rparr>, Some blob_ack,
        if cs = [] then s else \<lparr>bs_array = buf @ concat cs, bs_pending = None\<rparr>, Inr (Action.Done ()))"
  using assms(1,7-)
proof (induction cs arbitrary: buf msgs s k)
  case Nil
  then obtain j where "k = Suc j" by (cases k) auto
  then show ?case using Nil by (simp add: WriteArray_ops_def plain_machine_def write_step WriteArray_fragment_def)
next
  case (Cons c cs)
  obtain msg rest where set: "set_message C c (of_nat (length buf)) (if of_nat (length buf) = (0 :: 64 word) then Some (of_nat n) else None) token = Inr msg"
    and len: "length msg \<le> usize_max" and rest: "write_messages C token opts (of_nat n) (of_nat (length (buf @ c))) cs = Inr rest"
    and msgs: "msgs = msg # rest"
    using Cons.prems(1) assms(3) by (auto simp: bindE_eq_Inr split: if_splits)
  obtain j where j: "k = Suc j" "length rest < j" using Cons.prems(6) msgs by (cases k) auto
  have last: "length buf + length c = n \<longleftrightarrow> cs = []"
    using Cons.prems(2,5) by (cases cs) auto
  let ?s = "if cs = [] then \<lparr>bs_array = buf @ c, bs_pending = None\<rparr> else s\<lparr>bs_pending := Some (n, buf @ c)\<rparr>"
  have card: "blob_card C auth s (ctap_msg msg) = (blob_ack, ?s)"
  proof -
    have "length buf + length c \<le> n" "length buf + length c = n \<Longrightarrow> trailer_ok C (buf @ c)"
      using Cons.prems(2,4) last by auto
    from card_takes_fragment [OF set assms(2) len assms(4-6) this(1) Cons.prems(3) this(2)] last show ?thesis by simp
  qed
  have "machine_exec j WriteArray_ops (blob_card C auth) \<lparr>wa_stage = BExchange, wa_messages = rest\<rparr> (Some blob_ack) ?s
    = Some (\<lparr>wa_stage = BExchange, wa_messages = []\<rparr>, Some blob_ack,
        if cs = [] then ?s else \<lparr>bs_array = (buf @ c) @ concat cs, bs_pending = None\<rparr>, Inr (Action.Done ()))"
  proof (cases "cs = []")
    case True
    then obtain i where "j = Suc i" "rest = []" using j rest by (cases j) auto
    then show ?thesis using True by (simp add: WriteArray_ops_def plain_machine_def write_step WriteArray_fragment_def)
  next
    case False
    show ?thesis
      by (rule Cons.IH [OF rest]) (use Cons.prems False j in auto)
  qed
  then show ?case
    using j msgs card by (simp add: WriteArray_ops_def plain_machine_def write_step WriteArray_fragment_def)
qed

section \<open>Reading\<close>

definition blob_answer :: "bytes \<Rightarrow> nat \<Rightarrow> nat \<Rightarrow> ResponseData" where
  "blob_answer arr chunk offset =
     \<lparr>rd_data = 0 # wire (Map [(Unsigned 1, Bytes (take chunk (drop offset arr)))]), rd_status = 0x9000\<rparr>"

lemma config_read:
  assumes "length b \<le> 1024"
  shows "parse_config (wire (Map [(Unsigned 1, Bytes b)])) = Inr b"
proof -
  have wf: "well_formed 1 (Map [(Unsigned 1, Bytes b)])" using assms by (simp add: MAX_DEPTH_def)
  have "length (head 5 1) \<le> 9" "length (head 0 1) \<le> 9" "length (head 2 (of_nat (length b))) \<le> 9" by (rule head_short)+
  then have "length (wire (Map [(Unsigned 1, Bytes b)])) \<le> usize_max" using assms by (simp add: usize_max_def)
  then have "parse (wire (Map [(Unsigned 1, Bytes b)])) = Inr (Map [(Unsigned 1, Bytes b)])" using wf by (simp add: parse_wire del: wire.simps)
  then show ?thesis by (simp add: parse_config_def entry_lookups del: wire.simps)
qed

lemma read_command_answered:
  assumes "unat (ra_chunk m) = chunk" "unat (ra_offset m) = offset" "offset \<le> length (bs_array s)"
  shows "\<exists>msg. ReadArray_command m = Inr (Action.Command (ctap_msg msg))
    \<and> blob_card C auth s (ctap_msg msg) = (blob_answer (bs_array s) chunk offset, s)"
proof -
  obtain bs v where v: "get_message (ra_offset m) (ra_chunk m) = Inr (0x0c # bs)" "parse bs = Inr v"
    "map_get_int v 1 = Some (Unsigned (ra_chunk m))" "map_get_int v 3 = Some (Unsigned (ra_offset m))"
    using get_message_read by blast
  then show ?thesis
    using assms by (intro exI [of _ "0x0c # bs"]) (simp add: ReadArray_command_def blob_card_def blob_get_def blob_answer_def del: wire.simps)
qed

lemma read_loop:
  assumes "0 < chunk" "chunk \<le> 1024" "length (bs_array s) \<le> 4096"
  shows "offset \<le> length (bs_array s) \<Longrightarrow> (length (bs_array s) - offset) div chunk \<le> reads \<Longrightarrow> (length (bs_array s) - offset) div chunk < k
    \<Longrightarrow> \<exists>m resp. machine_exec k ReadArray_ops (blob_card C auth)
        \<lparr>ra_stage = BExchange, ra_chunk = of_nat chunk, ra_offset = of_nat offset, ra_remaining_reads = reads,
         ra_buffer = take offset (bs_array s)\<rparr> (Some (blob_answer (bs_array s) chunk offset)) s
      = Some (m, resp, s, Inr (Action.Done (bs_array s)))"
proof (induction "length (bs_array s) - offset" arbitrary: offset reads k rule: less_induct)
  case less
  let ?a = "bs_array s" and ?b = "take chunk (drop offset (bs_array s))"
  let ?m = "\<lparr>ra_stage = BExchange, ra_chunk = of_nat chunk, ra_offset = of_nat offset, ra_remaining_reads = reads,
         ra_buffer = take offset ?a\<rparr>"
  have u: "unat (of_nat chunk :: 64 word) = chunk" using assms(2) by (simp add: unat_of_nat)
  have nx: "ReadArray_next ?m (Some (blob_answer ?a chunk offset)) = ReadArray_accept ?m ?b"
    using config_read [of ?b] assms(2)
    by (simp add: ReadArray_next_def blob_answer_def split_status_def ResponseData_ensure_success_def StatusWord_is_success_def
        CtapStatus_into_error_def CtapStatus_is_success_def del: wire.simps)
  obtain j where j: "k = Suc j" using less.prems(3) by (cases k) auto
  have buf: "take offset ?a @ ?b = take (offset + chunk) ?a" by (simp add: take_add)
  have fit: "offset + length ?b \<le> 4096" using assms(3) less.prems(1) by simp
  show ?case
  proof (cases "length ?a - offset < chunk")
    case True
    then have "length ?b < chunk" "take (offset + chunk) ?a = ?a" using less.prems(1) by auto
    then have "ReadArray_accept ?m ?b = (?m\<lparr>ra_buffer := []\<rparr>, Inr (Action.Done ?a))"
      using True u buf assms(3) less.prems(1) by (simp add: ReadArray_accept_def MAX_LARGE_BLOB_ARRAY_BYTES_def Let_def)
    then show ?thesis using nx j by (simp add: ReadArray_ops_def plain_machine_def)
  next
    case False
    then have full: "length ?b = chunk" and off: "offset + chunk \<le> length ?a" using less.prems(1) by auto
    have q: "(length ?a - offset) div chunk = Suc ((length ?a - (offset + chunk)) div chunk)"
      using False assms(1) by (subst le_div_geq) (auto simp: diff_diff_left)
    let ?m2 = "\<lparr>ra_stage = BExchange, ra_chunk = of_nat chunk, ra_offset = of_nat (offset + chunk), ra_remaining_reads = reads - 1,
         ra_buffer = take (offset + chunk) ?a\<rparr>"
    have uo: "unat (of_nat (offset + chunk) :: 64 word) = offset + chunk"
      using off assms(3) by (simp only: unat_of_nat) simp
    obtain msg where msg: "ReadArray_command ?m2 = Inr (Action.Command (ctap_msg msg))"
      "blob_card C auth s (ctap_msg msg) = (blob_answer ?a chunk (offset + chunk), s)"
      using read_command_answered [of ?m2 chunk "offset + chunk" s C auth] u uo off by fastforce
    have "length (take offset ?a) = offset" using less.prems(1) by simp
    then have "ReadArray_accept ?m ?b = (?m2, ReadArray_command ?m2)"
      using u buf fit full less.prems(1,2) q
      by (simp add: ReadArray_accept_def MAX_LARGE_BLOB_ARRAY_BYTES_def Let_def del: length_take)
    then have "machine_exec k ReadArray_ops (blob_card C auth) ?m (Some (blob_answer ?a chunk offset)) s
      = machine_exec j ReadArray_ops (blob_card C auth) ?m2 (Some (blob_answer ?a chunk (offset + chunk))) s"
      using nx j msg by (simp add: ReadArray_ops_def plain_machine_def)
    then show ?thesis
      using less.hyps [of "offset + chunk" "reads - 1" j] off assms(1) less.prems(2,3) q j by simp
  qed
qed

section \<open>Properties\<close>

text \<open>C9: a large-blob array that was written is read back. For any array of 17 to 4096 bytes with its
integrity trailer, and any options both factories accept, the write completes against an
authenticator that checks offsets, totals, MACs and the trailer, leaves exactly that array stored,
and the read completes with the same bytes, each within its exchange budget. The authenticator may
require the token or not; if it does, the token is the one the write was given.\<close>

theorem large_blob_roundtrip:
  assumes "write_array C data token wopts = Inr wop" "op_machine wop = Some w0"
    and "read_array ropts = Inr rop" "op_machine rop = Some r0"
    and "crypto_ok C" "trailer_ok C data" "auth = None \<or> auth = token"
    and "max_input_bytes (limits wopts) \<le> usize_max"
    and "length data div read_chunk_size ropts + 2 \<le> max_exchanges (limits ropts)"
  shows "17 \<le> length data \<and> length data \<le> 4096
    \<and> (\<exists>m resp. machine_exec (Suc (max_exchanges (limits wopts))) WriteArray_ops (blob_card C auth) w0 None s
         = Some (m, resp, \<lparr>bs_array = data, bs_pending = None\<rparr>, Inr (Action.Done ())))
    \<and> (\<exists>m resp. machine_exec (Suc (max_exchanges (limits ropts))) ReadArray_ops (blob_card C auth) r0 None \<lparr>bs_array = data, bs_pending = None\<rparr>
         = Some (m, resp, \<lparr>bs_array = data, bs_pending = None\<rparr>, Inr (Action.Done data)))"
proof (intro conjI)
  show size: "17 \<le> length data" "length data \<le> 4096"
    using assms(1) by (auto simp: write_array_def MIN_LARGE_BLOB_ARRAY_BYTES_def MAX_LARGE_BLOB_ARRAY_BYTES_def split: if_splits)
  obtain msgs where frag: "0 < write_fragment_size wopts" and valid: "0 < max_exchanges (limits wopts)"
    and msgs: "write_messages C token wopts (of_nat (length data)) (of_nat (length ([] :: bytes))) (chunks (write_fragment_size wopts) data) = Inr msgs"
      "length msgs \<le> max_exchanges (limits wopts) - 1"
    and w0: "w0 = \<lparr>wa_stage = BSelect, wa_messages = msgs\<rparr>"
    using assms(1,2) size
    by (auto simp: write_array_def Let_def Operation_from_machine_def OperationOptions_validate_def bindE_eq_Inr
        MIN_LARGE_BLOB_ARRAY_BYTES_def MAX_LARGE_BLOB_ARRAY_BYTES_def split: if_splits)
  let ?cs = "chunks (write_fragment_size wopts) data"
  have cs: "concat ?cs = data" "[] \<notin> set ?cs" "?cs \<noteq> []"
  proof -
    show "concat ?cs = data" by (rule concat_chunks [OF frag])
    then show "?cs \<noteq> []" using size(1) by auto
    show "[] \<notin> set ?cs" using chunks_bounds by blast
  qed
  let ?b = "blob_card C auth"
  have loop: "machine_exec k WriteArray_ops ?b \<lparr>wa_stage = BExchange, wa_messages = msgs\<rparr> (Some blob_ack) s
    = Some (\<lparr>wa_stage = BExchange, wa_messages = []\<rparr>, Some blob_ack, \<lparr>bs_array = data, bs_pending = None\<rparr>, Inr (Action.Done ()))"
    if "length msgs < k" for k
    using write_loop [OF msgs(1) assms(5,8,7) size, of s k] that cs assms(6) by simp
  obtain x where x: "max_exchanges (limits wopts) = Suc x" using valid by (cases "max_exchanges (limits wopts)") auto
  obtain a rest where "msgs = a # rest" using msgs(1) cs(3) by (cases ?cs) (auto simp: bindE_eq_Inr split: if_splits)
  moreover have "?b s ctap_select = (\<lparr>rd_data = [], rd_status = 0x9000\<rparr>, s)" by (simp add: blob_card_def)
  ultimately have "machine_exec (Suc (Suc x)) WriteArray_ops ?b w0 None s
    = machine_exec (Suc x) WriteArray_ops ?b \<lparr>wa_stage = BExchange, wa_messages = msgs\<rparr> (Some blob_ack) s"
    by (simp add: w0 WriteArray_ops_def plain_machine_def write_step)
      (simp add: WriteArray_next_def ResponseData_ensure_success_def StatusWord_is_success_def WriteArray_fragment_def)
  then show "\<exists>m resp. machine_exec (Suc (max_exchanges (limits wopts))) WriteArray_ops ?b w0 None s
         = Some (m, resp, \<lparr>bs_array = data, bs_pending = None\<rparr>, Inr (Action.Done ()))"
    using loop [of "Suc x"] msgs(2) x by simp
  show "\<exists>m resp. machine_exec (Suc (max_exchanges (limits ropts))) ReadArray_ops ?b r0 None \<lparr>bs_array = data, bs_pending = None\<rparr>
         = Some (m, resp, \<lparr>bs_array = data, bs_pending = None\<rparr>, Inr (Action.Done data))"
  proof -
    let ?c = "read_chunk_size ropts" and ?s = "\<lparr>bs_array = data, bs_pending = None\<rparr>"
    have c: "0 < ?c" and r0: "r0 = ReadArray_start ?c ropts"
      using assms(3,4)
      by (auto simp: read_array_def Let_def Operation_from_machine_def OperationOptions_validate_def bindE_eq_Inr split: if_splits)
    have c2: "?c \<le> 1024" by (simp add: read_chunk_size_def DEFAULT_MAX_FRAGMENT_LENGTH_def)
    obtain y where y: "max_exchanges (limits ropts) = Suc (Suc y)" "length data div ?c \<le> y"
      using assms(9) by (auto simp: le_iff_add)
    let ?m1 = "r0\<lparr>ra_stage := BExchange\<rparr>"
    have u: "unat (ra_chunk ?m1) = ?c" "unat (ra_offset ?m1) = 0" using c2 by (simp_all add: r0 ReadArray_start_def unat_of_nat)
    obtain msg where msg: "ReadArray_command ?m1 = Inr (Action.Command (ctap_msg msg))"
      "blob_card C auth ?s (ctap_msg msg) = (blob_answer data ?c 0, ?s)"
      using read_command_answered [OF u, of ?s C auth] by auto
    have st: "ra_stage r0 = BSelect" by (simp add: r0 ReadArray_start_def)
    have "m_next ReadArray_ops r0 None = (r0, Inr (Action.Command ctap_select))"
      "m_next ReadArray_ops r0 (Some \<lparr>rd_data = [], rd_status = 0x9000\<rparr>) = (?m1, Inr (Action.Command (ctap_msg msg)))"
      "?b ?s ctap_select = (\<lparr>rd_data = [], rd_status = 0x9000\<rparr>, ?s)"
      using st msg(1) by (simp_all add: ReadArray_ops_def plain_machine_def ReadArray_next_def
          ResponseData_ensure_success_def StatusWord_is_success_def blob_card_def)
    then have "machine_exec (Suc (max_exchanges (limits ropts))) ReadArray_ops ?b r0 None ?s
      = machine_exec (Suc y) ReadArray_ops ?b ?m1 (Some (blob_answer data ?c 0)) ?s"
      using msg(2) by (simp add: y(1))
    moreover have "\<exists>m resp. machine_exec (Suc y) ReadArray_ops ?b ?m1 (Some (blob_answer data ?c 0)) ?s = Some (m, resp, ?s, Inr (Action.Done data))"
      using read_loop [OF c c2, of ?s 0 "Suc y" "Suc y" C auth] size(2) y by (simp add: r0 ReadArray_start_def)
    ultimately show ?thesis by simp
  qed
qed

definition demo_blob :: bytes where
  "demo_blob = 1 # replicate 16 7"

lemma demo_blob_factories:
  "\<exists>wop w0. write_array demo_crypto demo_blob None OperationOptions_default = Inr wop \<and> op_machine wop = Some w0"
  "\<exists>rop r0. read_array OperationOptions_default = Inr rop \<and> op_machine rop = Some r0"
proof -
  have small: "length bs \<le> 254 \<Longrightarrow> validate_command (ctap_msg (0x0c # bs)) OperationOptions_default = Inr ()" for bs
    by (rule ctap_commands_default) simp_all
  have big: "255 \<le> max_input_bytes (limits OperationOptions_default)" and frag: "write_fragment_size OperationOptions_default = 1024"
    and chunk: "read_chunk_size OperationOptions_default = 242"
    by (simp_all add: OperationOptions_default_def OperationLimits_default_def write_fragment_size_def DEFAULT_MAX_FRAGMENT_LENGTH_def
        WRITE_MESSAGE_OVERHEAD_def read_chunk_size_def READ_RESPONSE_OVERHEAD_def ExchangeOptions_default_def)
  obtain bs where bs: "set_message demo_crypto demo_blob 0 (Some 17) None = Inr (0x0c # bs)" "length bs \<le> 254"
    by (simp add: set_message_def set_auth_entries_def demo_blob_def uint_value_def encode_def encode_into.simps head_def MAX_DEPTH_def
        COMMAND_LARGE_BLOBS_def)
  have "chunks 1024 demo_blob = [demo_blob]" by (simp add: chunks.simps demo_blob_def)
  then have "write_messages demo_crypto None OperationOptions_default 17 0 (chunks 1024 demo_blob) = Inr [0x0c # bs]"
    using bs small [OF bs(2)] big by simp
  then show "\<exists>wop w0. write_array demo_crypto demo_blob None OperationOptions_default = Inr wop \<and> op_machine wop = Some w0"
    using ctap_commands_default(1)
    by (simp add: write_array_def frag Operation_from_machine_def demo_blob_def MIN_LARGE_BLOB_ARRAY_BYTES_def MAX_LARGE_BLOB_ARRAY_BYTES_def)
  obtain b1 where b1: "get_message 0 242 = Inr (0x0c # b1)" "length b1 \<le> 254"
    by (simp add: get_message_def uint_value_def encode_def encode_into.simps head_def MAX_DEPTH_def COMMAND_LARGE_BLOBS_def)
  obtain b2 where b2: "get_message 4338 242 = Inr (0x0c # b2)" "length b2 \<le> 254"
    by (simp add: get_message_def uint_value_def encode_def encode_into.simps head_def MAX_DEPTH_def COMMAND_LARGE_BLOBS_def)
  show "\<exists>rop r0. read_array OperationOptions_default = Inr rop \<and> op_machine rop = Some r0"
    using b1 b2 small [OF b1(2)] small [OF b2(2)] ctap_commands_default(1) big
    by (simp add: read_array_def chunk Let_def Operation_from_machine_def MAX_LARGE_BLOB_ARRAY_BYTES_def)
qed

theorem large_blob_roundtrip_witness:
  "\<exists>w0 r0 m resp m' resp'. machine_exec 4097 WriteArray_ops (blob_card demo_crypto None) w0 None \<lparr>bs_array = [], bs_pending = None\<rparr>
       = Some (m, resp, \<lparr>bs_array = demo_blob, bs_pending = None\<rparr>, Inr (Action.Done ()))
     \<and> machine_exec 4097 ReadArray_ops (blob_card demo_crypto None) r0 None \<lparr>bs_array = demo_blob, bs_pending = None\<rparr>
       = Some (m', resp', \<lparr>bs_array = demo_blob, bs_pending = None\<rparr>, Inr (Action.Done demo_blob))"
proof -
  obtain wop w0 rop r0 where f: "write_array demo_crypto demo_blob None OperationOptions_default = Inr wop" "op_machine wop = Some w0"
    "read_array OperationOptions_default = Inr rop" "op_machine rop = Some r0"
    using demo_blob_factories by blast
  have h: "crypto_ok demo_crypto" "trailer_ok demo_crypto demo_blob" "max_input_bytes (limits OperationOptions_default) \<le> usize_max"
    "length demo_blob div read_chunk_size OperationOptions_default + 2 \<le> max_exchanges (limits OperationOptions_default)"
    by (simp_all add: crypto_ok_def demo_crypto_def trailer_ok_def demo_blob_def OperationOptions_default_def OperationLimits_default_def
        usize_max_def read_chunk_size_def DEFAULT_MAX_FRAGMENT_LENGTH_def READ_RESPONSE_OVERHEAD_def ExchangeOptions_default_def)
  have "None = None \<or> None = (None :: (PinToken \<times> PinUvAuthProtocol) option)" by simp
  from large_blob_roundtrip [OF f h(1,2) this h(3,4), of "\<lparr>bs_array = [], bs_pending = None\<rparr>"] show ?thesis
    by (simp only: default_options numeral_eq_Suc) (simp; blast)
qed

end
