(* ===== verification/Ctap_U2f.thy ===== *)
theory Ctap_U2f
  imports Ctap_Pin
begin

text \<open>
  The legacy U2F commands (\<open>canokey-ctap/src/u2f.rs\<close>): plain CLA-00 commands after a selection of the
  FIDO application, without a CTAP status byte. Fixed arrays are byte lists; the layout of a
  registration response is specified by \<open>u2f_layout\<close>, with the outer DER frame of the certificate.
\<close>

unbundle bit_operations_syntax

section \<open>Commands and machine\<close>

definition INS_REGISTER :: byte where "INS_REGISTER = 0x01"
definition INS_AUTHENTICATE :: byte where "INS_AUTHENTICATE = 0x02"
definition INS_VERSION :: byte where "INS_VERSION = 0x03"
definition CONTROL_ENFORCE_USER_PRESENCE_AND_SIGN :: byte where "CONTROL_ENFORCE_USER_PRESENCE_AND_SIGN = 0x03"
definition CONTROL_CHECK_ONLY :: byte where "CONTROL_CHECK_ONLY = 0x07"
definition U2F_VERSION_V2 :: bytes where "U2F_VERSION_V2 = ascii ''U2F_V2''"
definition FIXED_REQUEST_LEN :: nat where "FIXED_REQUEST_LEN = 64"
definition MAX_KEY_HANDLE_LEN :: nat where "MAX_KEY_HANDLE_LEN = 190"

definition u2f_command :: "byte \<Rightarrow> byte \<Rightarrow> bytes \<Rightarrow> LogicalCommand" where
  "u2f_command i p data = LogicalCommand_new (ApduHeader_new 0x00 i p 0x00) data Absent"

record 't U2fSelectThen =
  us_command :: "LogicalCommand option"
  us_parse :: "(ResponseData \<Rightarrow> 't res) option"

definition U2fSelectThen_next :: "'t U2fSelectThen \<Rightarrow> ResponseData option \<Rightarrow> 't U2fSelectThen \<times> 't Action res" where
  "U2fSelectThen_next m response =
     (case response of
        None \<Rightarrow> (m, Inr (Action.Command ctap_select))
      | Some r \<Rightarrow>
          (case us_command m of
             Some c \<Rightarrow>
               (m\<lparr>us_command := None\<rparr>,
                bindE (ResponseData_ensure_success r Phase.Select) (\<lambda>_. Inr (Action.Command c)))
           | None \<Rightarrow>
               (m\<lparr>us_parse := None\<rparr>,
                bindE (ok_or (us_parse m) (Error_new OperationStateError)) (\<lambda>pf.
                  bindE (pf r) (\<lambda>t. Inr (Action.Done t))))))"

definition U2fSelectThen_ops :: "('t U2fSelectThen, 't) Machine" where
  "U2fSelectThen_ops = plain_machine U2fSelectThen_next"

definition u2f_operation ::
  "LogicalCommand \<Rightarrow> OperationOptions \<Rightarrow> (ResponseData \<Rightarrow> 't res) \<Rightarrow> ('t U2fSelectThen, 't) Operation res" where
  "u2f_operation c opts pf =
     bindE (OperationOptions_validate opts) (\<lambda>opts.
     bindE (validate_command ctap_select opts) (\<lambda>_.
     bindE (validate_command c opts) (\<lambda>_.
       Operation_from_machine \<lparr>us_command = Some c, us_parse = Some pf\<rparr> opts)))"

section \<open>Requests and responses\<close>

record U2fRegisterRequest =
  rr_challenge :: bytes
  rr_application :: bytes

record U2fAuthenticateRequest =
  aq_challenge :: bytes
  aq_application :: bytes
  aq_key_handle :: bytes

record U2fRegistration =
  ur_user_public_key :: bytes
  ur_key_handle :: bytes
  ur_certificate :: bytes
  ur_signature :: bytes
  ur_raw :: bytes

record U2fAuthentication =
  ua_user_presence :: byte
  ua_counter :: "32 word"
  ua_signature :: bytes

definition der_sequence_len :: "bytes \<Rightarrow> nat res" where
  "der_sequence_len bs =
     (if length bs < 2 \<or> bs ! 0 \<noteq> 0x30 then Inl cbor_invalid
      else
        (let first = bs ! 1 in
         if first AND 0x80 = 0 then Inr (2 + unat first)
         else
           (let count = unat (first AND 0x7f) in
            if count = 0 \<or> count > 2 \<or> length bs < 2 + count then Inl cbor_invalid
            else Inr (2 + count + foldl (\<lambda>len b. len * 256 + unat b) 0 (take count (drop 2 bs))))))"

definition parse_registration :: "bytes \<Rightarrow> U2fRegistration res" where
  "parse_registration bs =
     (if length bs < FIXED_REQUEST_LEN + 3 \<or> bs ! 0 \<noteq> 0x05 \<or> bs ! 1 \<noteq> 0x04 then Inl cbor_invalid
      else
        (let user_public_key = take 65 (drop 1 bs); key_handle_len = unat (bs ! 66); rest = drop 67 bs in
         if key_handle_len = 0 \<or> length rest < key_handle_len then Inl cbor_invalid
         else
           (let key_handle = take key_handle_len rest; rest = drop key_handle_len rest in
            bindE (der_sequence_len rest) (\<lambda>cert_len.
            if cert_len > length rest then Inl cbor_invalid
            else
              (let certificate = take cert_len rest; signature = drop cert_len rest in
               if signature = [] then Inl cbor_invalid
               else Inr \<lparr>ur_user_public_key = user_public_key, ur_key_handle = key_handle,
                         ur_certificate = certificate, ur_signature = signature, ur_raw = bs\<rparr>)))))"

definition parse_authentication :: "bytes \<Rightarrow> U2fAuthentication res" where
  "parse_authentication bs =
     (if length bs < 6 then Inl cbor_invalid
      else Inr \<lparr>ua_user_presence = bs ! 0, ua_counter = from_be (take 4 (drop 1 bs)), ua_signature = drop 5 bs\<rparr>)"

definition authenticate_data :: "U2fAuthenticateRequest \<Rightarrow> bytes res" where
  "authenticate_data q =
     (if aq_key_handle q = [] \<or> length (aq_key_handle q) > MAX_KEY_HANDLE_LEN then Inl ctap_argument
      else Inr (aq_challenge q @ aq_application q @ of_nat (length (aq_key_handle q)) # aq_key_handle q))"

section \<open>Operations\<close>

definition u2f_register :: "U2fRegisterRequest \<Rightarrow> OperationOptions \<Rightarrow> (U2fRegistration U2fSelectThen, U2fRegistration) Operation res" where
  "u2f_register q opts =
     u2f_operation (u2f_command INS_REGISTER 0x00 (rr_challenge q @ rr_application q)) opts (\<lambda>r.
       bindE (ResponseData_ensure_success r Phase.Command) (\<lambda>_. parse_registration (rd_data r)))"

definition u2f_authenticate ::
  "U2fAuthenticateRequest \<Rightarrow> OperationOptions \<Rightarrow> (U2fAuthentication U2fSelectThen, U2fAuthentication) Operation res" where
  "u2f_authenticate q opts =
     bindE (authenticate_data q) (\<lambda>data.
       u2f_operation (u2f_command INS_AUTHENTICATE CONTROL_ENFORCE_USER_PRESENCE_AND_SIGN data) opts (\<lambda>r.
         bindE (ResponseData_ensure_success r Phase.Command) (\<lambda>_. parse_authentication (rd_data r))))"

definition check_only :: "U2fAuthenticateRequest \<Rightarrow> OperationOptions \<Rightarrow> (bool U2fSelectThen, bool) Operation res" where
  "check_only q opts =
     bindE (authenticate_data q) (\<lambda>data.
       u2f_operation (u2f_command INS_AUTHENTICATE CONTROL_CHECK_ONLY data) opts (\<lambda>r.
         if rd_status r = 0x6985 then Inr True
         else bindE (ResponseData_ensure_success r Phase.Command) (\<lambda>_. Inl cbor_invalid)))"

definition u2f_version :: "OperationOptions \<Rightarrow> (bytes U2fSelectThen, bytes) Operation res" where
  "u2f_version opts =
     u2f_operation (u2f_command INS_VERSION 0x00 []) opts (\<lambda>r.
       bindE (ResponseData_ensure_success r Phase.Command) (\<lambda>_.
         if rd_data r \<noteq> U2F_VERSION_V2 then Inl cbor_invalid else Inr (rd_data r)))"

section \<open>Runs\<close>

inductive u2f_at :: "LogicalCommand \<Rightarrow> (ResponseData \<Rightarrow> 't res) \<Rightarrow> 't U2fSelectThen \<Rightarrow> ResponseData option \<Rightarrow> trace \<Rightarrow> bool"
  for c pf where
  u2f_start: "u2f_at c pf \<lparr>us_command = Some c, us_parse = Some pf\<rparr> None []"
| u2f_select: "u2f_at c pf \<lparr>us_command = Some c, us_parse = Some pf\<rparr> (Some r) [(ctap_select, r)]"
| u2f_answer: "rd_status r0 = 0x9000
    \<Longrightarrow> u2f_at c pf \<lparr>us_command = None, us_parse = Some pf\<rparr> (Some r) [(ctap_select, r0), (c, r)]"

definition u2f_action :: "LogicalCommand \<Rightarrow> (ResponseData \<Rightarrow> 't res) \<Rightarrow> trace \<Rightarrow> 't Action \<Rightarrow> bool" where
  "u2f_action c pf tr a \<longleftrightarrow>
     (case a of
        Action.Command d \<Rightarrow> tr = [] \<and> d = ctap_select
          \<or> (\<exists>r. tr = [(ctap_select, r)] \<and> rd_status r = 0x9000 \<and> d = c)
      | Action.Done t \<Rightarrow> \<exists>r0 r. tr = [(ctap_select, r0), (c, r)] \<and> rd_status r0 = 0x9000 \<and> pf r = Inr t)"

lemma u2f_step:
  assumes "u2f_at c pf m resp tr" "U2fSelectThen_next m resp = (m', Inr a)"
  shows "u2f_action c pf tr a \<and> (case a of Action.Command d \<Rightarrow> \<forall>r. u2f_at c pf m' (Some r) (tr @ [(d, r)]) | Action.Done _ \<Rightarrow> True)"
  using assms(1)
  by cases
    (use assms(2) in \<open>auto simp: U2fSelectThen_next_def u2f_action_def bindE_eq_Inr ResponseData_ensure_success_def
        StatusWord_is_success_def intro: u2f_at.intros split: if_splits\<close>)

lemma u2f_started:
  assumes "u2f_operation c opts pf = Inr op" "op_machine op = Some m0"
  shows "m0 = \<lparr>us_command = Some c, us_parse = Some pf\<rparr>" "validate_command ctap_select opts = Inr ()" "validate_command c opts = Inr ()"
  using assms by (auto simp: u2f_operation_def Operation_from_machine_def bindE_eq_Inr OperationOptions_validate_def split: if_splits)

lemma u2f_reached:
  assumes "trace_run U2fSelectThen_ops \<lparr>us_command = Some c, us_parse = Some pf\<rparr> m resp tr"
  shows "u2f_at c pf m resp tr"
  using assms
proof (rule machine_run_invariant)
  show "u2f_at c pf \<lparr>us_command = Some c, us_parse = Some pf\<rparr> None []" by (rule u2f_start)
next
  fix m resp tr m' d r tr'
  assume "u2f_at c pf m resp tr" "m_next U2fSelectThen_ops m resp = (m', Inr (Action.Command d))" "trace_env tr d r tr'"
  then show "u2f_at c pf m' (Some r) tr'"
    using u2f_step [of c pf m resp tr m' "Action.Command d"] by (auto simp: U2fSelectThen_ops_def plain_machine_def trace_env_def)
qed

lemma u2f_failed:
  assumes "u2f_at c pf m resp tr" "U2fSelectThen_next m resp = (m', Inl e)"
  shows "(\<exists>r0. tr = [(ctap_select, r0)] \<and> rd_status r0 \<noteq> 0x9000) \<or> (\<exists>r0 r. tr = [(ctap_select, r0), (c, r)] \<and> pf r = Inl e)"
  using assms(1)
  by cases
    (use assms(2) in \<open>auto simp: U2fSelectThen_next_def bindE_eq_Inl ResponseData_ensure_success_def StatusWord_is_success_def split: if_splits\<close>)

section \<open>The layout of a registration\<close>

text \<open>The outer frame of a DER sequence, with a length of at most two further bytes.\<close>

definition der_frame :: "bytes \<Rightarrow> bool" where
  "der_frame w \<longleftrightarrow>
     (\<exists>body. w = 0x30 # of_nat (length body) # body \<and> length body < 128)
     \<or> (\<exists>body. w = 0x30 # 0x81 # of_nat (length body) # body \<and> length body < 256)
     \<or> (\<exists>body. w = 0x30 # 0x82 # of_nat (length body div 256) # of_nat (length body mod 256) # body \<and> length body < 65536)"

definition u2f_layout :: "bytes \<Rightarrow> U2fRegistration \<Rightarrow> bool" where
  "u2f_layout bs r \<longleftrightarrow>
     ur_raw r = bs
     \<and> bs = 0x05 # ur_user_public_key r @ of_nat (length (ur_key_handle r)) # ur_key_handle r @ ur_certificate r @ ur_signature r
     \<and> length (ur_user_public_key r) = 65 \<and> hd (ur_user_public_key r) = 0x04
     \<and> 1 \<le> length (ur_key_handle r) \<and> length (ur_key_handle r) \<le> 255
     \<and> der_frame (ur_certificate r) \<and> ur_signature r \<noteq> []"

lemma first_low: "(b :: byte) AND 0x80 = 0 \<longleftrightarrow> unat b < 128"
proof -
  have "(0x80 :: byte) = 2 ^ 7" by simp
  then have "b AND 0x80 = 0 \<longleftrightarrow> \<not> bit b 7" by (simp only: and_exp_eq_0_iff_not_bit)
  also have "\<dots> \<longleftrightarrow> \<not> bit (unat b) 7" by (simp add: bit_unsigned_iff)
  also have "\<dots> \<longleftrightarrow> even (unat b div 128)" by (simp add: bit_iff_odd)
  also have "\<dots> \<longleftrightarrow> unat b < 128"
  proof -
    have "unat b div 128 < 2" using byte_less_256 [of b] by (simp add: div_less_iff_less_mult)
    then show ?thesis by (cases "unat b div 128 = 0") (auto simp: div_eq_0_iff less_2_cases_iff)
  qed
  finally show ?thesis .
qed

lemma first_high:
  assumes "128 \<le> unat (b :: byte)"
  shows "unat (b AND 0x7f) = unat b - 128"
proof -
  have "b AND 0x7f = take_bit 7 b" by (simp add: take_bit_eq_mask mask_eq_exp_minus_1)
  then have "unat (b AND 0x7f) = unat b mod 128" by (simp only: unsigned_take_bit_eq) (simp add: take_bit_eq_mod)
  then show ?thesis using assms byte_less_256 [of b] by (simp add: mod_if)
qed

text \<open>A prefix is framed exactly when its length is the one the header announces.\<close>

lemma unat_byte_of_nat: "n < 256 \<Longrightarrow> unat (of_nat n :: byte) = n"
  by (simp add: unat_of_nat)

lemma byte_of_nat_eq: "n < 256 \<Longrightarrow> of_nat n = (b :: byte) \<longleftrightarrow> unat b = n"
  using unat_byte_of_nat [of n] by (auto simp: word_unat_eq_iff)

definition der_total :: "bytes \<Rightarrow> nat \<Rightarrow> bool" where
  "der_total bs n \<longleftrightarrow> 2 \<le> length bs \<and> bs ! 0 = 0x30
     \<and> (unat (bs ! 1) < 128 \<and> n = 2 + unat (bs ! 1)
        \<or> 3 \<le> length bs \<and> bs ! 1 = 0x81 \<and> n = 3 + unat (bs ! 2)
        \<or> 4 \<le> length bs \<and> bs ! 1 = 0x82 \<and> n = 4 + (unat (bs ! 2) * 256 + unat (bs ! 3)))"

lemma der_len_total: "der_sequence_len bs = Inr n \<longleftrightarrow> der_total bs n"
proof (cases "length bs < 2 \<or> bs ! 0 \<noteq> 0x30")
  case True
  then show ?thesis by (auto simp: der_sequence_len_def der_total_def)
next
  case f: False
  show ?thesis
  proof (cases "unat (bs ! 1) < 128")
    case True
    then have "bs ! 1 \<noteq> 0x81" "bs ! 1 \<noteq> 0x82" by auto
    then show ?thesis using f True by (auto simp: der_sequence_len_def der_total_def first_low Let_def)
  next
    case False
    note high = first_high [of "bs ! 1"]
    have c: "bs ! 1 = 0x81 \<longleftrightarrow> unat (bs ! 1) = 129" "bs ! 1 = 0x82 \<longleftrightarrow> unat (bs ! 1) = 130"
      by (auto simp: word_unat_eq_iff)
    have t1: "take 1 (drop 2 bs) = [bs ! 2]" if "3 \<le> length bs" using that by (simp add: take_Suc_conv_app_nth numeral_eq_Suc)
    have t2: "take 2 (drop 2 bs) = [bs ! 2, bs ! 3]" if "4 \<le> length bs" using that by (simp add: take_Suc_conv_app_nth numeral_eq_Suc)
    show ?thesis
      using f False high c t1 t2
      by (auto simp: der_sequence_len_def der_total_def first_low Let_def)
  qed
qed

lemma der_total_take:
  assumes "n \<le> length bs"
  shows "der_total (take n bs) n \<longleftrightarrow> der_total bs n"
proof -
  consider "n < 2" | "n = 2" | "n = 3" | "4 \<le> n" by linarith
  then show ?thesis by cases (use assms in \<open>auto simp: der_total_def\<close>)
qed

lemma der_frame_total: "der_frame w \<longleftrightarrow> der_total w (length w)"
proof
  assume "der_frame w"
  then consider body where "w = 0x30 # of_nat (length body) # body" "length body < 128"
    | body where "w = 0x30 # 0x81 # of_nat (length body) # body" "length body < 256"
    | body where "w = 0x30 # 0x82 # of_nat (length body div 256) # of_nat (length body mod 256) # body" "length body < 65536"
    unfolding der_frame_def by blast
  then show "der_total w (length w)"
  proof cases
    case (3 body)
    then have "unat (of_nat (length body div 256) :: byte) = length body div 256" "unat (of_nat (length body mod 256) :: byte) = length body mod 256"
      by (intro unat_byte_of_nat; simp add: div_less_iff_less_mult)+
    then show ?thesis using 3 by (simp add: der_total_def)
  qed (simp_all add: der_total_def unat_byte_of_nat)
next
  assume t: "der_total w (length w)"
  then obtain b rest where w: "w = 0x30 # b # rest"
    unfolding der_total_def by (cases w; cases "tl w") auto
  consider "unat b < 128" "length rest = unat b" | c body where "b = 0x81" "rest = c # body" "length body = unat c"
    | c d body where "b = 0x82" "rest = c # d # body" "length body = unat c * 256 + unat d"
    using t unfolding w der_total_def
    by (cases rest; cases "tl rest") auto
  then show "der_frame w"
  proof cases
    case (3 c d body)
    then have "length body div 256 = unat c" "length body mod 256 = unat d" "length body < 65536"
      using byte_less_256 [of c] byte_less_256 [of d] by auto
    then show ?thesis unfolding der_frame_def w 3(1,2) by (simp add: byte_of_nat_eq [symmetric])
  qed (use byte_less_256 in \<open>auto simp: der_frame_def w byte_of_nat_eq\<close>)
qed

lemma der_len_frame:
  assumes "n \<le> length bs"
  shows "der_sequence_len bs = Inr n \<longleftrightarrow> der_frame (take n bs)"
  using assms by (simp add: der_len_total der_frame_total der_total_take min_absorb2)

section \<open>Properties\<close>

text \<open>C40: a registration response is read exactly as the U2F message format lays it out. The parser
accepts a response with a given result exactly when the response is the reserved byte 5, a 65-byte
uncompressed public key, the length byte and the 1 to 255 bytes of the key handle, one DER sequence
frame as the certificate, and a signature that is not empty, in this order and without a gap; the
result holds these parts and the whole response.\<close>

theorem u2f_registration_exact:
  "parse_registration bs = Inr r \<longleftrightarrow> u2f_layout bs r"
proof
  assume p: "parse_registration bs = Inr r"
  let ?rest = "drop 67 bs" and ?n = "unat (bs ! 66)"
  let ?body = "drop ?n ?rest"
  obtain cl where h: "67 \<le> length bs" "bs ! 0 = 0x05" "bs ! 1 = 0x04" "?n \<noteq> 0" "?n \<le> length ?rest"
    "der_sequence_len ?body = Inr cl" "cl \<le> length ?body" "drop cl ?body \<noteq> []"
    and r: "r = \<lparr>ur_user_public_key = take 65 (drop 1 bs), ur_key_handle = take ?n ?rest, ur_certificate = take cl ?body,
       ur_signature = drop cl ?body, ur_raw = bs\<rparr>"
    using p by (auto simp: parse_registration_def FIXED_REQUEST_LEN_def Let_def bindE_eq_Inr not_less split: if_splits)
  have pk: "drop 1 bs = take 65 (drop 1 bs) @ drop 66 bs" using append_take_drop_id [of 65 "drop 1 bs"] by simp
  have "bs = bs ! 0 # drop 1 bs" using h(1) by (cases bs) auto
  moreover have "drop 66 bs = bs ! 66 # ?rest" using h(1) Cons_nth_drop_Suc [of 66 bs] by simp
  ultimately have bs: "bs = 0x05 # take 65 (drop 1 bs) @ bs ! 66 # take ?n ?rest @ take cl ?body @ drop cl ?body"
    using pk h(2) by (metis append_take_drop_id)
  have n: "length (take ?n ?rest) = ?n" using h(5) by (simp only: length_take min_absorb2)
  have "hd (take 65 (drop 1 bs)) = bs ! 1" using h(1) by (simp add: hd_drop_conv_nth)
  moreover have "of_nat ?n = bs ! 66" by simp
  moreover have "?n \<le> 255" using byte_less_256 [of "bs ! 66"] by simp
  ultimately show "u2f_layout bs r"
    unfolding u2f_layout_def r using bs h n der_len_frame [OF h(7)] by (simp add: Suc_le_eq)
next
  assume l: "u2f_layout bs r"
  obtain pk kh cert sig raw where r: "r = \<lparr>ur_user_public_key = pk, ur_key_handle = kh, ur_certificate = cert, ur_signature = sig, ur_raw = raw\<rparr>"
    by (cases r)
  have h: "bs = 0x05 # pk @ of_nat (length kh) # kh @ cert @ sig" "length pk = 65" "hd pk = 0x04" "1 \<le> length kh" "length kh \<le> 255"
    "der_frame cert" "sig \<noteq> []" "raw = bs"
    using l unfolding u2f_layout_def r by simp_all
  have k: "bs ! 0 = 0x05" "bs ! 1 = 0x04" "bs ! 66 = of_nat (length kh)" "take 65 (drop 1 bs) = pk" "drop 67 bs = kh @ cert @ sig"
    using h(2,3) hd_conv_nth [of pk] by (simp_all add: h(1) nth_append flip: length_0_conv)
  have u: "unat (of_nat (length kh) :: byte) = length kh" using h(5) by (intro unat_byte_of_nat) simp
  have d: "der_sequence_len (cert @ sig) = Inr (length cert)" using der_len_frame [of "length cert" "cert @ sig"] h(6) by simp
  have "67 \<le> length bs" by (simp add: h(1,2))
  then show "parse_registration bs = Inr r"
    using k u d h(4,7,8) r by (simp add: parse_registration_def FIXED_REQUEST_LEN_def Let_def Suc_le_eq)
qed

text \<open>The answer of a check-only request. Every run sends the selection and, after its success, one
AUTHENTICATE command with control byte 7 whose data is the challenge, the application, the length of
the key handle and the key handle; it reports true after, and only after, the status 6985 by which
the authenticator recognises a handle it will not use, and never reports false.\<close>

theorem u2f_check_only_exact:
  assumes "check_only q opts = Inr op" "op_machine op = Some m0"
    and "trace_run U2fSelectThen_ops m0 m resp tr" "m_next U2fSelectThen_ops m resp = (m', res)"
  shows "1 \<le> length (aq_key_handle q) \<and> length (aq_key_handle q) \<le> 190
    \<and> (let c = u2f_command 0x02 0x07 (aq_challenge q @ aq_application q @ of_nat (length (aq_key_handle q)) # aq_key_handle q) in
       case res of
         Inr (Action.Command d) \<Rightarrow> validate_command d opts = Inr () \<and>
           (tr = [] \<and> d = ctap_select \<or> (\<exists>r. tr = [(ctap_select, r)] \<and> rd_status r = 0x9000 \<and> d = c))
       | Inr (Action.Done b) \<Rightarrow> b \<and> (\<exists>r0 r. tr = [(ctap_select, r0), (c, r)] \<and> rd_status r0 = 0x9000 \<and> rd_status r = 0x6985)
       | Inl e \<Rightarrow> (\<exists>r0. tr = [(ctap_select, r0)] \<and> rd_status r0 \<noteq> 0x9000)
           \<or> (\<exists>r0 r. tr = [(ctap_select, r0), (c, r)] \<and> rd_status r \<noteq> 0x6985))"
proof -
  let ?c = "u2f_command 0x02 0x07 (aq_challenge q @ aq_application q @ of_nat (length (aq_key_handle q)) # aq_key_handle q)"
  let ?pf = "\<lambda>r. if rd_status r = 0x6985 then Inr True
         else bindE (ResponseData_ensure_success r Phase.Command) (\<lambda>_. Inl cbor_invalid)"
  have kh: "1 \<le> length (aq_key_handle q)" "length (aq_key_handle q) \<le> 190" and op: "u2f_operation ?c opts ?pf = Inr op"
    using assms(1)
    by (auto simp: check_only_def authenticate_data_def MAX_KEY_HANDLE_LEN_def INS_AUTHENTICATE_def CONTROL_CHECK_ONLY_def
        bindE_eq_Inr Suc_le_eq split: if_splits)
  note started = u2f_started [OF op assms(2)]
  have at: "u2f_at ?c ?pf m resp tr" using assms(3) unfolding started(1) by (rule u2f_reached)
  have nx: "U2fSelectThen_next m resp = (m', res)" using assms(4) by (simp add: U2fSelectThen_ops_def plain_machine_def)
  have pf: "?pf r = Inr b \<longleftrightarrow> b \<and> rd_status r = 0x6985" "?pf r = Inl e \<Longrightarrow> rd_status r \<noteq> 0x6985" for r b e
    by (auto simp: bindE_eq_Inr)
  show ?thesis
  proof (cases res)
    case (Inl e)
    then show ?thesis using u2f_failed [OF at] nx kh pf(2) by (auto simp: Let_def)
  next
    case (Inr a)
    then have "u2f_action ?c ?pf tr a" using u2f_step [OF at] nx by simp
    then show ?thesis using Inr kh started(2,3) pf(1) by (cases a) (auto simp: u2f_action_def Let_def)
  qed
qed

definition demo_check :: U2fAuthenticateRequest where
  "demo_check = \<lparr>aq_challenge = replicate 32 1, aq_application = replicate 32 2, aq_key_handle = replicate 70 3\<rparr>"

theorem u2f_check_only_exact_witness:
  "\<exists>op m0 m resp tr m'. check_only demo_check OperationOptions_default = Inr op \<and> op_machine op = Some m0
     \<and> trace_run U2fSelectThen_ops m0 m resp tr \<and> m_next U2fSelectThen_ops m resp = (m', Inr (Action.Done True))
     \<and> length (aq_key_handle demo_check) \<le> 190 \<and> map (\<lambda>x. rd_status (snd x)) tr = [0x9000, 0x6985]"
proof -
  let ?ok = "\<lparr>rd_data = [], rd_status = 0x9000\<rparr> :: ResponseData" and ?no = "\<lparr>rd_data = [], rd_status = 0x6985\<rparr> :: ResponseData"
  let ?c = "u2f_command 0x02 0x07 (replicate 32 1 @ replicate 32 2 @ 70 # replicate 70 3)"
  have v: "validate_command ?c OperationOptions_default = Inr ()"
    by (rule validate_default) (simp_all add: u2f_command_def LogicalCommand_new_def short_command_def le_fits_def)
  have d: "authenticate_data demo_check = Inr (replicate 32 1 @ replicate 32 2 @ 70 # replicate 70 3)"
    by (simp add: authenticate_data_def demo_check_def MAX_KEY_HANDLE_LEN_def)
  obtain op pf where op: "check_only demo_check OperationOptions_default = Inr op" "op_machine op = Some \<lparr>us_command = Some ?c, us_parse = Some pf\<rparr>"
    and pf: "pf ?no = Inr True"
    using v ctap_commands_default(1)
    by (simp add: check_only_def d u2f_operation_def Operation_from_machine_def INS_AUTHENTICATE_def CONTROL_CHECK_ONLY_def)
  let ?start = "\<lparr>us_command = Some ?c, us_parse = Some pf\<rparr>" and ?mid = "\<lparr>us_command = None, us_parse = Some pf\<rparr>"
  have "replay U2fSelectThen_ops ?start None [?ok, ?no] [] = (?mid, Some ?no, [(ctap_select, ?ok), (?c, ?no)])"
    by (simp add: U2fSelectThen_ops_def plain_machine_def U2fSelectThen_next_def ResponseData_ensure_success_def StatusWord_is_success_def)
  then have run: "trace_run U2fSelectThen_ops ?start ?mid (Some ?no) [(ctap_select, ?ok), (?c, ?no)]" by (rule replay_from_start)
  have nx: "m_next U2fSelectThen_ops ?mid (Some ?no) = (?mid\<lparr>us_parse := None\<rparr>, Inr (Action.Done True))"
    using pf by (simp add: U2fSelectThen_ops_def plain_machine_def U2fSelectThen_next_def)
  have m: "map (\<lambda>x. rd_status (snd x)) [(ctap_select, ?ok), (?c, ?no)] = [0x9000, 0x6985]" by simp
  have kh: "length (aq_key_handle demo_check) \<le> 190" using u2f_check_only_exact [OF op run nx] by blast
  show ?thesis by (intro exI conjI) (rule op run nx kh m)+
qed

end
