(* ===== verification/C_Handle.thy ===== *)
theory C_Handle
  imports Piv_Batch Device_Probe OpenPgp_Applet Oath_Applet
begin

text \<open>
  The C interface, first part: \<open>canokey-c/src/lib.rs\<close> with the algorithm codes of \<open>piv_keys.rs\<close> and
  the byte projection of \<open>admin.rs\<close> that it calls.

  A pointer argument is an option, \<open>None\<close> for NULL; what a non-NULL pointer reads is its content, so
  an input buffer is the memory from its address on beside the declared length, and an output
  parameter is passed with its old content and returned with the new one. The error POD is threaded
  through a constructor's body, because \<open>failure\<close> writes it before an early return. A handle is an
  address in a table of live objects; address zero is NULL. The contract of the crate (aligned, live
  and sufficiently long memory, no aliasing, one owner) is the hypothesis under which such a model
  describes the calls. \<open>catch_unwind\<close> is a parameter of the driving functions that says whether the
  call unwinds and what it leaves behind; the bodies of the other functions return in the model, and
  \<open>guard\<close> is then the identity. Structure sizes are those of a 64-bit target.
\<close>

type_synonym u32 = "32 word"

section \<open>Boxed machines\<close>

text \<open>
  \<open>Operation<T>\<close> keeps its machine as \<open>Box<dyn Machine<T>>\<close>: one type of operation for every machine
  with the same output. \<open>BoxedMachine\<close> is what such a box shows, the reaction to a response and the
  box after it, and the progress it reports; \<open>box_machine\<close> hides a concrete machine behind it.
\<close>

codatatype 't BoxedMachine = BoxedMachine
  (bx_next: "ResponseData option \<Rightarrow> 't BoxedMachine \<times> 't Action res")
  (bx_progress: "'t option")
  (bx_take_progress: "'t option")

primcorec box_machine :: "('m, 't) Machine \<Rightarrow> 'm \<Rightarrow> 't BoxedMachine" where
  "bx_next (box_machine M m) = (\<lambda>r. map_prod (box_machine M) (\<lambda>a. a) (m_next M m r))"
| "bx_progress (box_machine M m) = m_progress M m"
| "bx_take_progress (box_machine M m) = m_take_progress M m"

definition Boxed_ops :: "('t BoxedMachine, 't) Machine" where
  "Boxed_ops = \<lparr>m_next = bx_next, m_progress = bx_progress, m_take_progress = bx_take_progress\<rparr>"

type_synonym 't COperation = "('t BoxedMachine, 't) Operation"

definition box_operation :: "('m, 't) Machine \<Rightarrow> ('m, 't) Operation \<Rightarrow> 't COperation" where
  "box_operation M op =
     \<lparr>op_machine = map_option (box_machine M) (op_machine op), op_conversation = op_conversation op,
      op_output = op_output op, op_progress = op_progress op, op_error = op_error op,
      op_state = op_state op, op_options = op_options op, op_exchanges = op_exchanges op,
      op_response_bytes = op_response_bytes op\<rparr>"

section \<open>Status codes and raw memory\<close>

definition OK :: u32 where "OK = 0"
definition ARG :: u32 where "ARG = 1"
definition STATE :: u32 where "STATE = 2"
definition SMALL :: u32 where "SMALL = 3"
definition TYPE_CODE :: u32 where "TYPE_CODE = 4"
definition PROTOCOL :: u32 where "PROTOCOL = 5"
definition PANIC :: u32 where "PANIC = 6"

lemmas status_codes = OK_def ARG_def STATE_def SMALL_def TYPE_CODE_def PROTOCOL_def PANIC_def

definition isize_max :: nat where
  "isize_max = 2 ^ 63 - 1"

text \<open>A byte range: the memory from the pointer on (\<open>None\<close> for NULL) and the length.\<close>

type_synonym span = "bytes option \<times> nat"

abbreviation null_span :: span where
  "null_span \<equiv> (None, 0)"

fun ffi_bytes :: "span \<Rightarrow> u32 + bytes" where
  "ffi_bytes (p, len) =
     (if len > isize_max \<or> len \<noteq> 0 \<and> p = None then Inl ARG
      else if len = 0 then Inr []
      else case p of None \<Rightarrow> Inl ARG | Some mem \<Rightarrow> Inr (take len mem))"

text \<open>
  \<open>copy\<close>: the query-size and copy getter. The buffer is the memory the caller lends; the length cell
  holds its capacity before and the size of the data after the call.
\<close>

definition ffi_copy :: "bytes \<Rightarrow> bytes option \<Rightarrow> nat option \<Rightarrow> bytes option \<times> nat option \<times> u32" where
  "ffi_copy d buffer len =
     (case len of
        None \<Rightarrow> (buffer, None, ARG)
      | Some capacity \<Rightarrow>
          (case buffer of
             None \<Rightarrow> (None, Some (length d), OK)
           | Some mem \<Rightarrow>
               if capacity < length d then (Some mem, Some (length d), SMALL)
               else (Some (d @ drop (length d) mem), Some (length d), OK)))"

section \<open>The error POD\<close>

record CnkError =
  er_struct_size :: u32
  er_kind :: u32
  er_phase :: u32
  er_reference :: u32
  er_presence_flags :: u32
  er_status_word :: "16 word"
  er_retries_remaining :: byte
  er_application_status :: byte

definition size_of_CnkError :: u32 where
  "size_of_CnkError = 24"

definition cleared :: "u32 \<Rightarrow> CnkError" where
  "cleared n =
     \<lparr>er_struct_size = n, er_kind = 0, er_phase = 0, er_reference = 0, er_presence_flags = 0,
      er_status_word = 0, er_retries_remaining = 0, er_application_status = 0\<rparr>"

definition clear_error :: "CnkError option \<Rightarrow> u32 + CnkError option" where
  "clear_error p =
     (case p of
        None \<Rightarrow> Inr None
      | Some pod \<Rightarrow>
          if er_struct_size pod < size_of_CnkError then Inl ARG
          else Inr (Some (cleared (er_struct_size pod))))"

fun kind_code :: "ErrorKind \<Rightarrow> u32" where
  "kind_code InvalidArgument = 1"
| "kind_code InvalidPin = 2"
| "kind_code InvalidResponse = 3"
| "kind_code ProtocolViolation = 4"
| "kind_code LimitExceeded = 5"
| "kind_code AuthenticationFailed = 6"
| "kind_code PinBlocked = 7"
| "kind_code SecurityStatusNotSatisfied = 8"
| "kind_code ConditionsNotSatisfied = 9"
| "kind_code NotFound = 10"
| "kind_code UnsupportedDevice = 11"
| "kind_code UnsupportedFeature = 12"
| "kind_code UnsupportedAlgorithm = 13"
| "kind_code CapabilityUnknown = 14"
| "kind_code UnsupportedProtocolVersion = 15"
| "kind_code UnexpectedStatusWord = 16"
| "kind_code OperationStateError = 17"
| "kind_code DeviceAuthenticationFailed = 18"

text \<open>\<open>error.phase as u32\<close>: the discriminant is the position in the enumeration.\<close>

fun phase_code :: "Phase \<Rightarrow> u32" where
  "phase_code Phase.Construction = 0"
| "phase_code Phase.Select = 1"
| "phase_code Phase.Command = 2"
| "phase_code Phase.Authentication = 3"
| "phase_code Phase.Parsing = 4"
| "phase_code Phase.Conversation = 5"

fun reference_code :: "SecretReference option \<Rightarrow> u32" where
  "reference_code None = 0"
| "reference_code (Some SecretReference.Pin) = 1"
| "reference_code (Some SecretReference.Puk) = 2"
| "reference_code (Some SecretReference.ManagementKey) = 3"
| "reference_code (Some SecretReference.AdminPin) = 4"
| "reference_code (Some SecretReference.OathAccess) = 5"
| "reference_code (Some SecretReference.Pw1Sign) = 6"
| "reference_code (Some SecretReference.Pw1Other) = 7"
| "reference_code (Some SecretReference.Pw3) = 8"
| "reference_code (Some SecretReference.ResetCode) = 9"

definition write_error :: "Error \<Rightarrow> CnkError \<Rightarrow> CnkError" where
  "write_error e pod =
     (let p1 = pod\<lparr>er_kind := kind_code (e_kind e), er_phase := phase_code (e_phase e),
                   er_reference := reference_code (e_reference e)\<rparr>;
          p2 = (case e_status_word e of
                  None \<Rightarrow> p1
                | Some sw \<Rightarrow> p1\<lparr>er_presence_flags := er_presence_flags p1 OR 1, er_status_word := sw\<rparr>);
          p3 = (case e_retries_remaining e of
                  None \<Rightarrow> p2
                | Some n \<Rightarrow> p2\<lparr>er_presence_flags := er_presence_flags p2 OR 2, er_retries_remaining := n\<rparr>)
      in case e_application_status e of
           None \<Rightarrow> p3
         | Some b \<Rightarrow> p3\<lparr>er_presence_flags := er_presence_flags p3 OR 4, er_application_status := b\<rparr>)"

definition failure_code :: "ErrorKind \<Rightarrow> u32" where
  "failure_code k =
     (if k = InvalidArgument \<or> k = InvalidPin then ARG
      else if k = OperationStateError then STATE
      else PROTOCOL)"

definition failure :: "Error \<Rightarrow> CnkError option \<Rightarrow> CnkError option \<times> u32" where
  "failure e out = (map_option (write_error e) out, failure_code (e_kind e))"

section \<open>Constructor bodies\<close>

text \<open>
  The closure of a constructor: a computation that may write the error POD and returns a status code
  or a value. \<open>abi_code\<close> embeds a helper that returns only a code, \<open>abi_failure\<close> is
  \<open>map_err(|e| failure(e, error))\<close>, and \<open>abi_bind\<close> is \<open>?\<close> followed by the rest.
\<close>

type_synonym 'a abi = "CnkError option \<Rightarrow> CnkError option \<times> (u32 + 'a)"

definition abi_code :: "u32 + 'a \<Rightarrow> 'a abi" where
  "abi_code r = (\<lambda>error. (error, r))"

definition abi_failure :: "'a res \<Rightarrow> 'a abi" where
  "abi_failure r = (\<lambda>error.
     case r of
       Inr v \<Rightarrow> (error, Inr v)
     | Inl e \<Rightarrow> (case failure e error of (error', code) \<Rightarrow> (error', Inl code)))"

definition abi_bind :: "'a abi \<Rightarrow> ('a \<Rightarrow> 'b abi) \<Rightarrow> 'b abi" where
  "abi_bind x f = (\<lambda>error.
     case x error of
       (error', Inl code) \<Rightarrow> (error', Inl code)
     | (error', Inr v) \<Rightarrow> f v error')"

text \<open>\<open>profile.as_ref().ok_or(ARG)?\<close>\<close>

definition abi_ref :: "'a option \<Rightarrow> 'a abi" where
  "abi_ref p = abi_code (ok_or p ARG)"

section \<open>Options\<close>

record CnkOptions =
  cop_struct_size :: u32
  cop_flags :: u32
  cop_max_command_bytes :: u32
  cop_max_response_bytes :: u32
  cop_max_total_response_bytes :: u32
  cop_max_exchanges :: u32

definition size_of_CnkOptions :: u32 where
  "size_of_CnkOptions = 24"

definition ffi_options :: "CnkOptions option \<Rightarrow> u32 + OperationOptions" where
  "ffi_options p =
     (case p of
        None \<Rightarrow> Inr OperationOptions_default
      | Some po \<Rightarrow>
          if cop_struct_size po < size_of_CnkOptions \<or> cop_flags po AND NOT 1 \<noteq> 0 then Inl ARG
          else
            (case OperationOptions_validate
                    \<lparr>exchange = \<lparr>max_command_bytes = unat (cop_max_command_bytes po),
                                 max_response_bytes = unat (cop_max_response_bytes po),
                                 channel_extended = (cop_flags po AND 1 \<noteq> 0)\<rparr>,
                     limits = (limits OperationOptions_default)
                       \<lparr>max_total_response_bytes := unat (cop_max_total_response_bytes po),
                        max_exchanges := unat (cop_max_exchanges po)\<rparr>\<rparr> of
               Inl _ \<Rightarrow> Inl ARG
             | Inr opts \<Rightarrow> Inr opts))"

section \<open>Operations\<close>

datatype Inner =
    OpenPgpOp "PgpOutcome COperation"
  | OathOp "Outcome COperation"
  | AdminOp "AdminOutcome COperation"
  | Sm2AgreementOp "Sm2Agreement COperation"
  | DirectoryOp "MetadataDirectory COperation"
  | ContainerNameOp "ContainerName COperation"
  | ProbeOp "DeviceProfile COperation"
  | UnitOp "unit COperation"
  | PinStatusOp "PivPinStatus COperation"
  | ObjectOp "bytes COperation"
  | CertificateOp "Certificate COperation"
  | MutationOp "MutationResult COperation"
  | MetadataOp "Metadata COperation"
  | BatchOp "BatchResults COperation"
  | PublicKeyOp "PublicKey COperation"
  | SignatureOp "PivSignature COperation"
  | AlgorithmConfigOp "AlgorithmConfig COperation"

record CnkOperation =
  cn_inner :: Inner
  cn_poisoned :: bool

text \<open>
  The macro \<open>dispatch!\<close> runs one method on the operation of whatever variant: here once per method.
  \<open>drive_operation\<close> is the body the driving function dispatches.
\<close>

definition drive_operation :: "bytes option \<Rightarrow> 't COperation \<Rightarrow> 't COperation \<times> Step res" where
  "drive_operation response op =
     (case response of
        None \<Rightarrow> Operation_start Boxed_ops op
      | Some r \<Rightarrow> Operation_advance Boxed_ops op r)"

fun inner_drive :: "bytes option \<Rightarrow> Inner \<Rightarrow> Inner \<times> Step res" where
  "inner_drive r (OpenPgpOp p) = map_prod OpenPgpOp (\<lambda>s. s) (drive_operation r p)"
| "inner_drive r (OathOp p) = map_prod OathOp (\<lambda>s. s) (drive_operation r p)"
| "inner_drive r (AdminOp p) = map_prod AdminOp (\<lambda>s. s) (drive_operation r p)"
| "inner_drive r (Sm2AgreementOp p) = map_prod Sm2AgreementOp (\<lambda>s. s) (drive_operation r p)"
| "inner_drive r (DirectoryOp p) = map_prod DirectoryOp (\<lambda>s. s) (drive_operation r p)"
| "inner_drive r (ContainerNameOp p) = map_prod ContainerNameOp (\<lambda>s. s) (drive_operation r p)"
| "inner_drive r (ProbeOp p) = map_prod ProbeOp (\<lambda>s. s) (drive_operation r p)"
| "inner_drive r (UnitOp p) = map_prod UnitOp (\<lambda>s. s) (drive_operation r p)"
| "inner_drive r (PinStatusOp p) = map_prod PinStatusOp (\<lambda>s. s) (drive_operation r p)"
| "inner_drive r (ObjectOp p) = map_prod ObjectOp (\<lambda>s. s) (drive_operation r p)"
| "inner_drive r (CertificateOp p) = map_prod CertificateOp (\<lambda>s. s) (drive_operation r p)"
| "inner_drive r (MutationOp p) = map_prod MutationOp (\<lambda>s. s) (drive_operation r p)"
| "inner_drive r (MetadataOp p) = map_prod MetadataOp (\<lambda>s. s) (drive_operation r p)"
| "inner_drive r (BatchOp p) = map_prod BatchOp (\<lambda>s. s) (drive_operation r p)"
| "inner_drive r (PublicKeyOp p) = map_prod PublicKeyOp (\<lambda>s. s) (drive_operation r p)"
| "inner_drive r (SignatureOp p) = map_prod SignatureOp (\<lambda>s. s) (drive_operation r p)"
| "inner_drive r (AlgorithmConfigOp p) = map_prod AlgorithmConfigOp (\<lambda>s. s) (drive_operation r p)"

fun inner_command :: "Inner \<Rightarrow> CommandApdu res" where
  "inner_command (OpenPgpOp p) = Operation_command p"
| "inner_command (OathOp p) = Operation_command p"
| "inner_command (AdminOp p) = Operation_command p"
| "inner_command (Sm2AgreementOp p) = Operation_command p"
| "inner_command (DirectoryOp p) = Operation_command p"
| "inner_command (ContainerNameOp p) = Operation_command p"
| "inner_command (ProbeOp p) = Operation_command p"
| "inner_command (UnitOp p) = Operation_command p"
| "inner_command (PinStatusOp p) = Operation_command p"
| "inner_command (ObjectOp p) = Operation_command p"
| "inner_command (CertificateOp p) = Operation_command p"
| "inner_command (MutationOp p) = Operation_command p"
| "inner_command (MetadataOp p) = Operation_command p"
| "inner_command (BatchOp p) = Operation_command p"
| "inner_command (PublicKeyOp p) = Operation_command p"
| "inner_command (SignatureOp p) = Operation_command p"
| "inner_command (AlgorithmConfigOp p) = Operation_command p"

fun inner_state :: "Inner \<Rightarrow> OperationState" where
  "inner_state (OpenPgpOp p) = op_state p"
| "inner_state (OathOp p) = op_state p"
| "inner_state (AdminOp p) = op_state p"
| "inner_state (Sm2AgreementOp p) = op_state p"
| "inner_state (DirectoryOp p) = op_state p"
| "inner_state (ContainerNameOp p) = op_state p"
| "inner_state (ProbeOp p) = op_state p"
| "inner_state (UnitOp p) = op_state p"
| "inner_state (PinStatusOp p) = op_state p"
| "inner_state (ObjectOp p) = op_state p"
| "inner_state (CertificateOp p) = op_state p"
| "inner_state (MutationOp p) = op_state p"
| "inner_state (MetadataOp p) = op_state p"
| "inner_state (BatchOp p) = op_state p"
| "inner_state (PublicKeyOp p) = op_state p"
| "inner_state (SignatureOp p) = op_state p"
| "inner_state (AlgorithmConfigOp p) = op_state p"

fun inner_error :: "Inner \<Rightarrow> Error option" where
  "inner_error (OpenPgpOp p) = op_error p"
| "inner_error (OathOp p) = op_error p"
| "inner_error (AdminOp p) = op_error p"
| "inner_error (Sm2AgreementOp p) = op_error p"
| "inner_error (DirectoryOp p) = op_error p"
| "inner_error (ContainerNameOp p) = op_error p"
| "inner_error (ProbeOp p) = op_error p"
| "inner_error (UnitOp p) = op_error p"
| "inner_error (PinStatusOp p) = op_error p"
| "inner_error (ObjectOp p) = op_error p"
| "inner_error (CertificateOp p) = op_error p"
| "inner_error (MutationOp p) = op_error p"
| "inner_error (MetadataOp p) = op_error p"
| "inner_error (BatchOp p) = op_error p"
| "inner_error (PublicKeyOp p) = op_error p"
| "inner_error (SignatureOp p) = op_error p"
| "inner_error (AlgorithmConfigOp p) = op_error p"

fun inner_cancel :: "Inner \<Rightarrow> Inner" where
  "inner_cancel (OpenPgpOp p) = OpenPgpOp (Operation_cancel p)"
| "inner_cancel (OathOp p) = OathOp (Operation_cancel p)"
| "inner_cancel (AdminOp p) = AdminOp (Operation_cancel p)"
| "inner_cancel (Sm2AgreementOp p) = Sm2AgreementOp (Operation_cancel p)"
| "inner_cancel (DirectoryOp p) = DirectoryOp (Operation_cancel p)"
| "inner_cancel (ContainerNameOp p) = ContainerNameOp (Operation_cancel p)"
| "inner_cancel (ProbeOp p) = ProbeOp (Operation_cancel p)"
| "inner_cancel (UnitOp p) = UnitOp (Operation_cancel p)"
| "inner_cancel (PinStatusOp p) = PinStatusOp (Operation_cancel p)"
| "inner_cancel (ObjectOp p) = ObjectOp (Operation_cancel p)"
| "inner_cancel (CertificateOp p) = CertificateOp (Operation_cancel p)"
| "inner_cancel (MutationOp p) = MutationOp (Operation_cancel p)"
| "inner_cancel (MetadataOp p) = MetadataOp (Operation_cancel p)"
| "inner_cancel (BatchOp p) = BatchOp (Operation_cancel p)"
| "inner_cancel (PublicKeyOp p) = PublicKeyOp (Operation_cancel p)"
| "inner_cancel (SignatureOp p) = SignatureOp (Operation_cancel p)"
| "inner_cancel (AlgorithmConfigOp p) = AlgorithmConfigOp (Operation_cancel p)"

fun result_kind_code :: "Inner \<Rightarrow> u32" where
  "result_kind_code (OpenPgpOp p) = 17"
| "result_kind_code (OathOp p) = 16"
| "result_kind_code (AdminOp p) = 15"
| "result_kind_code (Sm2AgreementOp p) = 14"
| "result_kind_code (DirectoryOp p) = 12"
| "result_kind_code (ContainerNameOp p) = 13"
| "result_kind_code (ProbeOp p) = 1"
| "result_kind_code (UnitOp p) = 2"
| "result_kind_code (PinStatusOp p) = 3"
| "result_kind_code (ObjectOp p) = 4"
| "result_kind_code (CertificateOp p) = 5"
| "result_kind_code (MutationOp p) = 6"
| "result_kind_code (MetadataOp p) = 7"
| "result_kind_code (BatchOp p) = 11"
| "result_kind_code (PublicKeyOp p) = 8"
| "result_kind_code (SignatureOp p) = 9"
| "result_kind_code (AlgorithmConfigOp p) = 10"

text \<open>\<open>create\<close>: \<open>out\<close> is the cell the handle is written to, here the operation itself.\<close>

definition create ::
  "CnkOperation option option \<Rightarrow> CnkError option \<Rightarrow> Inner abi
   \<Rightarrow> CnkOperation option option \<times> CnkError option \<times> u32" where
  "create out error f =
     (case out of
        None \<Rightarrow> (None, error, ARG)
      | Some _ \<Rightarrow>
          (case clear_error error of
             Inl code \<Rightarrow> (Some None, error, code)
           | Inr error1 \<Rightarrow>
               (case f error1 of
                  (error2, Inr inner) \<Rightarrow> (Some (Some \<lparr>cn_inner = inner, cn_poisoned = False\<rparr>), error2, OK)
                | (error2, Inl code) \<Rightarrow> (Some None, error2, code))))"

text \<open>
  The parameter \<open>unwinds\<close> says whether running the operation with a response unwinds, and the
  operation that is left behind if it does.
\<close>

type_synonym unwinds = "Inner \<Rightarrow> bytes option \<Rightarrow> Inner option"

fun step_code :: "Step \<Rightarrow> u32" where
  "step_code Exchange = 1"
| "step_code Step.Done = 2"

definition ffi_drive ::
  "unwinds \<Rightarrow> CnkOperation option \<Rightarrow> u32 option \<Rightarrow> CnkError option \<Rightarrow> bytes option
   \<Rightarrow> CnkOperation option \<times> u32 option \<times> CnkError option \<times> u32" where
  "ffi_drive unwinds op step error response =
     (case step of
        None \<Rightarrow> (op, None, error, ARG)
      | Some _ \<Rightarrow>
          (case clear_error error of
             Inl code \<Rightarrow> (op, Some 0, error, code)
           | Inr error1 \<Rightarrow>
               (case op of
                  None \<Rightarrow> (None, Some 0, error1, ARG)
                | Some cn \<Rightarrow>
                    if cn_poisoned cn then (Some cn, Some 0, error1, STATE)
                    else
                      (case unwinds (cn_inner cn) response of
                         Some left \<Rightarrow>
                           (Some (cn\<lparr>cn_inner := inner_cancel left, cn_poisoned := True\<rparr>), Some 0, error1, PANIC)
                       | None \<Rightarrow>
                           (case inner_drive response (cn_inner cn) of
                              (inner, Inr s) \<Rightarrow> (Some (cn\<lparr>cn_inner := inner\<rparr>), Some (step_code s), error1, OK)
                            | (inner, Inl e) \<Rightarrow>
                                (case failure e error1 of
                                   (error2, code) \<Rightarrow> (Some (cn\<lparr>cn_inner := inner\<rparr>), Some 0, error2, code)))))))"

definition cnk_operation_start ::
  "unwinds \<Rightarrow> CnkOperation option \<Rightarrow> u32 option \<Rightarrow> CnkError option
   \<Rightarrow> CnkOperation option \<times> u32 option \<times> CnkError option \<times> u32" where
  "cnk_operation_start unwinds op step error = ffi_drive unwinds op step error None"

definition cnk_operation_advance ::
  "unwinds \<Rightarrow> CnkOperation option \<Rightarrow> span \<Rightarrow> u32 option \<Rightarrow> CnkError option
   \<Rightarrow> CnkOperation option \<times> u32 option \<times> CnkError option \<times> u32" where
  "cnk_operation_advance unwinds op response step error =
     (case ffi_bytes response of
        Inr r \<Rightarrow> ffi_drive unwinds op step error (Some r)
      | Inl code \<Rightarrow>
          (op, map_option (\<lambda>_. 0) step,
           (case clear_error error of Inl _ \<Rightarrow> error | Inr error1 \<Rightarrow> error1), code))"

definition cnk_operation_command ::
  "CnkOperation option \<Rightarrow> bytes option \<Rightarrow> nat option \<Rightarrow> bytes option \<times> nat option \<times> u32" where
  "cnk_operation_command op buffer len =
     (case op of
        None \<Rightarrow> (buffer, len, ARG)
      | Some cn \<Rightarrow>
          if cn_poisoned cn then (buffer, len, STATE)
          else case inner_command (cn_inner cn) of
            Inr cmd \<Rightarrow> ffi_copy (ca_bytes cmd) buffer len
          | Inl _ \<Rightarrow> (buffer, len, STATE))"

definition cnk_operation_take_profile ::
  "CnkOperation option \<Rightarrow> DeviceProfile option option
   \<Rightarrow> CnkOperation option \<times> DeviceProfile option option \<times> u32" where
  "cnk_operation_take_profile op out =
     (case out of
        None \<Rightarrow> (op, None, ARG)
      | Some _ \<Rightarrow>
          (case op of
             None \<Rightarrow> (None, Some None, ARG)
           | Some cn \<Rightarrow>
               if cn_poisoned cn then (Some cn, Some None, STATE)
               else case cn_inner cn of
                 ProbeOp p \<Rightarrow>
                   (case Operation_take_result p of
                      (p', Inr profile) \<Rightarrow> (Some (cn\<lparr>cn_inner := ProbeOp p'\<rparr>), Some (Some profile), OK)
                    | (p', Inl _) \<Rightarrow> (Some (cn\<lparr>cn_inner := ProbeOp p'\<rparr>), Some None, STATE))
               | _ \<Rightarrow> (Some cn, Some None, TYPE_CODE)))"

definition cnk_operation_cancel :: "CnkOperation option \<Rightarrow> CnkOperation option \<times> u32" where
  "cnk_operation_cancel op =
     (case op of
        None \<Rightarrow> (None, ARG)
      | Some cn \<Rightarrow> (Some (cn\<lparr>cn_inner := inner_cancel (cn_inner cn)\<rparr>), OK))"

fun state_code :: "OperationState \<Rightarrow> u32" where
  "state_code Created = 0"
| "state_code AwaitingResponse = 1"
| "state_code Completed = 2"
| "state_code Failed = 3"
| "state_code Cancelled = 4"
| "state_code ResultTaken = 5"

definition cnk_operation_state :: "CnkOperation option \<Rightarrow> u32 option \<Rightarrow> u32 option \<times> u32" where
  "cnk_operation_state op out =
     (case out of
        None \<Rightarrow> (None, ARG)
      | Some v \<Rightarrow>
          (case op of
             None \<Rightarrow> (Some v, ARG)
           | Some cn \<Rightarrow>
               if cn_poisoned cn then (Some v, STATE)
               else (Some (state_code (inner_state (cn_inner cn))), OK)))"

definition cnk_operation_error :: "CnkOperation option \<Rightarrow> CnkError option \<Rightarrow> CnkError option \<times> u32" where
  "cnk_operation_error op out =
     (if out = None then (None, ARG)
      else case clear_error out of
        Inl code \<Rightarrow> (out, code)
      | Inr out1 \<Rightarrow>
          (case op of
             None \<Rightarrow> (out1, ARG)
           | Some cn \<Rightarrow>
               if cn_poisoned cn then (out1, STATE)
               else case inner_error (cn_inner cn) of
                 Some e \<Rightarrow> (fst (failure e out1), OK)
               | None \<Rightarrow> (out1, STATE)))"

definition cnk_operation_result_kind :: "CnkOperation option \<Rightarrow> u32 option \<Rightarrow> u32 option \<times> u32" where
  "cnk_operation_result_kind op out =
     (case out of
        None \<Rightarrow> (None, ARG)
      | Some v \<Rightarrow>
          (case op of
             None \<Rightarrow> (Some v, ARG)
           | Some cn \<Rightarrow>
               if cn_poisoned cn \<or> inner_state (cn_inner cn) \<noteq> Completed then (Some v, STATE)
               else (Some (result_kind_code (cn_inner cn)), OK)))"

section \<open>Byte results\<close>

fun slot_bytes :: "PassSlotState \<Rightarrow> bytes" where
  "slot_bytes SlotOff = [0x00]"
| "slot_bytes (SlotStatic append_enter) = [0x02, of_bool append_enter]"
| "slot_bytes SlotHmacSha1 = [0x03]"
| "slot_bytes (SlotOath name append_enter) = [0x01, of_nat (length name)] @ name @ [of_bool append_enter]"
| "slot_bytes (SlotUnknown t) = [t]"

fun result_bytes :: "AdminValue \<Rightarrow> bytes option" where
  "result_bytes (BytesValue b) = Some b"
| "result_bytes (ConfigurationValue c) = Some c"
| "result_bytes (LegacyConfigurationValue c) = Some (lg_raw c)"
| "result_bytes (LegacySm2Value c) = Some c"
| "result_bytes (AppletUsageValue entries) =
     Some (concat (map (\<lambda>e. [au_applet_id e, au_flags e] @ to_be_bytes 4 (au_logical_bytes e)) entries))"
| "result_bytes (Sm2Value s) = Some (Sm2Configuration_to_bytes s)"
| "result_bytes (KeyboardLayoutValue i) = Some [i]"
| "result_bytes (KeyboardKeymapValue m) = Some m"
| "result_bytes (PassSlotsValue slots) = Some (slot_bytes (ps_short slots) @ slot_bytes (ps_long slots))"
| "result_bytes _ = None"

text \<open>The bytes of a completed result, or the code the getter returns instead.\<close>

definition of_result :: "'t COperation \<Rightarrow> ('t \<Rightarrow> u32 + 'a) \<Rightarrow> u32 + 'a" where
  "of_result p f = (case Operation_result p of Inl _ \<Rightarrow> Inl STATE | Inr v \<Rightarrow> f v)"

fun pgp_result_bytes :: "PgpOutcome \<Rightarrow> u32 + bytes" where
  "pgp_result_bytes (PgpBytes b) = Inr b"
| "pgp_result_bytes (PgpSignature _ b) = Inr b"
| "pgp_result_bytes _ = Inl TYPE_CODE"

fun inner_bytes :: "Inner \<Rightarrow> u32 + bytes" where
  "inner_bytes (OpenPgpOp p) = of_result p pgp_result_bytes"
| "inner_bytes (AdminOp p) = of_result p (\<lambda>v. ok_or (result_bytes (oc_value v)) TYPE_CODE)"
| "inner_bytes (MetadataOp p) = of_result p (\<lambda>v. Inr (mf_raw (Metadata_fields v)))"
| "inner_bytes (SignatureOp p) = of_result p (\<lambda>v. Inr (sg_bytes v))"
| "inner_bytes (Sm2AgreementOp p) = of_result p (\<lambda>a. Inr (sm_key a))"
| "inner_bytes (DirectoryOp p) = of_result p (\<lambda>d. Inr (md_raw d))"
| "inner_bytes (ContainerNameOp p) = of_result p Inr"
| "inner_bytes (AlgorithmConfigOp p) = of_result p (\<lambda>v. Inr (ac_raw v))"
| "inner_bytes (CertificateOp p) = of_result p (\<lambda>v. Inr (ce_der v))"
| "inner_bytes (ObjectOp p) = of_result p Inr"
| "inner_bytes _ = Inl TYPE_CODE"

text \<open>A getter that copies bytes or leaves its outputs alone and returns a code.\<close>

definition copy_or :: "u32 + bytes \<Rightarrow> bytes option \<Rightarrow> nat option \<Rightarrow> bytes option \<times> nat option \<times> u32" where
  "copy_or r buffer len = (case r of Inl code \<Rightarrow> (buffer, len, code) | Inr d \<Rightarrow> ffi_copy d buffer len)"

definition cnk_operation_result_copy_bytes ::
  "CnkOperation option \<Rightarrow> bytes option \<Rightarrow> nat option \<Rightarrow> bytes option \<times> nat option \<times> u32" where
  "cnk_operation_result_copy_bytes op buffer len =
     (case op of
        None \<Rightarrow> (buffer, len, ARG)
      | Some cn \<Rightarrow>
          if cn_poisoned cn then (buffer, len, STATE)
          else copy_or (inner_bytes (cn_inner cn)) buffer len)"

record CnkPinStatus =
  cp_struct_size :: u32
  cp_presence_flags :: u32
  cp_verified :: byte
  cp_remaining :: byte
  cp_total :: byte
  cp_blocked :: byte

definition size_of_CnkPinStatus :: u32 where
  "size_of_CnkPinStatus = 12"

definition unwrap_or :: "'a option \<Rightarrow> 'a \<Rightarrow> 'a" where
  "unwrap_or x d = (case x of None \<Rightarrow> d | Some v \<Rightarrow> v)"

definition pgp_pin_pod :: "u32 \<Rightarrow> PgpPinStatus \<Rightarrow> CnkPinStatus" where
  "pgp_pin_pod n s =
     \<lparr>cp_struct_size = n,
      cp_presence_flags = 1 OR push_bit 1 (of_bool (PgpPinStatus.ps_retries_remaining s \<noteq> None)),
      cp_verified = of_bool (PgpPinStatus.ps_verified s),
      cp_remaining = unwrap_or (PgpPinStatus.ps_retries_remaining s) 0,
      cp_total = 0,
      cp_blocked = of_bool (PgpPinStatus.ps_blocked s)\<rparr>"

definition piv_pin_pod :: "u32 \<Rightarrow> PivPinStatus \<Rightarrow> CnkPinStatus" where
  "piv_pin_pod n s =
     \<lparr>cp_struct_size = n,
      cp_presence_flags =
        of_bool (PivPinStatus.ps_verified s \<noteq> None)
        OR push_bit 1 (of_bool (PivPinStatus.ps_retries_remaining s \<noteq> None))
        OR push_bit 2 (of_bool (ps_retries_total s \<noteq> None)),
      cp_verified = of_bool (unwrap_or (PivPinStatus.ps_verified s) False),
      cp_remaining = unwrap_or (PivPinStatus.ps_retries_remaining s) 0,
      cp_total = unwrap_or (ps_retries_total s) 0,
      cp_blocked = of_bool (PivPinStatus.ps_blocked s)\<rparr>"

definition pin_status_pod :: "u32 \<Rightarrow> Inner \<Rightarrow> u32 + CnkPinStatus" where
  "pin_status_pod n inner =
     (case inner of
        OpenPgpOp p \<Rightarrow>
          of_result p (\<lambda>v. case v of PgpPin s \<Rightarrow> Inr (pgp_pin_pod n s) | _ \<Rightarrow> Inl TYPE_CODE)
      | PinStatusOp p \<Rightarrow> of_result p (\<lambda>s. Inr (piv_pin_pod n s))
      | _ \<Rightarrow> Inl TYPE_CODE)"

definition cnk_operation_pin_status ::
  "CnkOperation option \<Rightarrow> CnkPinStatus option \<Rightarrow> CnkPinStatus option \<times> u32" where
  "cnk_operation_pin_status op out =
     (case out of
        None \<Rightarrow> (None, ARG)
      | Some pod \<Rightarrow>
          if cp_struct_size pod < size_of_CnkPinStatus then (Some pod, ARG)
          else case op of
            None \<Rightarrow> (Some pod, ARG)
          | Some cn \<Rightarrow>
              if cn_poisoned cn then (Some pod, STATE)
              else case pin_status_pod (cp_struct_size pod) (cn_inner cn) of
                Inl code \<Rightarrow> (Some pod, code)
              | Inr pod' \<Rightarrow> (Some pod', OK))"

section \<open>Probe constructors\<close>

text \<open>\<open>.map(Inner::X)\<close> on a factory's result; the operation boxes its machine.\<close>

definition into_inner :: "('t COperation \<Rightarrow> Inner) \<Rightarrow> ('m, 't) Machine \<Rightarrow> ('m, 't) Operation res \<Rightarrow> Inner res" where
  "into_inner wrap M r = bindE r (\<lambda>op. Inr (wrap (box_operation M op)))"

definition probe_mode :: "u32 \<Rightarrow> u32 + ProbeMode" where
  "probe_mode mode = (if mode = 0 then Inr Minimal else if mode = 1 then Inr ProbeMode.Piv else Inl ARG)"

definition cnk_probe_device_new ::
  "u32 \<Rightarrow> CnkOptions option \<Rightarrow> CnkOperation option option \<Rightarrow> CnkError option
   \<Rightarrow> CnkOperation option option \<times> CnkError option \<times> u32" where
  "cnk_probe_device_new mode opts out error =
     create out error (
       abi_bind (abi_code (probe_mode mode)) (\<lambda>mode.
       abi_bind (abi_code (ffi_options opts)) (\<lambda>options.
       abi_failure (into_inner ProbeOp Probe_ops
         (probe_device \<lparr>po_mode = mode, po_observed_serial = None, po_operation = options\<rparr>)))))"

definition observed_serial :: "span \<Rightarrow> u32 + bytes option" where
  "observed_serial serial =
     (case fst serial of
        None \<Rightarrow> Inr None
      | Some mem \<Rightarrow>
          (let bs = take (snd serial) mem in if length bs = 4 then Inr (Some bs) else Inl ARG))"

definition cnk_probe_device_with_serial_new ::
  "u32 \<Rightarrow> span \<Rightarrow> CnkOptions option \<Rightarrow> CnkOperation option option \<Rightarrow> CnkError option
   \<Rightarrow> CnkOperation option option \<times> CnkError option \<times> u32" where
  "cnk_probe_device_with_serial_new mode serial opts out error =
     create out error (
       abi_bind (abi_code (observed_serial serial)) (\<lambda>observed.
       abi_bind (abi_code (probe_mode mode)) (\<lambda>mode.
       abi_bind (abi_code (ffi_options opts)) (\<lambda>options.
       abi_failure (into_inner ProbeOp Probe_ops
         (probe_device \<lparr>po_mode = mode, po_observed_serial = observed, po_operation = options\<rparr>))))))"

section \<open>Profiles\<close>

definition cnk_profile_firmware_text ::
  "DeviceProfile option \<Rightarrow> bytes option \<Rightarrow> nat option \<Rightarrow> bytes option \<times> nat option \<times> u32" where
  "cnk_profile_firmware_text profile buffer len =
     copy_or (bindE (ok_or profile ARG) (\<lambda>p. Inr (di_firmware_text (dp_info p)))) buffer len"

definition cnk_profile_firmware_version ::
  "DeviceProfile option \<Rightarrow> (u32 \<times> u32 \<times> u32) option \<Rightarrow> (u32 \<times> u32 \<times> u32) option \<times> u32" where
  "cnk_profile_firmware_version profile version =
     (case version of
        None \<Rightarrow> (None, ARG)
      | Some old \<Rightarrow>
          (case profile of
             None \<Rightarrow> (Some old, ARG)
           | Some p \<Rightarrow>
               (case di_firmware (dp_info p) of
                  None \<Rightarrow> (Some old, TYPE_CODE)
                | Some fw \<Rightarrow> (Some (of_nat (fw_major fw), of_nat (fw_minor fw), of_nat (fw_patch fw)), OK))))"

definition cnk_profile_model_copy ::
  "DeviceProfile option \<Rightarrow> bytes option \<Rightarrow> nat option \<Rightarrow> bytes option \<times> nat option \<times> u32" where
  "cnk_profile_model_copy profile buffer len =
     copy_or (bindE (ok_or profile ARG) (\<lambda>p. ok_or (di_model (dp_info p)) TYPE_CODE)) buffer len"

definition cnk_profile_serial_u32 :: "DeviceProfile option \<Rightarrow> u32 option \<Rightarrow> u32 option \<times> u32" where
  "cnk_profile_serial_u32 profile out =
     (case out of
        None \<Rightarrow> (None, ARG)
      | Some old \<Rightarrow>
          (case profile of
             None \<Rightarrow> (Some old, ARG)
           | Some p \<Rightarrow>
               (case di_serial (dp_info p) of
                  None \<Rightarrow> (Some old, TYPE_CODE)
                | Some serial \<Rightarrow>
                    if length serial = 4 then (Some (from_be serial), OK) else (Some old, TYPE_CODE))))"

fun support_code :: "Support \<Rightarrow> u32" where
  "support_code Supported = 1"
| "support_code Unsupported = 2"
| "support_code Unknown = 0"

definition cnk_profile_piv_support :: "DeviceProfile option \<Rightarrow> u32 option \<Rightarrow> u32 option \<times> u32" where
  "cnk_profile_piv_support profile out =
     (case out of
        None \<Rightarrow> (None, ARG)
      | Some old \<Rightarrow>
          (case profile of
             None \<Rightarrow> (Some old, ARG)
           | Some p \<Rightarrow> (Some (support_code (cs_support (capability p Capability.Piv))), OK)))"

definition algorithm_of_code :: "u32 \<Rightarrow> u32 + Algorithm" where
  "algorithm_of_code v =
     (if v = 1 then Inr Rsa1024 else if v = 2 then Inr Rsa2048
      else if v = 3 then Inr Rsa3072 else if v = 4 then Inr Rsa4096
      else if v = 5 then Inr EccP256 else if v = 6 then Inr EccP384
      else if v = 7 then Inr EccP521 else if v = 8 then Inr Secp256k1
      else if v = 9 then Inr Sm2 else if v = 10 then Inr Ed25519
      else if v = 11 then Inr X25519 else if v = 12 then Inr MlDsa65
      else if v = 13 then Inr MlKem768 else Inl ARG)"

fun algorithm_code :: "Algorithm \<Rightarrow> u32" where
  "algorithm_code Rsa1024 = 1"
| "algorithm_code Rsa2048 = 2"
| "algorithm_code Rsa3072 = 3"
| "algorithm_code Rsa4096 = 4"
| "algorithm_code EccP256 = 5"
| "algorithm_code EccP384 = 6"
| "algorithm_code EccP521 = 7"
| "algorithm_code Secp256k1 = 8"
| "algorithm_code Sm2 = 9"
| "algorithm_code Ed25519 = 10"
| "algorithm_code X25519 = 11"
| "algorithm_code MlDsa65 = 12"
| "algorithm_code MlKem768 = 13"

definition cnk_profile_piv_algorithm_from_wire ::
  "DeviceProfile option \<Rightarrow> u32 \<Rightarrow> u32 option \<Rightarrow> u32 option \<times> u32" where
  "cnk_profile_piv_algorithm_from_wire profile wire out =
     (case out of
        None \<Rightarrow> (None, ARG)
      | Some old \<Rightarrow>
          if wire > 255 then (Some old, ARG)
          else case profile of
            None \<Rightarrow> (Some old, ARG)
          | Some p \<Rightarrow>
              (case algorithm_from_wire_id p (ucast wire) of
                 Some algorithm \<Rightarrow> (Some (algorithm_code algorithm), OK)
               | None \<Rightarrow> (Some old, ARG)))"

definition cnk_profile_piv_require_algorithm ::
  "DeviceProfile option \<Rightarrow> u32 \<Rightarrow> CnkError option \<Rightarrow> CnkError option \<times> u32" where
  "cnk_profile_piv_require_algorithm profile code error =
     (case clear_error error of
        Inl c \<Rightarrow> (error, c)
      | Inr error1 \<Rightarrow>
          (case profile of
             None \<Rightarrow> (error1, ARG)
           | Some p \<Rightarrow>
               (case algorithm_of_code code of
                  Inl c \<Rightarrow> (error1, c)
                | Inr algorithm \<Rightarrow>
                    (case bindE (CapabilityStatus_require (capability p Capability.Piv)) (\<lambda>_.
                            CapabilityStatus_require (key_algorithm_support p algorithm)) of
                       Inr _ \<Rightarrow> (error1, OK)
                     | Inl e \<Rightarrow> failure e error1))))"

definition cnk_profile_with_legacy_piv_extensions ::
  "DeviceProfile option \<Rightarrow> u32 \<Rightarrow> DeviceProfile option option \<Rightarrow> CnkError option
   \<Rightarrow> DeviceProfile option option \<times> CnkError option \<times> u32" where
  "cnk_profile_with_legacy_piv_extensions profile enabled out error =
     (case out of
        None \<Rightarrow> (None, error, ARG)
      | Some _ \<Rightarrow>
          (case clear_error error of
             Inl code \<Rightarrow> (Some None, error, code)
           | Inr error1 \<Rightarrow>
               if enabled > 1 then (Some None, error1, ARG)
               else case profile of
                 None \<Rightarrow> (Some None, error1, ARG)
               | Some p \<Rightarrow>
                   (case with_legacy_piv_extensions p (enabled \<noteq> 0) of
                      Inr p' \<Rightarrow> (Some (Some p'), error1, OK)
                    | Inl e \<Rightarrow> (case failure e error1 of (error2, code) \<Rightarrow> (Some None, error2, code)))))"

section \<open>Handles\<close>

text \<open>
  The objects a C program owns, by address. \<open>Box::into_raw\<close> puts one at an address that is not in
  use and not NULL; the free functions take it away and ignore NULL.
\<close>

record Handles =
  hd_operations :: "nat \<rightharpoonup> CnkOperation"
  hd_profiles :: "nat \<rightharpoonup> DeviceProfile"

definition fresh_address :: "nat \<Rightarrow> Handles \<Rightarrow> bool" where
  "fresh_address a h \<longleftrightarrow> a \<noteq> 0 \<and> hd_operations h a = None \<and> hd_profiles h a = None"

definition cnk_operation_free :: "nat \<Rightarrow> Handles \<Rightarrow> Handles" where
  "cnk_operation_free op h = (if op = 0 then h else h\<lparr>hd_operations := (hd_operations h)(op := None)\<rparr>)"

definition cnk_profile_free :: "nat \<Rightarrow> Handles \<Rightarrow> Handles" where
  "cnk_profile_free profile h =
     (if profile = 0 then h else h\<lparr>hd_profiles := (hd_profiles h)(profile := None)\<rparr>)"

definition cnk_abi_version :: u32 where
  "cnk_abi_version = 0x00000001"

section \<open>Boxing changes no behaviour\<close>

lemma Boxed_ops_simps [simp]:
  "m_next Boxed_ops = bx_next"
  "m_progress Boxed_ops = bx_progress"
  "m_take_progress Boxed_ops = bx_take_progress"
  by (simp_all add: Boxed_ops_def)

lemma box_operation_sel [simp]:
  "op_machine (box_operation M op) = map_option (box_machine M) (op_machine op)"
  "op_conversation (box_operation M op) = op_conversation op"
  "op_output (box_operation M op) = op_output op"
  "op_progress (box_operation M op) = op_progress op"
  "op_error (box_operation M op) = op_error op"
  "op_state (box_operation M op) = op_state op"
  "op_options (box_operation M op) = op_options op"
  "op_exchanges (box_operation M op) = op_exchanges op"
  "op_response_bytes (box_operation M op) = op_response_bytes op"
  by (simp_all add: box_operation_def)

lemma box_operation_upd:
  "(box_operation M op)\<lparr>op_machine := map_option (box_machine M) m\<rparr> = box_operation M (op\<lparr>op_machine := m\<rparr>)"
  "(box_operation M op)\<lparr>op_machine := Some (box_machine M m')\<rparr> = box_operation M (op\<lparr>op_machine := Some m'\<rparr>)"
  "(box_operation M op)\<lparr>op_machine := None\<rparr> = box_operation M (op\<lparr>op_machine := None\<rparr>)"
  "(box_operation M op)\<lparr>op_conversation := c\<rparr> = box_operation M (op\<lparr>op_conversation := c\<rparr>)"
  "(box_operation M op)\<lparr>op_output := out\<rparr> = box_operation M (op\<lparr>op_output := out\<rparr>)"
  "(box_operation M op)\<lparr>op_progress := out\<rparr> = box_operation M (op\<lparr>op_progress := out\<rparr>)"
  "(box_operation M op)\<lparr>op_error := e\<rparr> = box_operation M (op\<lparr>op_error := e\<rparr>)"
  "(box_operation M op)\<lparr>op_state := st\<rparr> = box_operation M (op\<lparr>op_state := st\<rparr>)"
  "(box_operation M op)\<lparr>op_exchanges := n\<rparr> = box_operation M (op\<lparr>op_exchanges := n\<rparr>)"
  "(box_operation M op)\<lparr>op_response_bytes := n\<rparr> = box_operation M (op\<lparr>op_response_bytes := n\<rparr>)"
  by (simp_all add: box_operation_def)

lemma box_exchange:
  "Operation_exchange (box_operation M op) = map_prod (box_operation M) (\<lambda>r. r) (Operation_exchange op)"
  by (simp add: Operation_exchange_def box_operation_upd)

lemma box_drive:
  "Operation_drive Boxed_ops (box_operation M op) r = map_prod (box_operation M) (\<lambda>r. r) (Operation_drive M op r)"
  by (auto simp: Operation_drive_def box_operation_upd box_exchange map_prod_def
      split: option.splits prod.splits sum.splits Action.splits)

lemma box_take_progress:
  "Option.bind (map_option (box_machine M) m) bx_take_progress = Option.bind m (m_take_progress M)"
  by (cases m) auto

lemma box_record:
  "Operation_record Boxed_ops (map_prod (box_operation M) (\<lambda>r. r) p) =
     map_prod (box_operation M) (\<lambda>r. r) (Operation_record M p)"
  by (cases p; cases "snd p") (auto simp: Operation_record_def box_operation_upd box_take_progress)

lemma box_start:
  "Operation_start Boxed_ops (box_operation M op) = map_prod (box_operation M) (\<lambda>r. r) (Operation_start M op)"
  by (simp add: Operation_start_def box_drive box_record)

lemma box_advance_inner:
  "Operation_advance_inner Boxed_ops (box_operation M op) bs =
     map_prod (box_operation M) (\<lambda>r. r) (Operation_advance_inner M op bs)"
  by (auto simp: Operation_advance_inner_def Let_def box_operation_upd box_exchange box_drive
      split: sum.splits option.splits prod.splits)

lemma box_advance:
  "Operation_advance Boxed_ops (box_operation M op) bs =
     map_prod (box_operation M) (\<lambda>r. r) (Operation_advance M op bs)"
  by (simp add: Operation_advance_def box_advance_inner box_record)

lemma box_cancel: "Operation_cancel (box_operation M op) = box_operation M (Operation_cancel op)"
  by (simp add: Operation_cancel_def box_operation_upd)

lemma box_take_result:
  "Operation_take_result (box_operation M op) = map_prod (box_operation M) (\<lambda>r. r) (Operation_take_result op)"
  by (auto simp: Operation_take_result_def box_operation_upd split: option.splits)

lemma box_results [simp]:
  "Operation_command (box_operation M op) = Operation_command op"
  "Operation_result (box_operation M op) = Operation_result op"
  by (simp_all add: Operation_command_def Operation_result_def)

lemma box_progress: "Operation_progress Boxed_ops (box_operation M op) = Operation_progress M op"
  by (cases "op_machine op") (auto simp: Operation_progress_def split: option.splits)

lemmas box_commutes = box_start box_advance box_cancel box_take_result box_progress

end
