(* ===== verification/C_Session.thy ===== *)
theory C_Session
  imports C_Handle
begin

text \<open>
  What a C program sees: the copying getters (the locale \<open>byte_getter\<close>), the dispatch over the
  variants of a handle (the locale \<open>dispatched\<close>, interpreted for each of the seventeen), a program's
  exchange loop, the reader of the error POD, and the calls on one handle as a transition system.
\<close>

section \<open>Getters that copy bytes\<close>

text \<open>
  The two calls a C program makes: ask a getter for the size with a NULL buffer, lend it a buffer of
  that size, and read what it wrote.
\<close>

definition query_copy ::
  "(bytes option \<Rightarrow> nat option \<Rightarrow> bytes option \<times> nat option \<times> u32) \<Rightarrow> u32 + bytes" where
  "query_copy getter =
     (case getter None (Some 0) of
        (_, len, code) \<Rightarrow>
          if code \<noteq> OK then Inl code
          else
            (let n = unwrap_or len 0 in
             case getter (Some (replicate n 0)) (Some n) of
               (buffer, len', code') \<Rightarrow>
                 if code' \<noteq> OK then Inl code' else Inr (take (unwrap_or len' 0) (unwrap_or buffer []))))"

text \<open>A getter keeps to the memory it was lent and writes all of the data or none of it.\<close>

definition copies_safely ::
  "(bytes option \<Rightarrow> nat option \<Rightarrow> bytes option \<times> nat option \<times> u32) \<Rightarrow> bool" where
  "copies_safely getter \<longleftrightarrow>
     (\<forall>mem capacity buffer len code.
        capacity \<le> length mem \<and> getter (Some mem) (Some capacity) = (buffer, len, code) \<longrightarrow>
        (\<exists>mem'. buffer = Some mem' \<and> length mem' = length mem \<and> drop capacity mem' = drop capacity mem
           \<and> (code \<noteq> OK \<longrightarrow> mem' = mem)))"

locale byte_getter =
  fixes getter :: "bytes option \<Rightarrow> nat option \<Rightarrow> bytes option \<times> nat option \<times> u32"
    and content :: "u32 + bytes"
  assumes content_code: "content \<noteq> Inl OK"
    and getter: "getter buffer len = copy_or content buffer len"
begin

lemma query_copy_content: "query_copy getter = content"
  using content_code
  by (cases content) (auto simp: query_copy_def getter copy_or_def ffi_copy_def unwrap_or_def)

lemma getter_copies_safely: "copies_safely getter"
  by (cases content)
     (auto simp: copies_safely_def getter copy_or_def ffi_copy_def status_codes split: if_splits)

lemma getter_too_small:
  "content = Inr d \<Longrightarrow> capacity < length d \<Longrightarrow>
     getter (Some mem) (Some capacity) = (Some mem, Some (length d), SMALL)"
  by (simp add: getter copy_or_def ffi_copy_def)

lemma getter_null_length: "content = Inr d \<Longrightarrow> getter buffer None = (buffer, None, ARG)"
  by (simp add: getter copy_or_def ffi_copy_def)

end

text \<open>What each getter of a handle gives: the status of the handle first, then the result's bytes.\<close>

definition of_handle :: "CnkOperation option \<Rightarrow> (Inner \<Rightarrow> u32 + 'a) \<Rightarrow> u32 + 'a" where
  "of_handle op f =
     (case op of
        None \<Rightarrow> Inl ARG
      | Some cn \<Rightarrow> if cn_poisoned cn then Inl STATE else f (cn_inner cn))"

lemma of_handle_not_ok: "(\<And>i. f i \<noteq> Inl OK) \<Longrightarrow> of_handle op f \<noteq> Inl OK"
  by (auto simp: of_handle_def status_codes split: option.splits)

lemma of_result_not_ok: "(\<And>v. f v \<noteq> Inl OK) \<Longrightarrow> of_result p f \<noteq> Inl OK"
  by (auto simp: of_result_def status_codes split: sum.splits)

definition command_bytes :: "Inner \<Rightarrow> u32 + bytes" where
  "command_bytes inner = (case inner_command inner of Inl _ \<Rightarrow> Inl STATE | Inr cmd \<Rightarrow> Inr (ca_bytes cmd))"

lemma command_bytes_not_ok: "command_bytes inner \<noteq> Inl OK"
  by (auto simp: command_bytes_def status_codes split: sum.splits)

lemma pgp_result_bytes_not_ok: "pgp_result_bytes v \<noteq> Inl OK"
  by (cases v) (auto simp: status_codes)

lemma inner_bytes_not_ok: "inner_bytes inner \<noteq> Inl OK"
proof (cases inner)
  case (AdminOp p)
  have "ok_or (result_bytes v) TYPE_CODE \<noteq> Inl OK" for v by (cases "result_bytes v") (auto simp: status_codes)
  then show ?thesis by (simp add: AdminOp of_result_not_ok)
qed (simp_all add: of_result_not_ok pgp_result_bytes_not_ok, simp_all add: status_codes)

interpretation command_getter: byte_getter "cnk_operation_command op" "of_handle op command_bytes" for op
proof
  show "of_handle op command_bytes \<noteq> Inl OK" by (rule of_handle_not_ok) (rule command_bytes_not_ok)
  show "cnk_operation_command op buffer len = copy_or (of_handle op command_bytes) buffer len" for buffer len
    by (auto simp: cnk_operation_command_def of_handle_def command_bytes_def copy_or_def
        split: option.splits sum.splits)
qed

interpretation result_getter: byte_getter "cnk_operation_result_copy_bytes op" "of_handle op inner_bytes" for op
proof
  show "of_handle op inner_bytes \<noteq> Inl OK" by (rule of_handle_not_ok) (rule inner_bytes_not_ok)
  show "cnk_operation_result_copy_bytes op buffer len = copy_or (of_handle op inner_bytes) buffer len" for buffer len
    by (auto simp: cnk_operation_result_copy_bytes_def of_handle_def copy_or_def split: option.splits)
qed

interpretation firmware_getter: byte_getter "cnk_profile_firmware_text profile"
  "bindE (ok_or profile ARG) (\<lambda>p. Inr (di_firmware_text (dp_info p)))" for profile
  by unfold_locales (cases profile, auto simp: cnk_profile_firmware_text_def status_codes)

interpretation model_getter: byte_getter "cnk_profile_model_copy profile"
  "bindE (ok_or profile ARG) (\<lambda>p. ok_or (di_model (dp_info p)) TYPE_CODE)" for profile
  by unfold_locales
     (cases profile, auto simp: cnk_profile_model_copy_def status_codes ok_or_def split: option.splits)

section \<open>Sessions\<close>

text \<open>
  The function \<open>run\<close> of the example program: start, then copy the pending command, transmit it and
  hand the response back while the step says EXCHANGE. The transport \<open>tx\<close> is the application's; the
  fuel bounds the exchanges. The result is the operation, the step, the error POD and the status.
\<close>

type_synonym 'w c_result = "'w \<times> CnkOperation \<times> u32 \<times> CnkError \<times> u32"

fun c_loop ::
  "nat \<Rightarrow> unwinds \<Rightarrow> ('w \<Rightarrow> bytes \<Rightarrow> 'w \<times> bytes) \<Rightarrow> 'w \<Rightarrow> CnkOperation \<Rightarrow> CnkError \<Rightarrow> 'w c_result option" where
  "c_loop 0 unwinds tx w cn pod = None"
| "c_loop (Suc n) unwinds tx w cn pod =
     (case query_copy (cnk_operation_command (Some cn)) of
        Inl code \<Rightarrow> Some (w, cn, 1, pod, code)
      | Inr command \<Rightarrow>
          (case tx w command of
             (w', response) \<Rightarrow>
               (case cnk_operation_advance unwinds (Some cn) (Some response, length response) (Some 1) (Some pod) of
                  (cn', step, pod', code) \<Rightarrow>
                    if code = OK \<and> step = Some 1
                    then c_loop n unwinds tx w' (unwrap_or cn' cn) (unwrap_or pod' pod)
                    else Some (w', unwrap_or cn' cn, unwrap_or step 0, unwrap_or pod' pod, code))))"

definition c_session ::
  "nat \<Rightarrow> unwinds \<Rightarrow> ('w \<Rightarrow> bytes \<Rightarrow> 'w \<times> bytes) \<Rightarrow> 'w \<Rightarrow> CnkOperation \<Rightarrow> CnkError \<Rightarrow> 'w c_result option" where
  "c_session n unwinds tx w cn pod =
     (case cnk_operation_start unwinds (Some cn) (Some 0) (Some pod) of
        (cn', step, pod', code) \<Rightarrow>
          if code = OK \<and> step = Some 1
          then c_loop n unwinds tx w (unwrap_or cn' cn) (unwrap_or pod' pod)
          else Some (w, unwrap_or cn' cn, unwrap_or step 0, unwrap_or pod' pod, code))"

text \<open>What the C program sees of a step's result.\<close>

fun c_outcome :: "u32 \<Rightarrow> Step res \<Rightarrow> u32 \<times> CnkError \<times> u32" where
  "c_outcome n (Inr s) = (step_code s, cleared n, OK)"
| "c_outcome n (Inl e) = (0, write_error e (cleared n), failure_code (e_kind e))"

definition no_unwind :: unwinds where
  "no_unwind = (\<lambda>_ _. None)"

section \<open>Dispatch\<close>

text \<open>
  What the macro gives for one variant of \<open>Inner\<close>: every method of the handle is the method of the
  operation inside. The lemmas of the locale describe a C session by the operation of any variant.
\<close>

locale dispatched =
  fixes wrap :: "'t COperation \<Rightarrow> Inner"
  assumes drive: "inner_drive r (wrap p) = map_prod wrap (\<lambda>s. s) (drive_operation r p)"
    and command: "inner_command (wrap p) = Operation_command p"
    and state: "inner_state (wrap p) = op_state p"
    and error: "inner_error (wrap p) = op_error p"
    and cancel: "inner_cancel (wrap p) = wrap (Operation_cancel p)"
begin

abbreviation handle :: "('m, 't) Machine \<Rightarrow> ('m, 't) Operation \<Rightarrow> CnkOperation" where
  "handle M op \<equiv> \<lparr>cn_inner = wrap (box_operation M op), cn_poisoned = False\<rparr>"

lemma start_outcome:
  assumes "Operation_start M op = (op', r)" "size_of_CnkError \<le> er_struct_size pod"
  shows "cnk_operation_start no_unwind (Some (handle M op)) (Some v) (Some pod) =
           (case c_outcome (er_struct_size pod) r of
              (step, pod', code) \<Rightarrow> (Some (handle M op'), Some step, Some pod', code))"
  using assms
  by (cases r)
     (auto simp: cnk_operation_start_def ffi_drive_def clear_error_def no_unwind_def drive
      drive_operation_def box_start failure_def)

lemma advance_outcome:
  assumes "Operation_advance M op response = (op', r)" "size_of_CnkError \<le> er_struct_size pod"
    "length response \<le> isize_max"
  shows "cnk_operation_advance no_unwind (Some (handle M op)) (Some response, length response) (Some v) (Some pod) =
           (case c_outcome (er_struct_size pod) r of
              (step, pod', code) \<Rightarrow> (Some (handle M op'), Some step, Some pod', code))"
proof -
  have "ffi_bytes (Some response, length response) = Inr response"
    using assms(3) by simp
  then show ?thesis
    using assms
    by (cases r)
       (auto simp: cnk_operation_advance_def ffi_drive_def clear_error_def no_unwind_def drive
        drive_operation_def box_advance failure_def simp del: ffi_bytes.simps)
qed

lemma pending_command:
  assumes "Operation_command op = Inr c"
  shows "query_copy (cnk_operation_command (Some (handle M op))) = Inr (ca_bytes c)"
  using assms by (simp add: command_getter.query_copy_content of_handle_def command_bytes_def command)

lemma outcome_exchange:
  "c_outcome n r = (step, pod, code) \<Longrightarrow> code = OK \<and> step = 1 \<longleftrightarrow> r = Inr Exchange"
  "er_struct_size (fst (snd (c_outcome n r))) = n"
  by (cases r; auto simp: failure_code_def status_codes write_error_def cleared_def Let_def
      split: option.splits if_splits Step.splits elim: step_code.elims)+

lemma loop_exact:
  assumes "op_inv (\<lambda>_. True) (\<lambda>_. True) op" "op_state op = AwaitingResponse"
    "size_of_CnkError \<le> er_struct_size pod" "\<And>w b. length (snd (tx w b)) \<le> isize_max"
  shows "c_loop n no_unwind tx w (handle M op) pod =
           map_option (\<lambda>(w', op', r). (w', handle M op', c_outcome (er_struct_size pod) r))
             (exchange_loop n M tx w op)"
  using assms(1-3)
proof (induction n arbitrary: w op pod)
  case (Suc n)
  from Suc.prems obtain c where c: "Operation_command op = Inr c"
    by (auto simp: op_inv_def Operation_command_def)
  obtain w' response where t: "tx w (ca_bytes c) = (w', response)" by fastforce
  then have fits: "length response \<le> isize_max" using assms(4) [of w "ca_bytes c"] by simp
  obtain op' r where a: "Operation_advance M op response = (op', r)" by fastforce
  obtain step pod' code where o: "c_outcome (er_struct_size pod) r = (step, pod', code)"
    by (cases "c_outcome (er_struct_size pod) r")
  have size': "er_struct_size pod' = er_struct_size pod"
    using outcome_exchange(2) [of "er_struct_size pod" r] o by simp
  note run = pending_command [OF c] t advance_outcome [OF a Suc.prems(3) fits, of 1] o
  show ?case
  proof (cases "r = Inr Exchange")
    case True
    have "exchanged (op_exchanges op) op' r (op_options op)"
      using record_advance_cases [of M op response op' r] a Suc.prems(2) True
      by (auto simp: Operation_advance_def terminal_result_def)
    moreover have "op_inv (\<lambda>_. True) (\<lambda>_. True) op'"
      using any_machine.advance_inv [OF Suc.prems(1,2), of M response] a Suc.prems(2)
      by (simp add: Operation_advance_def)
    ultimately show ?thesis
      using Suc.IH [of op' pod' w'] outcome_exchange(1) [OF o] True Suc.prems(3) run c a size'
      by (simp add: exchanged_def unwrap_or_def)
  next
    case False
    then show ?thesis
      using outcome_exchange(1) [OF o] run c a
      by (cases r) (auto simp: unwrap_or_def split: Step.splits)
  qed
qed simp

lemma session_exact:
  assumes "Operation_from_machine m0 opts = Inr op"
    "size_of_CnkError \<le> er_struct_size pod" "\<And>w b. length (snd (tx w b)) \<le> isize_max"
  shows "c_session n no_unwind tx w (handle M op) pod =
           map_option (\<lambda>(w', op', r). (w', handle M op', c_outcome (er_struct_size pod) r))
             (run_operation n M tx w op)"
proof -
  have new: "op_inv (\<lambda>_. True) (\<lambda>_. True) op" "op_state op = Created"
    using from_machine_inv [OF assms(1), of "\<lambda>_. True"] by simp_all
  obtain op' r where s: "Operation_start M op = (op', r)" by fastforce
  obtain step pod' code where o: "c_outcome (er_struct_size pod) r = (step, pod', code)"
    by (cases "c_outcome (er_struct_size pod) r")
  have size': "er_struct_size pod' = er_struct_size pod"
    using outcome_exchange(2) [of "er_struct_size pod" r] o by simp
  note run = start_outcome [OF s assms(2), of 0] o
  show ?thesis
  proof (cases "r = Inr Exchange")
    case True
    have "exchanged (op_exchanges op) op' r (op_options op)"
      using record_drive_cases [of M op None op' r] s new(2) True
      by (auto simp: Operation_start_def terminal_result_def)
    moreover have "op_inv (\<lambda>_. True) (\<lambda>_. True) op'"
      using any_machine.drive_inv [OF op_inv_running [OF new(1)], of M None] s new(2)
      by (simp add: Operation_start_def)
    ultimately show ?thesis
      using loop_exact [of op' pod' tx n w M] outcome_exchange(1) [OF o] True assms(2,3) run s size'
      by (simp add: exchanged_def unwrap_or_def c_session_def run_operation_def)
  next
    case False
    then show ?thesis
      using outcome_exchange(1) [OF o] run s
      by (cases r) (auto simp: unwrap_or_def c_session_def run_operation_def split: Step.splits)
  qed
qed

end

interpretation open_pgp_variant: dispatched OpenPgpOp
  by unfold_locales simp_all

interpretation oath_variant: dispatched OathOp
  by unfold_locales simp_all

interpretation admin_variant: dispatched AdminOp
  by unfold_locales simp_all

interpretation sm2_agreement_variant: dispatched Sm2AgreementOp
  by unfold_locales simp_all

interpretation directory_variant: dispatched DirectoryOp
  by unfold_locales simp_all

interpretation container_name_variant: dispatched ContainerNameOp
  by unfold_locales simp_all

interpretation probe_variant: dispatched ProbeOp
  by unfold_locales simp_all

interpretation unit_variant: dispatched UnitOp
  by unfold_locales simp_all

interpretation pin_status_variant: dispatched PinStatusOp
  by unfold_locales simp_all

interpretation object_variant: dispatched ObjectOp
  by unfold_locales simp_all

interpretation certificate_variant: dispatched CertificateOp
  by unfold_locales simp_all

interpretation mutation_variant: dispatched MutationOp
  by unfold_locales simp_all

interpretation metadata_variant: dispatched MetadataOp
  by unfold_locales simp_all

interpretation batch_variant: dispatched BatchOp
  by unfold_locales simp_all

interpretation public_key_variant: dispatched PublicKeyOp
  by unfold_locales simp_all

interpretation signature_variant: dispatched SignatureOp
  by unfold_locales simp_all

interpretation algorithm_config_variant: dispatched AlgorithmConfigOp
  by unfold_locales simp_all

section \<open>Reading the error POD\<close>

text \<open>
  The reader the header \<open>canokey.h\<close> describes: the kinds, phases and references by their numbers, the
  optional fields by the presence bits.
\<close>

definition all_kinds :: "ErrorKind list" where
  "all_kinds = [InvalidArgument, InvalidPin, InvalidResponse, ProtocolViolation, LimitExceeded,
     AuthenticationFailed, PinBlocked, SecurityStatusNotSatisfied, ConditionsNotSatisfied, NotFound,
     UnsupportedDevice, UnsupportedFeature, UnsupportedAlgorithm, CapabilityUnknown,
     UnsupportedProtocolVersion, UnexpectedStatusWord, OperationStateError, DeviceAuthenticationFailed]"

definition all_phases :: "Phase list" where
  "all_phases = [Phase.Construction, Phase.Select, Phase.Command, Phase.Authentication, Phase.Parsing,
     Phase.Conversation]"

definition all_references :: "SecretReference option list" where
  "all_references = [None, Some SecretReference.Pin, Some SecretReference.Puk,
     Some SecretReference.ManagementKey, Some SecretReference.AdminPin, Some SecretReference.OathAccess,
     Some SecretReference.Pw1Sign, Some SecretReference.Pw1Other, Some SecretReference.Pw3,
     Some SecretReference.ResetCode]"

text \<open>The element of a table, numbered from \<open>first\<close>, that a code stands for.\<close>

definition numbered :: "nat \<Rightarrow> 'a list \<Rightarrow> u32 \<Rightarrow> 'a option" where
  "numbered first table code = (if unat code < first then None else get_at table (unat code - first))"

definition read_error :: "CnkError \<Rightarrow> Error option" where
  "read_error pod =
     (case (numbered 1 all_kinds (er_kind pod), numbered 0 all_phases (er_phase pod),
            numbered 0 all_references (er_reference pod)) of
        (Some k, Some ph, Some r) \<Rightarrow>
          Some \<lparr>e_kind = k, e_phase = ph,
                e_status_word = (if bit (er_presence_flags pod) 0 then Some (er_status_word pod) else None),
                e_application_status =
                  (if bit (er_presence_flags pod) 2 then Some (er_application_status pod) else None),
                e_reference = r,
                e_retries_remaining =
                  (if bit (er_presence_flags pod) 1 then Some (er_retries_remaining pod) else None)\<rparr>
      | _ \<Rightarrow> None)"

lemma numbered_kind: "numbered (Suc 0) all_kinds (kind_code k) = Some k"
  by (cases k) (simp_all add: numbered_def all_kinds_def get_at_def)

lemma numbered_phase: "numbered 0 all_phases (phase_code ph) = Some ph"
  by (cases ph) (simp_all add: numbered_def all_phases_def get_at_def)

lemma numbered_reference: "numbered 0 all_references (reference_code r) = Some r"
proof (cases r)
  case (Some x)
  then show ?thesis by (cases x) (simp_all add: numbered_def all_references_def get_at_def)
qed (simp add: numbered_def all_references_def get_at_def)

lemma presence_bits [simp]:
  "bit (1 :: u32) 0" "\<not> bit (1 :: u32) 1" "\<not> bit (1 :: u32) 2"
  "\<not> bit (2 :: u32) 0" "bit (2 :: u32) 1" "\<not> bit (2 :: u32) 2"
  "\<not> bit (4 :: u32) 0" "\<not> bit (4 :: u32) 1" "bit (4 :: u32) 2"
  by (simp_all add: bit_numeral_rec bit_1_iff numeral_2_eq_2)

lemma write_error_fields:
  "er_struct_size (write_error e pod) = er_struct_size pod"
  "er_kind (write_error e pod) = kind_code (e_kind e)"
  "er_phase (write_error e pod) = phase_code (e_phase e)"
  "er_reference (write_error e pod) = reference_code (e_reference e)"
  "er_presence_flags (write_error e pod) =
     er_presence_flags pod OR (if e_status_word e = None then 0 else 1)
     OR (if e_retries_remaining e = None then 0 else 2) OR (if e_application_status e = None then 0 else 4)"
  "er_status_word (write_error e pod) = unwrap_or (e_status_word e) (er_status_word pod)"
  "er_retries_remaining (write_error e pod) = unwrap_or (e_retries_remaining e) (er_retries_remaining pod)"
  "er_application_status (write_error e pod) = unwrap_or (e_application_status e) (er_application_status pod)"
  by (simp_all add: write_error_def Let_def unwrap_or_def or.assoc split: option.splits)

lemma error_pod_read: "read_error (write_error e (cleared n)) = Some e"
  by (cases e)
     (auto simp: read_error_def write_error_fields numbered_kind numbered_phase numbered_reference
      cleared_def unwrap_or_def bit_or_iff split: option.splits)

section \<open>Calls on one handle\<close>

text \<open>The calls of the interface that change an operation.\<close>

inductive c_call :: "unwinds \<Rightarrow> CnkOperation \<Rightarrow> CnkOperation \<Rightarrow> bool" for unwinds where
  call_start: "cnk_operation_start unwinds (Some cn) step error = (Some cn', step', error', code)
    \<Longrightarrow> c_call unwinds cn cn'"
| call_advance: "cnk_operation_advance unwinds (Some cn) response step error = (Some cn', step', error', code)
    \<Longrightarrow> c_call unwinds cn cn'"
| call_cancel: "cnk_operation_cancel (Some cn) = (Some cn', code) \<Longrightarrow> c_call unwinds cn cn'"
| call_take: "cnk_operation_take_profile (Some cn) out = (Some cn', out', code) \<Longrightarrow> c_call unwinds cn cn'"

inductive_cases c_callE: "c_call unwinds cn cn'"

definition halted :: "Inner \<Rightarrow> bool" where
  "halted inner \<longleftrightarrow> inner_state inner \<notin> {Created, AwaitingResponse}"

lemma inner_cancel_halted: "halted (inner_cancel inner)"
  by (cases inner) (auto simp: halted_def Operation_cancel_def)

lemma drive_poisoned:
  assumes "ffi_drive unwinds (Some cn) step error response = (Some cn', step', error', code)"
  shows "cn_poisoned cn \<Longrightarrow> cn' = cn"
    and "\<not> cn_poisoned cn \<Longrightarrow> cn_poisoned cn' \<Longrightarrow> halted (cn_inner cn') \<and> code = PANIC"
  using assms inner_cancel_halted
  by (auto simp: ffi_drive_def failure_def split: option.splits sum.splits if_splits prod.splits)

lemma advance_is_drive:
  assumes "cnk_operation_advance unwinds (Some cn) response step error = (Some cn', step', error', code)"
  shows "cn' = cn \<or> (\<exists>r. ffi_drive unwinds (Some cn) step error r = (Some cn', step', error', code))"
  using assms by (auto simp: cnk_operation_advance_def split: sum.splits)

lemma call_poisoned:
  assumes "c_call unwinds cn cn'" "cn_poisoned cn \<Longrightarrow> halted (cn_inner cn)"
  shows "cn_poisoned cn' \<longrightarrow> halted (cn_inner cn')" and "cn_poisoned cn \<longrightarrow> cn_poisoned cn'"
proof -
  have "(cn_poisoned cn' \<longrightarrow> halted (cn_inner cn')) \<and> (cn_poisoned cn \<longrightarrow> cn_poisoned cn')"
    using assms(1)
  proof (cases rule: c_call.cases)
    case (call_start step error step' error' code)
    then show ?thesis
      using drive_poisoned [of unwinds cn step error None cn'] assms(2)
      by (auto simp: cnk_operation_start_def)
  next
    case (call_advance response step error step' error' code)
    then show ?thesis
      using drive_poisoned [of unwinds cn step error _ cn'] assms(2) advance_is_drive [OF call_advance]
      by blast
  next
    case (call_cancel code)
    then show ?thesis by (auto simp: cnk_operation_cancel_def inner_cancel_halted)
  next
    case (call_take out out' code)
    then show ?thesis
      using assms(2)
      by (auto simp: cnk_operation_take_profile_def split: option.splits if_splits Inner.splits prod.splits sum.splits)
  qed
  then show "cn_poisoned cn' \<longrightarrow> halted (cn_inner cn')" "cn_poisoned cn \<longrightarrow> cn_poisoned cn'" by auto
qed

lemma calls_poisoned:
  assumes "(c_call unwinds)\<^sup>*\<^sup>* cn cn'" "cn_poisoned cn \<Longrightarrow> halted (cn_inner cn)"
  shows "(cn_poisoned cn' \<longrightarrow> halted (cn_inner cn')) \<and> (cn_poisoned cn \<longrightarrow> cn_poisoned cn')"
  using assms(1)
proof (induction rule: rtranclp_induct)
  case base
  then show ?case using assms(2) by blast
next
  case (step y z)
  then show ?case using call_poisoned [OF step(2)] by blast
qed

section \<open>Properties\<close>

text \<open>C13: a C session is the Rust session. For an operation of any variant with any machine, the
example program's loop (sizes queried, commands copied, responses handed back as pointer and length)
gives, for every transport and every bound on the exchanges, the world, the operation and the step
that driving the Rust operation gives; an error arrives as its POD in the caller's structure and as
its status code, a step with the POD cleared.\<close>

theorem c_session_exact:
  assumes "dispatched wrap" "Operation_from_machine m0 opts = Inr op"
    "size_of_CnkError \<le> er_struct_size pod" "\<forall>w b. length (snd (tx w b)) \<le> isize_max"
  shows "c_session n no_unwind tx w \<lparr>cn_inner = wrap (box_operation M op), cn_poisoned = False\<rparr> pod =
     map_option (\<lambda>(w', op', r).
         (w', \<lparr>cn_inner = wrap (box_operation M op'), cn_poisoned = False\<rparr>, c_outcome (er_struct_size pod) r))
       (run_operation n M tx w op)"
  using dispatched.session_exact [OF assms(1,2,3), of tx n w M] assms(4) by simp

theorem c_session_exact_witness:
  "\<exists>op. probe_device \<lparr>po_mode = Minimal, po_observed_serial = None, po_operation = OperationOptions_default\<rparr> = Inr op
     \<and> c_session 5 no_unwind (\<lambda>(w :: unit) b. (w, [0x6d, 0])) ()
         \<lparr>cn_inner = ProbeOp (box_operation Probe_ops op), cn_poisoned = False\<rparr> (cleared 24) =
       map_option (\<lambda>(w', op', r).
           (w', \<lparr>cn_inner = ProbeOp (box_operation Probe_ops op'), cn_poisoned = False\<rparr>, c_outcome 24 r))
         (run_operation 5 Probe_ops (\<lambda>w b. (w, [0x6d, 0])) () op)"
proof -
  let ?po = "\<lparr>po_mode = Minimal, po_observed_serial = None, po_operation = OperationOptions_default\<rparr>"
  obtain op where op: "probe_device ?po = Inr op" "Operation_from_machine (Probe_new ?po) OperationOptions_default = Inr op"
    by (simp add: probe_device_def Operation_from_machine_def OperationOptions_validate_def conversation_eval)
  show ?thesis
    using op(1) c_session_exact [OF probe_variant.dispatched_axioms op(2), of "cleared 24" "\<lambda>w b. (w, [0x6d, 0])" 5 "()" Probe_ops]
    by (auto simp: size_of_CnkError_def cleared_def isize_max_def)
qed

text \<open>C19: the error POD carries the whole error. Reading the POD that a failed call wrote, with the
numbers and presence bits of the header, gives back the kind, phase, credential reference, status
word, retry counter and application status of the error; the structure's size is the caller's; and
the status code tells argument errors from lifecycle errors from protocol errors.\<close>

theorem c_error_pod_roundtrip:
  "read_error (write_error e (cleared n)) = Some e
   \<and> er_struct_size (write_error e (cleared n)) = n
   \<and> (failure e (Some (cleared n)) = (Some (write_error e (cleared n)), failure_code (e_kind e)))
   \<and> failure_code (e_kind e) \<in> {ARG, STATE, PROTOCOL} \<and> failure_code (e_kind e) \<noteq> OK
   \<and> (failure_code (e_kind e) = ARG \<longleftrightarrow> e_kind e \<in> {InvalidArgument, InvalidPin})
   \<and> (failure_code (e_kind e) = STATE \<longleftrightarrow> e_kind e = OperationStateError)"
proof -
  have "read_error (write_error e (cleared n)) = Some e" by (rule error_pod_read)
  then show ?thesis
    by (auto simp: write_error_fields cleared_def failure_def failure_code_def status_codes)
qed

text \<open>C20: getters keep to their buffers. For the pending command, a byte result, the firmware text
and the model, asking for the size and then copying gives exactly the bytes (or the status that says
why there are none); a call writes at most the capacity the caller declared, never changes the
length of the buffer, and writes nothing unless it returns OK; a buffer that is too small is left
alone and the needed size is reported.\<close>

theorem c_getters_exact:
  "query_copy (cnk_operation_command op) = of_handle op command_bytes
   \<and> query_copy (cnk_operation_result_copy_bytes op) = of_handle op inner_bytes
   \<and> query_copy (cnk_profile_firmware_text p) = bindE (ok_or p ARG) (\<lambda>p. Inr (di_firmware_text (dp_info p)))
   \<and> query_copy (cnk_profile_model_copy p) = bindE (ok_or p ARG) (\<lambda>p. ok_or (di_model (dp_info p)) TYPE_CODE)
   \<and> copies_safely (cnk_operation_command op) \<and> copies_safely (cnk_operation_result_copy_bytes op)
   \<and> copies_safely (cnk_profile_firmware_text p) \<and> copies_safely (cnk_profile_model_copy p)
   \<and> (of_handle op inner_bytes = Inr d \<and> capacity < length d \<longrightarrow>
        cnk_operation_result_copy_bytes op (Some mem) (Some capacity) = (Some mem, Some (length d), SMALL))"
  using command_getter.query_copy_content command_getter.getter_copies_safely
    result_getter.query_copy_content result_getter.getter_copies_safely
    firmware_getter.query_copy_content firmware_getter.getter_copies_safely
    model_getter.query_copy_content model_getter.getter_copies_safely result_getter.getter_too_small
  by blast

theorem c_getters_exact_witness:
  "\<exists>op mem. of_handle op inner_bytes = Inr [1, 2, 3] \<and> query_copy (cnk_operation_result_copy_bytes op) = Inr [1, 2, 3]
     \<and> cnk_operation_result_copy_bytes op (Some mem) (Some 2) = (Some mem, Some 3, SMALL)"
proof -
  let ?p = "\<lparr>op_machine = None, op_conversation = None, op_output = Some [1, 2, 3], op_progress = None,
     op_error = None, op_state = Completed, op_options = OperationOptions_default, op_exchanges = 1,
     op_response_bytes = 5\<rparr> :: bytes COperation"
  let ?op = "Some \<lparr>cn_inner = ObjectOp ?p, cn_poisoned = False\<rparr>"
  have "of_handle ?op inner_bytes = Inr [1, 2, 3]"
    by (simp add: of_handle_def of_result_def Operation_result_def)
  then show ?thesis
    using c_getters_exact [of ?op None "[1, 2, 3]" 2 "[9, 9]"] by (metis length_Cons list.size(3) numeral_3_eq_3 numeral_2_eq_2 lessI)
qed



end
