(* ===== verification/C_Piv.thy ===== *)
theory C_Piv
  imports C_Session
begin

text \<open>
  The C interface, PIV part: the descriptors of credentials, keys and agreements with their decoders
  (\<open>piv_mutation.rs\<close>, \<open>piv_keys.rs\<close>, \<open>piv_sm2.rs\<close>, \<open>piv_configuration.rs\<close>), the constructors of these
  files, of \<open>piv_credentials.rs\<close> and of the PIV part of \<open>lib.rs\<close> (the getters for PIV results are in C_Results). The
  packages the applet uses (block ciphers, inflate, curve arithmetic, DER) are the parameter \<open>pk\<close>.
\<close>

type_synonym constructor =
  "CnkOperation option option \<Rightarrow> CnkError option \<Rightarrow> CnkOperation option option \<times> CnkError option \<times> u32"

section \<open>Options and access\<close>

definition piv_options :: "CnkOptions option \<Rightarrow> u32 + OperationOptions" where
  "piv_options p =
     (case p of
        None \<Rightarrow> ffi_options None
      | Some po \<Rightarrow>
          if cop_struct_size po < size_of_CnkOptions then Inl ARG
          else ffi_options (Some (po\<lparr>cop_flags := cop_flags po AND NOT 2\<rparr>)))"

definition piv_select_flag :: "CnkOptions option \<Rightarrow> bool" where
  "piv_select_flag p \<longleftrightarrow> (case p of None \<Rightarrow> True | Some po \<Rightarrow> cop_flags po AND 2 = 0)"

record CnkManagement =
  mn_struct_size :: u32
  mn_algorithm :: u32
  mn_mode :: u32
  mn_key :: span
  mn_challenge :: span

definition size_of_CnkManagement :: u32 where
  "size_of_CnkManagement = 48"

record CnkPivAccess =
  ac_struct_size :: u32
  ac_pin :: span
  ac_management :: "CnkManagement option"

definition size_of_CnkPivAccess :: u32 where
  "size_of_CnkPivAccess = 32"

definition management_algorithm :: "u32 \<Rightarrow> u32 + ManagementKeyAlgorithm" where
  "management_algorithm v = (if v = 1 then Inr Tdes else if v = 2 then Inr Aes192 else Inl ARG)"

definition ffi_management :: "CnkManagement option \<Rightarrow> ManagementAuthentication abi" where
  "ffi_management p =
     abi_bind (abi_ref p) (\<lambda>p.
       if mn_struct_size p < size_of_CnkManagement then abi_code (Inl ARG)
       else if snd (mn_key p) \<noteq> 24 then abi_code (Inl ARG)
       else
         abi_bind (abi_code (management_algorithm (mn_algorithm p))) (\<lambda>algorithm.
         abi_bind (abi_code (ffi_bytes (mn_key p))) (\<lambda>bs.
         abi_bind (abi_failure (ManagementKey_from_bytes algorithm bs)) (\<lambda>key.
           if mn_mode p = 1 \<and> mn_challenge p = null_span
           then abi_code (Inr (ManagementAuthentication_external key))
           else if mn_mode p = 2
           then abi_bind (abi_code (ffi_bytes (mn_challenge p))) (\<lambda>challenge.
                  abi_failure (ManagementAuthentication_mutual key challenge))
           else abi_code (Inl ARG)))))"

definition ffi_optional_pin :: "span \<Rightarrow> Pin option abi" where
  "ffi_optional_pin pin =
     (if pin = null_span then abi_code (Inr None)
      else abi_bind (abi_code (ffi_bytes pin)) (\<lambda>bs.
           abi_bind (abi_failure (piv_secret bs)) (\<lambda>v. abi_code (Inr (Some v)))))"

fun access_of :: "Pin option \<Rightarrow> ManagementAuthentication option \<Rightarrow> Piv_Core.Access" where
  "access_of None None = Piv_Core.NoAccess"
| "access_of (Some pin) None = Piv_Core.PinAccess pin"
| "access_of None (Some auth) = Management auth"
| "access_of (Some pin) (Some auth) = PinAndManagement pin auth"

definition ffi_access :: "CnkPivAccess option \<Rightarrow> Piv_Core.Access abi" where
  "ffi_access p =
     (case p of
        None \<Rightarrow> abi_code (Inr Piv_Core.NoAccess)
      | Some a \<Rightarrow>
          if ac_struct_size a < size_of_CnkPivAccess then abi_code (Inl ARG)
          else
            abi_bind (ffi_optional_pin (ac_pin a)) (\<lambda>pin.
            abi_bind (case ac_management a of
                        None \<Rightarrow> abi_code (Inr None)
                      | Some m \<Rightarrow> abi_bind (ffi_management (Some m)) (\<lambda>auth. abi_code (Inr (Some auth)))) (\<lambda>auth.
            abi_code (Inr (access_of pin auth)))))"

definition piv_access :: "CnkPivAccess option \<Rightarrow> CnkOptions option \<Rightarrow> Piv_Core.Access abi" where
  "piv_access p opts =
     abi_bind (abi_code (piv_options opts)) (\<lambda>_.
     abi_bind (ffi_access p) (\<lambda>access.
       if piv_select_flag opts then abi_code (Inr access)
       else if access \<noteq> Piv_Core.NoAccess then abi_code (Inl ARG)
       else abi_code (Inr Existing)))"

definition ffi_slot :: "u32 \<Rightarrow> u32 + Slot" where
  "ffi_slot v =
     (if v = 0x9a then Inr Slot.Authentication
      else if v = 0x9c then Inr Slot.Signature
      else if v = 0x9d then Inr KeyManagement
      else if v = 0x9e then Inr CardAuthentication
      else if 0x82 \<le> v \<and> v \<le> 0x95
      then (case RetiredSlot_new (ucast (v - 0x81)) of Inl _ \<Rightarrow> Inl ARG | Inr n \<Rightarrow> Inr (Retired n))
      else Inl ARG)"

section \<open>The machines behind the constructors\<close>

abbreviation selected_sequence :: "'u Packages \<Rightarrow> ('t Sequence Selected, 't) Machine" where
  "selected_sequence pk \<equiv> Selected_ops (pkg_cipher pk) Sequence_ops"

section \<open>Credentials\<close>

definition cnk_piv_verify_pin_new :: "DeviceProfile option \<Rightarrow> span \<Rightarrow> CnkOptions option \<Rightarrow> constructor" where
  "cnk_piv_verify_pin_new profile pin opts out error = create out error (
     abi_bind (abi_ref profile) (\<lambda>profile.
     abi_bind (abi_code (ffi_bytes pin)) (\<lambda>bs.
     abi_bind (abi_failure (piv_secret bs)) (\<lambda>pin.
     abi_bind (abi_code (ffi_options opts)) (\<lambda>options.
     abi_failure (into_inner UnitOp Sequence_ops (verify_pin profile pin options)))))))"

definition cnk_piv_get_pin_status_new :: "DeviceProfile option \<Rightarrow> CnkOptions option \<Rightarrow> constructor" where
  "cnk_piv_get_pin_status_new profile opts out error = create out error (
     abi_bind (abi_ref profile) (\<lambda>profile.
     abi_bind (abi_code (ffi_options opts)) (\<lambda>options.
     abi_failure (into_inner PinStatusOp Sequence_ops (get_pin_status profile options)))))"

definition cnk_piv_get_pin_status_selected_new :: "CnkOptions option \<Rightarrow> constructor" where
  "cnk_piv_get_pin_status_selected_new opts out error = create out error (
     abi_bind (abi_code (ffi_options opts)) (\<lambda>options.
     abi_failure (into_inner PinStatusOp Sequence_ops (get_pin_status_selected options))))"

definition cnk_piv_logout_new :: "DeviceProfile option \<Rightarrow> CnkOptions option \<Rightarrow> constructor" where
  "cnk_piv_logout_new profile opts out error = create out error (
     abi_bind (abi_ref profile) (\<lambda>profile.
     abi_bind (abi_code (ffi_options opts)) (\<lambda>options.
     abi_failure (into_inner UnitOp Sequence_ops (piv_logout profile options)))))"

definition ffi_secret :: "span \<Rightarrow> bytes abi" where
  "ffi_secret s = abi_bind (abi_code (ffi_bytes s)) (\<lambda>bs. abi_failure (piv_secret bs))"

definition cnk_piv_change_pin_new ::
  "DeviceProfile option \<Rightarrow> span \<Rightarrow> span \<Rightarrow> CnkOptions option \<Rightarrow> constructor" where
  "cnk_piv_change_pin_new profile old new opts out error = create out error (
     abi_bind (ffi_secret old) (\<lambda>old.
     abi_bind (ffi_secret new) (\<lambda>new.
     abi_bind (abi_ref profile) (\<lambda>profile.
     abi_bind (abi_code (ffi_options opts)) (\<lambda>options.
     abi_failure (into_inner MutationOp Sequence_ops (change_pin profile old new options)))))))"

definition cnk_piv_change_puk_new ::
  "DeviceProfile option \<Rightarrow> span \<Rightarrow> span \<Rightarrow> CnkOptions option \<Rightarrow> constructor" where
  "cnk_piv_change_puk_new profile old new opts out error = create out error (
     abi_bind (ffi_secret old) (\<lambda>old.
     abi_bind (ffi_secret new) (\<lambda>new.
     abi_bind (abi_ref profile) (\<lambda>profile.
     abi_bind (abi_code (ffi_options opts)) (\<lambda>options.
     abi_failure (into_inner MutationOp Sequence_ops (change_puk profile old new options)))))))"

definition cnk_piv_unblock_pin_new ::
  "DeviceProfile option \<Rightarrow> span \<Rightarrow> span \<Rightarrow> CnkOptions option \<Rightarrow> constructor" where
  "cnk_piv_unblock_pin_new profile puk new_pin opts out error = create out error (
     abi_bind (ffi_secret puk) (\<lambda>puk.
     abi_bind (ffi_secret new_pin) (\<lambda>new_pin.
     abi_bind (abi_ref profile) (\<lambda>profile.
     abi_bind (abi_code (ffi_options opts)) (\<lambda>options.
     abi_failure (into_inner MutationOp Sequence_ops (unblock_pin profile puk new_pin options)))))))"

definition credential_action :: "u32 \<Rightarrow> bytes \<Rightarrow> bytes \<Rightarrow> CredentialAction abi" where
  "credential_action action old new =
     (if action = 1 \<and> new = [] then
        abi_bind (abi_failure (legacy_secret old)) (\<lambda>pin. abi_code (Inr (CredentialAction.VerifyPin pin)))
      else if action = 2 \<and> old = [] \<and> new = [] then abi_code (Inr CredentialAction.Logout)
      else if action = 3 then
        abi_bind (abi_failure (legacy_secret old)) (\<lambda>o1.
        abi_bind (abi_failure (legacy_secret new)) (\<lambda>n1. abi_code (Inr (CredentialAction.ChangePin o1 n1))))
      else if action = 4 then
        abi_bind (abi_failure (legacy_secret old)) (\<lambda>o1.
        abi_bind (abi_failure (legacy_secret new)) (\<lambda>n1. abi_code (Inr (CredentialAction.ChangePuk o1 n1))))
      else if action = 5 then
        abi_bind (abi_failure (legacy_secret old)) (\<lambda>o1.
        abi_bind (abi_failure (legacy_secret new)) (\<lambda>n1. abi_code (Inr (CredentialAction.UnblockPin o1 n1))))
      else abi_code (Inl ARG))"

definition cnk_piv_credential_new ::
  "DeviceProfile option \<Rightarrow> u32 \<Rightarrow> span \<Rightarrow> span \<Rightarrow> CnkOptions option \<Rightarrow> constructor" where
  "cnk_piv_credential_new profile action old new opts out error = create out error (
     abi_bind (abi_code (piv_options opts)) (\<lambda>options.
     abi_bind (abi_ref profile) (\<lambda>profile.
       if snd old > 8 \<or> snd new > 8 then abi_failure (Inl (Error_new InvalidPin))
       else
         abi_bind (abi_code (ffi_bytes old)) (\<lambda>old.
         abi_bind (abi_code (ffi_bytes new)) (\<lambda>new.
         abi_bind (credential_action action old new) (\<lambda>action.
         abi_failure (into_inner MutationOp Sequence_ops
           (credential profile action (piv_select_flag opts) options))))))))"

definition cnk_piv_select_application_new :: "CnkOptions option \<Rightarrow> constructor" where
  "cnk_piv_select_application_new opts out error = create out error (
     abi_bind (abi_code (ffi_options opts)) (\<lambda>options.
     abi_failure (into_inner ObjectOp Sequence_ops (select_application options))))"

definition cnk_piv_authenticate_management_key_new ::
  "'u Packages \<Rightarrow> DeviceProfile option \<Rightarrow> CnkManagement option \<Rightarrow> CnkOptions option \<Rightarrow> constructor" where
  "cnk_piv_authenticate_management_key_new pk profile auth opts out error = create out error (
     abi_bind (abi_code (piv_options opts)) (\<lambda>options.
     abi_bind (abi_ref profile) (\<lambda>profile.
     abi_bind (ffi_management auth) (\<lambda>auth.
     abi_failure (into_inner UnitOp (Selected_ops (pkg_cipher pk) (ManagementMachine_ops (pkg_cipher pk)))
       (authenticate_management_key profile auth (piv_select_flag opts) options))))))"

definition management_touch :: "u32 \<Rightarrow> u32 + ManagementTouchPolicy" where
  "management_touch v =
     (if v = 0 then Inr ManagementTouchNever else if v = 1 then Inr ManagementTouchAlways else Inl ARG)"

definition boxed_rotation ::
  "'u Packages \<Rightarrow> ((MutationResult Sequence Selected, MutationResult) Operation
      + (RotateManagement Selected, MutationResult) Operation) res \<Rightarrow> Inner res" where
  "boxed_rotation pk r = bindE r (\<lambda>op.
     case op of
       Inl plain \<Rightarrow> Inr (MutationOp (box_operation (selected_sequence pk) plain))
     | Inr rotation \<Rightarrow>
         Inr (MutationOp (box_operation
           (Selected_ops (pkg_cipher pk) (RotateManagement_ops (pkg_cipher pk))) rotation)))"

definition cnk_piv_set_management_key_new ::
  "'u Packages \<Rightarrow> DeviceProfile option \<Rightarrow> u32 \<Rightarrow> span \<Rightarrow> u32 \<Rightarrow> u32 \<Rightarrow> CnkPivAccess option \<Rightarrow> CnkOptions option
   \<Rightarrow> constructor" where
  "cnk_piv_set_management_key_new pk profile key_alg key touch update_protected auth opts out error =
     create out error (
       if snd key \<noteq> 24 \<or> update_protected > 1 then abi_code (Inl ARG)
       else
         abi_bind (abi_code (management_algorithm key_alg)) (\<lambda>algorithm.
         abi_bind (abi_code (ffi_bytes key)) (\<lambda>bs.
         abi_bind (abi_failure (ManagementKey_from_bytes algorithm bs)) (\<lambda>key.
         abi_bind (abi_code (management_touch touch)) (\<lambda>touch.
         abi_bind (abi_ref profile) (\<lambda>profile.
         abi_bind (piv_access auth opts) (\<lambda>access.
         abi_bind (abi_code (piv_options opts)) (\<lambda>options.
         abi_failure (boxed_rotation pk
           (set_management_key profile key touch (update_protected \<noteq> 0) access options))))))))))"

definition cnk_piv_pin_managed_new ::
  "'u Packages \<Rightarrow> DeviceProfile option \<Rightarrow> span \<Rightarrow> CnkPivAccess option \<Rightarrow> CnkOptions option \<Rightarrow> constructor" where
  "cnk_piv_pin_managed_new pk profile entropy auth opts out error = create out error (
     abi_bind (abi_ref profile) (\<lambda>profile.
     abi_bind (abi_code (piv_options opts)) (\<lambda>options.
     abi_bind (piv_access auth opts) (\<lambda>access.
     abi_bind (if entropy = null_span then abi_code (Inr None)
               else if snd entropy = 8
               then abi_bind (abi_code (ffi_bytes entropy)) (\<lambda>bs. abi_code (Inr (Some bs)))
               else abi_code (Inl ARG)) (\<lambda>block.
     abi_failure (into_inner ObjectOp (Selected_ops (pkg_cipher pk) (PinManaged_ops (pkg_cipher pk)))
       (pin_managed profile block access options)))))))"

section \<open>Objects and certificates\<close>

definition ffi_object_id :: "span \<Rightarrow> ObjectId abi" where
  "ffi_object_id tag = abi_bind (abi_code (ffi_bytes tag)) (\<lambda>bs. abi_failure (ObjectId_from_bytes bs))"

definition cnk_piv_read_object_new ::
  "'u Packages \<Rightarrow> DeviceProfile option \<Rightarrow> span \<Rightarrow> CnkOptions option \<Rightarrow> constructor" where
  "cnk_piv_read_object_new pk profile tag opts out error = create out error (
     abi_bind (ffi_object_id tag) (\<lambda>i.
     abi_bind (abi_ref profile) (\<lambda>profile.
     abi_bind (piv_access None opts) (\<lambda>access.
     abi_bind (abi_code (piv_options opts)) (\<lambda>options.
     abi_failure (into_inner ObjectOp (selected_sequence pk) (read_object profile i access options)))))))"

text \<open>\<open>lib.rs\<close> spells the slot out; the mapping of a retired slot's error is the difference to \<open>ffi_slot\<close>.\<close>

definition certificate_slot_arg :: "u32 \<Rightarrow> Slot abi" where
  "certificate_slot_arg v =
     (if v = 0x9a then abi_code (Inr Slot.Authentication)
      else if v = 0x9c then abi_code (Inr Slot.Signature)
      else if v = 0x9d then abi_code (Inr KeyManagement)
      else if v = 0x9e then abi_code (Inr CardAuthentication)
      else if 0x82 \<le> v \<and> v \<le> 0x95
      then abi_bind (abi_failure (RetiredSlot_new (ucast (v - 0x81)))) (\<lambda>n. abi_code (Inr (Retired n)))
      else abi_code (Inl ARG))"

definition cnk_piv_read_certificate_new ::
  "'u Packages \<Rightarrow> DeviceProfile option \<Rightarrow> u32 \<Rightarrow> CnkOptions option \<Rightarrow> constructor" where
  "cnk_piv_read_certificate_new pk profile slot opts out error = create out error (
     abi_bind (certificate_slot_arg slot) (\<lambda>slot.
     abi_bind (abi_ref profile) (\<lambda>profile.
     abi_bind (piv_access None opts) (\<lambda>access.
     abi_bind (abi_code (piv_options opts)) (\<lambda>options.
     abi_failure (into_inner CertificateOp (selected_sequence pk)
       (read_certificate (pkg_gunzip pk) profile slot access options)))))))"

definition cnk_piv_write_object_new ::
  "'u Packages \<Rightarrow> DeviceProfile option \<Rightarrow> span \<Rightarrow> span \<Rightarrow> CnkPivAccess option \<Rightarrow> CnkOptions option \<Rightarrow> constructor"
where
  "cnk_piv_write_object_new pk profile tag d auth opts out error = create out error (
     abi_bind (abi_code (piv_options opts)) (\<lambda>options.
       if snd d > max_input_bytes (limits options) then abi_failure (Inl (Error_new LimitExceeded))
       else
         abi_bind (abi_ref profile) (\<lambda>profile.
         abi_bind (ffi_object_id tag) (\<lambda>i.
         abi_bind (abi_code (ffi_bytes d)) (\<lambda>d.
         abi_bind (piv_access auth opts) (\<lambda>access.
         abi_failure (into_inner MutationOp (selected_sequence pk) (write_object profile i d access options))))))))"

definition cnk_piv_write_certificate_new ::
  "'u Packages \<Rightarrow> DeviceProfile option \<Rightarrow> u32 \<Rightarrow> span \<Rightarrow> CnkPivAccess option \<Rightarrow> CnkOptions option \<Rightarrow> constructor"
where
  "cnk_piv_write_certificate_new pk profile reference d auth opts out error = create out error (
     abi_bind (abi_code (piv_options opts)) (\<lambda>options.
       if snd d > max_input_bytes (limits options) then abi_failure (Inl (Error_new LimitExceeded))
       else
         abi_bind (abi_ref profile) (\<lambda>profile.
         abi_bind (abi_code (ffi_slot reference)) (\<lambda>slot.
         abi_bind (abi_code (ffi_bytes d)) (\<lambda>d.
         abi_bind (piv_access auth opts) (\<lambda>access.
         abi_failure (into_inner MutationOp (selected_sequence pk)
           (write_certificate profile slot d access options))))))))"

definition cnk_piv_delete_certificate_new ::
  "'u Packages \<Rightarrow> DeviceProfile option \<Rightarrow> u32 \<Rightarrow> CnkPivAccess option \<Rightarrow> CnkOptions option \<Rightarrow> constructor" where
  "cnk_piv_delete_certificate_new pk profile reference auth opts out error = create out error (
     abi_bind (abi_ref profile) (\<lambda>profile.
     abi_bind (abi_code (ffi_slot reference)) (\<lambda>slot.
     abi_bind (piv_access auth opts) (\<lambda>access.
     abi_bind (abi_code (piv_options opts)) (\<lambda>options.
     abi_failure (into_inner MutationOp (selected_sequence pk)
       (delete_certificate profile slot access options)))))))"

definition cnk_piv_read_object_container_new ::
  "'u Packages \<Rightarrow> DeviceProfile option \<Rightarrow> span \<Rightarrow> CnkOptions option \<Rightarrow> constructor" where
  "cnk_piv_read_object_container_new pk profile tag opts out error = create out error (
     abi_bind (abi_ref profile) (\<lambda>profile.
     abi_bind (abi_code (piv_options opts)) (\<lambda>options.
     abi_bind (piv_access None opts) (\<lambda>access.
     abi_bind (ffi_object_id tag) (\<lambda>i.
     abi_failure (into_inner ObjectOp (selected_sequence pk) (read_object_container profile i access options)))))))"

definition piv_input :: "span \<Rightarrow> OperationOptions \<Rightarrow> bytes abi" where
  "piv_input d options =
     (if snd d > max_input_bytes (limits options) then abi_failure (Inl (Error_new LimitExceeded))
      else abi_code (ffi_bytes d))"

definition cnk_piv_write_object_container_new ::
  "'u Packages \<Rightarrow> DeviceProfile option \<Rightarrow> span \<Rightarrow> span \<Rightarrow> CnkPivAccess option \<Rightarrow> CnkOptions option \<Rightarrow> constructor"
where
  "cnk_piv_write_object_container_new pk profile tag d auth opts out error = create out error (
     abi_bind (abi_ref profile) (\<lambda>profile.
     abi_bind (abi_code (piv_options opts)) (\<lambda>options.
     abi_bind (piv_access auth opts) (\<lambda>access.
       if snd d > max_input_bytes (limits options) then abi_failure (Inl (Error_new LimitExceeded))
       else
         abi_bind (ffi_object_id tag) (\<lambda>i.
         abi_bind (piv_input d options) (\<lambda>d.
         abi_failure (into_inner MutationOp (selected_sequence pk)
           (write_object_container profile i d access options))))))))"

section \<open>Keys\<close>

record CnkKeyParameters =
  ckp_struct_size :: u32
  ckp_slot :: u32
  ckp_algorithm :: u32
  ckp_pin_policy :: u32
  ckp_touch_policy :: u32

definition size_of_CnkKeyParameters :: u32 where
  "size_of_CnkKeyParameters = 20"

definition ffi_pin_policy :: "u32 \<Rightarrow> u32 + PinPolicy" where
  "ffi_pin_policy v =
     (if v = 0 then Inr PinDefault else if v = 1 then Inr PinNever
      else if v = 2 then Inr PinOnce else if v = 3 then Inr PinAlways else Inl ARG)"

definition ffi_touch_policy :: "u32 \<Rightarrow> u32 + TouchPolicy" where
  "ffi_touch_policy v =
     (if v = 0 then Inr TouchDefault else if v = 1 then Inr TouchNever
      else if v = 2 then Inr TouchAlways else if v = 3 then Inr TouchCached else Inl ARG)"

definition ffi_parameters :: "CnkKeyParameters option \<Rightarrow> u32 + KeyParameters" where
  "ffi_parameters p =
     bindE (ok_or p ARG) (\<lambda>p.
       if ckp_struct_size p < size_of_CnkKeyParameters then Inl ARG
       else
         bindE (ffi_slot (ckp_slot p)) (\<lambda>slot.
         bindE (algorithm_of_code (ckp_algorithm p)) (\<lambda>algorithm.
         bindE (ffi_pin_policy (ckp_pin_policy p)) (\<lambda>pin.
         bindE (ffi_touch_policy (ckp_touch_policy p)) (\<lambda>touch.
           Inr \<lparr>kp_slot = slot, kp_algorithm = algorithm, kp_pin_policy = pin, kp_touch_policy = touch\<rparr>)))))"

text \<open>
  \<open>components\<close> is the array the pointer leads to and \<open>count\<close> the length the caller declares; each
  element is a byte range.
\<close>

definition component_bytes :: "span \<Rightarrow> u32 + bytes" where
  "component_bytes c = (if snd c > 256 then Inl ARG else ffi_bytes c)"

definition ffi_material ::
  "'u Packages \<Rightarrow> Algorithm \<Rightarrow> span list option \<Rightarrow> nat \<Rightarrow> PrivateKeyMaterial abi" where
  "ffi_material pk algorithm components count =
     (let rsa = algorithm \<in> {Rsa1024, Rsa2048, Rsa3072, Rsa4096} in
      case components of
        None \<Rightarrow> abi_code (Inl ARG)
      | Some parts \<Rightarrow>
          if count \<noteq> (if rsa then 5 else 1) then abi_code (Inl ARG)
          else
            abi_bind (abi_code (collectE component_bytes (take count parts))) (\<lambda>values.
              if rsa then abi_failure (rsa_crt algorithm values)
              else if algorithm \<in> {EccP256, EccP384, EccP521, Secp256k1, Sm2}
              then abi_failure (ec_scalar (pkg_point pk) algorithm (values ! 0))
              else if algorithm = Ed25519 then abi_failure (ed25519_seed (values ! 0))
              else if algorithm = X25519 then abi_failure (x25519_key (values ! 0))
              else if algorithm = MlDsa65 then abi_failure (mldsa65_seed (values ! 0))
              else if algorithm = MlKem768 then abi_failure (mlkem768_seed (values ! 0))
              else abi_failure (Inl (Error_new UnsupportedAlgorithm))))"

definition cnk_piv_generate_key_new ::
  "'u Packages \<Rightarrow> DeviceProfile option \<Rightarrow> CnkKeyParameters option \<Rightarrow> CnkPivAccess option \<Rightarrow> CnkOptions option
   \<Rightarrow> constructor" where
  "cnk_piv_generate_key_new pk profile params auth opts out error = create out error (
     abi_bind (abi_ref profile) (\<lambda>profile.
     abi_bind (abi_code (ffi_parameters params)) (\<lambda>params.
     abi_bind (piv_access auth opts) (\<lambda>access.
     abi_bind (abi_code (piv_options opts)) (\<lambda>options.
     abi_failure (into_inner PublicKeyOp (selected_sequence pk) (generate_key profile params access options)))))))"

definition cnk_piv_import_key_new ::
  "'u Packages \<Rightarrow> DeviceProfile option \<Rightarrow> CnkKeyParameters option \<Rightarrow> span list option \<Rightarrow> nat \<Rightarrow> CnkPivAccess option
   \<Rightarrow> CnkOptions option \<Rightarrow> constructor" where
  "cnk_piv_import_key_new pk profile params components count auth opts out error = create out error (
     abi_bind (abi_code (ffi_parameters params)) (\<lambda>params.
     abi_bind (abi_ref profile) (\<lambda>profile.
     abi_bind (ffi_material pk (kp_algorithm params) components count) (\<lambda>material.
     abi_bind (piv_access auth opts) (\<lambda>access.
     abi_bind (abi_code (piv_options opts)) (\<lambda>options.
     abi_failure (into_inner MutationOp (selected_sequence pk)
       (import_key profile params material access options))))))))"

definition metadata_reference :: "u32 \<Rightarrow> u32 + MetadataReference" where
  "metadata_reference v =
     (if v = 0x80 then Inr PinReference
      else if v = 0x81 then Inr PukReference
      else if v = 0x9b then Inr ManagementReference
      else bindE (ffi_slot v) (\<lambda>s. Inr (KeyReference s)))"

definition cnk_piv_get_metadata_new ::
  "'u Packages \<Rightarrow> DeviceProfile option \<Rightarrow> u32 \<Rightarrow> CnkPivAccess option \<Rightarrow> CnkOptions option \<Rightarrow> constructor" where
  "cnk_piv_get_metadata_new pk profile reference auth opts out error = create out error (
     abi_bind (abi_code (metadata_reference reference)) (\<lambda>reference.
     abi_bind (abi_ref profile) (\<lambda>profile.
     abi_bind (piv_access auth opts) (\<lambda>access.
     abi_bind (abi_code (piv_options opts)) (\<lambda>options.
     abi_failure (into_inner MetadataOp (selected_sequence pk) (get_metadata profile reference access options)))))))"

definition cnk_piv_read_algorithm_config_new ::
  "'u Packages \<Rightarrow> DeviceProfile option \<Rightarrow> CnkPivAccess option \<Rightarrow> CnkOptions option \<Rightarrow> constructor" where
  "cnk_piv_read_algorithm_config_new pk profile auth opts out error = create out error (
     abi_bind (abi_ref profile) (\<lambda>profile.
     abi_bind (piv_access auth opts) (\<lambda>access.
     abi_bind (abi_code (piv_options opts)) (\<lambda>options.
     abi_failure (into_inner AlgorithmConfigOp (selected_sequence pk)
       (read_algorithm_config profile access options))))))"

definition sign_input_of :: "u32 \<Rightarrow> bytes \<Rightarrow> u32 + SignInput" where
  "sign_input_of kind d =
     (if kind = 1 then Inr (RsaEncodedBlock d)
      else if kind = 2 then Inr (Digest d)
      else if kind = 3 then Inr (Message d) else Inl ARG)"

definition cnk_piv_sign_new ::
  "'u Packages \<Rightarrow> DeviceProfile option \<Rightarrow> u32 \<Rightarrow> u32 \<Rightarrow> u32 \<Rightarrow> span \<Rightarrow> CnkPivAccess option \<Rightarrow> CnkOptions option
   \<Rightarrow> constructor" where
  "cnk_piv_sign_new pk profile reference key_alg kind d auth opts out error = create out error (
     abi_bind (abi_code (piv_options opts)) (\<lambda>options.
     abi_bind (piv_input d options) (\<lambda>d.
     abi_bind (abi_code (sign_input_of kind d)) (\<lambda>input.
     abi_bind (abi_ref profile) (\<lambda>profile.
     abi_bind (abi_code (ffi_slot reference)) (\<lambda>slot.
     abi_bind (abi_code (algorithm_of_code key_alg)) (\<lambda>algorithm.
     abi_bind (piv_access auth opts) (\<lambda>access.
     abi_failure (into_inner SignatureOp (selected_sequence pk)
       (sign (pkg_der pk) profile slot algorithm input access options))))))))))"

definition cnk_piv_decrypt_new ::
  "'u Packages \<Rightarrow> DeviceProfile option \<Rightarrow> u32 \<Rightarrow> u32 \<Rightarrow> span \<Rightarrow> CnkPivAccess option \<Rightarrow> CnkOptions option \<Rightarrow> constructor"
where
  "cnk_piv_decrypt_new pk profile reference key_alg d auth opts out error = create out error (
     abi_bind (abi_code (piv_options opts)) (\<lambda>options.
     abi_bind (abi_ref profile) (\<lambda>profile.
     abi_bind (abi_code (ffi_slot reference)) (\<lambda>slot.
     abi_bind (abi_code (algorithm_of_code key_alg)) (\<lambda>algorithm.
     abi_bind (piv_input d options) (\<lambda>d.
     abi_bind (piv_access auth opts) (\<lambda>access.
     abi_failure (into_inner ObjectOp (selected_sequence pk)
       (decrypt profile slot algorithm d access options)))))))))"

definition cnk_piv_derive_new ::
  "'u Packages \<Rightarrow> DeviceProfile option \<Rightarrow> u32 \<Rightarrow> u32 \<Rightarrow> span \<Rightarrow> CnkPivAccess option \<Rightarrow> CnkOptions option \<Rightarrow> constructor"
where
  "cnk_piv_derive_new pk profile reference key_alg peer auth opts out error = create out error (
     abi_bind (abi_code (piv_options opts)) (\<lambda>options.
       if snd peer > max_input_bytes (limits options) then abi_failure (Inl (Error_new LimitExceeded))
       else
         abi_bind (abi_ref profile) (\<lambda>profile.
         abi_bind (abi_code (ffi_slot reference)) (\<lambda>slot.
         abi_bind (abi_code (algorithm_of_code key_alg)) (\<lambda>algorithm.
         abi_bind (abi_code (ffi_bytes peer)) (\<lambda>peer.
         abi_bind (piv_access auth opts) (\<lambda>access.
         abi_failure (into_inner ObjectOp (selected_sequence pk)
           (derive (pkg_point pk) profile slot algorithm peer access options)))))))))"

definition cnk_piv_decapsulate_new ::
  "'u Packages \<Rightarrow> DeviceProfile option \<Rightarrow> u32 \<Rightarrow> span \<Rightarrow> CnkPivAccess option \<Rightarrow> CnkOptions option \<Rightarrow> constructor"
where
  "cnk_piv_decapsulate_new pk profile reference d auth opts out error = create out error (
     abi_bind (abi_code (piv_options opts)) (\<lambda>options.
     abi_bind (abi_ref profile) (\<lambda>profile.
     abi_bind (abi_code (ffi_slot reference)) (\<lambda>slot.
     abi_bind (piv_input d options) (\<lambda>d.
     abi_bind (piv_access auth opts) (\<lambda>access.
     abi_failure (into_inner ObjectOp (selected_sequence pk)
       (decapsulate profile slot d access options))))))))"

definition streaming_input :: "u32 \<Rightarrow> span \<Rightarrow> span \<Rightarrow> OperationOptions \<Rightarrow> StreamingSignInput abi" where
  "streaming_input mode d user_id options =
     (if snd user_id > 32 \<or> mode \<noteq> 3 \<and> user_id \<noteq> null_span then abi_code (Inl ARG)
      else
        abi_bind (piv_input d options) (\<lambda>message.
          if mode = 1 then abi_code (Inr (StreamMlDsa65 message))
          else if mode = 2 then abi_code (Inr (StreamEd25519Randomized message))
          else if mode = 3 then
            (if user_id = null_span then abi_code (Inr (StreamSm2 message None))
             else if snd user_id = 0 then abi_code (Inl ARG)
             else abi_bind (abi_code (ffi_bytes user_id)) (\<lambda>u. abi_code (Inr (StreamSm2 message (Some u)))))
          else abi_code (Inl ARG)))"

definition cnk_piv_sign_streaming_new ::
  "'u Packages \<Rightarrow> DeviceProfile option \<Rightarrow> u32 \<Rightarrow> u32 \<Rightarrow> span \<Rightarrow> span \<Rightarrow> CnkPivAccess option \<Rightarrow> CnkOptions option
   \<Rightarrow> constructor" where
  "cnk_piv_sign_streaming_new pk profile reference mode d user_id auth opts out error = create out error (
     abi_bind (abi_code (piv_options opts)) (\<lambda>options.
     abi_bind (abi_ref profile) (\<lambda>profile.
     abi_bind (abi_code (ffi_slot reference)) (\<lambda>slot.
     abi_bind (streaming_input mode d user_id options) (\<lambda>input.
     abi_bind (piv_access auth opts) (\<lambda>access.
     abi_failure (into_inner SignatureOp (Selected_ops (pkg_cipher pk) StreamingMachine_ops)
       (sign_streaming (pkg_der pk) profile slot input access options))))))))"

definition cnk_piv_require_empty_key_slot_new ::
  "'u Packages \<Rightarrow> DeviceProfile option \<Rightarrow> u32 \<Rightarrow> CnkOptions option \<Rightarrow> constructor" where
  "cnk_piv_require_empty_key_slot_new pk profile reference opts out error = create out error (
     abi_bind (abi_ref profile) (\<lambda>profile.
     abi_bind (abi_code (piv_options opts)) (\<lambda>options.
     abi_bind (piv_access None opts) (\<lambda>access.
     abi_bind (abi_code (ffi_slot reference)) (\<lambda>slot.
     abi_failure (into_inner UnitOp (selected_sequence pk)
       (require_empty_key_slot profile slot access options)))))))"

section \<open>SM2 agreements\<close>

record CnkSm2Input =
  csi_struct_size :: u32
  csi_role :: u32
  csi_key_len :: u32
  csi_peer_static :: span
  csi_peer_ephemeral :: span
  csi_user_id :: span
  csi_peer_id :: span

definition size_of_CnkSm2Input :: u32 where
  "size_of_CnkSm2Input = 80"

definition sm2_identity :: "span \<Rightarrow> u32 + bytes option" where
  "sm2_identity b = (if b = null_span then Inr None else bindE (ffi_bytes b) (\<lambda>bs. Inr (Some bs)))"

definition sm2_role :: "u32 \<Rightarrow> u32 + Sm2Role" where
  "sm2_role v = (if v = 1 then Inr Initiator else if v = 2 then Inr Responder else Inl ARG)"

definition u16_of :: "u32 \<Rightarrow> u32 + 16 word" where
  "u16_of v = (if v \<le> 0xffff then Inr (ucast v) else Inl ARG)"

definition u8_of :: "u32 \<Rightarrow> u32 + byte" where
  "u8_of v = (if v \<le> 0xff then Inr (ucast v) else Inl ARG)"

definition sm2_input :: "CnkSm2Input option \<Rightarrow> u32 + Sm2AgreementInput" where
  "sm2_input p =
     bindE (ok_or p ARG) (\<lambda>p.
       if csi_struct_size p < size_of_CnkSm2Input \<or> snd (csi_peer_static p) \<noteq> 65
          \<or> snd (csi_peer_ephemeral p) \<noteq> 65 \<or> snd (csi_user_id p) > 32 \<or> snd (csi_peer_id p) > 32
       then Inl ARG
       else
         bindE (sm2_role (csi_role p)) (\<lambda>role.
         bindE (u16_of (csi_key_len p)) (\<lambda>key_len.
         bindE (ffi_bytes (csi_peer_static p)) (\<lambda>peer_static.
         bindE (ffi_bytes (csi_peer_ephemeral p)) (\<lambda>peer_ephemeral.
         bindE (sm2_identity (csi_user_id p)) (\<lambda>user_id.
         bindE (sm2_identity (csi_peer_id p)) (\<lambda>peer_id.
           Inr \<lparr>si_role = role, si_peer_static = peer_static, si_peer_ephemeral = peer_ephemeral,
                si_user_id = user_id, si_peer_id = peer_id, si_key_len = key_len\<rparr>)))))))"

definition cnk_piv_agree_sm2_new ::
  "'u Packages \<Rightarrow> DeviceProfile option \<Rightarrow> u32 \<Rightarrow> CnkSm2Input option \<Rightarrow> CnkPivAccess option \<Rightarrow> CnkOptions option
   \<Rightarrow> constructor" where
  "cnk_piv_agree_sm2_new pk profile reference parameters auth opts out error = create out error (
     abi_bind (abi_ref profile) (\<lambda>profile.
     abi_bind (abi_code (ffi_slot reference)) (\<lambda>slot.
     abi_bind (abi_code (sm2_input parameters)) (\<lambda>input.
     abi_bind (piv_access auth opts) (\<lambda>access.
     abi_bind (abi_code (piv_options opts)) (\<lambda>options.
     abi_failure (into_inner Sm2AgreementOp
       (Selected_ops (pkg_cipher pk) (AgreementMachine_ops (pkg_point pk)))
       (agree_sm2 (pkg_point pk) profile slot input access options))))))))"

section \<open>Configuration, names and key lifecycle\<close>

definition name_reference :: "u32 \<Rightarrow> u32 + ContainerNameReference" where
  "name_reference v = (if v = 0xf9 then Inr NameAttestation else bindE (ffi_slot v) (\<lambda>s. Inr (NameKey s)))"

definition cnk_piv_container_name_validate :: "span \<Rightarrow> CnkError option \<Rightarrow> CnkError option \<times> u32" where
  "cnk_piv_container_name_validate d error =
     (case clear_error error of
        Inl code \<Rightarrow> (error, code)
      | Inr error1 \<Rightarrow>
          if snd d > 78 then (error1, ARG)
          else case ffi_bytes d of
            Inl code \<Rightarrow> (error1, code)
          | Inr input \<Rightarrow>
              (case ContainerName_from_utf16le input of
                 Inr _ \<Rightarrow> (error1, OK)
               | Inl e \<Rightarrow> failure e error1))"

definition cnk_piv_read_metadata_directory_new ::
  "'u Packages \<Rightarrow> DeviceProfile option \<Rightarrow> CnkPivAccess option \<Rightarrow> CnkOptions option \<Rightarrow> constructor" where
  "cnk_piv_read_metadata_directory_new pk profile auth opts out error = create out error (
     abi_bind (abi_ref profile) (\<lambda>profile.
     abi_bind (piv_access auth opts) (\<lambda>access.
     abi_bind (abi_code (piv_options opts)) (\<lambda>options.
     abi_failure (into_inner DirectoryOp (selected_sequence pk)
       (read_metadata_directory profile access options))))))"

definition cnk_piv_read_container_name_new ::
  "'u Packages \<Rightarrow> DeviceProfile option \<Rightarrow> u32 \<Rightarrow> CnkPivAccess option \<Rightarrow> CnkOptions option \<Rightarrow> constructor" where
  "cnk_piv_read_container_name_new pk profile reference auth opts out error = create out error (
     abi_bind (abi_ref profile) (\<lambda>profile.
     abi_bind (abi_code (name_reference reference)) (\<lambda>reference.
     abi_bind (piv_access auth opts) (\<lambda>access.
     abi_bind (abi_code (piv_options opts)) (\<lambda>options.
     abi_failure (into_inner ContainerNameOp (selected_sequence pk)
       (read_container_name profile reference access options)))))))"

definition ffi_name :: "span \<Rightarrow> ContainerName abi" where
  "ffi_name d = abi_bind (abi_code (ffi_bytes d)) (\<lambda>bs. abi_failure (ContainerName_from_utf16le bs))"

definition cnk_piv_set_container_name_new ::
  "'u Packages \<Rightarrow> DeviceProfile option \<Rightarrow> u32 \<Rightarrow> span \<Rightarrow> CnkPivAccess option \<Rightarrow> CnkOptions option \<Rightarrow> constructor"
where
  "cnk_piv_set_container_name_new pk profile reference d auth opts out error = create out error (
     if snd d > 78 then abi_code (Inl ARG)
     else
       abi_bind (abi_ref profile) (\<lambda>profile.
       abi_bind (abi_code (name_reference reference)) (\<lambda>reference.
       abi_bind (ffi_name d) (\<lambda>name.
       abi_bind (piv_access auth opts) (\<lambda>access.
       abi_bind (abi_code (piv_options opts)) (\<lambda>options.
       abi_failure (into_inner MutationOp (selected_sequence pk)
         (set_container_name profile reference name access options))))))))"

definition cnk_piv_move_key_new ::
  "'u Packages \<Rightarrow> DeviceProfile option \<Rightarrow> u32 \<Rightarrow> u32 \<Rightarrow> CnkPivAccess option \<Rightarrow> CnkOptions option \<Rightarrow> constructor" where
  "cnk_piv_move_key_new pk profile source target auth opts out error = create out error (
     abi_bind (abi_ref profile) (\<lambda>profile.
     abi_bind (abi_code (ffi_slot source)) (\<lambda>source.
     abi_bind (abi_code (ffi_slot target)) (\<lambda>target.
     abi_bind (piv_access auth opts) (\<lambda>access.
     abi_bind (abi_code (piv_options opts)) (\<lambda>options.
     abi_failure (into_inner MutationOp (selected_sequence pk)
       (move_key profile source target access options))))))))"

definition cnk_piv_delete_key_new ::
  "'u Packages \<Rightarrow> DeviceProfile option \<Rightarrow> u32 \<Rightarrow> CnkPivAccess option \<Rightarrow> CnkOptions option \<Rightarrow> constructor" where
  "cnk_piv_delete_key_new pk profile reference auth opts out error = create out error (
     abi_bind (abi_ref profile) (\<lambda>profile.
     abi_bind (abi_code (ffi_slot reference)) (\<lambda>slot.
     abi_bind (piv_access auth opts) (\<lambda>access.
     abi_bind (abi_code (piv_options opts)) (\<lambda>options.
     abi_failure (into_inner MutationOp (selected_sequence pk) (delete_key profile slot access options)))))))"

definition cnk_piv_reset_pin_puk_retries_new ::
  "'u Packages \<Rightarrow> DeviceProfile option \<Rightarrow> u32 \<Rightarrow> u32 \<Rightarrow> CnkPivAccess option \<Rightarrow> CnkOptions option \<Rightarrow> constructor" where
  "cnk_piv_reset_pin_puk_retries_new pk profile pin_retries puk_retries auth opts out error = create out error (
     abi_bind (abi_ref profile) (\<lambda>profile.
     abi_bind (abi_code (u8_of pin_retries)) (\<lambda>pin.
     abi_bind (abi_code (u8_of puk_retries)) (\<lambda>puk.
     abi_bind (piv_access auth opts) (\<lambda>access.
     abi_bind (abi_code (piv_options opts)) (\<lambda>options.
     abi_failure (into_inner MutationOp (selected_sequence pk)
       (reset_pin_puk_retries profile pin puk access options))))))))"

definition ffi_config :: "span \<Rightarrow> AlgorithmConfig abi" where
  "ffi_config d = abi_bind (abi_code (ffi_bytes d)) (\<lambda>bs. abi_failure (AlgorithmConfig_parse bs))"

definition cnk_piv_set_algorithm_config_new ::
  "'u Packages \<Rightarrow> DeviceProfile option \<Rightarrow> span \<Rightarrow> CnkPivAccess option \<Rightarrow> CnkOptions option \<Rightarrow> constructor" where
  "cnk_piv_set_algorithm_config_new pk profile d auth opts out error = create out error (
     if snd d \<noteq> 10 then abi_code (Inl ARG)
     else
       abi_bind (abi_ref profile) (\<lambda>profile.
       abi_bind (ffi_config d) (\<lambda>config.
       abi_bind (piv_access auth opts) (\<lambda>access.
       abi_bind (abi_code (piv_options opts)) (\<lambda>options.
       abi_failure (into_inner MutationOp (selected_sequence pk)
         (set_algorithm_config profile config access options)))))))"

definition cnk_piv_attest_new ::
  "'u Packages \<Rightarrow> DeviceProfile option \<Rightarrow> u32 \<Rightarrow> CnkOptions option \<Rightarrow> constructor" where
  "cnk_piv_attest_new pk profile reference opts out error = create out error (
     abi_bind (abi_code (piv_options opts)) (\<lambda>options.
     abi_bind (abi_ref profile) (\<lambda>profile.
     abi_bind (abi_code (ffi_slot reference)) (\<lambda>slot.
     abi_failure (into_inner ObjectOp (selected_sequence pk)
       (attest profile slot (piv_select_flag opts) options))))))"

definition cnk_piv_reset_piv_new ::
  "'u Packages \<Rightarrow> DeviceProfile option \<Rightarrow> CnkOptions option \<Rightarrow> constructor" where
  "cnk_piv_reset_piv_new pk profile opts out error = create out error (
     abi_bind (abi_ref profile) (\<lambda>profile.
     abi_bind (abi_code (ffi_options opts)) (\<lambda>options.
     abi_failure (into_inner MutationOp (selected_sequence pk) (reset_piv profile options)))))"

definition cnk_piv_read_version_selected_new :: "CnkOptions option \<Rightarrow> constructor" where
  "cnk_piv_read_version_selected_new opts out error = create out error (
     abi_bind (abi_code (ffi_options opts)) (\<lambda>options.
     abi_failure (into_inner ObjectOp Sequence_ops (read_version_selected options))))"

definition cnk_piv_read_configuration_selected_new :: "CnkOptions option \<Rightarrow> constructor" where
  "cnk_piv_read_configuration_selected_new opts out error = create out error (
     abi_bind (abi_code (ffi_options opts)) (\<lambda>options.
     abi_failure (into_inner AlgorithmConfigOp Sequence_ops (read_configuration_selected options))))"

definition cnk_piv_random_selected_new :: "nat \<Rightarrow> CnkOptions option \<Rightarrow> constructor" where
  "cnk_piv_random_selected_new len opts out error = create out error (
     abi_bind (abi_code (ffi_options opts)) (\<lambda>options.
     abi_failure (into_inner ObjectOp RandomMachine_ops (random_selected len options))))"

section \<open>Protection objects\<close>

definition limit_at_parsing :: Error where
  "limit_at_parsing = Error_at (Error_new LimitExceeded) Phase.Parsing"

definition cnk_piv_admin_data_flags ::
  "span \<Rightarrow> u32 option \<Rightarrow> CnkError option \<Rightarrow> u32 option \<times> CnkError option \<times> u32" where
  "cnk_piv_admin_data_flags d flags error =
     (case clear_error error of
        Inl code \<Rightarrow> (flags, error, code)
      | Inr error1 \<Rightarrow>
          if flags = None then (None, error1, ARG)
          else if snd d > 128 then (flags, failure limit_at_parsing error1)
          else case ffi_bytes d of
            Inl code \<Rightarrow> (flags, error1, code)
          | Inr input \<Rightarrow>
              (case from_admin_object input of
                 Inr policy \<Rightarrow> (Some (ucast policy), error1, OK)
               | Inl e \<Rightarrow> (flags, failure e error1)))"

definition cnk_piv_printed_management_key_copy ::
  "span \<Rightarrow> bytes option \<Rightarrow> nat option \<Rightarrow> CnkError option \<Rightarrow> bytes option \<times> nat option \<times> CnkError option \<times> u32"
where
  "cnk_piv_printed_management_key_copy d out out_len error =
     (case clear_error error of
        Inl code \<Rightarrow> (out, out_len, error, code)
      | Inr error1 \<Rightarrow>
          if out_len = None then (out, None, error1, ARG)
          else if snd d > 64 then (out, out_len, failure limit_at_parsing error1)
          else case ffi_bytes d of
            Inl code \<Rightarrow> (out, out_len, error1, code)
          | Inr input \<Rightarrow>
              (case protected_management_key_from_object input of
                 Inr key \<Rightarrow> (case ffi_copy key out out_len of (out', len', code) \<Rightarrow> (out', len', error1, code))
               | Inl e \<Rightarrow> (out, out_len, failure e error1)))"

end
