(* ===== verification/C_Results.thy ===== *)
theory C_Results
  imports C_Piv
begin

text \<open>
  The C interface, PIV results: the projections of completed results into the caller's structures
  (\<open>piv_mutation.rs\<close>, \<open>piv_keys.rs\<close>, \<open>piv_sm2.rs\<close>, \<open>piv_configuration.rs\<close>).
  A getter for a structure returns the structure and a status code; when the code is not OK the
  structure is the caller's old one. \<open>asn1\<close> and \<open>der\<close> are the encoders the key and signature objects use.
\<close>

section \<open>Structures written by getters\<close>

text \<open>
  The common frame: \<open>out.is_null() || (*out).struct_size < size\<close>, then the handle, then the result.
\<close>

definition write_pod ::
  "('p \<Rightarrow> u32) \<Rightarrow> u32 \<Rightarrow> 'p option \<Rightarrow> ('p \<Rightarrow> u32 + 'p) \<Rightarrow> 'p option \<times> u32" where
  "write_pod struct_size need out f =
     (case out of
        None \<Rightarrow> (None, ARG)
      | Some pod \<Rightarrow>
          if struct_size pod < need then (Some pod, ARG)
          else case f pod of Inl code \<Rightarrow> (Some pod, code) | Inr pod' \<Rightarrow> (Some pod', OK))"

text \<open>A scalar output: NULL is refused, otherwise the value is written on success.\<close>

definition write_scalar :: "'p option \<Rightarrow> u32 + 'p \<Rightarrow> 'p option \<times> u32" where
  "write_scalar out r =
     (case out of
        None \<Rightarrow> (None, ARG)
      | Some old \<Rightarrow> (case r of Inl code \<Rightarrow> (Some old, code) | Inr v \<Rightarrow> (Some v, OK)))"

section \<open>Mutations and metadata\<close>

record CnkMutationResult =
  cmr_struct_size :: u32
  cmr_profile_effect :: u32

definition size_of_CnkMutationResult :: u32 where
  "size_of_CnkMutationResult = 8"

fun effect_code :: "ProfileEffect \<Rightarrow> u32" where
  "effect_code Unchanged = 0"
| "effect_code ReprobeRequired = 1"

definition inner_mutation :: "Inner \<Rightarrow> u32 + MutationResult" where
  "inner_mutation inner = (case inner of MutationOp p \<Rightarrow> of_result p Inr | _ \<Rightarrow> Inl TYPE_CODE)"

definition cnk_operation_mutation_result ::
  "CnkOperation option \<Rightarrow> CnkMutationResult option \<Rightarrow> CnkMutationResult option \<times> u32" where
  "cnk_operation_mutation_result op out =
     write_pod cmr_struct_size size_of_CnkMutationResult out (\<lambda>pod.
       bindE (of_handle op inner_mutation) (\<lambda>r.
         Inr (pod\<lparr>cmr_profile_effect := effect_code (mr_profile_effect r)\<rparr>)))"

record CnkMetadata =
  cmd_struct_size :: u32
  cmd_presence_flags :: u32
  cmd_algorithm_id :: byte
  cmd_pin_policy :: byte
  cmd_touch_policy :: byte
  cmd_origin :: byte
  cmd_is_default :: byte
  cmd_retries_total :: byte
  cmd_retries_remaining :: byte
  cmd_reserved :: byte

definition size_of_CnkMetadata :: u32 where
  "size_of_CnkMetadata = 16"

fun known_byte :: "('a \<Rightarrow> byte) \<Rightarrow> 'a KnownOrUnknown \<Rightarrow> byte" where
  "known_byte f (Known v) = f v"
| "known_byte f (UnknownByte raw) = raw"

fun pin_policy_byte :: "PinPolicy \<Rightarrow> byte" where
  "pin_policy_byte PinDefault = 0"
| "pin_policy_byte PinNever = 1"
| "pin_policy_byte PinOnce = 2"
| "pin_policy_byte PinAlways = 3"

fun touch_policy_byte :: "TouchPolicy \<Rightarrow> byte" where
  "touch_policy_byte TouchDefault = 0"
| "touch_policy_byte TouchNever = 1"
| "touch_policy_byte TouchAlways = 2"
| "touch_policy_byte TouchCached = 3"

fun origin_byte :: "KeyOrigin \<Rightarrow> byte" where
  "origin_byte NotPresent = 0"
| "origin_byte Generated = 1"
| "origin_byte Imported = 2"

definition metadata_pod :: "u32 \<Rightarrow> MetadataFields \<Rightarrow> CnkMetadata" where
  "metadata_pod n mf =
     (let p0 = \<lparr>cmd_struct_size = n, cmd_presence_flags = 0, cmd_algorithm_id = 0, cmd_pin_policy = 0,
                cmd_touch_policy = 0, cmd_origin = 0, cmd_is_default = 0, cmd_retries_total = 0,
                cmd_retries_remaining = 0, cmd_reserved = 0\<rparr>;
          p1 = (case mf_algorithm_id mf of
                  None \<Rightarrow> p0
                | Some i \<Rightarrow> p0\<lparr>cmd_presence_flags := cmd_presence_flags p0 OR 1, cmd_algorithm_id := i\<rparr>);
          p2 = (case (mf_pin_policy mf, mf_touch_policy mf) of
                  (Some pin, Some touch) \<Rightarrow>
                    p1\<lparr>cmd_presence_flags := cmd_presence_flags p1 OR 2,
                       cmd_pin_policy := known_byte pin_policy_byte pin,
                       cmd_touch_policy := known_byte touch_policy_byte touch\<rparr>
                | _ \<Rightarrow> p1);
          p3 = (case mf_origin mf of
                  None \<Rightarrow> p2
                | Some origin \<Rightarrow> p2\<lparr>cmd_presence_flags := cmd_presence_flags p2 OR 4,
                                     cmd_origin := known_byte origin_byte origin\<rparr>);
          p4 = (case mf_is_default mf of
                  None \<Rightarrow> p3
                | Some d \<Rightarrow> p3\<lparr>cmd_presence_flags := cmd_presence_flags p3 OR 8,
                                cmd_is_default := known_byte of_bool d\<rparr>)
      in case mf_retries mf of
           None \<Rightarrow> p4
         | Some (t, r) \<Rightarrow> p4\<lparr>cmd_presence_flags := cmd_presence_flags p4 OR 16,
                              cmd_retries_total := t, cmd_retries_remaining := r\<rparr>)"

definition copy_metadata :: "Metadata \<Rightarrow> CnkMetadata option \<Rightarrow> CnkMetadata option \<times> u32" where
  "copy_metadata metadata out =
     write_pod cmd_struct_size size_of_CnkMetadata out (\<lambda>pod.
       Inr (metadata_pod (cmd_struct_size pod) (Metadata_fields metadata)))"

definition inner_metadata :: "Inner \<Rightarrow> u32 + Metadata" where
  "inner_metadata inner = (case inner of MetadataOp p \<Rightarrow> of_result p Inr | _ \<Rightarrow> Inl TYPE_CODE)"

definition cnk_operation_metadata ::
  "CnkOperation option \<Rightarrow> CnkMetadata option \<Rightarrow> CnkMetadata option \<times> u32" where
  "cnk_operation_metadata op out =
     write_pod cmd_struct_size size_of_CnkMetadata out (\<lambda>pod.
       bindE (of_handle op inner_metadata) (\<lambda>m.
         case copy_metadata m (Some pod) of
           (pod', code) \<Rightarrow> if code = OK then Inr (unwrap_or pod' pod) else Inl code))"

section \<open>Public keys and signatures\<close>

fun inner_public_key :: "Inner \<Rightarrow> u32 + PublicKey" where
  "inner_public_key (OpenPgpOp p) =
     of_result p (\<lambda>v. case v of PgpKey key \<Rightarrow> Inr key | _ \<Rightarrow> Inl TYPE_CODE)"
| "inner_public_key (PublicKeyOp p) = of_result p Inr"
| "inner_public_key (MetadataOp p) = of_result p (\<lambda>m. ok_or (mf_public_key (Metadata_fields m)) TYPE_CODE)"
| "inner_public_key _ = Inl TYPE_CODE"

definition public_key_field :: "('o, 'a, 'u, 'b) Asn1 \<Rightarrow> PublicKey \<Rightarrow> u32 \<Rightarrow> u32 + bytes" where
  "public_key_field asn1 key field =
     (if field = 4 then (case to_spki_der asn1 key of Inr d \<Rightarrow> Inr d | Inl _ \<Rightarrow> Inl PROTOCOL)
      else case key of
        PublicKey.Rsa _ modulus exponent \<Rightarrow>
          if field = 1 then Inr modulus else if field = 2 then Inr exponent
          else if field = 3 then Inl TYPE_CODE else Inl ARG
      | PublicKey.Ec _ point \<Rightarrow>
          if field = 3 then Inr point
          else if field = 1 \<or> field = 2 then Inl TYPE_CODE else Inl ARG
      | PublicKey.Raw _ bs \<Rightarrow>
          if field = 3 then Inr bs
          else if field = 1 \<or> field = 2 then Inl TYPE_CODE else Inl ARG)"

definition copy_public_key ::
  "('o, 'a, 'u, 'b) Asn1 \<Rightarrow> PublicKey \<Rightarrow> u32 \<Rightarrow> bytes option \<Rightarrow> nat option \<Rightarrow> bytes option \<times> nat option \<times> u32"
where
  "copy_public_key asn1 key field buffer len = copy_or (public_key_field asn1 key field) buffer len"

definition cnk_operation_public_key_copy ::
  "('o, 'a, 'u, 'b) Asn1 \<Rightarrow> CnkOperation option \<Rightarrow> u32 \<Rightarrow> bytes option \<Rightarrow> nat option
   \<Rightarrow> bytes option \<times> nat option \<times> u32" where
  "cnk_operation_public_key_copy asn1 op field buffer len =
     (case of_handle op inner_public_key of
        Inl code \<Rightarrow> (buffer, len, code)
      | Inr key \<Rightarrow> copy_public_key asn1 key field buffer len)"

fun inner_key_algorithm :: "Inner \<Rightarrow> u32 + u32" where
  "inner_key_algorithm (OpenPgpOp p) =
     of_result p (\<lambda>v. case v of
       PgpSignature algorithm _ \<Rightarrow> Inr (algorithm_code algorithm)
     | _ \<Rightarrow> bindE (inner_public_key (OpenPgpOp p)) (\<lambda>key. Inr (algorithm_code (PublicKey.key_algorithm key))))"
| "inner_key_algorithm (SignatureOp p) = of_result p (\<lambda>s. Inr (algorithm_code (sg_algorithm s)))"
| "inner_key_algorithm inner =
     bindE (inner_public_key inner) (\<lambda>key. Inr (algorithm_code (PublicKey.key_algorithm key)))"

definition cnk_operation_key_algorithm :: "CnkOperation option \<Rightarrow> u32 option \<Rightarrow> u32 option \<times> u32" where
  "cnk_operation_key_algorithm op out = write_scalar out (of_handle op inner_key_algorithm)"

definition inner_signature :: "Inner \<Rightarrow> u32 + PivSignature" where
  "inner_signature inner = (case inner of SignatureOp p \<Rightarrow> of_result p Inr | _ \<Rightarrow> Inl TYPE_CODE)"

text \<open>A conversion whose failure is reported as a type mismatch.\<close>

definition or_type :: "bytes res \<Rightarrow> u32 + bytes" where
  "or_type r = (case r of Inr d \<Rightarrow> Inr d | Inl _ \<Rightarrow> Inl TYPE_CODE)"

definition cnk_operation_signature_p1363 ::
  "'u EcDer \<Rightarrow> CnkOperation option \<Rightarrow> bytes option \<Rightarrow> nat option \<Rightarrow> bytes option \<times> nat option \<times> u32" where
  "cnk_operation_signature_p1363 der op buffer len =
     copy_or (bindE (of_handle op inner_signature) (\<lambda>s. or_type (to_p1363 der s))) buffer len"

definition cnk_operation_signature_der ::
  "'u EcDer \<Rightarrow> CnkOperation option \<Rightarrow> bytes option \<Rightarrow> nat option \<Rightarrow> bytes option \<times> nat option \<times> u32" where
  "cnk_operation_signature_der der op buffer len =
     copy_or (bindE (of_handle op inner_signature) (\<lambda>s. or_type (to_der der s))) buffer len"

fun signature_encoding_code :: "SignatureEncoding \<Rightarrow> u32" where
  "signature_encoding_code RawEncoding = 1"
| "signature_encoding_code DerEncoding = 2"
| "signature_encoding_code P1363Encoding = 3"

definition cnk_operation_signature_encoding :: "CnkOperation option \<Rightarrow> u32 option \<Rightarrow> u32 option \<times> u32" where
  "cnk_operation_signature_encoding op out =
     write_scalar out (bindE (of_handle op inner_signature) (\<lambda>s. Inr (signature_encoding_code (sg_encoding s))))"

section \<open>Agreements and directories\<close>

text \<open>\<open>agreement(op, index)\<close> and \<open>directory(op, index)\<close>: the operation's own result, or an item of a batch.\<close>

definition batch_item :: "BatchResults COperation \<Rightarrow> nat \<Rightarrow> (BatchItem \<Rightarrow> u32 + 'a) \<Rightarrow> u32 + 'a" where
  "batch_item b index f =
     (case batch_progress Boxed_ops b of
        None \<Rightarrow> Inl STATE
      | Some r \<Rightarrow> (case get_at (br_items r) index of Some item \<Rightarrow> f item | None \<Rightarrow> Inl ARG))"

fun item_agreement :: "BatchItem \<Rightarrow> u32 + Sm2Agreement" where
  "item_agreement (Sm2AgreementItem a) = Inr a"
| "item_agreement _ = Inl TYPE_CODE"

fun item_directory :: "BatchItem \<Rightarrow> u32 + MetadataDirectory" where
  "item_directory (DirectoryItem d) = Inr d"
| "item_directory _ = Inl TYPE_CODE"

definition inner_agreement :: "nat option \<Rightarrow> Inner \<Rightarrow> u32 + Sm2Agreement" where
  "inner_agreement index inner =
     (case (inner, index) of
        (Sm2AgreementOp a, None) \<Rightarrow> of_result a Inr
      | (BatchOp b, Some i) \<Rightarrow> batch_item b i item_agreement
      | _ \<Rightarrow> Inl TYPE_CODE)"

definition cnk_operation_sm2_ephemeral_copy ::
  "CnkOperation option \<Rightarrow> bytes option \<Rightarrow> nat option \<Rightarrow> bytes option \<times> nat option \<times> u32" where
  "cnk_operation_sm2_ephemeral_copy op buffer len =
     copy_or (bindE (of_handle op (inner_agreement None)) (\<lambda>a. Inr (sm_ephemeral_public a))) buffer len"

definition cnk_operation_batch_item_sm2_ephemeral_copy ::
  "CnkOperation option \<Rightarrow> nat \<Rightarrow> bytes option \<Rightarrow> nat option \<Rightarrow> bytes option \<times> nat option \<times> u32" where
  "cnk_operation_batch_item_sm2_ephemeral_copy op index buffer len =
     copy_or (bindE (of_handle op (inner_agreement (Some index))) (\<lambda>a. Inr (sm_ephemeral_public a))) buffer len"

definition inner_directory :: "nat option \<Rightarrow> Inner \<Rightarrow> u32 + MetadataDirectory" where
  "inner_directory index inner =
     (case (inner, index) of
        (DirectoryOp d, None) \<Rightarrow> of_result d Inr
      | (BatchOp b, Some i) \<Rightarrow> batch_item b i item_directory
      | _ \<Rightarrow> Inl TYPE_CODE)"

record CnkDirectoryInfo =
  cdi_struct_size :: u32
  cdi_version :: u32
  cdi_decoded :: u32
  cdi_count :: u32

definition size_of_CnkDirectoryInfo :: u32 where
  "size_of_CnkDirectoryInfo = 16"

record CnkDirectoryEntry =
  cde_struct_size :: u32
  cde_reference :: byte
  cde_flags :: byte
  cde_algorithm_id :: byte
  cde_origin :: byte
  cde_pin_policy :: byte
  cde_touch_policy :: byte
  cde_reserved :: bytes
  cde_issues :: u32

definition size_of_CnkDirectoryEntry :: u32 where
  "size_of_CnkDirectoryEntry = 16"

definition directory_info :: "MetadataDirectory \<Rightarrow> CnkDirectoryInfo option \<Rightarrow> CnkDirectoryInfo option \<times> u32" where
  "directory_info d out =
     write_pod cdi_struct_size size_of_CnkDirectoryInfo out (\<lambda>pod.
       Inr \<lparr>cdi_struct_size = cdi_struct_size pod, cdi_version = ucast (md_version d),
            cdi_decoded = of_bool (md_entries d \<noteq> None),
            cdi_count = (case md_entries d of None \<Rightarrow> 0 | Some es \<Rightarrow> of_nat (length es))\<rparr>)"

fun issue_bit :: "DirectoryIssue \<Rightarrow> u32" where
  "issue_bit UnknownSlot = 1"
| "issue_bit DuplicateSlot = 2"
| "issue_bit EmptyFlags = 4"
| "issue_bit UnknownFlags = 8"
| "issue_bit KeyFieldsWithoutKey = 16"

definition entry_pod :: "u32 \<Rightarrow> DirectoryEntry \<Rightarrow> CnkDirectoryEntry" where
  "entry_pod n e =
     \<lparr>cde_struct_size = n, cde_reference = de_reference e, cde_flags = de_flags e,
      cde_algorithm_id = de_key_fields e ! 0, cde_origin = de_key_fields e ! 1,
      cde_pin_policy = de_key_fields e ! 2, cde_touch_policy = de_key_fields e ! 3,
      cde_reserved = [0, 0], cde_issues = foldl (\<lambda>bits issue. bits OR issue_bit issue) 0 (de_issues e)\<rparr>"

definition c_directory_entry ::
  "MetadataDirectory \<Rightarrow> nat \<Rightarrow> CnkDirectoryEntry option \<Rightarrow> CnkDirectoryEntry option \<times> u32" where
  "c_directory_entry d index out =
     write_pod cde_struct_size size_of_CnkDirectoryEntry out (\<lambda>pod.
       bindE (ok_or (md_entries d) TYPE_CODE) (\<lambda>entries.
       bindE (ok_or (get_at entries index) ARG) (\<lambda>e. Inr (entry_pod (cde_struct_size pod) e))))"

definition with_result :: "u32 + 'a \<Rightarrow> 'p option \<Rightarrow> ('a \<Rightarrow> 'p option \<Rightarrow> 'p option \<times> u32) \<Rightarrow> 'p option \<times> u32" where
  "with_result r out f = (case r of Inl code \<Rightarrow> (out, code) | Inr v \<Rightarrow> f v out)"

definition cnk_operation_directory_info ::
  "CnkOperation option \<Rightarrow> CnkDirectoryInfo option \<Rightarrow> CnkDirectoryInfo option \<times> u32" where
  "cnk_operation_directory_info op out = with_result (of_handle op (inner_directory None)) out directory_info"

definition cnk_operation_directory_entry ::
  "CnkOperation option \<Rightarrow> nat \<Rightarrow> CnkDirectoryEntry option \<Rightarrow> CnkDirectoryEntry option \<times> u32" where
  "cnk_operation_directory_entry op entry_index out =
     with_result (of_handle op (inner_directory None)) out (\<lambda>d. c_directory_entry d entry_index)"

definition cnk_operation_batch_item_directory_info ::
  "CnkOperation option \<Rightarrow> nat \<Rightarrow> CnkDirectoryInfo option \<Rightarrow> CnkDirectoryInfo option \<times> u32" where
  "cnk_operation_batch_item_directory_info op item_index out =
     with_result (of_handle op (inner_directory (Some item_index))) out directory_info"

definition cnk_operation_batch_item_directory_entry ::
  "CnkOperation option \<Rightarrow> nat \<Rightarrow> nat \<Rightarrow> CnkDirectoryEntry option \<Rightarrow> CnkDirectoryEntry option \<times> u32" where
  "cnk_operation_batch_item_directory_entry op item_index entry_index out =
     with_result (of_handle op (inner_directory (Some item_index))) out (\<lambda>d. c_directory_entry d entry_index)"

section \<open>Configuration and capabilities\<close>

definition configuration_bytes :: "AlgorithmConfig \<Rightarrow> bytes" where
  "configuration_bytes config =
     of_bool (ac_enabled config)
     # map (\<lambda>a. unwrap_or (AlgorithmConfig_wire_id config a) 0)
           [Ed25519, Rsa3072, Rsa4096, X25519, Secp256k1, EccP521, Sm2, MlDsa65, MlKem768]"

definition inner_config :: "Inner \<Rightarrow> u32 + AlgorithmConfig" where
  "inner_config inner = (case inner of AlgorithmConfigOp p \<Rightarrow> of_result p Inr | _ \<Rightarrow> Inl TYPE_CODE)"

definition cnk_operation_piv_configuration_copy ::
  "CnkOperation option \<Rightarrow> bytes option \<Rightarrow> nat option \<Rightarrow> bytes option \<times> nat option \<times> u32" where
  "cnk_operation_piv_configuration_copy op buffer len =
     copy_or (bindE (of_handle op inner_config) (\<lambda>config. Inr (configuration_bytes config))) buffer len"

record CnkPivCapabilities =
  cpc_struct_size :: u32
  cpc_algorithms :: u32
  cpc_unknown_algorithms :: u32
  cpc_features :: u32
  cpc_unknown_features :: u32
  cpc_max_ed25519_message :: u32
  cpc_max_streaming_message :: u32

definition size_of_CnkPivCapabilities :: u32 where
  "size_of_CnkPivCapabilities = 28"

definition gated :: "Support \<Rightarrow> Support \<Rightarrow> Support" where
  "gated piv_support support = (if piv_support = Supported then support else piv_support)"

definition add_algorithm :: "DeviceProfile \<Rightarrow> nat \<Rightarrow> CnkPivCapabilities \<Rightarrow> CnkPivCapabilities" where
  "add_algorithm profile code v =
     (case algorithm_of_code (of_nat code) of
        Inl _ \<Rightarrow> v
      | Inr algorithm \<Rightarrow>
          (case gated (cs_support (capability profile Capability.Piv))
                  (cs_support (key_algorithm_support profile algorithm)) of
             Supported \<Rightarrow> v\<lparr>cpc_algorithms := cpc_algorithms v OR push_bit code 1\<rparr>
           | Unknown \<Rightarrow> v\<lparr>cpc_unknown_algorithms := cpc_unknown_algorithms v OR push_bit code 1\<rparr>
           | Unsupported \<Rightarrow> v))"

definition add_feature :: "u32 \<Rightarrow> Support \<Rightarrow> CnkPivCapabilities \<Rightarrow> CnkPivCapabilities" where
  "add_feature b support v =
     (case support of
        Supported \<Rightarrow> v\<lparr>cpc_features := cpc_features v OR b\<rparr>
      | Unknown \<Rightarrow> v\<lparr>cpc_unknown_features := cpc_unknown_features v OR b\<rparr>
      | Unsupported \<Rightarrow> v)"

definition piv_capabilities :: "DeviceProfile \<Rightarrow> u32 \<Rightarrow> CnkPivCapabilities" where
  "piv_capabilities profile n =
     (let g = gated (cs_support (capability profile Capability.Piv));
          v0 = \<lparr>cpc_struct_size = n, cpc_algorithms = 0, cpc_unknown_algorithms = 0, cpc_features = 0,
                cpc_unknown_features = 0, cpc_max_ed25519_message = of_nat MAX_ED25519_MESSAGE,
                cpc_max_streaming_message = of_nat MAX_STREAMING_MESSAGE\<rparr>;
          v1 = fold (add_algorithm profile) [1..<14] v0;
          v2 = fold (\<lambda>(b, feature). add_feature b (g (cs_support (capability profile feature))))
                 [(1, KeyMoveDelete), (2, RetryReset), (4, Attestation), (8, ContainerNames),
                  (16, Capability.Sm2Agreement)] v1;
          v3 = add_feature 32 (g (cs_support (streaming_signing_support profile Sm2))) v2
      in case di_piv_version (dp_info profile) of
           Some version \<Rightarrow> if version ! 0 \<ge> 6 then v3\<lparr>cpc_features := cpc_features v3 OR 64\<rparr> else v3
         | None \<Rightarrow> v3\<lparr>cpc_unknown_features := cpc_unknown_features v3 OR 64\<rparr>)"

definition cnk_profile_piv_capabilities ::
  "DeviceProfile option \<Rightarrow> CnkPivCapabilities option \<Rightarrow> CnkPivCapabilities option \<times> u32" where
  "cnk_profile_piv_capabilities profile out =
     (case profile of
        None \<Rightarrow> (out, ARG)
      | Some p \<Rightarrow>
          write_pod cpc_struct_size size_of_CnkPivCapabilities out (\<lambda>pod.
            Inr (piv_capabilities p (cpc_struct_size pod))))"

end
