(* ===== verification/C_Batch.thy ===== *)
theory C_Batch
  imports C_Results
begin

text \<open>
  The C interface, batches (\<open>piv_batch.rs\<close>): the request descriptors with their decoder, the
  constructor, and the getters for the items completed so far. A C caller fills a descriptor with the
  numbers of the header; \<open>encode_request\<close> of \<open>C_Descriptors\<close> does that for a request of the Rust
  interface, and the decoder gives the request back.
\<close>

section \<open>Requests\<close>

record CnkBatchRequest =
  cb_struct_size :: u32
  cb_kind :: u32
  cb_reference :: u32
  cb_algorithm :: u32
  cb_input_kind :: u32
  cb_data :: span
  cb_tag :: span
  cb_management :: "CnkManagement option"
  cb_parameters :: "CnkKeyParameters option"
  cb_components :: "span list option"
  cb_component_count :: nat
  cb_user_id :: span
  cb_sm2 :: "CnkSm2Input option"

definition size_of_CnkBatchRequest :: u32 where
  "size_of_CnkBatchRequest = 112"

definition abi_map :: "('a \<Rightarrow> 'b) \<Rightarrow> 'a abi \<Rightarrow> 'b abi" where
  "abi_map f x = abi_bind x (\<lambda>v. abi_code (Inr (f v)))"

definition abi_pair :: "'a abi \<Rightarrow> 'b abi \<Rightarrow> ('a \<times> 'b) abi" where
  "abi_pair x y = abi_bind x (\<lambda>v. abi_bind y (\<lambda>w. abi_code (Inr (v, w))))"

definition ffi_sign_input :: "u32 \<Rightarrow> span \<Rightarrow> SignInput abi" where
  "ffi_sign_input kind d =
     (if kind = 1 then abi_map RsaEncodedBlock (abi_code (ffi_bytes d))
      else if kind = 2 then abi_map Digest (abi_code (ffi_bytes d))
      else if kind = 3 then abi_map Message (abi_code (ffi_bytes d))
      else abi_code (Inl ARG))"

text \<open>The arms of \<open>match r.kind\<close>, by their number.\<close>

definition batch_request :: "'u Packages \<Rightarrow> OperationOptions \<Rightarrow> CnkBatchRequest \<Rightarrow> BatchRequest abi" where
  "batch_request pk options r =
     (let d = abi_code (ffi_bytes (cb_data r));
          i = ffi_object_id (cb_tag r);
          slot = abi_code (ffi_slot (cb_reference r));
          algorithm = abi_code (algorithm_of_code (cb_algorithm r));
          kind = cb_kind r
      in
      if kind = 1 then abi_map BatchRequest.VerifyPin (ffi_secret (cb_data r))
      else if kind = 2 then abi_map AuthenticateManagement (ffi_management (cb_management r))
      else if kind = 3 then abi_code (Inr BatchRequest.Logout)
      else if kind = 4 then abi_map ReadObject i
      else if kind = 5 then abi_map BatchRequest.ReadCertificate slot
      else if kind = 6 then abi_map (case_prod WriteObject) (abi_pair i d)
      else if kind = 7 then abi_map (case_prod BatchRequest.WriteCertificate) (abi_pair slot d)
      else if kind = 8 then abi_map DeleteCertificate slot
      else if kind = 9 then abi_map GetMetadata (abi_code (metadata_reference (cb_reference r)))
      else if kind = 10 then abi_code (Inr ReadAlgorithmConfig)
      else if kind = 11 then abi_map BatchRequest.GenerateKey (abi_code (ffi_parameters (cb_parameters r)))
      else if kind = 12 then
        abi_bind (abi_code (ffi_parameters (cb_parameters r))) (\<lambda>p.
          abi_map (BatchRequest.ImportKey p)
            (ffi_material pk (kp_algorithm p) (cb_components r) (cb_component_count r)))
      else if kind = 13 then
        abi_map (\<lambda>((s, a), input). Sign s a input)
          (abi_pair (abi_pair slot algorithm) (ffi_sign_input (cb_input_kind r) (cb_data r)))
      else if kind = 14 then abi_map (\<lambda>((s, a), c). Decrypt s a c) (abi_pair (abi_pair slot algorithm) d)
      else if kind = 15 then abi_map (\<lambda>((s, a), c). Derive s a c) (abi_pair (abi_pair slot algorithm) d)
      else if kind = 16 then
        abi_map (case_prod SetManagementKey)
          (abi_pair
            (abi_bind (abi_code (management_algorithm (cb_algorithm r))) (\<lambda>a.
             abi_bind d (\<lambda>bs. abi_failure (ManagementKey_from_bytes a bs))))
            (abi_code (management_touch (cb_input_kind r))))
      else if kind = 17 then abi_map (case_prod Decapsulate) (abi_pair slot d)
      else if kind = 27 then abi_map (case_prod AgreeSm2) (abi_pair slot (abi_code (sm2_input (cb_sm2 r))))
      else if kind = 19 then abi_code (Inr ReadMetadataDirectory)
      else if kind = 20 then abi_map ReadContainerName slot
      else if kind = 21 then abi_map (case_prod SetContainerName) (abi_pair slot (ffi_name (cb_data r)))
      else if kind = 22 then
        abi_map (case_prod MoveKey) (abi_pair slot (abi_code (ffi_slot (cb_algorithm r))))
      else if kind = 23 then abi_map DeleteKey slot
      else if kind = 24 then
        abi_map (case_prod ResetPinPukRetries)
          (abi_pair (abi_code (u8_of (cb_reference r))) (abi_code (u8_of (cb_algorithm r))))
      else if kind = 25 then abi_map SetAlgorithmConfig (ffi_config (cb_data r))
      else if kind = 26 then abi_map Attest slot
      else if kind = 18 then
        abi_map (case_prod SignStreaming)
          (abi_pair slot (streaming_input (cb_input_kind r) (cb_data r) (cb_user_id r) options))
      else abi_code (Inl ARG))"

fun abi_collect :: "('a \<Rightarrow> 'b abi) \<Rightarrow> 'a list \<Rightarrow> 'b list abi" where
  "abi_collect f [] = abi_code (Inr [])"
| "abi_collect f (x # xs) =
     abi_bind (f x) (\<lambda>y. abi_bind (abi_collect f xs) (\<lambda>ys. abi_code (Inr (y # ys))))"

text \<open>The first loop: every structure is large enough and the declared lengths add up.\<close>

fun request_total :: "nat \<Rightarrow> CnkBatchRequest list \<Rightarrow> u32 + nat" where
  "request_total acc [] = Inr acc"
| "request_total acc (r # rs) =
     (if cb_struct_size r < size_of_CnkBatchRequest then Inl ARG
      else
        bindE (ok_or (Option.bind (checked_add acc (snd (cb_data r)))
                        (\<lambda>n. checked_add n (snd (cb_user_id r)))) ARG) (\<lambda>acc. request_total acc rs))"

definition cnk_piv_batch_new ::
  "'u Packages \<Rightarrow> DeviceProfile option \<Rightarrow> CnkBatchRequest list option \<Rightarrow> nat \<Rightarrow> CnkOptions option \<Rightarrow> constructor"
where
  "cnk_piv_batch_new pk profile requests count opts out error = create out error (
     case requests of
       None \<Rightarrow> abi_code (Inl ARG)
     | Some rs \<Rightarrow>
         if count = 0 \<or> count > MAX_BATCH_REQUESTS then abi_code (Inl ARG)
         else
           abi_bind (abi_code (ffi_options opts)) (\<lambda>options.
           abi_bind (abi_code (request_total 0 (take count rs))) (\<lambda>n.
             if n > max_input_bytes (limits options) then abi_failure (Inl (Error_new LimitExceeded))
             else
               abi_bind (abi_collect (batch_request pk options) (take count rs)) (\<lambda>owned.
               abi_bind (abi_ref profile) (\<lambda>profile.
               abi_failure (into_inner BatchOp (Selected_ops (pkg_cipher pk) BatchMachine_ops)
                 (batch pk profile owned options)))))))"

section \<open>Results\<close>

record CnkBatchProgress =
  cbp_struct_size :: u32
  cbp_completed_count :: u32
  cbp_has_failed_index :: u32
  cbp_failed_index :: u32

definition size_of_CnkBatchProgress :: u32 where
  "size_of_CnkBatchProgress = 16"

definition inner_batch :: "Inner \<Rightarrow> u32 + BatchResults" where
  "inner_batch inner =
     (case inner of BatchOp b \<Rightarrow> ok_or (batch_progress Boxed_ops b) STATE | _ \<Rightarrow> Inl TYPE_CODE)"

definition cnk_operation_batch_progress ::
  "CnkOperation option \<Rightarrow> CnkBatchProgress option \<Rightarrow> CnkBatchProgress option \<times> u32" where
  "cnk_operation_batch_progress op out =
     write_pod cbp_struct_size size_of_CnkBatchProgress out (\<lambda>pod.
       bindE (of_handle op inner_batch) (\<lambda>r.
         Inr (pod\<lparr>cbp_completed_count := of_nat (length (br_items r)),
                  cbp_has_failed_index := of_bool (br_failed_index r \<noteq> None),
                  cbp_failed_index := of_nat (unwrap_or (br_failed_index r) 0)\<rparr>)))"

fun item_kind_code :: "BatchItem \<Rightarrow> u32" where
  "item_kind_code (Sm2AgreementItem _) = 14"
| "item_kind_code (DirectoryItem _) = 12"
| "item_kind_code (ContainerNameItem _) = 13"
| "item_kind_code UnitItem = 2"
| "item_kind_code (BytesItem _) = 4"
| "item_kind_code (CertificateItem _) = 5"
| "item_kind_code (MutationItem _) = 6"
| "item_kind_code (MetadataItem _) = 7"
| "item_kind_code (PublicKeyItem _) = 8"
| "item_kind_code (SignatureItem _) = 9"
| "item_kind_code (AlgorithmConfigItem _) = 10"

text \<open>An item of the batch, by index.\<close>

definition item_at :: "CnkOperation option \<Rightarrow> nat \<Rightarrow> u32 + BatchItem" where
  "item_at op index =
     bindE (of_handle op inner_batch) (\<lambda>r. ok_or (get_at (br_items r) index) ARG)"

definition cnk_operation_batch_item_kind ::
  "CnkOperation option \<Rightarrow> nat \<Rightarrow> u32 option \<Rightarrow> u32 option \<times> u32" where
  "cnk_operation_batch_item_kind op index out =
     write_scalar out (bindE (item_at op index) (\<lambda>item. Inr (item_kind_code item)))"

fun item_bytes :: "('o, 'a, 'u, 'b) Asn1 \<Rightarrow> BatchItem \<Rightarrow> u32 + bytes" where
  "item_bytes asn1 (Sm2AgreementItem a) = Inr (sm_key a)"
| "item_bytes asn1 (DirectoryItem d) = Inr (md_raw d)"
| "item_bytes asn1 (ContainerNameItem n) = Inr n"
| "item_bytes asn1 (BytesItem b) = Inr b"
| "item_bytes asn1 (CertificateItem c) = Inr (ce_der c)"
| "item_bytes asn1 (MetadataItem m) = Inr (mf_raw (Metadata_fields m))"
| "item_bytes asn1 (AlgorithmConfigItem c) = Inr (ac_raw c)"
| "item_bytes asn1 (SignatureItem s) = Inr (sg_bytes s)"
| "item_bytes asn1 (PublicKeyItem k) = (case to_spki_der asn1 k of Inr d \<Rightarrow> Inr d | Inl _ \<Rightarrow> Inl PROTOCOL)"
| "item_bytes asn1 _ = Inl TYPE_CODE"

definition cnk_operation_batch_item_copy_bytes ::
  "('o, 'a, 'u, 'b) Asn1 \<Rightarrow> CnkOperation option \<Rightarrow> nat \<Rightarrow> bytes option \<Rightarrow> nat option
   \<Rightarrow> bytes option \<times> nat option \<times> u32" where
  "cnk_operation_batch_item_copy_bytes asn1 op index buffer len =
     copy_or (bindE (item_at op index) (item_bytes asn1)) buffer len"

fun item_mutation :: "BatchItem \<Rightarrow> u32 + MutationResult" where
  "item_mutation (MutationItem m) = Inr m"
| "item_mutation _ = Inl TYPE_CODE"

definition cnk_operation_batch_item_mutation ::
  "CnkOperation option \<Rightarrow> nat \<Rightarrow> CnkMutationResult option \<Rightarrow> CnkMutationResult option \<times> u32" where
  "cnk_operation_batch_item_mutation op index out =
     write_pod cmr_struct_size size_of_CnkMutationResult out (\<lambda>pod.
       bindE (item_at op index) (\<lambda>item.
       bindE (item_mutation item) (\<lambda>m.
         Inr (pod\<lparr>cmr_profile_effect := effect_code (mr_profile_effect m)\<rparr>))))"

definition cnk_operation_batch_item_metadata ::
  "CnkOperation option \<Rightarrow> nat \<Rightarrow> CnkMetadata option \<Rightarrow> CnkMetadata option \<times> u32" where
  "cnk_operation_batch_item_metadata op index out =
     (case item_at op index of
        Inr (MetadataItem m) \<Rightarrow> copy_metadata m out
      | Inr _ \<Rightarrow> (out, TYPE_CODE)
      | Inl code \<Rightarrow> (out, code))"

fun item_public_key :: "BatchItem \<Rightarrow> u32 + PublicKey" where
  "item_public_key (PublicKeyItem k) = Inr k"
| "item_public_key (MetadataItem m) = ok_or (mf_public_key (Metadata_fields m)) TYPE_CODE"
| "item_public_key _ = Inl TYPE_CODE"

definition cnk_operation_batch_item_public_key_copy ::
  "('o, 'a, 'u, 'b) Asn1 \<Rightarrow> CnkOperation option \<Rightarrow> nat \<Rightarrow> u32 \<Rightarrow> bytes option \<Rightarrow> nat option
   \<Rightarrow> bytes option \<times> nat option \<times> u32" where
  "cnk_operation_batch_item_public_key_copy asn1 op index field buffer len =
     (case bindE (item_at op index) item_public_key of
        Inl code \<Rightarrow> (buffer, len, code)
      | Inr key \<Rightarrow> copy_public_key asn1 key field buffer len)"

fun item_signature :: "BatchItem \<Rightarrow> u32 + PivSignature" where
  "item_signature (SignatureItem s) = Inr s"
| "item_signature _ = Inl TYPE_CODE"

definition cnk_operation_batch_item_signature_p1363 ::
  "'u EcDer \<Rightarrow> CnkOperation option \<Rightarrow> nat \<Rightarrow> bytes option \<Rightarrow> nat option \<Rightarrow> bytes option \<times> nat option \<times> u32" where
  "cnk_operation_batch_item_signature_p1363 der op index buffer len =
     copy_or (bindE (item_at op index) (\<lambda>item.
       bindE (item_signature item) (\<lambda>s. or_type (to_p1363 der s)))) buffer len"

definition cnk_operation_batch_item_signature_der ::
  "'u EcDer \<Rightarrow> CnkOperation option \<Rightarrow> nat \<Rightarrow> bytes option \<Rightarrow> nat option \<Rightarrow> bytes option \<times> nat option \<times> u32" where
  "cnk_operation_batch_item_signature_der der op index buffer len =
     copy_or (bindE (item_at op index) (\<lambda>item.
       bindE (item_signature item) (\<lambda>s. or_type (to_der der s)))) buffer len"

definition cnk_operation_batch_item_signature_encoding ::
  "CnkOperation option \<Rightarrow> nat \<Rightarrow> u32 option \<Rightarrow> u32 option \<times> u32" where
  "cnk_operation_batch_item_signature_encoding op index out =
     write_scalar out (bindE (item_at op index) (\<lambda>item.
       bindE (item_signature item) (\<lambda>s. Inr (signature_encoding_code (sg_encoding s)))))"

end
