(* ===== verification/C_Applets.thy ===== *)
theory C_Applets
  imports C_Results
begin

text \<open>
  The C interface of the OATH, Admin and OpenPGP applets: \<open>oath.rs\<close>, \<open>admin.rs\<close> and \<open>openpgp.rs\<close> of
  \<open>canokey-c\<close>. One descriptor carries every request of an applet; a decoder refuses a descriptor whose
  unused fields are not zero and turns the others into the request of the Rust interface.
\<close>

definition array_of :: "nat \<Rightarrow> bytes \<Rightarrow> u32 + bytes" where
  "array_of n bs = (if length bs = n then Inr bs else Inl ARG)"

text \<open>A helper's error without its details: \<open>map_err(|_| ARG)\<close>.\<close>

definition or_arg :: "'a res \<Rightarrow> u32 + 'a" where
  "or_arg r = (case r of Inr v \<Rightarrow> Inr v | Inl _ \<Rightarrow> Inl ARG)"

section \<open>OATH requests\<close>

record CnkOathRequest =
  cor_struct_size :: u32
  cor_kind :: u32
  cor_name :: span
  cor_new_name :: span
  cor_secret :: span
  cor_access_key :: span
  cor_host_challenge :: span
  cor_challenge :: span
  cor_credential_kind :: u32
  cor_algorithm :: u32
  cor_digits :: u32
  cor_properties :: u32
  cor_initial_counter :: u32
  cor_format :: u32

definition size_of_CnkOathRequest :: u32 where
  "size_of_CnkOathRequest = 128"

definition oath_algorithm_of :: "u32 \<Rightarrow> u32 + OathAlgorithm" where
  "oath_algorithm_of v =
     (if v = 1 then Inr Sha1 else if v = 2 then Inr Sha256 else if v = 3 then Inr Sha512 else Inl ARG)"

definition oath_kind_of :: "u32 \<Rightarrow> u32 + Kind" where
  "oath_kind_of v = (if v = 1 then Inr Hotp else if v = 2 then Inr Totp else Inl ARG)"

definition oath_format_of :: "u32 \<Rightarrow> u32 + Format" where
  "oath_format_of v = (if v = 1 then Inr Truncated else if v = 2 then Inr Full else Inl ARG)"

definition oath_fields_refused :: "CnkOathRequest \<Rightarrow> bool" where
  "oath_fields_refused d \<longleftrightarrow>
     cor_struct_size d < size_of_CnkOathRequest
     \<or> cor_kind d \<notin> {4, 5, 6, 7} \<and> cor_name d \<noteq> null_span
     \<or> cor_kind d \<noteq> 6 \<and> cor_new_name d \<noteq> null_span
     \<or> cor_kind d \<notin> {4, 9} \<and> cor_secret d \<noteq> null_span
     \<or> cor_kind d \<notin> {7, 8, 9} \<and> cor_challenge d \<noteq> null_span
     \<or> cor_kind d \<notin> {4, 7} \<and> (cor_credential_kind d \<noteq> 0 \<or> cor_algorithm d \<noteq> 0)
     \<or> cor_kind d \<noteq> 4 \<and> (cor_digits d \<noteq> 0 \<or> cor_properties d \<noteq> 0 \<or> cor_initial_counter d \<noteq> 0)
     \<or> cor_kind d \<notin> {7, 8} \<and> cor_format d \<noteq> 0"

definition oath_name_of :: "span \<Rightarrow> u32 + Name" where
  "oath_name_of s = bindE (ffi_bytes s) (\<lambda>bs. or_arg (Name_from_bytes bs))"

definition oath_challenge_of :: "span \<Rightarrow> u32 + bytes" where
  "oath_challenge_of s = bindE (ffi_bytes s) (array_of 8)"

definition oath_put :: "CnkOathRequest \<Rightarrow> u32 + Credential" where
  "oath_put d =
     (if cor_properties d AND NOT 3 \<noteq> 0 then Inl ARG
      else
        bindE (oath_name_of (cor_name d)) (\<lambda>name.
        bindE (oath_kind_of (cor_credential_kind d)) (\<lambda>kind.
        bindE (oath_algorithm_of (cor_algorithm d)) (\<lambda>algorithm.
        bindE (u8_of (cor_digits d)) (\<lambda>digits.
        bindE (ffi_bytes (cor_secret d)) (\<lambda>secret.
          Inr \<lparr>cr_name = name, cr_kind = kind, cr_algorithm = algorithm, cr_digits = digits,
               cr_secret = secret, cr_require_touch = (cor_properties d AND 2 \<noteq> 0),
               cr_increasing = (cor_properties d AND 1 \<noteq> 0),
               cr_initial_counter = cor_initial_counter d\<rparr>))))))"

definition oath_request :: "CnkOathRequest \<Rightarrow> u32 + Request" where
  "oath_request d =
     (let kind = cor_kind d in
      if oath_fields_refused d then Inl ARG
      else if kind = 1 then Inr Request.Select
      else if kind = 2 then Inr Request.Validate
      else if kind = 3 then Inr ListNames
      else if kind = 4 then bindE (oath_put d) (\<lambda>c. Inr (Put c))
      else if kind = 5 then bindE (oath_name_of (cor_name d)) (\<lambda>n. Inr (Request.Delete n))
      else if kind = 6 then
        bindE (oath_name_of (cor_name d)) (\<lambda>old.
        bindE (oath_name_of (cor_new_name d)) (\<lambda>new. Inr (Rename old new)))
      else if kind = 7 then
        bindE (oath_name_of (cor_name d)) (\<lambda>name.
        bindE (oath_kind_of (cor_credential_kind d)) (\<lambda>k.
        bindE (oath_algorithm_of (cor_algorithm d)) (\<lambda>algorithm.
        bindE (if cor_challenge d = null_span then Inr None
               else bindE (oath_challenge_of (cor_challenge d)) (\<lambda>c. Inr (Some c))) (\<lambda>challenge.
        bindE (oath_format_of (cor_format d)) (\<lambda>format.
          Inr (Calculate name k algorithm challenge format))))))
      else if kind = 8 then
        bindE (oath_challenge_of (cor_challenge d)) (\<lambda>challenge.
        bindE (oath_format_of (cor_format d)) (\<lambda>format. Inr (CalculateAll challenge format)))
      else if kind = 9 then
        bindE (ffi_bytes (cor_secret d)) (\<lambda>bs.
        bindE (or_arg (AccessKey_from_bytes bs)) (\<lambda>key.
        bindE (oath_challenge_of (cor_challenge d)) (\<lambda>challenge. Inr (SetCode key challenge))))
      else if kind = 10 then Inr ClearCode
      else Inl ARG)"

definition oath_access_of :: "CnkOathRequest \<Rightarrow> Oath_Applet.Access option abi" where
  "oath_access_of d =
     (if cor_access_key d = null_span
      then (if cor_host_challenge d \<noteq> null_span then abi_code (Inl ARG) else abi_code (Inr None))
      else
        abi_bind (abi_code (ffi_bytes (cor_access_key d))) (\<lambda>bs.
        abi_bind (abi_failure (AccessKey_from_bytes bs)) (\<lambda>key.
        abi_bind (abi_code (oath_challenge_of (cor_host_challenge d))) (\<lambda>challenge.
          abi_code (Inr (Some \<lparr>ax_key = key, ax_challenge = challenge\<rparr>))))))"

definition cnk_oath_new ::
  "(bytes \<Rightarrow> bytes \<Rightarrow> bytes) \<Rightarrow> DeviceProfile option \<Rightarrow> CnkOathRequest option \<Rightarrow> CnkOptions option \<Rightarrow> constructor"
where
  "cnk_oath_new hm profile descriptor opts out error = create out error (
     abi_bind (abi_ref descriptor) (\<lambda>d.
     abi_bind (abi_code (oath_request d)) (\<lambda>request.
     abi_bind (oath_access_of d) (\<lambda>access.
     abi_bind (abi_ref profile) (\<lambda>profile.
     abi_bind (abi_code (ffi_options opts)) (\<lambda>options.
     abi_failure (into_inner OathOp (Oath_ops hm) (oath_operation hm profile request access options))))))))"

section \<open>OATH results\<close>

record CnkOathInfo =
  coi_struct_size :: u32
  coi_kind :: u32
  coi_count :: nat
  coi_algorithm_type :: u32
  coi_digits :: u32
  coi_code_kind :: u32
  coi_flags :: u32
  coi_version :: bytes
  coi_reserved :: byte
  coi_handle :: bytes
  coi_challenge :: bytes

definition size_of_CnkOathInfo :: u32 where
  "size_of_CnkOathInfo = 56"

definition empty_oath_info :: "u32 \<Rightarrow> CnkOathInfo" where
  "empty_oath_info n =
     \<lparr>coi_struct_size = n, coi_kind = 0, coi_count = 0, coi_algorithm_type = 0, coi_digits = 0,
      coi_code_kind = 0, coi_flags = 0, coi_version = replicate 3 0, coi_reserved = 0,
      coi_handle = replicate 8 0, coi_challenge = replicate 8 0\<rparr>"

fun code_kind :: "Code \<Rightarrow> u32" where
  "code_kind (TruncatedCode _) = 1"
| "code_kind (FullCode _) = 2"
| "code_kind HotpMarker = 3"
| "code_kind TouchRequired = 4"

fun oath_info :: "u32 \<Rightarrow> nat \<Rightarrow> Outcome \<Rightarrow> u32 + CnkOathInfo" where
  "oath_info n index (SelectionOutcome s) =
     (if index = 0 then Inr ((empty_oath_info n)
        \<lparr>coi_kind := 1, coi_algorithm_type := ucast (unwrap_or (sel_algorithm s) 0),
         coi_flags := of_bool (sel_challenge s \<noteq> None), coi_version := sel_version s,
         coi_handle := sel_handle s, coi_challenge := unwrap_or (sel_challenge s) (replicate 8 0)\<rparr>)
      else Inl ARG)"
| "oath_info n index (LegacySelection serial) =
     (if index = 0 then Inr ((empty_oath_info n)\<lparr>coi_kind := 5, coi_flags := of_bool (serial \<noteq> None)\<rparr>)
      else Inl ARG)"
| "oath_info n index (Entries entries) =
     (let info = (empty_oath_info n)\<lparr>coi_kind := 2, coi_count := length entries\<rparr> in
      case get_at entries index of
        Some e \<Rightarrow> Inr (info\<lparr>coi_algorithm_type := ucast (en_algorithm_type e),
                           coi_digits := ucast (unwrap_or (en_digits e) 0)\<rparr>)
      | None \<Rightarrow> if index \<noteq> 0 \<or> entries \<noteq> [] then Inl ARG else Inr info)"
| "oath_info n index (Calculations codes) =
     (let info = (empty_oath_info n)\<lparr>coi_kind := 3, coi_count := length codes\<rparr> in
      case get_at codes index of
        Some c \<Rightarrow> Inr (info\<lparr>coi_digits := ucast (ca_digits c), coi_flags := of_bool (ca_name c \<noteq> None),
                           coi_code_kind := code_kind (ca_code c)\<rparr>)
      | None \<Rightarrow> if index \<noteq> 0 \<or> codes \<noteq> [] then Inl ARG else Inr info)"
| "oath_info n index Outcome.Unit =
     (if index = 0 then Inr ((empty_oath_info n)\<lparr>coi_kind := 4\<rparr>) else Inl ARG)"
| "oath_info n index _ = Inl ARG"

definition inner_oath :: "Inner \<Rightarrow> u32 + Outcome" where
  "inner_oath inner = (case inner of OathOp p \<Rightarrow> of_result p Inr | _ \<Rightarrow> Inl TYPE_CODE)"

definition cnk_operation_oath_info ::
  "CnkOperation option \<Rightarrow> nat \<Rightarrow> CnkOathInfo option \<Rightarrow> CnkOathInfo option \<times> u32" where
  "cnk_operation_oath_info op index out =
     write_pod coi_struct_size size_of_CnkOathInfo out (\<lambda>pod.
       bindE (of_handle op inner_oath) (oath_info (coi_struct_size pod) index))"

fun code_bytes :: "Code \<Rightarrow> u32 + bytes" where
  "code_bytes (TruncatedCode b) = Inr b"
| "code_bytes (FullCode b) = Inr b"
| "code_bytes _ = Inl TYPE_CODE"

definition calculation_field :: "Calculation \<Rightarrow> u32 \<Rightarrow> u32 + bytes" where
  "calculation_field c field =
     (if field = 2 then ok_or (ca_name c) TYPE_CODE
      else if field = 3 then code_bytes (ca_code c)
      else if field = 4 then ok_or (Calculation_decimal c) TYPE_CODE
      else Inl TYPE_CODE)"

fun oath_copy_field :: "nat \<Rightarrow> u32 \<Rightarrow> Outcome \<Rightarrow> u32 + bytes" where
  "oath_copy_field index field (SelectionOutcome s) =
     (if index = 0 \<and> field = 1 then Inr (sel_raw s) else Inl TYPE_CODE)"
| "oath_copy_field index field (LegacySelection serial) =
     (if index = 0 \<and> field = 1 then Inr []
      else if index = 0 \<and> field = 5 then ok_or serial TYPE_CODE
      else Inl TYPE_CODE)"
| "oath_copy_field index field (Entries entries) =
     (if field = 2 then bindE (ok_or (get_at entries index) ARG) (\<lambda>e. Inr (en_name e)) else Inl TYPE_CODE)"
| "oath_copy_field index field (Calculations codes) =
     bindE (ok_or (get_at codes index) ARG) (\<lambda>c. calculation_field c field)"
| "oath_copy_field index field _ = Inl TYPE_CODE"

definition cnk_operation_oath_copy ::
  "CnkOperation option \<Rightarrow> nat \<Rightarrow> u32 \<Rightarrow> bytes option \<Rightarrow> nat option \<Rightarrow> bytes option \<times> nat option \<times> u32" where
  "cnk_operation_oath_copy op index field buffer len =
     copy_or (bindE (of_handle op inner_oath) (oath_copy_field index field)) buffer len"

section \<open>Admin requests\<close>

text \<open>
  The keymap fields were appended to the structure later; they are read only when the declared size
  covers them.
\<close>

record CnkAdminRequest =
  car_struct_size :: u32
  car_kind :: u32
  car_pin :: span
  car_data :: span
  car_present :: u32
  car_values :: u32
  car_feature_mask :: byte
  car_feature_values :: byte
  car_reserved :: bytes
  car_curve_id :: "32 word"
  car_algorithm_id :: "32 word"
  car_layout_id :: byte
  car_keymap :: span

definition LEGACY_SIZE :: u32 where
  "LEGACY_SIZE = 60"

definition FULL_SIZE :: u32 where
  "FULL_SIZE = 80"

definition admin_fields_refused :: "CnkAdminRequest \<Rightarrow> bool" where
  "admin_fields_refused d \<longleftrightarrow>
     car_struct_size d < LEGACY_SIZE
     \<or> car_reserved d \<noteq> [0, 0]
     \<or> car_kind d \<notin> {12, 24, 30} \<and> car_data d \<noteq> null_span
     \<or> car_kind d \<noteq> 13 \<and> (car_feature_mask d \<noteq> 0 \<or> car_feature_values d \<noteq> 0)
     \<or> car_kind d \<noteq> 17 \<and> (car_curve_id d \<noteq> 0 \<or> car_algorithm_id d \<noteq> 0)
     \<or> car_kind d \<notin> {13, 17, 23} \<and> car_present d \<noteq> 0
     \<or> car_kind d \<notin> {13, 15, 18, 20, 21, 22, 23} \<and> car_values d \<noteq> 0"

definition keymap_fields_refused :: "CnkAdminRequest \<Rightarrow> bool" where
  "keymap_fields_refused d \<longleftrightarrow>
     (let has_keymap_fields = car_struct_size d \<ge> FULL_SIZE in
      car_kind d = 27 \<and> \<not> has_keymap_fields
      \<or> car_kind d \<noteq> 27 \<and> has_keymap_fields \<and> (car_layout_id d \<noteq> 0 \<or> car_keymap d \<noteq> null_span))"

definition patch_flag :: "CnkAdminRequest \<Rightarrow> u32 \<Rightarrow> bool option" where
  "patch_flag d b = (if car_present d AND b \<noteq> 0 then Some (car_values d AND b \<noteq> 0) else None)"

definition admin_configure :: "CnkAdminRequest \<Rightarrow> u32 + AdminRequest" where
  "admin_configure d =
     (if car_present d AND NOT 15 \<noteq> 0 \<or> car_values d AND NOT (car_present d) \<noteq> 0 then Inl ARG
      else Inr (Configure
        \<lparr>cp_led_on = patch_flag d 1, cp_ndef_read_only = patch_flag d 2, cp_ndef_enabled = patch_flag d 4,
         cp_webusb_landing = patch_flag d 8, cp_feature_mask = car_feature_mask d,
         cp_feature_values = car_feature_values d\<rparr>))"

definition admin_sm2 :: "CnkAdminRequest \<Rightarrow> u32 + AdminRequest" where
  "admin_sm2 d =
     (if car_present d AND NOT 3 \<noteq> 0
         \<or> car_present d AND 1 = 0 \<and> car_curve_id d \<noteq> 0
         \<or> car_present d AND 2 = 0 \<and> car_algorithm_id d \<noteq> 0 then Inl ARG
      else Inr (ConfigureSm2
        \<lparr>sp_curve_id = (if car_present d AND 1 \<noteq> 0 then Some (car_curve_id d) else None),
         sp_algorithm_id = (if car_present d AND 2 \<noteq> 0 then Some (car_algorithm_id d) else None)\<rparr>))"

definition applet_of :: "u32 \<Rightarrow> u32 + AppletId" where
  "applet_of v =
     (if v = 1 then Inr AppletOpenPgp else if v = 2 then Inr AppletPiv else if v = 3 then Inr AppletOath
      else if v = 4 then Inr AppletNdef else if v = 5 then Inr AppletCtap
      else if v = 6 then Inr AppletPass else Inl ARG)"

definition legacy_touch_of :: "u32 \<Rightarrow> u32 \<Rightarrow> u32 + LegacyOpenPgpTouch" where
  "legacy_touch_of present v =
     (if present = 0 \<and> v \<le> 1 then Inr (SignatureTouch (v \<noteq> 0))
      else if present = 1 \<and> v \<le> 1 then Inr (DecryptionTouch (v \<noteq> 0))
      else if present = 2 \<and> v \<le> 1 then Inr (AuthenticationTouch (v \<noteq> 0))
      else if present = 3 \<and> v \<le> 255 then Inr (CacheSeconds (ucast v))
      else Inl ARG)"

definition admin_request :: "CnkAdminRequest \<Rightarrow> u32 + AdminRequest" where
  "admin_request d =
     (let kind = car_kind d; v = car_values d in
      if admin_fields_refused d then Inl ARG
      else if keymap_fields_refused d then Inl ARG
      else if kind = 1 then Inr Firmware
      else if kind = 2 then Inr Model
      else if kind = 3 then Inr SerialNumber
      else if kind = 4 then Inr ChipId
      else if kind = 5 then Inr CoreCommit
      else if kind = 6 then Inr ReadConfiguration
      else if kind = 7 then Inr ReadFlashUsage
      else if kind = 8 then Inr ReadAppletUsage
      else if kind = 9 then Inr ReadPinStatus
      else if kind = 10 then Inr AdminRequest.VerifyPin
      else if kind = 12 then
        bindE (ffi_bytes (car_data d)) (\<lambda>bs. bindE (or_arg (Pin_from_bytes bs)) (\<lambda>p. Inr (AdminRequest.ChangePin p)))
      else if kind = 13 then admin_configure d
      else if kind = 14 then Inr ReadNfcStatus
      else if kind = 15 \<and> v \<le> 1 then Inr (SetNfc (v \<noteq> 0))
      else if kind = 16 then Inr ReadSm2Configuration
      else if kind = 17 then admin_sm2 d
      else if kind = 18 then bindE (applet_of v) (\<lambda>a. Inr (ResetApplet a))
      else if kind = 19 then Inr FactoryReset
      else if kind = 20 \<and> v \<le> 1 then Inr (SetKeyboardInterface (v \<noteq> 0))
      else if kind = 21 \<and> v \<le> 1 then Inr (SetKeyboardReturn (v \<noteq> 0))
      else if kind = 22 \<and> v \<le> 1 then Inr (SetLegacyPivExtensions (v \<noteq> 0))
      else if kind = 23 then bindE (legacy_touch_of (car_present d) v) (\<lambda>t. Inr (SetLegacyOpenPgpTouch t))
      else if kind = 24 then
        bindE (ffi_bytes (car_data d)) (\<lambda>bs.
        bindE (or_arg (LegacySm2Configuration_from_bytes bs)) (\<lambda>c. Inr (WriteLegacySm2 c)))
      else if kind = 25 then Inr AdminRequest.KeyboardLayout
      else if kind = 26 then Inr ReadKeyboardKeymap
      else if kind = 27 then
        bindE (ffi_bytes (car_keymap d)) (\<lambda>bs.
        bindE (or_arg (KeyboardKeymap_from_bytes bs)) (\<lambda>m. Inr (SetKeyboardKeymap (car_layout_id d) m)))
      else if kind = 28 then Inr ClearKeyboardKeymap
      else if kind = 29 then Inr PassConfiguration
      else if kind = 30 then bindE (ffi_bytes (car_data d)) (\<lambda>bs. Inr (SetPassConfiguration bs))
      else if kind = 31 then Inr ReadPassSlots
      else Inl ARG)"

definition admin_pin_of :: "span \<Rightarrow> bytes option abi" where
  "admin_pin_of pin =
     (if pin = null_span then abi_code (Inr None)
      else abi_bind (abi_code (ffi_bytes pin)) (\<lambda>bs.
           abi_bind (abi_failure (Pin_from_bytes bs)) (\<lambda>p. abi_code (Inr (Some p)))))"

definition cnk_admin_new ::
  "DeviceProfile option \<Rightarrow> CnkAdminRequest option \<Rightarrow> CnkOptions option \<Rightarrow> constructor" where
  "cnk_admin_new profile descriptor opts out error = create out error (
     abi_bind (abi_ref descriptor) (\<lambda>d.
     abi_bind (abi_code (admin_request d)) (\<lambda>request.
     abi_bind (admin_pin_of (car_pin d)) (\<lambda>pin.
     abi_bind (abi_ref profile) (\<lambda>profile.
     abi_bind (abi_code (ffi_options opts)) (\<lambda>options.
     abi_failure (into_inner AdminOp Admin_ops (admin_operation profile request pin options))))))))"

section \<open>Admin results\<close>

record CnkAdminOutcome =
  cao_struct_size :: u32
  cao_value_kind :: u32
  cao_confirmed_writes :: nat
  cao_reprobe_required :: u32
  cao_flags :: u32
  cao_retries_remaining :: u32
  cao_used_kib :: u32
  cao_total_kib :: u32
  cao_curve_id :: "32 word"
  cao_algorithm_id :: "32 word"

definition size_of_CnkAdminOutcome :: u32 where
  "size_of_CnkAdminOutcome = 48"

definition legacy_sm2_enabled :: "bytes \<Rightarrow> bool" where
  "legacy_sm2_enabled c \<longleftrightarrow> c ! 0 \<noteq> 0"

fun outcome_value :: "AdminValue \<Rightarrow> CnkAdminOutcome \<Rightarrow> CnkAdminOutcome" where
  "outcome_value NoValue pod = pod\<lparr>cao_value_kind := 0\<rparr>"
| "outcome_value (BytesValue _) pod = pod\<lparr>cao_value_kind := 1\<rparr>"
| "outcome_value (ConfigurationValue _) pod = pod\<lparr>cao_value_kind := 2\<rparr>"
| "outcome_value (LegacyConfigurationValue _) pod = pod\<lparr>cao_value_kind := 8\<rparr>"
| "outcome_value (LegacySm2Value c) pod = pod\<lparr>cao_flags := of_bool (legacy_sm2_enabled c), cao_value_kind := 9\<rparr>"
| "outcome_value (FlashUsageValue f) pod =
     pod\<lparr>cao_used_kib := ucast (fu_used_kib f), cao_total_kib := ucast (fu_total_kib f), cao_value_kind := 3\<rparr>"
| "outcome_value (AppletUsageValue _) pod = pod\<lparr>cao_value_kind := 4\<rparr>"
| "outcome_value (KeyboardLayoutValue _) pod = pod\<lparr>cao_value_kind := 1\<rparr>"
| "outcome_value (KeyboardKeymapValue _) pod = pod\<lparr>cao_value_kind := 1\<rparr>"
| "outcome_value (PinStatusValue s) pod =
     pod\<lparr>cao_flags := of_bool (pn_verified s) OR push_bit 1 (of_bool (pn_blocked s))
                      OR push_bit 2 (of_bool (pn_retries_remaining s \<noteq> None)),
         cao_retries_remaining := ucast (unwrap_or (pn_retries_remaining s) 0), cao_value_kind := 5\<rparr>"
| "outcome_value (NfcStatusValue b) pod = pod\<lparr>cao_flags := of_bool b, cao_value_kind := 6\<rparr>"
| "outcome_value (Sm2Value s) pod =
     pod\<lparr>cao_curve_id := sm_curve_id s, cao_algorithm_id := sm_algorithm_id s, cao_value_kind := 7\<rparr>"
| "outcome_value (PassSlotsValue _) pod = pod\<lparr>cao_value_kind := 10\<rparr>"

definition admin_outcome_pod :: "u32 \<Rightarrow> AdminOutcome \<Rightarrow> CnkAdminOutcome" where
  "admin_outcome_pod n v =
     outcome_value (oc_value v)
       \<lparr>cao_struct_size = n, cao_value_kind = 0, cao_confirmed_writes = oc_confirmed_writes v,
        cao_reprobe_required = of_bool (oc_reprobe_required v), cao_flags = 0, cao_retries_remaining = 0,
        cao_used_kib = 0, cao_total_kib = 0, cao_curve_id = 0, cao_algorithm_id = 0\<rparr>"

text \<open>\<open>p.result().ok().or_else(|| p.progress())\<close>: the confirmed part of a failed operation is readable too.\<close>

definition inner_admin :: "Inner \<Rightarrow> u32 + AdminOutcome" where
  "inner_admin inner =
     (case inner of
        AdminOp p \<Rightarrow>
          (case Operation_result p of
             Inr v \<Rightarrow> Inr v
           | Inl _ \<Rightarrow> ok_or (Operation_progress Boxed_ops p) STATE)
      | _ \<Rightarrow> Inl TYPE_CODE)"

definition cnk_operation_admin_outcome ::
  "CnkOperation option \<Rightarrow> CnkAdminOutcome option \<Rightarrow> CnkAdminOutcome option \<times> u32" where
  "cnk_operation_admin_outcome op out =
     write_pod cao_struct_size size_of_CnkAdminOutcome out (\<lambda>pod.
       bindE (of_handle op inner_admin) (\<lambda>v. Inr (admin_outcome_pod (cao_struct_size pod) v)))"

section \<open>OpenPGP requests\<close>

record CnkOpenPgpAccess =
  cpa_struct_size :: u32
  cpa_reference :: u32
  cpa_password :: span

definition size_of_CnkOpenPgpAccess :: u32 where
  "size_of_CnkOpenPgpAccess = 24"

record CnkOpenPgpRequest =
  cpr_struct_size :: u32
  cpr_kind :: u32
  cpr_slot :: u32
  cpr_reference :: u32
  cpr_tag :: u32
  cpr_algorithm :: u32
  cpr_value :: u32
  cpr_data :: span
  cpr_new_password :: span
  cpr_components :: "span list option"
  cpr_component_count :: nat

definition size_of_CnkOpenPgpRequest :: u32 where
  "size_of_CnkOpenPgpRequest = 80"

definition pgp_reference_of :: "u32 \<Rightarrow> u32 + PasswordReference" where
  "pgp_reference_of r =
     (if r = 0x81 then Inr PasswordReference.Pw1Sign else if r = 0x82 then Inr PasswordReference.Pw1Other
      else if r = 0x83 then Inr PasswordReference.Pw3 else Inl ARG)"

definition pgp_slot_of :: "u32 \<Rightarrow> u32 + PgpSlot" where
  "pgp_slot_of s =
     (if s = 1 then Inr SignatureSlot else if s = 2 then Inr DecryptionSlot
      else if s = 3 then Inr AuthenticationSlot else Inl ARG)"

definition pgp_password_of :: "span \<Rightarrow> u32 + Password" where
  "pgp_password_of s = bindE (ffi_bytes s) (\<lambda>bs. or_arg (Password_from_bytes bs))"

definition data_write_refused :: "CnkOpenPgpRequest \<Rightarrow> bool" where
  "data_write_refused d \<longleftrightarrow>
     cpr_tag d \<notin> {8, 10, 11, 12, 13} \<and> cpr_slot d \<noteq> 0
     \<or> cpr_tag d \<noteq> 10 \<and> cpr_algorithm d \<noteq> 0
     \<or> cpr_tag d \<notin> {4, 7, 8, 9, 13} \<and> cpr_value d \<noteq> 0
     \<or> cpr_tag d \<in> {4, 7, 8, 9, 10, 13} \<and> cpr_data d \<noteq> null_span"

definition pgp_touch_of :: "u32 \<Rightarrow> u32 + PgpTouchPolicy" where
  "pgp_touch_of v =
     (if v = 0 then Inr TouchOff else if v = 1 then Inr TouchOn else if v = 2 then Inr TouchPermanent else Inl ARG)"

definition pgp_data_write :: "CnkOpenPgpRequest \<Rightarrow> u32 + DataWrite" where
  "pgp_data_write d =
     (let tag = cpr_tag d; slot = pgp_slot_of (cpr_slot d); bs = ffi_bytes (cpr_data d) in
      if data_write_refused d then Inl ARG
      else if tag = 1 then bindE bs (\<lambda>b. Inr (WriteName b))
      else if tag = 2 then bindE bs (\<lambda>b. Inr (WriteLogin b))
      else if tag = 3 then bindE bs (\<lambda>b. Inr (WriteLanguage b))
      else if tag = 4 then bindE (u8_of (cpr_value d)) (\<lambda>v. Inr (WriteSex v))
      else if tag = 5 then bindE bs (\<lambda>b. Inr (WriteUrl b))
      else if tag = 6 then
        (if snd (cpr_data d) = 0 then Inr (WriteResetCode None)
         else bindE (pgp_password_of (cpr_data d)) (\<lambda>p. Inr (WriteResetCode (Some p))))
      else if tag = 7 \<and> cpr_value d \<le> 1 then Inr (WriteReuseSignaturePin (cpr_value d \<noteq> 0))
      else if tag = 8 then
        bindE slot (\<lambda>s. bindE (pgp_touch_of (cpr_value d)) (\<lambda>t. Inr (WriteTouchPolicy s t)))
      else if tag = 9 then bindE (u8_of (cpr_value d)) (\<lambda>v. Inr (WriteTouchCacheTime v))
      else if tag = 10 then
        bindE slot (\<lambda>s. bindE (algorithm_of_code (cpr_algorithm d)) (\<lambda>a. Inr (WriteAlgorithm s a)))
      else if tag = 11 then bindE slot (\<lambda>s. bindE (bindE bs (array_of 20)) (\<lambda>f. Inr (WriteFingerprint s f)))
      else if tag = 12 then bindE slot (\<lambda>s. bindE (bindE bs (array_of 20)) (\<lambda>f. Inr (WriteCaFingerprint s f)))
      else if tag = 13 then bindE slot (\<lambda>s. Inr (WriteGenerationTime s (cpr_value d)))
      else Inl ARG)"

definition pgp_fields_refused :: "CnkOpenPgpRequest \<Rightarrow> bool" where
  "pgp_fields_refused d \<longleftrightarrow>
     cpr_struct_size d < size_of_CnkOpenPgpRequest
     \<or> cpr_kind d \<notin> {2, 3, 11, 12, 13, 14} \<and> cpr_slot d \<noteq> 0
     \<or> cpr_kind d \<notin> {4, 6, 7} \<and> cpr_reference d \<noteq> 0
     \<or> cpr_kind d \<notin> {1, 11} \<and> cpr_tag d \<noteq> 0
     \<or> cpr_kind d \<notin> {11, 14, 15, 16, 17, 18} \<and> cpr_algorithm d \<noteq> 0
     \<or> cpr_kind d \<noteq> 11 \<and> cpr_value d \<noteq> 0
     \<or> cpr_kind d \<notin> {3, 7, 8, 9, 10, 11, 15, 16, 17, 18} \<and> cpr_data d \<noteq> null_span
     \<or> cpr_kind d \<notin> {7, 9} \<and> cpr_new_password d \<noteq> null_span
     \<or> cpr_kind d \<noteq> 14 \<and> (cpr_components d \<noteq> None \<or> cpr_component_count d \<noteq> 0)"

definition pgp_private_key :: "bool \<Rightarrow> span list \<Rightarrow> u32 + PgpPrivateKey" where
  "pgp_private_key rsa parts =
     (if rsa then
        bindE (bindE (ffi_bytes (parts ! 0)) (array_of 4)) (\<lambda>exponent.
        bindE (ffi_bytes (parts ! 1)) (\<lambda>p.
        bindE (ffi_bytes (parts ! 2)) (\<lambda>q.
        bindE (ffi_bytes (parts ! 3)) (\<lambda>q_inverse.
        bindE (ffi_bytes (parts ! 4)) (\<lambda>d_p.
        bindE (ffi_bytes (parts ! 5)) (\<lambda>d_q.
          Inr (RsaComponents exponent p q q_inverse d_p d_q)))))))
      else bindE (ffi_bytes (parts ! 0)) (\<lambda>b. Inr (EcScalar b)))"

definition pgp_import :: "CnkOpenPgpRequest \<Rightarrow> u32 + PgpRequest" where
  "pgp_import d =
     bindE (algorithm_of_code (cpr_algorithm d)) (\<lambda>algorithm.
       let rsa = algorithm \<in> {Rsa2048, Rsa3072, Rsa4096} in
       case cpr_components d of
         None \<Rightarrow> Inl ARG
       | Some components \<Rightarrow>
           if cpr_component_count d \<noteq> (if rsa then 6 else 1) then Inl ARG
           else
             (let parts = take (cpr_component_count d) components in
              if list_ex (\<lambda>p. snd p > 256) parts then Inl ARG
              else
                bindE (pgp_private_key rsa parts) (\<lambda>key.
                bindE (pgp_slot_of (cpr_slot d)) (\<lambda>slot.
                  Inr (PgpRequest.ImportKey slot algorithm key)))))"

definition pgp_request :: "CnkOpenPgpRequest \<Rightarrow> u32 + PgpRequest" where
  "pgp_request d =
     (let kind = cpr_kind d; slot = pgp_slot_of (cpr_slot d); bs = ffi_bytes (cpr_data d);
          ref = pgp_reference_of (cpr_reference d); algorithm = algorithm_of_code (cpr_algorithm d) in
      if pgp_fields_refused d then Inl ARG
      else if kind = 1 then bindE (u16_of (cpr_tag d)) (\<lambda>t. Inr (ReadData t))
      else if kind = 2 then bindE slot (\<lambda>s. Inr (PgpRequest.ReadCertificate s))
      else if kind = 3 then bindE slot (\<lambda>s. bindE bs (\<lambda>b. Inr (PgpRequest.WriteCertificate s b)))
      else if kind = 4 then bindE ref (\<lambda>r. Inr (PgpRequest.PinStatus r))
      else if kind = 5 then Inr Verify
      else if kind = 6 then bindE ref (\<lambda>r. Inr (PgpRequest.Logout r))
      else if kind = 7 then
        bindE ref (\<lambda>r.
        bindE (pgp_password_of (cpr_data d)) (\<lambda>old.
        bindE (pgp_password_of (cpr_new_password d)) (\<lambda>new. Inr (ChangePassword r old new))))
      else if kind = 8 then bindE (pgp_password_of (cpr_data d)) (\<lambda>p. Inr (UnblockWithAdmin p))
      else if kind = 9 then
        bindE (pgp_password_of (cpr_data d)) (\<lambda>code.
        bindE (pgp_password_of (cpr_new_password d)) (\<lambda>new. Inr (UnblockWithCode code new)))
      else if kind = 10 then bindE (bindE bs (array_of 3)) (\<lambda>b. Inr (ResetRetries b))
      else if kind = 11 then bindE (pgp_data_write d) (\<lambda>w. Inr (WriteData w))
      else if kind = 12 then bindE slot (\<lambda>s. Inr (ReadPublicKey s))
      else if kind = 13 then bindE slot (\<lambda>s. Inr (PgpRequest.GenerateKey s))
      else if kind = 14 then pgp_import d
      else if kind = 15 then bindE algorithm (\<lambda>a. bindE bs (\<lambda>b. Inr (SignRequest a b)))
      else if kind = 16 then bindE algorithm (\<lambda>a. bindE bs (\<lambda>b. Inr (AuthenticateRequest a b)))
      else if kind = 17 then bindE algorithm (\<lambda>a. bindE bs (\<lambda>b. Inr (DecryptRequest a b)))
      else if kind = 18 then bindE algorithm (\<lambda>a. bindE bs (\<lambda>b. Inr (DeriveRequest a b)))
      else if kind = 19 then Inr Terminate
      else if kind = 20 then Inr Activate
      else Inl ARG)"

definition pgp_access_of :: "CnkOpenPgpAccess option \<Rightarrow> u32 + PgpAccess option" where
  "pgp_access_of auth =
     (case auth of
        None \<Rightarrow> Inr None
      | Some a \<Rightarrow>
          if cpa_struct_size a < size_of_CnkOpenPgpAccess then Inl ARG
          else
            bindE (pgp_reference_of (cpa_reference a)) (\<lambda>r.
            bindE (pgp_password_of (cpa_password a)) (\<lambda>p.
              Inr (Some \<lparr>pa_reference = r, pa_password = p\<rparr>))))"

definition cnk_openpgp_new ::
  "DeviceProfile option \<Rightarrow> CnkOpenPgpRequest option \<Rightarrow> CnkOpenPgpAccess option \<Rightarrow> CnkOptions option \<Rightarrow> constructor"
where
  "cnk_openpgp_new profile descriptor auth opts out error = create out error (
     abi_bind (abi_ref descriptor) (\<lambda>d.
     abi_bind (abi_code (pgp_request d)) (\<lambda>request.
     abi_bind (abi_code (pgp_access_of auth)) (\<lambda>access.
     abi_bind (abi_ref profile) (\<lambda>profile.
     abi_bind (abi_code (ffi_options opts)) (\<lambda>options.
     abi_failure (into_inner OpenPgpOp OpenPgp_ops (pgp_operation profile request access options))))))))"

fun pgp_outcome_code :: "PgpOutcome \<Rightarrow> u32" where
  "pgp_outcome_code (PgpBytes _) = 1"
| "pgp_outcome_code PgpUnit = 2"
| "pgp_outcome_code (PgpPin _) = 3"
| "pgp_outcome_code (PgpKey _) = 4"
| "pgp_outcome_code (PgpSignature _ _) = 5"

definition inner_pgp :: "Inner \<Rightarrow> u32 + PgpOutcome" where
  "inner_pgp inner = (case inner of OpenPgpOp p \<Rightarrow> of_result p Inr | _ \<Rightarrow> Inl TYPE_CODE)"

definition cnk_operation_openpgp_kind :: "CnkOperation option \<Rightarrow> u32 option \<Rightarrow> u32 option \<times> u32" where
  "cnk_operation_openpgp_kind op out =
     write_scalar out (bindE (of_handle op inner_pgp) (\<lambda>v. Inr (pgp_outcome_code v)))"

end
