(* ===== verification/C_Descriptors.thy ===== *)
theory C_Descriptors
  imports C_Batch C_Applets
begin

text \<open>
  The caller's side of the C interface: encoders that fill a descriptor for a request the way the
  header \<open>canokey.h\<close> says, with the codes of its enumerations and zero in unused fields, and the
  theorems that the decoders of \<open>C_Piv\<close>, \<open>C_Batch\<close> and \<open>C_Applets\<close> give the request back.
\<close>

section \<open>Computations of constructors\<close>

named_theorems abi_simps \<open>evaluation of constructor bodies\<close>

lemma abi_code_apply [abi_simps]: "abi_code r error = (error, r)"
  by (simp add: abi_code_def)

lemma abi_failure_Inr [abi_simps]: "abi_failure (Inr v) error = (error, Inr v)"
  by (simp add: abi_failure_def)

lemma abi_failure_Inl [abi_simps]:
  "abi_failure (Inl e) error = (map_option (write_error e) error, Inl (failure_code (e_kind e)))"
  by (simp add: abi_failure_def failure_def)

lemma abi_bind_Inr [abi_simps]: "x error = (error', Inr v) \<Longrightarrow> abi_bind x f error = f v error'"
  by (simp add: abi_bind_def)

lemma abi_bind_Inl [abi_simps]: "x error = (error', Inl c) \<Longrightarrow> abi_bind x f error = (error', Inl c)"
  by (simp add: abi_bind_def)

lemma abi_ref_apply [abi_simps]: "abi_ref p error = (error, ok_or p ARG)"
  by (simp add: abi_ref_def abi_code_apply)

lemma abi_map_Inr [abi_simps]: "x error = (error', Inr v) \<Longrightarrow> abi_map f x error = (error', Inr (f v))"
  by (simp add: abi_map_def abi_simps)

lemma abi_pair_Inr [abi_simps]:
  "x error = (error', Inr v) \<Longrightarrow> y error' = (error'', Inr w) \<Longrightarrow> abi_pair x y error = (error'', Inr (v, w))"
  by (simp add: abi_pair_def abi_simps)

text \<open>A computation that always gives the same value and leaves the error POD alone.\<close>

definition gives :: "'a abi \<Rightarrow> 'a \<Rightarrow> bool" where
  "gives x v \<longleftrightarrow> (\<forall>error. x error = (error, Inr v))"

lemma gives_code: "r = Inr v \<Longrightarrow> gives (abi_code r) v"
  by (simp add: gives_def abi_simps)

lemma gives_failure: "r = Inr v \<Longrightarrow> gives (abi_failure r) v"
  by (simp add: gives_def abi_simps)

lemma gives_ref: "gives (abi_ref (Some v)) v"
  by (simp add: gives_def abi_simps)

lemma gives_bind: "gives x v \<Longrightarrow> gives (f v) w \<Longrightarrow> gives (abi_bind x f) w"
  by (simp add: gives_def abi_simps)

lemma gives_map: "gives x v \<Longrightarrow> gives (abi_map f x) (f v)"
  by (simp add: gives_def abi_simps)

lemma gives_pair: "gives x v \<Longrightarrow> gives y w \<Longrightarrow> gives (abi_pair x y) (v, w)"
  by (simp add: gives_def abi_simps)

lemmas gives_intros = gives_code gives_failure gives_ref gives_bind gives_map gives_pair

section \<open>Credentials and access\<close>

definition span_of :: "bytes \<Rightarrow> span" where
  "span_of bs = (Some bs, length bs)"

lemma span_of_simps [simp]: "snd (span_of bs) = length bs" "span_of bs \<noteq> null_span"
  by (simp_all add: span_of_def)

lemma ffi_bytes_span_of: "length bs \<le> isize_max \<Longrightarrow> ffi_bytes (span_of bs) = Inr bs"
  by (simp add: span_of_def)

lemma small_length: "n \<le> 256 \<Longrightarrow> n \<le> isize_max"
  by (simp add: isize_max_def)

fun management_algorithm_code :: "ManagementKeyAlgorithm \<Rightarrow> u32" where
  "management_algorithm_code Tdes = 1"
| "management_algorithm_code Aes192 = 2"

definition encode_management :: "ManagementAuthentication \<Rightarrow> CnkManagement" where
  "encode_management auth =
     \<lparr>mn_struct_size = size_of_CnkManagement,
      mn_algorithm = management_algorithm_code (mk_algorithm (ma_key auth)),
      mn_mode = (case ma_mode auth of External \<Rightarrow> 1 | Mutual _ \<Rightarrow> 2),
      mn_key = span_of (mk_bytes (ma_key auth)),
      mn_challenge = (case ma_mode auth of External \<Rightarrow> null_span | Mutual c \<Rightarrow> span_of c)\<rparr>"

definition management_ok :: "ManagementAuthentication \<Rightarrow> bool" where
  "management_ok auth \<longleftrightarrow>
     length (mk_bytes (ma_key auth)) = 24
     \<and> (case ma_mode auth of External \<Rightarrow> True | Mutual c \<Rightarrow> length c = block_len (mk_algorithm (ma_key auth)))"

lemma management_algorithm_inverse: "management_algorithm (management_algorithm_code a) = Inr a"
  by (cases a) (simp_all add: management_algorithm_def)

lemma management_decoded:
  assumes "management_ok auth"
  shows "gives (ffi_management (Some (encode_management auth))) auth"
proof -
  obtain key mode where auth: "auth = \<lparr>ma_key = key, ma_mode = mode\<rparr>" by (cases auth)
  have key: "length (mk_bytes key) = 24" "\<lparr>mk_algorithm = mk_algorithm key, mk_bytes = mk_bytes key\<rparr> = key"
    using assms by (simp_all add: management_ok_def auth)
  have bs: "ffi_bytes (span_of (mk_bytes key)) = Inr (mk_bytes key)"
    using key(1) by (simp add: ffi_bytes_span_of small_length)
  have challenge: "ffi_bytes (span_of c) = Inr c" if "mode = Mutual c" for c
    using assms that
    by (cases "mk_algorithm key") (simp_all add: management_ok_def auth ffi_bytes_span_of small_length)
  show ?thesis
    using key bs challenge assms
    by (cases mode)
       (simp_all add: gives_def ffi_management_def encode_management_def abi_simps auth
        management_algorithm_inverse ManagementKey_from_bytes_def ManagementAuthentication_external_def
        ManagementAuthentication_mutual_def management_ok_def)
qed

definition pin_ok :: "Pin \<Rightarrow> bool" where
  "pin_ok pin \<longleftrightarrow> 6 \<le> length pin \<and> length pin \<le> 8 \<and> 0xff \<notin> set pin"

lemma pin_ok_secret: "pin_ok pin \<Longrightarrow> piv_secret pin = Inr pin"
  by (simp add: pin_ok_def piv_secret_def)

fun encode_access :: "Piv_Core.Access \<Rightarrow> CnkPivAccess option" where
  "encode_access Existing = None"
| "encode_access Piv_Core.NoAccess = None"
| "encode_access (Piv_Core.PinAccess pin) =
     Some \<lparr>ac_struct_size = size_of_CnkPivAccess, ac_pin = span_of pin, ac_management = None\<rparr>"
| "encode_access (Management auth) =
     Some \<lparr>ac_struct_size = size_of_CnkPivAccess, ac_pin = null_span,
           ac_management = Some (encode_management auth)\<rparr>"
| "encode_access (PinAndManagement pin auth) =
     Some \<lparr>ac_struct_size = size_of_CnkPivAccess, ac_pin = span_of pin,
           ac_management = Some (encode_management auth)\<rparr>"

fun access_ok :: "Piv_Core.Access \<Rightarrow> bool" where
  "access_ok Existing = True"
| "access_ok Piv_Core.NoAccess = True"
| "access_ok (Piv_Core.PinAccess pin) = pin_ok pin"
| "access_ok (Management auth) = management_ok auth"
| "access_ok (PinAndManagement pin auth) = (pin_ok pin \<and> management_ok auth)"

lemma optional_pin_decoded: "pin_ok pin \<Longrightarrow> gives (ffi_optional_pin (span_of pin)) (Some pin)"
  by (simp add: ffi_optional_pin_def gives_def abi_simps pin_ok_secret ffi_bytes_span_of pin_ok_def small_length)

lemma no_pin_decoded: "gives (ffi_optional_pin null_span) None"
  by (simp add: ffi_optional_pin_def gives_def abi_simps)

lemma access_decoded:
  assumes "access_ok a" "a \<noteq> Existing"
  shows "gives (ffi_access (encode_access a)) a"
proof (cases a)
  case (PinAndManagement pin auth)
  then show ?thesis
    using assms management_decoded [of auth] optional_pin_decoded [of pin]
    by (simp add: ffi_access_def gives_def abi_simps)
next
  case (Management auth)
  then show ?thesis
    using assms management_decoded [of auth] no_pin_decoded by (simp add: ffi_access_def gives_def abi_simps)
next
  case (PinAccess pin)
  then show ?thesis
    using assms optional_pin_decoded [of pin] by (simp add: ffi_access_def gives_def abi_simps)
qed (use assms in \<open>simp_all add: ffi_access_def gives_def abi_simps\<close>)

lemma ffi_access_not_existing: "ffi_access p error = (error', Inr b) \<Longrightarrow> b \<noteq> Existing"
  by (auto simp: ffi_access_def abi_bind_def abi_code_def split: option.splits if_splits prod.splits sum.splits
      elim!: access_of.elims)

section \<open>Codes of the header\<close>

definition slot_code :: "Slot \<Rightarrow> u32" where
  "slot_code s = ucast (Slot_reference s)"

lemma retired_cases:
  fixes n :: byte
  assumes "1 \<le> n" "n \<le> 20"
  shows "n \<in> {1, 2, 3, 4, 5, 6, 7, 8, 9, 10, 11, 12, 13, 14, 15, 16, 17, 18, 19, 20}"
proof -
  have n: "n = word_of_nat (unat n)" by simp
  have "1 \<le> unat n" "unat n \<le> 20" using assms by (simp_all add: word_le_nat_alt)
  then have "unat n = 1 \<or> unat n = 2 \<or> unat n = 3 \<or> unat n = 4 \<or> unat n = 5 \<or> unat n = 6 \<or> unat n = 7 \<or> 
      unat n = 8 \<or> unat n = 9 \<or> unat n = 10 \<or> unat n = 11 \<or> unat n = 12 \<or> unat n = 13 \<or> unat n = 14 \<or> unat n = 15 \<or> 
      unat n = 16 \<or> unat n = 17 \<or> unat n = 18 \<or> unat n = 19 \<or> unat n = 20" by presburger
  then show ?thesis using n by (elim disjE) auto
qed

lemma slot_decoded: "slot_ok s \<Longrightarrow> ffi_slot (slot_code s) = Inr s"
proof (cases s)
  case (Retired n)
  assume "slot_ok s"
  then have "1 \<le> n" "n \<le> 20" by (simp_all add: Retired)
  then show ?thesis
    using retired_cases [of n]
    by (auto simp: Retired ffi_slot_def slot_code_def RetiredSlot_new_def)
qed (simp_all add: ffi_slot_def slot_code_def)

lemma algorithm_decoded: "algorithm_of_code (algorithm_code a) = Inr a"
  by (cases a) (simp_all add: algorithm_of_code_def)

lemma u8_decoded: "u8_of (ucast (b :: byte)) = Inr b"
proof -
  have "unat b \<le> 255" using unsigned_less [of b, where 'a = nat] by simp
  then have "unat (ucast b :: u32) = unat b" by (simp add: unsigned_ucast_eq take_bit_nat_eq_self_iff)
  then show ?thesis
    using \<open>unat b \<le> 255\<close> by (simp add: u8_of_def word_le_nat_alt word_unat_eq_iff unat_ucast_byte)
qed

lemma u16_decoded: "u16_of (ucast (w :: 16 word)) = Inr w"
proof -
  have w: "unat w \<le> 65535" using unsigned_less [of w, where 'a = nat] by simp
  moreover have "take_bit 32 (unat w) = unat w" using w by (simp add: take_bit_nat_eq_self_iff)
  moreover have "take_bit 32 w = w" by (rule take_bit_word_eq_self) simp
  ultimately show ?thesis by (simp add: u16_of_def word_le_nat_alt unsigned_ucast_eq)
qed

fun pin_policy_code :: "PinPolicy \<Rightarrow> u32" where
  "pin_policy_code PinDefault = 0"
| "pin_policy_code PinNever = 1"
| "pin_policy_code PinOnce = 2"
| "pin_policy_code PinAlways = 3"

fun touch_policy_code :: "TouchPolicy \<Rightarrow> u32" where
  "touch_policy_code TouchDefault = 0"
| "touch_policy_code TouchNever = 1"
| "touch_policy_code TouchAlways = 2"
| "touch_policy_code TouchCached = 3"

lemma policy_decoded:
  "ffi_pin_policy (pin_policy_code p) = Inr p" "ffi_touch_policy (touch_policy_code t) = Inr t"
  by (cases p; simp add: ffi_pin_policy_def) (cases t; simp add: ffi_touch_policy_def)

definition encode_parameters :: "KeyParameters \<Rightarrow> CnkKeyParameters" where
  "encode_parameters p =
     \<lparr>ckp_struct_size = size_of_CnkKeyParameters, ckp_slot = slot_code (kp_slot p),
      ckp_algorithm = algorithm_code (kp_algorithm p), ckp_pin_policy = pin_policy_code (kp_pin_policy p),
      ckp_touch_policy = touch_policy_code (kp_touch_policy p)\<rparr>"

lemma parameters_decoded: "slot_ok (kp_slot p) \<Longrightarrow> ffi_parameters (Some (encode_parameters p)) = Inr p"
  by (simp add: ffi_parameters_def encode_parameters_def slot_decoded algorithm_decoded policy_decoded)

fun metadata_reference_code :: "MetadataReference \<Rightarrow> u32" where
  "metadata_reference_code (KeyReference s) = slot_code s"
| "metadata_reference_code PinReference = 0x80"
| "metadata_reference_code PukReference = 0x81"
| "metadata_reference_code ManagementReference = 0x9b"

fun metadata_reference_ok :: "MetadataReference \<Rightarrow> bool" where
  "metadata_reference_ok (KeyReference s) = slot_ok s"
| "metadata_reference_ok _ = True"

lemma slot_code_not_special: "slot_ok s \<Longrightarrow> slot_code s \<notin> {0x80, 0x81, 0x9b, 0xf9}"
proof (cases s)
  case (Retired n)
  assume "slot_ok s"
  then have "1 \<le> n" "n \<le> 20" by (simp_all add: Retired)
  then show ?thesis using retired_cases [of n] by (auto simp: Retired slot_code_def)
qed (simp_all add: slot_code_def)

lemma metadata_reference_decoded:
  "metadata_reference_ok r \<Longrightarrow> metadata_reference (metadata_reference_code r) = Inr r"
  using slot_code_not_special by (cases r) (auto simp: metadata_reference_def slot_decoded)

fun sm2_role_code :: "Sm2Role \<Rightarrow> u32" where
  "sm2_role_code Initiator = 1"
| "sm2_role_code Responder = 2"

fun span_option :: "bytes option \<Rightarrow> span" where
  "span_option None = null_span"
| "span_option (Some bs) = span_of bs"

definition encode_sm2 :: "Sm2AgreementInput \<Rightarrow> CnkSm2Input" where
  "encode_sm2 i =
     \<lparr>csi_struct_size = size_of_CnkSm2Input, csi_role = sm2_role_code (si_role i),
      csi_key_len = ucast (si_key_len i), csi_peer_static = span_of (si_peer_static i),
      csi_peer_ephemeral = span_of (si_peer_ephemeral i), csi_user_id = span_option (si_user_id i),
      csi_peer_id = span_option (si_peer_id i)\<rparr>"

definition sm2_ok :: "Sm2AgreementInput \<Rightarrow> bool" where
  "sm2_ok i \<longleftrightarrow> length (si_peer_static i) = 65 \<and> length (si_peer_ephemeral i) = 65
     \<and> opt_len (si_user_id i) \<le> 32 \<and> opt_len (si_peer_id i) \<le> 32"

lemma identity_decoded: "opt_len i \<le> 32 \<Longrightarrow> sm2_identity (span_option i) = Inr i"
  by (cases i) (simp_all add: sm2_identity_def ffi_bytes_span_of small_length)

lemma span_option_len: "snd (span_option i) = opt_len i"
  by (cases i) simp_all

lemma sm2_decoded: "sm2_ok i \<Longrightarrow> sm2_input (Some (encode_sm2 i)) = Inr i"
  by (cases "si_role i")
     (simp_all add: sm2_input_def encode_sm2_def sm2_ok_def identity_decoded span_option_len u16_decoded
      ffi_bytes_span_of small_length sm2_role_def)

section \<open>Batch requests\<close>

definition blank_request :: "u32 \<Rightarrow> CnkBatchRequest" where
  "blank_request kind =
     \<lparr>cb_struct_size = size_of_CnkBatchRequest, cb_kind = kind, cb_reference = 0, cb_algorithm = 0,
      cb_input_kind = 0, cb_data = null_span, cb_tag = null_span, cb_management = None, cb_parameters = None,
      cb_components = None, cb_component_count = 0, cb_user_id = null_span, cb_sm2 = None\<rparr>"

fun sign_kind_code :: "SignInput \<Rightarrow> u32" where
  "sign_kind_code (RsaEncodedBlock _) = 1"
| "sign_kind_code (Digest _) = 2"
| "sign_kind_code (Message _) = 3"

fun management_touch_code :: "ManagementTouchPolicy \<Rightarrow> u32" where
  "management_touch_code ManagementTouchNever = 0"
| "management_touch_code ManagementTouchAlways = 1"

fun streaming_code :: "StreamingSignInput \<Rightarrow> u32" where
  "streaming_code (StreamMlDsa65 _) = 1"
| "streaming_code (StreamEd25519Randomized _) = 2"
| "streaming_code (StreamSm2 _ _) = 3"

text \<open>
  A key import is not encoded: its material holds the key's encoded fields, and the components it
  was made from are not part of the request.
\<close>

fun encode_request :: "BatchRequest \<Rightarrow> CnkBatchRequest" where
  "encode_request (BatchRequest.VerifyPin pin) = (blank_request 1)\<lparr>cb_data := span_of pin\<rparr>"
| "encode_request (AuthenticateManagement auth) =
     (blank_request 2)\<lparr>cb_management := Some (encode_management auth)\<rparr>"
| "encode_request BatchRequest.Logout = blank_request 3"
| "encode_request (ReadObject i) = (blank_request 4)\<lparr>cb_tag := span_of (ObjectId_as_bytes i)\<rparr>"
| "encode_request (BatchRequest.ReadCertificate s) = (blank_request 5)\<lparr>cb_reference := slot_code s\<rparr>"
| "encode_request (WriteObject i d) =
     (blank_request 6)\<lparr>cb_tag := span_of (ObjectId_as_bytes i), cb_data := span_of d\<rparr>"
| "encode_request (BatchRequest.WriteCertificate s d) =
     (blank_request 7)\<lparr>cb_reference := slot_code s, cb_data := span_of d\<rparr>"
| "encode_request (DeleteCertificate s) = (blank_request 8)\<lparr>cb_reference := slot_code s\<rparr>"
| "encode_request (GetMetadata r) = (blank_request 9)\<lparr>cb_reference := metadata_reference_code r\<rparr>"
| "encode_request ReadAlgorithmConfig = blank_request 10"
| "encode_request (BatchRequest.GenerateKey p) =
     (blank_request 11)\<lparr>cb_parameters := Some (encode_parameters p)\<rparr>"
| "encode_request (BatchRequest.ImportKey p m) =
     (blank_request 12)\<lparr>cb_parameters := Some (encode_parameters p)\<rparr>"
| "encode_request (Sign s a input) =
     (blank_request 13)\<lparr>cb_reference := slot_code s, cb_algorithm := algorithm_code a,
        cb_input_kind := sign_kind_code input, cb_data := span_of (sign_raw input)\<rparr>"
| "encode_request (Decrypt s a d) =
     (blank_request 14)\<lparr>cb_reference := slot_code s, cb_algorithm := algorithm_code a, cb_data := span_of d\<rparr>"
| "encode_request (Derive s a d) =
     (blank_request 15)\<lparr>cb_reference := slot_code s, cb_algorithm := algorithm_code a, cb_data := span_of d\<rparr>"
| "encode_request (SetManagementKey key touch) =
     (blank_request 16)\<lparr>cb_algorithm := management_algorithm_code (mk_algorithm key),
        cb_data := span_of (mk_bytes key), cb_input_kind := management_touch_code touch\<rparr>"
| "encode_request (Decapsulate s d) = (blank_request 17)\<lparr>cb_reference := slot_code s, cb_data := span_of d\<rparr>"
| "encode_request (SignStreaming s input) =
     (blank_request 18)\<lparr>cb_reference := slot_code s, cb_input_kind := streaming_code input,
        cb_data := span_of (fst (streaming_parts input)), cb_user_id := span_option (snd (streaming_parts input))\<rparr>"
| "encode_request ReadMetadataDirectory = blank_request 19"
| "encode_request (ReadContainerName s) = (blank_request 20)\<lparr>cb_reference := slot_code s\<rparr>"
| "encode_request (SetContainerName s n) =
     (blank_request 21)\<lparr>cb_reference := slot_code s, cb_data := span_of n\<rparr>"
| "encode_request (MoveKey source target) =
     (blank_request 22)\<lparr>cb_reference := slot_code source, cb_algorithm := slot_code target\<rparr>"
| "encode_request (DeleteKey s) = (blank_request 23)\<lparr>cb_reference := slot_code s\<rparr>"
| "encode_request (ResetPinPukRetries pin puk) =
     (blank_request 24)\<lparr>cb_reference := ucast pin, cb_algorithm := ucast puk\<rparr>"
| "encode_request (SetAlgorithmConfig c) = (blank_request 25)\<lparr>cb_data := span_of (ac_raw c)\<rparr>"
| "encode_request (Attest s) = (blank_request 26)\<lparr>cb_reference := slot_code s\<rparr>"
| "encode_request (AgreeSm2 s i) =
     (blank_request 27)\<lparr>cb_reference := slot_code s, cb_sm2 := Some (encode_sm2 i)\<rparr>"

definition object_id_ok :: "ObjectId \<Rightarrow> bool" where
  "object_id_ok i \<longleftrightarrow> length (ObjectId_as_bytes i) \<le> isize_max \<and> ObjectId_from_bytes (ObjectId_as_bytes i) = Inr i"

text \<open>The requests the Rust interface can hold, with inputs below the limit \<open>n\<close>.\<close>

fun request_ok :: "nat \<Rightarrow> BatchRequest \<Rightarrow> bool" where
  "request_ok n (BatchRequest.VerifyPin pin) = pin_ok pin"
| "request_ok n (AuthenticateManagement auth) = management_ok auth"
| "request_ok n (ReadObject i) = object_id_ok i"
| "request_ok n (BatchRequest.ReadCertificate s) = slot_ok s"
| "request_ok n (WriteObject i d) = (object_id_ok i \<and> length d \<le> n)"
| "request_ok n (BatchRequest.WriteCertificate s d) = (slot_ok s \<and> length d \<le> n)"
| "request_ok n (DeleteCertificate s) = slot_ok s"
| "request_ok n (GetMetadata r) = metadata_reference_ok r"
| "request_ok n (BatchRequest.GenerateKey p) = slot_ok (kp_slot p)"
| "request_ok n (BatchRequest.ImportKey p m) = False"
| "request_ok n (Sign s a input) = (slot_ok s \<and> length (sign_raw input) \<le> n)"
| "request_ok n (Decrypt s a d) = (slot_ok s \<and> length d \<le> n)"
| "request_ok n (Derive s a d) = (slot_ok s \<and> length d \<le> n)"
| "request_ok n (SetManagementKey key touch) = (length (mk_bytes key) = 24)"
| "request_ok n (Decapsulate s d) = (slot_ok s \<and> length d \<le> n)"
| "request_ok n (SignStreaming s input) =
     (slot_ok s \<and> length (fst (streaming_parts input)) \<le> n
      \<and> snd (streaming_parts input) \<noteq> Some [] \<and> opt_len (snd (streaming_parts input)) \<le> 32)"
| "request_ok n (ReadContainerName s) = slot_ok s"
| "request_ok n (SetContainerName s name) =
     (slot_ok s \<and> length name \<le> n \<and> ContainerName_from_utf16le name = Inr name)"
| "request_ok n (MoveKey source target) = (slot_ok source \<and> slot_ok target)"
| "request_ok n (DeleteKey s) = slot_ok s"
| "request_ok n (SetAlgorithmConfig c) = (length (ac_raw c) \<le> n \<and> AlgorithmConfig_parse (ac_raw c) = Inr c)"
| "request_ok n (Attest s) = slot_ok s"
| "request_ok n (AgreeSm2 s i) = (slot_ok s \<and> sm2_ok i)"
| "request_ok n _ = True"

lemma secret_decoded: "pin_ok pin \<Longrightarrow> gives (ffi_secret (span_of pin)) pin"
  using pin_ok_secret [of pin]
  by (simp add: ffi_secret_def gives_def abi_simps ffi_bytes_span_of pin_ok_def small_length)

lemma object_id_decoded: "object_id_ok i \<Longrightarrow> gives (ffi_object_id (span_of (ObjectId_as_bytes i))) i"
  by (simp add: ffi_object_id_def object_id_ok_def gives_def abi_simps ffi_bytes_span_of)

lemma data_decoded: "length d \<le> n \<Longrightarrow> n \<le> isize_max \<Longrightarrow> gives (abi_code (ffi_bytes (span_of d))) d"
  by (rule gives_code) (simp add: ffi_bytes_span_of)

lemma streaming_decoded:
  assumes "length (fst (streaming_parts input)) \<le> max_input_bytes (limits options)"
    "max_input_bytes (limits options) \<le> isize_max"
    "snd (streaming_parts input) \<noteq> Some []" "opt_len (snd (streaming_parts input)) \<le> 32"
  shows "gives (streaming_input (streaming_code input) (span_of (fst (streaming_parts input)))
           (span_option (snd (streaming_parts input))) options) input"
proof -
  have bs: "ffi_bytes (span_of (fst (streaming_parts input))) = Inr (fst (streaming_parts input))"
    using assms(1,2) by (simp add: ffi_bytes_span_of)
  have u: "ffi_bytes (span_of u) = Inr u" if "snd (streaming_parts input) = Some u" for u
    using assms(4) that by (simp add: ffi_bytes_span_of small_length)
  show ?thesis
  proof (cases input)
    case (StreamSm2 message user)
    then show ?thesis
      using assms bs u
      by (cases user) (simp_all add: gives_def streaming_input_def piv_input_def abi_simps)
  qed (use assms bs in \<open>simp_all add: gives_def streaming_input_def piv_input_def abi_simps\<close>)
qed

lemma sign_input_decoded:
  assumes "length (sign_raw input) \<le> n" "n \<le> isize_max"
  shows "gives (ffi_sign_input (sign_kind_code input) (span_of (sign_raw input))) input"
  using assms by (cases input) (simp_all add: gives_def ffi_sign_input_def abi_simps ffi_bytes_span_of)

lemma rotation_key_decoded:
  assumes "length (mk_bytes key) = 24"
  shows "gives (abi_bind (abi_code (management_algorithm (management_algorithm_code (mk_algorithm key)))) (\<lambda>a.
           abi_bind (abi_code (ffi_bytes (span_of (mk_bytes key)))) (\<lambda>bs.
             abi_failure (ManagementKey_from_bytes a bs)))) key"
  using assms
  by (simp add: gives_def abi_simps management_algorithm_inverse ffi_bytes_span_of small_length
      ManagementKey_from_bytes_def)

lemma management_touch_inverse: "management_touch (management_touch_code t) = Inr t"
  by (cases t) (simp_all add: management_touch_def)

lemma name_decoded:
  "length name \<le> n \<Longrightarrow> n \<le> isize_max \<Longrightarrow> ContainerName_from_utf16le name = Inr name
     \<Longrightarrow> gives (ffi_name (span_of name)) name"
  by (simp add: gives_def ffi_name_def abi_simps ffi_bytes_span_of)

lemma config_decoded:
  "length (ac_raw c) \<le> n \<Longrightarrow> n \<le> isize_max \<Longrightarrow> AlgorithmConfig_parse (ac_raw c) = Inr c
     \<Longrightarrow> gives (ffi_config (span_of (ac_raw c))) c"
  by (simp add: gives_def ffi_config_def abi_simps ffi_bytes_span_of)

lemmas argument_decoded = slot_decoded algorithm_decoded u8_decoded metadata_reference_decoded
  parameters_decoded sm2_decoded management_touch_inverse

lemma gives_map2: "gives x (a, b) \<Longrightarrow> gives (abi_map (case_prod f) x) (f a b)"
  using gives_map [of x "(a, b)" "case_prod f"] by simp

lemma gives_map3: "gives x ((a, b), c) \<Longrightarrow> gives (abi_map (case_prod (case_prod f)) x) (f a b c)"
  using gives_map [of x "((a, b), c)" "case_prod (case_prod f)"] by simp

lemma gives_value: "gives (abi_code (Inr v)) v"
  by (rule gives_code) simp

lemma request_decoded:
  assumes "request_ok n r" "n = max_input_bytes (limits options)" "n \<le> isize_max"
  shows "gives (batch_request pk options (encode_request r)) r"
  using assms
  by (cases r)
     (simp_all add: batch_request_def blank_request_def Let_def argument_decoded gives_value,
      auto intro!: gives_map gives_map2 gives_map3 gives_pair gives_value secret_decoded management_decoded
        object_id_decoded streaming_decoded sign_input_decoded rotation_key_decoded name_decoded config_decoded
        intro: data_decoded)

lemma collect_decoded:
  "\<forall>r \<in> set rs. gives (f (g r)) r \<Longrightarrow> gives (abi_collect f (map g rs)) rs"
  by (induction rs) (auto intro!: gives_bind gives_value)

text \<open>What a descriptor declares against the input budget.\<close>

definition declared_input :: "BatchRequest \<Rightarrow> nat" where
  "declared_input r = snd (cb_data (encode_request r)) + snd (cb_user_id (encode_request r))"

lemma encoded_size [simp]: "cb_struct_size (encode_request r) = size_of_CnkBatchRequest"
  by (cases r) (simp_all add: blank_request_def)

lemma total_decoded:
  "acc + sum_list (map declared_input rs) \<le> usize_max
     \<Longrightarrow> request_total acc (map encode_request rs) = Inr (acc + sum_list (map declared_input rs))"
  by (induction rs arbitrary: acc) (auto simp: checked_add_def declared_input_def)

lemma options_input:
  assumes "ffi_options opts = Inr options"
  shows "max_input_bytes (limits options) = max_input_bytes (limits OperationOptions_default)"
    "max_input_bytes (limits options) \<le> isize_max" "max_input_bytes (limits options) \<le> usize_max"
  using assms
  by (auto simp: ffi_options_def OperationOptions_validate_def OperationOptions_default_def
      OperationLimits_default_def isize_max_def usize_max_def split: option.splits if_splits sum.splits)

text \<open>What a constructor whose body ends in a factory returns.\<close>

fun created :: "('t COperation \<Rightarrow> Inner) \<Rightarrow> ('m, 't) Machine \<Rightarrow> u32 \<Rightarrow> ('m, 't) Operation res
    \<Rightarrow> CnkOperation option option \<times> CnkError option \<times> u32" where
  "created wrap M n (Inr op) =
     (Some (Some \<lparr>cn_inner = wrap (box_operation M op), cn_poisoned = False\<rparr>), Some (cleared n), OK)"
| "created wrap M n (Inl e) = (Some None, Some (write_error e (cleared n)), failure_code (e_kind e))"

lemma create_exact:
  assumes "size_of_CnkError \<le> er_struct_size pod" "f (Some (cleared (er_struct_size pod))) =
      abi_failure (into_inner wrap M r) (Some (cleared (er_struct_size pod)))"
  shows "create (Some h) (Some pod) f = created wrap M (er_struct_size pod) r"
  using assms leD [OF assms(1)]
  by (cases r) (auto simp: create_def clear_error_def into_inner_def abi_simps)

section \<open>Properties\<close>

text \<open>C21: credentials and the shared transaction. A descriptor filled for credentials decodes to
exactly these credentials when the operation selects the applet itself; with the flag that uses the
caller's open transaction, a descriptor that carries credentials is refused and an empty one means
the existing access. No descriptor, however filled, gives credentials together with that flag or the
existing access without it.\<close>

theorem c_access_exact:
  assumes "access_ok a" "piv_options opts = Inr options"
  shows "piv_access (encode_access a) opts error =
      (error, if piv_select_flag opts then Inr (if a = Existing then Piv_Core.NoAccess else a)
              else if a = Existing \<or> a = Piv_Core.NoAccess then Inr Existing else Inl ARG)
    \<and> (\<forall>p error error' b. piv_access p opts error = (error', Inr b) \<longrightarrow> (b = Existing \<longleftrightarrow> \<not> piv_select_flag opts))"
proof -
  have "gives (ffi_access (encode_access a)) (if a = Existing then Piv_Core.NoAccess else a)"
    using access_decoded [OF assms(1)] by (simp add: ffi_access_def gives_value)
  then have "piv_access (encode_access a) opts error =
      (error, if piv_select_flag opts then Inr (if a = Existing then Piv_Core.NoAccess else a)
              else if a = Existing \<or> a = Piv_Core.NoAccess then Inr Existing else Inl ARG)"
    using assms(2) by (simp add: piv_access_def abi_simps gives_def)
  moreover have "b = Existing \<longleftrightarrow> \<not> piv_select_flag opts"
    if "piv_access p opts err = (err', Inr b)" for p err err' b
    using that assms(2) ffi_access_not_existing
    by (auto simp: piv_access_def abi_bind_def abi_code_def split: prod.splits sum.splits if_splits)
  ultimately show ?thesis by blast
qed

theorem c_access_exact_witness:
  "piv_access (encode_access (Piv_Core.PinAccess [0x31, 0x32, 0x33, 0x34, 0x35, 0x36])) None None =
     (None, Inr (Piv_Core.PinAccess [0x31, 0x32, 0x33, 0x34, 0x35, 0x36]))
   \<and> piv_access (encode_access (Piv_Core.PinAccess [0x31, 0x32, 0x33, 0x34, 0x35, 0x36]))
       (Some \<lparr>cop_struct_size = 24, cop_flags = 2, cop_max_command_bytes = 261, cop_max_response_bytes = 258,
              cop_max_total_response_bytes = 4096, cop_max_exchanges = 16\<rparr>) None = (None, Inl ARG)"
proof -
  let ?a = "Piv_Core.PinAccess [0x31, 0x32, 0x33, 0x34, 0x35, 0x36]"
  let ?o = "Some \<lparr>cop_struct_size = 24, cop_flags = 2, cop_max_command_bytes = 261, cop_max_response_bytes = 258,
              cop_max_total_response_bytes = 4096, cop_max_exchanges = 16\<rparr>"
  have ok: "access_ok ?a" by (simp add: pin_ok_def)
  obtain options where o: "piv_options ?o = Inr options"
    by (simp add: piv_options_def ffi_options_def size_of_CnkOptions_def OperationOptions_validate_def
        OperationOptions_default_def OperationLimits_default_def)
  have n: "piv_options None = Inr OperationOptions_default" by (simp add: piv_options_def ffi_options_def)
  show ?thesis
    using c_access_exact [OF ok n, of None] c_access_exact [OF ok o, of None]
    by (simp add: piv_select_flag_def)
qed



end
