(* ===== verification/C_Requests.thy ===== *)
theory C_Requests
  imports C_Descriptors
begin

text \<open>
  The request descriptors of the OATH, Admin and OpenPGP applets: an encoder for each, the requests
  that a descriptor can express, and the theorem that a decoder accepts exactly the descriptors that
  agree with the encoding of an expressible request.
\<close>

section \<open>Fields\<close>

text \<open>
  A field of bytes agrees with the encoder's when it holds the same bytes; where the encoder leaves
  NULL with length zero, the caller must too.
\<close>

definition span_fills :: "span \<Rightarrow> span \<Rightarrow> bool" where
  "span_fills s s' \<longleftrightarrow> (s' = null_span \<longrightarrow> s = null_span) \<and> ffi_bytes s = ffi_bytes s'"

lemma span_fills_null [simp]: "span_fills s null_span \<longleftrightarrow> s = null_span"
  by (auto simp: span_fills_def)

lemma span_fills_span_of [simp]:
  "length bs \<le> isize_max \<Longrightarrow> span_fills s (span_of bs) \<longleftrightarrow> ffi_bytes s = Inr bs"
  by (auto simp: span_fills_def ffi_bytes_span_of)

lemma ffi_bytes_length: "ffi_bytes s = Inr bs \<Longrightarrow> length bs \<le> isize_max"
  by (cases s) (auto split: if_splits option.splits)

lemma filled: "ffi_bytes s = Inr bs \<Longrightarrow> span_fills s (span_of bs)"
  using ffi_bytes_length by simp

lemma null_bytes [simp]: "ffi_bytes null_span = Inr []"
  by simp

text \<open>Words of four flags.\<close>

definition flags4 :: "bool \<Rightarrow> bool \<Rightarrow> bool \<Rightarrow> bool \<Rightarrow> u32" where
  "flags4 a b c d = of_bool a OR push_bit 1 (of_bool b) OR push_bit 2 (of_bool c) OR push_bit 3 (of_bool d)"

lemma flags4_bits [simp]:
  "flags4 a b c d AND 1 = 0 \<longleftrightarrow> \<not> a" "flags4 a b c d AND 2 = 0 \<longleftrightarrow> \<not> b" "flags4 a b c d AND 4 = 0 \<longleftrightarrow> \<not> c"
  "flags4 a b c d AND 8 = 0 \<longleftrightarrow> \<not> d" "flags4 a b c d AND NOT 15 = 0" "flags4 a b c d AND - 16 = 0"
  by (cases a; cases b; cases c; cases d; simp add: flags4_def)+

lemma flag_bit:
  fixes x :: u32
  shows "x AND 1 \<noteq> 0 \<longleftrightarrow> bit x 0" "x AND 2 \<noteq> 0 \<longleftrightarrow> bit x 1" "x AND 4 \<noteq> 0 \<longleftrightarrow> bit x 2" "x AND 8 \<noteq> 0 \<longleftrightarrow> bit x 3"
  using and_exp_eq_0_iff_not_bit [of x 0] and_exp_eq_0_iff_not_bit [of x 1] and_exp_eq_0_iff_not_bit [of x 2]
    and_exp_eq_0_iff_not_bit [of x 3]
  by simp_all

lemma bit_flags4: "bit (flags4 a b c d) n \<longleftrightarrow> n = 0 \<and> a \<or> n = 1 \<and> b \<or> n = 2 \<and> c \<or> n = 3 \<and> d"
proof -
  have "bit (push_bit m (of_bool x) :: u32) n \<longleftrightarrow> n = m \<and> x" if "m < 32" for m x
    using that by (auto simp add: bit_push_bit_iff bit_of_bool_iff)
  then show ?thesis by (simp only: flags4_def bit_or_iff bit_of_bool_iff)
qed

lemma nibble_below:
  fixes x :: u32
  assumes "x AND NOT 15 = 0" "bit x n"
  shows "n < 4"
proof -
  have "NOT 15 = NOT (mask 4 :: u32)" by (simp add: mask_eq_exp_minus_1)
  then have "\<not> bit (x AND NOT (mask 4)) n" using assms(1) by simp
  then show ?thesis using assms(2) bit_imp_le_length [OF assms(2)] by (simp only: bit_and_iff bit_not_iff bit_mask_iff) simp
qed

lemma nibble_bits:
  fixes x :: u32
  assumes "x AND NOT 15 = 0"
  shows "x = flags4 (x AND 1 \<noteq> 0) (x AND 2 \<noteq> 0) (x AND 4 \<noteq> 0) (x AND 8 \<noteq> 0)"
proof (rule bit_word_eqI)
  fix n
  have "bit x n \<Longrightarrow> n = 0 \<or> n = 1 \<or> n = 2 \<or> n = 3" using nibble_below [OF assms, of n] by presburger
  then show "bit x n \<longleftrightarrow> bit (flags4 (x AND 1 \<noteq> 0) (x AND 2 \<noteq> 0) (x AND 4 \<noteq> 0) (x AND 8 \<noteq> 0)) n"
    by (auto simp: bit_flags4 flag_bit)
qed

lemma nibble_eq:
  fixes x :: u32
  assumes "x AND NOT 15 = 0"
  shows "x = flags4 a b c d \<longleftrightarrow> (x AND 1 \<noteq> 0 \<longleftrightarrow> a) \<and> (x AND 2 \<noteq> 0 \<longleftrightarrow> b) \<and> (x AND 4 \<noteq> 0 \<longleftrightarrow> c) \<and> (x AND 8 \<noteq> 0 \<longleftrightarrow> d)"
proof
  assume "(x AND 1 \<noteq> 0 \<longleftrightarrow> a) \<and> (x AND 2 \<noteq> 0 \<longleftrightarrow> b) \<and> (x AND 4 \<noteq> 0 \<longleftrightarrow> c) \<and> (x AND 8 \<noteq> 0 \<longleftrightarrow> d)"
  then show "x = flags4 a b c d" by (subst nibble_bits [OF assms]) blast
qed simp

lemma pair_below:
  fixes x :: u32
  assumes "x AND NOT 3 = 0" "bit x n"
  shows "n < 2"
proof -
  have "NOT 3 = NOT (mask 2 :: u32)" by (simp add: mask_eq_exp_minus_1)
  then have "\<not> bit (x AND NOT (mask 2)) n" using assms(1) by simp
  then show ?thesis using assms(2) bit_imp_le_length [OF assms(2)] by (simp only: bit_and_iff bit_not_iff bit_mask_iff) simp
qed

lemma pair_eq:
  fixes x :: u32
  assumes "x AND NOT 3 = 0"
  shows "x = flags4 a b False False \<longleftrightarrow> (x AND 1 \<noteq> 0 \<longleftrightarrow> a) \<and> (x AND 2 \<noteq> 0 \<longleftrightarrow> b)"
proof
  assume ab: "(x AND 1 \<noteq> 0 \<longleftrightarrow> a) \<and> (x AND 2 \<noteq> 0 \<longleftrightarrow> b)"
  show "x = flags4 a b False False"
  proof (rule bit_word_eqI)
    fix n
    have "bit x n \<Longrightarrow> n = 0 \<or> n = 1" using pair_below [OF assms, of n] by presburger
    then show "bit x n \<longleftrightarrow> bit (flags4 a b False False) n" using ab by (auto simp: bit_flags4 flag_bit)
  qed
qed simp

lemma flags4_pair [simp]: "flags4 a b False False AND NOT 3 = 0" "flags4 a b False False AND - 4 = 0"
  by (cases a; cases b; simp add: flags4_def)+

section \<open>Admin requests\<close>

definition blank_admin :: "u32 \<Rightarrow> CnkAdminRequest" where
  "blank_admin kind =
     \<lparr>car_struct_size = FULL_SIZE, car_kind = kind, car_pin = null_span, car_data = null_span, car_present = 0,
      car_values = 0, car_feature_mask = 0, car_feature_values = 0, car_reserved = [0, 0], car_curve_id = 0,
      car_algorithm_id = 0, car_layout_id = 0, car_keymap = null_span\<rparr>"

fun applet_code :: "AppletId \<Rightarrow> u32" where
  "applet_code AppletOpenPgp = 1"
| "applet_code AppletPiv = 2"
| "applet_code AppletOath = 3"
| "applet_code AppletNdef = 4"
| "applet_code AppletCtap = 5"
| "applet_code AppletPass = 6"

definition encode_patch :: "ConfigurationPatch \<Rightarrow> CnkAdminRequest" where
  "encode_patch p =
     (blank_admin 13)
       \<lparr>car_present := flags4 (cp_led_on p \<noteq> None) (cp_ndef_read_only p \<noteq> None) (cp_ndef_enabled p \<noteq> None)
                        (cp_webusb_landing p \<noteq> None),
        car_values := flags4 (cp_led_on p = Some True) (cp_ndef_read_only p = Some True)
                        (cp_ndef_enabled p = Some True) (cp_webusb_landing p = Some True),
        car_feature_mask := cp_feature_mask p, car_feature_values := cp_feature_values p\<rparr>"

definition encode_sm2_patch :: "Sm2Patch \<Rightarrow> CnkAdminRequest" where
  "encode_sm2_patch p =
     (blank_admin 17)
       \<lparr>car_present := flags4 (sp_curve_id p \<noteq> None) (sp_algorithm_id p \<noteq> None) False False,
        car_curve_id := unwrap_or (sp_curve_id p) 0, car_algorithm_id := unwrap_or (sp_algorithm_id p) 0\<rparr>"

fun encode_touch :: "LegacyOpenPgpTouch \<Rightarrow> CnkAdminRequest" where
  "encode_touch (SignatureTouch b) = (blank_admin 23)\<lparr>car_values := of_bool b\<rparr>"
| "encode_touch (DecryptionTouch b) = (blank_admin 23)\<lparr>car_present := 1, car_values := of_bool b\<rparr>"
| "encode_touch (AuthenticationTouch b) = (blank_admin 23)\<lparr>car_present := 2, car_values := of_bool b\<rparr>"
| "encode_touch (CacheSeconds n) = (blank_admin 23)\<lparr>car_present := 3, car_values := ucast n\<rparr>"

fun encode_admin :: "AdminRequest \<Rightarrow> CnkAdminRequest" where
  "encode_admin Firmware = blank_admin 1"
| "encode_admin Model = blank_admin 2"
| "encode_admin SerialNumber = blank_admin 3"
| "encode_admin ChipId = blank_admin 4"
| "encode_admin CoreCommit = blank_admin 5"
| "encode_admin ReadConfiguration = blank_admin 6"
| "encode_admin ReadFlashUsage = blank_admin 7"
| "encode_admin ReadAppletUsage = blank_admin 8"
| "encode_admin ReadPinStatus = blank_admin 9"
| "encode_admin AdminRequest.VerifyPin = blank_admin 10"
| "encode_admin (AdminRequest.ChangePin p) = (blank_admin 12)\<lparr>car_data := span_of p\<rparr>"
| "encode_admin (Configure p) = encode_patch p"
| "encode_admin ReadNfcStatus = blank_admin 14"
| "encode_admin (SetNfc b) = (blank_admin 15)\<lparr>car_values := of_bool b\<rparr>"
| "encode_admin ReadSm2Configuration = blank_admin 16"
| "encode_admin (ConfigureSm2 p) = encode_sm2_patch p"
| "encode_admin (ResetApplet a) = (blank_admin 18)\<lparr>car_values := applet_code a\<rparr>"
| "encode_admin FactoryReset = blank_admin 19"
| "encode_admin (SetKeyboardInterface b) = (blank_admin 20)\<lparr>car_values := of_bool b\<rparr>"
| "encode_admin (SetKeyboardReturn b) = (blank_admin 21)\<lparr>car_values := of_bool b\<rparr>"
| "encode_admin (SetLegacyPivExtensions b) = (blank_admin 22)\<lparr>car_values := of_bool b\<rparr>"
| "encode_admin (SetLegacyOpenPgpTouch t) = encode_touch t"
| "encode_admin (WriteLegacySm2 c) = (blank_admin 24)\<lparr>car_data := span_of c\<rparr>"
| "encode_admin AdminRequest.KeyboardLayout = blank_admin 25"
| "encode_admin ReadKeyboardKeymap = blank_admin 26"
| "encode_admin (SetKeyboardKeymap layout m) =
     (blank_admin 27)\<lparr>car_layout_id := layout, car_keymap := span_of m\<rparr>"
| "encode_admin ClearKeyboardKeymap = blank_admin 28"
| "encode_admin PassConfiguration = blank_admin 29"
| "encode_admin (SetPassConfiguration bs) = (blank_admin 30)\<lparr>car_data := span_of bs\<rparr>"
| "encode_admin ReadPassSlots = blank_admin 31"
| "encode_admin (SetPassSlot slot config) = blank_admin 0"

text \<open>
  The requests a descriptor can express. Writing one PASS slot has no number in the header: C callers
  write the raw PASS configuration.
\<close>

fun admin_expressible :: "AdminRequest \<Rightarrow> bool" where
  "admin_expressible (AdminRequest.ChangePin p) = (6 \<le> length p \<and> length p \<le> 64)"
| "admin_expressible (WriteLegacySm2 c) = (length c = 9 \<and> c ! 0 \<le> 1)"
| "admin_expressible (SetKeyboardKeymap layout m) = (length m = 256)"
| "admin_expressible (SetPassConfiguration bs) = (length bs \<le> isize_max)"
| "admin_expressible (SetPassSlot slot config) = False"
| "admin_expressible _ = True"

definition admin_size :: "AdminRequest \<Rightarrow> u32" where
  "admin_size r = (case r of SetKeyboardKeymap _ _ \<Rightarrow> FULL_SIZE | _ \<Rightarrow> LEGACY_SIZE)"

text \<open>A descriptor agrees with another one in every field that its size covers, the PIN apart.\<close>

definition admin_agrees :: "CnkAdminRequest \<Rightarrow> CnkAdminRequest \<Rightarrow> bool" where
  "admin_agrees d e \<longleftrightarrow>
     car_kind d = car_kind e \<and> span_fills (car_data d) (car_data e) \<and> car_present d = car_present e
     \<and> car_values d = car_values e \<and> car_feature_mask d = car_feature_mask e
     \<and> car_feature_values d = car_feature_values e \<and> car_reserved d = car_reserved e
     \<and> car_curve_id d = car_curve_id e \<and> car_algorithm_id d = car_algorithm_id e
     \<and> (car_struct_size d < FULL_SIZE
        \<or> car_layout_id d = car_layout_id e \<and> span_fills (car_keymap d) (car_keymap e))"

lemma subset_flag:
  fixes v p :: u32
  assumes "v AND NOT p = 0"
  shows "v AND 1 \<noteq> 0 \<Longrightarrow> p AND 1 \<noteq> 0" "v AND 2 \<noteq> 0 \<Longrightarrow> p AND 2 \<noteq> 0" "v AND 4 \<noteq> 0 \<Longrightarrow> p AND 4 \<noteq> 0"
    "v AND 8 \<noteq> 0 \<Longrightarrow> p AND 8 \<noteq> 0" "p AND NOT 15 = 0 \<Longrightarrow> v AND NOT 15 = 0"
proof -
  have bits: "bit p n" if "bit v n" for n
  proof -
    have "\<not> bit (v AND NOT p) n" using assms by simp
    then show ?thesis using that bit_imp_le_length [OF that] by (simp only: bit_and_iff bit_not_iff possible_bit_word) simp
  qed
  then show "v AND 1 \<noteq> 0 \<Longrightarrow> p AND 1 \<noteq> 0" "v AND 2 \<noteq> 0 \<Longrightarrow> p AND 2 \<noteq> 0" "v AND 4 \<noteq> 0 \<Longrightarrow> p AND 4 \<noteq> 0"
    "v AND 8 \<noteq> 0 \<Longrightarrow> p AND 8 \<noteq> 0"
    by (simp_all only: flag_bit)
  assume below: "p AND NOT 15 = 0"
  have "v AND NOT 15 = 0"
  proof (rule bit_word_eqI)
    fix n
    assume "n < LENGTH(32)"
    have "bit (v AND NOT 15) n \<Longrightarrow> bit (p AND NOT 15) n" using bits by (simp only: bit_and_iff)
    then show "bit (v AND NOT 15) n \<longleftrightarrow> bit 0 n" using below by auto
  qed
  then show "v AND NOT 15 = 0" .
qed

definition patch_agrees :: "CnkAdminRequest \<Rightarrow> ConfigurationPatch \<Rightarrow> bool" where
  "patch_agrees d p \<longleftrightarrow>
     car_present d = car_present (encode_patch p) \<and> car_values d = car_values (encode_patch p)
     \<and> car_feature_mask d = cp_feature_mask p \<and> car_feature_values d = cp_feature_values p"

lemma configure_accepted:
  assumes "admin_configure d = Inr r"
  shows "\<exists>p. r = Configure p \<and> patch_agrees d p"
proof -
  let ?p = "\<lparr>cp_led_on = patch_flag d 1, cp_ndef_read_only = patch_flag d 2, cp_ndef_enabled = patch_flag d 4,
         cp_webusb_landing = patch_flag d 8, cp_feature_mask = car_feature_mask d,
         cp_feature_values = car_feature_values d\<rparr>"
  from assms have r: "r = Configure ?p" and p: "car_present d AND NOT 15 = 0"
    and v: "car_values d AND NOT (car_present d) = 0"
    by (auto simp: admin_configure_def split: if_splits)
  have "patch_agrees d ?p"
    unfolding patch_agrees_def encode_patch_def
    using subset_flag [OF v]
    by (auto simp: nibble_eq [OF p] nibble_eq [OF subset_flag(5) [OF v p]] patch_flag_def simp del: bit_simps)
  then show ?thesis using r by blast
qed

lemma configure_decoded:
  assumes "patch_agrees d p"
  shows "admin_configure d = Inr (Configure p)"
proof -
  have "flags4 (a = Some True) (b = Some True) (c = Some True) (e = Some True)
      AND NOT (flags4 (a \<noteq> None) (b \<noteq> None) (c \<noteq> None) (e \<noteq> None)) = 0" for a b c e
    by (cases "a = Some True"; cases "b = Some True"; cases "c = Some True"; cases "e = Some True";
        cases "a = None"; cases "b = None"; cases "c = None"; cases "e = None"; simp add: flags4_def)
  moreover have "Some (x = Some True) = x \<longleftrightarrow> x \<noteq> None" for x :: "bool option" by (cases x) auto
  ultimately show ?thesis
    using assms by (cases p) (simp add: admin_configure_def patch_agrees_def encode_patch_def patch_flag_def)
qed

definition sm2_patch_agrees :: "CnkAdminRequest \<Rightarrow> Sm2Patch \<Rightarrow> bool" where
  "sm2_patch_agrees d p \<longleftrightarrow>
     car_present d = car_present (encode_sm2_patch p) \<and> car_curve_id d = unwrap_or (sp_curve_id p) 0
     \<and> car_algorithm_id d = unwrap_or (sp_algorithm_id p) 0"

lemma sm2_accepted:
  assumes "admin_sm2 d = Inr r"
  shows "\<exists>p. r = ConfigureSm2 p \<and> sm2_patch_agrees d p"
proof -
  have p: "car_present d AND NOT 3 = 0" using assms by (auto simp: admin_sm2_def split: if_splits)
  then show ?thesis
    using assms
    by (auto simp: admin_sm2_def sm2_patch_agrees_def encode_sm2_patch_def pair_eq [OF p] unwrap_or_def split: if_splits)
qed

lemma sm2_patch_decoded: "sm2_patch_agrees d p \<Longrightarrow> admin_sm2 d = Inr (ConfigureSm2 p)"
  by (cases p) (auto simp: admin_sm2_def sm2_patch_agrees_def encode_sm2_patch_def unwrap_or_def split: option.splits)

lemma flag_value: "v \<le> 1 \<Longrightarrow> v = of_bool (v \<noteq> (0 :: u32))"
  by (auto simp: word_le_nat_alt word_unat_eq_iff)

lemma applet_accepted: "applet_of v = Inr a \<longleftrightarrow> v = applet_code a"
  by (cases a) (auto simp: applet_of_def split: if_splits)

lemma byte_accepted: "u8_of v = Inr b \<longleftrightarrow> v = ucast b"
proof
  assume "u8_of v = Inr b"
  then have v: "v \<le> 255" "b = ucast v" by (auto simp: u8_of_def split: if_splits)
  then have "unat v < 2 ^ 8" by (simp add: word_le_nat_alt)
  then have "take_bit 8 v = v" by (simp add: word_unat_eq_iff unsigned_take_bit_eq take_bit_nat_eq_self_iff)
  then show "v = ucast b" using v(2) by (simp add: unsigned_ucast_eq)
qed (simp add: u8_decoded)

lemma touch_accepted:
  "legacy_touch_of present v = Inr t \<longleftrightarrow> present = car_present (encode_touch t) \<and> v = car_values (encode_touch t)"
proof -
  have "legacy_touch_of present v = Inr t \<longleftrightarrow>
      (case t of SignatureTouch b \<Rightarrow> present = 0 \<and> v = of_bool b | DecryptionTouch b \<Rightarrow> present = 1 \<and> v = of_bool b
       | AuthenticationTouch b \<Rightarrow> present = 2 \<and> v = of_bool b | CacheSeconds n \<Rightarrow> present = 3 \<and> u8_of v = Inr n)"
    using flag_value [of v] by (cases t) (auto simp: legacy_touch_of_def u8_of_def split: if_splits)
  then show ?thesis by (cases t) (simp_all add: byte_accepted blank_admin_def)
qed

lemmas admin_decoding = admin_request_def admin_fields_refused_def keymap_fields_refused_def Let_def LEGACY_SIZE_def
  FULL_SIZE_def

lemma touch_kind: "car_kind (encode_touch t) = 23" "car_data (encode_touch t) = null_span"
    "car_feature_mask (encode_touch t) = 0" "car_feature_values (encode_touch t) = 0" "car_reserved (encode_touch t) = [0, 0]"
    "car_curve_id (encode_touch t) = 0" "car_algorithm_id (encode_touch t) = 0" "car_layout_id (encode_touch t) = 0"
    "car_keymap (encode_touch t) = null_span"
  by (cases t; simp add: blank_admin_def)+

lemma admin_decoded:
  assumes "admin_expressible r" "admin_size r \<le> car_struct_size d" "admin_agrees d (encode_admin r)"
  shows "admin_request d = Inr r"
proof (cases r)
  case (SetKeyboardKeymap layout m)
  then have "80 \<le> car_struct_size d" using assms(2) by (simp add: admin_size_def FULL_SIZE_def)
  moreover have "60 \<le> car_struct_size d" using order_trans [OF _ calculation, of 60] by simp
  ultimately show ?thesis
    using assms by (auto simp: SetKeyboardKeymap admin_decoding admin_agrees_def blank_admin_def or_arg_def
      KeyboardKeymap_from_bytes_def isize_max_def not_less)
next
  case (Configure p)
  then have "patch_agrees d p" using assms(3) by (simp add: admin_agrees_def patch_agrees_def encode_patch_def)
  from configure_decoded [OF this] show ?thesis
    using assms
    by (auto simp: Configure admin_decoding admin_agrees_def encode_patch_def blank_admin_def admin_size_def)
next
  case (ConfigureSm2 p)
  then have "sm2_patch_agrees d p"
    using assms(3) by (simp add: admin_agrees_def sm2_patch_agrees_def encode_sm2_patch_def)
  from sm2_patch_decoded [OF this] show ?thesis
    using assms
    by (auto simp: ConfigureSm2 admin_decoding admin_agrees_def encode_sm2_patch_def blank_admin_def admin_size_def)
next
  case (SetLegacyOpenPgpTouch t)
  then have "legacy_touch_of (car_present d) (car_values d) = Inr t"
    using assms(3) by (simp add: admin_agrees_def touch_accepted)
  then show ?thesis
    using assms
    by (auto simp: SetLegacyOpenPgpTouch admin_decoding admin_agrees_def touch_kind admin_size_def)
next
  case (ResetApplet a)
  then have "applet_of (car_values d) = Inr a" using assms(3) by (simp add: admin_agrees_def applet_accepted)
  then show ?thesis
    using assms by (auto simp: ResetApplet admin_decoding admin_agrees_def blank_admin_def admin_size_def)
qed (use assms in \<open>auto simp: admin_decoding admin_agrees_def blank_admin_def admin_size_def or_arg_def
      Pin_from_bytes_def LegacySm2Configuration_from_bytes_def KeyboardKeymap_from_bytes_def isize_max_def not_less\<close>)

lemma admin_bytes_accepted:
  "or_arg (Pin_from_bytes bs) = Inr v \<longleftrightarrow> v = bs \<and> 6 \<le> length bs \<and> length bs \<le> 64"
  "or_arg (LegacySm2Configuration_from_bytes bs) = Inr v \<longleftrightarrow> v = bs \<and> length bs = 9 \<and> bs ! 0 \<le> 1"
  "or_arg (KeyboardKeymap_from_bytes bs) = Inr v \<longleftrightarrow> v = bs \<and> length bs = 256"
  by (auto simp: or_arg_def Pin_from_bytes_def LegacySm2Configuration_from_bytes_def KeyboardKeymap_from_bytes_def)

lemma admin_accepted:
  assumes "admin_request d = Inr r"
  shows "admin_expressible r \<and> admin_size r \<le> car_struct_size d \<and> admin_agrees d (encode_admin r)"
proof -
  have "admin_fields_refused d \<or> keymap_fields_refused d \<Longrightarrow> admin_request d = Inl ARG"
    unfolding admin_request_def Let_def by (elim disjE) simp_all
  then have fields: "\<not> admin_fields_refused d" "\<not> keymap_fields_refused d" using assms by auto
  have size: "60 \<le> car_struct_size d" "car_reserved d = [0, 0]"
    "car_kind d \<noteq> 27 \<Longrightarrow> car_struct_size d < 80 \<or> car_layout_id d = 0 \<and> car_keymap d = null_span"
    "car_kind d = 27 \<Longrightarrow> 80 \<le> car_struct_size d"
    using fields(1) [unfolded admin_fields_refused_def de_Morgan_disj LEGACY_SIZE_def not_less]
      fields(2) [unfolded keymap_fields_refused_def Let_def FULL_SIZE_def, folded not_less]
    by (simp_all add: not_less [symmetric])
  note f = fields(1) [unfolded admin_fields_refused_def, simplified]
  consider (configure) "car_kind d = 13" | (sm2) "car_kind d = 17" | (other) "car_kind d \<noteq> 13" "car_kind d \<noteq> 17" by blast
  then show ?thesis
  proof cases
    case configure
    then have "admin_configure d = Inr r" using assms fields by (simp add: admin_request_def Let_def)
    from configure_accepted [OF this] obtain p where "r = Configure p" "patch_agrees d p" by blast
    then show ?thesis
      using configure f size
      by (auto simp: patch_agrees_def admin_agrees_def encode_patch_def blank_admin_def admin_size_def LEGACY_SIZE_def FULL_SIZE_def)
  next
    case sm2
    then have "admin_sm2 d = Inr r" using assms fields by (simp add: admin_request_def Let_def)
    from sm2_accepted [OF this] obtain p where "r = ConfigureSm2 p" "sm2_patch_agrees d p" by blast
    then show ?thesis
      using sm2 f size
      by (auto simp: sm2_patch_agrees_def admin_agrees_def encode_sm2_patch_def blank_admin_def admin_size_def LEGACY_SIZE_def FULL_SIZE_def)
  next
    case other
    then show ?thesis
      using assms fields f size flag_value
      by (auto simp: admin_request_def Let_def admin_agrees_def blank_admin_def admin_size_def LEGACY_SIZE_def FULL_SIZE_def
          bindE_eq_Inr admin_bytes_accepted applet_accepted touch_accepted touch_kind
          intro: filled ffi_bytes_length split: if_splits)
  qed
qed

section \<open>OATH requests\<close>

definition blank_oath :: "u32 \<Rightarrow> CnkOathRequest" where
  "blank_oath kind =
     \<lparr>cor_struct_size = size_of_CnkOathRequest, cor_kind = kind, cor_name = null_span, cor_new_name = null_span,
      cor_secret = null_span, cor_access_key = null_span, cor_host_challenge = null_span,
      cor_challenge = null_span, cor_credential_kind = 0, cor_algorithm = 0, cor_digits = 0, cor_properties = 0,
      cor_initial_counter = 0, cor_format = 0\<rparr>"

fun oath_algorithm_code :: "OathAlgorithm \<Rightarrow> u32" where
  "oath_algorithm_code Sha1 = 1"
| "oath_algorithm_code Sha256 = 2"
| "oath_algorithm_code Sha512 = 3"

fun oath_kind_code :: "Kind \<Rightarrow> u32" where
  "oath_kind_code Hotp = 1"
| "oath_kind_code Totp = 2"

fun oath_format_code :: "Format \<Rightarrow> u32" where
  "oath_format_code Truncated = 1"
| "oath_format_code Full = 2"

fun encode_oath :: "Request \<Rightarrow> CnkOathRequest" where
  "encode_oath Request.Select = blank_oath 1"
| "encode_oath Request.Validate = blank_oath 2"
| "encode_oath ListNames = blank_oath 3"
| "encode_oath (Put c) =
     (blank_oath 4)
       \<lparr>cor_name := span_of (cr_name c), cor_secret := span_of (cr_secret c),
        cor_credential_kind := oath_kind_code (cr_kind c), cor_algorithm := oath_algorithm_code (cr_algorithm c),
        cor_digits := ucast (cr_digits c),
        cor_properties := flags4 (cr_increasing c) (cr_require_touch c) False False,
        cor_initial_counter := cr_initial_counter c\<rparr>"
| "encode_oath (Request.Delete n) = (blank_oath 5)\<lparr>cor_name := span_of n\<rparr>"
| "encode_oath (Rename old new) = (blank_oath 6)\<lparr>cor_name := span_of old, cor_new_name := span_of new\<rparr>"
| "encode_oath (Calculate n k a c f) =
     (blank_oath 7)
       \<lparr>cor_name := span_of n, cor_credential_kind := oath_kind_code k, cor_algorithm := oath_algorithm_code a,
        cor_challenge := span_option c, cor_format := oath_format_code f\<rparr>"
| "encode_oath (CalculateAll c f) = (blank_oath 8)\<lparr>cor_challenge := span_of c, cor_format := oath_format_code f\<rparr>"
| "encode_oath (SetCode key c) = (blank_oath 9)\<lparr>cor_secret := span_of key, cor_challenge := span_of c\<rparr>"
| "encode_oath ClearCode = blank_oath 10"
| "encode_oath _ = blank_oath 0"

text \<open>
  The slot and challenge-response requests of the key's buttons have no number in the header.
\<close>

definition name_ok :: "Name \<Rightarrow> bool" where
  "name_ok n \<longleftrightarrow> 1 \<le> length n \<and> length n \<le> 64"

fun oath_expressible :: "Request \<Rightarrow> bool" where
  "oath_expressible (Put c) = (name_ok (cr_name c) \<and> length (cr_secret c) \<le> isize_max)"
| "oath_expressible (Request.Delete n) = name_ok n"
| "oath_expressible (Rename old new) = (name_ok old \<and> name_ok new)"
| "oath_expressible (Calculate n k a c f) = (name_ok n \<and> (c = None \<or> opt_len c = 8))"
| "oath_expressible (CalculateAll c f) = (length c = 8)"
| "oath_expressible (SetCode key c) = (length key = 16 \<and> length c = 8)"
| "oath_expressible (SetDefault slot enter n) = False"
| "oath_expressible GetSerial = False"
| "oath_expressible (ChallengeResponseHmac slot c) = False"
| "oath_expressible _ = True"

text \<open>Agreement in every field but the access credentials, which are read on their own.\<close>

definition oath_agrees :: "CnkOathRequest \<Rightarrow> CnkOathRequest \<Rightarrow> bool" where
  "oath_agrees d e \<longleftrightarrow>
     cor_kind d = cor_kind e \<and> span_fills (cor_name d) (cor_name e) \<and> span_fills (cor_new_name d) (cor_new_name e)
     \<and> span_fills (cor_secret d) (cor_secret e) \<and> span_fills (cor_challenge d) (cor_challenge e)
     \<and> cor_credential_kind d = cor_credential_kind e \<and> cor_algorithm d = cor_algorithm e
     \<and> cor_digits d = cor_digits e \<and> cor_properties d = cor_properties e
     \<and> cor_initial_counter d = cor_initial_counter e \<and> cor_format d = cor_format e"

lemma oath_codes_accepted:
  "oath_kind_of v = Inr k \<longleftrightarrow> v = oath_kind_code k" "oath_algorithm_of v = Inr a \<longleftrightarrow> v = oath_algorithm_code a"
  "oath_format_of v = Inr f \<longleftrightarrow> v = oath_format_code f"
  subgoal by (cases k) (auto simp: oath_kind_of_def split: if_splits)
  subgoal by (cases a) (auto simp: oath_algorithm_of_def split: if_splits)
  subgoal by (cases f) (auto simp: oath_format_of_def split: if_splits)
  done

lemma name_accepted: "oath_name_of s = Inr n \<longleftrightarrow> ffi_bytes s = Inr n \<and> name_ok n"
  by (cases "ffi_bytes s") (auto simp: oath_name_of_def or_arg_def Name_from_bytes_def name_ok_def)

lemma array_accepted: "array_of n bs = Inr b \<longleftrightarrow> b = bs \<and> length bs = n"
  by (auto simp: array_of_def)

lemma key_accepted: "or_arg (AccessKey_from_bytes bs) = Inr key \<longleftrightarrow> key = bs \<and> length bs = 16"
  by (auto simp: or_arg_def AccessKey_from_bytes_def)

lemma put_accepted:
  "oath_put d = Inr c \<longleftrightarrow>
     ffi_bytes (cor_name d) = Inr (cr_name c) \<and> name_ok (cr_name c)
     \<and> cor_credential_kind d = oath_kind_code (cr_kind c) \<and> cor_algorithm d = oath_algorithm_code (cr_algorithm c)
     \<and> cor_digits d = ucast (cr_digits c) \<and> ffi_bytes (cor_secret d) = Inr (cr_secret c)
     \<and> cor_properties d = flags4 (cr_increasing c) (cr_require_touch c) False False
     \<and> cor_initial_counter d = cr_initial_counter c"
proof (cases "cor_properties d AND NOT 3 = 0")
  case True
  then show ?thesis
    by (cases c) (auto simp: oath_put_def bindE_eq_Inr name_accepted oath_codes_accepted byte_accepted pair_eq [OF True])
next
  case False
  then show ?thesis by (auto simp: oath_put_def)
qed

lemmas oath_accepted_parts = bindE_eq_Inr name_accepted oath_codes_accepted oath_challenge_of_def array_accepted
  key_accepted put_accepted

lemma filled_not_null: "ffi_bytes s = Inr bs \<Longrightarrow> bs \<noteq> [] \<Longrightarrow> s \<noteq> null_span"
  by auto

lemma oath_decoded:
  assumes "oath_expressible r" "size_of_CnkOathRequest \<le> cor_struct_size d" "oath_agrees d (encode_oath r)"
  shows "oath_request d = Inr r"
proof (cases r)
  case (Put c)
  then have "oath_put d = Inr c"
    using assms(1,3) by (simp add: put_accepted oath_agrees_def blank_oath_def name_ok_def isize_max_def)
  then show ?thesis
    using assms(2,3) by (simp add: Put oath_request_def oath_fields_refused_def oath_agrees_def blank_oath_def not_less)
next
  case (Calculate n k a c f)
  then have "oath_format_of (cor_format d) = Inr f" "oath_kind_of (cor_credential_kind d) = Inr k"
      "oath_algorithm_of (cor_algorithm d) = Inr a" "oath_name_of (cor_name d) = Inr n"
      "ffi_bytes (cor_challenge d) = Inr (unwrap_or c [])" "cor_challenge d = null_span \<longleftrightarrow> c = None"
    using assms(1,3)
    by (cases c; auto simp: oath_agrees_def blank_oath_def oath_codes_accepted name_accepted name_ok_def isize_max_def
        unwrap_or_def)+
  then show ?thesis
    using assms
    by (cases c) (auto simp: Calculate oath_request_def oath_fields_refused_def oath_agrees_def blank_oath_def not_less
      oath_challenge_of_def array_of_def unwrap_or_def)
qed (use assms in \<open>auto simp: oath_request_def oath_fields_refused_def oath_agrees_def blank_oath_def not_less
      oath_accepted_parts name_ok_def isize_max_def\<close>)

lemma oath_accepted:
  assumes "oath_request d = Inr r"
  shows "oath_expressible r \<and> size_of_CnkOathRequest \<le> cor_struct_size d \<and> oath_agrees d (encode_oath r)"
proof -
  have fields: "\<not> oath_fields_refused d" using assms by (rule contrapos_pn) (simp add: oath_request_def)
  note f = fields [unfolded oath_fields_refused_def, simplified]
  show ?thesis
    using assms fields f
    by (auto simp: oath_request_def Let_def oath_agrees_def blank_oath_def oath_accepted_parts name_ok_def not_less
        intro: filled ffi_bytes_length split: if_splits)
qed

section \<open>OpenPGP requests\<close>

text \<open>Memory as the C caller promises it: as many bytes as the length says.\<close>

definition readable :: "span \<Rightarrow> bool" where
  "readable s \<longleftrightarrow> (case fst s of None \<Rightarrow> True | Some mem \<Rightarrow> snd s \<le> length mem)"

lemma readable_length: "readable s \<Longrightarrow> ffi_bytes s = Inr bs \<Longrightarrow> length bs = snd s"
  by (cases s) (auto simp: readable_def split: if_splits option.splits)

definition pgp_readable :: "CnkOpenPgpRequest \<Rightarrow> bool" where
  "pgp_readable d \<longleftrightarrow>
     readable (cpr_data d) \<and> readable (cpr_new_password d)
     \<and> (case cpr_components d of
          None \<Rightarrow> True
        | Some cs \<Rightarrow> cpr_component_count d \<le> length cs \<and> list_all readable (take (cpr_component_count d) cs))"

definition blank_pgp :: "u32 \<Rightarrow> CnkOpenPgpRequest" where
  "blank_pgp kind =
     \<lparr>cpr_struct_size = size_of_CnkOpenPgpRequest, cpr_kind = kind, cpr_slot = 0, cpr_reference = 0, cpr_tag = 0,
      cpr_algorithm = 0, cpr_value = 0, cpr_data = null_span, cpr_new_password = null_span, cpr_components = None,
      cpr_component_count = 0\<rparr>"

fun pgp_slot_code :: "PgpSlot \<Rightarrow> u32" where
  "pgp_slot_code SignatureSlot = 1"
| "pgp_slot_code DecryptionSlot = 2"
| "pgp_slot_code AuthenticationSlot = 3"

fun pgp_reference_code :: "PasswordReference \<Rightarrow> u32" where
  "pgp_reference_code PasswordReference.Pw1Sign = 0x81"
| "pgp_reference_code PasswordReference.Pw1Other = 0x82"
| "pgp_reference_code PasswordReference.Pw3 = 0x83"

fun pgp_touch_code :: "PgpTouchPolicy \<Rightarrow> u32" where
  "pgp_touch_code TouchOff = 0"
| "pgp_touch_code TouchOn = 1"
| "pgp_touch_code TouchPermanent = 2"

definition blank_write :: "u32 \<Rightarrow> CnkOpenPgpRequest" where
  "blank_write tag = (blank_pgp 11)\<lparr>cpr_tag := tag\<rparr>"

fun encode_write :: "DataWrite \<Rightarrow> CnkOpenPgpRequest" where
  "encode_write (WriteName b) = (blank_write 1)\<lparr>cpr_data := span_of b\<rparr>"
| "encode_write (WriteLogin b) = (blank_write 2)\<lparr>cpr_data := span_of b\<rparr>"
| "encode_write (WriteLanguage b) = (blank_write 3)\<lparr>cpr_data := span_of b\<rparr>"
| "encode_write (WriteSex v) = (blank_write 4)\<lparr>cpr_value := ucast v\<rparr>"
| "encode_write (WriteUrl b) = (blank_write 5)\<lparr>cpr_data := span_of b\<rparr>"
| "encode_write (WriteResetCode c) = (blank_write 6)\<lparr>cpr_data := span_of (unwrap_or c [])\<rparr>"
| "encode_write (WriteReuseSignaturePin b) = (blank_write 7)\<lparr>cpr_value := of_bool b\<rparr>"
| "encode_write (WriteTouchPolicy s t) = (blank_write 8)\<lparr>cpr_slot := pgp_slot_code s, cpr_value := pgp_touch_code t\<rparr>"
| "encode_write (WriteTouchCacheTime v) = (blank_write 9)\<lparr>cpr_value := ucast v\<rparr>"
| "encode_write (WriteAlgorithm s a) = (blank_write 10)\<lparr>cpr_slot := pgp_slot_code s, cpr_algorithm := algorithm_code a\<rparr>"
| "encode_write (WriteFingerprint s f) = (blank_write 11)\<lparr>cpr_slot := pgp_slot_code s, cpr_data := span_of f\<rparr>"
| "encode_write (WriteCaFingerprint s f) = (blank_write 12)\<lparr>cpr_slot := pgp_slot_code s, cpr_data := span_of f\<rparr>"
| "encode_write (WriteGenerationTime s t) = (blank_write 13)\<lparr>cpr_slot := pgp_slot_code s, cpr_value := t\<rparr>"

fun key_parts :: "PgpPrivateKey \<Rightarrow> bytes list" where
  "key_parts (RsaComponents e p q u dp dq) = [e, p, q, u, dp, dq]"
| "key_parts (EcScalar s) = [s]"

fun encode_pgp :: "PgpRequest \<Rightarrow> CnkOpenPgpRequest" where
  "encode_pgp (ReadData t) = (blank_pgp 1)\<lparr>cpr_tag := ucast t\<rparr>"
| "encode_pgp (PgpRequest.ReadCertificate s) = (blank_pgp 2)\<lparr>cpr_slot := pgp_slot_code s\<rparr>"
| "encode_pgp (PgpRequest.WriteCertificate s b) = (blank_pgp 3)\<lparr>cpr_slot := pgp_slot_code s, cpr_data := span_of b\<rparr>"
| "encode_pgp (PgpRequest.PinStatus r) = (blank_pgp 4)\<lparr>cpr_reference := pgp_reference_code r\<rparr>"
| "encode_pgp Verify = blank_pgp 5"
| "encode_pgp (PgpRequest.Logout r) = (blank_pgp 6)\<lparr>cpr_reference := pgp_reference_code r\<rparr>"
| "encode_pgp (ChangePassword r old new) =
     (blank_pgp 7)\<lparr>cpr_reference := pgp_reference_code r, cpr_data := span_of old, cpr_new_password := span_of new\<rparr>"
| "encode_pgp (UnblockWithAdmin p) = (blank_pgp 8)\<lparr>cpr_data := span_of p\<rparr>"
| "encode_pgp (UnblockWithCode c p) = (blank_pgp 9)\<lparr>cpr_data := span_of c, cpr_new_password := span_of p\<rparr>"
| "encode_pgp (ResetRetries b) = (blank_pgp 10)\<lparr>cpr_data := span_of b\<rparr>"
| "encode_pgp (WriteData w) = encode_write w"
| "encode_pgp (ReadPublicKey s) = (blank_pgp 12)\<lparr>cpr_slot := pgp_slot_code s\<rparr>"
| "encode_pgp (PgpRequest.GenerateKey s) = (blank_pgp 13)\<lparr>cpr_slot := pgp_slot_code s\<rparr>"
| "encode_pgp (PgpRequest.ImportKey s a k) =
     (blank_pgp 14)
       \<lparr>cpr_slot := pgp_slot_code s, cpr_algorithm := algorithm_code a,
        cpr_components := Some (map span_of (key_parts k)), cpr_component_count := length (key_parts k)\<rparr>"
| "encode_pgp (SignRequest a b) = (blank_pgp 15)\<lparr>cpr_algorithm := algorithm_code a, cpr_data := span_of b\<rparr>"
| "encode_pgp (AuthenticateRequest a b) = (blank_pgp 16)\<lparr>cpr_algorithm := algorithm_code a, cpr_data := span_of b\<rparr>"
| "encode_pgp (DecryptRequest a b) = (blank_pgp 17)\<lparr>cpr_algorithm := algorithm_code a, cpr_data := span_of b\<rparr>"
| "encode_pgp (DeriveRequest a b) = (blank_pgp 18)\<lparr>cpr_algorithm := algorithm_code a, cpr_data := span_of b\<rparr>"
| "encode_pgp Terminate = blank_pgp 19"
| "encode_pgp Activate = blank_pgp 20"

definition password_ok :: "Password \<Rightarrow> bool" where
  "password_ok p \<longleftrightarrow> 6 \<le> length p \<and> length p \<le> 64"

fun write_expressible :: "DataWrite \<Rightarrow> bool" where
  "write_expressible (WriteName b) = (length b \<le> isize_max)"
| "write_expressible (WriteLogin b) = (length b \<le> isize_max)"
| "write_expressible (WriteLanguage b) = (length b \<le> isize_max)"
| "write_expressible (WriteUrl b) = (length b \<le> isize_max)"
| "write_expressible (WriteResetCode c) = (case c of None \<Rightarrow> True | Some p \<Rightarrow> password_ok p)"
| "write_expressible (WriteFingerprint s f) = (length f = 20)"
| "write_expressible (WriteCaFingerprint s f) = (length f = 20)"
| "write_expressible _ = True"

text \<open>The key material fits its algorithm, in components of at most 256 bytes.\<close>

fun key_expressible :: "Algorithm \<Rightarrow> PgpPrivateKey \<Rightarrow> bool" where
  "key_expressible a (RsaComponents e p q u dp dq) =
     (a \<in> {Rsa2048, Rsa3072, Rsa4096} \<and> length e = 4 \<and> list_all (\<lambda>b. length b \<le> 256) [p, q, u, dp, dq])"
| "key_expressible a (EcScalar s) = (a \<notin> {Rsa2048, Rsa3072, Rsa4096} \<and> length s \<le> 256)"

fun pgp_expressible :: "PgpRequest \<Rightarrow> bool" where
  "pgp_expressible (PgpRequest.WriteCertificate s b) = (length b \<le> isize_max)"
| "pgp_expressible (ChangePassword r old new) = (password_ok old \<and> password_ok new)"
| "pgp_expressible (UnblockWithAdmin p) = password_ok p"
| "pgp_expressible (UnblockWithCode c p) = (password_ok c \<and> password_ok p)"
| "pgp_expressible (ResetRetries b) = (length b = 3)"
| "pgp_expressible (WriteData w) = write_expressible w"
| "pgp_expressible (PgpRequest.ImportKey s a k) = key_expressible a k"
| "pgp_expressible (SignRequest a b) = (length b \<le> isize_max)"
| "pgp_expressible (AuthenticateRequest a b) = (length b \<le> isize_max)"
| "pgp_expressible (DecryptRequest a b) = (length b \<le> isize_max)"
| "pgp_expressible (DeriveRequest a b) = (length b \<le> isize_max)"
| "pgp_expressible _ = True"

definition components_agree :: "CnkOpenPgpRequest \<Rightarrow> CnkOpenPgpRequest \<Rightarrow> bool" where
  "components_agree d e \<longleftrightarrow>
     cpr_component_count d = cpr_component_count e
     \<and> (case (cpr_components d, cpr_components e) of
          (None, None) \<Rightarrow> True
        | (Some cs, Some es) \<Rightarrow> list_all2 span_fills (take (cpr_component_count d) cs) es
        | _ \<Rightarrow> False)"

definition pgp_agrees :: "CnkOpenPgpRequest \<Rightarrow> CnkOpenPgpRequest \<Rightarrow> bool" where
  "pgp_agrees d e \<longleftrightarrow>
     cpr_kind d = cpr_kind e \<and> cpr_slot d = cpr_slot e \<and> cpr_reference d = cpr_reference e \<and> cpr_tag d = cpr_tag e
     \<and> cpr_algorithm d = cpr_algorithm e \<and> cpr_value d = cpr_value e \<and> span_fills (cpr_data d) (cpr_data e)
     \<and> span_fills (cpr_new_password d) (cpr_new_password e) \<and> components_agree d e"

lemma pgp_codes_accepted:
  "pgp_slot_of v = Inr s \<longleftrightarrow> v = pgp_slot_code s" "pgp_reference_of v = Inr r \<longleftrightarrow> v = pgp_reference_code r"
  "pgp_touch_of v = Inr t \<longleftrightarrow> v = pgp_touch_code t" "algorithm_of_code v = Inr a \<longleftrightarrow> v = algorithm_code a"
  subgoal by (cases s) (auto simp: pgp_slot_of_def split: if_splits)
  subgoal by (cases r) (auto simp: pgp_reference_of_def split: if_splits)
  subgoal by (cases t) (auto simp: pgp_touch_of_def split: if_splits)
  subgoal by (cases a) (auto simp: algorithm_of_code_def split: if_splits)
  done

lemma pgp_password_accepted: "pgp_password_of s = Inr p \<longleftrightarrow> ffi_bytes s = Inr p \<and> password_ok p"
  by (cases "ffi_bytes s") (auto simp: pgp_password_of_def or_arg_def Password_from_bytes_def password_ok_def)

lemma half_accepted: "u16_of v = Inr w \<longleftrightarrow> v = ucast w"
proof
  assume "u16_of v = Inr w"
  then have v: "v \<le> 65535" "w = ucast v" by (auto simp: u16_of_def split: if_splits)
  then have "unat v < 2 ^ 16" by (simp add: word_le_nat_alt)
  then have "take_bit 16 v = v" by (simp add: word_unat_eq_iff unsigned_take_bit_eq take_bit_nat_eq_self_iff)
  then show "v = ucast w" using v(2) by (simp add: unsigned_ucast_eq)
qed (simp add: u16_decoded)

lemma reset_code_accepted:
  assumes "readable s"
  shows "snd s = 0 \<longleftrightarrow> ffi_bytes s = Inr []"
proof (cases s)
  case (Pair p n)
  then show ?thesis using assms by (auto simp: readable_def isize_max_def split: option.splits if_splits)
qed

lemma write_bytes_ok [simp]: "write_expressible (WriteResetCode (Some p)) \<Longrightarrow> length p \<le> isize_max"
  by (simp add: password_ok_def isize_max_def)

lemmas pgp_accepted_parts = bindE_eq_Inr pgp_codes_accepted pgp_password_accepted byte_accepted half_accepted array_accepted

lemma write_decoded:
  assumes "write_expressible w" "pgp_agrees d (encode_write w)" "pgp_readable d"
  shows "pgp_data_write d = Inr w"
proof (cases w)
  case (WriteResetCode c)
  have "snd (cpr_data d) = 0 \<longleftrightarrow> ffi_bytes (cpr_data d) = Inr []"
    using assms(3) reset_code_accepted by (simp add: pgp_readable_def)
  then show ?thesis
    using assms(1,2)
    by (cases c) (auto simp: WriteResetCode pgp_data_write_def data_write_refused_def pgp_agrees_def blank_write_def
      blank_pgp_def Let_def unwrap_or_def pgp_accepted_parts password_ok_def isize_max_def)
qed (use assms(1,2) in \<open>auto simp: pgp_data_write_def data_write_refused_def pgp_agrees_def blank_write_def
      blank_pgp_def Let_def pgp_accepted_parts isize_max_def\<close>)

lemma write_accepted:
  assumes "pgp_data_write d = Inr w" "pgp_readable d" "cpr_kind d = 11" "cpr_reference d = 0"
    "cpr_new_password d = null_span" "cpr_components d = None" "cpr_component_count d = 0"
  shows "write_expressible w \<and> pgp_agrees d (encode_write w)"
proof -
  have fields: "\<not> data_write_refused d" using assms(1) by (rule contrapos_pn) (simp add: pgp_data_write_def)
  note f = fields [unfolded data_write_refused_def, simplified]
  have code: "snd (cpr_data d) = 0 \<longleftrightarrow> ffi_bytes (cpr_data d) = Inr []"
    using assms(2) reset_code_accepted by (simp add: pgp_readable_def)
  show ?thesis
    using assms(1,3-) fields f code flag_value [of "cpr_value d"]
    by (auto simp: pgp_data_write_def Let_def pgp_agrees_def components_agree_def blank_write_def blank_pgp_def
        pgp_accepted_parts unwrap_or_def intro: filled ffi_bytes_length split: if_splits)
qed

lemma all2_one: "list_all2 P xs [y] \<longleftrightarrow> (\<exists>x. xs = [x] \<and> P x y)"
  by (auto simp: list_all2_Cons2)

lemma component_fits:
  assumes "readable s" "ffi_bytes s = Inr b"
  shows "256 < snd s \<longleftrightarrow> 256 < length b"
  using readable_length [OF assms] by simp

definition import_agrees :: "CnkOpenPgpRequest \<Rightarrow> PgpSlot \<Rightarrow> Algorithm \<Rightarrow> PgpPrivateKey \<Rightarrow> bool" where
  "import_agrees d s a k \<longleftrightarrow>
     cpr_algorithm d = algorithm_code a \<and> cpr_slot d = pgp_slot_code s
     \<and> components_agree d (encode_pgp (PgpRequest.ImportKey s a k))"

lemma private_key_accepted:
  assumes "length parts = (if rsa then 6 else 1)"
  shows "pgp_private_key rsa parts = Inr k \<longleftrightarrow>
     list_all2 (\<lambda>p b. ffi_bytes p = Inr b) parts (key_parts k)
     \<and> (case k of RsaComponents e _ _ _ _ _ \<Rightarrow> rsa \<and> length e = 4 | EcScalar _ \<Rightarrow> \<not> rsa)"
proof (cases rsa)
  case True
  then obtain p0 p1 p2 p3 p4 p5 where "parts = [p0, p1, p2, p3, p4, p5]"
    using assms by (auto simp: length_Suc_conv numeral_eq_Suc)
  then show ?thesis using True
    by (cases k) (auto simp: pgp_private_key_def bindE_eq_Inr array_accepted)
next
  case False
  then obtain p0 where "parts = [p0]" using assms by (auto simp: length_Suc_conv)
  then show ?thesis using False by (cases k) (auto simp: pgp_private_key_def bindE_eq_Inr)
qed

lemma parts_small:
  assumes "list_all readable parts" "list_all2 (\<lambda>p b. ffi_bytes p = Inr b) parts bs"
  shows "list_ex (\<lambda>p. 256 < snd p) parts \<longleftrightarrow> list_ex (\<lambda>b. 256 < length b) bs"
    "\<not> list_ex (\<lambda>b. 256 < length b) bs \<Longrightarrow> list_all2 span_fills parts (map span_of bs)"
  using assms(2,1) by (induction rule: list_all2_induct) (auto simp: component_fits filled)

lemma parts_filled:
  assumes "list_all2 span_fills parts (map span_of bs)" "list_all (\<lambda>b. length b \<le> 256) bs"
  shows "list_all2 (\<lambda>p b. ffi_bytes p = Inr b) parts bs"
proof (rule list_all2_all_nthI)
  show "length parts = length bs" using list_all2_lengthD [OF assms(1)] by simp
  fix i
  assume i: "i < length parts"
  with list_all2_lengthD [OF assms(1)] have "i < length bs" by simp
  moreover from this have "length (bs ! i) \<le> isize_max"
    using assms(2) by (simp add: list_all_length small_length)
  ultimately show "ffi_bytes (parts ! i) = Inr (bs ! i)" using list_all2_nthD [OF assms(1) i] by simp
qed

lemma key_parts_expressible:
  assumes "(a \<in> {Rsa2048, Rsa3072, Rsa4096}) = rsa"
  shows "key_expressible a k \<longleftrightarrow>
     list_all (\<lambda>b. length b \<le> 256) (key_parts k) \<and> length (key_parts k) = (if rsa then 6 else 1)
     \<and> (case k of RsaComponents e _ _ _ _ _ \<Rightarrow> rsa \<and> length e = 4 | EcScalar _ \<Rightarrow> \<not> rsa)"
  using assms by (cases k) auto

lemma import_accepted:
  assumes "pgp_import d = Inr r" "pgp_readable d"
  shows "\<exists>s a k. r = PgpRequest.ImportKey s a k \<and> key_expressible a k \<and> import_agrees d s a k"
proof -
  obtain a where alg: "algorithm_of_code (cpr_algorithm d) = Inr a"
    using assms(1) by (cases "algorithm_of_code (cpr_algorithm d)") (simp_all add: pgp_import_def)
  obtain rsa where rsa: "(a \<in> {Rsa2048, Rsa3072, Rsa4096}) = rsa" by blast
  obtain cs where cs: "cpr_components d = Some cs"
    using assms(1) alg by (cases "cpr_components d") (simp_all add: pgp_import_def Let_def)
  have n: "cpr_component_count d = (if rsa then 6 else 1)"
    and small: "\<not> list_ex (\<lambda>p. 256 < snd p) (take (cpr_component_count d) cs)"
    and built: "bindE (pgp_private_key rsa (take (cpr_component_count d) cs)) (\<lambda>key.
        bindE (pgp_slot_of (cpr_slot d)) (\<lambda>slot. Inr (PgpRequest.ImportKey slot a key))) = Inr r"
    using assms(1) unfolding pgp_import_def alg cs bindE_def Let_def rsa sum.case option.case
    by (simp_all only: split: if_splits) (simp_all add: bindE_def)
  from built obtain k s where k: "pgp_private_key rsa (take (cpr_component_count d) cs) = Inr k"
    and s: "cpr_slot d = pgp_slot_code s" and r: "r = PgpRequest.ImportKey s a k"
    by (auto simp: bindE_eq_Inr pgp_codes_accepted)
  have a: "cpr_algorithm d = algorithm_code a" using alg by (simp add: pgp_codes_accepted)
  let ?parts = "take (cpr_component_count d) cs"
  have readable: "list_all readable ?parts" "cpr_component_count d \<le> length cs"
    using assms(2) cs by (simp_all add: pgp_readable_def)
  then have len: "length ?parts = (if rsa then 6 else 1)" using n by simp
  note key = k [unfolded private_key_accepted [OF len]]
  have bs: "list_all2 (\<lambda>p b. ffi_bytes p = Inr b) ?parts (key_parts k)" using key by blast
  have "length (key_parts k) = length ?parts" using list_all2_lengthD [OF bs] by simp
  moreover have "\<not> list_ex (\<lambda>b. 256 < length b) (key_parts k)" using parts_small(1) [OF readable(1) bs] small by blast
  ultimately have "key_expressible a k" "import_agrees d s a k"
    using key len n a s cs parts_small(2) [OF readable(1) bs]
    by (simp_all add: key_parts_expressible [OF rsa] import_agrees_def components_agree_def list_ex_iff list_all_iff not_less)
  then show ?thesis using r by blast
qed

lemma import_decoded:
  assumes "key_expressible a k" "import_agrees d s a k" "pgp_readable d"
  shows "pgp_import d = Inr (PgpRequest.ImportKey s a k)"
proof -
  from assms(2) obtain cs where cs: "cpr_components d = Some cs" and n: "cpr_component_count d = length (key_parts k)"
    and fills: "list_all2 span_fills (take (cpr_component_count d) cs) (map span_of (key_parts k))"
    by (auto simp: import_agrees_def components_agree_def split: option.splits)
  let ?parts = "take (cpr_component_count d) cs"
  have bs: "list_all2 (\<lambda>p b. ffi_bytes p = Inr b) ?parts (key_parts k)"
    using parts_filled [OF fills] assms(1) by (simp add: key_parts_expressible [OF refl])
  have len: "length ?parts = (if a \<in> {Rsa2048, Rsa3072, Rsa4096} then 6 else 1)"
    using list_all2_lengthD [OF bs] assms(1) by (simp add: key_parts_expressible [OF refl])
  have "list_all readable ?parts" using assms(3) cs by (simp add: pgp_readable_def)
  from parts_small(1) [OF this bs] have "\<not> list_ex (\<lambda>p. 256 < snd p) ?parts"
    using assms(1) by (auto simp: key_parts_expressible [OF refl] list_ex_iff list_all_iff)
  moreover have "pgp_private_key (a \<in> {Rsa2048, Rsa3072, Rsa4096}) ?parts = Inr k"
    unfolding private_key_accepted [OF len] using bs assms(1) by (auto simp: key_parts_expressible [OF refl] split: PgpPrivateKey.splits)
  moreover have "algorithm_of_code (cpr_algorithm d) = Inr a" "pgp_slot_of (cpr_slot d) = Inr s"
    using assms(2) by (simp_all add: import_agrees_def pgp_codes_accepted)
  moreover have "cpr_component_count d = (if a \<in> {Rsa2048, Rsa3072, Rsa4096} then 6 else 1)"
    using n assms(1) by (simp add: key_parts_expressible [OF refl])
  ultimately show ?thesis using cs by (simp add: pgp_import_def Let_def)
qed

lemma pgp_decoded:
  assumes "pgp_expressible r" "size_of_CnkOpenPgpRequest \<le> cpr_struct_size d" "pgp_agrees d (encode_pgp r)" "pgp_readable d"
  shows "pgp_request d = Inr r"
proof (cases r)
  case (WriteData w)
  then have "pgp_data_write d = Inr w" using assms by (intro write_decoded) simp_all
  moreover have "\<not> pgp_fields_refused d" "cpr_kind d = 11"
    using assms(2,3) by (cases w; auto simp: WriteData pgp_fields_refused_def pgp_agrees_def components_agree_def blank_write_def
        blank_pgp_def not_less split: option.splits)+
  ultimately show ?thesis by (simp add: WriteData pgp_request_def Let_def)
next
  case (ImportKey s a k)
  then have "pgp_import d = Inr r"
    using assms import_decoded [of a k d s] by (simp add: import_agrees_def pgp_agrees_def)
  moreover have "\<not> pgp_fields_refused d" "cpr_kind d = 14"
    using assms(2,3) by (auto simp: ImportKey pgp_fields_refused_def pgp_agrees_def blank_pgp_def not_less)
  ultimately show ?thesis by (simp add: pgp_request_def Let_def)
qed (use assms(1-3) in \<open>auto simp: pgp_request_def pgp_fields_refused_def pgp_agrees_def components_agree_def blank_pgp_def
      Let_def pgp_accepted_parts password_ok_def isize_max_def not_less split: option.splits\<close>)

lemma pgp_accepted:
  assumes "pgp_request d = Inr r" "pgp_readable d"
  shows "pgp_expressible r \<and> size_of_CnkOpenPgpRequest \<le> cpr_struct_size d \<and> pgp_agrees d (encode_pgp r)"
proof -
  have fields: "\<not> pgp_fields_refused d" using assms(1) by (rule contrapos_pn) (simp add: pgp_request_def)
  note f = fields [unfolded pgp_fields_refused_def, simplified]
  consider (writing) "cpr_kind d = 11" | (key) "cpr_kind d = 14" | (other) "cpr_kind d \<noteq> 11" "cpr_kind d \<noteq> 14" by blast
  then show ?thesis
  proof cases
    case writing
    then have "bindE (pgp_data_write d) (\<lambda>w. Inr (WriteData w)) = Inr r"
      using assms(1) fields by (simp add: pgp_request_def Let_def)
    then obtain w where w: "pgp_data_write d = Inr w" "r = WriteData w" by (auto simp: bindE_eq_Inr)
    have "write_expressible w \<and> pgp_agrees d (encode_write w)"
      using f writing by (intro write_accepted [OF w(1) assms(2)]) auto
    then show ?thesis using w(2) f by (simp add: not_less)
  next
    case key
    then have "pgp_import d = Inr r" using assms(1) fields by (simp add: pgp_request_def Let_def)
    from import_accepted [OF this assms(2)] obtain s a k
      where "r = PgpRequest.ImportKey s a k" "key_expressible a k" "import_agrees d s a k" by blast
    then show ?thesis using f key by (auto simp: pgp_agrees_def import_agrees_def blank_pgp_def not_less)
  next
    case other
    then show ?thesis
      using assms(1) fields f
      by (auto simp: pgp_request_def Let_def pgp_agrees_def components_agree_def blank_pgp_def pgp_accepted_parts not_less
          intro: filled ffi_bytes_length split: if_splits)
  qed
qed

section \<open>Properties\<close>


text \<open>
  The header says that only the keymap request may use the full descriptor size. The decoder accepts
  the full size for every request whose keymap fields are zero.
\<close>

lemma full_size_accepted:
  "car_struct_size (encode_admin Firmware) = FULL_SIZE" "admin_request (encode_admin Firmware) = Inr Firmware"
  by (simp_all add: blank_admin_def admin_decoding)

end
