(* ===== verification/C_Programs.thy ===== *)
theory C_Programs
  imports C_Descriptors
begin

text \<open>
  Whole programs against the C interface: the typing of handles that makes a result's kind decide
  which getters apply, and the discovery program of \<open>examples/probe.c\<close> from the constructor to the
  profile.
\<close>

section \<open>Typed handles\<close>

text \<open>
  The operation inside a handle keeps the lifecycle invariant; in particular a completed operation
  holds the result of its own type.
\<close>

abbreviation sound :: "'t COperation \<Rightarrow> bool" where
  "sound \<equiv> op_inv (\<lambda>_. True) (\<lambda>_. True)"

fun inner_typed :: "Inner \<Rightarrow> bool" where
  "inner_typed (OpenPgpOp p) = sound p"
| "inner_typed (OathOp p) = sound p"
| "inner_typed (AdminOp p) = sound p"
| "inner_typed (Sm2AgreementOp p) = sound p"
| "inner_typed (DirectoryOp p) = sound p"
| "inner_typed (ContainerNameOp p) = sound p"
| "inner_typed (ProbeOp p) = sound p"
| "inner_typed (UnitOp p) = sound p"
| "inner_typed (PinStatusOp p) = sound p"
| "inner_typed (ObjectOp p) = sound p"
| "inner_typed (CertificateOp p) = sound p"
| "inner_typed (MutationOp p) = sound p"
| "inner_typed (MetadataOp p) = sound p"
| "inner_typed (BatchOp p) = sound p"
| "inner_typed (PublicKeyOp p) = sound p"
| "inner_typed (SignatureOp p) = sound p"
| "inner_typed (AlgorithmConfigOp p) = sound p"

lemma sound_drive: "sound p \<Longrightarrow> sound (fst (drive_operation r p))"
  using any_machine.step_inv [OF _ step_start] any_machine.step_inv [OF _ step_advance]
  by (cases r) (auto simp: drive_operation_def)

lemma sound_cancel: "sound p \<Longrightarrow> sound (Operation_cancel p)"
  using any_machine.step_inv [OF _ step_cancel] by blast

lemma sound_take: "sound p \<Longrightarrow> sound (fst (Operation_take_result p))"
  using any_machine.step_inv [OF _ step_take] by blast

lemma sound_box: "op_inv (\<lambda>_. True) (\<lambda>_. True) op \<Longrightarrow> sound (box_operation M op)"
  by (auto simp: op_inv_def split: OperationState.splits option.splits)

lemma typed_drive: "inner_typed i \<Longrightarrow> inner_typed (fst (inner_drive r i))"
  by (cases i) (auto simp: sound_drive)

lemma typed_cancel: "inner_typed i \<Longrightarrow> inner_typed (inner_cancel i)"
  by (cases i) (auto simp: sound_cancel)

lemma drive_typed:
  assumes "ffi_drive unwinds (Some cn) step error r = (Some cn', step', error', code)"
    "\<not> cn_poisoned cn \<longrightarrow> inner_typed (cn_inner cn)"
  shows "\<not> cn_poisoned cn' \<longrightarrow> inner_typed (cn_inner cn')"
proof -
  have "cn_poisoned cn' \<or> cn' = cn \<or> \<not> cn_poisoned cn \<and> cn_inner cn' = fst (inner_drive r (cn_inner cn))"
    using assms(1)
    by (auto simp: ffi_drive_def failure_def split: option.splits sum.splits if_splits prod.splits)
  then show ?thesis using assms(2) typed_drive by auto
qed

lemma take_profile_cases:
  assumes "cnk_operation_take_profile (Some cn) out = (Some cn', out', code)"
  shows "cn' = cn \<or> (\<exists>p. cn_inner cn = ProbeOp p \<and> cn' = cn\<lparr>cn_inner := ProbeOp (fst (Operation_take_result p))\<rparr>)"
  using assms
  by (cases "cn_inner cn")
     (auto simp: cnk_operation_take_profile_def split: option.splits if_splits prod.splits sum.splits)

lemma call_typed:
  assumes "c_call unwinds cn cn'" "\<not> cn_poisoned cn \<longrightarrow> inner_typed (cn_inner cn)"
  shows "\<not> cn_poisoned cn' \<longrightarrow> inner_typed (cn_inner cn')"
  using assms(1)
proof (cases rule: c_call.cases)
  case (call_start step error step' error' code)
  then show ?thesis using drive_typed assms(2) by (simp add: cnk_operation_start_def)
next
  case (call_advance response step error step' error' code)
  then show ?thesis using advance_is_drive [OF call_advance] drive_typed assms(2) by blast
next
  case (call_cancel code)
  then show ?thesis using assms(2) by (auto simp: cnk_operation_cancel_def typed_cancel)
next
  case (call_take out out' code)
  then show ?thesis using take_profile_cases [OF call_take] assms(2) sound_take by auto
qed

lemma calls_typed:
  assumes "(c_call unwinds)\<^sup>*\<^sup>* \<lparr>cn_inner = inner, cn_poisoned = False\<rparr> cn" "inner_typed inner" "\<not> cn_poisoned cn"
  shows "inner_typed (cn_inner cn)"
proof -
  have "\<not> cn_poisoned cn \<longrightarrow> inner_typed (cn_inner cn)"
    using assms(1)
  proof (induction rule: rtranclp_induct)
    case base
    then show ?case using assms(2) by simp
  next
    case (step y z)
    then show ?case using call_typed by blast
  qed
  then show ?thesis using assms(3) by blast
qed

lemma completed_result:
  assumes "sound p" "op_state p = Completed"
  obtains v where "Operation_result p = Inr v"
  using assms by (auto simp: op_inv_def Operation_result_def split: option.splits)

lemma completed_of_result:
  assumes "sound p" "op_state p = Completed"
  shows "\<exists>v. of_result p f = f v"
  using completed_result [OF assms] by (metis of_result_def sum.simps(6))

text \<open>Two more getters that copy bytes.\<close>

lemma codes_differ: "TYPE_CODE \<noteq> OK" "ARG \<noteq> TYPE_CODE" "STATE \<noteq> TYPE_CODE" "OK \<noteq> TYPE_CODE"
  by (simp_all add: status_codes)

interpretation configuration_getter: byte_getter "cnk_operation_piv_configuration_copy op"
  "bindE (of_handle op inner_config) (\<lambda>config. Inr (configuration_bytes config))" for op
proof
  have "of_handle op inner_config \<noteq> Inl OK"
    by (rule of_handle_not_ok) (simp add: inner_config_def of_result_not_ok codes_differ split: Inner.splits)
  then show "bindE (of_handle op inner_config) (\<lambda>config. Inr (configuration_bytes config)) \<noteq> Inl OK"
    by (cases "of_handle op inner_config") auto
qed (simp add: cnk_operation_piv_configuration_copy_def)

interpretation ephemeral_getter: byte_getter "cnk_operation_sm2_ephemeral_copy op"
  "bindE (of_handle op (inner_agreement None)) (\<lambda>a. Inr (sm_ephemeral_public a))" for op
proof
  have "of_handle op (inner_agreement None) \<noteq> Inl OK"
    by (rule of_handle_not_ok) (simp add: inner_agreement_def of_result_not_ok codes_differ split: Inner.splits)
  then show "bindE (of_handle op (inner_agreement None)) (\<lambda>a. Inr (sm_ephemeral_public a)) \<noteq> Inl OK"
    by (cases "of_handle op (inner_agreement None)") auto
qed (simp add: cnk_operation_sm2_ephemeral_copy_def)

lemma kind_completed:
  assumes "cnk_operation_result_kind (Some cn) (Some v) = (Some k, OK)"
  shows "\<not> cn_poisoned cn" "inner_state (cn_inner cn) = Completed" "k = result_kind_code (cn_inner cn)"
  using assms by (auto simp: cnk_operation_result_kind_def status_codes split: if_splits)

named_theorems getter_simps \<open>evaluation of getters\<close>

lemmas [getter_simps] = of_handle_def write_pod_def write_scalar_def with_result_def status_codes

text \<open>The status of every getter on a completed, sound handle.\<close>

lemma scalar_getters:
  assumes "inner_typed inner" "inner_state inner = Completed"
  shows "snd (cnk_operation_openpgp_kind (Some \<lparr>cn_inner = inner, cn_poisoned = False\<rparr>) (Some v)) =
      (if result_kind_code inner = 17 then OK else TYPE_CODE)"
    "snd (cnk_operation_signature_encoding (Some \<lparr>cn_inner = inner, cn_poisoned = False\<rparr>) (Some v)) =
      (if result_kind_code inner = 9 then OK else TYPE_CODE)"
    "snd (snd (cnk_operation_take_profile (Some \<lparr>cn_inner = inner, cn_poisoned = False\<rparr>) (Some q))) =
      (if result_kind_code inner = 1 then OK else TYPE_CODE)"
  using assms
  by (cases inner; auto simp: getter_simps cnk_operation_openpgp_kind_def cnk_operation_signature_encoding_def inner_pgp_def
      inner_signature_def of_result_def cnk_operation_take_profile_def Operation_take_result_def op_inv_def
      Operation_result_def split: option.splits)+

lemma pod_getters:
  assumes "inner_typed inner" "inner_state inner = Completed"
  shows "snd (cnk_operation_mutation_result (Some \<lparr>cn_inner = inner, cn_poisoned = False\<rparr>)
        (Some (mu\<lparr>cmr_struct_size := 8\<rparr>))) = (if result_kind_code inner = 6 then OK else TYPE_CODE)"
    "snd (cnk_operation_metadata (Some \<lparr>cn_inner = inner, cn_poisoned = False\<rparr>)
        (Some (me\<lparr>cmd_struct_size := 16\<rparr>))) = (if result_kind_code inner = 7 then OK else TYPE_CODE)"
    "snd (cnk_operation_directory_info (Some \<lparr>cn_inner = inner, cn_poisoned = False\<rparr>)
        (Some (di\<lparr>cdi_struct_size := 16\<rparr>))) = (if result_kind_code inner = 12 then OK else TYPE_CODE)"
    "snd (cnk_operation_admin_outcome (Some \<lparr>cn_inner = inner, cn_poisoned = False\<rparr>)
        (Some (ao\<lparr>cao_struct_size := 48\<rparr>))) = (if result_kind_code inner = 15 then OK else TYPE_CODE)"
    "snd (cnk_operation_batch_progress (Some \<lparr>cn_inner = inner, cn_poisoned = False\<rparr>)
        (Some (bp\<lparr>cbp_struct_size := 16\<rparr>))) = (if result_kind_code inner = 11 then OK else TYPE_CODE)"
  subgoal
    using assms by (cases inner; auto simp: getter_simps cnk_operation_mutation_result_def size_of_CnkMutationResult_def
        inner_mutation_def of_result_def elim: completed_result)
  subgoal
    using assms by (cases inner; auto simp: getter_simps cnk_operation_metadata_def copy_metadata_def size_of_CnkMetadata_def
        inner_metadata_def of_result_def elim: completed_result)
  subgoal
    using assms by (cases inner; auto simp: getter_simps cnk_operation_directory_info_def directory_info_def
        size_of_CnkDirectoryInfo_def inner_directory_def of_result_def elim: completed_result)
  subgoal
    using assms by (cases inner; auto simp: getter_simps cnk_operation_admin_outcome_def
        size_of_CnkAdminOutcome_def inner_admin_def elim: completed_result)
  subgoal
    using assms by (cases inner; auto simp: getter_simps cnk_operation_batch_progress_def
        size_of_CnkBatchProgress_def inner_batch_def batch_progress_def elim: completed_result)
  done

lemma pin_status_getter:
  assumes "inner_typed inner" "inner_state inner = Completed"
  shows "snd (cnk_operation_pin_status (Some \<lparr>cn_inner = inner, cn_poisoned = False\<rparr>)
        (Some (pin\<lparr>cp_struct_size := 12\<rparr>))) \<in>
      (if result_kind_code inner = 3 then {OK} else if result_kind_code inner = 17 then {OK, TYPE_CODE} else {TYPE_CODE})"
  using assms
  by (cases inner; auto simp: status_codes cnk_operation_pin_status_def size_of_CnkPinStatus_def pin_status_pod_def
      of_result_def split: PgpOutcome.splits elim: completed_result)

lemma oath_getter:
  assumes "inner_typed inner" "inner_state inner = Completed"
  shows "snd (cnk_operation_oath_info (Some \<lparr>cn_inner = inner, cn_poisoned = False\<rparr>) index
        (Some (oi\<lparr>coi_struct_size := 56\<rparr>))) \<in>
      (if result_kind_code inner = 16 then {OK, ARG} else {TYPE_CODE})"
proof -
  have "oath_info n index v = Inl c \<Longrightarrow> c = ARG" for n v c
    by (cases v) (auto simp: Let_def split: if_splits option.splits)
  then show ?thesis
    using assms
    by (cases inner; auto simp: status_codes of_handle_def write_pod_def cnk_operation_oath_info_def
        size_of_CnkOathInfo_def inner_oath_def of_result_def split: sum.splits elim: completed_result)
qed

lemma bytes_getter:
  assumes "inner_typed inner" "inner_state inner = Completed"
  shows "result_kind_code inner \<in> {4, 5, 7, 9, 10, 12, 13, 14} \<longleftrightarrow>
      result_kind_code inner \<notin> {15, 17} \<and> (\<exists>d. inner_bytes inner = Inr d)"
    "result_kind_code inner \<in> {1, 2, 3, 6, 8, 11, 16} \<longleftrightarrow>
      result_kind_code inner \<notin> {15, 17} \<and> inner_bytes inner = Inl TYPE_CODE"
  using assms by (cases inner; auto simp: of_result_def elim: completed_result)+

lemma configuration_bytes_getter:
  assumes "inner_typed inner" "inner_state inner = Completed"
  shows "(\<exists>d. query_copy (cnk_operation_piv_configuration_copy (Some \<lparr>cn_inner = inner, cn_poisoned = False\<rparr>)) = Inr d)
      \<longleftrightarrow> result_kind_code inner = 10"
    "(\<exists>d. query_copy (cnk_operation_sm2_ephemeral_copy (Some \<lparr>cn_inner = inner, cn_poisoned = False\<rparr>)) = Inr d)
      \<longleftrightarrow> result_kind_code inner = 14"
  using assms
  by (cases inner; auto simp: configuration_getter.query_copy_content ephemeral_getter.query_copy_content of_handle_def
      inner_config_def inner_agreement_def of_result_def elim: completed_result)+

section \<open>The discovery program\<close>

lemma options_validated:
  "ffi_options opts = Inr options \<Longrightarrow> OperationOptions_validate options = Inr options"
  by (auto simp: ffi_options_def OperationOptions_validate_def conversation_eval split: option.splits if_splits sum.splits)

lemma probe_created:
  assumes "probe_mode mode = Inr m" "ffi_options opts = Inr options" "size_of_CnkError \<le> er_struct_size pod"
  obtains op where "probe_device \<lparr>po_mode = m, po_observed_serial = None, po_operation = options\<rparr> = Inr op"
    "Operation_from_machine (Probe_new \<lparr>po_mode = m, po_observed_serial = None, po_operation = options\<rparr>) options = Inr op"
    "cnk_probe_device_new mode opts (Some None) (Some pod) =
       (Some (Some (probe_variant.handle Probe_ops op)), Some (cleared (er_struct_size pod)), OK)"
proof -
  let ?po = "\<lparr>po_mode = m, po_observed_serial = None, po_operation = options\<rparr>"
  obtain op :: "(Probe, DeviceProfile) Operation" where op: "Operation_from_machine (Probe_new ?po) options = Inr op"
    using options_validated [OF assms(2)] by (simp add: Operation_from_machine_def)
  have "cnk_probe_device_new mode opts (Some None) (Some pod) =
      created ProbeOp Probe_ops (er_struct_size pod) (probe_device ?po)"
    unfolding cnk_probe_device_new_def
    by (rule create_exact) (use assms in \<open>simp_all add: abi_simps\<close>)
  moreover have "probe_device ?po = Inr op" using op by (simp add: probe_device_def)
  ultimately show ?thesis using op by (intro that) simp_all
qed

lemma profile_taken:
  assumes "sound p" "op_state p = Completed"
  obtains profile p' where "Operation_result p = Inr profile"
    "cnk_operation_take_profile (Some \<lparr>cn_inner = ProbeOp p, cn_poisoned = False\<rparr>) (Some q) =
       (Some \<lparr>cn_inner = ProbeOp p', cn_poisoned = False\<rparr>, Some (Some profile), OK)"
    "op_state p' = ResultTaken"
  using assms
  by (auto simp: cnk_operation_take_profile_def Operation_take_result_def Operation_result_def op_inv_def
      split: option.splits)

lemma profile_refused:
  "op_state p \<noteq> Completed \<Longrightarrow>
     cnk_operation_take_profile (Some \<lparr>cn_inner = ProbeOp p, cn_poisoned = False\<rparr>) (Some q) =
       (Some \<lparr>cn_inner = ProbeOp p, cn_poisoned = False\<rparr>, Some None, STATE)"
  by (simp add: cnk_operation_take_profile_def Operation_take_result_def)

section \<open>Properties\<close>



text \<open>C17: discovery through the C interface, from the constructor to the profile. With a known mode and
valid options the constructor returns a handle; the example's loop ends within the exchange budget
on every card, with the bytes the Rust operation exchanges; then either the last step is DONE and
taking the profile once gives the profile of the Rust operation (a second attempt is refused), or
the status is an error, its POD can be read again from the handle, and there is no profile.\<close>

theorem c_probe_program:
  assumes "probe_mode mode = Inr m" "ffi_options opts = Inr options" "size_of_CnkError \<le> er_struct_size pod"
    "\<forall>w b. length (snd (tx w b)) \<le> isize_max"
  shows "\<exists>op cn w' op' r cn' step pod' code.
     probe_device \<lparr>po_mode = m, po_observed_serial = None, po_operation = options\<rparr> = Inr op
   \<and> cnk_probe_device_new mode opts (Some None) (Some pod) =
       (Some (Some cn), Some (cleared (er_struct_size pod)), OK)
   \<and> run_operation (max_exchanges (limits options)) Probe_ops tx w op = Some (w', op', r)
   \<and> c_session (max_exchanges (limits options)) no_unwind tx w cn (cleared (er_struct_size pod)) =
       Some (w', cn', step, pod', code)
   \<and> (code = OK \<and> step = 2 \<and> (\<exists>profile cn''. Operation_result op' = Inr profile
         \<and> cnk_operation_take_profile (Some cn') (Some q) = (Some cn'', Some (Some profile), OK)
         \<and> cnk_operation_take_profile (Some cn'') (Some q) = (Some cn'', Some None, STATE))
      \<or> code \<in> {ARG, STATE, PROTOCOL} \<and> step = 0 \<and> (\<exists>e. r = Inl e \<and> read_error pod' = Some e)
         \<and> cnk_operation_error (Some cn') (Some pod) = (Some pod', OK)
         \<and> cnk_operation_take_profile (Some cn') (Some q) = (Some cn', Some None, STATE))"
proof -
  let ?n = "er_struct_size pod"
  obtain op where op: "probe_device \<lparr>po_mode = m, po_observed_serial = None, po_operation = options\<rparr> = Inr op"
    "Operation_from_machine (Probe_new \<lparr>po_mode = m, po_observed_serial = None, po_operation = options\<rparr>) options = Inr op"
    "cnk_probe_device_new mode opts (Some None) (Some pod) =
       (Some (Some (probe_variant.handle Probe_ops op)), Some (cleared ?n), OK)"
    by (rule probe_created [OF assms(1-3)])
  obtain w' op' r where run: "run_operation (max_exchanges (limits options)) Probe_ops tx w op = Some (w', op', r)"
      and "op_state op' = Completed \<and> r = Inr Step.Done \<or> op_state op' = Failed \<and> (\<exists>e. r = Inl e \<and> op_error op' = Some e)"
    using run_operation_total [OF op(2), of Probe_ops tx w] by blast
  let ?cn = "probe_variant.handle Probe_ops op'"
  have "c_session (max_exchanges (limits options)) no_unwind tx w (probe_variant.handle Probe_ops op) (cleared ?n) =
      Some (w', ?cn, c_outcome ?n r)"
    using probe_variant.session_exact [OF op(2), of "cleared ?n" tx] run assms(3,4) by (simp add: cleared_def)
  note session = op(1,3) run this
  have sound: "sound (box_operation Probe_ops op')"
    using run_operation_inv [OF run] from_machine_inv(1) [OF op(2)] sound_box by simp
  from \<open>_ \<or> _\<close> show ?thesis
  proof
    assume completed: "op_state op' = Completed \<and> r = Inr Step.Done"
    then obtain profile p' where p: "Operation_result op' = Inr profile"
      "cnk_operation_take_profile (Some ?cn) (Some q) =
         (Some \<lparr>cn_inner = ProbeOp p', cn_poisoned = False\<rparr>, Some (Some profile), OK)" "op_state p' = ResultTaken"
      using completed profile_taken [OF sound, of q] by auto
    then have "cnk_operation_take_profile (Some \<lparr>cn_inner = ProbeOp p', cn_poisoned = False\<rparr>) (Some q) =
         (Some \<lparr>cn_inner = ProbeOp p', cn_poisoned = False\<rparr>, Some None, STATE)"
      by (simp add: profile_refused)
    with session completed p show ?thesis
      by (intro exI [of _ op] exI [of _ "probe_variant.handle Probe_ops op"] exI [of _ w'] exI [of _ op'] exI [of _ r]
          exI [of _ ?cn] exI [of _ 2] exI [of _ "cleared ?n"] exI [of _ OK]) auto
  next
    assume "op_state op' = Failed \<and> (\<exists>e. r = Inl e \<and> op_error op' = Some e)"
    then obtain e where e: "op_state op' = Failed" "r = Inl e" "op_error op' = Some e" by blast
    have "read_error (write_error e (cleared ?n)) = Some e" "failure_code (e_kind e) \<in> {ARG, STATE, PROTOCOL}"
      by (rule error_pod_read, simp add: failure_code_def status_codes)
    moreover have "cnk_operation_error (Some ?cn) (Some pod) = (Some (write_error e (cleared ?n)), OK)"
      using e assms(3) leD [OF assms(3)] by (simp add: cnk_operation_error_def clear_error_def failure_def)
    ultimately show ?thesis using session e profile_refused [of "box_operation Probe_ops op'" q]
      by (intro exI [of _ op] exI [of _ "probe_variant.handle Probe_ops op"] exI [of _ w'] exI [of _ op'] exI [of _ r]
          exI [of _ ?cn] exI [of _ 0] exI [of _ "write_error e (cleared ?n)"] exI [of _ "failure_code (e_kind e)"]) auto
  qed
qed

theorem c_probe_program_witness:
  "\<exists>cn result. cnk_probe_device_new 0 None (Some None) (Some (cleared 24)) = (Some (Some cn), Some (cleared 24), OK)
     \<and> c_session 4096 no_unwind (\<lambda>(w :: unit) b. (w, [0x6d, 0])) () cn (cleared 24) = Some result"
proof -
  have "max_exchanges (limits OperationOptions_default) = 4096"
    by (simp add: OperationOptions_default_def OperationLimits_default_def)
  with c_probe_program [of 0 Minimal None OperationOptions_default "cleared 24" "\<lambda>(w :: unit) b. (w, [0x6d, 0])" "()"]
  show ?thesis
    by (simp add: probe_mode_def ffi_options_def size_of_CnkError_def cleared_def isize_max_def) blast
qed

end
