(* ===== verification/Spec2Isabelle.thy ===== *)
theory Spec2Isabelle
  imports Tlv Ndef Cose Oath_Applet Admin_Applet Piv_Batch Device_Probe OpenPgp_Applet Ctap_Blob Ctap_U2f
    C_Requests C_Programs
begin

text \<open>
  Verification of libcanokey, a host library for CanoKey security keys (\<open>src/crates\<close>).

  The library never performs input or output. An application holds an \<^emph>\<open>operation\<close>, asks it for the
  next command bytes, sends them over a transport of its own and feeds the response bytes back. The
  parts build on each other in this order:

  \<^item> \<open>canokey-protocol\<close>: errors (\<open>error.rs\<close>), APDU encoding (\<open>apdu.rs\<close>), BER-TLV (\<open>tlv.rs\<close>),
    and the operation engine (\<open>operation.rs\<close>), which turns one logical command into physical frames
    (chaining, Le correction, GET RESPONSE and the OATH continuation) and drives an applet machine;
  \<^item> \<open>canokey-compat\<close>: which firmware supports what, and the wire identifiers of algorithms;
  \<^item> \<open>canokey-key\<close>: public key objects shared by PIV and OpenPGP;
  \<^item> one crate per applet (\<open>canokey-ndef\<close>, \<open>canokey-oath\<close>, \<open>canokey-admin\<close>, \<open>canokey-piv\<close>,
    \<open>canokey-ctap\<close>, \<open>canokey-openpgp\<close>): factories that check a request against the device profile
    and the channel, and return an operation whose machine issues logical commands and reacts to
    their responses;
  \<^item> \<open>canokey\<close> (facade and device probe) and \<open>canokey-c\<close> (C interface).

  \<^bold>\<open>How the model follows the code.\<close> A struct is a record, an enum a datatype, a fallible function
  returns \<open>'a res\<close> with \<open>Inl\<close> for the error it returns, and \<open>bindE\<close> is the operator \<open>?\<close>. Integers that
  can wrap are words; \<open>usize\<close> is \<open>nat\<close> with the checked operations of the source. A method that takes
  \<open>&mut self\<close> returns the new state beside its result, including the state left behind by an error. A
  type that implements \<open>engine::Machine\<close> is its state and a function from the state and the last
  response to the new state and an action (a command, or a result); the record \<open>Machine\<close> collects such
  functions, so that the operation engine and the PIV access wrapper are modelled once for every
  machine. Loops over a buffer are recursive functions with termination proofs; the only fuel is that
  of \<open>machine_exec\<close> and \<open>exchange_loop\<close>, which run a machine or the caller's loop against a card, and
  the theorems that use them show the fuel that is enough (the exchange budget plus one, or a bound
  on the commands of the machine). Secrets are plain byte lists: wiping memory has no counterpart.

  \<^bold>\<open>Theories.\<close>

  \<^item> \<open>Prelude\<close>: results, slices, checked arithmetic, big-endian bytes. \<open>Codec\<close>: the locale
    \<open>prefix_codec\<close>, the contract of a self-delimiting field codec, with the theorems about decoding
    loops; it is interpreted for BER-TLV fields (\<open>Tlv\<close>) and for OATH fields (\<open>Oath_Applet\<close>).
  \<^item> \<open>Errors\<close>, \<open>Apdu\<close>, \<open>Tlv\<close>: \<open>error.rs\<close>, \<open>apdu.rs\<close>, \<open>tlv.rs\<close>. Encoded commands decode back by an
    independent reading of the standard; the strict TLV reader and the writer are inverse.
  \<^item> \<open>Conversation\<close>: \<open>ConversationState\<close>. The frames fit the channel and decode to the logical
    command; the data of all responses is reassembled; Le is corrected once.
  \<^item> \<open>Operation\<close>: \<open>Operation\<close>, \<open>engine::Machine\<close>. The lifecycle is the transition system \<open>op_step\<close>;
    the locales \<open>machine_contract\<close> and \<open>bounded_machine\<close> lift an invariant, a postcondition and a
    command bound of a machine to every operation around it. The invariant of all reachable
    operations, absorbing terminal states and termination of the caller's loop are proved here.
  \<^item> \<open>Compat\<close>: versions, capability decisions, algorithm identifiers.
  \<^item> \<open>Applet\<close>: recorded runs of a machine (\<open>trace_run\<close>) and the locale \<open>preflighted_machine\<close>: a
    factory that validates what the machine may send never fails for space half way.
  \<^item> \<open>Ndef\<close>: the three NDEF machines against a model of a Type 4 tag: crash consistency of writes,
    write-read round trip, bounds.
  \<^item> \<open>Cbor\<close>, \<open>Cose\<close>: \<open>cbor.rs\<close>, \<open>cose.rs\<close>, \<open>authdata.rs\<close>. The parser accepts exactly the canonical
    encodings; encoding is injective up to map order; authenticator data has exactly one layout.
  \<^item> \<open>Oath_Applet\<close>: \<open>canokey-oath\<close>. No request before the access protocol completed, sufficient
    preflight, exact response parsers.
  \<^item> \<open>Admin_Applet\<close>: \<open>canokey-admin\<close>. Authentication first, exact progress, configuration patches
    change exactly what they name.
  \<^item> \<open>Key\<close>: \<open>canokey-key\<close>. Exactly the well-formed keys are parsed and exported.
  \<^item> \<open>Piv_Core\<close>, \<open>Piv_Objects\<close>, \<open>Piv_Protection\<close>: commands, credentials, the access wrapper,
    objects, certificates, metadata and protection of \<open>canokey-piv\<close>. The access wrapper refines
    "authenticate, then run the target"; random numbers, certificates, management-key rotation and
    PIN-managed protection.
  \<^item> \<open>Piv_Config\<close>, \<open>Piv_Keys\<close>, \<open>Piv_Agreement\<close>, \<open>Piv_Batch\<close>: \<open>configuration.rs\<close>, \<open>keys.rs\<close> and
    \<open>private.rs\<close>, \<open>streaming.rs\<close> and \<open>sm2_agreement.rs\<close>, \<open>batch.rs\<close>. Container names, digest
    truncation, signature conversion, the order of an SM2 agreement, streamed messages, and a batch as
    the sequential execution of its items. A batch holds machines of different types behind a trait
    object; the codatatype \<open>DynMachine\<close> is such an object, the stream of its possible reactions.

  \<^item> \<open>Device_Probe\<close>: \<open>probe.rs\<close> of \<open>canokey\<close>. The discovery machine equals a straight-line program and
    completes on every card that answers in well-formed ways.
  \<^item> \<open>OpenPgp_Data\<close>, \<open>OpenPgp_Applet\<close>: \<open>types.rs\<close>, \<open>data.rs\<close> and \<open>keys.rs\<close>, and \<open>execute.rs\<close> of
    \<open>canokey-openpgp\<close>. Data objects, algorithm attributes and import templates are exact; no password
    before the algorithm is confirmed, no protected command before its password was accepted.
  \<^item> \<open>Ctap_Core\<close>: \<open>lib.rs\<close> and \<open>status.rs\<close> of \<open>canokey-ctap\<close>, the selection followed by one wrapped
    message; the locale \<open>one_message\<close> states the contract of every factory of that form and is
    interpreted for each of them in the theories that follow.
  \<^item> \<open>Ctap_Pin\<close> (\<open>pin.rs\<close>, \<open>hmacsecret.rs\<close>), \<open>Ctap_Commands\<close> (\<open>ctap2.rs\<close>), \<open>Ctap_Management\<close>
    (\<open>credmgmt.rs\<close>, \<open>config.rs\<close>), \<open>Ctap_Blob\<close> (\<open>largeblob.rs\<close>), \<open>Ctap_U2f\<close> (\<open>u2f.rs\<close>). What the
    authenticator reads from a request is what was asked for, encrypted and authenticated parameters
    included; enumerations are complete; a large-blob array that was written is read back.

  \<^item> \<open>C_Handle\<close>, \<open>C_Piv\<close>, \<open>C_Results\<close>, \<open>C_Batch\<close>, \<open>C_Applets\<close>: the C interface \<open>canokey-c\<close>. \<open>C_Handle\<close> is
    \<open>lib.rs\<close>: status codes, the error POD, memory arguments, handles with their seventeen variants,
    the calls of the lifecycle and the profile. The others hold the constructors of \<open>piv_*.rs\<close>,
    the getters, and the descriptors of batches, \<open>oath.rs\<close>, \<open>admin.rs\<close> and \<open>openpgp.rs\<close>.
    A call takes the memory its pointers reach and returns what it writes there beside the status: a
    pointer is an option (NULL is \<open>None\<close>), a pointer with a length is a \<open>span\<close>, a structure is a record
    with the size its caller declared. A constructor body is a computation \<open>'a abi\<close> that may write
    the error POD. A Rust operation inside a handle is one whose machine sits behind a trait object:
    \<open>box_operation\<close> replaces the machine by its tree of reactions, and boxing commutes with every call.
  \<^item> \<open>C_Session\<close>: the locale \<open>byte_getter\<close> (query the size, then copy) and the locale \<open>dispatched\<close>
    (what the macro \<open>dispatch!\<close> gives for a variant), interpreted for every variant. A C program's
    loop computes what driving the Rust operation computes; the error POD is read back whole; getters
    keep to their buffers; a handle that has unwound stays unusable.
  \<^item> \<open>C_Descriptors\<close>, \<open>C_Requests\<close>: the caller's side, encoders that fill descriptors as \<open>canokey.h\<close> says.
    Decoding gives back credentials and batches, and the OATH, Admin and OpenPGP decoders accept exactly
    the encodings. \<open>C_Programs\<close>: results are typed by their kind, and discovery from the constructor to
    the profile.

  Each theory states its properties last, each under the identifier the manifest gives it, with a
  concrete run or value as its witness where it has hypotheses.

  \<^bold>\<open>Parameters.\<close> Cryptography and ASN.1 come from packages outside the repository and are arguments of
  the definitions that use them: HMAC-SHA1 and PBKDF2 (\<open>hm\<close>, \<open>kdf\<close> in \<open>Oath_Applet\<close>), the block ciphers
  of PIV management keys (\<open>bc\<close> in \<open>Piv_Core\<close>), the gzip decoder (\<open>gz\<close> in \<open>Piv_Objects\<close>) and the DER
  encoders (the record \<open>Asn1\<close> in \<open>Key\<close>, \<open>EcDer\<close> in \<open>Piv_Keys\<close>), the curve checks (\<open>scalar_ok\<close>, \<open>point_ok\<close>),
  collected in the record \<open>Packages\<close> of \<open>Piv_Batch\<close>, and SHA-256, HMAC, HKDF, AES-CBC and P-256 (the record
  \<open>CtapCrypto\<close> of \<open>Ctap_Pin\<close>). Hypotheses about them are named (\<open>asn1_total\<close>, the length of an HMAC, \<open>crypto_ok\<close>) and hold for the instances in the witnesses.

  The C interface takes the same arguments. Where a driving call may unwind is the parameter \<open>unwinds\<close>,
  which gives the state a panic leaves behind; the sessions of \<open>c_session\<close> are those without one. Sizes
  of structures are those of a target with 64-bit pointers. The fuel of \<open>c_session\<close> is the exchange
  budget of the operation, which is enough (\<open>c_probe_program\<close>).

  \<^bold>\<open>Not modelled.\<close> The re-exports of the facade and of \<open>canokey-protocol/src/lib.rs\<close>, which hold no
  code; memory wiping and \<open>Debug\<close> output; the transports, which belong to the application. In the C
  interface: \<open>catch_unwind\<close> around calls that do not drive an operation (\<open>guard\<close>) is the identity, since
  the modelled bodies do not panic; memory outside what a pointer and its length reach, and aliasing
  of outputs with inputs, which the documented contract forbids. The descriptor encoder of
  \<open>C_Descriptors\<close> leaves out key imports, whose request no longer holds the components it was made from.
\<close>

end
